(* ===== verification/StruktPrelude.thy ===== *)
theory StruktPrelude imports Main "HOL-Library.Word" begin

text \<open>
  Shared vocabulary of the development: the machine integers of the Rust sources, results and
  the question-mark operator, saturating and checked arithmetic, and the list operations
  (\<open>Iterator::position\<close>, \<open>Iterator::find\<close>) that several components use, with the lemmas the
  component proofs rest on.

  A fallible method with a mutable receiver, \<open>fn op(&mut self, ..) -> Result<T, E>\<close>, is a
  function to \<open>('e + 'a) \<times> 's\<close>: the result (\<open>Inl\<close> the error) and the state the receiver is
  left in, on every branch, the failing ones too.
\<close>

section \<open>Machine integers\<close>

type_synonym u8 = "8 word"
type_synonym u16 = "16 word"
type_synonym u32 = "32 word"
type_synonym u64 = "64 word"

text \<open>\<open>u64::saturating_add(1)\<close>, the step of every revision and generation counter.\<close>

definition sat_inc :: "u64 \<Rightarrow> u64" where
  "sat_inc x = (if x = - 1 then x else x + 1)"

text \<open>\<open>usize::checked_add\<close> on a 64-bit target.\<close>

definition checked_add_usize :: "nat \<Rightarrow> nat \<Rightarrow> nat option" where
  "checked_add_usize a b = (if a + b < 2 ^ 64 then Some (a + b) else None)"

text \<open>\<open>usize::saturating_add\<close> on a 64-bit target.\<close>

definition sat_add_usize :: "nat \<Rightarrow> nat \<Rightarrow> nat" where
  "sat_add_usize a b = min (a + b) (2 ^ 64 - 1)"

lemma sat_inc_nonzero [simp]: "sat_inc x \<noteq> 0"
proof (cases "x = - 1")
  case True
  then show ?thesis by (simp add: sat_inc_def)
next
  case False
  then have "x + 1 \<noteq> 0" using max_word_wrap [of x] by blast
  with False show ?thesis by (simp add: sat_inc_def)
qed

lemma sat_inc_max [simp]: "sat_inc (- 1) = - 1"
  by (simp add: sat_inc_def)

lemma sat_inc_neq: "x \<noteq> - 1 \<Longrightarrow> sat_inc x \<noteq> x"
  by (simp add: sat_inc_def)

lemma unat_max_u64 [simp]: "unat (- 1 :: u64) = 2 ^ 64 - 1"
  by (simp add: unsigned_minus_1_eq_mask mask_eq_exp_minus_1)

lemma unat_sat_inc: "unat (sat_inc x) = min (unat x + 1) (2 ^ 64 - 1)"
proof (cases "x = - 1")
  case True
  then show ?thesis by (simp add: sat_inc_def)
next
  case False
  then have "x + 1 \<noteq> 0" using max_word_wrap [of x] by blast
  then have s: "unat (x + 1) = Suc (unat x)" by (metis Suc_eq_plus1 add.commute unatSuc)
  have "unat (x + 1) < 2 ^ 64" using unsigned_less [of "x + 1", where ?'a = nat] by simp
  with s False show ?thesis by (simp add: sat_inc_def)
qed

lemma sat_inc_mono: "x \<le> sat_inc x"
  unfolding word_le_nat_alt unat_sat_inc using unsigned_less [of x, where ?'a = nat] by simp

section \<open>Results and the question-mark operator\<close>

definition attempt :: "('e + 'b) \<Rightarrow> 's \<Rightarrow> ('b \<Rightarrow> ('e + 'a) \<times> 's) \<Rightarrow> ('e + 'a) \<times> 's" where
  "attempt r s k = (case r of Inl e \<Rightarrow> (Inl e, s) | Inr x \<Rightarrow> k x)"

definition ok_or :: "'a option \<Rightarrow> 'e \<Rightarrow> 'e + 'a" where
  "ok_or x e = (case x of None \<Rightarrow> Inl e | Some y \<Rightarrow> Inr y)"

definition ensure :: "bool \<Rightarrow> 'e \<Rightarrow> 'e + unit" where
  "ensure b e = (if b then Inr () else Inl e)"

definition and_then :: "('e + 'b) \<Rightarrow> ('b \<Rightarrow> 'e + 'a) \<Rightarrow> 'e + 'a" where
  "and_then r k = (case r of Inl e \<Rightarrow> Inl e | Inr x \<Rightarrow> k x)"

definition map_err :: "('e \<Rightarrow> 'f) \<Rightarrow> ('e + 'a) \<Rightarrow> 'f + 'a" where
  "map_err f r = (case r of Inl e \<Rightarrow> Inl (f e) | Inr x \<Rightarrow> Inr x)"

named_theorems outcome "when a chain of question-mark steps succeeds, and when it fails"

lemma attempt_simps [simp]:
  "attempt (Inl e) s k = (Inl e, s)"
  "attempt (Inr x) s k = k x"
  by (simp_all add: attempt_def)

lemma ok_or_simps [simp]:
  "ok_or None e = Inl e"
  "ok_or (Some y) e = Inr y"
  by (simp_all add: ok_or_def)

lemma ensure_simps [simp]:
  "ensure True e = Inr ()"
  "ensure False e = Inl e"
  by (simp_all add: ensure_def)

lemma and_then_simps [simp]:
  "and_then (Inl e) k = Inl e"
  "and_then (Inr x) k = k x"
  by (simp_all add: and_then_def)

lemma map_err_simps [simp]:
  "map_err f (Inl e) = Inl (f e)"
  "map_err f (Inr x) = Inr x"
  by (simp_all add: map_err_def)

lemma attempt_ok [outcome]:
  "attempt r s k = (Inr a, t) \<longleftrightarrow> (\<exists>x. r = Inr x \<and> k x = (Inr a, t))"
  by (auto simp: attempt_def split: sum.splits)

lemma attempt_err [outcome]:
  "attempt r s k = (Inl e, t) \<longleftrightarrow> (r = Inl e \<and> t = s) \<or> (\<exists>x. r = Inr x \<and> k x = (Inl e, t))"
  by (auto simp: attempt_def split: sum.splits)

lemma ok_or_ok [outcome]: "ok_or x e = Inr y \<longleftrightarrow> x = Some y"
  by (auto simp: ok_or_def split: option.splits)

lemma ok_or_err [outcome]: "ok_or x e = Inl f \<longleftrightarrow> x = None \<and> f = e"
  by (auto simp: ok_or_def split: option.splits)

lemma ensure_ok [outcome]: "ensure b e = Inr u \<longleftrightarrow> b"
  by (auto simp: ensure_def)

lemma ensure_err [outcome]: "ensure b e = Inl f \<longleftrightarrow> \<not> b \<and> f = e"
  by (auto simp: ensure_def)

lemma and_then_ok [outcome]: "and_then r k = Inr a \<longleftrightarrow> (\<exists>x. r = Inr x \<and> k x = Inr a)"
  by (auto simp: and_then_def split: sum.splits)

lemma and_then_err [outcome]:
  "and_then r k = Inl e \<longleftrightarrow> r = Inl e \<or> (\<exists>x. r = Inr x \<and> k x = Inl e)"
  by (auto simp: and_then_def split: sum.splits)

lemma map_err_ok [outcome]: "map_err f r = Inr a \<longleftrightarrow> r = Inr a"
  by (auto simp: map_err_def split: sum.splits)

lemma map_err_err [outcome]: "map_err f r = Inl e \<longleftrightarrow> (\<exists>d. r = Inl d \<and> e = f d)"
  by (auto simp: map_err_def split: sum.splits)

lemma if_err_ok [outcome]:
  "(if b then (Inl e, s) else m) = (Inr a, t) \<longleftrightarrow> \<not> b \<and> m = (Inr a, t)"
  by auto

section \<open>What a fallible step ends in\<close>

text \<open>
  \<open>ends m Q\<close>: the result and the state a step ends in satisfy \<open>Q\<close>. The rules walk a chain of
  question-mark steps the way the code runs it, one goal per early return.
\<close>

definition ends :: "'r \<times> 's \<Rightarrow> ('r \<Rightarrow> 's \<Rightarrow> bool) \<Rightarrow> bool" where
  "ends m Q \<longleftrightarrow> Q (fst m) (snd m)"

named_theorems walk "rules that walk the early returns of a step"

lemma ends_pair [walk]: "Q r s \<Longrightarrow> ends (r, s) Q"
  by (simp add: ends_def)

lemma ends_attempt [walk]:
  assumes "\<And>e. r = Inl e \<Longrightarrow> Q (Inl e) s" "\<And>x. r = Inr x \<Longrightarrow> ends (k x) Q"
  shows "ends (attempt r s k) Q"
  using assms by (cases r) (simp_all add: ends_def)

lemma ends_if [walk]:
  "(b \<Longrightarrow> ends m Q) \<Longrightarrow> (\<not> b \<Longrightarrow> ends n Q) \<Longrightarrow> ends (if b then m else n) Q"
  by simp

lemma ends_let [walk]: "ends (f x) Q \<Longrightarrow> ends (let y = x in f y) Q"
  by (simp add: Let_def)

lemma ends_prod [walk]:
  "(\<And>a b. p = (a, b) \<Longrightarrow> ends (f a b) Q) \<Longrightarrow> ends (case p of (a, b) \<Rightarrow> f a b) Q"
  by (cases p) simp

lemma ends_bool [walk]:
  "(b \<Longrightarrow> ends m Q) \<Longrightarrow> (\<not> b \<Longrightarrow> ends n Q) \<Longrightarrow> ends (case b of True \<Rightarrow> m | False \<Rightarrow> n) Q"
  by (cases b) simp_all

lemma endsD: "ends m Q \<Longrightarrow> m = (r, s) \<Longrightarrow> Q r s"
  by (simp add: ends_def)

section \<open>Lists\<close>

text \<open>\<open>iter().position(p)\<close>: the index of the first element that satisfies the predicate.\<close>

fun position :: "('a \<Rightarrow> bool) \<Rightarrow> 'a list \<Rightarrow> nat option" where
  "position p [] = None"
| "position p (x # xs) = (if p x then Some 0 else map_option Suc (position p xs))"

text \<open>\<open>slice::get\<close>: out of range is None, never a panic.\<close>

definition nth_opt :: "'a list \<Rightarrow> nat \<Rightarrow> 'a option" where
  "nth_opt xs i = (if i < length xs then Some (xs ! i) else None)"

text \<open>\<open>Vec::remove\<close> at an index in range.\<close>

definition remove_at :: "nat \<Rightarrow> 'a list \<Rightarrow> 'a list" where
  "remove_at i xs = take i xs @ drop (Suc i) xs"

definition last_opt :: "'a list \<Rightarrow> 'a option" where
  "last_opt xs = (if xs = [] then None else Some (last xs))"

definition first_opt :: "'a list \<Rightarrow> 'a option" where
  "first_opt xs = (case xs of [] \<Rightarrow> None | x # _ \<Rightarrow> Some x)"

lemma position_None: "position p xs = None \<longleftrightarrow> (\<forall>x \<in> set xs. \<not> p x)"
  by (induction xs) auto

lemma position_Some_split:
  assumes "position p xs = Some i"
  obtains ys x zs where "xs = ys @ x # zs" "i = length ys" "p x" "\<forall>y \<in> set ys. \<not> p y"
  using assms
proof (induction xs arbitrary: i thesis)
  case Nil
  then show ?case by simp
next
  case (Cons a xs)
  show ?case
  proof (cases "p a")
    case True
    with Cons.prems(2) show ?thesis by (intro Cons.prems(1) [of "[]" a xs]) auto
  next
    case False
    with Cons.prems(2) obtain j where "position p xs = Some j" "i = Suc j" by auto
    then obtain ys x zs where "xs = ys @ x # zs" "j = length ys" "p x" "\<forall>y \<in> set ys. \<not> p y"
      using Cons.IH by blast
    with False \<open>i = Suc j\<close> show ?thesis by (intro Cons.prems(1) [of "a # ys" x zs]) auto
  qed
qed

lemma position_SomeD:
  assumes "position p xs = Some i"
  shows "i < length xs" "p (xs ! i)"
  using assms by (auto elim!: position_Some_split)

lemma position_exists: "x \<in> set xs \<Longrightarrow> p x \<Longrightarrow> \<exists>i. position p xs = Some i"
  by (cases "position p xs") (auto simp: position_None)

lemma position_append_here:
  "p x \<Longrightarrow> \<forall>y \<in> set ys. \<not> p y \<Longrightarrow> position p (ys @ x # zs) = Some (length ys)"
  by (induction ys) auto

lemma position_update: "position p xs = Some i \<Longrightarrow> p y \<Longrightarrow> position p (xs[i := y]) = Some i"
  by (induction xs arbitrary: i) (auto split: if_splits nat.splits)

lemma nth_opt_None [simp]: "nth_opt xs i = None \<longleftrightarrow> length xs \<le> i"
  by (auto simp: nth_opt_def)

lemma nth_opt_Some: "nth_opt xs i = Some x \<longleftrightarrow> i < length xs \<and> x = xs ! i"
  by (auto simp: nth_opt_def)

lemma nth_opt_in_set: "nth_opt xs i = Some x \<Longrightarrow> x \<in> set xs"
  by (auto simp: nth_opt_Some)

lemma remove_at_split [simp]: "remove_at (length ys) (ys @ x # zs) = ys @ zs"
  by (simp add: remove_at_def)

lemma last_opt_Some: "last_opt xs = Some x \<longleftrightarrow> xs \<noteq> [] \<and> x = last xs"
  by (auto simp: last_opt_def)

lemma last_opt_in_set: "last_opt xs = Some x \<Longrightarrow> x \<in> set xs"
  by (auto simp: last_opt_def split: if_splits)

lemma first_opt_simps [simp]: "first_opt [] = None" "first_opt (x # xs) = Some x"
  by (simp_all add: first_opt_def)

lemma first_opt_None [simp]: "first_opt xs = None \<longleftrightarrow> xs = []"
  by (cases xs) auto

lemma first_opt_in_set: "first_opt xs = Some x \<Longrightarrow> x \<in> set xs"
  by (cases xs) auto

lemma find_Some_in: "find p xs = Some x \<Longrightarrow> x \<in> set xs \<and> p x"
  by (induction xs) (auto split: if_splits)

lemma find_None_all: "find p xs = None \<longleftrightarrow> (\<forall>x \<in> set xs. \<not> p x)"
  by (induction xs) auto

lemma find_distinct_key:
  "distinct (map f xs) \<Longrightarrow> x \<in> set xs \<Longrightarrow> find (\<lambda>y. f y = f x) xs = Some x"
proof (induction xs)
  case Nil
  then show ?case by simp
next
  case (Cons a xs)
  then show ?case by (cases "a = x") (auto simp: image_iff)
qed

lemma foldl_sum_list [simp]: "foldl (+) (a::nat) xs = a + sum_list xs"
  by (induction xs arbitrary: a) auto

end
