(* ===== verification/PaneTree.thy ===== *)
theory PaneTree imports StruktPrelude begin

text \<open>
  The contract of a binary tree of panes. Two crates keep such a tree, with their own node types
  and their own code: \<open>SessionLayoutNode\<close> (strukt-session) and \<open>LayoutNode\<close> (strukt-terminal).
  What the catalog and the terminal workspace rely on is stated once, over the panes in layout
  order, and each crate's operations are shown to be an instance of it.
\<close>

text \<open>\<open>enum SplitAxis\<close> of strukt-terminal, used by both trees.\<close>

datatype split_axis = Horizontal | Vertical

locale pane_tree =
  fixes leaves :: "'t \<Rightarrow> 'p list"
    and contains_leaf :: "'t \<Rightarrow> 'p \<Rightarrow> bool"
    and split_leaf :: "'t \<Rightarrow> 'p \<Rightarrow> 'p \<Rightarrow> split_axis \<Rightarrow> bool \<times> 't"
    and remove_leaf :: "'t \<Rightarrow> 'p \<Rightarrow> 't option"
    and set_ratio :: "'t \<Rightarrow> 'p \<Rightarrow> u16 \<Rightarrow> bool \<times> 't"
  assumes leaves_nonempty: "leaves t \<noteq> []"
    and contains_leaves: "contains_leaf t p \<longleftrightarrow> p \<in> set (leaves t)"
    and split_absent: "p \<notin> set (leaves t) \<Longrightarrow> split_leaf t p q a = (False, t)"
    and split_present: "p \<in> set (leaves t) \<Longrightarrow>
      \<exists>t' xs ys. split_leaf t p q a = (True, t') \<and> leaves t = xs @ p # ys \<and> p \<notin> set xs \<and>
        leaves t' = xs @ p # q # ys"
    and remove_leaves: "(case remove_leaf t p of None \<Rightarrow> [] | Some t' \<Rightarrow> leaves t') =
      [x \<leftarrow> leaves t. x \<noteq> p]"
    and ratio_leaves: "leaves (snd (set_ratio t p r)) = leaves t"
begin

lemma split_true_iff: "fst (split_leaf t p q a) \<longleftrightarrow> p \<in> set (leaves t)"
proof (cases "p \<in> set (leaves t)")
  case True
  from split_present [OF this, of q a] show ?thesis using True by auto
next
  case False
  with split_absent [OF this] show ?thesis by simp
qed

lemma split_set:
  assumes "split_leaf t p q a = (True, t')"
  shows "set (leaves t') = insert q (set (leaves t))"
proof -
  from assms have "p \<in> set (leaves t)" using split_true_iff [of t p q a] by simp
  from split_present [OF this, of q a] assms show ?thesis by auto
qed

lemma split_distinct:
  assumes "split_leaf t p q a = (True, t')" "distinct (leaves t)" "q \<notin> set (leaves t)"
  shows "distinct (leaves t')"
proof -
  from assms have "p \<in> set (leaves t)" using split_true_iff [of t p q a] by simp
  from split_present [OF this, of q a] assms show ?thesis by auto
qed

lemma split_length:
  assumes "split_leaf t p q a = (True, t')"
  shows "length (leaves t') = Suc (length (leaves t))"
proof -
  from assms have "p \<in> set (leaves t)" using split_true_iff [of t p q a] by simp
  from split_present [OF this, of q a] assms show ?thesis by auto
qed

lemma split_true_iff': "split_leaf t p q a = (b, t') \<Longrightarrow> b \<longleftrightarrow> p \<in> set (leaves t)"
  using split_true_iff [of t p q a] by simp

lemma remove_None: "remove_leaf t p = None \<longleftrightarrow> set (leaves t) \<subseteq> {p}"
proof -
  have "remove_leaf t p = None \<longleftrightarrow> [x \<leftarrow> leaves t. x \<noteq> p] = []"
  proof (cases "remove_leaf t p")
    case None
    with remove_leaves [of t p] show ?thesis by simp
  next
    case (Some t')
    with remove_leaves [of t p] leaves_nonempty [of t'] show ?thesis by auto
  qed
  then show ?thesis by (auto simp: filter_empty_conv)
qed

lemma remove_Some: "remove_leaf t p = Some t' \<Longrightarrow> leaves t' = [x \<leftarrow> leaves t. x \<noteq> p]"
  using remove_leaves [of t p] by simp

lemma remove_set: "remove_leaf t p = Some t' \<Longrightarrow> set (leaves t') = set (leaves t) - {p}"
  by (auto simp: remove_Some)

lemma remove_distinct: "remove_leaf t p = Some t' \<Longrightarrow> distinct (leaves t) \<Longrightarrow> distinct (leaves t')"
  by (simp add: remove_Some)

text \<open>Splitting a pane and then closing the new pane gives back the panes in their order.\<close>

lemma split_remove:
  assumes "split_leaf t p q a = (True, t')" "q \<notin> set (leaves t)"
  shows "\<exists>t''. remove_leaf t' q = Some t'' \<and> leaves t'' = leaves t"
proof -
  from assms(1) have p: "p \<in> set (leaves t)" using split_true_iff [of t p q a] by simp
  from split_present [OF p, of q a] assms(1) obtain xs ys where
    e: "leaves t = xs @ p # ys" "leaves t' = xs @ p # q # ys" by auto
  have "[x \<leftarrow> xs. x \<noteq> q] = xs" "[x \<leftarrow> ys. x \<noteq> q] = ys"
    using e assms(2) by (auto intro!: filter_True)
  then have fl: "[x \<leftarrow> leaves t'. x \<noteq> q] = leaves t"
    using e assms(2) by auto
  have "remove_leaf t' q \<noteq> None"
    unfolding remove_None using e assms(2) p by auto
  then obtain t'' where "remove_leaf t' q = Some t''" by auto
  with fl show ?thesis using remove_Some by metis
qed

end

end
