(* ===== verification/RustText.thy ===== *)
theory RustText imports StruktPrelude begin

text \<open>
  Rust strings. A \<open>String\<close> is a sequence of Unicode scalar values stored as UTF-8; the sources
  count it in bytes (\<open>len\<close>), in scalars (\<open>chars().count()\<close>) and in UTF-16 units, and cut it
  at byte offsets that must be character boundaries. The model is the list of scalar values,
  so each of the three counts is a function of the list. Paths (\<open>PathBuf\<close>, \<open>OsStr\<close>) are lists
  of the same kind.
\<close>

type_synonym scalar = nat
type_synonym rust_string = "scalar list"
type_synonym path = "scalar list"

section \<open>Literals, bytes and lengths\<close>

text \<open>An ASCII literal of the sources.\<close>

definition lit :: "string \<Rightarrow> rust_string" where
  "lit s = map of_char s"

text \<open>\<open>char::len_utf8\<close> and \<open>char::len_utf16\<close>.\<close>

definition len_utf8 :: "scalar \<Rightarrow> nat" where
  "len_utf8 c = (if c < 128 then 1 else if c < 2048 then 2 else if c < 65536 then 3 else 4)"

definition len_utf16 :: "scalar \<Rightarrow> nat" where
  "len_utf16 c = (if c < 65536 then 1 else 2)"

text \<open>\<open>str::len\<close>, the number of UTF-8 bytes.\<close>

definition str_len :: "rust_string \<Rightarrow> nat" where
  "str_len s = sum_list (map len_utf8 s)"

text \<open>The bytes of one scalar and of a string, \<open>str::as_bytes\<close>.\<close>

definition utf8_scalar :: "scalar \<Rightarrow> u8 list" where
  "utf8_scalar c =
     (if c < 128 then [of_nat c]
      else if c < 2048 then [of_nat (192 + c div 64), of_nat (128 + c mod 64)]
      else if c < 65536 then
        [of_nat (224 + c div 4096), of_nat (128 + c div 64 mod 64), of_nat (128 + c mod 64)]
      else
        [of_nat (240 + c div 262144), of_nat (128 + c div 4096 mod 64),
         of_nat (128 + c div 64 mod 64), of_nat (128 + c mod 64)])"

definition as_bytes :: "rust_string \<Rightarrow> u8 list" where
  "as_bytes s = concat (map utf8_scalar s)"

text \<open>\<open>str::from_utf8\<close>: well-formed sequences only, without overlong forms or surrogates.\<close>

definition continuation :: "u8 \<Rightarrow> bool" where
  "continuation b \<longleftrightarrow> 128 \<le> b \<and> b < 192"

fun from_utf8 :: "u8 list \<Rightarrow> rust_string option" where
  "from_utf8 [] = Some []"
| "from_utf8 (a # bs) =
     (if a < 128 then map_option (Cons (unat a)) (from_utf8 bs)
      else if a < 192 then None
      else if a < 224 then
        (case bs of
           b # bs' \<Rightarrow>
             (let c = (unat a - 192) * 64 + (unat b - 128) in
              if continuation b \<and> 128 \<le> c then map_option (Cons c) (from_utf8 bs') else None)
         | _ \<Rightarrow> None)
      else if a < 240 then
        (case bs of
           b # b' # bs' \<Rightarrow>
             (let c = (unat a - 224) * 4096 + (unat b - 128) * 64 + (unat b' - 128) in
              if continuation b \<and> continuation b' \<and> 2048 \<le> c \<and> \<not> (55296 \<le> c \<and> c < 57344)
              then map_option (Cons c) (from_utf8 bs') else None)
         | _ \<Rightarrow> None)
      else
        (case bs of
           b # b' # b'' # bs' \<Rightarrow>
             (let c = (unat a - 240) * 262144 + (unat b - 128) * 4096 + (unat b' - 128) * 64 + (unat b'' - 128) in
              if continuation b \<and> continuation b' \<and> continuation b'' \<and> 65536 \<le> c \<and> c \<le> 1114111
              then map_option (Cons c) (from_utf8 bs') else None)
         | _ \<Rightarrow> None))"

lemma len_utf8_pos [simp]: "0 < len_utf8 c"
  by (simp add: len_utf8_def)

lemma len_utf8_le: "len_utf8 c \<le> 4"
  by (simp add: len_utf8_def)

lemma len_utf16_pos [simp]: "0 < len_utf16 c"
  by (simp add: len_utf16_def)

lemma str_len_simps [simp]:
  "str_len [] = 0"
  "str_len (c # s) = len_utf8 c + str_len s"
  "str_len (s @ t) = str_len s + str_len t"
  by (simp_all add: str_len_def)

lemma str_len_0 [simp]: "str_len s = 0 \<longleftrightarrow> s = []"
  by (cases s) (use len_utf8_pos in \<open>auto simp: str_len_def\<close>)

lemma length_utf8_scalar [simp]: "length (utf8_scalar c) = len_utf8 c"
  by (simp add: utf8_scalar_def len_utf8_def)

lemma length_as_bytes [simp]: "length (as_bytes s) = str_len s"
  by (induction s) (simp_all add: as_bytes_def)

lemma as_bytes_append [simp]: "as_bytes (s @ t) = as_bytes s @ as_bytes t"
  by (simp add: as_bytes_def)

lemma from_utf8_len: "from_utf8 bs = Some s \<Longrightarrow> str_len s = length bs"
proof (induction bs arbitrary: s rule: from_utf8.induct)
  case 1
  then show ?case by simp
next
  case (2 a bs)
  have a: "unat a < 256" using unsigned_less [of a, where ?'a = nat] by simp
  have c: "unat b < 192 \<and> 128 \<le> unat b" if "continuation b" for b
    using that by (simp add: continuation_def word_less_nat_alt word_le_nat_alt)
  consider (ascii) "a < 128" | (bad) "\<not> a < 128" "a < 192" | (two) "\<not> a < 128" "\<not> a < 192" "a < 224"
    | (three) "\<not> a < 128" "\<not> a < 192" "\<not> a < 224" "a < 240"
    | (four) "\<not> a < 128" "\<not> a < 192" "\<not> a < 224" "\<not> a < 240"
    by linarith
  then show ?case
  proof cases
    case ascii
    then obtain t where t: "from_utf8 bs = Some t" "s = unat a # t" using 2(5) by auto
    from 2(1) [OF ascii t(1)] ascii t show ?thesis by (simp add: len_utf8_def word_less_nat_alt)
  next
    case bad
    with 2(5) show ?thesis by simp
  next
    case two
    with 2(5) obtain b bs' t where t: "bs = b # bs'" "continuation b" "from_utf8 bs' = Some t"
      "s = ((unat a - 192) * 64 + (unat b - 128)) # t" "128 \<le> (unat a - 192) * 64 + (unat b - 128)"
      by (auto simp: Let_def split: list.splits if_splits)
    have "str_len t = length bs'" using 2(2) [OF two t(1) refl _ t(3)] t by simp
    moreover have "(unat a - 192) * 64 + (unat b - 128) < 2048"
      using two c [OF t(2)] by (auto simp: word_less_nat_alt)
    ultimately show ?thesis using t by (simp add: len_utf8_def)
  next
    case three
    with 2(5) obtain b b' bs' t where t: "bs = b # b' # bs'" "continuation b" "continuation b'" "from_utf8 bs' = Some t"
      "s = ((unat a - 224) * 4096 + (unat b - 128) * 64 + (unat b' - 128)) # t"
      "2048 \<le> (unat a - 224) * 4096 + (unat b - 128) * 64 + (unat b' - 128)"
      "\<not> (55296 \<le> (unat a - 224) * 4096 + (unat b - 128) * 64 + (unat b' - 128) \<and>
         (unat a - 224) * 4096 + (unat b - 128) * 64 + (unat b' - 128) < 57344)"
      by (auto simp: Let_def split: list.splits if_splits)
    have "str_len t = length bs'" using 2(3) [OF three t(1) refl refl _ t(4)] t by simp
    moreover have "(unat a - 224) * 4096 + (unat b - 128) * 64 + (unat b' - 128) < 65536"
      using three c [OF t(2)] c [OF t(3)] by (auto simp: word_less_nat_alt)
    ultimately show ?thesis using t by (simp add: len_utf8_def)
  next
    case four
    with 2(5) obtain b b' b'' bs' t where t: "bs = b # b' # b'' # bs'" "continuation b" "continuation b'" "continuation b''"
      "from_utf8 bs' = Some t"
      "s = ((unat a - 240) * 262144 + (unat b - 128) * 4096 + (unat b' - 128) * 64 + (unat b'' - 128)) # t"
      "65536 \<le> (unat a - 240) * 262144 + (unat b - 128) * 4096 + (unat b' - 128) * 64 + (unat b'' - 128)"
      "(unat a - 240) * 262144 + (unat b - 128) * 4096 + (unat b' - 128) * 64 + (unat b'' - 128) \<le> 1114111"
      by (auto simp: Let_def split: list.splits if_splits)
    have "str_len t = length bs'" using 2(4) [OF four t(1) refl refl refl _ t(5)] t by simp
    then show ?thesis using t by (simp add: len_utf8_def)
  qed
qed

lemma length_le_str_len: "length s \<le> str_len s"
proof (induction s)
  case Nil
  then show ?case by simp
next
  case (Cons c s)
  then show ?case using len_utf8_pos [of c] by (simp del: len_utf8_pos)
qed

section \<open>Trimming and character classes\<close>

text \<open>\<open>char::is_whitespace\<close>, the Unicode property \<open>White_Space\<close>.\<close>

definition is_whitespace :: "scalar \<Rightarrow> bool" where
  "is_whitespace c \<longleftrightarrow> (9 \<le> c \<and> c \<le> 13) \<or> c = 32 \<or> c = 133 \<or> c = 160 \<or> c = 5760 \<or>
     (8192 \<le> c \<and> c \<le> 8202) \<or> c = 8232 \<or> c = 8233 \<or> c = 8239 \<or> c = 8287 \<or> c = 12288"

text \<open>\<open>char::is_control\<close>, the Unicode category \<open>Cc\<close>.\<close>

definition is_control :: "scalar \<Rightarrow> bool" where
  "is_control c \<longleftrightarrow> c < 32 \<or> (127 \<le> c \<and> c < 160)"

text \<open>\<open>str::trim\<close>.\<close>

definition trim :: "rust_string \<Rightarrow> rust_string" where
  "trim s = rev (dropWhile is_whitespace (rev (dropWhile is_whitespace s)))"

lemma rev_dropWhile_prefix: "\<exists>t. s = rev (dropWhile P (rev s)) @ t \<and> (\<forall>c \<in> set t. P c)"
proof -
  have "rev s = takeWhile P (rev s) @ dropWhile P (rev s)" by simp
  then have "s = rev (dropWhile P (rev s)) @ rev (takeWhile P (rev s))"
    by (metis rev_append rev_rev_ident)
  moreover have "\<forall>c \<in> set (rev (takeWhile P (rev s))). P c"
    by (auto dest: set_takeWhileD)
  ultimately show ?thesis by blast
qed

lemma trim_hd: "trim s \<noteq> [] \<Longrightarrow> \<not> is_whitespace (hd (trim s))"
proof -
  assume ne: "trim s \<noteq> []"
  obtain t where t: "dropWhile is_whitespace s = trim s @ t"
    using rev_dropWhile_prefix [of "dropWhile is_whitespace s" is_whitespace]
    by (auto simp: trim_def)
  with ne have "hd (dropWhile is_whitespace s) = hd (trim s)" by (simp add: hd_append)
  moreover from t ne have "dropWhile is_whitespace s \<noteq> []" by auto
  ultimately show ?thesis by (metis hd_dropWhile)
qed

lemma trim_last: "trim s \<noteq> [] \<Longrightarrow> \<not> is_whitespace (last (trim s))"
  by (simp add: trim_def last_rev hd_dropWhile)

lemma trim_fixed:
  assumes "s = [] \<or> (\<not> is_whitespace (hd s) \<and> \<not> is_whitespace (last s))"
  shows "trim s = s"
proof (cases "s = []")
  case True
  then show ?thesis by (simp add: trim_def)
next
  case False
  with assms have h: "\<not> is_whitespace (hd s)" "\<not> is_whitespace (last s)" by auto
  from False h(1) have "dropWhile is_whitespace s = s"
    by (cases s) auto
  moreover from False h(2) have "dropWhile is_whitespace (rev s) = rev s"
    by (cases "rev s") (auto simp: last_rev [symmetric] hd_rev)
  ultimately show ?thesis by (simp add: trim_def)
qed

lemma trim_idem [simp]: "trim (trim s) = trim s"
  by (rule trim_fixed) (use trim_hd trim_last in blast)

lemma length_trim: "length (trim s) \<le> length s"
  unfolding trim_def by (metis length_dropWhile_le length_rev le_trans)

section \<open>Bounded truncation at a character boundary\<close>

text \<open>
  \<open>str::is_char_boundary\<close>: the byte offsets at which a prefix of scalars ends. The loop
  \<open>while !s.is_char_boundary(end) { end -= 1; }\<close> is \<open>floor_boundary\<close>; offset 0 is a boundary, so
  it ends. \<open>slice_to\<close> is \<open>s[..end]\<close> at a boundary.
\<close>

fun is_char_boundary :: "rust_string \<Rightarrow> nat \<Rightarrow> bool" where
  "is_char_boundary s 0 = True"
| "is_char_boundary [] (Suc n) = False"
| "is_char_boundary (c # s) (Suc n) =
     (len_utf8 c \<le> Suc n \<and> is_char_boundary s (Suc n - len_utf8 c))"

fun floor_boundary :: "rust_string \<Rightarrow> nat \<Rightarrow> nat" where
  "floor_boundary s 0 = 0"
| "floor_boundary s (Suc n) =
     (if is_char_boundary s (Suc n) then Suc n else floor_boundary s n)"

fun slice_to :: "rust_string \<Rightarrow> nat \<Rightarrow> rust_string" where
  "slice_to [] n = []"
| "slice_to (c # s) n = (if len_utf8 c \<le> n then c # slice_to s (n - len_utf8 c) else [])"

text \<open>The helper \<open>bounded\<close> that several crates repeat.\<close>

definition bounded_text :: "rust_string \<Rightarrow> nat \<Rightarrow> rust_string" where
  "bounded_text s limit =
     (if str_len s \<le> limit then s else slice_to s (floor_boundary s limit))"

text \<open>\<open>detail.replace('\0', ..)\<close> with U+FFFD for every NUL.\<close>

definition replace_nul :: "rust_string \<Rightarrow> rust_string" where
  "replace_nul s = map (\<lambda>c. if c = 0 then 65533 else c) s"

definition bounded_detail :: "nat \<Rightarrow> rust_string \<Rightarrow> rust_string" where
  "bounded_detail limit detail = bounded_text (replace_nul detail) limit"

lemma slice_to_len: "str_len (slice_to s n) \<le> n"
  by (induction s n rule: slice_to.induct) auto

lemma slice_to_prefix: "\<exists>t. s = slice_to s n @ t"
  by (induction s n rule: slice_to.induct) auto

lemma set_slice_to: "set (slice_to s n) \<subseteq> set s"
proof -
  obtain t where "s = slice_to s n @ t" using slice_to_prefix by blast
  then have "set s = set (slice_to s n) \<union> set t" by (metis set_append)
  then show ?thesis by blast
qed

lemma slice_to_boundary: "is_char_boundary s n \<Longrightarrow> str_len (slice_to s n) = n"
proof (induction s n rule: slice_to.induct)
  case (1 n)
  then show ?case by (cases n) auto
next
  case (2 c s n)
  then show ?case by (cases n) auto
qed

lemma floor_boundary_le: "floor_boundary s n \<le> n"
  by (induction s n rule: floor_boundary.induct) auto

lemma floor_boundary_boundary: "is_char_boundary s (floor_boundary s n)"
  by (induction s n rule: floor_boundary.induct) auto

lemma floor_boundary_greatest:
  "is_char_boundary s m \<Longrightarrow> m \<le> n \<Longrightarrow> m \<le> floor_boundary s n"
proof (induction s n rule: floor_boundary.induct)
  case (1 s)
  then show ?case by simp
next
  case (2 s n)
  then show ?case by (cases "m = Suc n") auto
qed

lemma bounded_text_len: "str_len (bounded_text s limit) \<le> limit"
  by (auto simp: bounded_text_def intro: le_trans [OF slice_to_len floor_boundary_le])

lemma bounded_text_prefix: "\<exists>t. s = bounded_text s limit @ t"
  by (auto simp: bounded_text_def slice_to_prefix)

lemma set_replace_nul: "0 \<notin> set (replace_nul s)"
  by (auto simp: replace_nul_def)

lemma set_bounded_text: "set (bounded_text s limit) \<subseteq> set s"
  using set_slice_to by (auto simp: bounded_text_def)

lemma bounded_detail_len: "str_len (bounded_detail limit s) \<le> limit"
  by (simp add: bounded_detail_def bounded_text_len)

lemma bounded_detail_no_nul: "0 \<notin> set (bounded_detail limit s)"
  unfolding bounded_detail_def using set_bounded_text set_replace_nul by blast

section \<open>Numbers\<close>

text \<open>The decimal form of a number, as \<open>format!\<close> writes it.\<close>

fun decimal :: "nat \<Rightarrow> rust_string" where
  "decimal n = (if n < 10 then [48 + n] else decimal (n div 10) @ [48 + n mod 10])"

declare decimal.simps [simp del]

end
