(* ===== verification/BTreeMap.thy ===== *)
theory BTreeMap imports StruktPrelude begin

text \<open>
  \<open>std::collections::BTreeMap\<close>: a finite map iterated in key order. It is the type of the
  strictly key-sorted association lists, so two maps with the same lookups are equal and
  \<open>keys().next()\<close> is the least key. \<open>HashMap\<close>s whose order is never observed use it too.
  The locale \<open>keyed_store\<close> states what the components rely on of a keyed container.
\<close>

section \<open>The type\<close>

definition key_sorted :: "('k::linorder \<times> 'v) list \<Rightarrow> bool" where
  "key_sorted xs \<longleftrightarrow> sorted_wrt (\<lambda>p q. fst p < fst q) xs"

typedef (overloaded) ('k::linorder, 'v) btree = "{xs :: ('k \<times> 'v) list. key_sorted xs}"
  morphisms bt_entries Btree
  by (rule exI [of _ "[]"]) (simp add: key_sorted_def)

setup_lifting type_definition_btree

definition put_key :: "'k::linorder \<Rightarrow> 'v \<Rightarrow> ('k \<times> 'v) list \<Rightarrow> ('k \<times> 'v) list" where
  "put_key k v xs = [p \<leftarrow> xs. fst p < k] @ (k, v) # [p \<leftarrow> xs. k < fst p]"

definition drop_key :: "'k::linorder \<Rightarrow> ('k \<times> 'v) list \<Rightarrow> ('k \<times> 'v) list" where
  "drop_key k xs = [p \<leftarrow> xs. fst p \<noteq> k]"

lemma key_sorted_put: "key_sorted xs \<Longrightarrow> key_sorted (put_key k v xs)"
  by (force simp: key_sorted_def put_key_def sorted_wrt_append sorted_wrt_filter)

lemma key_sorted_drop: "key_sorted xs \<Longrightarrow> key_sorted (drop_key k xs)"
  by (simp add: key_sorted_def drop_key_def sorted_wrt_filter)

lemma key_sorted_map: "key_sorted xs \<Longrightarrow> key_sorted (map (\<lambda>(k, v). (k, f k v)) xs)"
  by (simp add: key_sorted_def sorted_wrt_map case_prod_beta)

lift_definition bt_empty :: "('k::linorder, 'v) btree" is "[]"
  by (simp add: key_sorted_def)

lift_definition bt_insert :: "'k::linorder \<Rightarrow> 'v \<Rightarrow> ('k, 'v) btree \<Rightarrow> ('k, 'v) btree" is put_key
  by (rule key_sorted_put)

lift_definition bt_remove :: "'k::linorder \<Rightarrow> ('k, 'v) btree \<Rightarrow> ('k, 'v) btree" is drop_key
  by (rule key_sorted_drop)

lift_definition bt_map :: "('k::linorder \<Rightarrow> 'v \<Rightarrow> 'w) \<Rightarrow> ('k, 'v) btree \<Rightarrow> ('k, 'w) btree" is
  "\<lambda>f. map (\<lambda>(k, v). (k, f k v))"
  by (rule key_sorted_map)

definition bt_get :: "('k::linorder, 'v) btree \<Rightarrow> 'k \<Rightarrow> 'v option" where
  "bt_get m k = map_of (bt_entries m) k"

definition bt_keys :: "('k::linorder, 'v) btree \<Rightarrow> 'k list" where
  "bt_keys m = map fst (bt_entries m)"

definition bt_values :: "('k::linorder, 'v) btree \<Rightarrow> 'v list" where
  "bt_values m = map snd (bt_entries m)"

definition bt_len :: "('k::linorder, 'v) btree \<Rightarrow> nat" where
  "bt_len m = length (bt_entries m)"

definition bt_contains :: "('k::linorder, 'v) btree \<Rightarrow> 'k \<Rightarrow> bool" where
  "bt_contains m k \<longleftrightarrow> bt_get m k \<noteq> None"

definition bt_is_empty :: "('k::linorder, 'v) btree \<Rightarrow> bool" where
  "bt_is_empty m \<longleftrightarrow> bt_entries m = []"

definition bt_first_key :: "('k::linorder, 'v) btree \<Rightarrow> 'k option" where
  "bt_first_key m = first_opt (bt_keys m)"

text \<open>\<open>collect()\<close> into a map: a later pair with the same key wins.\<close>

definition bt_from_list :: "('k::linorder \<times> 'v) list \<Rightarrow> ('k, 'v) btree" where
  "bt_from_list xs = foldl (\<lambda>m (k, v). bt_insert k v m) bt_empty xs"

instantiation btree :: (linorder, equal) equal
begin

definition "equal_btree m n \<longleftrightarrow> bt_entries m = bt_entries n"

instance
  by standard (simp add: equal_btree_def bt_entries_inject)

end

instantiation btree :: (linorder, type) size
begin

definition "size_btree m = bt_len m"

instance ..

end

section \<open>Entries, lookups and order\<close>

lemma bt_entries_sorted: "key_sorted (bt_entries m)"
  using bt_entries [of m] by simp

lemma bt_keys_sorted: "sorted_wrt (<) (bt_keys m)"
  using bt_entries_sorted [of m] by (simp add: bt_keys_def key_sorted_def sorted_wrt_map)

lemma bt_keys_distinct [simp]: "distinct (bt_keys m)"
  using bt_keys_sorted [of m] strict_sorted_iff by blast

lemma bt_entries_empty [simp]: "bt_entries bt_empty = []"
  by (transfer, simp)

lemma bt_entries_insert: "bt_entries (bt_insert k v m) = put_key k v (bt_entries m)"
  by (transfer, simp)

lemma bt_entries_remove: "bt_entries (bt_remove k m) = drop_key k (bt_entries m)"
  by (transfer, simp)

lemma bt_entries_map [simp]: "bt_entries (bt_map f m) = map (\<lambda>(k, v). (k, f k v)) (bt_entries m)"
  by (transfer, simp)

lemma set_bt_keys: "set (bt_keys m) = {k. bt_get m k \<noteq> None}"
  by (auto simp: bt_keys_def bt_get_def map_of_eq_None_iff)

lemma dom_bt_get: "dom (bt_get m) = set (bt_keys m)"
  by (auto simp: set_bt_keys)

lemma bt_contains_keys: "bt_contains m k \<longleftrightarrow> k \<in> set (bt_keys m)"
  by (auto simp: bt_contains_def set_bt_keys)

lemma bt_entries_get: "(k, v) \<in> set (bt_entries m) \<longleftrightarrow> bt_get m k = Some v"
  using bt_keys_distinct [of m] by (simp add: bt_get_def bt_keys_def)

lemma bt_get_in_values: "bt_get m k = Some v \<Longrightarrow> v \<in> set (bt_values m)"
  by (force simp: bt_values_def bt_entries_get [symmetric])

lemma bt_get_in_keys: "bt_get m k = Some v \<Longrightarrow> k \<in> set (bt_keys m)"
  by (simp add: set_bt_keys)

lemma bt_values_get: "v \<in> set (bt_values m) \<longleftrightarrow> (\<exists>k. bt_get m k = Some v)"
  by (force simp: bt_values_def bt_entries_get [symmetric])

lemma bt_eqI: "(\<And>k. bt_get m k = bt_get n k) \<Longrightarrow> m = n"
proof -
  assume eq: "\<And>k. bt_get m k = bt_get n k"
  then have "set (bt_keys m) = set (bt_keys n)" by (simp add: set_bt_keys)
  then have keys: "bt_keys m = bt_keys n"
    using bt_keys_sorted [of m] bt_keys_sorted [of n]
    by (simp add: strict_sorted_equal)
  have repr: "bt_entries m = map (\<lambda>k. (k, the (bt_get m k))) (bt_keys m)" for m :: "('a, 'b) btree"
  proof -
    have "map (\<lambda>p. (fst p, the (bt_get m (fst p)))) (bt_entries m) = bt_entries m"
    proof (rule map_idI)
      fix p
      assume "p \<in> set (bt_entries m)"
      then have "bt_get m (fst p) = Some (snd p)" by (metis bt_entries_get prod.collapse)
      then show "(fst p, the (bt_get m (fst p))) = p" by simp
    qed
    then show ?thesis by (simp add: bt_keys_def comp_def)
  qed
  have "bt_entries m = bt_entries n"
    unfolding repr [of m] repr [of n] by (simp add: keys eq)
  then show "m = n" by (simp add: bt_entries_inject)
qed

lemma map_of_put:
  "map_of (put_key k v xs) j = (if j = k then Some v else map_of xs j)" for k :: "'k::linorder"
proof -
  have "map_of [p \<leftarrow> xs. fst p < k] j = (if j < k then map_of xs j else None)"
    "map_of [p \<leftarrow> xs. k < fst p] j = (if k < j then map_of xs j else None)"
    by (induction xs) auto
  then show ?thesis by (auto simp: put_key_def map_add_def split: option.splits)
qed

lemma map_of_drop: "map_of (drop_key k xs) j = (if j = k then None else map_of xs j)"
  by (induction xs) (auto simp: drop_key_def)

lemma bt_get_empty [simp]: "bt_get bt_empty k = None"
  by (simp add: bt_get_def)

lemma bt_get_insert [simp]: "bt_get (bt_insert k v m) j = (if j = k then Some v else bt_get m j)"
  by (simp add: bt_get_def bt_entries_insert map_of_put)

lemma bt_get_remove [simp]: "bt_get (bt_remove k m) j = (if j = k then None else bt_get m j)"
  by (simp add: bt_get_def bt_entries_remove map_of_drop)

lemma bt_get_fold_remove: "bt_get (fold bt_remove ks m) k = (if k \<in> set ks then None else bt_get m k)"
  by (induction ks arbitrary: m) auto

lemma bt_get_map [simp]: "bt_get (bt_map f m) k = map_option (f k) (bt_get m k)"
proof -
  have "map_of (map (\<lambda>(k, v). (k, f k v)) xs) k = map_option (f k) (map_of xs k)" for xs
    by (induction xs) auto
  then show ?thesis by (simp add: bt_get_def)
qed

lemma bt_keys_empty [simp]: "bt_keys bt_empty = []"
  by (simp add: bt_keys_def)

lemma bt_keys_insert_set [simp]: "set (bt_keys (bt_insert k v m)) = insert k (set (bt_keys m))"
  by (auto simp: set_bt_keys)

lemma bt_keys_remove_set [simp]: "set (bt_keys (bt_remove k m)) = set (bt_keys m) - {k}"
  by (auto simp: set_bt_keys)

lemma bt_keys_map [simp]: "bt_keys (bt_map f m) = bt_keys m"
  by (simp add: bt_keys_def case_prod_beta comp_def)

lemma bt_values_map: "bt_values (bt_map f m) = map (\<lambda>(k, v). f k v) (bt_entries m)"
  by (simp add: bt_values_def case_prod_beta comp_def)

lemma bt_len_keys: "bt_len m = length (bt_keys m)"
  by (simp add: bt_len_def bt_keys_def)

lemma bt_len_card: "bt_len m = card (set (bt_keys m))"
  by (simp add: bt_len_keys distinct_card)

lemma bt_len_values: "bt_len m = length (bt_values m)"
  by (simp add: bt_len_def bt_values_def)

lemma bt_len_insert:
  "bt_len (bt_insert k v m) = (if bt_get m k = None then Suc (bt_len m) else bt_len m)"
proof -
  have "k \<in> set (bt_keys m) \<longleftrightarrow> bt_get m k \<noteq> None" by (simp add: set_bt_keys)
  then show ?thesis by (simp add: bt_len_card card_insert_if del: distinct_card)
qed

lemma bt_is_empty_keys: "bt_is_empty m \<longleftrightarrow> bt_keys m = []"
  by (simp add: bt_is_empty_def bt_keys_def)

lemma bt_is_empty_len: "bt_is_empty m \<longleftrightarrow> bt_len m = 0"
  by (simp add: bt_is_empty_def bt_len_def)

text \<open>
  How one update changes the list of entries: an existing key keeps its place, a new key is put
  between two halves, a removed key leaves the halves.
\<close>

lemma bt_split_at:
  assumes "bt_get m k = Some v"
  obtains as bs where "bt_entries m = as @ (k, v) # bs"
    "\<And>w. bt_entries (bt_insert k w m) = as @ (k, w) # bs"
    "bt_entries (bt_remove k m) = as @ bs"
proof -
  from assms have "(k, v) \<in> set (bt_entries m)" by (simp add: bt_entries_get)
  then obtain as bs where e: "bt_entries m = as @ (k, v) # bs" by (meson split_list)
  then have s: "sorted_wrt (\<lambda>p q. fst p < fst q) (as @ (k, v) # bs)"
    using bt_entries_sorted [of m] by (simp add: key_sorted_def)
  then have a: "\<forall>p \<in> set as. fst p < k" and b: "\<forall>p \<in> set bs. k < fst p"
    by (auto simp: sorted_wrt_append)
  have "filter (\<lambda>p. fst p < k) as = as" "filter (\<lambda>p. fst p < k) bs = []"
    "filter (\<lambda>p. k < fst p) as = []" "filter (\<lambda>p. k < fst p) bs = bs"
    "filter (\<lambda>p. fst p \<noteq> k) as = as" "filter (\<lambda>p. fst p \<noteq> k) bs = bs"
    using a b by (auto simp: filter_id_conv filter_empty_conv dest: order_less_asym)
  then show ?thesis
    by (intro that [of as bs]) (simp_all add: e bt_entries_insert bt_entries_remove put_key_def drop_key_def)
qed

lemma bt_split_new:
  assumes "bt_get m k = None"
  obtains as bs where "bt_entries m = as @ bs" "\<And>w. bt_entries (bt_insert k w m) = as @ (k, w) # bs"
proof -
  let ?as = "[p \<leftarrow> bt_entries m. fst p < k]" and ?bs = "[p \<leftarrow> bt_entries m. k < fst p]"
  have eq: "bt_entries (bt_insert k w m) = ?as @ (k, w) # ?bs" for w
    by (simp add: bt_entries_insert put_key_def)
  have "bt_remove k (bt_insert k undefined m) = m"
    by (rule bt_eqI) (use assms in auto)
  then have "bt_entries m = drop_key k (?as @ (k, undefined) # ?bs)"
    by (metis bt_entries_remove eq)
  also have "\<dots> = ?as @ ?bs"
  proof -
    have "filter (\<lambda>p. fst p \<noteq> k) ?as = ?as" by (rule filter_True) auto
    moreover have "filter (\<lambda>p. fst p \<noteq> k) ?bs = ?bs" by (rule filter_True) auto
    ultimately show ?thesis by (simp add: drop_key_def del: filter_filter)
  qed
  finally show ?thesis using eq by (intro that)
qed

lemma bt_values_replace:
  assumes "bt_get m k = Some v"
  obtains as bs where "bt_values m = as @ v # bs" "\<And>w. bt_values (bt_insert k w m) = as @ w # bs"
    "bt_values (bt_remove k m) = as @ bs"
  using assms by (elim bt_split_at) (simp add: bt_values_def)

lemma bt_values_new:
  assumes "bt_get m k = None"
  obtains as bs where "bt_values m = as @ bs" "\<And>w. bt_values (bt_insert k w m) = as @ w # bs"
  using assms by (elim bt_split_new) (simp add: bt_values_def)

lemma bt_keys_replace: "bt_get m k = Some v \<Longrightarrow> bt_keys (bt_insert k w m) = bt_keys m"
  by (erule bt_split_at) (simp add: bt_keys_def)

lemma bt_len_replace: "bt_get m k = Some v \<Longrightarrow> bt_len (bt_insert k w m) = bt_len m"
  by (simp add: bt_len_insert)

lemma bt_len_remove: "bt_get m k = Some v \<Longrightarrow> bt_len m = Suc (bt_len (bt_remove k m))"
  by (erule bt_split_at) (simp add: bt_len_def)

lemma bt_first_key_in: "bt_first_key m = Some k \<Longrightarrow> k \<in> set (bt_keys m)"
  by (simp add: bt_first_key_def first_opt_in_set)

lemma bt_first_key_None: "bt_first_key m = None \<longleftrightarrow> bt_keys m = []"
  by (simp add: bt_first_key_def)

lemma bt_first_key_least: "bt_first_key m = Some k \<Longrightarrow> bt_contains m j \<Longrightarrow> k \<le> j"
  using bt_keys_sorted [of m]
  by (cases "bt_keys m") (auto simp: bt_first_key_def bt_contains_keys order_less_imp_le)

section \<open>The contract of a keyed container\<close>

locale keyed_store =
  fixes lookup :: "'m \<Rightarrow> 'k \<Rightarrow> 'v option"
    and put :: "'k \<Rightarrow> 'v \<Rightarrow> 'm \<Rightarrow> 'm"
    and del :: "'k \<Rightarrow> 'm \<Rightarrow> 'm"
    and count :: "'m \<Rightarrow> nat"
  assumes lookup_put: "lookup (put k v m) j = (if j = k then Some v else lookup m j)"
    and lookup_del: "lookup (del k m) j = (if j = k then None else lookup m j)"
    and extensional: "(\<And>j. lookup m j = lookup n j) \<Longrightarrow> m = n"
    and count_card: "count m = card (dom (lookup m))"
    and finite_lookup: "finite (dom (lookup m))"
begin

lemma put_put: "put k v (put k w m) = put k v m"
  by (rule extensional) (simp add: lookup_put)

lemma put_commute: "j \<noteq> k \<Longrightarrow> put j v (put k w m) = put k w (put j v m)"
  by (rule extensional) (simp add: lookup_put)

lemma put_same: "lookup m k = Some v \<Longrightarrow> put k v m = m"
  by (rule extensional) (simp add: lookup_put)

lemma del_put: "lookup m k = None \<Longrightarrow> del k (put k v m) = m"
  by (rule extensional) (simp add: lookup_put lookup_del)

lemma put_del: "put k v (del k m) = put k v m"
  by (rule extensional) (simp add: lookup_put lookup_del)

lemma count_put: "count (put k v m) = (if lookup m k = None then Suc (count m) else count m)"
proof -
  have "dom (lookup (put k v m)) = insert k (dom (lookup m))"
    by (auto simp: lookup_put split: if_splits)
  then show ?thesis
    using finite_lookup [of m] by (auto simp: count_card card_insert_if insert_absorb domIff)
qed

lemma count_del: "lookup m k \<noteq> None \<Longrightarrow> Suc (count (del k m)) = count m"
proof -
  assume k: "lookup m k \<noteq> None"
  then have "dom (lookup m) = insert k (dom (lookup (del k m)))"
    by (auto simp: lookup_del split: if_splits)
  moreover have "k \<notin> dom (lookup (del k m))" by (simp add: lookup_del domIff)
  ultimately show ?thesis using finite_lookup [of "del k m"] by (simp add: count_card)
qed

end

interpretation bt: keyed_store bt_get bt_insert bt_remove bt_len
proof unfold_locales
  show "finite (dom (bt_get m))" for m :: "('a, 'b) btree"
    unfolding dom_bt_get by simp
  show "bt_len m = card (dom (bt_get m))" for m :: "('a, 'b) btree"
    unfolding dom_bt_get by (rule bt_len_card)
qed (auto intro: bt_eqI)

text \<open>Inserting the elements of a list under distinct keys.\<close>

lemma bt_get_fold_insert:
  assumes "distinct (map f xs)"
  shows "bt_get (fold (\<lambda>x. bt_insert (f x) (g x)) xs m) k =
    (case find (\<lambda>x. f x = k) xs of Some x \<Rightarrow> Some (g x) | None \<Rightarrow> bt_get m k)"
  using assms
proof (induction xs arbitrary: m)
  case Nil
  then show ?case by simp
next
  case (Cons x xs)
  have "find (\<lambda>y. f y = k) xs = None" if "f x = k"
    using Cons.prems that by (simp add: find_None_all) (metis image_eqI)
  with Cons show ?case by (auto split: option.splits)
qed

lemma bt_get_fold_insert_in:
  "distinct (map f xs) \<Longrightarrow> x \<in> set xs \<Longrightarrow>
    bt_get (fold (\<lambda>x. bt_insert (f x) (g x)) xs m) (f x) = Some (g x)"
  by (simp add: bt_get_fold_insert find_distinct_key)

lemma bt_keys_fold_insert:
  "set (bt_keys (fold (\<lambda>x. bt_insert (f x) (g x)) xs m)) = set (bt_keys m) \<union> f ` set xs"
  by (induction xs arbitrary: m) auto

text \<open>Evaluation on concrete maps.\<close>

lemmas bt_eval = bt_get_def bt_keys_def bt_values_def bt_len_def bt_contains_def bt_is_empty_def
  bt_first_key_def bt_from_list_def bt_entries_insert bt_entries_remove put_key_def drop_key_def

end
