(* ===== verification/Ids.thy ===== *)
theory Ids imports RustText BTreeMap "HOL-Library.List_Lexorder" begin

text \<open>
  \<open>strukt-session/src/id.rs\<close>: the opaque 16-byte identifiers of the session crate. The macro
  \<open>opaque_id!\<close> generates four types with one body; the model is one type with a phantom
  parameter that keeps them apart. The operating-system random source is outside the
  repository: an operation that draws identifiers takes the draws it will see as a list, each
  either 16 bytes or a failure.
\<close>

section \<open>Identifiers and their order\<close>

datatype 'k opaque_id = OpaqueId (id_bytes: "u8 list")

datatype session_tag = SessionTag
datatype window_tag = WindowTag
datatype pane_tag = PaneTag
datatype service_tag = ServiceTag

type_synonym session_id = "session_tag opaque_id"
type_synonym window_id = "window_tag opaque_id"
type_synonym pane_id = "pane_tag opaque_id"
type_synonym service_instance_id = "service_tag opaque_id"

text \<open>The derived \<open>Ord\<close>: byte arrays in lexicographic order.\<close>

instantiation opaque_id :: (type) linorder
begin

definition less_eq_opaque_id :: "'a opaque_id \<Rightarrow> 'a opaque_id \<Rightarrow> bool" where
  "less_eq_opaque_id a b \<longleftrightarrow> id_bytes a \<le> id_bytes b"
definition less_opaque_id :: "'a opaque_id \<Rightarrow> 'a opaque_id \<Rightarrow> bool" where
  "less_opaque_id a b \<longleftrightarrow> id_bytes a < id_bytes b"

instance
  by standard
    (auto simp: less_eq_opaque_id_def less_opaque_id_def less_le_not_le intro: opaque_id.expand)

end

datatype id_error = RandomUnavailable | InvalidFormat

section \<open>Drawing identifiers\<close>

type_synonym entropy = "u8 list option list"

text \<open>\<open>fn new() -> Result<Self, IdError>\<close>: one draw from the random source.\<close>

fun new_id :: "entropy \<Rightarrow> (id_error + 'k opaque_id) \<times> entropy" where
  "new_id [] = (Inl RandomUnavailable, [])"
| "new_id (None # rng) = (Inl RandomUnavailable, rng)"
| "new_id (Some bytes # rng) = (Inr (OpaqueId bytes), rng)"

text \<open>The identifiers a list of draws can produce.\<close>

definition drawn :: "entropy \<Rightarrow> 'k opaque_id set" where
  "drawn rng = {OpaqueId b | b. Some b \<in> set rng}"

definition distinct_draws :: "entropy \<Rightarrow> bool" where
  "distinct_draws rng \<longleftrightarrow> distinct [d \<leftarrow> rng. d \<noteq> None]"

lemma drawn_simps [simp]:
  "drawn [] = {}"
  "drawn (None # rng) = drawn rng"
  "drawn (Some b # rng) = insert (OpaqueId b) (drawn rng)"
  by (auto simp: drawn_def)

lemma new_id_ok:
  assumes "new_id rng = (Inr i, rng')"
  shows "i \<in> drawn rng" "drawn rng' \<subseteq> drawn rng"
  using assms by (cases rng rule: new_id.cases; auto)+

lemma new_id_rest: "new_id rng = (Inr i, rng') \<Longrightarrow> set rng' \<subseteq> set rng"
  by (cases rng rule: new_id.cases) auto

lemma drawn_mono: "set rng' \<subseteq> set rng \<Longrightarrow> drawn rng' \<subseteq> drawn rng"
  by (auto simp: drawn_def)

lemma drawn_retag: "OpaqueId b \<in> (drawn rng :: 'k opaque_id set) \<longleftrightarrow> Some b \<in> set rng"
  by (auto simp: drawn_def)

lemma new_id_distinct:
  assumes "new_id rng = (Inr i, rng')" "distinct_draws rng"
  shows "i \<notin> drawn rng'" "distinct_draws rng'"
  using assms by (cases rng rule: new_id.cases; auto simp: distinct_draws_def drawn_def)+

section \<open>Text form\<close>

text \<open>\<open>{byte:02x}\<close>: two lowercase hexadecimal digits.\<close>

definition hex_digit :: "nat \<Rightarrow> scalar" where
  "hex_digit d = (if d < 10 then 48 + d else 87 + d)"

definition hex_byte :: "u8 \<Rightarrow> rust_string" where
  "hex_byte b = [hex_digit (unat b div 16), hex_digit (unat b mod 16)]"

definition id_to_string :: "'k opaque_id \<Rightarrow> rust_string" where
  "id_to_string i = concat (map hex_byte (id_bytes i))"

text \<open>\<open>fn nibble(byte: u8) -> Result<u8, IdError>\<close>.\<close>

definition nibble :: "u8 \<Rightarrow> id_error + u8" where
  "nibble byte =
     (if 48 \<le> byte \<and> byte \<le> 57 then Inr (byte - 48)
      else if 97 \<le> byte \<and> byte \<le> 102 then Inr (byte - 97 + 10)
      else Inl InvalidFormat)"

text \<open>The loop over \<open>chunks_exact(2)\<close>.\<close>

fun parse_pairs :: "u8 list \<Rightarrow> id_error + u8 list" where
  "parse_pairs (hi # lo # rest) =
     and_then (nibble hi) (\<lambda>h. and_then (nibble lo) (\<lambda>l.
       and_then (parse_pairs rest) (\<lambda>bytes. Inr (or (push_bit 4 h) l # bytes))))"
| "parse_pairs _ = Inr []"

definition id_from_str :: "rust_string \<Rightarrow> id_error + 'k opaque_id" where
  "id_from_str value =
     (if str_len value \<noteq> 32 \<or>
         \<not> list_all (\<lambda>b. (48 \<le> b \<and> b \<le> 57) \<or> (97 \<le> b \<and> b \<le> 102)) (as_bytes value)
      then Inl InvalidFormat
      else and_then (parse_pairs (as_bytes value)) (\<lambda>bytes. Inr (OpaqueId bytes)))"

subsection \<open>Parsing what was printed\<close>

lemma hex_digit_ascii: "d < 16 \<Longrightarrow> hex_digit d < 128"
  by (simp add: hex_digit_def)

lemma hex_digit_ranges:
  "d < 16 \<Longrightarrow> (48 \<le> hex_digit d \<and> hex_digit d \<le> 57) \<or> (97 \<le> hex_digit d \<and> hex_digit d \<le> 102)"
  by (auto simp: hex_digit_def)

lemma utf8_hex_digit: "d < 16 \<Longrightarrow> utf8_scalar (hex_digit d) = [of_nat (hex_digit d)]"
  using hex_digit_ascii [of d] by (simp add: utf8_scalar_def)

lemma of_nat_byte_le:
  "m < 256 \<Longrightarrow> n < 256 \<Longrightarrow> (of_nat m \<le> (of_nat n :: u8)) \<longleftrightarrow> m \<le> n"
  by (simp add: word_le_nat_alt unat_of_nat)

lemma hex_digit_word_ranges:
  assumes "d < 16"
  shows "(48 \<le> (of_nat (hex_digit d) :: u8) \<and> (of_nat (hex_digit d) :: u8) \<le> 57) \<or>
    (97 \<le> (of_nat (hex_digit d) :: u8) \<and> (of_nat (hex_digit d) :: u8) \<le> 102)"
proof -
  have "hex_digit d < 256" using hex_digit_ascii [OF assms] by simp
  then show ?thesis
    using hex_digit_ranges [OF assms]
      of_nat_byte_le [of 48 "hex_digit d"] of_nat_byte_le [of "hex_digit d" 57]
      of_nat_byte_le [of 97 "hex_digit d"] of_nat_byte_le [of "hex_digit d" 102]
    by simp
qed

lemma nibble_hex_digit: "d < 16 \<Longrightarrow> nibble (of_nat (hex_digit d)) = Inr (of_nat d)"
proof -
  assume d: "d < 16"
  have small: "hex_digit d < 256" using hex_digit_ascii [OF d] by simp
  note le = of_nat_byte_le [of 48 "hex_digit d"] of_nat_byte_le [of "hex_digit d" 57]
    of_nat_byte_le [of 97 "hex_digit d"] of_nat_byte_le [of "hex_digit d" 102]
  show ?thesis
  proof (cases "d < 10")
    case True
    with le small show ?thesis by (simp add: nibble_def hex_digit_def)
  next
    case False
    have "of_nat (87 + d) - 97 + 10 = (of_nat d :: u8)" by simp
    with False d le small show ?thesis by (simp add: nibble_def hex_digit_def)
  qed
qed

lemma join_nibbles: "or (push_bit 4 (of_nat (unat b div 16))) (of_nat (unat b mod 16)) = (b :: u8)"
proof -
  have "unat (b div 16) = unat b div 16" by (simp add: unat_div)
  then have "of_nat (unat b div 16) = b div 16" by (metis of_nat_unat ucast_id)
  then have "push_bit 4 (of_nat (unat b div 16)) = push_bit 4 (drop_bit 4 b)"
    by (simp add: drop_bit_eq_div)
  moreover have "of_nat (unat b mod 16) = take_bit 4 b"
  proof -
    have "unat (b mod 16) = unat b mod 16" by (simp add: unat_mod)
    then have "of_nat (unat b mod 16) = b mod 16" by (metis of_nat_unat ucast_id)
    then show ?thesis by (simp add: take_bit_eq_mod)
  qed
  ultimately show ?thesis by (simp add: bit_eq_iff bit_simps) auto
qed

lemma parse_pairs_hex: "parse_pairs (as_bytes (concat (map hex_byte bs))) = Inr bs"
proof (induction bs)
  case Nil
  then show ?case by (simp add: as_bytes_def)
next
  case (Cons b bs)
  have "unat b < 256" using unsigned_less [of b, where ?'a = nat] by simp
  then have d: "unat b div 16 < 16" "unat b mod 16 < 16" by auto
  have "as_bytes (hex_byte b) =
      [of_nat (hex_digit (unat b div 16)), of_nat (hex_digit (unat b mod 16))]"
    by (simp add: as_bytes_def hex_byte_def utf8_hex_digit d)
  with Cons show ?case by (simp add: nibble_hex_digit d join_nibbles)
qed

lemma hex_bytes_valid:
  "list_all (\<lambda>b. (48 \<le> b \<and> b \<le> 57) \<or> (97 \<le> b \<and> b \<le> 102)) (as_bytes (concat (map hex_byte bs)))"
proof (induction bs)
  case Nil
  then show ?case by (simp add: as_bytes_def)
next
  case (Cons b bs)
  have "unat b < 256" using unsigned_less [of b, where ?'a = nat] by simp
  then have d: "unat b div 16 < 16" "unat b mod 16 < 16" by auto
  have "as_bytes (hex_byte b) =
      [of_nat (hex_digit (unat b div 16)), of_nat (hex_digit (unat b mod 16))]"
    by (simp add: as_bytes_def hex_byte_def utf8_hex_digit d)
  with Cons show ?case using hex_digit_word_ranges [OF d(1)] hex_digit_word_ranges [OF d(2)] by simp
qed

lemma str_len_hex: "str_len (concat (map hex_byte bs)) = 2 * length bs"
proof (induction bs)
  case Nil
  then show ?case by simp
next
  case (Cons b bs)
  have "unat b < 256" using unsigned_less [of b, where ?'a = nat] by simp
  then have "unat b div 16 < 16" "unat b mod 16 < 16" by auto
  then have "len_utf8 (hex_digit (unat b div 16)) = 1" "len_utf8 (hex_digit (unat b mod 16)) = 1"
    using hex_digit_ascii by (simp_all add: len_utf8_def)
  with Cons show ?case by (simp add: hex_byte_def)
qed

subsection \<open>Printing what was parsed\<close>

text \<open>A Unicode scalar value of Rust's \<open>char\<close> is below \<open>0x110000\<close>.\<close>

definition scalars_ok :: "rust_string \<Rightarrow> bool" where
  "scalars_ok s \<longleftrightarrow> list_all (\<lambda>c. c < 1114112) s"

definition hex_ascii :: "u8 \<Rightarrow> bool" where
  "hex_ascii b \<longleftrightarrow> (48 \<le> b \<and> b \<le> 57) \<or> (97 \<le> b \<and> b \<le> 102)"

lemma hex_ascii_scalar:
  assumes "c < 1114112" "list_all hex_ascii (utf8_scalar c)"
  shows "c < 128"
proof (rule ccontr)
  assume "\<not> c < 128"
  define n where "n = (if c < 2048 then 192 + c div 64 else if c < 65536 then 224 + c div 4096
    else 240 + c div 262144)"
  have n: "hd (utf8_scalar c) = of_nat n" "utf8_scalar c \<noteq> []" "192 \<le> n" "n < 256"
    using assms(1) \<open>\<not> c < 128\<close> by (simp_all add: utf8_scalar_def n_def div_less_iff_less_mult)
  have "\<not> of_nat n \<le> (57 :: u8)" "\<not> of_nat n \<le> (102 :: u8)"
    using of_nat_byte_le [of n 57] of_nat_byte_le [of n 102] n(3,4) by simp_all
  with assms(2) n(1,2) show False by (cases "utf8_scalar c") (simp_all add: hex_ascii_def)
qed

lemma hex_ascii_bytes:
  "scalars_ok s \<Longrightarrow> list_all hex_ascii (as_bytes s) \<Longrightarrow>
    list_all (\<lambda>c. c < 128) s \<and> as_bytes s = map of_nat s \<and> str_len s = length s"
proof (induction s)
  case Nil
  then show ?case by (simp add: as_bytes_def)
next
  case (Cons c s)
  then have "c < 128" using hex_ascii_scalar [of c] by (simp add: scalars_ok_def as_bytes_def)
  with Cons show ?case by (simp add: scalars_ok_def as_bytes_def utf8_scalar_def len_utf8_def)
qed

lemma nibble_inv:
  assumes "c < 128" "nibble (of_nat c) = Inr d"
  shows "unat d < 16 \<and> hex_digit (unat d) = c"
proof -
  note le = of_nat_byte_le [of 48 c] of_nat_byte_le [of c 57] of_nat_byte_le [of 97 c] of_nat_byte_le [of c 102]
  from assms consider "48 \<le> c" "c \<le> 57" "d = of_nat c - 48" | "97 \<le> c" "c \<le> 102" "d = of_nat c - 97 + 10"
    using le by (auto simp: nibble_def split: if_splits)
  then show ?thesis
  proof cases
    case 1
    then have "d = of_nat (c - 48)" by (simp add: of_nat_diff)
    then have "unat d = c - 48" using 1(2) by (simp only: unat_of_nat) simp
    then show ?thesis using 1 by (simp add: hex_digit_def)
  next
    case 2
    then have "d = of_nat (c - 87)" by (simp add: of_nat_diff)
    then have "unat d = c - 87" using 2(2) by (simp only: unat_of_nat) simp
    moreover have "c - 87 < 16" "\<not> c - 87 < 10" "87 + (c - 87) = c" using 2(1,2) by linarith+
    ultimately show ?thesis by (simp add: hex_digit_def)
  qed
qed

lemma split_nibbles:
  assumes "unat h < 16" "unat l < 16"
  shows "unat (or (push_bit 4 h) l :: u8) = unat h * 16 + unat l"
proof -
  have l: "take_bit 4 (unat l) = unat l" using assms(2) by (simp add: take_bit_nat_eq_self)
  have "take_bit 8 (push_bit 4 (unat h)) = push_bit 4 (unat h)"
    by (rule take_bit_nat_eq_self) (use assms(1) in \<open>simp add: push_bit_eq_mult\<close>)
  then have "unat (or (push_bit 4 h) l) = or (push_bit 4 (unat h)) (unat l)"
    unfolding unsigned_or_eq unsigned_push_bit_eq by simp
  also have "\<dots> = push_bit 4 (unat h) + unat l"
    by (rule disjunctive_add [symmetric])
      (metis l bit_push_bit_iff bit_take_bit_iff leD)
  finally show ?thesis by (simp add: push_bit_eq_mult)
qed

lemma parse_pairs_inv:
  "list_all (\<lambda>c. c < 128) s \<Longrightarrow> even (length s) \<Longrightarrow> parse_pairs (map of_nat s) = Inr bs \<Longrightarrow>
    concat (map hex_byte bs) = s"
proof (induction s arbitrary: bs rule: induct_list012)
  case (3 x y zs)
  from 3(4,5) obtain h l rest where
    hl: "nibble (of_nat x) = Inr h" "nibble (of_nat y) = Inr l" and rest: "parse_pairs (map of_nat zs) = Inr rest"
    and bs: "bs = or (push_bit 4 h) l # rest" by (auto simp: outcome)
  have h: "unat h < 16" "hex_digit (unat h) = x" and l: "unat l < 16" "hex_digit (unat l) = y"
    using nibble_inv [OF _ hl(1)] nibble_inv [OF _ hl(2)] 3(3) by simp_all
  have "hex_byte (or (push_bit 4 h) l) = [x, y]"
    using h l by (simp add: hex_byte_def split_nibbles)
  moreover have "concat (map hex_byte rest) = zs" using 3(1) [OF _ _ rest] 3(3,4) by simp
  ultimately show ?case by (simp add: bs)
qed simp_all

lemma concat_hex_length: "length (concat (map hex_byte bs)) = 2 * length bs"
  by (induction bs) (simp_all add: hex_byte_def)

section \<open>Properties\<close>

text \<open>
  The text form of an identifier and its parser are inverse to each other: a string parses to
  a 16-byte identifier exactly when it is that identifier's text form. In particular every other
  spelling (upper case, other lengths, other characters) is refused.
\<close>

theorem id_text_roundtrip:
  assumes "scalars_ok s"
  shows "id_from_str s = Inr i \<longleftrightarrow> length (id_bytes i) = 16 \<and> s = id_to_string i"
proof
  assume "id_from_str s = Inr i"
  then have len: "str_len s = 32" and hex: "list_all hex_ascii (as_bytes s)"
    and parse: "parse_pairs (as_bytes s) = Inr (id_bytes i)"
    by (auto simp: id_from_str_def hex_ascii_def [abs_def] outcome split: if_splits)
  note ascii = hex_ascii_bytes [OF assms hex]
  have "concat (map hex_byte (id_bytes i)) = s"
    using parse_pairs_inv [of s "id_bytes i"] ascii len parse by simp
  then show "length (id_bytes i) = 16 \<and> s = id_to_string i"
    using concat_hex_length [of "id_bytes i"] ascii len by (simp add: id_to_string_def)
next
  assume "length (id_bytes i) = 16 \<and> s = id_to_string i"
  then show "id_from_str s = Inr i"
    using hex_bytes_valid [of "id_bytes i"]
    by (simp add: id_from_str_def id_to_string_def str_len_hex parse_pairs_hex)
qed

theorem id_text_roundtrip_witness:
  "id_from_str (replicate 32 97) = Inr (OpaqueId (replicate 16 170) :: pane_id) \<longleftrightarrow>
    length (id_bytes (OpaqueId (replicate 16 170) :: pane_id)) = 16 \<and>
    replicate 32 97 = id_to_string (OpaqueId (replicate 16 170) :: pane_id)"
  by (rule id_text_roundtrip) (simp add: scalars_ok_def list_all_iff)

end
