(* ===== verification/SessionLayout.thy ===== *)
theory SessionLayout imports PaneTree Ids begin

text \<open>
  The split tree of a session window, \<open>SessionLayoutNode\<close> in
  \<open>strukt-session/src/catalog.rs\<close>: its operations as the code has them, the validation that
  threads the set of panes found so far, and the declarative reading of that validation.
\<close>

section \<open>Constants, errors and the tree\<close>

definition MAX_LAYOUT_DEPTH :: nat where "MAX_LAYOUT_DEPTH = 16"
definition MIN_SPLIT_RATIO :: u16 where "MIN_SPLIT_RATIO = 1000"
definition MAX_SPLIT_RATIO :: u16 where "MAX_SPLIT_RATIO = 9000"
definition DEFAULT_SPLIT_RATIO :: u16 where "DEFAULT_SPLIT_RATIO = 5000"

text \<open>\<open>enum CatalogError\<close>.\<close>

datatype catalog_error =
    StaleRevision u64 u64
  | InvalidName
  | InvalidWorkingDirectory
  | CapacityReached
  | SessionNotFound
  | WindowNotFound
  | PaneNotFound
  | InvalidSplitRatio
  | NoFocusedSplit
  | LayoutTooDeep
  | InvalidLayout
  | InvalidCatalog
  | LastPane
  | LastWindow
  | PaneRunning
  | WindowRunning
  | SessionRunning
  | IdFailed id_error

text \<open>\<open>enum SessionLayoutNode\<close>.\<close>

datatype session_layout_node =
    Pane pane_id
  | Split split_axis u16 session_layout_node session_layout_node

definition split_ratio_ok :: "u16 \<Rightarrow> bool" where
  "split_ratio_ok r \<longleftrightarrow> MIN_SPLIT_RATIO \<le> r \<and> r \<le> MAX_SPLIT_RATIO"

section \<open>Operations\<close>

fun sln_contains :: "session_layout_node \<Rightarrow> pane_id \<Rightarrow> bool" where
  "sln_contains (Pane candidate) pane \<longleftrightarrow> candidate = pane"
| "sln_contains (Split _ _ first second) pane \<longleftrightarrow>
     sln_contains first pane \<or> sln_contains second pane"

text \<open>
  \<open>split\<close> mutates the tree in place and reports whether it found the focused pane; the second
  branch is visited only when the first did not find it.
\<close>

fun sln_split ::
  "session_layout_node \<Rightarrow> pane_id \<Rightarrow> pane_id \<Rightarrow> split_axis \<Rightarrow> bool \<times> session_layout_node"
where
  "sln_split (Pane pane) focused new_pane axis =
     (if pane = focused
      then (True, Split axis DEFAULT_SPLIT_RATIO (Pane focused) (Pane new_pane))
      else (False, Pane pane))"
| "sln_split (Split ax ratio first second) focused new_pane axis =
     (case sln_split first focused new_pane axis of
        (True, first') \<Rightarrow> (True, Split ax ratio first' second)
      | (False, first') \<Rightarrow>
          (case sln_split second focused new_pane axis of
             (done, second') \<Rightarrow> (done, Split ax ratio first' second')))"

fun is_leaf :: "session_layout_node \<Rightarrow> pane_id \<Rightarrow> bool" where
  "is_leaf (Pane candidate) pane \<longleftrightarrow> candidate = pane"
| "is_leaf (Split _ _ _ _) pane \<longleftrightarrow> False"

fun sln_set_parent_ratio ::
  "session_layout_node \<Rightarrow> pane_id \<Rightarrow> u16 \<Rightarrow> bool \<times> session_layout_node"
where
  "sln_set_parent_ratio (Pane p) pane ratio = (False, Pane p)"
| "sln_set_parent_ratio (Split ax r first second) pane ratio =
     (if is_leaf first pane \<or> is_leaf second pane then (True, Split ax ratio first second)
      else (case sln_set_parent_ratio first pane ratio of
              (True, first') \<Rightarrow> (True, Split ax r first' second)
            | (False, first') \<Rightarrow>
                (case sln_set_parent_ratio second pane ratio of
                   (done, second') \<Rightarrow> (done, Split ax r first' second'))))"

fun sln_remove :: "session_layout_node \<Rightarrow> pane_id \<Rightarrow> session_layout_node option" where
  "sln_remove (Pane candidate) pane = (if candidate \<noteq> pane then Some (Pane candidate) else None)"
| "sln_remove (Split ax ratio first second) pane =
     (case (sln_remove first pane, sln_remove second pane) of
        (Some first', Some second') \<Rightarrow> Some (Split ax ratio first' second')
      | (Some remaining, None) \<Rightarrow> Some remaining
      | (None, Some remaining) \<Rightarrow> Some remaining
      | (None, None) \<Rightarrow> None)"

fun sln_remap ::
  "session_layout_node \<Rightarrow> (pane_id, pane_id) btree \<Rightarrow> catalog_error + session_layout_node"
where
  "sln_remap (Pane pane) ids =
     and_then (ok_or (bt_get ids pane) PaneNotFound) (\<lambda>p. Inr (Pane p))"
| "sln_remap (Split ax ratio first second) ids =
     and_then (sln_remap first ids) (\<lambda>first'.
       and_then (sln_remap second ids) (\<lambda>second'. Inr (Split ax ratio first' second')))"

text \<open>
  \<open>validate_at\<close> threads the mutable set \<open>found\<close>; \<open>found.insert(p)\<close> is true when \<open>p\<close> is new, and
  \<open>&&\<close> stops at the first false operand.
\<close>

fun sln_validate_at ::
  "session_layout_node \<Rightarrow> (pane_id, 'p) btree \<Rightarrow> nat \<Rightarrow> pane_id set \<Rightarrow> bool \<times> pane_id set"
where
  "sln_validate_at (Pane pane) panes depth found =
     (if depth > MAX_LAYOUT_DEPTH then (False, found)
      else if bt_contains panes pane then (pane \<notin> found, insert pane found)
      else (False, found))"
| "sln_validate_at (Split ax ratio first second) panes depth found =
     (if depth > MAX_LAYOUT_DEPTH then (False, found)
      else if \<not> split_ratio_ok ratio then (False, found)
      else (case sln_validate_at first panes (depth + 1) found of
              (False, found') \<Rightarrow> (False, found')
            | (True, found') \<Rightarrow> sln_validate_at second panes (depth + 1) found'))"

definition sln_validate :: "session_layout_node \<Rightarrow> (pane_id, 'p) btree \<Rightarrow> bool" where
  "sln_validate root panes =
     (case sln_validate_at root panes 1 {} of (ok, found) \<Rightarrow> ok \<and> card found = bt_len panes)"

section \<open>Declarative reading\<close>

fun sln_leaves :: "session_layout_node \<Rightarrow> pane_id list" where
  "sln_leaves (Pane p) = [p]"
| "sln_leaves (Split _ _ first second) = sln_leaves first @ sln_leaves second"

fun sln_height :: "session_layout_node \<Rightarrow> nat" where
  "sln_height (Pane _) = 1"
| "sln_height (Split _ _ first second) = Suc (max (sln_height first) (sln_height second))"

fun sln_ratios_ok :: "session_layout_node \<Rightarrow> bool" where
  "sln_ratios_ok (Pane _) \<longleftrightarrow> True"
| "sln_ratios_ok (Split _ r first second) \<longleftrightarrow>
     split_ratio_ok r \<and> sln_ratios_ok first \<and> sln_ratios_ok second"

definition layout_ok :: "session_layout_node \<Rightarrow> (pane_id, 'p) btree \<Rightarrow> bool" where
  "layout_ok root panes \<longleftrightarrow>
     distinct (sln_leaves root) \<and> set (sln_leaves root) = set (bt_keys panes) \<and>
     sln_ratios_ok root \<and> sln_height root \<le> MAX_LAYOUT_DEPTH"

fun sln_map :: "(pane_id \<Rightarrow> pane_id) \<Rightarrow> session_layout_node \<Rightarrow> session_layout_node" where
  "sln_map f (Pane p) = Pane (f p)"
| "sln_map f (Split ax r first second) = Split ax r (sln_map f first) (sln_map f second)"

lemma sln_height_pos [simp]: "0 < sln_height n"
  by (cases n) auto

lemma sln_validate_at_iff:
  "sln_validate_at n panes depth found = (True, found') \<longleftrightarrow>
     depth + sln_height n \<le> Suc MAX_LAYOUT_DEPTH \<and> sln_ratios_ok n \<and>
     set (sln_leaves n) \<subseteq> set (bt_keys panes) \<and> distinct (sln_leaves n) \<and>
     set (sln_leaves n) \<inter> found = {} \<and> found' = found \<union> set (sln_leaves n)"
proof (induction n arbitrary: depth found found')
  case (Pane pane)
  then show ?case by (auto simp: bt_contains_keys)
next
  case (Split ax ratio first second)
  show ?case
  proof (cases "depth > MAX_LAYOUT_DEPTH \<or> \<not> split_ratio_ok ratio")
    case True
    then show ?thesis using sln_height_pos [of first] by (auto simp del: sln_height_pos)
  next
    case False
    obtain ok f where v: "sln_validate_at first panes (depth + 1) found = (ok, f)" by force
    show ?thesis
    proof (cases ok)
      case True
      with False v Split.IH(1) [of "depth + 1" found f] Split.IH(2) [of "depth + 1" f found']
      show ?thesis by auto
    next
      case no: False
      with False v Split.IH(1) [of "depth + 1" found "found \<union> set (sln_leaves first)"]
      show ?thesis by auto
    qed
  qed
qed

lemma sln_validate_iff: "sln_validate root panes \<longleftrightarrow> layout_ok root panes"
proof -
  obtain ok f where v: "sln_validate_at root panes 1 {} = (ok, f)" by force
  show ?thesis
  proof (cases ok)
    case True
    with v have a: "1 + sln_height root \<le> Suc MAX_LAYOUT_DEPTH" "sln_ratios_ok root"
      "set (sln_leaves root) \<subseteq> set (bt_keys panes)" "distinct (sln_leaves root)"
      "f = set (sln_leaves root)"
      using sln_validate_at_iff [of root panes 1 "{}" f] by auto
    have "card f = bt_len panes \<longleftrightarrow> set (sln_leaves root) = set (bt_keys panes)"
      using a(3,5) card_subset_eq [OF _ a(3)] by (auto simp: bt_len_card)
    with a v True show ?thesis by (auto simp: sln_validate_def layout_ok_def)
  next
    case False
    with v sln_validate_at_iff [of root panes 1 "{}" "set (sln_leaves root)"]
    show ?thesis by (auto simp: sln_validate_def layout_ok_def)
  qed
qed

section \<open>The operations over the panes in order\<close>

lemma sln_contains_leaves: "sln_contains n p \<longleftrightarrow> p \<in> set (sln_leaves n)"
  by (induction n) auto

lemma sln_leaves_nonempty [simp]: "sln_leaves n \<noteq> []"
  by (induction n) auto

lemma sln_split_absent: "p \<notin> set (sln_leaves n) \<Longrightarrow> sln_split n p q a = (False, n)"
  by (induction n) auto

lemma sln_split_present:
  "p \<in> set (sln_leaves n) \<Longrightarrow>
    \<exists>n' xs ys. sln_split n p q a = (True, n') \<and> sln_leaves n = xs @ p # ys \<and> p \<notin> set xs \<and>
      sln_leaves n' = xs @ p # q # ys"
proof (induction n)
  case (Pane x)
  then show ?case
    by (intro exI [of _ "snd (sln_split (Pane x) p q a)"] exI [of _ "[]"]) simp
next
  case (Split ax r n1 n2)
  show ?case
  proof (cases "p \<in> set (sln_leaves n1)")
    case True
    with Split.IH(1) obtain n' xs ys where h: "sln_split n1 p q a = (True, n')"
      "sln_leaves n1 = xs @ p # ys" "p \<notin> set xs" "sln_leaves n' = xs @ p # q # ys" by blast
    then show ?thesis by (intro exI [of _ "Split ax r n' n2"] exI [of _ xs] exI [of _ "ys @ sln_leaves n2"]) simp
  next
    case False
    with Split.prems Split.IH(2) obtain n' xs ys where h: "sln_split n2 p q a = (True, n')"
      "sln_leaves n2 = xs @ p # ys" "p \<notin> set xs" "sln_leaves n' = xs @ p # q # ys" by auto
    with False sln_split_absent [OF False, of q a] show ?thesis
      by (intro exI [of _ "Split ax r n1 n'"] exI [of _ "sln_leaves n1 @ xs"] exI [of _ ys]) simp
  qed
qed

lemma sln_remove_leaves:
  "(case sln_remove n p of None \<Rightarrow> [] | Some n' \<Rightarrow> sln_leaves n') = [x \<leftarrow> sln_leaves n. x \<noteq> p]"
  by (induction n) (auto split: option.splits)

lemma sln_ratio_leaves: "sln_leaves (snd (sln_set_parent_ratio n p r)) = sln_leaves n"
  by (induction n) (auto split: prod.splits bool.splits)

interpretation sln: pane_tree sln_leaves sln_contains sln_split sln_remove sln_set_parent_ratio
  by unfold_locales
    (simp_all only: sln_contains_leaves sln_split_absent sln_split_present sln_remove_leaves
      sln_ratio_leaves sln_leaves_nonempty not_False_eq_True)

text \<open>What the operations do to heights and ratios.\<close>

lemma default_ratio_ok [simp]: "split_ratio_ok DEFAULT_SPLIT_RATIO"
  by (simp add: split_ratio_ok_def DEFAULT_SPLIT_RATIO_def MIN_SPLIT_RATIO_def MAX_SPLIT_RATIO_def)

lemma sln_split_ratios: "sln_ratios_ok n \<Longrightarrow> sln_ratios_ok (snd (sln_split n p q a))"
  by (induction n) (auto split: prod.splits bool.splits)

lemma sln_split_height:
  "sln_height n \<le> sln_height (snd (sln_split n p q a)) \<and>
   sln_height (snd (sln_split n p q a)) \<le> Suc (sln_height n)"
  by (induction n) (auto split: prod.splits bool.splits)

lemma sln_set_parent_ratio_ratios:
  "sln_ratios_ok n \<Longrightarrow> split_ratio_ok r \<Longrightarrow> sln_ratios_ok (snd (sln_set_parent_ratio n p r))"
  by (induction n) (auto split: prod.splits bool.splits)

lemma sln_set_parent_ratio_height: "sln_height (snd (sln_set_parent_ratio n p r)) = sln_height n"
  by (induction n) (auto split: prod.splits bool.splits)

text \<open>The ratio of a pane's parent split can be set exactly when the pane is not the root.\<close>

lemma is_leaf_iff: "is_leaf n p \<longleftrightarrow> n = Pane p"
  by (cases n) auto

lemma sln_set_parent_ratio_true:
  "fst (sln_set_parent_ratio n p r) \<longleftrightarrow> p \<in> set (sln_leaves n) \<and> n \<noteq> Pane p"
proof (induction n)
  case (Pane x)
  then show ?case by auto
next
  case (Split ax r' n1 n2)
  show ?case
  proof (cases "is_leaf n1 p \<or> is_leaf n2 p")
    case True
    then show ?thesis by (auto simp: is_leaf_iff)
  next
    case False
    obtain b1 m1 where 1: "sln_set_parent_ratio n1 p r = (b1, m1)" by force
    obtain b2 m2 where 2: "sln_set_parent_ratio n2 p r = (b2, m2)" by force
    from False have "n1 \<noteq> Pane p" "n2 \<noteq> Pane p" by (auto simp: is_leaf_iff)
    with Split.IH 1 2 have "b1 \<longleftrightarrow> p \<in> set (sln_leaves n1)" "b2 \<longleftrightarrow> p \<in> set (sln_leaves n2)"
      by simp_all
    with 1 2 False show ?thesis by (cases b1) simp_all
  qed
qed

lemma sln_remove_ratios: "sln_remove n p = Some n' \<Longrightarrow> sln_ratios_ok n \<Longrightarrow> sln_ratios_ok n'"
proof (induction n arbitrary: n')
  case (Pane x)
  then show ?case by (auto split: if_splits)
next
  case (Split ax r n1 n2)
  from Split.prems(2) have ok: "split_ratio_ok r" "sln_ratios_ok n1" "sln_ratios_ok n2" by simp_all
  note ih = Split.IH(1) [OF _ ok(2)] Split.IH(2) [OF _ ok(3)]
  from Split.prems(1) show ?case
    by (cases "sln_remove n1 p"; cases "sln_remove n2 p") (auto dest: ih simp: ok)
qed

lemma sln_remove_height: "sln_remove n p = Some n' \<Longrightarrow> sln_height n' \<le> sln_height n"
proof (induction n arbitrary: n')
  case (Pane x)
  then show ?case by (auto split: if_splits)
next
  case (Split ax r n1 n2)
  from Split.prems show ?case
    by (cases "sln_remove n1 p"; cases "sln_remove n2 p")
      (auto dest!: Split.IH intro: le_SucI max.coboundedI1 max.coboundedI2)
qed

lemma sln_map_leaves [simp]: "sln_leaves (sln_map f n) = map f (sln_leaves n)"
  by (induction n) auto

lemma sln_map_height [simp]: "sln_height (sln_map f n) = sln_height n"
  by (induction n) auto

lemma sln_map_ratios [simp]: "sln_ratios_ok (sln_map f n) = sln_ratios_ok n"
  by (induction n) auto

lemma sln_remap_ok:
  "sln_remap n ids = Inr n' \<longleftrightarrow>
     set (sln_leaves n) \<subseteq> set (bt_keys ids) \<and> n' = sln_map (\<lambda>p. the (bt_get ids p)) n"
  by (induction n arbitrary: n') (auto simp: outcome set_bt_keys)

lemma sln_remap_err: "sln_remap n ids = Inl e \<Longrightarrow> e = PaneNotFound"
  by (induction n arbitrary: e) (auto simp: outcome)

section \<open>Properties\<close>

text \<open>
  A layout tree is accepted for a window exactly when its leaves are the window's panes, each
  once, every split ratio is between 10 and 90 percent, and the tree is at most sixteen levels
  deep; counting the leaves found while walking decides that.
\<close>

theorem layout_validation_decides:
  "sln_validate root panes \<longleftrightarrow>
     distinct (sln_leaves root) \<and> set (sln_leaves root) = set (bt_keys panes) \<and>
     sln_ratios_ok root \<and> sln_height root \<le> 16"
  by (simp add: sln_validate_iff layout_ok_def MAX_LAYOUT_DEPTH_def)

end
