(* ===== verification/SessionCatalog.thy ===== *)
theory SessionCatalog imports SessionLayout begin

text \<open>
  The session catalog of \<open>strukt-session/src/catalog.rs\<close>: the data model, every mutation of
  \<open>SessionCatalog\<close> with its guards in the order of the code, its readers and its validation.
  Identifiers are drawn from an explicit list of random draws.
\<close>

section \<open>State\<close>

definition MAX_SESSIONS :: nat where "MAX_SESSIONS = 64"
definition MAX_WINDOWS_PER_SESSION :: nat where "MAX_WINDOWS_PER_SESSION = 32"
definition MAX_PANES_PER_WINDOW :: nat where "MAX_PANES_PER_WINDOW = 32"
definition MAX_TOTAL_PANES :: nat where "MAX_TOTAL_PANES = 256"

definition default_rows :: u16 where "default_rows = 24"
definition default_columns :: u16 where "default_columns = 80"

datatype pane_lifecycle =
    Stopped
  | Starting
  | Running
  | Exited "u32 option"
  | Failed rust_string
  | Backpressured

fun is_live :: "pane_lifecycle \<Rightarrow> bool" where
  "is_live Starting = True"
| "is_live Running = True"
| "is_live Backpressured = True"
| "is_live _ = False"

record session_pane =
  sp_id :: pane_id
  sp_working_directory :: path
  sp_requested_rows :: u16
  sp_requested_columns :: u16
  sp_generation :: u64
  sp_lifecycle :: pane_lifecycle

record stopped_window_definition =
  swd_name :: rust_string
  swd_root :: session_layout_node
  swd_focused_pane :: pane_id
  swd_panes :: "(pane_id \<times> path) list"

record session_window =
  sw_id :: window_id
  sw_name :: rust_string
  sw_revision :: u64
  sw_root :: session_layout_node
  sw_focused_pane :: pane_id
  sw_panes :: "(pane_id, session_pane) btree"

record session =
  se_id :: session_id
  se_name :: rust_string
  se_revision :: u64
  se_windows :: "session_window list"
  se_active_window :: window_id

record session_catalog =
  cat_revision :: u64
  cat_sessions :: "(session_id, session) btree"
  cat_active_session :: "session_id option"

text \<open>\<open>const fn new()\<close>.\<close>

definition new_catalog :: session_catalog where
  "new_catalog = \<lparr>cat_revision = 0, cat_sessions = bt_empty, cat_active_session = None\<rparr>"

section \<open>Names, directories, revisions\<close>

definition validated_name :: "rust_string \<Rightarrow> catalog_error + rust_string" where
  "validated_name name =
     (let name = trim name in
      if name = [] \<or> length name > 80 then Inl InvalidName else Inr name)"

definition validated_directory :: "path \<Rightarrow> catalog_error + path" where
  "validated_directory directory =
     (if directory = [] then Inl InvalidWorkingDirectory else Inr directory)"

definition expect_revision :: "session_catalog \<Rightarrow> u64 \<Rightarrow> catalog_error + unit" where
  "expect_revision c expected =
     (if expected = cat_revision c then Inr ()
      else Inl (StaleRevision expected (cat_revision c)))"

definition bump_revision :: "session_catalog \<Rightarrow> session_catalog" where
  "bump_revision c = c\<lparr>cat_revision := sat_inc (cat_revision c)\<rparr>"

definition total_panes :: "session_catalog \<Rightarrow> nat" where
  "total_panes c =
     sum_list (map (\<lambda>w. bt_len (sw_panes w)) (concat (map se_windows (bt_values (cat_sessions c)))))"

text \<open>The draw of an identifier followed by the question mark.\<close>

definition with_new_id ::
  "entropy \<Rightarrow> 's \<Rightarrow> ('k opaque_id \<Rightarrow> entropy \<Rightarrow> (catalog_error + 'a) \<times> 's) \<Rightarrow> (catalog_error + 'a) \<times> 's"
where
  "with_new_id rng s k =
     (case new_id rng of
        (Inl e, _) \<Rightarrow> (Inl (IdFailed e), s)
      | (Inr i, rng') \<Rightarrow> k i rng')"

text \<open>
  What the mutations do last: the touched session's revision and the catalog's revision each
  advance by one, saturating; a mutation of a window advances the window's revision as well.
\<close>

definition commit_session :: "session_catalog \<Rightarrow> session_id \<Rightarrow> session \<Rightarrow> session_catalog" where
  "commit_session c sid s =
     bump_revision
       (c\<lparr>cat_sessions :=
            bt_insert sid (s\<lparr>se_revision := sat_inc (se_revision s)\<rparr>) (cat_sessions c)\<rparr>)"

definition commit_window ::
  "session_catalog \<Rightarrow> session_id \<Rightarrow> session \<Rightarrow> nat \<Rightarrow> session_window \<Rightarrow> session_catalog"
where
  "commit_window c sid s i w =
     commit_session c sid
       (s\<lparr>se_windows := (se_windows s)[i := w\<lparr>sw_revision := sat_inc (sw_revision w)\<rparr>]\<rparr>)"

section \<open>Validation\<close>

definition window_validate :: "session_window \<Rightarrow> bool" where
  "window_validate w \<longleftrightarrow>
     \<not> bt_is_empty (sw_panes w) \<and>
     bt_len (sw_panes w) \<le> MAX_PANES_PER_WINDOW \<and>
     bt_contains (sw_panes w) (sw_focused_pane w) \<and>
     list_all (\<lambda>p. sp_requested_rows p > 0 \<and> sp_requested_columns p > 0) (bt_values (sw_panes w)) \<and>
     sln_validate (sw_root w) (sw_panes w)"

fun validate_panes ::
  "(pane_id \<times> session_pane) list \<Rightarrow> pane_id set \<Rightarrow> catalog_error + pane_id set"
where
  "validate_panes [] pane_ids = Inr pane_ids"
| "validate_panes ((pid, p) # rest) pane_ids =
     (if pid \<noteq> sp_id p \<or> sp_working_directory p = [] \<or> pid \<in> pane_ids
      then Inl InvalidCatalog
      else validate_panes rest (insert pid pane_ids))"

fun validate_windows ::
  "session_window list \<Rightarrow> window_id set \<Rightarrow> nat \<Rightarrow> pane_id set \<Rightarrow> catalog_error + nat \<times> pane_id set"
where
  "validate_windows [] window_ids count pane_ids = Inr (count, pane_ids)"
| "validate_windows (w # ws) window_ids count pane_ids =
     (if sw_id w \<in> window_ids \<or> sw_revision w = 0 \<or>
         isl (validated_name (sw_name w)) \<or> \<not> window_validate w
      then Inl InvalidCatalog
      else and_then (ok_or (checked_add_usize count (bt_len (sw_panes w))) InvalidCatalog) (\<lambda>count'.
           and_then (validate_panes (bt_entries (sw_panes w)) pane_ids) (\<lambda>pane_ids'.
             validate_windows ws (insert (sw_id w) window_ids) count' pane_ids')))"

fun validate_sessions ::
  "(session_id \<times> session) list \<Rightarrow> nat \<Rightarrow> pane_id set \<Rightarrow> catalog_error + nat \<times> pane_id set"
where
  "validate_sessions [] count pane_ids = Inr (count, pane_ids)"
| "validate_sessions ((sid, s) # rest) count pane_ids =
     (if sid \<noteq> se_id s \<or> se_revision s = 0 \<or> isl (validated_name (se_name s)) \<or>
         se_windows s = [] \<or> length (se_windows s) > MAX_WINDOWS_PER_SESSION \<or>
         \<not> list_ex (\<lambda>w. sw_id w = se_active_window s) (se_windows s)
      then Inl InvalidCatalog
      else and_then (validate_windows (se_windows s) {} count pane_ids) (\<lambda>(count', pane_ids').
             validate_sessions rest count' pane_ids'))"

definition catalog_validate :: "session_catalog \<Rightarrow> catalog_error + unit" where
  "catalog_validate c =
     (if bt_len (cat_sessions c) > MAX_SESSIONS then Inl InvalidCatalog
      else if bt_is_empty (cat_sessions c) \<noteq> (cat_active_session c = None) \<or>
          (case cat_active_session c of None \<Rightarrow> False
           | Some active \<Rightarrow> \<not> bt_contains (cat_sessions c) active)
        then Inl InvalidCatalog
      else and_then (validate_sessions (bt_entries (cat_sessions c)) 0 {}) (\<lambda>(count, _).
             if count > MAX_TOTAL_PANES then Inl InvalidCatalog else Inr ()))"

section \<open>Readers\<close>

definition session_active_window :: "session \<Rightarrow> session_window option" where
  "session_active_window s = find (\<lambda>w. sw_id w = se_active_window s) (se_windows s)"

definition active_window_mut :: "session \<Rightarrow> catalog_error + nat" where
  "active_window_mut s =
     ok_or (position (\<lambda>w. sw_id w = se_active_window s) (se_windows s)) WindowNotFound"

definition window_has_live_panes :: "session_window \<Rightarrow> bool" where
  "window_has_live_panes w \<longleftrightarrow> list_ex (\<lambda>p. is_live (sp_lifecycle p)) (bt_values (sw_panes w))"

definition has_live_panes :: "session \<Rightarrow> bool" where
  "has_live_panes s \<longleftrightarrow> list_ex window_has_live_panes (se_windows s)"

definition contains_pane :: "session_catalog \<Rightarrow> pane_id \<Rightarrow> bool" where
  "contains_pane c pane \<longleftrightarrow>
     list_ex (\<lambda>w. bt_contains (sw_panes w) pane)
       (concat (map se_windows (bt_values (cat_sessions c))))"

fun find_pane_in_windows :: "session_window list \<Rightarrow> pane_id \<Rightarrow> (window_id \<times> session_pane) option"
where
  "find_pane_in_windows [] pane = None"
| "find_pane_in_windows (w # ws) pane =
     (case bt_get (sw_panes w) pane of
        Some target \<Rightarrow> Some (sw_id w, target)
      | None \<Rightarrow> find_pane_in_windows ws pane)"

fun find_pane_in_sessions ::
  "session list \<Rightarrow> pane_id \<Rightarrow> (session_id \<times> window_id \<times> session_pane) option"
where
  "find_pane_in_sessions [] pane = None"
| "find_pane_in_sessions (s # ss) pane =
     (case find_pane_in_windows (se_windows s) pane of
        Some (wid, target) \<Rightarrow> Some (se_id s, wid, target)
      | None \<Rightarrow> find_pane_in_sessions ss pane)"

definition catalog_pane ::
  "session_catalog \<Rightarrow> pane_id \<Rightarrow> (session_id \<times> window_id \<times> session_pane) option"
where
  "catalog_pane c pane = find_pane_in_sessions (bt_values (cat_sessions c)) pane"

section \<open>Stopping, creating, importing\<close>

definition stop_pane :: "session_pane \<Rightarrow> session_pane" where
  "stop_pane p = p\<lparr>sp_generation := 0, sp_lifecycle := Stopped\<rparr>"

definition stop_window :: "session_window \<Rightarrow> session_window" where
  "stop_window w = w\<lparr>sw_panes := bt_map (\<lambda>_. stop_pane) (sw_panes w)\<rparr>"

definition stop_session :: "session \<Rightarrow> session" where
  "stop_session s = s\<lparr>se_windows := map stop_window (se_windows s)\<rparr>"

definition stopped_clone :: "session_catalog \<Rightarrow> catalog_error + session_catalog" where
  "stopped_clone c =
     and_then (catalog_validate c) (\<lambda>_.
       Inr (c\<lparr>cat_sessions := bt_map (\<lambda>_. stop_session) (cat_sessions c)\<rparr>))"

definition stopped_pane :: "pane_id \<Rightarrow> path \<Rightarrow> session_pane" where
  "stopped_pane pid directory =
     \<lparr>sp_id = pid, sp_working_directory = directory, sp_requested_rows = default_rows,
      sp_requested_columns = default_columns, sp_generation = 0, sp_lifecycle = Stopped\<rparr>"

definition single_pane_window :: "window_id \<Rightarrow> rust_string \<Rightarrow> pane_id \<Rightarrow> path \<Rightarrow> session_window" where
  "single_pane_window wid name pid directory =
     \<lparr>sw_id = wid, sw_name = name, sw_revision = 1, sw_root = Pane pid, sw_focused_pane = pid,
      sw_panes = bt_insert pid (stopped_pane pid directory) bt_empty\<rparr>"

definition create_session ::
  "entropy \<Rightarrow> rust_string \<Rightarrow> path \<Rightarrow> u64 \<Rightarrow> session_catalog \<Rightarrow>
     (catalog_error + session_id) \<times> session_catalog"
where
  "create_session rng name working_directory expected c =
     attempt (expect_revision c expected) c (\<lambda>_.
     if bt_len (cat_sessions c) \<ge> MAX_SESSIONS \<or> total_panes c \<ge> MAX_TOTAL_PANES
     then (Inl CapacityReached, c)
     else
     attempt (validated_name name) c (\<lambda>name.
     attempt (validated_directory working_directory) c (\<lambda>directory.
     with_new_id rng c (\<lambda>session_id rng.
     with_new_id rng c (\<lambda>window_id rng.
     with_new_id rng c (\<lambda>pane_id rng.
       let s = \<lparr>se_id = session_id, se_name = name, se_revision = 1,
                se_windows = [single_pane_window window_id (lit ''shell'') pane_id directory],
                se_active_window = window_id\<rparr>
       in (Inr session_id,
           bump_revision
             (c\<lparr>cat_sessions := bt_insert session_id s (cat_sessions c),
                cat_active_session := Some session_id\<rparr>))))))))"

fun import_panes ::
  "(pane_id \<times> path) list \<Rightarrow> pane_id set \<Rightarrow> (pane_id, session_pane) btree \<Rightarrow>
     catalog_error + pane_id set \<times> (pane_id, session_pane) btree"
where
  "import_panes [] all_panes panes = Inr (all_panes, panes)"
| "import_panes ((pane, directory) # rest) all_panes panes =
     (if pane \<in> all_panes then Inl InvalidCatalog
      else and_then (validated_directory directory) (\<lambda>directory.
             import_panes rest (insert pane all_panes)
               (bt_insert pane (stopped_pane pane directory) panes)))"

fun import_windows ::
  "entropy \<Rightarrow> stopped_window_definition list \<Rightarrow> pane_id set \<Rightarrow> catalog_error + session_window list"
where
  "import_windows rng [] all_panes = Inr []"
| "import_windows rng (d # ds) all_panes =
     and_then (validated_name (swd_name d)) (\<lambda>name.
     and_then (import_panes (swd_panes d) all_panes bt_empty) (\<lambda>(all_panes, panes).
     if bt_is_empty panes \<or> bt_len panes > MAX_PANES_PER_WINDOW \<or>
        \<not> bt_contains panes (swd_focused_pane d) \<or> \<not> sln_validate (swd_root d) panes
     then Inl InvalidCatalog
     else
       (case new_id rng of
          (Inl e, _) \<Rightarrow> Inl (IdFailed e)
        | (Inr wid, rng) \<Rightarrow>
            and_then (import_windows rng ds all_panes) (\<lambda>imported.
              Inr (\<lparr>sw_id = wid, sw_name = name, sw_revision = 1, sw_root = swd_root d,
                    sw_focused_pane = swd_focused_pane d, sw_panes = panes\<rparr> # imported)))))"

definition import_stopped_session ::
  "entropy \<Rightarrow> rust_string \<Rightarrow> stopped_window_definition list \<Rightarrow> nat \<Rightarrow> u64 \<Rightarrow> session_catalog \<Rightarrow>
     (catalog_error + session_id) \<times> session_catalog"
where
  "import_stopped_session rng name windows active_window_index expected c =
     attempt (expect_revision c expected) c (\<lambda>_.
     if bt_len (cat_sessions c) \<ge> MAX_SESSIONS \<or> windows = [] \<or>
        length windows > MAX_WINDOWS_PER_SESSION \<or> active_window_index \<ge> length windows
     then (Inl InvalidCatalog, c)
     else if sat_add_usize (total_panes c) (sum_list (map (\<lambda>w. length (swd_panes w)) windows))
             > MAX_TOTAL_PANES
     then (Inl CapacityReached, c)
     else
     with_new_id rng c (\<lambda>session_id rng.
     attempt (import_windows rng windows {}) c (\<lambda>imported.
     attempt (validated_name name) c (\<lambda>name.
       let s = \<lparr>se_id = session_id, se_name = name, se_revision = 1, se_windows = imported,
                se_active_window = sw_id (imported ! active_window_index)\<rparr>
       in (Inr session_id,
           bump_revision
             (c\<lparr>cat_sessions := bt_insert session_id s (cat_sessions c),
                cat_active_session := Some session_id\<rparr>))))))"

section \<open>Session and window mutations\<close>

definition rename_session ::
  "session_id \<Rightarrow> rust_string \<Rightarrow> u64 \<Rightarrow> session_catalog \<Rightarrow> (catalog_error + unit) \<times> session_catalog"
where
  "rename_session sid name expected c =
     attempt (expect_revision c expected) c (\<lambda>_.
     attempt (validated_name name) c (\<lambda>name.
     attempt (ok_or (bt_get (cat_sessions c) sid) SessionNotFound) c (\<lambda>target.
       (Inr (), commit_session c sid (target\<lparr>se_name := name\<rparr>)))))"

definition activate_session ::
  "session_id \<Rightarrow> u64 \<Rightarrow> session_catalog \<Rightarrow> (catalog_error + unit) \<times> session_catalog"
where
  "activate_session sid expected c =
     attempt (expect_revision c expected) c (\<lambda>_.
     if \<not> bt_contains (cat_sessions c) sid then (Inl SessionNotFound, c)
     else (Inr (), bump_revision (c\<lparr>cat_active_session := Some sid\<rparr>)))"

definition create_window ::
  "entropy \<Rightarrow> session_id \<Rightarrow> rust_string \<Rightarrow> path \<Rightarrow> u64 \<Rightarrow> session_catalog \<Rightarrow>
     (catalog_error + window_id) \<times> session_catalog"
where
  "create_window rng sid name working_directory expected c =
     attempt (expect_revision c expected) c (\<lambda>_.
     if total_panes c \<ge> MAX_TOTAL_PANES then (Inl CapacityReached, c)
     else
     attempt (validated_name name) c (\<lambda>name.
     attempt (validated_directory working_directory) c (\<lambda>directory.
     attempt (ok_or (bt_get (cat_sessions c) sid) SessionNotFound) c (\<lambda>target.
     if length (se_windows target) \<ge> MAX_WINDOWS_PER_SESSION then (Inl CapacityReached, c)
     else
     with_new_id rng c (\<lambda>window_id rng.
     with_new_id rng c (\<lambda>pane_id rng.
       (Inr window_id,
        commit_session c sid
          (target\<lparr>se_windows :=
                     se_windows target @ [single_pane_window window_id name pane_id directory],
                   se_active_window := window_id\<rparr>))))))))"

definition rename_window ::
  "session_id \<Rightarrow> window_id \<Rightarrow> rust_string \<Rightarrow> u64 \<Rightarrow> session_catalog \<Rightarrow>
     (catalog_error + unit) \<times> session_catalog"
where
  "rename_window sid wid name expected c =
     attempt (expect_revision c expected) c (\<lambda>_.
     attempt (validated_name name) c (\<lambda>name.
     attempt (ok_or (bt_get (cat_sessions c) sid) SessionNotFound) c (\<lambda>target.
     attempt (ok_or (position (\<lambda>w. sw_id w = wid) (se_windows target)) WindowNotFound) c (\<lambda>i.
       (Inr (), commit_window c sid target i ((se_windows target ! i)\<lparr>sw_name := name\<rparr>))))))"

definition activate_window ::
  "session_id \<Rightarrow> window_id \<Rightarrow> u64 \<Rightarrow> session_catalog \<Rightarrow> (catalog_error + unit) \<times> session_catalog"
where
  "activate_window sid wid expected c =
     attempt (expect_revision c expected) c (\<lambda>_.
     attempt (ok_or (bt_get (cat_sessions c) sid) SessionNotFound) c (\<lambda>target.
     if \<not> list_ex (\<lambda>w. sw_id w = wid) (se_windows target) then (Inl WindowNotFound, c)
     else (Inr (), commit_session c sid (target\<lparr>se_active_window := wid\<rparr>))))"

text \<open>The loop that copies the panes of a window under new identifiers.\<close>

fun duplicate_panes ::
  "entropy \<Rightarrow> session_pane list \<Rightarrow> (pane_id, pane_id) btree \<Rightarrow> (pane_id, session_pane) btree \<Rightarrow>
     catalog_error + (pane_id, pane_id) btree \<times> (pane_id, session_pane) btree \<times> entropy"
where
  "duplicate_panes rng [] ids panes = Inr (ids, panes, rng)"
| "duplicate_panes rng (p # ps) ids panes =
     (case new_id rng of
        (Inl e, _) \<Rightarrow> Inl (IdFailed e)
      | (Inr pane_id, rng) \<Rightarrow>
          duplicate_panes rng ps (bt_insert (sp_id p) pane_id ids)
            (bt_insert pane_id
               \<lparr>sp_id = pane_id, sp_working_directory = sp_working_directory p,
                sp_requested_rows = sp_requested_rows p,
                sp_requested_columns = sp_requested_columns p,
                sp_generation = 0, sp_lifecycle = Stopped\<rparr> panes))"

definition duplicate_window ::
  "entropy \<Rightarrow> session_id \<Rightarrow> window_id \<Rightarrow> u64 \<Rightarrow> session_catalog \<Rightarrow>
     (catalog_error + window_id) \<times> session_catalog"
where
  "duplicate_window rng sid source_id expected c =
     attempt (expect_revision c expected) c (\<lambda>_.
     attempt (ok_or (bt_get (cat_sessions c) sid) SessionNotFound) c (\<lambda>target.
     if length (se_windows target) \<ge> MAX_WINDOWS_PER_SESSION then (Inl CapacityReached, c)
     else
     attempt (ok_or (find (\<lambda>w. sw_id w = source_id) (se_windows target)) WindowNotFound) c (\<lambda>source.
     if sat_add_usize (total_panes c) (bt_len (sw_panes source)) > MAX_TOTAL_PANES
     then (Inl CapacityReached, c)
     else
     with_new_id rng c (\<lambda>window_id rng.
     attempt (duplicate_panes rng (bt_values (sw_panes source)) bt_empty bt_empty) c
       (\<lambda>(ids, panes, _).
     attempt (validated_name (sw_name source @ lit '' copy'')) c (\<lambda>name.
     attempt (sln_remap (sw_root source) ids) c (\<lambda>root.
     attempt (ok_or (bt_get ids (sw_focused_pane source)) PaneNotFound) c (\<lambda>focused.
       let w = \<lparr>sw_id = window_id, sw_name = name, sw_revision = 1, sw_root = root,
                sw_focused_pane = focused, sw_panes = panes\<rparr>
       in (Inr window_id,
           commit_session c sid
             (target\<lparr>se_windows := se_windows target @ [w], se_active_window := window_id\<rparr>))))))))))"

definition close_window ::
  "session_id \<Rightarrow> window_id \<Rightarrow> u64 \<Rightarrow> session_catalog \<Rightarrow> (catalog_error + unit) \<times> session_catalog"
where
  "close_window sid wid expected c =
     attempt (expect_revision c expected) c (\<lambda>_.
     attempt (ok_or (bt_get (cat_sessions c) sid) SessionNotFound) c (\<lambda>target.
     attempt (ok_or (position (\<lambda>w. sw_id w = wid) (se_windows target)) WindowNotFound) c (\<lambda>index.
     if window_has_live_panes (se_windows target ! index) then (Inl WindowRunning, c)
     else if length (se_windows target) = 1 then (Inl LastWindow, c)
     else
       let windows = remove_at index (se_windows target);
           removed = target\<lparr>se_windows := windows\<rparr>
       in if se_active_window target = wid
          then attempt
                 (ok_or (case nth_opt windows index of Some w \<Rightarrow> Some w | None \<Rightarrow> last_opt windows)
                    LastWindow)
                 (c\<lparr>cat_sessions := bt_insert sid removed (cat_sessions c)\<rparr>)
                 (\<lambda>w. (Inr (), commit_session c sid (removed\<lparr>se_active_window := sw_id w\<rparr>)))
          else (Inr (), commit_session c sid removed))))"

text \<open>The loop of \<open>duplicate_session\<close> over the source windows.\<close>

fun duplicate_windows ::
  "entropy \<Rightarrow> window_id \<Rightarrow> session_window list \<Rightarrow> window_id option \<Rightarrow>
     catalog_error + session_window list \<times> window_id option"
where
  "duplicate_windows rng source_active [] active = Inr ([], active)"
| "duplicate_windows rng source_active (w # ws) active =
     (case new_id rng of
        (Inl e, _) \<Rightarrow> Inl (IdFailed e)
      | (Inr window_id, rng) \<Rightarrow>
          and_then (duplicate_panes rng (bt_values (sw_panes w)) bt_empty bt_empty)
            (\<lambda>(ids, panes, rng).
          and_then (ok_or (bt_get ids (sw_focused_pane w)) PaneNotFound) (\<lambda>focused.
          and_then (sln_remap (sw_root w) ids) (\<lambda>root.
          and_then
            (duplicate_windows rng source_active ws
               (if sw_id w = source_active then Some window_id else active))
            (\<lambda>(windows, active).
               Inr (\<lparr>sw_id = window_id, sw_name = sw_name w, sw_revision = 1, sw_root = root,
                     sw_focused_pane = focused, sw_panes = panes\<rparr> # windows, active))))))"

definition duplicate_session ::
  "entropy \<Rightarrow> session_id \<Rightarrow> u64 \<Rightarrow> session_catalog \<Rightarrow>
     (catalog_error + session_id) \<times> session_catalog"
where
  "duplicate_session rng source_id expected c =
     attempt (expect_revision c expected) c (\<lambda>_.
     attempt (ok_or (bt_get (cat_sessions c) source_id) SessionNotFound) c (\<lambda>source.
     if bt_len (cat_sessions c) \<ge> MAX_SESSIONS \<or>
        sat_add_usize (total_panes c) (sum_list (map (\<lambda>w. bt_len (sw_panes w)) (se_windows source)))
          > MAX_TOTAL_PANES
     then (Inl CapacityReached, c)
     else
     with_new_id rng c (\<lambda>session_id rng.
     attempt (duplicate_windows rng (se_active_window source) (se_windows source) None) c
       (\<lambda>(windows, active_window).
     attempt (validated_name (se_name source @ lit '' copy'')) c (\<lambda>name.
     attempt (ok_or active_window WindowNotFound) c (\<lambda>active.
       let s = \<lparr>se_id = session_id, se_name = name, se_revision = 1, se_windows = windows,
                se_active_window = active\<rparr>
       in (Inr session_id,
           bump_revision
             (c\<lparr>cat_sessions := bt_insert session_id s (cat_sessions c),
                cat_active_session := Some session_id\<rparr>))))))))"

section \<open>Pane mutations\<close>

definition split_focused ::
  "entropy \<Rightarrow> session_id \<Rightarrow> split_axis \<Rightarrow> u64 \<Rightarrow> session_catalog \<Rightarrow>
     (catalog_error + pane_id) \<times> session_catalog"
where
  "split_focused rng sid axis expected c =
     attempt (expect_revision c expected) c (\<lambda>_.
     if total_panes c \<ge> MAX_TOTAL_PANES then (Inl CapacityReached, c)
     else
     attempt (ok_or (bt_get (cat_sessions c) sid) SessionNotFound) c (\<lambda>target.
     attempt (active_window_mut target) c (\<lambda>i.
     let window = se_windows target ! i in
     if bt_len (sw_panes window) \<ge> MAX_PANES_PER_WINDOW then (Inl CapacityReached, c)
     else
     let focused = sw_focused_pane window in
     attempt (ok_or (bt_get (sw_panes window) focused) PaneNotFound) c (\<lambda>focused_pane.
     with_new_id rng c (\<lambda>new_pane rng.
       (case sln_split (sw_root window) focused new_pane axis of
          (False, _) \<Rightarrow> (Inl PaneNotFound, c)
        | (True, next_root) \<Rightarrow>
            let next_panes =
                  bt_insert new_pane
                    \<lparr>sp_id = new_pane, sp_working_directory = sp_working_directory focused_pane,
                     sp_requested_rows = sp_requested_rows focused_pane,
                     sp_requested_columns = sp_requested_columns focused_pane,
                     sp_generation = 0, sp_lifecycle = Stopped\<rparr> (sw_panes window)
            in if \<not> sln_validate next_root next_panes then (Inl LayoutTooDeep, c)
               else (Inr new_pane,
                     commit_window c sid target i
                       (window\<lparr>sw_root := next_root, sw_panes := next_panes,
                               sw_focused_pane := new_pane\<rparr>))))))))"

definition set_focused_split_ratio ::
  "session_id \<Rightarrow> u16 \<Rightarrow> u64 \<Rightarrow> session_catalog \<Rightarrow> (catalog_error + unit) \<times> session_catalog"
where
  "set_focused_split_ratio sid ratio expected c =
     attempt (expect_revision c expected) c (\<lambda>_.
     if \<not> split_ratio_ok ratio then (Inl InvalidSplitRatio, c)
     else
     attempt (ok_or (bt_get (cat_sessions c) sid) SessionNotFound) c (\<lambda>target.
     attempt (active_window_mut target) c (\<lambda>i.
     let window = se_windows target ! i in
       (case sln_set_parent_ratio (sw_root window) (sw_focused_pane window) ratio of
          (False, _) \<Rightarrow> (Inl NoFocusedSplit, c)
        | (True, root) \<Rightarrow> (Inr (), commit_window c sid target i (window\<lparr>sw_root := root\<rparr>))))))"

definition focus_pane ::
  "session_id \<Rightarrow> pane_id \<Rightarrow> u64 \<Rightarrow> session_catalog \<Rightarrow> (catalog_error + unit) \<times> session_catalog"
where
  "focus_pane sid pane expected c =
     attempt (expect_revision c expected) c (\<lambda>_.
     attempt (ok_or (bt_get (cat_sessions c) sid) SessionNotFound) c (\<lambda>target.
     attempt (active_window_mut target) c (\<lambda>i.
     let window = se_windows target ! i in
     if \<not> sln_contains (sw_root window) pane \<or> \<not> bt_contains (sw_panes window) pane
     then (Inl PaneNotFound, c)
     else (Inr (), commit_window c sid target i (window\<lparr>sw_focused_pane := pane\<rparr>)))))"

text \<open>\<open>windows.iter_mut().find(|window| window.panes.contains_key(&pane))\<close>.\<close>

definition window_of_pane :: "session \<Rightarrow> pane_id \<Rightarrow> catalog_error + nat" where
  "window_of_pane s pane =
     ok_or (position (\<lambda>w. bt_contains (sw_panes w) pane) (se_windows s)) PaneNotFound"

text \<open>
  \<open>close_pane\<close> changes the window before its last check: the branch \<open>InvalidLayout\<close> leaves the
  window changed and the revisions alone.
\<close>

definition close_pane ::
  "session_id \<Rightarrow> pane_id \<Rightarrow> u64 \<Rightarrow> session_catalog \<Rightarrow> (catalog_error + unit) \<times> session_catalog"
where
  "close_pane sid pane expected c =
     attempt (expect_revision c expected) c (\<lambda>_.
     attempt (ok_or (bt_get (cat_sessions c) sid) SessionNotFound) c (\<lambda>target.
     attempt (window_of_pane target pane) c (\<lambda>i.
     let window = se_windows target ! i in
     attempt (ok_or (bt_get (sw_panes window) pane) PaneNotFound) c (\<lambda>p.
     if is_live (sp_lifecycle p) then (Inl PaneRunning, c)
     else if bt_len (sw_panes window) = 1 then (Inl LastPane, c)
     else
     attempt (ok_or (sln_remove (sw_root window) pane) LastPane) c (\<lambda>root.
       let panes = bt_remove pane (sw_panes window);
           removed = window\<lparr>sw_panes := panes, sw_root := root\<rparr>;
           put = (\<lambda>w. c\<lparr>cat_sessions := bt_insert sid (target\<lparr>se_windows := (se_windows target)[i := w]\<rparr>)
                         (cat_sessions c)\<rparr>)
       in attempt
            (if sw_focused_pane window = pane
             then and_then (ok_or (bt_first_key panes) LastPane) (\<lambda>f. Inr (removed\<lparr>sw_focused_pane := f\<rparr>))
             else Inr removed)
            (put removed)
            (\<lambda>w. if \<not> window_validate w then (Inl InvalidLayout, put w)
                 else (Inr (), commit_window c sid target i w)))))))"

definition set_pane_lifecycle ::
  "session_id \<Rightarrow> pane_id \<Rightarrow> pane_lifecycle \<Rightarrow> u64 \<Rightarrow> session_catalog \<Rightarrow>
     (catalog_error + unit) \<times> session_catalog"
where
  "set_pane_lifecycle sid pane lifecycle expected c =
     attempt (expect_revision c expected) c (\<lambda>_.
     attempt (ok_or (bt_get (cat_sessions c) sid) SessionNotFound) c (\<lambda>target.
     attempt (window_of_pane target pane) c (\<lambda>i.
     let window = se_windows target ! i in
     attempt (ok_or (bt_get (sw_panes window) pane) PaneNotFound) c (\<lambda>p.
       (Inr (), commit_window c sid target i
          (window\<lparr>sw_panes := bt_insert pane (p\<lparr>sp_lifecycle := lifecycle\<rparr>) (sw_panes window)\<rparr>))))))"

definition begin_pane_generation ::
  "session_id \<Rightarrow> pane_id \<Rightarrow> u16 \<Rightarrow> u16 \<Rightarrow> u64 \<Rightarrow> session_catalog \<Rightarrow>
     (catalog_error + u64) \<times> session_catalog"
where
  "begin_pane_generation sid pane rows columns expected c =
     attempt (expect_revision c expected) c (\<lambda>_.
     attempt (ok_or (bt_get (cat_sessions c) sid) SessionNotFound) c (\<lambda>target.
     attempt (window_of_pane target pane) c (\<lambda>i.
     let window = se_windows target ! i in
     attempt (ok_or (bt_get (sw_panes window) pane) PaneNotFound) c (\<lambda>p.
     if rows = 0 \<or> columns = 0 then (Inl InvalidCatalog, c)
     else
       let generation = sat_inc (sp_generation p);
           p' = p\<lparr>sp_requested_rows := rows, sp_requested_columns := columns,
                  sp_generation := generation, sp_lifecycle := Starting\<rparr>
       in (Inr generation, commit_window c sid target i
             (window\<lparr>sw_panes := bt_insert pane p' (sw_panes window)\<rparr>))))))"

definition set_pane_size ::
  "session_id \<Rightarrow> pane_id \<Rightarrow> u16 \<Rightarrow> u16 \<Rightarrow> u64 \<Rightarrow> session_catalog \<Rightarrow>
     (catalog_error + unit) \<times> session_catalog"
where
  "set_pane_size sid pane rows columns expected c =
     attempt (expect_revision c expected) c (\<lambda>_.
     if rows = 0 \<or> columns = 0 then (Inl InvalidCatalog, c)
     else
     attempt (ok_or (bt_get (cat_sessions c) sid) SessionNotFound) c (\<lambda>target.
     attempt (window_of_pane target pane) c (\<lambda>i.
     let window = se_windows target ! i in
     attempt (ok_or (bt_get (sw_panes window) pane) PaneNotFound) c (\<lambda>p.
       (Inr (), commit_window c sid target i
          (window\<lparr>sw_panes :=
             bt_insert pane (p\<lparr>sp_requested_rows := rows, sp_requested_columns := columns\<rparr>)
               (sw_panes window)\<rparr>))))))"

text \<open>The one mutation that takes no revision: a completion reported for a pane generation.\<close>

definition set_generation_lifecycle ::
  "session_id \<Rightarrow> pane_id \<Rightarrow> u64 \<Rightarrow> pane_lifecycle \<Rightarrow> session_catalog \<Rightarrow>
     (catalog_error + bool) \<times> session_catalog"
where
  "set_generation_lifecycle sid pane generation lifecycle c =
     attempt (ok_or (bt_get (cat_sessions c) sid) SessionNotFound) c (\<lambda>target.
     attempt (window_of_pane target pane) c (\<lambda>i.
     let window = se_windows target ! i in
     attempt (ok_or (bt_get (sw_panes window) pane) PaneNotFound) c (\<lambda>p.
     if sp_generation p \<noteq> generation then (Inr False, c)
     else if sp_lifecycle p = lifecycle then (Inr True, c)
     else (Inr True, commit_window c sid target i
             (window\<lparr>sw_panes := bt_insert pane (p\<lparr>sp_lifecycle := lifecycle\<rparr>) (sw_panes window)\<rparr>)))))"

definition remove_session ::
  "session_id \<Rightarrow> u64 \<Rightarrow> session_catalog \<Rightarrow> (catalog_error + unit) \<times> session_catalog"
where
  "remove_session sid expected c =
     attempt (expect_revision c expected) c (\<lambda>_.
     attempt (ok_or (bt_get (cat_sessions c) sid) SessionNotFound) c (\<lambda>target.
     if has_live_panes target then (Inl SessionRunning, c)
     else
       let sessions = bt_remove sid (cat_sessions c);
           active = (if cat_active_session c = Some sid then bt_first_key sessions
                     else cat_active_session c)
       in (Inr (), bump_revision (c\<lparr>cat_sessions := sessions, cat_active_session := active\<rparr>))))"

end
