(* ===== verification/CatalogInvariant.thy ===== *)
theory CatalogInvariant imports SessionCatalog begin

text \<open>
  The well-formedness of a session catalog, read off \<open>SessionCatalog::validate\<close>: the code's
  validation accepts exactly the catalogs that satisfy \<open>catalog_ok\<close>. The lemmas after it say what
  replacing one session, replacing one window of a session, and adding a session do to it.
\<close>

section \<open>The invariant\<close>

definition name_ok :: "rust_string \<Rightarrow> bool" where
  "name_ok n \<longleftrightarrow> trim n \<noteq> [] \<and> length (trim n) \<le> 80"

definition pane_ok :: "pane_id \<Rightarrow> session_pane \<Rightarrow> bool" where
  "pane_ok k p \<longleftrightarrow> sp_id p = k \<and> sp_working_directory p \<noteq> [] \<and>
     0 < sp_requested_rows p \<and> 0 < sp_requested_columns p"

definition window_ok :: "session_window \<Rightarrow> bool" where
  "window_ok w \<longleftrightarrow>
     sw_revision w \<noteq> 0 \<and> name_ok (sw_name w) \<and>
     bt_len (sw_panes w) \<le> MAX_PANES_PER_WINDOW \<and>
     sw_focused_pane w \<in> set (bt_keys (sw_panes w)) \<and>
     list_all (\<lambda>(k, p). pane_ok k p) (bt_entries (sw_panes w)) \<and>
     layout_ok (sw_root w) (sw_panes w)"

definition session_ok :: "session \<Rightarrow> bool" where
  "session_ok s \<longleftrightarrow>
     se_revision s \<noteq> 0 \<and> name_ok (se_name s) \<and>
     length (se_windows s) \<le> MAX_WINDOWS_PER_SESSION \<and>
     se_active_window s \<in> set (map sw_id (se_windows s)) \<and>
     distinct (map sw_id (se_windows s)) \<and>
     list_all window_ok (se_windows s)"

definition window_pane_ids :: "session_window \<Rightarrow> pane_id list" where
  "window_pane_ids w = bt_keys (sw_panes w)"

definition session_pane_ids :: "session \<Rightarrow> pane_id list" where
  "session_pane_ids s = concat (map window_pane_ids (se_windows s))"

definition catalog_pane_ids :: "session_catalog \<Rightarrow> pane_id list" where
  "catalog_pane_ids c = concat (map session_pane_ids (bt_values (cat_sessions c)))"

definition active_ok :: "session_catalog \<Rightarrow> bool" where
  "active_ok c \<longleftrightarrow>
     (case cat_active_session c of
        None \<Rightarrow> bt_keys (cat_sessions c) = []
      | Some active \<Rightarrow> active \<in> set (bt_keys (cat_sessions c)))"

definition catalog_ok :: "session_catalog \<Rightarrow> bool" where
  "catalog_ok c \<longleftrightarrow>
     bt_len (cat_sessions c) \<le> MAX_SESSIONS \<and> active_ok c \<and>
     list_all (\<lambda>(k, s). se_id s = k \<and> session_ok s) (bt_entries (cat_sessions c)) \<and>
     distinct (catalog_pane_ids c) \<and> length (catalog_pane_ids c) \<le> MAX_TOTAL_PANES"

section \<open>The validation decides the invariant\<close>

lemma validated_name_isl: "isl (validated_name n) \<longleftrightarrow> \<not> name_ok n"
  by (auto simp: validated_name_def name_ok_def Let_def)

lemma validated_name_ok: "validated_name n = Inr m \<Longrightarrow> name_ok m"
  by (auto simp: validated_name_def name_ok_def Let_def split: if_splits)

lemma validated_name_err: "validated_name n = Inl e \<Longrightarrow> e = InvalidName"
  by (auto simp: validated_name_def Let_def split: if_splits)

lemma validated_directory_ok: "validated_directory d = Inr d' \<longleftrightarrow> d \<noteq> [] \<and> d' = d"
  by (auto simp: validated_directory_def)

lemma validate_panes_iff:
  "validate_panes xs found = Inr found' \<longleftrightarrow>
     list_all (\<lambda>(k, p). sp_id p = k \<and> sp_working_directory p \<noteq> []) xs \<and>
     distinct (map fst xs) \<and> set (map fst xs) \<inter> found = {} \<and> found' = found \<union> set (map fst xs)"
  by (induction xs found rule: validate_panes.induct) auto

lemma window_ok_iff:
  "window_ok w \<longleftrightarrow>
     sw_revision w \<noteq> 0 \<and> name_ok (sw_name w) \<and> window_validate w \<and>
     list_all (\<lambda>(k, p). sp_id p = k \<and> sp_working_directory p \<noteq> []) (bt_entries (sw_panes w))"
  by (auto simp: window_ok_def window_validate_def pane_ok_def sln_validate_iff list_all_iff
      bt_is_empty_keys bt_contains_keys bt_values_def)

lemma length_window_pane_ids: "length (window_pane_ids w) = bt_len (sw_panes w)"
  by (simp add: window_pane_ids_def bt_len_keys)

lemma validate_windows_iff:
  "validate_windows ws wids count found = Inr (count', found') \<longleftrightarrow>
     list_all window_ok ws \<and> distinct (map sw_id ws) \<and> set (map sw_id ws) \<inter> wids = {} \<and>
     distinct (concat (map window_pane_ids ws)) \<and>
     set (concat (map window_pane_ids ws)) \<inter> found = {} \<and>
     count' = count + length (concat (map window_pane_ids ws)) \<and> (count' < 2 ^ 64 \<or> ws = []) \<and>
     found' = found \<union> set (concat (map window_pane_ids ws))"
proof (induction ws arbitrary: wids count found)
  case Nil
  then show ?case by auto
next
  case (Cons w ws)
  have k: "map fst (bt_entries (sw_panes w)) = window_pane_ids w"
    by (simp add: window_pane_ids_def bt_keys_def)
  have chk: "checked_add_usize count (bt_len (sw_panes w)) = Some m \<longleftrightarrow>
      m = count + length (window_pane_ids w) \<and> m < 2 ^ 64" for m
    by (auto simp: checked_add_usize_def length_window_pane_ids)
  show ?case
    by (auto simp: chk outcome validate_panes_iff Cons.IH window_ok_iff [of w] validated_name_isl k)
qed

lemma validate_sessions_iff:
  "validate_sessions xs count found = Inr (count', found') \<longleftrightarrow>
     list_all (\<lambda>(k, s). se_id s = k \<and> session_ok s) xs \<and>
     distinct (concat (map (session_pane_ids \<circ> snd) xs)) \<and>
     set (concat (map (session_pane_ids \<circ> snd) xs)) \<inter> found = {} \<and>
     count' = count + length (concat (map (session_pane_ids \<circ> snd) xs)) \<and>
     (count' < 2 ^ 64 \<or> xs = []) \<and>
     found' = found \<union> set (concat (map (session_pane_ids \<circ> snd) xs))"
proof (induction xs arbitrary: count found)
  case Nil
  then show ?case by auto
next
  case (Cons x xs)
  obtain sid s where x: "x = (sid, s)" by force
  have act: "list_ex (\<lambda>w. sw_id w = se_active_window s) (se_windows s) \<longleftrightarrow>
      se_active_window s \<in> set (map sw_id (se_windows s))"
    by (simp add: list_ex_iff image_iff Bex_def eq_commute)
  have ne: "se_active_window s \<in> set (map sw_id (se_windows s)) \<Longrightarrow> se_windows s \<noteq> []" by auto
  show ?case
    using ne
    by (auto simp: x outcome Cons.IH validate_windows_iff session_ok_def [of s] validated_name_isl act
        session_pane_ids_def [of s])
qed

lemma catalog_pane_ids_entries:
  "catalog_pane_ids c = concat (map (session_pane_ids \<circ> snd) (bt_entries (cat_sessions c)))"
  by (simp add: catalog_pane_ids_def bt_values_def)

lemma total_panes_length: "total_panes c = length (catalog_pane_ids c)"
proof -
  have a: "length (session_pane_ids s) = sum_list (map (\<lambda>w. bt_len (sw_panes w)) (se_windows s))" for s
    by (simp add: session_pane_ids_def length_concat comp_def length_window_pane_ids)
  have "sum_list (map (\<lambda>w. bt_len (sw_panes w)) (concat (map se_windows ss))) =
      length (concat (map session_pane_ids ss))" for ss
    by (induction ss) (simp_all add: a)
  then show ?thesis by (simp add: total_panes_def catalog_pane_ids_def)
qed

lemma active_ok_iff:
  "active_ok c \<longleftrightarrow>
     (bt_is_empty (cat_sessions c) \<longleftrightarrow> cat_active_session c = None) \<and>
     (case cat_active_session c of None \<Rightarrow> True
      | Some active \<Rightarrow> bt_contains (cat_sessions c) active)"
  by (cases "bt_keys (cat_sessions c)")
    (auto simp: active_ok_def bt_is_empty_keys bt_contains_keys split: option.splits)

lemma catalog_validate_ok: "catalog_validate c = Inr () \<longleftrightarrow> catalog_ok c"
proof -
  have v: "(\<exists>count found. validate_sessions (bt_entries (cat_sessions c)) 0 {} = Inr (count, found) \<and>
      \<not> MAX_TOTAL_PANES < count) \<longleftrightarrow>
    list_all (\<lambda>(k, s). se_id s = k \<and> session_ok s) (bt_entries (cat_sessions c)) \<and>
     distinct (catalog_pane_ids c) \<and> length (catalog_pane_ids c) \<le> MAX_TOTAL_PANES"
    by (auto simp: validate_sessions_iff catalog_pane_ids_entries MAX_TOTAL_PANES_def)
  show ?thesis
  proof (cases "bt_len (cat_sessions c) \<le> MAX_SESSIONS \<and> active_ok c")
    case True
    then have g: "\<not> bt_len (cat_sessions c) > MAX_SESSIONS"
      "\<not> (bt_is_empty (cat_sessions c) \<noteq> (cat_active_session c = None) \<or>
        (case cat_active_session c of None \<Rightarrow> False
         | Some active \<Rightarrow> \<not> bt_contains (cat_sessions c) active))"
      by (auto simp: active_ok_iff split: option.splits)
    have "catalog_validate c = Inr () \<longleftrightarrow>
      (\<exists>count found. validate_sessions (bt_entries (cat_sessions c)) 0 {} = Inr (count, found) \<and>
        \<not> MAX_TOTAL_PANES < count)"
      unfolding catalog_validate_def using g by (auto simp: outcome split: if_splits)
    with True v show ?thesis by (simp add: catalog_ok_def)
  next
    case False
    then have "catalog_validate c \<noteq> Inr ()"
      by (auto simp: catalog_validate_def active_ok_iff split: option.splits)
    with False show ?thesis by (auto simp: catalog_ok_def)
  qed
qed

lemma validate_panes_err: "validate_panes xs found = Inl e \<Longrightarrow> e = InvalidCatalog"
  by (induction xs found rule: validate_panes.induct) (auto split: if_splits)

lemma validate_windows_err: "validate_windows ws wids count found = Inl e \<Longrightarrow> e = InvalidCatalog"
  by (induction ws arbitrary: wids count found)
    (auto simp: outcome split: if_splits dest: validate_panes_err)

lemma validate_sessions_err: "validate_sessions xs count found = Inl e \<Longrightarrow> e = InvalidCatalog"
  by (induction xs count found rule: validate_sessions.induct)
    (auto simp: outcome split: if_splits dest: validate_windows_err)

lemma catalog_validate_err: "catalog_validate c = Inl e \<Longrightarrow> e = InvalidCatalog"
  by (auto simp: catalog_validate_def outcome split: if_splits dest: validate_sessions_err)

section \<open>Replacing, adding and removing\<close>

lemma catalog_get:
  assumes "catalog_ok c" "bt_get (cat_sessions c) sid = Some s"
  shows "se_id s = sid" "session_ok s"
  using assms by (auto simp: catalog_ok_def list_all_iff bt_entries_get [symmetric])

lemma session_ids_in_catalog:
  "bt_get (cat_sessions c) sid = Some s \<Longrightarrow> set (session_pane_ids s) \<subseteq> set (catalog_pane_ids c)"
  using bt_get_in_values [of "cat_sessions c" sid s] by (auto simp: catalog_pane_ids_def)

lemma session_ids_distinct:
  assumes "catalog_ok c" "bt_get (cat_sessions c) sid = Some s"
  shows "distinct (session_pane_ids s)"
proof -
  obtain as bs where "bt_entries (cat_sessions c) = as @ (sid, s) # bs"
    using assms(2) by (elim bt_split_at)
  with assms(1) show ?thesis by (simp add: catalog_ok_def catalog_pane_ids_entries)
qed

lemma catalog_ok_revision [simp]: "catalog_ok (c\<lparr>cat_revision := r\<rparr>) = catalog_ok c"
  by (simp add: catalog_ok_def active_ok_def catalog_pane_ids_def split: option.splits)

lemma catalog_ok_bump [simp]: "catalog_ok (bump_revision c) = catalog_ok c"
  by (simp add: bump_revision_def)

lemma catalog_pane_ids_revision [simp]:
  "catalog_pane_ids (c\<lparr>cat_revision := r\<rparr>) = catalog_pane_ids c"
  by (simp add: catalog_pane_ids_def)

lemma session_ok_touch: "session_ok s \<Longrightarrow> session_ok (s\<lparr>se_revision := sat_inc r\<rparr>)"
  by (simp add: session_ok_def)

lemma window_ok_touch: "window_ok w \<Longrightarrow> window_ok (w\<lparr>sw_revision := sat_inc r\<rparr>)"
  by (simp add: window_ok_def)

lemma session_pane_ids_touch [simp]:
  "session_pane_ids (s\<lparr>se_revision := r\<rparr>) = session_pane_ids s"
  "session_pane_ids (s\<lparr>se_name := n\<rparr>) = session_pane_ids s"
  "session_pane_ids (s\<lparr>se_active_window := a\<rparr>) = session_pane_ids s"
  by (simp_all add: session_pane_ids_def)

lemma window_pane_ids_touch [simp]:
  "window_pane_ids (w\<lparr>sw_revision := r\<rparr>) = window_pane_ids w"
  "window_pane_ids (w\<lparr>sw_name := n\<rparr>) = window_pane_ids w"
  "window_pane_ids (w\<lparr>sw_focused_pane := f\<rparr>) = window_pane_ids w"
  "window_pane_ids (w\<lparr>sw_root := root\<rparr>) = window_pane_ids w"
  by (simp_all add: window_pane_ids_def)

lemma catalog_replace:
  assumes c: "catalog_ok c" and get: "bt_get (cat_sessions c) sid = Some s"
    and s': "session_ok s'" "se_id s' = se_id s" "distinct (session_pane_ids s')"
    and sub: "set (session_pane_ids s') \<subseteq> set (session_pane_ids s) \<union> F"
    and fresh: "F \<inter> set (catalog_pane_ids c) = {}"
    and room: "total_panes c + length (session_pane_ids s') \<le> MAX_TOTAL_PANES + length (session_pane_ids s)"
  shows "catalog_ok (c\<lparr>cat_sessions := bt_insert sid s' (cat_sessions c)\<rparr>)"
proof -
  let ?c = "c\<lparr>cat_sessions := bt_insert sid s' (cat_sessions c)\<rparr>"
  obtain as bs where e: "bt_entries (cat_sessions c) = as @ (sid, s) # bs"
      "bt_entries (cat_sessions ?c) = as @ (sid, s') # bs"
    using get by (elim bt_split_at) simp
  have "active_ok ?c"
    using c get by (auto simp: catalog_ok_def active_ok_def bt_keys_replace [OF get] split: option.splits)
  moreover have "bt_len (cat_sessions ?c) \<le> MAX_SESSIONS"
    using c by (simp add: catalog_ok_def bt_len_replace [OF get])
  moreover have "list_all (\<lambda>(k, s). se_id s = k \<and> session_ok s) (bt_entries (cat_sessions ?c))"
    using c e s' by (simp add: catalog_ok_def)
  moreover have "distinct (catalog_pane_ids ?c)"
    using c e s'(3) sub fresh unfolding catalog_ok_def catalog_pane_ids_entries by fastforce
  moreover have "length (catalog_pane_ids ?c) \<le> MAX_TOTAL_PANES"
    using room e unfolding total_panes_length catalog_pane_ids_entries by simp
  ultimately show ?thesis by (simp add: catalog_ok_def)
qed

lemma catalog_add:
  assumes c: "catalog_ok c" and get: "bt_get (cat_sessions c) sid = None"
    and s: "session_ok s" "se_id s = sid" "distinct (session_pane_ids s)"
    and fresh: "set (session_pane_ids s) \<inter> set (catalog_pane_ids c) = {}"
    and room: "bt_len (cat_sessions c) < MAX_SESSIONS"
      "total_panes c + length (session_pane_ids s) \<le> MAX_TOTAL_PANES"
  shows "catalog_ok (c\<lparr>cat_sessions := bt_insert sid s (cat_sessions c), cat_active_session := Some sid\<rparr>)"
proof -
  let ?c = "c\<lparr>cat_sessions := bt_insert sid s (cat_sessions c), cat_active_session := Some sid\<rparr>"
  obtain as bs where e: "bt_entries (cat_sessions c) = as @ bs"
      "bt_entries (cat_sessions ?c) = as @ (sid, s) # bs"
    using get by (elim bt_split_new) simp
  have "active_ok ?c" by (simp add: active_ok_def)
  moreover have "bt_len (cat_sessions ?c) \<le> MAX_SESSIONS"
    using room(1) by (simp add: bt_len_insert get)
  moreover have "list_all (\<lambda>(k, s). se_id s = k \<and> session_ok s) (bt_entries (cat_sessions ?c))"
    using c e s by (simp add: catalog_ok_def)
  moreover have "distinct (catalog_pane_ids ?c)"
    using c e s(3) fresh unfolding catalog_ok_def catalog_pane_ids_entries by fastforce
  moreover have "length (catalog_pane_ids ?c) \<le> MAX_TOTAL_PANES"
    using room(2) e unfolding total_panes_length catalog_pane_ids_entries by simp
  ultimately show ?thesis by (simp add: catalog_ok_def)
qed

lemma catalog_drop:
  assumes c: "catalog_ok c" and get: "bt_get (cat_sessions c) sid = Some s"
    and active: "active_ok (c\<lparr>cat_sessions := bt_remove sid (cat_sessions c), cat_active_session := a\<rparr>)"
  shows "catalog_ok (c\<lparr>cat_sessions := bt_remove sid (cat_sessions c), cat_active_session := a\<rparr>)"
proof -
  obtain as bs where e: "bt_entries (cat_sessions c) = as @ (sid, s) # bs"
      "bt_entries (bt_remove sid (cat_sessions c)) = as @ bs"
    using get by (elim bt_split_at) simp
  show ?thesis
    using c active e bt_len_remove [OF get] unfolding catalog_ok_def catalog_pane_ids_entries by auto
qed

text \<open>One window of a session replaced, in the session and in the catalog.\<close>

lemma window_ids_in_session:
  "w \<in> set (se_windows s) \<Longrightarrow> set (window_pane_ids w) \<subseteq> set (session_pane_ids s)"
  by (auto simp: session_pane_ids_def)

lemma session_windows_ok: "session_ok s \<Longrightarrow> w \<in> set (se_windows s) \<Longrightarrow> window_ok w"
  by (auto simp: session_ok_def list_all_iff)

lemma session_replace_window:
  assumes s: "session_ok s" "distinct (session_pane_ids s)" and i: "i < length (se_windows s)"
    and w': "window_ok w'" "sw_id w' = sw_id (se_windows s ! i)"
    and sub: "set (window_pane_ids w') \<subseteq> set (window_pane_ids (se_windows s ! i)) \<union> F"
    and fresh: "F \<inter> set (session_pane_ids s) = {}"
  defines "s' \<equiv> s\<lparr>se_windows := (se_windows s)[i := w']\<rparr>"
  shows "session_ok s'" "se_id s' = se_id s" "distinct (session_pane_ids s')"
    "set (session_pane_ids s') \<subseteq> set (session_pane_ids s) \<union> F"
    "length (session_pane_ids s') + length (window_pane_ids (se_windows s ! i)) =
      length (session_pane_ids s) + length (window_pane_ids w')"
proof -
  obtain as w bs where e: "se_windows s = as @ w # bs" "length as = i"
    using id_take_nth_drop [OF i] i by (metis length_take min.absorb4)
  then have w: "se_windows s ! i = w" by (metis nth_append_length)
  have e': "se_windows s' = as @ w' # bs" using e by (auto simp: s'_def)
  show "session_ok s'" using s(1) w' w e e' by (auto simp: session_ok_def s'_def)
  show "se_id s' = se_id s" by (simp add: s'_def)
  show "distinct (session_pane_ids s')"
  proof -
    let ?rest = "concat (map window_pane_ids (as @ bs))"
    have d: "distinct (concat (map window_pane_ids (as @ w # bs)))"
      and f: "F \<inter> set (concat (map window_pane_ids (as @ w # bs))) = {}"
      using s(2) fresh e by (simp_all add: session_pane_ids_def)
    have "set (window_pane_ids w) \<inter> set ?rest = {}" "distinct ?rest" using d by auto
    moreover have "set (window_pane_ids w') \<inter> set ?rest \<subseteq> set (window_pane_ids w) \<inter> set ?rest"
      using sub f w by auto
    moreover have "distinct (window_pane_ids w')" by (simp add: window_pane_ids_def)
    ultimately have "distinct (concat (map window_pane_ids (as @ w' # bs)))" by auto
    then show ?thesis using e' by (simp add: session_pane_ids_def)
  qed
  show "set (session_pane_ids s') \<subseteq> set (session_pane_ids s) \<union> F"
    using sub w e e' by (auto simp: session_pane_ids_def)
  show "length (session_pane_ids s') + length (window_pane_ids (se_windows s ! i)) =
      length (session_pane_ids s) + length (window_pane_ids w')"
    using w e e' by (simp add: session_pane_ids_def)
qed

lemma commit_session_ok:
  assumes "catalog_ok c" "bt_get (cat_sessions c) sid = Some s"
    "session_ok s'" "se_id s' = se_id s" "distinct (session_pane_ids s')"
    "set (session_pane_ids s') \<subseteq> set (session_pane_ids s) \<union> F" "F \<inter> set (catalog_pane_ids c) = {}"
    "total_panes c + length (session_pane_ids s') \<le> MAX_TOTAL_PANES + length (session_pane_ids s)"
  shows "catalog_ok (commit_session c sid s')"
  unfolding commit_session_def catalog_ok_bump
  by (rule catalog_replace [where F = F, OF assms(1,2)])
    (use assms(3-) in \<open>simp_all add: session_ok_touch\<close>)

lemma total_panes_max: "catalog_ok c \<Longrightarrow> total_panes c \<le> MAX_TOTAL_PANES"
  by (simp add: catalog_ok_def total_panes_length)

lemma commit_window_ok:
  assumes c: "catalog_ok c" and get: "bt_get (cat_sessions c) sid = Some s"
    and i: "i < length (se_windows s)"
    and w': "window_ok w'" "sw_id w' = sw_id (se_windows s ! i)"
    and sub: "set (window_pane_ids w') \<subseteq> set (window_pane_ids (se_windows s ! i)) \<union> F"
    and fresh: "F \<inter> set (catalog_pane_ids c) = {}"
    and room: "total_panes c + bt_len (sw_panes w') \<le> MAX_TOTAL_PANES + bt_len (sw_panes (se_windows s ! i))"
  shows "catalog_ok (commit_window c sid s i w')"
proof -
  let ?w = "w'\<lparr>sw_revision := sat_inc (sw_revision w')\<rparr>"
  have sok: "session_ok s" "distinct (session_pane_ids s)"
    using catalog_get [OF c get] session_ids_distinct [OF c get] by simp_all
  have "F \<inter> set (session_pane_ids s) = {}"
    using fresh session_ids_in_catalog [OF get] by auto
  note r = session_replace_window [OF sok i, of ?w F, OF _ _ _ this]
  show ?thesis
    unfolding commit_window_def
    by (rule commit_session_ok [where F = F, OF c get])
      (use r w' sub fresh room in \<open>simp_all add: window_ok_touch length_window_pane_ids\<close>)
qed

lemma commit_session_revision [simp]:
  "cat_revision (commit_session c sid s) = sat_inc (cat_revision c)"
  "cat_revision (commit_window c sid s i w) = sat_inc (cat_revision c)"
  "cat_revision (bump_revision c) = sat_inc (cat_revision c)"
  by (simp_all add: commit_session_def commit_window_def bump_revision_def)

end
