(* ===== verification/CatalogOperations.thy ===== *)
theory CatalogOperations imports CatalogInvariant begin

text \<open>
  What every operation of the session catalog promises: a stale revision is refused and reported,
  a refused operation leaves the catalog as it was, an accepted one advances the revision by one
  and keeps the catalog valid. The locale \<open>catalog_operation\<close> states the contract over a
  revision-guarded operation; every mutation of the catalog is an interpretation of it.
\<close>

section \<open>The contract\<close>

definition kept :: "session_catalog \<Rightarrow> (catalog_error + 'a) \<Rightarrow> session_catalog \<Rightarrow> bool" where
  "kept c r c' \<longleftrightarrow>
     (case r of Inl _ \<Rightarrow> c' = c
      | Inr _ \<Rightarrow> cat_revision c' = sat_inc (cat_revision c) \<and> catalog_ok c')"

lemma kept_simps [simp]:
  "kept c (Inl e) c' \<longleftrightarrow> c' = c"
  "kept c (Inr a) c' \<longleftrightarrow> cat_revision c' = sat_inc (cat_revision c) \<and> catalog_ok c'"
  by (simp_all add: kept_def)

text \<open>
  Random identifiers are unique in practice only; the assumption is explicit: the draws are
  distinct and none names an object of the catalog.
\<close>

definition fresh_supply :: "session_catalog \<Rightarrow> entropy \<Rightarrow> bool" where
  "fresh_supply c rng \<longleftrightarrow>
     distinct_draws rng \<and>
     (drawn rng :: session_id set) \<inter> set (bt_keys (cat_sessions c)) = {} \<and>
     list_all (\<lambda>s. (drawn rng :: window_id set) \<inter> set (map sw_id (se_windows s)) = {})
       (bt_values (cat_sessions c)) \<and>
     (drawn rng :: pane_id set) \<inter> set (catalog_pane_ids c) = {}"

locale catalog_operation =
  fixes pre :: "session_catalog \<Rightarrow> bool"
    and run :: "u64 \<Rightarrow> session_catalog \<Rightarrow> (catalog_error + 'a) \<times> session_catalog"
  assumes stale: "expected \<noteq> cat_revision c \<Longrightarrow>
      run expected c = (Inl (StaleRevision expected (cat_revision c)), c)"
    and keeps: "catalog_ok c \<Longrightarrow> pre c \<Longrightarrow> ends (run expected c) (kept c)"
begin

lemma refused_unchanged:
  "catalog_ok c \<Longrightarrow> pre c \<Longrightarrow> run expected c = (Inl e, c') \<Longrightarrow> c' = c"
  using keeps [of c expected] by (auto dest!: endsD)

lemma accepted:
  assumes "catalog_ok c" "pre c" "run expected c = (Inr a, c')"
  shows "expected = cat_revision c" "cat_revision c' = sat_inc expected" "catalog_ok c'"
proof -
  show e: "expected = cat_revision c" using stale [of expected c] assms(3) by auto
  show "cat_revision c' = sat_inc expected" "catalog_ok c'"
    using endsD [OF keeps [OF assms(1,2)] assms(3)] e by simp_all
qed

lemma valid_after: "catalog_ok c \<Longrightarrow> pre c \<Longrightarrow> catalog_ok (snd (run expected c))"
  using keeps [of c expected] by (cases "fst (run expected c)") (auto simp: ends_def)

end

text \<open>
  Two clients that read the same revision: once the first has succeeded, the second is refused
  as stale and changes nothing. The counter saturates, so its last value is excluded.
\<close>

locale two_catalog_writers =
  one: catalog_operation pre1 run1 + two: catalog_operation pre2 run2
  for pre1 and run1 :: "u64 \<Rightarrow> session_catalog \<Rightarrow> (catalog_error + 'a) \<times> session_catalog"
    and pre2 and run2 :: "u64 \<Rightarrow> session_catalog \<Rightarrow> (catalog_error + 'b) \<times> session_catalog"
begin

lemma second_writer_is_stale:
  assumes "catalog_ok c" "pre1 c" "run1 expected c = (Inr a, c')" "expected \<noteq> - 1"
  shows "run2 expected c' = (Inl (StaleRevision expected (sat_inc expected)), c')"
proof -
  note acc = one.accepted [OF assms(1-3)]
  have "expected \<noteq> cat_revision c'" using sat_inc_neq [OF assms(4)] acc(2) by simp
  then show ?thesis using two.stale [of expected c'] acc(2) by simp
qed

end

section \<open>Walking the operations\<close>

lemma expect_revision_cases:
  "expected \<noteq> cat_revision c \<Longrightarrow>
     expect_revision c expected = Inl (StaleRevision expected (cat_revision c))"
  by (simp add: expect_revision_def)

lemma ends_new_id [walk]:
  fixes k :: "'k opaque_id \<Rightarrow> entropy \<Rightarrow> (catalog_error + 'a) \<times> 's"
  assumes "\<And>e. Q (Inl e) s"
    and "\<And>i rng'. new_id rng = (Inr i, rng') \<Longrightarrow> ends (k i rng') Q"
  shows "ends (with_new_id rng s k) Q"
proof -
  obtain r rng' where n: "(new_id rng :: (id_error + 'k opaque_id) \<times> entropy) = (r, rng')" by force
  with assms show ?thesis by (cases r) (simp_all add: with_new_id_def ends_def)
qed

lemma position_window:
  assumes "position p ws = Some i"
  shows "i < length ws" "ws ! i \<in> set ws" "p (ws ! i)"
  using position_SomeD [OF assms] by simp_all

text \<open>A session whose windows are not touched.\<close>

lemma commit_session_same_windows:
  assumes "catalog_ok c" "bt_get (cat_sessions c) sid = Some s"
    "session_ok s'" "se_id s' = se_id s" "se_windows s' = se_windows s"
  shows "catalog_ok (commit_session c sid s')"
proof -
  have "session_pane_ids s' = session_pane_ids s" using assms(5) by (simp add: session_pane_ids_def)
  then show ?thesis
    by (intro commit_session_ok [where F = "{}", OF assms(1,2)])
      (use assms in \<open>simp_all add: session_ids_distinct total_panes_max\<close>)
qed

text \<open>A window whose panes keep their identifiers.\<close>

lemma commit_window_same_panes:
  assumes "catalog_ok c" "bt_get (cat_sessions c) sid = Some s" "i < length (se_windows s)"
    "window_ok w'" "sw_id w' = sw_id (se_windows s ! i)"
    "set (bt_keys (sw_panes w')) \<subseteq> set (bt_keys (sw_panes (se_windows s ! i)))"
  shows "catalog_ok (commit_window c sid s i w')"
proof -
  have "bt_len (sw_panes w') \<le> bt_len (sw_panes (se_windows s ! i))"
    using card_mono [OF _ assms(6)] by (simp add: bt_len_card del: distinct_card)
  with total_panes_max [OF assms(1)] assms show ?thesis
    by (intro commit_window_ok [where F = "{}"]) (simp_all add: window_pane_ids_def)
qed

lemma target_window_ok:
  assumes "catalog_ok c" "bt_get (cat_sessions c) sid = Some s" "i < length (se_windows s)"
  shows "window_ok (se_windows s ! i)"
  using catalog_get(2) [OF assms(1,2)] assms(3) session_windows_ok nth_mem by blast

lemma active_window_mut_ok:
  assumes "active_window_mut s = Inr i"
  shows "i < length (se_windows s)" "sw_id (se_windows s ! i) = se_active_window s"
  using assms by (auto simp: active_window_mut_def outcome dest: position_SomeD)

lemma window_of_pane_ok:
  assumes "window_of_pane s pane = Inr i"
  shows "i < length (se_windows s)" "bt_contains (sw_panes (se_windows s ! i)) pane"
  using assms by (auto simp: window_of_pane_def outcome dest: position_SomeD)

lemma window_ok_put_pane:
  assumes w: "window_ok w" and get: "bt_get (sw_panes w) k = Some p" and p': "pane_ok k p'"
  shows "window_ok (w\<lparr>sw_panes := bt_insert k p' (sw_panes w)\<rparr>)"
proof -
  obtain as bs where e: "bt_entries (sw_panes w) = as @ (k, p) # bs"
      "bt_entries (bt_insert k p' (sw_panes w)) = as @ (k, p') # bs"
    using get by (elim bt_split_at) simp
  show ?thesis
    using w p' e bt_keys_replace [OF get] bt_len_replace [OF get]
    by (simp add: window_ok_def layout_ok_def)
qed

lemma window_pane_ok:
  assumes "window_ok w" "bt_get (sw_panes w) k = Some p"
  shows "pane_ok k p"
  using assms by (auto simp: window_ok_def list_all_iff bt_entries_get [symmetric])

section \<open>Each operation\<close>

lemma session_ok_updates:
  "session_ok s \<Longrightarrow> name_ok n \<Longrightarrow> session_ok (s\<lparr>se_name := n\<rparr>)"
  "session_ok s \<Longrightarrow> a \<in> set (map sw_id (se_windows s)) \<Longrightarrow> session_ok (s\<lparr>se_active_window := a\<rparr>)"
  by (simp_all add: session_ok_def)

lemma window_ok_updates:
  "window_ok w \<Longrightarrow> name_ok n \<Longrightarrow> window_ok (w\<lparr>sw_name := n\<rparr>)"
  "window_ok w \<Longrightarrow> f \<in> set (bt_keys (sw_panes w)) \<Longrightarrow> window_ok (w\<lparr>sw_focused_pane := f\<rparr>)"
  "window_ok w \<Longrightarrow> layout_ok root (sw_panes w) \<Longrightarrow> window_ok (w\<lparr>sw_root := root\<rparr>)"
  by (simp_all add: window_ok_def)

lemma window_ok_layout: "window_ok w \<Longrightarrow> layout_ok (sw_root w) (sw_panes w)"
  by (simp add: window_ok_def)

text \<open>An operation that replaces one pane of one window.\<close>

lemma commit_pane_ok:
  assumes c: "catalog_ok c" and s: "bt_get (cat_sessions c) sid = Some s"
    and i: "window_of_pane s k = Inr i"
    and p: "bt_get (sw_panes (se_windows s ! i)) k = Some p"
    and p': "pane_ok k p \<Longrightarrow> pane_ok k p'"
  shows "catalog_ok (commit_window c sid s i
    ((se_windows s ! i)\<lparr>sw_panes := bt_insert k p' (sw_panes (se_windows s ! i))\<rparr>))"
proof -
  have i': "i < length (se_windows s)" using i by (rule window_of_pane_ok)
  have w: "window_ok (se_windows s ! i)" by (rule target_window_ok [OF c s i'])
  show ?thesis
    by (rule commit_window_same_panes [OF c s i' window_ok_put_pane [OF w p p']])
      (use window_pane_ok [OF w p] p in \<open>auto simp: set_bt_keys\<close>)
qed

section \<open>Each operation\<close>

lemma rename_session_keeps:
  "catalog_ok c \<Longrightarrow> ends (rename_session sid name expected c) (kept c)"
  unfolding rename_session_def
  by (intro walk)
    (auto simp: outcome intro!: commit_session_same_windows session_ok_updates
      intro: catalog_get validated_name_ok)

lemma activate_session_keeps:
  "catalog_ok c \<Longrightarrow> ends (activate_session sid expected c) (kept c)"
  unfolding activate_session_def
  by (intro walk)
    (auto simp: catalog_ok_def active_ok_def bt_contains_keys catalog_pane_ids_def bump_revision_def)

lemma rename_window_keeps:
  "catalog_ok c \<Longrightarrow> ends (rename_window sid wid name expected c) (kept c)"
  unfolding rename_window_def
  by (intro walk)
    (auto simp: outcome dest: position_SomeD(1)
      intro!: commit_window_same_panes window_ok_updates intro: target_window_ok validated_name_ok)

lemma activate_window_keeps:
  "catalog_ok c \<Longrightarrow> ends (activate_window sid wid expected c) (kept c)"
  unfolding activate_window_def
  by (intro walk)
    (auto simp: outcome list_ex_iff
      intro!: commit_session_same_windows session_ok_updates intro: catalog_get)

lemma focus_pane_keeps:
  "catalog_ok c \<Longrightarrow> ends (focus_pane sid pane expected c) (kept c)"
  unfolding focus_pane_def
  by (intro walk)
    (auto simp: outcome bt_contains_keys dest: active_window_mut_ok
      intro!: commit_window_same_panes window_ok_updates intro: target_window_ok)

lemma set_pane_lifecycle_keeps:
  "catalog_ok c \<Longrightarrow> ends (set_pane_lifecycle sid pane lifecycle expected c) (kept c)"
  unfolding set_pane_lifecycle_def
  by (intro walk) (auto simp: outcome pane_ok_def intro!: commit_pane_ok)

lemma begin_pane_generation_keeps:
  "catalog_ok c \<Longrightarrow> ends (begin_pane_generation sid pane rows columns expected c) (kept c)"
  unfolding begin_pane_generation_def
  by (intro walk) (auto simp: outcome pane_ok_def word_gt_0 intro!: commit_pane_ok)

lemma set_pane_size_keeps:
  "catalog_ok c \<Longrightarrow> ends (set_pane_size sid pane rows columns expected c) (kept c)"
  unfolding set_pane_size_def
  by (intro walk) (auto simp: outcome pane_ok_def word_gt_0 intro!: commit_pane_ok)

lemma set_parent_ratio_layout:
  assumes "sln_set_parent_ratio n p r = (b, n')" "layout_ok n panes" "split_ratio_ok r"
  shows "layout_ok n' panes"
  using assms sln_ratio_leaves [of n p r] sln_set_parent_ratio_ratios [of n r p]
    sln_set_parent_ratio_height [of n p r]
  by (simp add: layout_ok_def)

lemma set_focused_split_ratio_keeps:
  "catalog_ok c \<Longrightarrow> ends (set_focused_split_ratio sid ratio expected c) (kept c)"
  unfolding set_focused_split_ratio_def
  by (intro walk)
    (auto simp: outcome dest: active_window_mut_ok
      intro!: commit_window_same_panes window_ok_updates
      intro: target_window_ok set_parent_ratio_layout [OF _ window_ok_layout [OF target_window_ok]])

lemma split_layout:
  assumes "sln_split root focused new_pane axis = (True, root')" "layout_ok root panes"
    "bt_get panes new_pane = None" "sln_height root' \<le> MAX_LAYOUT_DEPTH"
  shows "layout_ok root' (bt_insert new_pane p panes)"
proof -
  have "new_pane \<notin> set (sln_leaves root)" using assms(2,3) by (auto simp: layout_ok_def set_bt_keys)
  then show ?thesis
    using assms sln.split_set [OF assms(1)] sln.split_distinct [OF assms(1)]
      sln_split_ratios [of root focused new_pane axis]
    by (simp add: layout_ok_def)
qed

lemma window_ok_new_pane:
  assumes w: "window_ok w" and new: "bt_get (sw_panes w) k = None" and p: "pane_ok k p"
    and room: "bt_len (sw_panes w) < MAX_PANES_PER_WINDOW"
    and root: "layout_ok root (bt_insert k p (sw_panes w))"
  shows "window_ok (w\<lparr>sw_root := root, sw_panes := bt_insert k p (sw_panes w), sw_focused_pane := k\<rparr>)"
proof -
  obtain as bs where e: "bt_entries (sw_panes w) = as @ bs"
      "bt_entries (bt_insert k p (sw_panes w)) = as @ (k, p) # bs"
    using new by (elim bt_split_new) simp
  show ?thesis using w p e room root by (simp add: window_ok_def bt_len_insert new)
qed

lemma pane_not_in_window:
  assumes "fresh_supply c rng" "new_id rng = (Inr k, rng')"
    "bt_get (cat_sessions c) sid = Some s" "w \<in> set (se_windows s)"
  shows "k \<notin> set (catalog_pane_ids c)" "bt_get (sw_panes w) k = None"
proof -
  have "k \<in> (drawn rng :: pane_id set)" using assms(2) by (rule new_id_ok)
  then show k: "k \<notin> set (catalog_pane_ids c)" using assms(1) by (auto simp: fresh_supply_def)
  have "set (window_pane_ids w) \<subseteq> set (catalog_pane_ids c)"
    using window_ids_in_session [OF assms(4)] session_ids_in_catalog [OF assms(3)] by blast
  with k show "bt_get (sw_panes w) k = None" by (auto simp: window_pane_ids_def set_bt_keys)
qed

lemma split_focused_keeps:
  assumes c: "catalog_ok c" and rng: "fresh_supply c rng"
  shows "ends (split_focused rng sid axis expected c) (kept c)"
  unfolding split_focused_def
proof (intro walk; (simp add: outcome; fail)?)
  fix s :: session and i and p :: session_pane and k rng' b root'
  let ?w = "se_windows s ! i"
  let ?p = "\<lparr>sp_id = k, sp_working_directory = sp_working_directory p,
    sp_requested_rows = sp_requested_rows p, sp_requested_columns = sp_requested_columns p,
    sp_generation = 0, sp_lifecycle = Stopped\<rparr>"
  assume room: "\<not> MAX_TOTAL_PANES \<le> total_panes c" "\<not> MAX_PANES_PER_WINDOW \<le> bt_len (sw_panes ?w)"
    and get: "ok_or (bt_get (cat_sessions c) sid) SessionNotFound = Inr s"
      "ok_or (bt_get (sw_panes ?w) (sw_focused_pane ?w)) PaneNotFound = Inr p"
    and i: "active_window_mut s = Inr i" and n: "new_id rng = (Inr k, rng')"
    and split: "sln_split (sw_root ?w) (sw_focused_pane ?w) k axis = (b, root')" b
    and v: "\<not> \<not> sln_validate root' (bt_insert k ?p (sw_panes ?w))"
  from get(1) have s: "bt_get (cat_sessions c) sid = Some s" by (simp add: outcome)
  from i have i': "i < length (se_windows s)" by (rule active_window_mut_ok)
  have w: "window_ok ?w" by (rule target_window_ok [OF c s i'])
  have new: "k \<notin> set (catalog_pane_ids c)" "bt_get (sw_panes ?w) k = None"
    using pane_not_in_window [OF rng n s nth_mem [OF i']] by simp_all
  have p: "pane_ok k ?p" using window_pane_ok [OF w, of _ p] get(2) by (auto simp: pane_ok_def outcome)
  have "window_ok (?w\<lparr>sw_root := root', sw_panes := bt_insert k ?p (sw_panes ?w), sw_focused_pane := k\<rparr>)"
    by (rule window_ok_new_pane [OF w new(2) p]) (use room v in \<open>simp_all add: sln_validate_iff\<close>)
  then show "kept c (Inr k) (commit_window c sid s i
      (?w\<lparr>sw_root := root', sw_panes := bt_insert k ?p (sw_panes ?w), sw_focused_pane := k\<rparr>))"
    using room new by (auto simp: window_pane_ids_def bt_len_insert
        intro!: commit_window_ok [OF c s i', where F = "{k}"])
qed

lemma remove_layout:
  assumes "sln_remove root pane = Some root'" "layout_ok root panes"
  shows "layout_ok root' (bt_remove pane panes)"
  using assms sln.remove_set [OF assms(1)] sln.remove_distinct [OF assms(1)]
    sln_remove_ratios [OF assms(1)] sln_remove_height [OF assms(1)]
  by (simp add: layout_ok_def)

lemma window_ok_drop_pane:
  assumes w: "window_ok w" and root: "sln_remove (sw_root w) k = Some root"
    and f: "f \<in> set (bt_keys (bt_remove k (sw_panes w)))"
  shows "window_ok (w\<lparr>sw_panes := bt_remove k (sw_panes w), sw_root := root, sw_focused_pane := f\<rparr>)"
proof -
  have "layout_ok root (bt_remove k (sw_panes w))"
    by (rule remove_layout [OF root window_ok_layout [OF w]])
  moreover have "bt_len (bt_remove k (sw_panes w)) \<le> bt_len (sw_panes w)"
    by (simp add: bt_len_def bt_entries_remove drop_key_def)
  moreover have "list_all (\<lambda>(k, p). pane_ok k p) (bt_entries (bt_remove k (sw_panes w)))"
    using w by (auto simp: window_ok_def bt_entries_remove drop_key_def list_all_iff)
  ultimately show ?thesis using w f by (simp add: window_ok_def)
qed

lemma bt_other_key:
  assumes "bt_get m k = Some v" "bt_len m \<noteq> 1"
  obtains j where "bt_first_key (bt_remove k m) = Some j" "j \<in> set (bt_keys (bt_remove k m))"
proof -
  have "bt_len (bt_remove k m) \<noteq> 0" using bt_len_remove [OF assms(1)] assms(2) by simp
  then have "bt_keys (bt_remove k m) \<noteq> []" by (auto simp: bt_len_keys)
  then show ?thesis using that bt_first_key_None [of "bt_remove k m"] bt_first_key_in by blast
qed

text \<open>The window \<open>close_pane\<close> ends up with, and that it passes the last check.\<close>

lemma closed_window:
  assumes w: "window_ok w" and p: "bt_get (sw_panes w) k = Some p" and n: "bt_len (sw_panes w) \<noteq> 1"
    and root: "sln_remove (sw_root w) k = Some root"
    and r: "(if sw_focused_pane w = k
      then and_then (ok_or (bt_first_key (bt_remove k (sw_panes w))) LastPane)
             (\<lambda>f. Inr (w\<lparr>sw_panes := bt_remove k (sw_panes w), sw_root := root, sw_focused_pane := f\<rparr>))
      else Inr (w\<lparr>sw_panes := bt_remove k (sw_panes w), sw_root := root\<rparr>)) = r"
  shows "\<exists>w'. r = Inr w' \<and> window_ok w' \<and> sw_id w' = sw_id w \<and>
    sw_panes w' = bt_remove k (sw_panes w) \<and> sw_root w' = root"
proof (cases "sw_focused_pane w = k")
  case True
  obtain j where "bt_first_key (bt_remove k (sw_panes w)) = Some j"
    "j \<in> set (bt_keys (bt_remove k (sw_panes w)))" by (rule bt_other_key [OF p n])
  with True window_ok_drop_pane [OF w root, of j] r show ?thesis by auto
next
  case False
  with w have "sw_focused_pane w \<in> set (bt_keys (bt_remove k (sw_panes w)))"
    by (simp add: window_ok_def)
  from window_ok_drop_pane [OF w root this] False r show ?thesis by auto
qed

lemma close_pane_keeps:
  assumes c: "catalog_ok c"
  shows "ends (close_pane sid k expected c) (kept c)"
  unfolding close_pane_def Let_def
proof ((intro ends_attempt ends_if ends_pair; (simp; fail)?), goal_cases)
  note window = target_window_ok [OF c _ window_of_pane_ok(1)]
  {
    case (1 _ s i p root e)
    then show ?case using closed_window [OF window, of sid s k i k p root] by (simp add: outcome)
  next
    case (2 _ s i p root w)
    then show ?case using closed_window [OF window, of sid s k i k p root] by (auto simp: outcome window_ok_iff)
  next
    case (3 _ s i p root w)
    then have "window_ok w \<and> sw_id w = sw_id (se_windows s ! i) \<and>
        sw_panes w = bt_remove k (sw_panes (se_windows s ! i))"
      using closed_window [OF window, of sid s k i k p root] by (auto simp: outcome)
    with 3 show ?case
      by (auto simp: outcome dest: window_of_pane_ok intro!: commit_window_same_panes [OF c])
  }
qed

lemma active_after_remove:
  assumes "active_ok c" "bt_get (cat_sessions c) sid = Some s"
  shows "active_ok (c\<lparr>cat_sessions := bt_remove sid (cat_sessions c),
    cat_active_session := if cat_active_session c = Some sid
      then bt_first_key (bt_remove sid (cat_sessions c)) else cat_active_session c\<rparr>)"
proof (cases "cat_active_session c = Some sid")
  case True
  then show ?thesis
    using bt_first_key_None [of "bt_remove sid (cat_sessions c)"]
      bt_first_key_in [of "bt_remove sid (cat_sessions c)"]
    by (auto simp: active_ok_def split: option.splits)
next
  case False
  with assms bt_get_in_keys [OF assms(2)] show ?thesis
    by (auto simp: active_ok_def split: option.splits)
qed

lemma remove_session_keeps:
  assumes c: "catalog_ok c"
  shows "ends (remove_session sid expected c) (kept c)"
  unfolding remove_session_def Let_def
proof ((intro ends_attempt ends_if ends_pair; (simp; fail)?), goal_cases)
  case (1 u s)
  then have s: "bt_get (cat_sessions c) sid = Some s" by (simp add: outcome)
  have "active_ok c" using c by (simp add: catalog_ok_def)
  from catalog_drop [OF c s active_after_remove [OF this s]] show ?case by simp
qed

text \<open>A window just created, and a session that gets it.\<close>

lemma name_ok_shell: "name_ok (lit ''shell'')"
  by (simp add: name_ok_def trim_def lit_def is_whitespace_def)

lemma single_pane_window_ok:
  "name_ok name \<Longrightarrow> directory \<noteq> [] \<Longrightarrow> window_ok (single_pane_window wid name pid directory)"
  by (simp add: single_pane_window_def window_ok_def layout_ok_def pane_ok_def stopped_pane_def
      bt_entries_insert put_key_def default_rows_def default_columns_def
      MAX_PANES_PER_WINDOW_def MAX_LAYOUT_DEPTH_def bt_len_def)

lemma single_pane_window_ids [simp]:
  "window_pane_ids (single_pane_window wid name pid directory) = [pid]"
  "sw_id (single_pane_window wid name pid directory) = wid"
  by (simp_all add: single_pane_window_def window_pane_ids_def bt_keys_def bt_entries_insert put_key_def)

lemma new_session_id:
  assumes "fresh_supply c rng" "new_id rng = (Inr sid, rng')"
  shows "bt_get (cat_sessions c) sid = None"
  using assms new_id_ok(1) [OF assms(2)] by (auto simp: fresh_supply_def set_bt_keys)

lemma fresh_supply_rest:
  assumes "fresh_supply c rng" "new_id rng = (Inr (i :: 'k opaque_id), rng')"
  shows "fresh_supply c rng'"
proof -
  have s: "set rng' \<subseteq> set rng" by (rule new_id_rest [OF assms(2)])
  note m = drawn_mono [OF s]
  have m1: "(drawn rng' :: session_id set) \<subseteq> drawn rng"
    and m2: "(drawn rng' :: window_id set) \<subseteq> drawn rng"
    and m3: "(drawn rng' :: pane_id set) \<subseteq> drawn rng" by (rule m)+
  show ?thesis
    using assms(1) new_id_distinct(2) [OF assms(2)] m1 m2 m3
    unfolding fresh_supply_def list_all_iff by blast
qed

text \<open>A session that gets one more window, which becomes the active one.\<close>

lemma commit_new_window:
  assumes c: "catalog_ok c" and s: "bt_get (cat_sessions c) sid = Some s"
    and room: "length (se_windows s) < MAX_WINDOWS_PER_SESSION"
      "total_panes c + bt_len (sw_panes w) \<le> MAX_TOTAL_PANES"
    and w: "window_ok w" "sw_id w \<notin> set (map sw_id (se_windows s))"
    and fresh: "set (window_pane_ids w) \<inter> set (catalog_pane_ids c) = {}"
  shows "catalog_ok (commit_session c sid
    (s\<lparr>se_windows := se_windows s @ [w], se_active_window := sw_id w\<rparr>))"
proof (rule commit_session_ok [where F = "set (window_pane_ids w)", OF c s])
  let ?s = "s\<lparr>se_windows := se_windows s @ [w], se_active_window := sw_id w\<rparr>"
  have ids: "session_pane_ids ?s = session_pane_ids s @ window_pane_ids w"
    by (simp add: session_pane_ids_def)
  show "session_ok ?s" using catalog_get(2) [OF c s] w room(1) by (auto simp: session_ok_def)
  show "se_id ?s = se_id s" by simp
  show "distinct (session_pane_ids ?s)"
    unfolding ids using session_ids_distinct [OF c s] session_ids_in_catalog [OF s] fresh
    by (auto simp: window_pane_ids_def)
  show "set (session_pane_ids ?s) \<subseteq> set (session_pane_ids s) \<union> set (window_pane_ids w)"
    unfolding ids by simp
  show "set (window_pane_ids w) \<inter> set (catalog_pane_ids c) = {}" by (rule fresh)
  show "total_panes c + length (session_pane_ids ?s) \<le> MAX_TOTAL_PANES + length (session_pane_ids s)"
    unfolding ids using room(2) by (simp add: length_window_pane_ids)
qed

lemma new_window_id:
  assumes "fresh_supply c rng" "new_id rng = (Inr wid, rng')" "bt_get (cat_sessions c) sid = Some s"
  shows "wid \<notin> set (map sw_id (se_windows s))"
proof -
  have "wid \<in> drawn rng" by (rule new_id_ok [OF assms(2)])
  then show ?thesis
    using assms(1) bt_get_in_values [OF assms(3)] unfolding fresh_supply_def list_all_iff by blast
qed

lemma new_pane_id:
  assumes "fresh_supply c rng" "new_id rng = (Inr pid, rng')"
  shows "pid \<notin> set (catalog_pane_ids c)"
  using assms new_id_ok(1) [OF assms(2)] by (auto simp: fresh_supply_def)

lemma create_window_keeps:
  assumes c: "catalog_ok c" and rng: "fresh_supply c rng"
  shows "ends (create_window rng sid name directory expected c) (kept c)"
  unfolding create_window_def
proof ((intro ends_attempt ends_if ends_new_id ends_pair; (simp; fail)?), goal_cases)
  case (1 u name dir s wid rng1 pid rng2)
  let ?w = "single_pane_window wid name pid dir"
  have s: "bt_get (cat_sessions c) sid = Some s" and d: "dir \<noteq> []"
    using 1 by (auto simp: outcome validated_directory_ok)
  have "window_ok ?w" using 1 d by (intro single_pane_window_ok validated_name_ok)
  moreover have "wid \<notin> set (map sw_id (se_windows s))"
    using new_window_id [OF rng _ s] 1 by blast
  moreover have "pid \<notin> set (catalog_pane_ids c)"
    using new_pane_id fresh_supply_rest [OF rng] 1 by blast
  ultimately show ?case
    using commit_new_window [OF c s, of ?w] 1 length_window_pane_ids [of ?w] by simp
qed

lemma create_session_keeps:
  assumes c: "catalog_ok c" and rng: "fresh_supply c rng"
  shows "ends (create_session rng name directory expected c) (kept c)"
  unfolding create_session_def Let_def
proof ((intro ends_attempt ends_if ends_new_id ends_pair; (simp; fail)?), goal_cases)
  case (1 u name dir sid rng1 wid rng2 pid rng3)
  let ?w = "single_pane_window wid (lit ''shell'') pid dir"
  let ?s = "\<lparr>se_id = sid, se_name = name, se_revision = 1, se_windows = [?w], se_active_window = wid\<rparr>"
  have sid: "bt_get (cat_sessions c) sid = None"
    using new_session_id [OF rng] 1 by blast
  have pid: "pid \<notin> set (catalog_pane_ids c)"
    using new_pane_id fresh_supply_rest [OF fresh_supply_rest [OF rng]] 1 by blast
  have "window_ok ?w"
    using 1 by (intro single_pane_window_ok name_ok_shell) (auto simp: validated_directory_ok)
  then have "session_ok ?s"
    using 1 by (simp add: session_ok_def validated_name_ok MAX_WINDOWS_PER_SESSION_def)
  with sid pid 1 show ?case
    by (simp, intro catalog_add [OF c]) (auto simp: session_pane_ids_def)
qed

text \<open>Closing a window.\<close>

lemma session_drop_window:
  assumes s: "session_ok s" "distinct (session_pane_ids s)"
    and e: "se_windows s = as @ w # bs"
    and active: "active \<in> set (map sw_id (as @ bs))"
  defines "s' \<equiv> s\<lparr>se_windows := as @ bs, se_active_window := active\<rparr>"
  shows "session_ok s'" "distinct (session_pane_ids s')"
    "set (session_pane_ids s') \<subseteq> set (session_pane_ids s)"
    "length (session_pane_ids s') \<le> length (session_pane_ids s)"
  using s e active by (auto simp: session_ok_def session_pane_ids_def s'_def)

lemma close_window_keeps:
  assumes c: "catalog_ok c"
  shows "ends (close_window sid wid expected c) (kept c)"
  unfolding close_window_def Let_def
proof ((intro ends_attempt ends_if ends_pair; (simp; fail)?), goal_cases)
  case (1 u s i e)
  then have "remove_at i (se_windows s) \<noteq> []"
    by (auto simp: outcome elim!: position_Some_split)
  with 1 show ?case by (auto simp: outcome last_opt_def split: option.splits if_splits)
next
  case (2 u s i w)
  then have s: "bt_get (cat_sessions c) sid = Some s" by (simp add: outcome)
  from 2 obtain as v bs where e: "se_windows s = as @ v # bs" "i = length as"
    by (auto simp: outcome elim!: position_Some_split)
  from 2 have "w \<in> set (as @ bs)"
    unfolding e by (auto simp: outcome nth_opt_in_set last_opt_in_set split: option.splits
        dest!: nth_opt_in_set last_opt_in_set)
  then have "sw_id w \<in> set (map sw_id (as @ bs))" by auto
  note d = session_drop_window [OF catalog_get(2) [OF c s] session_ids_distinct [OF c s] e(1) this]
  have "catalog_ok (commit_session c sid (s\<lparr>se_windows := as @ bs, se_active_window := sw_id w\<rparr>))"
    by (rule commit_session_ok [where F = "{}", OF c s d(1)])
      (use d total_panes_max [OF c] in auto)
  with e show ?case by simp
next
  case (3 u s i)
  then have s: "bt_get (cat_sessions c) sid = Some s" by (simp add: outcome)
  from 3 obtain as v bs where e: "se_windows s = as @ v # bs" "i = length as" "sw_id v = wid"
    by (auto simp: outcome elim!: position_Some_split)
  have "se_active_window s \<in> set (map sw_id (as @ bs))"
    using catalog_get(2) [OF c s] e 3 by (auto simp: session_ok_def)
  note d = session_drop_window [OF catalog_get(2) [OF c s] session_ids_distinct [OF c s] e(1) this]
  have same: "s\<lparr>se_windows := as @ bs\<rparr> = s\<lparr>se_windows := as @ bs, se_active_window := se_active_window s\<rparr>"
    by simp
  have "catalog_ok (commit_session c sid (s\<lparr>se_windows := as @ bs\<rparr>))"
    by (subst same, rule commit_session_ok [where F = "{}", OF c s d(1)])
      (use d total_panes_max [OF c] in auto)
  with e show ?case by simp
qed

end
