(* ===== verification/CatalogCopies.thy ===== *)
theory CatalogCopies imports CatalogOperations begin

text \<open>
  The operations of the catalog that build windows out of others: duplicating a window,
  duplicating a session, importing a stopped session. A duplicate is the source under an
  injective renaming of its panes, stopped and at generation zero.
\<close>

section \<open>Copies\<close>

definition copy_pane :: "pane_id \<Rightarrow> session_pane \<Rightarrow> session_pane" where
  "copy_pane n p =
     \<lparr>sp_id = n, sp_working_directory = sp_working_directory p,
      sp_requested_rows = sp_requested_rows p, sp_requested_columns = sp_requested_columns p,
      sp_generation = 0, sp_lifecycle = Stopped\<rparr>"

definition window_copy :: "(pane_id \<Rightarrow> pane_id) \<Rightarrow> session_window \<Rightarrow> session_window \<Rightarrow> bool" where
  "window_copy f w w' \<longleftrightarrow>
     inj_on f (set (window_pane_ids w)) \<and>
     set (window_pane_ids w') = f ` set (window_pane_ids w) \<and>
     sw_root w' = sln_map f (sw_root w) \<and> sw_focused_pane w' = f (sw_focused_pane w) \<and>
     list_all (\<lambda>(k, p). bt_get (sw_panes w') (f k) = Some (copy_pane (f k) p)) (bt_entries (sw_panes w))"

lemma pane_ok_copy: "pane_ok k p \<Longrightarrow> pane_ok n (copy_pane n p)"
  by (simp add: pane_ok_def copy_pane_def)

lemma window_copy_len:
  assumes "window_copy f w w'"
  shows "bt_len (sw_panes w') = bt_len (sw_panes w)"
  using assms by (simp add: window_copy_def bt_len_card window_pane_ids_def card_image del: distinct_card)

lemma window_copy_ok:
  assumes w: "window_ok w" and f: "window_copy f w w'"
    and w': "name_ok (sw_name w')" "sw_revision w' \<noteq> 0"
  shows "window_ok w'"
proof -
  have panes: "pane_ok k' p'" if "bt_get (sw_panes w') k' = Some p'" for k' p'
  proof -
    from that have "k' \<in> f ` set (window_pane_ids w)"
      using f bt_get_in_keys [OF that] by (simp add: window_copy_def window_pane_ids_def)
    then obtain k p where k: "k' = f k" "bt_get (sw_panes w) k = Some p"
      by (auto simp: window_pane_ids_def set_bt_keys)
    then have "(k, p) \<in> set (bt_entries (sw_panes w))" by (simp add: bt_entries_get)
    then have "bt_get (sw_panes w') (f k) = Some (copy_pane (f k) p)"
      using f by (auto simp: window_copy_def list_all_iff)
    then have "p' = copy_pane k' p" using that k(1) by simp
    with window_pane_ok [OF w k(2)] show ?thesis by (simp add: pane_ok_copy)
  qed
  have "set (sln_leaves (sw_root w)) = set (window_pane_ids w)"
    using w by (simp add: window_ok_def layout_ok_def window_pane_ids_def)
  then have "layout_ok (sw_root w') (sw_panes w')"
    using w f by (auto simp: window_ok_def layout_ok_def window_copy_def window_pane_ids_def distinct_map)
  then show ?thesis
    using w f w' panes window_copy_len [OF f]
    by (auto simp: window_ok_def window_copy_def window_pane_ids_def list_all_iff bt_entries_get)
qed

section \<open>The copying loop\<close>

lemma duplicate_panes_new_ids:
  assumes "duplicate_panes rng ps ids panes = Inr (ids', panes', rng')" "distinct_draws rng"
  shows "\<exists>ns. length ns = length ps \<and> distinct ns \<and> set ns \<subseteq> drawn rng \<and>
    set ns \<inter> drawn rng' = {} \<and> set rng' \<subseteq> set rng \<and> distinct_draws rng' \<and>
    ids' = fold (\<lambda>x. bt_insert (sp_id (fst x)) (snd x)) (zip ps ns) ids \<and>
    panes' = fold (\<lambda>x. bt_insert (snd x) (copy_pane (snd x) (fst x))) (zip ps ns) panes"
  using assms
proof (induction ps arbitrary: rng ids panes)
  case Nil
  then show ?case by simp
next
  case (Cons p ps)
  obtain n :: pane_id and rng1 where n: "new_id rng = (Inr n, rng1)"
    using Cons.prems(1) by (auto split: prod.splits sum.splits)
  have d: "n \<notin> drawn rng1" "distinct_draws rng1" and m: "set rng1 \<subseteq> set rng"
    using new_id_distinct [OF n Cons.prems(2)] new_id_rest [OF n] by simp_all
  have "duplicate_panes rng1 ps (bt_insert (sp_id p) n ids) (bt_insert n (copy_pane n p) panes)
      = Inr (ids', panes', rng')"
    using Cons.prems(1) n by (simp add: copy_pane_def)
  from Cons.IH [OF this d(2)] obtain ns where ns: "length ns = length ps" "distinct ns"
    "set ns \<subseteq> drawn rng1" "set ns \<inter> drawn rng' = {}" "set rng' \<subseteq> set rng1" "distinct_draws rng'"
    "ids' = fold (\<lambda>x. bt_insert (sp_id (fst x)) (snd x)) (zip ps ns) (bt_insert (sp_id p) n ids)"
    "panes' = fold (\<lambda>x. bt_insert (snd x) (copy_pane (snd x) (fst x))) (zip ps ns)
      (bt_insert n (copy_pane n p) panes)" by blast
  have "drawn rng' \<subseteq> (drawn rng1 :: pane_id set)" by (rule drawn_mono [OF ns(5)])
  moreover have "n \<in> drawn rng" by (rule new_id_ok [OF n])
  moreover have "drawn rng1 \<subseteq> (drawn rng :: pane_id set)" by (rule drawn_mono [OF m])
  ultimately show ?case
    using ns d m by (intro exI [of _ "n # ns"]) auto
qed

lemma map_sp_id_values:
  assumes "window_ok w"
  shows "map sp_id (bt_values (sw_panes w)) = window_pane_ids w"
  using assms
  by (auto simp: window_ok_def list_all_iff pane_ok_def bt_values_def window_pane_ids_def bt_keys_def)

lemma duplicate_panes_copy:
  assumes run: "duplicate_panes rng (bt_values (sw_panes w)) bt_empty bt_empty = Inr (ids, panes, rng')"
    and w: "window_ok w" and draws: "distinct_draws rng"
    and root: "sln_remap (sw_root w) ids = Inr root"
    and focused: "bt_get ids (sw_focused_pane w) = Some f"
    and w': "sw_root w' = root" "sw_focused_pane w' = f" "sw_panes w' = panes"
  shows "window_copy (\<lambda>k. the (bt_get ids k)) w w'" "set (window_pane_ids w') \<subseteq> drawn rng"
    "set (window_pane_ids w') \<inter> drawn rng' = {}" "set rng' \<subseteq> set rng" "distinct_draws rng'"
proof -
  let ?ps = "bt_values (sw_panes w)"
  obtain ns where ns: "length ns = length ?ps" "distinct ns" "set ns \<subseteq> drawn rng"
    "set ns \<inter> drawn rng' = {}" "set rng' \<subseteq> set rng" "distinct_draws rng'"
    and ids: "ids = fold (\<lambda>x. bt_insert (sp_id (fst x)) (snd x)) (zip ?ps ns) bt_empty"
    and panes: "panes = fold (\<lambda>x. bt_insert (snd x) (copy_pane (snd x) (fst x))) (zip ?ps ns) bt_empty"
    using duplicate_panes_new_ids [OF run draws] by blast
  let ?xs = "zip ?ps ns" and ?f = "\<lambda>k. the (bt_get ids k)"
  have fst_xs: "map fst ?xs = ?ps" and snd_xs: "map snd ?xs = ns" using ns(1) by simp_all
  have "map (sp_id \<circ> fst) ?xs = window_pane_ids w"
    by (metis fst_xs map_map map_sp_id_values [OF w])
  then have d1: "distinct (map (\<lambda>x. sp_id (fst x)) ?xs)" and k1: "(\<lambda>x. sp_id (fst x)) ` set ?xs = set (window_pane_ids w)"
    by (simp_all add: comp_def window_pane_ids_def flip: set_map)
  have d2: "distinct (map snd ?xs)" using snd_xs ns(2) by simp
  have get: "bt_get ids (sp_id (fst x)) = Some (snd x)" if "x \<in> set ?xs" for x
    unfolding ids by (rule bt_get_fold_insert_in [OF d1 that])
  have copy: "bt_get panes (snd x) = Some (copy_pane (snd x) (fst x))" if "x \<in> set ?xs" for x
    unfolding panes by (rule bt_get_fold_insert_in [OF d2 that])
  have keys: "set (bt_keys panes) = set ns"
    unfolding panes bt_keys_fold_insert using snd_xs by (simp flip: set_map)
  have "inj_on ?f (set (window_pane_ids w))"
  proof (rule inj_onI)
    fix a b
    assume "a \<in> set (window_pane_ids w)" "b \<in> set (window_pane_ids w)" "?f a = ?f b"
    then obtain x y where xy: "x \<in> set ?xs" "y \<in> set ?xs" "a = sp_id (fst x)" "b = sp_id (fst y)"
      unfolding k1 [symmetric] by blast
    with get \<open>?f a = ?f b\<close> have "snd x = snd y" by simp
    with d2 xy(1,2) have "x = y" by (auto simp: distinct_map dest: inj_onD)
    with xy show "a = b" by simp
  qed
  moreover have "set (bt_keys panes) = ?f ` set (window_pane_ids w)"
  proof -
    have "?f ` set (window_pane_ids w) = snd ` set ?xs"
      unfolding k1 [symmetric] image_image using get by (intro image_cong) auto
    then show ?thesis using keys snd_xs by (simp flip: set_map)
  qed
  moreover have "list_all (\<lambda>(k, p). bt_get panes (?f k) = Some (copy_pane (?f k) p)) (bt_entries (sw_panes w))"
  proof -
    have "bt_get panes (?f k) = Some (copy_pane (?f k) p)" if "(k, p) \<in> set (bt_entries (sw_panes w))" for k p
    proof -
      have k: "sp_id p = k" using w that by (auto simp: window_ok_def list_all_iff pane_ok_def)
      have "p \<in> set ?ps" using that by (force simp: bt_values_def)
      then obtain x where "x \<in> set ?xs" "fst x = p" by (metis fst_xs in_set_zipE image_iff list.set_map)
      with get [of x] copy [of x] k show ?thesis by simp
    qed
    then show ?thesis by (auto simp: list_all_iff)
  qed
  ultimately show "window_copy ?f w w'"
    using root focused w' by (simp add: window_copy_def sln_remap_ok window_pane_ids_def)
  show "set (window_pane_ids w') \<subseteq> drawn rng" "set (window_pane_ids w') \<inter> drawn rng' = {}"
    using keys ns w'(3) by (simp_all add: window_pane_ids_def)
  show "set rng' \<subseteq> set rng" "distinct_draws rng'" by (rule ns)+
qed

section \<open>Duplicating a window\<close>

lemma fresh_pane_ids:
  "fresh_supply c rng \<Longrightarrow> set ids \<subseteq> drawn rng \<Longrightarrow> set ids \<inter> set (catalog_pane_ids c) = {}"
  by (auto simp: fresh_supply_def)

lemma duplicate_window_keeps:
  assumes c: "catalog_ok c" and rng: "fresh_supply c rng"
  shows "ends (duplicate_window rng sid wid expected c) (kept c)"
  unfolding duplicate_window_def Let_def
proof ((intro ends_attempt ends_if ends_new_id ends_prod ends_pair; (simp; fail)?), goal_cases)
  case (1 u s w nwid rng1 x ids b panes rng2 name root f)
  let ?w = "\<lparr>sw_id = nwid, sw_name = name, sw_revision = 1, sw_root = root, sw_focused_pane = f, sw_panes = panes\<rparr>"
  have s: "bt_get (cat_sessions c) sid = Some s" and f: "bt_get ids (sw_focused_pane w) = Some f"
    and w: "find (\<lambda>v. sw_id v = wid) (se_windows s) = Some w"
    using 1 by (simp_all add: outcome)
  then have w: "w \<in> set (se_windows s)" using find_Some_in by fast
  have rng1: "fresh_supply c rng1" using fresh_supply_rest [OF rng] 1 by blast
  have wok: "window_ok w" using session_windows_ok [OF catalog_get(2) [OF c s] w] .
  have run: "duplicate_panes rng1 (bt_values (sw_panes w)) bt_empty bt_empty = Inr (ids, panes, rng2)"
    and root: "sln_remap (sw_root w) ids = Inr root" and name: "name_ok name"
    and small: "sat_add_usize (total_panes c) (bt_len (sw_panes w)) \<le> MAX_TOTAL_PANES"
      "length (se_windows s) < MAX_WINDOWS_PER_SESSION"
    and nwid: "new_id rng = (Inr nwid, rng1)"
    using 1 by (simp_all add: validated_name_ok not_le not_less)
  have draws: "distinct_draws rng1" using rng1 by (simp add: fresh_supply_def)
  have copy: "window_copy (\<lambda>k. the (bt_get ids k)) w ?w" "set (window_pane_ids ?w) \<subseteq> drawn rng1"
    by (rule duplicate_panes_copy [OF run wok draws root f]; simp)+
  have "window_ok ?w"
    using window_copy_ok [OF wok copy(1)] name by simp
  moreover have "nwid \<notin> set (map sw_id (se_windows s))"
    by (rule new_window_id [OF rng nwid s])
  moreover have "total_panes c + bt_len panes \<le> MAX_TOTAL_PANES"
    using small(1) window_copy_len [OF copy(1)] by (simp add: sat_add_usize_def MAX_TOTAL_PANES_def)
  ultimately show ?case
    using commit_new_window [OF c s small(2), of ?w] fresh_pane_ids [OF rng1 copy(2)] by simp
qed

text \<open>The loop over the windows of a session.\<close>

definition window_twin :: "session_window \<Rightarrow> session_window \<Rightarrow> bool" where
  "window_twin w w' \<longleftrightarrow> (\<exists>f. window_copy f w w') \<and> sw_name w' = sw_name w \<and> sw_revision w' = 1"

lemma window_twin_ok: "window_ok w \<Longrightarrow> window_twin w w' \<Longrightarrow> window_ok w'"
  unfolding window_twin_def by (metis window_copy_ok window_ok_def one_neq_zero)

lemma window_twin_len: "window_twin w w' \<Longrightarrow> length (window_pane_ids w') = length (window_pane_ids w)"
  by (auto simp: window_twin_def length_window_pane_ids window_copy_len)

lemma duplicate_windows_twins:
  assumes "duplicate_windows rng src ws active = Inr (ws', active')" "distinct_draws rng"
    "list_all window_ok ws"
  shows "list_all2 window_twin ws ws' \<and> distinct (map sw_id ws') \<and>
    set (map sw_id ws') \<subseteq> drawn rng \<and> distinct (concat (map window_pane_ids ws')) \<and>
    set (concat (map window_pane_ids ws')) \<subseteq> drawn rng \<and>
    (active' = active \<and> src \<notin> set (map sw_id ws) \<or> (\<exists>i < length ws. sw_id (ws ! i) = src \<and> active' = Some (sw_id (ws' ! i))))"
  using assms
proof (induction ws arbitrary: rng active ws')
  case Nil
  then show ?case by simp
next
  case (Cons w ws)
  obtain wid :: window_id and rng1 where n: "new_id rng = (Inr wid, rng1)"
    using Cons.prems(1) by (auto split: prod.splits sum.splits)
  let ?active = "if sw_id w = src then Some wid else active"
  obtain ids panes rng2 f root vs where
    d: "duplicate_panes rng1 (bt_values (sw_panes w)) bt_empty bt_empty = Inr (ids, panes, rng2)"
    and f: "bt_get ids (sw_focused_pane w) = Some f" and root: "sln_remap (sw_root w) ids = Inr root"
    and rest: "duplicate_windows rng2 src ws ?active = Inr (vs, active')"
    and ws': "ws' = \<lparr>sw_id = wid, sw_name = sw_name w, sw_revision = 1, sw_root = root,
      sw_focused_pane = f, sw_panes = panes\<rparr> # vs"
    using Cons.prems(1) n by (auto simp: outcome)
  let ?w = "hd ws'"
  have hd: "sw_root ?w = root" "sw_focused_pane ?w = f" "sw_panes ?w = panes" "sw_id ?w = wid"
      "sw_name ?w = sw_name w" "sw_revision ?w = 1" "ws' = ?w # vs" by (simp_all add: ws')
  have wok: "window_ok w" and wsok: "list_all window_ok ws" using Cons.prems(3) by simp_all
  have d1: "distinct_draws rng1" "wid \<notin> drawn rng1" using new_id_distinct [OF n Cons.prems(2)] by simp_all
  note c = duplicate_panes_copy [OF d wok d1(1) root f hd(1-3)]
  note ih = Cons.IH [OF rest c(5) wsok]
  have m1': "(drawn rng1 :: pane_id set) \<subseteq> drawn rng" "(drawn rng1 :: window_id set) \<subseteq> drawn rng"
    by (rule drawn_mono [OF new_id_rest [OF n]])+
  have m2: "(drawn rng2 :: pane_id set) \<subseteq> drawn rng1" "(drawn rng2 :: window_id set) \<subseteq> drawn rng1"
    by (rule drawn_mono [OF c(4)])+
  have "window_twin w ?w" unfolding window_twin_def using c(1) hd by blast
  moreover have "wid \<notin> set (map sw_id vs)" using ih m2 d1(2) by blast
  moreover have "wid \<in> drawn rng" by (rule new_id_ok [OF n])
  moreover have "set (window_pane_ids ?w) \<inter> set (concat (map window_pane_ids vs)) = {}"
    using c(3) ih by blast
  moreover have "distinct (window_pane_ids ?w)" by (simp add: window_pane_ids_def)
  moreover have "set (concat (map window_pane_ids vs)) \<subseteq> drawn rng" "set (map sw_id vs) \<subseteq> drawn rng"
    "set (window_pane_ids ?w) \<subseteq> drawn rng" using ih m1' m2 c(2) by blast+
  moreover have "active' = active \<and> src \<notin> set (map sw_id (w # ws)) \<or>
      (\<exists>i < length (w # ws). sw_id ((w # ws) ! i) = src \<and> active' = Some (sw_id (ws' ! i)))"
  proof (cases "\<exists>i < length ws. sw_id (ws ! i) = src \<and> active' = Some (sw_id (vs ! i))")
    case True
    then obtain i where "i < length ws" "sw_id (ws ! i) = src" "active' = Some (sw_id (vs ! i))" by blast
    then show ?thesis using hd(7) by (intro disjI2 exI [of _ "Suc i"]) (metis Suc_less_eq length_Cons nth_Cons_Suc)
  next
    case False
    with ih have a: "active' = ?active" "src \<notin> set (map sw_id ws)" by blast+
    show ?thesis
    proof (cases "sw_id w = src")
      case True
      with a hd show ?thesis by (intro disjI2 exI [of _ 0]) (metis length_greater_0_conv list.distinct(1) nth_Cons_0)
    next
      case False
      with a show ?thesis by simp
    qed
  qed
  ultimately show ?case
    using ih by (subst (1 2 3 4 5) hd(7)) (simp add: hd(4))
qed

section \<open>Duplicating a session\<close>

lemma twins_ok: "list_all2 window_twin ws ws' \<Longrightarrow> list_all window_ok ws \<Longrightarrow> list_all window_ok ws'"
  by (induction rule: list_all2_induct) (auto intro: window_twin_ok)

lemma twins_len:
  "list_all2 window_twin ws ws' \<Longrightarrow>
    length (concat (map window_pane_ids ws')) = length (concat (map window_pane_ids ws))"
  by (induction rule: list_all2_induct) (auto simp: window_twin_len)

definition session_twin :: "session \<Rightarrow> session \<Rightarrow> bool" where
  "session_twin s t \<longleftrightarrow>
     list_all2 window_twin (se_windows s) (se_windows t) \<and>
     (\<exists>i < length (se_windows s). sw_id (se_windows s ! i) = se_active_window s \<and>
        sw_id (se_windows t ! i) = se_active_window t)"

lemma duplicated_session_ok:
  fixes sid :: session_id
  assumes s: "session_ok s"
    and run: "duplicate_windows rng (se_active_window s) (se_windows s) None = Inr (ws, Some active)"
    and draws: "distinct_draws rng" and name: "name_ok name"
  defines "t \<equiv> \<lparr>se_id = sid, se_name = name, se_revision = 1, se_windows = ws, se_active_window = active\<rparr>"
  shows "session_ok t" "session_twin s t" "distinct (session_pane_ids t)"
    "set (session_pane_ids t) \<subseteq> drawn rng"
    "length (session_pane_ids t) = length (session_pane_ids s)"
proof -
  have "list_all window_ok (se_windows s)" using s by (simp add: session_ok_def)
  note tw = duplicate_windows_twins [OF run draws this]
  have len: "length ws = length (se_windows s)" using tw list_all2_lengthD [of window_twin "se_windows s" ws] by simp
  obtain i where i: "i < length ws" "sw_id (se_windows s ! i) = se_active_window s" "active = sw_id (ws ! i)"
    using tw len by auto
  have "list_all window_ok ws" using tw s twins_ok by (auto simp: session_ok_def)
  then show "session_ok t"
    using s tw len i name by (auto simp: session_ok_def t_def)
  show "session_twin s t" using tw i len by (auto simp: session_twin_def t_def)
  show "distinct (session_pane_ids t)" "set (session_pane_ids t) \<subseteq> drawn rng"
    using tw by (simp_all add: session_pane_ids_def t_def)
  show "length (session_pane_ids t) = length (session_pane_ids s)"
    using tw twins_len [of "se_windows s" ws] by (simp add: session_pane_ids_def t_def)
qed

lemma session_panes_sum:
  "sum_list (map (\<lambda>w. bt_len (sw_panes w)) (se_windows s)) = length (session_pane_ids s)"
  by (simp add: session_pane_ids_def length_concat comp_def length_window_pane_ids)

lemma duplicate_session_keeps:
  assumes c: "catalog_ok c" and rng: "fresh_supply c rng"
  shows "ends (duplicate_session rng source expected c) (kept c)"
  unfolding duplicate_session_def Let_def
proof ((intro ends_attempt ends_if ends_new_id ends_prod ends_pair; (simp; fail)?), goal_cases)
  case (1 u s sid rng1 x ws act name active)
  let ?t = "\<lparr>se_id = sid, se_name = name, se_revision = 1, se_windows = ws, se_active_window = active\<rparr>"
  have s: "bt_get (cat_sessions c) source = Some s" and act: "act = Some active"
    using 1 by (simp_all add: outcome)
  have run: "duplicate_windows rng1 (se_active_window s) (se_windows s) None = Inr (ws, Some active)"
    and sid: "new_id rng = (Inr sid, rng1)" and name: "name_ok name"
    and room: "bt_len (cat_sessions c) < MAX_SESSIONS"
      "sat_add_usize (total_panes c) (length (session_pane_ids s)) \<le> MAX_TOTAL_PANES"
    using 1 act by (simp_all add: validated_name_ok session_panes_sum)
  have rng1: "fresh_supply c rng1" by (rule fresh_supply_rest [OF rng sid])
  then have draws: "distinct_draws rng1" by (simp add: fresh_supply_def)
  note t = duplicated_session_ok [OF catalog_get(2) [OF c s] run draws name, of sid]
  have "total_panes c + length (session_pane_ids s) \<le> MAX_TOTAL_PANES"
    using room(2) by (simp add: sat_add_usize_def MAX_TOTAL_PANES_def)
  with t room(1) fresh_pane_ids [OF rng1 t(4)] show ?case
    by (simp, intro catalog_add [OF c new_session_id [OF rng sid]]) simp_all
qed

section \<open>Importing a stopped session\<close>

lemma import_panes_ok:
  assumes "import_panes ds all_panes panes = Inr (all', panes')"
    "list_all (\<lambda>(k, p). pane_ok k p) (bt_entries panes)" "set (bt_keys panes) \<subseteq> all_panes"
  shows "list_all (\<lambda>(k, p). pane_ok k p) (bt_entries panes') \<and>
    set (bt_keys panes') = set (bt_keys panes) \<union> set (map fst ds) \<and> all' = all_panes \<union> set (map fst ds) \<and>
    set (map fst ds) \<inter> all_panes = {} \<and> bt_len panes' = bt_len panes + length ds"
  using assms
proof (induction ds arbitrary: all_panes panes)
  case Nil
  then show ?case by simp
next
  case (Cons d ds)
  obtain k dir where d: "d = (k, dir)" by force
  let ?panes = "bt_insert k (stopped_pane k dir) panes"
  have k: "k \<notin> all_panes" "dir \<noteq> []"
    and run: "import_panes ds (insert k all_panes) ?panes = Inr (all', panes')"
    using Cons.prems(1) by (auto simp: d outcome validated_directory_ok split: if_splits)
  have new: "bt_get panes k = None" using k(1) Cons.prems(3) by (auto simp: set_bt_keys)
  obtain as bs where e: "bt_entries panes = as @ bs" "bt_entries ?panes = as @ (k, stopped_pane k dir) # bs"
    using new by (elim bt_split_new) simp
  have "list_all (\<lambda>(k, p). pane_ok k p) (bt_entries ?panes)"
    using Cons.prems(2) e k(2)
    by (simp add: pane_ok_def stopped_pane_def default_rows_def default_columns_def)
  from Cons.IH [OF run this] Cons.prems(3) k(1) show ?case
    by (auto simp: d bt_len_insert new)
qed

definition definition_pane_ids :: "stopped_window_definition list \<Rightarrow> pane_id list" where
  "definition_pane_ids ds = concat (map (\<lambda>d. map fst (swd_panes d)) ds)"

lemma import_windows_ok:
  assumes "import_windows rng ds all_panes = Inr ws" "distinct_draws rng"
  shows "list_all window_ok ws \<and> length ws = length ds \<and> distinct (map sw_id ws) \<and>
    set (map sw_id ws) \<subseteq> drawn rng \<and> distinct (concat (map window_pane_ids ws)) \<and>
    set (concat (map window_pane_ids ws)) = set (definition_pane_ids ds) \<and>
    set (concat (map window_pane_ids ws)) \<inter> all_panes = {} \<and>
    length (concat (map window_pane_ids ws)) = length (definition_pane_ids ds)"
  using assms
proof (induction ds arbitrary: rng all_panes ws)
  case Nil
  then show ?case by (simp add: definition_pane_ids_def)
next
  case (Cons d ds)
  obtain name all' panes where name: "validated_name (swd_name d) = Inr name"
    and p: "import_panes (swd_panes d) all_panes bt_empty = Inr (all', panes)"
    and guard: "\<not> (bt_is_empty panes \<or> bt_len panes > MAX_PANES_PER_WINDOW \<or>
        \<not> bt_contains panes (swd_focused_pane d) \<or> \<not> sln_validate (swd_root d) panes)"
    using Cons.prems(1) by (auto simp: outcome split: if_splits)
  obtain wid :: window_id and rng1 where n: "new_id rng = (Inr wid, rng1)"
    using Cons.prems(1) name p guard by (auto split: prod.splits sum.splits)
  let ?w = "\<lparr>sw_id = wid, sw_name = name, sw_revision = 1, sw_root = swd_root d,
    sw_focused_pane = swd_focused_pane d, sw_panes = panes\<rparr>"
  obtain vs where rest: "import_windows rng1 ds all' = Inr vs" and ws: "ws = ?w # vs"
    using Cons.prems(1) name p guard n by (auto simp: outcome)
  have d1: "distinct_draws rng1" "wid \<notin> drawn rng1" using new_id_distinct [OF n Cons.prems(2)] by simp_all
  have m: "(drawn rng1 :: window_id set) \<subseteq> drawn rng" by (rule drawn_mono [OF new_id_rest [OF n]])
  have ps: "list_all (\<lambda>(k, p). pane_ok k p) (bt_entries panes)"
    "set (bt_keys panes) = set (map fst (swd_panes d))" "all' = all_panes \<union> set (map fst (swd_panes d))"
    "set (map fst (swd_panes d)) \<inter> all_panes = {}" "bt_len panes = length (swd_panes d)"
    using import_panes_ok [OF p] by (simp_all add: bt_len_def)
  note ih = Cons.IH [OF rest d1(1)]
  have "window_ok ?w"
    using guard ps(1) validated_name_ok [OF name]
    by (simp add: window_ok_def bt_contains_keys sln_validate_iff)
  moreover have "wid \<notin> set (map sw_id vs)" "set (map sw_id vs) \<subseteq> drawn rng"
    using ih m d1(2) by blast+
  moreover have "wid \<in> drawn rng" by (rule new_id_ok [OF n])
  moreover have ids: "set (window_pane_ids ?w) = set (map fst (swd_panes d))"
    "length (window_pane_ids ?w) = length (swd_panes d)"
    using ps(2,5) by (simp_all add: window_pane_ids_def bt_len_keys)
  moreover have "set (window_pane_ids ?w) \<inter> set (concat (map window_pane_ids vs)) = {}"
    using ih ids(1) ps(3) by blast
  moreover have "distinct (window_pane_ids ?w)" by (simp add: window_pane_ids_def)
  moreover have "set (concat (map window_pane_ids vs)) \<inter> all_panes = {}"
    "set (window_pane_ids ?w) \<inter> all_panes = {}"
    using ih ids(1) ps(3,4) by blast+
  moreover have "list_all window_ok vs" "length vs = length ds" "distinct (map sw_id vs)"
    "distinct (concat (map window_pane_ids vs))"
    "set (concat (map window_pane_ids vs)) = set (definition_pane_ids ds)"
    "length (concat (map window_pane_ids vs)) = length (definition_pane_ids ds)"
    using ih by blast+
  ultimately show ?case
    unfolding ws by (simp add: definition_pane_ids_def Int_Un_distrib2)
qed

lemma import_stopped_session_keeps:
  assumes c: "catalog_ok c" and rng: "fresh_supply c rng"
    and new: "set (definition_pane_ids ds) \<inter> set (catalog_pane_ids c) = {}"
  shows "ends (import_stopped_session rng name ds active expected c) (kept c)"
  unfolding import_stopped_session_def Let_def
proof ((intro ends_attempt ends_if ends_new_id ends_prod ends_pair; (simp; fail)?), goal_cases)
  case (1 u sid rng1 ws name)
  let ?t = "\<lparr>se_id = sid, se_name = name, se_revision = 1, se_windows = ws,
    se_active_window = sw_id (ws ! active)\<rparr>"
  have sid: "new_id rng = (Inr sid, rng1)" and run: "import_windows rng1 ds {} = Inr ws"
    and name: "name_ok name"
    and room: "bt_len (cat_sessions c) < MAX_SESSIONS" "length ds \<le> MAX_WINDOWS_PER_SESSION"
      "active < length ds"
      "sat_add_usize (total_panes c) (sum_list (map (\<lambda>w. length (swd_panes w)) ds)) \<le> MAX_TOTAL_PANES"
    using 1 by (simp_all add: validated_name_ok)
  have "distinct_draws rng1" using new_id_distinct [OF sid] rng by (simp add: fresh_supply_def)
  note ws = import_windows_ok [OF run this]
  have ids: "session_pane_ids ?t = concat (map window_pane_ids ws)" by (simp add: session_pane_ids_def)
  have "length (definition_pane_ids ds) = sum_list (map (\<lambda>w. length (swd_panes w)) ds)"
    by (simp add: definition_pane_ids_def length_concat comp_def)
  then have small: "total_panes c + length (session_pane_ids ?t) \<le> MAX_TOTAL_PANES"
    using room(4) ws by (simp add: ids sat_add_usize_def MAX_TOTAL_PANES_def)
  have ok: "session_ok ?t" using ws room name by (auto simp: session_ok_def)
  have "distinct (session_pane_ids ?t)" "set (session_pane_ids ?t) \<inter> set (catalog_pane_ids c) = {}"
    using ws new unfolding ids by blast+
  with ok room(1) small show ?case
    by (simp, intro catalog_add [OF c new_session_id [OF rng sid]]) simp_all
qed

end
