(* ===== verification/CatalogContract.thy ===== *)
theory CatalogContract imports CatalogCopies begin

text \<open>
  Every revision-guarded mutation of the catalog as an instance of the contract, the commands a
  client can send as one datatype, and the catalogs a running service can reach.
\<close>

section \<open>The operations meet the contract\<close>

lemmas operation_defs =
  create_session_def import_stopped_session_def rename_session_def activate_session_def
  create_window_def rename_window_def activate_window_def duplicate_window_def close_window_def
  duplicate_session_def split_focused_def set_focused_split_ratio_def focus_pane_def close_pane_def
  set_pane_lifecycle_def begin_pane_generation_def set_pane_size_def remove_session_def

interpretation op_create_session:
  catalog_operation "\<lambda>c. fresh_supply c rng" "create_session rng name directory" for rng name directory
  by (unfold_locales, simp add: create_session_def expect_revision_cases, rule create_session_keeps, simp_all)

interpretation op_import_stopped_session:
  catalog_operation
    "\<lambda>c. fresh_supply c rng \<and> set (definition_pane_ids windows) \<inter> set (catalog_pane_ids c) = {}"
    "import_stopped_session rng name windows active" for rng name windows active
  by (unfold_locales, simp add: import_stopped_session_def expect_revision_cases, rule import_stopped_session_keeps, simp_all)

interpretation op_rename_session:
  catalog_operation "\<lambda>_. True" "rename_session sid name" for sid name
  by (unfold_locales, simp add: rename_session_def expect_revision_cases, rule rename_session_keeps, simp_all)

interpretation op_activate_session:
  catalog_operation "\<lambda>_. True" "activate_session sid" for sid
  by (unfold_locales, simp add: activate_session_def expect_revision_cases, rule activate_session_keeps, simp_all)

interpretation op_create_window:
  catalog_operation "\<lambda>c. fresh_supply c rng" "create_window rng sid name directory"
  for rng sid name directory
  by (unfold_locales, simp add: create_window_def expect_revision_cases, rule create_window_keeps, simp_all)

interpretation op_rename_window:
  catalog_operation "\<lambda>_. True" "rename_window sid wid name" for sid wid name
  by (unfold_locales, simp add: rename_window_def expect_revision_cases, rule rename_window_keeps, simp_all)

interpretation op_activate_window:
  catalog_operation "\<lambda>_. True" "activate_window sid wid" for sid wid
  by (unfold_locales, simp add: activate_window_def expect_revision_cases, rule activate_window_keeps, simp_all)

interpretation op_duplicate_window:
  catalog_operation "\<lambda>c. fresh_supply c rng" "duplicate_window rng sid wid" for rng sid wid
  by (unfold_locales, simp add: duplicate_window_def expect_revision_cases, rule duplicate_window_keeps, simp_all)

interpretation op_close_window:
  catalog_operation "\<lambda>_. True" "close_window sid wid" for sid wid
  by (unfold_locales, simp add: close_window_def expect_revision_cases, rule close_window_keeps, simp_all)

interpretation op_duplicate_session:
  catalog_operation "\<lambda>c. fresh_supply c rng" "duplicate_session rng sid" for rng sid
  by (unfold_locales, simp add: duplicate_session_def expect_revision_cases, rule duplicate_session_keeps, simp_all)

interpretation op_split_focused:
  catalog_operation "\<lambda>c. fresh_supply c rng" "split_focused rng sid axis" for rng sid axis
  by (unfold_locales, simp add: split_focused_def expect_revision_cases, rule split_focused_keeps, simp_all)

interpretation op_set_focused_split_ratio:
  catalog_operation "\<lambda>_. True" "set_focused_split_ratio sid ratio" for sid ratio
  by (unfold_locales, simp add: set_focused_split_ratio_def expect_revision_cases, rule set_focused_split_ratio_keeps, simp_all)

interpretation op_focus_pane:
  catalog_operation "\<lambda>_. True" "focus_pane sid pane" for sid pane
  by (unfold_locales, simp add: focus_pane_def expect_revision_cases, rule focus_pane_keeps, simp_all)

interpretation op_close_pane:
  catalog_operation "\<lambda>_. True" "close_pane sid pane" for sid pane
  by (unfold_locales, simp add: close_pane_def expect_revision_cases, rule close_pane_keeps, simp_all)

interpretation op_set_pane_lifecycle:
  catalog_operation "\<lambda>_. True" "set_pane_lifecycle sid pane lifecycle" for sid pane lifecycle
  by (unfold_locales, simp add: set_pane_lifecycle_def expect_revision_cases, rule set_pane_lifecycle_keeps, simp_all)

interpretation op_begin_pane_generation:
  catalog_operation "\<lambda>_. True" "begin_pane_generation sid pane rows columns" for sid pane rows columns
  by (unfold_locales, simp add: begin_pane_generation_def expect_revision_cases, rule begin_pane_generation_keeps, simp_all)

interpretation op_set_pane_size:
  catalog_operation "\<lambda>_. True" "set_pane_size sid pane rows columns" for sid pane rows columns
  by (unfold_locales, simp add: set_pane_size_def expect_revision_cases, rule set_pane_size_keeps, simp_all)

interpretation op_remove_session:
  catalog_operation "\<lambda>_. True" "remove_session sid" for sid
  by (unfold_locales, simp add: remove_session_def expect_revision_cases, rule remove_session_keeps, simp_all)

section \<open>Client commands\<close>

datatype catalog_command =
    CreateSession rust_string path
  | ImportStoppedSession rust_string "stopped_window_definition list" nat
  | RenameSession session_id rust_string
  | ActivateSession session_id
  | DuplicateSession session_id
  | RemoveSession session_id
  | CreateWindow session_id rust_string path
  | RenameWindow session_id window_id rust_string
  | ActivateWindow session_id window_id
  | DuplicateWindow session_id window_id
  | CloseWindow session_id window_id
  | SplitFocused session_id split_axis
  | SetFocusedSplitRatio session_id u16
  | FocusPane session_id pane_id
  | ClosePane session_id pane_id
  | SetPaneLifecycle session_id pane_id pane_lifecycle
  | BeginPaneGeneration session_id pane_id u16 u16
  | SetPaneSize session_id pane_id u16 u16

text \<open>The identifiers and generations the operations return are dropped.\<close>

definition forget :: "('e + 'a) \<times> 's \<Rightarrow> ('e + unit) \<times> 's" where
  "forget m = (case m of (Inl e, s) \<Rightarrow> (Inl e, s) | (Inr _, s) \<Rightarrow> (Inr (), s))"

fun run_command ::
  "entropy \<Rightarrow> catalog_command \<Rightarrow> u64 \<Rightarrow> session_catalog \<Rightarrow> (catalog_error + unit) \<times> session_catalog"
where
  "run_command rng (CreateSession name dir) e c = forget (create_session rng name dir e c)"
| "run_command rng (ImportStoppedSession name ws i) e c = forget (import_stopped_session rng name ws i e c)"
| "run_command rng (RenameSession s name) e c = rename_session s name e c"
| "run_command rng (ActivateSession s) e c = activate_session s e c"
| "run_command rng (DuplicateSession s) e c = forget (duplicate_session rng s e c)"
| "run_command rng (RemoveSession s) e c = remove_session s e c"
| "run_command rng (CreateWindow s name dir) e c = forget (create_window rng s name dir e c)"
| "run_command rng (RenameWindow s w name) e c = rename_window s w name e c"
| "run_command rng (ActivateWindow s w) e c = activate_window s w e c"
| "run_command rng (DuplicateWindow s w) e c = forget (duplicate_window rng s w e c)"
| "run_command rng (CloseWindow s w) e c = close_window s w e c"
| "run_command rng (SplitFocused s axis) e c = forget (split_focused rng s axis e c)"
| "run_command rng (SetFocusedSplitRatio s r) e c = set_focused_split_ratio s r e c"
| "run_command rng (FocusPane s p) e c = focus_pane s p e c"
| "run_command rng (ClosePane s p) e c = close_pane s p e c"
| "run_command rng (SetPaneLifecycle s p l) e c = set_pane_lifecycle s p l e c"
| "run_command rng (BeginPaneGeneration s p rows cols) e c = forget (begin_pane_generation s p rows cols e c)"
| "run_command rng (SetPaneSize s p rows cols) e c = set_pane_size s p rows cols e c"

text \<open>Only an import names panes that the catalog has not drawn itself.\<close>

fun imports_new_panes :: "catalog_command \<Rightarrow> session_catalog \<Rightarrow> bool" where
  "imports_new_panes (ImportStoppedSession name ws i) c \<longleftrightarrow>
     set (definition_pane_ids ws) \<inter> set (catalog_pane_ids c) = {}"
| "imports_new_panes _ c \<longleftrightarrow> True"

definition command_ready :: "entropy \<Rightarrow> catalog_command \<Rightarrow> session_catalog \<Rightarrow> bool" where
  "command_ready rng cmd c \<longleftrightarrow> fresh_supply c rng \<and> imports_new_panes cmd c"

lemma forget_ends: "ends m (kept c) \<Longrightarrow> ends (forget m) (kept c)"
  by (cases m; cases "fst m") (auto simp: forget_def ends_def)

lemma forget_inl [simp]: "forget (Inl e, s) = (Inl e, s)"
  by (simp add: forget_def)

interpretation op_command:
  catalog_operation "command_ready rng cmd" "run_command rng cmd" for rng cmd
proof
  fix expected c
  show "expected \<noteq> cat_revision c \<Longrightarrow>
      run_command rng cmd expected c = (Inl (StaleRevision expected (cat_revision c)), c)"
    by (cases cmd) (simp_all add: operation_defs expect_revision_cases)
  assume "catalog_ok c" "command_ready rng cmd c"
  then show "ends (run_command rng cmd expected c) (kept c)"
    by (cases cmd) (auto simp: command_ready_def intro!: forget_ends create_session_keeps
      import_stopped_session_keeps rename_session_keeps activate_session_keeps duplicate_session_keeps
      remove_session_keeps create_window_keeps rename_window_keeps activate_window_keeps
      duplicate_window_keeps close_window_keeps split_focused_keeps set_focused_split_ratio_keeps
      focus_pane_keeps close_pane_keeps set_pane_lifecycle_keeps begin_pane_generation_keeps
      set_pane_size_keeps)
qed

interpretation writers:
  two_catalog_writers "command_ready rng cmd" "run_command rng cmd" "command_ready rng' cmd'" "run_command rng' cmd'"
  for rng cmd rng' cmd'
  by unfold_locales

end
