(* ===== verification/CatalogProperties.thy ===== *)
theory CatalogProperties imports CatalogContract begin

text \<open>
  What the session catalog guarantees to its service: the catalogs it can reach validate, refused
  commands change nothing, concurrent clients do not overwrite each other, completions of an
  older pane generation are ignored, a pane lookup finds the one pane there is.
\<close>

section \<open>Completions and restarts\<close>

definition kept_or_same :: "session_catalog \<Rightarrow> (catalog_error + bool) \<Rightarrow> session_catalog \<Rightarrow> bool" where
  "kept_or_same c r c' \<longleftrightarrow> c' = c \<or> (r = Inr True \<and> kept c r c')"

lemma set_generation_lifecycle_keeps:
  "catalog_ok c \<Longrightarrow> ends (set_generation_lifecycle sid k g l c) (kept_or_same c)"
  unfolding set_generation_lifecycle_def
  by (intro walk) (auto simp: kept_or_same_def outcome pane_ok_def intro!: commit_pane_ok)

lemma pane_ok_stop: "pane_ok k p \<Longrightarrow> pane_ok k (stop_pane p)"
  by (simp add: pane_ok_def stop_pane_def)

lemma window_ok_stop: "window_ok w \<Longrightarrow> window_ok (stop_window w)"
  by (auto simp: window_ok_def stop_window_def layout_ok_def list_all_iff pane_ok_stop bt_len_keys)

lemma window_pane_ids_stop [simp]: "window_pane_ids (stop_window w) = window_pane_ids w"
  by (simp add: window_pane_ids_def stop_window_def)

lemma sw_id_stop [simp]: "sw_id (stop_window w) = sw_id w"
  by (simp add: stop_window_def)

lemma session_ok_stop: "session_ok s \<Longrightarrow> session_ok (stop_session s)"
  by (auto simp: session_ok_def stop_session_def list_all_iff window_ok_stop comp_def)

lemma session_pane_ids_stop [simp]: "session_pane_ids (stop_session s) = session_pane_ids s"
  by (simp add: session_pane_ids_def stop_session_def comp_def)

lemma se_id_stop [simp]: "se_id (stop_session s) = se_id s"
  by (simp add: stop_session_def)

lemma catalog_ok_stop:
  "catalog_ok c \<Longrightarrow> catalog_ok (c\<lparr>cat_sessions := bt_map (\<lambda>_. stop_session) (cat_sessions c)\<rparr>)"
  by (auto simp: catalog_ok_def active_ok_def bt_len_keys list_all_iff session_ok_stop
      catalog_pane_ids_entries comp_def case_prod_beta split: option.splits)

lemma find_pane_in_windows_stop:
  "find_pane_in_windows (map stop_window ws) k =
    map_option (\<lambda>(wid, p). (wid, stop_pane p)) (find_pane_in_windows ws k)"
  by (induction ws) (auto simp: stop_window_def split: option.splits)

lemma find_pane_in_sessions_stop:
  "find_pane_in_sessions (map stop_session ss) k =
    map_option (\<lambda>(sid, wid, p). (sid, wid, stop_pane p)) (find_pane_in_sessions ss k)"
proof (induction ss)
  case Nil
  then show ?case by simp
next
  case (Cons s ss)
  then show ?case
    by (cases "find_pane_in_windows (se_windows s) k")
      (auto simp: stop_session_def find_pane_in_windows_stop)
qed

lemma catalog_pane_stop:
  "catalog_pane (c\<lparr>cat_sessions := bt_map (\<lambda>_. stop_session) (cat_sessions c)\<rparr>) k =
    map_option (\<lambda>(sid, wid, p). (sid, wid, stop_pane p)) (catalog_pane c k)"
proof -
  have "bt_values (bt_map (\<lambda>_. stop_session) m) = map stop_session (bt_values m)" for m :: "(session_id, session) btree"
    by (simp add: bt_values_def comp_def case_prod_beta)
  then show ?thesis by (simp add: catalog_pane_def find_pane_in_sessions_stop)
qed

lemma stop_pane_idem [simp]: "stop_pane (stop_pane p) = stop_pane p"
  by (simp add: stop_pane_def)

lemma bt_map_cong_idem: "(\<And>k v. g k (f k v) = f k v) \<Longrightarrow> bt_map g (bt_map f m) = bt_map f m"
  by (rule bt_eqI) (simp add: option.map_comp comp_def)

lemma stop_window_idem [simp]: "stop_window (stop_window w) = stop_window w"
  by (simp add: stop_window_def bt_map_cong_idem)

lemma stop_session_idem [simp]: "stop_session (stop_session s) = stop_session s"
  by (simp add: stop_session_def comp_def)

lemma stopped_clone_ok:
  "stopped_clone c = Inr c' \<longleftrightarrow>
     catalog_ok c \<and> c' = c\<lparr>cat_sessions := bt_map (\<lambda>_. stop_session) (cat_sessions c)\<rparr>"
  by (auto simp: stopped_clone_def outcome catalog_validate_ok)

section \<open>Looking panes up\<close>

lemma distinct_concat_unique:
  "distinct (concat (map f xs)) \<Longrightarrow> x \<in> set xs \<Longrightarrow> y \<in> set xs \<Longrightarrow> k \<in> set (f x) \<Longrightarrow> k \<in> set (f y) \<Longrightarrow> x = y"
  by (induction xs) auto

lemma find_pane_in_windows_Some:
  "find_pane_in_windows ws k = Some (wid, p) \<Longrightarrow>
    \<exists>w \<in> set ws. sw_id w = wid \<and> bt_get (sw_panes w) k = Some p"
  by (induction ws) (auto split: option.splits)

lemma find_pane_in_windows_None:
  "find_pane_in_windows ws k = None \<longleftrightarrow> (\<forall>w \<in> set ws. bt_get (sw_panes w) k = None)"
  by (induction ws) (auto split: option.splits)

lemma find_pane_in_sessions_Some:
  "find_pane_in_sessions ss k = Some (sid, wid, p) \<Longrightarrow>
    \<exists>s \<in> set ss. se_id s = sid \<and> (\<exists>w \<in> set (se_windows s). sw_id w = wid \<and> bt_get (sw_panes w) k = Some p)"
  by (induction ss) (auto split: option.splits dest!: find_pane_in_windows_Some)

lemma find_pane_in_sessions_None:
  "find_pane_in_sessions ss k = None \<longleftrightarrow>
    (\<forall>s \<in> set ss. \<forall>w \<in> set (se_windows s). bt_get (sw_panes w) k = None)"
  by (induction ss) (auto simp: find_pane_in_windows_None [symmetric] split: option.splits)

definition holds_pane ::
  "session_catalog \<Rightarrow> session_id \<Rightarrow> window_id \<Rightarrow> pane_id \<Rightarrow> session_pane \<Rightarrow> bool"
where
  "holds_pane c sid wid k p \<longleftrightarrow>
     (case bt_get (cat_sessions c) sid of
        None \<Rightarrow> False
      | Some s \<Rightarrow> list_ex (\<lambda>w. sw_id w = wid \<and> bt_get (sw_panes w) k = Some p) (se_windows s))"

lemma holds_pane_iff:
  "holds_pane c sid wid k p \<longleftrightarrow>
    (\<exists>s. bt_get (cat_sessions c) sid = Some s \<and>
      (\<exists>w \<in> set (se_windows s). sw_id w = wid \<and> bt_get (sw_panes w) k = Some p))"
  by (auto simp: holds_pane_def list_ex_iff split: option.splits)

lemma holds_pane_unique:
  assumes c: "catalog_ok c" and 1: "holds_pane c sid wid k p" and 2: "holds_pane c sid' wid' k p'"
  shows "sid = sid' \<and> wid = wid' \<and> p = p'"
proof -
  obtain s w where s: "bt_get (cat_sessions c) sid = Some s" and w: "w \<in> set (se_windows s)"
    "sw_id w = wid" "bt_get (sw_panes w) k = Some p" using 1 unfolding holds_pane_iff by blast
  obtain s' w' where s': "bt_get (cat_sessions c) sid' = Some s'" and w': "w' \<in> set (se_windows s')"
    "sw_id w' = wid'" "bt_get (sw_panes w') k = Some p'" using 2 unfolding holds_pane_iff by blast
  have kw: "k \<in> set (window_pane_ids w)" "k \<in> set (window_pane_ids w')"
    using w(3) w'(3) by (simp_all add: window_pane_ids_def set_bt_keys)
  then have "k \<in> set (session_pane_ids s)" "k \<in> set (session_pane_ids s')"
    using window_ids_in_session w(1) w'(1) by blast+
  moreover have "distinct (concat (map session_pane_ids (bt_values (cat_sessions c))))"
    using c by (simp add: catalog_ok_def catalog_pane_ids_def)
  ultimately have "s = s'"
    using distinct_concat_unique [where f = session_pane_ids, OF _ bt_get_in_values [OF s] bt_get_in_values [OF s']] by blast
  then have "sid = sid'" using catalog_get(1) [OF c s] catalog_get(1) [OF c s'] by simp
  have "w = w'"
    using session_ids_distinct [OF c s] kw w(1) w'(1) \<open>s = s'\<close>
    unfolding session_pane_ids_def by (blast intro: distinct_concat_unique [where f = window_pane_ids])
  with \<open>sid = sid'\<close> w w' show ?thesis by simp
qed

lemma catalog_pane_holds:
  assumes c: "catalog_ok c"
  shows "catalog_pane c k = Some (sid, wid, p) \<longleftrightarrow> holds_pane c sid wid k p"
proof -
  have sound: "holds_pane c a b k q" if "catalog_pane c k = Some (a, b, q)" for a b q
  proof -
    from that obtain s where "s \<in> set (bt_values (cat_sessions c))" "se_id s = a"
      "\<exists>w \<in> set (se_windows s). sw_id w = b \<and> bt_get (sw_panes w) k = Some q"
      unfolding catalog_pane_def by (blast dest: find_pane_in_sessions_Some)
    then show ?thesis unfolding holds_pane_iff using catalog_get(1) [OF c] by (auto simp: bt_values_get)
  qed
  have "holds_pane c sid wid k p \<Longrightarrow> catalog_pane c k = Some (sid, wid, p)"
  proof -
    assume h: "holds_pane c sid wid k p"
    then obtain s w where s: "bt_get (cat_sessions c) sid = Some s" and w: "w \<in> set (se_windows s)"
      "bt_get (sw_panes w) k = Some p" unfolding holds_pane_iff by blast
    then have "catalog_pane c k \<noteq> None"
      using bt_get_in_values [OF s] unfolding catalog_pane_def find_pane_in_sessions_None by auto
    then obtain a b q where "catalog_pane c k = Some (a, b, q)" by (cases "catalog_pane c k") auto
    with holds_pane_unique [OF c h sound [OF this]] show ?thesis by simp
  qed
  with sound show ?thesis by blast
qed

section \<open>Pane generations\<close>

lemma commit_window_get:
  "bt_get (cat_sessions (commit_window c sid s i w)) sid =
    Some (s\<lparr>se_windows := (se_windows s)[i := w\<lparr>sw_revision := sat_inc (sw_revision w)\<rparr>],
      se_revision := sat_inc (se_revision s)\<rparr>)"
  by (simp add: commit_window_def commit_session_def bump_revision_def)

lemma window_of_pane_commit:
  assumes "window_of_pane s k = Inr i" "bt_contains (sw_panes w) k"
  shows "window_of_pane (s\<lparr>se_windows := (se_windows s)[i := w], se_revision := r\<rparr>) k = Inr i"
  using assms by (auto simp: window_of_pane_def outcome intro: position_update)

lemma begin_pane_generation_ok:
  assumes "begin_pane_generation sid k rows cols e c = (Inr g, c1)"
  obtains s i p where "bt_get (cat_sessions c1) sid = Some s" "window_of_pane s k = Inr i"
    "i < length (se_windows s)" "bt_get (sw_panes (se_windows s ! i)) k = Some p"
    "sp_generation p = g" "sp_lifecycle p = Starting" "sp_requested_rows p = rows"
    "sp_requested_columns p = cols"
proof -
  obtain s i p where s: "bt_get (cat_sessions c) sid = Some s" "window_of_pane s k = Inr i"
    "bt_get (sw_panes (se_windows s ! i)) k = Some p" and g: "g = sat_inc (sp_generation p)"
    and c1: "c1 = commit_window c sid s i ((se_windows s ! i)\<lparr>sw_panes := bt_insert k
      (p\<lparr>sp_requested_rows := rows, sp_requested_columns := cols, sp_generation := g,
         sp_lifecycle := Starting\<rparr>) (sw_panes (se_windows s ! i))\<rparr>)"
    using assms by (auto simp: begin_pane_generation_def outcome Let_def split: if_splits)
  have i: "i < length (se_windows s)" using window_of_pane_ok [OF s(2)] by simp
  show ?thesis
    by (rule that [OF _ window_of_pane_commit])
      (use s i in \<open>auto simp: c1 commit_window_get bt_contains_def\<close>)
qed

lemma set_generation_lifecycle_at:
  assumes "bt_get (cat_sessions c) sid = Some s" "window_of_pane s k = Inr i"
    "bt_get (sw_panes (se_windows s ! i)) k = Some p"
  shows "set_generation_lifecycle sid k g l c =
    (if sp_generation p \<noteq> g then (Inr False, c)
     else if sp_lifecycle p = l then (Inr True, c)
     else (Inr True, commit_window c sid s i ((se_windows s ! i)\<lparr>sw_panes :=
       bt_insert k (p\<lparr>sp_lifecycle := l\<rparr>) (sw_panes (se_windows s ! i))\<rparr>)))"
  using assms by (simp add: set_generation_lifecycle_def Let_def)

lemma holds_pane_at:
  assumes "bt_get (cat_sessions c) sid = Some s" "i < length (se_windows s)"
    "bt_get (sw_panes (se_windows s ! i)) k = Some p"
  shows "holds_pane c sid (sw_id (se_windows s ! i)) k p"
  using assms unfolding holds_pane_iff by (auto intro!: bexI [of _ "se_windows s ! i"])

lemma completion_recorded:
  assumes "bt_get (cat_sessions c) sid = Some s" "window_of_pane s k = Inr i"
    "i < length (se_windows s)" "bt_get (sw_panes (se_windows s ! i)) k = Some p" "sp_generation p = g"
  obtains wid q where "fst (set_generation_lifecycle sid k g l c) = Inr True"
    "holds_pane (snd (set_generation_lifecycle sid k g l c)) sid wid k q"
    "sp_generation q = g" "sp_lifecycle q = l"
proof (cases "sp_lifecycle p = l")
  case True
  with set_generation_lifecycle_at [OF assms(1,2,4), of g l] holds_pane_at [OF assms(1,3,4)] assms(5)
  show ?thesis by (intro that) auto
next
  case False
  let ?w = "(se_windows s ! i)\<lparr>sw_panes := bt_insert k (p\<lparr>sp_lifecycle := l\<rparr>) (sw_panes (se_windows s ! i))\<rparr>"
  let ?c = "commit_window c sid s i ?w"
  have "holds_pane ?c sid (sw_id (se_windows s ! i)) k (p\<lparr>sp_lifecycle := l\<rparr>)"
    using holds_pane_at [OF commit_window_get [of c sid s i ?w], of i k "p\<lparr>sp_lifecycle := l\<rparr>"] assms(3) by simp
  with set_generation_lifecycle_at [OF assms(1,2,4), of g l] False assms(5)
  show ?thesis by (intro that [of "sw_id (se_windows s ! i)" "p\<lparr>sp_lifecycle := l\<rparr>"]) simp_all
qed

section \<open>Splitting and closing again\<close>

definition window_view :: "session_window \<Rightarrow> window_id \<times> pane_id list \<times> (pane_id, session_pane) btree" where
  "window_view w = (sw_id w, sln_leaves (sw_root w), sw_panes w)"

definition session_view ::
  "session \<Rightarrow> session_id \<times> (window_id \<times> pane_id list \<times> (pane_id, session_pane) btree) list"
where
  "session_view s = (se_id s, map window_view (se_windows s))"

text \<open>What a user sees of a catalog: sessions, windows, panes in layout order, and the panes.\<close>

definition catalog_view where
  "catalog_view c = map session_view (bt_values (cat_sessions c))"

lemma catalog_view_commit_window:
  assumes s: "bt_get (cat_sessions c) sid = Some s" and i: "i < length (se_windows s)"
    and w: "window_view w = window_view (se_windows s ! i)"
  shows "catalog_view (commit_window c sid s i w) = catalog_view c"
proof -
  let ?s = "s\<lparr>se_windows := (se_windows s)[i := w\<lparr>sw_revision := sat_inc (sw_revision w)\<rparr>],
    se_revision := sat_inc (se_revision s)\<rparr>"
  have "map window_view ((se_windows s)[i := w\<lparr>sw_revision := sat_inc (sw_revision w)\<rparr>]) =
      map window_view (se_windows s)"
    using w i by (simp add: map_update window_view_def [of "_\<lparr>sw_revision := _\<rparr>"])
      (simp add: window_view_def [of w, symmetric] list_update_same_conv)
  then have "session_view ?s = session_view s" by (simp add: session_view_def)
  moreover obtain as bs where "bt_values (cat_sessions c) = as @ s # bs"
    "bt_values (bt_insert sid ?s (cat_sessions c)) = as @ ?s # bs"
    using s by (elim bt_values_replace) simp
  ultimately show ?thesis
    by (simp add: catalog_view_def commit_window_def commit_session_def bump_revision_def)
qed

lemma position_only:
  "i < length xs \<Longrightarrow> p (xs ! i) \<Longrightarrow> (\<And>j. j < length xs \<Longrightarrow> p (xs ! j) \<Longrightarrow> j = i) \<Longrightarrow> position p xs = Some i"
proof -
  assume i: "i < length xs" "p (xs ! i)" "\<And>j. j < length xs \<Longrightarrow> p (xs ! j) \<Longrightarrow> j = i"
  obtain j where j: "position p xs = Some j" using position_exists [of "xs ! i" xs p] i(1,2) by auto
  then show ?thesis using i(3) [OF position_SomeD [OF j]] by simp
qed

lemma commit_window_twice:
  fixes c :: session_catalog and sid :: session_id and w1 w2 :: session_window
  assumes "i < length (se_windows s)"
  defines "c1 \<equiv> commit_window c sid s i w1"
    and "s1 \<equiv> s\<lparr>se_windows := (se_windows s)[i := w1\<lparr>sw_revision := sat_inc (sw_revision w1)\<rparr>],
      se_revision := sat_inc (se_revision s)\<rparr>"
  assumes s: "bt_get (cat_sessions c) sid = Some s"
    and w: "window_view w2 = window_view (se_windows s ! i)"
  shows "catalog_view (commit_window c1 sid s1 i w2) = catalog_view c"
proof -
  let ?s = "\<lambda>s i w. s\<lparr>se_windows := (se_windows s)[i := w\<lparr>sw_revision := sat_inc (sw_revision w)\<rparr>],
    se_revision := sat_inc (se_revision s)\<rparr>"
  have "session_view (?s s1 i w2) = session_view (?s s i w2)" by (simp add: s1_def session_view_def)
  moreover have "cat_sessions (commit_window c1 sid s1 i w2) = bt_insert sid (?s s1 i w2) (cat_sessions c)"
    by (simp add: c1_def commit_window_def commit_session_def bump_revision_def bt.put_put)
  moreover have "cat_sessions (commit_window c sid s i w2) = bt_insert sid (?s s i w2) (cat_sessions c)"
    by (simp add: commit_window_def commit_session_def bump_revision_def)
  moreover obtain as bs where "\<And>t. bt_values (bt_insert sid t (cat_sessions c)) = as @ t # bs"
    using s by (elim bt_values_replace) blast
  ultimately have "catalog_view (commit_window c1 sid s1 i w2) = catalog_view (commit_window c sid s i w2)"
    by (simp add: catalog_view_def)
  then show ?thesis using catalog_view_commit_window [OF s assms(1) w] by simp
qed

lemma split_focused_ok:
  assumes "split_focused rng sid axis e c = (Inr k, c1)"
  obtains s i p rng' root where "bt_get (cat_sessions c) sid = Some s" "i < length (se_windows s)"
    "bt_get (sw_panes (se_windows s ! i)) (sw_focused_pane (se_windows s ! i)) = Some p"
    "new_id rng = (Inr k, rng')"
    "sln_split (sw_root (se_windows s ! i)) (sw_focused_pane (se_windows s ! i)) k axis = (True, root)"
    "c1 = commit_window c sid s i ((se_windows s ! i)\<lparr>sw_root := root,
       sw_panes := bt_insert k (copy_pane k p) (sw_panes (se_windows s ! i)), sw_focused_pane := k\<rparr>)"
proof -
  obtain s i p where s: "bt_get (cat_sessions c) sid = Some s" and i: "active_window_mut s = Inr i"
    and p: "bt_get (sw_panes (se_windows s ! i)) (sw_focused_pane (se_windows s ! i)) = Some p"
    using assms by (auto simp: split_focused_def outcome Let_def split: if_splits)
  obtain n rng' where n: "new_id rng = (n :: id_error + pane_id, rng')" by force
  obtain b root where b: "sln_split (sw_root (se_windows s ! i)) (sw_focused_pane (se_windows s ! i))
      (case n of Inr k \<Rightarrow> k) axis = (b, root)" by force
  have "n = Inr k \<and> b \<and> c1 = commit_window c sid s i ((se_windows s ! i)\<lparr>sw_root := root,
       sw_panes := bt_insert k (copy_pane k p) (sw_panes (se_windows s ! i)), sw_focused_pane := k\<rparr>)"
    using assms s i p n b
    by (auto simp: split_focused_def outcome Let_def with_new_id_def copy_pane_def
        split: if_splits sum.splits bool.splits)
  with s i p n b active_window_mut_ok(1) [OF i] show ?thesis by (intro that) auto
qed

lemma close_new_pane:
  fixes p :: session_pane
  assumes c: "catalog_ok c" and s: "bt_get (cat_sessions c) sid = Some s" and i: "i < length (se_windows s)"
    and k: "k \<notin> set (catalog_pane_ids c)"
    and split: "sln_split (sw_root (se_windows s ! i)) f k axis = (True, root)"
  defines "w \<equiv> se_windows s ! i"
  defines "c1 \<equiv> commit_window c sid s i (w\<lparr>sw_root := root,
    sw_panes := bt_insert k (copy_pane k p) (sw_panes w), sw_focused_pane := k\<rparr>)"
  assumes c1: "catalog_ok c1"
  shows "\<exists>c2. close_pane sid k (cat_revision c1) c1 = (Inr (), c2) \<and> catalog_view c2 = catalog_view c"
proof -
  let ?w1 = "w\<lparr>sw_root := root, sw_panes := bt_insert k (copy_pane k p) (sw_panes w), sw_focused_pane := k\<rparr>"
  let ?w1' = "?w1\<lparr>sw_revision := sat_inc (sw_revision w)\<rparr>"
  let ?s1 = "s\<lparr>se_windows := (se_windows s)[i := ?w1'], se_revision := sat_inc (se_revision s)\<rparr>"
  have s1: "bt_get (cat_sessions c1) sid = Some ?s1"
    using commit_window_get [of c sid s i ?w1] by (simp add: c1_def)
  have w: "window_ok w" unfolding w_def by (rule target_window_ok [OF c s i])
  have w1: "window_ok ?w1'" using target_window_ok [OF c1 s1, of i] i by simp
  have not_k: "bt_get (sw_panes v) k = None" if "v \<in> set (se_windows s)" for v
    using k window_ids_in_session [OF that] session_ids_in_catalog [OF s]
    by (auto simp: window_pane_ids_def set_bt_keys)
  then have new: "bt_get (sw_panes w) k = None" by (simp add: w_def i)
  have at: "window_of_pane ?s1 k = Inr i"
  proof -
    have "position (\<lambda>w. bt_contains (sw_panes w) k) (se_windows ?s1) = Some i"
    proof (rule position_only)
      fix j
      assume "j < length (se_windows ?s1)" "bt_contains (sw_panes (se_windows ?s1 ! j)) k"
      then show "j = i" using not_k by (cases "j = i") (auto simp: bt_contains_def)
    qed (use i in \<open>simp_all add: bt_contains_def\<close>)
    then show ?thesis by (simp add: window_of_pane_def)
  qed
  have "k \<notin> set (sln_leaves (sw_root w))"
    using w new by (simp add: window_ok_def layout_ok_def set_bt_keys)
  then obtain root2 where root2: "sln_remove root k = Some root2" "sln_leaves root2 = sln_leaves (sw_root w)"
    using sln.split_remove [OF split] by (auto simp: w_def)
  have "bt_len (sw_panes w) \<noteq> 0" using w by (auto simp: window_ok_def bt_len_keys)
  then have len: "bt_len (sw_panes ?w1') \<noteq> 1" by (simp add: bt_len_insert new)
  have get: "bt_get (sw_panes ?w1') k = Some (copy_pane k p)" by simp
  define r where "r = (if sw_focused_pane ?w1' = k
      then and_then (ok_or (bt_first_key (bt_remove k (sw_panes ?w1'))) LastPane)
             (\<lambda>f. Inr (?w1'\<lparr>sw_panes := bt_remove k (sw_panes ?w1'), sw_root := root2, sw_focused_pane := f\<rparr>))
      else Inr (?w1'\<lparr>sw_panes := bt_remove k (sw_panes ?w1'), sw_root := root2\<rparr>))"
  obtain w2 where w2: "r = Inr w2" "window_ok w2" "sw_id w2 = sw_id ?w1'"
    "sw_panes w2 = bt_remove k (sw_panes ?w1')" "sw_root w2 = root2"
    using closed_window [OF w1 get len _ r_def [symmetric]] root2(1) by auto
  have "close_pane sid k (cat_revision c1) c1 = (Inr (), commit_window c1 sid ?s1 i w2)"
    using s1 at len root2(1) w2(1,2) i
    by (simp add: close_pane_def expect_revision_def Let_def r_def copy_pane_def window_ok_iff)
  moreover have "window_view w2 = window_view (se_windows s ! i)"
    using w2 root2 new by (simp add: window_view_def bt.del_put flip: w_def)
  then have "catalog_view (commit_window c1 sid ?s1 i w2) = catalog_view c"
    using commit_window_twice [OF i s, of w2 ?w1] by (simp add: c1_def)
  ultimately show ?thesis by blast
qed

section \<open>Reachable catalogs\<close>

text \<open>
  A service starts from an empty catalog or from the stopped clone of a valid one, and then takes
  client commands and completions in any order.
\<close>

inductive catalog_reachable :: "session_catalog \<Rightarrow> bool" where
  empty: "catalog_reachable new_catalog"
| restart: "stopped_clone c = Inr c' \<Longrightarrow> catalog_reachable c'"
| command: "catalog_reachable c \<Longrightarrow> command_ready rng cmd c \<Longrightarrow>
    catalog_reachable (snd (run_command rng cmd expected c))"
| completion: "catalog_reachable c \<Longrightarrow>
    catalog_reachable (snd (set_generation_lifecycle sid k g l c))"

inductive_cases catalog_reachableE: "catalog_reachable c"

lemma new_catalog_ok: "catalog_ok new_catalog"
  by (simp add: catalog_ok_def new_catalog_def active_ok_def catalog_pane_ids_def bt_len_def bt_values_def)

lemma completion_ok: "catalog_ok c \<Longrightarrow> catalog_ok (snd (set_generation_lifecycle sid k g l c))"
  using set_generation_lifecycle_keeps [of c sid k g l] by (auto simp: ends_def kept_or_same_def)

lemma catalog_reachable_ok: "catalog_reachable c \<Longrightarrow> catalog_ok c"
proof (induction rule: catalog_reachable.induct)
  case empty
  show ?case by (rule new_catalog_ok)
next
  case (restart c c')
  then show ?case by (simp add: stopped_clone_ok catalog_ok_stop)
next
  case (command c rng cmd expected)
  then show ?case by (intro op_command.valid_after)
next
  case (completion c sid k g l)
  then show ?case by (intro completion_ok)
qed

section \<open>A concrete catalog\<close>

definition example_draws :: "u8 list \<Rightarrow> entropy" where
  "example_draws ns = map (\<lambda>n. Some (replicate 16 n)) ns"

definition example_id :: "u8 \<Rightarrow> 'k opaque_id" where
  "example_id n = OpaqueId (replicate 16 n)"

definition example_catalog :: session_catalog where
  "example_catalog = snd (create_session (example_draws [1, 2, 3]) (lit ''main'') (lit ''/work'') 0 new_catalog)"

lemma drawn_code [code]: "drawn rng = set (map OpaqueId (List.map_filter id rng))"
  by (auto simp: drawn_def List.map_filter_def image_iff) force

lemma example_reachable: "catalog_reachable example_catalog"
proof -
  have "command_ready (example_draws [1, 2, 3]) (CreateSession (lit ''main'') (lit ''/work'')) new_catalog"
    by code_simp
  from catalog_reachable.command [OF catalog_reachable.empty this, of 0]
  show ?thesis by (simp add: example_catalog_def forget_def split: prod.splits sum.splits)
qed

subsection \<open>Evaluation\<close>

text \<open>
  The evaluation of a handler on concrete inputs goes from the first question mark to the last:
  the weak congruences keep the simplifier out of what runs later.
\<close>

lemma attempt_weak: "r = r' \<Longrightarrow> attempt r s k = attempt r' s k"
  by simp

lemma with_new_id_weak: "rng = rng' \<Longrightarrow> with_new_id rng s k = with_new_id rng' s k"
  by simp

lemma with_new_id_example [simp]:
  "with_new_id (example_draws (n # ns)) s k = k (example_id n) (example_draws ns)"
  "with_new_id (example_draws []) s k = (Inl (IdFailed RandomUnavailable), s)"
  by (simp_all add: with_new_id_def example_draws_def example_id_def)

lemma new_id_example [simp]: "new_id (example_draws (n # ns)) = (Inr (example_id n), example_draws ns)"
  by (simp add: example_draws_def example_id_def)

lemma example_id_eq [simp]: "(example_id m :: 'k opaque_id) = example_id n \<longleftrightarrow> m = n"
  by (simp add: example_id_def)

lemma example_id_less [simp]: "(example_id m :: 'k opaque_id) < example_id n \<longleftrightarrow> m < n"
  by (auto simp: example_id_def less_opaque_id_def numeral_eq_Suc)

lemmas constants_eval = MAX_SESSIONS_def MAX_TOTAL_PANES_def MAX_WINDOWS_PER_SESSION_def
  MAX_PANES_PER_WINDOW_def MAX_LAYOUT_DEPTH_def

lemmas catalog_eval = constants_eval expect_revision_def total_panes_def bt_eval nth_opt_def
  validated_name_def lit_def trim_def is_whitespace_def validated_directory_def bump_revision_def
  sat_inc_def single_pane_window_def stopped_pane_def active_window_mut_def window_of_pane_def
  window_validate_def sln_validate_def commit_window_def commit_session_def Let_def

lemma example_catalog_eq:
  "example_catalog =
    \<lparr>cat_revision = 1,
     cat_sessions = bt_insert (example_id 1)
       \<lparr>se_id = example_id 1, se_name = lit ''main'', se_revision = 1,
        se_windows = [single_pane_window (example_id 2) (lit ''shell'') (example_id 3) (lit ''/work'')],
        se_active_window = example_id 2\<rparr> bt_empty,
     cat_active_session = Some (example_id 1)\<rparr>"
  unfolding example_catalog_def create_session_def new_catalog_def
  by (simp add: catalog_eval cong: attempt_weak with_new_id_weak)

lemma example_catalog_ok: "catalog_ok example_catalog"
  by (rule catalog_reachable_ok [OF example_reachable])

lemma example_fresh: "fresh_supply example_catalog (example_draws [4, 5, 6])"
  by code_simp

lemma example_fresh_import: "fresh_supply example_catalog (example_draws [4, 5])"
  by code_simp

lemma example_split:
  "fst (split_focused (example_draws [4, 5, 6]) (example_id 1) Horizontal 1 example_catalog) = Inr (example_id 4)"
  unfolding split_focused_def example_catalog_eq
  by (simp add: catalog_eval cong: attempt_weak with_new_id_weak)

lemma fst_eq_pair: "fst m = r \<Longrightarrow> m = (r, snd m)"
  by (cases m) simp

section \<open>What the duplications leave behind\<close>

lemma duplicate_window_ok:
  assumes run: "duplicate_window rng sid wid e c = (Inr n, c')"
    and c: "catalog_ok c" and rng: "fresh_supply c rng"
  obtains s w w' f where "bt_get (cat_sessions c) sid = Some s" "w \<in> set (se_windows s)" "sw_id w = wid"
    "sw_id w' = n" "window_copy f w w'"
    "c' = commit_session c sid (s\<lparr>se_windows := se_windows s @ [w'], se_active_window := n\<rparr>)"
proof -
  obtain s w ids panes rng2 name root f where s: "bt_get (cat_sessions c) sid = Some s"
    and w: "find (\<lambda>w. sw_id w = wid) (se_windows s) = Some w"
    and draws: "new_id rng = (Inr n, snd (new_id rng :: (id_error + window_id) \<times> entropy))"
    and panes: "duplicate_panes (snd (new_id rng :: (id_error + window_id) \<times> entropy)) (bt_values (sw_panes w)) bt_empty bt_empty
      = Inr (ids, panes, rng2)"
    and root: "sln_remap (sw_root w) ids = Inr root" and f: "bt_get ids (sw_focused_pane w) = Some f"
    and c': "c' = commit_session c sid (s\<lparr>se_windows := se_windows s @
      [\<lparr>sw_id = n, sw_name = name, sw_revision = 1, sw_root = root, sw_focused_pane = f, sw_panes = panes\<rparr>],
      se_active_window := n\<rparr>)"
    using run
    by (cases "new_id rng :: (id_error + window_id) \<times> entropy"; cases "fst (new_id rng :: (id_error + window_id) \<times> entropy)")
      (auto simp: duplicate_window_def outcome Let_def with_new_id_def split: if_splits)
  let ?w = "\<lparr>sw_id = n, sw_name = name, sw_revision = 1, sw_root = root, sw_focused_pane = f, sw_panes = panes\<rparr>"
  have w': "w \<in> set (se_windows s)" "sw_id w = wid" using find_Some_in [OF w] by simp_all
  have "window_ok w" by (rule session_windows_ok [OF catalog_get(2) [OF c s] w'(1)])
  moreover have "distinct_draws (snd (new_id rng :: (id_error + window_id) \<times> entropy))"
    using new_id_distinct(2) [OF draws] rng by (simp add: fresh_supply_def)
  ultimately have "window_copy (\<lambda>k. the (bt_get ids k)) w ?w"
    using duplicate_panes_copy(1) [OF panes _ _ root f] by simp
  with s w' c' show ?thesis by (intro that [of s w ?w]) simp_all
qed

lemma duplicate_session_ok:
  assumes run: "duplicate_session rng sid e c = (Inr n, c')"
    and c: "catalog_ok c" and rng: "fresh_supply c rng"
  obtains s t where "bt_get (cat_sessions c) sid = Some s" "bt_get (cat_sessions c') n = Some t"
    "se_id t = n" "session_twin s t" "cat_active_session c' = Some n" "sid \<noteq> n"
    "\<forall>k. k \<noteq> n \<longrightarrow> bt_get (cat_sessions c') k = bt_get (cat_sessions c) k" "bt_get (cat_sessions c) n = None"
proof -
  obtain s ws name active where s: "bt_get (cat_sessions c) sid = Some s"
    and draws: "new_id rng = (Inr n, snd (new_id rng :: (id_error + session_id) \<times> entropy))"
    and ws: "duplicate_windows (snd (new_id rng :: (id_error + session_id) \<times> entropy)) (se_active_window s) (se_windows s) None
      = Inr (ws, Some active)"
    and name: "validated_name (se_name s @ lit '' copy'') = Inr name"
    and c': "c' = bump_revision (c\<lparr>cat_sessions := bt_insert n
      \<lparr>se_id = n, se_name = name, se_revision = 1, se_windows = ws, se_active_window = active\<rparr> (cat_sessions c),
      cat_active_session := Some n\<rparr>)"
    using run
    by (cases "new_id rng :: (id_error + session_id) \<times> entropy"; cases "fst (new_id rng :: (id_error + session_id) \<times> entropy)")
      (auto simp: duplicate_session_def outcome Let_def with_new_id_def split: if_splits)
  have "distinct_draws (snd (new_id rng :: (id_error + session_id) \<times> entropy))"
    using new_id_distinct(2) [OF draws] rng by (simp add: fresh_supply_def)
  note d = duplicated_session_ok [OF catalog_get(2) [OF c s] ws this validated_name_ok [OF name], of n]
  have new: "bt_get (cat_sessions c) n = None" by (rule new_session_id [OF rng draws])
  then have "sid \<noteq> n" using s by auto
  with s c' d(2) new show ?thesis by (intro that) (auto simp: bump_revision_def)
qed

section \<open>Imports of known panes\<close>

definition clashing_import :: "stopped_window_definition list" where
  "clashing_import =
     [\<lparr>swd_name = lit ''old'', swd_root = Pane (example_id 3), swd_focused_pane = example_id 3,
       swd_panes = [(example_id 3, lit ''/old'')]\<rparr>]"

text \<open>
  An accepted import adds exactly the panes it names; the pane identifiers of the catalog stay
  distinct precisely when none of them was there before.
\<close>

lemma catalog_add_clash:
  assumes "bt_get (cat_sessions c) sid = None"
    and "catalog_ok (c\<lparr>cat_sessions := bt_insert sid s (cat_sessions c), cat_active_session := a\<rparr>)"
  shows "set (session_pane_ids s) \<inter> set (catalog_pane_ids c) = {}"
proof -
  obtain as bs where e: "bt_entries (cat_sessions c) = as @ bs"
      "bt_entries (bt_insert sid s (cat_sessions c)) = as @ (sid, s) # bs"
    using assms(1) by (elim bt_split_new) simp
  then show ?thesis
    using assms(2) unfolding catalog_ok_def catalog_pane_ids_entries by fastforce
qed

lemma import_ends:
  assumes c: "catalog_ok c" and rng: "fresh_supply c rng"
  shows "ends (import_stopped_session rng name ds active expected c)
    (\<lambda>r c'. case r of Inl _ \<Rightarrow> c' = c
      | Inr _ \<Rightarrow> cat_revision c' = sat_inc (cat_revision c) \<and>
          (catalog_ok c' \<longrightarrow> set (definition_pane_ids ds) \<inter> set (catalog_pane_ids c) = {}))"
  unfolding import_stopped_session_def Let_def
proof ((intro ends_attempt ends_if ends_new_id ends_prod ends_pair; (simp; fail)?), goal_cases)
  case (1 u sid rng1 ws name)
  let ?t = "\<lparr>se_id = sid, se_name = name, se_revision = 1, se_windows = ws,
    se_active_window = sw_id (ws ! active)\<rparr>"
  have sid: "new_id rng = (Inr sid, rng1)" and run: "import_windows rng1 ds {} = Inr ws"
    using 1 by simp_all
  have "distinct_draws rng1" using new_id_distinct [OF sid] rng by (simp add: fresh_supply_def)
  note ws = import_windows_ok [OF run this]
  have ids: "set (session_pane_ids ?t) = set (definition_pane_ids ds)"
    using ws by (simp add: session_pane_ids_def)
  have "catalog_ok (bump_revision (c\<lparr>cat_sessions := bt_insert sid ?t (cat_sessions c),
      cat_active_session := Some sid\<rparr>)) \<Longrightarrow> set (definition_pane_ids ds) \<inter> set (catalog_pane_ids c) = {}"
    using catalog_add_clash [OF new_session_id [OF rng sid], where s = ?t] ids by (simp add: bump_revision_def)
  then show ?case by (auto simp: bump_revision_def)
qed

lemma command_without_import:
  "(\<And>name ws i. cmd \<noteq> ImportStoppedSession name ws i) \<Longrightarrow> imports_new_panes cmd c"
  by (cases cmd) auto

lemma command_ends:
  assumes c: "catalog_ok c" and rng: "fresh_supply c rng"
  shows "ends (run_command rng cmd expected c)
    (\<lambda>r c'. case r of Inl _ \<Rightarrow> c' = c
      | Inr _ \<Rightarrow> cat_revision c' = sat_inc (cat_revision c) \<and> (catalog_ok c' \<longleftrightarrow> imports_new_panes cmd c))"
proof (cases "imports_new_panes cmd c")
  case True
  then have "ends (run_command rng cmd expected c) (kept c)"
    using op_command.keeps [OF c] rng by (simp add: command_ready_def)
  with True show ?thesis by (cases "run_command rng cmd expected c") (auto simp: ends_def kept_def split: sum.splits)
next
  case False
  then obtain name ws i where cmd: "cmd = ImportStoppedSession name ws i"
    using command_without_import by blast
  have clash: "set (definition_pane_ids ws) \<inter> set (catalog_pane_ids c) \<noteq> {}" using False cmd by simp
  show ?thesis
    using import_ends [OF c rng, of name ws i expected] clash cmd
    by (cases "import_stopped_session rng name ws i expected c"; cases "fst (import_stopped_session rng name ws i expected c)")
      (auto simp: ends_def forget_def)
qed

section \<open>Properties\<close>

text \<open>
  C1. Every catalog the service can reach, from an empty start or a restart and through any
  sequence of client commands and completions, passes \<open>SessionCatalog::validate\<close>.
\<close>

theorem reachable_catalogs_validate:
  "catalog_reachable c \<Longrightarrow> catalog_validate c = Inr ()"
  by (simp add: catalog_validate_ok catalog_reachable_ok)

theorem reachable_catalogs_validate_witness: "catalog_validate example_catalog = Inr ()"
  by (rule reachable_catalogs_validate [OF example_reachable])

text \<open>
  The validation decides the declarative well-formedness of a catalog: bounds, keys that
  agree with their objects, unique window identifiers in a session, unique pane identifiers in
  the catalog, layout trees that hold exactly their window's panes. Its only error is
  \<open>InvalidCatalog\<close>.
\<close>

theorem catalog_validate_decides:
  "catalog_validate c = (if catalog_ok c then Inr () else Inl InvalidCatalog)"
  using catalog_validate_ok [of c] catalog_validate_err [of c]
  by (cases "catalog_validate c") auto

text \<open>
  C2. Every command, every import included, is atomic on a valid catalog. A refused one leaves
  the catalog as it was, errors found late in the handler included; an accepted one was sent at
  the current revision and advances it by one (saturating). The catalog it leaves is valid
  exactly when the command is not an import naming a pane the catalog already has: such an
  import is accepted and is the one mutation that breaks a valid catalog. (Identifiers drawn at
  random are new: \<open>fresh_supply\<close>.)
\<close>

theorem commands_are_atomic:
  assumes "catalog_ok c" "fresh_supply c rng"
  shows "case run_command rng cmd expected c of
      (Inl e, c') \<Rightarrow> c' = c
    | (Inr _, c') \<Rightarrow> expected = cat_revision c \<and> cat_revision c' = sat_inc expected \<and>
        (catalog_ok c' \<longleftrightarrow> imports_new_panes cmd c)"
  using command_ends [OF assms, of cmd expected] op_command.stale [of expected c rng cmd]
  by (cases "expected = cat_revision c") (auto simp: ends_def split: prod.splits sum.splits)

theorem commands_are_atomic_witness:
  "case run_command (example_draws [4, 5]) (ImportStoppedSession (lit ''Local'') clashing_import 0) 1 example_catalog of
      (Inl e, c') \<Rightarrow> c' = example_catalog
    | (Inr _, c') \<Rightarrow> 1 = cat_revision example_catalog \<and> cat_revision c' = sat_inc 1 \<and>
        (catalog_ok c' \<longleftrightarrow>
          imports_new_panes (ImportStoppedSession (lit ''Local'') clashing_import 0) example_catalog)"
  by (rule commands_are_atomic [OF example_catalog_ok example_fresh_import])

text \<open>
  Concurrent clients do not overwrite each other. When two clients send a command for the same
  revision and the first is accepted, the second is refused as stale and changes nothing. (The
  counter saturates: its last value is excluded.)
\<close>

theorem no_lost_update:
  assumes "catalog_ok c" "command_ready rng cmd c"
    and "run_command rng cmd expected c = (Inr (), c')" "expected \<noteq> - 1"
  shows "run_command rng' cmd' expected c' = (Inl (StaleRevision expected (sat_inc expected)), c')"
  by (rule writers.second_writer_is_stale [OF assms])

theorem no_lost_update_witness:
  "run_command [] (RemoveSession (example_id 1)) 1
      (snd (run_command [] (RenameSession (example_id 1) (lit ''x'')) 1 example_catalog)) =
    (Inl (StaleRevision 1 (sat_inc 1)),
      snd (run_command [] (RenameSession (example_id 1) (lit ''x'')) 1 example_catalog))"
proof (rule no_lost_update)
  show "catalog_ok example_catalog" by (rule example_catalog_ok)
  show "command_ready [] (RenameSession (example_id 1) (lit ''x'')) example_catalog" by code_simp
  show "run_command [] (RenameSession (example_id 1) (lit ''x'')) 1 example_catalog =
      (Inr (), snd (run_command [] (RenameSession (example_id 1) (lit ''x'')) 1 example_catalog))"
    by (rule fst_eq_pair)
      (simp add: rename_session_def example_catalog_eq catalog_eval cong: attempt_weak)
qed simp

text \<open>
  Splitting the focused pane and closing the new pane again gives back the sessions, windows,
  panes and layout order there were; the close is never refused.
\<close>

theorem split_then_close:
  assumes "catalog_ok c" "fresh_supply c rng" "split_focused rng sid axis expected c = (Inr k, c1)"
  shows "\<exists>c2. close_pane sid k (cat_revision c1) c1 = (Inr (), c2) \<and> catalog_view c2 = catalog_view c"
proof -
  obtain s i p rng' root where s: "bt_get (cat_sessions c) sid = Some s" "i < length (se_windows s)"
    and n: "new_id rng = (Inr k, rng')"
    and split: "sln_split (sw_root (se_windows s ! i)) (sw_focused_pane (se_windows s ! i)) k axis = (True, root)"
    and c1: "c1 = commit_window c sid s i ((se_windows s ! i)\<lparr>sw_root := root,
       sw_panes := bt_insert k (copy_pane k p) (sw_panes (se_windows s ! i)), sw_focused_pane := k\<rparr>)"
    by (rule split_focused_ok [OF assms(3)])
  have "k \<notin> set (catalog_pane_ids c)" by (rule new_pane_id [OF assms(2) n])
  from close_new_pane [OF assms(1) s this split, of p] op_split_focused.accepted(3) [OF assms]
  show ?thesis by (simp add: c1)
qed

theorem split_then_close_witness:
  "\<exists>c2. close_pane (example_id 1) (example_id 4)
      (cat_revision (snd (split_focused (example_draws [4, 5, 6]) (example_id 1) Horizontal 1 example_catalog)))
      (snd (split_focused (example_draws [4, 5, 6]) (example_id 1) Horizontal 1 example_catalog)) = (Inr (), c2) \<and>
    catalog_view c2 = catalog_view example_catalog"
  by (rule split_then_close [OF example_catalog_ok example_fresh fst_eq_pair [OF example_split]])

text \<open>
  A duplicated window is appended to its session and activated. It is the source window under
  an injective renaming of the panes (same layout, ratios, focus, directories and sizes), every
  copied pane stopped at generation zero; nothing else of the session changes but its revision.
\<close>

theorem duplicate_window_copies:
  assumes "catalog_ok c" "fresh_supply c rng" "duplicate_window rng sid wid expected c = (Inr n, c')"
  shows "\<exists>s w w' f. bt_get (cat_sessions c) sid = Some s \<and> w \<in> set (se_windows s) \<and> sw_id w = wid \<and>
    sw_id w' = n \<and> window_copy f w w' \<and>
    bt_get (cat_sessions c') sid = Some (s\<lparr>se_windows := se_windows s @ [w'], se_active_window := n,
      se_revision := sat_inc (se_revision s)\<rparr>)"
proof -
  obtain s w w' f where r: "bt_get (cat_sessions c) sid = Some s" "w \<in> set (se_windows s)" "sw_id w = wid"
    "sw_id w' = n" "window_copy f w w'"
    "c' = commit_session c sid (s\<lparr>se_windows := se_windows s @ [w'], se_active_window := n\<rparr>)"
    by (rule duplicate_window_ok [OF assms(3,1,2)])
  then show ?thesis
    by (intro exI [of _ s] exI [of _ w] exI [of _ w'] exI [of _ f])
      (simp add: commit_session_def bump_revision_def)
qed

theorem duplicate_window_copies_witness:
  "\<exists>s w w' f. bt_get (cat_sessions example_catalog) (example_id 1) = Some s \<and> w \<in> set (se_windows s) \<and>
    sw_id w = example_id 2 \<and> sw_id w' = example_id 4 \<and> window_copy f w w' \<and>
    bt_get (cat_sessions (snd (duplicate_window (example_draws [4, 5, 6]) (example_id 1) (example_id 2) 1
      example_catalog))) (example_id 1) =
      Some (s\<lparr>se_windows := se_windows s @ [w'], se_active_window := example_id 4,
        se_revision := sat_inc (se_revision s)\<rparr>)"
  by (rule duplicate_window_copies [OF example_catalog_ok example_fresh fst_eq_pair])
    (simp add: duplicate_window_def example_catalog_eq catalog_eval sat_add_usize_def cong: attempt_weak with_new_id_weak)

text \<open>
  A duplicated session is a new, active session whose windows are, one for one, renamed copies
  of the source's windows with the corresponding window active; the source and every other session
  are untouched.
\<close>

theorem duplicate_session_copies:
  assumes "catalog_ok c" "fresh_supply c rng" "duplicate_session rng sid expected c = (Inr n, c')"
  shows "cat_active_session c' = Some n \<and> bt_get (cat_sessions c) n = None \<and>
    (\<exists>s t. bt_get (cat_sessions c) sid = Some s \<and> bt_get (cat_sessions c') sid = Some s \<and>
      bt_get (cat_sessions c') n = Some t \<and> se_id t = n \<and> session_twin s t) \<and>
    bt_remove n (cat_sessions c') = bt_remove n (cat_sessions c)"
proof -
  obtain s t where r: "bt_get (cat_sessions c) sid = Some s" "bt_get (cat_sessions c') n = Some t"
    "se_id t = n" "session_twin s t" "cat_active_session c' = Some n" "sid \<noteq> n"
    "\<forall>k. k \<noteq> n \<longrightarrow> bt_get (cat_sessions c') k = bt_get (cat_sessions c) k" "bt_get (cat_sessions c) n = None"
    by (rule duplicate_session_ok [OF assms(3,1,2)])
  have "bt_remove n (cat_sessions c') = bt_remove n (cat_sessions c)"
    by (rule bt_eqI) (simp add: r(7))
  with r show ?thesis by auto
qed

theorem duplicate_session_copies_witness:
  "let c' = snd (duplicate_session (example_draws [4, 5, 6]) (example_id 1) 1 example_catalog) in
    cat_active_session c' = Some (example_id 4) \<and>
    bt_get (cat_sessions example_catalog) (example_id 4) = None \<and>
    (\<exists>s t. bt_get (cat_sessions example_catalog) (example_id 1) = Some s \<and>
      bt_get (cat_sessions c') (example_id 1) = Some s \<and> bt_get (cat_sessions c') (example_id 4) = Some t \<and>
      se_id t = example_id 4 \<and> session_twin s t) \<and>
    bt_remove (example_id 4) (cat_sessions c') = bt_remove (example_id 4) (cat_sessions example_catalog)"
  unfolding Let_def
  by (rule duplicate_session_copies [OF example_catalog_ok example_fresh fst_eq_pair])
    (simp add: duplicate_session_def example_catalog_eq catalog_eval sat_add_usize_def cong: attempt_weak with_new_id_weak)

text \<open>
  The clone written for a service restart is valid, is its own stopped clone, and holds every
  pane where it was, stopped and at generation zero.
\<close>

theorem stopped_clone_restarts:
  assumes "stopped_clone c = Inr c'"
  shows "catalog_validate c' = Inr () \<and> stopped_clone c' = Inr c' \<and>
    catalog_pane c' k = map_option (\<lambda>(sid, wid, p). (sid, wid, stop_pane p)) (catalog_pane c k)"
proof -
  have c: "catalog_ok c" and c': "c' = c\<lparr>cat_sessions := bt_map (\<lambda>_. stop_session) (cat_sessions c)\<rparr>"
    using assms by (simp_all add: stopped_clone_ok)
  have ok: "catalog_ok c'" unfolding c' by (rule catalog_ok_stop [OF c])
  have "c'\<lparr>cat_sessions := bt_map (\<lambda>_. stop_session) (cat_sessions c')\<rparr> = c'"
    by (simp add: c' bt_map_cong_idem)
  then have "stopped_clone c' = Inr c'" using ok by (simp add: stopped_clone_ok)
  then show ?thesis using ok by (simp add: catalog_validate_ok) (simp add: c' catalog_pane_stop)
qed

theorem stopped_clone_restarts_witness:
  "let c' = example_catalog\<lparr>cat_sessions := bt_map (\<lambda>_. stop_session) (cat_sessions example_catalog)\<rparr> in
    catalog_validate c' = Inr () \<and> stopped_clone c' = Inr c' \<and>
    catalog_pane c' (example_id 3) =
      map_option (\<lambda>(sid, wid, p). (sid, wid, stop_pane p)) (catalog_pane example_catalog (example_id 3))"
  unfolding Let_def
  by (rule stopped_clone_restarts [of example_catalog]) (simp add: stopped_clone_ok example_catalog_ok)

text \<open>
  C11. After a pane starts a new generation, a completion of any other generation answers
  \<open>false\<close> and changes nothing, and a completion of this one is recorded on the pane.
\<close>

theorem only_the_current_generation_completes:
  assumes "catalog_ok c" "begin_pane_generation sid k rows cols expected c = (Inr g, c1)"
  shows "(g' \<noteq> g \<longrightarrow> set_generation_lifecycle sid k g' l c1 = (Inr False, c1)) \<and>
    fst (set_generation_lifecycle sid k g l c1) = Inr True \<and>
    (\<exists>wid p. catalog_pane (snd (set_generation_lifecycle sid k g l c1)) k = Some (sid, wid, p) \<and>
      sp_generation p = g \<and> sp_lifecycle p = l)"
proof -
  obtain s i p where p: "bt_get (cat_sessions c1) sid = Some s" "window_of_pane s k = Inr i"
    "i < length (se_windows s)" "bt_get (sw_panes (se_windows s ! i)) k = Some p" "sp_generation p = g"
    by (rule begin_pane_generation_ok [OF assms(2)])
  have "catalog_ok c1" using op_begin_pane_generation.accepted(3) [OF assms(1) _ assms(2)] by simp
  note c2 = completion_ok [OF this, of sid k g l]
  obtain wid q where "fst (set_generation_lifecycle sid k g l c1) = Inr True"
    "holds_pane (snd (set_generation_lifecycle sid k g l c1)) sid wid k q" "sp_generation q = g" "sp_lifecycle q = l"
    by (rule completion_recorded [OF p])
  then show ?thesis
    using set_generation_lifecycle_at [OF p(1,2,4), of g' l] p(5) by (auto simp: catalog_pane_holds [OF c2])
qed

lemma example_begin:
  "fst (begin_pane_generation (example_id 1) (example_id 3) 30 100 1 example_catalog) = Inr 1"
  by (simp add: begin_pane_generation_def example_catalog_eq catalog_eval cong: attempt_weak)

theorem only_the_current_generation_completes_witness:
  "let c1 = snd (begin_pane_generation (example_id 1) (example_id 3) 30 100 1 example_catalog) in
    (0 \<noteq> (1::u64) \<longrightarrow> set_generation_lifecycle (example_id 1) (example_id 3) 0 Running c1 = (Inr False, c1)) \<and>
    fst (set_generation_lifecycle (example_id 1) (example_id 3) 1 Running c1) = Inr True \<and>
    (\<exists>wid p. catalog_pane (snd (set_generation_lifecycle (example_id 1) (example_id 3) 1 Running c1)) (example_id 3) =
        Some (example_id 1, wid, p) \<and> sp_generation p = 1 \<and> sp_lifecycle p = Running)"
  unfolding Let_def
  by (rule only_the_current_generation_completes [OF example_catalog_ok fst_eq_pair [OF example_begin]])

text \<open>
  In a valid catalog a lookup returns a session, a window and a pane exactly when that window
  of that session holds the pane: there is one place for a pane, and the search finds it.
\<close>

theorem catalog_pane_finds:
  assumes "catalog_ok c"
  shows "catalog_pane c k = Some (sid, wid, p) \<longleftrightarrow> holds_pane c sid wid k p"
  by (rule catalog_pane_holds [OF assms])

theorem catalog_pane_finds_witness:
  "catalog_pane example_catalog (example_id 3) = Some (example_id 1, example_id 2, stopped_pane (example_id 3) (lit ''/work'')) \<longleftrightarrow>
    holds_pane example_catalog (example_id 1) (example_id 2) (example_id 3) (stopped_pane (example_id 3) (lit ''/work''))"
  by (rule catalog_pane_finds [OF example_catalog_ok])

text \<open>
  Importing a session checks its pane identifiers against each other only. An import that
  names a pane the catalog already has is accepted, and leaves a catalog that fails its own
  validation. (The one caller in the repository imports into an empty catalog.)
\<close>

theorem import_can_break_the_catalog:
  "case import_stopped_session (example_draws [4, 5]) (lit ''Local'') clashing_import 0 1 example_catalog of
     (r, c') \<Rightarrow> catalog_validate example_catalog = Inr () \<and> r = Inr (example_id 4) \<and>
       catalog_validate c' = Inl InvalidCatalog"
proof -
  have "import_stopped_session (example_draws [4, 5]) (lit ''Local'') clashing_import 0 1 example_catalog =
    (Inr (example_id 4), snd (import_stopped_session (example_draws [4, 5]) (lit ''Local'') clashing_import 0 1 example_catalog))"
    by (rule fst_eq_pair)
      (simp add: import_stopped_session_def clashing_import_def example_catalog_eq catalog_eval
        sat_add_usize_def cong: attempt_weak with_new_id_weak)
  moreover have "\<not> catalog_ok (snd (import_stopped_session (example_draws [4, 5]) (lit ''Local'') clashing_import 0 1 example_catalog))"
    by (simp add: import_stopped_session_def clashing_import_def example_catalog_eq catalog_eval
        sat_add_usize_def catalog_ok_def catalog_pane_ids_def session_pane_ids_def window_pane_ids_def
        cong: attempt_weak with_new_id_weak)
  ultimately show ?thesis
    using example_catalog_ok catalog_validate_ok catalog_validate_err
    by (cases "catalog_validate (snd (import_stopped_session (example_draws [4, 5]) (lit ''Local'') clashing_import 0 1 example_catalog))")
      (auto split: prod.splits)
qed

end
