(* ===== verification/EditBuffer.thy ===== *)
theory EditBuffer imports RustText "HOL-Library.Monad_Syntax" "HOL-Library.Product_Lexorder" "HOL-Library.Multiset" begin

text \<open>
  The text buffer of strukt-editor (\<open>position.rs\<close>, \<open>transaction.rs\<close>, \<open>buffer.rs\<close>): transactions of
  ordered replacements, their atomic application with the inverse it returns, line endings.
  The rope is the third-party crate ropey: the operations the buffer calls are a parameter, with
  the behaviour its documentation states as the predicate \<open>rope_laws\<close>. A step that can panic
  returns an option, \<open>None\<close> being the panic.
\<close>

section \<open>Ranges, replacements, transactions\<close>

record char_range =
  cr_start :: nat
  cr_end :: nat

datatype transaction_error =
    InvalidRange nat nat
  | OverlappingRanges
  | RangeOutOfBounds nat nat
  | StaleBuffer u64 u64
  | RevisionExhausted

definition char_range_new :: "nat \<Rightarrow> nat \<Rightarrow> transaction_error + char_range" where
  "char_range_new start end' =
     (if start > end' then Inl (InvalidRange start end') else Inr \<lparr>cr_start = start, cr_end = end'\<rparr>)"

text \<open>\<open>Revision::next\<close>.\<close>

definition revision_next :: "u64 \<Rightarrow> transaction_error + u64" where
  "revision_next r = (if r = - 1 then Inl RevisionExhausted else Inr (r + 1))"

record replacement =
  rp_range :: char_range
  rp_text :: rust_string

abbreviation rp_start :: "replacement \<Rightarrow> nat" where "rp_start r \<equiv> cr_start (rp_range r)"
abbreviation rp_end :: "replacement \<Rightarrow> nat" where "rp_end r \<equiv> cr_end (rp_range r)"

definition replacement_new :: "char_range \<Rightarrow> rust_string \<Rightarrow> replacement" where
  "replacement_new r text = \<lparr>rp_range = r, rp_text = text\<rparr>"

record edit_transaction =
  et_expected :: u64
  et_replacements :: "replacement list"

text \<open>\<open>replacements.windows(2).any(..)\<close>.\<close>

fun overlapping :: "replacement list \<Rightarrow> bool" where
  "overlapping (a # b # rest) \<longleftrightarrow> rp_start b < rp_end a \<or> overlapping (b # rest)"
| "overlapping _ \<longleftrightarrow> False"

definition edit_transaction_new :: "u64 \<Rightarrow> replacement list \<Rightarrow> transaction_error + edit_transaction" where
  "edit_transaction_new expected replacements =
     (let replacements = sort_key (\<lambda>r. (rp_start r, rp_end r)) replacements in
      if overlapping replacements then Inl OverlappingRanges
      else Inr \<lparr>et_expected = expected, et_replacements = replacements\<rparr>)"

definition edit_transaction_insert :: "u64 \<Rightarrow> nat \<Rightarrow> rust_string \<Rightarrow> edit_transaction" where
  "edit_transaction_insert expected at text =
     \<lparr>et_expected = expected,
      et_replacements = [replacement_new \<lparr>cr_start = at, cr_end = at\<rparr> text]\<rparr>"

record applied_transaction =
  at_revision :: u64
  at_inverse :: edit_transaction
  at_inserted_bytes :: nat
  at_removed_bytes :: nat

section \<open>The rope\<close>

record 'r rope_ops =
  rope_from_str :: "rust_string \<Rightarrow> 'r"
  rope_len_chars :: "'r \<Rightarrow> nat"
  rope_slice :: "'r \<Rightarrow> nat \<Rightarrow> nat \<Rightarrow> rust_string option"
  rope_remove :: "'r \<Rightarrow> nat \<Rightarrow> nat \<Rightarrow> 'r option"
  rope_insert :: "'r \<Rightarrow> nat \<Rightarrow> rust_string \<Rightarrow> 'r option"
  rope_to_string :: "'r \<Rightarrow> rust_string"

text \<open>
  The documented behaviour of the six operations: indices are in characters, a slice or a removal
  panics when its start exceeds its end or its end exceeds the length, an insertion panics past
  the end.
\<close>

definition rope_laws :: "'r rope_ops \<Rightarrow> bool" where
  "rope_laws R \<longleftrightarrow>
     (\<forall>s. rope_to_string R (rope_from_str R s) = s) \<and>
     (\<forall>r. rope_len_chars R r = length (rope_to_string R r)) \<and>
     (\<forall>r a b. rope_slice R r a b =
        (if a \<le> b \<and> b \<le> length (rope_to_string R r) then Some (take (b - a) (drop a (rope_to_string R r)))
         else None)) \<and>
     (\<forall>r a b. map_option (rope_to_string R) (rope_remove R r a b) =
        (if a \<le> b \<and> b \<le> length (rope_to_string R r)
         then Some (take a (rope_to_string R r) @ drop b (rope_to_string R r)) else None)) \<and>
     (\<forall>r a s. map_option (rope_to_string R) (rope_insert R r a s) =
        (if a \<le> length (rope_to_string R r)
         then Some (take a (rope_to_string R r) @ s @ drop a (rope_to_string R r)) else None))"

text \<open>A rope that is its text, for evaluation on concrete inputs.\<close>

definition list_rope :: "rust_string rope_ops" where
  "list_rope =
     \<lparr>rope_from_str = (\<lambda>s. s), rope_len_chars = length,
      rope_slice = (\<lambda>r a b. if a \<le> b \<and> b \<le> length r then Some (take (b - a) (drop a r)) else None),
      rope_remove = (\<lambda>r a b. if a \<le> b \<and> b \<le> length r then Some (take a r @ drop b r) else None),
      rope_insert = (\<lambda>r a s. if a \<le> length r then Some (take a r @ s @ drop a r) else None),
      rope_to_string = (\<lambda>r. r)\<rparr>"

lemma list_rope_laws: "rope_laws list_rope"
  by (simp add: rope_laws_def list_rope_def)

section \<open>The buffer\<close>

datatype line_ending = NoEnding | Lf | CrLf | Mixed

fun count_crlf :: "rust_string \<Rightarrow> nat" where
  "count_crlf (a # b # rest) =
     (if a = 13 \<and> b = 10 then Suc (count_crlf rest) else count_crlf (b # rest))"
| "count_crlf _ = 0"

definition detect_line_ending :: "rust_string \<Rightarrow> line_ending" where
  "detect_line_ending text =
     (let crlf = count_crlf text; lf = length (filter ((=) 10) text) - crlf in
      if crlf = 0 \<and> lf = 0 then NoEnding
      else if crlf = 0 then Lf
      else if lf = 0 then CrLf
      else Mixed)"

record 'r text_buffer =
  tb_text :: 'r
  tb_revision :: u64
  tb_line_ending :: line_ending

definition text_buffer_new :: "'r rope_ops \<Rightarrow> rust_string \<Rightarrow> 'r text_buffer" where
  "text_buffer_new R text =
     \<lparr>tb_text = rope_from_str R text, tb_revision = 0, tb_line_ending = detect_line_ending text\<rparr>"

definition buffer_string :: "'r rope_ops \<Rightarrow> 'r text_buffer \<Rightarrow> rust_string" where
  "buffer_string R b = rope_to_string R (tb_text b)"

text \<open>\<open>usize::saturating_add_signed\<close>; the signed sum of character counts stays within \<open>isize\<close>.\<close>

definition saturating_add_signed :: "nat \<Rightarrow> int \<Rightarrow> nat" where
  "saturating_add_signed a d = nat (min (max (int a + d) 0) (2 ^ 64 - 1))"

text \<open>The first loop of \<open>apply\<close>: the inverse replacements and the byte counts.\<close>

fun inverse_loop ::
  "'r rope_ops \<Rightarrow> 'r \<Rightarrow> replacement list \<Rightarrow> int \<Rightarrow> nat \<Rightarrow> nat \<Rightarrow> (replacement list \<times> nat \<times> nat) option"
where
  "inverse_loop R rope [] char_delta inserted_bytes removed_bytes =
     Some ([], inserted_bytes, removed_bytes)"
| "inverse_loop R rope (r # rs) char_delta inserted_bytes removed_bytes = do {
     removed \<leftarrow> rope_slice R rope (rp_start r) (rp_end r);
     let inserted_chars = length (rp_text r);
     let final_start = saturating_add_signed (rp_start r) char_delta;
     let undone = replacement_new \<lparr>cr_start = final_start, cr_end = final_start + inserted_chars\<rparr> removed;
     (invs, ins, rem) \<leftarrow>
       inverse_loop R rope rs (char_delta + int inserted_chars - int (rp_end r - rp_start r))
         (inserted_bytes + str_len (rp_text r)) (removed_bytes + str_len removed);
     Some (undone # invs, ins, rem)
   }"

text \<open>The second loop, over the replacements from the last to the first.\<close>

fun replace_loop :: "'r rope_ops \<Rightarrow> replacement list \<Rightarrow> 'r \<Rightarrow> 'r option" where
  "replace_loop R [] rope = Some rope"
| "replace_loop R (r # rs) rope = do {
     rope \<leftarrow> rope_remove R rope (rp_start r) (rp_end r);
     rope \<leftarrow> rope_insert R rope (rp_start r) (rp_text r);
     replace_loop R rs rope
   }"

definition buffer_apply ::
  "'r rope_ops \<Rightarrow> edit_transaction \<Rightarrow> 'r text_buffer \<Rightarrow>
     ((transaction_error + applied_transaction) \<times> 'r text_buffer) option"
where
  "buffer_apply R tx b =
     (let replacements = et_replacements tx; char_len = rope_len_chars R (tb_text b) in
      if et_expected tx \<noteq> tb_revision b
      then Some (Inl (StaleBuffer (tb_revision b) (et_expected tx)), b)
      else case find (\<lambda>e. e > char_len) (map rp_end replacements) of
        Some e \<Rightarrow> Some (Inl (RangeOutOfBounds e char_len), b)
      | None \<Rightarrow>
        (case revision_next (tb_revision b) of
           Inl e \<Rightarrow> Some (Inl e, b)
         | Inr next_revision \<Rightarrow> do {
             (undos, inserted_bytes, removed_bytes) \<leftarrow>
               inverse_loop R (tb_text b) replacements 0 0 0;
             rope \<leftarrow> replace_loop R (rev replacements) (tb_text b);
             let b' = b\<lparr>tb_text := rope, tb_revision := next_revision,
                       tb_line_ending := detect_line_ending (rope_to_string R rope)\<rparr>;
             Some (case edit_transaction_new next_revision undos of
                 Inl e \<Rightarrow> (Inl e, b')
               | Inr back \<Rightarrow>
                   (Inr \<lparr>at_revision = next_revision, at_inverse = back,
                         at_inserted_bytes = inserted_bytes, at_removed_bytes = removed_bytes\<rparr>, b'))
           }))"

section \<open>What a transaction means\<close>

text \<open>
  The abstract edit: the replacements cut the text into kept and replaced pieces. \<open>ordered_from\<close>
  says the ranges come in order, do not overlap, and end within the text.
\<close>

fun ordered_from :: "nat \<Rightarrow> replacement list \<Rightarrow> nat \<Rightarrow> bool" where
  "ordered_from pos [] len \<longleftrightarrow> pos \<le> len"
| "ordered_from pos (r # rs) len \<longleftrightarrow> pos \<le> rp_start r \<and> rp_start r \<le> rp_end r \<and> ordered_from (rp_end r) rs len"

fun spliced :: "nat \<Rightarrow> replacement list \<Rightarrow> rust_string \<Rightarrow> rust_string" where
  "spliced pos [] t = drop pos t"
| "spliced pos (r # rs) t = take (rp_start r - pos) (drop pos t) @ rp_text r @ spliced (rp_end r) rs t"

text \<open>The replacements that undo an edit: \<open>pos\<close> in the old text is \<open>pos'\<close> in the new one.\<close>

fun undo_of :: "nat \<Rightarrow> nat \<Rightarrow> replacement list \<Rightarrow> rust_string \<Rightarrow> replacement list" where
  "undo_of pos pos' [] t = []"
| "undo_of pos pos' (r # rs) t =
     (let start' = pos' + (rp_start r - pos) in
      \<lparr>rp_range = \<lparr>cr_start = start', cr_end = start' + length (rp_text r)\<rparr>,
       rp_text = take (rp_end r - rp_start r) (drop (rp_start r) t)\<rparr>
      # undo_of (rp_end r) (start' + length (rp_text r)) rs t)"

lemma ordered_from_le: "ordered_from pos rs len \<Longrightarrow> pos \<le> len"
  by (induction rs arbitrary: pos) (auto, meson le_trans)

lemma ordered_from_weaken: "ordered_from pos rs len \<Longrightarrow> pos' \<le> pos \<Longrightarrow> ordered_from pos' rs len"
  by (cases rs) auto

lemma length_splice:
  "ordered_from pos rs (length t) \<Longrightarrow>
    length (spliced pos rs t) + (\<Sum>r \<leftarrow> rs. rp_end r - rp_start r) + pos = length t + (\<Sum>r \<leftarrow> rs. length (rp_text r))"
proof (induction rs arbitrary: pos)
  case Nil
  then show ?case by simp
next
  case (Cons r rs)
  then have "rp_end r \<le> length t" using ordered_from_le by auto
  with Cons.prems Cons.IH [of "rp_end r"] show ?case by auto
qed

lemma undo_splice:
  assumes "ordered_from pos rs (length t)"
  shows "spliced (length pre) (undo_of pos (length pre) rs t) (pre @ spliced pos rs t) = drop pos t"
  using assms
proof (induction rs arbitrary: pos pre)
  case Nil
  then show ?case by simp
next
  case (Cons r rs)
  let ?kept = "take (rp_start r - pos) (drop pos t)"
  have le: "pos \<le> rp_start r" "rp_start r \<le> rp_end r" "rp_end r \<le> length t"
    and rest: "ordered_from (rp_end r) rs (length t)"
    using Cons.prems ordered_from_le by auto
  have kept: "length ?kept = rp_start r - pos" using le by simp
  have "spliced (length (pre @ ?kept @ rp_text r))
      (undo_of (rp_end r) (length (pre @ ?kept @ rp_text r)) rs t)
      ((pre @ ?kept @ rp_text r) @ spliced (rp_end r) rs t) = drop (rp_end r) t"
    by (rule Cons.IH [OF rest])
  moreover have "?kept @ take (rp_end r - rp_start r) (drop (rp_start r) t) @ drop (rp_end r) t = drop pos t"
    using le by (metis append_take_drop_id drop_drop le_add_diff_inverse2 append_assoc)
  ultimately show ?case using kept by (simp add: Let_def add.assoc)
qed

lemma undo_ordered:
  assumes "ordered_from pos rs (length t)"
  shows "ordered_from (length pre) (undo_of pos (length pre) rs t) (length (pre @ spliced pos rs t))"
  using assms
proof (induction rs arbitrary: pos pre)
  case Nil
  then show ?case by simp
next
  case (Cons r rs)
  let ?kept = "take (rp_start r - pos) (drop pos t)"
  have le: "pos \<le> rp_start r" "rp_start r \<le> rp_end r" "rp_end r \<le> length t"
    and rest: "ordered_from (rp_end r) rs (length t)"
    using Cons.prems ordered_from_le by auto
  have kept: "length ?kept = rp_start r - pos" using le by simp
  have "ordered_from (length (pre @ ?kept @ rp_text r))
      (undo_of (rp_end r) (length (pre @ ?kept @ rp_text r)) rs t)
      (length ((pre @ ?kept @ rp_text r) @ spliced (rp_end r) rs t))"
    by (rule Cons.IH [OF rest])
  then show ?case using kept by (simp add: Let_def add.assoc)
qed

section \<open>The constructor\<close>

lemma overlapping_ordered:
  assumes "\<not> overlapping rs" "\<forall>r \<in> set rs. rp_start r \<le> rp_end r \<and> rp_end r \<le> len" "pos \<le> len"
    "rs \<noteq> [] \<longrightarrow> pos \<le> rp_start (hd rs)"
  shows "ordered_from pos rs len"
  using assms
proof (induction rs arbitrary: pos)
  case Nil
  then show ?case by simp
next
  case (Cons r rs)
  have "ordered_from (rp_end r) rs len"
    by (rule Cons.IH) (use Cons.prems in \<open>cases rs; auto\<close>)+
  with Cons.prems show ?case by simp
qed

lemma ordered_from_in: "ordered_from pos rs len \<Longrightarrow> r \<in> set rs \<Longrightarrow> rp_start r \<le> rp_end r \<and> rp_end r \<le> len"
proof (induction rs arbitrary: pos)
  case Nil
  then show ?case by simp
next
  case (Cons a rs)
  then show ?case using ordered_from_le by (cases "r = a") auto
qed

lemma ordered_not_overlapping: "ordered_from pos rs len \<Longrightarrow> \<not> overlapping rs"
proof (induction rs arbitrary: pos)
  case (Cons a rs)
  then show ?case by (cases rs) auto
qed simp

lemma ordered_from_start: "ordered_from pos rs len \<Longrightarrow> r \<in> set rs \<Longrightarrow> pos \<le> rp_start r"
proof (induction rs arbitrary: pos)
  case (Cons a rs)
  then show ?case by (cases "r = a") (auto intro: le_trans)
qed simp

lemma ordered_sorted: "ordered_from pos rs len \<Longrightarrow> sorted (map (\<lambda>r. (rp_start r, rp_end r)) rs)"
proof (induction rs arbitrary: pos)
  case (Cons a rs)
  then have rest: "ordered_from (rp_end a) rs len" and le: "rp_start a \<le> rp_end a" by simp_all
  have "(rp_start a, rp_end a) \<le> (rp_start r, rp_end r)" if "r \<in> set rs" for r
    using ordered_from_start [OF rest that] ordered_from_in [OF rest that] le
    by (auto simp: less_eq_prod_def)
  with Cons.IH [OF rest] show ?case by simp
qed simp

lemma edit_transaction_new_ordered:
  assumes "ordered_from pos rs len"
  shows "edit_transaction_new v rs = Inr \<lparr>et_expected = v, et_replacements = rs\<rparr>"
  using ordered_sorted [OF assms] ordered_not_overlapping [OF assms]
  by (simp add: edit_transaction_new_def sort_key_id_if_sorted Let_def)

lemma edit_transaction_new_ok:
  assumes "edit_transaction_new v rs = Inr tx" "\<forall>r \<in> set rs. rp_start r \<le> rp_end r \<and> rp_end r \<le> len"
  shows "ordered_from 0 (et_replacements tx) len" "et_expected tx = v"
    "mset (et_replacements tx) = mset rs"
proof -
  let ?rs = "sort_key (\<lambda>r. (rp_start r, rp_end r)) rs"
  have tx: "tx = \<lparr>et_expected = v, et_replacements = ?rs\<rparr>" "\<not> overlapping ?rs"
    using assms(1) by (auto simp: edit_transaction_new_def Let_def split: if_splits)
  then show "ordered_from 0 (et_replacements tx) len"
    using overlapping_ordered [of ?rs len 0] assms(2) by simp
  show "et_expected tx = v" "mset (et_replacements tx) = mset rs" using tx(1) by simp_all
qed

section \<open>Applying\<close>

lemma rope_law:
  assumes "rope_laws R"
  shows "rope_to_string R (rope_from_str R s) = s"
    "rope_len_chars R r = length (rope_to_string R r)"
    "rope_slice R r a b = (if a \<le> b \<and> b \<le> length (rope_to_string R r)
      then Some (take (b - a) (drop a (rope_to_string R r))) else None)"
  using assms by (auto simp: rope_laws_def)

lemma rope_remove_law:
  assumes "rope_laws R" "a \<le> b" "b \<le> length (rope_to_string R r)"
  obtains r' where "rope_remove R r a b = Some r'"
    "rope_to_string R r' = take a (rope_to_string R r) @ drop b (rope_to_string R r)"
proof -
  have "map_option (rope_to_string R) (rope_remove R r a b) =
      Some (take a (rope_to_string R r) @ drop b (rope_to_string R r))"
    using assms by (simp add: rope_laws_def)
  then show ?thesis using that by auto
qed

lemma rope_insert_law:
  assumes "rope_laws R" "a \<le> length (rope_to_string R r)"
  obtains r' where "rope_insert R r a s = Some r'"
    "rope_to_string R r' = take a (rope_to_string R r) @ s @ drop a (rope_to_string R r)"
proof -
  have "map_option (rope_to_string R) (rope_insert R r a s) =
      Some (take a (rope_to_string R r) @ s @ drop a (rope_to_string R r))"
    using assms by (simp add: rope_laws_def)
  then show ?thesis using that by auto
qed

lemma replace_loop_append:
  "replace_loop R (xs @ ys) rope = Option.bind (replace_loop R xs rope) (replace_loop R ys)"
  by (induction xs arbitrary: rope) (auto split: Option.bind_splits)

lemma replace_loop_splice:
  assumes R: "rope_laws R" and "ordered_from pos rs (length (rope_to_string R rope))"
  shows "\<exists>rope'. replace_loop R (rev rs) rope = Some rope' \<and>
    rope_to_string R rope' = take pos (rope_to_string R rope) @ spliced pos rs (rope_to_string R rope)"
  using assms(2)
proof (induction rs arbitrary: pos)
  case Nil
  then show ?case by simp
next
  case (Cons r rs)
  let ?t = "rope_to_string R rope"
  have le: "pos \<le> rp_start r" "rp_start r \<le> rp_end r" "rp_end r \<le> length ?t"
    and rest: "ordered_from (rp_end r) rs (length ?t)"
    using Cons.prems ordered_from_le by auto
  obtain r1 where r1: "replace_loop R (rev rs) rope = Some r1"
    "rope_to_string R r1 = take (rp_end r) ?t @ spliced (rp_end r) rs ?t" using Cons.IH [OF rest] by blast
  have "rp_end r \<le> length (rope_to_string R r1)" using r1(2) le(3) by simp
  from rope_remove_law [OF R le(2) this] obtain r2 where r2: "rope_remove R r1 (rp_start r) (rp_end r) = Some r2"
    "rope_to_string R r2 = take (rp_start r) ?t @ spliced (rp_end r) rs ?t"
    using r1(2) le by (auto simp: min_absorb1)
  have "rp_start r \<le> length (rope_to_string R r2)" using r2(2) le by simp
  from rope_insert_law [OF R this, of "rp_text r"] obtain r3 where r3: "rope_insert R r2 (rp_start r) (rp_text r) = Some r3"
    "rope_to_string R r3 = take (rp_start r) ?t @ rp_text r @ spliced (rp_end r) rs ?t"
    using r2(2) le by (auto simp: min_absorb1)
  have "take (rp_start r) ?t = take pos ?t @ take (rp_start r - pos) (drop pos ?t)"
    using le(1) by (metis le_add_diff_inverse take_add)
  with r1(1) r2(1) r3 show ?case by (simp add: replace_loop_append)
qed

lemma inverse_loop_undo:
  assumes R: "rope_laws R" and "ordered_from pos rs (length (rope_to_string R rope))"
    and "int pos + d = int pos'"
    and "pos' + length (spliced pos rs (rope_to_string R rope)) < 2 ^ 64"
  shows "\<exists>i r. inverse_loop R rope rs d a b =
    Some (undo_of pos pos' rs (rope_to_string R rope), a + i, b + r) \<and>
    i = (\<Sum>x \<leftarrow> rs. str_len (rp_text x)) \<and>
    r = (\<Sum>x \<leftarrow> rs. str_len (take (rp_end x - rp_start x) (drop (rp_start x) (rope_to_string R rope))))"
  using assms(2-)
proof (induction rs arbitrary: pos pos' d a b)
  case Nil
  then show ?case by simp
next
  case (Cons r rs)
  let ?t = "rope_to_string R rope"
  have le: "pos \<le> rp_start r" "rp_start r \<le> rp_end r" "rp_end r \<le> length ?t"
    and rest: "ordered_from (rp_end r) rs (length ?t)"
    using Cons.prems ordered_from_le by auto
  let ?start = "pos' + (rp_start r - pos)"
  have size: "?start + length (rp_text r) + length (spliced (rp_end r) rs ?t) < 2 ^ 64"
    using Cons.prems(3) le by simp
  have "int (rp_start r) + d = int ?start" using Cons.prems(2) le(1) by simp
  then have start: "saturating_add_signed (rp_start r) d = ?start"
    using size by (simp add: saturating_add_signed_def)
  have "int (rp_end r) + (d + int (length (rp_text r)) - int (rp_end r - rp_start r)) =
      int (?start + length (rp_text r))"
    using Cons.prems(2) le by simp
  from Cons.IH [OF rest this size, of "a + str_len (rp_text r)"
    "b + str_len (take (rp_end r - rp_start r) (drop (rp_start r) ?t))"]
  show ?case
    using le by (auto simp: rope_law [OF R] start replacement_new_def Let_def add.assoc)
qed

text \<open>A memory bound: texts and insertions together stay below half the address space.\<close>

definition edit_fits :: "rust_string \<Rightarrow> replacement list \<Rightarrow> bool" where
  "edit_fits t rs \<longleftrightarrow> length t + (\<Sum>r \<leftarrow> rs. length (rp_text r)) < 2 ^ 63"

lemma removed_le:
  "ordered_from pos rs (length t) \<Longrightarrow> (\<Sum>r \<leftarrow> rs. rp_end r - rp_start r) + pos \<le> length t"
proof (induction rs arbitrary: pos)
  case (Cons r rs)
  then have "(\<Sum>r \<leftarrow> rs. rp_end r - rp_start r) + rp_end r \<le> length t" by simp
  with Cons.prems show ?case by (simp, linarith)
qed simp

lemma spliced_fits:
  assumes "ordered_from 0 rs (length t)" "edit_fits t rs"
  shows "length (spliced 0 rs t) < 2 ^ 63"
  using length_splice [OF assms(1)] assms(2) by (simp add: edit_fits_def)

lemma undo_lengths:
  "ordered_from pos rs (length t) \<Longrightarrow>
    (\<Sum>r \<leftarrow> undo_of pos pos' rs t. length (rp_text r)) = (\<Sum>r \<leftarrow> rs. rp_end r - rp_start r)"
proof (induction rs arbitrary: pos pos')
  case (Cons r rs)
  then have "rp_end r \<le> length t" using ordered_from_le by auto
  with Cons show ?case by (simp add: Let_def min_absorb2)
qed simp

lemma buffer_apply_ordered:
  assumes R: "rope_laws R" and o: "ordered_from 0 (et_replacements tx) (length (buffer_string R b))"
    and rev: "et_expected tx = tb_revision b" "tb_revision b \<noteq> - 1"
    and small: "length (spliced 0 (et_replacements tx) (buffer_string R b)) < 2 ^ 64"
  defines "rs \<equiv> et_replacements tx" and "t \<equiv> buffer_string R b"
  obtains b' where "buffer_apply R tx b = Some (Inr
      \<lparr>at_revision = tb_revision b + 1,
       at_inverse = \<lparr>et_expected = tb_revision b + 1, et_replacements = undo_of 0 0 rs t\<rparr>,
       at_inserted_bytes = (\<Sum>x \<leftarrow> rs. str_len (rp_text x)),
       at_removed_bytes = (\<Sum>x \<leftarrow> rs. str_len (take (rp_end x - rp_start x) (drop (rp_start x) t)))\<rparr>, b')"
    "buffer_string R b' = spliced 0 rs t" "tb_revision b' = tb_revision b + 1"
    "tb_line_ending b' = detect_line_ending (spliced 0 rs t)"
proof -
  have o': "ordered_from 0 rs (length (rope_to_string R (tb_text b)))" using o by (simp add: rs_def buffer_string_def)
  have t: "t = rope_to_string R (tb_text b)" by (simp add: t_def buffer_string_def)
  have inb: "find (\<lambda>e. e > rope_len_chars R (tb_text b)) (map rp_end rs) = None"
    using ordered_from_in [OF o'] by (auto simp: find_None_all rope_law [OF R] not_less)
  have "inverse_loop R (tb_text b) rs 0 0 0 = Some (undo_of 0 0 rs t,
      (\<Sum>x \<leftarrow> rs. str_len (rp_text x)),
      (\<Sum>x \<leftarrow> rs. str_len (take (rp_end x - rp_start x) (drop (rp_start x) t))))"
    using inverse_loop_undo [OF R o', of 0 0 0 0] small by (auto simp: t rs_def buffer_string_def)
  moreover obtain rope where rope: "replace_loop R (rev rs) (tb_text b) = Some rope" "rope_to_string R rope = spliced 0 rs t"
    using replace_loop_splice [OF R o'] by (auto simp: t)
  moreover have "edit_transaction_new (tb_revision b + 1) (undo_of 0 0 rs t) =
      Inr \<lparr>et_expected = tb_revision b + 1, et_replacements = undo_of 0 0 rs t\<rparr>"
    using undo_ordered [of 0 rs t "[]"] o' by (intro edit_transaction_new_ordered) (auto simp: t)
  ultimately show ?thesis
    using rev inb
    by (intro that [of "b\<lparr>tb_text := rope, tb_revision := tb_revision b + 1,
        tb_line_ending := detect_line_ending (spliced 0 rs t)\<rparr>"])
      (simp_all add: buffer_apply_def rs_def [symmetric] revision_next_def Let_def buffer_string_def)
qed

lemma buffer_apply_Inr:
  assumes "buffer_apply R tx b = Some (Inr a, b')"
  shows "et_expected tx = tb_revision b" "tb_revision b \<noteq> - 1"
    "\<forall>r \<in> set (et_replacements tx). rp_end r \<le> rope_len_chars R (tb_text b)"
proof -
  have "find (\<lambda>e. e > rope_len_chars R (tb_text b)) (map rp_end (et_replacements tx)) = None"
    using assms by (auto simp: buffer_apply_def Let_def split: if_splits option.splits)
  then show "\<forall>r \<in> set (et_replacements tx). rp_end r \<le> rope_len_chars R (tb_text b)"
    by (auto simp: find_None_all not_less)
  show "et_expected tx = tb_revision b" "tb_revision b \<noteq> - 1"
    using assms by (auto simp: buffer_apply_def revision_next_def Let_def split: if_splits option.splits)
qed

lemma buffer_apply_refusals:
  "et_expected tx \<noteq> tb_revision b \<Longrightarrow>
    buffer_apply R tx b = Some (Inl (StaleBuffer (tb_revision b) (et_expected tx)), b)"
  "et_expected tx = tb_revision b \<Longrightarrow>
    find (\<lambda>e. e > rope_len_chars R (tb_text b)) (map rp_end (et_replacements tx)) = Some e \<Longrightarrow>
    buffer_apply R tx b = Some (Inl (RangeOutOfBounds e (rope_len_chars R (tb_text b))), b)"
  "et_expected tx = tb_revision b \<Longrightarrow>
    find (\<lambda>e. e > rope_len_chars R (tb_text b)) (map rp_end (et_replacements tx)) = None \<Longrightarrow>
    tb_revision b = - 1 \<Longrightarrow> buffer_apply R tx b = Some (Inl RevisionExhausted, b)"
  by (simp_all add: buffer_apply_def Let_def revision_next_def)

definition valid_ranges :: "replacement list \<Rightarrow> bool" where
  "valid_ranges rs \<longleftrightarrow> list_all (\<lambda>r. rp_start r \<le> rp_end r) rs"

lemma built_ordered:
  assumes "edit_transaction_new v rs = Inr tx" "valid_ranges rs"
    and "\<forall>r \<in> set (et_replacements tx). rp_end r \<le> len"
  shows "ordered_from 0 (et_replacements tx) len"
proof -
  have tx: "et_replacements tx = sort_key (\<lambda>r. (rp_start r, rp_end r)) rs"
    using assms(1) by (auto simp: edit_transaction_new_def Let_def split: if_splits)
  with assms(2,3) have "\<forall>r \<in> set rs. rp_start r \<le> rp_end r \<and> rp_end r \<le> len"
    by (auto simp: valid_ranges_def list_all_iff)
  from edit_transaction_new_ok(1) [OF assms(1) this] show ?thesis .
qed

lemma built_transaction:
  assumes "edit_transaction_new v rs = Inr tx"
  shows "et_expected tx = v" "set (et_replacements tx) = set rs"
    "(\<Sum>q \<leftarrow> et_replacements tx. f q) = (\<Sum>q \<leftarrow> rs. f q :: nat)"
proof -
  have tx: "et_expected tx = v" "et_replacements tx = sort_key (\<lambda>r. (rp_start r, rp_end r)) rs"
    using assms by (auto simp: edit_transaction_new_def Let_def split: if_splits)
  then have "mset (et_replacements tx) = mset rs" by simp
  then show "(\<Sum>q \<leftarrow> et_replacements tx. f q) = (\<Sum>q \<leftarrow> rs. f q)"
    by (simp only: sum_mset_sum_list [symmetric] mset_map)
  show "et_expected tx = v" "set (et_replacements tx) = set rs" using tx by simp_all
qed

lemma edit_fits_built:
  "edit_transaction_new v rs = Inr tx \<Longrightarrow> edit_fits t (et_replacements tx) \<longleftrightarrow> edit_fits t rs"
  using built_transaction(3) [of v rs tx "\<lambda>q. length (rp_text q)"] by (simp add: edit_fits_def)

lemma str_len_spliced:
  "ordered_from pos rs (length t) \<Longrightarrow>
    str_len (spliced pos rs t) + (\<Sum>x \<leftarrow> rs. str_len (take (rp_end x - rp_start x) (drop (rp_start x) t))) =
    str_len (drop pos t) + (\<Sum>x \<leftarrow> rs. str_len (rp_text x))"
proof (induction rs arbitrary: pos)
  case (Cons r rs)
  have "take (rp_start r - pos) (drop pos t) @ take (rp_end r - rp_start r) (drop (rp_start r) t) @ drop (rp_end r) t
      = drop pos t"
    using Cons.prems by (metis append_take_drop_id drop_drop le_add_diff_inverse2 ordered_from.simps(2))
  then have "str_len (drop pos t) = str_len (take (rp_start r - pos) (drop pos t)) +
      str_len (take (rp_end r - rp_start r) (drop (rp_start r) t)) + str_len (drop (rp_end r) t)"
    by (metis str_len_simps(3) add.assoc)
  with Cons show ?case by simp
qed simp

text \<open>What an accepted transaction returns, and the two outcomes of a transaction in order.\<close>

definition applied_record :: "'r rope_ops \<Rightarrow> replacement list \<Rightarrow> 'r text_buffer \<Rightarrow> applied_transaction" where
  "applied_record R rs b =
     (let t = buffer_string R b in
      \<lparr>at_revision = tb_revision b + 1,
       at_inverse = \<lparr>et_expected = tb_revision b + 1, et_replacements = undo_of 0 0 rs t\<rparr>,
       at_inserted_bytes = (\<Sum>x \<leftarrow> rs. str_len (rp_text x)),
       at_removed_bytes = (\<Sum>x \<leftarrow> rs. str_len (take (rp_end x - rp_start x) (drop (rp_start x) t)))\<rparr>)"

definition edited_to :: "'r rope_ops \<Rightarrow> replacement list \<Rightarrow> 'r text_buffer \<Rightarrow> 'r text_buffer \<Rightarrow> bool" where
  "edited_to R rs b b' \<longleftrightarrow>
     buffer_string R b' = spliced 0 rs (buffer_string R b) \<and> tb_revision b' = tb_revision b + 1 \<and>
     tb_line_ending b' = detect_line_ending (buffer_string R b')"

lemma buffer_apply_accepted:
  assumes R: "rope_laws R" and o: "ordered_from 0 (et_replacements tx) (length (buffer_string R b))"
    and rev: "et_expected tx = tb_revision b" "tb_revision b \<noteq> - 1"
    and small: "length (spliced 0 (et_replacements tx) (buffer_string R b)) < 2 ^ 64"
  obtains b' where "buffer_apply R tx b = Some (Inr (applied_record R (et_replacements tx) b), b')"
    "edited_to R (et_replacements tx) b b'"
proof (rule buffer_apply_ordered [OF R o rev small])
  fix b'
  assume "buffer_apply R tx b = Some (Inr \<lparr>at_revision = tb_revision b + 1,
       at_inverse = \<lparr>et_expected = tb_revision b + 1,
         et_replacements = undo_of 0 0 (et_replacements tx) (buffer_string R b)\<rparr>,
       at_inserted_bytes = (\<Sum>x \<leftarrow> et_replacements tx. str_len (rp_text x)),
       at_removed_bytes = (\<Sum>x \<leftarrow> et_replacements tx.
         str_len (take (rp_end x - rp_start x) (drop (rp_start x) (buffer_string R b))))\<rparr>, b')"
    "buffer_string R b' = spliced 0 (et_replacements tx) (buffer_string R b)"
    "tb_revision b' = tb_revision b + 1"
    "tb_line_ending b' = detect_line_ending (spliced 0 (et_replacements tx) (buffer_string R b))"
  then show thesis by (intro that [of b']) (simp_all add: applied_record_def edited_to_def Let_def)
qed

lemma buffer_apply_at_revision:
  assumes R: "rope_laws R" and o: "ordered_from 0 (et_replacements tx) (length (buffer_string R b))"
    and rev: "et_expected tx = tb_revision b"
    and small: "length (spliced 0 (et_replacements tx) (buffer_string R b)) < 2 ^ 64"
  shows "(tb_revision b = - 1 \<and> buffer_apply R tx b = Some (Inl RevisionExhausted, b)) \<or>
    (\<exists>b'. tb_revision b \<noteq> - 1 \<and> edited_to R (et_replacements tx) b b' \<and>
      buffer_apply R tx b = Some (Inr (applied_record R (et_replacements tx) b), b'))"
proof (cases "tb_revision b = - 1")
  case True
  have "find (\<lambda>e. e > rope_len_chars R (tb_text b)) (map rp_end (et_replacements tx)) = None"
    using ordered_from_in [OF o] by (auto simp: find_None_all rope_law [OF R] buffer_string_def not_less)
  with True show ?thesis using buffer_apply_refusals(3) [OF rev] by simp
next
  case False
  obtain b' where "buffer_apply R tx b = Some (Inr (applied_record R (et_replacements tx) b), b')"
    "edited_to R (et_replacements tx) b b'"
    by (rule buffer_apply_accepted [OF R o rev False small])
  with False show ?thesis by blast
qed

text \<open>Every outcome of a transaction the constructor built.\<close>

definition refusal :: "'r rope_ops \<Rightarrow> replacement list \<Rightarrow> edit_transaction \<Rightarrow> 'r text_buffer \<Rightarrow> transaction_error \<Rightarrow> bool" where
  "refusal R rs tx b e \<longleftrightarrow>
     et_expected tx \<noteq> tb_revision b \<and> e = StaleBuffer (tb_revision b) (et_expected tx) \<or>
     et_expected tx = tb_revision b \<and>
       list_ex (\<lambda>q. length (buffer_string R b) < rp_end q \<and>
         e = RangeOutOfBounds (rp_end q) (length (buffer_string R b))) rs \<or>
     et_expected tx = tb_revision b \<and> list_all (\<lambda>q. rp_end q \<le> length (buffer_string R b)) rs \<and>
       tb_revision b = - 1 \<and> e = RevisionExhausted"

lemma buffer_apply_built:
  assumes R: "rope_laws R" and new: "edit_transaction_new v rs = Inr tx" "valid_ranges rs"
    and small: "edit_fits (buffer_string R b) rs"
  shows "(\<exists>e. buffer_apply R tx b = Some (Inl e, b) \<and> refusal R rs tx b e) \<or>
    (\<exists>b'. et_expected tx = tb_revision b \<and> tb_revision b \<noteq> - 1 \<and> edited_to R (et_replacements tx) b b' \<and>
      ordered_from 0 (et_replacements tx) (length (buffer_string R b)) \<and>
      buffer_apply R tx b = Some (Inr (applied_record R (et_replacements tx) b), b'))"
proof (cases "et_expected tx = tb_revision b \<and>
    (\<forall>r \<in> set (et_replacements tx). rp_end r \<le> length (buffer_string R b))")
  case True
  note o = built_ordered [OF new conjunct2 [OF True]]
  have "length (spliced 0 (et_replacements tx) (buffer_string R b)) < 2 ^ 63"
    using spliced_fits [OF o] small by (simp add: edit_fits_built [OF new(1)])
  then have "length (spliced 0 (et_replacements tx) (buffer_string R b)) < 2 ^ 64" by simp
  moreover have "set (et_replacements tx) = set rs"
    using new(1) by (auto simp: edit_transaction_new_def Let_def split: if_splits)
  ultimately show ?thesis
    using buffer_apply_at_revision [OF R o conjunct1 [OF True]] o True
    by (auto simp: refusal_def list_all_iff)
next
  case False
  let ?len = "length (buffer_string R b)"
  have ends: "rp_end ` set (et_replacements tx) = rp_end ` set rs"
    using new(1) by (auto simp: edit_transaction_new_def Let_def split: if_splits)
  have len: "rope_len_chars R (tb_text b) = ?len" by (simp add: rope_law [OF R] buffer_string_def)
  show ?thesis
  proof (cases "et_expected tx = tb_revision b")
    case False
    then show ?thesis using buffer_apply_refusals(1) [of tx b R] by (auto simp: refusal_def)
  next
    case True
    with False have "find (\<lambda>e. e > ?len) (map rp_end (et_replacements tx)) \<noteq> None"
      by (auto simp: find_None_all not_less)
    then obtain e where e: "find (\<lambda>e. e > ?len) (map rp_end (et_replacements tx)) = Some e" by blast
    from find_Some_in [OF e] ends obtain q where "q \<in> set rs" "rp_end q = e" "?len < e" by auto
    then show ?thesis
      using buffer_apply_refusals(2) [of tx b R e] True e len by (auto simp: refusal_def list_ex_iff)
  qed
qed

section \<open>Properties\<close>

text \<open>
  C14. Applying a transaction built by the constructor never panics and is atomic. It is refused,
  leaving the buffer as it was, exactly for a revision that is not the buffer's, else a range past
  the end, else an exhausted revision counter, and the error says which. Otherwise the text is the
  old one with its replacements spliced in, the revision advances by one and is the one returned, the
  line ending is redetected, and the byte counts returned are exactly the bytes of the inserted texts
  and of the text in the replaced ranges.
\<close>

theorem apply_is_atomic:
  assumes R: "rope_laws R" and new: "edit_transaction_new v rs = Inr tx" "valid_ranges rs"
    and small: "edit_fits (buffer_string R b) rs"
  shows "\<exists>r b'. buffer_apply R tx b = Some (r, b') \<and>
    (case r of
       Inl e \<Rightarrow> b' = b \<and> refusal R rs tx b e
     | Inr a \<Rightarrow>
         v = tb_revision b \<and> tb_revision b \<noteq> - 1 \<and>
         list_all (\<lambda>q. rp_end q \<le> length (buffer_string R b)) rs \<and>
         buffer_string R b' = spliced 0 (et_replacements tx) (buffer_string R b) \<and>
         tb_revision b' = v + 1 \<and> at_revision a = v + 1 \<and>
         tb_line_ending b' = detect_line_ending (buffer_string R b') \<and>
         at_inserted_bytes a = (\<Sum>q \<leftarrow> rs. str_len (rp_text q)) \<and>
         at_removed_bytes a =
           (\<Sum>q \<leftarrow> rs. str_len (take (rp_end q - rp_start q) (drop (rp_start q) (buffer_string R b)))))"
  using buffer_apply_built [OF assms]
proof (elim disjE exE conjE)
  fix b'
  assume o: "ordered_from 0 (et_replacements tx) (length (buffer_string R b))"
    and "edited_to R (et_replacements tx) b b'" "et_expected tx = tb_revision b" "tb_revision b \<noteq> - 1"
    and "buffer_apply R tx b = Some (Inr (applied_record R (et_replacements tx) b), b')"
  with ordered_from_in [OF o] built_transaction [OF new(1)] show ?thesis
    by (auto simp: edited_to_def applied_record_def Let_def list_all_iff)
qed auto

definition example_buffer :: "rust_string text_buffer" where
  "example_buffer = text_buffer_new list_rope (lit ''hello world'')"

definition example_edits :: "replacement list" where
  "example_edits =
     [replacement_new \<lparr>cr_start = 6, cr_end = 11\<rparr> (lit ''there''),
      replacement_new \<lparr>cr_start = 0, cr_end = 0\<rparr> (lit ''oh '')]"

definition example_edit :: edit_transaction where
  "example_edit = \<lparr>et_expected = 0, et_replacements = rev example_edits\<rparr>"

lemma example_edit_new: "edit_transaction_new 0 example_edits = Inr example_edit"
  by code_simp

lemma example_edit_valid: "valid_ranges example_edits"
  by code_simp

lemma example_edit_fits: "edit_fits (buffer_string list_rope example_buffer) example_edits"
  by (simp add: edit_fits_def buffer_string_def list_rope_def example_buffer_def text_buffer_new_def
      example_edits_def replacement_new_def lit_def)

theorem apply_is_atomic_witness:
  "\<exists>r b'. buffer_apply list_rope example_edit example_buffer = Some (r, b') \<and>
    (case r of
       Inl e \<Rightarrow> b' = example_buffer \<and> refusal list_rope example_edits example_edit example_buffer e
     | Inr a \<Rightarrow>
         buffer_string list_rope b' = spliced 0 (et_replacements example_edit) (buffer_string list_rope example_buffer) \<and>
         tb_revision b' = 1 \<and> at_inserted_bytes a = 8 \<and> at_removed_bytes a = 5)"
proof -
  obtain r b' where run: "buffer_apply list_rope example_edit example_buffer = Some (r, b')"
    "(case r of
       Inl e \<Rightarrow> b' = example_buffer \<and> refusal list_rope example_edits example_edit example_buffer e
     | Inr a \<Rightarrow>
         buffer_string list_rope b' = spliced 0 (et_replacements example_edit) (buffer_string list_rope example_buffer) \<and>
         tb_revision b' = 0 + 1 \<and>
         at_inserted_bytes a = (\<Sum>q \<leftarrow> example_edits. str_len (rp_text q)) \<and>
         at_removed_bytes a = (\<Sum>q \<leftarrow> example_edits.
           str_len (take (rp_end q - rp_start q) (drop (rp_start q) (buffer_string list_rope example_buffer)))))"
    using apply_is_atomic [OF list_rope_laws example_edit_new example_edit_valid example_edit_fits]
    by (force split: sum.splits)
  moreover have "(\<Sum>q \<leftarrow> example_edits. str_len (rp_text q)) = 8"
    "(\<Sum>q \<leftarrow> example_edits.
       str_len (take (rp_end q - rp_start q) (drop (rp_start q) (buffer_string list_rope example_buffer)))) = 5"
    by code_simp+
  ultimately show ?thesis by (intro exI [of _ r] exI [of _ b']) (auto split: sum.splits)
qed

text \<open>
  C15. The inverse a buffer returns undoes the edit. Applied to the edited buffer it is accepted
  and gives back the text there was, whatever the lengths of the replacements.
\<close>

theorem inverse_undoes:
  assumes R: "rope_laws R" and new: "edit_transaction_new v rs = Inr tx" "valid_ranges rs"
    and small: "edit_fits (buffer_string R b) rs"
    and run: "buffer_apply R tx b = Some (Inr a, b1)" and rev: "tb_revision b1 \<noteq> - 1"
  shows "\<exists>a2 b2. buffer_apply R (at_inverse a) b1 = Some (Inr a2, b2) \<and>
    buffer_string R b2 = buffer_string R b \<and> tb_revision b2 = tb_revision b + 2 \<and>
    tb_line_ending b2 = detect_line_ending (buffer_string R b)"
proof -
  let ?rs = "et_replacements tx" and ?t = "buffer_string R b"
  note ok = buffer_apply_Inr [OF run]
  have o: "ordered_from 0 ?rs (length ?t)"
    using built_ordered [OF new] ok(3) by (simp add: rope_law [OF R] buffer_string_def)
  have fits: "edit_fits ?t ?rs" using small by (simp add: edit_fits_built [OF new(1)])
  have "length (spliced 0 ?rs ?t) < 2 ^ 64" using spliced_fits [OF o fits] by simp
  then obtain b' where b': "buffer_apply R tx b = Some (Inr
      \<lparr>at_revision = tb_revision b + 1,
       at_inverse = \<lparr>et_expected = tb_revision b + 1, et_replacements = undo_of 0 0 ?rs ?t\<rparr>,
       at_inserted_bytes = (\<Sum>x \<leftarrow> ?rs. str_len (rp_text x)),
       at_removed_bytes = (\<Sum>x \<leftarrow> ?rs. str_len (take (rp_end x - rp_start x) (drop (rp_start x) ?t)))\<rparr>, b')"
    "buffer_string R b' = spliced 0 ?rs ?t" "tb_revision b' = tb_revision b + 1"
    by (rule buffer_apply_ordered [OF R o ok(1,2)])
  then have a: "at_inverse a = \<lparr>et_expected = tb_revision b + 1, et_replacements = undo_of 0 0 ?rs ?t\<rparr>"
    and b1: "b1 = b'" using run by simp_all
  have o1: "ordered_from 0 (et_replacements (at_inverse a)) (length (buffer_string R b1))"
    using undo_ordered [OF o, of "[]"] b' a b1 by simp
  have undone: "spliced 0 (et_replacements (at_inverse a)) (buffer_string R b1) = ?t"
    using undo_splice [OF o, of "[]"] b' a b1 by simp
  have "length ?t < 2 ^ 64" using small by (simp add: edit_fits_def)
  then have size: "length (spliced 0 (et_replacements (at_inverse a)) (buffer_string R b1)) < 2 ^ 64"
    by (simp only: undone)
  have "et_expected (at_inverse a) = tb_revision b1" using a b'(3) b1 by simp
  note applied = buffer_apply_ordered [OF R o1 this rev size, unfolded undone]
  obtain b2 where b2: "buffer_string R b2 = ?t" "tb_revision b2 = tb_revision b1 + 1"
    "tb_line_ending b2 = detect_line_ending ?t" "\<exists>a2. buffer_apply R (at_inverse a) b1 = Some (Inr a2, b2)"
    by (rule applied) (rule that, assumption+, rule exI, assumption)
  from b2(4) obtain a2 where "buffer_apply R (at_inverse a) b1 = Some (Inr a2, b2)" by blast
  moreover have "tb_revision b2 = tb_revision b + 2" using b2(2) b'(3) by (simp add: b1)
  ultimately show ?thesis using b2(1,3) by blast
qed

theorem inverse_undoes_witness:
  "\<exists>a2 b2. buffer_apply list_rope (case buffer_apply list_rope example_edit example_buffer of Some (Inr a, b1) \<Rightarrow> at_inverse a)
      (snd (the (buffer_apply list_rope example_edit example_buffer))) = Some (Inr a2, b2) \<and>
    buffer_string list_rope b2 = buffer_string list_rope example_buffer \<and>
    tb_revision b2 = tb_revision example_buffer + 2 \<and>
    tb_line_ending b2 = detect_line_ending (buffer_string list_rope example_buffer)"
proof -
  have "case buffer_apply list_rope example_edit example_buffer of
      Some (Inr a, b1) \<Rightarrow> tb_revision b1 = 1 | _ \<Rightarrow> False" by code_simp
  then obtain a b1 where run: "buffer_apply list_rope example_edit example_buffer = Some (Inr a, b1)" "tb_revision b1 = 1"
    by (auto split: option.splits prod.splits sum.splits)
  show ?thesis
    using inverse_undoes [OF list_rope_laws example_edit_new example_edit_valid example_edit_fits run(1)] run by simp
qed

end
