(* ===== verification/EditHistory.thy ===== *)
theory EditHistory imports EditBuffer begin

text \<open>
  The undo history of strukt-editor (\<open>history.rs\<close>): recording with coalescing of typed text,
  undo and redo stacks, the budget on entries and bytes. \<open>VecDeque\<close> and \<open>Vec\<close> are lists, front
  or bottom first.
\<close>

section \<open>State\<close>

datatype edit_kind = Typing | OtherEdit

datatype history_error = NothingToUndo | NothingToRedo

record history_budget =
  hb_max_entries :: nat
  hb_max_bytes :: nat

definition default_budget :: history_budget where
  "default_budget = \<lparr>hb_max_entries = 10000, hb_max_bytes = 64 * 1024 * 1024\<rparr>"

record history_entry =
  he_forward :: edit_transaction
  he_inverse :: edit_transaction
  he_kind :: edit_kind
  he_cursor_before :: nat
  he_cursor_after :: nat
  he_byte_cost :: nat

definition entry_from_applied ::
  "edit_transaction \<Rightarrow> applied_transaction \<Rightarrow> edit_kind \<Rightarrow> nat \<Rightarrow> nat \<Rightarrow> history_entry"
where
  "entry_from_applied forward applied kind cursor_before cursor_after =
     \<lparr>he_forward = forward, he_inverse = at_inverse applied, he_kind = kind,
      he_cursor_before = cursor_before, he_cursor_after = cursor_after,
      he_byte_cost = at_inserted_bytes applied + at_removed_bytes applied\<rparr>"

record history =
  hi_budget :: history_budget
  hi_undo :: "history_entry list"
  hi_redo :: "history_entry list"
  hi_retained_bytes :: nat

definition history_new :: "history_budget \<Rightarrow> history" where
  "history_new budget = \<lparr>hi_budget = budget, hi_undo = [], hi_redo = [], hi_retained_bytes = 0\<rparr>"

section \<open>Operations\<close>

text \<open>\<open>coalesce_typing\<close> returns whether it merged; on success the previous entry is changed.\<close>

definition coalesce_typing :: "history_entry \<Rightarrow> history_entry \<Rightarrow> history_entry option" where
  "coalesce_typing previous new =
     (if he_kind previous \<noteq> Typing \<or> he_kind new \<noteq> Typing \<or>
         he_cursor_after previous \<noteq> he_cursor_before new \<or>
         length (et_replacements (he_forward previous)) \<noteq> 1 \<or>
         length (et_replacements (he_forward new)) \<noteq> 1 \<or>
         length (et_replacements (he_inverse previous)) \<noteq> 1 \<or>
         length (et_replacements (he_inverse new)) \<noteq> 1
      then None
      else
        let previous_forward = hd (et_replacements (he_forward previous));
            next_forward = hd (et_replacements (he_forward new));
            previous_inverse = hd (et_replacements (he_inverse previous));
            next_inverse = hd (et_replacements (he_inverse new))
        in if rp_start previous_forward \<noteq> rp_end previous_forward \<or>
              rp_start next_forward \<noteq> rp_end next_forward \<or>
              rp_start previous_forward + length (rp_text previous_forward) \<noteq> rp_start next_forward \<or>
              rp_text previous_inverse \<noteq> [] \<or> rp_text next_inverse \<noteq> []
           then None
           else Some (previous
             \<lparr>he_forward := (he_forward previous)
                \<lparr>et_replacements :=
                   [previous_forward\<lparr>rp_text := rp_text previous_forward @ rp_text next_forward\<rparr>]\<rparr>,
              he_inverse := (he_inverse previous)
                \<lparr>et_replacements :=
                   [previous_inverse\<lparr>rp_range := (rp_range previous_inverse)\<lparr>cr_end := rp_end next_inverse\<rparr>\<rparr>],
                 et_expected := et_expected (he_inverse new)\<rparr>,
              he_cursor_after := he_cursor_after new,
              he_byte_cost := sat_add_usize (he_byte_cost previous) (he_byte_cost new)\<rparr>))"

text \<open>The loop of \<open>enforce_budget\<close> drops the oldest entries.\<close>

fun drop_oldest :: "history_budget \<Rightarrow> history_entry list \<Rightarrow> nat \<Rightarrow> history_entry list \<times> nat" where
  "drop_oldest budget [] retained = ([], retained)"
| "drop_oldest budget (e # es) retained =
     (if length (e # es) > hb_max_entries budget \<or> retained > hb_max_bytes budget
      then drop_oldest budget es (retained - he_byte_cost e)
      else (e # es, retained))"

definition enforce_budget :: "history \<Rightarrow> history" where
  "enforce_budget h =
     (case drop_oldest (hi_budget h) (hi_undo h) (hi_retained_bytes h) of
        (undo, retained) \<Rightarrow> h\<lparr>hi_undo := undo, hi_retained_bytes := retained\<rparr>)"

definition history_record :: "history_entry \<Rightarrow> history \<Rightarrow> history" where
  "history_record entry h =
     (let retained = sat_add_usize (hi_retained_bytes h) (he_byte_cost entry);
          merged = (case last_opt (hi_undo h) of
              None \<Rightarrow> None
            | Some previous \<Rightarrow> coalesce_typing previous entry)
      in enforce_budget
           (h\<lparr>hi_redo := [], hi_retained_bytes := retained,
              hi_undo := (case merged of
                  Some e \<Rightarrow> butlast (hi_undo h) @ [e]
                | None \<Rightarrow> hi_undo h @ [entry])\<rparr>))"

definition retarget :: "edit_transaction \<Rightarrow> u64 \<Rightarrow> edit_transaction" where
  "retarget tx revision = \<lparr>et_expected = revision, et_replacements = et_replacements tx\<rparr>"

definition history_undo :: "u64 \<Rightarrow> history \<Rightarrow> (history_error + edit_transaction) \<times> history" where
  "history_undo current h =
     attempt (ok_or (last_opt (hi_undo h)) NothingToUndo) h (\<lambda>entry.
       (Inr (retarget (he_inverse entry) current),
        h\<lparr>hi_undo := butlast (hi_undo h),
          hi_retained_bytes := hi_retained_bytes h - he_byte_cost entry,
          hi_redo := hi_redo h @ [entry]\<rparr>))"

definition history_redo :: "u64 \<Rightarrow> history \<Rightarrow> (history_error + edit_transaction) \<times> history" where
  "history_redo current h =
     attempt (ok_or (last_opt (hi_redo h)) NothingToRedo) h (\<lambda>entry.
       (Inr (retarget (he_forward entry) current),
        enforce_budget
          (h\<lparr>hi_redo := butlast (hi_redo h),
             hi_retained_bytes := sat_add_usize (hi_retained_bytes h) (he_byte_cost entry),
             hi_undo := hi_undo h @ [entry]\<rparr>)))"

section \<open>The budget\<close>

definition entry_bytes :: "history_entry list \<Rightarrow> nat" where
  "entry_bytes es = (\<Sum>e \<leftarrow> es. he_byte_cost e)"

definition within_budget :: "history_budget \<Rightarrow> history_entry list \<Rightarrow> bool" where
  "within_budget b es \<longleftrightarrow> length es \<le> hb_max_entries b \<and> entry_bytes es \<le> hb_max_bytes b"

definition history_within :: "history \<Rightarrow> bool" where
  "history_within h \<longleftrightarrow>
     hi_retained_bytes h = entry_bytes (hi_undo h) \<and> within_budget (hi_budget h) (hi_undo h) \<and>
     hb_max_bytes (hi_budget h) < 2 ^ 63 \<and> list_all (\<lambda>e. he_byte_cost e < 2 ^ 63) (hi_redo h)"

lemma entry_bytes_simps [simp]:
  "entry_bytes [] = 0"
  "entry_bytes (e # es) = he_byte_cost e + entry_bytes es"
  "entry_bytes (es @ fs) = entry_bytes es + entry_bytes fs"
  by (simp_all add: entry_bytes_def)

lemma drop_oldest_spec:
  assumes "retained = entry_bytes es"
  shows "\<exists>k. drop_oldest b es retained = (drop k es, entry_bytes (drop k es)) \<and>
    within_budget b (drop k es) \<and> (\<forall>j < k. \<not> within_budget b (drop j es))"
  using assms
proof (induction es arbitrary: retained)
  case Nil
  then show ?case by (intro exI [of _ 0]) (simp add: within_budget_def)
next
  case (Cons e es)
  show ?case
  proof (cases "within_budget b (e # es)")
    case True
    with Cons.prems show ?thesis by (intro exI [of _ 0]) (auto simp: within_budget_def)
  next
    case False
    then have run: "drop_oldest b (e # es) retained = drop_oldest b es (retained - he_byte_cost e)"
      using Cons.prems by (auto simp: within_budget_def)
    have "retained - he_byte_cost e = entry_bytes es" using Cons.prems by simp
    from Cons.IH [OF this] obtain k where k: "drop_oldest b es (retained - he_byte_cost e) = (drop k es, entry_bytes (drop k es))"
      "within_budget b (drop k es)" "\<forall>j < k. \<not> within_budget b (drop j es)" by blast
    have "\<not> within_budget b (drop j (e # es))" if "j < Suc k" for j
      using that False k(3) by (cases j) simp_all
    with run k show ?thesis by (intro exI [of _ "Suc k"]) simp
  qed
qed

lemma enforce_budget_spec:
  assumes "hi_retained_bytes h = entry_bytes (hi_undo h)"
  obtains k where "enforce_budget h = h\<lparr>hi_undo := drop k (hi_undo h),
      hi_retained_bytes := entry_bytes (drop k (hi_undo h))\<rparr>"
    "within_budget (hi_budget h) (drop k (hi_undo h))"
    "\<forall>j < k. \<not> within_budget (hi_budget h) (drop j (hi_undo h))"
  using drop_oldest_spec [OF assms, of "hi_budget h"] by (auto simp: enforce_budget_def)

lemma last_opt_split: "last_opt xs = Some x \<Longrightarrow> xs = butlast xs @ [x]"
  by (auto simp: last_opt_Some)

lemma coalesce_cost:
  "coalesce_typing p e = Some m \<Longrightarrow> he_byte_cost m = sat_add_usize (he_byte_cost p) (he_byte_cost e)"
  by (auto simp: coalesce_typing_def Let_def split: if_splits)

lemma small_sum: "a < 2 ^ 63 \<Longrightarrow> b < 2 ^ 63 \<Longrightarrow> sat_add_usize a b = a + b"
  by (simp add: sat_add_usize_def)

text \<open>The undo stack \<open>record\<close> hands to the budget.\<close>

definition pushed :: "history_entry \<Rightarrow> history_entry list \<Rightarrow> history_entry list" where
  "pushed e es =
     (case (case last_opt es of None \<Rightarrow> None | Some p \<Rightarrow> coalesce_typing p e) of
        Some m \<Rightarrow> butlast es @ [m]
      | None \<Rightarrow> es @ [e])"

lemma pushed_bytes:
  assumes "entry_bytes es < 2 ^ 63" "he_byte_cost e < 2 ^ 63"
  shows "entry_bytes (pushed e es) = entry_bytes es + he_byte_cost e"
proof (cases "last_opt es")
  case None
  then show ?thesis by (simp add: pushed_def)
next
  case (Some p)
  then have es: "es = butlast es @ [p]" by (rule last_opt_split)
  then have b: "entry_bytes es = entry_bytes (butlast es) + he_byte_cost p" by (metis entry_bytes_simps add_0_right)
  with assms have "sat_add_usize (he_byte_cost p) (he_byte_cost e) = he_byte_cost p + he_byte_cost e"
    by (intro small_sum) simp_all
  with Some b show ?thesis by (auto simp: pushed_def dest: coalesce_cost split: option.splits)
qed

lemma history_record_spec:
  assumes "history_within h" "he_byte_cost e < 2 ^ 63"
  obtains k where "history_record e h = h\<lparr>hi_redo := [], hi_undo := drop k (pushed e (hi_undo h)),
      hi_retained_bytes := entry_bytes (drop k (pushed e (hi_undo h)))\<rparr>"
    "within_budget (hi_budget h) (drop k (pushed e (hi_undo h)))"
    "\<forall>j < k. \<not> within_budget (hi_budget h) (drop j (pushed e (hi_undo h)))"
proof -
  have small: "entry_bytes (hi_undo h) < 2 ^ 63" using assms(1) by (auto simp: history_within_def within_budget_def)
  let ?h = "h\<lparr>hi_redo := [], hi_retained_bytes := sat_add_usize (hi_retained_bytes h) (he_byte_cost e),
    hi_undo := pushed e (hi_undo h)\<rparr>"
  have "hi_retained_bytes ?h = entry_bytes (hi_undo ?h)"
    using assms small by (simp add: history_within_def pushed_bytes small_sum)
  from enforce_budget_spec [OF this] obtain k where "enforce_budget ?h = ?h\<lparr>hi_undo := drop k (hi_undo ?h),
      hi_retained_bytes := entry_bytes (drop k (hi_undo ?h))\<rparr>"
    "within_budget (hi_budget ?h) (drop k (hi_undo ?h))"
    "\<forall>j < k. \<not> within_budget (hi_budget ?h) (drop j (hi_undo ?h))" by blast
  then show ?thesis
    by (intro that [of k]) (simp_all add: history_record_def pushed_def Let_def)
qed

section \<open>Replaying the history\<close>

text \<open>
  An entry recorded on text \<open>t\<close> holds an ordered edit of \<open>t\<close> and the replacements that undo it.
  The undo stack, newest first, leads back from the current text one entry at a time; the redo
  stack leads forward.
\<close>

abbreviation forward_of :: "history_entry \<Rightarrow> replacement list" where
  "forward_of e \<equiv> et_replacements (he_forward e)"
abbreviation inverse_of :: "history_entry \<Rightarrow> replacement list" where
  "inverse_of e \<equiv> et_replacements (he_inverse e)"

definition entry_ok :: "rust_string \<Rightarrow> history_entry \<Rightarrow> bool" where
  "entry_ok t e \<longleftrightarrow>
     ordered_from 0 (forward_of e) (length t) \<and> inverse_of e = undo_of 0 0 (forward_of e) t \<and>
     length t < 2 ^ 63 \<and> length (spliced 0 (forward_of e) t) < 2 ^ 63"

fun undo_ok :: "history_entry list \<Rightarrow> rust_string \<Rightarrow> bool" where
  "undo_ok [] t \<longleftrightarrow> True"
| "undo_ok (e # es) t \<longleftrightarrow>
     (let t0 = spliced 0 (inverse_of e) t in
      entry_ok t0 e \<and> spliced 0 (forward_of e) t0 = t \<and> undo_ok es t0)"

fun redo_ok :: "history_entry list \<Rightarrow> rust_string \<Rightarrow> bool" where
  "redo_ok [] t \<longleftrightarrow> True"
| "redo_ok (e # es) t \<longleftrightarrow> entry_ok t e \<and> redo_ok es (spliced 0 (forward_of e) t)"

definition history_ok :: "history \<Rightarrow> rust_string \<Rightarrow> bool" where
  "history_ok h t \<longleftrightarrow> undo_ok (rev (hi_undo h)) t \<and> redo_ok (rev (hi_redo h)) t"

lemma entry_ok_back:
  assumes "entry_ok t e"
  shows "spliced 0 (inverse_of e) (spliced 0 (forward_of e) t) = t"
    "ordered_from 0 (inverse_of e) (length (spliced 0 (forward_of e) t))"
  using undo_splice [of 0 "forward_of e" t "[]"] undo_ordered [of 0 "forward_of e" t "[]"] assms
  by (simp_all add: entry_ok_def)

lemma undo_ok_push: "entry_ok t e \<Longrightarrow> undo_ok es t \<Longrightarrow> undo_ok (e # es) (spliced 0 (forward_of e) t)"
  by (simp add: entry_ok_back)

lemma undo_ok_take: "undo_ok es t \<Longrightarrow> undo_ok (take n es) t"
  by (induction es arbitrary: t n) (auto simp: Let_def take_Cons split: nat.splits)

lemma rev_drop_take: "rev (drop k xs) = take (length xs - k) (rev xs)"
  by (simp add: rev_drop)

text \<open>Typed text merges: two insertions, the second right after the first, are one.\<close>

lemma coalesce_entry:
  assumes m: "coalesce_typing p e = Some m" and p: "entry_ok t p" and e: "entry_ok (spliced 0 (forward_of p) t) e"
  shows "entry_ok t m \<and> spliced 0 (forward_of m) t = spliced 0 (forward_of e) (spliced 0 (forward_of p) t)"
proof -
  obtain pf ef where f: "forward_of p = [pf]" "forward_of e = [ef]"
    and i: "length (inverse_of p) = 1" "length (inverse_of e) = 1"
    and at: "rp_start pf = rp_end pf" "rp_start ef = rp_end ef" "rp_start ef = rp_start pf + length (rp_text pf)"
    and fm: "forward_of m = [pf\<lparr>rp_text := rp_text pf @ rp_text ef\<rparr>]"
    and im: "inverse_of m = [(hd (inverse_of p))\<lparr>rp_range := (rp_range (hd (inverse_of p)))\<lparr>cr_end := rp_end (hd (inverse_of e))\<rparr>\<rparr>]"
    using m by (auto simp: coalesce_typing_def Let_def length_Suc_conv split: if_splits)
  let ?a = "rp_start pf"
  have a: "?a \<le> length t" using p f at(1) by (simp add: entry_ok_def)
  have inv: "inverse_of p = [\<lparr>rp_range = \<lparr>cr_start = ?a, cr_end = ?a + length (rp_text pf)\<rparr>, rp_text = []\<rparr>]"
    using p f at(1) by (simp add: entry_ok_def Let_def)
  have inve: "inverse_of e = [\<lparr>rp_range = \<lparr>cr_start = rp_start ef, cr_end = rp_start ef + length (rp_text ef)\<rparr>, rp_text = []\<rparr>]"
    using e f at(2) by (simp add: entry_ok_def Let_def)
  have t1: "spliced 0 (forward_of p) t = take ?a t @ rp_text pf @ drop ?a t"
    using f at(1) by simp
  have t2: "spliced 0 (forward_of e) (spliced 0 (forward_of p) t) = take ?a t @ rp_text pf @ rp_text ef @ drop ?a t"
    unfolding t1 using f at a by (simp add: min_absorb1)
  have tm: "spliced 0 (forward_of m) t = take ?a t @ rp_text pf @ rp_text ef @ drop ?a t"
    using fm at(1) by simp
  have "inverse_of m = undo_of 0 0 (forward_of m) t"
    using fm im inv inve at by (simp add: Let_def)
  moreover have "ordered_from 0 (forward_of m) (length t)" using fm at(1) a by simp
  ultimately have "entry_ok t m" using p e t2 tm by (simp add: entry_ok_def)
  with t2 tm show ?thesis by simp
qed

lemma pushed_ok:
  assumes "undo_ok (rev es) t" "entry_ok t e"
  shows "undo_ok (rev (pushed e es)) (spliced 0 (forward_of e) t)"
proof (cases "case last_opt es of None \<Rightarrow> None | Some p \<Rightarrow> coalesce_typing p e")
  case None
  then show ?thesis using undo_ok_push [OF assms(2,1)] by (simp add: pushed_def)
next
  case (Some m)
  then obtain p where p: "last_opt es = Some p" "coalesce_typing p e = Some m" by (auto split: option.splits)
  have es: "rev es = p # rev (butlast es)" using last_opt_split [OF p(1)] by (metis rev_eq_Cons_iff rev_rev_ident)
  let ?t0 = "spliced 0 (inverse_of p) t"
  have t0: "entry_ok ?t0 p" "spliced 0 (forward_of p) ?t0 = t" "undo_ok (rev (butlast es)) ?t0"
    using assms(1) unfolding es by (simp_all add: Let_def)
  from coalesce_entry [OF p(2) t0(1)] assms(2) t0(2)
  have m: "entry_ok ?t0 m" "spliced 0 (forward_of m) ?t0 = spliced 0 (forward_of e) t" by simp_all
  have "rev (pushed e es) = m # rev (butlast es)" using p by (simp add: pushed_def)
  then show ?thesis using undo_ok_push [OF m(1) t0(3)] m(2) by simp
qed

lemma history_record_ok:
  assumes "history_ok h t" "history_within h" "entry_ok t e" "he_byte_cost e < 2 ^ 63"
  shows "history_ok (history_record e h) (spliced 0 (forward_of e) t)" "history_within (history_record e h)"
proof -
  obtain k where k: "history_record e h = h\<lparr>hi_redo := [], hi_undo := drop k (pushed e (hi_undo h)),
      hi_retained_bytes := entry_bytes (drop k (pushed e (hi_undo h)))\<rparr>"
    "within_budget (hi_budget h) (drop k (pushed e (hi_undo h)))"
    by (rule history_record_spec [OF assms(2,4)])
  show "history_ok (history_record e h) (spliced 0 (forward_of e) t)"
    unfolding k(1) using pushed_ok assms(1,3) by (simp add: history_ok_def rev_drop_take undo_ok_take)
  show "history_within (history_record e h)"
    unfolding k(1) using k(2) assms(2) by (simp add: history_within_def)
qed

lemma history_undo_within: "history_within h \<Longrightarrow> history_within (snd (history_undo v h))"
proof (cases "last_opt (hi_undo h)")
  case (Some e)
  then have "entry_bytes (hi_undo h) = entry_bytes (butlast (hi_undo h)) + he_byte_cost e"
    by (metis last_opt_split entry_bytes_simps add_0_right)
  with Some show "history_within h \<Longrightarrow> ?thesis"
    by (auto simp: history_undo_def history_within_def within_budget_def)
qed (simp add: history_undo_def)

lemma history_redo_within:
  assumes h: "history_within h"
  shows "history_within (snd (history_redo v h))"
proof (cases "last_opt (hi_redo h)")
  case (Some e)
  let ?h = "h\<lparr>hi_redo := butlast (hi_redo h),
      hi_retained_bytes := sat_add_usize (hi_retained_bytes h) (he_byte_cost e), hi_undo := hi_undo h @ [e]\<rparr>"
  have cost: "he_byte_cost e < 2 ^ 63" "list_all (\<lambda>e. he_byte_cost e < 2 ^ 63) (butlast (hi_redo h))"
    using h last_opt_in_set [OF Some] by (auto simp: history_within_def list_all_iff dest: in_set_butlastD)
  have "hi_retained_bytes ?h = entry_bytes (hi_undo ?h)"
    using h cost(1) by (auto simp: history_within_def within_budget_def small_sum)
  from enforce_budget_spec [OF this] obtain k where k: "enforce_budget ?h = ?h\<lparr>hi_undo := drop k (hi_undo ?h),
      hi_retained_bytes := entry_bytes (drop k (hi_undo ?h))\<rparr>"
    "within_budget (hi_budget ?h) (drop k (hi_undo ?h))" by blast
  have "snd (history_redo v h) = enforce_budget ?h" using Some by (simp add: history_redo_def)
  with k(2) h cost(2) show ?thesis unfolding k(1) by (simp add: history_within_def)
qed (use h in \<open>simp add: history_redo_def\<close>)

lemma history_undo_ok:
  assumes h: "history_ok h t" "history_within h" and run: "history_undo v h = (Inr tx, h')"
  obtains e where "tx = retarget (he_inverse e) v" "history_ok h' (spliced 0 (inverse_of e) t)" "history_within h'"
    "ordered_from 0 (inverse_of e) (length t)" "entry_ok (spliced 0 (inverse_of e) t) e"
    "spliced 0 (forward_of e) (spliced 0 (inverse_of e) t) = t" "last_opt (hi_redo h') = Some e"
    "hi_undo h = hi_undo h' @ [e]"
proof -
  obtain e where e: "last_opt (hi_undo h) = Some e" "tx = retarget (he_inverse e) v"
    and h': "h' = h\<lparr>hi_undo := butlast (hi_undo h), hi_retained_bytes := hi_retained_bytes h - he_byte_cost e,
      hi_redo := hi_redo h @ [e]\<rparr>"
    using run by (auto simp: history_undo_def outcome)
  have es: "hi_undo h = butlast (hi_undo h) @ [e]" by (rule last_opt_split [OF e(1)])
  then have r: "rev (hi_undo h) = e # rev (butlast (hi_undo h))" by (metis rev_eq_Cons_iff rev_rev_ident)
  let ?t0 = "spliced 0 (inverse_of e) t"
  have t0: "entry_ok ?t0 e" "spliced 0 (forward_of e) ?t0 = t" "undo_ok (rev (butlast (hi_undo h))) ?t0"
    using h(1) unfolding history_ok_def r by (simp_all add: Let_def)
  have "ordered_from 0 (inverse_of e) (length t)" using entry_ok_back(2) [OF t0(1)] t0(2) by simp
  moreover have "history_ok h' ?t0"
    using t0 h(1) by (simp add: h' history_ok_def)
  moreover have "history_within h'" using history_undo_within [OF h(2), of v] run by simp
  ultimately show ?thesis
    using e(2) t0 es by (intro that [of e]) (simp_all add: h' last_opt_Some)
qed

lemma history_redo_ok:
  assumes h: "history_ok h t" "history_within h" and run: "history_redo v h = (Inr tx, h')"
  obtains e where "tx = retarget (he_forward e) v" "history_ok h' (spliced 0 (forward_of e) t)" "history_within h'"
    "entry_ok t e" "last_opt (hi_redo h) = Some e"
proof -
  obtain e where e: "last_opt (hi_redo h) = Some e" "tx = retarget (he_forward e) v"
    and h': "h' = enforce_budget (h\<lparr>hi_redo := butlast (hi_redo h),
      hi_retained_bytes := sat_add_usize (hi_retained_bytes h) (he_byte_cost e), hi_undo := hi_undo h @ [e]\<rparr>)"
    using run by (auto simp: history_redo_def outcome)
  have es: "hi_redo h = butlast (hi_redo h) @ [e]" by (rule last_opt_split [OF e(1)])
  then have r: "rev (hi_redo h) = e # rev (butlast (hi_redo h))" by (metis rev_eq_Cons_iff rev_rev_ident)
  have ok: "entry_ok t e" "redo_ok (rev (butlast (hi_redo h))) (spliced 0 (forward_of e) t)"
    using h(1) unfolding history_ok_def r by simp_all
  have cost: "he_byte_cost e < 2 ^ 63"
    using h(2) last_opt_in_set [OF e(1)] by (auto simp: history_within_def list_all_iff)
  let ?h = "h\<lparr>hi_redo := butlast (hi_redo h),
      hi_retained_bytes := sat_add_usize (hi_retained_bytes h) (he_byte_cost e), hi_undo := hi_undo h @ [e]\<rparr>"
  have "hi_retained_bytes ?h = entry_bytes (hi_undo ?h)"
    using h(2) cost by (auto simp: history_within_def within_budget_def small_sum)
  from enforce_budget_spec [OF this] obtain k where k: "h' = ?h\<lparr>hi_undo := drop k (hi_undo ?h),
      hi_retained_bytes := entry_bytes (drop k (hi_undo ?h))\<rparr>"
    "within_budget (hi_budget ?h) (drop k (hi_undo ?h))" unfolding h' by blast
  have "undo_ok (rev (hi_undo h @ [e])) (spliced 0 (forward_of e) t)"
    using undo_ok_push [OF ok(1)] h(1) by (simp add: history_ok_def del: undo_ok.simps)
  then have "undo_ok (rev (drop k (hi_undo h @ [e]))) (spliced 0 (forward_of e) t)"
    unfolding rev_drop_take by (rule undo_ok_take)
  then have "history_ok h' (spliced 0 (forward_of e) t)"
    using ok(2) unfolding k(1) history_ok_def by (simp del: undo_ok.simps)
  moreover have "history_within h'" using history_redo_within [OF h(2), of v] run by simp
  ultimately show ?thesis using e ok(1) by (intro that [of e])
qed

section \<open>Properties\<close>

text \<open>
  The history stays within its budget, by entries and by bytes, and its byte counter is the
  exact cost of what it holds: recording, undoing and redoing keep that. Recording drops the
  oldest entries only, and as few as the budget asks for.
\<close>

theorem history_keeps_its_budget:
  assumes "history_within h" "he_byte_cost e < 2 ^ 63"
  shows "history_within (history_record e h) \<and> history_within (snd (history_undo v h)) \<and>
    history_within (snd (history_redo v h)) \<and>
    (\<exists>k. hi_undo (history_record e h) = drop k (pushed e (hi_undo h)) \<and>
      (\<forall>j < k. \<not> within_budget (hi_budget h) (drop j (pushed e (hi_undo h)))))"
proof -
  obtain k where k: "history_record e h = h\<lparr>hi_redo := [], hi_undo := drop k (pushed e (hi_undo h)),
      hi_retained_bytes := entry_bytes (drop k (pushed e (hi_undo h)))\<rparr>"
    "within_budget (hi_budget h) (drop k (pushed e (hi_undo h)))"
    "\<forall>j < k. \<not> within_budget (hi_budget h) (drop j (pushed e (hi_undo h)))"
    by (rule history_record_spec [OF assms])
  have "history_within (history_record e h)"
    unfolding k(1) using k(2) assms(1) by (simp add: history_within_def)
  moreover have "history_within (snd (history_undo v h))"
    by (rule history_undo_within [OF assms(1)])
  moreover have "history_within (snd (history_redo v h))"
    by (rule history_redo_within [OF assms(1)])
  ultimately show ?thesis using k by auto
qed

definition example_entry :: "nat \<Rightarrow> string \<Rightarrow> history_entry" where
  "example_entry at text =
     \<lparr>he_forward = edit_transaction_insert 0 at (lit text),
      he_inverse = \<lparr>et_expected = 1, et_replacements =
        [replacement_new \<lparr>cr_start = at, cr_end = at + length text\<rparr> []]\<rparr>,
      he_kind = Typing, he_cursor_before = at, he_cursor_after = at + length text,
      he_byte_cost = length text\<rparr>"

definition example_history :: history where
  "example_history = history_record (example_entry 0 ''ab'') (history_new default_budget)"

lemma example_history_within: "history_within example_history"
  by (simp add: example_history_def history_record_def history_new_def last_opt_def enforce_budget_def
      example_entry_def sat_add_usize_def default_budget_def history_within_def within_budget_def)

theorem history_keeps_its_budget_witness:
  "history_within (history_record (example_entry 2 ''c'') example_history) \<and>
    history_within (snd (history_undo 0 example_history)) \<and>
    history_within (snd (history_redo 0 example_history)) \<and>
    (\<exists>k. hi_undo (history_record (example_entry 2 ''c'') example_history) =
        drop k (pushed (example_entry 2 ''c'') (hi_undo example_history)) \<and>
      (\<forall>j < k. \<not> within_budget (hi_budget example_history)
        (drop j (pushed (example_entry 2 ''c'') (hi_undo example_history)))))"
  by (rule history_keeps_its_budget [OF example_history_within]) (simp add: example_entry_def)

end
