(* ===== verification/RustPath.thy ===== *)
theory RustPath imports RustText begin

text \<open>
  Splitting and joining of strings, and paths as Rust's \<open>Path\<close> sees them on Unix: the components of a
  path, which equality and prefixes go by.
\<close>

section \<open>Splitting and joining\<close>

text \<open>\<open>str::split\<close> on a character and \<open>join\<close> with it.\<close>

fun split_on :: "scalar \<Rightarrow> rust_string \<Rightarrow> rust_string list" where
  "split_on c [] = [[]]"
| "split_on c (x # xs) =
     (if x = c then [] # split_on c xs
      else (case split_on c xs of [] \<Rightarrow> [[x]] | y # ys \<Rightarrow> (x # y) # ys))"

fun join_with :: "scalar \<Rightarrow> rust_string list \<Rightarrow> rust_string" where
  "join_with c [] = []"
| "join_with c [x] = x"
| "join_with c (x # y # ys) = x @ c # join_with c (y # ys)"

definition SLASH :: scalar where "SLASH = 47"

lemma split_on_nonempty [simp]: "split_on c s \<noteq> []"
  by (induction s) (auto split: list.splits)

lemma join_split [simp]: "join_with c (split_on c s) = s"
proof (induction s)
  case (Cons x s)
  then show ?case by (cases "split_on c s"; cases "tl (split_on c s)") (auto split: list.splits)
qed simp

lemma split_on_parts: "p \<in> set (split_on c s) \<Longrightarrow> c \<notin> set p"
  by (induction s arbitrary: p) (auto split: if_splits list.splits)

lemma split_on_chars: "p \<in> set (split_on c s) \<Longrightarrow> set p \<subseteq> set s"
proof (induction s arbitrary: p)
  case (Cons x s)
  from Cons.prems Cons.IH [of "hd (split_on c s)"] Cons.IH [of p] show ?case
    by (cases "split_on c s") (auto split: if_splits)
qed simp

lemma split_on_whole [simp]: "c \<notin> set p \<Longrightarrow> split_on c p = [p]"
  by (induction p) auto

lemma split_on_append [simp]: "c \<notin> set p \<Longrightarrow> split_on c (p @ c # s) = p # split_on c s"
  by (induction p) auto

lemma split_join: "ps \<noteq> [] \<Longrightarrow> \<forall>p \<in> set ps. c \<notin> set p \<Longrightarrow> split_on c (join_with c ps) = ps"
  by (induction c ps rule: join_with.induct) auto

lemma join_chars: "set (join_with c ps) \<subseteq> insert c (\<Union> (set ` set ps))"
  by (induction c ps rule: join_with.induct) auto

section \<open>Components\<close>

text \<open>
  \<open>Path::components\<close>: whether the path is absolute, and its components; repeated separators and
  inner dots do not count, a leading dot does. \<open>Path::strip_prefix\<close> gives what is left of the second path.
\<close>

definition path_components :: "path \<Rightarrow> bool \<times> path list" where
  "path_components p =
     (take 1 p = [SLASH],
      (if take 1 (split_on SLASH p) = [lit ''.''] then [lit ''.''] else []) @
      filter (\<lambda>part. part \<noteq> [] \<and> part \<noteq> lit ''.'') (split_on SLASH p))"

definition is_absolute :: "path \<Rightarrow> bool" where
  "is_absolute p = fst (path_components p)"

definition strip_prefix :: "path \<Rightarrow> path \<Rightarrow> path option" where
  "strip_prefix p base =
     (case (path_components p, path_components base) of
        ((a, ps), (b, bs)) \<Rightarrow>
          if a = b \<and> take (length bs) ps = bs then Some (join_with SLASH (drop (length bs) ps)) else None)"

text \<open>\<open>Path::join\<close> with a relative or an absolute path.\<close>

definition path_join :: "path \<Rightarrow> path \<Rightarrow> path" where
  "path_join base p =
     (if is_absolute p then p
      else if base = [] \<or> last base = SLASH then base @ p else base @ SLASH # p)"

end
