(* ===== verification/EditDocument.thy ===== *)
theory EditDocument imports EditHistory RustPath begin

text \<open>
  The document of strukt-editor (\<open>document.rs\<close>): workspace-relative paths, the status machine
  between the buffer, the text last saved and what happens on disk, edits with history, recovery
  of unsaved text. Every fallible operation returns its result and the document it leaves, or
  \<open>None\<close> when a rope operation would panic.
\<close>

section \<open>Workspace-relative paths\<close>

datatype document_error =
    InvalidPath rust_string
  | ReadOnly
  | NoDiskConflict
  | StaleEvent u64 u64
  | TransactionFailed transaction_error
  | HistoryFailed history_error

definition BACKSLASH :: scalar where "BACKSLASH = 92"

definition relative_document_path_new :: "rust_string \<Rightarrow> document_error + rust_string" where
  "relative_document_path_new path =
     (let normalized = map (\<lambda>c. if c = BACKSLASH then SLASH else c) path;
          invalid = (normalized = [] \<or> take 1 normalized = [SLASH] \<or> take 2 normalized = [SLASH, SLASH] \<or>
            nth_opt (as_bytes normalized) 1 = Some 58 \<or>
            list_ex (\<lambda>component. component = [] \<or> component = lit ''..'') (split_on SLASH normalized))
      in if invalid then Inl (InvalidPath path)
         else
           let normalized = join_with SLASH (filter (\<lambda>component. component \<noteq> lit ''.'') (split_on SLASH normalized))
           in if normalized = [] then Inl (InvalidPath path) else Inr normalized)"

section \<open>State\<close>

type_synonym disk_revision = rust_string

datatype document_status =
    Clean
  | Dirty
  | Conflict disk_revision rust_string
  | Missing

record 'r document =
  do_id :: u64
  do_path :: rust_string
  do_buffer :: "'r text_buffer"
  do_history :: history
  do_saved_text :: rust_string
  do_disk_revision :: disk_revision
  do_status :: document_status
  do_read_only :: bool
  do_recovered :: bool

text \<open>\<open>NEXT_DOCUMENT_ID\<close> is a process-wide counter: the identifier it yields is an argument.\<close>

definition document_new ::
  "'r rope_ops \<Rightarrow> u64 \<Rightarrow> rust_string \<Rightarrow> rust_string \<Rightarrow> disk_revision \<Rightarrow> bool \<Rightarrow> 'r document"
where
  "document_new R id' path text disk_revision read_only =
     \<lparr>do_id = id', do_path = path, do_buffer = text_buffer_new R text,
      do_history = history_new default_budget, do_saved_text = text,
      do_disk_revision = disk_revision, do_status = Clean, do_read_only = read_only,
      do_recovered = False\<rparr>"

definition document_text :: "'r rope_ops \<Rightarrow> 'r document \<Rightarrow> rust_string" where
  "document_text R d = buffer_string R (do_buffer d)"

definition document_revision :: "'r document \<Rightarrow> u64" where
  "document_revision d = tb_revision (do_buffer d)"

type_synonym 'r document_step = "((document_error + unit) \<times> 'r document) option"

section \<open>Operations\<close>

definition ensure_revision :: "u64 \<Rightarrow> 'r document \<Rightarrow> document_error + unit" where
  "ensure_revision expected d =
     (let actual = document_revision d in
      if expected \<noteq> actual then Inl (StaleEvent actual expected) else Inr ())"

definition refresh_dirty_status :: "'r rope_ops \<Rightarrow> 'r document \<Rightarrow> 'r document" where
  "refresh_dirty_status R d =
     (case do_status d of
        Clean \<Rightarrow> d\<lparr>do_status := if document_text R d = do_saved_text d then Clean else Dirty\<rparr>
      | Dirty \<Rightarrow> d\<lparr>do_status := if document_text R d = do_saved_text d then Clean else Dirty\<rparr>
      | _ \<Rightarrow> d)"

definition upgrade_read_only :: "'r rope_ops \<Rightarrow> rust_string \<Rightarrow> disk_revision \<Rightarrow> 'r document \<Rightarrow> 'r document" where
  "upgrade_read_only R text disk_revision d =
     (if \<not> do_read_only d then d
      else d\<lparr>do_buffer := text_buffer_new R text, do_history := history_new default_budget,
             do_saved_text := text, do_disk_revision := disk_revision, do_status := Clean,
             do_read_only := False\<rparr>)"

definition document_edit ::
  "'r rope_ops \<Rightarrow> edit_transaction \<Rightarrow> edit_kind \<Rightarrow> nat \<Rightarrow> nat \<Rightarrow> 'r document \<Rightarrow> 'r document_step"
where
  "document_edit R tx kind cursor_before cursor_after d =
     (if do_read_only d then Some (Inl ReadOnly, d)
      else do {
        (r, buffer) \<leftarrow> buffer_apply R tx (do_buffer d);
        let d = d\<lparr>do_buffer := buffer\<rparr>;
        Some (attempt (map_err TransactionFailed r) d (\<lambda>applied.
          (Inr (), refresh_dirty_status R
             (d\<lparr>do_history := history_record
                  (entry_from_applied tx applied kind cursor_before cursor_after) (do_history d)\<rparr>))))
      })"

definition document_undo :: "'r rope_ops \<Rightarrow> 'r document \<Rightarrow> 'r document_step" where
  "document_undo R d =
     (case history_undo (document_revision d) (do_history d) of
        (Inl e, history) \<Rightarrow> Some (Inl (HistoryFailed e), d\<lparr>do_history := history\<rparr>)
      | (Inr tx, history) \<Rightarrow> do {
          (r, buffer) \<leftarrow> buffer_apply R tx (do_buffer d);
          let d = d\<lparr>do_history := history, do_buffer := buffer\<rparr>;
          Some (attempt (map_err TransactionFailed r) d (\<lambda>_. (Inr (), refresh_dirty_status R d)))
        })"

definition document_redo :: "'r rope_ops \<Rightarrow> 'r document \<Rightarrow> 'r document_step" where
  "document_redo R d =
     (case history_redo (document_revision d) (do_history d) of
        (Inl e, history) \<Rightarrow> Some (Inl (HistoryFailed e), d\<lparr>do_history := history\<rparr>)
      | (Inr tx, history) \<Rightarrow> do {
          (r, buffer) \<leftarrow> buffer_apply R tx (do_buffer d);
          let d = d\<lparr>do_history := history, do_buffer := buffer\<rparr>;
          Some (attempt (map_err TransactionFailed r) d (\<lambda>_. (Inr (), refresh_dirty_status R d)))
        })"

definition complete_save :: "'r rope_ops \<Rightarrow> u64 \<Rightarrow> disk_revision \<Rightarrow> 'r document \<Rightarrow> (document_error + unit) \<times> 'r document"
where
  "complete_save R expected disk_revision d =
     attempt (ensure_revision expected d) d (\<lambda>_.
       (Inr (), d\<lparr>do_saved_text := document_text R d, do_disk_revision := disk_revision,
                  do_status := Clean, do_recovered := False\<rparr>))"

text \<open>The transaction that replaces the whole text, built at three places of the code.\<close>

definition whole_replacement :: "'r rope_ops \<Rightarrow> rust_string \<Rightarrow> 'r document \<Rightarrow> transaction_error + edit_transaction" where
  "whole_replacement R text d =
     edit_transaction_new (document_revision d)
       [replacement_new \<lparr>cr_start = 0, cr_end = length (document_text R d)\<rparr> text]"

definition observe_disk_change ::
  "'r rope_ops \<Rightarrow> u64 \<Rightarrow> disk_revision \<Rightarrow> rust_string \<Rightarrow> 'r document \<Rightarrow> 'r document_step"
where
  "observe_disk_change R expected disk_revision disk_text d =
     (case ensure_revision expected d of
        Inl e \<Rightarrow> Some (Inl e, d)
      | Inr _ \<Rightarrow>
          if do_status d = Clean then
            (case whole_replacement R disk_text d of
               Inl e \<Rightarrow> Some (Inl (TransactionFailed e), d)
             | Inr tx \<Rightarrow> do {
                 (r, buffer) \<leftarrow> buffer_apply R tx (do_buffer d);
                 let d = d\<lparr>do_buffer := buffer\<rparr>;
                 Some (attempt (map_err TransactionFailed r) d (\<lambda>_.
                   (Inr (), d\<lparr>do_history := history_new default_budget, do_saved_text := disk_text,
                              do_disk_revision := disk_revision, do_status := Clean\<rparr>)))
               })
          else Some (Inr (), d\<lparr>do_status := Conflict disk_revision disk_text\<rparr>))"

definition observe_missing :: "u64 \<Rightarrow> 'r document \<Rightarrow> (document_error + unit) \<times> 'r document" where
  "observe_missing expected d =
     attempt (ensure_revision expected d) d (\<lambda>_. (Inr (), d\<lparr>do_status := Missing\<rparr>))"

definition reload_from_disk :: "'r rope_ops \<Rightarrow> 'r document \<Rightarrow> 'r document_step" where
  "reload_from_disk R d =
     (case do_status d of
        Conflict disk_revision disk_text \<Rightarrow>
          (case whole_replacement R disk_text d of
             Inl e \<Rightarrow> Some (Inl (TransactionFailed e), d)
           | Inr tx \<Rightarrow> do {
               (r, buffer) \<leftarrow> buffer_apply R tx (do_buffer d);
               let d = d\<lparr>do_buffer := buffer\<rparr>;
               Some (attempt (map_err TransactionFailed r) d (\<lambda>applied.
                 (Inr (), d\<lparr>do_history := history_record
                                (entry_from_applied tx applied OtherEdit 0 0) (do_history d),
                            do_saved_text := disk_text, do_disk_revision := disk_revision,
                            do_status := Clean, do_recovered := False\<rparr>)))
             })
      | _ \<Rightarrow> Some (Inl NoDiskConflict, d))"

definition keep_editing :: "'r document \<Rightarrow> (document_error + unit) \<times> 'r document" where
  "keep_editing d =
     (case do_status d of
        Conflict _ _ \<Rightarrow> (Inr (), d\<lparr>do_status := Dirty\<rparr>)
      | _ \<Rightarrow> (Inl NoDiskConflict, d))"

definition mark_recovered :: "'r document \<Rightarrow> 'r document" where
  "mark_recovered d =
     (let d = d\<lparr>do_recovered := True\<rparr> in
      if do_status d = Clean then d\<lparr>do_status := Dirty\<rparr> else d)"

definition restore_recovery :: "'r rope_ops \<Rightarrow> rust_string \<Rightarrow> 'r document \<Rightarrow> 'r document_step" where
  "restore_recovery R text d =
     (if document_text R d \<noteq> text then
        (case whole_replacement R text d of
           Inl e \<Rightarrow> Some (Inl (TransactionFailed e), d)
         | Inr tx \<Rightarrow> do {
             (r, buffer) \<leftarrow> buffer_apply R tx (do_buffer d);
             let d = d\<lparr>do_buffer := buffer\<rparr>;
             Some (attempt (map_err TransactionFailed r) d (\<lambda>_.
               (Inr (), mark_recovered (d\<lparr>do_history := history_new default_budget\<rparr>))))
           })
      else Some (Inr (), mark_recovered d))"

definition is_recoverable :: "'r document \<Rightarrow> bool" where
  "is_recoverable d \<longleftrightarrow> do_recovered d \<or> do_status d \<noteq> Clean"

definition is_preview_replaceable :: "'r document \<Rightarrow> bool" where
  "is_preview_replaceable d \<longleftrightarrow> \<not> is_recoverable d"

section \<open>The invariant\<close>

text \<open>
  Sizes are bounded so that no byte or revision arithmetic can wrap: a text has fewer than
  \<open>2 ^ 60\<close> characters.
\<close>

definition text_small :: "rust_string \<Rightarrow> bool" where
  "text_small t \<longleftrightarrow> length t < 2 ^ 60"

definition edit_small :: "rust_string \<Rightarrow> replacement list \<Rightarrow> bool" where
  "edit_small t rs \<longleftrightarrow> length t + (\<Sum>r \<leftarrow> rs. length (rp_text r)) < 2 ^ 60"

definition doc_ok :: "'r rope_ops \<Rightarrow> 'r document \<Rightarrow> bool" where
  "doc_ok R d \<longleftrightarrow>
     history_ok (do_history d) (document_text R d) \<and> history_within (do_history d) \<and>
     hi_budget (do_history d) = default_budget \<and>
     (do_status d = Clean \<longrightarrow> document_text R d = do_saved_text d)"

lemma history_budget_kept [simp]:
  "hi_budget (history_new b) = b" "hi_budget (enforce_budget h) = hi_budget h"
  "hi_budget (history_record e h) = hi_budget h"
  "hi_budget (snd (history_undo v h)) = hi_budget h" "hi_budget (snd (history_redo v h)) = hi_budget h"
  by (simp_all add: history_new_def enforce_budget_def history_record_def history_undo_def history_redo_def
      attempt_def ok_or_def Let_def split: prod.split option.split)

lemma str_len_bound: "str_len s \<le> 4 * length s"
proof (induction s)
  case (Cons c s)
  then show ?case using len_utf8_le [of c] by simp
qed simp

lemma inserted_bound: "(\<Sum>x \<leftarrow> rs. str_len (rp_text x)) \<le> 4 * (\<Sum>r \<leftarrow> rs. length (rp_text r))"
proof (induction rs)
  case (Cons r rs)
  then show ?case using str_len_bound [of "rp_text r"] by simp
qed simp

lemma removed_bound:
  "ordered_from pos rs (length t) \<Longrightarrow>
    (\<Sum>x \<leftarrow> rs. str_len (take (rp_end x - rp_start x) (drop (rp_start x) t))) + 4 * pos \<le> 4 * length t"
proof (induction rs arbitrary: pos)
  case (Cons r rs)
  let ?x = "take (rp_end r - rp_start r) (drop (rp_start r) t)"
  have "str_len ?x \<le> 4 * (rp_end r - rp_start r)"
    using str_len_bound [of ?x] by simp
  with Cons show ?case by fastforce
qed simp

lemma applied_entry:
  fixes kind :: edit_kind and before after :: nat
  assumes o: "ordered_from 0 (et_replacements tx) (length (buffer_string R b))"
    and small: "edit_small (buffer_string R b) (et_replacements tx)"
  defines "e \<equiv> entry_from_applied tx (applied_record R (et_replacements tx) b) kind before after"
  shows "entry_ok (buffer_string R b) e" "he_byte_cost e < 2 ^ 63" "forward_of e = et_replacements tx"
proof -
  have len: "length (spliced 0 (et_replacements tx) (buffer_string R b)) < 2 ^ 60"
    using length_splice [OF o] small by (simp add: edit_small_def)
  show f: "forward_of e = et_replacements tx" by (simp add: e_def entry_from_applied_def)
  have t: "length (buffer_string R b) < 2 ^ 60" using small by (simp add: edit_small_def)
  show "entry_ok (buffer_string R b) e"
    using o len t by (simp add: entry_ok_def f) (simp add: e_def entry_from_applied_def applied_record_def Let_def)
  show "he_byte_cost e < 2 ^ 63"
    using removed_bound [OF o] inserted_bound [of "et_replacements tx"] small
    by (simp add: e_def entry_from_applied_def applied_record_def Let_def edit_small_def)
qed

lemma edit_small_fits: "edit_small t rs \<Longrightarrow> edit_fits t rs"
  by (simp add: edit_small_def edit_fits_def)

lemma edit_small_built:
  "edit_transaction_new v rs = Inr tx \<Longrightarrow> edit_small t (et_replacements tx) \<longleftrightarrow> edit_small t rs"
proof -
  assume "edit_transaction_new v rs = Inr tx"
  then have "mset (et_replacements tx) = mset rs"
    by (auto simp: edit_transaction_new_def Let_def split: if_splits)
  then have "(\<Sum>r \<leftarrow> et_replacements tx. length (rp_text r)) = (\<Sum>r \<leftarrow> rs. length (rp_text r))"
    by (simp only: sum_mset_sum_list [symmetric] mset_map)
  then show ?thesis by (simp add: edit_small_def)
qed

section \<open>Where a step lands\<close>

text \<open>A step either keeps text and revision or moves to a later revision.\<close>

definition advances :: "'r rope_ops \<Rightarrow> 'r document \<Rightarrow> 'r document \<Rightarrow> bool" where
  "advances R d d' \<longleftrightarrow>
     document_revision d < document_revision d' \<or>
     document_revision d' = document_revision d \<and> document_text R d' = document_text R d"

lemma advances_refl [simp]: "advances R d d"
  by (simp add: advances_def)

lemma advances_trans: "advances R d1 d2 \<Longrightarrow> advances R d2 d3 \<Longrightarrow> advances R d1 d3"
  by (auto simp: advances_def)

lemma next_revision_less: "v \<noteq> - 1 \<Longrightarrow> v < v + (1 :: u64)"
  using sat_inc_neq [of v] sat_inc_mono [of v] by (simp add: sat_inc_def order_less_le)

lemma advances_next: "document_revision d' = document_revision d + 1 \<Longrightarrow> document_revision d \<noteq> - 1 \<Longrightarrow> advances R d d'"
  by (simp add: advances_def next_revision_less)

definition lands :: "'r document_step \<Rightarrow> ((document_error + unit) \<Rightarrow> 'r document \<Rightarrow> bool) \<Rightarrow> bool" where
  "lands m Q \<longleftrightarrow> (case m of None \<Rightarrow> False | Some (r, d) \<Rightarrow> Q r d)"

lemma refresh_fields [simp]:
  "do_history (refresh_dirty_status R d) = do_history d"
  "do_buffer (refresh_dirty_status R d) = do_buffer d"
  "do_saved_text (refresh_dirty_status R d) = do_saved_text d"
  "do_recovered (refresh_dirty_status R d) = do_recovered d"
  "do_read_only (refresh_dirty_status R d) = do_read_only d"
  "do_id (refresh_dirty_status R d) = do_id d"
  "do_path (refresh_dirty_status R d) = do_path d"
  "document_text R (refresh_dirty_status R d) = document_text R d"
  by (auto simp: refresh_dirty_status_def document_text_def split: document_status.splits)

lemma refresh_clean: "do_status (refresh_dirty_status R d) = Clean \<Longrightarrow> document_text R d = do_saved_text d"
  by (auto simp: refresh_dirty_status_def split: document_status.splits if_splits)

lemma doc_ok_refresh:
  "history_ok (do_history d) (document_text R d) \<Longrightarrow> history_within (do_history d) \<Longrightarrow>
    hi_budget (do_history d) = default_budget \<Longrightarrow> doc_ok R (refresh_dirty_status R d)"
  by (auto simp: doc_ok_def dest: refresh_clean)

lemma history_new_ok: "history_ok (history_new default_budget) t" "history_within (history_new default_budget)"
  by (simp_all add: history_ok_def history_new_def history_within_def within_budget_def default_budget_def)

lemma doc_ok_new: "rope_laws R \<Longrightarrow> doc_ok R (document_new R i p t v ro)"
  by (simp add: doc_ok_def document_new_def document_text_def history_new_ok text_buffer_new_def
      buffer_string_def rope_law)

definition edit_outcome :: "'r rope_ops \<Rightarrow> edit_transaction \<Rightarrow> 'r document \<Rightarrow> (document_error + unit) \<Rightarrow> 'r document \<Rightarrow> bool" where
  "edit_outcome R tx d r d' \<longleftrightarrow>
     doc_ok R d' \<and>
     (case r of
        Inl _ \<Rightarrow> d' = d
      | Inr _ \<Rightarrow> document_text R d' = spliced 0 (et_replacements tx) (document_text R d) \<and>
          document_revision d' = document_revision d + 1 \<and> document_revision d \<noteq> - 1 \<and> \<not> do_read_only d)"

lemma document_edit_lands:
  assumes R: "rope_laws R" and d: "doc_ok R d" and new: "edit_transaction_new v rs = Inr tx" "valid_ranges rs"
    and small: "edit_small (document_text R d) rs"
  shows "lands (document_edit R tx kind before after d) (edit_outcome R tx d)"
proof (cases "do_read_only d")
  case True
  with d show ?thesis by (simp add: lands_def document_edit_def edit_outcome_def)
next
  case False
  have fits: "edit_fits (buffer_string R (do_buffer d)) rs"
    using small by (simp add: edit_small_fits document_text_def)
  from buffer_apply_built [OF R new fits] show ?thesis
  proof (elim disjE exE conjE)
    fix e
    assume "buffer_apply R tx (do_buffer d) = Some (Inl e, do_buffer d)"
    with False d show ?thesis by (simp add: lands_def document_edit_def edit_outcome_def Let_def)
  next
    fix b'
    assume o: "ordered_from 0 (et_replacements tx) (length (buffer_string R (do_buffer d)))"
      and e: "edited_to R (et_replacements tx) (do_buffer d) b'"
      and run: "buffer_apply R tx (do_buffer d) = Some (Inr (applied_record R (et_replacements tx) (do_buffer d)), b')"
    have "edit_small (buffer_string R (do_buffer d)) (et_replacements tx)"
      using small by (simp add: edit_small_built [OF new(1)] document_text_def)
    note entry = applied_entry [OF o this, of kind before after]
    let ?e = "entry_from_applied tx (applied_record R (et_replacements tx) (do_buffer d)) kind before after"
    note rec = history_record_ok [OF _ _ entry(1,2), of "do_history d"]
    let ?d = "d\<lparr>do_buffer := b', do_history := history_record ?e (do_history d)\<rparr>"
    have "doc_ok R (refresh_dirty_status R ?d)"
      using rec d e entry(3) by (intro doc_ok_refresh) (simp_all add: doc_ok_def document_text_def edited_to_def)
    with run False e buffer_apply_Inr(2) [OF run] show ?thesis
      by (simp add: lands_def document_edit_def edit_outcome_def Let_def document_text_def
          document_revision_def edited_to_def)
  qed
qed

lemma retarget_simps [simp]:
  "et_expected (retarget tx v) = v" "et_replacements (retarget tx v) = et_replacements tx"
  by (simp_all add: retarget_def)

text \<open>Undo and redo on a document whose revision counter is not exhausted.\<close>

definition undo_outcome :: "'r rope_ops \<Rightarrow> 'r document \<Rightarrow> (document_error + unit) \<Rightarrow> 'r document \<Rightarrow> bool" where
  "undo_outcome R d r d' \<longleftrightarrow>
     (case r of
        Inl e \<Rightarrow> e = HistoryFailed NothingToUndo \<and> hi_undo (do_history d) = [] \<and> d' = d
      | Inr _ \<Rightarrow> doc_ok R d' \<and> document_revision d' = document_revision d + 1 \<and>
          (\<exists>e. hi_undo (do_history d) = hi_undo (do_history d') @ [e] \<and>
            last_opt (hi_redo (do_history d')) = Some e \<and> entry_ok (document_text R d') e \<and>
            document_text R d' = spliced 0 (inverse_of e) (document_text R d) \<and>
            spliced 0 (forward_of e) (document_text R d') = document_text R d))"

lemma history_undo_error:
  "history_undo v h = (Inl e, h') \<longleftrightarrow> hi_undo h = [] \<and> e = NothingToUndo \<and> h' = h"
  by (auto simp: history_undo_def outcome last_opt_def)

lemma history_redo_error:
  "history_redo v h = (Inl e, h') \<longleftrightarrow> hi_redo h = [] \<and> e = NothingToRedo \<and> h' = h"
  by (auto simp: history_redo_def outcome last_opt_def)

lemma document_undo_lands:
  assumes R: "rope_laws R" and d: "doc_ok R d" and rev: "document_revision d \<noteq> - 1"
  shows "lands (document_undo R d) (undo_outcome R d)"
proof (cases "history_undo (document_revision d) (do_history d)")
  case (Pair r h)
  show ?thesis
  proof (cases r)
    case (Inl e)
    with Pair have run: "history_undo (document_revision d) (do_history d) = (Inl e, h)" by simp
    then have "hi_undo (do_history d) = [] \<and> e = NothingToUndo \<and> h = do_history d"
      by (simp only: history_undo_error)
    with run show ?thesis by (simp add: lands_def document_undo_def undo_outcome_def)
  next
    case (Inr tx)
    have h: "history_ok (do_history d) (document_text R d)" "history_within (do_history d)"
      using d by (simp_all add: doc_ok_def)
    have budget: "hi_budget h = default_budget"
      using history_budget_kept(4) [of "document_revision d" "do_history d"] Pair d by (simp add: doc_ok_def)
    obtain e where e: "tx = retarget (he_inverse e) (document_revision d)"
      "history_ok h (spliced 0 (inverse_of e) (document_text R d))" "history_within h"
      "ordered_from 0 (inverse_of e) (length (document_text R d))"
      "entry_ok (spliced 0 (inverse_of e) (document_text R d)) e"
      "spliced 0 (forward_of e) (spliced 0 (inverse_of e) (document_text R d)) = document_text R d"
      "last_opt (hi_redo h) = Some e" "hi_undo (do_history d) = hi_undo h @ [e]"
      by (rule history_undo_ok [OF h, of "document_revision d" tx h]) (use Pair Inr in auto)
    have o: "ordered_from 0 (et_replacements tx) (length (buffer_string R (do_buffer d)))"
      using e(1,4) by (simp add: document_text_def)
    have small: "length (spliced 0 (et_replacements tx) (buffer_string R (do_buffer d))) < 2 ^ 64"
      using e(1,5) by (simp add: entry_ok_def document_text_def)
    have ex: "et_expected tx = tb_revision (do_buffer d)" "tb_revision (do_buffer d) \<noteq> - 1"
      using e(1) rev by (simp_all add: document_revision_def)
    obtain b' where b': "buffer_apply R tx (do_buffer d) =
        Some (Inr (applied_record R (et_replacements tx) (do_buffer d)), b')"
      "edited_to R (et_replacements tx) (do_buffer d) b'"
      by (rule buffer_apply_accepted [OF R o ex small])
    let ?d = "d\<lparr>do_history := h, do_buffer := b'\<rparr>"
    have after: "document_text R ?d = spliced 0 (inverse_of e) (document_text R d)"
      using b'(2) e(1) by (simp add: edited_to_def document_text_def)
    then have "doc_ok R (refresh_dirty_status R ?d)"
      using e(2,3) budget by (intro doc_ok_refresh) simp_all
    with Pair Inr b' e after show ?thesis
      by (simp add: lands_def document_undo_def undo_outcome_def Let_def edited_to_def document_revision_def)
  qed
qed

definition redo_outcome :: "'r rope_ops \<Rightarrow> 'r document \<Rightarrow> (document_error + unit) \<Rightarrow> 'r document \<Rightarrow> bool" where
  "redo_outcome R d r d' \<longleftrightarrow>
     (case r of
        Inl e \<Rightarrow> e = HistoryFailed NothingToRedo \<and> hi_redo (do_history d) = [] \<and> d' = d
      | Inr _ \<Rightarrow> doc_ok R d' \<and> document_revision d' = document_revision d + 1 \<and>
          (\<exists>e. last_opt (hi_redo (do_history d)) = Some e \<and>
            document_text R d' = spliced 0 (forward_of e) (document_text R d)))"

lemma document_redo_lands:
  assumes R: "rope_laws R" and d: "doc_ok R d" and rev: "document_revision d \<noteq> - 1"
  shows "lands (document_redo R d) (redo_outcome R d)"
proof (cases "history_redo (document_revision d) (do_history d)")
  case (Pair r h)
  show ?thesis
  proof (cases r)
    case (Inl e)
    with Pair have run: "history_redo (document_revision d) (do_history d) = (Inl e, h)" by simp
    then have "hi_redo (do_history d) = [] \<and> e = NothingToRedo \<and> h = do_history d"
      by (simp only: history_redo_error)
    with run show ?thesis by (simp add: lands_def document_redo_def redo_outcome_def)
  next
    case (Inr tx)
    have h: "history_ok (do_history d) (document_text R d)" "history_within (do_history d)"
      using d by (simp_all add: doc_ok_def)
    have budget: "hi_budget h = default_budget"
      using history_budget_kept(5) [of "document_revision d" "do_history d"] Pair d by (simp add: doc_ok_def)
    obtain e where e: "tx = retarget (he_forward e) (document_revision d)"
      "history_ok h (spliced 0 (forward_of e) (document_text R d))" "history_within h"
      "entry_ok (document_text R d) e" "last_opt (hi_redo (do_history d)) = Some e"
      by (rule history_redo_ok [OF h, of "document_revision d" tx h]) (use Pair Inr in auto)
    have o: "ordered_from 0 (et_replacements tx) (length (buffer_string R (do_buffer d)))"
      and small: "length (spliced 0 (et_replacements tx) (buffer_string R (do_buffer d))) < 2 ^ 64"
      using e(1,4) by (simp_all add: document_text_def entry_ok_def)
    have ex: "et_expected tx = tb_revision (do_buffer d)" "tb_revision (do_buffer d) \<noteq> - 1"
      using e(1) rev by (simp_all add: document_revision_def)
    obtain b' where b': "buffer_apply R tx (do_buffer d) =
        Some (Inr (applied_record R (et_replacements tx) (do_buffer d)), b')"
      "edited_to R (et_replacements tx) (do_buffer d) b'"
      by (rule buffer_apply_accepted [OF R o ex small])
    let ?d = "d\<lparr>do_history := h, do_buffer := b'\<rparr>"
    have after: "document_text R ?d = spliced 0 (forward_of e) (document_text R d)"
      using b'(2) e(1) by (simp add: edited_to_def document_text_def)
    then have "doc_ok R (refresh_dirty_status R ?d)"
      using e(2,3) budget by (intro doc_ok_refresh) simp_all
    with Pair Inr b' e after show ?thesis
      by (simp add: lands_def document_redo_def redo_outcome_def Let_def edited_to_def document_revision_def)
  qed
qed

section \<open>Replacing the whole text\<close>

lemma whole_replacement_ok:
  "whole_replacement R text d = Inr \<lparr>et_expected = document_revision d, et_replacements =
    [\<lparr>rp_range = \<lparr>cr_start = 0, cr_end = length (document_text R d)\<rparr>, rp_text = text\<rparr>]\<rparr>"
  by (simp add: whole_replacement_def edit_transaction_new_def replacement_new_def)

lemma whole_apply:
  assumes R: "rope_laws R" and tx: "whole_replacement R text d = Inr tx" and small: "length text < 2 ^ 64"
    and rev: "document_revision d \<noteq> - 1"
  obtains b' where "buffer_apply R tx (do_buffer d) =
      Some (Inr (applied_record R (et_replacements tx) (do_buffer d)), b')"
    "buffer_string R b' = text" "tb_revision b' = document_revision d + 1"
    "ordered_from 0 (et_replacements tx) (length (document_text R d))"
    "spliced 0 (et_replacements tx) (document_text R d) = text"
    "(\<Sum>r \<leftarrow> et_replacements tx. length (rp_text r)) = length text"
proof -
  have t: "et_expected tx = tb_revision (do_buffer d)" "et_replacements tx =
      [\<lparr>rp_range = \<lparr>cr_start = 0, cr_end = length (document_text R d)\<rparr>, rp_text = text\<rparr>]"
    using tx by (auto simp: whole_replacement_ok document_revision_def)
  have o: "ordered_from 0 (et_replacements tx) (length (buffer_string R (do_buffer d)))"
    and sp: "spliced 0 (et_replacements tx) (buffer_string R (do_buffer d)) = text"
    by (simp_all add: t document_text_def)
  have "tb_revision (do_buffer d) \<noteq> - 1" "length (spliced 0 (et_replacements tx) (buffer_string R (do_buffer d))) < 2 ^ 64"
    using rev sp small by (simp_all add: document_revision_def)
  from buffer_apply_accepted [OF R o t(1) this] obtain b' where "buffer_apply R tx (do_buffer d) =
      Some (Inr (applied_record R (et_replacements tx) (do_buffer d)), b')"
    "edited_to R (et_replacements tx) (do_buffer d) b'" by blast
  then show ?thesis
    using o sp t(2) by (intro that [of b']) (simp_all add: edited_to_def document_text_def document_revision_def)
qed

lemma observe_disk_change_lands:
  assumes R: "rope_laws R" and d: "doc_ok R d" and rev: "document_revision d \<noteq> - 1" and small: "length text < 2 ^ 64"
  shows "lands (observe_disk_change R expected v text d) (\<lambda>r d'. doc_ok R d' \<and> advances R d d' \<and>
    (case r of Inl e \<Rightarrow> e = StaleEvent (document_revision d) expected \<and> expected \<noteq> document_revision d \<and> d' = d
     | Inr _ \<Rightarrow> expected = document_revision d \<and>
        (if do_status d = Clean then document_text R d' = text \<and> do_status d' = Clean
         else document_text R d' = document_text R d \<and> do_status d' = Conflict v text)))"
proof -
  consider "expected \<noteq> document_revision d" | "expected = document_revision d" "do_status d \<noteq> Clean"
    | "expected = document_revision d" "do_status d = Clean" by blast
  then show ?thesis
  proof cases
    case 3
    obtain tx where tx: "whole_replacement R text d = Inr tx" by (simp add: whole_replacement_ok)
    obtain b' where b': "buffer_apply R tx (do_buffer d) =
        Some (Inr (applied_record R (et_replacements tx) (do_buffer d)), b')" "buffer_string R b' = text"
      "tb_revision b' = document_revision d + 1"
      by (rule whole_apply [OF R tx small rev])
    with 3 tx next_revision_less [OF rev] show ?thesis
      by (simp add: lands_def observe_disk_change_def ensure_revision_def Let_def doc_ok_def
          document_text_def history_new_ok advances_def document_revision_def)
  qed (use d in \<open>simp_all add: lands_def observe_disk_change_def ensure_revision_def Let_def doc_ok_def
    document_text_def advances_def document_revision_def\<close>)
qed

lemma reload_from_disk_lands:
  assumes R: "rope_laws R" and d: "doc_ok R d" and rev: "document_revision d \<noteq> - 1"
    and conflict: "do_status d = Conflict v text" and small: "length (document_text R d) + length text < 2 ^ 60"
  obtains d' e where "reload_from_disk R d = Some (Inr (), d')" "doc_ok R d'" "document_text R d' = text"
    "do_status d' = Clean" "do_disk_revision d' = v" "do_saved_text d' = text" "\<not> do_recovered d'"
    "document_revision d' = document_revision d + 1"
    "forward_of e = [\<lparr>rp_range = \<lparr>cr_start = 0, cr_end = length (document_text R d)\<rparr>, rp_text = text\<rparr>]"
    "he_kind e = OtherEdit" "do_history d' = history_record e (do_history d)" "he_byte_cost e < 2 ^ 63"
    "entry_ok (document_text R d) e" "he_byte_cost e = str_len text + str_len (document_text R d)"
proof -
  obtain tx where tx: "whole_replacement R text d = Inr tx" by (simp add: whole_replacement_ok)
  have "length text < 2 ^ 64" using small by simp
  then obtain b' where b': "buffer_apply R tx (do_buffer d) =
      Some (Inr (applied_record R (et_replacements tx) (do_buffer d)), b')" "buffer_string R b' = text"
    "tb_revision b' = document_revision d + 1"
    "ordered_from 0 (et_replacements tx) (length (document_text R d))"
    "spliced 0 (et_replacements tx) (document_text R d) = text"
    "(\<Sum>r \<leftarrow> et_replacements tx. length (rp_text r)) = length text"
    by (rule whole_apply [OF R tx _ rev])
  have "edit_small (buffer_string R (do_buffer d)) (et_replacements tx)"
    using small b'(6) by (simp add: edit_small_def document_text_def)
  note entry = applied_entry [OF b'(4) [unfolded document_text_def] this, of OtherEdit 0 0]
  let ?e = "entry_from_applied tx (applied_record R (et_replacements tx) (do_buffer d)) OtherEdit 0 0"
  let ?d = "d\<lparr>do_buffer := b', do_history := history_record ?e (do_history d), do_saved_text := text,
    do_disk_revision := v, do_status := Clean, do_recovered := False\<rparr>"
  have run: "reload_from_disk R d = Some (Inr (), ?d)"
    using conflict tx b'(1) by (simp add: reload_from_disk_def Let_def)
  have "doc_ok R ?d"
    using history_record_ok [OF _ _ entry(1,2), of "do_history d"] d entry(3) b'(2,5)
    by (simp add: doc_ok_def document_text_def)
  moreover have "forward_of ?e = [\<lparr>rp_range = \<lparr>cr_start = 0, cr_end = length (document_text R d)\<rparr>, rp_text = text\<rparr>]"
    using entry(3) tx by (auto simp: whole_replacement_ok)
  moreover have "he_kind ?e = OtherEdit" by (simp add: entry_from_applied_def)
  moreover have "he_byte_cost ?e = str_len text + str_len (document_text R d)"
    using tx by (auto simp: entry_from_applied_def applied_record_def whole_replacement_ok document_text_def Let_def)
  ultimately show ?thesis
    using run b' entry(1,2) by (intro that [of ?d ?e]) (simp_all add: document_text_def document_revision_def)
qed

lemma doc_ok_mark: "doc_ok R d \<Longrightarrow> doc_ok R (mark_recovered d)"
  by (auto simp: doc_ok_def mark_recovered_def Let_def document_text_def)

lemma mark_recovered_fields [simp]:
  "document_text R (mark_recovered d) = document_text R d" "do_recovered (mark_recovered d)"
  "do_read_only (mark_recovered d) = do_read_only d" "do_status (mark_recovered d) \<noteq> Clean"
  "document_revision (mark_recovered d) = document_revision d" "do_id (mark_recovered d) = do_id d"
  "do_path (mark_recovered d) = do_path d"
  by (simp_all add: mark_recovered_def Let_def document_text_def document_revision_def)

lemma restore_recovery_lands:
  assumes R: "rope_laws R" and d: "doc_ok R d" and rev: "document_revision d \<noteq> - 1" and small: "length text < 2 ^ 64"
  shows "\<exists>d'. restore_recovery R text d = Some (Inr (), d') \<and> doc_ok R d' \<and> document_text R d' = text \<and>
    do_recovered d' \<and> do_status d' \<noteq> Clean \<and> do_read_only d' = do_read_only d \<and> advances R d d'"
proof (cases "document_text R d = text")
  case True
  with d show ?thesis by (simp add: restore_recovery_def doc_ok_mark advances_def)
next
  case False
  obtain tx where tx: "whole_replacement R text d = Inr tx" by (simp add: whole_replacement_ok)
  obtain b' where b': "buffer_apply R tx (do_buffer d) =
      Some (Inr (applied_record R (et_replacements tx) (do_buffer d)), b')" "buffer_string R b' = text"
    "tb_revision b' = document_revision d + 1"
    by (rule whole_apply [OF R tx small rev])
  have "advances R d (mark_recovered (d\<lparr>do_buffer := b', do_history := history_new default_budget\<rparr>))"
    using b'(3) by (intro advances_next rev) (simp add: document_revision_def [of "d\<lparr>do_buffer := b', do_history := history_new default_budget\<rparr>"])
  moreover let ?d = "d\<lparr>do_buffer := b', do_history := history_new default_budget\<rparr>"
  have "restore_recovery R text d = Some (Inr (), mark_recovered ?d)"
    using False tx b'(1) by (simp add: restore_recovery_def Let_def)
  moreover have "doc_ok R (mark_recovered ?d)"
    by (auto simp: doc_ok_def history_new_ok mark_recovered_def Let_def document_text_def)
  ultimately show ?thesis using b'(2) by (simp add: document_text_def [of R ?d])
qed

end
