(* ===== verification/EditWorkspace.thy ===== *)
theory EditWorkspace imports EditDocument begin

text \<open>
  The editor workspace of strukt-editor (\<open>tabs.rs\<close>): the open documents in tab order, the active
  one and the one shown as a replaceable preview. An operation that reaches a rope is \<open>None\<close> when
  the rope would panic, and its result with the workspace it leaves otherwise.
\<close>

section \<open>State\<close>

datatype open_disposition = Preview | Pinned
datatype close_decision = Save | Discard | Cancel
datatype close_outcome = Closed | NeedsDecision | SaveRequired | Cancelled

datatype workspace_error =
    DocumentNotFound u64
  | DocumentFailed document_error

record editor_tab_view =
  tv_id :: u64
  tv_path :: rust_string
  tv_pinned :: bool
  tv_active :: bool
  tv_recoverable :: bool

record editor_view_state =
  vs_workspace_id :: rust_string
  vs_tabs :: "editor_tab_view list"
  vs_active :: "u64 option"

record 'r workspace =
  ew_workspace_id :: rust_string
  ew_documents :: "'r document list"
  ew_active :: "u64 option"
  ew_preview :: "u64 option"

type_synonym ('r, 'a) workspace_step = "((workspace_error + 'a) \<times> 'r workspace) option"

definition workspace_new :: "rust_string \<Rightarrow> 'r workspace" where
  "workspace_new workspace_id =
     \<lparr>ew_workspace_id = workspace_id, ew_documents = [], ew_active = None, ew_preview = None\<rparr>"

section \<open>Helpers\<close>

definition document_at :: "u64 \<Rightarrow> 'r workspace \<Rightarrow> 'r document option" where
  "document_at id' w = find (\<lambda>d. do_id d = id') (ew_documents w)"

text \<open>\<open>document_mut\<close> and the operation run on the document it returns.\<close>

definition with_document :: "u64 \<Rightarrow> ('r document \<Rightarrow> 'r document_step) \<Rightarrow> 'r workspace \<Rightarrow> ('r, unit) workspace_step" where
  "with_document id' f w =
     (case position (\<lambda>d. do_id d = id') (ew_documents w) of
        None \<Rightarrow> Some (Inl (DocumentNotFound id'), w)
      | Some i \<Rightarrow> do {
          (r, d) \<leftarrow> f (ew_documents w ! i);
          Some (map_err DocumentFailed r, w\<lparr>ew_documents := (ew_documents w)[i := d]\<rparr>)
        })"

definition pin :: "u64 \<Rightarrow> 'r workspace \<Rightarrow> (workspace_error + unit) \<times> 'r workspace" where
  "pin id' w =
     attempt (ok_or (document_at id' w) (DocumentNotFound id')) w (\<lambda>_.
       (Inr (), if ew_preview w = Some id' then w\<lparr>ew_preview := None\<rparr> else w))"

definition remove_document :: "u64 \<Rightarrow> 'r workspace \<Rightarrow> 'r workspace" where
  "remove_document id' w =
     (case position (\<lambda>d. do_id d = id') (ew_documents w) of
        None \<Rightarrow> w
      | Some index \<Rightarrow>
          let documents = remove_at index (ew_documents w);
              w = w\<lparr>ew_documents := documents\<rparr>;
              w = (if ew_preview w = Some id' then w\<lparr>ew_preview := None\<rparr> else w)
          in if ew_active w = Some id'
             then w\<lparr>ew_active := map_option do_id
                    (case nth_opt documents (index - 1) of None \<Rightarrow> nth_opt documents index | Some d \<Rightarrow> Some d)\<rparr>
             else w)"

definition clear_replaceable_preview :: "'r workspace \<Rightarrow> 'r workspace" where
  "clear_replaceable_preview w =
     (case ew_preview w of
        None \<Rightarrow> w
      | Some id' \<Rightarrow>
          let w = w\<lparr>ew_preview := None\<rparr> in
          (case document_at id' w of
             Some d \<Rightarrow> if is_preview_replaceable d then remove_document id' w else w
           | None \<Rightarrow> w))"

text \<open>A step on a document followed by pinning it.\<close>

definition then_pin :: "u64 \<Rightarrow> ('r, unit) workspace_step \<Rightarrow> ('r, unit) workspace_step" where
  "then_pin id' m = do { (r, w) \<leftarrow> m; Some (attempt r w (\<lambda>_. pin id' w)) }"

section \<open>Operations\<close>

text \<open>\<open>fresh\<close> is the identifier the process-wide counter yields if a document is created.\<close>

definition workspace_open ::
  "'r rope_ops \<Rightarrow> u64 \<Rightarrow> rust_string \<Rightarrow> rust_string \<Rightarrow> disk_revision \<Rightarrow> bool \<Rightarrow> open_disposition \<Rightarrow>
    'r workspace \<Rightarrow> ('r, u64) workspace_step"
where
  "workspace_open R fresh path text disk_revision read_only disposition w =
     (case find (\<lambda>d. do_path d = path) (ew_documents w) of
        Some d \<Rightarrow>
          let existing = do_id d in do {
            (r, w) \<leftarrow> (if \<not> read_only
              then with_document existing (\<lambda>d. Some (Inr (), upgrade_read_only R text disk_revision d)) w
              else Some (Inr (), w));
            Some (attempt r w (\<lambda>_.
              let w = w\<lparr>ew_active := Some existing\<rparr> in
              if disposition = Pinned
              then (case pin existing w of (r, w) \<Rightarrow> attempt r w (\<lambda>_. (Inr existing, w)))
              else (Inr existing, w)))
          }
      | None \<Rightarrow>
          let w = (if disposition = Preview then clear_replaceable_preview w else w);
              document = document_new R fresh path text disk_revision read_only;
              id' = do_id document
          in Some (Inr id',
               w\<lparr>ew_documents := ew_documents w @ [document], ew_active := Some id',
                 ew_preview := if disposition = Preview then Some id' else None\<rparr>))"

definition workspace_edit ::
  "'r rope_ops \<Rightarrow> u64 \<Rightarrow> edit_transaction \<Rightarrow> edit_kind \<Rightarrow> nat \<Rightarrow> nat \<Rightarrow> 'r workspace \<Rightarrow> ('r, unit) workspace_step"
where
  "workspace_edit R id' tx kind cursor_before cursor_after w =
     then_pin id' (with_document id' (document_edit R tx kind cursor_before cursor_after) w)"

definition workspace_undo :: "'r rope_ops \<Rightarrow> u64 \<Rightarrow> 'r workspace \<Rightarrow> ('r, unit) workspace_step" where
  "workspace_undo R id' w = then_pin id' (with_document id' (document_undo R) w)"

definition workspace_redo :: "'r rope_ops \<Rightarrow> u64 \<Rightarrow> 'r workspace \<Rightarrow> ('r, unit) workspace_step" where
  "workspace_redo R id' w = then_pin id' (with_document id' (document_redo R) w)"

definition workspace_complete_save ::
  "'r rope_ops \<Rightarrow> u64 \<Rightarrow> u64 \<Rightarrow> disk_revision \<Rightarrow> 'r workspace \<Rightarrow> ('r, unit) workspace_step"
where
  "workspace_complete_save R id' expected disk_revision w =
     with_document id' (\<lambda>d. Some (complete_save R expected disk_revision d)) w"

definition workspace_select :: "u64 \<Rightarrow> 'r workspace \<Rightarrow> ('r, unit) workspace_step" where
  "workspace_select id' w =
     Some (attempt (ok_or (document_at id' w) (DocumentNotFound id')) w (\<lambda>_.
       (Inr (), w\<lparr>ew_active := Some id'\<rparr>)))"

definition workspace_mark_recovered :: "u64 \<Rightarrow> 'r workspace \<Rightarrow> ('r, unit) workspace_step" where
  "workspace_mark_recovered id' w =
     then_pin id' (with_document id' (\<lambda>d. Some (Inr (), mark_recovered d)) w)"

definition workspace_observe_disk_change ::
  "'r rope_ops \<Rightarrow> u64 \<Rightarrow> u64 \<Rightarrow> disk_revision \<Rightarrow> rust_string \<Rightarrow> 'r workspace \<Rightarrow> ('r, unit) workspace_step"
where
  "workspace_observe_disk_change R id' expected disk_revision text w = do {
     (r, w) \<leftarrow> with_document id' (observe_disk_change R expected disk_revision text) w;
     Some (attempt r w (\<lambda>_.
       (case document_at id' w of
          Some d \<Rightarrow> if is_recoverable d then pin id' w else (Inr (), w)
        | None \<Rightarrow> (Inr (), w))))
   }"

definition workspace_observe_missing :: "u64 \<Rightarrow> u64 \<Rightarrow> 'r workspace \<Rightarrow> ('r, unit) workspace_step" where
  "workspace_observe_missing id' expected w =
     then_pin id' (with_document id' (\<lambda>d. Some (observe_missing expected d)) w)"

definition workspace_reload_from_disk :: "'r rope_ops \<Rightarrow> u64 \<Rightarrow> 'r workspace \<Rightarrow> ('r, unit) workspace_step" where
  "workspace_reload_from_disk R id' w = then_pin id' (with_document id' (reload_from_disk R) w)"

definition workspace_keep_editing :: "u64 \<Rightarrow> 'r workspace \<Rightarrow> ('r, unit) workspace_step" where
  "workspace_keep_editing id' w = then_pin id' (with_document id' (\<lambda>d. Some (keep_editing d)) w)"

definition workspace_restore_recovery ::
  "'r rope_ops \<Rightarrow> u64 \<Rightarrow> rust_string \<Rightarrow> 'r workspace \<Rightarrow> ('r, unit) workspace_step"
where
  "workspace_restore_recovery R id' text w =
     then_pin id' (with_document id' (restore_recovery R text) w)"

definition request_close :: "u64 \<Rightarrow> 'r workspace \<Rightarrow> (workspace_error + close_outcome) \<times> 'r workspace" where
  "request_close id' w =
     attempt (ok_or (document_at id' w) (DocumentNotFound id')) w (\<lambda>d.
       if is_recoverable d then (Inr NeedsDecision, w)
       else (Inr Closed, remove_document id' w))"

definition resolve_close ::
  "u64 \<Rightarrow> close_decision \<Rightarrow> 'r workspace \<Rightarrow> (workspace_error + close_outcome) \<times> 'r workspace"
where
  "resolve_close id' decision w =
     attempt (ok_or (document_at id' w) (DocumentNotFound id')) w (\<lambda>_.
       (case decision of
          Cancel \<Rightarrow> (Inr Cancelled, w)
        | Save \<Rightarrow> (Inr SaveRequired, w)
        | Discard \<Rightarrow> (Inr Closed, remove_document id' w)))"

definition view_state :: "'r workspace \<Rightarrow> editor_view_state" where
  "view_state w =
     \<lparr>vs_workspace_id = ew_workspace_id w,
      vs_tabs = map (\<lambda>d. \<lparr>tv_id = do_id d, tv_path = do_path d, tv_pinned = ew_preview w \<noteq> Some (do_id d),
        tv_active = (ew_active w = Some (do_id d)), tv_recoverable = is_recoverable d\<rparr>) (ew_documents w),
      vs_active = ew_active w\<rparr>"

section \<open>Commands\<close>

datatype workspace_command =
    OpenDocument rust_string rust_string disk_revision bool open_disposition
  | EditDocument u64 edit_transaction edit_kind nat nat
  | UndoDocument u64
  | RedoDocument u64
  | CompleteSave u64 u64 disk_revision
  | SelectDocument u64
  | PinDocument u64
  | RecoveredDocument u64
  | ObserveDiskChange u64 u64 disk_revision rust_string
  | ObserveMissing u64 u64
  | ReloadDocument u64
  | KeepEditingDocument u64
  | RestoreDocument u64 rust_string
  | RequestClose u64
  | ResolveClose u64 close_decision

text \<open>The workspace a command leaves; \<open>fresh\<close> is the next document identifier.\<close>

fun workspace_run :: "'r rope_ops \<Rightarrow> u64 \<Rightarrow> workspace_command \<Rightarrow> 'r workspace \<Rightarrow> 'r workspace option" where
  "workspace_run R fresh (OpenDocument p t v ro k) w = map_option snd (workspace_open R fresh p t v ro k w)"
| "workspace_run R fresh (EditDocument i tx k a b) w = map_option snd (workspace_edit R i tx k a b w)"
| "workspace_run R fresh (UndoDocument i) w = map_option snd (workspace_undo R i w)"
| "workspace_run R fresh (RedoDocument i) w = map_option snd (workspace_redo R i w)"
| "workspace_run R fresh (CompleteSave i e v) w = map_option snd (workspace_complete_save R i e v w)"
| "workspace_run R fresh (SelectDocument i) w = map_option snd (workspace_select i w)"
| "workspace_run R fresh (PinDocument i) w = Some (snd (pin i w))"
| "workspace_run R fresh (RecoveredDocument i) w = map_option snd (workspace_mark_recovered i w)"
| "workspace_run R fresh (ObserveDiskChange i e v t) w = map_option snd (workspace_observe_disk_change R i e v t w)"
| "workspace_run R fresh (ObserveMissing i e) w = map_option snd (workspace_observe_missing i e w)"
| "workspace_run R fresh (ReloadDocument i) w = map_option snd (workspace_reload_from_disk R i w)"
| "workspace_run R fresh (KeepEditingDocument i) w = map_option snd (workspace_keep_editing i w)"
| "workspace_run R fresh (RestoreDocument i t) w = map_option snd (workspace_restore_recovery R i t w)"
| "workspace_run R fresh (RequestClose i) w = Some (snd (request_close i w))"
| "workspace_run R fresh (ResolveClose i c) w = Some (snd (resolve_close i c w))"

section \<open>The invariant\<close>

text \<open>
  Every tab has its own identifier and its own path, the active tab is open whenever any is, and
  the preview tab is open and holds nothing that would be lost.
\<close>

definition workspace_ok :: "'r workspace \<Rightarrow> bool" where
  "workspace_ok w \<longleftrightarrow>
     distinct (map do_id (ew_documents w)) \<and> distinct (map do_path (ew_documents w)) \<and>
     (case ew_active w of None \<Rightarrow> ew_documents w = [] | Some i \<Rightarrow> i \<in> do_id ` set (ew_documents w)) \<and>
     (case ew_preview w of None \<Rightarrow> True
      | Some i \<Rightarrow> \<exists>d \<in> set (ew_documents w). do_id d = i \<and> \<not> is_recoverable d)"

text \<open>What a document operation keeps: identity and path, and, when it fails, recoverability.\<close>

definition same_document :: "'r document \<Rightarrow> (document_error + unit) \<Rightarrow> 'r document \<Rightarrow> bool" where
  "same_document d r d' \<longleftrightarrow>
     do_id d' = do_id d \<and> do_path d' = do_path d \<and> (isl r \<longrightarrow> is_recoverable d' = is_recoverable d)"

definition keeps_document :: "('r document \<Rightarrow> 'r document_step) \<Rightarrow> bool" where
  "keeps_document f \<longleftrightarrow> (\<forall>d r d'. f d = Some (r, d') \<longrightarrow> same_document d r d')"

lemma keeps_documentI:
  assumes "\<And>d e d'. f d = Some (Inl e, d') \<Longrightarrow> same_document d (Inl e) d'"
    and "\<And>d d'. f d = Some (Inr (), d') \<Longrightarrow> same_document d (Inr ()) d'"
  shows "keeps_document f"
  unfolding keeps_document_def
proof (intro allI impI)
  fix d r d'
  assume "f d = Some (r, d')"
  with assms show "same_document d r d'" by (cases r) simp_all
qed

named_theorems keeps

lemma keeps_edit [keeps]: "keeps_document (document_edit R tx k a b)"
  by (intro keeps_documentI)
    (auto simp: document_edit_def same_document_def is_recoverable_def Let_def outcome bind_eq_Some_conv
      split: if_splits prod.splits sum.splits)

lemma keeps_undo [keeps]: "keeps_document (document_undo R)"
  by (intro keeps_documentI)
    (auto simp: document_undo_def same_document_def is_recoverable_def Let_def outcome bind_eq_Some_conv
      split: if_splits prod.splits sum.splits)

lemma keeps_redo [keeps]: "keeps_document (document_redo R)"
  by (intro keeps_documentI)
    (auto simp: document_redo_def same_document_def is_recoverable_def Let_def outcome bind_eq_Some_conv
      split: if_splits prod.splits sum.splits)

lemma keeps_complete_save [keeps]: "keeps_document (\<lambda>d. Some (complete_save R e v d))"
  by (intro keeps_documentI)
    (auto simp: complete_save_def ensure_revision_def same_document_def is_recoverable_def Let_def outcome
      split: if_splits)

lemma keeps_mark_recovered [keeps]: "keeps_document (\<lambda>d. Some (Inr (), mark_recovered d))"
  by (intro keeps_documentI) (auto simp: same_document_def)

lemma keeps_observe_missing [keeps]: "keeps_document (\<lambda>d. Some (observe_missing e d))"
  by (intro keeps_documentI)
    (auto simp: observe_missing_def ensure_revision_def same_document_def is_recoverable_def Let_def outcome
      split: if_splits)

lemma keeps_observe_disk_change [keeps]: "keeps_document (observe_disk_change R e v t)"
  by (intro keeps_documentI)
    (auto simp: observe_disk_change_def same_document_def is_recoverable_def Let_def outcome bind_eq_Some_conv
      split: if_splits prod.splits sum.splits)

lemma keeps_reload [keeps]: "keeps_document (reload_from_disk R)"
  by (intro keeps_documentI)
    (auto simp: reload_from_disk_def same_document_def is_recoverable_def Let_def outcome bind_eq_Some_conv
      split: if_splits prod.splits sum.splits document_status.splits)

lemma keeps_keep_editing [keeps]: "keeps_document (\<lambda>d. Some (keep_editing d))"
  by (intro keeps_documentI)
    (auto simp: keep_editing_def same_document_def is_recoverable_def split: document_status.splits)

lemma keeps_restore [keeps]: "keeps_document (restore_recovery R t)"
  by (intro keeps_documentI)
    (auto simp: restore_recovery_def same_document_def is_recoverable_def Let_def outcome bind_eq_Some_conv
      mark_recovered_def split: if_splits prod.splits sum.splits)

lemma keeps_upgrade [keeps]: "keeps_document (\<lambda>d. Some (Inr (), upgrade_read_only R t v d))"
  by (intro keeps_documentI) (auto simp: upgrade_read_only_def same_document_def)

end
