(* ===== verification/EditDocumentLife.thy ===== *)
theory EditDocumentLife imports EditDocument begin

text \<open>
  The life of a document of strukt-editor: the commands a document receives, the documents
  reachable from an opened one, and the properties of the paths and of these documents.
\<close>

section \<open>Paths\<close>

text \<open>The components a path is accepted with.\<close>

definition document_components :: "rust_string \<Rightarrow> rust_string list" where
  "document_components path =
     filter (\<lambda>component. component \<noteq> lit ''.'')
       (split_on SLASH (map (\<lambda>c. if c = BACKSLASH then SLASH else c) path))"

definition component_ok :: "rust_string \<Rightarrow> bool" where
  "component_ok p \<longleftrightarrow> p \<noteq> [] \<and> p \<noteq> lit ''.'' \<and> p \<noteq> lit ''..'' \<and> SLASH \<notin> set p \<and> BACKSLASH \<notin> set p"

lemma relative_path_accepted:
  assumes "relative_document_path_new path = Inr q"
  shows "q = join_with SLASH (document_components path)" "document_components path \<noteq> []"
    "list_all component_ok (document_components path)"
proof -
  let ?n = "map (\<lambda>c. if c = BACKSLASH then SLASH else c) path"
  have q: "q = join_with SLASH (document_components path)" "q \<noteq> []"
    and parts: "\<forall>p \<in> set (split_on SLASH ?n). p \<noteq> [] \<and> p \<noteq> lit ''..''"
    using assms by (auto simp: relative_document_path_new_def Let_def document_components_def list_ex_iff split: if_splits)
  show "q = join_with SLASH (document_components path)" by (rule q)
  show "document_components path \<noteq> []" using q by auto
  have n: "BACKSLASH \<notin> set ?n" by (auto simp: BACKSLASH_def SLASH_def)
  show "list_all component_ok (document_components path)"
    unfolding list_all_iff
  proof
    fix p
    assume "p \<in> set (document_components path)"
    then have "p \<in> set (split_on SLASH ?n)" "p \<noteq> lit ''.''" by (simp_all add: document_components_def)
    with parts n split_on_parts [OF this(1)] split_on_chars [OF this(1)]
    show "component_ok p" unfolding component_ok_def by blast
  qed
qed

lemma join_hd: "ps \<noteq> [] \<Longrightarrow> hd ps \<noteq> [] \<Longrightarrow> join_with c ps \<noteq> [] \<and> hd (join_with c ps) = hd (hd ps)"
  by (cases "(c, ps)" rule: join_with.cases) auto

lemma components_again:
  assumes "relative_document_path_new path = Inr q"
  shows "split_on SLASH q = document_components path" "BACKSLASH \<notin> set q" "document_components q = document_components path"
proof -
  note ok = relative_path_accepted [OF assms]
  show s: "split_on SLASH q = document_components path"
    unfolding ok(1) using ok(2,3) by (intro split_join) (auto simp: list_all_iff component_ok_def)
  show b: "BACKSLASH \<notin> set q"
    using join_chars [of SLASH "document_components path"] ok(1,3)
    by (auto simp: list_all_iff component_ok_def BACKSLASH_def SLASH_def)
  have "map (\<lambda>c. if c = BACKSLASH then SLASH else c) q = q" using b by (intro map_idI) auto
  then have "document_components q = filter (\<lambda>component. component \<noteq> lit ''.'') (split_on SLASH q)"
    by (simp add: document_components_def)
  also have "\<dots> = document_components path"
    unfolding s using ok(3) by (intro filter_True) (auto simp: list_all_iff component_ok_def)
  finally show "document_components q = document_components path" .
qed

text \<open>
  C16. A path the editor accepts is a list of components that stays below the workspace: no
  component is empty, \<open>.\<close> or \<open>..\<close>, none holds a slash or a backslash, the path does not start
  with a slash, and it is made of the same components as the text it was accepted from. Accepting
  it again either gives the same path or refuses it as drive-prefixed.
\<close>

theorem accepted_paths_stay_below:
  assumes "relative_document_path_new path = Inr q"
  shows "split_on SLASH q = document_components path \<and> list_all component_ok (split_on SLASH q) \<and>
    q \<noteq> [] \<and> hd q \<noteq> SLASH \<and> BACKSLASH \<notin> set q \<and>
    relative_document_path_new q = (if nth_opt (as_bytes q) 1 = Some 58 then Inl (InvalidPath q) else Inr q)"
proof -
  note ok = relative_path_accepted [OF assms] and q = components_again [OF assms]
  have "hd (document_components path) \<noteq> []" "SLASH \<notin> set (hd (document_components path))"
    using ok(2,3) by (cases "document_components path"; simp add: component_ok_def)+
  then have start: "q \<noteq> []" "hd q \<noteq> SLASH"
    using join_hd [OF ok(2), of SLASH] ok(1) by (auto dest: hd_in_set)
  then have take1: "take 1 q \<noteq> [SLASH]" "take 2 q \<noteq> [SLASH, SLASH]" by (cases q; auto)+
  have n: "map (\<lambda>c. if c = BACKSLASH then SLASH else c) q = q" using q(2) by (intro map_idI) auto
  have parts: "\<not> list_ex (\<lambda>component. component = [] \<or> component = lit ''..'') (split_on SLASH q)"
    using ok(3) by (auto simp: q(1) list_all_iff list_ex_iff component_ok_def)
  have "join_with SLASH (filter (\<lambda>component. component \<noteq> lit ''.'') (split_on SLASH q)) = q"
    using q(3) ok(1) n by (simp add: document_components_def)
  then have "relative_document_path_new q = (if nth_opt (as_bytes q) 1 = Some 58 then Inl (InvalidPath q) else Inr q)"
    using start take1 parts by (simp add: relative_document_path_new_def Let_def n)
  with start q ok(3) show ?thesis by simp
qed

theorem accepted_paths_stay_below_witness:
  "split_on SLASH (lit ''src/main.rs'') = document_components (lit ''./src/./main.rs'') \<and>
    list_all component_ok (split_on SLASH (lit ''src/main.rs'')) \<and> lit ''src/main.rs'' \<noteq> [] \<and>
    hd (lit ''src/main.rs'') \<noteq> SLASH \<and> BACKSLASH \<notin> set (lit ''src/main.rs'') \<and>
    relative_document_path_new (lit ''src/main.rs'') =
      (if nth_opt (as_bytes (lit ''src/main.rs'')) 1 = Some 58 then Inl (InvalidPath (lit ''src/main.rs''))
       else Inr (lit ''src/main.rs''))"
  by (rule accepted_paths_stay_below) code_simp

text \<open>
  The documentation of the constructor promises to refuse drive-prefixed paths. The test looks at
  the second byte of the text before the \<open>.\<close> components are dropped, so this one is accepted.
\<close>

lemma drive_prefixed_path_accepted:
  "relative_document_path_new (lit ''./C:/x'') = Inr (lit ''C:/x'') \<and>
    relative_document_path_new (lit ''C:/x'') = Inl (InvalidPath (lit ''C:/x''))"
  by code_simp

section \<open>Commands\<close>

datatype document_command =
    EditText u64 "replacement list" edit_kind nat nat
  | Undo
  | Redo
  | SaveCompleted u64 disk_revision
  | DiskChanged u64 disk_revision rust_string
  | DiskMissing u64
  | Reload
  | KeepEditing
  | RestoreRecovery rust_string
  | MarkRecovered
  | UpgradeReadOnly rust_string disk_revision

fun document_run :: "'r rope_ops \<Rightarrow> document_command \<Rightarrow> 'r document \<Rightarrow> 'r document_step" where
  "document_run R (EditText v rs kind before after) d =
     (case edit_transaction_new v rs of
        Inl e \<Rightarrow> Some (Inl (TransactionFailed e), d)
      | Inr tx \<Rightarrow> document_edit R tx kind before after d)"
| "document_run R Undo d = document_undo R d"
| "document_run R Redo d = document_redo R d"
| "document_run R (SaveCompleted v disk) d = Some (complete_save R v disk d)"
| "document_run R (DiskChanged v disk text) d = observe_disk_change R v disk text d"
| "document_run R (DiskMissing v) d = Some (observe_missing v d)"
| "document_run R Reload d = reload_from_disk R d"
| "document_run R KeepEditing d = Some (keep_editing d)"
| "document_run R (RestoreRecovery text) d = restore_recovery R text d"
| "document_run R MarkRecovered d = Some (Inr (), mark_recovered d)"
| "document_run R (UpgradeReadOnly text disk) d = Some (Inr (), upgrade_read_only R text disk d)"

text \<open>
  The sizes a command may have: texts of fewer than \<open>2 ^ 60\<close> characters, replacements with ordered
  ends, and, for the commands that must not run out of revisions, a revision left.
\<close>

definition command_fits :: "'r rope_ops \<Rightarrow> 'r document \<Rightarrow> document_command \<Rightarrow> bool" where
  "command_fits R d c \<longleftrightarrow>
     (case c of
        EditText _ rs _ _ _ \<Rightarrow> valid_ranges rs \<and> edit_small (document_text R d) rs
      | Undo \<Rightarrow> document_revision d \<noteq> - 1
      | Redo \<Rightarrow> document_revision d \<noteq> - 1
      | DiskChanged _ _ text \<Rightarrow> document_revision d \<noteq> - 1 \<and> text_small text
      | Reload \<Rightarrow> document_revision d \<noteq> - 1 \<and>
          (case do_status d of Conflict _ text \<Rightarrow> length (document_text R d) + length text < 2 ^ 60 | _ \<Rightarrow> True)
      | RestoreRecovery text \<Rightarrow> document_revision d \<noteq> - 1 \<and> text_small text
      | _ \<Rightarrow> True)"

inductive document_reachable :: "'r rope_ops \<Rightarrow> 'r document \<Rightarrow> bool" for R where
  opened: "document_reachable R (document_new R i path text disk read_only)"
| stepped: "document_reachable R d \<Longrightarrow> command_fits R d c \<Longrightarrow> document_run R c d = Some (r, d') \<Longrightarrow>
    document_reachable R d'"

text \<open>What every command does: it never panics, keeps the invariant, and a refusal changes nothing.\<close>

fun is_upgrade :: "document_command \<Rightarrow> bool" where
  "is_upgrade (UpgradeReadOnly _ _) \<longleftrightarrow> True"
| "is_upgrade _ \<longleftrightarrow> False"

definition kept ::
  "'r rope_ops \<Rightarrow> document_command \<Rightarrow> 'r document \<Rightarrow> (document_error + unit) \<Rightarrow> 'r document \<Rightarrow> bool"
where
  "kept R c d r d' \<longleftrightarrow> doc_ok R d' \<and> (\<not> isl r \<or> d' = d) \<and> (is_upgrade c \<or> advances R d d')"

lemma advances_same:
  "do_buffer d' = do_buffer d \<Longrightarrow> advances R d d'"
  by (simp add: advances_def document_revision_def document_text_def)

lemma lands_mono: "lands m P \<Longrightarrow> (\<And>r d. P r d \<Longrightarrow> Q r d) \<Longrightarrow> lands m Q"
  by (auto simp: lands_def split: option.splits)

lemma lands_Some [simp]: "lands (Some (r, d)) Q = Q r d"
  by (simp add: lands_def)

lemma document_run_lands:
  assumes R: "rope_laws R" and d: "doc_ok R d" and fits: "command_fits R d c"
  shows "lands (document_run R c d) (kept R c d)"
proof (cases c)
  case (EditText v rs kind before after)
  show ?thesis
  proof (cases "edit_transaction_new v rs")
    case (Inr tx)
    with EditText fits show ?thesis
      by (auto simp: command_fits_def kept_def edit_outcome_def intro: advances_next split: sum.splits
          intro!: lands_mono [OF document_edit_lands [OF R d Inr]])
  qed (use EditText d in \<open>simp add: kept_def\<close>)
next
  case Undo
  with fits d show ?thesis
    by (auto simp: command_fits_def kept_def undo_outcome_def intro: advances_next split: sum.splits
        intro!: lands_mono [OF document_undo_lands [OF R d]])
next
  case Redo
  with fits d show ?thesis
    by (auto simp: command_fits_def kept_def redo_outcome_def intro: advances_next split: sum.splits
        intro!: lands_mono [OF document_redo_lands [OF R d]])
next
  case (DiskChanged v disk t)
  have "length t < 2 ^ 64" using fits DiskChanged by (simp add: command_fits_def text_small_def)
  with DiskChanged fits show ?thesis
    by (auto simp: command_fits_def kept_def intro: advances_next split: sum.splits
        intro!: lands_mono [OF observe_disk_change_lands [OF R d]])
next
  case (RestoreRecovery t)
  have "length t < 2 ^ 64" "document_revision d \<noteq> - 1"
    using fits RestoreRecovery by (simp_all add: command_fits_def text_small_def)
  from restore_recovery_lands [OF R d this(2,1)] RestoreRecovery show ?thesis
    by (auto simp: kept_def)
next
  case Reload
  show ?thesis
  proof (cases "do_status d")
    case (Conflict v t)
    with Reload fits have s: "document_revision d \<noteq> - 1" "length (document_text R d) + length t < 2 ^ 60"
      by (simp_all add: command_fits_def)
    show ?thesis
      by (rule reload_from_disk_lands [OF R d s(1) Conflict s(2)]) (simp add: Reload kept_def advances_next s(1))
  qed (use Reload d in \<open>simp_all add: reload_from_disk_def kept_def\<close>)
next
  case (SaveCompleted v disk)
  with d show ?thesis
    by (auto simp: lands_def advances_same complete_save_def ensure_revision_def Let_def attempt_def kept_def doc_ok_def document_text_def)
next
  case (DiskMissing v)
  with d show ?thesis
    by (auto simp: lands_def advances_same observe_missing_def ensure_revision_def Let_def attempt_def kept_def doc_ok_def document_text_def)
next
  case KeepEditing
  with d show ?thesis
    by (auto simp: lands_def advances_same keep_editing_def kept_def doc_ok_def document_text_def split: document_status.split)
next
  case MarkRecovered
  with d show ?thesis by (simp add: kept_def doc_ok_mark advances_def)
next
  case (UpgradeReadOnly t disk)
  with R d show ?thesis
    by (auto simp: kept_def upgrade_read_only_def doc_ok_def history_new_ok document_text_def text_buffer_new_def
        buffer_string_def rope_law)
qed

lemma reachable_doc_ok: "document_reachable R d \<Longrightarrow> rope_laws R \<Longrightarrow> doc_ok R d"
proof (induction rule: document_reachable.induct)
  case opened
  then show ?case by (rule doc_ok_new)
next
  case (stepped d c r d')
  then show ?case using document_run_lands [of R d c] by (simp add: kept_def)
qed

lemma reachable_run:
  assumes "rope_laws R" "document_reachable R d" "command_fits R d c"
  obtains r d' where "document_run R c d = Some (r, d')" "kept R c d r d'"
  using document_run_lands [OF assms(1) reachable_doc_ok [OF assms(2,1)] assms(3)]
  by (auto simp: lands_def split: option.splits)

text \<open>
  C17. No command a document receives can panic, one that is refused changes nothing, and a
  document that is not recoverable, the only kind a tab closes without asking, holds exactly the
  text last saved.
\<close>

theorem clean_documents_are_saved:
  assumes "rope_laws R" "document_reachable R d" "command_fits R d c"
  shows "\<exists>r d'. document_run R c d = Some (r, d') \<and> (isl r \<longrightarrow> d' = d) \<and>
    (\<not> is_recoverable d' \<longrightarrow> document_text R d' = do_saved_text d')"
proof -
  obtain r d' where "document_run R c d = Some (r, d')" "kept R c d r d'"
    by (rule reachable_run [OF assms])
  then show ?thesis by (auto simp: kept_def doc_ok_def is_recoverable_def)
qed

section \<open>Saving\<close>

text \<open>A sequence of commands, upgrades of read-only documents included.\<close>

fun document_runs :: "'r rope_ops \<Rightarrow> document_command list \<Rightarrow> 'r document \<Rightarrow> 'r document option" where
  "document_runs R [] d = Some d"
| "document_runs R (c # cs) d =
     (if command_fits R d c
      then (case document_run R c d of None \<Rightarrow> None | Some (_, d') \<Rightarrow> document_runs R cs d')
      else None)"

text \<open>An upgrade replaces a read-only document; no command makes a document read-only again.\<close>

lemma refresh_read_only [simp]: "do_read_only (refresh_dirty_status R d) = do_read_only d"
  by (simp add: refresh_dirty_status_def split: document_status.split)

lemma document_run_writable:
  "document_run R c d = Some (r, d') \<Longrightarrow> \<not> do_read_only d \<Longrightarrow> \<not> do_read_only d'"
  by (cases c)
    (auto simp: document_edit_def document_undo_def document_redo_def complete_save_def observe_disk_change_def
      observe_missing_def reload_from_disk_def keep_editing_def restore_recovery_def upgrade_read_only_def
      ensure_revision_def attempt_def mark_recovered_def Let_def
      split: sum.splits option.splits if_splits prod.splits document_status.splits Option.bind_splits)

lemma upgrade_of_writable: "\<not> do_read_only d \<Longrightarrow> upgrade_read_only R text disk d = d"
  by (simp add: upgrade_read_only_def)

lemma document_runs_advance:
  "rope_laws R \<Longrightarrow> doc_ok R d \<Longrightarrow> document_runs R cs d = Some d' \<Longrightarrow>
    (do_read_only d \<Longrightarrow> \<not> list_ex is_upgrade cs) \<Longrightarrow> advances R d d'"
proof (induction cs arbitrary: d)
  case (Cons c cs)
  then obtain r e where run: "document_run R c d = Some (r, e)" and rest: "document_runs R cs e = Some d'"
    and fits: "command_fits R d c"
    by (auto split: if_splits option.splits)
  have k: "kept R c d r e"
    using document_run_lands [OF Cons.prems(1,2) fits] run by (simp add: lands_def)
  have "advances R d e"
  proof (cases "is_upgrade c")
    case True
    then obtain t v where "c = UpgradeReadOnly t v" by (cases c) auto
    with True run Cons.prems(4) show ?thesis
      by (cases "do_read_only d") (auto simp: upgrade_of_writable advances_same)
  next
    case False
    with k show ?thesis by (simp add: kept_def)
  qed
  moreover have "do_read_only e \<Longrightarrow> \<not> list_ex is_upgrade cs"
    using document_run_writable [OF run] Cons.prems(4) by auto
  then have "advances R e d'" using Cons.IH [OF Cons.prems(1) _ rest] k by (simp add: kept_def)
  ultimately show ?case by (rule advances_trans)
qed simp

text \<open>
  C18. A save never marks text as saved that was not written, with one exception. A save takes the
  text and the revision of a document; whatever the document goes through before the save completes,
  the completion is either refused as stale, leaving the document as it is, or the document still has
  the text that was written. The exception: the document was read-only when it was saved and is
  upgraded for editing in between, which counts its revisions from zero again
  (\<open>upgrade_forgets_saves\<close>).
\<close>

theorem completed_saves_hold_the_text_written:
  assumes "rope_laws R" "document_reachable R d" "document_runs R cs d = Some d'"
    and "do_read_only d \<longrightarrow> \<not> list_ex is_upgrade cs"
    and "complete_save R (document_revision d) disk d' = (r, d'')"
  shows "case r of
      Inl e \<Rightarrow> e = StaleEvent (document_revision d') (document_revision d) \<and> d'' = d'
    | Inr _ \<Rightarrow> do_saved_text d'' = document_text R d \<and> document_text R d'' = document_text R d \<and>
        do_disk_revision d'' = disk \<and> \<not> is_recoverable d''"
proof -
  have "advances R d d'"
    using document_runs_advance [OF assms(1) reachable_doc_ok [OF assms(2,1)] assms(3)] assms(4) by blast
  with assms(5) show ?thesis
    by (auto simp: complete_save_def ensure_revision_def Let_def attempt_def advances_def is_recoverable_def
        document_text_def split: if_splits)
qed

section \<open>Undo\<close>

lemma two_revisions_left:
  assumes "v < (- 2 :: u64)"
  shows "v \<noteq> - 1" "v + 1 \<noteq> - 1"
proof -
  show "v \<noteq> - 1" using assms by auto
  have "v = - 2" if "v + 1 = - 1" using that by (simp add: eq_diff_eq [symmetric])
  then show "v + 1 \<noteq> - 1" using assms by auto
qed

text \<open>
  Redo takes back an undo. Undoing an edit of a reachable document and redoing it gives back
  the text there was, and a document with nothing to undo refuses without changing.
\<close>

theorem redo_takes_back_undo:
  assumes "rope_laws R" "document_reachable R d" "document_revision d < - 2"
  shows "if hi_undo (do_history d) = [] then document_undo R d = Some (Inl (HistoryFailed NothingToUndo), d)
    else \<exists>d1 d2. document_undo R d = Some (Inr (), d1) \<and> document_redo R d1 = Some (Inr (), d2) \<and>
      document_text R d2 = document_text R d"
proof -
  have d: "doc_ok R d" by (rule reachable_doc_ok [OF assms(2,1)])
  have rev: "document_revision d \<noteq> - 1" "document_revision d + 1 \<noteq> - 1"
    by (rule two_revisions_left [OF assms(3)])+
  obtain r d1 where u: "document_undo R d = Some (r, d1)" "undo_outcome R d r d1"
    using document_undo_lands [OF assms(1) d rev(1)] by (auto simp: lands_def split: option.splits)
  show ?thesis
  proof (cases r)
    case (Inl e)
    with u show ?thesis by (simp add: undo_outcome_def)
  next
    case (Inr n)
    with u(2) obtain e where e: "doc_ok R d1" "document_revision d1 = document_revision d + 1"
      "hi_undo (do_history d) = hi_undo (do_history d1) @ [e]" "last_opt (hi_redo (do_history d1)) = Some e"
      "spliced 0 (forward_of e) (document_text R d1) = document_text R d"
      by (auto simp: undo_outcome_def)
    have "document_revision d1 \<noteq> - 1" using e(2) rev(2) by simp
    from document_redo_lands [OF assms(1) e(1) this] obtain r2 d2
      where "document_redo R d1 = Some (r2, d2)" "redo_outcome R d1 r2 d2"
      by (auto simp: lands_def split: option.splits)
    with u Inr e show ?thesis
      by (cases r2) (auto simp: redo_outcome_def last_opt_def split: if_splits)
  qed
qed

text \<open>What recording an entry that does not coalesce leaves on the undo stack.\<close>

lemma recorded_entry:
  assumes h: "history_within h" "hi_budget h = default_budget" and e: "he_byte_cost e < 2 ^ 63" "he_kind e = OtherEdit"
  shows "if he_byte_cost e \<le> 64 * 1024 * 1024 then \<exists>es. hi_undo (history_record e h) = es @ [e]
    else hi_undo (history_record e h) = []"
proof -
  obtain k where k: "history_record e h = h\<lparr>hi_redo := [], hi_undo := drop k (pushed e (hi_undo h)),
      hi_retained_bytes := entry_bytes (drop k (pushed e (hi_undo h)))\<rparr>"
    "within_budget (hi_budget h) (drop k (pushed e (hi_undo h)))"
    "\<forall>j < k. \<not> within_budget (hi_budget h) (drop j (pushed e (hi_undo h)))"
    by (rule history_record_spec [OF h(1) e(1)])
  have p: "pushed e (hi_undo h) = hi_undo h @ [e]"
    using e(2) by (auto simp: pushed_def coalesce_typing_def split: option.splits)
  show ?thesis
  proof (cases "he_byte_cost e \<le> 64 * 1024 * 1024")
    case True
    then have "within_budget (hi_budget h) (drop (length (hi_undo h)) (pushed e (hi_undo h)))"
      by (simp add: p h(2) within_budget_def default_budget_def entry_bytes_def)
    with k(3) have "k \<le> length (hi_undo h)" by (meson not_le)
    with True show ?thesis unfolding k(1) by (simp add: p)
  next
    case False
    then have "\<not> k \<le> length (hi_undo h)"
      using k(2) by (auto simp: p h(2) within_budget_def default_budget_def entry_bytes_def)
    with False show ?thesis unfolding k(1) by (simp add: p)
  qed
qed

text \<open>
  Reloading a conflicting document takes the text on disk as saved and leaves one undo
  boundary back to the local text, as long as both texts together cost no more than the history's
  budget of 64 MiB; beyond that the boundary is dropped and there is nothing left to undo.
\<close>

theorem reload_leaves_an_undo_boundary:
  assumes R: "rope_laws R" and d: "document_reachable R d" and rev: "document_revision d < - 2"
    and conflict: "do_status d = Conflict disk t" and small: "length (document_text R d) + length t < 2 ^ 60"
  shows "\<exists>d1. reload_from_disk R d = Some (Inr (), d1) \<and> document_text R d1 = t \<and>
    do_saved_text d1 = t \<and> do_disk_revision d1 = disk \<and> \<not> is_recoverable d1 \<and>
    (if str_len t + str_len (document_text R d) \<le> 64 * 1024 * 1024
     then \<exists>d2. document_undo R d1 = Some (Inr (), d2) \<and> document_text R d2 = document_text R d
     else document_undo R d1 = Some (Inl (HistoryFailed NothingToUndo), d1))"
proof -
  have ok: "doc_ok R d" by (rule reachable_doc_ok [OF d R])
  have max: "document_revision d \<noteq> - 1" "document_revision d + 1 \<noteq> - 1"
    by (rule two_revisions_left [OF rev])+
  obtain d1 e where run: "reload_from_disk R d = Some (Inr (), d1)" "doc_ok R d1" "document_text R d1 = t"
    "do_status d1 = Clean" "do_disk_revision d1 = disk" "do_saved_text d1 = t" "\<not> do_recovered d1"
    "document_revision d1 = document_revision d + 1"
    and e: "forward_of e = [\<lparr>rp_range = \<lparr>cr_start = 0, cr_end = length (document_text R d)\<rparr>, rp_text = t\<rparr>]"
    "he_kind e = OtherEdit" "do_history d1 = history_record e (do_history d)" "he_byte_cost e < 2 ^ 63"
    "entry_ok (document_text R d) e" "he_byte_cost e = str_len t + str_len (document_text R d)"
    by (rule reload_from_disk_lands [OF R ok max(1) conflict small])
  have "document_revision d1 \<noteq> - 1" using run(8) max(2) by simp
  from document_undo_lands [OF R run(2) this] obtain r d2
    where u: "document_undo R d1 = Some (r, d2)" "undo_outcome R d1 r d2"
    by (auto simp: lands_def split: option.splits)
  have stack: "if he_byte_cost e \<le> 64 * 1024 * 1024 then \<exists>es. hi_undo (do_history d1) = es @ [e]
    else hi_undo (do_history d1) = []"
    unfolding e(3) using ok e(2,4) by (intro recorded_entry) (simp_all add: doc_ok_def)
  have t: "spliced 0 (forward_of e) (document_text R d) = t" using e(1) by simp
  have "if str_len t + str_len (document_text R d) \<le> 64 * 1024 * 1024
     then \<exists>d2. document_undo R d1 = Some (Inr (), d2) \<and> document_text R d2 = document_text R d
     else document_undo R d1 = Some (Inl (HistoryFailed NothingToUndo), d1)"
    using u stack entry_ok_back(1) [OF e(5)] unfolding e(6)
    by (cases r) (auto simp: undo_outcome_def run(3) t split: if_splits)
  with run show ?thesis by (auto simp: is_recoverable_def)
qed

section \<open>The properties on a small document\<close>

definition example_document :: "rust_string document" where
  "example_document = document_new list_rope 1 (lit ''notes'') (lit ''hello world'') (lit ''d1'') False"

definition edited_document :: "rust_string document" where
  "edited_document = snd (the (document_run list_rope (EditText 0 example_edits OtherEdit 0 0) example_document))"

definition conflict_document :: "rust_string document" where
  "conflict_document = example_document\<lparr>do_recovered := True, do_status := Conflict (lit ''d2'') (lit ''there'')\<rparr>"

lemma example_document_reachable: "document_reachable list_rope example_document"
  unfolding example_document_def by (rule document_reachable.opened)

lemma example_document_text: "document_text list_rope example_document = lit ''hello world''"
  by (simp add: example_document_def document_new_def document_text_def buffer_string_def text_buffer_new_def list_rope_def)

lemma example_edit_command: "command_fits list_rope example_document (EditText 0 example_edits OtherEdit 0 0)"
  using example_edit_valid
  by (simp add: command_fits_def edit_small_def example_document_text example_edits_def replacement_new_def lit_def)

lemma edited_document_run:
  obtains r where "document_run list_rope (EditText 0 example_edits OtherEdit 0 0) example_document = Some (r, edited_document)"
proof (rule reachable_run [OF list_rope_laws example_document_reachable example_edit_command])
  fix r d'
  assume run: "document_run list_rope (EditText 0 example_edits OtherEdit 0 0) example_document = Some (r, d')"
  have "edited_document = d'" unfolding edited_document_def run by simp
  with run that show ?thesis by simp
qed

lemma edited_document_reachable: "document_reachable list_rope edited_document"
  by (rule edited_document_run)
    (rule document_reachable.stepped [OF example_document_reachable example_edit_command])

lemma edited_document_values:
  "document_revision edited_document = 1" "document_text list_rope edited_document = lit ''oh hello there''"
  "hi_undo (do_history edited_document) \<noteq> []"
proof -
  have "case buffer_apply list_rope example_edit example_buffer of
      Some (Inr a, b) \<Rightarrow> tb_revision b = 1 \<and> buffer_string list_rope b = lit ''oh hello there'' \<and>
        at_inserted_bytes a = 8 \<and> at_removed_bytes a = 5
    | _ \<Rightarrow> False" by code_simp
  then obtain a b where run: "buffer_apply list_rope example_edit example_buffer = Some (Inr a, b)"
    and b: "tb_revision b = 1" "buffer_string list_rope b = lit ''oh hello there''"
      "at_inserted_bytes a = 8" "at_removed_bytes a = 5"
    by (auto split: option.splits prod.splits sum.splits)
  have buffer: "do_buffer example_document = example_buffer"
    by (simp add: example_document_def document_new_def example_buffer_def)
  have start: "\<not> do_read_only example_document" "do_history example_document = history_new default_budget"
    by (simp_all add: example_document_def document_new_def)
  have edited: "edited_document = refresh_dirty_status list_rope
      (example_document\<lparr>do_buffer := b, do_history := history_record
        (entry_from_applied example_edit a OtherEdit 0 0) (history_new default_budget)\<rparr>)"
    using start by (simp add: edited_document_def document_edit_def example_edit_new buffer run Let_def)
  show "document_revision edited_document = 1" "document_text list_rope edited_document = lit ''oh hello there''"
    by (simp_all add: edited document_revision_def b) (simp add: document_text_def b)
  have "he_byte_cost (entry_from_applied example_edit a OtherEdit 0 0) = 13"
    by (simp add: entry_from_applied_def b)
  then show "hi_undo (do_history edited_document) \<noteq> []"
    by (simp add: edited history_record_def history_new_def last_opt_def Let_def enforce_budget_def
        default_budget_def sat_add_usize_def)
qed

lemma conflict_document_reachable: "document_reachable list_rope conflict_document"
proof -
  have "document_reachable list_rope (mark_recovered example_document)"
    by (rule document_reachable.stepped [OF example_document_reachable, of MarkRecovered "Inr ()"])
      (simp_all add: command_fits_def)
  then show ?thesis
  proof (rule document_reachable.stepped)
    show "command_fits list_rope (mark_recovered example_document) (DiskChanged 0 (lit ''d2'') (lit ''there''))"
      by (simp add: command_fits_def text_small_def lit_def)
        (simp add: example_document_def document_new_def document_revision_def text_buffer_new_def)
    show "document_run list_rope (DiskChanged 0 (lit ''d2'') (lit ''there'')) (mark_recovered example_document) =
        Some (Inr (), conflict_document)"
      by (simp add: observe_disk_change_def ensure_revision_def Let_def conflict_document_def mark_recovered_def
          example_document_def document_new_def document_revision_def text_buffer_new_def)
  qed
qed

lemma few_revisions: "(0 :: u64) < - 2" "(1 :: u64) < - 2"
  by code_simp+

theorem clean_documents_are_saved_witness:
  "\<exists>r d'. document_run list_rope (EditText 0 example_edits OtherEdit 0 0) example_document = Some (r, d') \<and>
    (isl r \<longrightarrow> d' = example_document) \<and>
    (\<not> is_recoverable d' \<longrightarrow> document_text list_rope d' = do_saved_text d')"
  by (rule clean_documents_are_saved [OF list_rope_laws example_document_reachable example_edit_command])

theorem completed_saves_hold_the_text_written_witness:
  "case fst (complete_save list_rope 0 (lit ''d2'') edited_document) of
      Inl e \<Rightarrow> e = StaleEvent 1 0 \<and> snd (complete_save list_rope 0 (lit ''d2'') edited_document) = edited_document
    | Inr _ \<Rightarrow> do_saved_text (snd (complete_save list_rope 0 (lit ''d2'') edited_document)) = lit ''hello world'' \<and>
        document_text list_rope (snd (complete_save list_rope 0 (lit ''d2'') edited_document)) = lit ''hello world'' \<and>
        do_disk_revision (snd (complete_save list_rope 0 (lit ''d2'') edited_document)) = lit ''d2'' \<and>
        \<not> is_recoverable (snd (complete_save list_rope 0 (lit ''d2'') edited_document))"
proof -
  have rev: "document_revision example_document = 0"
    by (simp add: example_document_def document_new_def document_revision_def text_buffer_new_def)
  obtain r where "document_run list_rope (EditText 0 example_edits OtherEdit 0 0) example_document = Some (r, edited_document)"
    by (rule edited_document_run)
  then have runs: "document_runs list_rope [EditText 0 example_edits OtherEdit 0 0] example_document = Some edited_document"
    using example_edit_command by simp
  have writable: "do_read_only example_document \<longrightarrow> \<not> list_ex is_upgrade [EditText 0 example_edits OtherEdit 0 0]"
    by simp
  obtain r d'' where c: "complete_save list_rope 0 (lit ''d2'') edited_document = (r, d'')" by fastforce
  show ?thesis
    using completed_saves_hold_the_text_written [OF list_rope_laws example_document_reachable runs writable, unfolded rev, OF c]
    by (cases r) (simp_all add: c edited_document_values(1) example_document_text)
qed

theorem redo_takes_back_undo_witness:
  "\<exists>d1 d2. document_undo list_rope edited_document = Some (Inr (), d1) \<and>
    document_redo list_rope d1 = Some (Inr (), d2) \<and>
    document_text list_rope d2 = document_text list_rope edited_document"
  using redo_takes_back_undo [OF list_rope_laws edited_document_reachable] edited_document_values few_revisions by simp

theorem reload_leaves_an_undo_boundary_witness:
  "\<exists>d1. reload_from_disk list_rope conflict_document = Some (Inr (), d1) \<and>
    document_text list_rope d1 = lit ''there'' \<and> do_saved_text d1 = lit ''there'' \<and>
    do_disk_revision d1 = lit ''d2'' \<and> \<not> is_recoverable d1 \<and>
    (if str_len (lit ''there'') + str_len (document_text list_rope conflict_document) \<le> 64 * 1024 * 1024
     then \<exists>d2. document_undo list_rope d1 = Some (Inr (), d2) \<and>
       document_text list_rope d2 = document_text list_rope conflict_document
     else document_undo list_rope d1 = Some (Inl (HistoryFailed NothingToUndo), d1))"
proof (rule reload_leaves_an_undo_boundary [OF list_rope_laws conflict_document_reachable])
  show "document_revision conflict_document < - 2"
    using few_revisions
    by (simp add: conflict_document_def example_document_def document_new_def document_revision_def text_buffer_new_def)
  show "do_status conflict_document = Conflict (lit ''d2'') (lit ''there'')" by (simp add: conflict_document_def)
  have "document_text list_rope conflict_document = lit ''hello world''"
    using example_document_text by (simp add: conflict_document_def document_text_def)
  then show "length (document_text list_rope conflict_document) + length (lit ''there'') < 2 ^ 60"
    by (simp add: lit_def)
qed

text \<open>
  Why the upgrade is an exception. A read-only document holds recovered text at revision one, and a
  save takes that text and revision. Before it completes, the path is opened again for editing, which
  starts the revisions anew, and one edit is made. The completion names revision one, is accepted, and
  marks the edited text as saved, which nobody has written.
\<close>

definition read_only_document :: "rust_string document" where
  "read_only_document = document_new list_rope 1 (lit ''notes'') (lit ''old'') (lit ''d1'') True"

lemma example_edit_lands:
  assumes "do_buffer d = example_buffer" "\<not> do_read_only d"
  obtains d' where "document_run list_rope (EditText 0 example_edits OtherEdit 0 0) d = Some (Inr (), d')"
    "document_revision d' = 1" "document_text list_rope d' = lit ''oh hello there''"
proof -
  have "case buffer_apply list_rope example_edit example_buffer of
      Some (Inr a, b) \<Rightarrow> tb_revision b = 1 \<and> buffer_string list_rope b = lit ''oh hello there''
    | _ \<Rightarrow> False" by code_simp
  then obtain a b where run: "buffer_apply list_rope example_edit example_buffer = Some (Inr a, b)"
    and b: "tb_revision b = 1" "buffer_string list_rope b = lit ''oh hello there''"
    by (auto split: option.splits prod.splits sum.splits)
  show ?thesis
    by (rule that [of "refresh_dirty_status list_rope (d\<lparr>do_buffer := b, do_history :=
        history_record (entry_from_applied example_edit a OtherEdit 0 0) (do_history d)\<rparr>)"])
      (simp add: document_edit_def example_edit_new assms run Let_def,
       simp_all add: document_revision_def document_text_def b)
qed

lemma upgrade_forgets_saves:
  "\<exists>d r d' e. document_run list_rope (RestoreRecovery (lit ''new'')) read_only_document = Some (Inr (), d) \<and>
    document_text list_rope d = lit ''new'' \<and> document_revision d = 1 \<and>
    document_run list_rope (EditText 0 example_edits OtherEdit 0 0)
      (upgrade_read_only list_rope (lit ''hello world'') (lit ''d2'') d) = Some (r, d') \<and>
    complete_save list_rope (document_revision d) (lit ''d3'') d' = (Inr (), e) \<and>
    do_saved_text e = lit ''oh hello there''"
proof -
  have "case buffer_apply list_rope \<lparr>et_expected = 0, et_replacements = [replacement_new \<lparr>cr_start = 0, cr_end = 3\<rparr> (lit ''new'')]\<rparr>
        (text_buffer_new list_rope (lit ''old'')) of
      Some (Inr a, b) \<Rightarrow> tb_revision b = 1 \<and> buffer_string list_rope b = lit ''new''
    | _ \<Rightarrow> False" by code_simp
  then obtain a b where run: "buffer_apply list_rope \<lparr>et_expected = 0, et_replacements = [replacement_new \<lparr>cr_start = 0, cr_end = 3\<rparr> (lit ''new'')]\<rparr>
        (text_buffer_new list_rope (lit ''old'')) = Some (Inr a, b)"
    and b: "tb_revision b = 1" "buffer_string list_rope b = lit ''new''"
    by (auto split: option.splits prod.splits sum.splits)
  let ?d = "mark_recovered (read_only_document\<lparr>do_buffer := b, do_history := history_new default_budget\<rparr>)"
  have whole: "whole_replacement list_rope (lit ''new'') read_only_document =
      Inr \<lparr>et_expected = 0, et_replacements = [replacement_new \<lparr>cr_start = 0, cr_end = 3\<rparr> (lit ''new'')]\<rparr>"
    by (simp add: whole_replacement_def read_only_document_def document_new_def document_revision_def document_text_def
        text_buffer_new_def buffer_string_def list_rope_def edit_transaction_new_def lit_def Let_def numeral_eq_Suc)
  have buffer: "do_buffer read_only_document = text_buffer_new list_rope (lit ''old'')"
    "document_text list_rope read_only_document \<noteq> lit ''new''" "do_read_only read_only_document"
    by (simp_all add: read_only_document_def document_new_def document_text_def text_buffer_new_def buffer_string_def
        list_rope_def lit_def)
  have recovered: "document_run list_rope (RestoreRecovery (lit ''new'')) read_only_document = Some (Inr (), ?d)"
    by (simp add: restore_recovery_def whole buffer run)
  have d: "document_text list_rope ?d = lit ''new''" "document_revision ?d = 1"
    by (simp_all add: mark_recovered_def document_text_def document_revision_def b Let_def)
  let ?u = "upgrade_read_only list_rope (lit ''hello world'') (lit ''d2'') ?d"
  have u: "do_buffer ?u = example_buffer" "\<not> do_read_only ?u"
    by (simp_all add: upgrade_read_only_def mark_recovered_def buffer example_buffer_def Let_def)
  obtain d' where d': "document_run list_rope (EditText 0 example_edits OtherEdit 0 0) ?u = Some (Inr (), d')"
    "document_revision d' = 1" "document_text list_rope d' = lit ''oh hello there''"
    by (rule example_edit_lands [OF u])
  have "complete_save list_rope (document_revision ?d) (lit ''d3'') d' =
      (Inr (), d'\<lparr>do_saved_text := lit ''oh hello there'', do_disk_revision := lit ''d3'', do_status := Clean, do_recovered := False\<rparr>)"
    unfolding d(2) using d'(2,3) by (simp add: complete_save_def ensure_revision_def Let_def attempt_def)
  with recovered d d'(1) show ?thesis by fastforce
qed

end
