(* ===== verification/EditTabs.thy ===== *)
theory EditTabs imports EditWorkspace EditDocumentLife begin

text \<open>
  The properties of the editor workspace: the invariant of its tabs, kept by every command, and
  which commands may touch a document that holds unsaved text.
\<close>

section \<open>Replacing one document\<close>

lemma same_preview [simp]:
  "w\<lparr>ew_documents := x, ew_preview := ew_preview w\<rparr> = w\<lparr>ew_documents := x\<rparr>"
  by (cases w) simp

lemma remove_at_position:
  assumes "position p xs = Some i"
  obtains ys x zs where "xs = ys @ x # zs" "i = length ys" "p x" "\<forall>y \<in> set ys. \<not> p y"
    "xs ! i = x" "\<And>x'. xs[i := x'] = ys @ x' # zs" "remove_at i xs = ys @ zs"
proof (rule position_Some_split [OF assms])
  fix ys x zs
  assume xs: "xs = ys @ x # zs" "i = length ys" "p x" "\<forall>y \<in> set ys. \<not> p y"
  show thesis
    by (rule that [OF xs]) (simp_all add: xs)
qed

text \<open>How a step on one document ends.\<close>

lemma with_document_cases:
  assumes "with_document i f w = Some (r, w')" "keeps_document f"
  obtains "r = Inl (DocumentNotFound i)" "w' = w" "\<forall>d \<in> set (ew_documents w). do_id d \<noteq> i"
  | ys d zs r0 d' where "ew_documents w = ys @ d # zs" "do_id d = i" "f d = Some (r0, d')"
      "same_document d r0 d'" "r = map_err DocumentFailed r0" "w' = w\<lparr>ew_documents := ys @ d' # zs\<rparr>"
      "\<forall>y \<in> set ys. do_id y \<noteq> i"
proof (cases "position (\<lambda>d. do_id d = i) (ew_documents w)")
  case None
  with assms(1) show ?thesis by (intro that(1)) (auto simp: with_document_def position_None)
next
  case (Some n)
  obtain ys d zs where d: "ew_documents w = ys @ d # zs" "do_id d = i" "\<forall>y \<in> set ys. do_id y \<noteq> i"
    "ew_documents w ! n = d" "\<And>d'. (ew_documents w)[n := d'] = ys @ d' # zs"
    by (rule remove_at_position [OF Some]) blast
  with Some assms obtain r0 d' where "f d = Some (r0, d')" "r = map_err DocumentFailed r0"
    "w' = w\<lparr>ew_documents := ys @ d' # zs\<rparr>"
    by (auto simp: with_document_def bind_eq_Some_conv)
  with d assms(2) show ?thesis by (intro that(2)) (auto simp: keeps_document_def)
qed

lemma workspace_ok_replace:
  assumes ok: "workspace_ok w" and docs: "ew_documents w = ys @ d # zs"
    and d': "do_id d' = do_id d" "do_path d' = do_path d"
    and p: "p = ew_preview w \<or> p = None" "p = Some (do_id d) \<Longrightarrow> \<not> is_recoverable d'"
  shows "workspace_ok (w\<lparr>ew_documents := ys @ d' # zs, ew_preview := p\<rparr>)"
  using assms by (auto simp: workspace_ok_def split: option.splits)

lemma document_at_replaced:
  "\<forall>y \<in> set ys. do_id y \<noteq> i \<Longrightarrow> do_id d = i \<Longrightarrow> ew_documents w = ys @ d # zs \<Longrightarrow> document_at i w = Some d"
proof (induction ys arbitrary: w)
  case (Cons y ys)
  from Cons.IH [of "w\<lparr>ew_documents := ys @ d # zs\<rparr>"] Cons.prems show ?case by (simp add: document_at_def)
qed (simp add: document_at_def)

text \<open>
  A step keeps the tabs when the invariant holds after it and every other document is as it was;
  the one it touches keeps its identity and path.
\<close>

definition keeps_tabs :: "u64 \<Rightarrow> 'r workspace \<Rightarrow> 'r workspace \<Rightarrow> bool" where
  "keeps_tabs i w w' \<longleftrightarrow>
     workspace_ok w' \<and>
     (\<forall>d \<in> set (ew_documents w). do_id d \<noteq> i \<longrightarrow> d \<in> set (ew_documents w')) \<and>
     map do_id (ew_documents w') = map do_id (ew_documents w)"

lemma keeps_tabs_refl: "workspace_ok w \<Longrightarrow> keeps_tabs i w w"
  by (simp add: keeps_tabs_def)

lemma keeps_tabs_replace:
  assumes ok: "workspace_ok w" and docs: "ew_documents w = ys @ d # zs" and i: "do_id d = i"
    and d': "do_id d' = do_id d" "do_path d' = do_path d"
    and p: "p = ew_preview w \<or> p = None" "p = Some i \<Longrightarrow> \<not> is_recoverable d'"
  shows "keeps_tabs i w (w\<lparr>ew_documents := ys @ d' # zs, ew_preview := p\<rparr>)"
proof -
  have "workspace_ok (w\<lparr>ew_documents := ys @ d' # zs, ew_preview := p\<rparr>)"
    by (rule workspace_ok_replace [OF ok docs d' p(1)]) (use p(2) i in simp)
  then show ?thesis using docs d' i by (simp add: keeps_tabs_def)
qed

lemma preview_not_recoverable:
  "workspace_ok w \<Longrightarrow> ew_documents w = ys @ d # zs \<Longrightarrow> ew_preview w = Some (do_id d) \<Longrightarrow> \<not> is_recoverable d"
proof -
  assume ok: "workspace_ok w" and docs: "ew_documents w = ys @ d # zs" and p: "ew_preview w = Some (do_id d)"
  obtain x where x: "x \<in> set (ew_documents w)" "do_id x = do_id d" "\<not> is_recoverable x"
    using ok p by (auto simp: workspace_ok_def)
  have "inj_on do_id (set (ew_documents w))" using ok by (simp add: workspace_ok_def distinct_map)
  moreover have "d \<in> set (ew_documents w)" by (simp add: docs)
  ultimately have "x = d" using x(1,2) by (simp add: inj_on_eq_iff)
  with x(3) show ?thesis by simp
qed

lemma then_pin_keeps:
  assumes ok: "workspace_ok w" and f: "keeps_document f" and run: "then_pin i (with_document i f w) = Some (r, w')"
  shows "keeps_tabs i w w'"
proof -
  obtain r1 w1 where step: "with_document i f w = Some (r1, w1)" and after: "attempt r1 w1 (\<lambda>_. pin i w1) = (r, w')"
    using run by (auto simp: then_pin_def bind_eq_Some_conv)
  from step f show ?thesis
  proof (cases rule: with_document_cases)
    case 1
    with after ok show ?thesis by (simp add: keeps_tabs_refl)
  next
    case (2 ys d zs r0 d')
    have d': "do_id d' = do_id d" "do_path d' = do_path d" using 2(4) by (simp_all add: same_document_def)
    note keep = keeps_tabs_replace [OF ok 2(1,2) d']
    show ?thesis
    proof (cases r0)
      case (Inl e)
      have "w' = w\<lparr>ew_documents := ys @ d' # zs\<rparr>"
        using after 2(5,6) Inl by simp
      with keep [of "ew_preview w"] 2(2,4) Inl preview_not_recoverable [OF ok 2(1)] show ?thesis
        by (auto simp: same_document_def)
    next
      case (Inr u)
      have at: "document_at i w1 = Some d'"
        using 2 d' by (intro document_at_replaced [of ys i d' w1 zs]) simp_all
      have "w' = w\<lparr>ew_documents := ys @ d' # zs, ew_preview := if ew_preview w = Some i then None else ew_preview w\<rparr>"
        using after 2(5,6) Inr at by (simp add: pin_def split: if_splits)
      then show ?thesis by (elim ssubst, intro keep) (auto split: if_splits)
    qed
  qed
qed

lemma with_document_keeps:
  assumes ok: "workspace_ok w" and f: "keeps_document f" and run: "with_document i f w = Some (r, w')"
    and safe: "\<And>d d'. f d = Some (Inr (), d') \<Longrightarrow> \<not> is_recoverable d \<Longrightarrow> \<not> is_recoverable d'"
  shows "keeps_tabs i w w'"
  using run f
proof (cases rule: with_document_cases)
  case 1
  with ok show ?thesis by (simp add: keeps_tabs_refl)
next
  case (2 ys d zs r0 d')
  have d': "do_id d' = do_id d" "do_path d' = do_path d" using 2(4) by (simp_all add: same_document_def)
  have "\<not> is_recoverable d'" if "ew_preview w = Some i"
    using that 2(2,3,4) safe [of d d'] preview_not_recoverable [OF ok 2(1)]
    by (cases r0) (auto simp: same_document_def)
  with keeps_tabs_replace [OF ok 2(1,2) d', of "ew_preview w"] 2(6) show ?thesis by simp
qed

lemma observe_disk_change_keeps:
  assumes ok: "workspace_ok w" and run: "workspace_observe_disk_change R i e v t w = Some (r, w')"
  shows "keeps_tabs i w w'"
proof -
  obtain r1 w1 where step: "with_document i (observe_disk_change R e v t) w = Some (r1, w1)"
    and after: "attempt r1 w1 (\<lambda>_. case document_at i w1 of
        Some d \<Rightarrow> if is_recoverable d then pin i w1 else (Inr (), w1) | None \<Rightarrow> (Inr (), w1)) = (r, w')"
    using run by (auto simp: workspace_observe_disk_change_def bind_eq_Some_conv)
  from step keeps_observe_disk_change show ?thesis
  proof (cases rule: with_document_cases)
    case 1
    with after ok show ?thesis by (simp add: keeps_tabs_refl)
  next
    case (2 ys d zs r0 d')
    have d': "do_id d' = do_id d" "do_path d' = do_path d" using 2(4) by (simp_all add: same_document_def)
    note keep = keeps_tabs_replace [OF ok 2(1,2) d']
    have at: "document_at i w1 = Some d'"
      using 2 d' by (intro document_at_replaced [of ys i d' w1 zs]) simp_all
    show ?thesis
    proof (cases "isl r0 \<or> \<not> is_recoverable d'")
      case True
      then have "w' = w\<lparr>ew_documents := ys @ d' # zs\<rparr>"
        using after 2(5,6) at by (cases r0) auto
      with keep [of "ew_preview w"] 2(2,4) True preview_not_recoverable [OF ok 2(1)] show ?thesis
        by (auto simp: same_document_def)
    next
      case False
      then have "w' = w\<lparr>ew_documents := ys @ d' # zs, ew_preview := if ew_preview w = Some i then None else ew_preview w\<rparr>"
        using after 2(5,6) at by (cases r0) (auto simp: pin_def)
      then show ?thesis by (elim ssubst, intro keep) (auto split: if_splits)
    qed
  qed
qed

section \<open>Removing a document\<close>

text \<open>The tab that becomes active is the neighbour on the left, or the first one.\<close>

lemma neighbour:
  assumes "n \<le> length xs"
  shows "case (case nth_opt xs (n - 1) of None \<Rightarrow> nth_opt xs n | Some d \<Rightarrow> Some d) of
    None \<Rightarrow> xs = [] | Some d \<Rightarrow> d \<in> set xs"
proof (cases xs)
  case Nil
  then show ?thesis by (simp add: nth_opt_def)
next
  case (Cons y ys)
  with assms have "nth_opt xs (n - 1) = Some (xs ! (n - 1))" "n - 1 < length xs" by (auto simp: nth_opt_Some)
  then show ?thesis by simp
qed

lemma remove_document_ok:
  assumes ok: "workspace_ok w"
  shows "workspace_ok (remove_document i w)" (is ?ok)
    "ew_documents (remove_document i w) = filter (\<lambda>d. do_id d \<noteq> i) (ew_documents w)" (is ?docs)
proof -
  have "?ok \<and> ?docs"
  proof (cases "position (\<lambda>d. do_id d = i) (ew_documents w)")
    case None
    then have "\<forall>d \<in> set (ew_documents w). do_id d \<noteq> i" by (simp add: position_None)
    with None ok show ?thesis by (simp add: remove_document_def)
  next
    case (Some n)
    obtain ys d zs where d: "ew_documents w = ys @ d # zs" "n = length ys" "do_id d = i"
      "\<forall>y \<in> set ys. do_id y \<noteq> i" "remove_at n (ew_documents w) = ys @ zs"
      by (rule remove_at_position [OF Some]) blast
    have dist: "distinct (map do_id (ys @ d # zs))" using ok d(1) by (simp add: workspace_ok_def)
    then have "\<forall>x \<in> set (ys @ zs). do_id x \<noteq> i" using d(3) by (auto simp: image_iff)
    then have filt: "filter (\<lambda>d. do_id d \<noteq> i) (ew_documents w) = ys @ zs"
      by (auto simp: d(1,3) filter_id_conv)
    let ?next = "case nth_opt (ys @ zs) (n - 1) of None \<Rightarrow> nth_opt (ys @ zs) n | Some d \<Rightarrow> Some d"
    have next': "case ?next of None \<Rightarrow> ys @ zs = [] | Some d \<Rightarrow> d \<in> set (ys @ zs)"
      by (rule neighbour) (simp add: d(2))
    define p where "p = (if ew_preview w = Some i then None else ew_preview w)"
    define a where "a = (if ew_active w = Some i then map_option do_id ?next else ew_active w)"
    have rem: "remove_document i w = w\<lparr>ew_documents := ys @ zs, ew_preview := p, ew_active := a\<rparr>"
      using Some d(5) by (cases w) (simp add: remove_document_def Let_def p_def a_def)
    then have "ew_documents (remove_document i w) = ys @ zs" by simp
    moreover have "workspace_ok (remove_document i w)"
      unfolding workspace_ok_def rem
    proof (intro conjI)
      show "case ew_active (w\<lparr>ew_documents := ys @ zs, ew_preview := p, ew_active := a\<rparr>) of
          None \<Rightarrow> ew_documents (w\<lparr>ew_documents := ys @ zs, ew_preview := p, ew_active := a\<rparr>) = []
        | Some i \<Rightarrow> i \<in> do_id ` set (ew_documents (w\<lparr>ew_documents := ys @ zs, ew_preview := p, ew_active := a\<rparr>))"
      proof -
        obtain j where j: "ew_active w = Some j" "j \<in> do_id ` set (ys @ d # zs)"
          using ok d(1) by (cases "ew_active w") (simp_all add: workspace_ok_def)
        show ?thesis
        proof (cases "j = i")
          case True
          with j(1) have "a = map_option do_id ?next" by (simp add: a_def)
          with next' show ?thesis by (cases ?next) simp_all
        next
          case False
          with j d(3) have "a = Some j" "j \<in> do_id ` set (ys @ zs)" by (auto simp: a_def)
          then show ?thesis by simp
        qed
      qed
      show "case ew_preview (w\<lparr>ew_documents := ys @ zs, ew_preview := p, ew_active := a\<rparr>) of None \<Rightarrow> True
        | Some i \<Rightarrow> \<exists>d \<in> set (ew_documents (w\<lparr>ew_documents := ys @ zs, ew_preview := p, ew_active := a\<rparr>)).
            do_id d = i \<and> \<not> is_recoverable d"
      proof (cases p)
        case (Some j)
        then have "ew_preview w = Some j" "j \<noteq> i" by (auto simp: p_def split: if_splits)
        moreover from this obtain x where "x \<in> set (ys @ d # zs)" "do_id x = j" "\<not> is_recoverable x"
          using ok d(1) by (auto simp: workspace_ok_def)
        ultimately show ?thesis using Some d(3) by auto
      qed simp
    qed (use ok d(1) in \<open>simp_all add: workspace_ok_def\<close>)
    ultimately show ?thesis using filt by simp
  qed
  then show ?ok ?docs by simp_all
qed

lemma clear_preview_ok:
  assumes ok: "workspace_ok w"
  shows "workspace_ok (clear_replaceable_preview w)"
    "\<forall>d \<in> set (ew_documents w). is_recoverable d \<longrightarrow> d \<in> set (ew_documents (clear_replaceable_preview w))"
    "set (ew_documents (clear_replaceable_preview w)) \<subseteq> set (ew_documents w)"
proof -
  let ?w = "w\<lparr>ew_preview := None\<rparr>"
  have ok': "workspace_ok ?w" using ok by (simp add: workspace_ok_def split: option.splits)
  note rem = remove_document_ok [OF ok']
  show "workspace_ok (clear_replaceable_preview w)"
    using ok ok' rem(1) by (auto simp: clear_replaceable_preview_def Let_def split: option.splits)
  show "\<forall>d \<in> set (ew_documents w). is_recoverable d \<longrightarrow> d \<in> set (ew_documents (clear_replaceable_preview w))"
  proof (cases "ew_preview w")
    case (Some i)
    have "do_id d \<noteq> i" if d: "d \<in> set (ew_documents w)" "is_recoverable d" for d
    proof -
      obtain ys zs where "ew_documents w = ys @ d # zs" using d(1) by (meson split_list)
      from preview_not_recoverable [OF ok this] Some d(2) show ?thesis by auto
    qed
    then show ?thesis using Some rem(2)
      by (auto simp: clear_replaceable_preview_def Let_def split: option.splits)
  qed (simp add: clear_replaceable_preview_def)
  show "set (ew_documents (clear_replaceable_preview w)) \<subseteq> set (ew_documents w)"
    using rem(2) by (auto simp: clear_replaceable_preview_def Let_def split: option.splits)
qed

section \<open>Every command\<close>

text \<open>
  Which documents a command may change or close while they hold unsaved text: the one it names,
  and, for an opening that asks for editing, the one that was opened read-only at the same path.
  Selecting, pinning and asking to close change none.
\<close>

fun may_change :: "workspace_command \<Rightarrow> 'r document \<Rightarrow> bool" where
  "may_change (OpenDocument p _ _ read_only _) d \<longleftrightarrow> do_path d = p \<and> \<not> read_only \<and> do_read_only d"
| "may_change (EditDocument i _ _ _ _) d \<longleftrightarrow> do_id d = i"
| "may_change (UndoDocument i) d \<longleftrightarrow> do_id d = i"
| "may_change (RedoDocument i) d \<longleftrightarrow> do_id d = i"
| "may_change (CompleteSave i _ _) d \<longleftrightarrow> do_id d = i"
| "may_change (SelectDocument _) d \<longleftrightarrow> False"
| "may_change (PinDocument _) d \<longleftrightarrow> False"
| "may_change (RecoveredDocument i) d \<longleftrightarrow> do_id d = i"
| "may_change (ObserveDiskChange i _ _ _) d \<longleftrightarrow> do_id d = i"
| "may_change (ObserveMissing i _) d \<longleftrightarrow> do_id d = i"
| "may_change (ReloadDocument i) d \<longleftrightarrow> do_id d = i"
| "may_change (KeepEditingDocument i) d \<longleftrightarrow> do_id d = i"
| "may_change (RestoreDocument i _) d \<longleftrightarrow> do_id d = i"
| "may_change (RequestClose _) d \<longleftrightarrow> False"
| "may_change (ResolveClose i k) d \<longleftrightarrow> do_id d = i \<and> k = Discard"

definition run_keeps :: "u64 \<Rightarrow> workspace_command \<Rightarrow> 'r workspace \<Rightarrow> 'r workspace \<Rightarrow> bool" where
  "run_keeps fresh c w w' \<longleftrightarrow>
     workspace_ok w' \<and>
     (\<forall>d \<in> set (ew_documents w). is_recoverable d \<longrightarrow> \<not> may_change c d \<longrightarrow> d \<in> set (ew_documents w')) \<and>
     do_id ` set (ew_documents w') \<subseteq> insert fresh (do_id ` set (ew_documents w))"

lemma keeps_tabs_run:
  "keeps_tabs i w w' \<Longrightarrow> (\<And>d :: 'r document. do_id d = i \<Longrightarrow> may_change c d) \<Longrightarrow> run_keeps fresh c w (w' :: 'r workspace)"
proof -
  assume k: "keeps_tabs i w w'" and c: "\<And>d :: 'r document. do_id d = i \<Longrightarrow> may_change c d"
  have "do_id ` set (ew_documents w') = do_id ` set (ew_documents w)"
  proof -
    have "map do_id (ew_documents w') = map do_id (ew_documents w)" using k by (simp add: keeps_tabs_def)
    from arg_cong [OF this, of set] show ?thesis by simp
  qed
  with k c show ?thesis by (auto simp: keeps_tabs_def run_keeps_def)
qed

lemma run_keeps_same: "workspace_ok w \<Longrightarrow> run_keeps fresh c w w"
  by (auto simp: run_keeps_def)

lemma run_keeps_removed:
  assumes "workspace_ok w" "\<And>d. d \<in> set (ew_documents w) \<Longrightarrow> do_id d = i \<Longrightarrow> is_recoverable d \<Longrightarrow> may_change c d"
  shows "run_keeps fresh c w (remove_document i w)"
  using remove_document_ok [OF assms(1), of i] assms(2) by (auto simp: run_keeps_def)

lemma pin_ok:
  assumes "workspace_ok w"
  shows "workspace_ok (snd (pin i w))" "ew_documents (snd (pin i w)) = ew_documents w"
  using assms by (auto simp: pin_def attempt_def ok_or_def workspace_ok_def split: option.splits sum.splits)

lemma select_ok: "workspace_ok w \<Longrightarrow> document_at i w = Some d \<Longrightarrow> workspace_ok (w\<lparr>ew_active := Some i\<rparr>)"
  by (auto simp: workspace_ok_def document_at_def dest!: find_Some_in split: option.splits)

lemma document_at_In: "document_at i w = Some d \<Longrightarrow> d \<in> set (ew_documents w) \<and> do_id d = i"
  unfolding document_at_def by (drule find_Some_in) simp

lemma document_at_unique:
  "workspace_ok w \<Longrightarrow> document_at i w = Some d \<Longrightarrow> x \<in> set (ew_documents w) \<Longrightarrow> do_id x = i \<Longrightarrow> x = d"
  using document_at_In [of i w d] by (auto simp: workspace_ok_def distinct_map dest: inj_onD)

lemma open_fresh_keeps:
  assumes ok: "workspace_ok w" and new: "fresh \<notin> do_id ` set (ew_documents w)"
    and path: "\<forall>d \<in> set (ew_documents w). do_path d \<noteq> p"
  shows "run_keeps fresh (OpenDocument p t v ro k) w
    (let w1 = if k = Preview then clear_replaceable_preview w else w in
     w1\<lparr>ew_documents := ew_documents w1 @ [document_new R fresh p t v ro], ew_active := Some fresh,
        ew_preview := if k = Preview then Some fresh else None\<rparr>)"
proof -
  define w1 where "w1 = (if k = Preview then clear_replaceable_preview w else w)"
  have w1: "workspace_ok w1" "\<forall>d \<in> set (ew_documents w). is_recoverable d \<longrightarrow> d \<in> set (ew_documents w1)"
    "set (ew_documents w1) \<subseteq> set (ew_documents w)"
    using ok clear_preview_ok [OF ok] by (auto simp: w1_def)
  have new1: "fresh \<notin> do_id ` set (ew_documents w1)" "p \<notin> do_path ` set (ew_documents w1)"
    using w1(3) new path by auto
  let ?d = "document_new R fresh p t v ro"
  have d: "do_id ?d = fresh" "do_path ?d = p" "\<not> is_recoverable ?d"
    by (simp_all add: document_new_def is_recoverable_def)
  let ?w = "w1\<lparr>ew_documents := ew_documents w1 @ [?d], ew_active := Some fresh,
        ew_preview := if k = Preview then Some fresh else None\<rparr>"
  have "workspace_ok ?w"
    using w1(1) new1 d by (simp add: workspace_ok_def)
  moreover have "do_id ` set (ew_documents ?w) \<subseteq> insert fresh (do_id ` set (ew_documents w))"
    using w1(3) d(1) by (simp add: image_mono subset_insertI2)
  ultimately have "run_keeps fresh (OpenDocument p t v ro k) w ?w"
    using w1(2) by (simp add: run_keeps_def)
  then show ?thesis unfolding w1_def [symmetric] Let_def .
qed

lemma open_existing_keeps:
  assumes ok: "workspace_ok w" and d: "d \<in> set (ew_documents w)" "do_path d = p"
    and up: "(if \<not> ro then with_document (do_id d) (\<lambda>d. Some (Inr (), upgrade_read_only R t v d)) w
        else Some (Inr (), w)) = Some (r, w1)"
  shows "keeps_tabs (do_id d) w w1" "ro \<or> \<not> do_read_only d \<Longrightarrow> w1 = w"
proof -
  show "keeps_tabs (do_id d) w w1"
  proof (cases ro)
    case False
    then have "with_document (do_id d) (\<lambda>d. Some (Inr (), upgrade_read_only R t v d)) w = Some (r, w1)" using up by simp
    then show ?thesis
      by (rule with_document_keeps [OF ok keeps_upgrade]) (auto simp: upgrade_read_only_def is_recoverable_def split: if_splits)
  qed (use ok up in \<open>simp add: keeps_tabs_refl\<close>)
  show "w1 = w" if "ro \<or> \<not> do_read_only d"
  proof (cases ro)
    case False
    then have "with_document (do_id d) (\<lambda>d. Some (Inr (), upgrade_read_only R t v d)) w = Some (r, w1)" using up by simp
    from this keeps_upgrade show ?thesis
    proof (cases rule: with_document_cases)
      case (2 ys x zs r0 x')
      have "x = d" using ok d(1) 2(1,2) by (auto simp: workspace_ok_def)
      with 2(1,3,6) that False show ?thesis by (simp add: upgrade_read_only_def)
    qed
  qed (use up in simp)
qed

lemma workspace_open_keeps:
  assumes ok: "workspace_ok w" and new: "fresh \<notin> do_id ` set (ew_documents w)"
    and run: "workspace_open R fresh p t v ro k w = Some (r, w')"
  shows "run_keeps fresh (OpenDocument p t v ro k) w w'"
proof (cases "find (\<lambda>d. do_path d = p) (ew_documents w)")
  case None
  then have "\<forall>d \<in> set (ew_documents w). do_path d \<noteq> p" by (simp add: find_None_all)
  from open_fresh_keeps [OF ok new this, where R = R and t = t and v = v and ro = ro and k = k] show ?thesis
    using None run by (auto simp: workspace_open_def Let_def document_new_def)
next
  case (Some d)
  then have d: "d \<in> set (ew_documents w)" "do_path d = p" using find_Some_in [OF Some] by simp_all
  obtain r1 w1 where up: "(if \<not> ro then with_document (do_id d) (\<lambda>d. Some (Inr (), upgrade_read_only R t v d)) w
      else Some (Inr (), w)) = Some (r1, w1)"
    using run Some by (auto simp: workspace_open_def Let_def bind_eq_Some_conv)
  note keep = open_existing_keeps [OF ok d up]
  have tabs: "workspace_ok w1" "\<forall>x \<in> set (ew_documents w). do_id x \<noteq> do_id d \<longrightarrow> x \<in> set (ew_documents w1)"
    "do_id ` set (ew_documents w1) = do_id ` set (ew_documents w)"
  proof -
    show "workspace_ok w1" "\<forall>x \<in> set (ew_documents w). do_id x \<noteq> do_id d \<longrightarrow> x \<in> set (ew_documents w1)"
      using keep(1) by (simp_all add: keeps_tabs_def)
    have "map do_id (ew_documents w1) = map do_id (ew_documents w)" using keep(1) by (simp add: keeps_tabs_def)
    from arg_cong [OF this, of set] show "do_id ` set (ew_documents w1) = do_id ` set (ew_documents w)" by simp
  qed
  have same: "x \<in> set (ew_documents w1)"
    if x: "x \<in> set (ew_documents w)" "\<not> may_change (OpenDocument p t v ro k) x" for x
  proof (cases "do_id x = do_id d")
    case True
    with x(1) d(1) ok have "x = d" by (auto simp: workspace_ok_def distinct_map dest: inj_onD)
    with x keep(2) d(2) show ?thesis by auto
  qed (use x(1) tabs(2) in simp)
  have active: "workspace_ok (w1\<lparr>ew_active := Some (do_id d)\<rparr>)"
    using tabs(1,3) d(1) by (cases "ew_preview w1") (auto simp: workspace_ok_def)
  have "workspace_ok w' \<and> ew_documents w' = ew_documents w1"
    using run Some up active tabs(1) pin_ok [OF active, of "do_id d"]
    by (auto simp: workspace_open_def Let_def attempt_def split: sum.splits prod.splits if_splits)
  then show ?thesis using same tabs(3) by (auto simp: run_keeps_def)
qed

lemma resolve_close_keeps:
  assumes ok: "workspace_ok w"
  shows "run_keeps fresh (ResolveClose i k) w (snd (resolve_close i k w))"
    "run_keeps fresh (RequestClose i) w (snd (request_close i w))"
proof -
  show "run_keeps fresh (ResolveClose i k) w (snd (resolve_close i k w))"
  proof (cases "document_at i w")
    case (Some d)
    show ?thesis
    proof (cases k)
      case Discard
      have "run_keeps fresh (ResolveClose i k) w (remove_document i w)"
        by (rule run_keeps_removed [OF ok]) (simp add: Discard)
      with Some Discard show ?thesis by (simp add: resolve_close_def)
    qed (use Some ok in \<open>simp_all add: resolve_close_def run_keeps_same\<close>)
  qed (use ok in \<open>simp add: resolve_close_def run_keeps_same\<close>)
  show "run_keeps fresh (RequestClose i) w (snd (request_close i w))"
  proof (cases "document_at i w")
    case (Some d)
    show ?thesis
    proof (cases "is_recoverable d")
      case False
      have "run_keeps fresh (RequestClose i) w (remove_document i w)"
        by (rule run_keeps_removed [OF ok]) (use document_at_unique [OF ok Some] False in blast)
      with Some False show ?thesis by (simp add: request_close_def)
    qed (use Some ok in \<open>simp add: request_close_def run_keeps_same\<close>)
  qed (use ok in \<open>simp add: request_close_def run_keeps_same\<close>)
qed

lemma complete_save_keeps:
  "workspace_ok w \<Longrightarrow> workspace_complete_save R i e v w = Some (r, w') \<Longrightarrow> keeps_tabs i w w'"
  unfolding workspace_complete_save_def
  by (erule with_document_keeps [OF _ keeps_complete_save])
    (auto simp: complete_save_def ensure_revision_def Let_def outcome is_recoverable_def)

lemmas pinned_operations =
  workspace_edit_def workspace_undo_def workspace_redo_def workspace_mark_recovered_def
  workspace_observe_missing_def workspace_reload_from_disk_def workspace_keep_editing_def
  workspace_restore_recovery_def

lemma workspace_run_keeps:
  assumes ok: "workspace_ok w" and new: "fresh \<notin> do_id ` set (ew_documents w)"
    and run: "workspace_run R fresh c w = Some w'"
  shows "run_keeps fresh c w w'"
proof -
  note pinned = then_pin_keeps [OF ok, THEN keeps_tabs_run, rotated]
  show ?thesis
  proof (cases c)
    case (SelectDocument i)
    then show ?thesis
      using run ok select_ok [OF ok]
      by (auto simp: workspace_select_def attempt_def ok_or_def run_keeps_def split: option.splits)
  next
    case (PinDocument i)
    then show ?thesis using run pin_ok [OF ok, of i] by (auto simp: run_keeps_def)
  next
    case (RequestClose i)
    then show ?thesis using run resolve_close_keeps(2) [OF ok] by auto
  next
    case (ResolveClose i k)
    then show ?thesis using run resolve_close_keeps(1) [OF ok] by auto
  next
    case (OpenDocument p t v ro k)
    then show ?thesis using run workspace_open_keeps [OF ok new] by auto
  next
    case (CompleteSave i e v)
    then show ?thesis using run complete_save_keeps [OF ok] by (auto intro!: keeps_tabs_run)
  next
    case (ObserveDiskChange i e v t)
    then show ?thesis using run observe_disk_change_keeps [OF ok] by (auto intro!: keeps_tabs_run)
  qed (use run in \<open>auto simp: pinned_operations intro!: pinned keeps\<close>)
qed

section \<open>Reachable workspaces\<close>

text \<open>
  Identifiers come from one counter of the process: a command of this workspace gets one that no
  earlier command of any workspace got.
\<close>

inductive workspace_reachable :: "'r rope_ops \<Rightarrow> u64 \<Rightarrow> 'r workspace \<Rightarrow> bool" for R where
  started: "workspace_reachable R n (workspace_new workspace_id)"
| ran: "workspace_reachable R n w \<Longrightarrow> n \<le> fresh \<Longrightarrow> fresh \<noteq> - 1 \<Longrightarrow>
    workspace_run R fresh c w = Some w' \<Longrightarrow> workspace_reachable R (fresh + 1) w'"

lemma reachable_tabs:
  "workspace_reachable R n w \<Longrightarrow> workspace_ok w \<and> (\<forall>i \<in> do_id ` set (ew_documents w). i < n)"
proof (induction rule: workspace_reachable.induct)
  case (started n workspace_id)
  then show ?case by (simp add: workspace_ok_def workspace_new_def)
next
  case (ran n w fresh c w')
  have new: "fresh \<notin> do_id ` set (ew_documents w)"
    using ran.IH ran.hyps(2) by (meson leD)
  have "run_keeps fresh c w w'"
    using ran.IH by (intro workspace_run_keeps [OF _ new ran.hyps(4)]) simp
  moreover have "i < fresh + 1" if "i \<in> insert fresh (do_id ` set (ew_documents w))" for i
    using that ran.IH ran.hyps(2) next_revision_less [OF ran.hyps(3)] by (auto dest: less_le_trans less_trans)
  ultimately show ?case unfolding run_keeps_def by blast
qed

section \<open>Properties\<close>

text \<open>
  C19. The tabs of a reachable workspace are consistent: identifiers and paths are distinct, an
  active tab exists exactly when some document is open, and the preview tab, the one that another
  preview may replace, never holds unsaved text.
\<close>

theorem tabs_stay_consistent:
  assumes "workspace_reachable R n w"
  shows "distinct (map do_id (ew_documents w)) \<and> distinct (map do_path (ew_documents w)) \<and>
    (case ew_active w of None \<Rightarrow> ew_documents w = [] | Some i \<Rightarrow> \<exists>d. document_at i w = Some d) \<and>
    (case ew_preview w of None \<Rightarrow> True
     | Some i \<Rightarrow> \<exists>d. document_at i w = Some d \<and> \<not> is_recoverable d)"
proof -
  have ok: "workspace_ok w" using reachable_tabs [OF assms] by simp
  have found: "document_at (do_id d) w = Some d" if "d \<in> set (ew_documents w)" for d
  proof (cases "document_at (do_id d) w")
    case None
    with that show ?thesis by (auto simp: document_at_def find_None_all)
  next
    case (Some x)
    with document_at_unique [OF ok Some that refl] show ?thesis by simp
  qed
  then have "\<exists>x. document_at i w = Some x" if "i \<in> do_id ` set (ew_documents w)" for i
    using that by auto
  moreover have "\<exists>x. document_at i w = Some x \<and> \<not> is_recoverable x"
    if "\<exists>d \<in> set (ew_documents w). do_id d = i \<and> \<not> is_recoverable d" for i
    using that found by auto
  ultimately show ?thesis using ok by (auto simp: workspace_ok_def split: option.splits)
qed

text \<open>
  C20. Unsaved text is never dropped behind the user's back. Whatever command a reachable
  workspace runs, a document with unsaved text stays open exactly as it is, unless the command
  names it or opens its path again for editing while it is open read-only; closing it takes an
  explicit decision to discard.
\<close>

theorem unsaved_documents_stay_open:
  assumes "workspace_reachable R n w" "n \<le> fresh" "workspace_run R fresh c w = Some w'"
    and "d \<in> set (ew_documents w)" "is_recoverable d" "\<not> may_change c d"
  shows "d \<in> set (ew_documents w')"
proof -
  have "workspace_ok w" "fresh \<notin> do_id ` set (ew_documents w)"
    using reachable_tabs [OF assms(1)] assms(2) by (auto dest: leD)
  from workspace_run_keeps [OF this assms(3)] assms(4-6) show ?thesis by (simp add: run_keeps_def)
qed

text \<open>
  C21. Opening a path again for editing replaces what a read-only document holds, the text
  restored from recovery included: the buffer is the text read from disk, nothing can be undone,
  and the document still says it was recovered.
\<close>

theorem reopening_discards_recovered_text:
  assumes "rope_laws R" "workspace_reachable R n w" "document_at i w = Some d" "do_read_only d"
    and "do_recovered d"
  shows "\<exists>w' d'. workspace_open R fresh (do_path d) t v False k w = Some (Inr i, w') \<and>
    document_at i w' = Some d' \<and> document_text R d' = t \<and> hi_undo (do_history d') = [] \<and>
    do_recovered d' \<and> do_status d' = Clean"
proof -
  have ok: "workspace_ok w" using reachable_tabs [OF assms(2)] by simp
  note at = document_at_In [OF assms(3)]
  have "find (\<lambda>x. do_path x = do_path d) (ew_documents w) = Some d"
  proof (cases "find (\<lambda>x. do_path x = do_path d) (ew_documents w)")
    case (Some x)
    with find_Some_in [OF Some] at ok show ?thesis
      by (auto simp: workspace_ok_def distinct_map dest: inj_onD)
  qed (use at in \<open>auto simp: find_None_all\<close>)
  moreover obtain ys zs where docs: "ew_documents w = ys @ d # zs" using at by (meson split_list)
  moreover have first: "\<forall>y \<in> set ys. do_id y \<noteq> i"
  proof -
    have "do_id d \<notin> do_id ` set ys" using ok docs by (simp add: workspace_ok_def)
    then show ?thesis using at by (metis imageI)
  qed
  ultimately have pos: "find (\<lambda>x. do_path x = do_path d) (ys @ d # zs) = Some d"
    "position (\<lambda>x. do_id x = i) (ys @ d # zs) = Some (length ys)"
    using at by (simp_all add: position_append_here)
  let ?d = "upgrade_read_only R t v d"
  have up: "with_document i (\<lambda>x. Some (Inr (), upgrade_read_only R t v x)) w =
      Some (Inr (), w\<lparr>ew_documents := ys @ ?d # zs\<rparr>)"
    by (simp add: with_document_def docs pos)
  have d': "do_id ?d = i" "document_text R ?d = t" "hi_undo (do_history ?d) = []" "do_recovered ?d" "do_status ?d = Clean"
    using assms(1,4,5) at
    by (simp_all add: upgrade_read_only_def document_text_def buffer_string_def text_buffer_new_def rope_law history_new_def)
  have found: "document_at i w1 = Some ?d" if "ew_documents w1 = ys @ ?d # zs" for w1
    by (rule document_at_replaced [OF first d'(1) that])
  show ?thesis
    using up pos d' found at
    by (cases k) (auto simp: workspace_open_def docs Let_def pin_def)
qed

section \<open>The properties on a small workspace\<close>

definition example_draft :: "rust_string document" where
  "example_draft = mark_recovered (document_new list_rope 1 (lit ''notes'') (lit ''draft'') (lit ''d1'') True)"

definition example_workspace :: "rust_string workspace" where
  "example_workspace = \<lparr>ew_workspace_id = lit ''w'', ew_documents = [example_draft], ew_active = Some 1, ew_preview = None\<rparr>"

lemma example_workspace_reachable: "workspace_reachable list_rope 3 example_workspace"
proof -
  let ?d = "document_new list_rope 1 (lit ''notes'') (lit ''draft'') (lit ''d1'') True"
  let ?w = "\<lparr>ew_workspace_id = lit ''w'', ew_documents = [?d], ew_active = Some 1, ew_preview = Some 1\<rparr>"
  have id: "do_id ?d = 1" by (simp add: document_new_def)
  have "workspace_run list_rope 1 (OpenDocument (lit ''notes'') (lit ''draft'') (lit ''d1'') True Preview)
      (workspace_new (lit ''w'')) = Some ?w"
    using id by (simp add: workspace_open_def workspace_new_def clear_replaceable_preview_def Let_def)
  from workspace_reachable.ran [OF workspace_reachable.started [of list_rope 1 "lit ''w''"] _ _ this]
  have opened: "workspace_reachable list_rope 2 ?w" by simp
  have "workspace_run list_rope 2 (RecoveredDocument 1) ?w = Some example_workspace"
    using id by (simp add: workspace_mark_recovered_def then_pin_def with_document_def pin_def document_at_def
        example_workspace_def example_draft_def)
  from workspace_reachable.ran [OF opened _ _ this] show ?thesis by simp
qed

lemma example_draft_values:
  "document_at 1 example_workspace = Some example_draft" "example_draft \<in> set (ew_documents example_workspace)"
  "is_recoverable example_draft" "do_read_only example_draft" "do_recovered example_draft"
  by (simp_all add: example_workspace_def document_at_def is_recoverable_def example_draft_def)
    (simp_all add: document_new_def)

theorem tabs_stay_consistent_witness:
  "distinct (map do_id (ew_documents example_workspace)) \<and> distinct (map do_path (ew_documents example_workspace)) \<and>
    (case ew_active example_workspace of None \<Rightarrow> ew_documents example_workspace = []
     | Some i \<Rightarrow> \<exists>d. document_at i example_workspace = Some d) \<and>
    (case ew_preview example_workspace of None \<Rightarrow> True
     | Some i \<Rightarrow> \<exists>d. document_at i example_workspace = Some d \<and> \<not> is_recoverable d)"
  by (rule tabs_stay_consistent [OF example_workspace_reachable])

theorem unsaved_documents_stay_open_witness:
  "example_draft \<in> set (ew_documents (snd (request_close 1 example_workspace)))"
  by (rule unsaved_documents_stay_open [OF example_workspace_reachable order_refl, of "RequestClose 1"])
    (simp_all add: example_draft_values)

theorem reopening_discards_recovered_text_witness:
  "\<exists>w' d'. workspace_open list_rope 3 (do_path example_draft) (lit ''disk'') (lit ''d2'') False Pinned example_workspace =
      Some (Inr 1, w') \<and>
    document_at 1 w' = Some d' \<and> document_text list_rope d' = lit ''disk'' \<and> hi_undo (do_history d') = [] \<and>
    do_recovered d' \<and> do_status d' = Clean"
  by (rule reopening_discards_recovered_text [OF list_rope_laws example_workspace_reachable example_draft_values(1,4,5)])

end
