(* ===== verification/EditFind.thy ===== *)
theory EditFind imports EditBuffer begin

text \<open>
  Finding and replacing in strukt-editor (\<open>find.rs\<close>). The \<open>regex\<close> crate is the parameter
  \<open>regex_ops\<close>: escaping, compiling, the matches of a text as byte spans, and the expansion of a
  replacement template for one match; what the code relies on is \<open>regex_laws\<close>. The Unicode test
  \<open>char::is_alphanumeric\<close> is the parameter \<open>alphanumeric\<close>. Slicing a text away from a character
  boundary panics: \<open>None\<close>.
\<close>

section \<open>State\<close>

record find_options =
  fo_case_sensitive :: bool
  fo_whole_word :: bool
  fo_regex :: bool

definition find_options_default :: find_options where
  "find_options_default = \<lparr>fo_case_sensitive = False, fo_whole_word = False, fo_regex = False\<rparr>"

definition find_options_regex :: find_options where
  "find_options_regex = \<lparr>fo_case_sensitive = True, fo_whole_word = False, fo_regex = True\<rparr>"

record ('x, 'c) regex_ops =
  re_escape :: "rust_string \<Rightarrow> rust_string"
  re_build :: "rust_string \<Rightarrow> bool \<Rightarrow> rust_string + 'x"
  re_find_iter :: "'x \<Rightarrow> rust_string \<Rightarrow> (nat \<times> nat) list"
  re_captures_iter :: "'x \<Rightarrow> rust_string \<Rightarrow> 'c list"
  re_span :: "'c \<Rightarrow> nat \<times> nat"
  re_expand :: "'c \<Rightarrow> rust_string \<Rightarrow> rust_string"

record 'x find_query =
  fq_regex :: 'x
  fq_whole_word :: bool

datatype find_error =
    InvalidRegex rust_string
  | NoMatches
  | FindTransaction transaction_error

record find_result =
  fr_matches :: "char_range list"

section \<open>Text positions\<close>

definition byte_to_char :: "rust_string \<Rightarrow> nat \<Rightarrow> nat option" where
  "byte_to_char text byte =
     (if is_char_boundary text byte then Some (length (slice_to text byte)) else None)"

definition is_word :: "(scalar \<Rightarrow> bool) \<Rightarrow> scalar \<Rightarrow> bool" where
  "is_word alphanumeric character \<longleftrightarrow> alphanumeric character \<or> character = 95"

definition has_word_boundaries :: "(scalar \<Rightarrow> bool) \<Rightarrow> rust_string \<Rightarrow> nat \<Rightarrow> nat \<Rightarrow> bool option" where
  "has_word_boundaries alphanumeric text start stop =
     (if is_char_boundary text start \<and> is_char_boundary text stop then
        let before = last_opt (slice_to text start);
            after = first_opt (drop (length (slice_to text stop)) text);
            wordy = (\<lambda>c. case c of None \<Rightarrow> False | Some c \<Rightarrow> is_word alphanumeric c)
        in Some (\<not> wordy before \<and> \<not> wordy after)
      else None)"

text \<open>The range of a match in characters.\<close>

definition match_range :: "rust_string \<Rightarrow> nat \<times> nat \<Rightarrow> char_range option" where
  "match_range text span = do {
     start \<leftarrow> byte_to_char text (fst span);
     stop \<leftarrow> byte_to_char text (snd span);
     Some \<lparr>cr_start = start, cr_end = stop\<rparr>
   }"

definition wanted :: "(scalar \<Rightarrow> bool) \<Rightarrow> bool \<Rightarrow> rust_string \<Rightarrow> nat \<times> nat \<Rightarrow> bool option" where
  "wanted alphanumeric whole_word text span =
     (if whole_word then has_word_boundaries alphanumeric text (fst span) (snd span) else Some True)"

section \<open>Operations\<close>

definition find_query_new ::
  "('x, 'c) regex_ops \<Rightarrow> rust_string \<Rightarrow> find_options \<Rightarrow> find_error + 'x find_query"
where
  "find_query_new X pattern options =
     (let source = (if fo_regex options then pattern else re_escape X pattern) in
      and_then (map_err InvalidRegex (re_build X source (\<not> fo_case_sensitive options))) (\<lambda>regex.
        Inr \<lparr>fq_regex = regex, fq_whole_word = fo_whole_word options\<rparr>))"

fun find_loop :: "(scalar \<Rightarrow> bool) \<Rightarrow> bool \<Rightarrow> rust_string \<Rightarrow> (nat \<times> nat) list \<Rightarrow> char_range list option" where
  "find_loop alphanumeric whole_word text [] = Some []"
| "find_loop alphanumeric whole_word text (span # spans) = do {
     keep \<leftarrow> wanted alphanumeric whole_word text span;
     if keep then do {
       found \<leftarrow> match_range text span;
       rest \<leftarrow> find_loop alphanumeric whole_word text spans;
       Some (found # rest)
     } else find_loop alphanumeric whole_word text spans
   }"

definition find_all :: "('x, 'c) regex_ops \<Rightarrow> (scalar \<Rightarrow> bool) \<Rightarrow> 'x find_query \<Rightarrow> rust_string \<Rightarrow> find_result option" where
  "find_all X alphanumeric q text = do {
     matches \<leftarrow> find_loop alphanumeric (fq_whole_word q) text (re_find_iter X (fq_regex q) text);
     Some \<lparr>fr_matches = matches\<rparr>
   }"

fun replacement_loop ::
  "('x, 'c) regex_ops \<Rightarrow> (scalar \<Rightarrow> bool) \<Rightarrow> bool \<Rightarrow> rust_string \<Rightarrow> rust_string \<Rightarrow> 'c list \<Rightarrow> replacement list option"
where
  "replacement_loop X alphanumeric whole_word text template [] = Some []"
| "replacement_loop X alphanumeric whole_word text template (c # cs) = do {
     keep \<leftarrow> wanted alphanumeric whole_word text (re_span X c);
     if keep then do {
       found \<leftarrow> match_range text (re_span X c);
       rest \<leftarrow> replacement_loop X alphanumeric whole_word text template cs;
       Some (replacement_new found (re_expand X c template) # rest)
     } else replacement_loop X alphanumeric whole_word text template cs
   }"

definition replace_all ::
  "('x, 'c) regex_ops \<Rightarrow> (scalar \<Rightarrow> bool) \<Rightarrow> 'x find_query \<Rightarrow> u64 \<Rightarrow> rust_string \<Rightarrow> rust_string \<Rightarrow>
    (find_error + edit_transaction) option"
where
  "replace_all X alphanumeric q revision text template = do {
     replacements \<leftarrow> replacement_loop X alphanumeric (fq_whole_word q) text template
       (re_captures_iter X (fq_regex q) text);
     Some (if replacements = [] then Inl NoMatches
           else map_err FindTransaction (edit_transaction_new revision replacements))
   }"

definition next_after :: "find_result \<Rightarrow> nat \<Rightarrow> char_range option" where
  "next_after r at =
     (case find (\<lambda>found. cr_start found > at) (fr_matches r) of
        Some found \<Rightarrow> Some found
      | None \<Rightarrow> first_opt (fr_matches r))"

definition previous_before :: "find_result \<Rightarrow> nat \<Rightarrow> char_range option" where
  "previous_before r at =
     (case find (\<lambda>found. cr_end found \<le> at) (rev (fr_matches r)) of
        Some found \<Rightarrow> Some found
      | None \<Rightarrow> last_opt (fr_matches r))"

section \<open>Spans and ranges\<close>

text \<open>
  The matches the crate documents: in order, not overlapping, on character boundaries of the text;
  and the captures are those of the same matches.
\<close>

fun spans_from :: "nat \<Rightarrow> rust_string \<Rightarrow> (nat \<times> nat) list \<Rightarrow> bool" where
  "spans_from pos text [] \<longleftrightarrow> True"
| "spans_from pos text ((a, b) # spans) \<longleftrightarrow>
     pos \<le> a \<and> a \<le> b \<and> is_char_boundary text a \<and> is_char_boundary text b \<and> spans_from b text spans"

definition regex_laws :: "('x, 'c) regex_ops \<Rightarrow> bool" where
  "regex_laws X \<longleftrightarrow>
     (\<forall>x text. spans_from 0 text (re_find_iter X x text) \<and>
       map (re_span X) (re_captures_iter X x text) = re_find_iter X x text)"

lemma slice_to_mono: "a \<le> b \<Longrightarrow> length (slice_to s a) \<le> length (slice_to s b)"
  by (induction s arbitrary: a b) auto

lemma slice_to_short: "length (slice_to s a) \<le> length s"
  by (induction s a rule: slice_to.induct) auto

lemma match_range_boundary:
  "is_char_boundary text a \<Longrightarrow> is_char_boundary text b \<Longrightarrow>
    match_range text (a, b) = Some \<lparr>cr_start = length (slice_to text a), cr_end = length (slice_to text b)\<rparr>"
  by (simp add: match_range_def byte_to_char_def)

lemma wanted_boundary:
  "is_char_boundary text a \<Longrightarrow> is_char_boundary text b \<Longrightarrow> \<exists>k. wanted al whole text (a, b) = Some k"
  by (auto simp: wanted_def has_word_boundaries_def Let_def)

text \<open>Both loops keep the same matches, and the replacements come in order.\<close>

lemma loops_agree:
  assumes "spans_from pos text (map (re_span X) cs)"
  shows "\<exists>ms rs. find_loop al whole text (map (re_span X) cs) = Some ms \<and>
    replacement_loop X al whole text template cs = Some rs \<and> map rp_range rs = ms \<and>
    ordered_from (length (slice_to text pos)) rs (length text)"
  using assms
proof (induction cs arbitrary: pos)
  case Nil
  then show ?case by (simp add: slice_to_short)
next
  case (Cons c cs)
  obtain a b where c: "re_span X c = (a, b)" by fastforce
  with Cons.prems have ab: "pos \<le> a" "a \<le> b" "is_char_boundary text a" "is_char_boundary text b"
    "spans_from b text (map (re_span X) cs)" by simp_all
  obtain ms rs where rest: "find_loop al whole text (map (re_span X) cs) = Some ms"
    "replacement_loop X al whole text template cs = Some rs" "map rp_range rs = ms"
    "ordered_from (length (slice_to text b)) rs (length text)"
    using Cons.IH [OF ab(5)] by blast
  note mono = slice_to_mono [OF ab(1), of "text"] slice_to_mono [OF ab(2), of "text"]
  obtain k where k: "wanted al whole text (a, b) = Some k" using wanted_boundary [OF ab(3,4)] by blast
  show ?case
  proof (cases k)
    case True
    with c k rest mono match_range_boundary [OF ab(3,4)] show ?thesis
      by (simp add: replacement_new_def)
  next
    case False
    with c k rest mono show ?thesis
      using ordered_from_weaken [OF rest(4), of "length (slice_to text pos)"] by simp
  qed
qed

section \<open>Property\<close>

text \<open>
  C22. Replacing every match replaces what finding shows. With a regular expression engine that
  keeps its documented contract, neither operation panics, the replacements of the transaction
  are exactly the ranges that were found, in order and within the text, and the transaction is
  refused only when nothing matches; a buffer that still holds the text at that revision accepts
  it and splices every replacement in.
\<close>

theorem replace_all_replaces_each_match:
  assumes "regex_laws X" and R: "rope_laws R"
    and now: "buffer_string R b = text" and rev: "tb_revision b \<noteq> - 1"
  shows "\<exists>found. find_all X al q text = Some found \<and>
    (if fr_matches found = [] then replace_all X al q (tb_revision b) text template = Some (Inl NoMatches)
     else \<exists>tx. replace_all X al q (tb_revision b) text template = Some (Inr tx) \<and>
       map rp_range (et_replacements tx) = fr_matches found \<and>
       ordered_from 0 (et_replacements tx) (length text) \<and>
       (length (spliced 0 (et_replacements tx) text) < 2 ^ 64 \<longrightarrow>
         (\<exists>a b'. buffer_apply R tx b = Some (Inr a, b') \<and>
           buffer_string R b' = spliced 0 (et_replacements tx) text)))"
proof -
  let ?cs = "re_captures_iter X (fq_regex q) text"
  have spans: "spans_from 0 text (map (re_span X) ?cs)" "re_find_iter X (fq_regex q) text = map (re_span X) ?cs"
    using assms(1) by (simp_all add: regex_laws_def)
  obtain ms rs where loops: "find_loop al (fq_whole_word q) text (map (re_span X) ?cs) = Some ms"
    "replacement_loop X al (fq_whole_word q) text template ?cs = Some rs" "map rp_range rs = ms"
    "ordered_from (length (slice_to text 0)) rs (length text)"
    using loops_agree [OF spans(1)] by blast
  have o: "ordered_from 0 rs (length text)" using ordered_from_weaken [OF loops(4)] by simp
  note new = edit_transaction_new_ordered [OF o, of "tb_revision b"]
  have "\<exists>a b'. buffer_apply R \<lparr>et_expected = tb_revision b, et_replacements = rs\<rparr> b = Some (Inr a, b') \<and>
      buffer_string R b' = spliced 0 rs text" if "length (spliced 0 rs text) < 2 ^ 64"
    using buffer_apply_accepted [OF R, of "\<lparr>et_expected = tb_revision b, et_replacements = rs\<rparr>" b] o now rev that
    by (simp add: edited_to_def) metis
  with spans(2) loops o new show ?thesis
    by (intro exI [of _ "\<lparr>fr_matches = ms\<rparr>"]) (auto simp: find_all_def replace_all_def)
qed

text \<open>An engine for the expression \<open>^a\<close>.\<close>

definition starts_with_a :: "(unit, unit) regex_ops" where
  "starts_with_a =
     \<lparr>re_escape = id, re_build = (\<lambda>_ _. Inr ()),
      re_find_iter = (\<lambda>_ text. if take 1 text = [97] then [(0, 1)] else []),
      re_captures_iter = (\<lambda>_ text. if take 1 text = [97] then [()] else []),
      re_span = (\<lambda>_. (0, 1)), re_expand = (\<lambda>_ template. template)\<rparr>"

lemma starts_with_a_laws: "regex_laws starts_with_a"
proof -
  have "is_char_boundary s 1" if "take 1 s = [97]" for s
    using that by (cases s) (simp_all add: len_utf8_def)
  then show ?thesis by (simp add: regex_laws_def starts_with_a_def)
qed

theorem replace_all_replaces_each_match_witness:
  "\<exists>found. find_all starts_with_a (\<lambda>_. False) \<lparr>fq_regex = (), fq_whole_word = False\<rparr> (lit ''abc'') = Some found \<and>
    (if fr_matches found = []
     then replace_all starts_with_a (\<lambda>_. False) \<lparr>fq_regex = (), fq_whole_word = False\<rparr> 0 (lit ''abc'') (lit ''x'') = Some (Inl NoMatches)
     else \<exists>tx. replace_all starts_with_a (\<lambda>_. False) \<lparr>fq_regex = (), fq_whole_word = False\<rparr> 0 (lit ''abc'') (lit ''x'') = Some (Inr tx) \<and>
       map rp_range (et_replacements tx) = fr_matches found \<and>
       ordered_from 0 (et_replacements tx) (length (lit ''abc'')) \<and>
       (length (spliced 0 (et_replacements tx) (lit ''abc'')) < 2 ^ 64 \<longrightarrow>
         (\<exists>a b'. buffer_apply list_rope tx (text_buffer_new list_rope (lit ''abc'')) = Some (Inr a, b') \<and>
           buffer_string list_rope b' = spliced 0 (et_replacements tx) (lit ''abc''))))"
proof -
  have b: "buffer_string list_rope (text_buffer_new list_rope (lit ''abc'')) = lit ''abc''"
    "tb_revision (text_buffer_new list_rope (lit ''abc'')) = 0"
    by (simp_all add: text_buffer_new_def buffer_string_def list_rope_def)
  show ?thesis
    by (rule replace_all_replaces_each_match [OF starts_with_a_laws list_rope_laws b(1), unfolded b(2)]) simp
qed

end
