(* ===== verification/TerminalIds.thy ===== *)
theory TerminalIds imports StruktPrelude begin

text \<open>
  The identifiers of terminal panes and tabs (\<open>strukt-terminal/src/id.rs\<close>): two process-wide atomic
  counters. The operations that draw from them take them and return them.
\<close>

record terminal_ids =
  ti_next_pane :: u64
  ti_next_tab :: u64

text \<open>\<open>fetch_add\<close> wraps; \<open>reserve_after\<close> raises a counter to the saturated successor.\<close>

definition new_pane_id :: "terminal_ids \<Rightarrow> u64 \<times> terminal_ids" where
  "new_pane_id ids = (ti_next_pane ids, ids\<lparr>ti_next_pane := ti_next_pane ids + 1\<rparr>)"

definition new_tab_id :: "terminal_ids \<Rightarrow> u64 \<times> terminal_ids" where
  "new_tab_id ids = (ti_next_tab ids, ids\<lparr>ti_next_tab := ti_next_tab ids + 1\<rparr>)"

definition reserve_after :: "u64 \<Rightarrow> u64 \<Rightarrow> u64" where
  "reserve_after i current = (let next = sat_inc i in if current < next then next else current)"

end
