(* ===== verification/TerminalLayout.thy ===== *)
theory TerminalLayout imports PaneTree BTreeMap RustText TerminalIds begin

text \<open>
  Terminal tabs and panes of strukt-terminal (\<open>layout.rs\<close>, \<open>id.rs\<close>): the layout tree, the
  workspace of tabs, its operations, and snapshots. The two process-wide identifier counters are
  threaded through the operations that draw from them. Directories are \<open>PathBuf\<close>s, kept as text.
\<close>

section \<open>The layout tree\<close>

definition MIN_SPLIT_RATIO :: u16 where "MIN_SPLIT_RATIO = 1000"
definition MAX_SPLIT_RATIO :: u16 where "MAX_SPLIT_RATIO = 9000"
definition DEFAULT_SPLIT_RATIO :: u16 where "DEFAULT_SPLIT_RATIO = 5000"

datatype pane_state =
    Stopped
  | Starting
  | Running
  | Exited "32 word option"
  | Failed rust_string
  | Backpressured

datatype layout_node =
    Pane u64
  | Split split_axis u16 layout_node layout_node

fun layout_contains :: "layout_node \<Rightarrow> u64 \<Rightarrow> bool" where
  "layout_contains (Pane candidate) pane \<longleftrightarrow> candidate = pane"
| "layout_contains (Split _ _ first second) pane \<longleftrightarrow>
     layout_contains first pane \<or> layout_contains second pane"

fun collect_panes :: "layout_node \<Rightarrow> u64 list \<Rightarrow> u64 list" where
  "collect_panes (Pane pane) panes = panes @ [pane]"
| "collect_panes (Split _ _ first second) panes = collect_panes second (collect_panes first panes)"

fun layout_split :: "layout_node \<Rightarrow> u64 \<Rightarrow> u64 \<Rightarrow> split_axis \<Rightarrow> bool \<times> layout_node" where
  "layout_split (Pane pane) focused new_pane axis =
     (if pane = focused
      then (True, Split axis DEFAULT_SPLIT_RATIO (Pane focused) (Pane new_pane))
      else (False, Pane pane))"
| "layout_split (Split ax ratio first second) focused new_pane axis =
     (case layout_split first focused new_pane axis of
        (True, first') \<Rightarrow> (True, Split ax ratio first' second)
      | (False, first') \<Rightarrow>
          (case layout_split second focused new_pane axis of
             (found, second') \<Rightarrow> (found, Split ax ratio first' second')))"

fun layout_remove :: "layout_node \<Rightarrow> u64 \<Rightarrow> layout_node option" where
  "layout_remove (Pane candidate) pane = (if candidate \<noteq> pane then Some (Pane candidate) else None)"
| "layout_remove (Split ax ratio first second) pane =
     (case (layout_remove first pane, layout_remove second pane) of
        (Some first', Some second') \<Rightarrow> Some (Split ax ratio first' second')
      | (Some remaining, None) \<Rightarrow> Some remaining
      | (None, Some remaining) \<Rightarrow> Some remaining
      | (None, None) \<Rightarrow> None)"

fun layout_is_pane :: "layout_node \<Rightarrow> u64 \<Rightarrow> bool" where
  "layout_is_pane (Pane candidate) pane \<longleftrightarrow> candidate = pane"
| "layout_is_pane (Split _ _ _ _) pane \<longleftrightarrow> False"

fun layout_set_parent_ratio :: "layout_node \<Rightarrow> u64 \<Rightarrow> u16 \<Rightarrow> bool \<times> layout_node" where
  "layout_set_parent_ratio (Pane p) pane ratio = (False, Pane p)"
| "layout_set_parent_ratio (Split ax r first second) pane ratio =
     (if layout_is_pane first pane \<or> layout_is_pane second pane then (True, Split ax ratio first second)
      else (case layout_set_parent_ratio first pane ratio of
              (True, first') \<Rightarrow> (True, Split ax r first' second)
            | (False, first') \<Rightarrow>
                (case layout_set_parent_ratio second pane ratio of
                   (found, second') \<Rightarrow> (found, Split ax r first' second'))))"

definition ratio_in_range :: "u16 \<Rightarrow> bool" where
  "ratio_in_range r \<longleftrightarrow> MIN_SPLIT_RATIO \<le> r \<and> r \<le> MAX_SPLIT_RATIO"

fun layout_validate :: "layout_node \<Rightarrow> bool" where
  "layout_validate (Pane _) \<longleftrightarrow> True"
| "layout_validate (Split _ ratio first second) \<longleftrightarrow>
     ratio_in_range ratio \<and> layout_validate first \<and> layout_validate second"

section \<open>The workspace\<close>

datatype terminal_error =
    InvalidName
  | InvalidWorkingDirectory
  | NoActiveTab
  | TabNotFound
  | PaneNotFound
  | InvalidSplitRatio
  | NoFocusedSplit
  | InvalidPaneTransition
  | DuplicateId
  | InvalidLayout
  | InvalidFocusedPane
  | InvalidActiveTab

record terminal_pane =
  tp_id :: u64
  tp_working_directory :: rust_string
  tp_state :: pane_state

record terminal_tab =
  tt_id :: u64
  tt_name :: rust_string
  tt_root :: layout_node
  tt_focused_pane :: u64

record terminal_workspace =
  tw_tabs :: "terminal_tab list"
  tw_panes :: "(u64, terminal_pane) btree"
  tw_active_tab :: "u64 option"

record terminal_pane_snapshot =
  tps_id :: u64
  tps_working_directory :: rust_string

record terminal_tab_snapshot =
  tts_id :: u64
  tts_name :: rust_string
  tts_root :: layout_node
  tts_focused_pane :: u64
  tts_panes :: "terminal_pane_snapshot list"

record terminal_workspace_snapshot =
  tws_tabs :: "terminal_tab_snapshot list"
  tws_active_tab :: "u64 option"

definition terminal_workspace_default :: terminal_workspace where
  "terminal_workspace_default = \<lparr>tw_tabs = [], tw_panes = bt_empty, tw_active_tab = None\<rparr>"

definition terminal_validated_name :: "rust_string \<Rightarrow> terminal_error + rust_string" where
  "terminal_validated_name name =
     (let trimmed = trim name in
      if trimmed = [] then Inl InvalidName
      else if str_len trimmed = str_len name then Inr name
      else Inr trimmed)"

definition terminal_validated_directory :: "rust_string \<Rightarrow> terminal_error + rust_string" where
  "terminal_validated_directory directory =
     (if directory = [] then Inl InvalidWorkingDirectory else Inr directory)"

definition tab_index :: "u64 \<Rightarrow> terminal_workspace \<Rightarrow> nat option" where
  "tab_index tab w = position (\<lambda>t. tt_id t = tab) (tw_tabs w)"

text \<open>\<open>active_tab_mut\<close> yields the index of the active tab.\<close>

definition active_tab_mut :: "terminal_workspace \<Rightarrow> terminal_error + nat" where
  "active_tab_mut w =
     and_then (ok_or (tw_active_tab w) NoActiveTab) (\<lambda>active. ok_or (tab_index active w) TabNotFound)"

definition active_tab :: "terminal_workspace \<Rightarrow> terminal_tab option" where
  "active_tab w =
     (case tw_active_tab w of None \<Rightarrow> None | Some active \<Rightarrow> find (\<lambda>t. tt_id t = active) (tw_tabs w))"

definition focused_pane :: "terminal_workspace \<Rightarrow> u64 option" where
  "focused_pane w = map_option tt_focused_pane (active_tab w)"

definition set_tab :: "nat \<Rightarrow> terminal_tab \<Rightarrow> terminal_workspace \<Rightarrow> terminal_workspace" where
  "set_tab i t w = w\<lparr>tw_tabs := (tw_tabs w)[i := t]\<rparr>"

definition stopped_terminal_pane :: "u64 \<Rightarrow> rust_string \<Rightarrow> terminal_pane" where
  "stopped_terminal_pane pane directory =
     \<lparr>tp_id = pane, tp_working_directory = directory, tp_state = Stopped\<rparr>"

type_synonym 'a terminal_step = "(terminal_error + 'a) \<times> (terminal_ids \<times> terminal_workspace)"

definition create_tab ::
  "rust_string \<Rightarrow> rust_string \<Rightarrow> terminal_ids \<times> terminal_workspace \<Rightarrow> u64 terminal_step"
where
  "create_tab name working_directory s =
     attempt (terminal_validated_name name) s (\<lambda>name.
     attempt (terminal_validated_directory working_directory) s (\<lambda>working_directory.
       (case s of (ids, w) \<Rightarrow>
       (case new_pane_id ids of (pane, ids) \<Rightarrow>
       (case new_tab_id ids of (tab, ids) \<Rightarrow>
         (Inr pane, (ids, w\<lparr>
            tw_panes := bt_insert pane (stopped_terminal_pane pane working_directory) (tw_panes w),
            tw_tabs := tw_tabs w @
              [\<lparr>tt_id = tab, tt_name = name, tt_root = Pane pane, tt_focused_pane = pane\<rparr>],
            tw_active_tab := Some tab\<rparr>)))))))"

definition split_focused :: "split_axis \<Rightarrow> terminal_ids \<times> terminal_workspace \<Rightarrow> u64 terminal_step" where
  "split_focused axis s =
     (case s of (ids, w) \<Rightarrow>
     attempt (active_tab_mut w) s (\<lambda>i.
       let t = tw_tabs w ! i; focused = tt_focused_pane t in
     attempt (ok_or (bt_get (tw_panes w) focused) PaneNotFound) s (\<lambda>p.
       (case new_pane_id ids of (new_pane, ids) \<Rightarrow>
       (case layout_split (tt_root t) focused new_pane axis of (found, root) \<Rightarrow>
         if \<not> found then (Inl PaneNotFound, (ids, set_tab i (t\<lparr>tt_root := root\<rparr>) w))
         else (Inr new_pane, (ids,
           (set_tab i (t\<lparr>tt_root := root, tt_focused_pane := new_pane\<rparr>) w)\<lparr>
             tw_panes := bt_insert new_pane (stopped_terminal_pane new_pane (tp_working_directory p))
               (tw_panes w)\<rparr>)))))))"

definition close_pane :: "u64 \<Rightarrow> terminal_workspace \<Rightarrow> (terminal_error + unit) \<times> terminal_workspace" where
  "close_pane pane w =
     attempt (ok_or (position (\<lambda>t. layout_contains (tt_root t) pane) (tw_tabs w)) PaneNotFound) w (\<lambda>i.
       let t = tw_tabs w ! i;
           w = w\<lparr>tw_panes := bt_remove pane (tw_panes w)\<rparr>
       in (case layout_remove (tt_root t) pane of
             Some root \<Rightarrow>
               let remaining = collect_panes root [] in
               (Inr (), set_tab i
                  (t\<lparr>tt_root := root,
                     tt_focused_pane := if tt_focused_pane t = pane then hd remaining else tt_focused_pane t\<rparr>) w)
           | None \<Rightarrow>
               let w = w\<lparr>tw_tabs := remove_at i (tw_tabs w)\<rparr> in
               (Inr (), if tw_active_tab w = Some (tt_id t)
                  then w\<lparr>tw_active_tab := map_option tt_id
                    (case nth_opt (tw_tabs w) i of None \<Rightarrow> last_opt (tw_tabs w) | Some t \<Rightarrow> Some t)\<rparr>
                  else w)))"

definition activate_tab :: "u64 \<Rightarrow> terminal_workspace \<Rightarrow> (terminal_error + unit) \<times> terminal_workspace" where
  "activate_tab tab w =
     (if tab_index tab w = None then (Inl TabNotFound, w)
      else (Inr (), w\<lparr>tw_active_tab := Some tab\<rparr>))"

definition focus_pane :: "u64 \<Rightarrow> terminal_workspace \<Rightarrow> (terminal_error + unit) \<times> terminal_workspace" where
  "focus_pane pane w =
     attempt (active_tab_mut w) w (\<lambda>i.
       if \<not> layout_contains (tt_root (tw_tabs w ! i)) pane then (Inl PaneNotFound, w)
       else (Inr (), set_tab i ((tw_tabs w ! i)\<lparr>tt_focused_pane := pane\<rparr>) w))"

definition rename_tab ::
  "u64 \<Rightarrow> rust_string \<Rightarrow> terminal_workspace \<Rightarrow> (terminal_error + unit) \<times> terminal_workspace"
where
  "rename_tab tab name w =
     attempt (terminal_validated_name name) w (\<lambda>name.
     attempt (ok_or (tab_index tab w) TabNotFound) w (\<lambda>i.
       (Inr (), set_tab i ((tw_tabs w ! i)\<lparr>tt_name := name\<rparr>) w)))"

definition rename_active_tab :: "rust_string \<Rightarrow> terminal_workspace \<Rightarrow> (terminal_error + unit) \<times> terminal_workspace"
where
  "rename_active_tab name w =
     attempt (ok_or (tw_active_tab w) NoActiveTab) w (\<lambda>active. rename_tab active name w)"

definition set_focused_split_ratio ::
  "u16 \<Rightarrow> terminal_workspace \<Rightarrow> (terminal_error + unit) \<times> terminal_workspace"
where
  "set_focused_split_ratio ratio w =
     (if \<not> ratio_in_range ratio then (Inl InvalidSplitRatio, w)
      else attempt (active_tab_mut w) w (\<lambda>i.
        let t = tw_tabs w ! i in
        (case layout_set_parent_ratio (tt_root t) (tt_focused_pane t) ratio of (found, root) \<Rightarrow>
           (if \<not> found then Inl NoFocusedSplit else Inr (), set_tab i (t\<lparr>tt_root := root\<rparr>) w))))"

definition set_pane_state ::
  "u64 \<Rightarrow> pane_state \<Rightarrow> terminal_workspace \<Rightarrow> (terminal_error + unit) \<times> terminal_workspace"
where
  "set_pane_state pane state w =
     attempt (ok_or (bt_get (tw_panes w) pane) PaneNotFound) w (\<lambda>p.
       (Inr (), w\<lparr>tw_panes := bt_insert pane (p\<lparr>tp_state := state\<rparr>) (tw_panes w)\<rparr>))"

definition restart_pane :: "u64 \<Rightarrow> terminal_workspace \<Rightarrow> (terminal_error + unit) \<times> terminal_workspace" where
  "restart_pane pane w =
     attempt (ok_or (bt_get (tw_panes w) pane) PaneNotFound) w (\<lambda>p.
       (case tp_state p of
          Starting \<Rightarrow> (Inl InvalidPaneTransition, w)
        | _ \<Rightarrow> (Inr (), w\<lparr>tw_panes := bt_insert pane (p\<lparr>tp_state := Starting\<rparr>) (tw_panes w)\<rparr>)))"

section \<open>Snapshots\<close>

definition snapshot_pane :: "terminal_pane \<Rightarrow> terminal_pane_snapshot" where
  "snapshot_pane p = \<lparr>tps_id = tp_id p, tps_working_directory = tp_working_directory p\<rparr>"

definition snapshot_tab :: "(u64, terminal_pane) btree \<Rightarrow> terminal_tab \<Rightarrow> terminal_tab_snapshot" where
  "snapshot_tab panes t =
     \<lparr>tts_id = tt_id t, tts_name = tt_name t, tts_root = tt_root t, tts_focused_pane = tt_focused_pane t,
      tts_panes = map snapshot_pane (List.map_filter (bt_get panes) (collect_panes (tt_root t) []))\<rparr>"

definition terminal_snapshot :: "terminal_workspace \<Rightarrow> terminal_workspace_snapshot" where
  "terminal_snapshot w =
     \<lparr>tws_tabs = map (snapshot_tab (tw_panes w)) (tw_tabs w), tws_active_tab = tw_active_tab w\<rparr>"

text \<open>The loops of \<open>validate_snapshot\<close> thread the sets of identifiers found so far.\<close>

fun validate_tab_panes :: "terminal_pane_snapshot list \<Rightarrow> u64 set \<Rightarrow> terminal_error + u64 set" where
  "validate_tab_panes [] pane_ids = Inr pane_ids"
| "validate_tab_panes (p # ps) pane_ids =
     and_then (terminal_validated_directory (tps_working_directory p)) (\<lambda>_.
     and_then (ensure (tps_id p \<notin> pane_ids) DuplicateId) (\<lambda>_.
       validate_tab_panes ps (insert (tps_id p) pane_ids)))"

fun validate_tabs :: "terminal_tab_snapshot list \<Rightarrow> u64 set \<Rightarrow> u64 set \<Rightarrow> terminal_error + unit" where
  "validate_tabs [] tab_ids pane_ids = Inr ()"
| "validate_tabs (t # ts) tab_ids pane_ids =
     and_then (terminal_validated_name (tts_name t)) (\<lambda>_.
     and_then (ensure (tts_id t \<notin> tab_ids) DuplicateId) (\<lambda>_.
     and_then (ensure (layout_validate (tts_root t)) InvalidSplitRatio) (\<lambda>_.
       let layout_panes = collect_panes (tts_root t) [];
           layout_set = set layout_panes;
           declared_set = tps_id ` set (tts_panes t)
       in
     and_then (ensure (card layout_set = length layout_panes) DuplicateId) (\<lambda>_.
     and_then (ensure (tts_focused_pane t \<in> layout_set) InvalidFocusedPane) (\<lambda>_.
     and_then (ensure (card declared_set = length (tts_panes t) \<and> declared_set = layout_set) InvalidLayout) (\<lambda>_.
     and_then (validate_tab_panes (tts_panes t) pane_ids) (\<lambda>pane_ids.
       validate_tabs ts (insert (tts_id t) tab_ids) pane_ids)))))))"

definition validate_snapshot :: "terminal_workspace_snapshot \<Rightarrow> terminal_error + unit" where
  "validate_snapshot s =
     (if tws_tabs s = [] then
        (if tws_active_tab s = None then Inr () else Inl InvalidActiveTab)
      else if \<not> (case tws_active_tab s of None \<Rightarrow> False
                  | Some active \<Rightarrow> list_ex (\<lambda>t. tts_id t = active) (tws_tabs s))
      then Inl InvalidActiveTab
      else validate_tabs (tws_tabs s) {} {})"

fun restore_panes ::
  "terminal_pane_snapshot list \<Rightarrow> terminal_ids \<times> (u64, terminal_pane) btree \<Rightarrow>
    terminal_ids \<times> (u64, terminal_pane) btree"
where
  "restore_panes [] s = s"
| "restore_panes (p # ps) s =
     (case s of (ids, panes) \<Rightarrow>
        restore_panes ps
          (ids\<lparr>ti_next_pane := reserve_after (tps_id p) (ti_next_pane ids)\<rparr>,
           bt_insert (tps_id p) (stopped_terminal_pane (tps_id p) (tps_working_directory p)) panes))"

fun restore_tabs ::
  "terminal_tab_snapshot list \<Rightarrow> terminal_ids \<times> terminal_workspace \<Rightarrow> terminal_ids \<times> terminal_workspace"
where
  "restore_tabs [] s = s"
| "restore_tabs (t # ts) s =
     (case s of (ids, w) \<Rightarrow>
        (case restore_panes (tts_panes t)
            (ids\<lparr>ti_next_tab := reserve_after (tts_id t) (ti_next_tab ids)\<rparr>, tw_panes w) of (ids, panes) \<Rightarrow>
          restore_tabs ts (ids, w\<lparr>tw_panes := panes,
            tw_tabs := tw_tabs w @ [\<lparr>tt_id = tts_id t, tt_name = tts_name t, tt_root = tts_root t,
              tt_focused_pane = tts_focused_pane t\<rparr>]\<rparr>)))"

definition terminal_restore ::
  "terminal_workspace_snapshot \<Rightarrow> terminal_ids \<Rightarrow> (terminal_error + terminal_workspace) \<times> terminal_ids"
where
  "terminal_restore s ids =
     attempt (validate_snapshot s) ids (\<lambda>_.
       (case restore_tabs (tws_tabs s)
          (ids, \<lparr>tw_tabs = [], tw_panes = bt_empty, tw_active_tab = tws_active_tab s\<rparr>) of
          (ids, w) \<Rightarrow> (Inr w, ids)))"

section \<open>The tree operations over the panes in order\<close>

fun layout_leaves :: "layout_node \<Rightarrow> u64 list" where
  "layout_leaves (Pane p) = [p]"
| "layout_leaves (Split _ _ first second) = layout_leaves first @ layout_leaves second"

lemma collect_leaves [simp]: "collect_panes n acc = acc @ layout_leaves n"
  by (induction n arbitrary: acc) auto

lemma layout_leaves_nonempty [simp]: "layout_leaves n \<noteq> []"
  by (induction n) auto

lemma layout_contains_leaves [simp]: "layout_contains n p \<longleftrightarrow> p \<in> set (layout_leaves n)"
  by (induction n) auto

lemma layout_split_absent: "p \<notin> set (layout_leaves n) \<Longrightarrow> layout_split n p q a = (False, n)"
  by (induction n) auto

lemma layout_split_present:
  assumes "p \<in> set (layout_leaves n)"
  shows "\<exists>n' xs ys. layout_split n p q a = (True, n') \<and> layout_leaves n = xs @ p # ys \<and> p \<notin> set xs \<and>
    layout_leaves n' = xs @ p # q # ys"
  using assms
proof (induction n)
  case (Pane x)
  then have "layout_leaves (Pane x) = [] @ p # []" by simp
  with Pane show ?case by fastforce
next
  case (Split ax r n1 n2)
  show ?case
  proof (cases "p \<in> set (layout_leaves n1)")
    case True
    from Split.IH(1) [OF True] obtain m xs ys where "layout_split n1 p q a = (True, m)"
      "layout_leaves n1 = xs @ p # ys" "p \<notin> set xs" "layout_leaves m = xs @ p # q # ys" by blast
    then have "layout_split (Split ax r n1 n2) p q a = (True, Split ax r m n2) \<and>
        layout_leaves (Split ax r n1 n2) = xs @ p # (ys @ layout_leaves n2) \<and> p \<notin> set xs \<and>
        layout_leaves (Split ax r m n2) = xs @ p # q # (ys @ layout_leaves n2)" by simp
    then show ?thesis by blast
  next
    case False
    with Split.prems have "p \<in> set (layout_leaves n2)" by simp
    from Split.IH(2) [OF this] obtain m xs ys where "layout_split n2 p q a = (True, m)"
      "layout_leaves n2 = xs @ p # ys" "p \<notin> set xs" "layout_leaves m = xs @ p # q # ys" by blast
    then have "layout_split (Split ax r n1 n2) p q a = (True, Split ax r n1 m) \<and>
        layout_leaves (Split ax r n1 n2) = (layout_leaves n1 @ xs) @ p # ys \<and> p \<notin> set (layout_leaves n1 @ xs) \<and>
        layout_leaves (Split ax r n1 m) = (layout_leaves n1 @ xs) @ p # q # ys"
      using False layout_split_absent [OF False, of q a] by simp
    then show ?thesis by blast
  qed
qed

lemma layout_remove_leaves:
  "(case layout_remove n p of None \<Rightarrow> [] | Some n' \<Rightarrow> layout_leaves n') = filter (\<lambda>x. x \<noteq> p) (layout_leaves n)"
  by (induction n) (auto split: option.splits)

lemma layout_ratio_leaves: "layout_leaves (snd (layout_set_parent_ratio n p r)) = layout_leaves n"
  by (induction n) (auto split: prod.splits bool.splits)

interpretation terminal_tree: pane_tree layout_leaves layout_contains layout_split layout_remove layout_set_parent_ratio
proof (unfold_locales, goal_cases)
  case (4 p t q a)
  then show ?case by (rule layout_split_present)
next
  case (5 t p)
  show ?case by (rule layout_remove_leaves)
qed (simp_all add: layout_split_absent layout_ratio_leaves)

lemma layout_split_valid: "layout_validate n \<Longrightarrow> layout_validate (snd (layout_split n p q a))"
  by (induction n)
    (auto simp: ratio_in_range_def DEFAULT_SPLIT_RATIO_def MIN_SPLIT_RATIO_def MAX_SPLIT_RATIO_def
      split: prod.splits bool.splits)

lemma layout_ratio_valid:
  "layout_validate n \<Longrightarrow> ratio_in_range r \<Longrightarrow> layout_validate (snd (layout_set_parent_ratio n p r))"
  by (induction n) (auto split: prod.splits bool.splits)

lemma layout_remove_valid: "layout_remove n p = Some n' \<Longrightarrow> layout_validate n \<Longrightarrow> layout_validate n'"
proof (induction n arbitrary: n')
  case (Pane x)
  then show ?case by (auto split: if_splits)
next
  case (Split ax r n1 n2)
  then have ok: "ratio_in_range r" "layout_validate n1" "layout_validate n2" by simp_all
  show ?case
  proof (cases "layout_remove n1 p")
    case None
    with Split.prems(1) have "layout_remove n2 p = Some n'" by (simp split: option.splits)
    from Split.IH(2) [OF this ok(3)] show ?thesis .
  next
    case (Some m1)
    note 1 = Split.IH(1) [OF Some ok(2)]
    show ?thesis
    proof (cases "layout_remove n2 p")
      case None
      with Split.prems(1) Some 1 show ?thesis by simp
    next
      case m2: (Some m2)
      from Split.prems(1) Some m2 1 Split.IH(2) [OF m2 ok(3)] ok(1) show ?thesis by auto
    qed
  qed
qed

end
