(* ===== verification/TerminalWorkspace.thy ===== *)
theory TerminalWorkspace imports TerminalLayout begin

text \<open>
  The terminal workspace of strukt-terminal: its invariant, kept by every operation, the abstract
  workspace its operations implement, and the validation of snapshots.
\<close>

section \<open>The invariant\<close>

definition tab_leaves :: "terminal_tab \<Rightarrow> u64 list" where
  "tab_leaves t = layout_leaves (tt_root t)"

definition all_leaves :: "terminal_tab list \<Rightarrow> u64 list" where
  "all_leaves ts = concat (map tab_leaves ts)"

definition tab_ok :: "terminal_tab \<Rightarrow> bool" where
  "tab_ok t \<longleftrightarrow> trim (tt_name t) \<noteq> [] \<and> layout_validate (tt_root t) \<and> tt_focused_pane t \<in> set (tab_leaves t)"

definition pane_ok :: "u64 \<Rightarrow> terminal_pane \<Rightarrow> bool" where
  "pane_ok i p \<longleftrightarrow> tp_id p = i \<and> tp_working_directory p \<noteq> []"

definition panes_ok :: "(u64, terminal_pane) btree \<Rightarrow> bool" where
  "panes_ok m \<longleftrightarrow> (\<forall>i p. bt_get m i = Some p \<longrightarrow> pane_ok i p)"

definition active_ok :: "u64 option \<Rightarrow> terminal_tab list \<Rightarrow> bool" where
  "active_ok a ts \<longleftrightarrow> (case a of None \<Rightarrow> ts = [] | Some i \<Rightarrow> i \<in> tt_id ` set ts)"

definition tw_ok :: "terminal_workspace \<Rightarrow> bool" where
  "tw_ok w \<longleftrightarrow>
     distinct (map tt_id (tw_tabs w)) \<and> distinct (all_leaves (tw_tabs w)) \<and>
     set (bt_keys (tw_panes w)) = set (all_leaves (tw_tabs w)) \<and> panes_ok (tw_panes w) \<and>
     list_all tab_ok (tw_tabs w) \<and> active_ok (tw_active_tab w) (tw_tabs w)"

definition ids_fresh :: "terminal_ids \<Rightarrow> terminal_workspace \<Rightarrow> bool" where
  "ids_fresh ids w \<longleftrightarrow>
     list_all (\<lambda>p. p < ti_next_pane ids) (all_leaves (tw_tabs w)) \<and>
     list_all (\<lambda>t. tt_id t < ti_next_tab ids) (tw_tabs w)"

lemma all_leaves_simps [simp]:
  "all_leaves [] = []" "all_leaves (t # ts) = tab_leaves t @ all_leaves ts"
  "all_leaves (xs @ ys) = all_leaves xs @ all_leaves ys"
  by (simp_all add: all_leaves_def)

lemma tab_leaves_nonempty [simp]: "tab_leaves t \<noteq> []"
  by (simp add: tab_leaves_def)

lemma in_all_leaves: "p \<in> set (all_leaves ts) \<longleftrightarrow> (\<exists>t \<in> set ts. p \<in> set (tab_leaves t))"
  by (auto simp: all_leaves_def)

lemma panes_ok_insert: "panes_ok m \<Longrightarrow> pane_ok i p \<Longrightarrow> panes_ok (bt_insert i p m)"
  by (simp add: panes_ok_def)

lemma panes_ok_remove: "panes_ok m \<Longrightarrow> panes_ok (bt_remove i m)"
  by (simp add: panes_ok_def)

lemma stopped_ok [simp]: "d \<noteq> [] \<Longrightarrow> pane_ok i (stopped_terminal_pane i d)"
  by (simp add: pane_ok_def stopped_terminal_pane_def)

lemma validated_name_Inr: "terminal_validated_name n = Inr n' \<Longrightarrow> trim n' \<noteq> []"
  by (auto simp: terminal_validated_name_def Let_def split: if_splits)

lemma validated_directory_Inr: "terminal_validated_directory d = Inr d' \<longleftrightarrow> d' = d \<and> d \<noteq> []"
  by (auto simp: terminal_validated_directory_def)

lemma validated_name_Inr_iff: "(\<exists>n'. terminal_validated_name n = Inr n') \<longleftrightarrow> trim n \<noteq> []"
  by (auto simp: terminal_validated_name_def Let_def)

text \<open>The active tab, split off from the others.\<close>

lemma tab_split:
  assumes "distinct (map tt_id ts)" "i \<in> tt_id ` set ts"
  obtains xs t ys where "ts = xs @ t # ys" "tt_id t = i" "i \<notin> tt_id ` set xs" "i \<notin> tt_id ` set ys"
    "position (\<lambda>t. tt_id t = i) ts = Some (length xs)"
proof -
  obtain t where t: "t \<in> set ts" "tt_id t = i" using assms(2) by auto
  obtain xs ys where ts: "ts = xs @ t # ys" using t(1) by (meson split_list)
  have no: "i \<notin> tt_id ` set xs" "i \<notin> tt_id ` set ys" using assms(1) t(2) by (auto simp: ts)
  have "\<forall>x \<in> set xs. tt_id x \<noteq> i" using no(1) by auto
  then have "position (\<lambda>t. tt_id t = i) ts = Some (length xs)"
    unfolding ts using t(2) by (simp add: position_append_here)
  with ts t(2) no show ?thesis by (intro that)
qed

lemma active_tab_cases:
  assumes "tw_ok w"
  obtains "tw_active_tab w = None" "tw_tabs w = []" "active_tab_mut w = Inl NoActiveTab"
  | xs t ys where "tw_tabs w = xs @ t # ys" "tw_active_tab w = Some (tt_id t)"
      "active_tab_mut w = Inr (length xs)" "tt_id t \<notin> tt_id ` set xs" "tt_id t \<notin> tt_id ` set ys"
proof (cases "tw_active_tab w")
  case None
  with assms show ?thesis by (intro that(1)) (simp_all add: tw_ok_def active_ok_def active_tab_mut_def)
next
  case (Some a)
  with assms have d: "distinct (map tt_id (tw_tabs w))" and a: "a \<in> tt_id ` set (tw_tabs w)"
    by (simp_all add: tw_ok_def active_ok_def)
  obtain xs t ys where "tw_tabs w = xs @ t # ys" "tt_id t = a" "a \<notin> tt_id ` set xs" "a \<notin> tt_id ` set ys"
    "position (\<lambda>t. tt_id t = a) (tw_tabs w) = Some (length xs)"
    by (rule tab_split [OF d a])
  with Some show ?thesis
    by (intro that(2) [of xs t ys]) (simp_all add: active_tab_mut_def tab_index_def)
qed

text \<open>Replacing one tab, with what that does to the panes.\<close>

lemma tw_ok_replace:
  assumes ok: "tw_ok w" and tabs: "tw_tabs w = xs @ t # ys" and t': "tt_id t' = tt_id t" "tab_ok t'"
    and dist: "distinct (tab_leaves t')"
    and apart: "set (tab_leaves t') \<inter> set (all_leaves xs @ all_leaves ys) = {}"
    and keys: "set (bt_keys m) = set (all_leaves (xs @ t' # ys))" and m: "panes_ok m"
  shows "tw_ok (w\<lparr>tw_tabs := xs @ t' # ys, tw_panes := m\<rparr>)"
proof -
  have "distinct (all_leaves (xs @ t' # ys))"
    using ok dist apart by (auto simp: tw_ok_def tabs)
  moreover have "active_ok (tw_active_tab w) (xs @ t' # ys)"
    using ok t'(1) by (simp add: tw_ok_def tabs active_ok_def split: option.splits)
  ultimately show ?thesis using ok t' keys m by (simp add: tw_ok_def tabs)
qed

lemma same_panes [simp]: "w\<lparr>tw_tabs := ts, tw_panes := tw_panes w\<rparr> = w\<lparr>tw_tabs := ts\<rparr>"
  by (cases w) simp

lemma tw_ok_same_leaves:
  assumes ok: "tw_ok w" and tabs: "tw_tabs w = xs @ t # ys" and t': "tt_id t' = tt_id t" "tab_ok t'"
    and leaves: "tab_leaves t' = tab_leaves t"
  shows "tw_ok (w\<lparr>tw_tabs := xs @ t' # ys\<rparr>)"
proof -
  have "tw_ok (w\<lparr>tw_tabs := xs @ t' # ys, tw_panes := tw_panes w\<rparr>)"
    using ok leaves by (intro tw_ok_replace [OF ok tabs t']) (auto simp: tw_ok_def tabs)
  then show ?thesis by simp
qed

lemma tw_ok_tab: "tw_ok w \<Longrightarrow> tw_tabs w = xs @ t # ys \<Longrightarrow> tab_ok t"
  by (simp add: tw_ok_def)

lemma set_tab_at: "tw_tabs w = xs @ t # ys \<Longrightarrow> set_tab (length xs) t' w = w\<lparr>tw_tabs := xs @ t' # ys\<rparr>"
  by (simp add: set_tab_def list_update_append)

section \<open>The abstract workspace\<close>

text \<open>
  What a user sees: tabs in order, each with its panes in order and the focused one, and the
  active tab.
\<close>

type_synonym abstract_tab = "u64 \<times> u64 list \<times> u64"
type_synonym abstract_workspace = "abstract_tab list \<times> u64 option"

definition abs_tab :: "terminal_tab \<Rightarrow> abstract_tab" where
  "abs_tab t = (tt_id t, tab_leaves t, tt_focused_pane t)"

definition abs_workspace :: "terminal_workspace \<Rightarrow> abstract_workspace" where
  "abs_workspace w = (map abs_tab (tw_tabs w), tw_active_tab w)"

datatype terminal_command =
    CreateTab rust_string rust_string
  | SplitFocused split_axis
  | ClosePane u64
  | ActivateTab u64
  | FocusPane u64
  | RenameTab u64 rust_string
  | RenameActiveTab rust_string
  | SetFocusedSplitRatio u16
  | SetPaneState u64 pane_state
  | RestartPane u64

definition on_workspace ::
  "(terminal_workspace \<Rightarrow> (terminal_error + unit) \<times> terminal_workspace) \<Rightarrow> terminal_ids \<times> terminal_workspace \<Rightarrow>
    unit terminal_step"
where
  "on_workspace f s = (case f (snd s) of (r, w) \<Rightarrow> (r, (fst s, w)))"

definition forget :: "'a terminal_step \<Rightarrow> unit terminal_step" where
  "forget m = (case m of (Inl e, s) \<Rightarrow> (Inl e, s) | (Inr _, s) \<Rightarrow> (Inr (), s))"

fun terminal_run :: "terminal_command \<Rightarrow> terminal_ids \<times> terminal_workspace \<Rightarrow> unit terminal_step" where
  "terminal_run (CreateTab name dir) s = forget (create_tab name dir s)"
| "terminal_run (SplitFocused axis) s = forget (split_focused axis s)"
| "terminal_run (ClosePane p) s = on_workspace (close_pane p) s"
| "terminal_run (ActivateTab t) s = on_workspace (activate_tab t) s"
| "terminal_run (FocusPane p) s = on_workspace (focus_pane p) s"
| "terminal_run (RenameTab t name) s = on_workspace (rename_tab t name) s"
| "terminal_run (RenameActiveTab name) s = on_workspace (rename_active_tab name) s"
| "terminal_run (SetFocusedSplitRatio r) s = on_workspace (set_focused_split_ratio r) s"
| "terminal_run (SetPaneState p st) s = on_workspace (set_pane_state p st) s"
| "terminal_run (RestartPane p) s = on_workspace (restart_pane p) s"

fun insert_after :: "'a \<Rightarrow> 'a \<Rightarrow> 'a list \<Rightarrow> 'a list" where
  "insert_after f q [] = []"
| "insert_after f q (x # xs) = (if x = f then x # q # xs else x # insert_after f q xs)"

text \<open>
  The abstract commands. Splitting puts the new pane right after the focused one and focuses it;
  closing takes the pane out of its tab, moves the focus to the tab's first pane when it had it,
  and closes a tab that would be empty, activating the tab that takes its place or else the last.
\<close>

definition abstract_close :: "u64 \<Rightarrow> abstract_workspace \<Rightarrow> abstract_workspace" where
  "abstract_close p a =
     (case a of (tabs, active) \<Rightarrow>
       (case position (\<lambda>(_, panes, _). p \<in> set panes) tabs of
          None \<Rightarrow> a
        | Some n \<Rightarrow>
            (case tabs ! n of (i, panes, focus) \<Rightarrow>
              let rest = filter (\<lambda>x. x \<noteq> p) panes; tabs' = remove_at n tabs in
              if rest = [] then
                (tabs', if active = Some i
                   then map_option fst (if n < length tabs' then Some (tabs' ! n) else last_opt tabs')
                   else active)
              else (tabs[n := (i, rest, if focus = p then hd rest else focus)], active))))"

fun abstract_run :: "terminal_command \<Rightarrow> terminal_ids \<Rightarrow> abstract_workspace \<Rightarrow> abstract_workspace" where
  "abstract_run (CreateTab name dir) ids (tabs, active) =
     (if trim name = [] \<or> dir = [] then (tabs, active)
      else (tabs @ [(ti_next_tab ids, [ti_next_pane ids], ti_next_pane ids)], Some (ti_next_tab ids)))"
| "abstract_run (SplitFocused axis) ids (tabs, active) =
     (map (\<lambda>(i, panes, focus).
        if Some i = active then (i, insert_after focus (ti_next_pane ids) panes, ti_next_pane ids)
        else (i, panes, focus)) tabs, active)"
| "abstract_run (ClosePane p) ids a = abstract_close p a"
| "abstract_run (ActivateTab t) ids (tabs, active) =
     (tabs, if t \<in> fst ` set tabs then Some t else active)"
| "abstract_run (FocusPane p) ids (tabs, active) =
     (map (\<lambda>(i, panes, focus). (i, panes, if Some i = active \<and> p \<in> set panes then p else focus)) tabs, active)"
| "abstract_run _ ids a = a"

section \<open>Every command keeps the invariant and implements the abstract one\<close>

definition implements ::
  "terminal_command \<Rightarrow> terminal_ids \<Rightarrow> terminal_workspace \<Rightarrow> terminal_workspace \<Rightarrow> bool"
where
  "implements c ids w w' \<longleftrightarrow> tw_ok w' \<and> abs_workspace w' = abstract_run c ids (abs_workspace w)"

lemma insert_after_split: "f \<notin> set xs \<Longrightarrow> insert_after f q (xs @ f # ys) = xs @ f # q # ys"
  by (induction xs) auto

text \<open>Identifiers are left when neither counter is about to wrap.\<close>

definition ids_left :: "terminal_ids \<Rightarrow> bool" where
  "ids_left ids \<longleftrightarrow> ti_next_pane ids \<noteq> - 1 \<and> ti_next_tab ids \<noteq> - 1"

lemma next_id_less: "v \<noteq> - 1 \<Longrightarrow> x < v \<or> x = v \<Longrightarrow> x < v + (1 :: u64)"
  using sat_inc_neq [of v] sat_inc_mono [of v] by (auto simp: sat_inc_def order_less_le)

lemma create_implements:
  assumes ok: "tw_ok w" and fresh: "ids_fresh ids w"
    and run: "create_tab name dir (ids, w) = (r, (ids', w'))"
  shows "implements (CreateTab name dir) ids w w'" "ids_left ids \<Longrightarrow> ids_fresh ids' w'"
proof -
  have "implements (CreateTab name dir) ids w w' \<and> (ids_left ids \<longrightarrow> ids_fresh ids' w')"
proof (cases "trim name = [] \<or> dir = []")
  case True
  then have "w' = w" "ids' = ids"
    using run by (auto simp: create_tab_def terminal_validated_name_def terminal_validated_directory_def
        Let_def attempt_def split: sum.splits if_splits)
  with True ok fresh show ?thesis by (simp add: implements_def abs_workspace_def)
next
  case False
  then obtain n where n: "terminal_validated_name name = Inr n" using validated_name_Inr_iff by blast
  have d: "terminal_validated_directory dir = Inr dir" using False by (simp add: terminal_validated_directory_def)
  let ?p = "ti_next_pane ids" and ?t = "ti_next_tab ids"
  let ?tab = "\<lparr>tt_id = ?t, tt_name = n, tt_root = Pane ?p, tt_focused_pane = ?p\<rparr>"
  have w': "w' = w\<lparr>tw_panes := bt_insert ?p (stopped_terminal_pane ?p dir) (tw_panes w),
      tw_tabs := tw_tabs w @ [?tab], tw_active_tab := Some ?t\<rparr>"
    "ids' = ids\<lparr>ti_next_pane := ?p + 1, ti_next_tab := ?t + 1\<rparr>"
    using run n d by (simp_all add: create_tab_def new_pane_id_def new_tab_id_def)
  have new: "?p \<notin> set (all_leaves (tw_tabs w))" "?t \<notin> tt_id ` set (tw_tabs w)"
    using fresh by (auto simp: ids_fresh_def list_all_iff)
  have "tab_ok ?tab" using validated_name_Inr [OF n] by (simp add: tab_ok_def tab_leaves_def)
  moreover have leaves: "tab_leaves ?tab = [?p]" by (simp add: tab_leaves_def)
  ultimately have "tw_ok w'"
    using ok new False by (simp add: w'(1) tw_ok_def panes_ok_insert active_ok_def)
  moreover have "abs_workspace w' = abstract_run (CreateTab name dir) ids (abs_workspace w)"
    using False by (simp add: w'(1) abs_workspace_def abs_tab_def leaves)
  moreover have "ids_fresh ids' w'" if "ids_left ids"
    using fresh that next_id_less [of ?p] next_id_less [of ?t]
    by (simp add: ids_fresh_def w' list_all_iff leaves ids_left_def)
  ultimately show ?thesis by (simp add: implements_def)
qed
  then show "implements (CreateTab name dir) ids w w'" "ids_left ids \<Longrightarrow> ids_fresh ids' w'" by simp_all
qed

lemma split_implements:
  assumes ok: "tw_ok w" and fresh: "ids_fresh ids w"
    and run: "split_focused axis (ids, w) = (r, (ids', w'))"
  shows "implements (SplitFocused axis) ids w w'" "ids_left ids \<Longrightarrow> ids_fresh ids' w'"
proof -
  have "implements (SplitFocused axis) ids w w' \<and> (ids_left ids \<longrightarrow> ids_fresh ids' w')"
  using ok
proof (cases rule: active_tab_cases)
  case 1
  then have "w' = w" "ids' = ids" using run by (simp_all add: split_focused_def)
  with 1 ok fresh show ?thesis by (simp add: implements_def abs_workspace_def)
next
  case (2 xs t ys)
  let ?q = "ti_next_pane ids" and ?f = "tt_focused_pane t"
  have tab: "tab_ok t" by (rule tw_ok_tab [OF ok 2(1)])
  then have f: "?f \<in> set (layout_leaves (tt_root t))" by (simp add: tab_ok_def tab_leaves_def)
  then have "?f \<in> set (bt_keys (tw_panes w))" using ok by (simp add: tw_ok_def 2(1) tab_leaves_def)
  then obtain p where p: "bt_get (tw_panes w) ?f = Some p" by (auto simp: set_bt_keys)
  have dir: "tp_working_directory p \<noteq> []" using ok p by (simp add: tw_ok_def panes_ok_def pane_ok_def)
  obtain root as bs where split: "layout_split (tt_root t) ?f ?q axis = (True, root)"
    "layout_leaves (tt_root t) = as @ ?f # bs" "?f \<notin> set as" "layout_leaves root = as @ ?f # ?q # bs"
    using layout_split_present [OF f, of ?q axis] by blast
  let ?t = "t\<lparr>tt_root := root, tt_focused_pane := ?q\<rparr>"
  let ?m = "bt_insert ?q (stopped_terminal_pane ?q (tp_working_directory p)) (tw_panes w)"
  have w': "w' = w\<lparr>tw_tabs := xs @ ?t # ys, tw_panes := ?m\<rparr>" "ids' = ids\<lparr>ti_next_pane := ?q + 1\<rparr>"
    using run 2 p split(1) by (simp_all add: split_focused_def new_pane_id_def set_tab_at Let_def)
  have leaves: "tab_leaves ?t = as @ ?f # ?q # bs" "tab_leaves t = as @ ?f # bs"
    using split by (simp_all add: tab_leaves_def)
  have new: "?q \<notin> set (all_leaves (tw_tabs w))"
    using fresh by (auto simp: ids_fresh_def list_all_iff)
  have "layout_validate root"
    using layout_split_valid [of "tt_root t" ?f ?q axis] split(1) tab by (simp add: tab_ok_def)
  then have tab': "tab_ok ?t" using tab leaves by (simp add: tab_ok_def)
  have "tw_ok w'" unfolding w'(1)
  proof (rule tw_ok_replace [OF ok 2(1) _ tab'])
    show "panes_ok ?m" using ok dir by (simp add: tw_ok_def panes_ok_insert)
    show "set (bt_keys ?m) = set (all_leaves (xs @ ?t # ys))"
      using ok leaves by (auto simp: tw_ok_def 2(1))
  qed (use ok new leaves in \<open>auto simp: tw_ok_def 2(1)\<close>)
  moreover have others: "\<forall>x \<in> set xs. tt_id x \<noteq> tt_id t" "\<forall>x \<in> set ys. tt_id x \<noteq> tt_id t"
    using 2(4,5) by (auto simp: image_iff)
  moreover have "abs_workspace w' = abstract_run (SplitFocused axis) ids (abs_workspace w)"
    using others split(3)
    by (simp add: w'(1) abs_workspace_def 2(1,2) abs_tab_def leaves insert_after_split)
  moreover have "ids_fresh ids' w'" if "ids_left ids"
    using fresh that next_id_less [of ?q]
    by (simp add: ids_fresh_def w' 2(1) list_all_iff leaves ids_left_def)
  ultimately show ?thesis by (simp add: implements_def)
qed
  then show "implements (SplitFocused axis) ids w w'" "ids_left ids \<Longrightarrow> ids_fresh ids' w'" by simp_all
qed

lemma tabs_with_pane:
  assumes "position (\<lambda>t. layout_contains (tt_root t) p) ts = Some n"
  obtains xs t ys where "ts = xs @ t # ys" "n = length xs" "p \<in> set (tab_leaves t)" "p \<notin> set (all_leaves xs)"
  using assms by (elim position_Some_split) (auto simp: tab_leaves_def in_all_leaves)

lemma position_abs:
  "position (\<lambda>(_, panes, _). p \<in> set panes) (map abs_tab ts) = position (\<lambda>t. layout_contains (tt_root t) p) ts"
  by (induction ts) (auto simp: abs_tab_def tab_leaves_def)

lemma nth_abs: "map abs_tab (xs @ t # ys) ! length xs = (tt_id t, tab_leaves t, tt_focused_pane t)"
  by (simp add: nth_append abs_tab_def)

lemma close_implements:
  assumes ok: "tw_ok w" and run: "close_pane p w = (r, w')"
  shows "implements (ClosePane p) ids w w'"
proof (cases "position (\<lambda>t. layout_contains (tt_root t) p) (tw_tabs w)")
  case None
  then have "w' = w" using run by (simp add: close_pane_def)
  with None ok show ?thesis
    by (simp add: implements_def abs_workspace_def abstract_close_def position_abs)
next
  case pos: (Some n)
  obtain xs t ys where tabs: "tw_tabs w = xs @ t # ys" "n = length xs" "p \<in> set (tab_leaves t)" "p \<notin> set (all_leaves xs)"
    by (rule tabs_with_pane [OF pos])
  have d: "distinct (tab_leaves t)" "set (tab_leaves t) \<inter> set (all_leaves xs @ all_leaves ys) = {}"
    using ok by (auto simp: tw_ok_def tabs(1))
  have tab: "tab_ok t" by (rule tw_ok_tab [OF ok tabs(1)])
  let ?rest = "filter (\<lambda>x. x \<noteq> p) (tab_leaves t)" and ?m = "bt_remove p (tw_panes w)"
  have keys: "set (bt_keys ?m) = set (all_leaves xs) \<union> set ?rest \<union> set (all_leaves ys)"
    using ok d(2) tabs(3) by (auto simp: tw_ok_def tabs(1))
  have m: "panes_ok ?m" using ok by (simp add: tw_ok_def panes_ok_remove)
  have at: "position (\<lambda>(_, panes, _). p \<in> set panes) (map abs_tab (tw_tabs w)) = Some (length xs)"
    using pos tabs(2) by (simp add: position_abs)
  show ?thesis
  proof (cases "layout_remove (tt_root t) p")
    case (Some root)
    have leaves: "layout_leaves root = ?rest" using terminal_tree.remove_Some [OF Some] by (simp add: tab_leaves_def)
    let ?t = "t\<lparr>tt_root := root, tt_focused_pane := if tt_focused_pane t = p then hd ?rest else tt_focused_pane t\<rparr>"
    have w': "w' = w\<lparr>tw_tabs := xs @ ?t # ys, tw_panes := ?m\<rparr>"
      using run pos Some tabs leaves by (auto simp: close_pane_def Let_def set_tab_def list_update_append cong: if_cong)
    have tl: "tab_leaves ?t = ?rest" by (simp add: tab_leaves_def leaves)
    have any: "tab_leaves (t\<lparr>tt_root := root, tt_focused_pane := x\<rparr>) = ?rest" "tab_leaves (t\<lparr>tt_root := root\<rparr>) = ?rest" for x
      by (simp_all add: tab_leaves_def leaves)
    have "?rest \<noteq> []" using layout_leaves_nonempty [of root] leaves by simp
    then have "tab_ok ?t"
      using tab layout_remove_valid [OF Some] hd_in_set [of ?rest] unfolding tab_ok_def tl by (auto simp: tab_ok_def)
    then have "tw_ok w'" unfolding w'
      using d keys m by (intro tw_ok_replace [OF ok tabs(1)]) (auto simp: tl)
    moreover have "abs_workspace w' = abstract_close p (abs_workspace w)"
      using \<open>?rest \<noteq> []\<close> at
      by (simp add: w' abs_workspace_def abstract_close_def tabs(1) nth_abs Let_def list_update_append abs_tab_def tl
          del: map_append list.map)
        (simp add: abs_tab_def any list_update_append)
    ultimately show ?thesis by (simp add: implements_def)
  next
    case None
    then have "set (layout_leaves (tt_root t)) \<subseteq> {p}" using terminal_tree.remove_None [of "tt_root t" p] by simp
    then have rest: "?rest = []" by (auto simp: filter_empty_conv tab_leaves_def)
    let ?ts = "xs @ ys"
    let ?a = "if tw_active_tab w = Some (tt_id t)
        then map_option tt_id (case nth_opt ?ts (length xs) of None \<Rightarrow> last_opt ?ts | Some t \<Rightarrow> Some t)
        else tw_active_tab w"
    have w': "w' = w\<lparr>tw_tabs := ?ts, tw_panes := ?m, tw_active_tab := ?a\<rparr>"
      using run pos None tabs by (auto simp: close_pane_def Let_def cong: if_cong option.case_cong)
    have act: "active_ok ?a ?ts"
    proof (cases "tw_active_tab w = Some (tt_id t)")
      case True
      then show ?thesis
        by (auto simp: active_ok_def nth_opt_Some last_opt_def nth_append split: option.splits if_splits
            dest: nth_opt_in_set last_opt_in_set)
    next
      case False
      then show ?thesis using ok by (auto simp: tw_ok_def tabs(1) active_ok_def split: option.splits)
    qed
    have "tw_ok w'" using ok keys rest act m by (auto simp: w' tw_ok_def tabs(1))
    moreover have "abs_workspace w' = abstract_close p (abs_workspace w)"
      using at rest tabs(1)
      by (simp add: w' abs_workspace_def abstract_close_def nth_abs Let_def abs_tab_def remove_at_def
          last_opt_def nth_append last_map nth_opt_def del: list.map(2)) simp
    ultimately show ?thesis by (simp add: implements_def)
  qed
qed

text \<open>The commands that move the focus or the active tab, and those the abstract workspace does not see.\<close>

lemma activate_implements:
  assumes ok: "tw_ok w" and run: "activate_tab t w = (r, w')"
  shows "implements (ActivateTab t) ids w w'"
proof -
  have "tab_index t w = None \<longleftrightarrow> t \<notin> tt_id ` set (tw_tabs w)" by (auto simp: tab_index_def position_None)
  moreover have "fst ` set (map abs_tab (tw_tabs w)) = tt_id ` set (tw_tabs w)"
    by (simp add: image_image abs_tab_def)
  ultimately show ?thesis
    using run ok by (auto simp: implements_def activate_tab_def abs_workspace_def tw_ok_def active_ok_def split: if_splits)
qed

lemma focus_implements:
  assumes ok: "tw_ok w" and run: "focus_pane p w = (r, w')"
  shows "implements (FocusPane p) ids w w'"
  using ok
proof (cases rule: active_tab_cases)
  case 1
  then have "w' = w" using run by (simp add: focus_pane_def)
  with 1 ok show ?thesis by (simp add: implements_def abs_workspace_def)
next
  case (2 xs t ys)
  have others: "\<forall>x \<in> set xs. tt_id x \<noteq> tt_id t" "\<forall>x \<in> set ys. tt_id x \<noteq> tt_id t"
    using 2(4,5) by (auto simp: image_iff)
  show ?thesis
  proof (cases "p \<in> set (tab_leaves t)")
    case True
    let ?t = "t\<lparr>tt_focused_pane := p\<rparr>"
    have w': "w' = w\<lparr>tw_tabs := xs @ ?t # ys\<rparr>"
      using run 2 True by (simp add: focus_pane_def set_tab_at tab_leaves_def)
    have same: "tab_leaves ?t = tab_leaves t" by (simp add: tab_leaves_def)
    have "tab_ok ?t" using tw_ok_tab [OF ok 2(1)] True by (simp add: tab_ok_def same)
    then have "tw_ok w'" unfolding w' by (intro tw_ok_same_leaves [OF ok 2(1)]) (simp_all add: same)
    with others True show ?thesis
      by (simp add: implements_def w' abs_workspace_def 2(1,2) abs_tab_def same)
  next
    case False
    then have "w' = w" using run 2 by (simp add: focus_pane_def tab_leaves_def)
    with ok False others show ?thesis by (simp add: implements_def abs_workspace_def 2(1,2) abs_tab_def)
  qed
qed

lemma rename_ok:
  assumes ok: "tw_ok w" and run: "rename_tab i n w = (r, w')"
  shows "tw_ok w' \<and> abs_workspace w' = abs_workspace w"
proof (cases "\<exists>m k. terminal_validated_name n = Inr m \<and> tab_index i w = Some k")
  case False
  then have "w' = w" using run
    by (cases "terminal_validated_name n"; cases "tab_index i w") (auto simp: rename_tab_def)
  with ok show ?thesis by simp
next
  case True
  then obtain m k where m: "terminal_validated_name n = Inr m" and k: "tab_index i w = Some k" by blast
  then obtain xs t ys where tabs: "tw_tabs w = xs @ t # ys" "k = length xs"
    unfolding tab_index_def by (elim position_Some_split)
  let ?t = "t\<lparr>tt_name := m\<rparr>"
  have w': "w' = w\<lparr>tw_tabs := xs @ ?t # ys\<rparr>"
    using run m k tabs by (simp add: rename_tab_def set_tab_def list_update_append)
  have same: "tab_leaves ?t = tab_leaves t" by (simp add: tab_leaves_def)
  have "tab_ok ?t" using tw_ok_tab [OF ok tabs(1)] validated_name_Inr [OF m] by (simp add: tab_ok_def same)
  then have "tw_ok w'" unfolding w' by (intro tw_ok_same_leaves [OF ok tabs(1)]) (simp_all add: same)
  then show ?thesis by (simp add: w' abs_workspace_def tabs(1) abs_tab_def same)
qed

lemma set_ratio_ok:
  assumes ok: "tw_ok w" and run: "set_focused_split_ratio q w = (r, w')"
  shows "tw_ok w' \<and> abs_workspace w' = abs_workspace w"
  using ok
proof (cases rule: active_tab_cases)
  case 1
  then have "w' = w" using run by (simp add: set_focused_split_ratio_def split: if_splits)
  with ok show ?thesis by simp
next
  case (2 xs t ys)
  let ?root = "snd (layout_set_parent_ratio (tt_root t) (tt_focused_pane t) q)"
  let ?t = "t\<lparr>tt_root := ?root\<rparr>"
  show ?thesis
  proof (cases "ratio_in_range q")
    case True
    then have w': "w' = w\<lparr>tw_tabs := xs @ ?t # ys\<rparr>"
      using run 2 by (auto simp: set_focused_split_ratio_def set_tab_at Let_def split: prod.splits)
    have same: "tab_leaves ?t = tab_leaves t" by (simp add: tab_leaves_def layout_ratio_leaves)
    have "tab_ok ?t" using tw_ok_tab [OF ok 2(1)] layout_ratio_valid [OF _ True] by (simp add: tab_ok_def same)
    then have "tw_ok w'" unfolding w' by (intro tw_ok_same_leaves [OF ok 2(1)]) (simp_all add: same)
    then show ?thesis by (simp add: w' abs_workspace_def 2(1) abs_tab_def same)
  next
    case False
    then have "w' = w" using run by (simp add: set_focused_split_ratio_def)
    with ok show ?thesis by simp
  qed
qed

lemma pane_update_ok:
  assumes ok: "tw_ok w" and p: "bt_get (tw_panes w) i = Some p" "pane_ok i p'"
  shows "tw_ok (w\<lparr>tw_panes := bt_insert i p' (tw_panes w)\<rparr>)"
  using ok p bt_get_in_keys [OF p(1)] by (auto simp: tw_ok_def panes_ok_insert)

lemma pane_state_ok:
  assumes ok: "tw_ok w"
  shows "tw_ok (snd (set_pane_state i st w)) \<and> abs_workspace (snd (set_pane_state i st w)) = abs_workspace w"
    "tw_ok (snd (restart_pane i w)) \<and> abs_workspace (snd (restart_pane i w)) = abs_workspace w"
proof -
  have "pane_ok i (p\<lparr>tp_state := st\<rparr>)" if "bt_get (tw_panes w) i = Some p" for p st
    using ok that by (simp add: tw_ok_def panes_ok_def pane_ok_def)
  note keep = pane_update_ok [OF ok _ this]
  show "tw_ok (snd (set_pane_state i st w)) \<and> abs_workspace (snd (set_pane_state i st w)) = abs_workspace w"
    using ok keep by (cases "bt_get (tw_panes w) i") (simp_all add: set_pane_state_def abs_workspace_def)
  show "tw_ok (snd (restart_pane i w)) \<and> abs_workspace (snd (restart_pane i w)) = abs_workspace w"
    using ok keep
    by (cases "bt_get (tw_panes w) i")
      (simp_all add: restart_pane_def abs_workspace_def split: pane_state.split)
qed

lemma terminal_run_implements:
  assumes ok: "tw_ok w" and fresh: "ids_fresh ids w" and run: "terminal_run c (ids, w) = (r, (ids', w'))"
  shows "implements c ids w w'"
proof (cases c)
  case (CreateTab n d)
  then show ?thesis using run create_implements(1) [OF ok fresh]
    by (auto simp: forget_def split: prod.splits sum.splits)
next
  case (SplitFocused a)
  then show ?thesis using run split_implements(1) [OF ok fresh]
    by (auto simp: forget_def split: prod.splits sum.splits)
next
  case (ClosePane p)
  then show ?thesis using run close_implements [OF ok] by (auto simp: on_workspace_def split: prod.splits)
next
  case (ActivateTab t)
  then show ?thesis using run activate_implements [OF ok] by (auto simp: on_workspace_def split: prod.splits)
next
  case (FocusPane p)
  then show ?thesis using run focus_implements [OF ok] by (auto simp: on_workspace_def split: prod.splits)
next
  case (RenameTab t n)
  then show ?thesis using run rename_ok [OF ok, of t n]
    by (auto simp: on_workspace_def implements_def split: prod.splits)
next
  case (RenameActiveTab n)
  then show ?thesis using run rename_ok [OF ok, of _ n] ok
    by (auto simp: on_workspace_def implements_def rename_active_tab_def ok_or_def attempt_def
        split: prod.splits option.splits)
next
  case (SetFocusedSplitRatio q)
  then show ?thesis using run set_ratio_ok [OF ok, of q]
    by (auto simp: on_workspace_def implements_def split: prod.splits)
next
  case (SetPaneState p st)
  then show ?thesis using run pane_state_ok(1) [OF ok, of p st]
    by (auto simp: on_workspace_def implements_def split: prod.splits)
next
  case (RestartPane p)
  then show ?thesis using run pane_state_ok(2) [OF ok, of p]
    by (auto simp: on_workspace_def implements_def split: prod.splits)
qed

text \<open>No command makes an identifier that is not new.\<close>

lemma abstract_close_shrinks:
  "a = (ts, act) \<Longrightarrow> abstract_close p a = (ts', act') \<Longrightarrow>
    (\<forall>x \<in> set ts'. \<exists>y \<in> set ts. fst x = fst y \<and> set (fst (snd x)) \<subseteq> set (fst (snd y)))"
proof -
  assume a: "a = (ts, act)" and run: "abstract_close p a = (ts', act')"
  show ?thesis
  proof (cases "position (\<lambda>(_, panes, _). p \<in> set panes) ts")
    case None
    with a run show ?thesis by (auto simp: abstract_close_def)
  next
    case (Some n)
    then obtain xs t ys where ts: "ts = xs @ t # ys" "n = length xs" by (elim position_Some_split)
    obtain i panes focus where t: "t = (i, panes, focus)" by (metis prod_cases3)
    have "ts' = (let rest = filter (\<lambda>x. x \<noteq> p) panes in
        if rest = [] then xs @ ys else xs @ (i, rest, if focus = p then hd rest else focus) # ys)"
      using run Some a by (auto simp: abstract_close_def ts t Let_def list_update_append split: if_splits)
    then show ?thesis unfolding ts t by (auto simp: Let_def)
  qed
qed

lemma run_other_ids:
  assumes c: "\<And>n d. c \<noteq> CreateTab n d" "\<And>a. c \<noteq> SplitFocused a"
    and abs: "abs_workspace w' = abstract_run c ids (abs_workspace w)" and fresh: "ids_fresh ids w"
  shows "ids_fresh ids w'"
proof -
  have "\<forall>x \<in> set (map abs_tab (tw_tabs w')). \<exists>y \<in> set (map abs_tab (tw_tabs w)).
      fst x = fst y \<and> set (fst (snd x)) \<subseteq> set (fst (snd y))"
  proof (cases c)
    case (ClosePane p)
    with abs have "abstract_close p (map abs_tab (tw_tabs w), tw_active_tab w) = (map abs_tab (tw_tabs w'), tw_active_tab w')"
      by (simp add: abs_workspace_def)
    from abstract_close_shrinks [OF refl this] show ?thesis .
  next
    case (FocusPane p)
    with abs have "map abs_tab (tw_tabs w') = map (\<lambda>(i, panes, focus).
        (i, panes, if Some i = tw_active_tab w \<and> p \<in> set panes then p else focus)) (map abs_tab (tw_tabs w))"
      by (simp add: abs_workspace_def)
    then show ?thesis unfolding \<open>map abs_tab (tw_tabs w') = _\<close> by (auto simp: abs_tab_def)
  qed (use abs c in \<open>auto simp: abs_workspace_def\<close>)
  then have "\<forall>t \<in> set (tw_tabs w'). \<exists>u \<in> set (tw_tabs w). tt_id t = tt_id u \<and> set (tab_leaves t) \<subseteq> set (tab_leaves u)"
    by (auto simp: abs_tab_def)
  then have sub: "\<And>t. t \<in> set (tw_tabs w') \<Longrightarrow>
      \<exists>u \<in> set (tw_tabs w). tt_id t = tt_id u \<and> set (tab_leaves t) \<subseteq> set (tab_leaves u)" by blast
  have old: "\<And>p. p \<in> set (all_leaves (tw_tabs w)) \<Longrightarrow> p < ti_next_pane ids"
    "\<And>t. t \<in> set (tw_tabs w) \<Longrightarrow> tt_id t < ti_next_tab ids"
    using fresh by (simp_all add: ids_fresh_def list_all_iff)
  have "p < ti_next_pane ids" if p: "p \<in> set (all_leaves (tw_tabs w'))" for p
  proof -
    obtain t where t: "t \<in> set (tw_tabs w')" "p \<in> set (tab_leaves t)" using p by (auto simp: in_all_leaves)
    from sub [OF t(1)] t(2) have "p \<in> set (all_leaves (tw_tabs w))" by (auto simp: in_all_leaves)
    then show ?thesis by (rule old)
  qed
  moreover have "tt_id t < ti_next_tab ids" if "t \<in> set (tw_tabs w')" for t
    using sub [OF that] old(2) by auto
  ultimately show ?thesis by (simp add: ids_fresh_def list_all_iff)
qed

lemma terminal_run_fresh:
  assumes ok: "tw_ok w" and fresh: "ids_fresh ids w" and left: "ids_left ids"
    and run: "terminal_run c (ids, w) = (r, (ids', w'))"
  shows "ids_fresh ids' w'"
proof (cases "(\<exists>n d. c = CreateTab n d) \<or> (\<exists>a. c = SplitFocused a)")
  case True
  then show ?thesis using run create_implements(2) [OF ok fresh _ left] split_implements(2) [OF ok fresh _ left]
    by (auto simp: forget_def split: prod.splits sum.splits)
next
  case False
  then have "ids' = ids" using run by (cases c) (auto simp: on_workspace_def split: prod.splits)
  moreover have "abs_workspace w' = abstract_run c ids (abs_workspace w)"
    using terminal_run_implements [OF ok fresh run] by (simp add: implements_def)
  from run_other_ids [OF _ _ this fresh] False have "ids_fresh ids w'" by blast
  ultimately show ?thesis by simp
qed

end
