(* ===== verification/TerminalSnapshot.thy ===== *)
theory TerminalSnapshot imports TerminalWorkspace "HOL-Library.Multiset" begin

text \<open>
  Snapshots of the terminal workspace: what their validation decides, that a workspace is restored
  from its own snapshot, and the properties of reachable workspaces.
\<close>

section \<open>What the validation decides\<close>

definition snapshot_tab_ok :: "terminal_tab_snapshot \<Rightarrow> bool" where
  "snapshot_tab_ok t \<longleftrightarrow>
     trim (tts_name t) \<noteq> [] \<and> layout_validate (tts_root t) \<and>
     distinct (layout_leaves (tts_root t)) \<and> tts_focused_pane t \<in> set (layout_leaves (tts_root t)) \<and>
     distinct (map tps_id (tts_panes t)) \<and> tps_id ` set (tts_panes t) = set (layout_leaves (tts_root t)) \<and>
     list_all (\<lambda>p. tps_working_directory p \<noteq> []) (tts_panes t)"

definition snapshot_panes :: "terminal_tab_snapshot list \<Rightarrow> terminal_pane_snapshot list" where
  "snapshot_panes ts = concat (map tts_panes ts)"

lemma snapshot_panes_simps [simp]:
  "snapshot_panes [] = []" "snapshot_panes (t # ts) = tts_panes t @ snapshot_panes ts"
  by (simp_all add: snapshot_panes_def)

definition snapshot_ok :: "terminal_workspace_snapshot \<Rightarrow> bool" where
  "snapshot_ok s \<longleftrightarrow>
     list_all snapshot_tab_ok (tws_tabs s) \<and> distinct (map tts_id (tws_tabs s)) \<and>
     distinct (map tps_id (snapshot_panes (tws_tabs s))) \<and>
     (case tws_active_tab s of None \<Rightarrow> tws_tabs s = [] | Some a \<Rightarrow> a \<in> tts_id ` set (tws_tabs s))"

lemma validate_tab_panes_iff:
  "validate_tab_panes ps ids = Inr ids' \<longleftrightarrow>
     list_all (\<lambda>p. tps_working_directory p \<noteq> []) ps \<and> distinct (map tps_id ps) \<and>
     tps_id ` set ps \<inter> ids = {} \<and> ids' = ids \<union> tps_id ` set ps"
proof (induction ps arbitrary: ids)
  case (Cons p ps)
  then show ?case by (auto simp: outcome validated_directory_Inr)
qed auto

lemma card_distinct_iff: "card (set xs) = length xs \<longleftrightarrow> distinct xs"
  by (metis card_distinct distinct_card)

lemma card_image_iff: "card (f ` set xs) = length xs \<longleftrightarrow> distinct (map f xs)"
  using card_distinct_iff [of "map f xs"] by simp

text \<open>How one check in the chain succeeds.\<close>

lemma then_ensure: "and_then (ensure b e) k = Inr a \<longleftrightarrow> b \<and> k () = Inr a"
  by (cases b) simp_all

lemma then_name: "and_then (terminal_validated_name n) (\<lambda>_. r) = Inr a \<longleftrightarrow> trim n \<noteq> [] \<and> r = Inr a"
  by (simp add: terminal_validated_name_def Let_def)

lemma then_panes:
  "and_then (validate_tab_panes ps ids) k = Inr a \<longleftrightarrow>
     list_all (\<lambda>p. tps_working_directory p \<noteq> []) ps \<and> distinct (map tps_id ps) \<and>
     tps_id ` set ps \<inter> ids = {} \<and> k (ids \<union> tps_id ` set ps) = Inr a"
  unfolding and_then_ok validate_tab_panes_iff by blast

lemma validate_tabs_iff:
  "validate_tabs ts tabs panes = Inr () \<longleftrightarrow>
     list_all snapshot_tab_ok ts \<and> distinct (map tts_id ts) \<and> tts_id ` set ts \<inter> tabs = {} \<and>
     distinct (map tps_id (snapshot_panes ts)) \<and> tps_id ` set (snapshot_panes ts) \<inter> panes = {}"
proof (induction ts arbitrary: tabs panes)
  case (Cons t ts)
  have "validate_tabs (t # ts) tabs panes = Inr () \<longleftrightarrow>
      snapshot_tab_ok t \<and> tts_id t \<notin> tabs \<and> tps_id ` set (tts_panes t) \<inter> panes = {} \<and>
      validate_tabs ts (insert (tts_id t) tabs) (panes \<union> tps_id ` set (tts_panes t)) = Inr ()"
    by (simp only: validate_tabs.simps Let_def then_ensure then_name then_panes collect_leaves append_Nil
        card_distinct_iff card_image_iff snapshot_tab_ok_def conj_assoc) blast
  also have "\<dots> \<longleftrightarrow> list_all snapshot_tab_ok (t # ts) \<and> distinct (map tts_id (t # ts)) \<and> tts_id ` set (t # ts) \<inter> tabs = {} \<and>
     distinct (map tps_id (snapshot_panes (t # ts))) \<and> tps_id ` set (snapshot_panes (t # ts)) \<inter> panes = {}"
    unfolding Cons.IH by (auto simp: snapshot_tab_ok_def)
  finally show ?case .
qed simp

lemma validate_snapshot_iff: "validate_snapshot s = Inr () \<longleftrightarrow> snapshot_ok s"
  by (auto simp: validate_snapshot_def snapshot_ok_def validate_tabs_iff list_ex_iff split: option.splits)

section \<open>The snapshot of a workspace\<close>

lemma snapshot_tab_panes:
  assumes ok: "tw_ok w" and t: "t \<in> set (tw_tabs w)"
  shows "map tps_id (tts_panes (snapshot_tab (tw_panes w) t)) = tab_leaves t"
    "tts_panes (snapshot_tab (tw_panes w) t) = map (\<lambda>i. snapshot_pane (the (bt_get (tw_panes w) i))) (tab_leaves t)"
proof -
  have known: "\<exists>p. bt_get (tw_panes w) i = Some p \<and> pane_ok i p" if "i \<in> set (tab_leaves t)" for i
  proof -
    have "i \<in> set (bt_keys (tw_panes w))" using ok t that by (auto simp: tw_ok_def in_all_leaves)
    then obtain p where "bt_get (tw_panes w) i = Some p" by (auto simp: set_bt_keys)
    with ok show ?thesis by (auto simp: tw_ok_def panes_ok_def)
  qed
  have "List.map_filter (bt_get (tw_panes w)) xs = map (\<lambda>i. the (bt_get (tw_panes w) i)) xs"
    if "set xs \<subseteq> set (tab_leaves t)" for xs
    using that known by (induction xs) (force simp: List.map_filter_simps)+
  then show panes: "tts_panes (snapshot_tab (tw_panes w) t) =
      map (\<lambda>i. snapshot_pane (the (bt_get (tw_panes w) i))) (tab_leaves t)"
    by (simp add: snapshot_tab_def tab_leaves_def)
  show "map tps_id (tts_panes (snapshot_tab (tw_panes w) t)) = tab_leaves t"
    unfolding panes by (auto simp: snapshot_pane_def pane_ok_def dest!: known intro!: map_idI)
qed

lemma snapshot_tab_fields [simp]:
  "tts_id (snapshot_tab m t) = tt_id t" "tts_name (snapshot_tab m t) = tt_name t"
  "tts_root (snapshot_tab m t) = tt_root t" "tts_focused_pane (snapshot_tab m t) = tt_focused_pane t"
  by (simp_all add: snapshot_tab_def)

lemma snapshot_ids:
  assumes ok: "tw_ok w" and ts: "set ts \<subseteq> set (tw_tabs w)"
  shows "map tps_id (snapshot_panes (map (snapshot_tab (tw_panes w)) ts)) = all_leaves ts"
  using ts
proof (induction ts)
  case (Cons t ts)
  then show ?case using snapshot_tab_panes(1) [OF ok, of t] by simp
qed simp

lemma snapshot_of_ok:
  assumes ok: "tw_ok w"
  shows "snapshot_ok (terminal_snapshot w)"
proof -
  have "snapshot_tab_ok (snapshot_tab (tw_panes w) t)" if t: "t \<in> set (tw_tabs w)" for t
  proof -
    note panes = snapshot_tab_panes [OF ok t]
    have tab: "tab_ok t" using ok t by (simp add: tw_ok_def list_all_iff)
    have dist: "distinct (tab_leaves t)"
      using ok t by (auto simp: tw_ok_def all_leaves_def distinct_concat_iff)
    have "tps_id ` set (tts_panes (snapshot_tab (tw_panes w) t)) = set (tab_leaves t)"
      using arg_cong [OF panes(1), of set] by simp
    moreover have "tps_working_directory p \<noteq> []" if p: "p \<in> set (tts_panes (snapshot_tab (tw_panes w) t))" for p
    proof -
      obtain i where i: "i \<in> set (tab_leaves t)" "p = snapshot_pane (the (bt_get (tw_panes w) i))"
        using p unfolding panes(2) by auto
      then have "i \<in> set (bt_keys (tw_panes w))" using ok t by (auto simp: tw_ok_def in_all_leaves)
      then obtain x where "bt_get (tw_panes w) i = Some x" by (auto simp: set_bt_keys)
      with ok i(2) show ?thesis by (auto simp: tw_ok_def panes_ok_def pane_ok_def snapshot_pane_def)
    qed
    ultimately show ?thesis
      using tab dist panes(1) by (simp add: snapshot_tab_ok_def tab_ok_def list_all_iff) (simp add: tab_leaves_def)
  qed
  then have "list_all snapshot_tab_ok (map (snapshot_tab (tw_panes w)) (tw_tabs w))" by (auto simp: list_all_iff)
  moreover have "map tts_id (map (snapshot_tab (tw_panes w)) (tw_tabs w)) = map tt_id (tw_tabs w)"
    by (simp add: comp_def)
  moreover have "tts_id ` set (map (snapshot_tab (tw_panes w)) (tw_tabs w)) = tt_id ` set (tw_tabs w)"
    by (simp add: image_image)
  ultimately show ?thesis
    using ok snapshot_ids [OF ok order_refl]
    by (simp add: snapshot_ok_def terminal_snapshot_def tw_ok_def active_ok_def del: map_map split: option.splits)
qed

section \<open>Restoring\<close>

definition restored_pane :: "terminal_pane_snapshot \<Rightarrow> terminal_pane" where
  "restored_pane p = stopped_terminal_pane (tps_id p) (tps_working_directory p)"

definition restored_tab :: "terminal_tab_snapshot \<Rightarrow> terminal_tab" where
  "restored_tab t = \<lparr>tt_id = tts_id t, tt_name = tts_name t, tt_root = tts_root t, tt_focused_pane = tts_focused_pane t\<rparr>"

definition restored_panes ::
  "terminal_pane_snapshot list \<Rightarrow> (u64, terminal_pane) btree \<Rightarrow> (u64, terminal_pane) btree"
where
  "restored_panes ps m = fold (\<lambda>p. bt_insert (tps_id p) (restored_pane p)) ps m"

definition reserved :: "u64 list \<Rightarrow> u64 \<Rightarrow> u64" where
  "reserved is c = fold reserve_after is c"

lemma reserved_mono: "c \<le> reserved is c"
proof (induction "is" arbitrary: c)
  case (Cons i "is")
  have "c \<le> reserve_after i c" by (simp add: reserve_after_def Let_def order_less_imp_le)
  also have "\<dots> \<le> reserved is (reserve_after i c)" by (rule Cons.IH)
  finally show ?case by (simp add: reserved_def)
qed (simp add: reserved_def)

lemma reserved_above: "i \<in> set is \<Longrightarrow> i \<noteq> - 1 \<Longrightarrow> i < reserved is c"
proof (induction "is" arbitrary: c)
  case (Cons j "is")
  show ?case
  proof (cases "i = j")
    case True
    have "i < sat_inc i" using Cons.prems(2) sat_inc_neq [of i] sat_inc_mono [of i] by (simp add: order_less_le)
    also have "\<dots> \<le> reserve_after j c" by (simp add: True reserve_after_def Let_def not_less)
    also have "\<dots> \<le> reserved is (reserve_after j c)" by (rule reserved_mono)
    finally show ?thesis by (simp add: reserved_def)
  next
    case False
    with Cons show ?thesis by (simp add: reserved_def)
  qed
qed simp

lemma restore_panes_eq:
  "restore_panes ps (ids, m) =
     (ids\<lparr>ti_next_pane := reserved (map tps_id ps) (ti_next_pane ids)\<rparr>, restored_panes ps m)"
  by (induction ps arbitrary: ids m) (simp_all add: reserved_def restored_panes_def restored_pane_def)

lemma restore_tabs_eq:
  "restore_tabs ts (ids, w) =
     (ids\<lparr>ti_next_pane := reserved (map tps_id (snapshot_panes ts)) (ti_next_pane ids),
         ti_next_tab := reserved (map tts_id ts) (ti_next_tab ids)\<rparr>,
      w\<lparr>tw_panes := restored_panes (snapshot_panes ts) (tw_panes w), tw_tabs := tw_tabs w @ map restored_tab ts\<rparr>)"
  by (induction ts arbitrary: ids w)
    (simp_all add: restore_panes_eq reserved_def restored_panes_def restored_tab_def)

lemma terminal_restore_eq:
  assumes "snapshot_ok s"
  shows "terminal_restore s ids =
    (Inr \<lparr>tw_tabs = map restored_tab (tws_tabs s), tw_panes = restored_panes (snapshot_panes (tws_tabs s)) bt_empty,
        tw_active_tab = tws_active_tab s\<rparr>,
     ids\<lparr>ti_next_pane := reserved (map tps_id (snapshot_panes (tws_tabs s))) (ti_next_pane ids),
         ti_next_tab := reserved (map tts_id (tws_tabs s)) (ti_next_tab ids)\<rparr>)"
  using assms by (simp add: terminal_restore_def validate_snapshot_iff [symmetric] restore_tabs_eq)

lemma restored_tab_fields [simp]:
  "tt_id (restored_tab t) = tts_id t" "tt_name (restored_tab t) = tts_name t"
  "tt_focused_pane (restored_tab t) = tts_focused_pane t" "tab_leaves (restored_tab t) = layout_leaves (tts_root t)"
  "tt_root (restored_tab t) = tts_root t"
  by (simp_all add: restored_tab_def tab_leaves_def)

lemma snapshot_leaves_mset:
  "list_all snapshot_tab_ok ts \<Longrightarrow> mset (map tps_id (snapshot_panes ts)) = mset (all_leaves (map restored_tab ts))"
proof (induction ts)
  case (Cons t ts)
  then have "distinct (map tps_id (tts_panes t))" "distinct (layout_leaves (tts_root t))"
    "set (map tps_id (tts_panes t)) = set (layout_leaves (tts_root t))"
    by (simp_all add: snapshot_tab_ok_def)
  then have "mset (map tps_id (tts_panes t)) = mset (layout_leaves (tts_root t))"
    using set_eq_iff_mset_eq_distinct by blast
  with Cons show ?case by simp
qed simp

lemma restored_panes_get:
  "distinct (map tps_id ps) \<Longrightarrow>
    bt_get (restored_panes ps bt_empty) i = map_option restored_pane (find (\<lambda>p. tps_id p = i) ps)"
  by (simp add: restored_panes_def bt_get_fold_insert split: option.split)

lemma restore_ok:
  assumes ok: "snapshot_ok s" and run: "terminal_restore s ids = (Inr w, ids')"
  shows "tw_ok w"
    "- 1 \<notin> set (map tps_id (snapshot_panes (tws_tabs s))) \<Longrightarrow> - 1 \<notin> tts_id ` set (tws_tabs s) \<Longrightarrow> ids_fresh ids' w"
proof -
  let ?ts = "tws_tabs s" and ?ps = "snapshot_panes (tws_tabs s)"
  have w: "w = \<lparr>tw_tabs = map restored_tab ?ts, tw_panes = restored_panes ?ps bt_empty, tw_active_tab = tws_active_tab s\<rparr>"
    and ids': "ids' = ids\<lparr>ti_next_pane := reserved (map tps_id ?ps) (ti_next_pane ids),
      ti_next_tab := reserved (map tts_id ?ts) (ti_next_tab ids)\<rparr>"
    using run by (simp_all add: terminal_restore_eq [OF ok])
  have tabs: "list_all snapshot_tab_ok ?ts" and dist: "distinct (map tps_id ?ps)"
    using ok by (simp_all add: snapshot_ok_def)
  note ms = snapshot_leaves_mset [OF tabs]
  have leaves: "set (all_leaves (map restored_tab ?ts)) = tps_id ` set ?ps"
    using mset_eq_setD [OF ms] by simp
  have "distinct (all_leaves (map restored_tab ?ts))"
    using dist mset_eq_imp_distinct_iff [OF ms] by simp
  moreover have "set (bt_keys (restored_panes ?ps bt_empty)) = tps_id ` set ?ps"
    by (simp add: restored_panes_def bt_keys_fold_insert)
  moreover have "panes_ok (restored_panes ?ps bt_empty)"
  proof -
    have "tps_working_directory p \<noteq> []" if "p \<in> set ?ps" for p
      using tabs that by (auto simp: snapshot_panes_def snapshot_tab_ok_def list_all_iff)
    then show ?thesis
      by (auto simp: panes_ok_def restored_panes_get [OF dist] restored_pane_def dest!: find_Some_in)
  qed
  moreover have "list_all tab_ok (map restored_tab ?ts)"
    using tabs by (auto simp: list_all_iff snapshot_tab_ok_def tab_ok_def)
  moreover have "active_ok (tws_active_tab s) (map restored_tab ?ts)"
    using ok by (auto simp: snapshot_ok_def active_ok_def image_image split: option.splits)
  moreover have "distinct (map tt_id (map restored_tab ?ts))"
    using ok by (simp add: snapshot_ok_def comp_def)
  ultimately show "tw_ok w" using leaves by (simp add: tw_ok_def w)
  show "ids_fresh ids' w" if "- 1 \<notin> set (map tps_id ?ps)" "- 1 \<notin> tts_id ` set ?ts"
  proof -
    have "i < reserved (map tps_id ?ps) c" if "i \<in> tps_id ` set ?ps" for i c
      using \<open>- 1 \<notin> set (map tps_id ?ps)\<close> that by (intro reserved_above) (auto simp: image_iff)
    moreover have "tts_id t < reserved (map tts_id ?ts) c" if "t \<in> set ?ts" for t c
      using \<open>- 1 \<notin> tts_id ` set ?ts\<close> that by (intro reserved_above) (auto simp: image_iff)
    ultimately show ?thesis by (auto simp: ids_fresh_def w ids' list_all_iff leaves)
  qed
qed

text \<open>The workspace with every pane stopped.\<close>

definition all_stopped :: "terminal_workspace \<Rightarrow> terminal_workspace" where
  "all_stopped w = w\<lparr>tw_panes := bt_map (\<lambda>_ p. p\<lparr>tp_state := Stopped\<rparr>) (tw_panes w)\<rparr>"

lemma restore_snapshot:
  assumes ok: "tw_ok w"
  shows "fst (terminal_restore (terminal_snapshot w) ids) = Inr (all_stopped w)"
proof -
  let ?ts = "map (snapshot_tab (tw_panes w)) (tw_tabs w)"
  have tabs: "map restored_tab ?ts = tw_tabs w"
    by (auto simp: restored_tab_def intro!: map_idI)
  have ids: "map tps_id (snapshot_panes ?ts) = all_leaves (tw_tabs w)" by (rule snapshot_ids [OF ok order_refl])
  have dist: "distinct (map tps_id (snapshot_panes ?ts))" unfolding ids using ok by (simp add: tw_ok_def)
  have "restored_panes (snapshot_panes ?ts) bt_empty = bt_map (\<lambda>_ p. p\<lparr>tp_state := Stopped\<rparr>) (tw_panes w)"
  proof (rule bt_eqI)
    fix i
    show "bt_get (restored_panes (snapshot_panes ?ts) bt_empty) i =
        bt_get (bt_map (\<lambda>_ p. p\<lparr>tp_state := Stopped\<rparr>) (tw_panes w)) i"
    proof (cases "i \<in> set (all_leaves (tw_tabs w))")
      case True
      then obtain t where t: "t \<in> set (tw_tabs w)" "i \<in> set (tab_leaves t)" by (auto simp: in_all_leaves)
      have "i \<in> set (bt_keys (tw_panes w))" using ok True by (simp add: tw_ok_def)
      then obtain p where p: "bt_get (tw_panes w) i = Some p" by (auto simp: set_bt_keys)
      then have pid: "tp_id p = i" using ok by (auto simp: tw_ok_def panes_ok_def pane_ok_def)
      have "snapshot_pane p \<in> set (snapshot_panes ?ts)"
        using t p snapshot_tab_panes(2) [OF ok t(1)] by (force simp: snapshot_panes_def)
      then have "find (\<lambda>x. tps_id x = i) (snapshot_panes ?ts) = Some (snapshot_pane p)"
        using find_distinct_key [OF dist, of "snapshot_pane p"] pid by (simp add: snapshot_pane_def)
      then show ?thesis
        using p pid by (simp add: restored_panes_get [OF dist] restored_pane_def stopped_terminal_pane_def snapshot_pane_def)
    next
      case False
      then have "bt_get (tw_panes w) i = None" using ok by (auto simp: tw_ok_def set_bt_keys)
      moreover have "find (\<lambda>x. tps_id x = i) (snapshot_panes ?ts) = None"
        using False arg_cong [OF ids, of set] by (auto simp: find_None_all)
      ultimately show ?thesis by (simp add: restored_panes_get [OF dist])
    qed
  qed
  with tabs show ?thesis
    using snapshot_of_ok [OF ok]
    by (cases w) (simp add: terminal_restore_eq all_stopped_def terminal_snapshot_def)
qed

section \<open>Reachable workspaces\<close>

text \<open>
  A process starts with an empty workspace or restores one from a snapshot whose identifiers are
  not the largest; between its commands other workspaces may draw identifiers. No counter wraps.
\<close>

definition ids_later :: "terminal_ids \<Rightarrow> terminal_ids \<Rightarrow> bool" where
  "ids_later ids ids' \<longleftrightarrow> ti_next_pane ids \<le> ti_next_pane ids' \<and> ti_next_tab ids \<le> ti_next_tab ids'"

definition ids_below_max :: "terminal_workspace_snapshot \<Rightarrow> bool" where
  "ids_below_max s \<longleftrightarrow>
     - 1 \<notin> set (map tps_id (snapshot_panes (tws_tabs s))) \<and> - 1 \<notin> tts_id ` set (tws_tabs s)"

inductive terminal_reachable :: "terminal_ids \<Rightarrow> terminal_workspace \<Rightarrow> bool" where
  empty: "terminal_reachable ids terminal_workspace_default"
| restored: "terminal_restore s ids = (Inr w, ids') \<Longrightarrow> ids_below_max s \<Longrightarrow> terminal_reachable ids' w"
| ran: "terminal_reachable ids w \<Longrightarrow> ids_later ids ids1 \<Longrightarrow> ids_left ids1 \<Longrightarrow>
    terminal_run c (ids1, w) = (r, (ids', w')) \<Longrightarrow> terminal_reachable ids' w'"

lemma ids_fresh_later: "ids_fresh ids w \<Longrightarrow> ids_later ids ids' \<Longrightarrow> ids_fresh ids' w"
  by (auto simp: ids_fresh_def ids_later_def list_all_iff intro: less_le_trans)

lemma terminal_reachable_ok: "terminal_reachable ids w \<Longrightarrow> tw_ok w \<and> ids_fresh ids w"
proof (induction rule: terminal_reachable.induct)
  case (empty ids)
  then show ?case
    by (simp add: terminal_workspace_default_def tw_ok_def panes_ok_def active_ok_def ids_fresh_def)
next
  case (restored s ids w ids')
  have "validate_snapshot s = Inr ()"
  proof (cases "validate_snapshot s")
    case (Inl e)
    with restored(1) show ?thesis by (simp add: terminal_restore_def)
  qed simp
  then show ?case
    using restore_ok [of s ids w ids'] restored by (simp add: validate_snapshot_iff ids_below_max_def)
next
  case (ran ids w ids1 c r ids' w')
  have "ids_fresh ids1 w" using ran.IH ran.hyps(2) by (blast intro: ids_fresh_later)
  with ran.IH ran.hyps(3,4) terminal_run_implements [of w ids1 c r ids' w'] terminal_run_fresh [of w ids1 c r ids' w']
  show ?case by (simp add: implements_def)
qed

section \<open>Properties\<close>

text \<open>
  Validating a snapshot decides whether it describes a workspace: it accepts exactly the
  snapshots whose active tab is one of the tabs, or absent with no tab, whose tab names are not
  blank, whose identifiers are all distinct, and whose trees have ratios between 10 and 90 percent,
  contain the focused pane and have as leaves exactly the declared panes, each with a directory.
\<close>

theorem snapshot_validation_decides:
  "validate_snapshot s = Inr () \<longleftrightarrow>
     (case tws_active_tab s of None \<Rightarrow> tws_tabs s = [] | Some a \<Rightarrow> list_ex (\<lambda>t. tts_id t = a) (tws_tabs s)) \<and>
     distinct (map tts_id (tws_tabs s)) \<and>
     distinct (map tps_id (concat (map tts_panes (tws_tabs s)))) \<and>
     list_all (\<lambda>t. trim (tts_name t) \<noteq> [] \<and> layout_validate (tts_root t) \<and>
       distinct (layout_leaves (tts_root t)) \<and> tts_focused_pane t \<in> set (layout_leaves (tts_root t)) \<and>
       distinct (map tps_id (tts_panes t)) \<and> tps_id ` set (tts_panes t) = set (layout_leaves (tts_root t)) \<and>
       list_all (\<lambda>p. tps_working_directory p \<noteq> []) (tts_panes t)) (tws_tabs s)"
  unfolding validate_snapshot_iff snapshot_ok_def snapshot_tab_ok_def snapshot_panes_def
  by (auto simp: list_ex_iff split: option.splits)

text \<open>
  C23. The terminal workspace implements the abstract one. Whatever command a reachable workspace
  runs, accepted or refused, the tabs, panes in order, focus and active tab it shows afterwards
  are those of the abstract command, and a split is never refused while a tab is active.
\<close>

theorem terminal_commands_refine:
  assumes "terminal_reachable ids w" "ids_later ids ids1" "terminal_run c (ids1, w) = (r, (ids', w'))"
  shows "abs_workspace w' = abstract_run c ids1 (abs_workspace w)"
proof -
  have ok: "tw_ok w" "ids_fresh ids1 w"
    using terminal_reachable_ok [OF assms(1)] ids_fresh_later [OF _ assms(2)] by simp_all
  from terminal_run_implements [OF ok assms(3)] show ?thesis by (simp add: implements_def)
qed

text \<open>
  C24. A reachable workspace survives a restart. Its snapshot is always accepted, and restoring it
  gives the same workspace with every pane stopped, whatever the identifier counters of the new
  process; identifiers the new process draws afterwards are not those of restored panes or tabs.
\<close>

theorem workspace_survives_restart:
  assumes "terminal_reachable ids w"
  shows "\<exists>ids'. terminal_restore (terminal_snapshot w) ids0 = (Inr (all_stopped w), ids') \<and>
    fst (new_pane_id ids') \<notin> set (bt_keys (tw_panes w)) \<and>
    list_all (\<lambda>t. tt_id t \<noteq> fst (new_tab_id ids')) (tw_tabs w)"
proof -
  have ok: "tw_ok w" "ids_fresh ids w" using terminal_reachable_ok [OF assms] by simp_all
  obtain ids' where run: "terminal_restore (terminal_snapshot w) ids0 = (Inr (all_stopped w), ids')"
    using restore_snapshot [OF ok(1), of ids0] by (cases "terminal_restore (terminal_snapshot w) ids0") simp
  have "p \<noteq> - 1" if "p \<in> set (all_leaves (tw_tabs w))" for p
    using ok(2) that by (auto simp: ids_fresh_def list_all_iff)
  moreover have "tt_id t \<noteq> - 1" if "t \<in> set (tw_tabs w)" for t
    using ok(2) that by (auto simp: ids_fresh_def list_all_iff)
  ultimately have "- 1 \<notin> set (all_leaves (tw_tabs w))" "- 1 \<notin> tt_id ` set (tw_tabs w)"
    by (metis, metis imageE)
  moreover have "map tps_id (snapshot_panes (tws_tabs (terminal_snapshot w))) = all_leaves (tw_tabs w)"
    using snapshot_ids [OF ok(1) order_refl] by (simp add: terminal_snapshot_def)
  moreover have "tts_id ` set (tws_tabs (terminal_snapshot w)) = tt_id ` set (tw_tabs w)"
    by (simp add: terminal_snapshot_def image_image)
  ultimately have "ids_fresh ids' (all_stopped w)"
    using restore_ok(2) [OF snapshot_of_ok [OF ok(1)] run] by (simp del: set_map)
  then have "fst (new_pane_id ids') \<notin> set (bt_keys (tw_panes w))"
    "list_all (\<lambda>t. tt_id t \<noteq> fst (new_tab_id ids')) (tw_tabs w)"
    using ok(1) by (auto simp: ids_fresh_def all_stopped_def tw_ok_def new_pane_id_def new_tab_id_def list_all_iff)
  with run show ?thesis by blast
qed

text \<open>
  A snapshot may name the largest identifier. \<open>reserve_after\<close> saturates there, so the counter
  stays at that identifier and the next pane gets it again.
\<close>

lemma largest_identifier_is_reused:
  "fst (new_pane_id (ids\<lparr>ti_next_pane := reserve_after (- 1) (ti_next_pane ids)\<rparr>)) = - 1"
proof -
  have "reserve_after (- 1) c = - 1" for c :: u64
    by (cases "c = - 1") (simp_all add: reserve_after_def Let_def not_less word_order.extremum_unique)
  then show ?thesis by (simp add: new_pane_id_def)
qed

section \<open>The properties on a small workspace\<close>

definition example_ids :: terminal_ids where
  "example_ids = \<lparr>ti_next_pane = 1, ti_next_tab = 1\<rparr>"

definition example_terminal :: "terminal_ids \<times> terminal_workspace" where
  "example_terminal = snd (terminal_run (CreateTab (lit ''shell'') (lit ''/'')) (example_ids, terminal_workspace_default))"

lemma example_terminal_reachable: "terminal_reachable (fst example_terminal) (snd example_terminal)"
proof (rule terminal_reachable.ran [OF terminal_reachable.empty])
  show "ids_later example_ids example_ids" by (simp add: ids_later_def)
  show "ids_left example_ids" by (simp add: ids_left_def example_ids_def)
  show "terminal_run (CreateTab (lit ''shell'') (lit ''/'')) (example_ids, terminal_workspace_default) =
      (fst (terminal_run (CreateTab (lit ''shell'') (lit ''/'')) (example_ids, terminal_workspace_default)),
       fst example_terminal, snd example_terminal)"
    by (simp add: example_terminal_def)
qed

theorem terminal_commands_refine_witness:
  "abs_workspace (snd (snd (terminal_run (SplitFocused Vertical) example_terminal))) =
    abstract_run (SplitFocused Vertical) (fst example_terminal) (abs_workspace (snd example_terminal))"
proof -
  obtain r ids' w' where run: "terminal_run (SplitFocused Vertical) (fst example_terminal, snd example_terminal) = (r, (ids', w'))"
    by (metis prod_cases3)
  from terminal_commands_refine [OF example_terminal_reachable _ this] show ?thesis
    using run by (simp add: ids_later_def)
qed

theorem workspace_survives_restart_witness:
  "\<exists>ids'. terminal_restore (terminal_snapshot (snd example_terminal)) example_ids = (Inr (all_stopped (snd example_terminal)), ids') \<and>
    fst (new_pane_id ids') \<notin> set (bt_keys (tw_panes (snd example_terminal))) \<and>
    list_all (\<lambda>t. tt_id t \<noteq> fst (new_tab_id ids')) (tw_tabs (snd example_terminal))"
  by (rule workspace_survives_restart [OF example_terminal_reachable])

end
