(* ===== verification/CatalogGenerations.thy ===== *)
theory CatalogGenerations imports CatalogProperties begin

text \<open>
  What the catalog mutations do to the generations of panes: panes that stay keep theirs, and the
  panes they add start at generation zero under identifiers that were just drawn.
\<close>

section \<open>Panes and generations\<close>

definition pane_gen :: "session_pane \<Rightarrow> pane_id \<times> u64" where
  "pane_gen p = (sp_id p, sp_generation p)"

definition window_gens :: "session_window \<Rightarrow> (pane_id \<times> u64) set" where
  "window_gens w = pane_gen ` set (bt_values (sw_panes w))"

definition session_gens :: "session \<Rightarrow> (pane_id \<times> u64) set" where
  "session_gens s = (\<Union>w \<in> set (se_windows s). window_gens w)"

definition pane_gens :: "session_catalog \<Rightarrow> (pane_id \<times> u64) set" where
  "pane_gens c = (\<Union>s \<in> set (bt_values (cat_sessions c)). session_gens s)"

text \<open>The panes a mutation may add: stopped, under identifiers of the draws.\<close>

definition new_gens :: "entropy \<Rightarrow> (pane_id \<times> u64) set" where
  "new_gens rng = drawn rng \<times> {0}"

definition gens_within :: "(pane_id \<times> u64) set \<Rightarrow> (catalog_error + 'a) \<Rightarrow> session_catalog \<Rightarrow> bool" where
  "gens_within G r c' \<longleftrightarrow> pane_gens c' \<subseteq> G"

lemma pane_gens_updates [simp]:
  "pane_gens (c\<lparr>cat_revision := r\<rparr>) = pane_gens c" "pane_gens (c\<lparr>cat_active_session := a\<rparr>) = pane_gens c"
  "pane_gens (bump_revision c) = pane_gens c"
  by (simp_all add: pane_gens_def bump_revision_def)

lemma session_gens_updates [simp]:
  "session_gens (s\<lparr>se_name := n\<rparr>) = session_gens s" "session_gens (s\<lparr>se_revision := r\<rparr>) = session_gens s"
  "session_gens (s\<lparr>se_active_window := w\<rparr>) = session_gens s"
  by (simp_all add: session_gens_def)

lemma window_gens_updates [simp]:
  "window_gens (w\<lparr>sw_name := n\<rparr>) = window_gens w" "window_gens (w\<lparr>sw_revision := r\<rparr>) = window_gens w"
  "window_gens (w\<lparr>sw_root := t\<rparr>) = window_gens w" "window_gens (w\<lparr>sw_focused_pane := k\<rparr>) = window_gens w"
  by (simp_all add: window_gens_def)

lemma bt_values_insert_subset: "set (bt_values (bt_insert k v m)) \<subseteq> insert v (set (bt_values m))"
  by (auto simp: bt_values_get split: if_splits)

lemma bt_values_remove_subset: "set (bt_values (bt_remove k m)) \<subseteq> set (bt_values m)"
  by (auto simp: bt_values_get split: if_splits)

lemma session_gens_in: "bt_get (cat_sessions c) sid = Some s \<Longrightarrow> session_gens s \<subseteq> pane_gens c"
  by (auto simp: pane_gens_def dest: bt_get_in_values)

lemma window_gens_in: "w \<in> set (se_windows s) \<Longrightarrow> window_gens w \<subseteq> session_gens s"
  by (auto simp: session_gens_def)

lemma pane_gen_in: "bt_get (sw_panes w) k = Some p \<Longrightarrow> pane_gen p \<in> window_gens w"
  by (auto simp: window_gens_def dest: bt_get_in_values)

lemma pane_gens_insert:
  "pane_gens (c\<lparr>cat_sessions := bt_insert sid s (cat_sessions c)\<rparr>) \<subseteq> pane_gens c \<union> session_gens s"
  using bt_values_insert_subset [of sid s "cat_sessions c"] by (auto simp: pane_gens_def)

lemma pane_gens_remove: "pane_gens (c\<lparr>cat_sessions := bt_remove sid (cat_sessions c)\<rparr>) \<subseteq> pane_gens c"
  using bt_values_remove_subset [of sid "cat_sessions c"] by (auto simp: pane_gens_def)

lemma commit_session_gens: "pane_gens (commit_session c sid s) \<subseteq> pane_gens c \<union> session_gens s"
  using pane_gens_insert [where c = c and sid = sid and s = "s\<lparr>se_revision := sat_inc (se_revision s)\<rparr>"] by (simp add: commit_session_def)

lemma session_gens_replace:
  "session_gens (s\<lparr>se_windows := (se_windows s)[i := w]\<rparr>) \<subseteq> session_gens s \<union> window_gens w"
  using set_update_subset_insert [of "se_windows s" i w] by (auto simp: session_gens_def)

lemma commit_window_gens:
  assumes "bt_get (cat_sessions c) sid = Some s"
  shows "pane_gens (commit_window c sid s i w) \<subseteq> pane_gens c \<union> window_gens w"
  using commit_session_gens [of c sid "s\<lparr>se_windows := (se_windows s)[i := w\<lparr>sw_revision := sat_inc (sw_revision w)\<rparr>]\<rparr>"]
    session_gens_replace [of s i "w\<lparr>sw_revision := sat_inc (sw_revision w)\<rparr>"] session_gens_in [OF assms]
  by (auto simp: commit_window_def)

lemma window_gens_insert: "window_gens (w\<lparr>sw_panes := bt_insert k p (sw_panes w)\<rparr>) \<subseteq> insert (pane_gen p) (window_gens w)"
  using bt_values_insert_subset [of k p "sw_panes w"] by (auto simp: window_gens_def)

lemma window_gens_remove: "window_gens (w\<lparr>sw_panes := bt_remove k (sw_panes w)\<rparr>) \<subseteq> window_gens w"
  using bt_values_remove_subset [of k "sw_panes w"] by (auto simp: window_gens_def)

lemma window_gens_nth: "bt_get (cat_sessions c) sid = Some s \<Longrightarrow> i < length (se_windows s) \<Longrightarrow>
    window_gens (se_windows s ! i) \<subseteq> pane_gens c"
  using window_gens_in [of "se_windows s ! i" s] session_gens_in [of c sid s] by auto

lemma single_window_gens: "session_gens \<lparr>se_id = a, se_name = n, se_revision = r, se_windows = [w], se_active_window = v\<rparr> = window_gens w"
  by (simp add: session_gens_def)

lemma single_pane_gens: "window_gens (single_pane_window wid n k d) = {(k, 0)}"
proof -
  have "bt_values (bt_insert k p bt_empty) = [p]" for p :: session_pane by (simp add: bt_eval)
  then show ?thesis by (simp add: window_gens_def single_pane_window_def pane_gen_def stopped_pane_def)
qed

lemma new_gens_drawn: "new_id rng = (Inr k, rng') \<Longrightarrow> (k, 0) \<in> new_gens rng"
  using new_id_ok [of rng k rng'] by (simp add: new_gens_def)

lemma new_gens_rest: "new_id rng = (Inr i, rng') \<Longrightarrow> new_gens rng' \<subseteq> new_gens rng"
  using drawn_mono [OF new_id_rest [of rng i rng']] by (auto simp: new_gens_def)

section \<open>The mutations\<close>

lemma gens_within_same [simp]: "gens_within (pane_gens c) r c" "gens_within (pane_gens c \<union> G) r c"
  by (simp_all add: gens_within_def)

lemma commit_session_within:
  "bt_get (cat_sessions c) sid = Some s \<Longrightarrow> session_gens s' \<subseteq> pane_gens c \<union> G \<Longrightarrow>
    gens_within (pane_gens c \<union> G) r (commit_session c sid s')"
  using commit_session_gens [of c sid s'] by (auto simp: gens_within_def)

lemma commit_window_within:
  "bt_get (cat_sessions c) sid = Some s \<Longrightarrow> window_gens w \<subseteq> pane_gens c \<union> G \<Longrightarrow>
    gens_within (pane_gens c \<union> G) r (commit_window c sid s i w)"
  using commit_window_gens [of c sid s i w] by (auto simp: gens_within_def)

lemma rename_session_gens: "ends (rename_session sid name e c) (gens_within (pane_gens c))"
  unfolding rename_session_def
  by (intro walk)
    (auto simp: outcome intro!: commit_session_within [where G = "{}", simplified] intro: session_gens_in [THEN subsetD])

lemma activate_session_gens: "ends (activate_session sid e c) (gens_within (pane_gens c))"
  unfolding activate_session_def by (intro walk) (auto simp: gens_within_def)

lemma rename_window_gens: "ends (rename_window sid wid name e c) (gens_within (pane_gens c))"
  unfolding rename_window_def
  by (intro walk)
    (auto simp: outcome dest!: position_SomeD(1) intro: window_gens_nth [THEN subsetD]
      intro!: commit_window_within [where G = "{}", simplified])

lemma activate_window_gens: "ends (activate_window sid wid e c) (gens_within (pane_gens c))"
  unfolding activate_window_def
  by (intro walk)
    (auto simp: outcome intro!: commit_session_within [where G = "{}", simplified] intro: session_gens_in [THEN subsetD])

lemma focus_pane_gens: "ends (focus_pane sid pane e c) (gens_within (pane_gens c))"
  unfolding focus_pane_def
  by (intro walk)
    (auto simp: outcome dest!: active_window_mut_ok(1) intro: window_gens_nth [THEN subsetD]
      intro!: commit_window_within [where G = "{}", simplified])

lemma set_focused_split_ratio_gens: "ends (set_focused_split_ratio sid ratio e c) (gens_within (pane_gens c))"
  unfolding set_focused_split_ratio_def
  by (intro walk)
    (auto simp: outcome dest!: active_window_mut_ok(1) intro: window_gens_nth [THEN subsetD]
      intro!: commit_window_within [where G = "{}", simplified])

lemma pane_gen_size [simp]:
  "pane_gen (p\<lparr>sp_requested_rows := r, sp_requested_columns := n\<rparr>) = pane_gen p"
  "pane_gen (p\<lparr>sp_lifecycle := l\<rparr>) = pane_gen p"
  by (simp_all add: pane_gen_def)

text \<open>A pane put back under its identifier and generation.\<close>

lemma put_pane_within:
  assumes "bt_get (cat_sessions c) sid = Some s" "i < length (se_windows s)"
    "pane_gen p' \<in> pane_gens c \<union> G"
  shows "gens_within (pane_gens c \<union> G) r
    (commit_window c sid s i ((se_windows s ! i)\<lparr>sw_panes := bt_insert k p' (sw_panes (se_windows s ! i))\<rparr>))"
  using window_gens_insert [where w = "se_windows s ! i" and k = k and p = p'] window_gens_nth [OF assms(1,2)] assms(3)
  by (intro commit_window_within [OF assms(1)]) auto

lemma pane_gen_nth:
  "bt_get (cat_sessions c) sid = Some s \<Longrightarrow> i < length (se_windows s) \<Longrightarrow>
    bt_get (sw_panes (se_windows s ! i)) k = Some p \<Longrightarrow> pane_gen p \<in> pane_gens c"
  using pane_gen_in [of "se_windows s ! i" k p] window_gens_nth [of c sid s i] by blast

lemma set_pane_size_gens: "ends (set_pane_size sid k rows cols e c) (gens_within (pane_gens c))"
  unfolding set_pane_size_def Let_def
  by (intro walk)
    (auto simp: outcome dest!: window_of_pane_ok(1) intro: pane_gen_nth
      intro!: put_pane_within [where G = "{}", simplified])

lemma set_generation_lifecycle_gens: "ends (set_generation_lifecycle sid k g l c) (gens_within (pane_gens c))"
  unfolding set_generation_lifecycle_def Let_def
  by (intro walk)
    (auto simp: outcome dest!: window_of_pane_ok(1) intro: pane_gen_nth
      intro!: put_pane_within [where G = "{}", simplified])

lemma create_session_gens:
  "ends (create_session rng name dir e c) (gens_within (pane_gens c \<union> new_gens rng))"
  unfolding create_session_def Let_def
proof ((intro walk; (simp add: gens_within_def; fail)?), goal_cases)
  case (1 u n d sid rng1 wid rng2 k rng3)
  let ?s = "\<lparr>se_id = sid, se_name = n, se_revision = 1, se_windows = [single_pane_window wid (lit ''shell'') k d],
    se_active_window = wid\<rparr>"
  have "(k, 0) \<in> new_gens rng"
    using new_gens_drawn [OF 1(7)] new_gens_rest [OF 1(6)] new_gens_rest [OF 1(5)] by blast
  then show ?case
    using pane_gens_insert [where c = c and sid = sid and s = ?s] by (auto simp: gens_within_def single_window_gens single_pane_gens)
qed

lemma session_gens_append: "session_gens (s\<lparr>se_windows := se_windows s @ [w]\<rparr>) = session_gens s \<union> window_gens w"
  by (auto simp: session_gens_def)

lemma create_window_gens:
  "ends (create_window rng sid name dir e c) (gens_within (pane_gens c \<union> new_gens rng))"
  unfolding create_window_def Let_def
proof ((intro walk; (simp add: gens_within_def; fail)?), goal_cases)
  case (1 u n d s wid rng1 k rng2)
  have s: "bt_get (cat_sessions c) sid = Some s" using 1 by (simp add: outcome)
  have "(k, 0) \<in> new_gens rng" using new_gens_drawn new_gens_rest 1 by blast
  then show ?case
    using session_gens_in [OF s]
    by (intro commit_session_within [OF s]) (auto simp: session_gens_append single_pane_gens)
qed

lemma split_focused_gens:
  "ends (split_focused rng sid axis e c) (gens_within (pane_gens c \<union> new_gens rng))"
proof (cases "fst (split_focused rng sid axis e c)")
  case (Inl err)
  have "ends (split_focused rng sid axis e c) (\<lambda>r c'. isl r \<longrightarrow> c' = c)"
    unfolding split_focused_def Let_def by (intro walk) simp_all
  with Inl show ?thesis by (simp add: ends_def gens_within_def)
next
  case (Inr k)
  then obtain c1 where run: "split_focused rng sid axis e c = (Inr k, c1)" by (metis prod.collapse)
  obtain s i p rng' root where s: "bt_get (cat_sessions c) sid = Some s" "i < length (se_windows s)"
    and n: "new_id rng = (Inr k, rng')"
    and c1: "c1 = commit_window c sid s i ((se_windows s ! i)\<lparr>sw_root := root,
       sw_panes := bt_insert k (copy_pane k p) (sw_panes (se_windows s ! i)), sw_focused_pane := k\<rparr>)"
    using run by (rule split_focused_ok)
  let ?w = "(se_windows s ! i)\<lparr>sw_root := root\<rparr>"
  have "window_gens (?w\<lparr>sw_panes := bt_insert k (copy_pane k p) (sw_panes ?w)\<rparr>) \<subseteq> insert (k, 0) (window_gens ?w)"
    using window_gens_insert [where w = ?w and k = k and p = "copy_pane k p"] by (simp add: pane_gen_def copy_pane_def)
  then have "window_gens ((se_windows s ! i)\<lparr>sw_root := root,
       sw_panes := bt_insert k (copy_pane k p) (sw_panes (se_windows s ! i)), sw_focused_pane := k\<rparr>)
     \<subseteq> insert (k, 0) (window_gens (se_windows s ! i))" by simp
  then have "window_gens ((se_windows s ! i)\<lparr>sw_root := root,
       sw_panes := bt_insert k (copy_pane k p) (sw_panes (se_windows s ! i)), sw_focused_pane := k\<rparr>)
     \<subseteq> pane_gens c \<union> new_gens rng"
    using window_gens_nth [OF s] new_gens_drawn [OF n] by auto
  from commit_window_within [OF s(1) this] show ?thesis
    by (simp add: run c1 ends_def)
qed

lemma duplicate_panes_gens:
  "duplicate_panes rng ps ids panes = Inr (ids', panes', rng') \<Longrightarrow>
    pane_gen ` set (bt_values panes') \<subseteq> pane_gen ` set (bt_values panes) \<union> new_gens rng \<and> new_gens rng' \<subseteq> new_gens rng"
proof (induction ps arbitrary: rng ids panes)
  case Nil
  then show ?case by auto
next
  case (Cons p ps)
  obtain n :: pane_id and rng1 where n: "new_id rng = (Inr n, rng1)"
    using Cons.prems by (auto split: prod.splits sum.splits)
  have run: "duplicate_panes rng1 ps (bt_insert (sp_id p) n ids) (bt_insert n (copy_pane n p) panes)
      = Inr (ids', panes', rng')"
    using Cons.prems n by (simp add: copy_pane_def)
  have "pane_gen ` set (bt_values (bt_insert n (copy_pane n p) panes)) \<subseteq>
      pane_gen ` set (bt_values panes) \<union> new_gens rng"
    using bt_values_insert_subset [of n "copy_pane n p" panes] new_gens_drawn [OF n]
    by (auto simp: pane_gen_def copy_pane_def)
  with Cons.IH [OF run] new_gens_rest [OF n] show ?case by blast
qed

lemma duplicate_window_gens:
  "ends (duplicate_window rng sid wid e c) (gens_within (pane_gens c \<union> new_gens rng))"
  unfolding duplicate_window_def Let_def
proof ((intro walk; (simp add: gens_within_def; fail)?), goal_cases)
  case (1 u s w nwid rng1 x ids b panes rng2 name root f)
  have s: "bt_get (cat_sessions c) sid = Some s" using 1 by (simp add: outcome)
  have "window_gens \<lparr>sw_id = nwid, sw_name = name, sw_revision = 1, sw_root = root, sw_focused_pane = f,
      sw_panes = panes\<rparr> \<subseteq> new_gens rng"
    using duplicate_panes_gens [of rng1 _ bt_empty bt_empty ids panes rng2] new_gens_rest [of rng nwid rng1] 1
    by (auto simp: window_gens_def bt_values_def)
  then show ?case
    using session_gens_in [OF s]
    by (intro commit_session_within [OF s]) (auto simp: session_gens_append)
qed

lemma duplicate_windows_gens:
  "duplicate_windows rng a ws act = Inr (ws', act') \<Longrightarrow> w \<in> set ws' \<Longrightarrow> window_gens w \<subseteq> new_gens rng"
proof (induction ws arbitrary: rng act ws' act')
  case Nil
  then show ?case by simp
next
  case (Cons v ws)
  obtain wid :: window_id and rng1 where n: "new_id rng = (Inr wid, rng1)"
    using Cons.prems(1) by (auto split: prod.splits sum.splits)
  obtain ids panes rng2 where d: "duplicate_panes rng1 (bt_values (sw_panes v)) bt_empty bt_empty = Inr (ids, panes, rng2)"
    using Cons.prems(1) n by (auto simp: outcome)
  obtain root f ws2 act2 where rest: "duplicate_windows rng2 a ws act2 = Inr (ws2, act')"
    and ws': "ws' = \<lparr>sw_id = wid, sw_name = sw_name v, sw_revision = 1, sw_root = root, sw_focused_pane = f,
      sw_panes = panes\<rparr> # ws2"
    using Cons.prems(1) n d by (auto simp: outcome)
  note g = duplicate_panes_gens [OF d] new_gens_rest [OF n]
  show ?case
  proof (cases "w \<in> set ws2")
    case True
    from Cons.IH [OF rest this] g show ?thesis by blast
  next
    case False
    then have "sw_panes w = panes" using Cons.prems(2) ws' by auto
    then show ?thesis using g by (auto simp: window_gens_def bt_values_def)
  qed
qed

lemma duplicate_session_gens:
  "ends (duplicate_session rng sid e c) (gens_within (pane_gens c \<union> new_gens rng))"
  unfolding duplicate_session_def Let_def
proof ((intro walk; (simp add: gens_within_def; fail)?), goal_cases)
  case (1 u s nsid rng1 x ws act name a)
  let ?s = "\<lparr>se_id = nsid, se_name = name, se_revision = 1, se_windows = ws, se_active_window = a\<rparr>"
  have "session_gens ?s \<subseteq> new_gens rng1"
    using duplicate_windows_gens [of rng1 _ _ None ws act] 1 by (fastforce simp: session_gens_def)
  moreover have "new_gens rng1 \<subseteq> new_gens rng" using new_gens_rest 1 by blast
  ultimately show ?case
    using pane_gens_insert [where c = c and sid = nsid and s = ?s] by (auto simp: gens_within_def)
qed

lemma close_window_gens: "ends (close_window sid wid e c) (gens_within (pane_gens c))"
proof -
  have sub: "session_gens (s\<lparr>se_windows := remove_at i (se_windows s)\<rparr>) \<subseteq> session_gens s" for s i
    by (auto simp: session_gens_def remove_at_def dest: in_set_takeD in_set_dropD)
  have put: "pane_gens (c\<lparr>cat_sessions := bt_insert sid s' (cat_sessions c)\<rparr>) \<subseteq> pane_gens c"
    if "bt_get (cat_sessions c) sid = Some s" "session_gens s' \<subseteq> session_gens s" for s s'
    using pane_gens_insert [where c = c and sid = sid and s = s'] session_gens_in [OF that(1)] that(2) by blast
  have put': "gens_within (pane_gens c) r (commit_session c sid s')"
    if "bt_get (cat_sessions c) sid = Some s" "session_gens s' \<subseteq> session_gens s" for s s' and r :: "catalog_error + unit"
    using session_gens_in [OF that(1)] that(2) by (intro commit_session_within [where G = "{}", simplified, OF that(1)]) blast
  show ?thesis
    unfolding close_window_def Let_def
    by (intro walk)
      (auto simp: outcome intro!: put' put [THEN iffD2 [OF gens_within_def]] intro: sub [THEN subsetD])
qed

lemma close_pane_gens: "ends (close_pane sid k e c) (gens_within (pane_gens c))"
proof -
  have put: "gens_within (pane_gens c) r
      (c\<lparr>cat_sessions := bt_insert sid (s\<lparr>se_windows := (se_windows s)[i := w]\<rparr>) (cat_sessions c)\<rparr>)"
    if "bt_get (cat_sessions c) sid = Some s" "window_gens w \<subseteq> pane_gens c" for s i w and r :: "catalog_error + unit"
    using pane_gens_insert [where c = c and sid = sid and s = "s\<lparr>se_windows := (se_windows s)[i := w]\<rparr>"]
      session_gens_replace [of s i w] session_gens_in [OF that(1)] that(2) by (auto simp: gens_within_def)
  have drop: "window_gens ((se_windows s ! i)\<lparr>sw_panes := bt_remove k (sw_panes (se_windows s ! i)), sw_root := t\<rparr>) \<subseteq> pane_gens c"
    if "bt_get (cat_sessions c) sid = Some s" "window_of_pane s k = Inr i" for s i t
    using window_gens_remove [where w = "se_windows s ! i" and k = k] window_gens_nth [OF that(1) window_of_pane_ok(1) [OF that(2)]]
    by simp
  show ?thesis
    unfolding close_pane_def Let_def
    by (intro walk)
      (auto simp: outcome intro!: put commit_window_within [where G = "{}", simplified] intro: drop [THEN subsetD]
        split: if_splits)
qed

lemma remove_session_gens: "ends (remove_session sid e c) (gens_within (pane_gens c))"
  unfolding remove_session_def Let_def
  by (intro walk) (simp_all add: gens_within_def pane_gens_remove)

lemma begin_pane_generation_err: "begin_pane_generation sid k rows cols e c = (Inl err, c') \<Longrightarrow> c' = c"
  by (auto simp: begin_pane_generation_def outcome Let_def split: if_splits)

lemma begin_pane_generation_gens:
  assumes "catalog_ok c" "begin_pane_generation sid k rows cols e c = (Inr g, c')"
  shows "pane_gens c' \<subseteq> insert (k, g) (pane_gens c)" "\<exists>h. (k, h) \<in> pane_gens c \<and> g = sat_inc h"
proof -
  obtain s i p where s: "bt_get (cat_sessions c) sid = Some s" and at: "window_of_pane s k = Inr i"
    and p: "bt_get (sw_panes (se_windows s ! i)) k = Some p" and g: "g = sat_inc (sp_generation p)"
    and c': "c' = commit_window c sid s i ((se_windows s ! i)\<lparr>sw_panes := bt_insert k
      (p\<lparr>sp_requested_rows := rows, sp_requested_columns := cols, sp_generation := g,
         sp_lifecycle := Starting\<rparr>) (sw_panes (se_windows s ! i))\<rparr>)"
    using assms(2) by (auto simp: begin_pane_generation_def outcome Let_def split: if_splits)
  have i: "i < length (se_windows s)" using window_of_pane_ok(1) [OF at] .
  have k: "sp_id p = k" using window_pane_ok [OF target_window_ok [OF assms(1) s i] p] by (simp add: pane_ok_def)
  have "gens_within (pane_gens c \<union> {(k, g)}) (Inr () :: catalog_error + unit) c'"
    unfolding c' by (intro put_pane_within [OF s i]) (simp add: pane_gen_def k)
  then show "pane_gens c' \<subseteq> insert (k, g) (pane_gens c)" by (simp add: gens_within_def)
  show "\<exists>h. (k, h) \<in> pane_gens c \<and> g = sat_inc h"
    using pane_gen_nth [OF s i p] k g by (auto simp: pane_gen_def)
qed

lemma stopped_clone_gens: "stopped_clone c = Inr c' \<Longrightarrow> (k, g) \<in> pane_gens c' \<Longrightarrow> g = 0"
  by (auto simp: stopped_clone_ok pane_gens_def session_gens_def window_gens_def stop_session_def stop_window_def
      stop_pane_def pane_gen_def bt_values_map)

text \<open>Looking a pane up finds its generation, and every pane of the set is found.\<close>

lemma pane_gens_iff:
  assumes "catalog_ok c"
  shows "(k, g) \<in> pane_gens c \<longleftrightarrow> (\<exists>sid wid p. catalog_pane c k = Some (sid, wid, p) \<and> sp_generation p = g)"
proof
  assume "(k, g) \<in> pane_gens c"
  then obtain s w p where p: "s \<in> set (bt_values (cat_sessions c))" "w \<in> set (se_windows s)"
    "p \<in> set (bt_values (sw_panes w))" and k: "sp_id p = k" "sp_generation p = g"
    by (auto simp: pane_gens_def session_gens_def window_gens_def pane_gen_def)
  from p(3) obtain j where j: "bt_get (sw_panes w) j = Some p" by (auto simp: bt_values_get)
  from p(1) obtain sid where s: "bt_get (cat_sessions c) sid = Some s" by (auto simp: bt_values_get)
  have "sp_id p = j"
    using window_pane_ok [OF session_windows_ok [OF catalog_get(2) [OF assms s] p(2)] j] by (simp add: pane_ok_def)
  then have "holds_pane c sid (sw_id w) k p" using p(2) j k s by (auto simp: holds_pane_iff)
  then show "\<exists>sid wid p. catalog_pane c k = Some (sid, wid, p) \<and> sp_generation p = g"
    using catalog_pane_holds [OF assms] k(2) by blast
next
  assume "\<exists>sid wid p. catalog_pane c k = Some (sid, wid, p) \<and> sp_generation p = g"
  then obtain sid wid p where p: "catalog_pane c k = Some (sid, wid, p)" "sp_generation p = g" by blast
  then have "holds_pane c sid wid k p" using catalog_pane_holds [OF assms] by blast
  then obtain s w where s: "bt_get (cat_sessions c) sid = Some s" and w: "w \<in> set (se_windows s)"
    "bt_get (sw_panes w) k = Some p" by (auto simp: holds_pane_iff)
  have "sp_id p = k"
    using window_pane_ok [OF session_windows_ok [OF catalog_get(2) [OF assms s] w(1)] w(2)] by (simp add: pane_ok_def)
  then show "(k, g) \<in> pane_gens c"
    using pane_gen_in [OF w(2)] window_gens_in [OF w(1)] session_gens_in [OF s] p(2)
    by (auto simp: pane_gen_def)
qed

lemma catalog_pane_ids_iff:
  assumes "catalog_ok c"
  shows "k \<in> set (catalog_pane_ids c) \<longleftrightarrow> (\<exists>g. (k, g) \<in> pane_gens c)"
proof -
  have "k \<in> set (catalog_pane_ids c) \<longleftrightarrow> catalog_pane c k \<noteq> None"
    by (auto simp: catalog_pane_ids_def session_pane_ids_def window_pane_ids_def catalog_pane_def
        find_pane_in_sessions_None set_bt_keys)
  then show ?thesis by (auto simp: pane_gens_iff [OF assms])
qed

lemma contains_pane_iff:
  assumes "catalog_ok c"
  shows "contains_pane c k \<longleftrightarrow> (\<exists>g. (k, g) \<in> pane_gens c)"
proof -
  have "contains_pane c k \<longleftrightarrow> catalog_pane c k \<noteq> None"
    by (auto simp: contains_pane_def catalog_pane_def find_pane_in_sessions_None list_ex_iff bt_contains_def)
  then show ?thesis by (auto simp: pane_gens_iff [OF assms])
qed

lemma pane_gens_unique:
  "catalog_ok c \<Longrightarrow> (k, g) \<in> pane_gens c \<Longrightarrow> (k, h) \<in> pane_gens c \<Longrightarrow> g = h"
  by (auto simp: pane_gens_iff)

end
