(* ===== verification/TerminalCell.thy ===== *)
theory TerminalCell imports RustText begin

text \<open>
  A cell of the terminal grid (\<open>strukt-terminal/src/cell.rs\<close>): bounded text, display width, colours,
  attributes and hyperlink.
\<close>

section \<open>Cells\<close>

definition MAX_CELL_TEXT_BYTES :: nat where "MAX_CELL_TEXT_BYTES = 64"

type_synonym hyperlink_id = u32

datatype color = DefaultColor | Indexed u8 | Rgb u8 u8 u8

datatype cell_width = Single | Wide | Continuation

record cell_attributes =
  ca_bold :: bool
  ca_faint :: bool
  ca_italic :: bool
  ca_underline :: bool
  ca_inverse :: bool
  ca_strikethrough :: bool

definition attributes_default :: cell_attributes where
  "attributes_default = \<lparr>ca_bold = False, ca_faint = False, ca_italic = False, ca_underline = False,
     ca_inverse = False, ca_strikethrough = False\<rparr>"

datatype cell_error = ContinuationHasText | TextTooLong

record cell =
  ce_text :: rust_string
  ce_width :: cell_width
  ce_foreground :: color
  ce_background :: color
  ce_attributes :: cell_attributes
  ce_hyperlink :: "hyperlink_id option"

definition cell_default :: cell where
  "cell_default = \<lparr>ce_text = [32], ce_width = Single, ce_foreground = DefaultColor, ce_background = DefaultColor,
     ce_attributes = attributes_default, ce_hyperlink = None\<rparr>"

definition cell_set_text :: "rust_string \<Rightarrow> cell_width \<Rightarrow> cell \<Rightarrow> (cell_error + unit) \<times> cell" where
  "cell_set_text t width c =
     (if width = Continuation \<and> t \<noteq> [] then (Inl ContinuationHasText, c)
      else if str_len t > MAX_CELL_TEXT_BYTES then (Inl TextTooLong, c)
      else (Inr (), c\<lparr>ce_text := t, ce_width := width\<rparr>))"

definition cell_append_combining :: "scalar \<Rightarrow> cell \<Rightarrow> (cell_error + unit) \<times> cell" where
  "cell_append_combining character c =
     (if ce_width c = Continuation then (Inl ContinuationHasText, c)
      else if str_len (ce_text c) + len_utf8 character > MAX_CELL_TEXT_BYTES then (Inl TextTooLong, c)
      else (Inr (), c\<lparr>ce_text := (if ce_text c = [32] then [] else ce_text c) @ [character]\<rparr>))"

definition cell_reset :: "cell \<Rightarrow> cell" where
  "cell_reset c = cell_default"

definition is_structurally_valid :: "cell \<Rightarrow> bool" where
  "is_structurally_valid c \<longleftrightarrow>
     str_len (ce_text c) \<le> MAX_CELL_TEXT_BYTES \<and> (ce_width c \<noteq> Continuation \<or> ce_text c = [])"

definition is_semantically_blank :: "cell \<Rightarrow> bool" where
  "is_semantically_blank c \<longleftrightarrow>
     ce_text c = [32] \<and> ce_width c = Single \<and> ce_foreground c = DefaultColor \<and> ce_background c = DefaultColor \<and>
     ce_attributes c = attributes_default \<and> ce_hyperlink c = None"

section \<open>Validity\<close>

lemma cell_default_valid [simp]: "is_structurally_valid cell_default"
  by (simp add: is_structurally_valid_def cell_default_def MAX_CELL_TEXT_BYTES_def len_utf8_def)

lemma cell_reset_default [simp]: "cell_reset c = cell_default"
  by (simp add: cell_reset_def)

lemma cell_default_fields [simp]: "ce_width cell_default = Single" "ce_text cell_default = [32]"
  by (simp_all add: cell_default_def)

lemma blank_is_default: "is_semantically_blank c \<longleftrightarrow> c = cell_default"
  by (cases c) (auto simp: is_semantically_blank_def cell_default_def)

lemma set_text_valid:
  "is_structurally_valid c \<Longrightarrow> is_structurally_valid (snd (cell_set_text t width c))"
  by (auto simp: cell_set_text_def is_structurally_valid_def)

lemma append_combining_valid:
  "is_structurally_valid c \<Longrightarrow> is_structurally_valid (snd (cell_append_combining ch c))"
  by (auto simp: cell_append_combining_def is_structurally_valid_def)

lemma append_combining_width [simp]: "ce_width (snd (cell_append_combining ch c)) = ce_width c"
  by (simp add: cell_append_combining_def)

text \<open>A single character always fits, as does the empty text of a continuation.\<close>

lemma set_text_character:
  "width \<noteq> Continuation \<Longrightarrow> cell_set_text [ch] width c = (Inr (), c\<lparr>ce_text := [ch], ce_width := width\<rparr>)"
  using len_utf8_le [of ch] by (simp add: cell_set_text_def MAX_CELL_TEXT_BYTES_def)

lemma set_text_continuation:
  "cell_set_text [] width c = (Inr (), c\<lparr>ce_text := [], ce_width := width\<rparr>)"
  by (simp add: cell_set_text_def)

end
