(* ===== verification/TerminalGrid.thy ===== *)
theory TerminalGrid imports TerminalCell BTreeMap "HOL-Library.Monad_Syntax" begin

text \<open>
  The terminal grid (\<open>strukt-terminal/src/grid.rs\<close>): two screens of cells, the cursor, the scrolling
  region and the scrollback. \<open>None\<close> is a panic: an index or a slice out of range, or a failed
  \<open>expect\<close>. The width of a character (\<open>unicode_width\<close>) is a parameter. A grid size is never zero in
  the code; the model keeps that in the invariant.
\<close>

section \<open>State\<close>

definition MAX_SCROLLBACK_ROWS :: nat where "MAX_SCROLLBACK_ROWS = 100000"

type_synonym row = "cell list"

record grid_size =
  gs_rows :: nat
  gs_columns :: nat

datatype grid_error = EmptyDimension | InvalidScrollRegion

definition grid_size_new :: "nat \<Rightarrow> nat \<Rightarrow> grid_error + grid_size" where
  "grid_size_new rows columns =
     (if rows = 0 \<or> columns = 0 then Inl EmptyDimension else Inr \<lparr>gs_rows = rows, gs_columns = columns\<rparr>)"

datatype erase_display = Below | Above | AllRows

datatype erase_line = ToRight | ToLeft | AllColumns

record terminal_modes =
  tm_application_cursor_keys :: bool
  tm_bracketed_paste :: bool
  tm_focus_reporting :: bool
  tm_mouse_reporting :: bool

definition modes_default :: terminal_modes where
  "modes_default = \<lparr>tm_application_cursor_keys = False, tm_bracketed_paste = False, tm_focus_reporting = False,
     tm_mouse_reporting = False\<rparr>"

record cursor =
  cu_row :: nat
  cu_column :: nat
  cu_visible :: bool

datatype active_screen = Primary | Alternate

record screen =
  sn_rows :: "row list"
  sn_cursor :: cursor
  sn_wrap_pending :: bool
  sn_scroll_top :: nat
  sn_scroll_bottom :: nat
  sn_saved_cursor :: "cursor option"

record terminal_snapshot =
  ts_rows :: "row list"
  ts_cursor :: cursor
  ts_revision :: u64
  ts_viewport_offset :: nat
  ts_title :: "rust_string option"
  ts_modes :: terminal_modes
  ts_hyperlink_targets :: "(hyperlink_id, rust_string) btree"

record grid =
  gr_size :: grid_size
  gr_primary :: screen
  gr_alternate :: screen
  gr_active :: active_screen
  gr_scrollback :: "row list"
  gr_scrollback_limit :: nat
  gr_revision :: u64

section \<open>Rows\<close>

definition blank_row :: "nat \<Rightarrow> row" where
  "blank_row columns = replicate columns cell_default"

definition blank_rows :: "grid_size \<Rightarrow> row list" where
  "blank_rows sz = replicate (gs_rows sz) (blank_row (gs_columns sz))"

text \<open>The body of the loop of \<open>repair_row\<close>, at one column.\<close>

definition repair_column :: "nat \<Rightarrow> row \<Rightarrow> row" where
  "repair_column column row =
     (case ce_width (row ! column) of
        Wide \<Rightarrow>
          if map_option ce_width (nth_opt row (column + 1)) \<noteq> Some Continuation
          then row[column := cell_reset (row ! column)] else row
      | Continuation \<Rightarrow>
          if column = 0 \<or> ce_width (row ! (column - 1)) \<noteq> Wide
          then row[column := cell_reset (row ! column)] else row
      | Single \<Rightarrow> row)"

definition repair_row :: "row \<Rightarrow> row" where
  "repair_row row = fold repair_column [0..<length row] row"

definition erase_range :: "row \<Rightarrow> nat \<Rightarrow> nat \<Rightarrow> row option" where
  "erase_range row start finish =
     (if start \<le> finish \<and> finish \<le> length row
      then Some (repair_row (take start row @ map cell_reset (drop start (take finish row)) @ drop finish row))
      else None)"

text \<open>\<open>Vec::resize\<close> and \<open>Vec::resize_with\<close>.\<close>

definition vec_resize :: "nat \<Rightarrow> 'a \<Rightarrow> 'a list \<Rightarrow> 'a list" where
  "vec_resize n x xs = take n xs @ replicate (n - length xs) x"

definition resize_row :: "nat \<Rightarrow> row \<Rightarrow> row" where
  "resize_row columns row = repair_row (take columns (vec_resize columns cell_default row))"

text \<open>\<open>Vec::remove\<close>, \<open>Vec::insert\<close> and a write at an index, which panic out of range.\<close>

definition vec_remove :: "nat \<Rightarrow> 'a list \<Rightarrow> ('a \<times> 'a list) option" where
  "vec_remove i xs = (if i < length xs then Some (xs ! i, remove_at i xs) else None)"

definition vec_insert :: "nat \<Rightarrow> 'a \<Rightarrow> 'a list \<Rightarrow> 'a list option" where
  "vec_insert i x xs = (if i \<le> length xs then Some (take i xs @ x # drop i xs) else None)"

definition vec_set :: "nat \<Rightarrow> 'a \<Rightarrow> 'a list \<Rightarrow> 'a list option" where
  "vec_set i x xs = (if i < length xs then Some (xs[i := x]) else None)"

definition cell_at :: "row list \<Rightarrow> nat \<Rightarrow> nat \<Rightarrow> cell option" where
  "cell_at rows row column = do { r \<leftarrow> nth_opt rows row; nth_opt r column }"

definition put_cell :: "nat \<Rightarrow> nat \<Rightarrow> cell \<Rightarrow> row list \<Rightarrow> row list option" where
  "put_cell row column c rows = do {
     r \<leftarrow> nth_opt rows row;
     r \<leftarrow> vec_set column c r;
     vec_set row r rows
   }"

text \<open>\<open>set_text(..).expect(..)\<close>.\<close>

definition expect_text :: "rust_string \<Rightarrow> cell_width \<Rightarrow> cell \<Rightarrow> cell option" where
  "expect_text t width c = (case cell_set_text t width c of (Inl _, _) \<Rightarrow> None | (Inr _, c) \<Rightarrow> Some c)"

section \<open>Resizing a screen\<close>

definition REPLACEMENT :: scalar where "REPLACEMENT = 65533"

text \<open>
  The inner loop of \<open>reflow_rows\<close> over the cells of one source row, continuations left out. \<open>Inl\<close> is
  the early return with the rows filled so far.
\<close>

fun reflow_cells ::
  "grid_size \<Rightarrow> cell list \<Rightarrow> row list \<Rightarrow> nat \<Rightarrow> nat \<Rightarrow> (row list + row list \<times> nat) option" where
  "reflow_cells sz [] destination destination_row destination_column = Some (Inr (destination, destination_row))"
| "reflow_cells sz (c # cs) destination destination_row destination_column =
     (let cell_width = (if ce_width c = Wide \<and> gs_columns sz > 1 then 2 else 1);
          wraps = destination_column + cell_width > gs_columns sz;
          r = (if wraps then destination_row + 1 else destination_row);
          k = (if wraps then 0 else destination_column)
      in
        if r \<ge> gs_rows sz then Some (Inl destination)
        else if ce_width c = Wide \<and> gs_columns sz = 1 then do {
          target \<leftarrow> cell_at destination r k;
          target \<leftarrow> expect_text [REPLACEMENT] Single target;
          destination \<leftarrow> put_cell r k target destination;
          reflow_cells sz cs destination r (k + cell_width)
        }
        else if cell_width = 2 then do {
          destination \<leftarrow> put_cell r k c destination;
          target \<leftarrow> cell_at destination r (k + 1);
          target \<leftarrow> expect_text [] Continuation target;
          destination \<leftarrow> put_cell r (k + 1) target destination;
          reflow_cells sz cs destination r (k + cell_width)
        }
        else do {
          destination \<leftarrow> put_cell r k c destination;
          reflow_cells sz cs destination r (k + cell_width)
        })"

definition content_end :: "row \<Rightarrow> nat" where
  "content_end row =
     (case position (\<lambda>c. \<not> is_semantically_blank c) (rev row) of None \<Rightarrow> 0 | Some i \<Rightarrow> length row - i)"

fun reflow_loop :: "grid_size \<Rightarrow> row list \<Rightarrow> row list \<Rightarrow> nat \<Rightarrow> row list option" where
  "reflow_loop sz [] destination destination_row = Some destination"
| "reflow_loop sz (source_row # rest) destination destination_row = do {
     r \<leftarrow> reflow_cells sz
       (filter (\<lambda>c. ce_width c \<noteq> Continuation) (take (content_end source_row) source_row))
       destination destination_row 0;
     (case r of
        Inl destination \<Rightarrow> Some destination
      | Inr (destination, destination_row) \<Rightarrow>
          if destination_row + 1 \<ge> gs_rows sz then Some destination
          else reflow_loop sz rest destination (destination_row + 1))
   }"

definition reflow_rows :: "row list \<Rightarrow> grid_size \<Rightarrow> row list option" where
  "reflow_rows source sz = reflow_loop sz source (blank_rows sz) 0"

definition resize_screen :: "grid_size \<Rightarrow> screen \<Rightarrow> screen option" where
  "resize_screen sz s =
     (let old_columns = (case sn_rows s of [] \<Rightarrow> gs_columns sz | r # _ \<Rightarrow> length r) in do {
        rows \<leftarrow>
          if old_columns = gs_columns sz
          then Some (map (resize_row (gs_columns sz))
                 (vec_resize (gs_rows sz) (blank_row (gs_columns sz)) (sn_rows s)))
          else reflow_rows (sn_rows s) sz;
        Some (s\<lparr>sn_rows := rows,
          sn_cursor := (sn_cursor s)
            \<lparr>cu_row := min (cu_row (sn_cursor s)) (gs_rows sz - 1),
             cu_column := min (cu_column (sn_cursor s)) (gs_columns sz - 1)\<rparr>,
          sn_wrap_pending := False, sn_scroll_top := 0, sn_scroll_bottom := gs_rows sz - 1\<rparr>)
      })"

section \<open>The grid\<close>

definition screen_new :: "grid_size \<Rightarrow> screen" where
  "screen_new sz =
     \<lparr>sn_rows = blank_rows sz, sn_cursor = \<lparr>cu_row = 0, cu_column = 0, cu_visible = True\<rparr>,
      sn_wrap_pending = False, sn_scroll_top = 0, sn_scroll_bottom = gs_rows sz - 1, sn_saved_cursor = None\<rparr>"

definition grid_new :: "grid_size \<Rightarrow> nat \<Rightarrow> grid" where
  "grid_new sz scrollback_limit =
     \<lparr>gr_size = sz, gr_primary = screen_new sz, gr_alternate = screen_new sz, gr_active = Primary,
      gr_scrollback = [], gr_scrollback_limit = min scrollback_limit MAX_SCROLLBACK_ROWS, gr_revision = 0\<rparr>"

definition active_ref :: "grid \<Rightarrow> screen" where
  "active_ref g = (case gr_active g of Primary \<Rightarrow> gr_primary g | Alternate \<Rightarrow> gr_alternate g)"

text \<open>Writing through \<open>active_mut\<close>.\<close>

definition set_active :: "screen \<Rightarrow> grid \<Rightarrow> grid" where
  "set_active s g = (case gr_active g of Primary \<Rightarrow> g\<lparr>gr_primary := s\<rparr> | Alternate \<Rightarrow> g\<lparr>gr_alternate := s\<rparr>)"

definition grid_bump :: "grid \<Rightarrow> grid" where
  "grid_bump g = g\<lparr>gr_revision := sat_inc (gr_revision g)\<rparr>"

definition scrollback_len :: "grid \<Rightarrow> nat" where
  "scrollback_len g = length (gr_scrollback g)"

definition enter_alternate_screen :: "grid \<Rightarrow> grid" where
  "enter_alternate_screen g = grid_bump (g\<lparr>gr_alternate := screen_new (gr_size g), gr_active := Alternate\<rparr>)"

definition leave_alternate_screen :: "grid \<Rightarrow> grid" where
  "leave_alternate_screen g = grid_bump (g\<lparr>gr_active := Primary\<rparr>)"

definition grid_snapshot :: "nat \<Rightarrow> grid \<Rightarrow> terminal_snapshot" where
  "grid_snapshot viewport_offset g =
     (let screen = active_ref g;
          maximum_offset = (if gr_active g = Primary then length (gr_scrollback g) else 0);
          viewport_offset = min viewport_offset maximum_offset;
          rows =
            (if viewport_offset = 0 then sn_rows screen
             else let combined = gr_scrollback g @ sn_rows screen;
                      finish = length combined - viewport_offset;
                      start = finish - gs_rows (gr_size g)
                  in drop start (take finish combined))
      in \<lparr>ts_rows = rows, ts_cursor = sn_cursor screen, ts_revision = gr_revision g,
          ts_viewport_offset = viewport_offset, ts_title = None, ts_modes = modes_default,
          ts_hyperlink_targets = bt_empty\<rparr>)"

definition set_cursor :: "nat \<Rightarrow> nat \<Rightarrow> grid \<Rightarrow> grid" where
  "set_cursor row column g =
     (let max_row = gs_rows (gr_size g) - 1; max_column = gs_columns (gr_size g) - 1; s = active_ref g
      in grid_bump (set_active
           (s\<lparr>sn_cursor := (sn_cursor s)\<lparr>cu_row := min row max_row, cu_column := min column max_column\<rparr>,
              sn_wrap_pending := False\<rparr>) g))"

definition grid_cursor :: "grid \<Rightarrow> cursor" where
  "grid_cursor g = sn_cursor (active_ref g)"

text \<open>\<open>usize::saturating_add_signed\<close>.\<close>

definition add_signed :: "nat \<Rightarrow> int \<Rightarrow> nat" where
  "add_signed n d = nat (min (max (int n + d) 0) (2 ^ 64 - 1))"

definition move_cursor :: "int \<Rightarrow> int \<Rightarrow> grid \<Rightarrow> grid" where
  "move_cursor row_delta column_delta g =
     (let c = grid_cursor g in
      set_cursor (add_signed (cu_row c) row_delta) (add_signed (cu_column c) column_delta) g)"

definition save_cursor :: "grid \<Rightarrow> grid" where
  "save_cursor g =
     (let s = active_ref g in set_active (s\<lparr>sn_saved_cursor := Some (sn_cursor s)\<rparr>) g)"

definition restore_cursor :: "grid \<Rightarrow> grid" where
  "restore_cursor g =
     (let s = active_ref g in
      case sn_saved_cursor s of
        Some c \<Rightarrow> grid_bump (set_active (s\<lparr>sn_cursor := c, sn_wrap_pending := False\<rparr>) g)
      | None \<Rightarrow> g)"

definition set_cursor_visible :: "bool \<Rightarrow> grid \<Rightarrow> grid" where
  "set_cursor_visible visible g =
     (let s = active_ref g in
      grid_bump (set_active (s\<lparr>sn_cursor := (sn_cursor s)\<lparr>cu_visible := visible\<rparr>\<rparr>) g))"

definition grid_resize :: "grid_size \<Rightarrow> grid \<Rightarrow> (bool \<times> grid) option" where
  "grid_resize sz g =
     (if sz = gr_size g then Some (False, g)
      else do {
        primary \<leftarrow> resize_screen sz (gr_primary g);
        alternate \<leftarrow> resize_screen sz (gr_alternate g);
        Some (True, grid_bump (g\<lparr>gr_primary := primary, gr_alternate := alternate,
          gr_scrollback := map (resize_row (gs_columns sz)) (gr_scrollback g), gr_size := sz\<rparr>))
      })"

definition set_scroll_region :: "nat \<Rightarrow> nat \<Rightarrow> grid \<Rightarrow> (grid_error + unit) \<times> grid" where
  "set_scroll_region upper lower g =
     (if upper > lower \<or> lower \<ge> gs_rows (gr_size g) then (Inl InvalidScrollRegion, g)
      else let s = active_ref g in
        (Inr (), grid_bump (set_active
          (s\<lparr>sn_scroll_top := upper, sn_scroll_bottom := lower,
             sn_cursor := (sn_cursor s)\<lparr>cu_row := upper, cu_column := 0\<rparr>, sn_wrap_pending := False\<rparr>) g)))"

section \<open>Erasing, inserting, deleting\<close>

text \<open>What the editing operations end with: the screen's new rows, no pending wrap, a new revision.\<close>

definition commit_rows :: "row list \<Rightarrow> grid \<Rightarrow> grid" where
  "commit_rows rows g = grid_bump (set_active ((active_ref g)\<lparr>sn_rows := rows, sn_wrap_pending := False\<rparr>) g)"

definition erase_in_display :: "erase_display \<Rightarrow> grid \<Rightarrow> grid option" where
  "erase_in_display mode g =
     (let columns = gs_columns (gr_size g);
          s = active_ref g; rows = sn_rows s;
          row = cu_row (sn_cursor s); column = cu_column (sn_cursor s)
      in do {
        rows \<leftarrow> (case mode of
            Below \<Rightarrow> do {
              r \<leftarrow> nth_opt rows row;
              r \<leftarrow> erase_range r column columns;
              Some (take row rows @ r # map (\<lambda>_. blank_row columns) (drop (row + 1) rows))
            }
          | Above \<Rightarrow> do {
              r \<leftarrow> nth_opt rows row;
              r \<leftarrow> erase_range r 0 (column + 1);
              Some (map (\<lambda>_. blank_row columns) (take row rows) @ r # drop (row + 1) rows)
            }
          | AllRows \<Rightarrow> Some (map (\<lambda>_. blank_row columns) rows));
        Some (commit_rows rows g)
      })"

definition erase_in_line :: "erase_line \<Rightarrow> grid \<Rightarrow> grid option" where
  "erase_in_line mode g =
     (let columns = gs_columns (gr_size g);
          s = active_ref g; row = cu_row (sn_cursor s); column = cu_column (sn_cursor s)
      in do {
        r \<leftarrow> nth_opt (sn_rows s) row;
        r \<leftarrow> (case mode of
            ToRight \<Rightarrow> erase_range r column columns
          | ToLeft \<Rightarrow> erase_range r 0 (column + 1)
          | AllColumns \<Rightarrow> erase_range r 0 columns);
        Some (commit_rows ((sn_rows s)[row := r]) g)
      })"

definition insert_blank_characters :: "nat \<Rightarrow> grid \<Rightarrow> grid option" where
  "insert_blank_characters count g =
     (let columns = gs_columns (gr_size g);
          s = active_ref g; row = cu_row (sn_cursor s); column = cu_column (sn_cursor s)
      in if column > columns then None else do {
        r \<leftarrow> nth_opt (sn_rows s) row;
        let count = min (max count 1) (columns - column);
        if column \<le> length r
        then Some (commit_rows ((sn_rows s)
          [row := repair_row (take columns (take column r @ replicate count cell_default @ drop column r))]) g)
        else None
      })"

definition delete_characters :: "nat \<Rightarrow> grid \<Rightarrow> grid option" where
  "delete_characters count g =
     (let columns = gs_columns (gr_size g);
          s = active_ref g; row = cu_row (sn_cursor s); column = cu_column (sn_cursor s)
      in if column > columns then None else do {
        r \<leftarrow> nth_opt (sn_rows s) row;
        let count = min (max count 1) (columns - column);
        if column + count \<le> length r
        then Some (commit_rows ((sn_rows s)
          [row := repair_row (take column r @ drop (column + count) r @ replicate count cell_default)]) g)
        else None
      })"

fun repeat_opt :: "nat \<Rightarrow> ('a \<Rightarrow> 'a option) \<Rightarrow> 'a \<Rightarrow> 'a option" where
  "repeat_opt 0 f x = Some x"
| "repeat_opt (Suc n) f x = Option.bind (f x) (repeat_opt n f)"

definition insert_blank_lines :: "nat \<Rightarrow> grid \<Rightarrow> grid option" where
  "insert_blank_lines count g =
     (let columns = gs_columns (gr_size g); s = active_ref g; row = cu_row (sn_cursor s) in
      if row < sn_scroll_top s \<or> row > sn_scroll_bottom s then Some g
      else do {
        rows \<leftarrow> repeat_opt (min (max count 1) (sn_scroll_bottom s - row + 1))
          (\<lambda>rows. do {
            rows \<leftarrow> vec_insert row (blank_row columns) rows;
            (_, rows) \<leftarrow> vec_remove (sn_scroll_bottom s + 1) rows;
            Some rows
          }) (sn_rows s);
        Some (commit_rows rows g)
      })"

definition delete_lines :: "nat \<Rightarrow> grid \<Rightarrow> grid option" where
  "delete_lines count g =
     (let columns = gs_columns (gr_size g); s = active_ref g; row = cu_row (sn_cursor s) in
      if row < sn_scroll_top s \<or> row > sn_scroll_bottom s then Some g
      else do {
        rows \<leftarrow> repeat_opt (min (max count 1) (sn_scroll_bottom s - row + 1))
          (\<lambda>rows. do {
            (_, rows) \<leftarrow> vec_remove row rows;
            vec_insert (sn_scroll_bottom s) (blank_row columns) rows
          }) (sn_rows s);
        Some (commit_rows rows g)
      })"

definition scroll_region_up_one :: "grid \<Rightarrow> grid option" where
  "scroll_region_up_one g =
     (let columns = gs_columns (gr_size g); s = active_ref g; upper = sn_scroll_top s; lower = sn_scroll_bottom s
      in do {
        (removed, rows) \<leftarrow> vec_remove upper (sn_rows s);
        rows \<leftarrow> vec_insert lower (blank_row columns) rows;
        let is_full_screen = (upper = 0 \<and> lower + 1 = length rows);
        let g' = set_active (s\<lparr>sn_rows := rows\<rparr>) g;
        Some (if gr_active g = Primary \<and> is_full_screen \<and> gr_scrollback_limit g > 0
              then g'\<lparr>gr_scrollback :=
                (if length (gr_scrollback g) = gr_scrollback_limit g then tl (gr_scrollback g) else gr_scrollback g)
                @ [removed]\<rparr>
              else g')
      })"

definition scroll_up :: "nat \<Rightarrow> grid \<Rightarrow> grid option" where
  "scroll_up ls g = map_option grid_bump (repeat_opt (max ls 1) scroll_region_up_one g)"

definition reverse_index :: "grid \<Rightarrow> grid option" where
  "reverse_index g =
     (let columns = gs_columns (gr_size g); s = active_ref g in
      if cu_row (sn_cursor s) = sn_scroll_top s
      then do {
        (_, rows) \<leftarrow> vec_remove (sn_scroll_bottom s) (sn_rows s);
        rows \<leftarrow> vec_insert (sn_scroll_top s) (blank_row columns) rows;
        Some (commit_rows rows g)
      }
      else Some (grid_bump (set_active
        (s\<lparr>sn_cursor := (sn_cursor s)\<lparr>cu_row := cu_row (sn_cursor s) - 1\<rparr>, sn_wrap_pending := False\<rparr>) g)))"

section \<open>Writing characters\<close>

definition carriage_return :: "grid \<Rightarrow> grid" where
  "carriage_return g =
     (let s = active_ref g in
      set_active (s\<lparr>sn_cursor := (sn_cursor s)\<lparr>cu_column := 0\<rparr>, sn_wrap_pending := False\<rparr>) g)"

definition line_feed :: "grid \<Rightarrow> grid option" where
  "line_feed g =
     (let row = cu_row (grid_cursor g); scroll_bottom = sn_scroll_bottom (active_ref g) in do {
        g \<leftarrow>
          if row = scroll_bottom then scroll_region_up_one g
          else if row < gs_rows (gr_size g) - 1
          then Some (set_active ((active_ref g)\<lparr>sn_cursor := (grid_cursor g)\<lparr>cu_row := row + 1\<rparr>\<rparr>) g)
          else Some g;
        Some (grid_bump (set_active ((active_ref g)\<lparr>sn_wrap_pending := False\<rparr>) g))
      })"

definition append_combining :: "scalar \<Rightarrow> grid \<Rightarrow> grid option" where
  "append_combining character g =
     (let s = active_ref g; row = cu_row (sn_cursor s);
          column = (if sn_wrap_pending s then cu_column (sn_cursor s) else cu_column (sn_cursor s) - 1)
      in do {
        c \<leftarrow> cell_at (sn_rows s) row column;
        let target = (if ce_width c = Continuation then column - 1 else column);
        c \<leftarrow> cell_at (sn_rows s) row target;
        (case cell_append_combining character c of
           (Inr _, c) \<Rightarrow> do {
             rows \<leftarrow> put_cell row target c (sn_rows s);
             Some (grid_bump (set_active (s\<lparr>sn_rows := rows\<rparr>) g))
           }
         | (Inl _, _) \<Rightarrow> Some g)
      })"

definition styled :: "color \<Rightarrow> color \<Rightarrow> cell_attributes \<Rightarrow> hyperlink_id option \<Rightarrow> cell \<Rightarrow> cell" where
  "styled foreground background attributes hyperlink c =
     c\<lparr>ce_foreground := foreground, ce_background := background, ce_attributes := attributes,
       ce_hyperlink := hyperlink\<rparr>"

definition write_character ::
  "(scalar \<Rightarrow> nat option) \<Rightarrow> scalar \<Rightarrow> color \<Rightarrow> color \<Rightarrow> cell_attributes \<Rightarrow> hyperlink_id option \<Rightarrow> grid \<Rightarrow> grid option"
where
  "write_character char_width character foreground background attributes hyperlink g =
     (let width = min (case char_width character of Some n \<Rightarrow> n | None \<Rightarrow> 0) 2;
          columns = gs_columns (gr_size g)
      in
        if width = 0 then append_combining character g
        else do {
          g \<leftarrow>
            if sn_wrap_pending (active_ref g) \<or> (width = 2 \<and> cu_column (grid_cursor g) + width > columns)
            then line_feed (carriage_return g) else Some g;
          let width = (if width = 2 \<and> columns = 1 then 1 else width);
          let row = cu_row (grid_cursor g);
          let column = cu_column (grid_cursor g);
          let cell_width = (if width = 2 then Wide else Single);
          let rendered = (if width = 1 \<and> char_width character = Some 2 then REPLACEMENT else character);
          let s = active_ref g;
          c \<leftarrow> cell_at (sn_rows s) row column;
          c \<leftarrow> expect_text [rendered] cell_width c;
          rows \<leftarrow> put_cell row column (styled foreground background attributes hyperlink c) (sn_rows s);
          rows \<leftarrow>
            if width = 2 then do {
              c \<leftarrow> cell_at rows row (column + 1);
              c \<leftarrow> expect_text [] Continuation c;
              put_cell row (column + 1) (styled foreground background attributes hyperlink c) rows
            } else Some rows;
          let next_column = column + width;
          let s = s\<lparr>sn_rows := rows,
            sn_cursor := (sn_cursor s)\<lparr>cu_column := (if next_column = columns then columns - 1 else next_column)\<rparr>,
            sn_wrap_pending := (next_column = columns)\<rparr>;
          Some (grid_bump (set_active s g))
        })"

definition print_styled ::
  "(scalar \<Rightarrow> nat option) \<Rightarrow> scalar \<Rightarrow> color \<Rightarrow> color \<Rightarrow> cell_attributes \<Rightarrow> hyperlink_id option \<Rightarrow> grid \<Rightarrow> grid option"
where
  "print_styled = write_character"

text \<open>The body of the loop of \<open>print\<close>, for one character.\<close>

definition print_character :: "(scalar \<Rightarrow> nat option) \<Rightarrow> scalar \<Rightarrow> grid \<Rightarrow> grid option" where
  "print_character char_width character g =
     (let s = active_ref g;
          plain = (\<lambda>c. write_character char_width c DefaultColor DefaultColor attributes_default None)
      in
        if character = 13 then Some (carriage_return g)
        else if character = 10 then line_feed g
        else if character = 8 then Some (set_active
          (s\<lparr>sn_cursor := (sn_cursor s)\<lparr>cu_column := cu_column (sn_cursor s) - 1\<rparr>, sn_wrap_pending := False\<rparr>) g)
        else if character = 9 then repeat_opt (8 - cu_column (sn_cursor s) mod 8) (plain 32) g
        else plain character g)"

fun grid_print :: "(scalar \<Rightarrow> nat option) \<Rightarrow> rust_string \<Rightarrow> grid \<Rightarrow> grid option" where
  "grid_print char_width [] g = Some g"
| "grid_print char_width (c # cs) g = Option.bind (print_character char_width c g) (grid_print char_width cs)"

end
