(* ===== verification/TerminalScreen.thy ===== *)
theory TerminalScreen imports TerminalGrid begin

text \<open>
  The invariant of the terminal grid and the proof that its operations keep it and never panic:
  every row has the width of the grid, every cell is valid, the cursor and the scrolling region are
  inside the grid and the scrollback is within its limit. Saved cursors are the exception: resizing
  does not move them.
\<close>

section \<open>The invariant\<close>

definition row_ok :: "nat \<Rightarrow> row \<Rightarrow> bool" where
  "row_ok columns r \<longleftrightarrow> length r = columns \<and> list_all is_structurally_valid r"

definition cursor_in :: "grid_size \<Rightarrow> cursor \<Rightarrow> bool" where
  "cursor_in sz c \<longleftrightarrow> cu_row c < gs_rows sz \<and> cu_column c < gs_columns sz"

definition screen_ok :: "grid_size \<Rightarrow> screen \<Rightarrow> bool" where
  "screen_ok sz s \<longleftrightarrow>
     length (sn_rows s) = gs_rows sz \<and> list_all (row_ok (gs_columns sz)) (sn_rows s) \<and>
     cursor_in sz (sn_cursor s) \<and> sn_scroll_top s \<le> sn_scroll_bottom s \<and> sn_scroll_bottom s < gs_rows sz"

definition saved_in :: "grid_size \<Rightarrow> screen \<Rightarrow> bool" where
  "saved_in sz s \<longleftrightarrow> (case sn_saved_cursor s of None \<Rightarrow> True | Some c \<Rightarrow> cursor_in sz c)"

definition grid_ok :: "grid \<Rightarrow> bool" where
  "grid_ok g \<longleftrightarrow>
     0 < gs_rows (gr_size g) \<and> 0 < gs_columns (gr_size g) \<and>
     screen_ok (gr_size g) (gr_primary g) \<and> screen_ok (gr_size g) (gr_alternate g) \<and>
     list_all (row_ok (gs_columns (gr_size g))) (gr_scrollback g) \<and>
     length (gr_scrollback g) \<le> gr_scrollback_limit g \<and> gr_scrollback_limit g \<le> MAX_SCROLLBACK_ROWS"

definition saved_ok :: "grid \<Rightarrow> bool" where
  "saved_ok g \<longleftrightarrow> saved_in (gr_size g) (gr_primary g) \<and> saved_in (gr_size g) (gr_alternate g)"

text \<open>An operation that keeps the size of the grid, the invariant and the place of saved cursors.\<close>

definition keeps_grid :: "grid \<Rightarrow> grid \<Rightarrow> bool" where
  "keeps_grid g g' \<longleftrightarrow> grid_ok g' \<and> gr_size g' = gr_size g \<and> (saved_ok g \<longrightarrow> saved_ok g')"

definition runs :: "grid \<Rightarrow> grid option \<Rightarrow> bool" where
  "runs g m \<longleftrightarrow> (\<exists>g'. m = Some g' \<and> keeps_grid g g')"

lemma runs_Some [simp]: "runs g (Some g') \<longleftrightarrow> keeps_grid g g'"
  by (simp add: runs_def)

lemma keeps_grid_trans: "keeps_grid g h \<Longrightarrow> keeps_grid h k \<Longrightarrow> keeps_grid g k"
  by (simp add: keeps_grid_def)

lemma runs_bind: "runs g m \<Longrightarrow> (\<And>h. keeps_grid g h \<Longrightarrow> runs h (f h)) \<Longrightarrow> runs g (Option.bind m f)"
  by (fastforce simp: runs_def intro: keeps_grid_trans)

lemma runs_map: "runs g m \<Longrightarrow> (\<And>h. keeps_grid g h \<Longrightarrow> keeps_grid h (f h)) \<Longrightarrow> runs g (map_option f m)"
  by (auto simp: runs_def intro: keeps_grid_trans)

lemma keeps_grid_ok: "keeps_grid g g' \<Longrightarrow> grid_ok g'"
  by (simp add: keeps_grid_def)

lemma keeps_refl: "grid_ok g \<Longrightarrow> keeps_grid g g"
  by (simp add: keeps_grid_def)

section \<open>Rows\<close>

lemma repair_column_length [simp]: "length (repair_column k row) = length row"
  by (simp add: repair_column_def split: cell_width.split)

lemma fold_repair_length [simp]: "length (fold repair_column ks row) = length row"
  by (induction ks arbitrary: row) simp_all

lemma repair_row_length [simp]: "length (repair_row row) = length row"
  by (simp add: repair_row_def)

lemma list_all_update: "list_all P xs \<Longrightarrow> P x \<Longrightarrow> list_all P (xs[i := x])"
  by (metis list_all_iff set_update_subset_insert insertE subsetD)

lemma repair_column_valid: "list_all is_structurally_valid row \<Longrightarrow> list_all is_structurally_valid (repair_column k row)"
  by (simp add: repair_column_def list_all_update split: cell_width.split)

lemma repair_row_valid: "list_all is_structurally_valid row \<Longrightarrow> list_all is_structurally_valid (repair_row row)"
proof -
  have "list_all is_structurally_valid row \<Longrightarrow> list_all is_structurally_valid (fold repair_column ks row)" for ks
    by (induction ks arbitrary: row) (simp_all add: repair_column_valid)
  then show "list_all is_structurally_valid row \<Longrightarrow> ?thesis" by (simp add: repair_row_def)
qed

lemma row_ok_repair: "row_ok n r \<Longrightarrow> row_ok n (repair_row r)"
  by (simp add: row_ok_def repair_row_valid)

lemma blank_row_ok [simp]: "row_ok n (blank_row n)"
  by (simp add: row_ok_def blank_row_def list_all_iff)

lemma list_all_take_drop: "list_all P xs \<Longrightarrow> list_all P (take n xs)" "list_all P xs \<Longrightarrow> list_all P (drop n xs)"
  by (auto simp: list_all_iff dest: in_set_takeD in_set_dropD)

lemma row_ok_erase:
  assumes "row_ok n r" "a \<le> b" "b \<le> n"
  shows "\<exists>r'. erase_range r a b = Some r' \<and> row_ok n r'"
proof -
  have "row_ok n (take a r @ map cell_reset (drop a (take b r)) @ drop b r)"
    using assms by (auto simp: row_ok_def list_all_take_drop list_all_iff dest: in_set_takeD in_set_dropD)
  then show ?thesis using assms by (simp add: erase_range_def row_ok_def row_ok_repair repair_row_valid)
qed

lemma row_ok_resize: "list_all is_structurally_valid r \<Longrightarrow> row_ok n (resize_row n r)"
  unfolding resize_row_def
  by (rule row_ok_repair) (auto simp: row_ok_def vec_resize_def list_all_iff dest: in_set_takeD)

text \<open>A repaired row pairs every wide cell with a continuation, and the other way round.\<close>

definition paired_to :: "nat \<Rightarrow> row \<Rightarrow> bool" where
  "paired_to n row \<longleftrightarrow> (\<forall>k < n. k < length row \<longrightarrow>
     (ce_width (row ! k) = Wide \<longrightarrow> Suc k < length row \<and> ce_width (row ! Suc k) = Continuation) \<and>
     (ce_width (row ! k) = Continuation \<longrightarrow> 0 < k \<and> ce_width (row ! (k - 1)) = Wide))"

definition row_paired :: "row \<Rightarrow> bool" where
  "row_paired row \<longleftrightarrow> paired_to (length row) row"

lemma repair_column_cases:
  assumes "k < length row"
  obtains
    (kept) "repair_column k row = row"
      "ce_width (row ! k) = Wide \<longrightarrow> Suc k < length row \<and> ce_width (row ! Suc k) = Continuation"
      "ce_width (row ! k) = Continuation \<longrightarrow> 0 < k \<and> ce_width (row ! (k - 1)) = Wide"
  | (wide_reset) "repair_column k row = row[k := cell_default]" "ce_width (row ! k) = Wide"
  | (continuation_reset) "repair_column k row = row[k := cell_default]" "ce_width (row ! k) = Continuation"
      "0 < k \<longrightarrow> ce_width (row ! (k - 1)) \<noteq> Wide"
proof (cases "ce_width (row ! k)")
  case Single
  then show thesis by (intro kept) (simp_all add: repair_column_def)
next
  case Wide
  then show thesis
    using kept wide_reset
    by (cases "Suc k < length row \<and> ce_width (row ! Suc k) = Continuation") (auto simp: repair_column_def nth_opt_def)
next
  case Continuation
  then show thesis
    using kept continuation_reset
    by (cases "k = 0 \<or> ce_width (row ! (k - 1)) \<noteq> Wide") (auto simp: repair_column_def)
qed

lemma repair_column_paired:
  assumes p: "paired_to k row" and k: "k < length row"
  shows "paired_to (Suc k) (repair_column k row)"
  using k
proof (cases rule: repair_column_cases)
  case kept
  with p show ?thesis by (auto simp: paired_to_def less_Suc_eq)
next
  case wide_reset
  then have n: "ce_width (row ! k) \<noteq> Continuation" by simp
  have "ce_width (row ! j) = Wide \<longrightarrow> Suc j < length row \<and> Suc j \<noteq> k \<and> ce_width (row ! Suc j) = Continuation"
    if "j < k" for j using that p k n by (auto simp: paired_to_def)
  with p k wide_reset show ?thesis
    by (auto simp: paired_to_def less_Suc_eq nth_list_update)
next
  case continuation_reset
  have "ce_width (row ! j) = Wide \<longrightarrow> Suc j < length row \<and> Suc j \<noteq> k \<and> ce_width (row ! Suc j) = Continuation"
    if "j < k" for j using that p k continuation_reset(3) by (auto simp: paired_to_def)
  with p k continuation_reset show ?thesis
    by (auto simp: paired_to_def less_Suc_eq nth_list_update)
qed

lemma repair_row_paired: "row_paired (repair_row row)"
proof -
  have "n \<le> length row \<Longrightarrow> paired_to n (fold repair_column [0..<n] row)" for n
  proof (induction n)
    case 0
    then show ?case by (simp add: paired_to_def)
  next
    case (Suc n)
    then show ?case using repair_column_paired [of n "fold repair_column [0..<n] row"] by simp
  qed
  then show ?thesis by (simp add: row_paired_def repair_row_def)
qed

section \<open>Screens\<close>

lemma list_all_nth_opt: "list_all P xs \<Longrightarrow> i < length xs \<Longrightarrow> \<exists>x. nth_opt xs i = Some x \<and> P x"
  by (auto simp: nth_opt_def list_all_iff)

lemma vec_remove_insert:
  assumes "list_all P xs" "P x" "i < length xs" "j < length xs"
  shows "\<exists>y ys zs. vec_remove i xs = Some (y, ys) \<and> vec_insert j x ys = Some zs \<and> length zs = length xs \<and>
    list_all P zs \<and> P y"
  using assms
  by (auto simp: vec_remove_def vec_insert_def remove_at_def list_all_iff
      dest: in_set_takeD in_set_dropD)

lemma vec_insert_remove:
  assumes "list_all P xs" "P x" "i < length xs" "j < length xs"
  shows "\<exists>y ys zs. vec_insert i x xs = Some ys \<and> vec_remove (j + 1) ys = Some (y, zs) \<and> length zs = length xs \<and>
    list_all P zs"
proof -
  have "list_all P (take i xs @ x # drop i xs)"
    using assms by (auto simp: list_all_iff dest: in_set_takeD in_set_dropD)
  with assms show ?thesis
    by (auto simp: vec_remove_def vec_insert_def remove_at_def list_all_take_drop)
qed

lemma repeat_opt_keeps:
  assumes "\<And>x. P x \<Longrightarrow> \<exists>y. f x = Some y \<and> P y" "P x"
  shows "\<exists>y. repeat_opt n f x = Some y \<and> P y"
  using assms(2)
proof (induction n arbitrary: x)
  case 0
  then show ?case by simp
next
  case (Suc n)
  obtain y where "f x = Some y" "P y" using assms(1) [OF Suc.prems] by blast
  with Suc.IH [of y] show ?case by simp
qed

lemma screen_ok_new: "0 < gs_rows sz \<Longrightarrow> 0 < gs_columns sz \<Longrightarrow> screen_ok sz (screen_new sz)"
  by (simp add: screen_ok_def screen_new_def blank_rows_def cursor_in_def list_all_iff)

lemma saved_in_new [simp]: "saved_in sz (screen_new sz)"
  by (simp add: saved_in_def screen_new_def)

lemma active_ok: "grid_ok g \<Longrightarrow> screen_ok (gr_size g) (active_ref g)"
  by (simp add: grid_ok_def active_ref_def split: active_screen.split)

lemma active_saved: "saved_ok g \<Longrightarrow> saved_in (gr_size g) (active_ref g)"
  by (simp add: saved_ok_def active_ref_def split: active_screen.split)

lemma bump_simps [simp]: "grid_ok (grid_bump g) = grid_ok g" "gr_size (grid_bump g) = gr_size g"
  "saved_ok (grid_bump g) = saved_ok g" "active_ref (grid_bump g) = active_ref g"
  by (simp_all add: grid_ok_def grid_bump_def saved_ok_def active_ref_def split: active_screen.split)

lemma set_active_simps [simp]: "gr_size (set_active s g) = gr_size g" "active_ref (set_active s g) = s"
  "gr_scrollback (set_active s g) = gr_scrollback g" "gr_scrollback_limit (set_active s g) = gr_scrollback_limit g"
  "gr_active (set_active s g) = gr_active g" "set_active t (set_active s g) = set_active t g"
  by (simp_all add: set_active_def active_ref_def split: active_screen.split)

lemma keeps_set_active:
  assumes "grid_ok g" "screen_ok (gr_size g) s" "saved_in (gr_size g) (active_ref g) \<longrightarrow> saved_in (gr_size g) s"
  shows "keeps_grid g (set_active s g)"
  using assms
  by (cases "gr_active g")
    (auto simp: keeps_grid_def grid_ok_def saved_ok_def set_active_def active_ref_def)

lemma keeps_bump: "keeps_grid g (grid_bump h) = keeps_grid g h"
  by (simp add: keeps_grid_def)

lemma keeps_commit:
  assumes "grid_ok g" "length rows = gs_rows (gr_size g)" "list_all (row_ok (gs_columns (gr_size g))) rows"
  shows "keeps_grid g (commit_rows rows g)"
  unfolding commit_rows_def keeps_bump
  using assms active_ok [OF assms(1)]
  by (intro keeps_set_active) (auto simp: screen_ok_def saved_in_def)

lemma active_row:
  assumes "grid_ok g"
  obtains r where "nth_opt (sn_rows (active_ref g)) (cu_row (sn_cursor (active_ref g))) = Some r"
    "row_ok (gs_columns (gr_size g)) r"
proof -
  have "\<exists>r. nth_opt (sn_rows (active_ref g)) (cu_row (sn_cursor (active_ref g))) = Some r \<and>
      row_ok (gs_columns (gr_size g)) r"
    using active_ok [OF assms] by (intro list_all_nth_opt) (simp_all add: screen_ok_def cursor_in_def)
  with that show thesis by blast
qed

section \<open>Cursor and screen operations\<close>

lemma keeps_cursor:
  assumes "grid_ok g" "cursor_in (gr_size g) c"
  shows "keeps_grid g (set_active ((active_ref g)\<lparr>sn_cursor := c, sn_wrap_pending := w\<rparr>) g)"
  using assms active_ok [OF assms(1)]
  by (intro keeps_set_active) (auto simp: screen_ok_def saved_in_def)

lemma active_cursor: "grid_ok g \<Longrightarrow> cursor_in (gr_size g) (sn_cursor (active_ref g))"
  using active_ok [of g] by (simp add: screen_ok_def)

lemma keeps_set_cursor: "grid_ok g \<Longrightarrow> keeps_grid g (set_cursor row column g)"
  unfolding set_cursor_def Let_def keeps_bump
  by (rule keeps_cursor) (auto simp: cursor_in_def grid_ok_def)

lemma keeps_move_cursor: "grid_ok g \<Longrightarrow> keeps_grid g (move_cursor a b g)"
  by (simp add: move_cursor_def Let_def keeps_set_cursor)

lemma keeps_save_cursor: "grid_ok g \<Longrightarrow> keeps_grid g (save_cursor g)"
  unfolding save_cursor_def Let_def
  using active_ok [of g] active_cursor [of g]
  by (intro keeps_set_active) (auto simp: screen_ok_def saved_in_def)

lemma keeps_restore_cursor: "grid_ok g \<Longrightarrow> saved_ok g \<Longrightarrow> keeps_grid g (restore_cursor g)"
  using active_saved [of g]
  by (auto simp: restore_cursor_def Let_def keeps_bump saved_in_def keeps_refl intro!: keeps_cursor split: option.splits)

lemma keeps_set_cursor_visible: "grid_ok g \<Longrightarrow> keeps_grid g (set_cursor_visible v g)"
  unfolding set_cursor_visible_def Let_def keeps_bump
  using active_ok [of g]
  by (intro keeps_set_active) (auto simp: screen_ok_def saved_in_def cursor_in_def)

lemma keeps_enter_alternate: "grid_ok g \<Longrightarrow> keeps_grid g (enter_alternate_screen g)"
  by (simp add: enter_alternate_screen_def keeps_bump)
    (auto simp: keeps_grid_def grid_ok_def screen_ok_new saved_ok_def)

lemma keeps_leave_alternate: "grid_ok g \<Longrightarrow> keeps_grid g (leave_alternate_screen g)"
  by (simp add: leave_alternate_screen_def keeps_bump) (auto simp: keeps_grid_def grid_ok_def saved_ok_def)

lemma keeps_scroll_region: "grid_ok g \<Longrightarrow> keeps_grid g (snd (set_scroll_region a b g))"
  using active_ok [of g]
  by (auto simp: set_scroll_region_def Let_def keeps_bump keeps_refl screen_ok_def saved_in_def cursor_in_def grid_ok_def
      intro!: keeps_set_active)

section \<open>Editing operations\<close>

lemma active_rows:
  "grid_ok g \<Longrightarrow> length (sn_rows (active_ref g)) = gs_rows (gr_size g) \<and>
     list_all (row_ok (gs_columns (gr_size g))) (sn_rows (active_ref g))"
  using active_ok [of g] by (simp add: screen_ok_def)

lemma runs_row:
  assumes "grid_ok g" "row_ok (gs_columns (gr_size g)) r"
  shows "keeps_grid g (commit_rows ((sn_rows (active_ref g))[i := r]) g)"
  using assms active_rows [OF assms(1)] by (intro keeps_commit) (auto simp: list_all_update)

lemma runs_erase_in_line: "grid_ok g \<Longrightarrow> runs g (erase_in_line mode g)"
proof -
  assume g: "grid_ok g"
  then obtain r where r: "nth_opt (sn_rows (active_ref g)) (cu_row (sn_cursor (active_ref g))) = Some r"
    "row_ok (gs_columns (gr_size g)) r" by (rule active_row)
  have c: "cu_column (sn_cursor (active_ref g)) < gs_columns (gr_size g)"
    using active_cursor [OF g] by (simp add: cursor_in_def)
  note e = row_ok_erase [OF r(2)]
  show ?thesis
    using e [of "cu_column (sn_cursor (active_ref g))" "gs_columns (gr_size g)"]
      e [of 0 "cu_column (sn_cursor (active_ref g)) + 1"] e [of 0 "gs_columns (gr_size g)"] c r(1)
    by (auto simp: erase_in_line_def Let_def runs_row [OF g] split: erase_line.split)
qed

lemma runs_erase_in_display: "grid_ok g \<Longrightarrow> runs g (erase_in_display mode g)"
proof -
  assume g: "grid_ok g"
  let ?rows = "sn_rows (active_ref g)" and ?n = "gs_columns (gr_size g)"
  let ?i = "cu_row (sn_cursor (active_ref g))" and ?k = "cu_column (sn_cursor (active_ref g))"
  obtain r where r: "nth_opt ?rows ?i = Some r" "row_ok ?n r" using g by (rule active_row)
  have c: "?k < ?n" "?i < gs_rows (gr_size g)" using active_cursor [OF g] by (simp_all add: cursor_in_def)
  note rows = active_rows [OF g]
  obtain r1 where r1: "erase_range r ?k ?n = Some r1" "row_ok ?n r1"
    using row_ok_erase [OF r(2), of ?k ?n] c by auto
  obtain r2 where r2: "erase_range r 0 (?k + 1) = Some r2" "row_ok ?n r2"
    using row_ok_erase [OF r(2), of 0 "?k + 1"] c by auto
  have blank: "list_all (row_ok ?n) (map (\<lambda>_. blank_row ?n) xs)" for xs :: "row list"
    by (simp add: list_all_iff)
  show ?thesis
  proof (cases mode)
    case Below
    have "keeps_grid g (commit_rows (take ?i ?rows @ r1 # map (\<lambda>_. blank_row ?n) (drop (?i + 1) ?rows)) g)"
      using rows r1(2) c blank by (intro keeps_commit [OF g]) (auto simp: list_all_take_drop)
    with Below r r1 show ?thesis by (simp add: erase_in_display_def Let_def)
  next
    case Above
    have "keeps_grid g (commit_rows (map (\<lambda>_. blank_row ?n) (take ?i ?rows) @ r2 # drop (?i + 1) ?rows) g)"
      using rows r2(2) c blank by (intro keeps_commit [OF g]) (auto simp: list_all_take_drop)
    with Above r r2 show ?thesis by (simp add: erase_in_display_def Let_def)
  next
    case AllRows
    have "keeps_grid g (commit_rows (map (\<lambda>_. blank_row ?n) ?rows) g)"
      using rows blank by (intro keeps_commit [OF g]) auto
    with AllRows show ?thesis by (simp add: erase_in_display_def Let_def)
  qed
qed

lemma runs_insert_blank_characters: "grid_ok g \<Longrightarrow> runs g (insert_blank_characters count g)"
proof -
  assume g: "grid_ok g"
  obtain r where r: "nth_opt (sn_rows (active_ref g)) (cu_row (sn_cursor (active_ref g))) = Some r"
    "row_ok (gs_columns (gr_size g)) r" using g by (rule active_row)
  let ?k = "cu_column (sn_cursor (active_ref g))" and ?n = "gs_columns (gr_size g)"
  have c: "?k < ?n" using active_cursor [OF g] by (simp add: cursor_in_def)
  have "row_ok ?n (repair_row (take ?n (take ?k r @ replicate m cell_default @ drop ?k r)))" for m
    using r(2) c by (intro row_ok_repair) (auto simp: row_ok_def list_all_iff dest!: in_set_takeD in_set_dropD)
  note ok = runs_row [OF g this [of "min (max count 1) (?n - ?k)"]]
  have "insert_blank_characters count g = Some (commit_rows ((sn_rows (active_ref g))
      [cu_row (sn_cursor (active_ref g)) := repair_row (take ?n (take ?k r @
        replicate (min (max count 1) (?n - ?k)) cell_default @ drop ?k r))]) g)"
    using r c by (simp add: insert_blank_characters_def Let_def row_ok_def)
  with ok show ?thesis by simp
qed

lemma runs_delete_characters: "grid_ok g \<Longrightarrow> runs g (delete_characters count g)"
proof -
  assume g: "grid_ok g"
  obtain r where r: "nth_opt (sn_rows (active_ref g)) (cu_row (sn_cursor (active_ref g))) = Some r"
    "row_ok (gs_columns (gr_size g)) r" using g by (rule active_row)
  let ?k = "cu_column (sn_cursor (active_ref g))" and ?n = "gs_columns (gr_size g)"
  let ?m = "min (max count 1) (?n - ?k)"
  have c: "?k < ?n" using active_cursor [OF g] by (simp add: cursor_in_def)
  have m: "?k + ?m \<le> ?n" using c by simp
  have "row_ok ?n (repair_row (take ?k r @ drop (?k + ?m) r @ replicate ?m cell_default))"
    using r(2) c m by (intro row_ok_repair) (auto simp: row_ok_def list_all_iff dest!: in_set_takeD in_set_dropD)
  note ok = runs_row [OF g this]
  have "delete_characters count g = Some (commit_rows ((sn_rows (active_ref g))
      [cu_row (sn_cursor (active_ref g)) := repair_row (take ?k r @ drop (?k + ?m) r @ replicate ?m cell_default)]) g)"
    using r c m by (simp add: delete_characters_def Let_def row_ok_def)
  with ok show ?thesis by simp
qed

section \<open>Lines\<close>

lemma runs_insert_blank_lines: "grid_ok g \<Longrightarrow> runs g (insert_blank_lines count g)"
proof -
  assume g: "grid_ok g"
  let ?s = "active_ref g" and ?n = "gs_columns (gr_size g)"
  let ?row = "cu_row (sn_cursor ?s)"
  let ?step = "\<lambda>rows. do {
      rows \<leftarrow> vec_insert ?row (blank_row ?n) rows;
      (_, rows) \<leftarrow> vec_remove (sn_scroll_bottom ?s + 1) rows;
      Some rows
    }"
  have s: "?row < gs_rows (gr_size g)" "sn_scroll_bottom ?s < gs_rows (gr_size g)"
    using active_ok [OF g] by (simp_all add: screen_ok_def cursor_in_def)
  let ?P = "\<lambda>rows. length rows = gs_rows (gr_size g) \<and> list_all (row_ok ?n) rows"
  have "\<exists>ys. ?step xs = Some ys \<and> ?P ys" if xs: "?P xs" for xs
  proof -
    obtain y ys zs where "vec_insert ?row (blank_row ?n) xs = Some ys"
      "vec_remove (sn_scroll_bottom ?s + 1) ys = Some (y, zs)" "length zs = length xs" "list_all (row_ok ?n) zs"
      using vec_insert_remove [of "row_ok ?n" xs "blank_row ?n" ?row "sn_scroll_bottom ?s"] xs s by auto
    with xs show ?thesis by simp
  qed
  from repeat_opt_keeps [of ?P ?step, OF this]
  have "\<exists>rows. repeat_opt k ?step (sn_rows ?s) = Some rows \<and> ?P rows" for k
    using active_rows [OF g] by blast
  then obtain rows where rows: "repeat_opt (min (max count 1) (sn_scroll_bottom ?s - ?row + 1)) ?step (sn_rows ?s) = Some rows"
    "?P rows" by blast
  then have "keeps_grid g (commit_rows rows g)" by (intro keeps_commit [OF g]) simp_all
  with rows(1) g show ?thesis by (simp add: insert_blank_lines_def Let_def keeps_refl)
qed

lemma runs_delete_lines: "grid_ok g \<Longrightarrow> runs g (delete_lines count g)"
proof -
  assume g: "grid_ok g"
  let ?s = "active_ref g" and ?n = "gs_columns (gr_size g)"
  let ?row = "cu_row (sn_cursor ?s)"
  let ?step = "\<lambda>rows. do {
      (_, rows) \<leftarrow> vec_remove ?row rows;
      vec_insert (sn_scroll_bottom ?s) (blank_row ?n) rows
    }"
  have s: "?row < gs_rows (gr_size g)" "sn_scroll_bottom ?s < gs_rows (gr_size g)"
    using active_ok [OF g] by (simp_all add: screen_ok_def cursor_in_def)
  let ?P = "\<lambda>rows. length rows = gs_rows (gr_size g) \<and> list_all (row_ok ?n) rows"
  have "\<exists>ys. ?step xs = Some ys \<and> ?P ys" if xs: "?P xs" for xs
  proof -
    obtain y ys zs where "vec_remove ?row xs = Some (y, ys)"
      "vec_insert (sn_scroll_bottom ?s) (blank_row ?n) ys = Some zs" "length zs = length xs" "list_all (row_ok ?n) zs"
      using vec_remove_insert [of "row_ok ?n" xs "blank_row ?n" ?row "sn_scroll_bottom ?s"] xs s by auto
    with xs show ?thesis by simp
  qed
  from repeat_opt_keeps [of ?P ?step, OF this]
  have "\<exists>rows. repeat_opt k ?step (sn_rows ?s) = Some rows \<and> ?P rows" for k
    using active_rows [OF g] by blast
  then obtain rows where rows: "repeat_opt (min (max count 1) (sn_scroll_bottom ?s - ?row + 1)) ?step (sn_rows ?s) = Some rows"
    "?P rows" by blast
  then have "keeps_grid g (commit_rows rows g)" by (intro keeps_commit [OF g]) simp_all
  with rows(1) g show ?thesis by (simp add: delete_lines_def Let_def keeps_refl)
qed

lemma keeps_scrollback:
  assumes "keeps_grid g h" "list_all (row_ok (gs_columns (gr_size h))) rows" "length rows \<le> gr_scrollback_limit h"
  shows "keeps_grid g (h\<lparr>gr_scrollback := rows\<rparr>)"
  using assms by (auto simp: keeps_grid_def grid_ok_def saved_ok_def)

lemma runs_scroll_region_up_one: "grid_ok g \<Longrightarrow> runs g (scroll_region_up_one g)"
proof -
  assume g: "grid_ok g"
  let ?s = "active_ref g" and ?n = "gs_columns (gr_size g)"
  have s: "sn_scroll_top ?s < length (sn_rows ?s)" "sn_scroll_bottom ?s < length (sn_rows ?s)"
    using active_ok [OF g] by (auto simp: screen_ok_def)
  obtain y ys zs where r: "vec_remove (sn_scroll_top ?s) (sn_rows ?s) = Some (y, ys)"
      "vec_insert (sn_scroll_bottom ?s) (blank_row ?n) ys = Some zs" "length zs = length (sn_rows ?s)"
      "list_all (row_ok ?n) zs" "row_ok ?n y"
    using vec_remove_insert [of "row_ok ?n" "sn_rows ?s" "blank_row ?n" "sn_scroll_top ?s" "sn_scroll_bottom ?s"]
      active_rows [OF g] s by auto
  have k: "keeps_grid g (set_active (?s\<lparr>sn_rows := zs\<rparr>) g)"
    using active_ok [OF g] r by (intro keeps_set_active [OF g]) (auto simp: screen_ok_def saved_in_def)
  have b: "list_all (row_ok ?n) (gr_scrollback g)" "length (gr_scrollback g) \<le> gr_scrollback_limit g"
    using g by (simp_all add: grid_ok_def)
  have t: "list_all (row_ok ?n) (tl (gr_scrollback g))" using b(1) by (cases "gr_scrollback g") auto
  have "keeps_grid g ((set_active (?s\<lparr>sn_rows := zs\<rparr>) g)\<lparr>gr_scrollback :=
      (if length (gr_scrollback g) = gr_scrollback_limit g then tl (gr_scrollback g) else gr_scrollback g) @ [y]\<rparr>)"
    if "0 < gr_scrollback_limit g"
    using b t r(5) that by (intro keeps_scrollback [OF k]) auto
  with k r show ?thesis by (simp add: scroll_region_up_one_def Let_def)
qed

lemma runs_repeat:
  assumes "\<And>h. keeps_grid g h \<Longrightarrow> runs h (f h)" "grid_ok g"
  shows "runs g (repeat_opt n f g)"
proof -
  have "\<exists>h. repeat_opt n f g = Some h \<and> keeps_grid g h"
  proof (rule repeat_opt_keeps [of "keeps_grid g"])
    fix h
    assume h: "keeps_grid g h"
    from assms(1) [OF h] show "\<exists>k. f h = Some k \<and> keeps_grid g k"
      using keeps_grid_trans [OF h] by (auto simp: runs_def)
  qed (rule keeps_refl [OF assms(2)])
  then show ?thesis by (simp add: runs_def)
qed

lemma runs_scroll_up: "grid_ok g \<Longrightarrow> runs g (scroll_up n g)"
  unfolding scroll_up_def
  by (intro runs_map runs_repeat) (auto simp: keeps_bump keeps_grid_ok runs_scroll_region_up_one intro: keeps_refl)

lemma runs_reverse_index: "grid_ok g \<Longrightarrow> runs g (reverse_index g)"
proof -
  assume g: "grid_ok g"
  let ?s = "active_ref g" and ?n = "gs_columns (gr_size g)"
  have s: "sn_scroll_top ?s < length (sn_rows ?s)" "sn_scroll_bottom ?s < length (sn_rows ?s)"
    using active_ok [OF g] by (auto simp: screen_ok_def)
  obtain y ys zs where r: "vec_remove (sn_scroll_bottom ?s) (sn_rows ?s) = Some (y, ys)"
      "vec_insert (sn_scroll_top ?s) (blank_row ?n) ys = Some zs" "length zs = length (sn_rows ?s)"
      "list_all (row_ok ?n) zs"
    using vec_remove_insert [of "row_ok ?n" "sn_rows ?s" "blank_row ?n" "sn_scroll_bottom ?s" "sn_scroll_top ?s"]
      active_rows [OF g] s by auto
  have "keeps_grid g (commit_rows zs g)" using r active_rows [OF g] by (intro keeps_commit [OF g]) simp_all
  moreover have "keeps_grid g (set_active (?s\<lparr>sn_cursor := (sn_cursor ?s)\<lparr>cu_row := cu_row (sn_cursor ?s) - 1\<rparr>,
      sn_wrap_pending := False\<rparr>) g)"
    using active_cursor [OF g] by (intro keeps_cursor [OF g]) (auto simp: cursor_in_def)
  ultimately show ?thesis using r by (simp add: reverse_index_def Let_def keeps_bump)
qed

section \<open>Writing\<close>

lemma keeps_carriage_return: "grid_ok g \<Longrightarrow> keeps_grid g (carriage_return g)"
  unfolding carriage_return_def Let_def using active_cursor [of g]
  by (intro keeps_cursor) (auto simp: cursor_in_def)

lemma keeps_unwrap: "grid_ok g \<Longrightarrow> keeps_grid g (set_active ((active_ref g)\<lparr>sn_wrap_pending := False\<rparr>) g)"
  using active_ok [of g] by (intro keeps_set_active) (auto simp: screen_ok_def saved_in_def)

lemma runs_line_feed: "grid_ok g \<Longrightarrow> runs g (line_feed g)"
proof -
  assume g: "grid_ok g"
  have down: "keeps_grid g (set_active ((active_ref g)\<lparr>sn_cursor := (grid_cursor g)\<lparr>cu_row := cu_row (grid_cursor g) + 1\<rparr>\<rparr>) g)"
    if "cu_row (grid_cursor g) < gs_rows (gr_size g) - 1"
    using that active_ok [OF g] by (intro keeps_set_active [OF g]) (auto simp: screen_ok_def saved_in_def cursor_in_def grid_cursor_def)
  show ?thesis
    unfolding line_feed_def Let_def
    using down runs_scroll_region_up_one [OF g] keeps_refl [OF g]
    by (intro runs_bind) (auto simp: keeps_bump keeps_unwrap keeps_grid_ok)
qed

lemma active_scrollback [simp]: "active_ref (g\<lparr>gr_scrollback := x\<rparr>) = active_ref g"
  by (simp add: active_ref_def split: active_screen.split)

lemma scroll_region_cursor: "scroll_region_up_one g = Some h \<Longrightarrow> grid_cursor h = grid_cursor g"
  by (auto simp: scroll_region_up_one_def Let_def grid_cursor_def split: Option.bind_splits if_splits)

lemma line_feed_column:
  assumes "line_feed g = Some h"
  shows "cu_column (grid_cursor h) = cu_column (grid_cursor g)"
proof -
  obtain k where k: "(if cu_row (grid_cursor g) = sn_scroll_bottom (active_ref g) then scroll_region_up_one g
          else if cu_row (grid_cursor g) < gs_rows (gr_size g) - 1
          then Some (set_active ((active_ref g)\<lparr>sn_cursor := (grid_cursor g)\<lparr>cu_row := cu_row (grid_cursor g) + 1\<rparr>\<rparr>) g)
          else Some g) = Some k" "h = grid_bump (set_active ((active_ref k)\<lparr>sn_wrap_pending := False\<rparr>) k)"
    using assms unfolding line_feed_def Let_def by (auto split: Option.bind_splits)
  have "cu_column (grid_cursor k) = cu_column (grid_cursor g)"
    using k(1) scroll_region_cursor [of g k] by (auto simp: grid_cursor_def split: if_splits)
  then show ?thesis by (simp add: k(2) grid_cursor_def)
qed

lemma put_cell_ok:
  assumes "list_all (row_ok n) rows" "i < length rows" "k < n" "is_structurally_valid c"
  shows "\<exists>rows'. put_cell i k c rows = Some rows' \<and> length rows' = length rows \<and> list_all (row_ok n) rows'"
proof -
  have r: "row_ok n (rows ! i)" using assms by (simp add: list_all_iff)
  then have "row_ok n ((rows ! i)[k := c])" using assms(4) by (simp add: row_ok_def list_all_update)
  with r assms show ?thesis
    by (simp add: put_cell_def vec_set_def nth_opt_def row_ok_def list_all_update)
qed

lemma cell_at_ok:
  assumes "list_all (row_ok n) rows" "i < length rows" "k < n"
  shows "\<exists>c. cell_at rows i k = Some c \<and> is_structurally_valid c"
proof -
  have "row_ok n (rows ! i)" using assms by (simp add: list_all_iff)
  with assms show ?thesis by (simp add: cell_at_def nth_opt_def row_ok_def list_all_iff)
qed

lemma expect_text_ok:
  "width \<noteq> Continuation \<Longrightarrow> is_structurally_valid c \<Longrightarrow>
     \<exists>c'. expect_text [ch] width c = Some c' \<and> is_structurally_valid c'"
  using set_text_valid [of c "[ch]" width] by (simp add: expect_text_def set_text_character)

lemma expect_continuation_ok:
  "is_structurally_valid c \<Longrightarrow> \<exists>c'. expect_text [] width c = Some c' \<and> is_structurally_valid c'"
  using set_text_valid [of c "[]" width] by (simp add: expect_text_def set_text_continuation)

lemma styled_valid [simp]: "is_structurally_valid (styled a b c d e) = is_structurally_valid e"
  by (simp add: styled_def is_structurally_valid_def)

lemma runs_append_combining: "grid_ok g \<Longrightarrow> runs g (append_combining ch g)"
proof -
  assume g: "grid_ok g"
  let ?s = "active_ref g" and ?n = "gs_columns (gr_size g)"
  let ?row = "cu_row (sn_cursor ?s)"
  define column where
    "column = (if sn_wrap_pending ?s then cu_column (sn_cursor ?s) else cu_column (sn_cursor ?s) - 1)"
  have c: "?row < length (sn_rows ?s)" "column < ?n"
    using active_cursor [OF g] active_rows [OF g] by (auto simp: cursor_in_def column_def)
  note rows = active_rows [OF g]
  obtain c where c1: "cell_at (sn_rows ?s) ?row column = Some c"
    using cell_at_ok [OF _ c] rows by blast
  define target where "target = (if ce_width c = Continuation then column - 1 else column)"
  have t: "target < ?n" using c(2) by (auto simp: target_def)
  obtain d where d: "cell_at (sn_rows ?s) ?row target = Some d" "is_structurally_valid d"
    using cell_at_ok [OF _ c(1) t] rows by blast
  obtain rows' where r: "put_cell ?row target (snd (cell_append_combining ch d)) (sn_rows ?s) = Some rows'"
    "length rows' = length (sn_rows ?s)" "list_all (row_ok ?n) rows'"
    using put_cell_ok [OF _ c(1) t append_combining_valid [OF d(2)]] rows by blast
  have "keeps_grid g (set_active (?s\<lparr>sn_rows := rows'\<rparr>) g)"
    using r active_ok [OF g] by (intro keeps_set_active [OF g]) (auto simp: screen_ok_def saved_in_def)
  have "append_combining ch g =
      (case cell_append_combining ch d of
         (Inr _, c) \<Rightarrow> do {
           rows \<leftarrow> put_cell ?row target c (sn_rows ?s);
           Some (grid_bump (set_active (?s\<lparr>sn_rows := rows\<rparr>) g))
         }
       | (Inl _, _) \<Rightarrow> Some g)"
    unfolding append_combining_def Let_def column_def [symmetric]
    by (simp only: c1 d(1) Option.bind.simps target_def [symmetric])
  moreover have "keeps_grid g (set_active (?s\<lparr>sn_rows := rows'\<rparr>) g)" by fact
  ultimately show ?thesis
    using r(1) g by (cases "cell_append_combining ch d") (auto simp: keeps_bump keeps_refl split: sum.splits)
qed

lemma runs_write_character: "grid_ok g \<Longrightarrow> runs g (write_character W ch fg bg attrs link g)"
proof -
  assume g: "grid_ok g"
  define width where "width = min (case W ch of Some n \<Rightarrow> n | None \<Rightarrow> 0) 2"
  define wrapped where "wrapped =
    (if sn_wrap_pending (active_ref g) \<or> (width = 2 \<and> cu_column (grid_cursor g) + width > gs_columns (gr_size g))
     then line_feed (carriage_return g) else Some g)"
  define placed where "placed = (\<lambda>h.
    let columns = gs_columns (gr_size g); w = (if width = 2 \<and> columns = 1 then 1 else width);
         row = cu_row (grid_cursor h); column = cu_column (grid_cursor h); s = active_ref h
     in do {
       c \<leftarrow> cell_at (sn_rows s) row column;
       c \<leftarrow> expect_text [if w = 1 \<and> W ch = Some 2 then REPLACEMENT else ch] (if w = 2 then Wide else Single) c;
       rows \<leftarrow> put_cell row column (styled fg bg attrs link c) (sn_rows s);
       rows \<leftarrow>
         if w = 2 then do {
           c \<leftarrow> cell_at rows row (column + 1);
           c \<leftarrow> expect_text [] Continuation c;
           put_cell row (column + 1) (styled fg bg attrs link c) rows
         } else Some rows;
       Some (grid_bump (set_active (s\<lparr>sn_rows := rows,
         sn_cursor := (sn_cursor s)\<lparr>cu_column := (if column + w = columns then columns - 1 else column + w)\<rparr>,
         sn_wrap_pending := (column + w = columns)\<rparr>) h))
     })"
  have unfold: "write_character W ch fg bg attrs link g =
      (if width = 0 then append_combining ch g else Option.bind wrapped placed)"
    unfolding write_character_def Let_def width_def [symmetric] wrapped_def placed_def by (rule refl)
  have "runs g (Option.bind wrapped placed)" if w0: "width \<noteq> 0"
  proof -
    have cr: "keeps_grid g (carriage_return g)" "grid_ok (carriage_return g)"
      using keeps_carriage_return [OF g] by (simp_all add: keeps_grid_ok)
    have lf: "\<exists>h. line_feed (carriage_return g) = Some h \<and> keeps_grid g h \<and> cu_column (grid_cursor h) = 0"
    proof -
      obtain h where h: "line_feed (carriage_return g) = Some h" "keeps_grid (carriage_return g) h"
        using runs_line_feed [OF cr(2)] by (auto simp: runs_def)
      moreover have "cu_column (grid_cursor (carriage_return g)) = 0"
        by (simp add: carriage_return_def Let_def grid_cursor_def)
      ultimately show ?thesis using line_feed_column [OF h(1)] keeps_grid_trans [OF cr(1)] by auto
    qed
    have "\<exists>h. wrapped = Some h \<and> keeps_grid g h \<and>
        (width = 2 \<longrightarrow> gs_columns (gr_size g) \<noteq> 1 \<longrightarrow> cu_column (grid_cursor h) + 1 < gs_columns (gr_size g))"
      using lf g by (auto simp: wrapped_def keeps_refl grid_ok_def)
    then obtain h where h: "wrapped = Some h" "keeps_grid g h"
      "width = 2 \<longrightarrow> gs_columns (gr_size g) \<noteq> 1 \<longrightarrow> cu_column (grid_cursor h) + 1 < gs_columns (gr_size g)" by blast
    have hk: "grid_ok h" "gr_size h = gr_size g" using h(2) by (simp_all add: keeps_grid_def)
    define w where "w = (if width = 2 \<and> gs_columns (gr_size g) = 1 then 1 else width)"
    have w: "w = 1 \<or> w = 2" using w0 by (auto simp: w_def width_def)
    let ?s = "active_ref h" and ?n = "gs_columns (gr_size g)"
    let ?row = "cu_row (grid_cursor h)" and ?k = "cu_column (grid_cursor h)"
    have in_grid: "?row < length (sn_rows ?s)" "?k < ?n" "w = 2 \<Longrightarrow> ?k + 1 < ?n"
      using active_cursor [OF hk(1)] active_rows [OF hk(1)] h(3) hk(2)
      by (auto simp: cursor_in_def grid_cursor_def w_def split: if_splits)
    have rows: "length (sn_rows ?s) = gs_rows (gr_size g)" "list_all (row_ok ?n) (sn_rows ?s)"
      using active_rows [OF hk(1)] hk(2) by simp_all
    obtain c where c: "cell_at (sn_rows ?s) ?row ?k = Some c" "is_structurally_valid c"
      using cell_at_ok [OF rows(2) in_grid(1,2)] by blast
    have "(if w = 2 then Wide else Single) \<noteq> Continuation" by simp
    note texts = expect_text_ok [OF this c(2)]
    obtain d where d: "expect_text [if w = 1 \<and> W ch = Some 2 then REPLACEMENT else ch] (if w = 2 then Wide else Single) c = Some d"
      "is_structurally_valid d"
      using texts by blast
    obtain r1 where r1: "put_cell ?row ?k (styled fg bg attrs link d) (sn_rows ?s) = Some r1"
      "length r1 = length (sn_rows ?s)" "list_all (row_ok ?n) r1"
      using put_cell_ok [OF rows(2) in_grid(1,2), of "styled fg bg attrs link d"] d(2) by auto
    have "\<exists>r2. (if w = 2 then do {
           c \<leftarrow> cell_at r1 ?row (?k + 1);
           c \<leftarrow> expect_text [] Continuation c;
           put_cell ?row (?k + 1) (styled fg bg attrs link c) r1
         } else Some r1) = Some r2 \<and> length r2 = length (sn_rows ?s) \<and> list_all (row_ok ?n) r2"
    proof (cases "w = 2")
      case True
      have i: "?row < length r1" "?k + 1 < ?n" using in_grid True r1(2) by simp_all
      obtain e where e: "cell_at r1 ?row (?k + 1) = Some e" "is_structurally_valid e"
        using cell_at_ok [OF r1(3) i] by blast
      obtain f where f: "expect_text [] Continuation e = Some f" "is_structurally_valid f"
        using expect_continuation_ok [OF e(2)] by blast
      show ?thesis
        using put_cell_ok [OF r1(3) i, of "styled fg bg attrs link f"] e f True r1(2) by auto
    qed (use r1 in simp)
    then obtain r2 where r2: "(if w = 2 then do {
           c \<leftarrow> cell_at r1 ?row (?k + 1);
           c \<leftarrow> expect_text [] Continuation c;
           put_cell ?row (?k + 1) (styled fg bg attrs link c) r1
         } else Some r1) = Some r2" "length r2 = length (sn_rows ?s)" "list_all (row_ok ?n) r2" by blast
    let ?s' = "?s\<lparr>sn_rows := r2,
         sn_cursor := (sn_cursor ?s)\<lparr>cu_column := (if ?k + w = ?n then ?n - 1 else ?k + w)\<rparr>,
         sn_wrap_pending := (?k + w = ?n)\<rparr>"
    have "?k + w \<le> ?n" using in_grid w by auto
    then have "keeps_grid h (set_active ?s' h)"
      using active_ok [OF hk(1)] r2 rows hk in_grid
      by (intro keeps_set_active [OF hk(1)]) (auto simp: screen_ok_def saved_in_def cursor_in_def)
    moreover have "placed h = Some (grid_bump (set_active ?s' h))"
      unfolding placed_def Let_def w_def [symmetric] by (simp only: c(1) d(1) r1(1) r2(1) Option.bind.simps)
    ultimately show ?thesis
      using h(1) keeps_grid_trans [OF h(2)] by (simp add: keeps_bump)
  qed
  then show ?thesis using runs_append_combining [OF g] unfold by simp
qed

lemma runs_print_character: "grid_ok g \<Longrightarrow> runs g (print_character W ch g)"
proof -
  assume g: "grid_ok g"
  have "keeps_grid g (set_active ((active_ref g)\<lparr>sn_cursor := (sn_cursor (active_ref g))
      \<lparr>cu_column := cu_column (sn_cursor (active_ref g)) - 1\<rparr>, sn_wrap_pending := False\<rparr>) g)"
    using active_cursor [OF g] by (intro keeps_cursor [OF g]) (auto simp: cursor_in_def)
  moreover have "runs g (repeat_opt n (write_character W 32 a b c d) g)" for n a b c d
    by (rule runs_repeat [OF _ g]) (rule runs_write_character, rule keeps_grid_ok)
  ultimately show ?thesis
    using g by (simp add: print_character_def Let_def keeps_carriage_return runs_line_feed runs_write_character)
qed

lemma runs_print: "grid_ok g \<Longrightarrow> runs g (grid_print W cs g)"
proof (induction cs arbitrary: g)
  case Nil
  then show ?case by (simp add: keeps_refl)
next
  case (Cons c cs)
  then show ?case by (auto intro!: runs_bind runs_print_character dest: keeps_grid_ok)
qed

section \<open>Resizing\<close>

lemma reflow_cells_ok:
  assumes "0 < gs_columns sz" "list_all is_structurally_valid cs"
    "length dest = gs_rows sz" "list_all (row_ok (gs_columns sz)) dest"
  shows "\<exists>res. reflow_cells sz cs dest r k = Some res \<and>
    (\<forall>d. res = Inl d \<or> (\<exists>r'. res = Inr (d, r')) \<longrightarrow> length d = gs_rows sz \<and> list_all (row_ok (gs_columns sz)) d)"
  using assms(2-)
proof (induction cs arbitrary: dest r k)
  case Nil
  then show ?case by auto
next
  case (Cons c cs)
  define w where "w = (if ce_width c = Wide \<and> gs_columns sz > 1 then 2 else 1 :: nat)"
  define i where "i = (if k + w > gs_columns sz then r + 1 else r)"
  define j where "j = (if k + w > gs_columns sz then 0 else k)"
  have w: "w = 1 \<or> w = 2" "w \<le> gs_columns sz" using assms(1) by (auto simp: w_def)
  have j: "j + w \<le> gs_columns sz" using w(2) by (auto simp: j_def)
  have valid: "is_structurally_valid c" "list_all is_structurally_valid cs" using Cons.prems(1) by simp_all
  note IH = Cons.IH [OF valid(2)]
  have step: "reflow_cells sz (c # cs) dest r k =
      (if i \<ge> gs_rows sz then Some (Inl dest)
       else if ce_width c = Wide \<and> gs_columns sz = 1 then do {
          target \<leftarrow> cell_at dest i j;
          target \<leftarrow> expect_text [REPLACEMENT] Single target;
          dest \<leftarrow> put_cell i j target dest;
          reflow_cells sz cs dest i (j + w)
        }
        else if w = 2 then do {
          dest \<leftarrow> put_cell i j c dest;
          target \<leftarrow> cell_at dest i (j + 1);
          target \<leftarrow> expect_text [] Continuation target;
          dest \<leftarrow> put_cell i (j + 1) target dest;
          reflow_cells sz cs dest i (j + w)
        }
        else do {
          dest \<leftarrow> put_cell i j c dest;
          reflow_cells sz cs dest i (j + w)
        })"
    unfolding reflow_cells.simps Let_def w_def [symmetric] i_def [symmetric] j_def [symmetric] by (rule refl)
  show ?case
  proof (cases "i \<ge> gs_rows sz")
    case True
    with step Cons.prems show ?thesis by auto
  next
    case False
    then have i: "i < length dest" using Cons.prems(2) by simp
    have jc: "j < gs_columns sz" using j w(1) by auto
    obtain d1 where d1: "put_cell i j c dest = Some d1" "length d1 = length dest" "list_all (row_ok (gs_columns sz)) d1"
      using put_cell_ok [OF Cons.prems(3) i jc valid(1)] by blast
    consider "ce_width c = Wide" "gs_columns sz = 1" | "\<not> (ce_width c = Wide \<and> gs_columns sz = 1)" "w = 2" |
      "\<not> (ce_width c = Wide \<and> gs_columns sz = 1)" "w = 1" using w(1) by blast
    then show ?thesis
    proof cases
      case 1
      obtain t where t: "cell_at dest i j = Some t" "is_structurally_valid t"
        using cell_at_ok [OF Cons.prems(3) i jc] by blast
      obtain u where u: "expect_text [REPLACEMENT] Single t = Some u" "is_structurally_valid u"
        using expect_text_ok [OF _ t(2)] by blast
      obtain d2 where d2: "put_cell i j u dest = Some d2" "length d2 = length dest" "list_all (row_ok (gs_columns sz)) d2"
        using put_cell_ok [OF Cons.prems(3) i jc u(2)] by blast
      show ?thesis using step False 1 t u d2 IH [of d2 i "j + w"] Cons.prems(2) by simp
    next
      case 2
      then have i1: "i < length d1" "j + 1 < gs_columns sz" using i d1(2) j by simp_all
      obtain t where t: "cell_at d1 i (j + 1) = Some t" "is_structurally_valid t"
        using cell_at_ok [OF d1(3) i1] by blast
      obtain u where u: "expect_text [] Continuation t = Some u" "is_structurally_valid u"
        using expect_continuation_ok [OF t(2)] by blast
      obtain d2 where d2: "put_cell i (j + 1) u d1 = Some d2" "length d2 = length d1" "list_all (row_ok (gs_columns sz)) d2"
        using put_cell_ok [OF d1(3) i1 u(2)] by blast
      have "reflow_cells sz (c # cs) dest r k = reflow_cells sz cs d2 i (j + w)"
        by (subst step) (simp add: 2 False d1(1) t(1) u(1) d2(1) del: One_nat_def)
      then show ?thesis using d1(2) d2 IH [of d2 i "j + w"] Cons.prems(2) by simp
    next
      case 3
      then have "reflow_cells sz (c # cs) dest r k = reflow_cells sz cs d1 i (j + w)"
        using 3 False d1(1) by (subst step) (auto simp del: One_nat_def)
      then show ?thesis using d1 IH [of d1 i "j + w"] Cons.prems(2) by simp
    qed
  qed
qed

lemma reflow_loop_ok:
  assumes "0 < gs_columns sz" "list_all (list_all is_structurally_valid) source"
    "length dest = gs_rows sz" "list_all (row_ok (gs_columns sz)) dest"
  shows "\<exists>d. reflow_loop sz source dest r = Some d \<and> length d = gs_rows sz \<and> list_all (row_ok (gs_columns sz)) d"
  using assms(2-)
proof (induction source arbitrary: dest r)
  case Nil
  then show ?case by simp
next
  case (Cons row source)
  let ?cs = "filter (\<lambda>c. ce_width c \<noteq> Continuation) (take (content_end row) row)"
  have "list_all is_structurally_valid ?cs"
    using Cons.prems(1) by (auto simp: list_all_iff dest: in_set_takeD)
  from reflow_cells_ok [OF assms(1) this Cons.prems(2,3)] obtain res where res:
    "reflow_cells sz ?cs dest r 0 = Some res"
    "\<And>d. res = Inl d \<or> (\<exists>r'. res = Inr (d, r')) \<Longrightarrow> length d = gs_rows sz \<and> list_all (row_ok (gs_columns sz)) d"
    by blast
  show ?case
  proof (cases res)
    case (Inl d)
    with res show ?thesis by simp
  next
    case (Inr p)
    then obtain d r' where "res = Inr (d, r')" by (cases p) simp
    with res Cons.IH [of d "r' + 1"] Cons.prems(1) show ?thesis by simp
  qed
qed

lemma resize_screen_ok:
  assumes "screen_ok old s" "0 < gs_rows sz" "0 < gs_columns sz"
  shows "\<exists>s'. resize_screen sz s = Some s' \<and> screen_ok sz s' \<and> sn_saved_cursor s' = sn_saved_cursor s"
proof -
  have valid: "list_all (list_all is_structurally_valid) (sn_rows s)"
    using assms(1) by (simp add: screen_ok_def row_ok_def list_all_iff)
  let ?same = "map (resize_row (gs_columns sz)) (vec_resize (gs_rows sz) (blank_row (gs_columns sz)) (sn_rows s))"
  have same: "length ?same = gs_rows sz" "list_all (row_ok (gs_columns sz)) ?same"
    using valid by (auto simp: vec_resize_def list_all_iff blank_row_def intro!: row_ok_resize dest: in_set_takeD)
  obtain d where d: "reflow_rows (sn_rows s) sz = Some d" "length d = gs_rows sz" "list_all (row_ok (gs_columns sz)) d"
    using reflow_loop_ok [OF assms(3) valid, of "blank_rows sz" 0]
    by (auto simp: reflow_rows_def blank_rows_def list_all_iff)
  have "\<exists>rows. (if (case sn_rows s of [] \<Rightarrow> gs_columns sz | r # _ \<Rightarrow> length r) = gs_columns sz then Some ?same
      else reflow_rows (sn_rows s) sz) = Some rows \<and> length rows = gs_rows sz \<and> list_all (row_ok (gs_columns sz)) rows"
    using same d by simp
  then obtain rows where rows: "(if (case sn_rows s of [] \<Rightarrow> gs_columns sz | r # _ \<Rightarrow> length r) = gs_columns sz then Some ?same
      else reflow_rows (sn_rows s) sz) = Some rows" "length rows = gs_rows sz" "list_all (row_ok (gs_columns sz)) rows"
    by blast
  show ?thesis
    unfolding resize_screen_def Let_def rows(1) Option.bind.simps
    using rows(2,3) assms(2,3) by (auto simp: screen_ok_def cursor_in_def)
qed

lemma resize_ok:
  assumes "grid_ok g" "0 < gs_rows sz" "0 < gs_columns sz"
  shows "\<exists>b g'. grid_resize sz g = Some (b, g') \<and> grid_ok g' \<and> gr_size g' = sz \<and>
    gr_active g' = gr_active g \<and> sn_saved_cursor (gr_primary g') = sn_saved_cursor (gr_primary g) \<and>
    sn_saved_cursor (gr_alternate g') = sn_saved_cursor (gr_alternate g)"
proof (cases "sz = gr_size g")
  case True
  then have "grid_resize sz g = Some (False, g)" by (simp add: grid_resize_def)
  with True assms show ?thesis by blast
next
  case False
  obtain p where p: "resize_screen sz (gr_primary g) = Some p" "screen_ok sz p" "sn_saved_cursor p = sn_saved_cursor (gr_primary g)"
    using resize_screen_ok [of "gr_size g" "gr_primary g" sz] assms by (auto simp: grid_ok_def)
  obtain a where a: "resize_screen sz (gr_alternate g) = Some a" "screen_ok sz a" "sn_saved_cursor a = sn_saved_cursor (gr_alternate g)"
    using resize_screen_ok [of "gr_size g" "gr_alternate g" sz] assms by (auto simp: grid_ok_def)
  have "list_all (row_ok (gs_columns sz)) (map (resize_row (gs_columns sz)) (gr_scrollback g))"
  proof -
    have "row_ok (gs_columns sz) (resize_row (gs_columns sz) r)" if "r \<in> set (gr_scrollback g)" for r
      using assms(1) that by (intro row_ok_resize) (simp add: grid_ok_def list_all_iff row_ok_def)
    then show ?thesis by (simp add: list_all_iff)
  qed
  with p a False assms show ?thesis
    by (auto simp: grid_resize_def grid_ok_def grid_bump_def)
qed

section \<open>Commands\<close>

text \<open>The operations of the grid, as its callers issue them.\<close>

datatype grid_command =
    Print rust_string
  | PrintStyled scalar color color cell_attributes "hyperlink_id option"
  | EnterAlternateScreen
  | LeaveAlternateScreen
  | SetCursor nat nat
  | MoveCursor int int
  | SaveCursor
  | RestoreCursor
  | SetCursorVisible bool
  | ResizeGrid grid_size
  | SetScrollRegion nat nat
  | EraseInDisplay erase_display
  | EraseInLine erase_line
  | InsertBlankCharacters nat
  | DeleteCharacters nat
  | InsertBlankLines nat
  | DeleteLines nat
  | ScrollUp nat
  | ReverseIndex

fun grid_apply :: "(scalar \<Rightarrow> nat option) \<Rightarrow> grid_command \<Rightarrow> grid \<Rightarrow> grid option" where
  "grid_apply W (Print t) g = grid_print W t g"
| "grid_apply W (PrintStyled c fg bg attrs link) g = print_styled W c fg bg attrs link g"
| "grid_apply W EnterAlternateScreen g = Some (enter_alternate_screen g)"
| "grid_apply W LeaveAlternateScreen g = Some (leave_alternate_screen g)"
| "grid_apply W (SetCursor r k) g = Some (set_cursor r k g)"
| "grid_apply W (MoveCursor r k) g = Some (move_cursor r k g)"
| "grid_apply W SaveCursor g = Some (save_cursor g)"
| "grid_apply W RestoreCursor g = Some (restore_cursor g)"
| "grid_apply W (SetCursorVisible v) g = Some (set_cursor_visible v g)"
| "grid_apply W (ResizeGrid sz) g = map_option snd (grid_resize sz g)"
| "grid_apply W (SetScrollRegion a b) g = Some (snd (set_scroll_region a b g))"
| "grid_apply W (EraseInDisplay m) g = erase_in_display m g"
| "grid_apply W (EraseInLine m) g = erase_in_line m g"
| "grid_apply W (InsertBlankCharacters n) g = insert_blank_characters n g"
| "grid_apply W (DeleteCharacters n) g = delete_characters n g"
| "grid_apply W (InsertBlankLines n) g = insert_blank_lines n g"
| "grid_apply W (DeleteLines n) g = delete_lines n g"
| "grid_apply W (ScrollUp n) g = scroll_up n g"
| "grid_apply W ReverseIndex g = reverse_index g"

fun grid_run :: "(scalar \<Rightarrow> nat option) \<Rightarrow> grid_command list \<Rightarrow> grid \<Rightarrow> grid option" where
  "grid_run W [] g = Some g"
| "grid_run W (c # cs) g = Option.bind (grid_apply W c g) (grid_run W cs)"

text \<open>The commands that cannot take a saved cursor out of the grid: resizes may only grow it.\<close>

definition grows :: "grid_size \<Rightarrow> grid_size \<Rightarrow> bool" where
  "grows old new \<longleftrightarrow> gs_rows old \<le> gs_rows new \<and> gs_columns old \<le> gs_columns new"

fun last_size :: "grid_command list \<Rightarrow> grid_size \<Rightarrow> grid_size" where
  "last_size [] sz = sz"
| "last_size (ResizeGrid new # cs) sz = last_size cs new"
| "last_size (_ # cs) sz = last_size cs sz"

fun never_shrinks :: "grid_command list \<Rightarrow> grid_size \<Rightarrow> bool" where
  "never_shrinks [] sz = True"
| "never_shrinks (ResizeGrid new # cs) sz = (grows sz new \<and> never_shrinks cs new)"
| "never_shrinks (_ # cs) sz = never_shrinks cs sz"

lemma grid_apply_runs:
  assumes "grid_ok g" "saved_ok g" "\<nexists>sz. c = ResizeGrid sz"
  shows "runs g (grid_apply W c g)"
  using assms
  by (cases c)
    (simp_all add: print_styled_def runs_print runs_write_character keeps_enter_alternate keeps_leave_alternate
      keeps_set_cursor keeps_move_cursor keeps_save_cursor keeps_restore_cursor keeps_set_cursor_visible
      keeps_scroll_region runs_erase_in_display runs_erase_in_line runs_insert_blank_characters
      runs_delete_characters runs_insert_blank_lines runs_delete_lines runs_scroll_up runs_reverse_index)

lemma cursor_in_grows: "grows a b \<Longrightarrow> cursor_in a c \<Longrightarrow> cursor_in b c"
  by (auto simp: grows_def cursor_in_def)

lemma grid_apply_resize:
  assumes "grid_ok g" "saved_ok g" "grows (gr_size g) sz"
  shows "\<exists>g'. grid_apply W (ResizeGrid sz) g = Some g' \<and> grid_ok g' \<and> saved_ok g' \<and> gr_size g' = sz"
proof -
  have "0 < gs_rows sz" "0 < gs_columns sz" using assms by (auto simp: grows_def grid_ok_def)
  from resize_ok [OF assms(1) this] obtain b g' where g': "grid_resize sz g = Some (b, g')" "grid_ok g'" "gr_size g' = sz"
    "sn_saved_cursor (gr_primary g') = sn_saved_cursor (gr_primary g)"
    "sn_saved_cursor (gr_alternate g') = sn_saved_cursor (gr_alternate g)" by blast
  with assms have "saved_ok g'"
    by (auto simp: saved_ok_def saved_in_def intro: cursor_in_grows split: option.splits)
  with g' show ?thesis by simp
qed

lemma grid_run_ok:
  "grid_ok g \<Longrightarrow> saved_ok g \<Longrightarrow> never_shrinks cs (gr_size g) \<Longrightarrow>
     \<exists>g'. grid_run W cs g = Some g' \<and> grid_ok g' \<and> saved_ok g' \<and> gr_size g' = last_size cs (gr_size g)"
proof (induction cs arbitrary: g)
  case Nil
  then show ?case by simp
next
  case (Cons c cs)
  show ?case
  proof (cases "\<exists>sz. c = ResizeGrid sz")
    case True
    then obtain sz where c: "c = ResizeGrid sz" by blast
    with Cons.prems have "grows (gr_size g) sz" "never_shrinks cs sz" by simp_all
    with grid_apply_resize [OF Cons.prems(1,2), of sz W] Cons.IH c show ?thesis by fastforce
  next
    case False
    then have "runs g (grid_apply W c g)" using grid_apply_runs [OF Cons.prems(1,2)] by blast
    then obtain h where h: "grid_apply W c g = Some h" "grid_ok h" "saved_ok h" "gr_size h = gr_size g"
      using Cons.prems(2) by (auto simp: runs_def keeps_grid_def)
    have "never_shrinks cs (gr_size h)" "last_size (c # cs) (gr_size g) = last_size cs (gr_size h)"
      using Cons.prems(3) False h(4) by (cases c; simp)+
    with h Cons.IH [of h] show ?thesis by simp
  qed
qed

lemma grid_new_ok: "0 < gs_rows sz \<Longrightarrow> 0 < gs_columns sz \<Longrightarrow> grid_ok (grid_new sz l) \<and> saved_ok (grid_new sz l)"
  by (simp add: grid_ok_def grid_new_def screen_ok_new saved_ok_def)

section \<open>Properties\<close>

text \<open>
  Whatever is printed, erased, inserted, scrolled, saved and restored, in whatever order, and
  however the grid grows meanwhile, no operation panics, and what the grid shows is always as large
  as the grid: its rows, the width of every row, the cursor inside it and the scrollback in its limit.
\<close>

theorem grids_never_panic:
  assumes "0 < gs_rows sz" "0 < gs_columns sz" "never_shrinks cs sz"
  shows "\<exists>g. grid_run W cs (grid_new sz l) = Some g \<and> gr_size g = last_size cs sz \<and>
    length (ts_rows (grid_snapshot 0 g)) = gs_rows (gr_size g) \<and>
    (\<forall>r \<in> set (ts_rows (grid_snapshot 0 g)). length r = gs_columns (gr_size g) \<and> list_all is_structurally_valid r) \<and>
    cu_row (grid_cursor g) < gs_rows (gr_size g) \<and> cu_column (grid_cursor g) < gs_columns (gr_size g) \<and>
    scrollback_len g \<le> MAX_SCROLLBACK_ROWS"
proof -
  have "gr_size (grid_new sz l) = sz" by (simp add: grid_new_def)
  with grid_run_ok [of "grid_new sz l" cs W] grid_new_ok [OF assms(1,2), of l] assms(3)
  obtain g where g: "grid_run W cs (grid_new sz l) = Some g" "grid_ok g" "gr_size g = last_size cs sz" by auto
  have "cursor_in (gr_size g) (grid_cursor g)" using active_cursor [OF g(2)] by (simp add: grid_cursor_def)
  moreover have "ts_rows (grid_snapshot 0 g) = sn_rows (active_ref g)" by (simp add: grid_snapshot_def Let_def)
  moreover have "scrollback_len g \<le> MAX_SCROLLBACK_ROWS" using g(2) by (auto simp: grid_ok_def scrollback_len_def)
  ultimately show ?thesis
    using g active_rows [OF g(2)] by (auto simp: cursor_in_def row_ok_def list_all_iff)
qed

definition ascii_width :: "scalar \<Rightarrow> nat option" where
  "ascii_width c = (if is_control c then None else Some (if c < 4352 then 1 else 2))"

theorem grids_never_panic_witness:
  "\<exists>g. grid_run ascii_width [Print [97, 19990, 10], SaveCursor, ResizeGrid \<lparr>gs_rows = 3, gs_columns = 5\<rparr>, RestoreCursor,
      DeleteCharacters 9, ScrollUp 2] (grid_new \<lparr>gs_rows = 2, gs_columns = 4\<rparr> 10) = Some g \<and>
     gr_size g = \<lparr>gs_rows = 3, gs_columns = 5\<rparr>"
  using grids_never_panic [of "\<lparr>gs_rows = 2, gs_columns = 4\<rparr>" "[Print [97, 19990, 10], SaveCursor,
      ResizeGrid \<lparr>gs_rows = 3, gs_columns = 5\<rparr>, RestoreCursor, DeleteCharacters 9, ScrollUp 2]" ascii_width 10]
  by (auto simp: grows_def)

text \<open>
  A resize does not move the saved cursor. When the grid is made shorter than the row it was
  saved in, restoring it leaves the cursor outside the grid, and the next character that is printed
  there panics, on every grid the program can be in before the cursor is saved.
\<close>

theorem restored_cursor_panics:
  assumes "grid_ok g" "0 < gs_rows sz" "gs_rows sz \<le> cu_row (grid_cursor g)" "0 < gs_columns sz"
    "W ch = Some 1" "ch \<noteq> 13" "ch \<noteq> 10" "ch \<noteq> 8" "ch \<noteq> 9"
  shows "\<exists>h. grid_run W [SaveCursor, ResizeGrid sz, RestoreCursor] g = Some h \<and> grid_run W [Print [ch]] h = None"
proof -
  let ?s = "save_cursor g"
  have s: "grid_ok ?s" using keeps_save_cursor [OF assms(1)] by (rule keeps_grid_ok)
  from resize_ok [OF s assms(2,4)] obtain b r where r: "grid_resize sz ?s = Some (b, r)" "grid_ok r" "gr_size r = sz"
    "gr_active r = gr_active ?s" "sn_saved_cursor (gr_primary r) = sn_saved_cursor (gr_primary ?s)"
    "sn_saved_cursor (gr_alternate r) = sn_saved_cursor (gr_alternate ?s)" by blast
  then have "sn_saved_cursor (active_ref r) = sn_saved_cursor (active_ref ?s)"
    by (simp add: active_ref_def split: active_screen.split)
  also have "\<dots> = Some (grid_cursor g)" by (simp add: save_cursor_def Let_def grid_cursor_def)
  finally have saved: "sn_saved_cursor (active_ref r) = Some (grid_cursor g)" .
  let ?h = "restore_cursor r"
  have h: "active_ref ?h = (active_ref r)\<lparr>sn_cursor := grid_cursor g, sn_wrap_pending := False\<rparr>"
    by (simp add: restore_cursor_def Let_def saved)
  have none: "nth_opt (sn_rows (active_ref ?h)) (cu_row (grid_cursor ?h)) = None"
    using active_rows [OF r(2)] r(3) assms(3) by (simp add: h grid_cursor_def)
  then have "cell_at (sn_rows (active_ref ?h)) (cu_row (grid_cursor ?h)) (cu_column (grid_cursor ?h)) = None"
    by (simp only: cell_at_def none Option.bind.simps)
  then have "write_character W ch DefaultColor DefaultColor attributes_default None ?h = None"
    using assms(5) by (simp add: write_character_def Let_def h)
  then have "grid_run W [Print [ch]] ?h = None"
    using assms(6-9) by (simp add: print_character_def Let_def)
  moreover have "grid_run W [SaveCursor, ResizeGrid sz, RestoreCursor] g = Some ?h" using r(1) by simp
  ultimately show ?thesis by blast
qed

theorem restored_cursor_panics_witness:
  "\<exists>h. grid_run ascii_width [SaveCursor, ResizeGrid \<lparr>gs_rows = 1, gs_columns = 2\<rparr>, RestoreCursor]
      (set_cursor 1 0 (grid_new \<lparr>gs_rows = 2, gs_columns = 2\<rparr> 0)) = Some h \<and>
    grid_run ascii_width [Print [97]] h = None"
proof -
  have g: "grid_ok (set_cursor 1 0 (grid_new \<lparr>gs_rows = 2, gs_columns = 2\<rparr> 0))"
    by (intro keeps_grid_ok [OF keeps_set_cursor]) (simp add: grid_new_ok)
  have c: "cu_row (grid_cursor (set_cursor 1 0 (grid_new \<lparr>gs_rows = 2, gs_columns = 2\<rparr> 0))) = 1"
    by (simp add: set_cursor_def Let_def grid_cursor_def grid_new_def)
  show ?thesis
    using restored_cursor_panics [OF g, of "\<lparr>gs_rows = 1, gs_columns = 2\<rparr>" ascii_width 97] c
    by (simp add: ascii_width_def is_control_def)
qed

end
