(* ===== verification/TerminalParser.thy ===== *)
theory TerminalParser imports TerminalScreen begin

text \<open>
  The terminal model of strukt-terminal (\<open>parser.rs\<close>): the reaction of the grid, the pen, the title,
  the modes and the hyperlinks to the events of an escape sequence parser. The parser itself is the
  third-party crate vte and a parameter: it takes bytes and its state to events and the next state.
  The events \<open>Perform\<close> ignores (\<open>hook\<close>, \<open>put\<close>, \<open>unhook\<close>) are not among them. \<open>None\<close> is a panic.
\<close>

section \<open>State\<close>

definition OSC_PAYLOAD_LIMIT :: nat where "OSC_PAYLOAD_LIMIT = 8 * 1024"

definition HYPERLINK_LIMIT :: nat where "HYPERLINK_LIMIT = 4096"

record parser_diagnostics =
  pd_discarded_sequences :: u64
  pd_unsupported_sequences :: u64

record pen =
  pn_foreground :: color
  pn_background :: color
  pn_attributes :: cell_attributes
  pn_hyperlink :: "hyperlink_id option"

definition pen_default :: pen where
  "pen_default = \<lparr>pn_foreground = DefaultColor, pn_background = DefaultColor, pn_attributes = attributes_default,
     pn_hyperlink = None\<rparr>"

record terminal_performer =
  pf_grid :: grid
  pf_pen :: pen
  pf_title :: "rust_string option"
  pf_diagnostics :: parser_diagnostics
  pf_modes :: terminal_modes
  pf_hyperlink_targets :: "(hyperlink_id, rust_string) btree"
  pf_next_hyperlink_id :: u32

record 'p terminal_model =
  tm_parser :: 'p
  tm_performer :: terminal_performer

text \<open>The calls the parser makes.\<close>

datatype vte_event =
    VtePrint scalar
  | VteExecute u8
  | VteOsc "u8 list list" bool
  | VteCsi "u16 list list" "u8 list" bool scalar
  | VteEsc "u8 list" bool u8

type_synonym 'p vte = "'p \<Rightarrow> u8 list \<Rightarrow> vte_event list \<times> 'p"

definition performer_new :: "grid_size \<Rightarrow> nat \<Rightarrow> terminal_performer" where
  "performer_new sz scrollback_limit =
     \<lparr>pf_grid = grid_new sz scrollback_limit, pf_pen = pen_default, pf_title = None,
      pf_diagnostics = \<lparr>pd_discarded_sequences = 0, pd_unsupported_sequences = 0\<rparr>,
      pf_modes = modes_default, pf_hyperlink_targets = bt_empty, pf_next_hyperlink_id = 1\<rparr>"

definition model_new :: "'p \<Rightarrow> grid_size \<Rightarrow> nat \<Rightarrow> 'p terminal_model" where
  "model_new parser sz scrollback_limit =
     \<lparr>tm_parser = parser, tm_performer = performer_new sz scrollback_limit\<rparr>"

section \<open>Diagnostics and the grid\<close>

definition discarded :: "terminal_performer \<Rightarrow> terminal_performer" where
  "discarded f = f\<lparr>pf_diagnostics := (pf_diagnostics f)
     \<lparr>pd_discarded_sequences := sat_inc (pd_discarded_sequences (pf_diagnostics f))\<rparr>\<rparr>"

definition unsupported :: "terminal_performer \<Rightarrow> terminal_performer" where
  "unsupported f = f\<lparr>pf_diagnostics := (pf_diagnostics f)
     \<lparr>pd_unsupported_sequences := sat_inc (pd_unsupported_sequences (pf_diagnostics f))\<rparr>\<rparr>"

text \<open>An operation on the grid of the performer.\<close>

definition on_grid :: "(grid \<Rightarrow> grid option) \<Rightarrow> terminal_performer \<Rightarrow> terminal_performer option" where
  "on_grid op f = map_option (\<lambda>g. f\<lparr>pf_grid := g\<rparr>) (op (pf_grid f))"

section \<open>Printing and control characters\<close>

definition perform_print :: "(scalar \<Rightarrow> nat option) \<Rightarrow> scalar \<Rightarrow> terminal_performer \<Rightarrow> terminal_performer option" where
  "perform_print W character f =
     on_grid (print_styled W character (pn_foreground (pf_pen f)) (pn_background (pf_pen f))
       (pn_attributes (pf_pen f)) (pn_hyperlink (pf_pen f))) f"

definition perform_execute :: "(scalar \<Rightarrow> nat option) \<Rightarrow> u8 \<Rightarrow> terminal_performer \<Rightarrow> terminal_performer option" where
  "perform_execute W byte f =
     (if byte = 13 then on_grid (grid_print W [13]) f
      else if byte = 10 \<or> byte = 11 \<or> byte = 12 then on_grid (grid_print W [10]) f
      else if byte = 8 then on_grid (grid_print W [8]) f
      else if byte = 9 then on_grid (grid_print W [9]) f
      else if byte = 7 then Some f
      else Some (unsupported f))"

section \<open>Operating system commands\<close>

definition apply_hyperlink :: "u8 list list \<Rightarrow> terminal_performer \<Rightarrow> terminal_performer" where
  "apply_hyperlink params f =
     (case nth_opt params 2 of
        None \<Rightarrow> discarded f
      | Some uri \<Rightarrow>
          if uri = [] then f\<lparr>pf_pen := (pf_pen f)\<lparr>pn_hyperlink := None\<rparr>\<rparr>
          else (case from_utf8 uri of
              None \<Rightarrow> discarded f
            | Some uri \<Rightarrow>
                if bt_len (pf_hyperlink_targets f) \<ge> HYPERLINK_LIMIT then discarded f
                else let i = pf_next_hyperlink_id f in
                  f\<lparr>pf_next_hyperlink_id := (if i = - 1 then i else i + 1),
                    pf_hyperlink_targets := bt_insert i uri (pf_hyperlink_targets f),
                    pf_pen := (pf_pen f)\<lparr>pn_hyperlink := Some i\<rparr>\<rparr>))"

definition osc_dispatch :: "u8 list list \<Rightarrow> bool \<Rightarrow> terminal_performer \<Rightarrow> terminal_performer" where
  "osc_dispatch params bell_terminated f =
     (case first_opt params of
        None \<Rightarrow> discarded f
      | Some command \<Rightarrow>
          if sum_list (map length (drop 1 params)) > OSC_PAYLOAD_LIMIT then discarded f
          else (case nth_opt params 1 of
              Some title \<Rightarrow>
                if command = as_bytes (lit ''0'') \<or> command = as_bytes (lit ''2'') then
                  (case from_utf8 title of Some title \<Rightarrow> f\<lparr>pf_title := Some title\<rparr> | None \<Rightarrow> discarded f)
                else if command = as_bytes (lit ''8'') then apply_hyperlink params f
                else unsupported f
            | None \<Rightarrow> if command = as_bytes (lit ''8'') then apply_hyperlink params f else unsupported f))"

section \<open>Control sequences\<close>

definition flatten_params :: "u16 list list \<Rightarrow> u16 list" where
  "flatten_params params = concat params"

definition param :: "u16 list \<Rightarrow> nat \<Rightarrow> u16 \<Rightarrow> u16" where
  "param params index fallback =
     (case nth_opt params index of Some v \<Rightarrow> if v \<noteq> 0 then v else fallback | None \<Rightarrow> fallback)"

text \<open>\<open>u8::try_from\<close> and \<open>u16::saturating_sub\<close>.\<close>

definition u8_try_from :: "u16 \<Rightarrow> u8 option" where
  "u8_try_from v = (if v < 256 then Some (ucast v) else None)"

definition sat_pred :: "u16 \<Rightarrow> u16" where
  "sat_pred v = (if v = 0 then 0 else v - 1)"

definition extended_color :: "u16 list \<Rightarrow> (color \<times> nat) option" where
  "extended_color params =
     (case params of
        k # rest \<Rightarrow>
          if k = 5 then
            (case rest of index # _ \<Rightarrow> do { i \<leftarrow> u8_try_from index; Some (Indexed i, 2) } | [] \<Rightarrow> None)
          else if k = 2 then
            (case rest of
               red # green # blue # _ \<Rightarrow> do {
                 r \<leftarrow> u8_try_from red; g \<leftarrow> u8_try_from green; b \<leftarrow> u8_try_from blue;
                 Some (Rgb r g b, 4)
               }
             | _ \<Rightarrow> None)
          else None
      | [] \<Rightarrow> None)"

definition set_foreground :: "color \<Rightarrow> terminal_performer \<Rightarrow> terminal_performer" where
  "set_foreground c f = f\<lparr>pf_pen := (pf_pen f)\<lparr>pn_foreground := c\<rparr>\<rparr>"

definition set_background :: "color \<Rightarrow> terminal_performer \<Rightarrow> terminal_performer" where
  "set_background c f = f\<lparr>pf_pen := (pf_pen f)\<lparr>pn_background := c\<rparr>\<rparr>"

definition on_attributes :: "(cell_attributes \<Rightarrow> cell_attributes) \<Rightarrow> terminal_performer \<Rightarrow> terminal_performer" where
  "on_attributes h f = f\<lparr>pf_pen := (pf_pen f)\<lparr>pn_attributes := h (pn_attributes (pf_pen f))\<rparr>\<rparr>"

text \<open>The arms of \<open>apply_sgr\<close> that read one parameter.\<close>

definition sgr_single :: "u16 \<Rightarrow> terminal_performer \<Rightarrow> terminal_performer option" where
  "sgr_single p f =
     (if p = 0 then Some (f\<lparr>pf_pen := pen_default\<rparr>)
      else if p = 1 then Some (on_attributes (ca_bold_update (\<lambda>_. True)) f)
      else if p = 2 then Some (on_attributes (ca_faint_update (\<lambda>_. True)) f)
      else if p = 3 then Some (on_attributes (ca_italic_update (\<lambda>_. True)) f)
      else if p = 4 then Some (on_attributes (ca_underline_update (\<lambda>_. True)) f)
      else if p = 7 then Some (on_attributes (ca_inverse_update (\<lambda>_. True)) f)
      else if p = 9 then Some (on_attributes (ca_strikethrough_update (\<lambda>_. True)) f)
      else if p = 22 then Some (on_attributes (\<lambda>a. a\<lparr>ca_bold := False, ca_faint := False\<rparr>) f)
      else if p = 23 then Some (on_attributes (ca_italic_update (\<lambda>_. False)) f)
      else if p = 24 then Some (on_attributes (ca_underline_update (\<lambda>_. False)) f)
      else if p = 27 then Some (on_attributes (ca_inverse_update (\<lambda>_. False)) f)
      else if p = 29 then Some (on_attributes (ca_strikethrough_update (\<lambda>_. False)) f)
      else if 30 \<le> p \<and> p \<le> 37 then map_option (\<lambda>i. set_foreground (Indexed i) f) (u8_try_from (p - 30))
      else if p = 39 then Some (set_foreground DefaultColor f)
      else if 40 \<le> p \<and> p \<le> 47 then map_option (\<lambda>i. set_background (Indexed i) f) (u8_try_from (p - 40))
      else if p = 49 then Some (set_background DefaultColor f)
      else if 90 \<le> p \<and> p \<le> 97 then map_option (\<lambda>i. set_foreground (Indexed i) f) (u8_try_from (p - 90 + 8))
      else if 100 \<le> p \<and> p \<le> 107 then map_option (\<lambda>i. set_background (Indexed i) f) (u8_try_from (p - 100 + 8))
      else Some (unsupported f))"

fun sgr_loop :: "u16 list \<Rightarrow> terminal_performer \<Rightarrow> terminal_performer option" where
  "sgr_loop [] f = Some f"
| "sgr_loop (p # rest) f =
     (if p = 38 \<or> p = 48 then
        (case extended_color rest of
           Some (color, consumed) \<Rightarrow>
             sgr_loop (drop consumed rest) (if p = 38 then set_foreground color f else set_background color f)
         | None \<Rightarrow> sgr_loop rest (discarded f))
      else Option.bind (sgr_single p f) (sgr_loop rest))"

definition apply_sgr :: "u16 list \<Rightarrow> terminal_performer \<Rightarrow> terminal_performer option" where
  "apply_sgr params f = sgr_loop (if params = [] then [0] else params) f"

definition set_private_mode :: "bool \<Rightarrow> u16 \<Rightarrow> terminal_performer \<Rightarrow> terminal_performer" where
  "set_private_mode enabled mode f =
     (if mode = 1049 then
        f\<lparr>pf_grid := (if enabled then enter_alternate_screen (pf_grid f) else leave_alternate_screen (pf_grid f))\<rparr>
      else if mode = 1 then f\<lparr>pf_modes := (pf_modes f)\<lparr>tm_application_cursor_keys := enabled\<rparr>\<rparr>
      else if mode = 25 then f\<lparr>pf_grid := set_cursor_visible enabled (pf_grid f)\<rparr>
      else if mode = 1004 then f\<lparr>pf_modes := (pf_modes f)\<lparr>tm_focus_reporting := enabled\<rparr>\<rparr>
      else if mode = 1000 \<or> mode = 1002 \<or> mode = 1003 \<or> mode = 1006
        then f\<lparr>pf_modes := (pf_modes f)\<lparr>tm_mouse_reporting := enabled\<rparr>\<rparr>
      else if mode = 2004 then f\<lparr>pf_modes := (pf_modes f)\<lparr>tm_bracketed_paste := enabled\<rparr>\<rparr>
      else unsupported f)"

definition set_private_modes :: "u16 list \<Rightarrow> bool \<Rightarrow> terminal_performer \<Rightarrow> terminal_performer" where
  "set_private_modes params enabled f = fold (set_private_mode enabled) params f"

text \<open>The arm that sets the scrolling region.\<close>

definition csi_scroll_region :: "u16 list \<Rightarrow> terminal_performer \<Rightarrow> terminal_performer" where
  "csi_scroll_region values f =
     (let rows = gs_rows (gr_size (pf_grid f));
          bottom_default = (if rows < 2 ^ 16 then of_nat rows else - 1);
          upper = unat (sat_pred (param values 0 1));
          lower = unat (sat_pred (min (param values 1 bottom_default) bottom_default))
      in case set_scroll_region upper lower (pf_grid f) of
           (Inl _, g) \<Rightarrow> discarded (f\<lparr>pf_grid := g\<rparr>)
         | (Inr _, g) \<Rightarrow> f\<lparr>pf_grid := g\<rparr>)"

definition csi_dispatch ::
  "u16 list list \<Rightarrow> u8 list \<Rightarrow> bool \<Rightarrow> scalar \<Rightarrow> terminal_performer \<Rightarrow> terminal_performer option" where
  "csi_dispatch params intermediates ignore action f =
     (if ignore then Some (discarded f)
      else
        let values = flatten_params params;
            n = param values 0 1;
            plain = (\<lambda>c. action = of_char c \<and> intermediates = []);
            private = (\<lambda>c. action = of_char c \<and> intermediates = [63]);
            g = pf_grid f
        in
          if plain CHR ''m'' then apply_sgr values f
          else if private CHR ''h'' then Some (set_private_modes values True f)
          else if private CHR ''l'' then Some (set_private_modes values False f)
          else if plain CHR ''H'' \<or> plain CHR ''f'' then
            Some (f\<lparr>pf_grid := set_cursor (unat (sat_pred n)) (unat (sat_pred (param values 1 1))) g\<rparr>)
          else if plain CHR ''A'' then Some (f\<lparr>pf_grid := move_cursor (- uint n) 0 g\<rparr>)
          else if plain CHR ''B'' \<or> plain CHR ''e'' then Some (f\<lparr>pf_grid := move_cursor (uint n) 0 g\<rparr>)
          else if plain CHR ''C'' \<or> plain CHR ''a'' then Some (f\<lparr>pf_grid := move_cursor 0 (uint n) g\<rparr>)
          else if plain CHR ''D'' then Some (f\<lparr>pf_grid := move_cursor 0 (- uint n) g\<rparr>)
          else if plain CHR ''G'' \<or> plain CHR ''`'' then
            Some (f\<lparr>pf_grid := set_cursor (cu_row (grid_cursor g)) (unat (sat_pred n)) g\<rparr>)
          else if plain CHR ''d'' then
            Some (f\<lparr>pf_grid := set_cursor (unat (sat_pred n)) (cu_column (grid_cursor g)) g\<rparr>)
          else if plain CHR ''J'' then
            (let v = param values 0 0 in
             on_grid (erase_in_display (if v = 0 then Below else if v = 1 then Above else AllRows)) f)
          else if plain CHR ''K'' then
            (let v = param values 0 0 in
             on_grid (erase_in_line (if v = 0 then ToRight else if v = 1 then ToLeft else AllColumns)) f)
          else if plain CHR ''@'' then on_grid (insert_blank_characters (unat n)) f
          else if plain CHR ''P'' then on_grid (delete_characters (unat n)) f
          else if plain CHR ''L'' then on_grid (insert_blank_lines (unat n)) f
          else if plain CHR ''M'' then on_grid (delete_lines (unat n)) f
          else if plain CHR ''S'' then on_grid (scroll_up (unat n)) f
          else if plain CHR ''r'' then Some (csi_scroll_region values f)
          else if plain CHR ''s'' then Some (f\<lparr>pf_grid := save_cursor g\<rparr>)
          else if plain CHR ''u'' then Some (f\<lparr>pf_grid := restore_cursor g\<rparr>)
          else Some (unsupported f))"

definition esc_dispatch ::
  "(scalar \<Rightarrow> nat option) \<Rightarrow> u8 list \<Rightarrow> bool \<Rightarrow> u8 \<Rightarrow> terminal_performer \<Rightarrow> terminal_performer option" where
  "esc_dispatch W intermediates ignore byte f =
     (if ignore \<or> intermediates \<noteq> [] then Some (discarded f)
      else if byte = 55 then Some (f\<lparr>pf_grid := save_cursor (pf_grid f)\<rparr>)
      else if byte = 56 then Some (f\<lparr>pf_grid := restore_cursor (pf_grid f)\<rparr>)
      else if byte = 68 then on_grid (grid_print W [10]) f
      else if byte = 69 then on_grid (grid_print W [13, 10]) f
      else if byte = 77 then on_grid reverse_index f
      else Some (unsupported f))"

section \<open>The model\<close>

fun perform_event :: "(scalar \<Rightarrow> nat option) \<Rightarrow> vte_event \<Rightarrow> terminal_performer \<Rightarrow> terminal_performer option" where
  "perform_event W (VtePrint c) f = perform_print W c f"
| "perform_event W (VteExecute b) f = perform_execute W b f"
| "perform_event W (VteOsc params bell) f = Some (osc_dispatch params bell f)"
| "perform_event W (VteCsi params intermediates ignore action) f = csi_dispatch params intermediates ignore action f"
| "perform_event W (VteEsc intermediates ignore byte) f = esc_dispatch W intermediates ignore byte f"

fun perform_all :: "(scalar \<Rightarrow> nat option) \<Rightarrow> vte_event list \<Rightarrow> terminal_performer \<Rightarrow> terminal_performer option" where
  "perform_all W [] f = Some f"
| "perform_all W (e # es) f = Option.bind (perform_event W e f) (perform_all W es)"

definition model_advance ::
  "(scalar \<Rightarrow> nat option) \<Rightarrow> 'p vte \<Rightarrow> u8 list \<Rightarrow> 'p terminal_model \<Rightarrow> 'p terminal_model option" where
  "model_advance W vte bytes m =
     (case vte (tm_parser m) bytes of (events, parser) \<Rightarrow>
        map_option (\<lambda>f. m\<lparr>tm_parser := parser, tm_performer := f\<rparr>) (perform_all W events (tm_performer m)))"

definition model_resize :: "grid_size \<Rightarrow> 'p terminal_model \<Rightarrow> (bool \<times> 'p terminal_model) option" where
  "model_resize sz m =
     map_option (\<lambda>(b, g). (b, m\<lparr>tm_performer := (tm_performer m)\<lparr>pf_grid := g\<rparr>\<rparr>))
       (grid_resize sz (pf_grid (tm_performer m)))"

definition model_snapshot :: "nat \<Rightarrow> 'p terminal_model \<Rightarrow> terminal_snapshot" where
  "model_snapshot viewport_offset m =
     (grid_snapshot viewport_offset (pf_grid (tm_performer m)))
       \<lparr>ts_title := pf_title (tm_performer m), ts_modes := pf_modes (tm_performer m),
        ts_hyperlink_targets := pf_hyperlink_targets (tm_performer m)\<rparr>"

section \<open>What the events keep\<close>

text \<open>
  Besides the grid: the title and each hyperlink target are no longer than an operating system
  command may be, there are no more targets than the limit, and the pen's hyperlink has a target.
\<close>

definition metadata_ok :: "terminal_performer \<Rightarrow> bool" where
  "metadata_ok f \<longleftrightarrow>
     (case pf_title f of None \<Rightarrow> True | Some t \<Rightarrow> str_len t \<le> OSC_PAYLOAD_LIMIT) \<and>
     bt_len (pf_hyperlink_targets f) \<le> HYPERLINK_LIMIT \<and>
     (\<forall>i uri. bt_get (pf_hyperlink_targets f) i = Some uri \<longrightarrow> str_len uri \<le> OSC_PAYLOAD_LIMIT) \<and>
     (case pn_hyperlink (pf_pen f) of None \<Rightarrow> True | Some i \<Rightarrow> bt_contains (pf_hyperlink_targets f) i)"

definition performs :: "terminal_performer \<Rightarrow> terminal_performer option \<Rightarrow> bool" where
  "performs f m \<longleftrightarrow>
     (\<exists>f'. m = Some f' \<and> keeps_grid (pf_grid f) (pf_grid f') \<and> (metadata_ok f \<longrightarrow> metadata_ok f'))"

lemma performs_Some [simp]:
  "performs f (Some f') \<longleftrightarrow> keeps_grid (pf_grid f) (pf_grid f') \<and> (metadata_ok f \<longrightarrow> metadata_ok f')"
  by (simp add: performs_def)

lemma performs_bind:
  "performs f m \<Longrightarrow> (\<And>h. m = Some h \<Longrightarrow> keeps_grid (pf_grid f) (pf_grid h) \<Longrightarrow> performs h (k h)) \<Longrightarrow>
     performs f (Option.bind m k)"
  by (fastforce simp: performs_def intro: keeps_grid_trans)

lemma metadata_grid [simp]: "metadata_ok (f\<lparr>pf_grid := g\<rparr>) = metadata_ok f"
  by (simp add: metadata_ok_def split: option.split)

lemma performs_grid: "runs (pf_grid f) (op (pf_grid f)) \<Longrightarrow> performs f (on_grid op f)"
  by (auto simp: performs_def on_grid_def runs_def)

lemma diagnostics_simps [simp]:
  "pf_grid (discarded f) = pf_grid f" "metadata_ok (discarded f) = metadata_ok f"
  "pf_grid (unsupported f) = pf_grid f" "metadata_ok (unsupported f) = metadata_ok f"
  by (simp_all add: discarded_def unsupported_def metadata_ok_def split: option.split)

lemma metadata_colors [simp]:
  "metadata_ok (set_foreground c f) = metadata_ok f" "metadata_ok (set_background c f) = metadata_ok f"
  "metadata_ok (on_attributes h f) = metadata_ok f" "pf_grid (set_foreground c f) = pf_grid f"
  "pf_grid (set_background c f) = pf_grid f" "pf_grid (on_attributes h f) = pf_grid f"
  by (simp_all add: set_foreground_def set_background_def on_attributes_def metadata_ok_def split: option.split)

lemma metadata_pen_default: "metadata_ok f \<Longrightarrow> metadata_ok (f\<lparr>pf_pen := pen_default\<rparr>)"
  by (simp add: metadata_ok_def pen_default_def)

lemma first_param_fits: "nth_opt params i = Some x \<Longrightarrow> 0 < i \<Longrightarrow> length x \<le> sum_list (map length (drop 1 params))"
  by (cases params) (auto simp: nth_opt_Some intro!: member_le_sum_list)

lemma title_fits:
  "nth_opt params (Suc 0) = Some x \<Longrightarrow> \<not> OSC_PAYLOAD_LIMIT < sum_list (map length (drop (Suc 0) params)) \<Longrightarrow>
     length x \<le> OSC_PAYLOAD_LIMIT"
  using first_param_fits [of params 1 x] by simp

lemma metadata_link:
  assumes "metadata_ok f" "bt_len (pf_hyperlink_targets f) < HYPERLINK_LIMIT" "str_len uri \<le> OSC_PAYLOAD_LIMIT"
  shows "metadata_ok (f\<lparr>pf_next_hyperlink_id := n, pf_hyperlink_targets := bt_insert i uri (pf_hyperlink_targets f),
    pf_pen := (pf_pen f)\<lparr>pn_hyperlink := Some i\<rparr>\<rparr>)"
  using assms by (auto simp: metadata_ok_def bt_len_insert bt_contains_def split: option.splits)

lemma metadata_no_link: "metadata_ok f \<Longrightarrow> metadata_ok (f\<lparr>pf_pen := (pf_pen f)\<lparr>pn_hyperlink := None\<rparr>\<rparr>)"
  by (simp add: metadata_ok_def)

lemma apply_hyperlink_metadata:
  assumes "metadata_ok f" "sum_list (map length (drop 1 params)) \<le> OSC_PAYLOAD_LIMIT"
  shows "metadata_ok (apply_hyperlink params f)"
proof (cases "nth_opt params 2")
  case None
  then show ?thesis using assms(1) by (simp add: apply_hyperlink_def del: nth_opt_None)
next
  case (Some uri)
  with assms(2) have len: "length uri \<le> OSC_PAYLOAD_LIMIT" using first_param_fits [OF Some] by simp
  show ?thesis
    using assms(1) len from_utf8_len [of uri]
    by (cases "from_utf8 uri") (simp_all add: apply_hyperlink_def Let_def Some metadata_link metadata_no_link)
qed

lemma metadata_title: "metadata_ok f \<Longrightarrow> str_len t \<le> OSC_PAYLOAD_LIMIT \<Longrightarrow> metadata_ok (f\<lparr>pf_title := Some t\<rparr>)"
  by (auto simp: metadata_ok_def split: option.splits)

lemma apply_hyperlink_grid [simp]: "pf_grid (apply_hyperlink params f) = pf_grid f"
  by (simp add: apply_hyperlink_def Let_def split: option.split)

lemma performs_osc: "grid_ok (pf_grid f) \<Longrightarrow> performs f (Some (osc_dispatch params bell f))"
proof -
  assume g: "grid_ok (pf_grid f)"
  have "pf_grid (osc_dispatch params bell f) = pf_grid f"
    by (simp add: osc_dispatch_def split: option.split)
  moreover have "metadata_ok f \<Longrightarrow> metadata_ok (osc_dispatch params bell f)"
    by (simp only: osc_dispatch_def split: option.split if_split)
      (auto simp: apply_hyperlink_metadata intro!: metadata_title dest: title_fits dest!: from_utf8_len)
  ultimately show ?thesis using g by (simp add: keeps_refl)
qed

lemma u8_try_from_small: "p < 256 \<Longrightarrow> \<exists>i. u8_try_from p = Some i"
  by (simp add: u8_try_from_def)

lemma performs_sgr_single: "grid_ok (pf_grid f) \<Longrightarrow> performs f (sgr_single p f)"
proof -
  assume g: "grid_ok (pf_grid f)"
  have "30 \<le> p \<Longrightarrow> p \<le> 37 \<Longrightarrow> p - 30 < 256" "40 \<le> p \<Longrightarrow> p \<le> 47 \<Longrightarrow> p - 40 < 256"
    "90 \<le> p \<Longrightarrow> p \<le> 97 \<Longrightarrow> p - 90 + 8 < 256" "100 \<le> p \<Longrightarrow> p \<le> 107 \<Longrightarrow> p - 100 + 8 < 256"
    by unat_arith+
  then have "30 \<le> p \<Longrightarrow> p \<le> 37 \<Longrightarrow> \<exists>i. u8_try_from (p - 30) = Some i"
    "40 \<le> p \<Longrightarrow> p \<le> 47 \<Longrightarrow> \<exists>i. u8_try_from (p - 40) = Some i"
    "90 \<le> p \<Longrightarrow> p \<le> 97 \<Longrightarrow> \<exists>i. u8_try_from (p - 90 + 8) = Some i"
    "100 \<le> p \<Longrightarrow> p \<le> 107 \<Longrightarrow> \<exists>i. u8_try_from (p - 100 + 8) = Some i"
    using u8_try_from_small by blast+
  with g show ?thesis
    unfolding sgr_single_def by (auto simp: keeps_refl metadata_pen_default)
qed

lemma performs_sgr_loop: "grid_ok (pf_grid f) \<Longrightarrow> performs f (sgr_loop ps f)"
proof (induction ps f rule: sgr_loop.induct)
  case (1 f)
  then show ?case by (simp add: keeps_refl)
next
  case (2 p rest f)
  show ?case
  proof (cases "p = 38 \<or> p = 48")
    case True
    show ?thesis
    proof (cases "extended_color rest")
      case None
      then have "performs (discarded f) (sgr_loop rest (discarded f))" using 2 True by simp
      then show ?thesis using True None by (simp add: performs_def)
    next
      case (Some cn)
      then obtain c n where e: "extended_color rest = Some (c, n)" by (cases cn) simp
      then show ?thesis using 2(2) [OF True e refl] 2(4) True by (auto simp: performs_def)
    qed
  next
    case False
    have "performs f (Option.bind (sgr_single p f) (sgr_loop rest))"
      using 2(3) [OF False] 2(4) by (intro performs_bind performs_sgr_single) (auto dest: keeps_grid_ok)
    with False show ?thesis by simp
  qed
qed

lemma performs_apply_sgr: "grid_ok (pf_grid f) \<Longrightarrow> performs f (apply_sgr ps f)"
  by (simp add: apply_sgr_def performs_sgr_loop)

lemma metadata_modes [simp]: "metadata_ok (f\<lparr>pf_modes := m\<rparr>) = metadata_ok f"
  by (simp add: metadata_ok_def split: option.split)

lemma performs_private_modes: "grid_ok (pf_grid f) \<Longrightarrow> performs f (Some (set_private_modes ps b f))"
  unfolding set_private_modes_def
proof (induction ps arbitrary: f)
  case Nil
  then show ?case by (simp add: keeps_refl)
next
  case (Cons p ps)
  have one: "performs f (Some (set_private_mode b p f))"
    using Cons.prems by (auto simp: set_private_mode_def keeps_refl keeps_enter_alternate keeps_leave_alternate keeps_set_cursor_visible)
  then have "grid_ok (pf_grid (set_private_mode b p f))" by (auto dest: keeps_grid_ok)
  from Cons.IH [OF this] one show ?case by (auto intro: keeps_grid_trans)
qed

lemma performs_scroll_region: "grid_ok (pf_grid f) \<Longrightarrow> performs f (Some (csi_scroll_region values f))"
  using keeps_scroll_region [of "pf_grid f"]
  by (auto simp: csi_scroll_region_def Let_def split: prod.split sum.split) (metis snd_conv)+

lemma performs_if: "performs f a \<Longrightarrow> performs f b \<Longrightarrow> performs f (if c then a else b)"
  by simp

lemma performs_keeps:
  "keeps_grid (pf_grid f) g \<Longrightarrow> performs f (Some (f\<lparr>pf_grid := g\<rparr>))"
  by simp

lemma performs_diagnostics:
  "grid_ok (pf_grid f) \<Longrightarrow> performs f (Some (discarded f))"
  "grid_ok (pf_grid f) \<Longrightarrow> performs f (Some (unsupported f))"
  by (simp_all add: keeps_refl)

lemma performs_csi:
  assumes g: "grid_ok (pf_grid f)" "saved_ok (pf_grid f)"
  shows "performs f (csi_dispatch params intermediates ignore action f)"
  unfolding csi_dispatch_def Let_def
  by (intro performs_if performs_diagnostics performs_apply_sgr performs_private_modes performs_scroll_region
      performs_keeps performs_grid keeps_set_cursor keeps_move_cursor keeps_save_cursor keeps_restore_cursor
      runs_erase_in_line runs_erase_in_display runs_insert_blank_characters
      runs_delete_characters runs_insert_blank_lines runs_delete_lines runs_scroll_up g)

lemma performs_esc:
  assumes g: "grid_ok (pf_grid f)" "saved_ok (pf_grid f)"
  shows "performs f (esc_dispatch W intermediates ignore byte f)"
  unfolding esc_dispatch_def
  by (intro performs_if performs_diagnostics performs_keeps performs_grid keeps_save_cursor keeps_restore_cursor
      runs_print runs_reverse_index g)

lemma performs_execute: "grid_ok (pf_grid f) \<Longrightarrow> performs f (perform_execute W byte f)"
  unfolding perform_execute_def
  by (intro performs_if performs_diagnostics performs_grid runs_print) (simp_all add: keeps_refl)

lemma performs_event:
  assumes g: "grid_ok (pf_grid f)" "saved_ok (pf_grid f)"
  shows "performs f (perform_event W e f)"
  using g
  by (cases e) (simp_all add: performs_csi performs_esc performs_execute performs_osc perform_print_def print_styled_def
      performs_grid runs_write_character del: performs_Some)

lemma performs_all:
  assumes "grid_ok (pf_grid f)" "saved_ok (pf_grid f)"
  shows "performs f (perform_all W es f)"
  using assms
proof (induction es arbitrary: f)
  case Nil
  then show ?case by (simp add: keeps_refl)
next
  case (Cons e es)
  have "performs f (Option.bind (perform_event W e f) (perform_all W es))"
    using Cons.prems by (intro performs_bind performs_event Cons.IH) (auto simp: keeps_grid_def)
  then show ?case by simp
qed

section \<open>Runs of the model\<close>

text \<open>What the runtime does to a model: it feeds bytes and resizes.\<close>

datatype model_command = Advance "u8 list" | ResizeModel grid_size

fun model_apply :: "(scalar \<Rightarrow> nat option) \<Rightarrow> 'p vte \<Rightarrow> model_command \<Rightarrow> 'p terminal_model \<Rightarrow> 'p terminal_model option" where
  "model_apply W vte (Advance bytes) m = model_advance W vte bytes m"
| "model_apply W vte (ResizeModel sz) m = map_option snd (model_resize sz m)"

fun model_run :: "(scalar \<Rightarrow> nat option) \<Rightarrow> 'p vte \<Rightarrow> model_command list \<Rightarrow> 'p terminal_model \<Rightarrow> 'p terminal_model option" where
  "model_run W vte [] m = Some m"
| "model_run W vte (c # cs) m = Option.bind (model_apply W vte c m) (model_run W vte cs)"

fun model_never_shrinks :: "model_command list \<Rightarrow> grid_size \<Rightarrow> bool" where
  "model_never_shrinks [] sz = True"
| "model_never_shrinks (Advance _ # cs) sz = model_never_shrinks cs sz"
| "model_never_shrinks (ResizeModel new # cs) sz = (grows sz new \<and> model_never_shrinks cs new)"

fun model_last_size :: "model_command list \<Rightarrow> grid_size \<Rightarrow> grid_size" where
  "model_last_size [] sz = sz"
| "model_last_size (Advance _ # cs) sz = model_last_size cs sz"
| "model_last_size (ResizeModel new # cs) sz = model_last_size cs new"

definition model_ok :: "'p terminal_model \<Rightarrow> bool" where
  "model_ok m \<longleftrightarrow> grid_ok (pf_grid (tm_performer m)) \<and> metadata_ok (tm_performer m)"

definition model_saved_ok :: "'p terminal_model \<Rightarrow> bool" where
  "model_saved_ok m \<longleftrightarrow> saved_ok (pf_grid (tm_performer m))"

definition model_size :: "'p terminal_model \<Rightarrow> grid_size" where
  "model_size m = gr_size (pf_grid (tm_performer m))"

lemma model_new_ok:
  "0 < gs_rows sz \<Longrightarrow> 0 < gs_columns sz \<Longrightarrow>
     model_ok (model_new p sz l) \<and> model_saved_ok (model_new p sz l) \<and> model_size (model_new p sz l) = sz"
  using grid_new_ok [of sz l]
  by (simp add: model_ok_def model_saved_ok_def model_size_def model_new_def performer_new_def metadata_ok_def
      pen_default_def bt_len_def grid_new_def)

lemma model_advance_ok:
  assumes "model_ok m" "model_saved_ok m"
  shows "\<exists>m'. model_advance W vte bytes m = Some m' \<and> model_ok m' \<and> model_saved_ok m' \<and> model_size m' = model_size m"
proof -
  obtain es p where v: "vte (tm_parser m) bytes = (es, p)" by (cases "vte (tm_parser m) bytes")
  from performs_all [of "tm_performer m" W es] assms obtain f where
    "perform_all W es (tm_performer m) = Some f" "keeps_grid (pf_grid (tm_performer m)) (pf_grid f)" "metadata_ok f"
    by (auto simp: performs_def model_ok_def model_saved_ok_def)
  with v assms show ?thesis
    by (simp add: model_advance_def model_ok_def model_saved_ok_def model_size_def keeps_grid_def)
qed

lemma model_resize_ok:
  assumes "model_ok m" "model_saved_ok m" "grows (model_size m) sz"
  shows "\<exists>m'. model_apply W vte (ResizeModel sz) m = Some m' \<and> model_ok m' \<and> model_saved_ok m' \<and> model_size m' = sz"
  using grid_apply_resize [of "pf_grid (tm_performer m)" sz W] assms
  by (auto simp: model_ok_def model_saved_ok_def model_size_def model_resize_def)

lemma model_run_ok:
  "model_ok m \<Longrightarrow> model_saved_ok m \<Longrightarrow> model_never_shrinks cs (model_size m) \<Longrightarrow>
     \<exists>m'. model_run W vte cs m = Some m' \<and> model_ok m' \<and> model_saved_ok m' \<and> model_size m' = model_last_size cs (model_size m)"
proof (induction cs arbitrary: m)
  case Nil
  then show ?case by simp
next
  case (Cons c cs)
  show ?case
  proof (cases c)
    case (Advance bytes)
    with model_advance_ok [OF Cons.prems(1,2), of W vte bytes] Cons.IH Cons.prems(3) show ?thesis by fastforce
  next
    case (ResizeModel sz)
    with model_resize_ok [OF Cons.prems(1,2), of sz W vte] Cons.IH Cons.prems(3) show ?thesis by fastforce
  qed
qed

lemma snapshot_rows:
  assumes "grid_ok g"
  shows "length (ts_rows (grid_snapshot v g)) = gs_rows (gr_size g)"
    "list_all (row_ok (gs_columns (gr_size g))) (ts_rows (grid_snapshot v g))"
  using active_rows [OF assms] assms
  by (auto simp: grid_snapshot_def Let_def grid_ok_def list_all_take_drop)

lemma model_snapshot_ok:
  assumes "model_ok m"
  shows "length (ts_rows (model_snapshot v m)) = gs_rows (model_size m)"
    "list_all (row_ok (gs_columns (model_size m))) (ts_rows (model_snapshot v m))"
    "bt_len (ts_hyperlink_targets (model_snapshot v m)) \<le> HYPERLINK_LIMIT"
    "pred_option (\<lambda>t. str_len t \<le> OSC_PAYLOAD_LIMIT) (ts_title (model_snapshot v m))"
  using assms snapshot_rows [of "pf_grid (tm_performer m)" v]
  by (auto simp: model_ok_def model_size_def model_snapshot_def metadata_ok_def split: option.splits)

text \<open>
  Once the limit of hyperlinks is reached, opening another one is discarded but does not close the
  one that is open: what is printed next carries the target of an earlier link.
\<close>

lemma further_links_keep_the_old_target:
  assumes "HYPERLINK_LIMIT \<le> bt_len (pf_hyperlink_targets f)" "nth_opt params 2 = Some (b # bs)"
  shows "pn_hyperlink (pf_pen (apply_hyperlink params f)) = pn_hyperlink (pf_pen f)"
  using assms by (simp add: apply_hyperlink_def discarded_def split: option.split)

section \<open>Properties\<close>

text \<open>
  C6. Whatever bytes a process writes and whatever the escape sequence parser makes of them, a
  terminal model that is not made smaller never panics, and every view of it, scrolled back or not,
  has exactly the rows and columns of its size, with at most the allowed hyperlinks and title.
\<close>

theorem terminal_models_never_panic:
  assumes "0 < gs_rows sz" "0 < gs_columns sz" "model_never_shrinks cs sz"
  shows "\<exists>m. model_run W vte cs (model_new p sz l) = Some m \<and> model_size m = model_last_size cs sz \<and>
    length (ts_rows (model_snapshot v m)) = gs_rows (model_size m) \<and>
    (\<forall>r \<in> set (ts_rows (model_snapshot v m)). length r = gs_columns (model_size m) \<and> list_all is_structurally_valid r) \<and>
    bt_len (ts_hyperlink_targets (model_snapshot v m)) \<le> HYPERLINK_LIMIT \<and>
    pred_option (\<lambda>t. str_len t \<le> OSC_PAYLOAD_LIMIT) (ts_title (model_snapshot v m))"
proof -
  note new = model_new_ok [OF assms(1,2), of p l]
  then obtain m where m: "model_run W vte cs (model_new p sz l) = Some m" "model_ok m" "model_size m = model_last_size cs sz"
    using model_run_ok [of "model_new p sz l" cs W vte] assms(3) by auto
  with model_snapshot_ok [OF m(2), of v] show ?thesis by (auto simp: row_ok_def list_all_iff)
qed

text \<open>A parser that hands every byte over as a control character or a printed one.\<close>

definition plain_vte :: "unit vte" where
  "plain_vte p bytes = (map (\<lambda>b. if b < 32 then VteExecute b else VtePrint (unat b)) bytes, p)"

theorem terminal_models_never_panic_witness:
  "\<exists>m. model_run ascii_width plain_vte [Advance [97, 10, 98], ResizeModel \<lparr>gs_rows = 3, gs_columns = 5\<rparr>, Advance [9, 99]]
      (model_new () \<lparr>gs_rows = 2, gs_columns = 4\<rparr> 10) = Some m \<and> model_size m = \<lparr>gs_rows = 3, gs_columns = 5\<rparr>"
  using terminal_models_never_panic [of "\<lparr>gs_rows = 2, gs_columns = 4\<rparr>"
      "[Advance [97, 10, 98], ResizeModel \<lparr>gs_rows = 3, gs_columns = 5\<rparr>, Advance [9, 99]]" ascii_width plain_vte "()" 10 0]
  by (auto simp: grows_def)

end
