(* ===== verification/TerminalTransport.thy ===== *)
theory TerminalTransport imports TerminalParser TerminalIds begin

text \<open>
  What the terminal runtime exchanges with processes (\<open>strukt-terminal/src/transport.rs\<close> and the
  requests of \<open>portable.rs\<close>). The processes themselves are trait objects over pseudo terminals: a
  handle. The operating system is a state \<open>'w\<close> that every call on a handle, every spawn and every
  reading of the clock takes and returns. Instants and durations are nanoseconds.
\<close>

section \<open>Sizes, requests, output\<close>

datatype transport_error =
    InvalidSize
  | InvalidExecutable
  | ShellUnavailable
  | InvalidWorkingDirectory
  | InvalidEnvironmentKey
  | Adapter rust_string
  | Io rust_string
  | WaitTimeout
  | TerminationTimeout

fun transport_error_text :: "transport_error \<Rightarrow> rust_string" where
  "transport_error_text InvalidSize = lit ''terminal rows and columns must be nonzero''"
| "transport_error_text InvalidExecutable = lit ''terminal executable must not be empty''"
| "transport_error_text ShellUnavailable = lit ''no usable default shell was found''"
| "transport_error_text InvalidWorkingDirectory =
     lit ''terminal working directory must be an existing absolute directory''"
| "transport_error_text InvalidEnvironmentKey = lit ''terminal environment key is invalid''"
| "transport_error_text (Adapter detail) = lit ''terminal platform adapter failed: '' @ detail"
| "transport_error_text (Io detail) = lit ''terminal IO failed: '' @ detail"
| "transport_error_text WaitTimeout = lit ''terminal wait timed out''"
| "transport_error_text TerminationTimeout = lit ''terminal termination timed out''"

record terminal_size =
  tz_rows :: u16
  tz_columns :: u16
  tz_pixel_width :: u16
  tz_pixel_height :: u16

definition terminal_size_new :: "u16 \<Rightarrow> u16 \<Rightarrow> transport_error + terminal_size" where
  "terminal_size_new rows columns =
     (if rows = 0 \<or> columns = 0 then Inl InvalidSize
      else Inr \<lparr>tz_rows = rows, tz_columns = columns, tz_pixel_width = 0, tz_pixel_height = 0\<rparr>)"

record spawn_request =
  sr_executable :: path
  sr_arguments :: "rust_string list"
  sr_working_directory :: path
  sr_environment :: "(rust_string \<times> rust_string) list"
  sr_size :: terminal_size

record output_chunk =
  oc_sequence :: u64
  oc_bytes :: "u8 list"

record exit_status =
  es_code :: "u32 option"
  es_signal :: "rust_string option"
  es_terminated :: bool

section \<open>Requests\<close>

text \<open>
  \<open>default_shell_request\<close> off Windows; the shell found through the environment is a parameter.
\<close>

definition default_shell_request ::
  "(transport_error + path) \<Rightarrow> path \<Rightarrow> terminal_size \<Rightarrow> transport_error + spawn_request" where
  "default_shell_request default_shell working_directory sz =
     and_then default_shell (\<lambda>executable.
       Inr \<lparr>sr_executable = executable, sr_arguments = [], sr_working_directory = working_directory,
         sr_environment = [(lit ''TERM'', lit ''xterm-256color''), (lit ''COLORTERM'', lit ''truecolor'')],
         sr_size = sz\<rparr>)"

definition validate_request :: "(path \<Rightarrow> bool) \<Rightarrow> (path \<Rightarrow> bool) \<Rightarrow> spawn_request \<Rightarrow> transport_error + unit" where
  "validate_request is_absolute is_dir request =
     (if sr_executable request = [] then Inl InvalidExecutable
      else if \<not> is_absolute (sr_working_directory request) \<or> \<not> is_dir (sr_working_directory request)
        then Inl InvalidWorkingDirectory
      else if list_ex (\<lambda>(key, _). key = [] \<or> 61 \<in> set key) (sr_environment request)
        then Inl InvalidEnvironmentKey
      else Inr ())"

section \<open>The outside\<close>

text \<open>
  The trait \<open>TerminalProcess\<close> on a handle, \<open>TerminalTransport::spawn\<close>, \<open>Instant::now\<close>, and the two
  parameters of the terminal model: the width of characters and the escape sequence parser with its
  initial state.
\<close>

record ('h, 'p, 'w) outside =
  os_width :: "scalar \<Rightarrow> nat option"
  os_vte :: "'p vte"
  os_parser :: "'p"
  os_now :: "'w \<Rightarrow> nat \<times> 'w"
  os_spawn :: "spawn_request \<Rightarrow> 'w \<Rightarrow> (transport_error + 'h) \<times> 'w"
  os_write :: "'h \<Rightarrow> u8 list \<Rightarrow> 'w \<Rightarrow> (transport_error + unit) \<times> 'w"
  os_resize :: "'h \<Rightarrow> terminal_size \<Rightarrow> 'w \<Rightarrow> (transport_error + unit) \<times> 'w"
  os_try_read :: "'h \<Rightarrow> 'w \<Rightarrow> (transport_error + output_chunk option) \<times> 'w"
  os_output_backpressured :: "'h \<Rightarrow> 'w \<Rightarrow> bool \<times> 'w"
  os_try_wait :: "'h \<Rightarrow> 'w \<Rightarrow> (transport_error + exit_status option) \<times> 'w"
  os_terminate :: "'h \<Rightarrow> nat \<Rightarrow> 'w \<Rightarrow> (transport_error + unit) \<times> 'w"

text \<open>The reader thread sends what one read returned, and a read of nothing closes it.\<close>

definition reads_something :: "('h, 'p, 'w) outside \<Rightarrow> bool" where
  "reads_something os \<longleftrightarrow> (\<forall>h w chunk. fst (os_try_read os h w) = Inr (Some chunk) \<longrightarrow> oc_bytes chunk \<noteq> [])"

text \<open>\<open>Instant::elapsed\<close> (saturating) of an optional instant, compared by \<open>is_some_and\<close>.\<close>

definition elapsed_is :: "('h, 'p, 'w) outside \<Rightarrow> (nat \<Rightarrow> bool) \<Rightarrow> nat option \<Rightarrow> 'w \<Rightarrow> bool \<times> 'w" where
  "elapsed_is os p since w =
     (case since of None \<Rightarrow> (False, w) | Some t \<Rightarrow> (case os_now os w of (now, w) \<Rightarrow> (p (now - t), w)))"

definition millis :: "nat \<Rightarrow> nat" where "millis n = n * 1000000"

end
