(* ===== verification/SessionWire.thy ===== *)
theory SessionWire imports SessionCatalog TerminalTransport begin

text \<open>
  What the session daemon and its clients exchange: the capabilities and errors of a provider
  (\<open>strukt-session/src/provider.rs\<close>), bounded screen snapshots (\<open>snapshot.rs\<close>) and the requests,
  responses and events of the protocol (\<open>protocol.rs\<close>) with their validation.
\<close>

section \<open>Providers\<close>

definition MAX_ERROR_BYTES :: nat where "MAX_ERROR_BYTES = 1024"

datatype provider_kind = NativeLocal | NativeRemote | Tmux

fun provider_kind_text :: "provider_kind \<Rightarrow> rust_string" where
  "provider_kind_text NativeLocal = lit ''native-local''"
| "provider_kind_text NativeRemote = lit ''native-remote''"
| "provider_kind_text Tmux = lit ''tmux''"

fun display_name :: "provider_kind \<Rightarrow> rust_string" where
  "display_name NativeLocal = lit ''strukt local''"
| "display_name NativeRemote = lit ''strukt native''"
| "display_name Tmux = lit ''tmux''"

datatype provider_action =
    Catalog | Attach | Detach | CreateSession | RenameSession | DuplicateSession | TerminateSession
  | MutateWindows | MutatePanes | StructuredHistory | Input | Resize

record provider_capabilities =
  pc_catalog :: bool
  pc_attach :: bool
  pc_detach :: bool
  pc_create_session :: bool
  pc_rename_session :: bool
  pc_duplicate_session :: bool
  pc_terminate_session :: bool
  pc_mutate_windows :: bool
  pc_mutate_panes :: bool
  pc_structured_history :: bool
  pc_input :: bool
  pc_resize :: bool

definition native_local :: provider_capabilities where
  "native_local =
     \<lparr>pc_catalog = True, pc_attach = True, pc_detach = True, pc_create_session = True, pc_rename_session = True,
      pc_duplicate_session = True, pc_terminate_session = True, pc_mutate_windows = True, pc_mutate_panes = True,
      pc_structured_history = True, pc_input = True, pc_resize = True\<rparr>"

definition native_remote :: provider_capabilities where
  "native_remote = native_local"

definition tmux_interop :: provider_capabilities where
  "tmux_interop =
     \<lparr>pc_catalog = True, pc_attach = True, pc_detach = True, pc_create_session = False, pc_rename_session = False,
      pc_duplicate_session = False, pc_terminate_session = False, pc_mutate_windows = False, pc_mutate_panes = False,
      pc_structured_history = False, pc_input = True, pc_resize = True\<rparr>"

definition read_only :: provider_capabilities where
  "read_only =
     \<lparr>pc_catalog = True, pc_attach = True, pc_detach = True, pc_create_session = False, pc_rename_session = False,
      pc_duplicate_session = False, pc_terminate_session = False, pc_mutate_windows = False, pc_mutate_panes = False,
      pc_structured_history = False, pc_input = False, pc_resize = False\<rparr>"

fun supports :: "provider_capabilities \<Rightarrow> provider_action \<Rightarrow> bool" where
  "supports c Catalog = pc_catalog c"
| "supports c Attach = pc_attach c"
| "supports c Detach = pc_detach c"
| "supports c CreateSession = pc_create_session c"
| "supports c RenameSession = pc_rename_session c"
| "supports c DuplicateSession = pc_duplicate_session c"
| "supports c TerminateSession = pc_terminate_session c"
| "supports c MutateWindows = pc_mutate_windows c"
| "supports c MutatePanes = pc_mutate_panes c"
| "supports c StructuredHistory = pc_structured_history c"
| "supports c Input = pc_input c"
| "supports c Resize = pc_resize c"

datatype provider_health =
    HealthStopped
  | Connecting
  | Ready
  | Stale rust_string
  | HealthFailed rust_string

definition health_stale :: "rust_string \<Rightarrow> provider_health" where
  "health_stale detail = Stale (bounded_detail MAX_ERROR_BYTES detail)"

definition health_failed :: "rust_string \<Rightarrow> provider_health" where
  "health_failed detail = HealthFailed (bounded_detail MAX_ERROR_BYTES detail)"

datatype provider_error =
    Unavailable
  | AuthenticationFailed
  | VersionIncompatible
  | ProviderStaleRevision
  | ProviderCapacityReached
  | InvalidAction
  | NotFound
  | TransportLost
  | ProcessFailed rust_string
  | Internal rust_string

definition process_failed :: "rust_string \<Rightarrow> provider_error" where
  "process_failed detail = ProcessFailed (bounded_detail MAX_ERROR_BYTES detail)"

definition internal :: "rust_string \<Rightarrow> provider_error" where
  "internal detail = Internal (bounded_detail MAX_ERROR_BYTES detail)"

section \<open>Snapshots\<close>

definition MAX_ROWS :: nat where "MAX_ROWS = 2048"
definition MAX_COLUMNS :: nat where "MAX_COLUMNS = 512"
definition MAX_SNAPSHOT_BYTES :: nat where "MAX_SNAPSHOT_BYTES = 1024 * 1024"
definition MAX_TITLE_BYTES :: nat where "MAX_TITLE_BYTES = 512"
definition MAX_FAILURE_BYTES :: nat where "MAX_FAILURE_BYTES = 1024"
definition CELL_OVERHEAD_BYTES :: nat where "CELL_OVERHEAD_BYTES = 32"

datatype attention_state = NoAttention | Unread | Attention

fun on_output :: "bool \<Rightarrow> attention_state \<Rightarrow> attention_state" where
  "on_output active_at_newest_revision a =
     (if active_at_newest_revision then a else case a of NoAttention \<Rightarrow> Unread | _ \<Rightarrow> a)"

definition on_bell :: "attention_state \<Rightarrow> attention_state" where "on_bell a = Attention"
definition on_viewed :: "attention_state \<Rightarrow> attention_state" where "on_viewed a = NoAttention"

record cursor_snapshot =
  cs_row :: nat
  cs_column :: nat
  cs_visible :: bool

record modes_snapshot =
  ms_application_cursor_keys :: bool
  ms_bracketed_paste :: bool
  ms_focus_reporting :: bool
  ms_mouse_reporting :: bool

record pane_screen_snapshot =
  ps_rows :: "row list"
  ps_cursor :: cursor_snapshot
  ps_modes :: modes_snapshot
  ps_terminal_revision :: u64
  ps_output_revision :: u64
  ps_viewport_offset :: nat
  ps_title :: "rust_string option"
  ps_generation :: u64
  ps_lifecycle :: pane_lifecycle
  ps_unread_count :: u64
  ps_attention :: attention_state

record provider_catalog_snapshot =
  pcs_service_instance :: service_instance_id
  pcs_provider_kind :: provider_kind
  pcs_capabilities :: provider_capabilities
  pcs_catalog :: session_catalog
  pcs_pane_statuses :: "(pane_id, u64 \<times> attention_state) btree"

definition provider_catalog_snapshot_new ::
  "service_instance_id \<Rightarrow> provider_kind \<Rightarrow> provider_capabilities \<Rightarrow> session_catalog \<Rightarrow> provider_catalog_snapshot" where
  "provider_catalog_snapshot_new instance kind capabilities catalog =
     \<lparr>pcs_service_instance = instance, pcs_provider_kind = kind, pcs_capabilities = capabilities,
      pcs_catalog = catalog, pcs_pane_statuses = bt_empty\<rparr>"

definition with_pane_statuses ::
  "(pane_id \<times> u64 \<times> attention_state) list \<Rightarrow> provider_catalog_snapshot \<Rightarrow> provider_catalog_snapshot" where
  "with_pane_statuses statuses s =
     s\<lparr>pcs_pane_statuses := bt_from_list (map (\<lambda>(pane, unread, attention). (pane, (unread, attention))) statuses)\<rparr>"

definition for_provider ::
  "provider_kind \<Rightarrow> provider_capabilities \<Rightarrow> provider_catalog_snapshot \<Rightarrow> provider_catalog_snapshot" where
  "for_provider kind capabilities s = s\<lparr>pcs_provider_kind := kind, pcs_capabilities := capabilities\<rparr>"

definition pane_status :: "provider_catalog_snapshot \<Rightarrow> pane_id \<Rightarrow> u64 \<times> attention_state" where
  "pane_status s pane = (case bt_get (pcs_pane_statuses s) pane of Some st \<Rightarrow> st | None \<Rightarrow> (0, NoAttention))"

datatype snapshot_error = TooManyRows | TooManyColumns | TooLarge

definition mark_viewed :: "pane_screen_snapshot \<Rightarrow> pane_screen_snapshot" where
  "mark_viewed s = s\<lparr>ps_unread_count := 0, ps_attention := NoAttention\<rparr>"

definition bounded_lifecycle :: "pane_lifecycle \<Rightarrow> pane_lifecycle" where
  "bounded_lifecycle l =
     (case l of Failed message \<Rightarrow> Failed (bounded_text (replace_nul message) MAX_FAILURE_BYTES) | _ \<Rightarrow> l)"

text \<open>The \<open>try_fold\<close> over the cells.\<close>

fun estimate_bytes :: "cell list \<Rightarrow> nat \<Rightarrow> snapshot_error + nat" where
  "estimate_bytes [] acc = Inr acc"
| "estimate_bytes (c # cs) acc =
     and_then (ok_or (checked_add_usize acc (CELL_OVERHEAD_BYTES + str_len (ce_text c))) TooLarge)
       (estimate_bytes cs)"

definition from_terminal ::
  "terminal_snapshot \<Rightarrow> u64 \<Rightarrow> u64 \<Rightarrow> pane_lifecycle \<Rightarrow> u64 \<Rightarrow> attention_state \<Rightarrow> snapshot_error + pane_screen_snapshot"
where
  "from_terminal terminal output_revision generation lifecycle unread_count attention =
     (if length (ts_rows terminal) > MAX_ROWS then Inl TooManyRows
      else if list_ex (\<lambda>r. length r > MAX_COLUMNS) (ts_rows terminal) then Inl TooManyColumns
      else and_then (estimate_bytes (concat (ts_rows terminal)) 0) (\<lambda>estimated_bytes.
        if estimated_bytes > MAX_SNAPSHOT_BYTES then Inl TooLarge
        else Inr
          \<lparr>ps_rows = ts_rows terminal,
           ps_cursor = \<lparr>cs_row = cu_row (ts_cursor terminal), cs_column = cu_column (ts_cursor terminal),
             cs_visible = cu_visible (ts_cursor terminal)\<rparr>,
           ps_modes = \<lparr>ms_application_cursor_keys = tm_application_cursor_keys (ts_modes terminal),
             ms_bracketed_paste = tm_bracketed_paste (ts_modes terminal),
             ms_focus_reporting = tm_focus_reporting (ts_modes terminal),
             ms_mouse_reporting = tm_mouse_reporting (ts_modes terminal)\<rparr>,
           ps_terminal_revision = ts_revision terminal, ps_output_revision = output_revision,
           ps_viewport_offset = ts_viewport_offset terminal,
           ps_title = map_option (\<lambda>t. bounded_text t MAX_TITLE_BYTES) (ts_title terminal),
           ps_generation = generation, ps_lifecycle = bounded_lifecycle lifecycle,
           ps_unread_count = unread_count, ps_attention = attention\<rparr>))"

section \<open>Requests\<close>

definition PROTOCOL_VERSION :: u16 where "PROTOCOL_VERSION = 2"
definition MAX_NAME_CHARS :: nat where "MAX_NAME_CHARS = 80"
definition MAX_PATH_BYTES :: nat where "MAX_PATH_BYTES = 4096"
definition MAX_INPUT_BYTES :: nat where "MAX_INPUT_BYTES = 256 * 1024"
definition MAX_RECONNECT_PANES :: nat where "MAX_RECONNECT_PANES = 512"

datatype wire_error = WireVersionIncompatible | InvalidRequestId | RequestIdExhausted | InvalidBody

record pane_output_cursor =
  poc_pane :: pane_id
  poc_generation :: u64
  poc_output_revision :: u64

definition pane_output_cursor_new :: "pane_id \<Rightarrow> u64 \<Rightarrow> u64 \<Rightarrow> wire_error + pane_output_cursor" where
  "pane_output_cursor_new pane generation output_revision =
     (if generation = 0 then Inl InvalidBody
      else Inr \<lparr>poc_pane = pane, poc_generation = generation, poc_output_revision = output_revision\<rparr>)"

datatype fixture_mode = Hold

datatype request_body =
    ReqCatalog
  | ReqAttach
  | ReqReconnect "pane_output_cursor list"
  | ReqDetach
  | ReqCreateSession rust_string path
  | ReqImportStoppedCatalog session_catalog
  | ReqRenameSession session_id rust_string
  | ReqActivateSession session_id
  | ReqDuplicateSession session_id
  | ReqRestartSession session_id u16 u16
  | ReqTerminateSession session_id
  | ReqRemoveSession session_id
  | ReqCreateWindow session_id rust_string path
  | ReqRenameWindow session_id window_id rust_string
  | ReqActivateWindow session_id window_id
  | ReqDuplicateWindow session_id window_id
  | ReqCloseWindow session_id window_id
  | ReqSplitPane session_id split_axis
  | ReqFocusPane session_id pane_id
  | ReqSetSplitRatio session_id u16
  | ReqClosePane session_id pane_id
  | ReqStartPane session_id pane_id u16 u16
  | ReqStartFixturePane session_id pane_id fixture_mode u16 u16
  | ReqWritePane pane_id u64 "u8 list"
  | ReqResizePane pane_id u64 u16 u16
  | ReqSnapshot pane_id
  | ReqTerminatePane session_id pane_id u64
  | ReqShutdown

record request_envelope =
  rq_version :: u16
  rq_request_id :: u64
  rq_expected_catalog_revision :: u64
  rq_body :: request_body

definition request_envelope_new :: "u64 \<Rightarrow> u64 \<Rightarrow> request_body \<Rightarrow> request_envelope" where
  "request_envelope_new request_id expected body =
     \<lparr>rq_version = PROTOCOL_VERSION, rq_request_id = request_id, rq_expected_catalog_revision = expected, rq_body = body\<rparr>"

definition valid_reconnect_cursors :: "pane_output_cursor list \<Rightarrow> bool" where
  "valid_reconnect_cursors cursors \<longleftrightarrow>
     length cursors \<le> MAX_RECONNECT_PANES \<and> list_all (\<lambda>c. poc_generation c > 0) cursors"

definition named_directory_ok :: "rust_string \<Rightarrow> path \<Rightarrow> bool" where
  "named_directory_ok name working_directory \<longleftrightarrow>
     \<not> (trim name = [] \<or> length (trim name) > MAX_NAME_CHARS \<or> working_directory = [] \<or>
        str_len working_directory > MAX_PATH_BYTES)"

definition request_name_ok :: "rust_string \<Rightarrow> bool" where
  "request_name_ok name \<longleftrightarrow> \<not> (trim name = [] \<or> length (trim name) > MAX_NAME_CHARS)"

definition all_stopped :: "session_catalog \<Rightarrow> bool" where
  "all_stopped catalog \<longleftrightarrow>
     \<not> list_ex (\<lambda>w. list_ex (\<lambda>p. sp_generation p \<noteq> 0 \<or> sp_lifecycle p \<noteq> Stopped) (bt_values (sw_panes w)))
       (concat (map se_windows (bt_values (cat_sessions catalog))))"

text \<open>The arms of the match in \<open>RequestEnvelope::validate\<close>.\<close>

fun body_ok :: "request_body \<Rightarrow> bool" where
  "body_ok (ReqCreateSession name directory) = named_directory_ok name directory"
| "body_ok (ReqCreateWindow _ name directory) = named_directory_ok name directory"
| "body_ok (ReqRenameSession _ name) = request_name_ok name"
| "body_ok (ReqRenameWindow _ _ name) = request_name_ok name"
| "body_ok (ReqSetSplitRatio _ ratio) = (1000 \<le> ratio \<and> ratio \<le> 9000)"
| "body_ok (ReqImportStoppedCatalog catalog) = (\<not> (isl (catalog_validate catalog) \<or> \<not> all_stopped catalog))"
| "body_ok (ReqStartPane _ _ rows columns) = (\<not> (rows = 0 \<or> columns = 0))"
| "body_ok (ReqStartFixturePane _ _ _ rows columns) = (\<not> (rows = 0 \<or> columns = 0))"
| "body_ok (ReqRestartSession _ rows columns) = (\<not> (rows = 0 \<or> columns = 0))"
| "body_ok (ReqResizePane _ generation rows columns) = (\<not> (rows = 0 \<or> columns = 0) \<and> generation \<noteq> 0)"
| "body_ok (ReqWritePane _ generation bytes) = (\<not> (generation = 0 \<or> length bytes > MAX_INPUT_BYTES))"
| "body_ok (ReqTerminatePane _ _ generation) = (generation \<noteq> 0)"
| "body_ok (ReqReconnect cursors) = valid_reconnect_cursors cursors"
| "body_ok _ = True"

definition request_validate :: "request_envelope \<Rightarrow> wire_error + unit" where
  "request_validate r =
     (if rq_version r \<noteq> PROTOCOL_VERSION then Inl WireVersionIncompatible
      else if rq_request_id r = 0 then Inl InvalidRequestId
      else if \<not> body_ok (rq_body r) then Inl InvalidBody
      else Inr ())"

section \<open>Responses and events\<close>

datatype response_body =
    RespCatalog provider_catalog_snapshot
  | RespAttached provider_catalog_snapshot
  | RespDetached
  | RespSessionCreated session_id
  | RespSessionDuplicated session_id
  | RespSessionRestarted session_id u16 u16
  | RespSessionTerminated session_id u16 u16
  | RespWindowCreated window_id
  | RespWindowDuplicated window_id
  | RespPaneSplit pane_id
  | RespCatalogChanged provider_catalog_snapshot
  | RespPaneStarted pane_id u64
  | RespPaneWritten
  | RespPaneResized
  | RespPaneSnapshot pane_screen_snapshot
  | RespPaneTerminated pane_id u64
  | RespShuttingDown

record response_envelope =
  rsp_version :: u16
  rsp_request_id :: u64
  rsp_result :: "provider_error + response_body"

definition response_ok :: "u64 \<Rightarrow> response_body \<Rightarrow> response_envelope" where
  "response_ok request_id body = \<lparr>rsp_version = PROTOCOL_VERSION, rsp_request_id = request_id, rsp_result = Inr body\<rparr>"

definition response_error :: "u64 \<Rightarrow> provider_error \<Rightarrow> response_envelope" where
  "response_error request_id e = \<lparr>rsp_version = PROTOCOL_VERSION, rsp_request_id = request_id, rsp_result = Inl e\<rparr>"

record event_envelope =
  ev_version :: u16
  ev_service_instance :: service_instance_id
  ev_session :: session_id
  ev_window :: window_id
  ev_pane :: pane_id
  ev_generation :: u64
  ev_output_revision :: u64

definition pane_changed ::
  "service_instance_id \<Rightarrow> session_id \<Rightarrow> window_id \<Rightarrow> pane_id \<Rightarrow> u64 \<Rightarrow> u64 \<Rightarrow> event_envelope" where
  "pane_changed service_instance sid wid pane generation output_revision =
     \<lparr>ev_version = PROTOCOL_VERSION, ev_service_instance = service_instance, ev_session = sid, ev_window = wid,
      ev_pane = pane, ev_generation = generation, ev_output_revision = output_revision\<rparr>"

record event_guard =
  eg_service_instance :: service_instance_id
  eg_session :: session_id
  eg_window :: window_id
  eg_pane :: pane_id
  eg_generation :: u64
  eg_output_revision :: u64

definition guard_matches :: "event_guard \<Rightarrow> event_envelope \<Rightarrow> bool" where
  "guard_matches g e \<longleftrightarrow>
     ev_version e = PROTOCOL_VERSION \<and> ev_service_instance e = eg_service_instance g \<and>
     ev_session e = eg_session g \<and> ev_window e = eg_window g \<and> ev_pane e = eg_pane g \<and>
     ev_generation e = eg_generation g \<and> ev_output_revision e > eg_output_revision g"

text \<open>\<open>RequestIdGenerator::next_id\<close> on its counter.\<close>

definition next_request_id :: "u64 \<Rightarrow> (wire_error + u64) \<times> u64" where
  "next_request_id current =
     (if current = - 1 then (Inl RequestIdExhausted, current) else (Inr (current + 1), current + 1))"

section \<open>The bounds of a snapshot\<close>

lemma estimate_bytes_total:
  "estimate_bytes cs acc = Inr n \<Longrightarrow> n = acc + sum_list (map (\<lambda>c. CELL_OVERHEAD_BYTES + str_len (ce_text c)) cs)"
proof (induction cs arbitrary: acc)
  case Nil
  then show ?case by simp
next
  case (Cons c cs)
  from Cons.prems have "estimate_bytes cs (acc + (CELL_OVERHEAD_BYTES + str_len (ce_text c))) = Inr n"
    by (auto simp: outcome checked_add_usize_def split: if_splits)
  from Cons.IH [OF this] show ?case by simp
qed

lemma estimate_bytes_err: "estimate_bytes cs acc = Inl e \<Longrightarrow> e = TooLarge"
  by (induction cs arbitrary: acc) (auto simp: outcome)

definition screen_bytes :: "row list \<Rightarrow> nat" where
  "screen_bytes rows = sum_list (map (\<lambda>c. CELL_OVERHEAD_BYTES + str_len (ce_text c)) (concat rows))"

definition snapshot_fits :: "terminal_snapshot \<Rightarrow> bool" where
  "snapshot_fits t \<longleftrightarrow>
     length (ts_rows t) \<le> MAX_ROWS \<and> list_all (\<lambda>r. length r \<le> MAX_COLUMNS) (ts_rows t) \<and>
     screen_bytes (ts_rows t) \<le> MAX_SNAPSHOT_BYTES"

lemma estimate_bytes_fits:
  "acc + sum_list (map (\<lambda>c. CELL_OVERHEAD_BYTES + str_len (ce_text c)) cs) < 2 ^ 64 \<Longrightarrow>
     estimate_bytes cs acc = Inr (acc + sum_list (map (\<lambda>c. CELL_OVERHEAD_BYTES + str_len (ce_text c)) cs))"
  by (induction cs arbitrary: acc) (auto simp: checked_add_usize_def)

lemma from_terminal_decides:
  "isl (from_terminal t out g l unread attention) \<longleftrightarrow> \<not> snapshot_fits t"
proof -
  let ?n = "screen_bytes (ts_rows t)"
  have n: "?n \<le> MAX_SNAPSHOT_BYTES \<Longrightarrow> estimate_bytes (concat (ts_rows t)) 0 = Inr ?n"
    using estimate_bytes_fits [of 0 "concat (ts_rows t)"] by (simp add: screen_bytes_def MAX_SNAPSHOT_BYTES_def)
  show ?thesis
    by (cases "estimate_bytes (concat (ts_rows t)) 0")
      (use n estimate_bytes_total [of "concat (ts_rows t)" 0] in
        \<open>auto simp: from_terminal_def snapshot_fits_def screen_bytes_def [symmetric] list_ex_iff list_all_iff not_le [symmetric]\<close>)
qed

end
