(* ===== verification/SessionStore.thy ===== *)
theory SessionStore imports SessionWire begin

text \<open>
  The persistence of the session daemon (\<open>strukt-session/src/store.rs\<close>): the stopped-only record with
  its validation, and the store of two files, the current record and the last valid one. The JSON
  encoding (serde) is a parameter, the file system a map from paths to contents.
\<close>

section \<open>The record\<close>

definition CURRENT_SCHEMA :: u16 where "CURRENT_SCHEMA = 1"
definition MAX_STORE_BYTES :: nat where "MAX_STORE_BYTES = 32 * 1024 * 1024"
definition MAX_HISTORIES :: nat where "MAX_HISTORIES = 256"

record pane_history =
  ph_pane :: pane_id
  ph_screen :: pane_screen_snapshot

text \<open>\<open>'x\<close> are the JSON values of the unknown fields, which are kept.\<close>

record 'x persisted_catalog =
  pe_schema_version :: u16
  pe_catalog :: session_catalog
  pe_histories :: "pane_history list"
  pe_extra :: "(rust_string, 'x) btree"

datatype session_store_error =
    UnsupportedSchema u16
  | StoredCatalogInvalid
  | InvalidHistory
  | RecordTooLarge
  | StoreIo rust_string
  | StoreJson rust_string
  | StoreCatalog catalog_error

text \<open>The \<open>any\<close> over the histories, with the set of the panes seen.\<close>

fun histories_ok :: "session_catalog \<Rightarrow> pane_history list \<Rightarrow> pane_id set \<Rightarrow> bool" where
  "histories_ok catalog [] panes = True"
| "histories_ok catalog (h # hs) panes =
     (contains_pane catalog (ph_pane h) \<and> ph_pane h \<notin> panes \<and>
      histories_ok catalog hs (insert (ph_pane h) panes))"

definition persisted_validate :: "'x persisted_catalog \<Rightarrow> session_store_error + unit" where
  "persisted_validate r =
     (if pe_schema_version r \<noteq> CURRENT_SCHEMA then Inl (UnsupportedSchema (pe_schema_version r))
      else and_then (map_err StoreCatalog (catalog_validate (pe_catalog r))) (\<lambda>_.
        if length (pe_histories r) > MAX_HISTORIES then Inl InvalidHistory
        else if \<not> histories_ok (pe_catalog r) (pe_histories r) {} then Inl InvalidHistory
        else Inr ()))"

definition persisted_new ::
  "session_catalog \<Rightarrow> pane_history list \<Rightarrow> session_store_error + 'x persisted_catalog" where
  "persisted_new catalog histories =
     and_then (map_err StoreCatalog (stopped_clone catalog)) (\<lambda>catalog.
     let r = \<lparr>pe_schema_version = CURRENT_SCHEMA, pe_catalog = catalog, pe_histories = histories,
              pe_extra = bt_empty\<rparr>
     in and_then (persisted_validate r) (\<lambda>_. Inr r))"

definition normalized :: "'x persisted_catalog \<Rightarrow> session_store_error + 'x persisted_catalog" where
  "normalized r =
     and_then (map_err StoreCatalog (stopped_clone (pe_catalog r))) (\<lambda>catalog.
     let r = r\<lparr>pe_schema_version := CURRENT_SCHEMA, pe_catalog := catalog\<rparr>
     in and_then (persisted_validate r) (\<lambda>_. Inr r))"

section \<open>The files\<close>

text \<open>
  Serde: \<open>to_vec_pretty\<close>, \<open>from_slice\<close> to a JSON value \<open>'v\<close>, the value's schema field as an unsigned
  integer, and \<open>from_value\<close>.
\<close>

record ('x, 'v) serde =
  js_print :: "'x persisted_catalog \<Rightarrow> rust_string + u8 list"
  js_parse :: "u8 list \<Rightarrow> rust_string + 'v"
  js_schema :: "'v \<Rightarrow> nat option"
  js_record :: "'v \<Rightarrow> rust_string + 'x persisted_catalog"

definition decode_record :: "('x, 'v) serde \<Rightarrow> u8 list \<Rightarrow> session_store_error + 'x persisted_catalog" where
  "decode_record js bytes =
     and_then (map_err StoreJson (js_parse js bytes)) (\<lambda>v.
     and_then (ok_or (Option.bind (js_schema js v) (\<lambda>n. if n < 2 ^ 16 then Some (of_nat n :: u16) else None))
       StoredCatalogInvalid) (\<lambda>schema.
     if schema \<noteq> CURRENT_SCHEMA then Inl (UnsupportedSchema schema)
     else and_then (map_err StoreJson (js_record js v)) (\<lambda>r.
       and_then (persisted_validate r) (\<lambda>_. Inr r))))"

text \<open>
  A file of the store as \<open>fs::metadata\<close> and \<open>fs::read\<close> see it: absent, without readable metadata,
  without readable contents (its length is known), or with contents.
\<close>

datatype stored_file =
    Missing
  | NoMetadata rust_string
  | NoContents nat rust_string
  | Contents "u8 list"

fun file_exists :: "stored_file \<Rightarrow> bool" where
  "file_exists Missing = False"
| "file_exists (NoMetadata _) = False"
| "file_exists (NoContents _ _) = True"
| "file_exists (Contents _) = True"

text \<open>The error \<open>None\<close> is the one of kind \<open>NotFound\<close>.\<close>

fun read_bounded :: "stored_file \<Rightarrow> session_store_error option + u8 list" where
  "read_bounded Missing = Inl None"
| "read_bounded (NoMetadata e) = Inl (Some (StoreIo e))"
| "read_bounded (NoContents len e) = Inl (Some (if len > MAX_STORE_BYTES then RecordTooLarge else StoreIo e))"
| "read_bounded (Contents bytes) = (if length bytes > MAX_STORE_BYTES then Inl (Some RecordTooLarge) else Inr bytes)"

text \<open>
  The two files of the store, and the error that replacing each of them gives, if any: the commit of
  the atomic writer replaces a file or leaves it as it was.
\<close>

record session_store =
  st_current :: stored_file
  st_backup :: stored_file
  st_current_failure :: "rust_string option"
  st_backup_failure :: "rust_string option"

definition write_current :: "u8 list \<Rightarrow> session_store \<Rightarrow> (session_store_error + unit) \<times> session_store" where
  "write_current bytes st =
     (case st_current_failure st of
        Some e \<Rightarrow> (Inl (StoreIo e), st)
      | None \<Rightarrow> (Inr (), st\<lparr>st_current := Contents bytes\<rparr>))"

definition write_backup :: "u8 list \<Rightarrow> session_store \<Rightarrow> (session_store_error + unit) \<times> session_store" where
  "write_backup bytes st =
     (case st_backup_failure st of
        Some e \<Rightarrow> (Inl (StoreIo e), st)
      | None \<Rightarrow> (Inr (), st\<lparr>st_backup := Contents bytes\<rparr>))"

definition store_save ::
  "('x, 'v) serde \<Rightarrow> 'x persisted_catalog \<Rightarrow> session_store \<Rightarrow> (session_store_error + unit) \<times> session_store"
where
  "store_save js r st =
     attempt (normalized r) st (\<lambda>r.
     case (case read_bounded (st_current st) :: session_store_error option + u8 list of
             Inr bytes \<Rightarrow> if isl (decode_record js bytes) then (Inr (), st) else write_backup bytes st
           | Inl _ \<Rightarrow> (Inr (), st)) of (result, st) \<Rightarrow>
     attempt result st (\<lambda>_.
     attempt (map_err StoreJson (js_print js r)) st (\<lambda>bytes.
     if length bytes > MAX_STORE_BYTES then (Inl RecordTooLarge, st)
     else write_current bytes st)))"

fun load_first ::
  "('x, 'v) serde \<Rightarrow> stored_file list \<Rightarrow> session_store_error option \<Rightarrow>
     session_store_error + 'x persisted_catalog option"
where
  "load_first js [] last_error = Inl (case last_error of Some e \<Rightarrow> e | None \<Rightarrow> StoredCatalogInvalid)"
| "load_first js (f # fs) last_error =
     (case read_bounded f of
        Inr bytes \<Rightarrow>
          (case decode_record js bytes of
             Inr r \<Rightarrow> and_then (normalized r) (\<lambda>r. Inr (Some r))
           | Inl e \<Rightarrow> load_first js fs (Some e))
      | Inl None \<Rightarrow> load_first js fs last_error
      | Inl (Some e) \<Rightarrow> load_first js fs (Some e))"

definition store_load ::
  "('x, 'v) serde \<Rightarrow> session_store \<Rightarrow> session_store_error + 'x persisted_catalog option" where
  "store_load js st =
     (let paths = [st_current st, st_backup st] in
      if list_all (\<lambda>f. \<not> file_exists f) paths then Inr None else load_first js paths None)"

end
