(* ===== verification/TerminalRuntime.thy ===== *)
theory TerminalRuntime imports TerminalTransport begin

text \<open>
  The terminal runtime of strukt-terminal (\<open>runtime.rs\<close>): per pane a process, a terminal model and a
  bounded queue of output, and the fair draining of the queues under a byte budget. An operation
  that reaches a terminal model is \<open>None\<close> when the model panics or, for the draining loop, when it
  never returns.
\<close>

section \<open>State\<close>

definition MAX_PENDING_BYTES :: nat where "MAX_PENDING_BYTES = 4 * 1024 * 1024"
definition MAX_PENDING_CHUNKS :: nat where "MAX_PENDING_CHUNKS = 1024"
definition DEFAULT_PANE_BUDGET :: nat where "DEFAULT_PANE_BUDGET = 256 * 1024"
definition DEFAULT_AGGREGATE_BUDGET :: nat where "DEFAULT_AGGREGATE_BUDGET = 1024 * 1024"

type_synonym terminal_pane_id = u64

record drain_budget =
  db_per_pane_bytes :: nat
  db_aggregate_bytes :: nat

definition drain_budget_default :: drain_budget where
  "drain_budget_default =
     \<lparr>db_per_pane_bytes = DEFAULT_PANE_BUDGET, db_aggregate_bytes = DEFAULT_AGGREGATE_BUDGET\<rparr>"

datatype runtime_pane_state =
    Stopped
  | Starting
  | Running
  | Exited "u32 option"
  | Failed rust_string
  | Backpressured

record runtime_pane_health =
  rh_backpressured :: bool
  rh_sustained_output :: bool

record runtime_batch =
  rb_bytes :: "(terminal_pane_id, nat) btree"
  rb_changed :: "terminal_pane_id set"

definition batch_default :: runtime_batch where
  "batch_default = \<lparr>rb_bytes = bt_empty, rb_changed = {}\<rparr>"

definition bytes_for :: "runtime_batch \<Rightarrow> terminal_pane_id \<Rightarrow> nat" where
  "bytes_for b pane = (case bt_get (rb_bytes b) pane of Some n \<Rightarrow> n | None \<Rightarrow> 0)"

record pending_output =
  po_bytes :: "u8 list"
  po_offset :: nat

record ('h, 'p) pane_runtime =
  pr_generation :: u64
  pr_process :: "'h option"
  pr_model :: "'p terminal_model"
  pr_state :: runtime_pane_state
  pr_pending :: "pending_output list"
  pr_pending_bytes :: nat
  pr_last_sequence :: "u64 option"
  pr_pending_since :: "nat option"
  pr_output_since :: "nat option"
  pr_last_output_at :: "nat option"
  pr_transport_pressure_since :: "nat option"
  pr_last_error :: "rust_string option"

record ('h, 'p) terminal_runtime =
  rt_panes :: "(terminal_pane_id, ('h, 'p) pane_runtime) btree"
  rt_scrollback_limit :: nat
  rt_round_robin_cursor :: nat

record 'h runtime_start_job =
  rsj_pane :: terminal_pane_id
  rsj_generation :: u64
  rsj_request :: spawn_request
  rsj_prior_process :: "'h option"

record runtime_pane_projection =
  rpp_generation :: u64
  rpp_state :: runtime_pane_state
  rpp_health :: runtime_pane_health
  rpp_snapshot :: terminal_snapshot

record 'h runtime_terminate_job =
  rtj_pane :: terminal_pane_id
  rtj_generation :: u64
  rtj_process :: 'h
  rtj_grace :: nat

record runtime_terminate_completion =
  rtc_pane :: terminal_pane_id
  rtc_generation :: u64
  rtc_result :: "rust_string + unit"

text \<open>The errors of copying a selection are left out with the selections.\<close>

datatype runtime_error =
    PaneNotFound
  | ProcessNotRunning
  | OutOfOrder
  | QueueFull
  | StartFailed rust_string
  | TerminationFailed rust_string
  | Transport transport_error

fun runtime_error_text :: "runtime_error \<Rightarrow> rust_string" where
  "runtime_error_text PaneNotFound = lit ''terminal pane runtime was not found''"
| "runtime_error_text ProcessNotRunning = lit ''terminal pane process is not running''"
| "runtime_error_text OutOfOrder = lit ''terminal output sequence is stale or out of order''"
| "runtime_error_text QueueFull = lit ''terminal pane output queue is full''"
| "runtime_error_text (StartFailed detail) = lit ''terminal process failed to start: '' @ detail"
| "runtime_error_text (TerminationFailed detail) = lit ''terminal process failed to terminate: '' @ detail"
| "runtime_error_text (Transport e) = transport_error_text e"

definition runtime_grid_size :: "terminal_size \<Rightarrow> runtime_error + grid_size" where
  "runtime_grid_size sz =
     map_err (\<lambda>_. Transport InvalidSize) (grid_size_new (unat (tz_rows sz)) (unat (tz_columns sz)))"

section \<open>One pane\<close>

definition pane_runtime_new :: "u64 \<Rightarrow> 'p terminal_model \<Rightarrow> ('h, 'p) pane_runtime" where
  "pane_runtime_new generation model =
     \<lparr>pr_generation = generation, pr_process = None, pr_model = model, pr_state = Stopped, pr_pending = [],
      pr_pending_bytes = 0, pr_last_sequence = None, pr_pending_since = None, pr_output_since = None,
      pr_last_output_at = None, pr_transport_pressure_since = None, pr_last_error = None\<rparr>"

definition pane_fail :: "rust_string \<Rightarrow> ('h, 'p) pane_runtime \<Rightarrow> ('h, 'p) pane_runtime" where
  "pane_fail message r = r\<lparr>pr_last_error := Some message, pr_state := Failed message, pr_process := None\<rparr>"

definition enqueue ::
  "('h, 'p, 'w) outside \<Rightarrow> output_chunk \<Rightarrow> ('h, 'p) pane_runtime \<Rightarrow> 'w \<Rightarrow>
     (runtime_error + unit) \<times> ('h, 'p) pane_runtime \<times> 'w" where
  "enqueue os chunk r w =
     (if (case pr_last_sequence r of None \<Rightarrow> False | Some s \<Rightarrow> oc_sequence chunk \<le> s) then (Inl OutOfOrder, r, w)
      else if length (pr_pending r) \<ge> MAX_PENDING_CHUNKS \<or>
          sat_add_usize (pr_pending_bytes r) (length (oc_bytes chunk)) > MAX_PENDING_BYTES
        then (Inl QueueFull, r, w)
      else case os_now os w of (now, w) \<Rightarrow>
        (Inr (),
         r\<lparr>pr_last_sequence := Some (oc_sequence chunk),
           pr_pending_bytes := pr_pending_bytes r + length (oc_bytes chunk),
           pr_pending := pr_pending r @ [\<lparr>po_bytes = oc_bytes chunk, po_offset = 0\<rparr>],
           pr_pending_since := (case pr_pending_since r of None \<Rightarrow> Some now | Some t \<Rightarrow> Some t),
           pr_output_since :=
             (if (case pr_last_output_at r of None \<Rightarrow> True | Some t \<Rightarrow> now - t > millis 100)
              then Some now else pr_output_since r),
           pr_last_output_at := Some now\<rparr>, w))"

definition poll_one_output ::
  "('h, 'p, 'w) outside \<Rightarrow> ('h, 'p) pane_runtime \<Rightarrow> 'w \<Rightarrow> ('h, 'p) pane_runtime \<times> 'w" where
  "poll_one_output os r w =
     (case (case pr_process r of None \<Rightarrow> (Inr None, w) | Some h \<Rightarrow> os_try_read os h w) of
        (Inr (Some chunk), w) \<Rightarrow>
          (case enqueue os chunk r w of
             (Inl e, r, w) \<Rightarrow> (pane_fail (runtime_error_text e) r, w)
           | (Inr _, r, w) \<Rightarrow> (r, w))
      | (Inr None, w) \<Rightarrow> (r, w)
      | (Inl e, w) \<Rightarrow> (pane_fail (transport_error_text e) r, w))"

text \<open>The loop of \<open>drain_bytes\<close>.\<close>

partial_function (option) drain_loop ::
  "('h, 'p, 'w) outside \<Rightarrow> nat \<Rightarrow> nat \<Rightarrow> ('h, 'p) pane_runtime \<Rightarrow> 'w \<Rightarrow> (nat \<times> ('h, 'p) pane_runtime \<times> 'w) option"
where
  "drain_loop os limit consumed r w =
     (if consumed < limit then
        (case (if pr_pending r = [] then poll_one_output os r w else (r, w)) of (r, w) \<Rightarrow>
           (case pr_pending r of
              [] \<Rightarrow> Some (consumed, r, w)
            | front # rest \<Rightarrow>
                (let available = length (po_bytes front) - po_offset front;
                     count = min available (limit - consumed)
                 in Option.bind
                   (model_advance (os_width os) (os_vte os) (take count (drop (po_offset front) (po_bytes front))) (pr_model r))
                   (\<lambda>m. drain_loop os limit (consumed + count)
                     (r\<lparr>pr_model := m, pr_pending_bytes := pr_pending_bytes r - count,
                        pr_pending :=
                          (if po_offset front + count = length (po_bytes front) then rest
                           else front\<lparr>po_offset := po_offset front + count\<rparr> # rest)\<rparr>) w))))
      else Some (consumed, r, w))"

definition drain_bytes ::
  "('h, 'p, 'w) outside \<Rightarrow> nat \<Rightarrow> ('h, 'p) pane_runtime \<Rightarrow> 'w \<Rightarrow> (nat \<times> ('h, 'p) pane_runtime \<times> 'w) option" where
  "drain_bytes os limit r w =
     map_option (\<lambda>(consumed, r, w).
       (consumed,
        (if pr_pending r = []
         then r\<lparr>pr_pending_since := None,
                pr_state := (if pr_state r = Backpressured then Running else pr_state r)\<rparr>
         else r), w))
       (drain_loop os limit 0 r w)"

definition poll_exit ::
  "('h, 'p, 'w) outside \<Rightarrow> ('h, 'p) pane_runtime \<Rightarrow> 'w \<Rightarrow> bool \<times> ('h, 'p) pane_runtime \<times> 'w" where
  "poll_exit os r w =
     (case (case pr_process r of None \<Rightarrow> (Inr None, w) | Some h \<Rightarrow> os_try_wait os h w) of
        (Inr (Some status), w) \<Rightarrow> (True, r\<lparr>pr_state := Exited (es_code status), pr_process := None\<rparr>, w)
      | (Inr None, w) \<Rightarrow> (False, r, w)
      | (Inl e, w) \<Rightarrow> (True, pane_fail (transport_error_text e) r, w))"

definition update_pressure_state ::
  "('h, 'p, 'w) outside \<Rightarrow> ('h, 'p) pane_runtime \<Rightarrow> 'w \<Rightarrow> ('h, 'p) pane_runtime \<times> 'w" where
  "update_pressure_state os r w =
     (case elapsed_is os (\<lambda>d. d > millis 100) (pr_last_output_at r) w of (quiet, w) \<Rightarrow>
      let r = (if quiet then r\<lparr>pr_output_since := None, pr_last_output_at := None\<rparr> else r) in
      (case (case pr_process r of None \<Rightarrow> (False, w) | Some h \<Rightarrow> os_output_backpressured os h w) of (blocked, w) \<Rightarrow>
      (case (if blocked
             then (case pr_transport_pressure_since r of
                     Some t \<Rightarrow> (Some t, w)
                   | None \<Rightarrow> (case os_now os w of (now, w) \<Rightarrow> (Some now, w)))
             else (None, w)) of (since, w) \<Rightarrow>
      let r = r\<lparr>pr_transport_pressure_since := since\<rparr> in
      (case elapsed_is os (\<lambda>d. d \<ge> millis 250) (pr_pending_since r) w of (backlog, w) \<Rightarrow>
      (case (if backlog then (True, w) else elapsed_is os (\<lambda>d. d \<ge> millis 250) since w) of (pressed, w) \<Rightarrow>
        ((if pressed then r\<lparr>pr_state := Backpressured\<rparr>
          else if pr_state r = Backpressured then r\<lparr>pr_state := Running\<rparr> else r), w))))))"

definition pane_health :: "('h, 'p, 'w) outside \<Rightarrow> ('h, 'p) pane_runtime \<Rightarrow> 'w \<Rightarrow> runtime_pane_health \<times> 'w" where
  "pane_health os r w =
     (case elapsed_is os (\<lambda>d. d \<ge> millis 2000) (pr_output_since r) w of (sustained, w) \<Rightarrow>
        (\<lparr>rh_backpressured = (pr_state r = Backpressured), rh_sustained_output = sustained\<rparr>, w))"

section \<open>Starting and stopping\<close>

definition terminal_runtime_new :: "nat \<Rightarrow> ('h, 'p) terminal_runtime" where
  "terminal_runtime_new scrollback_limit =
     \<lparr>rt_panes = bt_empty, rt_scrollback_limit = scrollback_limit, rt_round_robin_cursor = 0\<rparr>"

definition put_pane ::
  "terminal_pane_id \<Rightarrow> ('h, 'p) pane_runtime \<Rightarrow> ('h, 'p) terminal_runtime \<Rightarrow> ('h, 'p) terminal_runtime" where
  "put_pane pane r t = t\<lparr>rt_panes := bt_insert pane r (rt_panes t)\<rparr>"

definition next_generation :: "terminal_pane_id \<Rightarrow> ('h, 'p) terminal_runtime \<Rightarrow> u64" where
  "next_generation pane t =
     (case bt_get (rt_panes t) pane of None \<Rightarrow> 1 | Some r \<Rightarrow> sat_inc (pr_generation r))"

definition prepare ::
  "('h, 'p, 'w) outside \<Rightarrow> terminal_pane_id \<Rightarrow> grid_size \<Rightarrow> ('h, 'p) terminal_runtime \<Rightarrow> u64 \<times> ('h, 'p) terminal_runtime" where
  "prepare os pane sz t =
     (next_generation pane t,
      put_pane pane (pane_runtime_new (next_generation pane t) (model_new (os_parser os) sz (rt_scrollback_limit t))) t)"

definition begin_restart ::
  "('h, 'p, 'w) outside \<Rightarrow> terminal_pane_id \<Rightarrow> spawn_request \<Rightarrow> ('h, 'p) terminal_runtime \<Rightarrow>
     (runtime_error + 'h runtime_start_job) \<times> ('h, 'p) terminal_runtime" where
  "begin_restart os pane request t =
     attempt (runtime_grid_size (sr_size request)) t (\<lambda>sz.
       let generation = next_generation pane t;
           prior = Option.bind (bt_get (rt_panes t) pane) pr_process;
           r = (pane_runtime_new generation (model_new (os_parser os) sz (rt_scrollback_limit t)))\<lparr>pr_state := Starting\<rparr>
       in (Inr \<lparr>rsj_pane = pane, rsj_generation = generation, rsj_request = request, rsj_prior_process = prior\<rparr>,
           put_pane pane r t))"

definition run_start_job ::
  "('h, 'p, 'w) outside \<Rightarrow> 'h runtime_start_job \<Rightarrow> 'w \<Rightarrow> (rust_string + 'h) \<times> 'w" where
  "run_start_job os job w =
     (case (case rsj_prior_process job of None \<Rightarrow> (Inr (), w) | Some h \<Rightarrow> os_terminate os h (millis 500) w) of
        (Inl e, w) \<Rightarrow> (Inl (transport_error_text e), w)
      | (Inr _, w) \<Rightarrow>
          (case os_spawn os (rsj_request job) w of (result, w) \<Rightarrow> (map_err transport_error_text result, w)))"

definition finish_restart ::
  "terminal_pane_id \<Rightarrow> u64 \<Rightarrow> rust_string + 'h \<Rightarrow> ('h, 'p) terminal_runtime \<Rightarrow>
     (runtime_error + unit) \<times> ('h, 'p) terminal_runtime" where
  "finish_restart pane generation result t =
     (case bt_get (rt_panes t) pane of
        None \<Rightarrow> (Inr (), t)
      | Some r \<Rightarrow>
          if pr_generation r \<noteq> generation then (Inr (), t)
          else (case result of
              Inr process \<Rightarrow>
                (Inr (), put_pane pane (r\<lparr>pr_process := Some process, pr_state := Running, pr_last_error := None\<rparr>) t)
            | Inl message \<Rightarrow>
                (Inl (StartFailed message),
                 put_pane pane (r\<lparr>pr_state := Failed message, pr_last_error := Some message\<rparr>) t)))"

definition restart ::
  "('h, 'p, 'w) outside \<Rightarrow> terminal_pane_id \<Rightarrow> spawn_request \<Rightarrow> ('h, 'p) terminal_runtime \<Rightarrow> 'w \<Rightarrow>
     (runtime_error + u64) \<times> ('h, 'p) terminal_runtime \<times> 'w" where
  "restart os pane request t w =
     (case begin_restart os pane request t of
        (Inl e, t) \<Rightarrow> (Inl e, t, w)
      | (Inr job, t) \<Rightarrow>
          (case run_start_job os job w of (result, w) \<Rightarrow>
          (case finish_restart pane (rsj_generation job) result t of
             (Inl e, t) \<Rightarrow> (Inl e, t, w)
           | (Inr _, t) \<Rightarrow> (Inr (rsj_generation job), t, w))))"

definition runtime_process :: "terminal_pane_id \<Rightarrow> ('h, 'p) terminal_runtime \<Rightarrow> runtime_error + 'h" where
  "runtime_process pane t =
     and_then (ok_or (bt_get (rt_panes t) pane) PaneNotFound) (\<lambda>r. ok_or (pr_process r) ProcessNotRunning)"

definition record_transport_result ::
  "terminal_pane_id \<Rightarrow> transport_error + unit \<Rightarrow> ('h, 'p) terminal_runtime \<Rightarrow>
     (runtime_error + unit) \<times> ('h, 'p) terminal_runtime" where
  "record_transport_result pane result t =
     (case result of
        Inr _ \<Rightarrow> (Inr (), t)
      | Inl e \<Rightarrow>
          (Inl (Transport e),
           (case bt_get (rt_panes t) pane of
              None \<Rightarrow> t | Some r \<Rightarrow> put_pane pane (r\<lparr>pr_last_error := Some (transport_error_text e)\<rparr>) t)))"

definition terminate ::
  "('h, 'p, 'w) outside \<Rightarrow> terminal_pane_id \<Rightarrow> nat \<Rightarrow> ('h, 'p) terminal_runtime \<Rightarrow> 'w \<Rightarrow>
     (runtime_error + unit) \<times> ('h, 'p) terminal_runtime \<times> 'w" where
  "terminate os pane grace t w =
     (case runtime_process pane t of
        Inl e \<Rightarrow> (Inl e, t, w)
      | Inr h \<Rightarrow>
          (case os_terminate os h grace w of (result, w) \<Rightarrow>
          (case record_transport_result pane result t of (result, t) \<Rightarrow> (result, t, w))))"

definition begin_terminate ::
  "terminal_pane_id \<Rightarrow> nat \<Rightarrow> ('h, 'p) terminal_runtime \<Rightarrow>
     (runtime_error + 'h runtime_terminate_job) \<times> ('h, 'p) terminal_runtime" where
  "begin_terminate pane grace t =
     attempt (ok_or (bt_get (rt_panes t) pane) PaneNotFound) t (\<lambda>r.
     attempt (ok_or (pr_process r) ProcessNotRunning) t (\<lambda>h.
       (Inr \<lparr>rtj_pane = pane, rtj_generation = pr_generation r, rtj_process = h, rtj_grace = grace\<rparr>,
        put_pane pane (r\<lparr>pr_process := None\<rparr>) t)))"

definition run_terminate_job ::
  "('h, 'p, 'w) outside \<Rightarrow> 'h runtime_terminate_job \<Rightarrow> 'w \<Rightarrow> runtime_terminate_completion \<times> 'w" where
  "run_terminate_job os job w =
     (case os_terminate os (rtj_process job) (rtj_grace job) w of (result, w) \<Rightarrow>
        (\<lparr>rtc_pane = rtj_pane job, rtc_generation = rtj_generation job,
          rtc_result = map_err transport_error_text result\<rparr>, w))"

definition finish_terminate ::
  "runtime_terminate_completion \<Rightarrow> ('h, 'p) terminal_runtime \<Rightarrow> (runtime_error + unit) \<times> ('h, 'p) terminal_runtime" where
  "finish_terminate completion t =
     (case bt_get (rt_panes t) (rtc_pane completion) of
        None \<Rightarrow> (Inr (), t)
      | Some r \<Rightarrow>
          if pr_generation r \<noteq> rtc_generation completion then (Inr (), t)
          else (case rtc_result completion of
              Inr _ \<Rightarrow> (Inr (), put_pane (rtc_pane completion) (r\<lparr>pr_state := Exited None, pr_last_error := None\<rparr>) t)
            | Inl message \<Rightarrow> (Inl (TerminationFailed message), put_pane (rtc_pane completion) (pane_fail message r) t)))"

definition discard :: "terminal_pane_id \<Rightarrow> ('h, 'p) terminal_runtime \<Rightarrow> ('h, 'p) terminal_runtime" where
  "discard pane t = t\<lparr>rt_panes := bt_remove pane (rt_panes t)\<rparr>"

definition take_process_and_discard ::
  "terminal_pane_id \<Rightarrow> ('h, 'p) terminal_runtime \<Rightarrow> 'h option \<times> ('h, 'p) terminal_runtime" where
  "take_process_and_discard pane t = (Option.bind (bt_get (rt_panes t) pane) pr_process, discard pane t)"

section \<open>Input, size, output\<close>

definition runtime_write ::
  "('h, 'p, 'w) outside \<Rightarrow> terminal_pane_id \<Rightarrow> u8 list \<Rightarrow> ('h, 'p) terminal_runtime \<Rightarrow> 'w \<Rightarrow>
     (runtime_error + unit) \<times> ('h, 'p) terminal_runtime \<times> 'w" where
  "runtime_write os pane bytes t w =
     (case runtime_process pane t of
        Inl e \<Rightarrow> (Inl e, t, w)
      | Inr h \<Rightarrow>
          (case os_write os h bytes w of (result, w) \<Rightarrow>
          (case record_transport_result pane result t of (result, t) \<Rightarrow> (result, t, w))))"

definition runtime_resize ::
  "('h, 'p, 'w) outside \<Rightarrow> terminal_pane_id \<Rightarrow> terminal_size \<Rightarrow> ('h, 'p) terminal_runtime \<Rightarrow> 'w \<Rightarrow>
     ((runtime_error + unit) \<times> ('h, 'p) terminal_runtime \<times> 'w) option" where
  "runtime_resize os pane sz t w =
     (case runtime_grid_size sz of
        Inl e \<Rightarrow> Some (Inl e, t, w)
      | Inr gsz \<Rightarrow>
          (case runtime_process pane t of
             Inl e \<Rightarrow> Some (Inl e, t, w)
           | Inr h \<Rightarrow>
               (case os_resize os h sz w of (result, w) \<Rightarrow>
               (case record_transport_result pane result t of
                  (Inl e, t) \<Rightarrow> Some (Inl e, t, w)
                | (Inr _, t) \<Rightarrow>
                    (case bt_get (rt_panes t) pane of
                       None \<Rightarrow> Some (Inr (), t, w)
                     | Some r \<Rightarrow>
                         map_option (\<lambda>(_, m). (Inr (), put_pane pane (r\<lparr>pr_model := m\<rparr>) t, w))
                           (model_resize gsz (pr_model r)))))))"

definition apply_output ::
  "('h, 'p, 'w) outside \<Rightarrow> terminal_pane_id \<Rightarrow> u64 \<Rightarrow> output_chunk \<Rightarrow> ('h, 'p) terminal_runtime \<Rightarrow> 'w \<Rightarrow>
     (runtime_error + unit) \<times> ('h, 'p) terminal_runtime \<times> 'w" where
  "apply_output os pane generation chunk t w =
     (case bt_get (rt_panes t) pane of
        None \<Rightarrow> (Inl PaneNotFound, t, w)
      | Some r \<Rightarrow>
          if pr_generation r \<noteq> generation then (Inr (), t, w)
          else (case enqueue os chunk r w of (result, r, w) \<Rightarrow> (result, put_pane pane r t, w)))"

section \<open>Draining\<close>

text \<open>The body of the loop of \<open>drain\<close> on one pane that exists.\<close>

definition drain_pane ::
  "('h, 'p, 'w) outside \<Rightarrow> nat \<Rightarrow> ('h, 'p) pane_runtime \<Rightarrow> 'w \<Rightarrow> (nat \<times> bool \<times> ('h, 'p) pane_runtime \<times> 'w) option" where
  "drain_pane os limit r w =
     (case poll_one_output os r w of (r1, w) \<Rightarrow>
      Option.bind (drain_bytes os limit r1 w) (\<lambda>(consumed, r2, w).
        (case poll_exit os r2 w of (exited, r3, w) \<Rightarrow>
        (case update_pressure_state os r3 w of (r4, w) \<Rightarrow>
          Some (consumed, consumed > 0 \<or> exited \<or> pr_state r4 \<noteq> pr_state r, r4, w)))))"

fun drain_panes ::
  "('h, 'p, 'w) outside \<Rightarrow> nat \<Rightarrow> terminal_pane_id list \<Rightarrow> nat \<Rightarrow> runtime_batch \<Rightarrow> ('h, 'p) terminal_runtime \<Rightarrow> 'w \<Rightarrow>
     (runtime_batch \<times> ('h, 'p) terminal_runtime \<times> 'w) option"
where
  "drain_panes os per_pane [] aggregate_remaining batch t w = Some (batch, t, w)"
| "drain_panes os per_pane (pane # panes) aggregate_remaining batch t w =
     (if aggregate_remaining = 0 then Some (batch, t, w)
      else case bt_get (rt_panes t) pane of
          None \<Rightarrow> drain_panes os per_pane panes aggregate_remaining batch t w
        | Some r \<Rightarrow>
            Option.bind (drain_pane os (min per_pane aggregate_remaining) r w) (\<lambda>(consumed, changed, r, w).
              drain_panes os per_pane panes (aggregate_remaining - consumed)
                (batch\<lparr>rb_bytes := (if consumed > 0 then bt_insert pane consumed (rb_bytes batch) else rb_bytes batch),
                       rb_changed := (if changed then insert pane (rb_changed batch) else rb_changed batch)\<rparr>)
                (put_pane pane r t) w))"

definition drain ::
  "('h, 'p, 'w) outside \<Rightarrow> drain_budget \<Rightarrow> ('h, 'p) terminal_runtime \<Rightarrow> 'w \<Rightarrow>
     (runtime_batch \<times> ('h, 'p) terminal_runtime \<times> 'w) option" where
  "drain os budget t w =
     (let pane_ids = bt_keys (rt_panes t); n = length pane_ids in
      if pane_ids = [] \<or> db_aggregate_bytes budget = 0 \<or> db_per_pane_bytes budget = 0
      then Some (batch_default, t, w)
      else
        let start = rt_round_robin_cursor t mod n in
        map_option (\<lambda>(batch, t, w). (batch, t\<lparr>rt_round_robin_cursor := (start + 1) mod n\<rparr>, w))
          (drain_panes os (db_per_pane_bytes budget) (map (\<lambda>offset. pane_ids ! ((start + offset) mod n)) [0..<n])
            (db_aggregate_bytes budget) batch_default t w))"

section \<open>Readers\<close>

definition runtime_generation :: "('h, 'p) terminal_runtime \<Rightarrow> terminal_pane_id \<Rightarrow> u64 option" where
  "runtime_generation t pane = map_option pr_generation (bt_get (rt_panes t) pane)"

definition running_processes :: "('h, 'p) terminal_runtime \<Rightarrow> nat" where
  "running_processes t = length (filter (\<lambda>r. pr_process r \<noteq> None) (bt_values (rt_panes t)))"

definition snapshot_at :: "('h, 'p) terminal_runtime \<Rightarrow> terminal_pane_id \<Rightarrow> nat \<Rightarrow> terminal_snapshot option" where
  "snapshot_at t pane viewport_offset = map_option (\<lambda>r. model_snapshot viewport_offset (pr_model r)) (bt_get (rt_panes t) pane)"

definition projection ::
  "('h, 'p, 'w) outside \<Rightarrow> ('h, 'p) terminal_runtime \<Rightarrow> terminal_pane_id \<Rightarrow> 'w \<Rightarrow> runtime_pane_projection option \<times> 'w" where
  "projection os t pane w =
     (case bt_get (rt_panes t) pane of
        None \<Rightarrow> (None, w)
      | Some r \<Rightarrow>
          (case pane_health os r w of (health, w) \<Rightarrow>
            (Some \<lparr>rpp_generation = pr_generation r, rpp_state = pr_state r, rpp_health = health,
               rpp_snapshot = model_snapshot 0 (pr_model r)\<rparr>, w)))"

definition runtime_state :: "('h, 'p) terminal_runtime \<Rightarrow> terminal_pane_id \<Rightarrow> runtime_pane_state option" where
  "runtime_state t pane = map_option pr_state (bt_get (rt_panes t) pane)"

definition last_error :: "('h, 'p) terminal_runtime \<Rightarrow> terminal_pane_id \<Rightarrow> rust_string option" where
  "last_error t pane = Option.bind (bt_get (rt_panes t) pane) pr_last_error"

end
