(* ===== verification/SessionService.thy ===== *)
theory SessionService imports SessionStore TerminalRuntime RustPath begin

text \<open>
  The session service of \<open>strukt-session/src/service.rs\<close>: the catalog of definitions and the terminal
  runtime of the running panes side by side, tied together by pane generations. The process-wide
  counter of terminal pane identifiers is a field of the service, which is the only one to draw from
  it. An operation that reaches a terminal model is \<open>None\<close> where the model panics.
\<close>

section \<open>State\<close>

record ('h, 'p) session_service =
  ss_service_instance :: service_instance_id
  ss_catalog :: session_catalog
  ss_runtime :: "('h, 'p) terminal_runtime"
  ss_terminal_panes :: "(pane_id, terminal_pane_id) btree"
  ss_session_panes :: "(terminal_pane_id, pane_id) btree"
  ss_output_revisions :: "(pane_id, u64) btree"
  ss_terminal_revisions :: "(pane_id, u64) btree"
  ss_unread_counts :: "(pane_id, u64) btree"
  ss_attention :: "(pane_id, attention_state) btree"
  ss_historical :: "(pane_id, pane_screen_snapshot) btree"
  ss_attached_clients :: nat
  ss_detached_since :: nat
  ss_idle_timeout :: nat
  ss_dirty :: bool
  ss_terminal_ids :: terminal_ids

datatype service_error =
    StaleServiceInstance
  | StaleGeneration
  | GenerationDiverged
  | InvalidStartRequest
  | WriterAlreadyAttached
  | NoAttachedClient
  | InvalidWireRequest
  | FixtureUnavailable
  | RunningPanesPreventShutdown
  | ImportTargetNotEmpty
  | ServiceCatalog catalog_error
  | ServiceRuntime runtime_error
  | TransportRequest transport_error
  | ServiceSnapshot snapshot_error
  | ServiceStore session_store_error

record 'h service_start_job =
  ssj_service_instance :: service_instance_id
  ssj_session :: session_id
  ssj_pane :: pane_id
  ssj_generation :: u64
  ssj_runtime_job :: "'h runtime_start_job"

record 'h service_start_completion =
  ssc_service_instance :: service_instance_id
  ssc_session :: session_id
  ssc_pane :: pane_id
  ssc_generation :: u64
  ssc_runtime_pane :: terminal_pane_id
  ssc_result :: "rust_string + 'h"

record 'h service_terminate_job =
  stj_service_instance :: service_instance_id
  stj_session :: session_id
  stj_pane :: pane_id
  stj_generation :: u64
  stj_runtime_job :: "'h runtime_terminate_job"

record service_terminate_completion =
  stc_service_instance :: service_instance_id
  stc_session :: session_id
  stc_pane :: pane_id
  stc_generation :: u64
  stc_runtime_pane :: terminal_pane_id
  stc_runtime_completion :: runtime_terminate_completion

definition start_job_run ::
  "('h, 'p, 'w) outside \<Rightarrow> 'h service_start_job \<Rightarrow> 'w \<Rightarrow> 'h service_start_completion \<times> 'w" where
  "start_job_run os job w =
     (case run_start_job os (ssj_runtime_job job) w of (result, w) \<Rightarrow>
       (\<lparr>ssc_service_instance = ssj_service_instance job, ssc_session = ssj_session job, ssc_pane = ssj_pane job,
         ssc_generation = ssj_generation job, ssc_runtime_pane = rsj_pane (ssj_runtime_job job),
         ssc_result = result\<rparr>, w))"

definition terminate_job_run ::
  "('h, 'p, 'w) outside \<Rightarrow> 'h service_terminate_job \<Rightarrow> 'w \<Rightarrow> service_terminate_completion \<times> 'w" where
  "terminate_job_run os job w =
     (case run_terminate_job os (stj_runtime_job job) w of (completion, w) \<Rightarrow>
       (\<lparr>stc_service_instance = stj_service_instance job, stc_session = stj_session job, stc_pane = stj_pane job,
         stc_generation = stj_generation job, stc_runtime_pane = rtj_pane (stj_runtime_job job),
         stc_runtime_completion = completion\<rparr>, w))"

fun runtime_lifecycle :: "runtime_pane_state \<Rightarrow> pane_lifecycle" where
  "runtime_lifecycle runtime_pane_state.Stopped = pane_lifecycle.Stopped"
| "runtime_lifecycle runtime_pane_state.Starting = pane_lifecycle.Starting"
| "runtime_lifecycle runtime_pane_state.Running = pane_lifecycle.Running"
| "runtime_lifecycle (runtime_pane_state.Exited code) = pane_lifecycle.Exited code"
| "runtime_lifecycle (runtime_pane_state.Failed message) = pane_lifecycle.Failed message"
| "runtime_lifecycle runtime_pane_state.Backpressured = pane_lifecycle.Backpressured"

section \<open>Building\<close>

definition service_build ::
  "('h, 'p, 'w) outside \<Rightarrow> service_instance_id \<Rightarrow> session_catalog \<Rightarrow> pane_history list \<Rightarrow> nat \<Rightarrow> nat \<Rightarrow>
     terminal_ids \<Rightarrow> 'w \<Rightarrow> (service_error + ('h, 'p) session_service) \<times> 'w" where
  "service_build os service_instance catalog histories scrollback_limit idle_timeout ids w =
     (case stopped_clone catalog of
        Inl e \<Rightarrow> (Inl (ServiceCatalog e), w)
      | Inr catalog \<Rightarrow>
          (case os_now os w of (now, w) \<Rightarrow>
            (Inr \<lparr>ss_service_instance = service_instance, ss_catalog = catalog,
               ss_runtime = terminal_runtime_new scrollback_limit, ss_terminal_panes = bt_empty,
               ss_session_panes = bt_empty, ss_output_revisions = bt_empty, ss_terminal_revisions = bt_empty,
               ss_unread_counts = bt_empty, ss_attention = bt_empty,
               ss_historical = bt_from_list (map (\<lambda>h. (ph_pane h, ph_screen h)) histories),
               ss_attached_clients = 0, ss_detached_since = now, ss_idle_timeout = idle_timeout,
               ss_dirty = False, ss_terminal_ids = ids\<rparr>, w)))"

definition service_new ::
  "('h, 'p, 'w) outside \<Rightarrow> service_instance_id \<Rightarrow> session_catalog \<Rightarrow> nat \<Rightarrow> nat \<Rightarrow> terminal_ids \<Rightarrow> 'w \<Rightarrow>
     (service_error + ('h, 'p) session_service) \<times> 'w" where
  "service_new os service_instance catalog scrollback_limit idle_timeout ids w =
     service_build os service_instance catalog [] scrollback_limit idle_timeout ids w"

definition service_restore ::
  "('h, 'p, 'w) outside \<Rightarrow> service_instance_id \<Rightarrow> 'x persisted_catalog \<Rightarrow> nat \<Rightarrow> nat \<Rightarrow> terminal_ids \<Rightarrow> 'w \<Rightarrow>
     (service_error + ('h, 'p) session_service) \<times> 'w" where
  "service_restore os service_instance persisted scrollback_limit idle_timeout ids w =
     service_build os service_instance (pe_catalog persisted) (pe_histories persisted) scrollback_limit
       idle_timeout ids w"

section \<open>Readers\<close>

definition running_panes :: "('h, 'p) session_service \<Rightarrow> nat" where
  "running_panes s = running_processes (ss_runtime s)"

definition service_pane_generation :: "('h, 'p) session_service \<Rightarrow> pane_id \<Rightarrow> u64 option" where
  "service_pane_generation s pane = map_option (\<lambda>(_, _, p). sp_generation p) (catalog_pane (ss_catalog s) pane)"

definition service_pane_lifecycle :: "('h, 'p) session_service \<Rightarrow> pane_id \<Rightarrow> pane_lifecycle option" where
  "service_pane_lifecycle s pane = map_option (\<lambda>(_, _, p). sp_lifecycle p) (catalog_pane (ss_catalog s) pane)"

definition catalog_panes :: "session_catalog \<Rightarrow> session_pane list" where
  "catalog_panes c =
     concat (map (\<lambda>w. bt_values (sw_panes w)) (concat (map se_windows (bt_values (cat_sessions c)))))"

definition unread_of :: "('h, 'p) session_service \<Rightarrow> pane_id \<Rightarrow> u64" where
  "unread_of s pane = (case bt_get (ss_unread_counts s) pane of Some n \<Rightarrow> n | None \<Rightarrow> 0)"

definition attention_of :: "('h, 'p) session_service \<Rightarrow> pane_id \<Rightarrow> attention_state" where
  "attention_of s pane = (case bt_get (ss_attention s) pane of Some a \<Rightarrow> a | None \<Rightarrow> NoAttention)"

definition output_revision_of :: "('h, 'p) session_service \<Rightarrow> pane_id \<Rightarrow> u64" where
  "output_revision_of s pane = (case bt_get (ss_output_revisions s) pane of Some n \<Rightarrow> n | None \<Rightarrow> 0)"

definition pane_statuses :: "('h, 'p) session_service \<Rightarrow> (pane_id \<times> u64 \<times> attention_state) list" where
  "pane_statuses s =
     map (\<lambda>p. let historical = bt_get (ss_historical s) (sp_id p) in
       (sp_id p,
        (case bt_get (ss_unread_counts s) (sp_id p) of
           Some n \<Rightarrow> n
         | None \<Rightarrow> (case historical of Some h \<Rightarrow> ps_unread_count h | None \<Rightarrow> 0)),
        (case bt_get (ss_attention s) (sp_id p) of
           Some a \<Rightarrow> a
         | None \<Rightarrow> (case historical of Some h \<Rightarrow> ps_attention h | None \<Rightarrow> NoAttention))))
       (catalog_panes (ss_catalog s))"

definition expect_instance :: "('h, 'p) session_service \<Rightarrow> service_instance_id \<Rightarrow> service_error + unit" where
  "expect_instance s service_instance = ensure (service_instance = ss_service_instance s) StaleServiceInstance"

definition matches_generation :: "('h, 'p) session_service \<Rightarrow> session_id \<Rightarrow> pane_id \<Rightarrow> u64 \<Rightarrow> bool" where
  "matches_generation s sid pane generation =
     (case catalog_pane (ss_catalog s) pane of
        None \<Rightarrow> False
      | Some (owner, _, p) \<Rightarrow> owner = sid \<and> sp_generation p = generation)"

definition runtime_pane :: "('h, 'p) session_service \<Rightarrow> pane_id \<Rightarrow> service_error + terminal_pane_id" where
  "runtime_pane s pane = ok_or (bt_get (ss_terminal_panes s) pane) StaleGeneration"

definition is_active_visible_pane :: "('h, 'p) session_service \<Rightarrow> session_id \<Rightarrow> pane_id \<Rightarrow> bool" where
  "is_active_visible_pane s sid pane \<longleftrightarrow>
     ss_attached_clients s > 0 \<and> cat_active_session (ss_catalog s) = Some sid \<and>
     (case Option.bind (bt_get (cat_sessions (ss_catalog s)) sid) session_active_window of
        None \<Rightarrow> False
      | Some w \<Rightarrow> sw_focused_pane w = pane)"

definition should_exit :: "('h, 'p, 'w) outside \<Rightarrow> ('h, 'p) session_service \<Rightarrow> 'w \<Rightarrow> bool \<times> 'w" where
  "should_exit os s w =
     (if ss_attached_clients s = 0 \<and> running_processes (ss_runtime s) = 0
      then elapsed_is os (\<lambda>d. d \<ge> ss_idle_timeout s) (Some (ss_detached_since s)) w
      else (False, w))"

section \<open>The controlling client\<close>

definition service_attach ::
  "service_instance_id \<Rightarrow> ('h, 'p) session_service \<Rightarrow> (service_error + unit) \<times> ('h, 'p) session_service" where
  "service_attach service_instance s =
     attempt (expect_instance s service_instance) s (\<lambda>_.
     if ss_attached_clients s > 0 then (Inl WriterAlreadyAttached, s)
     else (Inr (), s\<lparr>ss_attached_clients := 1\<rparr>))"

definition service_detach ::
  "('h, 'p, 'w) outside \<Rightarrow> service_instance_id \<Rightarrow> ('h, 'p) session_service \<Rightarrow> 'w \<Rightarrow>
     (service_error + unit) \<times> ('h, 'p) session_service \<times> 'w" where
  "service_detach os service_instance s w =
     (case expect_instance s service_instance of
        Inl e \<Rightarrow> (Inl e, s, w)
      | Inr _ \<Rightarrow>
          if ss_attached_clients s = 0 then (Inl NoAttachedClient, s, w)
          else (case os_now os w of (now, w) \<Rightarrow>
            (Inr (), s\<lparr>ss_attached_clients := 0, ss_detached_since := now\<rparr>, w)))"

section \<open>Catalog mutations\<close>

definition service_create_session ::
  "entropy \<Rightarrow> service_instance_id \<Rightarrow> u64 \<Rightarrow> rust_string \<Rightarrow> path \<Rightarrow> ('h, 'p) session_service \<Rightarrow>
     (service_error + session_id) \<times> ('h, 'p) session_service" where
  "service_create_session rng service_instance expected name working_directory s =
     attempt (expect_instance s service_instance) s (\<lambda>_.
     case create_session rng name working_directory expected (ss_catalog s) of (result, c) \<Rightarrow>
     let s = s\<lparr>ss_catalog := c\<rparr> in
     attempt (map_err ServiceCatalog result) s (\<lambda>sid. (Inr sid, s\<lparr>ss_dirty := True\<rparr>)))"

definition import_stopped_catalog ::
  "service_instance_id \<Rightarrow> u64 \<Rightarrow> session_catalog \<Rightarrow> ('h, 'p) session_service \<Rightarrow>
     (service_error + unit) \<times> ('h, 'p) session_service" where
  "import_stopped_catalog service_instance expected catalog s =
     attempt (expect_instance s service_instance) s (\<lambda>_.
     attempt (map_err ServiceCatalog (expect_revision (ss_catalog s) expected)) s (\<lambda>_.
     if bt_values (cat_sessions (ss_catalog s)) \<noteq> [] then (Inl ImportTargetNotEmpty, s)
     else attempt (map_err ServiceCatalog (stopped_clone catalog)) s (\<lambda>c.
       (Inr (), s\<lparr>ss_catalog := c, ss_dirty := True\<rparr>))))"

text \<open>The body of the loop over the removed panes.\<close>

definition forget_pane :: "pane_id \<Rightarrow> ('h, 'p) session_service \<Rightarrow> ('h, 'p) session_service" where
  "forget_pane pane s =
     (let s = (case bt_get (ss_terminal_panes s) pane of
                 Some terminal \<Rightarrow>
                   s\<lparr>ss_terminal_panes := bt_remove pane (ss_terminal_panes s),
                     ss_session_panes := bt_remove terminal (ss_session_panes s),
                     ss_runtime := discard terminal (ss_runtime s)\<rparr>
               | None \<Rightarrow> s)
      in s\<lparr>ss_output_revisions := bt_remove pane (ss_output_revisions s),
           ss_terminal_revisions := bt_remove pane (ss_terminal_revisions s),
           ss_unread_counts := bt_remove pane (ss_unread_counts s),
           ss_attention := bt_remove pane (ss_attention s),
           ss_historical := bt_remove pane (ss_historical s)\<rparr>)"

definition apply_catalog_mutation ::
  "service_instance_id \<Rightarrow> (session_catalog \<Rightarrow> (catalog_error + 'a) \<times> session_catalog) \<Rightarrow>
     ('h, 'p) session_service \<Rightarrow> (service_error + 'a) \<times> ('h, 'p) session_service" where
  "apply_catalog_mutation service_instance mutation s =
     attempt (expect_instance s service_instance) s (\<lambda>_.
     case mutation (ss_catalog s) of (result, c) \<Rightarrow>
     let s = s\<lparr>ss_catalog := c\<rparr> in
     attempt (map_err ServiceCatalog result) s (\<lambda>x.
       let removed = filter (\<lambda>pane. \<not> contains_pane c pane) (bt_keys (ss_terminal_panes s)) in
       (Inr x, (fold forget_pane removed s)\<lparr>ss_dirty := True\<rparr>)))"

section \<open>Starting and terminating panes\<close>

definition ensure_runtime_pane ::
  "pane_id \<Rightarrow> ('h, 'p) session_service \<Rightarrow> terminal_pane_id \<times> ('h, 'p) session_service" where
  "ensure_runtime_pane pane s =
     (case bt_get (ss_terminal_panes s) pane of
        Some terminal \<Rightarrow> (terminal, s)
      | None \<Rightarrow>
          (case new_pane_id (ss_terminal_ids s) of (terminal, ids) \<Rightarrow>
            (terminal,
             s\<lparr>ss_terminal_panes := bt_insert pane terminal (ss_terminal_panes s),
               ss_session_panes := bt_insert terminal pane (ss_session_panes s), ss_terminal_ids := ids\<rparr>)))"

definition begin_start ::
  "('h, 'p, 'w) outside \<Rightarrow> service_instance_id \<Rightarrow> u64 \<Rightarrow> session_id \<Rightarrow> pane_id \<Rightarrow> spawn_request \<Rightarrow>
     ('h, 'p) session_service \<Rightarrow> (service_error + 'h service_start_job) \<times> ('h, 'p) session_service" where
  "begin_start os service_instance expected sid pane request s =
     attempt (expect_instance s service_instance) s (\<lambda>_.
     attempt (ok_or (catalog_pane (ss_catalog s) pane) (ServiceCatalog catalog_error.PaneNotFound)) s
       (\<lambda>(actual_session, _, p).
     if actual_session \<noteq> sid \<or>
        path_components (sp_working_directory p) \<noteq> path_components (sr_working_directory request)
     then (Inl InvalidStartRequest, s)
     else attempt (map_err ServiceCatalog (expect_revision (ss_catalog s) expected)) s (\<lambda>_.
     case ensure_runtime_pane pane s of (terminal, s) \<Rightarrow>
     let s = s\<lparr>ss_historical := bt_remove pane (ss_historical s)\<rparr>;
         requested_size = sr_size request in
     case begin_restart os terminal request (ss_runtime s) of (result, runtime) \<Rightarrow>
     let s = s\<lparr>ss_runtime := runtime\<rparr> in
     attempt (map_err ServiceRuntime result) s (\<lambda>runtime_job.
     case begin_pane_generation sid pane (tz_rows requested_size) (tz_columns requested_size) expected
            (ss_catalog s) of (result, c) \<Rightarrow>
     let s = s\<lparr>ss_catalog := c\<rparr> in
     attempt (map_err ServiceCatalog result) s (\<lambda>generation.
     if rsj_generation runtime_job \<noteq> generation
     then (Inl GenerationDiverged, s\<lparr>ss_runtime := discard terminal (ss_runtime s)\<rparr>)
     else
       (Inr \<lparr>ssj_service_instance = service_instance, ssj_session = sid, ssj_pane = pane,
          ssj_generation = generation, ssj_runtime_job = runtime_job\<rparr>, s\<lparr>ss_dirty := True\<rparr>))))))"

text \<open>What \<open>finish_start\<close> and \<open>finish_terminate\<close> do after the runtime has taken the completion.\<close>

definition record_completion ::
  "session_id \<Rightarrow> pane_id \<Rightarrow> u64 \<Rightarrow> terminal_pane_id \<Rightarrow> (runtime_error + unit) \<Rightarrow> ('h, 'p) session_service \<Rightarrow>
     (service_error + unit) \<times> ('h, 'p) session_service" where
  "record_completion sid pane generation terminal result s =
     attempt (ok_or (map_option runtime_lifecycle (runtime_state (ss_runtime s) terminal)) StaleGeneration) s
       (\<lambda>lifecycle.
     case set_generation_lifecycle sid pane generation lifecycle (ss_catalog s) of (recorded, c) \<Rightarrow>
     let s = s\<lparr>ss_catalog := c\<rparr> in
     attempt (map_err ServiceCatalog recorded) s (\<lambda>_.
       (map_err ServiceRuntime result, s\<lparr>ss_dirty := True\<rparr>)))"

definition finish_start ::
  "'h service_start_completion \<Rightarrow> ('h, 'p) session_service \<Rightarrow>
     (service_error + unit) \<times> ('h, 'p) session_service" where
  "finish_start completion s =
     attempt (expect_instance s (ssc_service_instance completion)) s (\<lambda>_.
     if \<not> matches_generation s (ssc_session completion) (ssc_pane completion) (ssc_generation completion)
     then (Inl StaleGeneration, s)
     else case finish_restart (ssc_runtime_pane completion) (ssc_generation completion) (ssc_result completion)
                 (ss_runtime s) of (result, runtime) \<Rightarrow>
       record_completion (ssc_session completion) (ssc_pane completion) (ssc_generation completion)
         (ssc_runtime_pane completion) result (s\<lparr>ss_runtime := runtime\<rparr>))"

definition service_begin_terminate ::
  "service_instance_id \<Rightarrow> u64 \<Rightarrow> session_id \<Rightarrow> pane_id \<Rightarrow> u64 \<Rightarrow> nat \<Rightarrow> ('h, 'p) session_service \<Rightarrow>
     (service_error + 'h service_terminate_job) \<times> ('h, 'p) session_service" where
  "service_begin_terminate service_instance expected sid pane generation grace s =
     attempt (expect_instance s service_instance) s (\<lambda>_.
     attempt (map_err ServiceCatalog (expect_revision (ss_catalog s) expected)) s (\<lambda>_.
     if \<not> matches_generation s sid pane generation then (Inl StaleGeneration, s)
     else attempt (runtime_pane s pane) s (\<lambda>terminal.
     case begin_terminate terminal grace (ss_runtime s) of (result, runtime) \<Rightarrow>
     let s = s\<lparr>ss_runtime := runtime\<rparr> in
     attempt (map_err ServiceRuntime result) s (\<lambda>runtime_job.
       (Inr \<lparr>stj_service_instance = service_instance, stj_session = sid, stj_pane = pane,
          stj_generation = generation, stj_runtime_job = runtime_job\<rparr>, s)))))"

definition service_finish_terminate ::
  "service_terminate_completion \<Rightarrow> ('h, 'p) session_service \<Rightarrow>
     (service_error + unit) \<times> ('h, 'p) session_service" where
  "service_finish_terminate completion s =
     attempt (expect_instance s (stc_service_instance completion)) s (\<lambda>_.
     if \<not> matches_generation s (stc_session completion) (stc_pane completion) (stc_generation completion)
     then (Inl StaleGeneration, s)
     else case finish_terminate (stc_runtime_completion completion) (ss_runtime s) of (result, runtime) \<Rightarrow>
       record_completion (stc_session completion) (stc_pane completion) (stc_generation completion)
         (stc_runtime_pane completion) result (s\<lparr>ss_runtime := runtime\<rparr>))"

section \<open>Input and size\<close>

definition service_write ::
  "('h, 'p, 'w) outside \<Rightarrow> service_instance_id \<Rightarrow> pane_id \<Rightarrow> u64 \<Rightarrow> u8 list \<Rightarrow> ('h, 'p) session_service \<Rightarrow> 'w \<Rightarrow>
     (service_error + unit) \<times> ('h, 'p) session_service \<times> 'w" where
  "service_write os service_instance pane generation bytes s w =
     (case and_then (expect_instance s service_instance) (\<lambda>_.
           and_then (ok_or (catalog_pane (ss_catalog s) pane) (ServiceCatalog catalog_error.PaneNotFound))
             (\<lambda>(sid, _, _).
           if \<not> matches_generation s sid pane generation then Inl StaleGeneration else runtime_pane s pane)) of
        Inl e \<Rightarrow> (Inl e, s, w)
      | Inr terminal \<Rightarrow>
          (case runtime_write os terminal bytes (ss_runtime s) w of (result, runtime, w) \<Rightarrow>
            (map_err ServiceRuntime result, s\<lparr>ss_runtime := runtime\<rparr>, w)))"

definition service_resize ::
  "('h, 'p, 'w) outside \<Rightarrow> service_instance_id \<Rightarrow> u64 \<Rightarrow> pane_id \<Rightarrow> u64 \<Rightarrow> terminal_size \<Rightarrow>
     ('h, 'p) session_service \<Rightarrow> 'w \<Rightarrow> ((service_error + unit) \<times> ('h, 'p) session_service \<times> 'w) option" where
  "service_resize os service_instance expected pane generation sz s w =
     (case and_then (expect_instance s service_instance) (\<lambda>_.
           and_then (map_err ServiceCatalog (expect_revision (ss_catalog s) expected)) (\<lambda>_.
           and_then (ok_or (catalog_pane (ss_catalog s) pane) (ServiceCatalog catalog_error.PaneNotFound))
             (\<lambda>(sid, _, _).
           if \<not> matches_generation s sid pane generation then Inl StaleGeneration
           else and_then (runtime_pane s pane) (\<lambda>terminal. Inr (sid, terminal))))) of
        Inl e \<Rightarrow> Some (Inl e, s, w)
      | Inr (sid, terminal) \<Rightarrow>
          map_option (\<lambda>(result, runtime, w).
            let s = s\<lparr>ss_runtime := runtime\<rparr> in
            (case result of
               Inl e \<Rightarrow> (Inl (ServiceRuntime e), s, w)
             | Inr _ \<Rightarrow>
                 (case set_pane_size sid pane (tz_rows sz) (tz_columns sz) expected (ss_catalog s) of
                    (Inl e, c) \<Rightarrow> (Inl (ServiceCatalog e), s\<lparr>ss_catalog := c\<rparr>, w)
                  | (Inr _, c) \<Rightarrow> (Inr (), s\<lparr>ss_catalog := c, ss_dirty := True\<rparr>, w))))
            (runtime_resize os terminal sz (ss_runtime s) w))"

section \<open>Output\<close>

text \<open>The two halves of the loop body of \<open>tick\<close>: counting output, and following the runtime's state.\<close>

definition note_output ::
  "session_id \<Rightarrow> pane_id \<Rightarrow> u64 \<Rightarrow> ('h, 'p) session_service \<Rightarrow> ('h, 'p) session_service" where
  "note_output sid pane terminal_revision s =
     (let prior_revision = (case bt_get (ss_terminal_revisions s) pane of Some n \<Rightarrow> n | None \<Rightarrow> 0) in
      if terminal_revision > prior_revision then
        let s = s\<lparr>ss_terminal_revisions := bt_insert pane terminal_revision (ss_terminal_revisions s),
                  ss_output_revisions := bt_insert pane (sat_inc (output_revision_of s pane)) (ss_output_revisions s)\<rparr>
        in if \<not> is_active_visible_pane s sid pane
           then s\<lparr>ss_unread_counts := bt_insert pane (sat_inc (unread_of s pane)) (ss_unread_counts s),
                  ss_attention := bt_insert pane (on_output False (attention_of s pane)) (ss_attention s)\<rparr>
           else s
      else s)"

definition follow_state ::
  "session_id \<Rightarrow> pane_id \<Rightarrow> session_pane \<Rightarrow> u64 \<Rightarrow> pane_lifecycle \<Rightarrow> ('h, 'p) session_service \<Rightarrow>
     ('h, 'p) session_service" where
  "follow_state sid pane p generation lifecycle s =
     (let s = (if (case lifecycle of pane_lifecycle.Exited _ \<Rightarrow> True | pane_lifecycle.Failed _ \<Rightarrow> True
                   | pane_lifecycle.Backpressured \<Rightarrow> True | _ \<Rightarrow> False) \<and>
                  sp_lifecycle p \<noteq> lifecycle
               then s\<lparr>ss_attention := bt_insert pane Attention (ss_attention s)\<rparr> else s)
      in s\<lparr>ss_catalog := snd (set_generation_lifecycle sid pane generation lifecycle (ss_catalog s))\<rparr>)"

fun tick_panes ::
  "('h, 'p, 'w) outside \<Rightarrow> terminal_pane_id list \<Rightarrow> pane_id set \<Rightarrow> ('h, 'p) session_service \<Rightarrow> 'w \<Rightarrow>
     pane_id set \<times> ('h, 'p) session_service \<times> 'w"
where
  "tick_panes os [] changed s w = (changed, s, w)"
| "tick_panes os (terminal # terminals) changed s w =
     (case bt_get (ss_session_panes s) terminal of
        None \<Rightarrow> tick_panes os terminals changed s w
      | Some pane \<Rightarrow>
          (case projection os (ss_runtime s) terminal w of
             (None, w) \<Rightarrow> tick_panes os terminals changed s w
           | (Some pr, w) \<Rightarrow>
               (case catalog_pane (ss_catalog s) pane of
                  None \<Rightarrow> tick_panes os terminals changed s w
                | Some (sid, _, p) \<Rightarrow>
                    if sp_generation p \<noteq> rpp_generation pr then tick_panes os terminals changed s w
                    else tick_panes os terminals (insert pane changed)
                      (follow_state sid pane p (rpp_generation pr) (runtime_lifecycle (rpp_state pr))
                        (note_output sid pane (ts_revision (rpp_snapshot pr)) s)) w)))"

text \<open>The changed panes of a batch are a \<open>BTreeSet\<close>: they come in order.\<close>

definition tick ::
  "('h, 'p, 'w) outside \<Rightarrow> ('h, 'p) session_service \<Rightarrow> 'w \<Rightarrow>
     (pane_id set \<times> ('h, 'p) session_service \<times> 'w) option" where
  "tick os s w =
     map_option (\<lambda>(runtime_batch, runtime, w).
       (case tick_panes os (sorted_list_of_set (rb_changed runtime_batch)) {} (s\<lparr>ss_runtime := runtime\<rparr>) w of
          (changed, s, w) \<Rightarrow> (changed, (if changed \<noteq> {} then s\<lparr>ss_dirty := True\<rparr> else s), w)))
       (drain os drain_budget_default (ss_runtime s) w)"

section \<open>Snapshots and persistence\<close>

definition service_snapshot ::
  "('h, 'p, 'w) outside \<Rightarrow> pane_id \<Rightarrow> ('h, 'p) session_service \<Rightarrow> 'w \<Rightarrow>
     (service_error + pane_screen_snapshot) \<times> ('h, 'p) session_service \<times> 'w" where
  "service_snapshot os pane s w =
     (case catalog_pane (ss_catalog s) pane of
        None \<Rightarrow> (Inl (ServiceCatalog catalog_error.PaneNotFound), s, w)
      | Some (sid, _, p) \<Rightarrow>
          let viewed = is_active_visible_pane s sid pane in
          (case bt_get (ss_terminal_panes s) pane of
             None \<Rightarrow>
               (case bt_get (ss_historical s) pane of
                  None \<Rightarrow> (Inl StaleGeneration, s, w)
                | Some snapshot \<Rightarrow>
                    if viewed then
                      let changed = (ps_unread_count snapshot > 0 \<or> ps_attention snapshot \<noteq> NoAttention);
                          snapshot = mark_viewed snapshot;
                          s = (if changed
                               then s\<lparr>ss_historical := bt_insert pane snapshot (ss_historical s), ss_dirty := True\<rparr>
                               else s)
                      in (Inr snapshot,
                          s\<lparr>ss_unread_counts := bt_remove pane (ss_unread_counts s),
                            ss_attention := bt_remove pane (ss_attention s)\<rparr>, w)
                    else (Inr snapshot, s, w))
           | Some terminal \<Rightarrow>
               (case projection os (ss_runtime s) terminal w of
                  (None, w) \<Rightarrow> (Inl StaleGeneration, s, w)
                | (Some pr, w) \<Rightarrow>
                    (case from_terminal (rpp_snapshot pr) (output_revision_of s pane) (sp_generation p)
                            (sp_lifecycle p) (unread_of s pane) (attention_of s pane) of
                       Inl e \<Rightarrow> (Inl (ServiceSnapshot e), s, w)
                     | Inr snapshot \<Rightarrow>
                         if viewed then
                           let changed = (bt_contains (ss_unread_counts s) pane \<or> bt_contains (ss_attention s) pane)
                           in (Inr (mark_viewed snapshot),
                               s\<lparr>ss_unread_counts := bt_remove pane (ss_unread_counts s),
                                 ss_attention := bt_remove pane (ss_attention s),
                                 ss_dirty := ss_dirty s \<or> changed\<rparr>, w)
                         else (Inr snapshot, s, w)))))"

text \<open>The loop of \<open>take_persistence\<close> over the panes of the runtime.\<close>

fun screen_histories ::
  "('h, 'p, 'w) outside \<Rightarrow> ('h, 'p) session_service \<Rightarrow> (pane_id \<times> terminal_pane_id) list \<Rightarrow>
     (pane_id, pane_history) btree \<Rightarrow> 'w \<Rightarrow> (service_error + (pane_id, pane_history) btree) \<times> 'w"
where
  "screen_histories os s [] histories w = (Inr histories, w)"
| "screen_histories os s ((pane, terminal) # panes) histories w =
     (case projection os (ss_runtime s) terminal w of
        (None, w) \<Rightarrow> screen_histories os s panes histories w
      | (Some pr, w) \<Rightarrow>
          (case from_terminal (rpp_snapshot pr) (output_revision_of s pane) 0 pane_lifecycle.Stopped
                  (unread_of s pane) (attention_of s pane) of
             Inl e \<Rightarrow> (Inl (ServiceSnapshot e), w)
           | Inr screen \<Rightarrow>
               screen_histories os s panes
                 (bt_insert pane \<lparr>ph_pane = pane, ph_screen = screen\<rparr> histories) w))"

definition take_persistence ::
  "('h, 'p, 'w) outside \<Rightarrow> ('h, 'p) session_service \<Rightarrow> 'w \<Rightarrow>
     (service_error + 'x persisted_catalog option) \<times> ('h, 'p) session_service \<times> 'w" where
  "take_persistence os s w =
     (if \<not> ss_dirty s then (Inr None, s, w)
      else case screen_histories os s (bt_entries (ss_terminal_panes s))
                  (bt_map (\<lambda>pane screen. \<lparr>ph_pane = pane, ph_screen = screen\<rparr>) (ss_historical s)) w of
          (Inl e, w) \<Rightarrow> (Inl e, s, w)
        | (Inr histories, w) \<Rightarrow>
            (case persisted_new (ss_catalog s) (bt_values histories) of
               Inl e \<Rightarrow> (Inl (ServiceStore e), s, w)
             | Inr r \<Rightarrow> (Inr (Some r), s\<lparr>ss_dirty := False\<rparr>, w)))"

end
