(* ===== verification/SessionDaemon.thy ===== *)
theory SessionDaemon imports SessionService begin

text \<open>
  The session daemon (\<open>strukt-session/src/bin/strukt-sessiond.rs\<close>): the requests of one controlling
  client and any number of readers, reduced to operations of the session service, and the loop that
  serves them, drains the terminals and persists what changed.
\<close>

section \<open>The outside of the daemon\<close>

definition TICK_INTERVAL :: nat where "TICK_INTERVAL = millis 10"
definition PERSIST_INTERVAL :: nat where "PERSIST_INTERVAL = millis 100"
definition TERMINATION_GRACE :: nat where "TERMINATION_GRACE = millis 500"
definition SCROLLBACK_ROWS :: nat where "SCROLLBACK_ROWS = 10000"
definition IDLE_TIMEOUT :: nat where "IDLE_TIMEOUT = millis (30 * 60 * 1000)"

text \<open>
  Beside the outside of the terminals: the default shell of the environment, the fixture of the
  command line, and saving a record in the session store.
\<close>

record ('h, 'p, 'w, 'x) daemon_outside =
  do_os :: "('h, 'p, 'w) outside"
  do_default_shell :: "transport_error + path"
  do_fixture :: "path option"
  do_save :: "'x persisted_catalog \<Rightarrow> 'w \<Rightarrow> (session_store_error + unit) \<times> 'w"

text \<open>\<open>u16::saturating_add(1)\<close>.\<close>

definition sat_inc16 :: "u16 \<Rightarrow> u16" where
  "sat_inc16 n = (if n = - 1 then n else n + 1)"

section \<open>Errors on the wire\<close>

fun catalog_error_text :: "catalog_error \<Rightarrow> rust_string" where
  "catalog_error_text (StaleRevision expected actual) =
     lit ''stale catalog revision: expected '' @ decimal (unat expected) @ lit '', actual '' @ decimal (unat actual)"
| "catalog_error_text InvalidName = lit ''session name is invalid''"
| "catalog_error_text catalog_error.InvalidWorkingDirectory = lit ''working directory is invalid''"
| "catalog_error_text CapacityReached = lit ''session capacity reached''"
| "catalog_error_text SessionNotFound = lit ''session not found''"
| "catalog_error_text WindowNotFound = lit ''window not found''"
| "catalog_error_text catalog_error.PaneNotFound = lit ''pane not found''"
| "catalog_error_text InvalidSplitRatio = lit ''split ratio must be between 10 and 90 percent''"
| "catalog_error_text NoFocusedSplit = lit ''focused pane has no parent split''"
| "catalog_error_text LayoutTooDeep = lit ''session layout is too deep''"
| "catalog_error_text InvalidLayout = lit ''session layout is invalid''"
| "catalog_error_text InvalidCatalog = lit ''session catalog is invalid''"
| "catalog_error_text LastPane = lit ''the last pane must be closed with its window''"
| "catalog_error_text LastWindow = lit ''the last window must be closed with its session''"
| "catalog_error_text PaneRunning = lit ''running pane must be terminated before close''"
| "catalog_error_text WindowRunning = lit ''window contains running panes''"
| "catalog_error_text SessionRunning = lit ''running session must be terminated before removal''"
| "catalog_error_text (IdFailed RandomUnavailable) = lit ''the operating system random source is unavailable''"
| "catalog_error_text (IdFailed InvalidFormat) =
     lit ''the identifier must be exactly 32 lowercase hexadecimal characters''"

fun snapshot_error_text :: "snapshot_error \<Rightarrow> rust_string" where
  "snapshot_error_text TooManyRows = lit ''terminal snapshot exceeds the row limit''"
| "snapshot_error_text TooManyColumns = lit ''terminal snapshot exceeds the column limit''"
| "snapshot_error_text TooLarge = lit ''terminal snapshot exceeds the aggregate byte limit''"

fun store_error_text :: "session_store_error \<Rightarrow> rust_string" where
  "store_error_text (UnsupportedSchema schema) = lit ''unsupported session catalog schema '' @ decimal (unat schema)"
| "store_error_text StoredCatalogInvalid = lit ''session catalog is invalid''"
| "store_error_text InvalidHistory = lit ''session history is invalid''"
| "store_error_text RecordTooLarge = lit ''session catalog exceeds the aggregate byte limit''"
| "store_error_text (StoreIo e) = lit ''session catalog IO failed: '' @ e"
| "store_error_text (StoreJson e) = lit ''session catalog serialization failed: '' @ e"
| "store_error_text (StoreCatalog e) = catalog_error_text e"

fun service_error_text :: "service_error \<Rightarrow> rust_string" where
  "service_error_text StaleServiceInstance = lit ''session service instance is stale''"
| "service_error_text StaleGeneration = lit ''session pane generation is stale''"
| "service_error_text GenerationDiverged = lit ''session and terminal generations diverged''"
| "service_error_text InvalidStartRequest = lit ''session start request does not match its pane definition''"
| "service_error_text WriterAlreadyAttached = lit ''a controlling session client is already attached''"
| "service_error_text NoAttachedClient = lit ''no controlling session client is attached''"
| "service_error_text InvalidWireRequest = lit ''session wire request is invalid''"
| "service_error_text FixtureUnavailable = lit ''repository session fixture is unavailable''"
| "service_error_text RunningPanesPreventShutdown = lit ''running panes prevent service shutdown''"
| "service_error_text ImportTargetNotEmpty = lit ''stopped catalog import requires an empty service''"
| "service_error_text (ServiceCatalog e) = catalog_error_text e"
| "service_error_text (ServiceRuntime e) = runtime_error_text e"
| "service_error_text (TransportRequest e) = transport_error_text e"
| "service_error_text (ServiceSnapshot e) = snapshot_error_text e"
| "service_error_text (ServiceStore e) = store_error_text e"

fun provider_error_of :: "service_error \<Rightarrow> provider_error" where
  "provider_error_of StaleServiceInstance = Unavailable"
| "provider_error_of StaleGeneration = Unavailable"
| "provider_error_of (ServiceCatalog (StaleRevision _ _)) = ProviderStaleRevision"
| "provider_error_of (ServiceCatalog CapacityReached) = ProviderCapacityReached"
| "provider_error_of (ServiceCatalog SessionNotFound) = NotFound"
| "provider_error_of (ServiceCatalog WindowNotFound) = NotFound"
| "provider_error_of (ServiceCatalog catalog_error.PaneNotFound) = NotFound"
| "provider_error_of (ServiceRuntime e) = process_failed (runtime_error_text e)"
| "provider_error_of (TransportRequest e) = process_failed (transport_error_text e)"
| "provider_error_of NoAttachedClient = InvalidAction"
| "provider_error_of WriterAlreadyAttached = InvalidAction"
| "provider_error_of FixtureUnavailable = InvalidAction"
| "provider_error_of RunningPanesPreventShutdown = InvalidAction"
| "provider_error_of ImportTargetNotEmpty = InvalidAction"
| "provider_error_of InvalidWireRequest = InvalidAction"
| "provider_error_of InvalidStartRequest = InvalidAction"
| "provider_error_of other = internal (service_error_text other)"

section \<open>Panes and sessions\<close>

type_synonym ('h, 'p, 'w) reply = "(service_error + response_body) \<times> ('h, 'p) session_service \<times> 'w"

definition catalog_snapshot :: "('h, 'p) session_service \<Rightarrow> provider_catalog_snapshot" where
  "catalog_snapshot s =
     with_pane_statuses (pane_statuses s)
       (provider_catalog_snapshot_new (ss_service_instance s) NativeLocal native_local (ss_catalog s))"

definition require_controller :: "u64 option \<Rightarrow> u64 \<Rightarrow> service_error + unit" where
  "require_controller owner client = ensure (owner = Some client) NoAttachedClient"

definition pane_working_directory :: "('h, 'p) session_service \<Rightarrow> pane_id \<Rightarrow> service_error + path" where
  "pane_working_directory s pane =
     map_err ServiceCatalog (and_then (ok_or (catalog_pane (ss_catalog s) pane) catalog_error.PaneNotFound)
       (\<lambda>(_, _, p). Inr (sp_working_directory p)))"

definition finish_pane_start ::
  "('h, 'p, 'w) outside \<Rightarrow> u64 \<Rightarrow> session_id \<Rightarrow> pane_id \<Rightarrow> spawn_request \<Rightarrow> ('h, 'p) session_service \<Rightarrow> 'w \<Rightarrow>
     ('h, 'p, 'w) reply" where
  "finish_pane_start os expected sid pane spawn s w =
     (case begin_start os (ss_service_instance s) expected sid pane spawn s of
        (Inl e, s) \<Rightarrow> (Inl e, s, w)
      | (Inr job, s) \<Rightarrow>
          (case start_job_run os job w of (completion, w) \<Rightarrow>
          (case finish_start completion s of
             (Inl e, s) \<Rightarrow> (Inl e, s, w)
           | (Inr _, s) \<Rightarrow> (Inr (RespPaneStarted pane (ssj_generation job)), s, w))))"

definition start_default_pane ::
  "('h, 'p, 'w, 'x) daemon_outside \<Rightarrow> u64 \<Rightarrow> session_id \<Rightarrow> pane_id \<Rightarrow> u16 \<Rightarrow> u16 \<Rightarrow> ('h, 'p) session_service \<Rightarrow> 'w \<Rightarrow>
     ('h, 'p, 'w) reply" where
  "start_default_pane d expected sid pane rows columns s w =
     (case and_then (pane_working_directory s pane) (\<lambda>directory.
           and_then (map_err TransportRequest (terminal_size_new rows columns)) (\<lambda>sz.
           map_err TransportRequest (default_shell_request (do_default_shell d) directory sz))) of
        Inl e \<Rightarrow> (Inl e, s, w)
      | Inr spawn \<Rightarrow> finish_pane_start (do_os d) expected sid pane spawn s w)"

definition start_fixture_pane ::
  "('h, 'p, 'w, 'x) daemon_outside \<Rightarrow> u64 \<Rightarrow> session_id \<Rightarrow> pane_id \<Rightarrow> fixture_mode \<Rightarrow> terminal_size \<Rightarrow>
     ('h, 'p) session_service \<Rightarrow> 'w \<Rightarrow> ('h, 'p, 'w) reply" where
  "start_fixture_pane d expected sid pane mode sz s w =
     (let arguments = (case mode of Hold \<Rightarrow> [lit ''hold'']) in
      case and_then (ok_or (do_fixture d) FixtureUnavailable) (\<lambda>executable.
           and_then (pane_working_directory s pane) (\<lambda>directory.
           Inr \<lparr>sr_executable = executable, sr_arguments = arguments, sr_working_directory = directory,
             sr_environment = [], sr_size = sz\<rparr>)) of
        Inl e \<Rightarrow> (Inl e, s, w)
      | Inr spawn \<Rightarrow> finish_pane_start (do_os d) expected sid pane spawn s w)"

text \<open>\<open>begin_terminate\<close>, the job, \<open>finish_terminate\<close>.\<close>

definition terminate_pane ::
  "('h, 'p, 'w) outside \<Rightarrow> u64 \<Rightarrow> session_id \<Rightarrow> pane_id \<Rightarrow> u64 \<Rightarrow> ('h, 'p) session_service \<Rightarrow> 'w \<Rightarrow>
     (service_error + unit) \<times> ('h, 'p) session_service \<times> 'w" where
  "terminate_pane os expected sid pane generation s w =
     (case service_begin_terminate (ss_service_instance s) expected sid pane generation TERMINATION_GRACE s of
        (Inl e, s) \<Rightarrow> (Inl e, s, w)
      | (Inr job, s) \<Rightarrow>
          (case terminate_job_run os job w of (completion, w) \<Rightarrow>
          (case service_finish_terminate completion s of (result, s) \<Rightarrow> (result, s, w))))"

definition panes_of_session ::
  "('h, 'p) session_service \<Rightarrow> u64 \<Rightarrow> session_id \<Rightarrow> service_error + (pane_id \<times> u64 \<times> pane_lifecycle) list" where
  "panes_of_session s expected sid =
     map_err ServiceCatalog
       (and_then (expect_revision (ss_catalog s) expected) (\<lambda>_.
        and_then (ok_or (bt_get (cat_sessions (ss_catalog s)) sid) SessionNotFound) (\<lambda>target.
        Inr (map (\<lambda>p. (sp_id p, sp_generation p, sp_lifecycle p))
          (concat (map (\<lambda>w. bt_values (sw_panes w)) (se_windows target)))))))"

text \<open>The loops of \<open>terminate_session\<close> and \<open>restart_session\<close>, with their two counters.\<close>

fun terminate_panes ::
  "('h, 'p, 'w) outside \<Rightarrow> session_id \<Rightarrow> (pane_id \<times> u64 \<times> pane_lifecycle) list \<Rightarrow> u16 \<times> u16 \<Rightarrow>
     ('h, 'p) session_service \<Rightarrow> 'w \<Rightarrow> (u16 \<times> u16) \<times> ('h, 'p) session_service \<times> 'w"
where
  "terminate_panes os sid [] counts s w = (counts, s, w)"
| "terminate_panes os sid ((pane, generation, lifecycle) # panes) (terminated, failed) s w =
     (if \<not> is_live lifecycle then terminate_panes os sid panes (terminated, failed) s w
      else case terminate_pane os (cat_revision (ss_catalog s)) sid pane generation s w of (result, s, w) \<Rightarrow>
        terminate_panes os sid panes
          (if isl result then (terminated, sat_inc16 failed) else (sat_inc16 terminated, failed)) s w)"

definition terminate_session ::
  "('h, 'p, 'w) outside \<Rightarrow> u64 \<Rightarrow> session_id \<Rightarrow> ('h, 'p) session_service \<Rightarrow> 'w \<Rightarrow> ('h, 'p, 'w) reply" where
  "terminate_session os expected sid s w =
     (case panes_of_session s expected sid of
        Inl e \<Rightarrow> (Inl e, s, w)
      | Inr panes \<Rightarrow>
          (case terminate_panes os sid panes (0, 0) s w of ((terminated, failed), s, w) \<Rightarrow>
            (Inr (RespSessionTerminated sid terminated failed), s, w)))"

definition restart_pane_of_session ::
  "('h, 'p, 'w, 'x) daemon_outside \<Rightarrow> session_id \<Rightarrow> u16 \<Rightarrow> u16 \<Rightarrow> pane_id \<Rightarrow> u64 \<Rightarrow> pane_lifecycle \<Rightarrow>
     ('h, 'p) session_service \<Rightarrow> 'w \<Rightarrow> bool \<times> ('h, 'p) session_service \<times> 'w" where
  "restart_pane_of_session d sid rows columns pane generation lifecycle s w =
     (case (if is_live lifecycle
            then terminate_pane (do_os d) (cat_revision (ss_catalog s)) sid pane generation s w
            else (Inr (), s, w)) of
        (Inl e, s, w) \<Rightarrow> (False, s, w)
      | (Inr _, s, w) \<Rightarrow>
          (case start_default_pane d (cat_revision (ss_catalog s)) sid pane rows columns s w of (result, s, w) \<Rightarrow>
            (\<not> isl result, s, w)))"

fun restart_panes ::
  "('h, 'p, 'w, 'x) daemon_outside \<Rightarrow> session_id \<Rightarrow> u16 \<Rightarrow> u16 \<Rightarrow> (pane_id \<times> u64 \<times> pane_lifecycle) list \<Rightarrow>
     u16 \<times> u16 \<Rightarrow> ('h, 'p) session_service \<Rightarrow> 'w \<Rightarrow> (u16 \<times> u16) \<times> ('h, 'p) session_service \<times> 'w"
where
  "restart_panes d sid rows columns [] counts s w = (counts, s, w)"
| "restart_panes d sid rows columns ((pane, generation, lifecycle) # panes) (restarted, failed) s w =
     (case restart_pane_of_session d sid rows columns pane generation lifecycle s w of (fine, s, w) \<Rightarrow>
       restart_panes d sid rows columns panes
         (if fine then (sat_inc16 restarted, failed) else (restarted, sat_inc16 failed)) s w)"

definition restart_session ::
  "('h, 'p, 'w, 'x) daemon_outside \<Rightarrow> u64 \<Rightarrow> session_id \<Rightarrow> u16 \<Rightarrow> u16 \<Rightarrow> ('h, 'p) session_service \<Rightarrow> 'w \<Rightarrow>
     ('h, 'p, 'w) reply" where
  "restart_session d expected sid rows columns s w =
     (case panes_of_session s expected sid of
        Inl e \<Rightarrow> (Inl e, s, w)
      | Inr panes \<Rightarrow>
          (case restart_panes d sid rows columns panes (0, 0) s w of ((restarted, failed), s, w) \<Rightarrow>
            (Inr (RespSessionRestarted sid restarted failed), s, w)))"

section \<open>Requests\<close>

text \<open>The two forms of an arm that mutates the catalog: it answers with the catalog, or with an identifier.\<close>

definition changing ::
  "(session_catalog \<Rightarrow> (catalog_error + unit) \<times> session_catalog) \<Rightarrow> ('h, 'p) session_service \<Rightarrow> 'w \<Rightarrow>
     ('h, 'p, 'w) reply" where
  "changing mutation s w =
     (case apply_catalog_mutation (ss_service_instance s) mutation s of
        (Inl e, s) \<Rightarrow> (Inl e, s, w)
      | (Inr _, s) \<Rightarrow> (Inr (RespCatalogChanged (catalog_snapshot s)), s, w))"

definition naming ::
  "('a \<Rightarrow> response_body) \<Rightarrow> (session_catalog \<Rightarrow> (catalog_error + 'a) \<times> session_catalog) \<Rightarrow>
     ('h, 'p) session_service \<Rightarrow> 'w \<Rightarrow> ('h, 'p, 'w) reply" where
  "naming body mutation s w =
     (case apply_catalog_mutation (ss_service_instance s) mutation s of (result, s) \<Rightarrow>
       (and_then result (\<lambda>x. Inr (body x)), s, w))"

fun controlled ::
  "('h, 'p, 'w, 'x) daemon_outside \<Rightarrow> entropy \<Rightarrow> u64 \<Rightarrow> request_body \<Rightarrow> ('h, 'p) session_service \<Rightarrow> 'w \<Rightarrow>
     ('h, 'p, 'w) reply option"
where
  "controlled d rng e (ReqCreateSession name directory) s w =
     (case service_create_session rng (ss_service_instance s) e name directory s of (result, s) \<Rightarrow>
       Some (and_then result (\<lambda>sid. Inr (RespSessionCreated sid)), s, w))"
| "controlled d rng e (ReqImportStoppedCatalog catalog) s w =
     (case import_stopped_catalog (ss_service_instance s) e catalog s of (result, s) \<Rightarrow>
       Some (and_then result (\<lambda>_. Inr (RespCatalogChanged (catalog_snapshot s))), s, w))"
| "controlled d rng e (ReqRenameSession sid name) s w = Some (changing (rename_session sid name e) s w)"
| "controlled d rng e (ReqActivateSession sid) s w = Some (changing (activate_session sid e) s w)"
| "controlled d rng e (ReqDuplicateSession sid) s w =
     Some (naming RespSessionDuplicated (duplicate_session rng sid e) s w)"
| "controlled d rng e (ReqRestartSession sid rows columns) s w = Some (restart_session d e sid rows columns s w)"
| "controlled d rng e (ReqTerminateSession sid) s w = Some (terminate_session (do_os d) e sid s w)"
| "controlled d rng e (ReqRemoveSession sid) s w = Some (changing (remove_session sid e) s w)"
| "controlled d rng e (ReqCreateWindow sid name directory) s w =
     Some (naming RespWindowCreated (create_window rng sid name directory e) s w)"
| "controlled d rng e (ReqRenameWindow sid wid name) s w = Some (changing (rename_window sid wid name e) s w)"
| "controlled d rng e (ReqActivateWindow sid wid) s w = Some (changing (activate_window sid wid e) s w)"
| "controlled d rng e (ReqDuplicateWindow sid wid) s w =
     Some (naming RespWindowDuplicated (duplicate_window rng sid wid e) s w)"
| "controlled d rng e (ReqCloseWindow sid wid) s w = Some (changing (close_window sid wid e) s w)"
| "controlled d rng e (ReqSplitPane sid axis) s w = Some (naming RespPaneSplit (split_focused rng sid axis e) s w)"
| "controlled d rng e (ReqFocusPane sid pane) s w = Some (changing (focus_pane sid pane e) s w)"
| "controlled d rng e (ReqSetSplitRatio sid ratio) s w =
     Some (changing (set_focused_split_ratio sid ratio e) s w)"
| "controlled d rng e (ReqClosePane sid pane) s w = Some (changing (close_pane sid pane e) s w)"
| "controlled d rng e (ReqStartPane sid pane rows columns) s w =
     Some (start_default_pane d e sid pane rows columns s w)"
| "controlled d rng e (ReqStartFixturePane sid pane mode rows columns) s w =
     Some (case terminal_size_new rows columns of
        Inl err \<Rightarrow> (Inl (TransportRequest err), s, w)
      | Inr sz \<Rightarrow> start_fixture_pane d e sid pane mode sz s w)"
| "controlled d rng e (ReqWritePane pane generation bytes) s w =
     Some (case service_write (do_os d) (ss_service_instance s) pane generation bytes s w of (result, s, w) \<Rightarrow>
       (and_then result (\<lambda>_. Inr RespPaneWritten), s, w))"
| "controlled d rng e (ReqResizePane pane generation rows columns) s w =
     (case terminal_size_new rows columns of
        Inl err \<Rightarrow> Some (Inl (TransportRequest err), s, w)
      | Inr sz \<Rightarrow>
          map_option (\<lambda>(result, s, w). (and_then result (\<lambda>_. Inr RespPaneResized), s, w))
            (service_resize (do_os d) (ss_service_instance s) e pane generation sz s w))"
| "controlled d rng e (ReqSnapshot pane) s w =
     Some (case service_snapshot (do_os d) pane s w of (result, s, w) \<Rightarrow>
       (and_then result (\<lambda>snapshot. Inr (RespPaneSnapshot snapshot)), s, w))"
| "controlled d rng e (ReqTerminatePane sid pane generation) s w =
     Some (case terminate_pane (do_os d) e sid pane generation s w of (result, s, w) \<Rightarrow>
       (and_then result (\<lambda>_. Inr (RespPaneTerminated pane generation)), s, w))"
| "controlled d rng e ReqShutdown s w =
     Some (if running_panes s > 0 then (Inl RunningPanesPreventShutdown, s, w) else (Inr RespShuttingDown, s, w))"
| "controlled d rng e _ s w = Some (Inl InvalidWireRequest, s, w)"

text \<open>Only the arm of the shutdown ends the loop.\<close>

definition handle_controlled_request ::
  "('h, 'p, 'w, 'x) daemon_outside \<Rightarrow> entropy \<Rightarrow> u64 \<Rightarrow> request_body \<Rightarrow> ('h, 'p) session_service \<Rightarrow> 'w \<Rightarrow>
     ((service_error + response_body \<times> bool) \<times> ('h, 'p) session_service \<times> 'w) option" where
  "handle_controlled_request d rng e body s w =
     map_option (\<lambda>(result, s, w). (and_then result (\<lambda>r. Inr (r, r = RespShuttingDown)), s, w))
       (controlled d rng e body s w)"

definition handle_request ::
  "('h, 'p, 'w, 'x) daemon_outside \<Rightarrow> entropy \<Rightarrow> u64 \<Rightarrow> request_envelope \<Rightarrow> u64 option \<Rightarrow>
     ('h, 'p) session_service \<Rightarrow> 'w \<Rightarrow>
     ((service_error + response_body \<times> bool) \<times> u64 option \<times> ('h, 'p) session_service \<times> 'w) option" where
  "handle_request d rng client request controlling s w =
     (case map_err (\<lambda>_. InvalidWireRequest) (request_validate request) of
        Inl e \<Rightarrow> Some (Inl e, controlling, s, w)
      | Inr _ \<Rightarrow>
          (let attaching =
             (if (case controlling of None \<Rightarrow> False | Some owner \<Rightarrow> owner \<noteq> client)
              then (Inl WriterAlreadyAttached, controlling, s, w)
              else if controlling = None then
                (case service_attach (ss_service_instance s) s of
                   (Inl e, s) \<Rightarrow> (Inl e, controlling, s, w)
                 | (Inr _, s) \<Rightarrow> (Inr (RespAttached (catalog_snapshot s), False), Some client, s, w))
              else (Inr (RespAttached (catalog_snapshot s), False), controlling, s, w))
           in case rq_body request of
             ReqCatalog \<Rightarrow> Some (Inr (RespCatalog (catalog_snapshot s), False), controlling, s, w)
           | ReqAttach \<Rightarrow> Some attaching
           | ReqReconnect _ \<Rightarrow> Some attaching
           | ReqDetach \<Rightarrow>
               (case require_controller controlling client of
                  Inl e \<Rightarrow> Some (Inl e, controlling, s, w)
                | Inr _ \<Rightarrow>
                    (case service_detach (do_os d) (ss_service_instance s) s w of
                       (Inl e, s, w) \<Rightarrow> Some (Inl e, controlling, s, w)
                     | (Inr _, s, w) \<Rightarrow> Some (Inr (RespDetached, False), None, s, w)))
           | body \<Rightarrow>
               (case require_controller controlling client of
                  Inl e \<Rightarrow> Some (Inl e, controlling, s, w)
                | Inr _ \<Rightarrow>
                    map_option (\<lambda>(result, s, w). (result, controlling, s, w))
                      (handle_controlled_request d rng (rq_expected_catalog_revision request) body s w))))"

section \<open>The service loop\<close>

definition persist_if_dirty ::
  "('h, 'p, 'w, 'x) daemon_outside \<Rightarrow> ('h, 'p) session_service \<Rightarrow> 'w \<Rightarrow>
     (service_error + unit) \<times> ('h, 'p) session_service \<times> 'w" where
  "persist_if_dirty d s w =
     (case take_persistence (do_os d) s w of
        (Inl e, s, w) \<Rightarrow> (Inl e, s, w)
      | (Inr None, s, w) \<Rightarrow> (Inr (), s, w)
      | (Inr (Some r), s, w) \<Rightarrow> (case do_save d r w of (result, w) \<Rightarrow> (map_err ServiceStore result, s, w)))"

text \<open>
  What \<open>recv_timeout\<close> gives in a turn of the loop. The random identifiers drawn while a request is
  served are a part of its event.
\<close>

datatype client_event =
    Request u64 request_envelope entropy
  | Disconnected u64
  | Timeout
  | ChannelClosed

record ('h, 'p) daemon =
  dm_service :: "('h, 'p) session_service"
  dm_controlling :: "u64 option"
  dm_last_persist :: nat

text \<open>
  A turn sends at most one response, and the loop goes on, is left, or ends in an error that the
  daemon exits with.
\<close>

datatype ('h, 'p) turn =
    GoesOn "('h, 'p) daemon"
  | Leaves "('h, 'p) daemon"
  | Fails service_error

definition end_of_turn ::
  "('h, 'p, 'w, 'x) daemon_outside \<Rightarrow> response_envelope option \<Rightarrow> bool \<Rightarrow> ('h, 'p) daemon \<Rightarrow> 'w \<Rightarrow>
     (response_envelope option \<times> ('h, 'p) turn \<times> 'w) option" where
  "end_of_turn d response shutdown dm w =
     map_option (\<lambda>(_, s, w).
       let dm = dm\<lparr>dm_service := s\<rparr> in
       (case elapsed_is (do_os d) (\<lambda>t. t \<ge> PERSIST_INTERVAL) (Some (dm_last_persist dm)) w of (due, w) \<Rightarrow>
       (case (if due then persist_if_dirty d s w else (Inr (), s, w)) of
          (Inl e, s, w) \<Rightarrow> (response, Fails e, w)
        | (Inr _, s, w) \<Rightarrow>
            (case (if due then os_now (do_os d) w else (dm_last_persist dm, w)) of (now, w) \<Rightarrow>
            (let dm = dm\<lparr>dm_service := s, dm_last_persist := now\<rparr> in
             case should_exit (do_os d) s w of (idle, w) \<Rightarrow>
               (response, (if idle \<or> shutdown then Leaves dm else GoesOn dm), w))))))
       (tick (do_os d) (dm_service dm) w)"

definition service_turn ::
  "('h, 'p, 'w, 'x) daemon_outside \<Rightarrow> client_event \<Rightarrow> ('h, 'p) daemon \<Rightarrow> 'w \<Rightarrow>
     (response_envelope option \<times> ('h, 'p) turn \<times> 'w) option" where
  "service_turn d event dm w =
     (case event of
        Request client request rng \<Rightarrow>
          Option.bind (handle_request d rng client request (dm_controlling dm) (dm_service dm) w)
            (\<lambda>(result, controlling, s, w).
            (case persist_if_dirty d s w of
               (Inl e, _, w) \<Rightarrow> Some (None, Fails e, w)
             | (Inr _, s, w) \<Rightarrow>
                 (let dm = dm\<lparr>dm_service := s, dm_controlling := controlling\<rparr> in
                  case result of
                    Inl e \<Rightarrow>
                      Some (Some (response_error (rq_request_id request) (provider_error_of e)), GoesOn dm, w)
                  | Inr (body, shutdown) \<Rightarrow>
                      end_of_turn d (Some (response_ok (rq_request_id request) body)) shutdown dm w)))
      | Disconnected client \<Rightarrow>
          if dm_controlling dm = Some client then
            (case service_detach (do_os d) (ss_service_instance (dm_service dm)) (dm_service dm) w of
               (_, s, w) \<Rightarrow> end_of_turn d None False (dm\<lparr>dm_service := s, dm_controlling := None\<rparr>) w)
          else end_of_turn d None False dm w
      | Timeout \<Rightarrow> end_of_turn d None False dm w
      | ChannelClosed \<Rightarrow> Some (None, Leaves dm, w))"

text \<open>
  The loop on the events it receives, with the responses it sends, and the last persistence after
  it. The loop goes on for as long as there are events: the second component is \<open>None\<close> when it is
  still running after the last of them.
\<close>

fun service_loop ::
  "('h, 'p, 'w, 'x) daemon_outside \<Rightarrow> client_event list \<Rightarrow> ('h, 'p) daemon \<Rightarrow> 'w \<Rightarrow>
     (response_envelope option list \<times> (service_error + unit) option \<times> ('h, 'p) daemon \<times> 'w) option"
where
  "service_loop d [] dm w = Some ([], None, dm, w)"
| "service_loop d (event # events) dm w =
     Option.bind (service_turn d event dm w) (\<lambda>(response, t, w).
       (case t of
          Fails e \<Rightarrow> Some ([response], Some (Inl e), dm, w)
        | Leaves dm \<Rightarrow>
            (case persist_if_dirty d (dm_service dm) w of (result, s, w) \<Rightarrow>
              Some ([response], Some result, dm\<lparr>dm_service := s\<rparr>, w))
        | GoesOn dm \<Rightarrow>
            map_option (\<lambda>(responses, rest). (response # responses, rest)) (service_loop d events dm w)))"

end
