(* ===== verification/TerminalDraining.thy ===== *)
theory TerminalDraining imports TerminalRuntime begin

text \<open>
  The terminal runtime at work: as long as no pane is made smaller, draining returns within its budget
  on every world and every pane gets its turn; and what becomes of a pane whose process exits while output is pending.
\<close>

section \<open>The invariant of a pane\<close>

definition pending_left :: "pending_output \<Rightarrow> nat" where
  "pending_left p = length (po_bytes p) - po_offset p"

text \<open>
  Queued chunks have something left, the byte counter counts what is left, both bounds hold, a
  backlog has a start, and the terminal model is in order.
\<close>

definition pane_runtime_ok :: "('h, 'p) pane_runtime \<Rightarrow> bool" where
  "pane_runtime_ok r \<longleftrightarrow>
     list_all (\<lambda>p. po_offset p < length (po_bytes p)) (pr_pending r) \<and>
     pr_pending_bytes r = sum_list (map pending_left (pr_pending r)) \<and>
     pr_pending_bytes r \<le> MAX_PENDING_BYTES \<and> length (pr_pending r) \<le> MAX_PENDING_CHUNKS \<and>
     (pr_pending r \<noteq> [] \<longrightarrow> pr_pending_since r \<noteq> None) \<and>
     model_ok (pr_model r)"

text \<open>The pane's terminal cannot panic: no saved cursor is outside a shrunk grid.\<close>

definition pane_drains :: "('h, 'p) pane_runtime \<Rightarrow> bool" where
  "pane_drains r \<longleftrightarrow> pane_runtime_ok r \<and> model_saved_ok (pr_model r)"

lemma pane_ok_fail [simp]: "pane_runtime_ok (pane_fail e r) = pane_runtime_ok r" "pane_drains (pane_fail e r) = pane_drains r"
  by (simp_all add: pane_runtime_ok_def pane_drains_def pane_fail_def)

lemma sat_add_within: "sat_add_usize a b \<le> n \<Longrightarrow> n < 2 ^ 64 - 1 \<Longrightarrow> a + b \<le> n"
  by (simp add: sat_add_usize_def)

lemma enqueue_keeps:
  assumes "enqueue os chunk r w = (res, r', w')" "pane_runtime_ok r" "oc_bytes chunk \<noteq> []"
  shows "pane_runtime_ok r'" "pr_model r' = pr_model r" "pr_generation r' = pr_generation r" "pr_state r' = pr_state r"
    "pr_process r' = pr_process r" "pr_pending r \<noteq> [] \<Longrightarrow> pr_pending r' \<noteq> []"
proof -
  have "sat_add_usize (pr_pending_bytes r) (length (oc_bytes chunk)) \<le> MAX_PENDING_BYTES \<Longrightarrow>
      pr_pending_bytes r + length (oc_bytes chunk) \<le> MAX_PENDING_BYTES"
    by (rule sat_add_within) (simp_all add: MAX_PENDING_BYTES_def)
  with assms show "pane_runtime_ok r'"
    by (auto simp: enqueue_def pane_runtime_ok_def pending_left_def split: if_splits prod.splits option.splits)
  show "pr_model r' = pr_model r" "pr_generation r' = pr_generation r" "pr_state r' = pr_state r" "pr_process r' = pr_process r"
    "pr_pending r \<noteq> [] \<Longrightarrow> pr_pending r' \<noteq> []"
    using assms(1) by (auto simp: enqueue_def split: if_splits prod.splits)
qed

lemma poll_one_output_keeps:
  assumes "poll_one_output os r w = (r', w')" "pane_runtime_ok r" "reads_something os"
  shows "pane_runtime_ok r'" "pr_model r' = pr_model r" "pr_generation r' = pr_generation r"
    "pr_pending r \<noteq> [] \<Longrightarrow> pr_pending r' \<noteq> []"
proof -
  obtain res v where read: "(case pr_process r of None \<Rightarrow> (Inr None, w) | Some h \<Rightarrow> os_try_read os h w) = (res, v)"
    by force
  have chunk: "oc_bytes c \<noteq> []" if "res = Inr (Some c)" for c
    using read that assms(3) by (auto simp: reads_something_def split: option.splits) (metis fst_conv)
  have "pane_runtime_ok r' \<and> pr_model r' = pr_model r \<and> pr_generation r' = pr_generation r \<and>
      (pr_pending r \<noteq> [] \<longrightarrow> pr_pending r' \<noteq> [])"
  proof (cases res)
    case (Inl e)
    with assms(1,2) read show ?thesis by (auto simp: poll_one_output_def) (auto simp: pane_fail_def)
  next
    case (Inr c)
    show ?thesis
    proof (cases c)
      case None
      with Inr assms(1,2) read show ?thesis by (auto simp: poll_one_output_def)
    next
      case (Some chunk')
      obtain res' q v' where e: "enqueue os chunk' r v = (res', q, v')" by (metis prod_cases3)
      from Inr Some have "oc_bytes chunk' \<noteq> []" using chunk by simp
      note k = enqueue_keeps [OF e assms(2) this]
      from e Inr Some assms(1) read have "r' = (case res' of Inl e \<Rightarrow> pane_fail (runtime_error_text e) q | Inr _ \<Rightarrow> q)"
        by (auto simp: poll_one_output_def split: sum.splits)
      with k show ?thesis by (cases res') (simp_all, simp add: pane_fail_def)
    qed
  qed
  then show "pane_runtime_ok r'" "pr_model r' = pr_model r" "pr_generation r' = pr_generation r"
    "pr_pending r \<noteq> [] \<Longrightarrow> pr_pending r' \<noteq> []" by simp_all
qed

section \<open>The loop ends\<close>

lemma consume_front:
  assumes "pane_runtime_ok r" "pr_pending r = front # rest" "0 < n" "n \<le> pending_left front" "model_ok m"
  shows "pane_runtime_ok (r\<lparr>pr_model := m, pr_pending_bytes := pr_pending_bytes r - n,
    pr_pending := (if po_offset front + n = length (po_bytes front) then rest
                   else front\<lparr>po_offset := po_offset front + n\<rparr> # rest)\<rparr>)"
  using assms by (auto simp: pane_runtime_ok_def pending_left_def)

lemma drain_loop_returns:
  assumes "reads_something os" "pane_drains r" "consumed \<le> limit"
  shows "\<exists>c r' w'. drain_loop os limit consumed r w = Some (c, r', w') \<and> consumed \<le> c \<and> c \<le> limit \<and>
    pane_drains r' \<and> pr_generation r' = pr_generation r \<and>
    (pr_pending r \<noteq> [] \<and> consumed < limit \<longrightarrow> consumed < c)"
  using assms(2,3)
proof (induction "limit - consumed" arbitrary: consumed r w rule: less_induct)
  case less
  show ?case
  proof (cases "consumed < limit")
    case False
    then show ?thesis using less.prems by (subst drain_loop.simps) auto
  next
    case True
    obtain r1 w1 where p: "(if pr_pending r = [] then poll_one_output os r w else (r, w)) = (r1, w1)" by force
    have r1: "pane_drains r1" "pr_generation r1 = pr_generation r"
      using p less.prems(1) poll_one_output_keeps [of os r w r1 w1] assms(1)
      by (auto simp: pane_drains_def split: if_splits)
    show ?thesis
    proof (cases "pr_pending r1")
      case Nil
      then have "pr_pending r = []" using p by (auto split: if_splits)
      with True p Nil r1 less.prems show ?thesis by (subst drain_loop.simps) auto
    next
      case (Cons front rest)
      let ?n = "min (length (po_bytes front) - po_offset front) (limit - consumed)"
      have front: "po_offset front < length (po_bytes front)"
        using r1(1) Cons by (simp add: pane_drains_def pane_runtime_ok_def)
      then have n: "0 < ?n" "?n \<le> pending_left front" "consumed + ?n \<le> limit"
        using True by (auto simp: pending_left_def)
      obtain m where m: "model_advance (os_width os) (os_vte os) (take ?n (drop (po_offset front) (po_bytes front))) (pr_model r1) = Some m"
        "model_ok m" "model_saved_ok m"
        using model_advance_ok [of "pr_model r1" "os_width os" "os_vte os"] r1(1)
        unfolding pane_drains_def pane_runtime_ok_def by blast
      let ?r = "r1\<lparr>pr_model := m, pr_pending_bytes := pr_pending_bytes r1 - ?n,
        pr_pending := (if po_offset front + ?n = length (po_bytes front) then rest
                       else front\<lparr>po_offset := po_offset front + ?n\<rparr> # rest)\<rparr>"
      have "pane_drains ?r"
        using consume_front [OF _ Cons n(1,2) m(2)] r1(1) m(3) by (simp add: pane_drains_def)
      moreover have "limit - (consumed + ?n) < limit - consumed" using n True by linarith
      ultimately obtain c r' w' where "drain_loop os limit (consumed + ?n) ?r w1 = Some (c, r', w')"
        "consumed + ?n \<le> c" "c \<le> limit" "pane_drains r'" "pr_generation r' = pr_generation ?r"
        using less.hyps [of "consumed + ?n" ?r w1] n(3) by blast
      moreover have "drain_loop os limit consumed r w = drain_loop os limit (consumed + ?n) ?r w1"
        by (subst drain_loop.simps) (simp only: True if_True p prod.case Cons list.case Let_def m Option.bind.simps)
      ultimately show ?thesis using n(1) r1(2) by auto
    qed
  qed
qed

lemma pane_ok_state [simp]:
  "pane_runtime_ok (r\<lparr>pr_state := st\<rparr>) = pane_runtime_ok r"
  "pane_runtime_ok (r\<lparr>pr_transport_pressure_since := a\<rparr>) = pane_runtime_ok r"
  "pane_runtime_ok (r\<lparr>pr_output_since := a, pr_last_output_at := b\<rparr>) = pane_runtime_ok r"
  "pane_runtime_ok (r\<lparr>pr_state := st, pr_process := h\<rparr>) = pane_runtime_ok r"
  by (simp_all add: pane_runtime_ok_def)

lemma drain_bytes_returns:
  assumes "reads_something os" "pane_drains r"
  shows "\<exists>c r' w'. drain_bytes os limit r w = Some (c, r', w') \<and> c \<le> limit \<and> pane_drains r' \<and>
    pr_generation r' = pr_generation r \<and> (pr_pending r \<noteq> [] \<and> 0 < limit \<longrightarrow> 0 < c)"
proof -
  obtain c r' w' where d: "drain_loop os limit 0 r w = Some (c, r', w')" "c \<le> limit" "pane_drains r'"
    "pr_generation r' = pr_generation r" "pr_pending r \<noteq> [] \<and> 0 < limit \<longrightarrow> 0 < c"
    using drain_loop_returns [OF assms, of 0 limit w] by auto
  then show ?thesis by (auto simp: drain_bytes_def pane_drains_def pane_runtime_ok_def)
qed

lemma poll_exit_keeps:
  assumes "poll_exit os r w = (b, r', w')"
  shows "pane_drains r' = pane_drains r" "pr_generation r' = pr_generation r" "pr_model r' = pr_model r"
    "pr_pending r' = pr_pending r"
  using assms by (auto simp: poll_exit_def pane_drains_def pane_fail_def pane_runtime_ok_def split: prod.splits sum.splits option.splits)

lemma update_pressure_keeps:
  assumes "update_pressure_state os r w = (r', w')"
  shows "pane_drains r' = pane_drains r" "pr_generation r' = pr_generation r" "pr_model r' = pr_model r"
    "pr_pending r' = pr_pending r" "pr_process r' = pr_process r"
proof -
  obtain quiet w1 where 1: "elapsed_is os (\<lambda>d. d > millis 100) (pr_last_output_at r) w = (quiet, w1)" by force
  obtain blocked w2 where 2: "(case pr_process r of None \<Rightarrow> (False, w1) | Some h \<Rightarrow> os_output_backpressured os h w1) = (blocked, w2)"
    by force
  obtain since w3 where 3: "(if blocked
      then (case pr_transport_pressure_since r of Some t \<Rightarrow> (Some t, w2) | None \<Rightarrow> (case os_now os w2 of (now, w) \<Rightarrow> (Some now, w)))
      else (None, w2)) = (since, w3)" by force
  obtain backlog w4 where 4: "elapsed_is os (\<lambda>d. d \<ge> millis 250) (pr_pending_since r) w3 = (backlog, w4)" by force
  obtain pressed w5 where 5: "(if backlog then (True, w4) else elapsed_is os (\<lambda>d. d \<ge> millis 250) since w4) = (pressed, w5)"
    by force
  let ?r = "(if quiet then r\<lparr>pr_output_since := None, pr_last_output_at := None\<rparr> else r)\<lparr>pr_transport_pressure_since := since\<rparr>"
  have q: "pr_process (if quiet then r\<lparr>pr_output_since := None, pr_last_output_at := None\<rparr> else r) = pr_process r"
    "pr_transport_pressure_since (if quiet then r\<lparr>pr_output_since := None, pr_last_output_at := None\<rparr> else r) =
       pr_transport_pressure_since r"
    "pr_pending_since ?r = pr_pending_since r" by simp_all
  have r': "r' = (if pressed then ?r\<lparr>pr_state := Backpressured\<rparr>
      else if pr_state ?r = Backpressured then ?r\<lparr>pr_state := Running\<rparr> else ?r)"
    using assms by (simp only: update_pressure_state_def 1 prod.case Let_def q 2 3 4 5 prod.inject)
  show "pane_drains r' = pane_drains r" "pr_generation r' = pr_generation r" "pr_model r' = pr_model r"
    "pr_pending r' = pr_pending r" "pr_process r' = pr_process r"
    unfolding r' by (simp_all add: pane_drains_def)
qed

lemma drain_pane_returns:
  assumes "reads_something os" "pane_drains r"
  shows "\<exists>c ch r' w'. drain_pane os limit r w = Some (c, ch, r', w') \<and> c \<le> limit \<and> pane_drains r' \<and>
    pr_generation r' = pr_generation r \<and> (pr_pending r \<noteq> [] \<and> 0 < limit \<longrightarrow> 0 < c)"
proof -
  obtain r1 w1 where p: "poll_one_output os r w = (r1, w1)" by force
  note k = poll_one_output_keeps [OF p _ assms(1)]
  have r1: "pane_drains r1" "pr_generation r1 = pr_generation r" using k assms(2) by (auto simp: pane_drains_def)
  have pending: "pr_pending r1 \<noteq> []" if "pr_pending r \<noteq> []"
    using k(4) that assms(2) by (simp add: pane_drains_def)
  obtain c r2 w2 where d: "drain_bytes os limit r1 w1 = Some (c, r2, w2)" "c \<le> limit" "pane_drains r2"
    "pr_generation r2 = pr_generation r1" "pr_pending r1 \<noteq> [] \<and> 0 < limit \<longrightarrow> 0 < c"
    using drain_bytes_returns [OF assms(1) r1(1), of limit w1] by blast
  obtain b r3 w3 where e: "poll_exit os r2 w2 = (b, r3, w3)" by (metis prod_cases3)
  obtain r4 w4 where u: "update_pressure_state os r3 w3 = (r4, w4)" by force
  have "drain_pane os limit r w = Some (c, c > 0 \<or> b \<or> pr_state r4 \<noteq> pr_state r, r4, w4)"
    by (simp add: drain_pane_def p d(1) e u)
  moreover have "pane_drains r4" "pr_generation r4 = pr_generation r"
    using poll_exit_keeps [OF e] update_pressure_keeps [OF u] d r1 by simp_all
  ultimately show ?thesis using d(2,5) pending by blast
qed

section \<open>The budget\<close>

definition runtime_ok :: "('h, 'p) terminal_runtime \<Rightarrow> bool" where
  "runtime_ok t \<longleftrightarrow> (\<forall>pane r. bt_get (rt_panes t) pane = Some r \<longrightarrow> pane_runtime_ok r)"

definition runtime_drains :: "('h, 'p) terminal_runtime \<Rightarrow> bool" where
  "runtime_drains t \<longleftrightarrow> (\<forall>pane r. bt_get (rt_panes t) pane = Some r \<longrightarrow> pane_drains r)"

definition batch_total :: "runtime_batch \<Rightarrow> nat" where
  "batch_total b = sum_list (bt_values (rb_bytes b))"

lemma batch_total_insert:
  assumes "bt_get (rb_bytes b) pane = None"
  shows "batch_total (b\<lparr>rb_bytes := bt_insert pane n (rb_bytes b), rb_changed := S\<rparr>) = batch_total b + n"
proof -
  obtain xs ys where "bt_values (rb_bytes b) = xs @ ys" "bt_values (bt_insert pane n (rb_bytes b)) = xs @ n # ys"
    using bt_values_new [OF assms] by blast
  then show ?thesis by (simp add: batch_total_def)
qed

lemma put_pane_get [simp]:
  "bt_get (rt_panes (put_pane pane r t)) k = (if k = pane then Some r else bt_get (rt_panes t) k)"
  by (simp add: put_pane_def)

lemma runtime_drains_put: "runtime_drains t \<Longrightarrow> pane_drains r \<Longrightarrow> runtime_drains (put_pane pane r t)"
  by (auto simp: runtime_drains_def)

lemma put_pane_keys: "bt_get (rt_panes t) pane = Some r \<Longrightarrow> bt_keys (rt_panes (put_pane pane r' t)) = bt_keys (rt_panes t)"
  by (simp add: put_pane_def bt_keys_replace)

lemma put_pane_cursor [simp]:
  "rt_round_robin_cursor (put_pane pane r t) = rt_round_robin_cursor t"
  "rt_scrollback_limit (put_pane pane r t) = rt_scrollback_limit t"
  by (simp_all add: put_pane_def)

text \<open>What a pass over some panes has done to the batch and the runtime.\<close>

definition same_panes :: "('h, 'p) terminal_runtime \<Rightarrow> ('h, 'p) terminal_runtime \<Rightarrow> bool" where
  "same_panes t t' \<longleftrightarrow>
     bt_keys (rt_panes t') = bt_keys (rt_panes t) \<and> runtime_generation t' = runtime_generation t \<and>
     rt_round_robin_cursor t' = rt_round_robin_cursor t \<and> rt_scrollback_limit t' = rt_scrollback_limit t"

lemma same_panes_refl [simp]: "same_panes t t"
  by (simp add: same_panes_def)

lemma same_panes_put:
  assumes "bt_get (rt_panes t) pane = Some r" "pr_generation r' = pr_generation r"
  shows "same_panes t (put_pane pane r' t)"
  using assms by (auto simp: same_panes_def put_pane_keys runtime_generation_def)

lemma same_panes_trans: "same_panes t u \<Longrightarrow> same_panes u v \<Longrightarrow> same_panes t v"
  by (simp add: same_panes_def)

lemma drain_panes_returns:
  assumes "reads_something os" "runtime_drains t" "distinct panes"
    "\<forall>k n. bt_get (rb_bytes b) k = Some n \<longrightarrow> k \<notin> set panes \<and> n \<le> per"
  shows "\<exists>b' t' w'. drain_panes os per panes left b t w = Some (b', t', w') \<and> runtime_drains t' \<and> same_panes t t' \<and>
    batch_total b' \<le> batch_total b + left \<and> (\<forall>k n. bt_get (rb_bytes b') k = Some n \<longrightarrow> n \<le> per) \<and>
    (\<forall>k n. bt_get (rb_bytes b) k = Some n \<longrightarrow> bt_get (rb_bytes b') k = Some n)"
  using assms(2-4)
proof (induction panes arbitrary: left b t w)
  case Nil
  then show ?case by simp
next
  case (Cons pane panes)
  show ?case
  proof (cases "left = 0 \<or> bt_get (rt_panes t) pane = None")
    case True
    show ?thesis
    proof (cases "left = 0")
      case True
      with Cons.prems show ?thesis by auto
    next
      case False
      with True have "bt_get (rt_panes t) pane = None" by simp
      moreover have "\<forall>k n. bt_get (rb_bytes b) k = Some n \<longrightarrow> k \<notin> set panes \<and> n \<le> per" using Cons.prems(3) by simp
      ultimately show ?thesis using False Cons.IH [of t b left w] Cons.prems(1,2) by simp
    qed
  next
    case False
    then obtain r where r: "bt_get (rt_panes t) pane = Some r" "left \<noteq> 0" by auto
    then have "pane_drains r" using Cons.prems(1) by (simp add: runtime_drains_def)
    from drain_pane_returns [OF assms(1) this, of "min per left" w] obtain c ch r' w' where
      d: "drain_pane os (min per left) r w = Some (c, ch, r', w')" "c \<le> min per left" "pane_drains r'"
      "pr_generation r' = pr_generation r" by blast
    let ?b = "b\<lparr>rb_bytes := (if c > 0 then bt_insert pane c (rb_bytes b) else rb_bytes b),
      rb_changed := (if ch then insert pane (rb_changed b) else rb_changed b)\<rparr>"
    have new: "bt_get (rb_bytes b) pane = None" using Cons.prems(3) by (cases "bt_get (rb_bytes b) pane") auto
    have total: "batch_total ?b = batch_total b + c"
      using batch_total_insert [OF new] by (cases "c > 0") (simp_all add: batch_total_def)
    have next_ok: "\<forall>k n. bt_get (rb_bytes ?b) k = Some n \<longrightarrow> k \<notin> set panes \<and> n \<le> per"
      using Cons.prems(2,3) d(2) by (auto split: if_splits)
    obtain b' t' w'' where i: "drain_panes os per panes (left - c) ?b (put_pane pane r' t) w' = Some (b', t', w'')"
      "runtime_drains t'" "same_panes (put_pane pane r' t) t'" "batch_total b' \<le> batch_total ?b + (left - c)"
      "\<forall>k n. bt_get (rb_bytes b') k = Some n \<longrightarrow> n \<le> per"
      "\<forall>k n. bt_get (rb_bytes ?b) k = Some n \<longrightarrow> bt_get (rb_bytes b') k = Some n"
      using Cons.IH [where left = "left - c" and w = w' and t = "put_pane pane r' t", OF runtime_drains_put [OF Cons.prems(1) d(3)] _ next_ok] Cons.prems(2)
      by auto
    have "drain_panes os per (pane # panes) left b t w = Some (b', t', w'')"
      using r d(1) i(1) by simp
    moreover have "same_panes t t'"
      using same_panes_trans [OF same_panes_put [OF r(1) d(4)] i(3)] .
    moreover have "batch_total b' \<le> batch_total b + left" using i(4) total d(2) by simp
    moreover have "bt_get (rb_bytes b') k = Some n" if "bt_get (rb_bytes b) k = Some n" for k n
      using i(6) that new by (cases "k = pane") (auto split: if_splits)
    ultimately show ?thesis using i(2,5) by blast
  qed
qed

lemma drain_order:
  assumes "n = length ids" "start < n"
  shows "map (\<lambda>offset. ids ! ((start + offset) mod n)) [0..<n] = drop start ids @ take start ids"
proof (rule nth_equalityI)
  show "length (map (\<lambda>offset. ids ! ((start + offset) mod n)) [0..<n]) = length (drop start ids @ take start ids)"
    using assms by simp
  fix i
  assume "i < length (map (\<lambda>offset. ids ! ((start + offset) mod n)) [0..<n])"
  then have i: "i < n" by simp
  show "map (\<lambda>offset. ids ! ((start + offset) mod n)) [0..<n] ! i = (drop start ids @ take start ids) ! i"
  proof (cases "start + i < n")
    case True
    then have "i < n - start" by simp
    with True assms show ?thesis by (simp add: nth_append)
  next
    case False
    then have "(start + i) mod n = start + i - n" using assms(2) i by (simp add: mod_if)
    moreover have "\<not> i < n - start" "i - (n - start) = start + i - n" using False assms(2) by linarith+
    ultimately show ?thesis using assms i False by (simp add: nth_append)
  qed
qed

text \<open>A pane with a backlog is served or left alone; the first one is served.\<close>

lemma drain_panes_backlog:
  assumes "reads_something os" "runtime_drains t" "distinct panes" "0 < per"
    "bt_get (rt_panes t) pane = Some r" "pr_pending r \<noteq> []"
    "drain_panes os per panes left b t w = Some (b', t', w')"
    "\<forall>k n. bt_get (rb_bytes b) k = Some n \<longrightarrow> k \<notin> set panes \<and> n \<le> per"
  shows "0 < bytes_for b' pane \<or> bt_get (rt_panes t') pane = Some r"
    "0 < left \<Longrightarrow> panes = pane # rest \<Longrightarrow> 0 < bytes_for b' pane"
proof -
  have "(0 < bytes_for b' pane \<or> bt_get (rt_panes t') pane = Some r) \<and>
      (0 < left \<and> panes \<noteq> [] \<and> hd panes = pane \<longrightarrow> 0 < bytes_for b' pane)"
    using assms(2,3,5,7,8)
  proof (induction panes arbitrary: left b t w)
    case Nil
    then show ?case by simp
  next
    case (Cons k panes)
    show ?case
    proof (cases "left = 0 \<or> bt_get (rt_panes t) k = None")
      case True
      then show ?thesis using Cons by (cases "left = 0") auto
    next
      case False
      then obtain q where q: "bt_get (rt_panes t) k = Some q" "left \<noteq> 0" by auto
      then have "pane_drains q" using Cons.prems(1) by (simp add: runtime_drains_def)
      from drain_pane_returns [OF assms(1) this, of "min per left" w] obtain c ch q' w1 where
        d: "drain_pane os (min per left) q w = Some (c, ch, q', w1)" "c \<le> min per left" "pane_drains q'"
        "pr_pending q \<noteq> [] \<and> 0 < min per left \<longrightarrow> 0 < c" by blast
      let ?b = "b\<lparr>rb_bytes := (if c > 0 then bt_insert k c (rb_bytes b) else rb_bytes b),
        rb_changed := (if ch then insert k (rb_changed b) else rb_changed b)\<rparr>"
      have rest: "drain_panes os per panes (left - c) ?b (put_pane k q' t) w1 = Some (b', t', w')"
        using Cons.prems(4) q d(1) by simp
      have next_ok: "\<forall>j n. bt_get (rb_bytes ?b) j = Some n \<longrightarrow> j \<notin> set panes \<and> n \<le> per"
        using Cons.prems(2,5) d(2) by (auto split: if_splits)
      have "distinct panes" using Cons.prems(2) by simp
      note served = drain_panes_returns [where left = "left - c" and w = w1 and t = "put_pane k q' t",
          OF assms(1) runtime_drains_put [OF Cons.prems(1) d(3)] this next_ok, unfolded rest]
      show ?thesis
      proof (cases "k = pane")
        case True
        then have "0 < c" using d(4) q Cons.prems(3) assms(4,6) by auto
        then have "bt_get (rb_bytes b') pane = Some c" using served True by auto
        with \<open>0 < c\<close> show ?thesis by (simp add: bytes_for_def)
      next
        case False
        with Cons.IH [OF runtime_drains_put [OF Cons.prems(1) d(3)] \<open>distinct panes\<close> _ rest next_ok] Cons.prems(3)
        show ?thesis by simp
      qed
    qed
  qed
  then show "0 < bytes_for b' pane \<or> bt_get (rt_panes t') pane = Some r"
    "0 < left \<Longrightarrow> panes = pane # rest \<Longrightarrow> 0 < bytes_for b' pane" by auto
qed

text \<open>One drain of a runtime that has panes, with a budget.\<close>

definition drains_once ::
  "drain_budget \<Rightarrow> ('h, 'p) terminal_runtime \<Rightarrow> runtime_batch \<Rightarrow> ('h, 'p) terminal_runtime \<Rightarrow> bool" where
  "drains_once budget t b t' \<longleftrightarrow>
     runtime_drains t' \<and> bt_keys (rt_panes t') = bt_keys (rt_panes t) \<and>
     runtime_generation t' = runtime_generation t \<and>
     batch_total b \<le> db_aggregate_bytes budget \<and> (\<forall>k. bytes_for b k \<le> db_per_pane_bytes budget)"

lemma drain_returns:
  assumes "reads_something os" "runtime_drains t"
  shows "\<exists>b t' w'. drain os budget t w = Some (b, t', w') \<and> drains_once budget t b t'"
proof (cases "bt_keys (rt_panes t) = [] \<or> db_aggregate_bytes budget = 0 \<or> db_per_pane_bytes budget = 0")
  case True
  with assms(2) show ?thesis
    by (auto simp: drain_def Let_def drains_once_def batch_default_def batch_total_def bytes_for_def bt_values_def)
next
  case False
  let ?ids = "bt_keys (rt_panes t)" and ?n = "length (bt_keys (rt_panes t))"
  let ?start = "rt_round_robin_cursor t mod ?n"
  have start: "?start < ?n" using False by simp
  have "distinct (take ?start ?ids @ drop ?start ?ids)" by simp
  then have "distinct (drop ?start ?ids @ take ?start ?ids)" unfolding distinct_append by blast
  from drain_panes_returns [OF assms this, where b = batch_default and per = "db_per_pane_bytes budget"
      and left = "db_aggregate_bytes budget" and w = w]
  obtain b t' w' where d: "drain_panes os (db_per_pane_bytes budget) (drop ?start ?ids @ take ?start ?ids)
      (db_aggregate_bytes budget) batch_default t w = Some (b, t', w')" "runtime_drains t'" "same_panes t t'"
      "batch_total b \<le> batch_total batch_default + db_aggregate_bytes budget"
      "\<forall>k n. bt_get (rb_bytes b) k = Some n \<longrightarrow> n \<le> db_per_pane_bytes budget"
    by (auto simp: batch_default_def)
  have "drain os budget t w = Some (b, t'\<lparr>rt_round_robin_cursor := (?start + 1) mod ?n\<rparr>, w')"
    using False by (simp add: drain_def Let_def drain_order [OF refl start] d(1))
  moreover have "drains_once budget t b (t'\<lparr>rt_round_robin_cursor := (?start + 1) mod ?n\<rparr>)"
    using d(2-5) by (auto simp: drains_once_def same_panes_def runtime_drains_def runtime_generation_def batch_default_def
        batch_total_def bt_values_def bytes_for_def fun_eq_iff split: option.split)
  ultimately show ?thesis by blast
qed

lemma drain_serves:
  assumes "reads_something os" "runtime_drains t" "bt_get (rt_panes t) pane = Some r" "pr_pending r \<noteq> []"
    "0 < db_aggregate_bytes budget" "0 < db_per_pane_bytes budget" "drain os budget t w = Some (b, t', w')"
  defines "n \<equiv> length (bt_keys (rt_panes t))"
  shows "rt_round_robin_cursor t' = (rt_round_robin_cursor t + 1) mod n"
    "0 < bytes_for b pane \<or> bt_get (rt_panes t') pane = Some r"
    "bt_keys (rt_panes t) ! (rt_round_robin_cursor t mod n) = pane \<Longrightarrow> 0 < bytes_for b pane"
proof -
  let ?ids = "bt_keys (rt_panes t)" and ?start = "rt_round_robin_cursor t mod n"
  have "pane \<in> set ?ids" using assms(3) by (rule bt_get_in_keys)
  then have "0 < length ?ids" by (rule length_pos_if_in_set)
  then have n: "?ids \<noteq> []" "?start < n" by (simp_all add: n_def)
  have "distinct (take ?start ?ids @ drop ?start ?ids)" by simp
  then have dist: "distinct (drop ?start ?ids @ take ?start ?ids)" unfolding distinct_append by blast
  obtain u where u: "drain_panes os (db_per_pane_bytes budget) (drop ?start ?ids @ take ?start ?ids)
      (db_aggregate_bytes budget) batch_default t w = Some (b, u, w')"
    "t' = u\<lparr>rt_round_robin_cursor := (?start + 1) mod n\<rparr>"
    using assms(5-7) n drain_order [OF refl, of ?start ?ids] by (auto simp: drain_def Let_def n_def)
  have "\<forall>k n. bt_get (rb_bytes batch_default) k = Some n \<longrightarrow>
      k \<notin> set (drop ?start ?ids @ take ?start ?ids) \<and> n \<le> db_per_pane_bytes budget"
    by (simp add: batch_default_def)
  note served = drain_panes_backlog [OF assms(1,2) dist assms(6,3,4) u(1) this]
  show "rt_round_robin_cursor t' = (rt_round_robin_cursor t + 1) mod n" using u(2) by (simp add: mod_Suc_eq)
  show "0 < bytes_for b pane \<or> bt_get (rt_panes t') pane = Some r" using served(1) u(2) by simp
  assume "?ids ! ?start = pane"
  then have "drop ?start ?ids @ take ?start ?ids = pane # drop (Suc ?start) ?ids @ take ?start ?ids"
    using n(2) by (simp add: Cons_nth_drop_Suc [symmetric] n_def)
  from served(2) [OF assms(5) this] show "0 < bytes_for b pane" .
qed

fun drain_times ::
  "('h, 'p, 'w) outside \<Rightarrow> drain_budget \<Rightarrow> nat \<Rightarrow> ('h, 'p) terminal_runtime \<Rightarrow> 'w \<Rightarrow>
     (runtime_batch list \<times> ('h, 'p) terminal_runtime \<times> 'w) option"
where
  "drain_times os budget 0 t w = Some ([], t, w)"
| "drain_times os budget (Suc n) t w =
     Option.bind (drain os budget t w) (\<lambda>(b, t, w).
       map_option (\<lambda>(bs, t, w). (b # bs, t, w)) (drain_times os budget n t w))"

lemma drain_times_returns:
  assumes "reads_something os" "runtime_drains t"
  shows "\<exists>bs t' w'. drain_times os budget n t w = Some (bs, t', w')"
  using assms(2)
proof (induction n arbitrary: t w)
  case 0
  then show ?case by simp
next
  case (Suc n)
  obtain b t1 w1 where d: "drain os budget t w = Some (b, t1, w1)" "runtime_drains t1"
    using drain_returns [OF assms(1) Suc.prems, of budget w] by (auto simp: drains_once_def)
  with Suc.IH [OF d(2), of w1] show ?case by auto
qed

lemma served_in_turn:
  assumes "reads_something os" "0 < db_aggregate_bytes budget" "0 < db_per_pane_bytes budget"
    "runtime_drains t" "bt_get (rt_panes t) pane = Some r" "pr_pending r \<noteq> []"
    "bt_keys (rt_panes t) ! ((rt_round_robin_cursor t + d) mod length (bt_keys (rt_panes t))) = pane" "d < m"
  shows "\<exists>bs t' w'. drain_times os budget m t w = Some (bs, t', w') \<and> (\<exists>b \<in> set bs. 0 < bytes_for b pane)"
  using assms(4-8)
proof (induction d arbitrary: m t w)
  case 0
  then obtain k where m: "m = Suc k" by (cases m) auto
  obtain b t1 w1 where d: "drain os budget t w = Some (b, t1, w1)" "runtime_drains t1"
    using drain_returns [OF assms(1) 0(1), of budget w] by (auto simp: drains_once_def)
  have "0 < bytes_for b pane" using drain_serves(3) [OF assms(1) 0(1-3) assms(2,3) d(1)] 0(4) by simp
  with d m drain_times_returns [OF assms(1) d(2), of budget k w1] show ?case by auto
next
  case (Suc d)
  then obtain k where m: "m = Suc k" "d < k" by (cases m) auto
  obtain b t1 w1 where s: "drain os budget t w = Some (b, t1, w1)" "runtime_drains t1"
    "bt_keys (rt_panes t1) = bt_keys (rt_panes t)"
    using drain_returns [OF assms(1) Suc.prems(1), of budget w] by (auto simp: drains_once_def)
  note serves = drain_serves [OF assms(1) Suc.prems(1-3) assms(2,3) s(1)]
  show ?case
  proof (cases "0 < bytes_for b pane")
    case True
    with s m drain_times_returns [OF assms(1) s(2), of budget k w1] show ?thesis by auto
  next
    case False
    with serves(2) have r: "bt_get (rt_panes t1) pane = Some r" by simp
    have "bt_keys (rt_panes t1) ! ((rt_round_robin_cursor t1 + d) mod length (bt_keys (rt_panes t1))) = pane"
      using Suc.prems(4) unfolding serves(1) s(3) by (simp add: mod_simps)
    from Suc.IH [OF s(2) r Suc.prems(3) this m(2), of w1] s(1) m(1) show ?thesis by auto
  qed
qed

section \<open>Exiting with output pending\<close>

lemma poll_without_process: "pr_process r = None \<Longrightarrow> poll_one_output os r w = (r, w)"
  by (simp add: poll_one_output_def)

lemma drain_loop_empties:
  assumes "pane_drains r" "pr_process r = None" "consumed + pr_pending_bytes r \<le> limit"
  shows "\<exists>c r' w'. drain_loop os limit consumed r w = Some (c, r', w') \<and> pane_drains r' \<and> pr_pending r' = [] \<and>
    pr_process r' = None \<and> pr_state r' = pr_state r \<and> (pr_pending r \<noteq> [] \<longrightarrow> consumed < c) \<and>
    (pr_pending r = [] \<longrightarrow> c = consumed \<and> r' = r)"
  using assms
proof (induction "limit - consumed" arbitrary: consumed r w rule: less_induct)
  case less
  note ok = less.prems(1) [unfolded pane_drains_def pane_runtime_ok_def]
  note poll = poll_without_process [OF less.prems(2), of os w]
  show ?case
  proof (cases "pr_pending r")
    case Nil
    with less.prems poll show ?thesis by (subst drain_loop.simps) auto
  next
    case (Cons front rest)
    let ?n = "length (po_bytes front) - po_offset front"
    have front: "po_offset front < length (po_bytes front)" using ok Cons by simp
    have left: "consumed + ?n \<le> limit" "consumed < limit"
      using ok Cons front less.prems(3) by (simp_all add: pending_left_def)
    then have count: "min ?n (limit - consumed) = ?n" by simp
    obtain m where m: "model_advance (os_width os) (os_vte os) (take ?n (drop (po_offset front) (po_bytes front))) (pr_model r) = Some m"
      "model_ok m" "model_saved_ok m"
      using model_advance_ok [of "pr_model r" "os_width os" "os_vte os"] ok by blast
    let ?r = "r\<lparr>pr_model := m, pr_pending_bytes := pr_pending_bytes r - ?n,
      pr_pending := (if po_offset front + ?n = length (po_bytes front) then rest
                     else front\<lparr>po_offset := po_offset front + ?n\<rparr> # rest)\<rparr>"
    have r: "pane_drains ?r" "pr_process ?r = None" "pr_state ?r = pr_state r" "consumed + ?n + pr_pending_bytes ?r \<le> limit"
      using consume_front [OF _ Cons _ _ m(2), of ?n] less.prems m(3) front Cons ok
      by (simp_all add: pane_drains_def pending_left_def)
    have "limit - (consumed + ?n) < limit - consumed" using left front by linarith
    from less.hyps [OF this r(1,2,4), of w] obtain c r' w' where
      "drain_loop os limit (consumed + ?n) ?r w = Some (c, r', w')" "pane_drains r'" "pr_pending r' = []"
      "pr_process r' = None" "pr_state r' = pr_state ?r" "consumed + ?n \<le> c"
      by (metis less_imp_le order_refl)
    moreover have "drain_loop os limit consumed r w = drain_loop os limit (consumed + ?n) ?r w"
      by (subst drain_loop.simps)
        (simp only: left if_True if_False Cons list.distinct list.case prod.case Let_def count m Option.bind.simps)
    ultimately show ?thesis using Cons front r(3) by auto
  qed
qed

text \<open>A pane without process and backlog is at rest: draining leaves it as it is, running or not.\<close>

lemma update_pressure_idle:
  assumes "pr_process r = None" "pr_pending_since r = None" "pr_state r \<noteq> Backpressured"
  shows "\<exists>r' w'. update_pressure_state os r w = (r', w') \<and> pr_process r' = None \<and> pr_state r' = pr_state r \<and>
    pr_pending_since r' = None \<and> pr_pending r' = pr_pending r"
  using assms by (auto simp: update_pressure_state_def Let_def elapsed_is_def split: prod.split)

lemma drain_pane_without_process:
  assumes "pane_drains r" "pr_process r = None" "pr_pending_bytes r \<le> limit"
    "pr_state r = Backpressured \<or> pr_state r = Running"
  shows "\<exists>c r' w'. drain_pane os limit r w = Some (c, 0 < c \<or> pr_state r \<noteq> Running, r', w') \<and> pane_drains r' \<and>
    pr_process r' = None \<and> pr_state r' = Running \<and> pr_pending r' = [] \<and> (pr_pending r \<noteq> [] \<longrightarrow> 0 < c) \<and>
    (pr_pending r = [] \<longrightarrow> c = 0)"
proof -
  obtain c r1 w1 where d: "drain_loop os limit 0 r w = Some (c, r1, w1)" "pane_drains r1" "pr_pending r1 = []"
    "pr_process r1 = None" "pr_state r1 = pr_state r" "pr_pending r \<noteq> [] \<longrightarrow> 0 < c" "pr_pending r = [] \<longrightarrow> c = 0"
    using drain_loop_empties [OF assms(1,2), of 0 limit os w] assms(3) by auto
  let ?r = "r1\<lparr>pr_pending_since := None, pr_state := Running\<rparr>"
  have b: "drain_bytes os limit r w = Some (c, ?r, w1)"
    using d assms(4) by (auto simp: drain_bytes_def)
  have e: "poll_exit os ?r w1 = (False, ?r, w1)" using d(4) by (simp add: poll_exit_def)
  obtain r' w' where u: "update_pressure_state os ?r w1 = (r', w')" "pr_process r' = None" "pr_state r' = Running"
    "pr_pending r' = []"
    using update_pressure_idle [of ?r os w1] d(3,4) by auto
  have "pane_drains ?r" using d(2,3) by (simp add: pane_drains_def pane_runtime_ok_def)
  then have "pane_drains r'" using update_pressure_keeps(1) [OF u(1)] by simp
  moreover have "drain_pane os limit r w = Some (c, 0 < c \<or> pr_state r \<noteq> Running, r', w')"
    by (simp add: drain_pane_def poll_without_process [OF assms(2)] b e u(1)) (use u(3) in auto)
  ultimately show ?thesis using u d(6,7) by blast
qed

lemma drain_pane_exits:
  assumes "reads_something os" "pane_drains r"
    "poll_one_output os r w = (r1, w1)" "drain_bytes os limit r1 w1 = Some (c, r2, w2)"
    "pr_process r2 = Some h" "os_try_wait os h w2 = (Inr (Some status), w3)" "pr_pending r2 \<noteq> []"
    "pr_pending_since r2 = Some t0" "\<forall>v. t0 + millis 250 \<le> fst (os_now os v)"
  shows "\<exists>r3 w'. drain_pane os limit r w = Some (c, True, r3, w') \<and> pane_drains r3 \<and> pr_process r3 = None \<and>
    pr_state r3 = Backpressured \<and> pr_pending r3 = pr_pending r2 \<and> pr_pending_bytes r3 = pr_pending_bytes r2"
proof -
  let ?r = "r2\<lparr>pr_state := Exited (es_code status), pr_process := None\<rparr>"
  have e: "poll_exit os r2 w2 = (True, ?r, w3)" using assms(5,6) by (simp add: poll_exit_def)
  obtain r3 w4 where u: "update_pressure_state os ?r w3 = (r3, w4)" by force
  have "fst (elapsed_is os (\<lambda>d. d \<ge> millis 250) (Some t0) v)" for v
    using assms(9) [rule_format, of v] by (cases "os_now os v") (simp add: elapsed_is_def)
  then have backlog: "\<exists>v'. elapsed_is os (\<lambda>d. d \<ge> millis 250) (Some t0) v = (True, v')" for v
    by (metis prod.collapse)
  have state: "pr_state r3 = Backpressured \<and> pr_pending_bytes r3 = pr_pending_bytes r2"
  proof -
    obtain quiet v1 where 1: "elapsed_is os (\<lambda>d. d > millis 100) (pr_last_output_at ?r) w3 = (quiet, v1)" by force
    obtain v2 where 2: "elapsed_is os (\<lambda>d. d \<ge> millis 250) (Some t0) v1 = (True, v2)" using backlog by blast
    show ?thesis using u assms(8) by (cases quiet) (auto simp: update_pressure_state_def Let_def 1 [simplified] 2)
  qed
  have r1: "pane_drains r1"
    using poll_one_output_keeps [OF assms(3) _ assms(1)] assms(2) by (simp add: pane_drains_def)
  then have "pane_drains r2" using drain_bytes_returns [OF assms(1) r1, of limit w1] assms(4) by auto
  then have "pane_drains ?r" by (simp add: pane_drains_def)
  then have "pane_drains r3" using update_pressure_keeps(1) [OF u] by simp
  moreover have "drain_pane os limit r w = Some (c, True, r3, w4)"
    by (simp add: drain_pane_def assms(3,4) e u)
  ultimately show ?thesis using state update_pressure_keeps(4,5) [OF u] by auto
qed

section \<open>Reaching a runtime that drains\<close>

lemma runtime_grid_size_ok:
  "runtime_grid_size sz = Inr gsz \<Longrightarrow>
     0 < gs_rows gsz \<and> 0 < gs_columns gsz \<and> gs_rows gsz = unat (tz_rows sz) \<and> gs_columns gsz = unat (tz_columns sz)"
  by (auto simp: runtime_grid_size_def grid_size_new_def outcome split: if_splits)

lemma pane_runtime_new_drains:
  "0 < gs_rows sz \<Longrightarrow> 0 < gs_columns sz \<Longrightarrow> pane_drains (pane_runtime_new g (model_new p sz l))"
  using model_new_ok [of sz p l] by (simp add: pane_drains_def pane_runtime_ok_def pane_runtime_new_def)

lemma pane_drains_state [simp]:
  "pane_drains (r\<lparr>pr_state := st\<rparr>) = pane_drains r"
  "pane_drains (r\<lparr>pr_process := h\<rparr>) = pane_drains r"
  "pane_drains (r\<lparr>pr_last_error := e\<rparr>) = pane_drains r"
  by (simp_all add: pane_drains_def pane_runtime_ok_def)

lemma runtime_drains_get: "runtime_drains t \<Longrightarrow> bt_get (rt_panes t) pane = Some r \<Longrightarrow> pane_drains r"
  by (simp add: runtime_drains_def)

lemma runtime_drains_update:
  "runtime_drains t \<Longrightarrow> bt_get (rt_panes t) pane = Some r \<Longrightarrow> (pane_drains r \<Longrightarrow> pane_drains r') \<Longrightarrow>
     runtime_drains (put_pane pane r' t)"
  by (blast intro: runtime_drains_put runtime_drains_get)

lemma runtime_drains_new: "runtime_drains (terminal_runtime_new l)"
  by (simp add: runtime_drains_def terminal_runtime_new_def)

lemma runtime_drains_prepare:
  "runtime_drains t \<Longrightarrow> 0 < gs_rows sz \<Longrightarrow> 0 < gs_columns sz \<Longrightarrow> runtime_drains (snd (prepare os pane sz t))"
  by (simp add: prepare_def runtime_drains_put pane_runtime_new_drains)

lemma runtime_drains_begin_restart: "runtime_drains t \<Longrightarrow> runtime_drains (snd (begin_restart os pane request t))"
  using runtime_grid_size_ok [of "sr_size request"]
  by (cases "runtime_grid_size (sr_size request)")
    (auto simp: begin_restart_def Let_def intro!: runtime_drains_put pane_runtime_new_drains)

lemma runtime_drains_finish_restart: "runtime_drains t \<Longrightarrow> runtime_drains (snd (finish_restart pane g result t))"
  by (auto simp: finish_restart_def intro!: runtime_drains_update split: option.split sum.split)

lemma runtime_drains_begin_terminate: "runtime_drains t \<Longrightarrow> runtime_drains (snd (begin_terminate pane grace t))"
  by (cases "bt_get (rt_panes t) pane"; cases "pr_process (the (bt_get (rt_panes t) pane))")
    (auto simp: begin_terminate_def intro!: runtime_drains_update)

lemma runtime_drains_finish_terminate: "runtime_drains t \<Longrightarrow> runtime_drains (snd (finish_terminate completion t))"
  by (auto simp: finish_terminate_def intro!: runtime_drains_update split: option.split sum.split)

lemma runtime_drains_discard: "runtime_drains t \<Longrightarrow> runtime_drains (discard pane t)"
  by (auto simp: discard_def runtime_drains_def)

lemma runtime_drains_record: "runtime_drains t \<Longrightarrow> runtime_drains (snd (record_transport_result pane result t))"
  by (auto simp: record_transport_result_def intro!: runtime_drains_update split: option.split sum.split)

lemma runtime_drains_write: "runtime_drains t \<Longrightarrow> runtime_drains (fst (snd (runtime_write os pane bytes t w)))"
  using runtime_drains_record [of t pane]
  by (auto simp: runtime_write_def split: sum.split prod.split) (metis snd_conv)

lemma runtime_drains_apply_output:
  assumes "runtime_drains t" "oc_bytes chunk \<noteq> []"
  shows "runtime_drains (fst (snd (apply_output os pane g chunk t w)))"
proof (cases "bt_get (rt_panes t) pane")
  case None
  with assms(1) show ?thesis by (simp add: apply_output_def)
next
  case (Some r)
  obtain res r' w' where e: "enqueue os chunk r w = (res, r', w')" by (metis prod_cases3)
  have "pane_drains r" using assms(1) Some by (rule runtime_drains_get)
  then have "pane_drains r'" using enqueue_keeps [OF e _ assms(2)] by (simp add: pane_drains_def)
  with assms(1) Some e show ?thesis by (simp add: apply_output_def runtime_drains_put)
qed

lemma runtime_drains_terminate: "runtime_drains t \<Longrightarrow> runtime_drains (fst (snd (terminate os pane grace t w)))"
  using runtime_drains_record [of t pane]
  by (auto simp: terminate_def split: sum.split prod.split) (metis snd_conv)

definition pane_size :: "('h, 'p) terminal_runtime \<Rightarrow> terminal_pane_id \<Rightarrow> grid_size option" where
  "pane_size t pane = map_option (\<lambda>r. model_size (pr_model r)) (bt_get (rt_panes t) pane)"

text \<open>
  The runtimes its operations lead to, from a new one, on any world, in any order. The one
  restriction is the side condition of the terminal model: a pane is never resized below the size
  it has, in rows or columns (a smaller grid may lose the place of a saved cursor, and the model
  panics on restoring it). The chunks applied and the grids prepared are not empty, which the
  transport and \<open>GridSize::new\<close> see to. A restart is its two halves with the spawn between them.
\<close>

inductive runtime_reached :: "('h, 'p, 'w) outside \<Rightarrow> ('h, 'p) terminal_runtime \<Rightarrow> bool" for os where
  new_runtime: "runtime_reached os (terminal_runtime_new l)"
| prepared: "runtime_reached os t \<Longrightarrow> 0 < gs_rows sz \<Longrightarrow> 0 < gs_columns sz \<Longrightarrow> runtime_reached os (snd (prepare os pane sz t))"
| restarting: "runtime_reached os t \<Longrightarrow> runtime_reached os (snd (begin_restart os pane request t))"
| restarted: "runtime_reached os t \<Longrightarrow> runtime_reached os (snd (finish_restart pane g result t))"
| terminating: "runtime_reached os t \<Longrightarrow> runtime_reached os (snd (begin_terminate pane grace t))"
| terminated: "runtime_reached os t \<Longrightarrow> runtime_reached os (snd (finish_terminate completion t))"
| killed: "runtime_reached os t \<Longrightarrow> runtime_reached os (fst (snd (terminate os pane grace t w)))"
| discarded: "runtime_reached os t \<Longrightarrow> runtime_reached os (discard pane t)"
| written: "runtime_reached os t \<Longrightarrow> runtime_reached os (fst (snd (runtime_write os pane bytes t w)))"
| arrived: "runtime_reached os t \<Longrightarrow> oc_bytes chunk \<noteq> [] \<Longrightarrow>
    runtime_reached os (fst (snd (apply_output os pane g chunk t w)))"
| resized: "runtime_reached os t \<Longrightarrow> runtime_resize os pane tsz t w = Some (r, t', w') \<Longrightarrow>
    (\<And>old sz. pane_size t pane = Some old \<Longrightarrow> runtime_grid_size tsz = Inr sz \<Longrightarrow> grows old sz) \<Longrightarrow>
    runtime_reached os t'"
| drained: "runtime_reached os t \<Longrightarrow> drain os budget t w = Some (b, t', w') \<Longrightarrow> runtime_reached os t'"

lemma runtime_drains_resize:
  assumes t: "runtime_drains t" and run: "runtime_resize os pane tsz t w = Some (r, t', w')"
    and size: "\<And>old sz. pane_size t pane = Some old \<Longrightarrow> runtime_grid_size tsz = Inr sz \<Longrightarrow> grows old sz"
  shows "runtime_drains t'"
proof (cases "runtime_grid_size tsz")
  case (Inl e)
  with t run show ?thesis by (simp add: runtime_resize_def)
next
  case sz: (Inr sz)
  show ?thesis
  proof (cases "runtime_process pane t")
    case (Inl e)
    with t run sz show ?thesis by (simp add: runtime_resize_def)
  next
    case (Inr h)
    obtain result w1 where os: "os_resize os h tsz w = (result, w1)" by force
    show ?thesis
    proof (cases result)
      case (Inl e)
      with run sz Inr os have "t' = snd (record_transport_result pane result t)"
        by (auto simp: runtime_resize_def record_transport_result_def)
      with runtime_drains_record [OF t] show ?thesis by simp
    next
      case ok: (Inr u)
      show ?thesis
      proof (cases "bt_get (rt_panes t) pane")
        case None
        with t run sz Inr os ok show ?thesis by (simp add: runtime_resize_def record_transport_result_def)
      next
        case (Some q)
        then have q: "pane_drains q" "grows (model_size (pr_model q)) sz"
          using runtime_drains_get [OF t] size [OF _ sz] by (simp_all add: pane_size_def)
        then obtain m where "map_option snd (model_resize sz (pr_model q)) = Some m" "model_ok m" "model_saved_ok m"
          using model_resize_ok [of "pr_model q" sz] by (auto simp: pane_drains_def pane_runtime_ok_def)
        then obtain b where m: "model_resize sz (pr_model q) = Some (b, m)" "model_ok m" "model_saved_ok m" by auto
        then have "t' = put_pane pane (q\<lparr>pr_model := m\<rparr>) t"
          using run sz Inr os ok Some by (simp add: runtime_resize_def record_transport_result_def)
        moreover have "pane_drains (q\<lparr>pr_model := m\<rparr>)"
          using q(1) m by (simp add: pane_drains_def pane_runtime_ok_def)
        ultimately show ?thesis using t by (simp add: runtime_drains_put)
      qed
    qed
  qed
qed

lemma runtime_reached_drains:
  assumes "runtime_reached os t" "reads_something os"
  shows "runtime_drains t"
  using assms(1)
proof induction
  case (drained t budget w b t' w')
  with drain_returns [OF assms(2), of t budget w] show ?case by (auto simp: drains_once_def)
next
  case (resized t pane tsz w r t' w')
  from runtime_drains_resize [OF resized.IH resized.hyps(2)] resized.hyps(3) show ?case by blast
qed (simp_all add: runtime_drains_new runtime_drains_prepare runtime_drains_begin_restart runtime_drains_finish_restart
      runtime_drains_begin_terminate runtime_drains_finish_terminate runtime_drains_terminate runtime_drains_discard
      runtime_drains_write runtime_drains_apply_output)

section \<open>Properties\<close>

text \<open>
  C7. Draining always returns, as long as no pane was ever made smaller: on every world whose
  reads give something or nothing, and for every runtime its operations lead to without shrinking
  a pane (\<open>runtime_reached\<close>), whatever is queued and whatever processes still write, a drain ends
  within its budget, for each pane and in total, and keeps the panes, their generations and the
  invariant of the runtime. (After a shrinking resize the terminal model of a pane can panic while
  it is drained.)
\<close>

theorem drains_return_within_budget:
  assumes "reads_something os" "runtime_reached os t"
  shows "\<exists>batch t' w'. drain os budget t w = Some (batch, t', w') \<and>
    batch_total batch \<le> db_aggregate_bytes budget \<and> (\<forall>pane. bytes_for batch pane \<le> db_per_pane_bytes budget) \<and>
    bt_keys (rt_panes t') = bt_keys (rt_panes t) \<and> runtime_generation t' = runtime_generation t \<and> runtime_drains t'"
  using drain_returns [OF assms(1) runtime_reached_drains [OF assms(2,1)], of budget w]
  unfolding drains_once_def by blast

definition silent_vte :: "unit vte" where
  "silent_vte p bytes = ([], p)"

definition example_outside :: "(unit, unit, unit) outside" where
  "example_outside =
     \<lparr>os_width = ascii_width, os_vte = silent_vte, os_parser = (), os_now = (\<lambda>w. (millis 1000, w)),
      os_spawn = (\<lambda>_ w. (Inr (), w)), os_write = (\<lambda>_ _ w. (Inr (), w)), os_resize = (\<lambda>_ _ w. (Inr (), w)),
      os_try_read = (\<lambda>_ w. (Inr None, w)), os_output_backpressured = (\<lambda>_ w. (False, w)),
      os_try_wait = (\<lambda>_ w. (Inr (Some \<lparr>es_code = Some 0, es_signal = None, es_terminated = False\<rparr>), w)),
      os_terminate = (\<lambda>_ _ w. (Inr (), w))\<rparr>"

definition example_pane :: "(unit, unit) pane_runtime" where
  "example_pane = (pane_runtime_new 1 (model_new () \<lparr>gs_rows = 1, gs_columns = 1\<rparr> 0))
     \<lparr>pr_process := Some (), pr_state := Running, pr_pending := [\<lparr>po_bytes = [97, 98], po_offset = 0\<rparr>],
      pr_pending_bytes := 2, pr_pending_since := Some 0\<rparr>"

lemma example_reads: "reads_something example_outside"
  by (simp add: reads_something_def example_outside_def)

lemma example_pane_drains: "pane_drains example_pane"
  using model_new_ok [of "\<lparr>gs_rows = 1, gs_columns = 1\<rparr>" "()" 0]
  by (simp add: pane_drains_def pane_runtime_ok_def example_pane_def pane_runtime_new_def pending_left_def
      MAX_PENDING_BYTES_def MAX_PENDING_CHUNKS_def)

text \<open>Two panes of one cell, each with a chunk waiting and no process.\<close>

definition example_cell :: grid_size where
  "example_cell = \<lparr>gs_rows = 1, gs_columns = 1\<rparr>"

definition example_chunk :: output_chunk where
  "example_chunk = \<lparr>oc_sequence = 1, oc_bytes = [97, 98]\<rparr>"

definition example_waiting :: "(unit, unit) terminal_runtime" where
  "example_waiting = (let output = \<lambda>pane t. fst (snd (apply_output example_outside pane 1 example_chunk t ())) in
     output 2 (output 1 (snd (prepare example_outside 2 example_cell
       (snd (prepare example_outside 1 example_cell (terminal_runtime_new 0)))))))"

lemma example_waiting_reached: "runtime_reached example_outside example_waiting"
  unfolding example_waiting_def Let_def
  by (intro runtime_reached.intros) (simp_all add: example_cell_def example_chunk_def)

lemma example_waiting_panes:
  "bt_keys (rt_panes example_waiting) = [1, 2]"
  "\<exists>r. bt_get (rt_panes example_waiting) 2 = Some r \<and> pr_pending r \<noteq> []"
  by (simp_all add: example_waiting_def Let_def apply_output_def prepare_def next_generation_def enqueue_def
      example_outside_def example_chunk_def pane_runtime_new_def terminal_runtime_new_def put_pane_def
      MAX_PENDING_CHUNKS_def MAX_PENDING_BYTES_def sat_add_usize_def bt_keys_def bt_entries_insert put_key_def)

theorem drains_return_within_budget_witness:
  "\<exists>batch t' w'. drain example_outside drain_budget_default example_waiting () = Some (batch, t', w') \<and>
     bt_keys (rt_panes t') = [1, 2]"
  using drains_return_within_budget [OF example_reads example_waiting_reached, of drain_budget_default "()"]
    example_waiting_panes(1) by auto

text \<open>
  C8. No pane starves, as long as no pane was ever made smaller: in every runtime its operations
  lead to without shrinking a pane (\<open>runtime_reached\<close>), a pane with output waiting is served by one
  of as many drains as there are panes, however much the others produce.
\<close>

theorem every_pane_gets_its_turn:
  assumes "reads_something os" "runtime_reached os t" "bt_get (rt_panes t) pane = Some r" "pr_pending r \<noteq> []"
    "0 < db_aggregate_bytes budget" "0 < db_per_pane_bytes budget"
  shows "\<exists>batches t' w'. drain_times os budget (bt_len (rt_panes t)) t w = Some (batches, t', w') \<and>
    (\<exists>batch \<in> set batches. 0 < bytes_for batch pane)"
proof -
  let ?ids = "bt_keys (rt_panes t)"
  have "pane \<in> set ?ids" using assms(3) by (rule bt_get_in_keys)
  then obtain i where i: "i < length ?ids" "?ids ! i = pane" by (meson in_set_conv_nth)
  let ?n = "length ?ids" and ?c = "rt_round_robin_cursor t"
  let ?d = "(i + ?n - ?c mod ?n) mod ?n"
  have "(?c + ?d) mod ?n = (?c mod ?n + (i + ?n - ?c mod ?n)) mod ?n" by (simp add: mod_simps)
  also have "?c mod ?n + (i + ?n - ?c mod ?n) = i + ?n"
    using mod_less_divisor [of ?n ?c] i(1) by linarith
  also have "(i + ?n) mod ?n = i" using i(1) by simp
  finally have "?ids ! ((?c + ?d) mod ?n) = pane" using i(2) by simp
  moreover have "?d < bt_len (rt_panes t)"
    unfolding bt_len_keys using i(1) by (intro mod_less_divisor) linarith
  ultimately show ?thesis 
    using served_in_turn [OF assms(1,5,6) runtime_reached_drains [OF assms(2,1)] assms(3,4)] by blast
qed

theorem every_pane_gets_its_turn_witness:
  "\<exists>batches t' w'. drain_times example_outside \<lparr>db_per_pane_bytes = 1, db_aggregate_bytes = 1\<rparr>
      (bt_len (rt_panes example_waiting)) example_waiting () = Some (batches, t', w') \<and>
     (\<exists>batch \<in> set batches. 0 < bytes_for batch 2)"
  using example_waiting_panes(2) every_pane_gets_its_turn [OF example_reads example_waiting_reached] by fastforce

text \<open>
  When a process is seen to exit while output older than a quarter of a second is still queued,
  the pane is reported backpressured instead of exited, and as soon as the rest is drained it is
  reported running. It has no process and nothing is left to change that.
\<close>

theorem exited_panes_run_again:
  assumes "reads_something os" "pane_drains r"
    "poll_one_output os r w = (r1, w1)" "drain_bytes os limit r1 w1 = Some (c, r2, w2)"
    "pr_process r2 = Some h" "os_try_wait os h w2 = (Inr (Some status), w3)" "pr_pending r2 \<noteq> []"
    "pr_pending_since r2 = Some t0" "\<forall>v. t0 + millis 250 \<le> fst (os_now os v)" "pr_pending_bytes r2 \<le> limit'"
  shows "\<exists>r3 v3 c' r4 v4. drain_pane os limit r w = Some (c, True, r3, v3) \<and> pr_state r3 = Backpressured \<and>
    drain_pane os limit' r3 v3 = Some (c', True, r4, v4) \<and> pr_state r4 = Running \<and> pr_process r4 = None \<and>
    (\<forall>limit'' v. \<exists>r5 v5. drain_pane os limit'' r4 v = Some (0, False, r5, v5) \<and> pr_state r5 = Running \<and> pr_process r5 = None)"
proof -
  obtain r3 v3 where 3: "drain_pane os limit r w = Some (c, True, r3, v3)" "pane_drains r3" "pr_process r3 = None"
    "pr_state r3 = Backpressured" "pr_pending r3 = pr_pending r2" "pr_pending_bytes r3 = pr_pending_bytes r2"
    using drain_pane_exits [OF assms(1-9)] by blast
  obtain c' r4 v4 where 4: "drain_pane os limit' r3 v3 = Some (c', 0 < c' \<or> pr_state r3 \<noteq> Running, r4, v4)" "pane_drains r4"
    "pr_process r4 = None" "pr_state r4 = Running" "pr_pending r4 = []"
    using drain_pane_without_process [OF 3(2,3), of limit' os v3] 3(4,6) assms(10) by auto
  have "\<exists>r5 v5. drain_pane os limit'' r4 v = Some (0, False, r5, v5) \<and> pr_state r5 = Running \<and> pr_process r5 = None"
    for limit'' v
  proof -
    have "pr_pending_bytes r4 = 0" using 4(2,5) by (simp add: pane_drains_def pane_runtime_ok_def)
    then show ?thesis using drain_pane_without_process [OF 4(2,3), of limit'' os v] 4(4,5) by auto
  qed
  with 3 4 show ?thesis by auto
qed

theorem exited_panes_run_again_witness:
  "\<exists>r3 v3 c' r4 v4. drain_pane example_outside 1 example_pane () = Some (1, True, r3, v3) \<and> pr_state r3 = Backpressured \<and>
    drain_pane example_outside 1 r3 v3 = Some (c', True, r4, v4) \<and> pr_state r4 = Running \<and> pr_process r4 = None"
proof -
  let ?r = "example_pane\<lparr>pr_pending := [\<lparr>po_bytes = [97, 98], po_offset = 1\<rparr>], pr_pending_bytes := 1\<rparr>"
  have read: "poll_one_output example_outside example_pane () = (example_pane, ())"
    by (simp add: poll_one_output_def example_outside_def example_pane_def)
  have adv: "model_advance W silent_vte bytes m = Some m" for W bytes and m :: "unit terminal_model"
    by (simp add: model_advance_def silent_vte_def)
  have full: "drain_loop example_outside 1 1 r () = Some (1, r, ())" for r
    by (subst drain_loop.simps) simp
  have os: "os_width example_outside = ascii_width" "os_vte example_outside = silent_vte"
    by (simp_all add: example_outside_def)
  have "drain_loop example_outside 1 0 example_pane () = Some (1, ?r, ())"
    by (subst drain_loop.simps) (simp add: example_pane_def os adv full del: One_nat_def)
  then have d: "drain_bytes example_outside 1 example_pane () = Some (1, ?r, ())"
    by (simp add: drain_bytes_def)
  have h: "pr_process ?r = Some ()" "pr_pending ?r \<noteq> []" "pr_pending_since ?r = Some 0" "pr_pending_bytes ?r \<le> 1"
    by (simp_all add: example_pane_def)
  have e: "os_try_wait example_outside () () = (Inr (Some \<lparr>es_code = Some 0, es_signal = None, es_terminated = False\<rparr>), ())"
    and now: "\<forall>v. 0 + millis 250 \<le> fst (os_now example_outside v)"
    by (simp_all add: example_outside_def millis_def)
  from exited_panes_run_again [OF example_reads example_pane_drains read d h(1) e h(2,3) now h(4)] show ?thesis by blast
qed

end
