(* ===== verification/SessionInvariant.thy ===== *)
theory SessionInvariant imports CatalogGenerations SessionDaemon TerminalDraining begin

text \<open>
  What ties the two halves of the session service together: a pane of the catalog has the generation
  of its terminal in the runtime, the two maps of identifiers are inverse, and no terminal is left
  without a pane. Every operation of the service keeps it.
\<close>

section \<open>Generations in the runtime\<close>

lemma runtime_generation_put:
  "runtime_generation (put_pane pane r t) k = (if k = pane then Some (pr_generation r) else runtime_generation t k)"
  by (simp add: runtime_generation_def put_pane_def)

lemma runtime_generation_discard:
  "runtime_generation (discard pane t) k = (if k = pane then None else runtime_generation t k)"
  by (simp add: runtime_generation_def discard_def)

text \<open>A pane put back with its generation.\<close>

lemma put_same_generation:
  "bt_get (rt_panes t) pane = Some r \<Longrightarrow> pr_generation r' = pr_generation r \<Longrightarrow>
    runtime_generation (put_pane pane r' t) = runtime_generation t"
  by (rule ext) (simp add: runtime_generation_put, simp add: runtime_generation_def)

named_theorems same_generations "operations of the runtime that keep every generation"

lemma finish_restart_gens [same_generations]:
  "finish_restart pane g result t = (r, t') \<Longrightarrow> runtime_generation t' = runtime_generation t"
  by (auto simp: finish_restart_def put_same_generation split: option.splits if_splits sum.splits)

lemma begin_terminate_gens [same_generations]:
  "begin_terminate pane grace t = (r, t') \<Longrightarrow> runtime_generation t' = runtime_generation t"
  by (auto simp: begin_terminate_def attempt_def ok_or_def put_same_generation split: option.splits)

lemma finish_terminate_gens [same_generations]:
  "finish_terminate completion t = (r, t') \<Longrightarrow> runtime_generation t' = runtime_generation t"
  by (auto simp: finish_terminate_def put_same_generation pane_fail_def split: option.splits if_splits sum.splits)

lemma record_transport_gens [same_generations]:
  "record_transport_result pane result t = (r, t') \<Longrightarrow> runtime_generation t' = runtime_generation t"
  by (auto simp: record_transport_result_def put_same_generation split: option.splits sum.splits)

lemma runtime_write_gens [same_generations]:
  "runtime_write os pane bytes t w = (r, t', w') \<Longrightarrow> runtime_generation t' = runtime_generation t"
  by (auto simp: runtime_write_def dest: record_transport_gens split: sum.splits prod.splits)

lemma runtime_resize_gens [same_generations]:
  "runtime_resize os pane sz t w = Some (r, t', w') \<Longrightarrow> runtime_generation t' = runtime_generation t"
proof -
  assume run: "runtime_resize os pane sz t w = Some (r, t', w')"
  obtain gsz h where "r = Inl (Transport InvalidSize) \<and> t' = t \<or> (\<exists>e. r = Inl e \<and> t' = t) \<or>
      runtime_grid_size sz = Inr gsz \<and> runtime_process pane t = Inr h"
    using run by (auto simp: runtime_resize_def split: sum.splits)
  moreover have ?thesis if g: "runtime_grid_size sz = Inr gsz" "runtime_process pane t = Inr h" for gsz h
  proof -
    obtain result w1 where 1: "os_resize os h sz w = (result, w1)" by force
    obtain result2 t2 where 2: "record_transport_result pane result t = (result2, t2)" by force
    have t2: "runtime_generation t2 = runtime_generation t" by (rule record_transport_gens [OF 2])
    show ?thesis
      using run g 1 2 t2
      by (cases result2) (auto simp: runtime_resize_def put_same_generation split: option.splits)
  qed
  ultimately show ?thesis by blast
qed

lemma enqueue_generation: "enqueue os chunk r w = (res, r', w') \<Longrightarrow> pr_generation r' = pr_generation r"
  by (auto simp: enqueue_def split: if_splits prod.splits)

lemma pane_fail_generation [simp]: "pr_generation (pane_fail m r) = pr_generation r"
  by (simp add: pane_fail_def)

lemma poll_one_output_generation: "poll_one_output os r w = (r', w') \<Longrightarrow> pr_generation r' = pr_generation r"
  by (auto simp: poll_one_output_def dest: enqueue_generation split: prod.splits sum.splits option.splits)

text \<open>Partial correctness of the draining loop: it is proved for every outside, also one that never stops reading.\<close>

lemma drain_loop_generation:
  assumes "drain_loop os limit consumed r w = Some z"
  shows "pr_generation (fst (snd z)) = pr_generation r"
proof (rule drain_loop.raw_induct [where P = "\<lambda>os limit consumed r w z. pr_generation (fst (snd z)) = pr_generation r",
    OF _ assms], goal_cases)
  case (1 go os limit consumed r w z)
  obtain r1 w1 where p: "(if pr_pending r = [] then poll_one_output os r w else (r, w)) = (r1, w1)" by force
  have r1: "pr_generation r1 = pr_generation r"
    using p by (auto dest: poll_one_output_generation split: if_splits)
  show ?case
  proof (cases "consumed < limit \<and> pr_pending r1 \<noteq> []")
    case False
    then show ?thesis using 1(2) p r1 by (auto split: if_splits list.splits)
  next
    case True
    then obtain front rest where f: "pr_pending r1 = front # rest" by (cases "pr_pending r1") auto
    from 1(2) True p f obtain m c r2 where "go os limit c r2 w1 = Some z" "pr_generation r2 = pr_generation r1"
      by (auto simp: Let_def bind_eq_Some_conv)
    with 1(1) r1 show ?thesis by auto
  qed
qed

lemma poll_exit_generation: "poll_exit os r w = (b, r', w') \<Longrightarrow> pr_generation r' = pr_generation r"
  by (auto simp: poll_exit_def split: prod.splits sum.splits option.splits)

lemma update_pressure_generation: "update_pressure_state os r w = (r', w') \<Longrightarrow> pr_generation r' = pr_generation r"
  by (auto simp: update_pressure_state_def Let_def split: prod.splits if_splits)

lemma drain_pane_generation:
  assumes "drain_pane os limit r w = Some (c, b, r', w')"
  shows "pr_generation r' = pr_generation r"
proof -
  obtain r1 w1 where 1: "poll_one_output os r w = (r1, w1)" by force
  obtain c2 r2 w2 where 2: "drain_bytes os limit r1 w1 = Some (c2, r2, w2)"
    using assms 1 by (auto simp: drain_pane_def bind_eq_Some_conv)
  obtain b3 r3 w3 where 3: "poll_exit os r2 w2 = (b3, r3, w3)" by (metis prod_cases3)
  obtain r4 w4 where 4: "update_pressure_state os r3 w3 = (r4, w4)" by force
  obtain z where z: "drain_loop os limit 0 r1 w1 = Some z" and r2: "pr_generation r2 = pr_generation (fst (snd z))"
    using 2 by (cases "drain_loop os limit 0 r1 w1") (auto simp: drain_bytes_def split: if_splits)
  have "r' = r4" using assms 1 2 3 4 by (simp add: drain_pane_def)
  then show ?thesis
    using poll_one_output_generation [OF 1] drain_loop_generation [OF z] r2 poll_exit_generation [OF 3]
      update_pressure_generation [OF 4] by simp
qed

lemma drain_panes_gens:
  "drain_panes os per panes left batch t w = Some (batch', t', w') \<Longrightarrow> runtime_generation t' = runtime_generation t"
proof (induction panes arbitrary: left batch t w)
  case Nil
  then show ?case by simp
next
  case (Cons pane panes)
  show ?case
  proof (cases "left = 0 \<or> bt_get (rt_panes t) pane = None")
    case True
    with Cons show ?thesis by (auto split: if_splits option.splits)
  next
    case False
    then obtain r where r: "bt_get (rt_panes t) pane = Some r" by auto
    with False Cons.prems obtain c b r' w1 where d: "drain_pane os (min per left) r w = Some (c, b, r', w1)"
      by (auto simp: bind_eq_Some_conv)
    obtain l bt where "drain_panes os per panes l bt (put_pane pane r' t) w1 = Some (batch', t', w')"
      using Cons.prems False r d by auto
    from Cons.IH [OF this] show ?thesis
      using put_same_generation [OF r drain_pane_generation [OF d]] by simp
  qed
qed

lemma drain_gens [same_generations]:
  "drain os budget t w = Some (batch, t', w') \<Longrightarrow> runtime_generation t' = runtime_generation t"
  by (auto simp: drain_def Let_def runtime_generation_def fun_eq_iff dest!: drain_panes_gens split: if_splits)

section \<open>The invariant of the service\<close>

definition runtime_gen :: "('h, 'p) session_service \<Rightarrow> pane_id \<Rightarrow> u64" where
  "runtime_gen s pane =
     (case bt_get (ss_terminal_panes s) pane of
        None \<Rightarrow> 0
      | Some terminal \<Rightarrow> (case runtime_generation (ss_runtime s) terminal of None \<Rightarrow> 0 | Some g \<Rightarrow> g))"

text \<open>The maps between panes and terminals are inverse, and every terminal was drawn and has its pane.\<close>

definition service_links :: "('h, 'p) session_service \<Rightarrow> bool" where
  "service_links s \<longleftrightarrow>
     (\<forall>t k. bt_get (ss_session_panes s) t = Some k \<longleftrightarrow> bt_get (ss_terminal_panes s) k = Some t) \<and>
     (\<forall>t k. bt_get (ss_session_panes s) t = Some k \<longrightarrow> t < ti_next_pane (ss_terminal_ids s)) \<and>
     (\<forall>t. runtime_generation (ss_runtime s) t \<noteq> None \<longrightarrow> bt_get (ss_session_panes s) t \<noteq> None)"

lemma links_inj:
  "service_links s \<Longrightarrow> bt_get (ss_terminal_panes s) k = Some t \<Longrightarrow> bt_get (ss_terminal_panes s) j = Some t \<Longrightarrow> j = k"
  unfolding service_links_def by (metis option.inject)

lemma links_catalog [simp]:
  "service_links (s\<lparr>ss_catalog := c\<rparr>) = service_links s" "runtime_gen (s\<lparr>ss_catalog := c\<rparr>) = runtime_gen s"
  by (simp_all add: service_links_def runtime_gen_def fun_eq_iff cong: option.case_cong)

definition service_ok :: "('h, 'p) session_service \<Rightarrow> bool" where
  "service_ok s \<longleftrightarrow>
     catalog_ok (ss_catalog s) \<and> service_links s \<and>
     (\<forall>k g. (k, g) \<in> pane_gens (ss_catalog s) \<longrightarrow> g = runtime_gen s k) \<and>
     (\<forall>k t. bt_get (ss_terminal_panes s) k = Some t \<longrightarrow> k \<in> set (catalog_pane_ids (ss_catalog s)))"

lemma service_ok_catalog_ok: "service_ok s \<Longrightarrow> catalog_ok (ss_catalog s)"
  by (simp add: service_ok_def)

text \<open>What the invariant does not look at.\<close>

lemma service_ok_same:
  assumes "ss_catalog s' = ss_catalog s" "ss_terminal_panes s' = ss_terminal_panes s"
    "ss_session_panes s' = ss_session_panes s" "ss_terminal_ids s' = ss_terminal_ids s"
    "runtime_generation (ss_runtime s') = runtime_generation (ss_runtime s)"
  shows "service_ok s' = service_ok s"
  using assms by (simp add: service_ok_def service_links_def runtime_gen_def cong: option.case_cong)

lemma service_ok_others [simp]:
  "service_ok (s\<lparr>ss_dirty := b\<rparr>) = service_ok s"
  "service_ok (s\<lparr>ss_attached_clients := n\<rparr>) = service_ok s"
  "service_ok (s\<lparr>ss_detached_since := n\<rparr>) = service_ok s"
  "service_ok (s\<lparr>ss_output_revisions := f\<rparr>) = service_ok s"
  "service_ok (s\<lparr>ss_terminal_revisions := f\<rparr>) = service_ok s"
  "service_ok (s\<lparr>ss_unread_counts := f\<rparr>) = service_ok s"
  "service_ok (s\<lparr>ss_attention := h\<rparr>) = service_ok s"
  "service_ok (s\<lparr>ss_historical := i\<rparr>) = service_ok s"
  by (rule service_ok_same; simp)+

lemma service_ok_runtime:
  "runtime_generation t = runtime_generation (ss_runtime s) \<Longrightarrow> service_ok (s\<lparr>ss_runtime := t\<rparr>) = service_ok s"
  by (rule service_ok_same) simp_all

text \<open>A new catalog that keeps its panes, with the generations they had, and may add new ones.\<close>

lemma fresh_not_linked:
  "service_ok s \<Longrightarrow> fresh_supply (ss_catalog s) rng \<Longrightarrow> (k, g) \<in> new_gens rng \<Longrightarrow> runtime_gen s k = 0 \<and> g = 0"
  by (cases "bt_get (ss_terminal_panes s) k")
    (auto simp: service_ok_def new_gens_def fresh_supply_def runtime_gen_def)

lemma service_ok_catalog:
  assumes "service_ok s" "fresh_supply (ss_catalog s) rng" "catalog_ok c"
    "pane_gens c \<subseteq> pane_gens (ss_catalog s) \<union> new_gens rng"
    "set (catalog_pane_ids (ss_catalog s)) \<subseteq> set (catalog_pane_ids c)"
  shows "service_ok (s\<lparr>ss_catalog := c\<rparr>)"
proof -
  have "g = runtime_gen s k" if "(k, g) \<in> pane_gens c" for k g
    using assms(1,4) fresh_not_linked [OF assms(1,2)] that by (fastforce simp: service_ok_def)
  with assms show ?thesis by (auto simp: service_ok_def)
qed

lemma fresh_nothing [simp]: "fresh_supply c []" "new_gens [] = {}"
  by (simp_all add: fresh_supply_def distinct_draws_def new_gens_def list_all_iff)

lemma service_ok_catalog_same:
  assumes "service_ok s" "catalog_ok c" "pane_gens c \<subseteq> pane_gens (ss_catalog s)"
    "set (catalog_pane_ids (ss_catalog s)) \<subseteq> set (catalog_pane_ids c)"
  shows "service_ok (s\<lparr>ss_catalog := c\<rparr>)"
  using service_ok_catalog [OF assms(1), of "[]" c] assms(2-4) by simp

text \<open>The panes that an update of one window leaves in the catalog.\<close>

lemma commit_window_ids:
  assumes "bt_get (cat_sessions c) sid = Some s" "i < length (se_windows s)"
    "set (bt_keys (sw_panes (se_windows s ! i))) \<subseteq> set (bt_keys (sw_panes w))"
  shows "set (catalog_pane_ids c) \<subseteq> set (catalog_pane_ids (commit_window c sid s i w))"
proof
  fix k
  assume "k \<in> set (catalog_pane_ids c)"
  then obtain sid' s' v where s': "bt_get (cat_sessions c) sid' = Some s'" and v: "v \<in> set (se_windows s')"
    "k \<in> set (bt_keys (sw_panes v))"
    by (auto simp: catalog_pane_ids_def session_pane_ids_def window_pane_ids_def bt_values_get)
  let ?w = "w\<lparr>sw_revision := sat_inc (sw_revision w)\<rparr>"
  let ?s = "s\<lparr>se_windows := (se_windows s)[i := ?w], se_revision := sat_inc (se_revision s)\<rparr>"
  have get: "bt_get (cat_sessions (commit_window c sid s i w)) j = (if j = sid then Some ?s else bt_get (cat_sessions c) j)" for j
    by (simp add: commit_window_def commit_session_def bump_revision_def)
  have "\<exists>t. bt_get (cat_sessions (commit_window c sid s i w)) sid' = Some t \<and>
      (\<exists>u \<in> set (se_windows t). k \<in> set (bt_keys (sw_panes u)))"
  proof (cases "sid' = sid")
    case False
    with get s' v show ?thesis by auto
  next
    case True
    then have "v \<in> set (se_windows s)" using s' v assms(1) by simp
    then obtain j where j: "j < length (se_windows s)" "v = se_windows s ! j" by (auto simp: in_set_conv_nth)
    have "(se_windows s)[i := ?w] ! j \<in> set ((se_windows s)[i := ?w])" using j by (intro nth_mem) simp
    moreover have "k \<in> set (bt_keys (sw_panes ((se_windows s)[i := ?w] ! j)))"
      using v(2) j assms(2,3) by (cases "j = i") auto
    ultimately show ?thesis using get True by auto
  qed
  then show "k \<in> set (catalog_pane_ids (commit_window c sid s i w))"
    by (auto simp: catalog_pane_ids_def session_pane_ids_def window_pane_ids_def dest!: bt_get_in_values)
qed

lemma put_pane_ids:
  "bt_get (cat_sessions c) sid = Some s \<Longrightarrow> i < length (se_windows s) \<Longrightarrow>
    set (catalog_pane_ids c) \<subseteq> set (catalog_pane_ids
      (commit_window c sid s i ((se_windows s ! i)\<lparr>sw_panes := bt_insert k p (sw_panes (se_windows s ! i))\<rparr>)))"
  by (rule commit_window_ids) auto

definition keeps_ids :: "session_catalog \<Rightarrow> (catalog_error + 'a) \<Rightarrow> session_catalog \<Rightarrow> bool" where
  "keeps_ids c r c' \<longleftrightarrow> set (catalog_pane_ids c) \<subseteq> set (catalog_pane_ids c')"

lemma keeps_ids_same [simp]: "keeps_ids c r c"
  by (simp add: keeps_ids_def)

lemma set_generation_lifecycle_ids: "ends (set_generation_lifecycle sid k g l c) (keeps_ids c)"
  unfolding set_generation_lifecycle_def Let_def
  by (intro walk) (auto simp: outcome keeps_ids_def dest!: window_of_pane_ok(1) intro: put_pane_ids [THEN subsetD])

lemma set_pane_size_ids: "ends (set_pane_size sid k rows cols e c) (keeps_ids c)"
  unfolding set_pane_size_def Let_def
  by (intro walk) (auto simp: outcome keeps_ids_def dest!: window_of_pane_ok(1) intro: put_pane_ids [THEN subsetD])

lemma begin_pane_generation_ids: "ends (begin_pane_generation sid k rows cols e c) (keeps_ids c)"
  unfolding begin_pane_generation_def Let_def
  by (intro walk) (auto simp: outcome keeps_ids_def dest!: window_of_pane_ok(1) intro: put_pane_ids [THEN subsetD])

lemma create_session_ids:
  "fresh_supply c rng \<Longrightarrow> ends (create_session rng name dir e c) (keeps_ids c)"
  unfolding create_session_def Let_def
proof ((intro walk; (simp add: keeps_ids_def; fail)?), goal_cases)
  case (1 u n d sid rng1 wid rng2 k rng3)
  have "sid \<notin> set (bt_keys (cat_sessions c))"
    using new_id_ok [of rng sid rng1] 1 by (auto simp: fresh_supply_def)
  then obtain as bs where "bt_values (cat_sessions c) = as @ bs"
    "\<And>w. bt_values (bt_insert sid w (cat_sessions c)) = as @ w # bs"
    by (auto simp: set_bt_keys elim: bt_values_new)
  then show ?case by (auto simp: keeps_ids_def catalog_pane_ids_def bump_revision_def)
qed

section \<open>Catalog mutations\<close>

text \<open>Forgetting panes: what is left of the maps, of the runtime and of the generations.\<close>

lemma forget_pane_catalog [simp]:
  "ss_catalog (forget_pane k s) = ss_catalog s" "ss_terminal_ids (forget_pane k s) = ss_terminal_ids s"
  "ss_service_instance (forget_pane k s) = ss_service_instance s"
  by (simp_all add: forget_pane_def Let_def split: option.split)

lemma forget_pane_terminal:
  "bt_get (ss_terminal_panes (forget_pane k s)) j = (if j = k then None else bt_get (ss_terminal_panes s) j)"
  by (simp add: forget_pane_def Let_def split: option.split)

lemma forget_pane_session:
  "bt_get (ss_session_panes (forget_pane k s)) t =
    (if bt_get (ss_terminal_panes s) k = Some t then None else bt_get (ss_session_panes s) t)"
  by (auto simp: forget_pane_def Let_def split: option.split)

lemma forget_pane_runtime:
  "runtime_generation (ss_runtime (forget_pane k s)) t =
    (if bt_get (ss_terminal_panes s) k = Some t then None else runtime_generation (ss_runtime s) t)"
  by (auto simp: forget_pane_def Let_def runtime_generation_discard split: option.split)

lemma forget_pane_links: "service_links s \<Longrightarrow> service_links (forget_pane k s)"
  using links_inj [of s k] unfolding service_links_def forget_pane_terminal forget_pane_session forget_pane_runtime
  by auto

lemma forget_pane_gen:
  assumes "service_links s"
  shows "runtime_gen (forget_pane k s) j = (if j = k then 0 else runtime_gen s j)"
proof (cases "bt_get (ss_terminal_panes s) j")
  case None
  then show ?thesis by (simp add: runtime_gen_def forget_pane_terminal)
next
  case (Some t)
  have "bt_get (ss_terminal_panes s) k \<noteq> Some t" if "j \<noteq> k"
    using assms Some that unfolding service_links_def by (metis option.inject)
  with Some show ?thesis by (simp add: runtime_gen_def forget_pane_terminal forget_pane_runtime)
qed

lemma forget_panes:
  "service_links s \<Longrightarrow> service_links (fold forget_pane ks s) \<and> ss_catalog (fold forget_pane ks s) = ss_catalog s \<and>
    (\<forall>j. runtime_gen (fold forget_pane ks s) j = (if j \<in> set ks then 0 else runtime_gen s j)) \<and>
    (\<forall>j. bt_get (ss_terminal_panes (fold forget_pane ks s)) j =
      (if j \<in> set ks then None else bt_get (ss_terminal_panes s) j))"
proof (induction ks arbitrary: s)
  case Nil
  then show ?case by simp
next
  case (Cons k ks)
  from Cons.IH [OF forget_pane_links [OF Cons.prems, of k]] forget_pane_gen [OF Cons.prems, of k] show ?case
    by (simp add: forget_pane_terminal)
qed

text \<open>
  The contract of the mutations that the service applies: over a valid catalog and fresh draws, a
  refusal changes nothing, and an accepted one leaves a valid catalog with the generations it had.
\<close>

locale catalog_mutation =
  fixes rng :: entropy and mutation :: "session_catalog \<Rightarrow> (catalog_error + 'a) \<times> session_catalog"
  assumes keeps: "catalog_ok c \<Longrightarrow> fresh_supply c rng \<Longrightarrow> ends (mutation c) (kept c)"
    and gens: "ends (mutation c) (gens_within (pane_gens c \<union> new_gens rng))"
begin

lemma mutated:
  assumes "catalog_ok c" "fresh_supply c rng" "mutation c = (r, c')"
  shows "isl r \<Longrightarrow> c' = c" "catalog_ok c'" "pane_gens c' \<subseteq> pane_gens c \<union> new_gens rng"
  using endsD [OF keeps [OF assms(1,2)] assms(3)] endsD [OF gens assms(3)] assms(1)
  by (cases r; simp add: gens_within_def)+

lemma service_keeps:
  assumes s: "service_ok s" and rng: "fresh_supply (ss_catalog s) rng"
    and run: "apply_catalog_mutation i mutation s = (res, s')"
  shows "service_ok s'"
proof -
  obtain r c where m: "mutation (ss_catalog s) = (r, c)" by force
  note c = mutated [OF service_ok_catalog_ok [OF s] rng m]
  show ?thesis
  proof (cases "expect_instance s i :: service_error + unit")
    case (Inl e)
    with run s show ?thesis by (simp add: apply_catalog_mutation_def)
  next
    case (Inr u)
    show ?thesis
    proof (cases r)
      case (Inl e)
      with c(1) run m Inr s show ?thesis by (simp add: apply_catalog_mutation_def)
    next
      case (Inr x)
      let ?s = "s\<lparr>ss_catalog := c\<rparr>"
      let ?ks = "filter (\<lambda>k. \<not> contains_pane c k) (bt_keys (ss_terminal_panes s))"
      have links: "service_links ?s" using s by (simp add: service_ok_def)
      note f = forget_panes [OF links, of ?ks]
      have s': "s' = (fold forget_pane ?ks ?s)\<lparr>ss_dirty := True\<rparr>"
        using run m Inr \<open>expect_instance s i = Inr u\<close> by (simp add: apply_catalog_mutation_def)
      have "g = runtime_gen (fold forget_pane ?ks ?s) k" if "(k, g) \<in> pane_gens c" for k g
      proof -
        have k: "k \<notin> set ?ks" using that contains_pane_iff [OF c(2)] by auto
        have "runtime_gen (fold forget_pane ?ks ?s) k = runtime_gen ?s k" using f k by presburger
        moreover have "g = runtime_gen s k"
          using c(3) that s fresh_not_linked [OF s rng] by (fastforce simp: service_ok_def)
        ultimately show ?thesis by simp
      qed
      moreover have "k \<in> set (catalog_pane_ids c)"
        if "bt_get (ss_terminal_panes (fold forget_pane ?ks ?s)) k = Some t" for k t
      proof -
        have "k \<notin> set ?ks" "bt_get (ss_terminal_panes s) k = Some t" using that f by (auto split: if_splits)
        then have "contains_pane c k" by (auto simp: set_bt_keys)
        then show ?thesis by (simp add: contains_pane_iff [OF c(2)] catalog_pane_ids_iff [OF c(2)])
      qed
      ultimately have "service_ok (fold forget_pane ?ks ?s)" using f c(2) by (simp add: service_ok_def)
      then show ?thesis by (simp add: s')
    qed
  qed
qed

end

lemma gens_within_mono: "ends m (gens_within A) \<Longrightarrow> ends m (gens_within (A \<union> B))"
  by (auto simp: ends_def gens_within_def)

interpretation mut_rename_session: catalog_mutation rng "rename_session sid name e" for rng sid name e
  by unfold_locales (rule rename_session_keeps, assumption, rule gens_within_mono [OF rename_session_gens])

interpretation mut_activate_session: catalog_mutation rng "activate_session sid e" for rng sid e
  by unfold_locales (rule activate_session_keeps, assumption, rule gens_within_mono [OF activate_session_gens])

interpretation mut_duplicate_session: catalog_mutation rng "duplicate_session rng sid e" for rng sid e
  by unfold_locales (rule duplicate_session_keeps, assumption+, rule duplicate_session_gens)

interpretation mut_remove_session: catalog_mutation rng "remove_session sid e" for rng sid e
  by unfold_locales (rule remove_session_keeps, assumption, rule gens_within_mono [OF remove_session_gens])

interpretation mut_create_window: catalog_mutation rng "create_window rng sid name dir e" for rng sid name dir e
  by unfold_locales (rule create_window_keeps, assumption+, rule create_window_gens)

interpretation mut_rename_window: catalog_mutation rng "rename_window sid wid name e" for rng sid wid name e
  by unfold_locales (rule rename_window_keeps, assumption, rule gens_within_mono [OF rename_window_gens])

interpretation mut_activate_window: catalog_mutation rng "activate_window sid wid e" for rng sid wid e
  by unfold_locales (rule activate_window_keeps, assumption, rule gens_within_mono [OF activate_window_gens])

interpretation mut_duplicate_window: catalog_mutation rng "duplicate_window rng sid wid e" for rng sid wid e
  by unfold_locales (rule duplicate_window_keeps, assumption+, rule duplicate_window_gens)

interpretation mut_close_window: catalog_mutation rng "close_window sid wid e" for rng sid wid e
  by unfold_locales (rule close_window_keeps, assumption, rule gens_within_mono [OF close_window_gens])

interpretation mut_split_focused: catalog_mutation rng "split_focused rng sid axis e" for rng sid axis e
  by unfold_locales (rule split_focused_keeps, assumption+, rule split_focused_gens)

interpretation mut_focus_pane: catalog_mutation rng "focus_pane sid k e" for rng sid k e
  by unfold_locales (rule focus_pane_keeps, assumption, rule gens_within_mono [OF focus_pane_gens])

interpretation mut_set_split_ratio: catalog_mutation rng "set_focused_split_ratio sid ratio e" for rng sid ratio e
  by unfold_locales (rule set_focused_split_ratio_keeps, assumption, rule gens_within_mono [OF set_focused_split_ratio_gens])

interpretation mut_close_pane: catalog_mutation rng "close_pane sid k e" for rng sid k e
  by unfold_locales (rule close_pane_keeps, assumption, rule gens_within_mono [OF close_pane_gens])

section \<open>Creating, importing\<close>

lemma service_create_session_keeps:
  assumes "service_ok s" "fresh_supply (ss_catalog s) rng" "service_create_session rng i e name dir s = (r, s')"
  shows "service_ok s'"
proof -
  obtain r1 c where m: "create_session rng name dir e (ss_catalog s) = (r1, c)" by force
  have "catalog_ok c" "pane_gens c \<subseteq> pane_gens (ss_catalog s) \<union> new_gens rng"
    "set (catalog_pane_ids (ss_catalog s)) \<subseteq> set (catalog_pane_ids c)"
    using endsD [OF create_session_keeps [OF service_ok_catalog_ok [OF assms(1)] assms(2)] m]
      endsD [OF create_session_gens m] endsD [OF create_session_ids [OF assms(2)] m] service_ok_catalog_ok [OF assms(1)]
    by (cases r1; simp add: gens_within_def keeps_ids_def)+
  then have "service_ok (s\<lparr>ss_catalog := c\<rparr>)" by (rule service_ok_catalog [OF assms(1,2)])
  with assms(1,3) m show ?thesis
    by (auto simp: service_create_session_def attempt_def Let_def split: sum.splits)
qed

lemma no_sessions_no_panes:
  "bt_values (cat_sessions c) = [] \<Longrightarrow> catalog_pane_ids c = []"
  by (simp add: catalog_pane_ids_def)

lemma import_stopped_catalog_keeps:
  assumes s: "service_ok s" and run: "import_stopped_catalog i e catalog s = (r, s')"
  shows "service_ok s'"
proof (cases "s' = s")
  case False
  then obtain c where c: "stopped_clone catalog = Inr c" "bt_values (cat_sessions (ss_catalog s)) = []"
    "s' = s\<lparr>ss_catalog := c, ss_dirty := True\<rparr>"
    using run by (auto simp: import_stopped_catalog_def attempt_def map_err_ok split: sum.splits if_splits)
  then have none: "bt_get (ss_terminal_panes s) k = None" for k
    using s no_sessions_no_panes [OF c(2)] by (cases "bt_get (ss_terminal_panes s) k") (auto simp: service_ok_def)
  have "catalog_ok c" using c(1) by (auto simp: stopped_clone_ok catalog_ok_stop)
  then have "service_ok (s\<lparr>ss_catalog := c\<rparr>)"
    using s none stopped_clone_gens [OF c(1)] by (auto simp: service_ok_def runtime_gen_def)
  then show ?thesis by (simp add: c(3))
qed (use s in simp)

end
