(* ===== verification/SessionRuns.thy ===== *)
theory SessionRuns imports SessionInvariant begin

text \<open>
  Runs of the session daemon: starting and terminating panes, draining, snapshots and persistence
  keep the invariant of the service, so does every request, and so do the turns of the service loop.
\<close>

section \<open>Steps\<close>

text \<open>
  What a step of the service may do: it keeps the invariant, draws at most \<open>n\<close> terminal identifiers,
  and never finds the generations of the two halves diverged.
\<close>

definition safe_step ::
  "nat \<Rightarrow> ('h, 'p) session_service \<Rightarrow> (service_error + 'a) \<Rightarrow> ('h, 'p) session_service \<Rightarrow> bool" where
  "safe_step n s r s' \<longleftrightarrow>
     service_ok s' \<and> unat (ti_next_pane (ss_terminal_ids s')) \<le> unat (ti_next_pane (ss_terminal_ids s)) + n \<and>
     r \<noteq> Inl GenerationDiverged"

lemma safe_step_trans: "safe_step n s r s1 \<Longrightarrow> safe_step m s1 r' s2 \<Longrightarrow> safe_step (n + m) s r' s2"
  by (simp add: safe_step_def)

lemma safe_step_mono: "safe_step n s r s' \<Longrightarrow> n \<le> m \<Longrightarrow> safe_step m s r s'"
  by (simp add: safe_step_def)

lemma safe_step_result:
  "safe_step n s r s' \<Longrightarrow> (\<And>e. r' = Inl e \<Longrightarrow> r = Inl e) \<Longrightarrow> safe_step n s r' s'"
  by (auto simp: safe_step_def)

lemma safe_step_refl [simp]: "safe_step n s (Inr x) s = service_ok s"
  by (simp add: safe_step_def)

section \<open>Starting a pane\<close>

lemma begin_pane_generation_succeeds:
  assumes c: "catalog_ok c" and at: "catalog_pane c k = Some (sid, wid, p)" and "rows \<noteq> 0" "cols \<noteq> 0"
  shows "\<exists>c'. begin_pane_generation sid k rows cols (cat_revision c) c = (Inr (sat_inc (sp_generation p)), c')"
proof -
  have h: "holds_pane c sid wid k p" using at catalog_pane_holds [OF c] by blast
  then obtain s w where s: "bt_get (cat_sessions c) sid = Some s" and w: "w \<in> set (se_windows s)"
    "bt_get (sw_panes w) k = Some p" by (auto simp: holds_pane_iff)
  then obtain i where i: "position (\<lambda>w. bt_contains (sw_panes w) k) (se_windows s) = Some i"
    using position_exists [of w "se_windows s" "\<lambda>w. bt_contains (sw_panes w) k"] by (auto simp: bt_contains_def)
  have "bt_contains (sw_panes (se_windows s ! i)) k" using position_SomeD [OF i] by simp
  then obtain q where q: "bt_get (sw_panes (se_windows s ! i)) k = Some q" by (auto simp: bt_contains_def)
  have "q = p"
    using holds_pane_unique [OF c h holds_pane_at [OF s position_SomeD(1) [OF i] q]] by simp
  with assms(3,4) s i q show ?thesis
    by (simp add: begin_pane_generation_def expect_revision_def window_of_pane_def Let_def)
qed

lemma unat_next: "x \<noteq> - 1 \<Longrightarrow> unat (x + 1) = unat x + 1" for x :: u64
  by (metis Suc_eq_plus1 add.commute max_word_wrap unatSuc)

lemma ensure_runtime_pane_keeps:
  assumes s: "service_ok s" and k: "k \<in> set (catalog_pane_ids (ss_catalog s))"
    and left: "ti_next_pane (ss_terminal_ids s) \<noteq> - 1" and run: "ensure_runtime_pane k s = (t, s')"
  shows "service_ok s'" "ss_catalog s' = ss_catalog s" "ss_runtime s' = ss_runtime s"
    "bt_get (ss_terminal_panes s') k = Some t" "runtime_gen s' k = runtime_gen s k"
    "unat (ti_next_pane (ss_terminal_ids s')) \<le> unat (ti_next_pane (ss_terminal_ids s)) + 1"
proof -
  let ?n = "ti_next_pane (ss_terminal_ids s)"
  have "service_ok s' \<and> ss_catalog s' = ss_catalog s \<and> ss_runtime s' = ss_runtime s \<and>
    bt_get (ss_terminal_panes s') k = Some t \<and> runtime_gen s' k = runtime_gen s k \<and>
    unat (ti_next_pane (ss_terminal_ids s')) \<le> unat ?n + 1"
  proof (cases "bt_get (ss_terminal_panes s) k")
    case (Some t')
    with run s show ?thesis by (simp add: ensure_runtime_pane_def)
  next
    case None
    have n: "unat (?n + 1) = unat ?n + 1" "?n < ?n + 1"
      using unat_next [OF left] by (simp_all add: word_less_nat_alt)
    have less: "t < ?n + 1" if "bt_get (ss_terminal_panes s) j = Some t" for t j
    proof -
      have "t < ?n" using s that unfolding service_ok_def service_links_def by blast
      then show ?thesis using n(2) by (rule order.strict_trans)
    qed
    have fresh: "bt_get (ss_session_panes s) ?n = None" "runtime_generation (ss_runtime s) ?n = None"
      "\<And>j. bt_get (ss_terminal_panes s) j \<noteq> Some ?n"
      using s unfolding service_ok_def service_links_def by (metis less_irrefl not_None_eq)+
    have t: "t = ?n" and s': "s' = s\<lparr>ss_terminal_panes := bt_insert k ?n (ss_terminal_panes s),
        ss_session_panes := bt_insert ?n k (ss_session_panes s),
        ss_terminal_ids := (ss_terminal_ids s)\<lparr>ti_next_pane := ?n + 1\<rparr>\<rparr>"
      using run None by (auto simp: ensure_runtime_pane_def new_pane_id_def)
    have gen: "runtime_gen s' j = runtime_gen s j" for j
      using None fresh by (simp add: s' runtime_gen_def cong: option.case_cong)
    have "service_links s'"
      using s fresh None n(2) unfolding service_ok_def service_links_def s'
      by (auto split: if_splits dest: less)
    then have "service_ok s'" using s k gen by (auto simp: service_ok_def s' split: if_splits)
    with gen t n show ?thesis by (simp add: s')
  qed
  then show "service_ok s'" "ss_catalog s' = ss_catalog s" "ss_runtime s' = ss_runtime s"
    "bt_get (ss_terminal_panes s') k = Some t" "runtime_gen s' k = runtime_gen s k"
    "unat (ti_next_pane (ss_terminal_ids s')) \<le> unat ?n + 1" by blast+
qed

lemma begin_restart_result:
  assumes "begin_restart os t request rt = (r, rt')"
  shows "isl r \<Longrightarrow> rt' = rt"
    "r = Inr job \<Longrightarrow> rsj_generation job = next_generation t rt \<and> rsj_pane job = t \<and>
      tz_rows (sr_size request) \<noteq> 0 \<and> tz_columns (sr_size request) \<noteq> 0 \<and>
      (\<forall>j. runtime_generation rt' j = (if j = t then Some (next_generation t rt) else runtime_generation rt j))"
proof -
  show "isl r \<Longrightarrow> rt' = rt"
    using assms by (auto simp: begin_restart_def attempt_def Let_def split: sum.splits)
  assume "r = Inr job"
  then obtain sz where sz: "runtime_grid_size (sr_size request) = Inr sz"
    using assms by (auto simp: begin_restart_def outcome)
  then have "unat (tz_rows (sr_size request)) \<noteq> 0 \<and> unat (tz_columns (sr_size request)) \<noteq> 0"
    by (auto simp: runtime_grid_size_def grid_size_new_def outcome split: if_splits)
  then have "tz_rows (sr_size request) \<noteq> 0 \<and> tz_columns (sr_size request) \<noteq> 0" by auto
  with assms sz \<open>r = Inr job\<close>
  show "rsj_generation job = next_generation t rt \<and> rsj_pane job = t \<and>
      tz_rows (sr_size request) \<noteq> 0 \<and> tz_columns (sr_size request) \<noteq> 0 \<and>
      (\<forall>j. runtime_generation rt' j = (if j = t then Some (next_generation t rt) else runtime_generation rt j))"
    by (auto simp: begin_restart_def Let_def runtime_generation_put pane_runtime_new_def)
qed

lemma next_generation_gen:
  "bt_get (ss_terminal_panes s) k = Some t \<Longrightarrow> next_generation t (ss_runtime s) = sat_inc (runtime_gen s k)"
  by (auto simp: next_generation_def runtime_gen_def runtime_generation_def sat_inc_def split: option.splits)

lemma begin_start_keeps:
  assumes s: "service_ok s" and left: "ti_next_pane (ss_terminal_ids s) \<noteq> - 1"
    and run: "begin_start os i e sid k request s = (r, s')"
  shows "safe_step 1 s r s'"
proof -
  let ?c = "ss_catalog s"
  have c: "catalog_ok ?c" by (rule service_ok_catalog_ok [OF s])
  have "service_ok s' \<and> r \<noteq> Inl GenerationDiverged \<and>
    unat (ti_next_pane (ss_terminal_ids s')) \<le> unat (ti_next_pane (ss_terminal_ids s)) + 1"
  proof (cases "i = ss_service_instance s \<and> e = cat_revision ?c \<and> (\<exists>wid p. catalog_pane ?c k = Some (sid, wid, p) \<and>
      path_components (sp_working_directory p) = path_components (sr_working_directory request))")
    case False
    then have "s' = s \<and> r \<noteq> Inl GenerationDiverged"
      using run by (auto simp: begin_start_def attempt_def expect_instance_def ensure_def ok_or_def expect_revision_def
          split: if_splits option.splits)
    with s show ?thesis by simp
  next
    case True
    then obtain wid p where at: "catalog_pane ?c k = Some (sid, wid, p)"
      and ok: "i = ss_service_instance s" "e = cat_revision ?c"
        "path_components (sp_working_directory p) = path_components (sr_working_directory request)" by blast
    obtain t s1 where en: "ensure_runtime_pane k s = (t, s1)" by force
    have gk: "(k, sp_generation p) \<in> pane_gens ?c" using at pane_gens_iff [OF c] by blast
    then have "k \<in> set (catalog_pane_ids ?c)" using catalog_pane_ids_iff [OF c] by blast
    note e1 = ensure_runtime_pane_keeps [OF s this left en]
    let ?s1 = "s1\<lparr>ss_historical := bt_remove k (ss_historical s1)\<rparr>"
    obtain r2 rt where br: "begin_restart os t request (ss_runtime s) = (r2, rt)" by force
    show ?thesis
    proof (cases r2)
      case (Inl err)
      then have "rt = ss_runtime s" using begin_restart_result(1) [OF br] by simp
      then have "s' = ?s1\<lparr>ss_runtime := ss_runtime s\<rparr> \<and> r = Inl (ServiceRuntime err)"
        using run ok at en br Inl e1(3) by (auto simp: begin_start_def expect_instance_def expect_revision_def Let_def)
      with e1 service_ok_runtime [of "ss_runtime s" ?s1] show ?thesis by simp
    next
      case (Inr job)
      note b = begin_restart_result(2) [OF br Inr]
      obtain c' where bg: "begin_pane_generation sid k (tz_rows (sr_size request)) (tz_columns (sr_size request))
          (cat_revision ?c) ?c = (Inr (sat_inc (sp_generation p)), c')"
        using begin_pane_generation_succeeds [OF c at, of "tz_rows (sr_size request)" "tz_columns (sr_size request)"] b by blast
      let ?g = "sat_inc (sp_generation p)"
      have g: "rsj_generation job = ?g"
      proof -
        have "sp_generation p = runtime_gen s1 k" using s gk e1(5) by (auto simp: service_ok_def)
        with b next_generation_gen [OF e1(4)] e1(3) show ?thesis by simp
      qed
      let ?s2 = "s1\<lparr>ss_catalog := c', ss_runtime := rt\<rparr>"
      have s': "s' = ?s1\<lparr>ss_runtime := rt, ss_catalog := c', ss_dirty := True\<rparr>" "\<not> isl r"
        using run ok at en br Inr bg e1(2,3) g
        by (auto simp: begin_start_def expect_instance_def expect_revision_def Let_def)
      have c': "catalog_ok c'"
        using endsD [OF begin_pane_generation_keeps [OF c] bg] by simp
      have ids: "set (catalog_pane_ids ?c) \<subseteq> set (catalog_pane_ids c')"
        using endsD [OF begin_pane_generation_ids bg] by (simp add: keeps_ids_def)
      have kg: "(k, ?g) \<in> pane_gens c'"
      proof -
        obtain s3 j q where "bt_get (cat_sessions c') sid = Some s3" "j < length (se_windows s3)"
          "bt_get (sw_panes (se_windows s3 ! j)) k = Some q" "sp_generation q = ?g"
          using begin_pane_generation_ok [OF bg] by metis
        then show ?thesis
          using holds_pane_at catalog_pane_holds [OF c'] pane_gens_iff [OF c'] by metis
      qed
      have gen: "runtime_gen ?s2 j = (if j = k then ?g else runtime_gen s1 j)" for j
      proof -
        have "t' \<noteq> t" if "bt_get (ss_terminal_panes s1) j = Some t'" "j \<noteq> k" for t'
          using links_inj [of s1 k t j] e1(1,4) that by (auto simp: service_ok_def)
        then show ?thesis
          using b g e1(3,4) by (auto simp: runtime_gen_def split: option.split)
      qed
      have "service_links ?s2"
        using e1(1,3,4) b unfolding service_ok_def service_links_def by (auto split: if_splits)
      moreover have "h = runtime_gen ?s2 j" if "(j, h) \<in> pane_gens c'" for j h
      proof (cases "j = k")
        case True
        with that kg pane_gens_unique [OF c'] gen show ?thesis by auto
      next
        case False
        with that begin_pane_generation_gens(1) [OF c bg] have "(j, h) \<in> pane_gens ?c" by auto
        with e1(1,2) gen False show ?thesis by (auto simp: service_ok_def)
      qed
      ultimately have "service_ok ?s2" using c' ids e1(1,2) by (auto simp: service_ok_def)
      moreover have "service_ok s' = service_ok ?s2" unfolding s'(1) by (rule service_ok_same) simp_all
      ultimately show ?thesis using s' e1(6) by auto
    qed
  qed
  then show ?thesis by (simp add: safe_step_def)
qed

section \<open>Completions\<close>

lemma set_generation_lifecycle_service:
  assumes "service_ok s" "set_generation_lifecycle sid k g l (ss_catalog s) = (r, c)"
  shows "service_ok (s\<lparr>ss_catalog := c\<rparr>)"
proof -
  have "catalog_ok c" using completion_ok [OF service_ok_catalog_ok [OF assms(1)], of sid k g l] assms(2) by simp
  then show ?thesis
    using endsD [OF set_generation_lifecycle_gens assms(2)] endsD [OF set_generation_lifecycle_ids assms(2)]
    by (intro service_ok_catalog_same [OF assms(1)]) (simp_all add: gens_within_def keeps_ids_def)
qed

lemma record_completion_keeps:
  assumes "service_ok s" "record_completion sid k g t res s = (r, s')"
  shows "safe_step 0 s r s'"
proof -
  have "service_ok s' \<and> ss_terminal_ids s' = ss_terminal_ids s \<and> r \<noteq> Inl GenerationDiverged"
  proof (cases "runtime_state (ss_runtime s) t")
    case None
    with assms show ?thesis by (auto simp: record_completion_def)
  next
    case (Some st)
    obtain r1 c where c: "set_generation_lifecycle sid k g (runtime_lifecycle st) (ss_catalog s) = (r1, c)" by force
    from set_generation_lifecycle_service [OF assms(1) c] assms(2) Some c show ?thesis
      by (cases r1; cases res) (auto simp: record_completion_def Let_def)
  qed
  then show ?thesis by (simp add: safe_step_def)
qed

lemma finish_start_keeps:
  assumes "service_ok s" "finish_start completion s = (r, s')"
  shows "safe_step 0 s r s'"
proof -
  obtain r1 rt where f: "finish_restart (ssc_runtime_pane completion) (ssc_generation completion) (ssc_result completion)
      (ss_runtime s) = (r1, rt)" by force
  have ok: "service_ok (s\<lparr>ss_runtime := rt\<rparr>)"
    using assms(1) service_ok_runtime [OF finish_restart_gens [OF f]] by simp
  show ?thesis
    using assms f record_completion_keeps [OF ok]
    by (fastforce simp: finish_start_def attempt_def expect_instance_def ensure_def safe_step_def split: if_splits)
qed

lemma service_begin_terminate_keeps:
  assumes "service_ok s" "service_begin_terminate i e sid k g grace s = (r, s')"
  shows "safe_step 0 s r s'"
proof -
  have "service_ok s' \<and> ss_terminal_ids s' = ss_terminal_ids s \<and> r \<noteq> Inl GenerationDiverged"
  proof (cases "bt_get (ss_terminal_panes s) k")
    case None
    with assms show ?thesis
      by (auto simp: service_begin_terminate_def attempt_def expect_instance_def ensure_def expect_revision_def
          runtime_pane_def split: if_splits sum.splits)
  next
    case (Some t)
    obtain r1 rt where b: "begin_terminate t grace (ss_runtime s) = (r1, rt)" by force
    have "service_ok (s\<lparr>ss_runtime := rt\<rparr>)" using assms(1) service_ok_runtime [OF begin_terminate_gens [OF b]] by simp
    with assms Some b show ?thesis
      by (cases r1) (auto simp: service_begin_terminate_def attempt_def expect_instance_def ensure_def
          expect_revision_def runtime_pane_def Let_def split: if_splits)
  qed
  then show ?thesis by (simp add: safe_step_def)
qed

lemma service_finish_terminate_keeps:
  assumes "service_ok s" "service_finish_terminate completion s = (r, s')"
  shows "safe_step 0 s r s'"
proof -
  obtain r1 rt where f: "finish_terminate (stc_runtime_completion completion) (ss_runtime s) = (r1, rt)" by force
  have ok: "service_ok (s\<lparr>ss_runtime := rt\<rparr>)"
    using assms(1) service_ok_runtime [OF finish_terminate_gens [OF f]] by simp
  show ?thesis
    using assms f record_completion_keeps [OF ok]
    by (fastforce simp: service_finish_terminate_def attempt_def expect_instance_def ensure_def safe_step_def
        split: if_splits)
qed

section \<open>Input, size, output, snapshots, persistence\<close>

lemma service_write_keeps:
  assumes "service_ok s" "service_write os i k g bytes s w = (r, s', w')"
  shows "safe_step 0 s r s'"
proof -
  have "service_ok (s\<lparr>ss_runtime := rt\<rparr>)" if "runtime_write os t bytes (ss_runtime s) w = (r1, rt, w1)" for t r1 rt w1
    using assms(1) service_ok_runtime [OF runtime_write_gens [OF that]] by simp
  with assms show ?thesis
    by (auto simp: service_write_def safe_step_def map_err_def and_then_def ok_or_def expect_instance_def ensure_def
        runtime_pane_def split: sum.splits prod.splits option.splits if_splits)
qed

lemma set_pane_size_service:
  assumes "service_ok s" "set_pane_size sid k rows cols e (ss_catalog s) = (r, c)"
  shows "service_ok (s\<lparr>ss_catalog := c\<rparr>)"
proof -
  have "catalog_ok c"
    using endsD [OF set_pane_size_keeps [OF service_ok_catalog_ok [OF assms(1)]] assms(2)]
      service_ok_catalog_ok [OF assms(1)] by (cases r) simp_all
  then show ?thesis
    using endsD [OF set_pane_size_gens assms(2)] endsD [OF set_pane_size_ids assms(2)]
    by (intro service_ok_catalog_same [OF assms(1)]) (simp_all add: gens_within_def keeps_ids_def)
qed

lemma service_resize_keeps:
  assumes s: "service_ok s" and run: "service_resize os i e k g sz s w = Some (r, s', w')"
  shows "safe_step 0 s r s'"
proof -
  define chk where "chk = and_then (expect_instance s i) (\<lambda>_.
           and_then (map_err ServiceCatalog (expect_revision (ss_catalog s) e)) (\<lambda>_.
           and_then (ok_or (catalog_pane (ss_catalog s) k) (ServiceCatalog catalog_error.PaneNotFound))
             (\<lambda>(sid, _, _).
           if \<not> matches_generation s sid k g then Inl StaleGeneration
           else and_then (runtime_pane s k) (\<lambda>terminal. Inr (sid, terminal)))))"
  show ?thesis
  proof (cases chk)
    case (Inl err)
    then have "err \<noteq> GenerationDiverged"
      by (auto simp: chk_def and_then_def map_err_def ok_or_def expect_instance_def ensure_def runtime_pane_def
          split: sum.splits option.splits if_splits)
    with Inl run s show ?thesis by (auto simp: service_resize_def safe_step_def simp flip: chk_def)
  next
    case (Inr x)
    obtain sid t where x: "x = (sid, t)" by force
    obtain r1 rt w1 where rr: "runtime_resize os t sz (ss_runtime s) w = Some (r1, rt, w1)"
      using run Inr x by (auto simp: service_resize_def simp flip: chk_def)
    have ok: "service_ok (s\<lparr>ss_runtime := rt\<rparr>)"
      using s service_ok_runtime [OF runtime_resize_gens [OF rr]] by simp
    obtain r2 c where sp: "set_pane_size sid k (tz_rows sz) (tz_columns sz) e (ss_catalog s) = (r2, c)" by force
    have "service_ok (s\<lparr>ss_runtime := rt, ss_catalog := c\<rparr>)"
      using set_pane_size_service [OF ok, of sid k _ _ e] sp by simp
    with ok run Inr x rr sp show ?thesis
      by (cases r1; cases r2) (auto simp: service_resize_def safe_step_def Let_def simp flip: chk_def)
  qed
qed

lemma note_output_keeps [simp]:
  "service_ok (note_output sid k n s) = service_ok s" "ss_terminal_ids (note_output sid k n s) = ss_terminal_ids s"
  by (simp_all add: note_output_def Let_def)

lemma follow_state_keeps:
  "service_ok s \<Longrightarrow> service_ok (follow_state sid k p g l s) \<and>
    ss_terminal_ids (follow_state sid k p g l s) = ss_terminal_ids s"
  using set_generation_lifecycle_service [of "s\<lparr>ss_attention := bt_insert k Attention (ss_attention s)\<rparr>" sid k g l]
    set_generation_lifecycle_service [of s sid k g l]
  by (auto simp: follow_state_def Let_def) (metis prod.collapse)+

lemma tick_panes_keeps:
  "tick_panes os ts ch s w = (ch', s', w') \<Longrightarrow> service_ok s \<Longrightarrow>
    service_ok s' \<and> ss_terminal_ids s' = ss_terminal_ids s"
proof (induction ts arbitrary: ch s w)
  case Nil
  then show ?case by simp
next
  case (Cons t ts)
  obtain ch1 s1 w1 where "tick_panes os ts ch1 s1 w1 = (ch', s', w')" "service_ok s1"
    "ss_terminal_ids s1 = ss_terminal_ids s"
    using Cons.prems
    by (auto split: option.splits prod.splits if_splits)
      (metis follow_state_keeps note_output_keeps)+
  with Cons.IH show ?case by simp
qed

lemma tick_keeps:
  assumes "service_ok s" "tick os s w = Some (ch, s', w')"
  shows "service_ok s'" "ss_terminal_ids s' = ss_terminal_ids s"
proof -
  obtain batch rt w1 where d: "drain os drain_budget_default (ss_runtime s) w = Some (batch, rt, w1)"
    using assms(2) by (auto simp: tick_def)
  have ok: "service_ok (s\<lparr>ss_runtime := rt\<rparr>)" using assms(1) service_ok_runtime [OF drain_gens [OF d]] by simp
  obtain ch1 s1 w2 where t: "tick_panes os (sorted_list_of_set (rb_changed batch)) {} (s\<lparr>ss_runtime := rt\<rparr>) w1 = (ch1, s1, w2)"
    by (metis prod_cases3)
  have "(if ch1 \<noteq> {} then s1\<lparr>ss_dirty := True\<rparr> else s1) = s'"
    using assms(2) d t by (cases "ch1 = {}") (auto simp: tick_def)
  with tick_panes_keeps [OF t ok] show "service_ok s'" "ss_terminal_ids s' = ss_terminal_ids s"
    by (auto split: if_splits)
qed

lemma service_snapshot_keeps:
  assumes "service_ok s" "service_snapshot os k s w = (r, s', w')"
  shows "safe_step 0 s r s'"
  using assms
  by (auto simp: service_snapshot_def safe_step_def Let_def split: option.splits prod.splits sum.splits if_splits)

lemma take_persistence_keeps:
  assumes "service_ok s" "take_persistence os s w = (r, s', w')"
  shows "service_ok s'" "ss_terminal_ids s' = ss_terminal_ids s"
  using assms by (auto simp: take_persistence_def split: if_splits sum.splits prod.splits)

end
