(* ===== verification/SessionServing.thy ===== *)
theory SessionServing imports SessionRuns begin

text \<open>
  The daemon at work: every request and every turn of the service loop keeps the invariant of the
  service, one client controls it at a time, and a start never finds the generations of the catalog
  and of the runtime diverged.
\<close>

section \<open>The attached client\<close>

text \<open>No operation but attaching and detaching touches the count of attached clients.\<close>

named_theorems attached "operations that keep the attached client"

lemma forget_pane_attached [attached]: "ss_attached_clients (fold forget_pane ks s) = ss_attached_clients s"
  by (induction ks arbitrary: s) (simp_all add: forget_pane_def Let_def split: option.split)

lemma mutation_attached [attached]:
  "apply_catalog_mutation i m s = (r, s') \<Longrightarrow> ss_attached_clients s' = ss_attached_clients s"
  by (auto simp: apply_catalog_mutation_def attempt_def Let_def attached split: sum.splits prod.splits)

lemma create_attached [attached]:
  "service_create_session rng i e name dir s = (r, s') \<Longrightarrow> ss_attached_clients s' = ss_attached_clients s"
  by (auto simp: service_create_session_def attempt_def Let_def split: sum.splits prod.splits)

lemma import_attached [attached]:
  "import_stopped_catalog i e c s = (r, s') \<Longrightarrow> ss_attached_clients s' = ss_attached_clients s"
  by (auto simp: import_stopped_catalog_def attempt_def Let_def split: sum.splits prod.splits if_splits)

lemma ensure_attached: "ensure_runtime_pane k s = (t, s') \<Longrightarrow> ss_attached_clients s' = ss_attached_clients s"
  by (auto simp: ensure_runtime_pane_def new_pane_id_def split: option.splits)

lemma begin_start_attached [attached]:
  "begin_start os i e sid k request s = (r, s') \<Longrightarrow> ss_attached_clients s' = ss_attached_clients s"
  by (auto simp: begin_start_def attempt_def Let_def dest!: ensure_attached split: sum.splits prod.splits if_splits)

lemma record_attached: "record_completion sid k g t res s = (r, s') \<Longrightarrow> ss_attached_clients s' = ss_attached_clients s"
  by (auto simp: record_completion_def attempt_def Let_def split: sum.splits prod.splits)

lemma finish_start_attached [attached]: "finish_start c s = (r, s') \<Longrightarrow> ss_attached_clients s' = ss_attached_clients s"
  by (auto simp: finish_start_def attempt_def dest!: record_attached split: sum.splits prod.splits if_splits)

lemma begin_terminate_attached [attached]:
  "service_begin_terminate i e sid k g grace s = (r, s') \<Longrightarrow> ss_attached_clients s' = ss_attached_clients s"
  by (auto simp: service_begin_terminate_def attempt_def Let_def split: sum.splits prod.splits if_splits)

lemma finish_terminate_attached [attached]:
  "service_finish_terminate c s = (r, s') \<Longrightarrow> ss_attached_clients s' = ss_attached_clients s"
  by (auto simp: service_finish_terminate_def attempt_def dest!: record_attached split: sum.splits prod.splits if_splits)

lemma write_attached [attached]:
  "service_write os i k g bytes s w = (r, s', w') \<Longrightarrow> ss_attached_clients s' = ss_attached_clients s"
  by (auto simp: service_write_def split: sum.splits prod.splits)

lemma resize_attached [attached]:
  assumes "service_resize os i e k g sz s w = Some (r, s', w')"
  shows "ss_attached_clients s' = ss_attached_clients s"
proof (cases "s' = s")
  case False
  then obtain sid t r1 rt w1 where rr: "runtime_resize os t sz (ss_runtime s) w = Some (r1, rt, w1)"
    and s': "(let s = s\<lparr>ss_runtime := rt\<rparr> in
            (case r1 of
               Inl e \<Rightarrow> (Inl (ServiceRuntime e), s, w1)
             | Inr _ \<Rightarrow>
                 (case set_pane_size sid k (tz_rows sz) (tz_columns sz) e (ss_catalog s) of
                    (Inl e, c) \<Rightarrow> (Inl (ServiceCatalog e), s\<lparr>ss_catalog := c\<rparr>, w1)
                  | (Inr _, c) \<Rightarrow> (Inr (), s\<lparr>ss_catalog := c, ss_dirty := True\<rparr>, w1)))) = (r, s', w')"
    using assms unfolding service_resize_def by (auto split: sum.split_asm)
  obtain r2 c where "set_pane_size sid k (tz_rows sz) (tz_columns sz) e (ss_catalog s) = (r2, c)" by force
  with s' show ?thesis by (cases r1; cases r2) auto
qed simp

lemma snapshot_attached [attached]:
  "service_snapshot os k s w = (r, s', w') \<Longrightarrow> ss_attached_clients s' = ss_attached_clients s"
  by (auto simp: service_snapshot_def Let_def split: option.splits sum.splits prod.splits if_splits)

lemma persistence_attached [attached]:
  "take_persistence os s w = (r, s', w') \<Longrightarrow> ss_attached_clients s' = ss_attached_clients s"
  by (auto simp: take_persistence_def split: sum.splits prod.splits if_splits)

lemma note_output_attached [simp]: "ss_attached_clients (note_output sid k n s) = ss_attached_clients s"
  by (simp add: note_output_def Let_def)

lemma follow_state_attached [simp]: "ss_attached_clients (follow_state sid k p g l s) = ss_attached_clients s"
  by (simp add: follow_state_def Let_def)

lemma tick_panes_attached:
  "tick_panes os ts ch s w = (ch', s', w') \<Longrightarrow> ss_attached_clients s' = ss_attached_clients s"
  by (induction ts arbitrary: ch s w) (fastforce split: option.splits prod.splits if_splits)+

lemma tick_attached [attached]:
  assumes "tick os s w = Some (ch, s', w')"
  shows "ss_attached_clients s' = ss_attached_clients s"
proof -
  obtain batch rt w1 where d: "drain os drain_budget_default (ss_runtime s) w = Some (batch, rt, w1)"
    using assms by (auto simp: tick_def)
  obtain ch1 s1 w2 where t: "tick_panes os (sorted_list_of_set (rb_changed batch)) {} (s\<lparr>ss_runtime := rt\<rparr>) w1 = (ch1, s1, w2)"
    by (metis prod_cases3)
  have "(if ch1 \<noteq> {} then s1\<lparr>ss_dirty := True\<rparr> else s1) = s'"
    using assms d t by (cases "ch1 = {}") (auto simp: tick_def)
  with tick_panes_attached [OF t] show ?thesis by (auto split: if_splits)
qed

section \<open>Steps of the daemon\<close>

text \<open>A step of the service that leaves the attached client alone.\<close>

definition served ::
  "nat \<Rightarrow> ('h, 'p) session_service \<Rightarrow> (service_error + 'a) \<Rightarrow> ('h, 'p) session_service \<Rightarrow> bool" where
  "served n s r s' \<longleftrightarrow> safe_step n s r s' \<and> ss_attached_clients s' = ss_attached_clients s"

definition ids_left :: "nat \<Rightarrow> ('h, 'p) session_service \<Rightarrow> bool" where
  "ids_left n s \<longleftrightarrow> unat (ti_next_pane (ss_terminal_ids s)) + n < 2 ^ 64"

lemma ids_left_next: "ids_left n s \<Longrightarrow> 0 < n \<Longrightarrow> ti_next_pane (ss_terminal_ids s) \<noteq> - 1"
  by (auto simp: ids_left_def)

lemma served_ids: "served n s r s' \<Longrightarrow> ids_left (n + m) s \<Longrightarrow> ids_left m s'"
  by (simp add: served_def safe_step_def ids_left_def)

lemma served_ok: "served n s r s' \<Longrightarrow> service_ok s'"
  by (simp add: served_def safe_step_def)

lemma served_trans: "served n s r s1 \<Longrightarrow> served m s1 r' s2 \<Longrightarrow> served (n + m) s r' s2"
  unfolding served_def using safe_step_trans by fastforce

lemma served_mono: "served n s r s' \<Longrightarrow> n \<le> m \<Longrightarrow> served m s r s'"
  unfolding served_def using safe_step_mono by blast

lemma served_result: "served n s r s' \<Longrightarrow> (\<And>e. r' = Inl e \<Longrightarrow> r = Inl e) \<Longrightarrow> served n s r' s'"
  unfolding served_def using safe_step_result by blast

lemma served_refl [simp]: "served n s (Inr x) s = service_ok s"
  by (simp add: served_def safe_step_def)

lemma served_err: "service_ok s \<Longrightarrow> e \<noteq> GenerationDiverged \<Longrightarrow> served n s (Inl e) s"
  by (simp add: served_def safe_step_def)

lemma terminate_pane_served:
  assumes "service_ok s" "terminate_pane os e sid k g s w = (r, s', w')"
  shows "served 0 s r s'"
proof -
  obtain r1 s1 where 1: "service_begin_terminate (ss_service_instance s) e sid k g TERMINATION_GRACE s = (r1, s1)" by force
  have s1: "served 0 s r1 s1"
    using service_begin_terminate_keeps [OF assms(1) 1] begin_terminate_attached [OF 1] by (simp add: served_def)
  show ?thesis
  proof (cases r1)
    case (Inl err)
    with assms(2) 1 s1 show ?thesis by (auto simp: terminate_pane_def intro: served_result)
  next
    case (Inr job)
    obtain c w1 where c: "terminate_job_run os job w = (c, w1)" by force
    obtain r2 s2 where 2: "service_finish_terminate c s1 = (r2, s2)" by force
    have "served 0 s1 r2 s2"
      using service_finish_terminate_keeps [OF served_ok [OF s1] 2] finish_terminate_attached [OF 2]
      by (simp add: served_def)
    with served_trans [OF s1] assms(2) 1 2 c Inr show ?thesis by (auto simp: terminate_pane_def)
  qed
qed

lemma finish_pane_start_served:
  assumes "service_ok s" "ids_left 1 s" "finish_pane_start os e sid k spawn s w = (r, s', w')"
  shows "served 1 s r s'"
proof -
  obtain r1 s1 where 1: "begin_start os (ss_service_instance s) e sid k spawn s = (r1, s1)" by force
  have s1: "served 1 s r1 s1"
    using begin_start_keeps [OF assms(1) ids_left_next [OF assms(2)] 1] begin_start_attached [OF 1] by (simp add: served_def)
  show ?thesis
  proof (cases r1)
    case (Inl err)
    with assms(3) 1 s1 show ?thesis by (auto simp: finish_pane_start_def intro: served_result)
  next
    case (Inr job)
    obtain c w1 where c: "start_job_run os job w = (c, w1)" by force
    obtain r2 s2 where 2: "finish_start c s1 = (r2, s2)" by force
    have "served 0 s1 r2 s2"
      using finish_start_keeps [OF served_ok [OF s1] 2] finish_start_attached [OF 2] by (simp add: served_def)
    with served_trans [OF s1 this] have "served 1 s r2 s2" by simp
    with assms(3) 1 2 c Inr show ?thesis
      by (auto simp: finish_pane_start_def elim!: served_result split: sum.splits)
  qed
qed

lemma start_default_pane_served:
  assumes "service_ok s" "ids_left 1 s" "start_default_pane d e sid k rows cols s w = (r, s', w')"
  shows "served 1 s r s'"
proof -
  define chk where "chk = and_then (pane_working_directory s k) (\<lambda>directory.
     and_then (map_err TransportRequest (terminal_size_new rows cols)) (\<lambda>sz.
     map_err TransportRequest (default_shell_request (do_default_shell d) directory sz)))"
  show ?thesis
  proof (cases chk)
    case (Inl err)
    then have "err \<noteq> GenerationDiverged"
      by (auto simp: chk_def and_then_def map_err_def pane_working_directory_def split: sum.splits)
    with Inl assms(1,3) show ?thesis by (auto simp: start_default_pane_def served_err simp flip: chk_def)
  next
    case (Inr spawn)
    with assms show ?thesis
      by (auto simp: start_default_pane_def simp flip: chk_def simp del: One_nat_def intro: finish_pane_start_served)
  qed
qed

lemma start_fixture_pane_served:
  assumes "service_ok s" "ids_left 1 s" "start_fixture_pane d e sid k mode sz s w = (r, s', w')"
  shows "served 1 s r s'"
  using assms
  by (auto simp: start_fixture_pane_def pane_working_directory_def and_then_def map_err_def ok_or_def Let_def
      simp del: One_nat_def intro: served_err finish_pane_start_served split: sum.splits option.splits)

lemma terminate_panes_served:
  "service_ok s \<Longrightarrow> terminate_panes os sid panes counts s w = (counts', s', w') \<Longrightarrow> served 0 s (Inr x) s'"
proof (induction panes arbitrary: counts s w)
  case Nil
  then show ?case by simp
next
  case (Cons q panes)
  obtain k g l where q: "q = (k, g, l)" by (metis prod_cases3)
  obtain a b where n: "counts = (a, b)" by force
  show ?case
  proof (cases "is_live l")
    case False
    with Cons q n show ?thesis by auto
  next
    case True
    obtain r s1 w1 where t: "terminate_pane os (cat_revision (ss_catalog s)) sid k g s w = (r, s1, w1)" by (metis prod_cases3)
    note s1 = terminate_pane_served [OF Cons.prems(1) t]
    obtain counts1 where "terminate_panes os sid panes counts1 s1 w1 = (counts', s', w')"
      using Cons.prems(2) q n True t by auto
    from Cons.IH [OF served_ok [OF s1] this] served_trans [OF s1] show ?thesis by fastforce
  qed
qed

lemma restart_pane_of_session_served:
  assumes "service_ok s" "ids_left 1 s" "restart_pane_of_session d sid rows cols k g l s w = (b, s', w')"
  shows "served 1 s (Inr x) s'"
proof -
  obtain r1 s1 w1 where 1: "(if is_live l then terminate_pane (do_os d) (cat_revision (ss_catalog s)) sid k g s w
      else (Inr (), s, w)) = (r1, s1, w1)" by (metis prod_cases3)
  have s1: "served 0 s r1 s1" using 1 assms(1) by (auto split: if_splits intro: terminate_pane_served)
  show ?thesis
  proof (cases r1)
    case (Inl err)
    with assms(3) 1 have "s' = s1" by (simp add: restart_pane_of_session_def)
    with served_mono [OF s1, of 1] show ?thesis by (auto intro: served_result)
  next
    case (Inr u)
    obtain r2 s2 w2 where 2: "start_default_pane d (cat_revision (ss_catalog s1)) sid k rows cols s1 w1 = (r2, s2, w2)"
      by (metis prod_cases3)
    have "served 1 s1 r2 s2"
      using start_default_pane_served [OF served_ok [OF s1] served_ids [OF s1, of 1] 2] assms(2) by simp
    moreover have "s' = s2" using assms(3) 1 2 Inr by (simp add: restart_pane_of_session_def)
    ultimately show ?thesis using served_trans [OF s1] by (fastforce intro: served_result)
  qed
qed

lemma restart_panes_served:
  "service_ok s \<Longrightarrow> ids_left (length panes) s \<Longrightarrow>
    restart_panes d sid rows cols panes counts s w = (counts', s', w') \<Longrightarrow> served (length panes) s (Inr x) s'"
proof (induction panes arbitrary: counts s w)
  case Nil
  then show ?case by simp
next
  case (Cons q panes)
  obtain k g l where q: "q = (k, g, l)" by (metis prod_cases3)
  obtain a b where n: "counts = (a, b)" by force
  obtain f s1 w1 where r: "restart_pane_of_session d sid rows cols k g l s w = (f, s1, w1)" by (metis prod_cases3)
  have s1: "served 1 s (Inr x) s1"
    using Cons.prems(2) by (intro restart_pane_of_session_served [OF Cons.prems(1) _ r]) (simp add: ids_left_def)
  obtain counts1 where "restart_panes d sid rows cols panes counts1 s1 w1 = (counts', s', w')"
    using Cons.prems(3) q n r by auto
  from Cons.IH [OF served_ok [OF s1] served_ids [OF s1] this] Cons.prems(2) served_trans [OF s1] show ?case
    by fastforce
qed

lemma panes_of_session_length:
  assumes "service_ok s" "panes_of_session s e sid = Inr panes"
  shows "length panes \<le> MAX_TOTAL_PANES"
proof -
  obtain t where t: "bt_get (cat_sessions (ss_catalog s)) sid = Some t"
    and p: "panes = map (\<lambda>p. (sp_id p, sp_generation p, sp_lifecycle p)) (concat (map (\<lambda>w. bt_values (sw_panes w)) (se_windows t)))"
    using assms(2) by (auto simp: panes_of_session_def outcome)
  have "length panes = sum_list (map (\<lambda>w. bt_len (sw_panes w)) (se_windows t))"
    by (simp add: p length_concat comp_def bt_len_values)
  also have "\<dots> \<le> total_panes (ss_catalog s)"
  proof -
    obtain as bs where "bt_values (cat_sessions (ss_catalog s)) = as @ t # bs"
      using split_list [OF bt_get_in_values [OF t]] by blast
    then show ?thesis by (simp add: total_panes_def)
  qed
  also have "\<dots> \<le> MAX_TOTAL_PANES" by (rule total_panes_max [OF service_ok_catalog_ok [OF assms(1)]])
  finally show ?thesis .
qed

lemma panes_of_session_err: "panes_of_session s e sid = Inl err \<Longrightarrow> err \<noteq> GenerationDiverged"
  by (auto simp: panes_of_session_def outcome)

lemma terminate_session_served:
  assumes "service_ok s" "terminate_session os e sid s w = (r, s', w')"
  shows "served 0 s r s'"
proof (cases "panes_of_session s e sid")
  case (Inl err)
  with assms show ?thesis by (auto simp: terminate_session_def dest!: panes_of_session_err intro: served_err)
next
  case (Inr panes)
  obtain a b s1 w1 where t: "terminate_panes os sid panes (0, 0) s w = ((a, b), s1, w1)" by (metis prod_cases3 surj_pair)
  with assms Inr show ?thesis by (auto simp: terminate_session_def intro: terminate_panes_served)
qed

lemma restart_session_served:
  assumes "service_ok s" "ids_left MAX_TOTAL_PANES s" "restart_session d e sid rows cols s w = (r, s', w')"
  shows "served MAX_TOTAL_PANES s r s'"
proof (cases "panes_of_session s e sid")
  case (Inl err)
  with assms show ?thesis by (auto simp: restart_session_def dest!: panes_of_session_err intro: served_err)
next
  case (Inr panes)
  obtain a b s1 w1 where t: "restart_panes d sid rows cols panes (0, 0) s w = ((a, b), s1, w1)" by (metis prod_cases3 surj_pair)
  have n: "length panes \<le> MAX_TOTAL_PANES" by (rule panes_of_session_length [OF assms(1) Inr])
  then have "ids_left (length panes) s" using assms(2) by (simp add: ids_left_def)
  from served_mono [OF restart_panes_served [OF assms(1) this t] n] show ?thesis
    using assms(3) Inr t by (auto simp: restart_session_def)
qed

section \<open>Requests\<close>

lemma apply_mutation_err:
  "apply_catalog_mutation i m s = (Inl err, s') \<Longrightarrow> err \<noteq> GenerationDiverged"
  by (auto simp: apply_catalog_mutation_def attempt_def Let_def map_err_def expect_instance_def ensure_def
      split: sum.splits prod.splits if_splits)

context catalog_mutation
begin

lemma mutation_served:
  "service_ok s \<Longrightarrow> fresh_supply (ss_catalog s) rng \<Longrightarrow> apply_catalog_mutation i mutation s = (r, s') \<Longrightarrow>
    ss_terminal_ids s' = ss_terminal_ids s \<Longrightarrow> served n s r s'"
  using service_keeps [of s i r s'] mutation_attached [of i mutation s r s'] apply_mutation_err [of i mutation s _ s']
  by (auto simp: served_def safe_step_def)

end

lemma forget_panes_ids: "ss_terminal_ids (fold forget_pane ks s) = ss_terminal_ids s"
  by (induction ks arbitrary: s) simp_all

lemma mutation_ids: "apply_catalog_mutation i m s = (r, s') \<Longrightarrow> ss_terminal_ids s' = ss_terminal_ids s"
  by (auto simp: apply_catalog_mutation_def attempt_def Let_def forget_panes_ids split: sum.splits prod.splits)

lemma changing_served:
  assumes "changing m s w = (r, s', w')"
    "\<And>r1 s1. apply_catalog_mutation (ss_service_instance s) m s = (r1, s1) \<Longrightarrow>
      ss_terminal_ids s1 = ss_terminal_ids s \<Longrightarrow> served n s r1 s1"
  shows "served n s r s'"
proof -
  obtain r1 s1 where 1: "apply_catalog_mutation (ss_service_instance s) m s = (r1, s1)" by force
  note s1 = assms(2) [OF 1 mutation_ids [OF 1]]
  with assms(1) 1 show ?thesis by (cases r1) (auto simp: changing_def intro: served_result)
qed

lemma naming_served:
  assumes "naming f m s w = (r, s', w')"
    "\<And>r1 s1. apply_catalog_mutation (ss_service_instance s) m s = (r1, s1) \<Longrightarrow>
      ss_terminal_ids s1 = ss_terminal_ids s \<Longrightarrow> served n s r1 s1"
  shows "served n s r s'"
proof -
  obtain r1 s1 where 1: "apply_catalog_mutation (ss_service_instance s) m s = (r1, s1)" by force
  note s1 = assms(2) [OF 1 mutation_ids [OF 1]]
  with assms(1) 1 show ?thesis by (cases r1) (auto simp: naming_def intro: served_result)
qed

lemma create_session_served:
  assumes "service_ok s" "fresh_supply (ss_catalog s) rng" "service_create_session rng i e name dir s = (r, s')"
  shows "served n s r s'"
proof -
  have "ss_terminal_ids s' = ss_terminal_ids s" "r \<noteq> Inl GenerationDiverged"
    using assms(3) by (auto simp: service_create_session_def attempt_def Let_def map_err_def expect_instance_def ensure_def
        split: sum.splits prod.splits if_splits)
  with service_create_session_keeps [OF assms] create_attached [OF assms(3)] show ?thesis
    by (simp add: served_def safe_step_def)
qed

lemma import_served:
  assumes "service_ok s" "import_stopped_catalog i e c s = (r, s')"
  shows "served n s r s'"
proof -
  have "ss_terminal_ids s' = ss_terminal_ids s" "r \<noteq> Inl GenerationDiverged"
    using assms(2) by (auto simp: import_stopped_catalog_def attempt_def Let_def map_err_def expect_instance_def ensure_def
        split: sum.splits prod.splits if_splits)
  with import_stopped_catalog_keeps [OF assms] import_attached [OF assms(2)] show ?thesis
    by (simp add: served_def safe_step_def)
qed

lemma served_and_then: "served n s r s' \<Longrightarrow> served n s (and_then r (\<lambda>x. Inr (f x))) s'"
  by (cases r) (auto intro: served_result)

text \<open>What a step of the service is in the daemon, whatever its name there.\<close>

lemma write_served:
  "service_ok s \<Longrightarrow> service_write os i k g bytes s w = (r, s', w') \<Longrightarrow> served n s r s'"
  using service_write_keeps [of s os i k g bytes w r s' w'] write_attached [of os i k g bytes s w r s' w'] safe_step_mono
  unfolding served_def by blast

lemma resize_served:
  "service_ok s \<Longrightarrow> service_resize os i e k g sz s w = Some (r, s', w') \<Longrightarrow> served n s r s'"
  using service_resize_keeps [of s os i e k g sz w r s' w'] resize_attached [of os i e k g sz s w r s' w'] safe_step_mono
  unfolding served_def by blast

lemma snapshot_served:
  "service_ok s \<Longrightarrow> service_snapshot os k s w = (r, s', w') \<Longrightarrow> served n s r s'"
  using service_snapshot_keeps [of s os k w r s' w'] snapshot_attached [of os k s w r s' w'] safe_step_mono
  unfolding served_def by blast

lemmas mutations_served =
  mut_rename_session.mutation_served mut_activate_session.mutation_served mut_duplicate_session.mutation_served
  mut_remove_session.mutation_served mut_create_window.mutation_served mut_rename_window.mutation_served
  mut_activate_window.mutation_served mut_duplicate_window.mutation_served mut_close_window.mutation_served
  mut_split_focused.mutation_served mut_focus_pane.mutation_served mut_set_split_ratio.mutation_served
  mut_close_pane.mutation_served

lemma controlled_served:
  assumes s: "service_ok s" and rng: "fresh_supply (ss_catalog s) rng" and left: "ids_left MAX_TOTAL_PANES s"
    and run: "controlled d rng e body s w = Some (r, s', w')"
  shows "served MAX_TOTAL_PANES s r s'"
proof -
  have one: "served 1 s r s' \<Longrightarrow> served MAX_TOTAL_PANES s r s'"
    and zero: "served 0 s r1 s' \<Longrightarrow> served MAX_TOTAL_PANES s r1 s'" for r1 :: "service_error + 'z"
    by (auto elim!: served_mono simp: MAX_TOTAL_PANES_def)
  have left1: "ids_left 1 s" using left by (simp add: ids_left_def MAX_TOTAL_PANES_def)
  note starts = one [OF start_default_pane_served [OF s left1]] one [OF start_fixture_pane_served [OF s left1]]
    restart_session_served [OF s left] zero [OF terminate_session_served [OF s]] zero [OF terminate_pane_served [OF s]]
  note others = create_session_served [OF s rng] import_served [OF s] write_served [OF s] resize_served [OF s]
    snapshot_served [OF s]
  show ?thesis
    using run s
    by (cases body)
      (auto intro: changing_served naming_served mutations_served [OF s rng] starts others served_and_then served_err
        split: prod.splits if_splits sum.splits)
qed

section \<open>Turns of the service loop\<close>

definition daemon_ok :: "('h, 'p) daemon \<Rightarrow> bool" where
  "daemon_ok dm \<longleftrightarrow>
     service_ok (dm_service dm) \<and> ss_attached_clients (dm_service dm) = (if dm_controlling dm = None then 0 else 1)"

lemma expect_own_instance [simp]: "expect_instance s (ss_service_instance s) = Inr ()"
  by (simp add: expect_instance_def)

text \<open>What a request comes to: nothing, an attach, a detach, or an operation of the controlling client.\<close>

lemma handle_request_cases:
  assumes run: "handle_request d rng client request ctl s w = Some (r, ctl', s', w')"
  obtains (kept) "s' = s" "ctl' = ctl" "w' = w" "r \<noteq> Inl GenerationDiverged"
  | (attached) "ctl = None" "ctl' = Some client" "s' = s\<lparr>ss_attached_clients := 1\<rparr>" "w' = w"
      "r \<noteq> Inl GenerationDiverged" "rq_body request = ReqAttach \<or> (\<exists>cs. rq_body request = ReqReconnect cs)"
  | (detached) n where "ctl = Some client" "ctl' = None" "s' = s\<lparr>ss_attached_clients := 0, ss_detached_since := n\<rparr>"
      "r \<noteq> Inl GenerationDiverged"
  | (controlled) "ctl = Some client" "ctl' = ctl" "request_validate request = Inr ()"
      "handle_controlled_request d rng (rq_expected_catalog_revision request) (rq_body request) s w = Some (r, s', w')"
proof (cases "request_validate request")
  case (Inl e)
  with run show ?thesis by (intro kept) (auto simp: handle_request_def)
next
  case (Inr u)
  let ?control = "handle_request d rng client request ctl s w =
    (case require_controller ctl client of
       Inl e \<Rightarrow> Some (Inl e, ctl, s, w)
     | Inr _ \<Rightarrow> map_option (\<lambda>(result, s, w). (result, ctl, s, w))
         (handle_controlled_request d rng (rq_expected_catalog_revision request) (rq_body request) s w))"
  have "rq_body request = ReqCatalog \<or> (rq_body request = ReqAttach \<or> (\<exists>cs. rq_body request = ReqReconnect cs)) \<or>
      rq_body request = ReqDetach \<or> ?control"
    by (cases "rq_body request") (simp_all add: handle_request_def Inr cong: sum.case_cong)
  then consider "rq_body request = ReqCatalog" | "rq_body request = ReqAttach \<or> (\<exists>cs. rq_body request = ReqReconnect cs)"
    | "rq_body request = ReqDetach" | "?control" by blast
  then show ?thesis
  proof cases
    case 1
    with run Inr show ?thesis by (intro kept) (auto simp: handle_request_def)
  next
    case 2
    show ?thesis
    proof (cases "ctl = None \<and> ss_attached_clients s = 0")
      case True
      with run Inr 2 show ?thesis by (intro attached) (auto simp: handle_request_def service_attach_def)
    next
      case False
      with run Inr 2 show ?thesis
        by (intro kept) (auto simp: handle_request_def service_attach_def split: option.splits if_splits)
    qed
  next
    case 3
    show ?thesis
    proof (cases "ctl = Some client \<and> ss_attached_clients s \<noteq> 0")
      case True
      obtain now w1 where "os_now (do_os d) w = (now, w1)" by force
      with True run Inr 3 show ?thesis
        by (intro detached [of now]) (auto simp: handle_request_def service_detach_def require_controller_def)
    next
      case False
      with run Inr 3 show ?thesis
        by (intro kept) (auto simp: handle_request_def service_detach_def require_controller_def ensure_def split: if_splits)
    qed
  next
    case 4
    show ?thesis
    proof (cases "ctl = Some client")
      case True
      have "map_option (\<lambda>(result, s, w). (result, ctl, s, w))
          (handle_controlled_request d rng (rq_expected_catalog_revision request) (rq_body request) s w) =
        Some (r, ctl', s', w')"
        using run unfolding 4 by (simp add: True require_controller_def)
      with True Inr show ?thesis by (intro controlled) auto
    next
      case False
      with run 4 show ?thesis by (intro kept) (auto simp: require_controller_def ensure_def)
    qed
  qed
qed

lemma handle_request_keeps:
  assumes s: "service_ok s" and n: "ss_attached_clients s = (if ctl = None then 0 else 1)"
    and rng: "fresh_supply (ss_catalog s) rng" and left: "ids_left MAX_TOTAL_PANES s"
    and run: "handle_request d rng client request ctl s w = Some (r, ctl', s', w')"
  shows "service_ok s'" "ss_attached_clients s' = (if ctl' = None then 0 else 1)" "r \<noteq> Inl GenerationDiverged"
proof -
  have "service_ok s' \<and> ss_attached_clients s' = (if ctl' = None then 0 else 1) \<and> r \<noteq> Inl GenerationDiverged"
    using run
  proof (cases rule: handle_request_cases)
    case controlled
    obtain r2 where r2: "controlled d rng (rq_expected_catalog_revision request) (rq_body request) s w = Some (r2, s', w')"
      "r = and_then r2 (\<lambda>r. Inr (r, r = RespShuttingDown))"
      using controlled(4) by (auto simp: handle_controlled_request_def)
    with controlled_served [OF s rng left r2(1)] controlled n show ?thesis
      by (cases r2) (auto simp: served_def safe_step_def)
  qed (use s n in auto)
  then show "service_ok s'" "ss_attached_clients s' = (if ctl' = None then 0 else 1)" "r \<noteq> Inl GenerationDiverged"
    by blast+
qed

lemma persist_if_dirty_keeps:
  fixes d :: "('h, 'p, 'w, 'x) daemon_outside"
  assumes "persist_if_dirty d s w = (r, s', w')" "service_ok s"
  shows "service_ok s'" "ss_attached_clients s' = ss_attached_clients s"
proof -
  obtain r1 s1 w1 where t: "(take_persistence (do_os d) s w :: (service_error + 'x persisted_catalog option) \<times> _) = (r1, s1, w1)"
    by (metis prod_cases3)
  have "s' = s1" using assms(1) t by (auto simp: persist_if_dirty_def split: sum.splits option.splits prod.splits)
  with take_persistence_keeps [OF assms(2) t] persistence_attached [OF t]
  show "service_ok s'" "ss_attached_clients s' = ss_attached_clients s" by simp_all
qed

fun turn_daemon :: "('h, 'p) turn \<Rightarrow> ('h, 'p) daemon option" where
  "turn_daemon (GoesOn dm) = Some dm"
| "turn_daemon (Leaves dm) = Some dm"
| "turn_daemon (Fails e) = None"

lemma end_of_turn_keeps:
  assumes "end_of_turn d response shutdown dm w = Some (resp, t, w')" "daemon_ok dm" "turn_daemon t = Some dm'"
  shows "daemon_ok dm'"
proof -
  obtain ch s1 w1 where t: "tick (do_os d) (dm_service dm) w = Some (ch, s1, w1)"
    using assms(1) by (auto simp: end_of_turn_def)
  have s1: "service_ok s1" "ss_attached_clients s1 = ss_attached_clients (dm_service dm)"
    using tick_keeps [OF _ t] tick_attached [OF t] assms(2) by (simp_all add: daemon_ok_def)
  obtain due w2 where due: "elapsed_is (do_os d) (\<lambda>t. t \<ge> PERSIST_INTERVAL) (Some (dm_last_persist dm)) w1 = (due, w2)" by force
  obtain r2 s2 w3 where p: "(if due then persist_if_dirty d s1 w2 else (Inr (), s1, w2)) = (r2, s2, w3)" by (metis prod_cases3)
  have s2: "service_ok s2" "ss_attached_clients s2 = ss_attached_clients (dm_service dm)"
    using p s1 persist_if_dirty_keeps [of d s1 w2 r2 s2 w3] by (auto split: if_splits)
  have "dm_service dm' = s2 \<and> dm_controlling dm' = dm_controlling dm"
    using assms(1,3) t due p by (cases r2) (auto simp: end_of_turn_def Let_def split: prod.split_asm if_split_asm)
  with s2 assms(2) show ?thesis by (simp add: daemon_ok_def)
qed

text \<open>The random identifiers of a request are not in the catalog.\<close>

fun draws_ok :: "client_event \<Rightarrow> ('h, 'p) daemon \<Rightarrow> bool" where
  "draws_ok (Request _ _ rng) dm \<longleftrightarrow> fresh_supply (ss_catalog (dm_service dm)) rng"
| "draws_ok _ dm \<longleftrightarrow> True"

lemma service_turn_keeps:
  assumes run: "service_turn d event dm w = Some (resp, t, w')" and dm: "daemon_ok dm" and draws: "draws_ok event dm"
    and left: "ids_left MAX_TOTAL_PANES (dm_service dm)" and t: "turn_daemon t = Some dm'"
  shows "daemon_ok dm'"
proof (cases event)
  case (Request client request rng)
  obtain r ctl s1 w1 where h: "handle_request d rng client request (dm_controlling dm) (dm_service dm) w = Some (r, ctl, s1, w1)"
    using run Request by (auto simp: service_turn_def bind_eq_Some_conv)
  have s1: "service_ok s1" "ss_attached_clients s1 = (if ctl = None then 0 else 1)"
    using handle_request_keeps [OF _ _ _ left h] dm draws Request by (auto simp: daemon_ok_def)
  obtain r2 s2 w2 where p: "persist_if_dirty d s1 w1 = (r2, s2, w2)" by (metis prod_cases3)
  note s2 = persist_if_dirty_keeps [OF p s1(1)]
  let ?dm = "dm\<lparr>dm_service := s2, dm_controlling := ctl\<rparr>"
  have "daemon_ok ?dm" using s1 s2 by (simp add: daemon_ok_def)
  moreover have "dm' = ?dm \<or> (\<exists>resp shut resp' w3. end_of_turn d resp shut ?dm w2 = Some (resp', t, w3))"
    using run Request h p t by (cases r2; cases r) (auto simp: service_turn_def Let_def)
  ultimately show ?thesis using end_of_turn_keeps [OF _ _ t] by metis
next
  case (Disconnected client)
  obtain r s1 w1 where d: "service_detach (do_os d) (ss_service_instance (dm_service dm)) (dm_service dm) w = (r, s1, w1)"
    by (metis prod_cases3)
  have "daemon_ok (dm\<lparr>dm_service := s1, dm_controlling := None\<rparr>)" if "dm_controlling dm = Some client"
    using d dm that by (auto simp: daemon_ok_def service_detach_def split: if_splits prod.splits)
  then show ?thesis
    using run Disconnected d dm end_of_turn_keeps [OF _ _ t] by (auto simp: service_turn_def split: if_splits)
next
  case Timeout
  then show ?thesis using run dm end_of_turn_keeps [OF _ _ t] by (auto simp: service_turn_def)
next
  case ChannelClosed
  then show ?thesis using run dm t by (auto simp: service_turn_def)
qed

text \<open>
  The daemons that serve: built from a catalog and histories, then turn after turn. The world may
  change in any way between two turns.
\<close>

inductive serving :: "('h, 'p, 'w, 'x) daemon_outside \<Rightarrow> ('h, 'p) daemon \<Rightarrow> bool" for d where
  starts: "service_build (do_os d) i c histories scrollback idle ids w = (Inr s, w') \<Longrightarrow>
    serving d \<lparr>dm_service = s, dm_controlling = None, dm_last_persist = now\<rparr>"
| turns: "serving d dm \<Longrightarrow> draws_ok event dm \<Longrightarrow> ids_left MAX_TOTAL_PANES (dm_service dm) \<Longrightarrow>
    service_turn d event dm w = Some (response, GoesOn dm', w') \<Longrightarrow> serving d dm'"

inductive_cases servingE: "serving d dm"

lemma service_build_ok:
  assumes "service_build os i c histories scrollback idle ids w = (Inr s, w')"
  shows "service_ok s" "ss_attached_clients s = 0"
proof -
  obtain c' where c': "stopped_clone c = Inr c'" using assms by (auto simp: service_build_def split: sum.splits)
  obtain now w1 where "os_now os w = (now, w1)" by force
  with assms c' have s: "ss_catalog s = c'" "ss_terminal_panes s = bt_empty" "ss_session_panes s = bt_empty"
    "rt_panes (ss_runtime s) = bt_empty" "ss_attached_clients s = 0"
    by (auto simp: service_build_def terminal_runtime_new_def)
  have "catalog_ok c'" using c' by (auto simp: stopped_clone_ok catalog_ok_stop)
  then show "service_ok s" using stopped_clone_gens [OF c'] s
    by (auto simp: service_ok_def service_links_def runtime_gen_def runtime_generation_def)
  show "ss_attached_clients s = 0" by (rule s)
qed

lemma serving_ok: "serving d dm \<Longrightarrow> daemon_ok dm"
proof (induction rule: serving.induct)
  case (starts i c histories scrollback idle ids w s w' now)
  then show ?case using service_build_ok by (fastforce simp: daemon_ok_def)
next
  case (turns dm event w response dm' w')
  then show ?case using service_turn_keeps by fastforce
qed

section \<open>What a start leaves behind\<close>

lemma begin_start_succeeds:
  assumes s: "service_ok s" and left: "ti_next_pane (ss_terminal_ids s) \<noteq> - 1"
    and at: "catalog_pane (ss_catalog s) k = Some (sid, wid, p)"
    and dir: "path_components (sr_working_directory request) = path_components (sp_working_directory p)"
    and sz: "tz_rows (sr_size request) \<noteq> 0" "tz_columns (sr_size request) \<noteq> 0"
  obtains job s1 t x where
    "begin_start os (ss_service_instance s) (cat_revision (ss_catalog s)) sid k request s = (Inr job, s1)"
    "ss_dirty s1" "bt_get (ss_terminal_panes s1) k = Some t" "bt_get (rt_panes (ss_runtime s1)) t = Some x"
    "pr_model x = model_new (os_parser os)
      \<lparr>gs_rows = unat (tz_rows (sr_size request)), gs_columns = unat (tz_columns (sr_size request))\<rparr>
      (rt_scrollback_limit (ss_runtime s))"
proof -
  let ?c = "ss_catalog s" and ?g = "sat_inc (sp_generation p)"
  let ?sz = "\<lparr>gs_rows = unat (tz_rows (sr_size request)), gs_columns = unat (tz_columns (sr_size request))\<rparr>"
  note c = service_ok_catalog_ok [OF s]
  obtain t s1 where en: "ensure_runtime_pane k s = (t, s1)" by force
  have "k \<in> set (catalog_pane_ids ?c)" using at pane_gens_iff [OF c] catalog_pane_ids_iff [OF c] by blast
  note e1 = ensure_runtime_pane_keeps [OF s this left en]
  have gsz: "runtime_grid_size (sr_size request) = Inr ?sz"
    using sz by (simp add: runtime_grid_size_def grid_size_new_def unat_eq_zero)
  obtain job x rt where br: "begin_restart os t request (ss_runtime s) = (Inr job, rt)"
    and x: "rt = put_pane t x (ss_runtime s)" "pr_model x = model_new (os_parser os) ?sz (rt_scrollback_limit (ss_runtime s))"
    by (simp add: begin_restart_def gsz Let_def pane_runtime_new_def)
  obtain c' where bg: "begin_pane_generation sid k (tz_rows (sr_size request)) (tz_columns (sr_size request))
      (cat_revision ?c) ?c = (Inr ?g, c')"
    using begin_pane_generation_succeeds [OF c at sz] by blast
  obtain r s2 where run: "begin_start os (ss_service_instance s) (cat_revision ?c) sid k request s = (r, s2)" by force
  have "r \<noteq> Inl GenerationDiverged" using begin_start_keeps [OF s left run] by (simp add: safe_step_def)
  with run at dir en br bg e1(2,3) obtain job' where "r = Inr job'"
    "s2 = s1\<lparr>ss_historical := bt_remove k (ss_historical s1), ss_runtime := rt, ss_catalog := c', ss_dirty := True\<rparr>"
    by (auto simp: begin_start_def expect_revision_def Let_def split: if_splits)
  with run e1(4) x show ?thesis by (intro that [of job' s2 t x]) (simp_all add: put_pane_def)
qed

text \<open>The terminals a completion leaves: the same panes, with the same screens.\<close>

definition same_screens :: "('h, 'p) session_service \<Rightarrow> ('h, 'p) session_service \<Rightarrow> bool" where
  "same_screens s s' \<longleftrightarrow>
     ss_terminal_panes s' = ss_terminal_panes s \<and> (ss_dirty s \<longrightarrow> ss_dirty s') \<and>
     (\<forall>t. map_option pr_model (bt_get (rt_panes (ss_runtime s')) t) =
       map_option pr_model (bt_get (rt_panes (ss_runtime s)) t))"

lemma finish_restart_screens:
  "finish_restart pane g result t = (r, t') \<Longrightarrow>
    map_option pr_model (bt_get (rt_panes t') k) = map_option pr_model (bt_get (rt_panes t) k)"
  by (auto simp: finish_restart_def put_pane_def split: option.splits if_splits sum.splits)

lemma record_completion_screens: "record_completion sid k g t res s = (r, s') \<Longrightarrow> same_screens s s'"
  by (auto simp: record_completion_def attempt_def Let_def same_screens_def split: sum.splits prod.splits)

lemma finish_start_screens: "finish_start c s = (r, s') \<Longrightarrow> same_screens s s'"
proof -
  assume run: "finish_start c s = (r, s')"
  obtain r1 rt where f: "finish_restart (ssc_runtime_pane c) (ssc_generation c) (ssc_result c) (ss_runtime s) = (r1, rt)" by force
  have "same_screens s (s\<lparr>ss_runtime := rt\<rparr>)" using finish_restart_screens [OF f] by (simp add: same_screens_def)
  moreover have "s' = s \<or> same_screens (s\<lparr>ss_runtime := rt\<rparr>) s'"
    using run f record_completion_screens by (fastforce simp: finish_start_def attempt_def split: sum.splits if_splits)
  ultimately show ?thesis by (auto simp: same_screens_def)
qed

lemma start_default_pane_leaves:
  assumes s: "service_ok s" and left: "ti_next_pane (ss_terminal_ids s) \<noteq> - 1"
    and at: "catalog_pane (ss_catalog s) k = Some (sid, wid, p)" and shell: "do_default_shell d = Inr exe"
    and sz: "rows \<noteq> 0" "cols \<noteq> 0"
    and run: "start_default_pane d (cat_revision (ss_catalog s)) sid k rows cols s w = (r, s', w')"
  obtains t x where "ss_dirty s'" "bt_get (ss_terminal_panes s') k = Some t" "bt_get (rt_panes (ss_runtime s')) t = Some x"
    "pr_model x = model_new (os_parser (do_os d)) \<lparr>gs_rows = unat rows, gs_columns = unat cols\<rparr>
      (rt_scrollback_limit (ss_runtime s))"
proof -
  define spawn where "spawn = \<lparr>sr_executable = exe, sr_arguments = [], sr_working_directory = sp_working_directory p,
    sr_environment = [(lit ''TERM'', lit ''xterm-256color''), (lit ''COLORTERM'', lit ''truecolor'')],
    sr_size = \<lparr>tz_rows = rows, tz_columns = cols, tz_pixel_width = 0, tz_pixel_height = 0\<rparr>\<rparr>"
  have fin: "finish_pane_start (do_os d) (cat_revision (ss_catalog s)) sid k spawn s w = (r, s', w')"
    using run at shell sz
    by (simp add: start_default_pane_def pane_working_directory_def terminal_size_new_def default_shell_request_def spawn_def)
  obtain job s1 t x where b: "begin_start (do_os d) (ss_service_instance s) (cat_revision (ss_catalog s)) sid k spawn s = (Inr job, s1)"
    and s1: "ss_dirty s1" "bt_get (ss_terminal_panes s1) k = Some t" "bt_get (rt_panes (ss_runtime s1)) t = Some x"
      "pr_model x = model_new (os_parser (do_os d)) \<lparr>gs_rows = unat rows, gs_columns = unat cols\<rparr>
        (rt_scrollback_limit (ss_runtime s))"
    by (rule begin_start_succeeds [OF s left at, of spawn "do_os d"]) (use sz in \<open>simp_all add: spawn_def\<close>)
  obtain c w1 where c: "start_job_run (do_os d) job w = (c, w1)" by force
  obtain r2 s2 where f: "finish_start c s1 = (r2, s2)" by force
  have "s' = s2" using fin b c f by (auto simp: finish_pane_start_def split: sum.splits)
  then have same: "same_screens s1 s'" using finish_start_screens [OF f] by simp
  then have "map_option pr_model (bt_get (rt_panes (ss_runtime s')) t) = Some (pr_model x)"
    using s1(3) by (simp add: same_screens_def)
  then obtain y where "bt_get (rt_panes (ss_runtime s')) t = Some y" "pr_model y = pr_model x" by auto
  with same s1 show ?thesis by (intro that [of t y]) (auto simp: same_screens_def)
qed

section \<open>A concrete daemon\<close>

definition example_daemon_outside :: "(unit, unit, unit, unit) daemon_outside" where
  "example_daemon_outside =
     \<lparr>do_os = example_outside, do_default_shell = Inr (lit ''/bin/sh''), do_fixture = None,
      do_save = (\<lambda>_ w. (Inr (), w))\<rparr>"

definition example_screen :: pane_screen_snapshot where
  "example_screen =
     \<lparr>ps_rows = [], ps_cursor = \<lparr>cs_row = 0, cs_column = 0, cs_visible = True\<rparr>,
      ps_modes = \<lparr>ms_application_cursor_keys = False, ms_bracketed_paste = False, ms_focus_reporting = False,
        ms_mouse_reporting = False\<rparr>,
      ps_terminal_revision = 0, ps_output_revision = 0, ps_viewport_offset = 0, ps_title = None, ps_generation = 0,
      ps_lifecycle = pane_lifecycle.Stopped, ps_unread_count = 0, ps_attention = NoAttention\<rparr>"

text \<open>One session with one pane, whose last screen was restored.\<close>

definition example_service :: "(unit, unit) session_service" where
  "example_service =
     \<lparr>ss_service_instance = example_id 9, ss_catalog = example_catalog, ss_runtime = terminal_runtime_new 0,
      ss_terminal_panes = bt_empty, ss_session_panes = bt_empty, ss_output_revisions = bt_empty,
      ss_terminal_revisions = bt_empty, ss_unread_counts = bt_empty, ss_attention = bt_empty,
      ss_historical = bt_insert (example_id 3) example_screen bt_empty, ss_attached_clients = 0,
      ss_detached_since = millis 1000, ss_idle_timeout = millis 1000, ss_dirty = False,
      ss_terminal_ids = \<lparr>ti_next_pane = 1, ti_next_tab = 1\<rparr>\<rparr>"

definition example_daemon :: "(unit, unit) daemon" where
  "example_daemon =
     \<lparr>dm_service = example_service\<lparr>ss_attached_clients := 1\<rparr>, dm_controlling = Some 7, dm_last_persist = millis 1000\<rparr>"

lemma example_stopped: "stopped_clone example_catalog = Inr example_catalog"
proof -
  have p: "bt_map (\<lambda>_. stop_pane) (bt_insert k (stopped_pane k dir) bt_empty) = bt_insert k (stopped_pane k dir) bt_empty"
    for k :: pane_id and dir by (rule bt_eqI) (simp add: stop_pane_def stopped_pane_def)
  then have w: "stop_window (single_pane_window wid n k dir) = single_pane_window wid n k dir" for wid n k dir
    by (simp add: stop_window_def single_pane_window_def)
  have "bt_map (\<lambda>_. stop_session) (cat_sessions example_catalog) = cat_sessions example_catalog"
    by (rule bt_eqI) (simp add: example_catalog_eq stop_session_def w)
  then show ?thesis using example_catalog_ok by (simp add: stopped_clone_ok)
qed

lemma example_daemon_fields [simp]:
  "do_os example_daemon_outside = example_outside" "do_default_shell example_daemon_outside = Inr (lit ''/bin/sh'')"
  "ss_catalog example_service = example_catalog" "ss_attached_clients example_service = 0"
  "ss_dirty example_service = False" "ss_terminal_panes example_service = bt_empty"
  "ss_historical example_service = bt_insert (example_id 3) example_screen bt_empty"
  "ss_terminal_ids example_service = \<lparr>ti_next_pane = 1, ti_next_tab = 1\<rparr>"
  by (simp_all add: example_daemon_outside_def example_service_def)

lemma example_serving: "serving example_daemon_outside example_daemon"
proof -
  let ?d = example_daemon_outside
  let ?dm = "\<lparr>dm_service = example_service, dm_controlling = None, dm_last_persist = millis 1000\<rparr>"
  have "service_build (do_os ?d) (example_id 9) example_catalog [\<lparr>ph_pane = example_id 3, ph_screen = example_screen\<rparr>] 0
      (millis 1000) \<lparr>ti_next_pane = 1, ti_next_tab = 1\<rparr> () = (Inr example_service, ())"
    by (simp add: service_build_def example_stopped example_daemon_outside_def example_outside_def example_service_def
        bt_from_list_def)
  then have start: "serving ?d ?dm" by (rule serving.starts)
  have tick: "tick example_outside (example_service\<lparr>ss_attached_clients := 1\<rparr>) () =
      Some ({}, example_service\<lparr>ss_attached_clients := 1\<rparr>, ())"
    by (simp add: tick_def drain_def example_service_def terminal_runtime_new_def batch_default_def)
  have elapsed: "elapsed_is example_outside (\<lambda>t. t \<ge> PERSIST_INTERVAL) (Some (millis 1000)) () = (False, ())"
    "should_exit example_outside (example_service\<lparr>ss_attached_clients := 1\<rparr>) () = (False, ())"
    by (simp_all add: elapsed_is_def example_outside_def PERSIST_INTERVAL_def millis_def should_exit_def)
  have "service_turn ?d (Request 7 (request_envelope_new 1 0 ReqAttach) []) ?dm () =
      Some (Some (response_ok 1 (RespAttached (catalog_snapshot (example_service\<lparr>ss_attached_clients := 1\<rparr>)))),
        GoesOn example_daemon, ())"
    using tick elapsed(2)
    by (simp add: service_turn_def handle_request_def request_envelope_new_def request_validate_def service_attach_def
        persist_if_dirty_def take_persistence_def end_of_turn_def example_daemon_def elapsed(1) Let_def)
  then show ?thesis
    by (intro serving.turns [OF start]) (auto simp: ids_left_def MAX_TOTAL_PANES_def)
qed

section \<open>Properties\<close>

text \<open>
  C3. In every daemon that serves, a request never finds the generations of the catalog and of the
  terminals diverged: whatever the request is and however it ends, the catalog stays valid and every
  pane with a terminal has the generation of the process that runs in it, or zero if none was started.
\<close>

theorem generations_never_diverge:
  assumes "serving d dm" "fresh_supply (ss_catalog (dm_service dm)) rng" "ids_left MAX_TOTAL_PANES (dm_service dm)"
    "handle_request d rng client request (dm_controlling dm) (dm_service dm) w = Some (r, ctl, s, w')"
  shows "r \<noteq> Inl GenerationDiverged \<and> catalog_ok (ss_catalog s) \<and>
    list_all (\<lambda>(pane, terminal). service_pane_generation s pane =
      Some (case runtime_generation (ss_runtime s) terminal of None \<Rightarrow> 0 | Some g \<Rightarrow> g)) (bt_entries (ss_terminal_panes s))"
proof -
  note ok = serving_ok [OF assms(1)]
  have s: "service_ok s" "r \<noteq> Inl GenerationDiverged"
    using handle_request_keeps [OF _ _ assms(2-4)] ok by (auto simp: daemon_ok_def)
  have c: "catalog_ok (ss_catalog s)" by (rule service_ok_catalog_ok [OF s(1)])
  have "service_pane_generation s k = Some (case runtime_generation (ss_runtime s) t of None \<Rightarrow> 0 | Some g \<Rightarrow> g)"
    if "(k, t) \<in> set (bt_entries (ss_terminal_panes s))" for k t
  proof -
    have t: "bt_get (ss_terminal_panes s) k = Some t" using that by (simp add: bt_entries_get)
    then have "k \<in> set (catalog_pane_ids (ss_catalog s))" using s(1) by (auto simp: service_ok_def)
    then obtain g where g: "(k, g) \<in> pane_gens (ss_catalog s)" by (auto simp: catalog_pane_ids_iff [OF c])
    moreover have "g = runtime_gen s k" using g s(1) by (auto simp: service_ok_def)
    ultimately show ?thesis using t by (auto simp: service_pane_generation_def pane_gens_iff [OF c] runtime_gen_def)
  qed
  with s c show ?thesis by (auto simp: list_all_iff)
qed

text \<open>
  C4. One client controls the daemon at a time: a request of any other client is answered or refused
  without touching the service, but for the one that attaches while nobody is attached.
\<close>

theorem one_client_controls:
  assumes "serving d dm" "dm_controlling dm \<noteq> Some client"
    "handle_request d rng client request (dm_controlling dm) (dm_service dm) w = Some (r, ctl, s, w')"
  shows "w' = w \<and>
    (ctl = dm_controlling dm \<and> s = dm_service dm \<or>
     ctl = Some client \<and> dm_controlling dm = None \<and> ss_attached_clients (dm_service dm) = 0 \<and>
     (rq_body request = ReqAttach \<or> (\<exists>cursors. rq_body request = ReqReconnect cursors)) \<and>
     s = (dm_service dm)\<lparr>ss_attached_clients := 1\<rparr>)"
  using assms(3)
proof (cases rule: handle_request_cases)
  case attached
  with serving_ok [OF assms(1)] show ?thesis by (simp add: daemon_ok_def)
qed (use assms(2) in auto)

theorem one_client_controls_witness:
  "\<exists>r ctl s. handle_request example_daemon_outside [] 8 (request_envelope_new 1 1 ReqShutdown) (dm_controlling example_daemon)
      (dm_service example_daemon) () = Some (r, ctl, s, ()) \<and> ctl = dm_controlling example_daemon \<and> s = dm_service example_daemon"
proof -
  have c: "dm_controlling example_daemon \<noteq> Some 8" by (simp add: example_daemon_def)
  have run: "handle_request example_daemon_outside [] 8 (request_envelope_new 1 1 ReqShutdown) (dm_controlling example_daemon)
      (dm_service example_daemon) () = Some (Inl NoAttachedClient, dm_controlling example_daemon, dm_service example_daemon, ())"
    by (simp add: handle_request_def request_envelope_new_def request_validate_def require_controller_def example_daemon_def)
  from one_client_controls [OF example_serving c run] run c show ?thesis by simp
qed

end
