(* ===== verification/SessionPersistence.thy ===== *)
theory SessionPersistence imports SessionServing begin

text \<open>
  What the daemon persists: a record read back gives the sessions and screens that were saved, a save
  that fails loses nothing, a damaged current file falls back to the record before it, and the two
  kinds of state that the daemon cannot persist, which end its loop.
\<close>

section \<open>The store\<close>

text \<open>
  The law of serde the store relies on: what is printed of a record of the current schema is parsed
  and read back as that record.
\<close>

definition reads_back :: "('x, 'v) serde \<Rightarrow> 'x persisted_catalog \<Rightarrow> bool" where
  "reads_back js r \<longleftrightarrow>
     (case js_print js r of
        Inl e \<Rightarrow> True
      | Inr bytes \<Rightarrow>
          (case js_parse js bytes of
             Inl e \<Rightarrow> False
           | Inr v \<Rightarrow> js_schema js v = Some (unat (pe_schema_version r)) \<and> js_record js v = Inr r))"

lemma normalized_ok:
  "normalized r = Inr r' \<longleftrightarrow>
     (\<exists>c. stopped_clone (pe_catalog r) = Inr c \<and> r' = r\<lparr>pe_schema_version := CURRENT_SCHEMA, pe_catalog := c\<rparr> \<and>
       persisted_validate r' = Inr ())"
  by (auto simp: normalized_def outcome Let_def)

lemma stopped_clone_idem: "stopped_clone c = Inr c' \<Longrightarrow> stopped_clone c' = Inr c'"
  by (auto simp: stopped_clone_ok catalog_ok_stop bt_map_cong_idem)

lemma persisted_schema: "persisted_validate r = Inr () \<Longrightarrow> pe_schema_version r = CURRENT_SCHEMA"
  by (auto simp: persisted_validate_def split: if_splits)

lemma normalized_idem:
  assumes "normalized r = Inr r'"
  shows "normalized r' = Inr r'" "persisted_validate r' = Inr ()"
proof -
  obtain c where c: "stopped_clone (pe_catalog r) = Inr c"
    and r': "r' = r\<lparr>pe_schema_version := CURRENT_SCHEMA, pe_catalog := c\<rparr>" and v: "persisted_validate r' = Inr ()"
    using assms by (auto simp: normalized_ok)
  show "persisted_validate r' = Inr ()" by (rule v)
  have "r'\<lparr>pe_schema_version := CURRENT_SCHEMA, pe_catalog := c\<rparr> = r'" using r' by simp
  with v stopped_clone_idem [OF c] r' show "normalized r' = Inr r'" by (auto simp: normalized_ok)
qed

lemma persisted_new_normalized:
  assumes "persisted_new c hs = Inr r"
  shows "normalized r = Inr r"
proof -
  obtain c' where c: "stopped_clone c = Inr c'" and v: "persisted_validate r = Inr ()"
    and r: "r = \<lparr>pe_schema_version = CURRENT_SCHEMA, pe_catalog = c', pe_histories = hs, pe_extra = bt_empty\<rparr>"
    using assms by (auto simp: persisted_new_def outcome Let_def)
  have "r\<lparr>pe_schema_version := CURRENT_SCHEMA, pe_catalog := c'\<rparr> = r" using r by simp
  with v stopped_clone_idem [OF c] r show ?thesis by (auto simp: normalized_ok)
qed

lemma decode_printed:
  assumes "reads_back js r" "js_print js r = Inr bytes" "persisted_validate r = Inr ()"
  shows "decode_record js bytes = Inr r"
proof -
  obtain v where "js_parse js bytes = Inr v" "js_schema js v = Some (unat (pe_schema_version r))" "js_record js v = Inr r"
    using assms(1,2) by (auto simp: reads_back_def split: sum.splits)
  moreover have "unat (pe_schema_version r) < 2 ^ 16" using unsigned_less [of "pe_schema_version r"] by simp
  ultimately show ?thesis using assms(3) persisted_schema [OF assms(3)] by (simp add: decode_record_def)
qed

text \<open>What a save comes to: the backup is renewed or not, and then the current file.\<close>

definition readable :: "('x, 'v) serde \<Rightarrow> stored_file \<Rightarrow> 'x persisted_catalog option" where
  "readable js f =
     (case read_bounded f of Inl e \<Rightarrow> None | Inr bytes \<Rightarrow> (case decode_record js bytes of Inl e \<Rightarrow> None | Inr r \<Rightarrow> Some r))"

lemma readable_Some:
  "readable js f = Some r \<Longrightarrow> \<exists>bytes. f = Contents bytes \<and> length bytes \<le> MAX_STORE_BYTES \<and> decode_record js bytes = Inr r"
  by (cases f) (auto simp: readable_def split: sum.splits if_splits)

lemma readable_exists: "readable js f = Some r \<Longrightarrow> file_exists f"
  using readable_Some by fastforce

lemma readable_validates: "readable js f = Some r \<Longrightarrow> persisted_validate r = Inr ()"
  by (auto simp: readable_def decode_record_def outcome split: sum.splits if_splits)

lemma store_save_cases:
  assumes run: "store_save js r st = (res, st')"
  obtains (refused) e where "res = Inl e" "st' = st"
  | (backed) e where "res = Inl e" "readable js (st_current st) \<noteq> None" "st' = st\<lparr>st_backup := st_current st\<rparr>"
  | (saved) r' bytes backup where "res = Inr ()" "normalized r = Inr r'" "js_print js r' = Inr bytes"
      "length bytes \<le> MAX_STORE_BYTES"
      "backup = (if readable js (st_current st) = None then st_backup st else st_current st)"
      "st' = st\<lparr>st_current := Contents bytes, st_backup := backup\<rparr>"
proof (cases "normalized r")
  case (Inl e)
  with run show ?thesis by (intro refused [of e]) (auto simp: store_save_def)
next
  case (Inr r')
  define backup where "backup = (if readable js (st_current st) = None then st_backup st else st_current st)"
  define b where "b = (case (read_bounded (st_current st) :: session_store_error option + u8 list) of
      Inr bytes \<Rightarrow> if isl (decode_record js bytes) then (Inr () :: session_store_error + unit, st) else write_backup bytes st
    | Inl _ \<Rightarrow> (Inr (), st))"
  have rest: "attempt (fst b) (snd b) (\<lambda>_. attempt (map_err StoreJson (js_print js r')) (snd b) (\<lambda>bytes.
      if length bytes > MAX_STORE_BYTES then (Inl RecordTooLarge, snd b) else write_current bytes (snd b))) = (res, st')"
    using run Inr by (simp add: store_save_def b_def [symmetric] case_prod_beta)
  have b: "b = (Inr (), st\<lparr>st_backup := backup\<rparr>) \<or> (\<exists>e. b = (Inl (StoreIo e), st))"
  proof (cases "readable js (st_current st)")
    case None
    then have "b = (Inr (), st)" by (auto simp: b_def readable_def split: sum.splits)
    with None show ?thesis by (simp add: backup_def)
  next
    case (Some r0)
    then obtain bytes where "st_current st = Contents bytes" "length bytes \<le> MAX_STORE_BYTES" "decode_record js bytes = Inr r0"
      using readable_Some by blast
    with Some show ?thesis by (auto simp: b_def write_backup_def backup_def split: option.splits)
  qed
  then consider e where "b = (Inl (StoreIo e), st)" | "b = (Inr (), st\<lparr>st_backup := backup\<rparr>)" by blast
  then show ?thesis
  proof cases
    case 1
    with rest show ?thesis by (intro refused [of "StoreIo e"]) auto
  next
    case 2
    have err: thesis if "res = Inl e" "st' = st\<lparr>st_backup := backup\<rparr>" for e
      using that refused [of e] backed [of e] by (cases "readable js (st_current st) = None") (auto simp: backup_def)
    show ?thesis
    proof (cases "js_print js r'")
      case (Inl e)
      with rest 2 show ?thesis by (intro err [of "StoreJson e"]) auto
    next
      case p: (Inr bytes)
      show ?thesis
      proof (cases "length bytes > MAX_STORE_BYTES")
        case True
        with rest 2 p show ?thesis by (intro err [of RecordTooLarge]) auto
      next
        case False
        show ?thesis
        proof (cases "st_current_failure st")
          case None
          with rest 2 p False show ?thesis
            by (intro saved [OF _ Inr p _ backup_def]) (auto simp: write_current_def)
        next
          case (Some e)
          with rest 2 p False show ?thesis by (intro err [of "StoreIo e"]) (auto simp: write_current_def)
        qed
      qed
    qed
  qed
qed

text \<open>Loading prefers the current file.\<close>

lemma load_first_readable:
  "readable js f = Some r \<Longrightarrow> load_first js (f # fs) e = and_then (normalized r) (\<lambda>r. Inr (Some r))"
  using readable_Some [of js f r] by auto

lemma load_current:
  "readable js (st_current st) = Some r \<Longrightarrow> store_load js st = and_then (normalized r) (\<lambda>r. Inr (Some r))"
  using readable_exists [of js "st_current st" r]
  by (simp add: store_load_def load_first_readable del: load_first.simps)

lemma load_first_unreadable:
  assumes "readable js f = None"
  shows "\<exists>e'. load_first js (f # fs) e = load_first js fs e'"
  using assms by (cases "read_bounded f") (auto simp: readable_def split: option.splits sum.splits)

lemma load_backup:
  assumes "readable js (st_current st) = None" "readable js (st_backup st) = Some r"
  shows "store_load js st = and_then (normalized r) (\<lambda>r. Inr (Some r))"
proof -
  obtain e where "load_first js [st_current st, st_backup st] None = load_first js [st_backup st] e"
    using load_first_unreadable [OF assms(1)] by blast
  with assms(2) readable_exists [OF assms(2)] show ?thesis
    by (simp add: store_load_def load_first_readable del: load_first.simps)
qed

section \<open>What a pane keeps\<close>

text \<open>The histories of a record: the screens of the terminals, and the historical ones of other panes.\<close>

definition screen_of :: "('h, 'p) session_service \<Rightarrow> pane_id \<Rightarrow> terminal_snapshot option" where
  "screen_of s pane =
     Option.bind (bt_get (ss_terminal_panes s) pane) (\<lambda>terminal.
       map_option (\<lambda>x. model_snapshot 0 (pr_model x)) (bt_get (rt_panes (ss_runtime s)) terminal))"

lemma projection_result:
  "projection os rt t w = (p, w') \<Longrightarrow>
    map_option rpp_snapshot p = map_option (\<lambda>x. model_snapshot 0 (pr_model x)) (bt_get (rt_panes rt) t)"
  by (auto simp: projection_def split: option.splits prod.splits)

lemma from_terminal_rows:
  "from_terminal t out g l n a = Inr x \<Longrightarrow> ps_rows x = ts_rows t \<and> ps_generation x = g \<and> ps_unread_count x = n \<and> ps_attention x = a"
  by (auto simp: from_terminal_def outcome split: if_splits)

lemma from_terminal_err: "\<not> snapshot_fits t \<Longrightarrow> \<exists>e. from_terminal t out g l n a = Inl e"
  using from_terminal_decides [of t out g l n a] by (cases "from_terminal t out g l n a") simp_all

lemma screen_histories_oversized:
  assumes "(k, t) \<in> set panes" "bt_get (rt_panes (ss_runtime s)) t = Some x" "\<not> snapshot_fits (model_snapshot 0 (pr_model x))"
  shows "\<exists>e w'. screen_histories os s panes hs w = (Inl (ServiceSnapshot e), w')"
  using assms(1)
proof (induction panes arbitrary: hs w)
  case Nil
  then show ?case by simp
next
  case (Cons q panes)
  obtain k' t' where q: "q = (k', t')" by force
  obtain p w1 where p: "projection os (ss_runtime s) t' w = (p, w1)" by force
  show ?case
  proof (cases p)
    case None
    have "q \<noteq> (k, t)" using projection_result [OF p] None assms(2) q by auto
    with Cons q p None show ?thesis by auto
  next
    case (Some pr)
    show ?thesis
    proof (cases "from_terminal (rpp_snapshot pr) (output_revision_of s k') 0 pane_lifecycle.Stopped
        (unread_of s k') (attention_of s k')")
      case (Inl e)
      with q p Some show ?thesis by simp
    next
      case (Inr y)
      have "q \<noteq> (k, t)"
      proof
        assume "q = (k, t)"
        then have "rpp_snapshot pr = model_snapshot 0 (pr_model x)"
          using projection_result [OF p] Some assms(2) q by simp
        with from_terminal_err [OF assms(3)] Inr show False by (metis Inl_Inr_False)
      qed
      with Cons q p Some Inr show ?thesis by auto
    qed
  qed
qed

text \<open>
  What the loop adds to the histories: every entry is one of its pane, an entry that was there is
  there still, and every terminal of a pane has its screen.
\<close>

lemma screen_histories_keep:
  assumes "screen_histories os s panes hs w = (Inr hs', w')" "\<forall>k h. bt_get hs k = Some h \<longrightarrow> ph_pane h = k"
  shows "(\<forall>k h. bt_get hs' k = Some h \<longrightarrow> ph_pane h = k) \<and> (\<forall>k. bt_get hs k \<noteq> None \<longrightarrow> bt_get hs' k \<noteq> None)"
  using assms
proof (induction panes arbitrary: hs w)
  case Nil
  then show ?case by simp
next
  case (Cons q panes)
  obtain k t where q: "q = (k, t)" by force
  obtain p w1 where p: "projection os (ss_runtime s) t w = (p, w1)" by force
  show ?case
  proof (cases p)
    case None
    with Cons.prems(1) q p have "screen_histories os s panes hs w1 = (Inr hs', w')" by simp
    from Cons.IH [OF this Cons.prems(2)] show ?thesis .
  next
    case (Some pr)
    then obtain y where y: "from_terminal (rpp_snapshot pr) (output_revision_of s k) 0 pane_lifecycle.Stopped
        (unread_of s k) (attention_of s k) = Inr y"
      and rest: "screen_histories os s panes (bt_insert k \<lparr>ph_pane = k, ph_screen = y\<rparr> hs) w1 = (Inr hs', w')"
      using Cons.prems(1) q p by (auto split: sum.splits)
    have "\<forall>j h. bt_get (bt_insert k \<lparr>ph_pane = k, ph_screen = y\<rparr> hs) j = Some h \<longrightarrow> ph_pane h = j"
      using Cons.prems(2) by simp
    from Cons.IH [OF rest this] show ?thesis by (auto split: if_splits)
  qed
qed

lemma screen_histories_screens:
  assumes "screen_histories os s panes hs w = (Inr hs', w')" "distinct (map fst panes)"
  shows "(\<forall>k. k \<notin> fst ` set panes \<longrightarrow> bt_get hs' k = bt_get hs k) \<and>
    (\<forall>(k, t) \<in> set panes. case bt_get (rt_panes (ss_runtime s)) t of
       None \<Rightarrow> bt_get hs' k = bt_get hs k
     | Some x \<Rightarrow> \<exists>h. bt_get hs' k = Some h \<and> ps_rows (ph_screen h) = ts_rows (model_snapshot 0 (pr_model x)) \<and>
         ps_unread_count (ph_screen h) = unread_of s k \<and> ps_attention (ph_screen h) = attention_of s k)"
  using assms
proof (induction panes arbitrary: hs w)
  case Nil
  then show ?case by simp
next
  case (Cons q panes)
  obtain k t where q: "q = (k, t)" by force
  obtain p w1 where p: "projection os (ss_runtime s) t w = (p, w1)" by force
  have k: "k \<notin> fst ` set panes" "distinct (map fst panes)" using Cons.prems(2) q by auto
  show ?case
  proof (cases p)
    case None
    with Cons.prems(1) q p have "screen_histories os s panes hs w1 = (Inr hs', w')" by simp
    from Cons.IH [OF this k(2)] k(1) projection_result [OF p] None q show ?thesis by auto
  next
    case (Some pr)
    then obtain y where y: "from_terminal (rpp_snapshot pr) (output_revision_of s k) 0 pane_lifecycle.Stopped
        (unread_of s k) (attention_of s k) = Inr y"
      and rest: "screen_histories os s panes (bt_insert k \<lparr>ph_pane = k, ph_screen = y\<rparr> hs) w1 = (Inr hs', w')"
      using Cons.prems(1) q p by (auto split: sum.splits)
    obtain x where x: "bt_get (rt_panes (ss_runtime s)) t = Some x" "rpp_snapshot pr = model_snapshot 0 (pr_model x)"
      using projection_result [OF p] Some by (cases "bt_get (rt_panes (ss_runtime s)) t") auto
    note ih = Cons.IH [OF rest k(2)]
    have hs: "bt_get hs' k = Some \<lparr>ph_pane = k, ph_screen = y\<rparr>" using ih k(1) by auto
    have other: "bt_get (bt_insert k \<lparr>ph_pane = k, ph_screen = y\<rparr> hs) j = bt_get hs j" if "j \<noteq> k" for j
      using that by simp
    have "(case bt_get (rt_panes (ss_runtime s)) t' of
       None \<Rightarrow> bt_get hs' k' = bt_get hs k'
     | Some x \<Rightarrow> \<exists>h. bt_get hs' k' = Some h \<and> ps_rows (ph_screen h) = ts_rows (model_snapshot 0 (pr_model x)) \<and>
         ps_unread_count (ph_screen h) = unread_of s k' \<and> ps_attention (ph_screen h) = attention_of s k')"
      if "(k', t') \<in> set (q # panes)" for k' t'
    proof (cases "(k', t') = q")
      case True
      with hs x q from_terminal_rows [OF y] show ?thesis by simp
    next
      case False
      with that have i: "(k', t') \<in> set panes" by simp
      with k(1) have "k' \<noteq> k" by force
      with ih i other show ?thesis by (fastforce split: option.splits)
    qed
    moreover have "bt_get hs' j = bt_get hs j" if "j \<notin> fst ` set (q # panes)" for j
      using ih other [of j] that q by simp
    ultimately show ?thesis by blast
  qed
qed

section \<open>Restoring\<close>

lemma bt_from_values_get:
  "bt_get (foldl (\<lambda>m (k, v). bt_insert k v m) m xs) k = (case map_of (rev xs) k of Some v \<Rightarrow> Some v | None \<Rightarrow> bt_get m k)"
  by (induction xs arbitrary: m) (auto simp: map_add_def split: option.splits)

lemma keyed_histories:
  assumes "\<forall>k h. bt_get hs k = Some h \<longrightarrow> ph_pane h = k"
  shows "bt_get (bt_from_list (map (\<lambda>h. (ph_pane h, ph_screen h)) (bt_values hs))) k = map_option ph_screen (bt_get hs k)"
proof -
  let ?xs = "map (\<lambda>h. (ph_pane h, ph_screen h)) (bt_values hs)"
  have "map fst ?xs = bt_keys hs"
    using assms by (auto simp: bt_values_def bt_keys_def comp_def bt_entries_get intro!: map_cong)
  then have d: "distinct (map fst ?xs)" using bt_keys_distinct [of hs] by simp
  then have "distinct (map fst (rev ?xs))" by (metis rev_map distinct_rev)
  then have "map_of (rev ?xs) k = map_of ?xs k"
    using d map_of_inject_set [of "rev ?xs" ?xs] by simp
  moreover have "map_of ?xs k = map_option ph_screen (bt_get hs k)"
  proof (cases "bt_get hs k")
    case (Some h)
    with assms have "(k, ph_screen h) \<in> set ?xs" using bt_get_in_values [OF Some] by force
    with d Some show ?thesis by simp
  next
    case None
    have "k \<notin> fst ` set ?xs" using assms None by (auto simp: bt_values_get)
    with None show ?thesis by (simp add: map_of_eq_None_iff)
  qed
  ultimately show ?thesis by (simp add: bt_from_list_def bt_from_values_get split: option.split)
qed

lemma persistence_taken:
  assumes "take_persistence os s w = (Inr (Some r), s', w')"
  obtains hs where "screen_histories os s (bt_entries (ss_terminal_panes s))
      (bt_map (\<lambda>pane screen. \<lparr>ph_pane = pane, ph_screen = screen\<rparr>) (ss_historical s)) w = (Inr hs, w')"
    "persisted_new (ss_catalog s) (bt_values hs) = Inr r"
  using assms by (auto simp: take_persistence_def split: if_splits prod.splits sum.splits)

lemma taken_histories:
  assumes "screen_histories os s (bt_entries (ss_terminal_panes s))
      (bt_map (\<lambda>pane screen. \<lparr>ph_pane = pane, ph_screen = screen\<rparr>) (ss_historical s)) w = (Inr hs, w')"
  shows "\<forall>k h. bt_get hs k = Some h \<longrightarrow> ph_pane h = k"
    "bt_get (ss_historical s) k \<noteq> None \<Longrightarrow> bt_get hs k \<noteq> None"
    "case screen_of s k of
       None \<Rightarrow> map_option ph_screen (bt_get hs k) = bt_get (ss_historical s) k
     | Some t \<Rightarrow> \<exists>x. map_option ph_screen (bt_get hs k) = Some x \<and> ps_rows x = ts_rows t \<and>
         ps_unread_count x = unread_of s k \<and> ps_attention x = attention_of s k"
proof -
  let ?hs = "bt_map (\<lambda>pane screen. \<lparr>ph_pane = pane, ph_screen = screen\<rparr>) (ss_historical s)"
  have keyed: "\<forall>k h. bt_get ?hs k = Some h \<longrightarrow> ph_pane h = k" by auto
  note kept = screen_histories_keep [OF assms keyed]
  show "\<forall>k h. bt_get hs k = Some h \<longrightarrow> ph_pane h = k" using kept by blast
  show "bt_get (ss_historical s) k \<noteq> None \<Longrightarrow> bt_get hs k \<noteq> None" using kept by (auto dest: spec [where x = k])
  have "distinct (map fst (bt_entries (ss_terminal_panes s)))"
    using bt_keys_distinct [of "ss_terminal_panes s"] by (simp add: bt_keys_def)
  note screens = screen_histories_screens [OF assms this]
  have old: "map_option ph_screen (bt_get ?hs k) = bt_get (ss_historical s) k" by (simp add: option.map_comp comp_def option.map_ident)
  show "case screen_of s k of
       None \<Rightarrow> map_option ph_screen (bt_get hs k) = bt_get (ss_historical s) k
     | Some t \<Rightarrow> \<exists>x. map_option ph_screen (bt_get hs k) = Some x \<and> ps_rows x = ts_rows t \<and>
         ps_unread_count x = unread_of s k \<and> ps_attention x = attention_of s k"
  proof (cases "bt_get (ss_terminal_panes s) k")
    case None
    then have "k \<notin> fst ` set (bt_entries (ss_terminal_panes s))" by (auto simp: bt_entries_get)
    with screens old None show ?thesis by (simp add: screen_of_def)
  next
    case (Some t)
    then have "(k, t) \<in> set (bt_entries (ss_terminal_panes s))" by (simp add: bt_entries_get)
    with screens old Some show ?thesis by (fastforce simp: screen_of_def split: option.splits)
  qed
qed

lemma build_restored:
  assumes "stopped_clone (pe_catalog r) = Inr (pe_catalog r)" "pe_histories r = bt_values hs"
    "\<forall>k h. bt_get hs k = Some h \<longrightarrow> ph_pane h = k"
  obtains s w' where "service_restore os i r scrollback idle ids w = (Inr s, w')" "ss_catalog s = pe_catalog r"
    "running_panes s = 0" "\<And>k. bt_get (ss_historical s) k = map_option ph_screen (bt_get hs k)"
proof -
  obtain now w1 where "os_now os w = (now, w1)" by force
  with assms show ?thesis
    by (intro that) (auto simp: service_restore_def service_build_def keyed_histories running_panes_def running_processes_def
        terminal_runtime_new_def bt_values_def [of bt_empty])
qed

section \<open>States that cannot be persisted\<close>

lemma persist_oversized:
  assumes "ss_dirty s" "bt_get (ss_terminal_panes s) k = Some t" "bt_get (rt_panes (ss_runtime s)) t = Some x"
    "\<not> snapshot_fits (model_snapshot 0 (pr_model x))"
  shows "\<exists>e w'. persist_if_dirty d s w = (Inl (ServiceSnapshot e), s, w')"
proof -
  have "(k, t) \<in> set (bt_entries (ss_terminal_panes s))" using assms(2) by (simp add: bt_entries_get)
  from screen_histories_oversized [OF this assms(3,4), where os = "do_os d"] obtain e w' where
    "screen_histories (do_os d) s (bt_entries (ss_terminal_panes s))
       (bt_map (\<lambda>pane screen. \<lparr>ph_pane = pane, ph_screen = screen\<rparr>) (ss_historical s)) w = (Inl (ServiceSnapshot e), w')"
    by blast
  with assms(1) show ?thesis by (simp add: persist_if_dirty_def take_persistence_def)
qed

lemma blank_screen_bytes: "screen_bytes (blank_rows sz) = gs_rows sz * gs_columns sz * (CELL_OVERHEAD_BYTES + 1)"
proof -
  have "screen_bytes (replicate n (blank_row m)) = n * m * (CELL_OVERHEAD_BYTES + 1)" for n m
    by (induction n) (simp_all add: screen_bytes_def blank_row_def sum_list_replicate cell_default_def algebra_simps str_len_def len_utf8_def)
  then show ?thesis by (simp add: blank_rows_def)
qed

text \<open>The sizes of a terminal that a snapshot of its blank screen has room for.\<close>

definition size_fits :: "nat \<Rightarrow> nat \<Rightarrow> bool" where
  "size_fits rows columns \<longleftrightarrow>
     rows \<le> MAX_ROWS \<and> columns \<le> MAX_COLUMNS \<and> rows * columns * (CELL_OVERHEAD_BYTES + 1) \<le> MAX_SNAPSHOT_BYTES"

lemma new_model_fits:
  assumes "gs_rows sz \<noteq> 0"
  shows "snapshot_fits (model_snapshot 0 (model_new parser sz n)) \<longleftrightarrow> size_fits (gs_rows sz) (gs_columns sz)"
proof -
  have "ts_rows (model_snapshot 0 (model_new parser sz n)) = blank_rows sz"
    by (simp add: model_snapshot_def model_new_def performer_new_def grid_snapshot_def grid_new_def active_ref_def
        screen_new_def Let_def)
  with assms show ?thesis
    by (auto simp: snapshot_fits_def size_fits_def blank_screen_bytes) (auto simp: blank_rows_def blank_row_def list_all_iff)
qed

lemma histories_ok_contains: "histories_ok c hs seen \<Longrightarrow> h \<in> set hs \<Longrightarrow> contains_pane c (ph_pane h)"
  by (induction hs arbitrary: seen) auto

lemma persisted_new_missing:
  assumes "catalog_ok c" "h \<in> set hs" "\<not> contains_pane c (ph_pane h)"
  shows "persisted_new c hs = Inl InvalidHistory"
proof -
  let ?c = "c\<lparr>cat_sessions := bt_map (\<lambda>_. stop_session) (cat_sessions c)\<rparr>"
  have "catalog_ok ?c" by (rule catalog_ok_stop [OF assms(1)])
  moreover have "\<not> contains_pane ?c (ph_pane h)"
    using assms(3) by (auto simp: contains_pane_def bt_values_map list_ex_iff stop_session_def stop_window_def bt_contains_def bt_values_def)
  then have "\<not> histories_ok ?c hs {}" using histories_ok_contains assms(2) by blast
  moreover have "stopped_clone c = Inr ?c" using assms(1) by (simp add: stopped_clone_ok)
  ultimately show ?thesis
    by (simp add: persisted_new_def persisted_validate_def catalog_validate_ok [THEN iffD2] Let_def cong: if_cong)
qed

lemma screen_histories_err: "screen_histories os s panes hs w = (Inl e, w') \<Longrightarrow> \<exists>x. e = ServiceSnapshot x"
  by (induction panes arbitrary: hs w) (force split: prod.splits option.splits sum.splits)+

lemma persist_missing:
  fixes d :: "('h, 'p, 'w, 'x) daemon_outside"
  assumes "ss_dirty s" "catalog_ok (ss_catalog s)" "bt_get (ss_historical s) k \<noteq> None" "\<not> contains_pane (ss_catalog s) k"
  shows "\<exists>e w'. persist_if_dirty d s w = (Inl e, s, w') \<and> (e = ServiceStore InvalidHistory \<or> (\<exists>x. e = ServiceSnapshot x))"
proof -
  obtain res w1 where h: "screen_histories (do_os d) s (bt_entries (ss_terminal_panes s))
      (bt_map (\<lambda>pane screen. \<lparr>ph_pane = pane, ph_screen = screen\<rparr>) (ss_historical s)) w = (res, w1)" by force
  show ?thesis
  proof (cases res)
    case (Inl e)
    have "\<exists>x. e = ServiceSnapshot x" using screen_histories_err [OF h [unfolded Inl]] .
    with Inl h assms(1) show ?thesis by (auto simp: persist_if_dirty_def take_persistence_def)
  next
    case (Inr hs)
    note t = taken_histories [OF h [unfolded Inr]]
    obtain x where x: "bt_get hs k = Some x" using t(2) [OF assms(3)] by blast
    have "(persisted_new (ss_catalog s) (bt_values hs) :: session_store_error + 'x persisted_catalog) = Inl InvalidHistory"
      using bt_get_in_values [OF x] t(1) x assms(4) by (intro persisted_new_missing [OF assms(2), of x]) auto
    with h Inr assms(1) show ?thesis by (simp add: persist_if_dirty_def take_persistence_def)
  qed
qed

section \<open>Properties of the store\<close>

text \<open>
  A save that fails loses nothing: whatever step it fails at, the store still loads what it
  loaded before.
\<close>

theorem failed_saves_lose_nothing:
  assumes "store_save js r st = (Inl e, st')"
  shows "store_load js st' = store_load js st"
  using assms
proof (cases rule: store_save_cases)
  case (backed e)
  then obtain r0 where "readable js (st_current st) = Some r0" by auto
  with backed load_current [of js st r0] load_current [of js st' r0] show ?thesis by simp
qed auto

text \<open>
  Once a record is saved over a readable one, a current file that becomes unreadable in any way
  falls back to the record before it.
\<close>

theorem damaged_files_fall_back:
  assumes "readable js (st_current st) \<noteq> None" "store_save js r st = (Inr (), st')" "readable js damaged = None"
  shows "store_load js (st'\<lparr>st_current := damaged\<rparr>) = store_load js st"
  using assms(2)
proof (cases rule: store_save_cases)
  case (saved r' bytes backup)
  obtain r0 where r0: "readable js (st_current st) = Some r0" using assms(1) by blast
  with saved have "readable js (st_backup (st'\<lparr>st_current := damaged\<rparr>)) = Some r0" by simp
  with load_backup [of js "st'\<lparr>st_current := damaged\<rparr>" r0] load_current [OF r0] assms(3) show ?thesis by simp
qed simp_all

section \<open>Properties of the daemon's records\<close>

text \<open>
  C5. What the service takes for persistence and the store saves comes back after a restart: the same
  sessions, stopped; no process; and for every pane the rows, the unread count and the attention of its
  terminal, or the screen that was restored before if it had none.
\<close>

theorem sessions_survive_the_daemon:
  assumes "take_persistence os s w = (Inr (Some r), s', w')" "reads_back js r" "store_save js r st = (Inr (), st')"
  shows "store_load js st' = Inr (Some r) \<and>
    (case service_restore os i r scrollback idle ids w2 of
       (Inl e, w3) \<Rightarrow> False
     | (Inr s2, w3) \<Rightarrow>
         stopped_clone (ss_catalog s) = Inr (ss_catalog s2) \<and> running_panes s2 = 0 \<and>
         (\<forall>k. case screen_of s k of
            None \<Rightarrow> bt_get (ss_historical s2) k = bt_get (ss_historical s) k
          | Some t \<Rightarrow> \<exists>x. bt_get (ss_historical s2) k = Some x \<and> ps_rows x = ts_rows t \<and>
              ps_unread_count x = unread_of s k \<and> ps_attention x = attention_of s k))"
proof -
  obtain hs where h: "screen_histories os s (bt_entries (ss_terminal_panes s))
      (bt_map (\<lambda>pane screen. \<lparr>ph_pane = pane, ph_screen = screen\<rparr>) (ss_historical s)) w = (Inr hs, w')"
    and new: "persisted_new (ss_catalog s) (bt_values hs) = Inr r"
    using assms(1) by (rule persistence_taken)
  note n = persisted_new_normalized [OF new]
  have load: "store_load js st' = Inr (Some r)"
    using assms(3)
  proof (cases rule: store_save_cases)
    case (saved r' bytes backup)
    then have "r' = r" using n by simp
    with saved decode_printed [OF assms(2)] normalized_idem(2) [OF n] have "readable js (st_current st') = Some r"
      by (simp add: readable_def)
    from load_current [OF this] n show ?thesis by simp
  qed simp_all
  have c: "stopped_clone (ss_catalog s) = Inr (pe_catalog r)" "pe_histories r = bt_values hs"
    using new by (auto simp: persisted_new_def outcome Let_def)
  obtain s2 w3 where s2: "service_restore os i r scrollback idle ids w2 = (Inr s2, w3)" "ss_catalog s2 = pe_catalog r"
    "running_panes s2 = 0" "\<And>k. bt_get (ss_historical s2) k = map_option ph_screen (bt_get hs k)"
    by (rule build_restored [OF stopped_clone_idem [OF c(1)] c(2) taken_histories(1) [OF h], of os i scrollback idle ids w2]) (rule that)
  have "\<forall>k. case screen_of s k of
      None \<Rightarrow> bt_get (ss_historical s2) k = bt_get (ss_historical s) k
    | Some t \<Rightarrow> \<exists>x. bt_get (ss_historical s2) k = Some x \<and> ps_rows x = ts_rows t \<and>
        ps_unread_count x = unread_of s k \<and> ps_attention x = attention_of s k"
    unfolding s2(4) by (rule allI) (rule taken_histories(3) [OF h])
  with load c(1) s2(1-3) show ?thesis by simp
qed

text \<open>
  C9. A pane started at a size whose blank screen no snapshot has room for - more than 512 columns, or
  more than about 31 thousand cells - stops the daemon with every session it serves: the start
  succeeds, then the record cannot be built, and the loop ends without answering.
\<close>

theorem large_panes_stop_the_daemon:
  assumes "serving d dm" "ids_left MAX_TOTAL_PANES (dm_service dm)" "dm_controlling dm = Some client"
    "catalog_pane (ss_catalog (dm_service dm)) pane = Some (sid, wid, p)" "do_default_shell d = Inr shell"
    "request_id \<noteq> 0" "rows \<noteq> 0" "columns \<noteq> 0" "\<not> size_fits (unat rows) (unat columns)"
  shows "\<exists>e w'. service_turn d
    (Request client (request_envelope_new request_id (cat_revision (ss_catalog (dm_service dm)))
      (ReqStartPane sid pane rows columns)) rng) dm w = Some (None, Fails (ServiceSnapshot e), w')"
proof -
  let ?s = "dm_service dm"
  have s: "service_ok ?s" using serving_ok [OF assms(1)] by (simp add: daemon_ok_def)
  have left: "ti_next_pane (ss_terminal_ids ?s) \<noteq> - 1"
    by (rule ids_left_next [OF assms(2)]) (simp add: MAX_TOTAL_PANES_def)
  obtain r s1 w1 where run: "start_default_pane d (cat_revision (ss_catalog ?s)) sid pane rows columns ?s w = (r, s1, w1)"
    by (metis prod_cases3)
  obtain t x where s1: "ss_dirty s1" "bt_get (ss_terminal_panes s1) pane = Some t" "bt_get (rt_panes (ss_runtime s1)) t = Some x"
    and x: "pr_model x = model_new (os_parser (do_os d)) \<lparr>gs_rows = unat rows, gs_columns = unat columns\<rparr>
      (rt_scrollback_limit (ss_runtime ?s))"
    by (rule start_default_pane_leaves [OF s left assms(4,5,7,8) run])
  have "unat rows \<noteq> 0" using assms(7) by (simp add: unat_eq_zero)
  then have "\<not> snapshot_fits (model_snapshot 0 (pr_model x))" using assms(9) by (simp add: x new_model_fits)
  from persist_oversized [OF s1 this, where d = d and w = w1] obtain e w2 where "persist_if_dirty d s1 w1 = (Inl (ServiceSnapshot e), s1, w2)" by blast
  with run assms(3,6-8) show ?thesis
    by (simp add: service_turn_def handle_request_def request_envelope_new_def request_validate_def
        require_controller_def handle_controlled_request_def Let_def)
qed

lemma forget_panes_historical:
  "k \<notin> set ks \<Longrightarrow> bt_get (ss_historical (fold forget_pane ks s)) k = bt_get (ss_historical s) k"
  by (induction ks arbitrary: s) (auto simp: forget_pane_def Let_def split: option.split)

lemma forget_panes_catalog: "ss_catalog (fold forget_pane ks s) = ss_catalog s"
  by (induction ks arbitrary: s) simp_all

text \<open>
  C10. Removing a stopped session stops the daemon when a pane of it shows a restored screen and was
  never started: the screen stays among the histories, the record is refused, and the loop ends
  without answering and without having saved the removal.
\<close>

theorem removed_histories_stop_the_daemon:
  assumes "serving d dm" "dm_controlling dm = Some client" "request_id \<noteq> 0"
    "bt_get (cat_sessions (ss_catalog (dm_service dm))) sid = Some t" "\<not> has_live_panes t"
    "catalog_pane (ss_catalog (dm_service dm)) pane = Some (sid, wid, p)"
    "bt_get (ss_historical (dm_service dm)) pane \<noteq> None" "bt_get (ss_terminal_panes (dm_service dm)) pane = None"
  shows "\<exists>e w'. service_turn d
    (Request client (request_envelope_new request_id (cat_revision (ss_catalog (dm_service dm))) (ReqRemoveSession sid)) rng)
    dm w = Some (None, Fails e, w') \<and> (e = ServiceStore InvalidHistory \<or> (\<exists>x. e = ServiceSnapshot x))"
proof -
  let ?s = "dm_service dm" and ?m = "remove_session sid (cat_revision (ss_catalog (dm_service dm)))"
  have s: "service_ok ?s" using serving_ok [OF assms(1)] by (simp add: daemon_ok_def)
  note c = service_ok_catalog_ok [OF s]
  obtain c' where rm: "?m (ss_catalog ?s) = (Inr (), c')" and c': "cat_sessions c' = bt_remove sid (cat_sessions (ss_catalog ?s))"
    using assms(4,5) by (auto simp: remove_session_def expect_revision_def Let_def bump_revision_def)
  have gone: "\<not> contains_pane c' pane"
  proof
    assume "contains_pane c' pane"
    then obtain sid' u w where "bt_get (cat_sessions c') sid' = Some u" "w \<in> set (se_windows u)" "bt_contains (sw_panes w) pane"
      by (auto simp: contains_pane_def list_ex_iff bt_values_get)
    then obtain q where q: "holds_pane (ss_catalog ?s) sid' (sw_id w) pane q" "sid' \<noteq> sid"
      by (auto simp: c' holds_pane_iff bt_contains_def split: if_splits)
    moreover have "holds_pane (ss_catalog ?s) sid wid pane p" using assms(6) catalog_pane_holds [OF c] by blast
    ultimately show False using holds_pane_unique [OF c] by blast
  qed
  obtain s1 where run: "apply_catalog_mutation (ss_service_instance ?s) ?m ?s = (Inr (), s1)"
    and s1: "ss_dirty s1" "ss_catalog s1 = c'" "bt_get (ss_historical s1) pane = bt_get (ss_historical ?s) pane"
    using rm assms(8) by (auto simp: apply_catalog_mutation_def Let_def set_bt_keys forget_panes_historical forget_panes_catalog)
  have "service_ok s1" using mut_remove_session.service_keeps [OF s _ run] fresh_nothing(1) by blast
  note bad = persist_missing [OF s1(1) service_ok_catalog_ok [OF this], of pane d w]
  obtain e w2 where "persist_if_dirty d s1 w = (Inl e, s1, w2)" "e = ServiceStore InvalidHistory \<or> (\<exists>x. e = ServiceSnapshot x)"
    using bad assms(7) s1(2,3) gone by auto
  with run assms(2,3) show ?thesis
    by (simp add: service_turn_def handle_request_def request_envelope_new_def request_validate_def
        require_controller_def handle_controlled_request_def changing_def Let_def)
qed

section \<open>Witnesses\<close>

lemma example_pane_place:
  "catalog_pane example_catalog (example_id 3) = Some (example_id 1, example_id 2, stopped_pane (example_id 3) (lit ''/work''))"
  by (simp add: catalog_pane_def example_catalog_eq bt_eval single_pane_window_def)

lemma example_ids: "ids_left MAX_TOTAL_PANES (dm_service example_daemon)"
  by (simp add: ids_left_def MAX_TOTAL_PANES_def example_daemon_def)

lemma example_controls: "dm_controlling example_daemon = Some 7" "ss_catalog (dm_service example_daemon) = example_catalog"
  "ss_terminal_panes (dm_service example_daemon) = bt_empty"
  "ss_historical (dm_service example_daemon) = bt_insert (example_id 3) example_screen bt_empty"
  by (simp_all add: example_daemon_def)

theorem generations_never_diverge_witness:
  "\<exists>r ctl s. handle_request example_daemon_outside [] 7
      (request_envelope_new 2 1 (ReqStartPane (example_id 1) (example_id 3) 24 80)) (dm_controlling example_daemon)
      (dm_service example_daemon) () = Some (r, ctl, s, ()) \<and> r \<noteq> Inl GenerationDiverged \<and> catalog_ok (ss_catalog s)"
proof -
  let ?request = "request_envelope_new 2 1 (ReqStartPane (example_id 1) (example_id 3) 24 80)"
  obtain r1 s1 w1 where "start_default_pane example_daemon_outside 1 (example_id 1) (example_id 3) 24 80
      (dm_service example_daemon) () = (r1, s1, w1)" by (metis prod_cases3)
  then obtain r ctl s where run: "handle_request example_daemon_outside [] 7 ?request (dm_controlling example_daemon)
      (dm_service example_daemon) () = Some (r, ctl, s, ())"
    by (simp add: handle_request_def request_envelope_new_def request_validate_def require_controller_def
        handle_controlled_request_def example_controls Let_def)
  from generations_never_diverge [OF example_serving _ example_ids run] run fresh_nothing(1) show ?thesis by blast
qed

theorem large_panes_stop_the_daemon_witness:
  "\<exists>e w'. service_turn example_daemon_outside
    (Request 7 (request_envelope_new 2 (cat_revision (ss_catalog (dm_service example_daemon)))
      (ReqStartPane (example_id 1) (example_id 3) 100 320)) []) example_daemon () = Some (None, Fails (ServiceSnapshot e), w')"
  by (rule large_panes_stop_the_daemon [OF example_serving example_ids example_controls(1)])
    (simp_all add: example_controls example_pane_place size_fits_def MAX_SNAPSHOT_BYTES_def CELL_OVERHEAD_BYTES_def)

theorem removed_histories_stop_the_daemon_witness:
  "\<exists>e w'. service_turn example_daemon_outside
    (Request 7 (request_envelope_new 2 (cat_revision (ss_catalog (dm_service example_daemon)))
      (ReqRemoveSession (example_id 1))) []) example_daemon () = Some (None, Fails e, w') \<and>
    (e = ServiceStore InvalidHistory \<or> (\<exists>x. e = ServiceSnapshot x))"
proof (rule removed_histories_stop_the_daemon [OF example_serving example_controls(1)])
  show "catalog_pane (ss_catalog (dm_service example_daemon)) (example_id 3) =
      Some (example_id 1, example_id 2, stopped_pane (example_id 3) (lit ''/work''))"
    by (simp add: example_controls example_pane_place)
  show "bt_get (cat_sessions (ss_catalog (dm_service example_daemon))) (example_id 1) =
      Some \<lparr>se_id = example_id 1, se_name = lit ''main'', se_revision = 1,
        se_windows = [single_pane_window (example_id 2) (lit ''shell'') (example_id 3) (lit ''/work'')],
        se_active_window = example_id 2\<rparr>"
    by (simp add: example_controls example_catalog_eq)
qed (simp_all add: example_controls has_live_panes_def single_pane_window_def stopped_pane_def window_has_live_panes_def bt_eval)

text \<open>A serde that knows one record, and the store that holds it.\<close>

definition example_record :: "unit persisted_catalog" where
  "example_record =
     \<lparr>pe_schema_version = CURRENT_SCHEMA, pe_catalog = example_catalog,
      pe_histories = [\<lparr>ph_pane = example_id 3, ph_screen = example_screen\<rparr>], pe_extra = bt_empty\<rparr>"

definition example_serde :: "(unit, unit) serde" where
  "example_serde =
     \<lparr>js_print = (\<lambda>r. if r = example_record then Inr [123, 125] else Inl (lit ''record'')),
      js_parse = (\<lambda>bytes. if bytes = [123, 125] then Inr () else Inl (lit ''syntax'')),
      js_schema = (\<lambda>_. Some 1), js_record = (\<lambda>_. Inr example_record)\<rparr>"

definition example_store :: "rust_string option \<Rightarrow> session_store" where
  "example_store failure =
     \<lparr>st_current = Contents [123, 125], st_backup = Missing, st_current_failure = failure, st_backup_failure = None\<rparr>"

lemma example_record_new:
  "persisted_new example_catalog [\<lparr>ph_pane = example_id 3, ph_screen = example_screen\<rparr>] = Inr example_record"
proof -
  have "contains_pane example_catalog (example_id 3)"
    by (simp add: contains_pane_def example_catalog_eq bt_eval single_pane_window_def)
  then have "persisted_validate example_record = Inr ()"
    using example_catalog_ok by (simp add: persisted_validate_def example_record_def catalog_validate_ok [THEN iffD2] MAX_HISTORIES_def)
  then show ?thesis by (simp add: persisted_new_def example_stopped example_record_def)
qed

lemma example_reads_back: "reads_back example_serde example_record"
  by (simp add: reads_back_def example_serde_def) (simp add: example_record_def CURRENT_SCHEMA_def)

lemma example_decoded: "decode_record example_serde [123, 125] = Inr example_record"
  by (rule decode_printed [OF example_reads_back _ normalized_idem(2) [OF persisted_new_normalized [OF example_record_new]]])
    (simp add: example_serde_def)

lemma example_readable: "readable example_serde (st_current (example_store failure)) = Some example_record"
  by (simp add: readable_def example_store_def MAX_STORE_BYTES_def example_decoded)

lemma example_save:
  "store_save example_serde example_record (example_store failure) =
    (case failure of
       None \<Rightarrow> (Inr (), (example_store None)\<lparr>st_backup := Contents [123, 125]\<rparr>)
     | Some e \<Rightarrow> (Inl (StoreIo e), (example_store failure)\<lparr>st_backup := Contents [123, 125]\<rparr>))"
proof -
  have p: "js_print example_serde example_record = Inr [123, 125]" by (simp add: example_serde_def)
  show ?thesis
    by (simp add: store_save_def persisted_new_normalized [OF example_record_new] example_store_def MAX_STORE_BYTES_def
        example_decoded write_backup_def write_current_def p split: option.split)
qed

theorem failed_saves_lose_nothing_witness:
  "store_load example_serde ((example_store (Some []))\<lparr>st_backup := Contents [123, 125]\<rparr>) =
    store_load example_serde (example_store (Some []))"
  by (rule failed_saves_lose_nothing [where r = example_record and e = "StoreIo []"]) (simp add: example_save)

theorem damaged_files_fall_back_witness:
  "store_load example_serde ((example_store None)\<lparr>st_backup := Contents [123, 125]\<rparr>\<lparr>st_current := Contents []\<rparr>) =
    store_load example_serde (example_store None)"
proof (rule damaged_files_fall_back [where r = example_record])
  show "readable example_serde (Contents []) = None"
    by (simp add: readable_def decode_record_def example_serde_def)
qed (simp_all add: example_save example_readable)

theorem sessions_survive_the_daemon_witness:
  "store_load example_serde ((example_store None)\<lparr>st_backup := Contents [123, 125]\<rparr>) = Inr (Some example_record) \<and>
   (\<exists>s2. service_restore example_outside (example_id 9) example_record 0 0 \<lparr>ti_next_pane = 1, ti_next_tab = 1\<rparr> () =
       (Inr s2, ()) \<and> bt_get (ss_historical s2) (example_id 3) = Some example_screen)"
proof -
  let ?s = "example_service\<lparr>ss_dirty := True\<rparr>"
  have taken: "take_persistence example_outside ?s () = (Inr (Some example_record), ?s\<lparr>ss_dirty := False\<rparr>, ())"
    using example_record_new
    by (simp add: take_persistence_def bt_values_def bt_entries_insert put_key_def)
  have saved: "store_save example_serde example_record (example_store None) =
      (Inr (), (example_store None)\<lparr>st_backup := Contents [123, 125]\<rparr>)" by (simp add: example_save)
  note survive = sessions_survive_the_daemon [OF taken example_reads_back saved, of "example_id 9" 0 0
      "\<lparr>ti_next_pane = 1, ti_next_tab = 1\<rparr>" "()"]
  obtain r :: "service_error + (unit, unit) session_service" and w2 where r: "service_restore example_outside (example_id 9) example_record 0 0 \<lparr>ti_next_pane = 1, ti_next_tab = 1\<rparr> () = (r, w2)"
    by (rule that) (rule prod.collapse [symmetric])
  with survive show ?thesis
    by (cases r) (auto simp: screen_of_def dest!: spec [where x = "example_id 3"])
qed

end
