(* ===== verification/SessionClient.thy ===== *)
theory SessionClient imports SessionService begin

text \<open>
  The client of the session service (\<open>strukt-session/src/client.rs\<close>): one request in flight over one
  connection, with the catalog and the pane snapshots it last received. Connections and the backend
  that makes them are trait objects: a handle and the calls on it, on a world \<open>'w\<close>.
\<close>

section \<open>State\<close>

definition RETRY_DELAYS :: "nat list" where
  "RETRY_DELAYS = [millis 25, millis 50, millis 100, millis 200, millis 400, millis 800, millis 2000]"

datatype client_error =
    ClientUnavailable
  | ClientRequestInFlight
  | ClientTransportLost
  | ClientStaleService
  | ClientProtocol
  | ClientInvalidPath
  | ClientProtocolDetail rust_string
  | ClientProvider provider_error
  | ClientIo rust_string
  | ClientEndpoint rust_string
  | ClientRendezvous rust_string
  | ClientAuthentication rust_string
  | ClientFrame rust_string

datatype client_connect_intent = ExplicitCreate | ExplicitAttach | ExplicitRestart | Reconnect

definition may_start_service :: "client_connect_intent \<Rightarrow> bool" where
  "may_start_service intent \<longleftrightarrow> intent \<noteq> Reconnect"

datatype client_health = ClientStopped | ClientConnecting | ClientReady | ClientStale | ClientFailed

text \<open>The trait \<open>ProviderConnection\<close> on a handle, and \<open>ClientBackend\<close>.\<close>

record ('c, 'w) provider_connection =
  pn_service_instance :: "'c \<Rightarrow> service_instance_id"
  pn_exchange :: "'c \<Rightarrow> request_envelope \<Rightarrow> 'w \<Rightarrow> (client_error + response_envelope) \<times> 'c \<times> 'w"

record ('c, 'w) client_backend =
  cb_connect :: "'w \<Rightarrow> (client_error + 'c) \<times> 'w"
  cb_start_service :: "'w \<Rightarrow> (client_error + unit) \<times> 'w"
  cb_wait :: "nat \<Rightarrow> 'w \<Rightarrow> 'w"

text \<open>The snapshots are a hash map; where the code walks it, the model walks it in the order of the panes.\<close>

record ('c, 'w) session_client =
  sc_backend :: "('c, 'w) client_backend"
  sc_connection :: "'c option"
  sc_request_ids :: u64
  sc_in_flight :: bool
  sc_health :: client_health
  sc_service_instance :: "service_instance_id option"
  sc_catalog :: "provider_catalog_snapshot option"
  sc_snapshots :: "(pane_id, pane_screen_snapshot) btree"
  sc_reconnect_resync :: "pane_id list"

record client_connect_job =
  ccj_intent :: client_connect_intent
  ccj_request_id :: u64
  ccj_expected_catalog_revision :: u64
  ccj_reconnect_cursors :: "pane_output_cursor list"

record 'c client_connect_completion =
  ccc_request_id :: u64
  ccc_intent :: client_connect_intent
  ccc_result :: "client_error + 'c \<times> response_envelope"

record 'c client_request_job =
  crj_connection :: 'c
  crj_request :: request_envelope

record 'c client_request_completion =
  crc_request_id :: u64
  crc_connection :: 'c
  crc_result :: "client_error + response_envelope"

definition client_from_backend :: "('c, 'w) client_backend \<Rightarrow> ('c, 'w) session_client" where
  "client_from_backend backend =
     \<lparr>sc_backend = backend, sc_connection = None, sc_request_ids = 0, sc_in_flight = False,
      sc_health = ClientStopped, sc_service_instance = None, sc_catalog = None, sc_snapshots = bt_empty,
      sc_reconnect_resync = []\<rparr>"

section \<open>The trusted paths\<close>

text \<open>\<open>validate_absolute\<close> on Unix: an absolute path without a component of two dots.\<close>

definition validate_absolute :: "path \<Rightarrow> client_error + path" where
  "validate_absolute p =
     (if \<not> fst (path_components p) \<or> lit ''..'' \<in> set (snd (path_components p))
      then Inl ClientInvalidPath else Inr p)"

definition client_with_backend ::
  "path \<Rightarrow> path \<Rightarrow> ('c, 'w) client_backend \<Rightarrow> client_error + ('c, 'w) session_client" where
  "client_with_backend application_data helper backend =
     and_then (validate_absolute application_data) (\<lambda>_.
     and_then (validate_absolute helper) (\<lambda>_. Inr (client_from_backend backend)))"

section \<open>Helpers\<close>

definition accepts_service_instance :: "('c, 'w) session_client \<Rightarrow> service_instance_id \<Rightarrow> bool" where
  "accepts_service_instance c i \<longleftrightarrow> sc_service_instance c = Some i"

definition client_catalog_revision :: "('c, 'w) session_client \<Rightarrow> u64" where
  "client_catalog_revision c =
     (case sc_catalog c of None \<Rightarrow> 0 | Some snapshot \<Rightarrow> cat_revision (pcs_catalog snapshot))"

definition client_reserve :: "('c, 'w) session_client \<Rightarrow> (client_error + unit) \<times> ('c, 'w) session_client" where
  "client_reserve c =
     (if sc_in_flight c then (Inl ClientRequestInFlight, c) else (Inr (), c\<lparr>sc_in_flight := True\<rparr>))"

definition client_next_request_id ::
  "('c, 'w) session_client \<Rightarrow> (client_error + u64) \<times> ('c, 'w) session_client" where
  "client_next_request_id c =
     (case next_request_id (sc_request_ids c) of
        (Inr i, ids) \<Rightarrow> (Inr i, c\<lparr>sc_request_ids := ids\<rparr>)
      | (Inl e, ids) \<Rightarrow>
          (Inl (ClientProtocolDetail (lit ''session request identifier space is exhausted'')),
           c\<lparr>sc_request_ids := ids, sc_in_flight := False\<rparr>))"

definition lost_health :: "('c, 'w) session_client \<Rightarrow> client_health" where
  "lost_health c = (if sc_catalog c \<noteq> None then ClientStale else ClientFailed)"

definition mark_transport_lost :: "('c, 'w) session_client \<Rightarrow> ('c, 'w) session_client" where
  "mark_transport_lost c = c\<lparr>sc_connection := None, sc_in_flight := False, sc_health := lost_health c\<rparr>"

definition rebind_backend ::
  "('c, 'w) client_backend \<Rightarrow> ('c, 'w) session_client \<Rightarrow> (client_error + unit) \<times> ('c, 'w) session_client" where
  "rebind_backend backend c =
     (if sc_in_flight c then (Inl ClientRequestInFlight, c)
      else (Inr (), c\<lparr>sc_backend := backend, sc_connection := None,
              sc_health := (if sc_catalog c \<noteq> None then ClientStale else ClientStopped)\<rparr>))"

text \<open>\<open>HashMap::retain\<close> of the panes a catalog holds.\<close>

definition retain_panes ::
  "session_catalog \<Rightarrow> (pane_id, pane_screen_snapshot) btree \<Rightarrow> (pane_id, pane_screen_snapshot) btree" where
  "retain_panes catalog m = fold bt_remove (filter (\<lambda>pane. \<not> contains_pane catalog pane) (bt_keys m)) m"

section \<open>Connecting\<close>

definition begin_connect ::
  "client_connect_intent \<Rightarrow> ('c, 'w) session_client \<Rightarrow>
     (client_error + client_connect_job) \<times> ('c, 'w) session_client" where
  "begin_connect intent c =
     (case client_reserve c of
        (Inl e, c) \<Rightarrow> (Inl e, c)
      | (Inr _, c) \<Rightarrow>
          (case client_next_request_id (c\<lparr>sc_health := ClientConnecting\<rparr>) of
             (Inl e, c) \<Rightarrow> (Inl e, c)
           | (Inr request_id, c) \<Rightarrow>
               (Inr \<lparr>ccj_intent = intent, ccj_request_id = request_id,
                  ccj_expected_catalog_revision = client_catalog_revision c,
                  ccj_reconnect_cursors =
                    concat (map (\<lambda>(pane, snapshot).
                      case pane_output_cursor_new pane (ps_generation snapshot) (ps_output_revision snapshot) of
                        Inl _ \<Rightarrow> [] | Inr cursor \<Rightarrow> [cursor])
                      (bt_entries (sc_snapshots c)))\<rparr>, c)))"

text \<open>The loop of \<open>ClientConnectJob::run\<close>, on the delays that are left.\<close>

fun connect_loop ::
  "('c, 'w) provider_connection \<Rightarrow> ('c, 'w) client_backend \<Rightarrow> client_connect_job \<Rightarrow> nat list \<Rightarrow> bool \<Rightarrow> 'w \<Rightarrow>
     (client_error + 'c \<times> response_envelope) \<times> 'w"
where
  "connect_loop k b job retries attempted_start w =
     (case cb_connect b w of
        (Inr connection, w) \<Rightarrow>
          (let body = (if ccj_intent job = Reconnect then ReqReconnect (ccj_reconnect_cursors job) else ReqAttach);
               request = request_envelope_new (ccj_request_id job) (ccj_expected_catalog_revision job) body
           in case pn_exchange k connection request w of (result, connection, w) \<Rightarrow>
             (and_then result (\<lambda>response. Inr (connection, response)), w))
      | (Inl e, w) \<Rightarrow>
          (case (if may_start_service (ccj_intent job) \<and> \<not> attempted_start
                 then (case cb_start_service b w of (result, w) \<Rightarrow> (result, True, w))
                 else if attempted_start \<or> \<not> may_start_service (ccj_intent job)
                 then (Inr (), attempted_start, w)
                 else (Inl e, attempted_start, w)) of
             (Inl e, _, w) \<Rightarrow> (Inl e, w)
           | (Inr _, attempted_start, w) \<Rightarrow>
               (case retries of
                  [] \<Rightarrow> (Inl ClientUnavailable, w)
                | delay # retries \<Rightarrow> connect_loop k b job retries attempted_start (cb_wait b delay w))))"

definition connect_job_run ::
  "('c, 'w) provider_connection \<Rightarrow> ('c, 'w) client_backend \<Rightarrow> client_connect_job \<Rightarrow> 'w \<Rightarrow> 'c client_connect_completion \<times> 'w" where
  "connect_job_run k b job w =
     (case connect_loop k b job RETRY_DELAYS False w of (result, w) \<Rightarrow>
       (\<lparr>ccc_request_id = ccj_request_id job, ccc_intent = ccj_intent job, ccc_result = result\<rparr>, w))"

definition attached_snapshot ::
  "response_envelope \<Rightarrow> u64 \<Rightarrow> service_instance_id \<Rightarrow> client_error + provider_catalog_snapshot" where
  "attached_snapshot response request_id i =
     (if rsp_request_id response \<noteq> request_id then Inl ClientProtocol
      else case rsp_result response of
          Inr (RespAttached snapshot) \<Rightarrow>
            if pcs_service_instance snapshot = i then Inr snapshot else Inl ClientStaleService
        | Inr _ \<Rightarrow> Inl ClientProtocol
        | Inl e \<Rightarrow> Inl (ClientProvider e))"

definition finish_connect ::
  "('c, 'w) provider_connection \<Rightarrow> 'c client_connect_completion \<Rightarrow> ('c, 'w) session_client \<Rightarrow>
     (client_error + unit) \<times> ('c, 'w) session_client" where
  "finish_connect k completion c =
     (let c = c\<lparr>sc_in_flight := False\<rparr> in
      case ccc_result completion of
        Inl e \<Rightarrow> (Inl e, c\<lparr>sc_health := lost_health c\<rparr>)
      | Inr (connection, response) \<Rightarrow>
          (let i = pn_service_instance k connection in
           case attached_snapshot response (ccc_request_id completion) i of
             Inl e \<Rightarrow> (Inl e, c\<lparr>sc_health := lost_health c\<rparr>)
           | Inr snapshot \<Rightarrow>
               (let same_instance = (sc_service_instance c = Some i);
                    snapshots = (if same_instance then retain_panes (pcs_catalog snapshot) (sc_snapshots c)
                                 else bt_empty)
                in (Inr (),
                    c\<lparr>sc_snapshots := snapshots,
                      sc_reconnect_resync :=
                        (if ccc_intent completion = Reconnect \<and> same_instance
                         then filter (contains_pane (pcs_catalog snapshot)) (bt_keys snapshots) else []),
                      sc_service_instance := Some i, sc_catalog := Some snapshot,
                      sc_connection := Some connection, sc_health := ClientReady\<rparr>))))"

section \<open>Requests\<close>

definition begin_request ::
  "request_body \<Rightarrow> ('c, 'w) session_client \<Rightarrow>
     (client_error + 'c client_request_job) \<times> ('c, 'w) session_client" where
  "begin_request body c =
     (case client_reserve c of
        (Inl e, c) \<Rightarrow> (Inl e, c)
      | (Inr _, c) \<Rightarrow>
          if sc_health c \<noteq> ClientReady then (Inl ClientUnavailable, c\<lparr>sc_in_flight := False\<rparr>)
          else (case client_next_request_id c of
             (Inl e, c) \<Rightarrow> (Inl e, c)
           | (Inr request_id, c) \<Rightarrow>
               (case sc_connection c of
                  None \<Rightarrow> (Inl ClientUnavailable, c\<lparr>sc_in_flight := False\<rparr>)
                | Some connection \<Rightarrow>
                    (Inr \<lparr>crj_connection = connection,
                       crj_request = request_envelope_new request_id (client_catalog_revision c) body\<rparr>,
                     c\<lparr>sc_connection := None\<rparr>))))"

definition begin_detach ::
  "('c, 'w) session_client \<Rightarrow> (client_error + 'c client_request_job) \<times> ('c, 'w) session_client" where
  "begin_detach c = begin_request ReqDetach c"

definition request_job_run ::
  "('c, 'w) provider_connection \<Rightarrow> 'c client_request_job \<Rightarrow> 'w \<Rightarrow> 'c client_request_completion \<times> 'w" where
  "request_job_run k job w =
     (case pn_exchange k (crj_connection job) (crj_request job) w of (result, connection, w) \<Rightarrow>
       (\<lparr>crc_request_id = rq_request_id (crj_request job), crc_connection = connection, crc_result = result\<rparr>, w))"

text \<open>The three bodies that carry a catalog.\<close>

fun carried_catalog :: "response_body \<Rightarrow> provider_catalog_snapshot option" where
  "carried_catalog (RespCatalog snapshot) = Some snapshot"
| "carried_catalog (RespAttached snapshot) = Some snapshot"
| "carried_catalog (RespCatalogChanged snapshot) = Some snapshot"
| "carried_catalog _ = None"

definition finish_request ::
  "('c, 'w) provider_connection \<Rightarrow> 'c client_request_completion \<Rightarrow> ('c, 'w) session_client \<Rightarrow>
     (client_error + response_body) \<times> ('c, 'w) session_client" where
  "finish_request k completion c =
     (let c = c\<lparr>sc_in_flight := False\<rparr>; connection = crc_connection completion in
      case crc_result completion of
        Inl e \<Rightarrow> (Inl e, mark_transport_lost c)
      | Inr response \<Rightarrow>
          if rsp_request_id response \<noteq> crc_request_id completion then (Inl ClientProtocol, mark_transport_lost c)
          else case rsp_result response of
              Inl e \<Rightarrow> (Inl (ClientProvider e), c\<lparr>sc_connection := Some connection\<rparr>)
            | Inr body \<Rightarrow>
                (case carried_catalog body of
                   Some snapshot \<Rightarrow>
                     if pcs_service_instance snapshot \<noteq> pn_service_instance k connection
                     then (Inl ClientStaleService, mark_transport_lost c)
                     else (Inr body,
                           c\<lparr>sc_snapshots := retain_panes (pcs_catalog snapshot) (sc_snapshots c),
                             sc_service_instance := Some (pcs_service_instance snapshot),
                             sc_catalog := Some snapshot, sc_connection := Some connection\<rparr>)
                 | None \<Rightarrow>
                     if body = RespDetached
                     then (Inr body,
                           c\<lparr>sc_connection := None, sc_service_instance := None, sc_health := ClientStopped\<rparr>)
                     else (Inr body, c\<lparr>sc_connection := Some connection\<rparr>)))"

section \<open>Snapshots\<close>

definition apply_snapshot ::
  "pane_id \<Rightarrow> pane_screen_snapshot \<Rightarrow> ('c, 'w) session_client \<Rightarrow> bool \<times> ('c, 'w) session_client" where
  "apply_snapshot pane snapshot c =
     (let is_newer = (case bt_get (sc_snapshots c) pane of
            None \<Rightarrow> True
          | Some current \<Rightarrow>
              ps_generation snapshot > ps_generation current \<or>
              (ps_generation snapshot = ps_generation current \<and>
               ps_output_revision snapshot > ps_output_revision current))
      in (is_newer,
          (if is_newer then c\<lparr>sc_snapshots := bt_insert pane snapshot (sc_snapshots c)\<rparr> else c)))"

definition take_reconnect_resync_pane ::
  "('c, 'w) session_client \<Rightarrow> pane_id option \<times> ('c, 'w) session_client" where
  "take_reconnect_resync_pane c =
     (case sc_reconnect_resync c of
        [] \<Rightarrow> (None, c) | pane # panes \<Rightarrow> (Some pane, c\<lparr>sc_reconnect_resync := panes\<rparr>))"

end
