(* ===== verification/SessionClientLaws.thy ===== *)
theory SessionClientLaws imports SessionPersistence SessionClient begin

text \<open>
  The client of the session service: the schedule its connecting follows, what it makes of an answer
  that is not the one it waits for, and, together with the service, the panes whose screen stays still
  after a restart.
\<close>

section \<open>The schedule of connecting\<close>

text \<open>A backend that writes down the calls made to it, and its connections.\<close>

datatype backend_call = Connects | Starts | Waits nat

definition logged :: "('c, 'w) client_backend \<Rightarrow> ('c, 'w \<times> backend_call list) client_backend" where
  "logged b =
     \<lparr>cb_connect = (\<lambda>(w, calls). case cb_connect b w of (r, w) \<Rightarrow> (r, w, calls @ [Connects])),
      cb_start_service = (\<lambda>(w, calls). case cb_start_service b w of (r, w) \<Rightarrow> (r, w, calls @ [Starts])),
      cb_wait = (\<lambda>d (w, calls). (cb_wait b d w, calls @ [Waits d]))\<rparr>"

definition logged_connection :: "('c, 'w) provider_connection \<Rightarrow> ('c, 'w \<times> backend_call list) provider_connection" where
  "logged_connection k =
     \<lparr>pn_service_instance = pn_service_instance k,
      pn_exchange = (\<lambda>h request (w, calls). case pn_exchange k h request w of (r, h, w) \<Rightarrow> (r, h, w, calls))\<rparr>"

lemma logged_simps [simp]:
  "cb_connect (logged b) (w, calls) = (case cb_connect b w of (r, w) \<Rightarrow> (r, w, calls @ [Connects]))"
  "cb_start_service (logged b) (w, calls) = (case cb_start_service b w of (r, w) \<Rightarrow> (r, w, calls @ [Starts]))"
  "cb_wait (logged b) d (w, calls) = (cb_wait b d w, calls @ [Waits d])"
  "pn_exchange (logged_connection k) h request (w, calls) =
    (case pn_exchange k h request w of (r, h, w) \<Rightarrow> (r, h, w, calls))"
  by (simp_all add: logged_def logged_connection_def)

fun waits :: "backend_call list \<Rightarrow> nat list" where
  "waits [] = []"
| "waits (Waits d # calls) = d # waits calls"
| "waits (_ # calls) = waits calls"

lemma waits_append [simp]: "waits (xs @ ys) = waits xs @ waits ys"
  by (induction xs rule: waits.induct) simp_all

definition starts :: "backend_call list \<Rightarrow> nat" where
  "starts calls = length (filter (\<lambda>c. c = Starts) calls)"

definition connects :: "backend_call list \<Rightarrow> nat" where
  "connects calls = length (filter (\<lambda>c. c = Connects) calls)"

lemma calls_simps [simp]:
  "starts (xs @ ys) = starts xs + starts ys" "connects (xs @ ys) = connects xs + connects ys"
  "starts [] = 0" "starts (c # xs) = (if c = Starts then 1 else 0) + starts xs"
  "connects [] = 0" "connects (c # xs) = (if c = Connects then 1 else 0) + connects xs"
  by (simp_all add: starts_def connects_def)

declare connect_loop.simps [simp del]

text \<open>One round of the loop, by what the backend answers.\<close>

lemma connect_round_connected:
  "cb_connect b w = (Inr h, w1) \<Longrightarrow> connect_loop k b job retries started w =
    (case pn_exchange k h (request_envelope_new (ccj_request_id job) (ccj_expected_catalog_revision job)
         (if ccj_intent job = Reconnect then ReqReconnect (ccj_reconnect_cursors job) else ReqAttach)) w1 of
       (result, h, w) \<Rightarrow> (and_then result (\<lambda>response. Inr (h, response)), w))"
  by (subst connect_loop.simps) (simp add: Let_def)

lemma connect_round_refused:
  "cb_connect b w = (Inl e, w1) \<Longrightarrow> \<not> (may_start_service (ccj_intent job) \<and> \<not> started) \<Longrightarrow>
    connect_loop k b job retries started w =
    (case retries of [] \<Rightarrow> (Inl ClientUnavailable, w1) | d # ds \<Rightarrow> connect_loop k b job ds started (cb_wait b d w1))"
  by (subst connect_loop.simps) (auto split: list.split)

lemma connect_round_started:
  "cb_connect b w = (Inl e, w1) \<Longrightarrow> may_start_service (ccj_intent job) \<Longrightarrow> \<not> started \<Longrightarrow> cb_start_service b w1 = (r, w2) \<Longrightarrow>
    connect_loop k b job retries started w =
    (case r of
       Inl e \<Rightarrow> (Inl e, w2)
     | Inr _ \<Rightarrow>
         (case retries of [] \<Rightarrow> (Inl ClientUnavailable, w2) | d # ds \<Rightarrow> connect_loop k b job ds True (cb_wait b d w2)))"
  by (subst connect_loop.simps) (auto split: list.split sum.split)

text \<open>The logged loop does what the loop does, and what it writes down.\<close>

definition follows_schedule :: "bool \<Rightarrow> nat list \<Rightarrow> backend_call list \<Rightarrow> bool" where
  "follows_schedule may_start ds calls \<longleftrightarrow>
     starts calls \<le> (if may_start then 1 else 0) \<and> 1 \<le> connects calls \<and> connects calls \<le> length ds + 1 \<and>
     (\<exists>n. waits calls = take n ds)"

lemma follows_schedule_once:
  "follows_schedule m ds [Connects]" "follows_schedule True ds [Connects, Starts]"
  by (auto simp: follows_schedule_def intro: exI [of _ 0])

lemma follows_schedule_more:
  assumes "follows_schedule m ds calls"
  shows "follows_schedule m (d # ds) (Connects # Waits d # calls)"
    "\<not> m \<Longrightarrow> follows_schedule True (d # ds) (Connects # Starts # Waits d # calls)"
proof -
  obtain n where "waits calls = take n ds" using assms by (auto simp: follows_schedule_def)
  then have "\<exists>n. waits (Connects # Waits d # calls) = take n (d # ds)" by (auto intro: exI [of _ "Suc n"])
  then show "follows_schedule m (d # ds) (Connects # Waits d # calls)"
    "\<not> m \<Longrightarrow> follows_schedule True (d # ds) (Connects # Starts # Waits d # calls)"
    using assms by (simp_all add: follows_schedule_def split: if_splits)
qed

lemma connect_loop_logged:
  "\<exists>calls'. connect_loop (logged_connection k) (logged b) job ds started (w, calls) =
       (case connect_loop k b job ds started w of (r, w) \<Rightarrow> (r, w, calls @ calls')) \<and>
     follows_schedule (may_start_service (ccj_intent job) \<and> \<not> started) ds calls'"
proof (induction ds arbitrary: started w calls)
  case (Nil started)
  obtain r w1 where c: "cb_connect b w = (r, w1)" by force
  obtain r2 w2 where s: "cb_start_service b w1 = (r2, w2)" by force
  show ?case
  proof (cases r)
    case (Inr h)
    with c follows_schedule_once(1) show ?thesis
      by (intro exI [of _ "[Connects]"]) (simp add: connect_round_connected split: prod.split)
  next
    case (Inl e)
    show ?thesis
    proof (cases "may_start_service (ccj_intent job) \<and> \<not> started")
      case True
      with c Inl s follows_schedule_once(2) show ?thesis
        by (intro exI [of _ "[Connects, Starts]"]) (auto simp: connect_round_started split: sum.split)
    next
      case False
      with c Inl follows_schedule_once(1) show ?thesis
        by (intro exI [of _ "[Connects]"]) (simp add: connect_round_refused)
    qed
  qed
next
  case (Cons d ds started)
  obtain r w1 where c: "cb_connect b w = (r, w1)" by force
  obtain r2 w2 where s: "cb_start_service b w1 = (r2, w2)" by force
  show ?case
  proof (cases r)
    case (Inr h)
    with c follows_schedule_once(1) show ?thesis
      by (intro exI [of _ "[Connects]"]) (simp add: connect_round_connected split: prod.split)
  next
    case (Inl e)
    show ?thesis
    proof (cases "may_start_service (ccj_intent job) \<and> \<not> started")
      case True
      show ?thesis
      proof (cases r2)
        case (Inl e2)
        with c \<open>r = Inl e\<close> s True follows_schedule_once(2) show ?thesis
          by (intro exI [of _ "[Connects, Starts]"]) (auto simp: connect_round_started)
      next
        case (Inr u)
        obtain calls' where "connect_loop (logged_connection k) (logged b) job ds True
            (cb_wait b d w2, calls @ [Connects, Starts, Waits d]) =
              (case connect_loop k b job ds True (cb_wait b d w2) of (r, w) \<Rightarrow> (r, w, (calls @ [Connects, Starts, Waits d]) @ calls'))"
          "follows_schedule False ds calls'"
          using Cons.IH [of True "cb_wait b d w2" "calls @ [Connects, Starts, Waits d]"] by auto
        with c s True Inr \<open>r = Inl e\<close> follows_schedule_more(2) [of False] show ?thesis
          by (intro exI [of _ "[Connects, Starts, Waits d] @ calls'"]) (simp add: connect_round_started)
      qed
    next
      case False
      obtain calls' where "connect_loop (logged_connection k) (logged b) job ds started
          (cb_wait b d w1, calls @ [Connects, Waits d]) =
            (case connect_loop k b job ds started (cb_wait b d w1) of (r, w) \<Rightarrow> (r, w, (calls @ [Connects, Waits d]) @ calls'))"
        "follows_schedule (may_start_service (ccj_intent job) \<and> \<not> started) ds calls'"
        using Cons.IH [of started "cb_wait b d w1" "calls @ [Connects, Waits d]"] by blast
      with c False \<open>r = Inl e\<close> follows_schedule_more(1) show ?thesis
        by (intro exI [of _ "[Connects, Waits d] @ calls'"]) (simp add: connect_round_refused)
    qed
  qed
qed

section \<open>What is kept of the screens\<close>

lemma retained_panes:
  "bt_get (retain_panes catalog m) pane = (if contains_pane catalog pane then bt_get m pane else None)"
  by (auto simp: retain_panes_def bt_get_fold_remove set_bt_keys)

section \<open>Revisions after a restart\<close>

text \<open>Starting a pane again leaves the revisions the service has noted of it.\<close>

definition noted :: "('h, 'p) session_service \<Rightarrow> pane_id \<Rightarrow> u64 option \<times> u64 option \<times> terminal_pane_id option" where
  "noted s k = (bt_get (ss_terminal_revisions s) k, bt_get (ss_output_revisions s) k, bt_get (ss_terminal_panes s) k)"

lemma noted_same [simp]:
  "noted (s\<lparr>ss_catalog := c\<rparr>) k = noted s k" "noted (s\<lparr>ss_runtime := rt\<rparr>) k = noted s k"
  "noted (s\<lparr>ss_dirty := b\<rparr>) k = noted s k" "noted (s\<lparr>ss_historical := h\<rparr>) k = noted s k"
  "noted (s\<lparr>ss_unread_counts := n\<rparr>) k = noted s k" "noted (s\<lparr>ss_attention := a\<rparr>) k = noted s k"
  by (simp_all add: noted_def)

lemma noted_follow [simp]: "noted (follow_state sid k' p g l s) k = noted s k"
  by (simp add: follow_state_def Let_def)

lemma noted_output:
  "j \<noteq> k \<or> (\<exists>m. bt_get (ss_terminal_revisions s) k = Some m \<and> n \<le> m) \<Longrightarrow> noted (note_output sid j n s) k = noted s k"
  by (auto simp: noted_def note_output_def Let_def)

lemma note_output_links [simp]:
  "ss_session_panes (note_output sid k n s) = ss_session_panes s" "ss_runtime (note_output sid k n s) = ss_runtime s"
  "ss_session_panes (follow_state sid k p g l s) = ss_session_panes s" "ss_runtime (follow_state sid k p g l s) = ss_runtime s"
  by (simp_all add: note_output_def follow_state_def Let_def)

text \<open>The revision of a terminal's screen is not past the one the service has noted of the pane.\<close>

definition still :: "('h, 'p) session_service \<Rightarrow> pane_id \<Rightarrow> bool" where
  "still s k \<longleftrightarrow>
     (case screen_of s k of
        None \<Rightarrow> True
      | Some t \<Rightarrow> \<exists>m. bt_get (ss_terminal_revisions s) k = Some m \<and> ts_revision t \<le> m)"

lemma tick_panes_still:
  "tick_panes os ts ch s w = (ch', s', w') \<Longrightarrow>
    (\<forall>t. bt_get (ss_session_panes s) t = Some k \<longleftrightarrow> bt_get (ss_terminal_panes s) k = Some t) \<Longrightarrow> still s k \<Longrightarrow>
    noted s' k = noted s k \<and> ss_runtime s' = ss_runtime s"
proof (induction ts arbitrary: ch s w)
  case Nil
  then show ?case by simp
next
  case (Cons t ts)
  have skip: "tick_panes os ts ch1 s w1 = (ch', s', w') \<Longrightarrow> ?case" for ch1 w1
    using Cons.IH [of ch1 s w1] Cons.prems(2,3) by blast
  show ?case
  proof (cases "bt_get (ss_session_panes s) t")
    case None
    with Cons.prems(1) skip show ?thesis by simp
  next
    case (Some j)
    obtain pr w1 where pr: "projection os (ss_runtime s) t w = (pr, w1)" by force
    show ?thesis
    proof (cases "pr \<noteq> None \<and> (\<exists>a b p. catalog_pane (ss_catalog s) j = Some (a, b, p) \<and> sp_generation p = rpp_generation (the pr))")
      case False
      have "tick_panes os ts ch s w1 = (ch', s', w')"
        using Cons.prems(1) Some pr False by (auto split: option.splits if_splits)
      then show ?thesis by (rule skip)
    next
      case True
      then obtain q a b p where q: "pr = Some q" "catalog_pane (ss_catalog s) j = Some (a, b, p)" "sp_generation p = rpp_generation q"
        by auto
      let ?s = "follow_state a j p (rpp_generation q) (runtime_lifecycle (rpp_state q))
        (note_output a j (ts_revision (rpp_snapshot q)) s)"
      have next_step: "tick_panes os ts (insert j ch) ?s w1 = (ch', s', w')" using Cons.prems(1) Some pr q by simp
      have "j \<noteq> k \<or> (\<exists>m. bt_get (ss_terminal_revisions s) k = Some m \<and> ts_revision (rpp_snapshot q) \<le> m)"
      proof (cases "j = k")
        case True
        then have "bt_get (ss_terminal_panes s) k = Some t" using Cons.prems(2) Some by blast
        moreover have "Some (rpp_snapshot q) = map_option (\<lambda>x. model_snapshot 0 (pr_model x)) (bt_get (rt_panes (ss_runtime s)) t)"
          using projection_result [OF pr] q(1) by simp
        ultimately have "screen_of s k = Some (rpp_snapshot q)" by (simp add: screen_of_def)
        with Cons.prems(3) show ?thesis by (simp add: still_def)
      qed simp
      then have n: "noted ?s k = noted s k" by (simp add: noted_output)
      then have same: "bt_get (ss_terminal_panes ?s) k = bt_get (ss_terminal_panes s) k"
        "bt_get (ss_terminal_revisions ?s) k = bt_get (ss_terminal_revisions s) k" by (simp_all add: noted_def)
      have "still ?s k" using Cons.prems(3) unfolding still_def screen_of_def same by simp
      with Cons.IH [OF next_step] Cons.prems(2) same n show ?thesis by simp
    qed
  qed
qed

text \<open>
  What a service does between two snapshots of a pane while the new process has not yet printed as
  much as the old one: finishing the start, ticks, and snapshots.
\<close>

inductive quiet :: "('h, 'p, 'w) outside \<Rightarrow> pane_id \<Rightarrow> ('h, 'p) session_service \<Rightarrow> ('h, 'p) session_service \<Rightarrow> bool"
  for os k where
  stays: "quiet os k s s"
| started: "quiet os k s s1 \<Longrightarrow> finish_start completion s1 = (r, s2) \<Longrightarrow> quiet os k s s2"
| ticked: "quiet os k s s1 \<Longrightarrow> tick os s1 w = Some (ch, s2, w') \<Longrightarrow>
    still (s1\<lparr>ss_runtime := ss_runtime s2\<rparr>) k \<Longrightarrow> quiet os k s s2"
| viewed: "quiet os k s s1 \<Longrightarrow> service_snapshot os j s1 w = (r, s2, w') \<Longrightarrow> quiet os k s s2"

lemma finish_start_noted: "finish_start c s = (r, s') \<Longrightarrow> noted s' k = noted s k"
  by (auto simp: finish_start_def record_completion_def attempt_def Let_def split: sum.splits prod.splits if_splits)

lemma snapshot_noted: "service_snapshot os j s w = (r, s', w') \<Longrightarrow> noted s' k = noted s k \<and> ss_catalog s' = ss_catalog s"
  by (auto simp: service_snapshot_def Let_def split: option.splits sum.splits prod.splits if_splits)

lemma tick_panes_runtime: "tick_panes os ts ch s w = (ch', s', w') \<Longrightarrow> ss_runtime s' = ss_runtime s"
  by (induction ts arbitrary: ch s w) (fastforce split: option.splits prod.splits if_splits)+

lemma tick_noted:
  assumes "service_ok s" "tick os s w = Some (ch, s', w')" "still (s\<lparr>ss_runtime := ss_runtime s'\<rparr>) k"
  shows "noted s' k = noted s k"
proof -
  obtain batch rt w1 where d: "drain os drain_budget_default (ss_runtime s) w = Some (batch, rt, w1)"
    using assms(2) by (auto simp: tick_def)
  obtain ch1 s1 w2 where t: "tick_panes os (sorted_list_of_set (rb_changed batch)) {} (s\<lparr>ss_runtime := rt\<rparr>) w1 = (ch1, s1, w2)"
    by (metis prod_cases3)
  have s': "(if ch1 \<noteq> {} then s1\<lparr>ss_dirty := True\<rparr> else s1) = s'"
    using assms(2) d t by (cases "ch1 = {}") (auto simp: tick_def)
  have "ss_runtime s' = rt" using tick_panes_runtime [OF t] s' by (auto split: if_splits)
  moreover have "\<forall>t. bt_get (ss_session_panes s) t = Some k \<longleftrightarrow> bt_get (ss_terminal_panes s) k = Some t"
    using assms(1) by (simp add: service_ok_def service_links_def)
  ultimately have "noted s1 k = noted s k" using tick_panes_still [OF t, of k] assms(3) by simp
  with s' show ?thesis by (auto split: if_splits)
qed

text \<open>Along a quiet stretch the invariant holds and what is noted of the pane stays, and so its generation.\<close>

lemma pane_generation_gen:
  assumes "service_ok s" "catalog_pane (ss_catalog s) k = Some (sid, wid, p)"
  shows "sp_generation p = runtime_gen s k"
  using assms pane_gens_iff [OF service_ok_catalog_ok [OF assms(1)], of k "sp_generation p"]
  by (auto simp: service_ok_def)

lemma finish_start_gens:
  "finish_start c s = (r, s') \<Longrightarrow> runtime_generation (ss_runtime s') = runtime_generation (ss_runtime s)"
  by (auto simp: finish_start_def record_completion_def attempt_def Let_def dest!: finish_restart_gens
      split: sum.splits prod.splits if_splits)

lemma tick_gens:
  assumes "tick os s w = Some (ch, s', w')"
  shows "runtime_generation (ss_runtime s') = runtime_generation (ss_runtime s)"
proof -
  obtain batch rt w1 where d: "drain os drain_budget_default (ss_runtime s) w = Some (batch, rt, w1)"
    using assms by (auto simp: tick_def)
  obtain ch1 s1 w2 where t: "tick_panes os (sorted_list_of_set (rb_changed batch)) {} (s\<lparr>ss_runtime := rt\<rparr>) w1 = (ch1, s1, w2)"
    by (metis prod_cases3)
  have "(if ch1 \<noteq> {} then s1\<lparr>ss_dirty := True\<rparr> else s1) = s'"
    using assms d t by (cases "ch1 = {}") (auto simp: tick_def)
  then have "ss_runtime s' = rt" using tick_panes_runtime [OF t] by (auto split: if_splits)
  with drain_gens [OF d] show ?thesis by simp
qed

lemma snapshot_runtime: "service_snapshot os j s w = (r, s', w') \<Longrightarrow> ss_runtime s' = ss_runtime s"
  by (auto simp: service_snapshot_def Let_def split: option.splits sum.splits prod.splits if_splits)

lemma runtime_gen_noted:
  "runtime_generation (ss_runtime s') = runtime_generation (ss_runtime s) \<Longrightarrow> noted s' k = noted s k \<Longrightarrow>
    runtime_gen s' k = runtime_gen s k"
  by (simp add: runtime_gen_def noted_def cong: option.case_cong)

lemma quiet_keeps:
  "quiet os k s s' \<Longrightarrow> service_ok s \<Longrightarrow> service_ok s' \<and> noted s' k = noted s k \<and> runtime_gen s' k = runtime_gen s k"
proof (induction rule: quiet.induct)
  case (stays s)
  then show ?case by simp
next
  case (started s s1 completion r s2)
  with finish_start_keeps [of s1 completion r s2] finish_start_noted [of completion s1 r s2 k] finish_start_gens [of completion s1 r s2]
    runtime_gen_noted [of s2 s1 k]
  show ?case by (simp add: safe_step_def)
next
  case (ticked s s1 w ch s2 w')
  with tick_keeps [of s1 os w ch s2 w'] tick_noted [of s1 os w ch s2 w' k] tick_gens [of os s1 w ch s2 w']
    runtime_gen_noted [of s2 s1 k]
  show ?case by simp
next
  case (viewed s s1 j w r s2 w')
  with service_snapshot_keeps [of s1 os j w r s2 w'] snapshot_noted [of os j s1 w r s2 w' k] snapshot_runtime [of os j s1 w r s2 w']
    runtime_gen_noted [of s2 s1 k]
  show ?case by (simp add: safe_step_def)
qed

lemma snapshot_carries:
  assumes "service_ok s" "service_snapshot os k s w = (Inr x, s', w')" "bt_get (ss_terminal_panes s) k = Some t"
  shows "ps_generation x = runtime_gen s k" "ps_output_revision x = output_revision_of s k"
proof -
  obtain sid wid p where p: "catalog_pane (ss_catalog s) k = Some (sid, wid, p)"
    using assms(2) by (auto simp: service_snapshot_def split: option.splits)
  have "ps_generation x = sp_generation p \<and> ps_output_revision x = output_revision_of s k"
    using assms(2,3) p
    by (auto simp: service_snapshot_def from_terminal_def mark_viewed_def Let_def outcome
        split: option.splits sum.splits prod.splits if_splits)
  with pane_generation_gen [OF assms(1) p] show "ps_generation x = runtime_gen s k" "ps_output_revision x = output_revision_of s k"
    by simp_all
qed

text \<open>
  What a start leaves: the pane's terminal with a fresh model in the generation of the job, and the
  revisions that were noted before.
\<close>

lemma begin_start_shape:
  assumes "begin_start os i e sid k request s = (Inr job, s')"
  obtains t s1 sz where "ensure_runtime_pane k s = (t, s1)" "runtime_grid_size (sr_size request) = Inr sz"
    "rt_panes (ss_runtime s') = bt_insert t ((pane_runtime_new (ssj_generation job)
      (model_new (os_parser os) sz (rt_scrollback_limit (ss_runtime s1))))\<lparr>pr_state := Starting\<rparr>) (rt_panes (ss_runtime s1))"
    "rt_scrollback_limit (ss_runtime s') = rt_scrollback_limit (ss_runtime s1)"
    "ss_terminal_panes s' = ss_terminal_panes s1" "ss_session_panes s' = ss_session_panes s1"
    "ss_terminal_revisions s' = ss_terminal_revisions s1" "ss_output_revisions s' = ss_output_revisions s1"
    "ss_terminal_ids s' = ss_terminal_ids s1" "ssj_generation job = next_generation t (ss_runtime s1)"
proof -
  obtain t s1 where en: "ensure_runtime_pane k s = (t, s1)" by force
  obtain r rt where br: "begin_restart os t request (ss_runtime s1) = (r, rt)" by force
  have shape: "\<exists>c b. s' = s1\<lparr>ss_historical := bt_remove k (ss_historical s1), ss_runtime := rt, ss_catalog := c, ss_dirty := b\<rparr> \<and>
      (\<exists>runtime_job. r = Inr runtime_job \<and> rsj_generation runtime_job = ssj_generation job)"
    using assms en br
    by (cases r) (auto simp: begin_start_def attempt_def Let_def map_err_def split: sum.splits prod.splits if_splits)
  then obtain runtime_job where j: "r = Inr runtime_job" "rsj_generation runtime_job = ssj_generation job" by blast
  obtain sz where sz: "runtime_grid_size (sr_size request) = Inr sz"
    using br j(1) by (cases "runtime_grid_size (sr_size request)") (auto simp: begin_restart_def attempt_def)
  have "rt = put_pane t ((pane_runtime_new (ssj_generation job)
      (model_new (os_parser os) sz (rt_scrollback_limit (ss_runtime s1))))\<lparr>pr_state := Starting\<rparr>) (ss_runtime s1)"
    using br j sz by (auto simp: begin_restart_def attempt_def Let_def)
  moreover have "rsj_generation runtime_job = next_generation t (ss_runtime s1)"
    using br j(1) sz by (auto simp: begin_restart_def attempt_def Let_def)
  ultimately show ?thesis using shape j(2) by (intro that [OF en sz]) (auto simp: put_pane_def)
qed

lemma ensure_runtime_pane_leaves:
  assumes "ensure_runtime_pane k s = (t, s')"
  shows "bt_get (ss_terminal_panes s') k = Some t" "ss_terminal_revisions s' = ss_terminal_revisions s"
    "ss_output_revisions s' = ss_output_revisions s" "ss_runtime s' = ss_runtime s"
    "ss_service_instance s' = ss_service_instance s"
    "bt_get (ss_terminal_panes s) k = Some u \<Longrightarrow> t = u \<and> s' = s"
  using assms by (auto simp: ensure_runtime_pane_def new_pane_id_def split: option.splits)

lemma begin_start_noted:
  assumes "begin_start os i e sid k request s = (Inr job, s')"
  shows "bt_get (ss_terminal_revisions s') k = bt_get (ss_terminal_revisions s) k"
    "bt_get (ss_output_revisions s') k = bt_get (ss_output_revisions s) k"
    "\<exists>t. bt_get (ss_terminal_panes s') k = Some t" "map_option ts_revision (screen_of s' k) = Some 0"
    "runtime_gen s' k = ssj_generation job"
proof -
  obtain t s1 sz where shape: "ensure_runtime_pane k s = (t, s1)"
    "rt_panes (ss_runtime s') = bt_insert t ((pane_runtime_new (ssj_generation job)
      (model_new (os_parser os) sz (rt_scrollback_limit (ss_runtime s1))))\<lparr>pr_state := Starting\<rparr>) (rt_panes (ss_runtime s1))"
    "ss_terminal_panes s' = ss_terminal_panes s1" "ss_terminal_revisions s' = ss_terminal_revisions s1"
    "ss_output_revisions s' = ss_output_revisions s1"
    by (rule begin_start_shape [OF assms])
  note e = ensure_runtime_pane_leaves [OF shape(1)]
  show "bt_get (ss_terminal_revisions s') k = bt_get (ss_terminal_revisions s) k"
    "bt_get (ss_output_revisions s') k = bt_get (ss_output_revisions s) k"
    "\<exists>t. bt_get (ss_terminal_panes s') k = Some t" using shape e by simp_all
  show "map_option ts_revision (screen_of s' k) = Some 0"
    by (simp add: screen_of_def shape e pane_runtime_new_def model_new_def performer_new_def model_snapshot_def
        grid_snapshot_def grid_new_def Let_def)
  show "runtime_gen s' k = ssj_generation job"
    by (simp add: runtime_gen_def runtime_generation_def shape e pane_runtime_new_def)
qed

section \<open>Properties\<close>

text \<open>
  Connecting ends and keeps to its schedule: at most eight attempts to connect, at most one start of
  the service and none at all when reconnecting, and the waits between them are those of the schedule,
  in order. Writing the calls down changes nothing else.
\<close>

theorem connecting_follows_the_schedule:
  "case connect_job_run (logged_connection k) (logged b) job (w, []) of (completion, w', calls) \<Rightarrow>
     connect_job_run k b job w = (completion, w') \<and>
     starts calls \<le> (if ccj_intent job = Reconnect then 0 else 1) \<and>
     1 \<le> connects calls \<and> connects calls \<le> 8 \<and> (\<exists>n. waits calls = take n RETRY_DELAYS)"
proof -
  obtain r w' where run: "connect_loop k b job RETRY_DELAYS False w = (r, w')" by force
  obtain calls where calls: "connect_loop (logged_connection k) (logged b) job RETRY_DELAYS False (w, []) = (r, w', calls)"
    "follows_schedule (may_start_service (ccj_intent job)) RETRY_DELAYS calls"
    using connect_loop_logged [of k b job RETRY_DELAYS False w "[]"] run by auto
  then show ?thesis
    using run by (auto simp: connect_job_run_def follows_schedule_def RETRY_DELAYS_def may_start_service_def split: if_splits)
qed

text \<open>
  C12. The client takes an answer only for the request it sent and from the service it is connected to:
  whatever else arrives, its catalog, its screens and the service it knows stay as they were and the
  connection is dropped, unless the service itself refused the request. A catalog that is taken is the
  one shown, and only screens of its panes are kept.
\<close>

theorem answers_are_checked:
  "case finish_request k completion c of
     (Inl e, c') \<Rightarrow>
       sc_catalog c' = sc_catalog c \<and> sc_snapshots c' = sc_snapshots c \<and> sc_service_instance c' = sc_service_instance c \<and>
       (sc_connection c' = None \<and> sc_health c' \<noteq> ClientReady \<or> (\<exists>p. e = ClientProvider p))
   | (Inr body, c') \<Rightarrow>
       (\<exists>response. crc_result completion = Inr response \<and> rsp_request_id response = crc_request_id completion \<and>
          rsp_result response = Inr body) \<and>
       (case carried_catalog body of
          None \<Rightarrow> sc_catalog c' = sc_catalog c \<and> sc_snapshots c' = sc_snapshots c
        | Some snapshot \<Rightarrow>
            pcs_service_instance snapshot = pn_service_instance k (crc_connection completion) \<and>
            sc_catalog c' = Some snapshot \<and> sc_service_instance c' = Some (pcs_service_instance snapshot) \<and>
            (\<forall>pane. bt_get (sc_snapshots c') pane =
               (if contains_pane (pcs_catalog snapshot) pane then bt_get (sc_snapshots c) pane else None)))"
proof (cases "crc_result completion")
  case (Inl e)
  then show ?thesis by (simp add: finish_request_def mark_transport_lost_def lost_health_def)
next
  case (Inr response)
  note finishing = finish_request_def mark_transport_lost_def lost_health_def retained_panes
  show ?thesis
  proof (cases "rsp_request_id response = crc_request_id completion")
    case False
    with Inr show ?thesis by (simp add: finishing)
  next
    case same: True
    show ?thesis
    proof (cases "rsp_result response")
      case (Inl e)
      with \<open>crc_result completion = Inr response\<close> same show ?thesis by (simp add: finishing)
    next
      case (Inr body)
      with \<open>crc_result completion = Inr response\<close> same show ?thesis
        by (cases "carried_catalog body"; cases "body = RespDetached") (simp_all add: finishing Let_def)
    qed
  qed
qed

text \<open>
  C13. A pane that is started again shows its screen once and then stays still until its new process has
  printed as much as the old one. The new screen counts its revisions from zero, and the service still
  compares them with those it noted of the old one. A client that shows a screen of an earlier
  generation, or none, takes the first screen of the new one, and refuses every later one: it has the
  same generation and output revision. (\<open>service_ok\<close> holds of the service of every serving daemon,
  \<open>serving_ok\<close>.)
\<close>

theorem restarted_panes_stay_still:
  assumes "service_ok s0" "ti_next_pane (ss_terminal_ids s0) \<noteq> - 1"
    "begin_start os i e sid k request s0 = (Inr job, s)"
    "quiet os k s s1" "service_snapshot os k s1 w1 = (Inr x, s2, w2)"
    "quiet os k s2 s3" "service_snapshot os k s3 w3 = (Inr y, s4, w4)"
    "\<forall>old. bt_get (sc_snapshots c) k = Some old \<longrightarrow> ps_generation old < ssj_generation job"
  shows "map_option ts_revision (screen_of s k) = Some 0 \<and>
    bt_get (ss_terminal_revisions s3) k = bt_get (ss_terminal_revisions s0) k \<and>
    fst (apply_snapshot k x c) \<and>
    bt_get (sc_snapshots (snd (apply_snapshot k x c))) k = Some x \<and>
    apply_snapshot k y (snd (apply_snapshot k x c)) = (False, snd (apply_snapshot k x c))"
proof -
  have ok: "service_ok s"
    using begin_start_keeps [OF assms(1-3)] by (simp add: safe_step_def)
  note b = begin_start_noted [OF assms(3)]
  obtain t where t: "bt_get (ss_terminal_panes s) k = Some t" using b(3) by blast
  note q1 = quiet_keeps [OF assms(4) ok]
  have t1: "bt_get (ss_terminal_panes s1) k = Some t" using q1 t by (simp add: noted_def)
  have s2: "quiet os k s1 s2" using quiet.viewed [OF quiet.stays assms(5)] .
  note q2 = quiet_keeps [OF s2] and q3 = quiet_keeps [OF assms(6)]
  have t3: "bt_get (ss_terminal_panes s3) k = Some t" using q1 q2 q3 t1 by (simp add: noted_def)
  have x: "ps_generation x = ssj_generation job"
    using snapshot_carries(1) [OF _ assms(5) t1] q1 b(5) by simp
  have y: "ps_generation y = ps_generation x \<and> ps_output_revision y = ps_output_revision x"
    using snapshot_carries [OF _ assms(5) t1] snapshot_carries [OF _ assms(7) t3] q1 q2 q3
    by (simp add: noted_def output_revision_of_def)
  have first: "apply_snapshot k x c = (True, c\<lparr>sc_snapshots := bt_insert k x (sc_snapshots c)\<rparr>)"
    using assms(8) x by (auto simp: apply_snapshot_def Let_def split: option.split)
  have "bt_get (ss_terminal_revisions s3) k = bt_get (ss_terminal_revisions s0) k"
    using q1 q2 q3 b(1) by (simp add: noted_def)
  with b(4) first y show ?thesis by (simp add: apply_snapshot_def Let_def)
qed

section \<open>Witnesses\<close>

lemma snapshot_succeeds:
  assumes "service_ok s" "screen_of s k = Some v" "snapshot_fits v"
  obtains x s' w' where "service_snapshot os k s w = (Inr x, s', w')" "screen_of s' k = Some v"
proof -
  obtain t m where t: "bt_get (ss_terminal_panes s) k = Some t" "bt_get (rt_panes (ss_runtime s)) t = Some m" "v = model_snapshot 0 (pr_model m)"
    using assms(2) by (auto simp: screen_of_def bind_eq_Some_conv)
  obtain sid wid p where p: "catalog_pane (ss_catalog s) k = Some (sid, wid, p)"
    using assms(1) t(1) catalog_pane_ids_iff [of "ss_catalog s" k] pane_gens_iff [of "ss_catalog s" k] by (auto simp: service_ok_def)
  obtain pr w1 where pr: "projection os (ss_runtime s) t w = (Some pr, w1)" "rpp_snapshot pr = v"
    using projection_result [of os "ss_runtime s" t w] t by (cases "projection os (ss_runtime s) t w") auto
  obtain x where x: "from_terminal v (output_revision_of s k) (sp_generation p) (sp_lifecycle p) (unread_of s k) (attention_of s k) = Inr x"
    using from_terminal_decides assms(3) by (metis isl_def sum.exhaust)
  obtain r s' w' where run: "service_snapshot os k s w = (r, s', w')" by (metis prod_cases3)
  have "\<exists>x. r = Inr x" using run p t(1) pr x by (auto simp: service_snapshot_def Let_def split: if_splits)
  moreover have "screen_of s' k = Some v"
    using snapshot_runtime [OF run] snapshot_noted [OF run, of k] assms(2) by (simp add: screen_of_def noted_def)
  ultimately show ?thesis using that run by blast
qed

definition example_request :: spawn_request where
  "example_request =
     \<lparr>sr_executable = lit ''/bin/sh'', sr_arguments = [], sr_working_directory = lit ''/work'', sr_environment = [],
      sr_size = \<lparr>tz_rows = 24, tz_columns = 80, tz_pixel_width = 0, tz_pixel_height = 0\<rparr>\<rparr>"

definition example_backend :: "(unit, unit) client_backend" where
  "example_backend =
     \<lparr>cb_connect = (\<lambda>w. (Inr (), w)), cb_start_service = (\<lambda>w. (Inr (), w)), cb_wait = (\<lambda>d w. w)\<rparr>"

text \<open>Processes that print one letter and go on, on terminals of one cell.\<close>

definition talking_outside :: "(unit, unit, nat) outside" where
  "talking_outside =
     \<lparr>os_width = ascii_width, os_vte = plain_vte, os_parser = (), os_now = (\<lambda>w. (millis 1000, w)),
      os_spawn = (\<lambda>_ w. (Inr (), w)), os_write = (\<lambda>_ _ w. (Inr (), w)), os_resize = (\<lambda>_ _ w. (Inr (), w)),
      os_try_read = (\<lambda>_ w. (Inr (if w = 0 then None else Some \<lparr>oc_sequence = 1, oc_bytes = [97]\<rparr>), w - 1)),
      os_output_backpressured = (\<lambda>_ w. (False, w)), os_try_wait = (\<lambda>_ w. (Inr None, w)), os_terminate = (\<lambda>_ _ w. (Inr (), w))\<rparr>"

definition blank_model :: "unit terminal_model" where
  "blank_model = model_new () \<lparr>gs_rows = 1, gs_columns = 1\<rparr> 0"

definition printed_model :: "unit terminal_model" where
  "printed_model = the (model_advance ascii_width plain_vte [97] blank_model)"

lemma printed_model:
  "model_advance ascii_width plain_vte [97] blank_model = Some printed_model"
  "ts_revision (model_snapshot 0 printed_model) = 1" "snapshot_fits (model_snapshot 0 printed_model)"
proof -
  note eval = blank_model_def model_advance_def plain_vte_def model_new_def performer_new_def perform_print_def on_grid_def
    print_styled_def write_character_def grid_new_def screen_new_def blank_rows_def blank_row_def ascii_width_def is_control_def
    active_ref_def grid_cursor_def cell_at_def nth_opt_def expect_text_def cell_set_text_def str_len_def len_utf8_def
    MAX_CELL_TEXT_BYTES_def vec_set_def styled_def put_cell_def model_snapshot_def grid_snapshot_def grid_bump_def sat_inc_def
    set_active_def Let_def
  show "model_advance ascii_width plain_vte [97] blank_model = Some printed_model"
    unfolding printed_model_def by (simp add: eval)
  show "ts_revision (model_snapshot 0 printed_model) = 1" unfolding printed_model_def by (simp add: eval)
  show "snapshot_fits (model_snapshot 0 printed_model)"
    unfolding printed_model_def
    by (simp add: eval cell_default_def snapshot_fits_def screen_bytes_def MAX_ROWS_def MAX_COLUMNS_def MAX_SNAPSHOT_BYTES_def
        CELL_OVERHEAD_BYTES_def)
qed

lemma blank_model_fits: "snapshot_fits (model_snapshot 0 blank_model)"
  by (simp add: blank_model_def new_model_fits size_fits_def MAX_SNAPSHOT_BYTES_def CELL_OVERHEAD_BYTES_def MAX_ROWS_def MAX_COLUMNS_def)

definition talker :: "u64 \<Rightarrow> (unit, unit) pane_runtime" where
  "talker g = (pane_runtime_new g blank_model)\<lparr>pr_process := Some (), pr_state := Running\<rparr>"

lemma talker_drains:
  "\<exists>r. drain_pane talking_outside DEFAULT_PANE_BUDGET (talker g) 1 = Some (1, True, r, 0) \<and> pr_generation r = g \<and>
     pr_model r = printed_model"
proof -
  let ?os = talking_outside
  have os: "os_width ?os = ascii_width" "os_vte ?os = plain_vte" by (simp_all add: talking_outside_def)
  obtain r1 where poll: "poll_one_output ?os (talker g) 1 = (r1, 0)" and r1: "pr_generation r1 = g" "pr_model r1 = blank_model"
    "pr_process r1 = Some ()" "pr_state r1 = Running" "pr_pending r1 = [\<lparr>po_bytes = [97], po_offset = 0\<rparr>]"
    by (simp add: poll_one_output_def enqueue_def talking_outside_def talker_def pane_runtime_new_def
        MAX_PENDING_CHUNKS_def MAX_PENDING_BYTES_def sat_add_usize_def)
  let ?r2 = "r1\<lparr>pr_model := printed_model, pr_pending_bytes := pr_pending_bytes r1 - 1, pr_pending := []\<rparr>"
  have idle: "drain_loop ?os n 1 ?r2 0 = Some (1, ?r2, 0)" if "1 < n" for n
    using that r1(3) by (subst drain_loop.simps) (simp add: poll_one_output_def talking_outside_def)
  have "drain_loop ?os DEFAULT_PANE_BUDGET 0 r1 0 = drain_loop ?os DEFAULT_PANE_BUDGET 1 ?r2 0"
    by (subst drain_loop.simps) (simp add: r1 os printed_model DEFAULT_PANE_BUDGET_def)
  then have loop: "drain_loop ?os DEFAULT_PANE_BUDGET 0 r1 0 = Some (1, ?r2, 0)"
    using idle by (simp add: DEFAULT_PANE_BUDGET_def)
  let ?r3 = "?r2\<lparr>pr_pending_since := None, pr_state := Running\<rparr>"
  have bytes: "drain_bytes ?os DEFAULT_PANE_BUDGET r1 0 = Some (1, ?r3, 0)"
    using loop r1(4) by (simp add: drain_bytes_def)
  have stays: "poll_exit ?os ?r3 0 = (False, ?r3, 0)" using r1(3) by (simp add: poll_exit_def talking_outside_def)
  obtain r4 w where u: "update_pressure_state ?os ?r3 0 = (r4, w)" by force
  have w: "w = 0"
    using u by (simp add: update_pressure_state_def elapsed_is_def talking_outside_def r1(3) Let_def
        split: option.splits if_splits)
  from update_pressure_keeps [OF u] have "pr_generation r4 = g" "pr_model r4 = printed_model" using r1(1) by simp_all
  then show ?thesis using poll bytes stays u w by (auto simp: drain_pane_def)
qed

lemma one_pane_again: "bt_insert t r (bt_insert t q bt_empty) = bt_insert t r bt_empty"
  by (rule bt_eqI) simp

text \<open>A start that finishes, and a tick in which the process prints its letter.\<close>

lemma start_finishes:
  assumes ok: "service_ok (s :: (unit, unit) session_service)" and t: "bt_get (ss_terminal_panes s) k = Some t"
    and rt: "rt_panes (ss_runtime s) = bt_insert t ((pane_runtime_new g blank_model)\<lparr>pr_state := Starting\<rparr>) bt_empty"
  obtains completion r s' where "finish_start completion s = (r, s')" "rt_panes (ss_runtime s') = bt_insert t (talker g) bt_empty"
    "noted s' k = noted s k" "rt_scrollback_limit (ss_runtime s') = rt_scrollback_limit (ss_runtime s)"
    "ss_terminal_ids s' = ss_terminal_ids s"
proof -
  have "runtime_gen s k = g" by (simp add: runtime_gen_def runtime_generation_def t rt pane_runtime_new_def)
  moreover obtain sid wid p where p: "catalog_pane (ss_catalog s) k = Some (sid, wid, p)"
    using ok t catalog_pane_ids_iff [of "ss_catalog s" k] pane_gens_iff [of "ss_catalog s" k] by (auto simp: service_ok_def)
  ultimately have m: "matches_generation s sid k g" using pane_generation_gen [OF ok p] by (simp add: matches_generation_def)
  let ?c = "\<lparr>ssc_service_instance = ss_service_instance s, ssc_session = sid, ssc_pane = k, ssc_generation = g,
    ssc_runtime_pane = t, ssc_result = Inr ()\<rparr>"
  let ?rt = "put_pane t (talker g) (ss_runtime s)"
  have f: "finish_restart t g (Inr ()) (ss_runtime s) = (Inr (), ?rt)"
    by (simp add: finish_restart_def rt talker_def pane_runtime_new_def put_pane_def)
  obtain r s' where run: "finish_start ?c s = (r, s')" by force
  then have "record_completion sid k g t (Inr ()) (s\<lparr>ss_runtime := ?rt\<rparr>) = (r, s')"
    using m f by (simp add: finish_start_def expect_instance_def)
  then have same: "ss_runtime s' = ?rt" "ss_terminal_ids s' = ss_terminal_ids s"
    by (auto simp: record_completion_def attempt_def Let_def split: sum.splits prod.splits)
  show ?thesis
    by (rule that [OF run _ finish_start_noted [OF run]]) (simp_all add: same put_pane_def rt one_pane_again)
qed

lemma talker_ticks:
  assumes ok: "service_ok (s :: (unit, unit) session_service)" and t: "bt_get (ss_terminal_panes s) k = Some t"
    and rt: "rt_panes (ss_runtime s) = bt_insert t (talker g) bt_empty"
  obtains ch s' r w where "tick talking_outside s 1 = Some (ch, s', w)" "rt_panes (ss_runtime s') = bt_insert t r bt_empty"
    "pr_model r = printed_model" "pr_generation r = g" "bt_get (ss_terminal_panes s') k = Some t"
    "bt_get (ss_terminal_revisions s) k = None \<Longrightarrow> bt_get (ss_terminal_revisions s') k = Some 1"
    "rt_scrollback_limit (ss_runtime s') = rt_scrollback_limit (ss_runtime s)"
proof -
  obtain r where d: "drain_pane talking_outside DEFAULT_PANE_BUDGET (talker g) 1 = Some (1, True, r, 0)"
    and r: "pr_generation r = g" "pr_model r = printed_model" using talker_drains by blast
  have keys: "bt_keys (rt_panes (ss_runtime s)) = [t]" by (simp add: rt bt_keys_def bt_entries_insert put_key_def)
  let ?rt = "(put_pane t r (ss_runtime s))\<lparr>rt_round_robin_cursor := 0\<rparr>"
  let ?batch = "\<lparr>rb_bytes = bt_insert t 1 bt_empty, rb_changed = {t}\<rparr>"
  have b: "min DEFAULT_PANE_BUDGET DEFAULT_AGGREGATE_BUDGET = DEFAULT_PANE_BUDGET" "DEFAULT_AGGREGATE_BUDGET \<noteq> 0" "DEFAULT_PANE_BUDGET \<noteq> 0"
    by (simp_all add: DEFAULT_PANE_BUDGET_def DEFAULT_AGGREGATE_BUDGET_def)
  have "drain_panes talking_outside DEFAULT_PANE_BUDGET [t] DEFAULT_AGGREGATE_BUDGET batch_default (ss_runtime s) 1 =
      Some (?batch, put_pane t r (ss_runtime s), 0)"
    by (simp add: rt b d batch_default_def del: One_nat_def)
  then have drain: "drain talking_outside drain_budget_default (ss_runtime s) 1 = Some (?batch, ?rt, 0)"
    unfolding drain_def keys by (simp add: b drain_budget_default_def Let_def del: One_nat_def)
  obtain pr w where pr: "projection talking_outside ?rt t 0 = (Some pr, w)" "rpp_generation pr = g"
    "rpp_snapshot pr = model_snapshot 0 printed_model"
    using r by (cases "pane_health talking_outside r 0") (simp add: projection_def put_pane_def)
  have "runtime_gen s k = g" by (simp add: runtime_gen_def runtime_generation_def t rt talker_def pane_runtime_new_def)
  moreover obtain sid wid p where p: "catalog_pane (ss_catalog s) k = Some (sid, wid, p)"
    using ok t catalog_pane_ids_iff [of "ss_catalog s" k] pane_gens_iff [of "ss_catalog s" k] by (auto simp: service_ok_def)
  ultimately have g: "sp_generation p = g" using pane_generation_gen [OF ok p] by simp
  have link: "bt_get (ss_session_panes s) t = Some k" using ok t by (simp add: service_ok_def service_links_def)
  let ?s = "follow_state sid k p g (runtime_lifecycle (rpp_state pr)) (note_output sid k 1 (s\<lparr>ss_runtime := ?rt\<rparr>))\<lparr>ss_dirty := True\<rparr>"
  have tick: "tick talking_outside s 1 = Some ({k}, ?s, w)"
    by (simp add: tick_def drain link pr p g printed_model del: One_nat_def)
  show ?thesis
  proof (rule that [OF tick])
    show "rt_panes (ss_runtime ?s) = bt_insert t r bt_empty" by (simp add: put_pane_def rt one_pane_again)
    show "bt_get (ss_terminal_panes ?s) k = Some t" by (simp add: follow_state_def note_output_def Let_def t)
    show "bt_get (ss_terminal_revisions s) k = None \<Longrightarrow> bt_get (ss_terminal_revisions ?s) k = Some 1"
      by (simp add: follow_state_def note_output_def Let_def)
  qed (simp_all add: r)
qed

lemma talker_starts:
  assumes ok: "service_ok (s :: (unit, unit) session_service)" and left: "ti_next_pane (ss_terminal_ids s) \<noteq> - 1"
    and at: "catalog_pane (ss_catalog s) k = Some (sid, wid, p)"
    and alone: "\<forall>u. u \<noteq> fst (ensure_runtime_pane k s) \<longrightarrow> bt_get (rt_panes (ss_runtime s)) u = None"
    and limit: "rt_scrollback_limit (ss_runtime s) = 0"
  obtains request job s' t where
    "begin_start talking_outside (ss_service_instance s) (cat_revision (ss_catalog s)) sid k request s = (Inr job, s')"
    "service_ok s'" "bt_get (ss_terminal_panes s') k = Some t" "t = fst (ensure_runtime_pane k s)"
    "rt_panes (ss_runtime s') = bt_insert t ((pane_runtime_new (ssj_generation job) blank_model)\<lparr>pr_state := Starting\<rparr>) bt_empty"
    "bt_get (ss_terminal_revisions s') k = bt_get (ss_terminal_revisions s) k" "rt_scrollback_limit (ss_runtime s') = 0"
    "unat (ti_next_pane (ss_terminal_ids s')) \<le> unat (ti_next_pane (ss_terminal_ids s)) + 1"
    "ssj_generation job = next_generation t (ss_runtime s)"
proof -
  let ?request = "example_request\<lparr>sr_working_directory := sp_working_directory p,
    sr_size := \<lparr>tz_rows = 1, tz_columns = 1, tz_pixel_width = 0, tz_pixel_height = 0\<rparr>\<rparr>"
  obtain job s' where run: "begin_start talking_outside (ss_service_instance s) (cat_revision (ss_catalog s)) sid k ?request s =
      (Inr job, s')"
    by (rule begin_start_succeeds [OF ok left at, of ?request talking_outside]) simp_all
  obtain t e sz where shape: "ensure_runtime_pane k s = (t, e)" "runtime_grid_size (sr_size ?request) = Inr sz"
    "rt_panes (ss_runtime s') = bt_insert t ((pane_runtime_new (ssj_generation job)
      (model_new (os_parser talking_outside) sz (rt_scrollback_limit (ss_runtime e))))\<lparr>pr_state := Starting\<rparr>) (rt_panes (ss_runtime e))"
    "rt_scrollback_limit (ss_runtime s') = rt_scrollback_limit (ss_runtime e)"
    "ss_terminal_panes s' = ss_terminal_panes e" "ss_terminal_revisions s' = ss_terminal_revisions e"
    "ssj_generation job = next_generation t (ss_runtime e)"
    using begin_start_shape [OF run] by metis
  note l = ensure_runtime_pane_leaves [OF shape(1)]
  have "sz = \<lparr>gs_rows = 1, gs_columns = 1\<rparr>" using shape(2) by (simp add: runtime_grid_size_def grid_size_new_def)
  then have m: "model_new (os_parser talking_outside) sz (rt_scrollback_limit (ss_runtime e)) = blank_model"
    using limit l(4) by (simp add: blank_model_def talking_outside_def)
  have "rt_panes (ss_runtime s') =
      bt_insert t ((pane_runtime_new (ssj_generation job) blank_model)\<lparr>pr_state := Starting\<rparr>) bt_empty"
    using shape(1,3) alone l(4) m by (intro bt_eqI) auto
  with run begin_start_keeps [OF ok left run] shape l limit show ?thesis
    by (intro that [OF run]) (simp_all add: safe_step_def)
qed

text \<open>A pane that ran in its first generation and printed its letter once.\<close>

lemma talker_ran:
  obtains s :: "(unit, unit) session_service" and t q where
    "service_ok s" "unat (ti_next_pane (ss_terminal_ids s)) \<le> 2" "rt_panes (ss_runtime s) = bt_insert t q bt_empty"
    "pr_model q = printed_model" "pr_generation q = 1" "bt_get (ss_terminal_panes s) (example_id 3) = Some t"
    "bt_get (ss_terminal_revisions s) (example_id 3) = Some 1" "rt_scrollback_limit (ss_runtime s) = 0"
proof -
  let ?os = "talking_outside" and ?k = "example_id 3" and ?d = "dm_service example_daemon"
  have ok0: "service_ok ?d" using serving_ok [OF example_serving] by (simp add: daemon_ok_def)
  have fields: "ss_runtime ?d = terminal_runtime_new 0" "ss_terminal_revisions ?d = bt_empty"
    "ti_next_pane (ss_terminal_ids ?d) = 1"
    by (simp_all add: example_daemon_def example_service_def)
  have at0: "catalog_pane (ss_catalog ?d) ?k = Some (example_id 1, example_id 2, stopped_pane ?k (lit ''/work''))"
    by (simp add: example_controls example_pane_place)
  have empty: "rt_panes (terminal_runtime_new 0 :: (unit, unit) terminal_runtime) = bt_empty"
    "rt_scrollback_limit (terminal_runtime_new 0 :: (unit, unit) terminal_runtime) = 0"
    by (simp_all add: terminal_runtime_new_def)
  have raw: "ti_next_pane (ss_terminal_ids ?d) \<noteq> - 1" "rt_scrollback_limit (ss_runtime ?d) = 0"
    "\<forall>u. u \<noteq> fst (ensure_runtime_pane ?k ?d) \<longrightarrow> bt_get (rt_panes (ss_runtime ?d)) u = None"
    by (simp_all add: fields empty)
  obtain request1 job1 a t where first:
    "begin_start ?os (ss_service_instance ?d) (cat_revision (ss_catalog ?d)) (example_id 1) ?k request1 ?d = (Inr job1, a)"
    "service_ok a" "bt_get (ss_terminal_panes a) ?k = Some t" "t = fst (ensure_runtime_pane ?k ?d)"
    "rt_panes (ss_runtime a) = bt_insert t ((pane_runtime_new (ssj_generation job1) blank_model)\<lparr>pr_state := Starting\<rparr>) bt_empty"
    "bt_get (ss_terminal_revisions a) ?k = bt_get (ss_terminal_revisions ?d) ?k" "rt_scrollback_limit (ss_runtime a) = 0"
    "unat (ti_next_pane (ss_terminal_ids a)) \<le> unat (ti_next_pane (ss_terminal_ids ?d)) + 1"
    "ssj_generation job1 = next_generation t (ss_runtime ?d)"
    by (rule talker_starts [OF ok0 raw(1) at0 raw(3,2)])
  have a: "service_ok a" "bt_get (ss_terminal_panes a) ?k = Some t"
    "rt_panes (ss_runtime a) = bt_insert t ((pane_runtime_new (ssj_generation job1) blank_model)\<lparr>pr_state := Starting\<rparr>) bt_empty"
    "bt_get (ss_terminal_revisions a) ?k = None" "rt_scrollback_limit (ss_runtime a) = 0"
    "unat (ti_next_pane (ss_terminal_ids a)) \<le> 2" "ssj_generation job1 = 1"
    using first by (simp_all add: fields empty next_generation_def)
  obtain completion1 r1 b where b: "finish_start completion1 a = (r1, b)"
    "rt_panes (ss_runtime b) = bt_insert t (talker (ssj_generation job1)) bt_empty"
    "noted b ?k = noted a ?k" "rt_scrollback_limit (ss_runtime b) = rt_scrollback_limit (ss_runtime a)"
    "ss_terminal_ids b = ss_terminal_ids a"
    by (rule start_finishes [OF a(1-3)])
  have okb: "service_ok b" using finish_start_keeps [OF a(1) b(1)] by (simp add: safe_step_def)
  have tb: "bt_get (ss_terminal_panes b) ?k = Some t" "bt_get (ss_terminal_revisions b) ?k = None"
    using b(3) a(2,4) by (simp_all add: noted_def)
  obtain ch1 d q wd where d: "tick ?os b 1 = Some (ch1, d, wd)" "rt_panes (ss_runtime d) = bt_insert t q bt_empty"
    "pr_model q = printed_model" "pr_generation q = ssj_generation job1" "bt_get (ss_terminal_panes d) ?k = Some t"
    "bt_get (ss_terminal_revisions d) ?k = Some 1" "rt_scrollback_limit (ss_runtime d) = 0"
    using talker_ticks [OF okb tb(1) b(2)] tb(2) b(4) a(5) by metis
  have "unat (ti_next_pane (ss_terminal_ids d)) \<le> 2" using tick_keeps(2) [OF okb d(1)] b(5) a(6) by simp
  with tick_keeps(1) [OF okb d(1)] d a(7) show ?thesis by (intro that) simp_all
qed

text \<open>
  A pane runs, prints its letter, and is viewed; it is started again, shown once, prints the letter
  again, and the client keeps the blank screen.
\<close>

theorem restarted_panes_stay_still_witness:
  "\<exists>i e sid request (s0 :: (unit, unit) session_service) old job s s1 x s2 s3 y s4 c w.
     (\<exists>before w w'. service_snapshot talking_outside (example_id 3) before w = (Inr old, s0, w')) \<and>
     bt_get (ss_terminal_revisions s0) (example_id 3) = Some 1 \<and>
     c = snd (apply_snapshot (example_id 3) old (client_from_backend example_backend)) \<and>
     bt_get (sc_snapshots c) (example_id 3) = Some old \<and>
     begin_start talking_outside i e sid (example_id 3) request s0 = (Inr job, s) \<and>
     (\<exists>completion r. finish_start completion s = (r, s1)) \<and>
     (\<exists>w'. service_snapshot talking_outside (example_id 3) s1 w = (Inr x, s2, w')) \<and>
     (\<exists>w ch w'. tick talking_outside s2 w = Some (ch, s3, w')) \<and>
     (\<exists>w'. service_snapshot talking_outside (example_id 3) s3 w = (Inr y, s4, w')) \<and>
     map_option ts_revision (screen_of s3 (example_id 3)) = Some 1 \<and>
     fst (apply_snapshot (example_id 3) x c) \<and>
     \<not> fst (apply_snapshot (example_id 3) y (snd (apply_snapshot (example_id 3) x c)))"
proof -
  let ?os = "talking_outside" and ?k = "example_id 3"
  obtain d :: "(unit, unit) session_service" and t q where d: "service_ok d" "unat (ti_next_pane (ss_terminal_ids d)) \<le> 2"
    "rt_panes (ss_runtime d) = bt_insert t q bt_empty" "pr_model q = printed_model" "pr_generation q = 1"
    "bt_get (ss_terminal_panes d) ?k = Some t" "bt_get (ss_terminal_revisions d) ?k = Some 1" "rt_scrollback_limit (ss_runtime d) = 0"
    by (rule talker_ran)
  have screen: "screen_of d ?k = Some (model_snapshot 0 printed_model)" using d(3,4,6) by (simp add: screen_of_def)
  obtain old s0 w0 where old: "service_snapshot ?os ?k d (0 :: nat) = (Inr old, s0, w0)"
    by (rule snapshot_succeeds [OF d(1) screen printed_model(3)])
  note run0 = snapshot_runtime [OF old] and noted0 = snapshot_noted [OF old, of ?k]
  have ok1: "service_ok s0" using service_snapshot_keeps [OF d(1) old] by (simp add: safe_step_def)
  have t0: "bt_get (ss_terminal_panes s0) ?k = Some t" "bt_get (ss_terminal_revisions s0) ?k = Some 1"
    using noted0 d(6,7) by (simp_all add: noted_def)
  have "unat (ti_next_pane (ss_terminal_ids s0)) \<le> 2"
    using service_snapshot_keeps [OF d(1) old] d(2) by (simp add: safe_step_def)
  then have left: "ti_next_pane (ss_terminal_ids s0) \<noteq> - 1" by auto
  obtain sid wid p where at: "catalog_pane (ss_catalog s0) ?k = Some (sid, wid, p)"
    using ok1 t0(1) catalog_pane_ids_iff [of "ss_catalog s0" ?k] pane_gens_iff [of "ss_catalog s0" ?k] by (auto simp: service_ok_def)
  have raw: "rt_scrollback_limit (ss_runtime s0) = 0" "fst (ensure_runtime_pane ?k s0) = t"
    "\<forall>u. u \<noteq> fst (ensure_runtime_pane ?k s0) \<longrightarrow> bt_get (rt_panes (ss_runtime s0)) u = None"
    by (simp_all add: ensure_runtime_pane_def t0(1) run0 d(3,8))
  obtain request job s u where second:
    "begin_start ?os (ss_service_instance s0) (cat_revision (ss_catalog s0)) sid ?k request s0 = (Inr job, s)"
    "service_ok s" "bt_get (ss_terminal_panes s) ?k = Some u" "u = fst (ensure_runtime_pane ?k s0)"
    "rt_panes (ss_runtime s) = bt_insert u ((pane_runtime_new (ssj_generation job) blank_model)\<lparr>pr_state := Starting\<rparr>) bt_empty"
    "bt_get (ss_terminal_revisions s) ?k = bt_get (ss_terminal_revisions s0) ?k" "rt_scrollback_limit (ss_runtime s) = 0"
    "unat (ti_next_pane (ss_terminal_ids s)) \<le> unat (ti_next_pane (ss_terminal_ids s0)) + 1"
    "ssj_generation job = next_generation u (ss_runtime s0)"
    by (rule talker_starts [OF ok1 left at raw(3,1)])
  have s: "begin_start ?os (ss_service_instance s0) (cat_revision (ss_catalog s0)) sid ?k request s0 = (Inr job, s)"
    "service_ok s" "bt_get (ss_terminal_panes s) ?k = Some t"
    "rt_panes (ss_runtime s) = bt_insert t ((pane_runtime_new (ssj_generation job) blank_model)\<lparr>pr_state := Starting\<rparr>) bt_empty"
    "bt_get (ss_terminal_revisions s) ?k = Some 1" "ssj_generation job = 2"
    using second raw(2) by (simp_all add: t0(2) run0 d(3,5) next_generation_def sat_inc_def)
  obtain completion r s1 where f: "finish_start completion s = (r, s1)"
    "rt_panes (ss_runtime s1) = bt_insert t (talker (ssj_generation job)) bt_empty" "noted s1 ?k = noted s ?k"
    by (rule start_finishes [OF s(2-4)])
  have okf: "service_ok s1" using finish_start_keeps [OF s(2) f(1)] by (simp add: safe_step_def)
  have tf: "bt_get (ss_terminal_panes s1) ?k = Some t" using f(3) s(3) by (simp add: noted_def)
  have "screen_of s1 ?k = Some (model_snapshot 0 blank_model)" by (simp add: screen_of_def tf f(2) talker_def pane_runtime_new_def)
  then obtain x s2 w2 where x: "service_snapshot ?os ?k s1 0 = (Inr x, s2, w2)"
    by (rule snapshot_succeeds [OF okf _ blank_model_fits])
  have ok2: "service_ok s2" using service_snapshot_keeps [OF okf x] by (simp add: safe_step_def)
  have n2: "noted s2 ?k = noted s1 ?k" and r2: "ss_runtime s2 = ss_runtime s1"
    using snapshot_noted [OF x, of ?k] snapshot_runtime [OF x] by simp_all
  have t2: "bt_get (ss_terminal_panes s2) ?k = Some t" "bt_get (ss_terminal_revisions s2) ?k = Some 1"
    using n2 f(3) s(3,5) by (simp_all add: noted_def)
  obtain ch3 s3 q3 w3 where t3: "tick ?os s2 1 = Some (ch3, s3, w3)" "rt_panes (ss_runtime s3) = bt_insert t q3 bt_empty"
    "pr_model q3 = printed_model" "bt_get (ss_terminal_panes s3) ?k = Some t"
    using talker_ticks [OF ok2 t2(1)] f(2) r2 by metis
  have screen3: "screen_of s3 ?k = Some (model_snapshot 0 printed_model)" using t3 by (simp add: screen_of_def)
  obtain y s4 w4 where y: "service_snapshot ?os ?k s3 0 = (Inr y, s4, w4)"
    by (rule snapshot_succeeds [OF tick_keeps(1) [OF ok2 t3(1)] screen3 printed_model(3)])
  have quiet1: "quiet ?os ?k s s1" by (rule quiet.started [OF quiet.stays f(1)])
  have quiet2: "quiet ?os ?k s2 s3"
    by (rule quiet.ticked [OF quiet.stays t3(1)]) (simp add: still_def screen_of_def t2 t3(2,3) printed_model(2))
  let ?c = "snd (apply_snapshot ?k old (client_from_backend example_backend))"
  have c: "bt_get (sc_snapshots ?c) ?k = Some old"
    by (simp add: apply_snapshot_def client_from_backend_def)
  have "ps_generation old = 1"
    using snapshot_carries(1) [OF d(1) old d(6)] d(3,5,6) by (simp add: runtime_gen_def runtime_generation_def)
  then have later: "\<forall>z. bt_get (sc_snapshots ?c) ?k = Some z \<longrightarrow> ps_generation z < ssj_generation job"
    using c s(6) by simp
  note still = restarted_panes_stay_still [OF ok1 left s(1) quiet1 x quiet2 y later]
  have taken: "fst (apply_snapshot ?k x ?c)" "\<not> fst (apply_snapshot ?k y (snd (apply_snapshot ?k x ?c)))"
    using still by simp_all
  have rev: "map_option ts_revision (screen_of s3 ?k) = Some 1" by (simp add: screen3 printed_model(2))
  show ?thesis
    by (intro exI conjI) (rule old t0(2) refl c s(1) f(1) x t3(1) y rev taken)+
qed

end
