(* ===== verification/RemoteConnection.thy ===== *)
theory RemoteConnection imports RustText begin

text \<open>
  The connection state machine of strukt-remote (\<open>state.rs\<close>): phases, negotiated capabilities,
  generations, and reconnecting with a capped exponential delay. A \<open>Duration\<close> is its number of
  nanoseconds.
\<close>

section \<open>State\<close>

definition MAX_DETAIL_BYTES :: nat where "MAX_DETAIL_BYTES = 1024"

record connection_capabilities =
  cc_files :: bool
  cc_search :: bool
  cc_git :: bool
  cc_processes :: bool
  cc_language :: bool
  cc_watches :: bool

definition capabilities_all :: connection_capabilities where
  "capabilities_all =
     \<lparr>cc_files = True, cc_search = True, cc_git = True, cc_processes = True, cc_language = True,
      cc_watches = True\<rparr>"

definition capabilities_default :: connection_capabilities where
  "capabilities_default =
     \<lparr>cc_files = False, cc_search = False, cc_git = False, cc_processes = False, cc_language = False,
      cc_watches = False\<rparr>"

datatype connection_phase =
    Disconnected
  | Connecting
  | TerminalOnly
  | NegotiatingHelper
  | Ready
  | Stale
  | Reconnecting
  | Failed
  | Disconnecting

datatype recovery_action = InstallHelper | RetryNow | Disconnect | OpenTerminal

record connection_projection =
  cp_phase :: connection_phase
  cp_generation :: u64
  cp_capabilities :: connection_capabilities
  cp_detail :: "rust_string option"
  cp_recovery :: "recovery_action list"

record retry_policy =
  rp_base :: nat
  rp_maximum :: nat
  rp_max_attempts :: "32 word"

datatype state_error = InvalidTransition | InvalidRetryPolicy | RetryLimitReached

record connection_machine =
  cm_phase :: connection_phase
  cm_generation :: u64
  cm_capabilities :: connection_capabilities
  cm_detail :: "rust_string option"
  cm_retry_policy :: retry_policy
  cm_retry_attempts :: "32 word"

section \<open>The retry policy\<close>

definition DURATION_MAX :: nat where
  "DURATION_MAX = (2 ^ 64 - 1) * 1000000000 + 999999999"

definition retry_policy_new :: "nat \<Rightarrow> nat \<Rightarrow> 32 word \<Rightarrow> state_error + retry_policy" where
  "retry_policy_new base maximum max_attempts =
     (if base = 0 \<or> maximum = 0 \<or> maximum < base \<or> max_attempts = 0 then Inl InvalidRetryPolicy
      else Inr \<lparr>rp_base = base, rp_maximum = maximum, rp_max_attempts = max_attempts\<rparr>)"

text \<open>The shift amount is at most 31, so \<open>checked_shl\<close> never yields \<open>None\<close>.\<close>

definition checked_shl :: "32 word \<Rightarrow> nat \<Rightarrow> 32 word option" where
  "checked_shl x n = (if n < 32 then Some (push_bit n x) else None)"

definition retry_delay :: "retry_policy \<Rightarrow> 32 word \<Rightarrow> nat" where
  "retry_delay p retries =
     (let multiplier = (case checked_shl 1 (unat (min retries 31)) of Some m \<Rightarrow> m | None \<Rightarrow> - 1) in
      min (min (rp_base p * unat multiplier) DURATION_MAX) (rp_maximum p))"

definition retry_policy_default :: retry_policy where
  "retry_policy_default = \<lparr>rp_base = 250000000, rp_maximum = 8000000000, rp_max_attempts = 6\<rparr>"

section \<open>Transitions\<close>

definition machine_new :: "retry_policy \<Rightarrow> connection_machine" where
  "machine_new policy =
     \<lparr>cm_phase = Disconnected, cm_generation = 0, cm_capabilities = capabilities_default,
      cm_detail = None, cm_retry_policy = policy, cm_retry_attempts = 0\<rparr>"

definition accepts_generation :: "u64 \<Rightarrow> connection_machine \<Rightarrow> bool" where
  "accepts_generation generation m \<longleftrightarrow> cm_generation m = generation"

definition recovery_actions :: "connection_phase \<Rightarrow> recovery_action list" where
  "recovery_actions phase =
     (case phase of
        TerminalOnly \<Rightarrow> [InstallHelper]
      | Stale \<Rightarrow> [RetryNow, Disconnect]
      | Failed \<Rightarrow> [RetryNow, OpenTerminal, Disconnect]
      | _ \<Rightarrow> [])"

definition projection :: "connection_machine \<Rightarrow> connection_projection" where
  "projection m =
     \<lparr>cp_phase = cm_phase m, cp_generation = cm_generation m, cp_capabilities = cm_capabilities m,
      cp_detail = cm_detail m, cp_recovery = recovery_actions (cm_phase m)\<rparr>"

definition require :: "connection_phase list \<Rightarrow> connection_machine \<Rightarrow> state_error + unit" where
  "require expected m = (if cm_phase m \<in> set expected then Inr () else Inl InvalidTransition)"

definition set_phase :: "connection_phase \<Rightarrow> rust_string option \<Rightarrow> connection_machine \<Rightarrow> connection_machine" where
  "set_phase phase detail m =
     m\<lparr>cm_phase := phase, cm_detail := map_option (bounded_detail MAX_DETAIL_BYTES) detail\<rparr>"

type_synonym 'a machine_step = "(state_error + 'a) \<times> connection_machine"

definition connect :: "connection_machine \<Rightarrow> unit machine_step" where
  "connect m =
     attempt (require [Disconnected, Failed] m) m (\<lambda>_.
       (Inr (), set_phase Connecting None
          (m\<lparr>cm_generation := sat_inc (cm_generation m), cm_retry_attempts := 0,
             cm_capabilities := capabilities_default\<rparr>)))"

definition terminal_available :: "connection_machine \<Rightarrow> unit machine_step" where
  "terminal_available m =
     attempt (require [Connecting, Reconnecting] m) m (\<lambda>_. (Inr (), set_phase TerminalOnly None m))"

definition negotiate_helper :: "connection_machine \<Rightarrow> unit machine_step" where
  "negotiate_helper m =
     attempt (require [TerminalOnly] m) m (\<lambda>_. (Inr (), set_phase NegotiatingHelper None m))"

definition helper_ready :: "connection_capabilities \<Rightarrow> connection_machine \<Rightarrow> unit machine_step" where
  "helper_ready capabilities m =
     attempt (require [TerminalOnly, NegotiatingHelper] m) m (\<lambda>_.
       (Inr (), set_phase Ready None (m\<lparr>cm_capabilities := capabilities, cm_retry_attempts := 0\<rparr>)))"

definition transport_lost :: "rust_string \<Rightarrow> connection_machine \<Rightarrow> unit machine_step" where
  "transport_lost detail m =
     attempt (require [Connecting, TerminalOnly, NegotiatingHelper, Ready, Reconnecting] m) m (\<lambda>_.
       (Inr (), set_phase Stale (Some detail) m))"

definition begin_retry :: "connection_machine \<Rightarrow> nat machine_step" where
  "begin_retry m =
     attempt (require [Stale] m) m (\<lambda>_.
       if cm_retry_attempts m \<ge> rp_max_attempts (cm_retry_policy m)
       then (Inl RetryLimitReached, set_phase Failed (cm_detail m) m)
       else
         let delay = retry_delay (cm_retry_policy m) (cm_retry_attempts m);
             m = m\<lparr>cm_retry_attempts := cm_retry_attempts m + 1\<rparr>
         in (Inr delay, set_phase Reconnecting (cm_detail m) m))"

definition retry_failed :: "rust_string \<Rightarrow> connection_machine \<Rightarrow> unit machine_step" where
  "retry_failed detail m =
     attempt (require [Reconnecting] m) m (\<lambda>_. (Inr (), set_phase Stale (Some detail) m))"

definition retry_connected :: "connection_machine \<Rightarrow> unit machine_step" where
  "retry_connected m =
     attempt (require [Reconnecting] m) m (\<lambda>_.
       (Inr (), set_phase TerminalOnly None
          (m\<lparr>cm_generation := sat_inc (cm_generation m), cm_retry_attempts := 0,
             cm_capabilities := capabilities_default\<rparr>)))"

definition fail :: "rust_string \<Rightarrow> connection_machine \<Rightarrow> unit machine_step" where
  "fail detail m =
     (if cm_phase m \<in> {Disconnected, Disconnecting} then (Inl InvalidTransition, m)
      else (Inr (), set_phase Failed (Some detail) m))"

definition disconnect :: "connection_machine \<Rightarrow> unit machine_step" where
  "disconnect m =
     (if cm_phase m \<in> {Disconnected, Disconnecting} then (Inl InvalidTransition, m)
      else (Inr (), set_phase Disconnecting None (m\<lparr>cm_retry_attempts := 0\<rparr>)))"

definition disconnected :: "connection_machine \<Rightarrow> unit machine_step" where
  "disconnected m =
     attempt (require [Disconnecting] m) m (\<lambda>_.
       (Inr (), set_phase Disconnected None (m\<lparr>cm_capabilities := capabilities_default\<rparr>)))"

section \<open>Reachable machines\<close>

datatype connection_event =
    Connect
  | TerminalAvailable
  | NegotiateHelper
  | HelperReady connection_capabilities
  | TransportLost rust_string
  | BeginRetry
  | RetryFailed rust_string
  | RetryConnected
  | Fail rust_string
  | BeginDisconnect
  | DisconnectDone

fun machine_run :: "connection_event \<Rightarrow> connection_machine \<Rightarrow> connection_machine" where
  "machine_run Connect m = snd (connect m)"
| "machine_run TerminalAvailable m = snd (terminal_available m)"
| "machine_run NegotiateHelper m = snd (negotiate_helper m)"
| "machine_run (HelperReady c) m = snd (helper_ready c m)"
| "machine_run (TransportLost d) m = snd (transport_lost d m)"
| "machine_run BeginRetry m = snd (begin_retry m)"
| "machine_run (RetryFailed d) m = snd (retry_failed d m)"
| "machine_run RetryConnected m = snd (retry_connected m)"
| "machine_run (Fail d) m = snd (fail d m)"
| "machine_run BeginDisconnect m = snd (disconnect m)"
| "machine_run DisconnectDone m = snd (disconnected m)"

inductive machine_step :: "connection_machine \<Rightarrow> connection_machine \<Rightarrow> bool" where
  event: "machine_step m (machine_run e m)"

inductive machine_reachable :: "connection_machine \<Rightarrow> bool" where
  started: "retry_policy_new base maximum max_attempts = Inr policy \<Longrightarrow> maximum \<le> DURATION_MAX \<Longrightarrow>
     machine_reachable (machine_new policy)"
| stepped: "machine_reachable m \<Longrightarrow> machine_step m m' \<Longrightarrow> machine_reachable m'"

inductive_cases machine_step_cases: "machine_step m m'"

text \<open>The phases in which a detail is shown, and those without a helper behind them.\<close>

definition explains :: "connection_phase \<Rightarrow> bool" where
  "explains p \<longleftrightarrow> p \<in> {Stale, Reconnecting, Failed}"

definition detail_ok :: "rust_string option \<Rightarrow> bool" where
  "detail_ok d \<longleftrightarrow> (case d of None \<Rightarrow> True | Some t \<Rightarrow> str_len t \<le> MAX_DETAIL_BYTES \<and> 0 \<notin> set t)"

definition machine_ok :: "connection_machine \<Rightarrow> bool" where
  "machine_ok m \<longleftrightarrow>
     cm_retry_attempts m \<le> rp_max_attempts (cm_retry_policy m) \<and>
     0 < rp_base (cm_retry_policy m) \<and> rp_base (cm_retry_policy m) \<le> rp_maximum (cm_retry_policy m) \<and>
     rp_maximum (cm_retry_policy m) \<le> DURATION_MAX \<and>
     detail_ok (cm_detail m) \<and> (cm_detail m \<noteq> None \<longrightarrow> explains (cm_phase m)) \<and>
     (cm_phase m \<in> {Disconnected, Connecting} \<longrightarrow> cm_capabilities m = capabilities_default)"

lemma set_phase_simps [simp]:
  "cm_phase (set_phase p d m) = p" "cm_generation (set_phase p d m) = cm_generation m"
  "cm_capabilities (set_phase p d m) = cm_capabilities m" "cm_retry_policy (set_phase p d m) = cm_retry_policy m"
  "cm_retry_attempts (set_phase p d m) = cm_retry_attempts m"
  "cm_detail (set_phase p d m) = map_option (bounded_detail MAX_DETAIL_BYTES) d"
  by (simp_all add: set_phase_def)

lemma bounded_ok [simp]: "detail_ok (map_option (bounded_detail MAX_DETAIL_BYTES) d)"
  by (simp add: detail_ok_def bounded_detail_len bounded_detail_no_nul split: option.split)

lemma detail_ok_simps [simp]: "detail_ok None" "detail_ok (Some (bounded_detail MAX_DETAIL_BYTES d))"
  using bounded_ok [of None] bounded_ok [of "Some d"] by simp_all

lemma require_step:
  "attempt (require ps m) m (\<lambda>_. k) = (if cm_phase m \<in> set ps then k else (Inl InvalidTransition, m))"
  by (simp add: require_def)

lemmas machine_steps = connect_def terminal_available_def negotiate_helper_def helper_ready_def transport_lost_def
  begin_retry_def retry_failed_def retry_connected_def fail_def disconnect_def disconnected_def require_step

lemma word_inc_le: "a < b \<Longrightarrow> a + 1 \<le> (b :: 32 word)"
  by (simp add: inc_le)

lemma machine_ok_set_phase:
  assumes "machine_ok m" "d \<noteq> None \<longrightarrow> explains p"
    "p \<in> {Disconnected, Connecting} \<longrightarrow> cm_capabilities m = capabilities_default"
  shows "machine_ok (set_phase p d m)"
  using assms by (simp add: machine_ok_def)

lemma machine_ok_detail: "machine_ok m \<Longrightarrow> cm_detail m \<noteq> None \<longrightarrow> explains (cm_phase m)"
  by (simp add: machine_ok_def)

lemma machine_ok_other:
  assumes "machine_ok m" "e \<noteq> BeginRetry"
  shows "machine_ok (machine_run e m)"
  using assms by (cases e) (simp_all add: machine_steps machine_ok_def explains_def, blast+)

lemma machine_ok_run:
  assumes "machine_ok m"
  shows "machine_ok (machine_run e m)"
proof (cases e)
  case BeginRetry
  have "machine_ok (snd (begin_retry m))"
  proof (cases "cm_phase m = Stale")
    case stale: True
    show ?thesis
    proof (cases "rp_max_attempts (cm_retry_policy m) \<le> cm_retry_attempts m")
      case True
      with stale assms show ?thesis
        by (simp add: begin_retry_def require_step machine_ok_set_phase explains_def)
    next
      case False
      then have "cm_retry_attempts m + 1 \<le> rp_max_attempts (cm_retry_policy m)"
        by (simp add: word_inc_le not_le)
      with False stale assms show ?thesis
        by (simp add: begin_retry_def require_step Let_def machine_ok_def explains_def)
    qed
  next
    case False
    with assms show ?thesis by (simp add: begin_retry_def require_step)
  qed
  with BeginRetry show ?thesis by simp
qed (rule machine_ok_other [OF assms], simp)+

lemma connection_reachable_run [intro]: "machine_reachable m \<Longrightarrow> machine_reachable (machine_run e m)"
  by (rule machine_reachable.stepped [OF _ machine_step.event])

lemma machine_reachable_ok: "machine_reachable m \<Longrightarrow> machine_ok m"
proof (induction rule: machine_reachable.induct)
  case (started base maximum max_attempts policy)
  then show ?case
    by (auto simp: machine_ok_def machine_new_def retry_policy_new_def detail_ok_def split: if_splits)
next
  case (stepped m m')
  then show ?case by (auto elim!: machine_step_cases intro: machine_ok_run)
qed

section \<open>Delays\<close>

lemma unat_power_two: "n < 32 \<Longrightarrow> unat (2 ^ n :: 32 word) = 2 ^ n"
proof -
  assume n: "n < 32"
  have "unat (of_nat (2 ^ n) :: 32 word) = 2 ^ n mod 2 ^ 32"
    using unat_of_nat [of "2 ^ n", where 'a = 32] by simp
  also have "\<dots> = 2 ^ n" using n by (intro mod_less power_strict_increasing) simp_all
  finally show ?thesis by (simp only: of_nat_power of_nat_numeral)
qed

lemma retry_delay_value:
  "retry_delay p retries = min (min (rp_base p * 2 ^ min (unat retries) 31) DURATION_MAX) (rp_maximum p)"
proof -
  have m: "unat (min retries 31) = min (unat retries) 31"
    by (simp add: min_def word_le_nat_alt)
  have "unat (2 ^ min (unat retries) 31 :: 32 word) = 2 ^ min (unat retries) 31"
    by (rule unat_power_two) simp
  moreover have "unat (min retries 31) < 32" by (simp add: m)
  ultimately show ?thesis
    by (simp add: retry_delay_def checked_shl_def m)
qed

text \<open>The delay before the retry that follows \<open>k\<close> failed ones: doubled each time, then capped.\<close>

definition delay_after :: "retry_policy \<Rightarrow> nat \<Rightarrow> nat" where
  "delay_after p k = min (rp_base p * 2 ^ min k 31) (rp_maximum p)"

lemma retry_delay_after: "rp_maximum p \<le> DURATION_MAX \<Longrightarrow> retry_delay p retries = delay_after p (unat retries)"
  by (auto simp: retry_delay_value delay_after_def)

lemma delay_after_bounds:
  "rp_base p \<le> rp_maximum p \<Longrightarrow> rp_base p \<le> delay_after p k \<and> delay_after p k \<le> rp_maximum p"
  by (simp add: delay_after_def)

section \<open>Rounds of retrying\<close>

text \<open>One round: a retry is begun and its attempt fails with the given detail.\<close>

fun retry_rounds :: "rust_string list \<Rightarrow> connection_machine \<Rightarrow> connection_machine" where
  "retry_rounds [] m = m"
| "retry_rounds (d # ds) m = retry_rounds ds (snd (retry_failed d (snd (begin_retry m))))"

definition retries_left :: "connection_machine \<Rightarrow> nat" where
  "retries_left m = unat (rp_max_attempts (cm_retry_policy m)) - unat (cm_retry_attempts m)"

lemma begin_retry_some:
  assumes "machine_ok m" "cm_phase m = Stale" "0 < retries_left m"
  shows "begin_retry m = (Inr (delay_after (cm_retry_policy m) (unat (cm_retry_attempts m))),
      set_phase Reconnecting (cm_detail m) (m\<lparr>cm_retry_attempts := cm_retry_attempts m + 1\<rparr>))"
  using assms
  by (simp add: begin_retry_def require_step retries_left_def Let_def retry_delay_after machine_ok_def
      word_le_nat_alt)

lemma begin_retry_none:
  assumes "cm_phase m = Stale" "retries_left m = 0"
  shows "begin_retry m = (Inl RetryLimitReached, set_phase Failed (cm_detail m) m)"
  using assms by (simp add: begin_retry_def require_step retries_left_def word_le_nat_alt)

lemma attempts_inc:
  fixes m :: connection_machine
  assumes "0 < retries_left m"
  shows "unat (cm_retry_attempts m + 1) = Suc (unat (cm_retry_attempts m))"
proof -
  from assms have "cm_retry_attempts m < rp_max_attempts (cm_retry_policy m)"
    by (simp add: retries_left_def word_less_nat_alt)
  then have "cm_retry_attempts m + 1 \<noteq> 0"
    using word_inc_le [of "cm_retry_attempts m"] by (metis max_word_wrap word_n1_ge order.antisym order_less_imp_le word_order.extremum_strict)
  then show ?thesis by (metis Suc_eq_plus1 add.commute unatSuc)
qed

lemma retry_round:
  fixes d :: rust_string and m :: connection_machine
  assumes "machine_ok m" "cm_phase m = Stale" "0 < retries_left m"
  defines "n \<equiv> snd (retry_failed d (snd (begin_retry m)))"
  shows "machine_ok n" "cm_phase n = Stale" "cm_retry_policy n = cm_retry_policy m"
    "unat (cm_retry_attempts n) = Suc (unat (cm_retry_attempts m))" "Suc (retries_left n) = retries_left m"
proof -
  show "machine_ok n"
    using machine_ok_run [OF machine_ok_run [OF assms(1), of BeginRetry], of "RetryFailed d"] by (simp add: n_def)
  show p: "cm_phase n = Stale" "cm_retry_policy n = cm_retry_policy m"
    "unat (cm_retry_attempts n) = Suc (unat (cm_retry_attempts m))"
    unfolding n_def using assms by (simp_all add: begin_retry_some retry_failed_def require_step attempts_inc)
  with assms(3) show "Suc (retries_left n) = retries_left m"
    by (simp add: retries_left_def)
qed

lemma retry_rounds_stay:
  assumes "machine_ok m" "cm_phase m = Stale" "length ds \<le> retries_left m"
  shows "machine_ok (retry_rounds ds m) \<and> cm_phase (retry_rounds ds m) = Stale \<and>
    cm_retry_policy (retry_rounds ds m) = cm_retry_policy m \<and>
    unat (cm_retry_attempts (retry_rounds ds m)) = unat (cm_retry_attempts m) + length ds \<and>
    retries_left (retry_rounds ds m) + length ds = retries_left m"
  using assms
proof (induction ds arbitrary: m)
  case Nil
  then show ?case by simp
next
  case (Cons d ds)
  then have l: "0 < retries_left m" by simp
  note r = retry_round [OF Cons.prems(1,2) l, of d]
  from r(5) Cons.prems(3) have "length ds \<le> retries_left (snd (retry_failed d (snd (begin_retry m))))" by simp
  from Cons.IH [OF r(1,2) this] r(3-5) show ?case by simp
qed

section \<open>Properties\<close>

text \<open>
  In every connection the machine reaches, the attempts stay within the policy, the detail it
  shows is bounded, free of NUL and shown only where it explains a loss, and a connection that is
  closed or just starting offers no capability. No event lets the generation fall.
\<close>

theorem connections_stay_bounded:
  assumes "machine_reachable m"
  shows "cm_retry_attempts m \<le> rp_max_attempts (cm_retry_policy m) \<and>
    (\<forall>t. cp_detail (projection m) = Some t \<longrightarrow>
       str_len t \<le> MAX_DETAIL_BYTES \<and> 0 \<notin> set t \<and> cp_phase (projection m) \<in> {Stale, Reconnecting, Failed}) \<and>
    (cp_phase (projection m) \<in> {Disconnected, Connecting} \<longrightarrow>
       cp_capabilities (projection m) = capabilities_default) \<and>
    cm_generation m \<le> cm_generation (machine_run e m) \<and>
    cm_retry_policy (machine_run e m) = cm_retry_policy m"
proof -
  have "machine_ok m" using assms by (rule machine_reachable_ok)
  moreover have "cm_generation m \<le> cm_generation (machine_run e m)"
    by (cases e) (simp_all add: machine_steps Let_def sat_inc_mono)
  moreover have "cm_retry_policy (machine_run e m) = cm_retry_policy m"
    by (cases e) (simp_all add: machine_steps Let_def)
  ultimately show ?thesis
    by (auto simp: machine_ok_def detail_ok_def explains_def projection_def)
qed

definition lost_connection :: connection_machine where
  "lost_connection = machine_run (TransportLost (lit ''gone'')) (machine_run (HelperReady capabilities_all)
     (machine_run TerminalAvailable (machine_run Connect (machine_new retry_policy_default))))"

lemma lost_connection_reachable: "machine_reachable lost_connection"
  unfolding lost_connection_def
  by (intro connection_reachable_run machine_reachable.started [of 250000000 8000000000 6])
    (simp_all add: retry_policy_new_def retry_policy_default_def DURATION_MAX_def)

lemma lost_connection_value:
  "cm_phase lost_connection = Stale" "cm_retry_attempts lost_connection = 0"
  "cm_retry_policy lost_connection = retry_policy_default" "cm_capabilities lost_connection = capabilities_all"
  "cm_generation lost_connection = 1"
  by (simp_all add: lost_connection_def machine_new_def machine_steps Let_def sat_inc_def)

theorem connections_stay_bounded_witness:
  "cm_retry_attempts (machine_run BeginRetry lost_connection) \<le> 6 \<and>
   cm_phase (machine_run BeginRetry lost_connection) = Reconnecting"
proof -
  have "machine_reachable (machine_run BeginRetry lost_connection)"
    by (intro connection_reachable_run lost_connection_reachable)
  from connections_stay_bounded [OF this]
    connections_stay_bounded [OF lost_connection_reachable, of BeginRetry]
  have "cm_retry_attempts (machine_run BeginRetry lost_connection) \<le> 6"
    by (simp add: lost_connection_value retry_policy_default_def)
  moreover have "cm_phase (machine_run BeginRetry lost_connection) = Reconnecting"
    by (simp add: begin_retry_def require_step lost_connection_value Let_def retry_policy_default_def)
  ultimately show ?thesis by blast
qed

text \<open>
  C25. Reconnecting ends. From a lost connection each retry that the policy still allows is begun, with
  a delay that doubles with every failure and stays between the base and the maximum; once as many
  have failed as the policy allows, the next is refused and the connection has failed for good.
\<close>

theorem reconnecting_ends:
  assumes "machine_reachable m" "cm_phase m = Stale" "length ds \<le> retries_left m"
  shows "\<exists>delay n. begin_retry (retry_rounds ds m) =
      (if length ds = retries_left m then (Inl RetryLimitReached, n) else (Inr delay, n)) \<and>
    cm_phase n = (if length ds = retries_left m then Failed else Reconnecting) \<and>
    delay = delay_after (cm_retry_policy m) (unat (cm_retry_attempts m) + length ds) \<and>
    rp_base (cm_retry_policy m) \<le> delay \<and> delay \<le> rp_maximum (cm_retry_policy m)"
proof -
  have ok: "machine_ok m" using assms(1) by (rule machine_reachable_ok)
  note s = retry_rounds_stay [OF ok assms(2,3)]
  have d: "rp_base (cm_retry_policy m) \<le> delay_after (cm_retry_policy m) k \<and>
      delay_after (cm_retry_policy m) k \<le> rp_maximum (cm_retry_policy m)" for k
    using ok by (intro delay_after_bounds) (simp add: machine_ok_def)
  show ?thesis
  proof (cases "length ds = retries_left m")
    case True
    with s have "retries_left (retry_rounds ds m) = 0" by simp
    with s True d show ?thesis by (simp add: begin_retry_none)
  next
    case False
    with s assms(3) have "0 < retries_left (retry_rounds ds m)" by simp
    with s False d show ?thesis by (simp add: begin_retry_some)
  qed
qed

theorem reconnecting_ends_witness:
  "fst (begin_retry (retry_rounds [lit ''a'', lit ''b''] lost_connection)) = Inr 1000000000 \<and>
   fst (begin_retry (retry_rounds (replicate 6 (lit ''a'')) lost_connection)) = Inl RetryLimitReached"
proof -
  have l: "retries_left lost_connection = 6"
    by (simp add: retries_left_def lost_connection_value retry_policy_default_def)
  note e = reconnecting_ends [OF lost_connection_reachable lost_connection_value(1), unfolded l]
  show ?thesis
    using e [of "[lit ''a'', lit ''b'']"] e [of "replicate 6 (lit ''a'')"]
    by (auto simp: lost_connection_value retry_policy_default_def delay_after_def)
qed

text \<open>
  \<open>terminal_available\<close> accepts a reconnecting machine too, but keeps the generation and the
  capabilities of the lost transport, which \<open>retry_connected\<close> replaces.
\<close>

lemma terminal_available_keeps_stale_capabilities:
  "machine_reachable m \<Longrightarrow> cm_phase m = Reconnecting \<Longrightarrow>
   fst (terminal_available m) = Inr () \<and>
   cm_generation (snd (terminal_available m)) = cm_generation m \<and>
   cm_capabilities (snd (terminal_available m)) = cm_capabilities m"
  by (simp add: terminal_available_def require_step)

end
