(* ===== verification/RemoteProtocol.thy ===== *)
theory RemoteProtocol imports RustText BTreeMap begin

text \<open>
  The helper protocol of strukt-remote (\<open>protocol.rs\<close>): its messages, the negotiation of limits
  and capabilities, and the \<open>OperationTracker\<close> that polices request identifiers, stream sequences
  and flow-control credit. A \<open>usize\<close> is a natural number, with the checked addition written out;
  the \<open>HashMap\<close> of operations is the ordered map of the prelude, of which only lookups, insertion,
  removal and the number of entries are used; a \<open>BTreeSet\<close> of capabilities is a set.
\<close>

section \<open>Messages\<close>

definition MAX_ERROR_DETAIL_BYTES :: nat where "MAX_ERROR_DETAIL_BYTES = 1024"
definition HARD_MAX_FRAME_BYTES :: nat where "HARD_MAX_FRAME_BYTES = 16 * 1024 * 1024"
definition HARD_MAX_IN_FLIGHT :: nat where "HARD_MAX_IN_FLIGHT = 1024"
definition MAX_SESSION_PAYLOAD_BYTES :: nat where "MAX_SESSION_PAYLOAD_BYTES = 1024 * 1024"

datatype capability = Files | Search | Git | Processes | Language | Watches | Sessions | Tmux

datatype persistent_provider = Native | TmuxProvider

datatype protocol_error =
    IncompatibleMajor
  | NonceMismatch
  | InvalidLimits
  | InvalidRequestId
  | DuplicateRequest
  | TooManyInFlight
  | UnknownRequest
  | RequestCancelled
  | InvalidSequence
  | ChunkTooLarge
  | CreditExceeded
  | InvalidSessionPayload
  | SessionPayloadTooLarge

record session_payload =
  sp_provider :: persistent_provider
  sp_bytes :: "u8 list"

definition session_payload_new :: "persistent_provider \<Rightarrow> u8 list \<Rightarrow> protocol_error + session_payload" where
  "session_payload_new provider bytes =
     (if bytes = [] then Inl InvalidSessionPayload
      else if length bytes > MAX_SESSION_PAYLOAD_BYTES then Inl SessionPayloadTooLarge
      else Inr \<lparr>sp_provider = provider, sp_bytes = bytes\<rparr>)"

definition session_payload_is_valid :: "session_payload \<Rightarrow> bool" where
  "session_payload_is_valid p \<longleftrightarrow> sp_bytes p \<noteq> [] \<and> length (sp_bytes p) \<le> MAX_SESSION_PAYLOAD_BYTES"

datatype remote_build_target = LinuxX86_64 | LinuxAarch64

record protocol_limits =
  pl_max_frame_bytes :: nat
  pl_max_in_flight :: nat
  pl_max_stream_chunk_bytes :: nat
  pl_initial_stream_credit_bytes :: nat

record client_hello =
  ch_protocol_major :: u16
  ch_protocol_minor :: u16
  ch_nonce :: "u8 list"
  ch_workspace_root :: rust_string
  ch_limits :: protocol_limits

record server_hello =
  sh_protocol_major :: u16
  sh_protocol_minor :: u16
  sh_nonce :: "u8 list"
  sh_helper_version :: rust_string
  sh_build_target :: remote_build_target
  sh_workspace_root :: rust_string
  sh_limits :: protocol_limits
  sh_capabilities :: "capability set"

record negotiated_protocol =
  np_protocol_major :: u16
  np_protocol_minor :: u16
  np_limits :: protocol_limits
  np_capabilities :: "capability set"

text \<open>A \<open>RequestId\<close> is its number; \<open>RequestId::new\<close> refuses zero.\<close>

type_synonym request_id = u64

definition request_id_new :: "u64 \<Rightarrow> protocol_error + request_id" where
  "request_id_new value = (if value = 0 then Inl InvalidRequestId else Inr value)"

datatype request_body =
    Stat rust_string
  | ListDirectory rust_string "rust_string option" u32
  | ReadFile rust_string u64 u32
  | WriteFile rust_string rust_string "u8 list"
  | EnumerateFiles bool
  | Search rust_string bool u32
  | GitSummary
  | Spawn rust_string "rust_string list" rust_string bool
  | SpawnLanguage rust_string "rust_string list" rust_string
  | ProcessInput u64 "u8 list"
  | Resize u64 u16 u16
  | DrainProcess u64 u32
  | PollProcess u64
  | TerminateProcess u64
  | LanguageInput u64 "u8 list"
  | ReadLanguage u64
  | TerminateLanguage u64
  | Watch rust_string
  | Cancel request_id
  | GrantCredit request_id u32
  | SessionExchange session_payload

record request_envelope =
  rq_request_id :: request_id
  rq_generation :: u64
  rq_body :: request_body

record stream_chunk =
  sc_request_id :: request_id
  sc_sequence :: u64
  sc_bytes :: "u8 list"

datatype remote_error_kind =
    InvalidRequest
  | Unsupported
  | NotFound
  | PermissionDenied
  | Conflict
  | Cancelled
  | CapacityReached
  | ProcessFailed
  | Internal

record remote_error =
  re_kind :: remote_error_kind
  re_detail :: rust_string

definition remote_error_new :: "remote_error_kind \<Rightarrow> rust_string \<Rightarrow> remote_error" where
  "remote_error_new kind detail = \<lparr>re_kind = kind, re_detail = bounded_detail MAX_ERROR_DETAIL_BYTES detail\<rparr>"

datatype response_body =
    Acknowledged
  | Metadata rust_string rust_string u64
  | DirectoryPage "rust_string list" "rust_string option"
  | StreamBody stream_chunk
  | ProcessStarted u64
  | GitSummaryBody "rust_string option" bool nat nat nat
  | Completed "32 word option"
  | SessionExchangeBody session_payload
  | ErrorBody remote_error

record response_envelope =
  rs_request_id :: request_id
  rs_generation :: u64
  rs_body :: response_body

section \<open>Limits and negotiation\<close>

definition limits_valid :: "protocol_limits \<Rightarrow> bool" where
  "limits_valid l \<longleftrightarrow>
     pl_max_frame_bytes l > 0 \<and> pl_max_frame_bytes l \<le> HARD_MAX_FRAME_BYTES \<and>
     pl_max_in_flight l > 0 \<and> pl_max_in_flight l \<le> HARD_MAX_IN_FLIGHT \<and>
     pl_max_stream_chunk_bytes l > 0 \<and> pl_max_stream_chunk_bytes l \<le> pl_max_frame_bytes l \<and>
     pl_initial_stream_credit_bytes l > 0 \<and> pl_initial_stream_credit_bytes l \<le> HARD_MAX_FRAME_BYTES"

definition limits_new :: "nat \<Rightarrow> nat \<Rightarrow> nat \<Rightarrow> nat \<Rightarrow> protocol_error + protocol_limits" where
  "limits_new max_frame max_in_flight max_chunk credit =
     (let limits = \<lparr>pl_max_frame_bytes = max_frame, pl_max_in_flight = max_in_flight,
        pl_max_stream_chunk_bytes = max_chunk, pl_initial_stream_credit_bytes = credit\<rparr>
      in if limits_valid limits then Inr limits else Inl InvalidLimits)"

definition min_usize :: "nat \<Rightarrow> nat \<Rightarrow> nat" where
  "min_usize left right = (if left < right then left else right)"

definition limits_intersection :: "protocol_limits \<Rightarrow> protocol_limits \<Rightarrow> protocol_limits" where
  "limits_intersection l other =
     \<lparr>pl_max_frame_bytes = min_usize (pl_max_frame_bytes l) (pl_max_frame_bytes other),
      pl_max_in_flight = min_usize (pl_max_in_flight l) (pl_max_in_flight other),
      pl_max_stream_chunk_bytes = min_usize (pl_max_stream_chunk_bytes l) (pl_max_stream_chunk_bytes other),
      pl_initial_stream_credit_bytes =
        min_usize (pl_initial_stream_credit_bytes l) (pl_initial_stream_credit_bytes other)\<rparr>"

definition limits_default :: protocol_limits where
  "limits_default =
     \<lparr>pl_max_frame_bytes = 1024 * 1024, pl_max_in_flight = 64, pl_max_stream_chunk_bytes = 32 * 1024,
      pl_initial_stream_credit_bytes = 256 * 1024\<rparr>"

definition negotiate ::
  "client_hello \<Rightarrow> server_hello \<Rightarrow> capability set \<Rightarrow> protocol_error + negotiated_protocol" where
  "negotiate client server client_capabilities =
     (if ch_protocol_major client \<noteq> sh_protocol_major server then Inl IncompatibleMajor
      else if ch_nonce client \<noteq> sh_nonce server then Inl NonceMismatch
      else if \<not> limits_valid (ch_limits client) \<or> \<not> limits_valid (sh_limits server) then Inl InvalidLimits
      else Inr
        \<lparr>np_protocol_major = ch_protocol_major client,
         np_protocol_minor = min (ch_protocol_minor client) (sh_protocol_minor server),
         np_limits = limits_intersection (ch_limits client) (sh_limits server),
         np_capabilities = client_capabilities \<inter> sh_capabilities server\<rparr>)"

section \<open>The operation tracker\<close>

record operation_state =
  os_next_sequence :: u64
  os_credit :: nat
  os_cancelled :: bool

record operation_tracker =
  ot_limits :: protocol_limits
  ot_operations :: "(request_id, operation_state) btree"

type_synonym tracker_result = "(protocol_error + unit) \<times> operation_tracker"

definition tracker_new :: "protocol_limits \<Rightarrow> protocol_error + operation_tracker" where
  "tracker_new limits =
     (if \<not> limits_valid limits then Inl InvalidLimits
      else Inr \<lparr>ot_limits = limits, ot_operations = bt_empty\<rparr>)"

definition register :: "request_id \<Rightarrow> operation_tracker \<Rightarrow> tracker_result" where
  "register request_id t =
     (if bt_contains (ot_operations t) request_id then (Inl DuplicateRequest, t)
      else if bt_len (ot_operations t) \<ge> pl_max_in_flight (ot_limits t) then (Inl TooManyInFlight, t)
      else (Inr (), t\<lparr>ot_operations := bt_insert request_id
        \<lparr>os_next_sequence = 0, os_credit = pl_initial_stream_credit_bytes (ot_limits t), os_cancelled = False\<rparr>
        (ot_operations t)\<rparr>))"

definition accept_chunk :: "stream_chunk \<Rightarrow> operation_tracker \<Rightarrow> tracker_result" where
  "accept_chunk chunk t =
     attempt (ok_or (bt_get (ot_operations t) (sc_request_id chunk)) UnknownRequest) t (\<lambda>state.
       if os_cancelled state then (Inl RequestCancelled, t)
       else if sc_sequence chunk \<noteq> os_next_sequence state then (Inl InvalidSequence, t)
       else if length (sc_bytes chunk) > pl_max_stream_chunk_bytes (ot_limits t) then (Inl ChunkTooLarge, t)
       else if length (sc_bytes chunk) > os_credit state then (Inl CreditExceeded, t)
       else (Inr (), t\<lparr>ot_operations := bt_insert (sc_request_id chunk)
         (state\<lparr>os_credit := os_credit state - length (sc_bytes chunk),
           os_next_sequence := sat_inc (os_next_sequence state)\<rparr>) (ot_operations t)\<rparr>))"

definition grant_credit :: "request_id \<Rightarrow> nat \<Rightarrow> operation_tracker \<Rightarrow> tracker_result" where
  "grant_credit request_id bytes t =
     attempt (ok_or (bt_get (ot_operations t) request_id) UnknownRequest) t (\<lambda>state.
       if os_cancelled state then (Inl RequestCancelled, t)
       else attempt (ok_or (checked_add_usize (os_credit state) bytes) CreditExceeded) t (\<lambda>credit.
         (Inr (), t\<lparr>ot_operations := bt_insert request_id (state\<lparr>os_credit := credit\<rparr>) (ot_operations t)\<rparr>)))"

definition complete :: "request_id \<Rightarrow> operation_tracker \<Rightarrow> tracker_result" where
  "complete request_id t =
     (case bt_get (ot_operations t) request_id of
        None \<Rightarrow> (Inl UnknownRequest, t)
      | Some _ \<Rightarrow> (Inr (), t\<lparr>ot_operations := bt_remove request_id (ot_operations t)\<rparr>))"

definition cancel :: "request_id \<Rightarrow> operation_tracker \<Rightarrow> tracker_result" where
  "cancel request_id t =
     attempt (ok_or (bt_get (ot_operations t) request_id) UnknownRequest) t (\<lambda>state.
       (Inr (), t\<lparr>ot_operations := bt_insert request_id (state\<lparr>os_cancelled := True\<rparr>) (ot_operations t)\<rparr>))"

section \<open>Negotiation\<close>

text \<open>
  Two hellos are negotiated exactly when their major version and nonce agree and both limits
  are valid; the outcome has the lesser minor version, valid limits that exceed neither side, and
  the capabilities both offer. Neither side can widen what the other allows.
\<close>

definition within :: "protocol_limits \<Rightarrow> protocol_limits \<Rightarrow> bool" where
  "within l m \<longleftrightarrow> pl_max_frame_bytes l \<le> pl_max_frame_bytes m \<and> pl_max_in_flight l \<le> pl_max_in_flight m \<and>
     pl_max_stream_chunk_bytes l \<le> pl_max_stream_chunk_bytes m \<and>
     pl_initial_stream_credit_bytes l \<le> pl_initial_stream_credit_bytes m"

lemma min_usize_min [simp]: "min_usize a b = min a b"
  by (simp add: min_usize_def min_def)

lemma intersection_valid: "limits_valid l \<Longrightarrow> limits_valid m \<Longrightarrow> limits_valid (limits_intersection l m)"
  by (auto simp: limits_valid_def limits_intersection_def)

lemma intersection_within: "within (limits_intersection l m) l" "within (limits_intersection l m) m"
  by (auto simp: within_def limits_intersection_def)

lemma intersection_greatest: "within k l \<Longrightarrow> within k m \<Longrightarrow> within k (limits_intersection l m)"
  by (simp add: within_def limits_intersection_def)

lemma intersection_commute: "limits_intersection l m = limits_intersection m l"
  by (simp add: limits_intersection_def min.commute)

theorem negotiation_narrows:
  "(case negotiate client server offered of
      Inl e \<Rightarrow> e = (if ch_protocol_major client \<noteq> sh_protocol_major server then IncompatibleMajor
                   else if ch_nonce client \<noteq> sh_nonce server then NonceMismatch else InvalidLimits) \<and>
        (e = InvalidLimits \<longrightarrow> \<not> (limits_valid (ch_limits client) \<and> limits_valid (sh_limits server)))
    | Inr p \<Rightarrow> ch_protocol_major client = sh_protocol_major server \<and> ch_nonce client = sh_nonce server \<and>
        limits_valid (np_limits p) \<and> within (np_limits p) (ch_limits client) \<and>
        within (np_limits p) (sh_limits server) \<and>
        (\<forall>l. within l (ch_limits client) \<and> within l (sh_limits server) \<longrightarrow> within l (np_limits p)) \<and>
        np_capabilities p = offered \<inter> sh_capabilities server \<and>
        np_protocol_minor p = min (ch_protocol_minor client) (sh_protocol_minor server) \<and>
        (\<exists>t. tracker_new (np_limits p) = Inr t))"
  by (simp add: negotiate_def tracker_new_def intersection_valid intersection_within intersection_greatest)

definition example_client :: client_hello where
  "example_client = \<lparr>ch_protocol_major = 1, ch_protocol_minor = 3, ch_nonce = replicate 32 7,
     ch_workspace_root = lit ''/srv'', ch_limits = limits_default\<rparr>"

definition example_server :: server_hello where
  "example_server = \<lparr>sh_protocol_major = 1, sh_protocol_minor = 2, sh_nonce = replicate 32 7,
     sh_helper_version = lit ''0.1'', sh_build_target = LinuxX86_64, sh_workspace_root = lit ''/srv'',
     sh_limits = limits_default\<lparr>pl_max_in_flight := 8\<rparr>, sh_capabilities = {Files, capability.Search}\<rparr>"

lemma negotiation_example:
  "negotiate example_client example_server {capability.Search, Git} = Inr
     \<lparr>np_protocol_major = 1, np_protocol_minor = 2, np_limits = limits_default\<lparr>pl_max_in_flight := 8\<rparr>,
      np_capabilities = {capability.Search}\<rparr>"
  by (simp add: negotiate_def example_client_def example_server_def limits_valid_def limits_default_def
      limits_intersection_def HARD_MAX_FRAME_BYTES_def HARD_MAX_IN_FLIGHT_def)

theorem negotiation_narrows_witness:
  "\<exists>p t. negotiate example_client example_server {capability.Search, Git} = Inr p \<and> pl_max_in_flight (np_limits p) = 8 \<and>
     tracker_new (np_limits p) = Inr t"
  using negotiation_narrows [of example_client example_server "{capability.Search, Git}"]
  by (simp add: negotiation_example)

section \<open>What a tracker has admitted\<close>

datatype tracker_event =
    Register request_id
  | Chunk stream_chunk
  | Grant request_id nat
  | Complete request_id
  | CancelRequest request_id

fun tracker_apply :: "tracker_event \<Rightarrow> operation_tracker \<Rightarrow> tracker_result" where
  "tracker_apply (Register r) t = register r t"
| "tracker_apply (Chunk c) t = accept_chunk c t"
| "tracker_apply (Grant r n) t = grant_credit r n t"
| "tracker_apply (Complete r) t = complete r t"
| "tracker_apply (CancelRequest r) t = cancel r t"

text \<open>
  The books an observer keeps of the accepted events of every open request: the sequence numbers
  of the chunks in order, their total size, the sizes of the largest chunk and the credit granted
  after the initial one.
\<close>

record ledger =
  lg_sequences :: "u64 list"
  lg_sizes :: "nat list"
  lg_granted :: nat

definition ledger_open :: ledger where
  "ledger_open = \<lparr>lg_sequences = [], lg_sizes = [], lg_granted = 0\<rparr>"

fun ledger_step :: "tracker_event \<Rightarrow> (request_id \<rightharpoonup> ledger) \<Rightarrow> (request_id \<rightharpoonup> ledger)" where
  "ledger_step (Register r) L = L(r \<mapsto> ledger_open)"
| "ledger_step (Chunk c) L = L(sc_request_id c := map_option (\<lambda>l.
     l\<lparr>lg_sequences := lg_sequences l @ [sc_sequence c], lg_sizes := lg_sizes l @ [length (sc_bytes c)]\<rparr>)
     (L (sc_request_id c)))"
| "ledger_step (Grant r n) L = L(r := map_option (\<lambda>l. l\<lparr>lg_granted := lg_granted l + n\<rparr>) (L r))"
| "ledger_step (Complete r) L = L(r := None)"
| "ledger_step (CancelRequest r) L = L"

inductive tracked :: "operation_tracker \<Rightarrow> (request_id \<rightharpoonup> ledger) \<Rightarrow> bool" where
  started: "tracker_new limits = Inr t \<Longrightarrow> tracked t (\<lambda>_. None)"
| accepted: "tracked t L \<Longrightarrow> tracker_apply e t = (Inr (), t') \<Longrightarrow> tracked t' (ledger_step e L)"
| refused: "tracked t L \<Longrightarrow> tracker_apply e t = (Inl err, t') \<Longrightarrow> tracked t' L"

text \<open>The sequence number of the chunk after \<open>n\<close> others; the counter saturates.\<close>

definition sequence_at :: "nat \<Rightarrow> u64" where
  "sequence_at n = of_nat (min n (2 ^ 64 - 1))"

lemma unat_sequence_at: "unat (sequence_at n) = min n (2 ^ 64 - 1)"
  using unat_of_nat [of "min n (2 ^ 64 - 1)", where 'a = 64] by (simp add: sequence_at_def min_def)

lemma sequence_at_0 [simp]: "sequence_at 0 = 0"
  by (simp add: sequence_at_def)

lemma sat_inc_sequence_at: "sat_inc (sequence_at n) = sequence_at (Suc n)"
  by (rule word_unat_eq_iff [THEN iffD2]) (simp add: unat_sat_inc unat_sequence_at)

definition books_agree :: "protocol_limits \<Rightarrow> operation_state \<Rightarrow> ledger \<Rightarrow> bool" where
  "books_agree lim st l \<longleftrightarrow>
     lg_sequences l = map sequence_at [0..<length (lg_sequences l)] \<and>
     length (lg_sizes l) = length (lg_sequences l) \<and>
     os_next_sequence st = sequence_at (length (lg_sequences l)) \<and>
     (\<forall>n \<in> set (lg_sizes l). n \<le> pl_max_stream_chunk_bytes lim) \<and>
     os_credit st + sum_list (lg_sizes l) = pl_initial_stream_credit_bytes lim + lg_granted l \<and>
     os_credit st < 2 ^ 64"

definition tracker_ok :: "operation_tracker \<Rightarrow> (request_id \<rightharpoonup> ledger) \<Rightarrow> bool" where
  "tracker_ok t L \<longleftrightarrow>
     limits_valid (ot_limits t) \<and> bt_len (ot_operations t) \<le> pl_max_in_flight (ot_limits t) \<and>
     (\<forall>r. rel_option (books_agree (ot_limits t)) (bt_get (ot_operations t) r) (L r))"

lemmas tracker_defs = register_def accept_chunk_def grant_credit_def complete_def cancel_def

lemma tracker_refused: "tracker_apply e t = (Inl err, t') \<Longrightarrow> t' = t"
  by (cases e) (auto simp: tracker_defs outcome split: if_splits option.splits)

lemma tracker_limits: "tracker_apply e t = (Inr (), t') \<Longrightarrow> ot_limits t' = ot_limits t"
  by (cases e) (auto simp: tracker_defs outcome split: if_splits option.splits)

lemma tracker_ok_get:
  "tracker_ok t L \<Longrightarrow> bt_get (ot_operations t) r = Some st \<Longrightarrow> \<exists>l. L r = Some l \<and> books_agree (ot_limits t) st l"
  unfolding tracker_ok_def by (metis option_rel_Some1)

lemma tracker_ok_insert:
  assumes "tracker_ok t L" "books_agree (ot_limits t) st l"
    "bt_get (ot_operations t) r = None \<longrightarrow> bt_len (ot_operations t) < pl_max_in_flight (ot_limits t)"
    "\<And>q. L' q = (if q = r then Some l else L q)"
  shows "tracker_ok (t\<lparr>ot_operations := bt_insert r st (ot_operations t)\<rparr>) L'"
  using assms by (auto simp: tracker_ok_def bt_len_insert)

lemma tracker_ok_step:
  assumes ok: "tracker_ok t L" and e: "tracker_apply e t = (Inr (), t')"
  shows "tracker_ok t' (ledger_step e L)"
proof (cases e)
  case (Register r)
  have "pl_initial_stream_credit_bytes (ot_limits t) < 2 ^ 64"
    using ok by (simp add: tracker_ok_def limits_valid_def HARD_MAX_FRAME_BYTES_def)
  with Register e show ?thesis
    by (auto simp: register_def books_agree_def ledger_open_def split: if_splits intro!: tracker_ok_insert [OF ok])
next
  case (Chunk c)
  with e obtain st where st: "bt_get (ot_operations t) (sc_request_id c) = Some st"
    and c: "sc_sequence c = os_next_sequence st"
      "length (sc_bytes c) \<le> pl_max_stream_chunk_bytes (ot_limits t)" "length (sc_bytes c) \<le> os_credit st"
    and t': "t' = t\<lparr>ot_operations := bt_insert (sc_request_id c)
         (st\<lparr>os_credit := os_credit st - length (sc_bytes c),
           os_next_sequence := sat_inc (os_next_sequence st)\<rparr>) (ot_operations t)\<rparr>"
    by (auto simp: accept_chunk_def outcome split: if_splits)
  obtain l where l: "L (sc_request_id c) = Some l" "books_agree (ot_limits t) st l"
    using tracker_ok_get [OF ok st] by blast
  show ?thesis
    unfolding t' Chunk
    by (rule tracker_ok_insert [OF ok, where l = "l\<lparr>lg_sequences := lg_sequences l @ [sc_sequence c],
        lg_sizes := lg_sizes l @ [length (sc_bytes c)]\<rparr>"])
      (use l c st in \<open>auto simp: books_agree_def sat_inc_sequence_at\<close>)
next
  case (Grant r n)
  with e obtain st where st: "bt_get (ot_operations t) r = Some st" "os_credit st + n < 2 ^ 64"
    and t': "t' = t\<lparr>ot_operations := bt_insert r (st\<lparr>os_credit := os_credit st + n\<rparr>) (ot_operations t)\<rparr>"
    by (auto simp: grant_credit_def outcome checked_add_usize_def split: if_splits)
  obtain l where l: "L r = Some l" "books_agree (ot_limits t) st l"
    using tracker_ok_get [OF ok st(1)] by blast
  show ?thesis
    unfolding t' Grant
    by (rule tracker_ok_insert [OF ok, where l = "l\<lparr>lg_granted := lg_granted l + n\<rparr>"])
      (use l st in \<open>auto simp: books_agree_def\<close>)
next
  case (Complete r)
  with e obtain st where st: "bt_get (ot_operations t) r = Some st"
    and t': "t' = t\<lparr>ot_operations := bt_remove r (ot_operations t)\<rparr>"
    by (auto simp: complete_def split: option.splits)
  from ok bt_len_remove [OF st] show ?thesis
    by (auto simp: t' Complete tracker_ok_def)
next
  case (CancelRequest r)
  with e obtain st where st: "bt_get (ot_operations t) r = Some st"
    and t': "t' = t\<lparr>ot_operations := bt_insert r (st\<lparr>os_cancelled := True\<rparr>) (ot_operations t)\<rparr>"
    by (auto simp: cancel_def outcome)
  obtain l where l: "L r = Some l" "books_agree (ot_limits t) st l"
    using tracker_ok_get [OF ok st] by blast
  show ?thesis
    unfolding t' CancelRequest
    by (rule tracker_ok_insert [OF ok, where l = l]) (use l st in \<open>auto simp: books_agree_def\<close>)
qed

lemma tracked_ok: "tracked t L \<Longrightarrow> tracker_ok t L"
proof (induction rule: tracked.induct)
  case (started limits t)
  then show ?case by (auto simp: tracker_new_def tracker_ok_def bt_len_def split: if_splits)
next
  case (accepted t L e t')
  then show ?case by (simp add: tracker_ok_step)
next
  case (refused t L e err t')
  then show ?case using tracker_refused by blast
qed

text \<open>
  C26. However events are interleaved, a tracker holds at most the negotiated number of requests,
  and for each one the chunks it admitted are numbered from zero without a gap, none is larger than
  the negotiated chunk, and their total size and the credit that is left make up the initial credit
  and what was granted since. A refused event changes nothing.
\<close>

theorem streams_stay_within_credit:
  assumes "tracked t L"
  shows "bt_len (ot_operations t) \<le> pl_max_in_flight (ot_limits t) \<and>
    dom L = set (bt_keys (ot_operations t)) \<and>
    (\<forall>r st l. bt_get (ot_operations t) r = Some st \<longrightarrow> L r = Some l \<longrightarrow>
       lg_sequences l = map sequence_at [0..<length (lg_sizes l)] \<and>
       (\<forall>n \<in> set (lg_sizes l). n \<le> pl_max_stream_chunk_bytes (ot_limits t)) \<and>
       sum_list (lg_sizes l) + os_credit st = pl_initial_stream_credit_bytes (ot_limits t) + lg_granted l) \<and>
    (\<forall>e err t'. tracker_apply e t = (Inl err, t') \<longrightarrow> t' = t)"
proof -
  have ok: "tracker_ok t L" using assms by (rule tracked_ok)
  have d: "dom L = set (bt_keys (ot_operations t))"
  proof (rule set_eqI)
    fix r
    have "rel_option (books_agree (ot_limits t)) (bt_get (ot_operations t) r) (L r)"
      using ok by (simp add: tracker_ok_def)
    then show "r \<in> dom L \<longleftrightarrow> r \<in> set (bt_keys (ot_operations t))"
      by (cases "L r"; cases "bt_get (ot_operations t) r") (auto simp: set_bt_keys)
  qed
  have "\<forall>r st l. bt_get (ot_operations t) r = Some st \<longrightarrow> L r = Some l \<longrightarrow> books_agree (ot_limits t) st l"
    using tracker_ok_get [OF ok] by fastforce
  then have "\<forall>r st l. bt_get (ot_operations t) r = Some st \<longrightarrow> L r = Some l \<longrightarrow>
       lg_sequences l = map sequence_at [0..<length (lg_sizes l)] \<and>
       (\<forall>n \<in> set (lg_sizes l). n \<le> pl_max_stream_chunk_bytes (ot_limits t)) \<and>
       sum_list (lg_sizes l) + os_credit st = pl_initial_stream_credit_bytes (ot_limits t) + lg_granted l"
    unfolding books_agree_def by (metis add.commute)
  moreover have "\<forall>e err t'. tracker_apply e t = (Inl err, t') \<longrightarrow> t' = t"
    using tracker_refused by blast
  ultimately show ?thesis using ok d by (simp add: tracker_ok_def)
qed

definition small_limits :: protocol_limits where
  "small_limits = \<lparr>pl_max_frame_bytes = 64, pl_max_in_flight = 2, pl_max_stream_chunk_bytes = 4,
     pl_initial_stream_credit_bytes = 6\<rparr>"

definition small_tracker :: operation_tracker where
  "small_tracker = \<lparr>ot_limits = small_limits, ot_operations = bt_insert 9
     \<lparr>os_next_sequence = 1, os_credit = 3, os_cancelled = False\<rparr> bt_empty\<rparr>"

lemma small_tracker_tracked:
  "tracked small_tracker [9 \<mapsto> \<lparr>lg_sequences = [0], lg_sizes = [3], lg_granted = 0\<rparr>]"
proof -
  define t0 where "t0 = \<lparr>ot_limits = small_limits, ot_operations = bt_empty :: (u64, operation_state) btree\<rparr>"
  define t1 where "t1 = snd (register 9 t0)"
  define c where "c = \<lparr>sc_request_id = 9, sc_sequence = 0, sc_bytes = [1, 2, 3]\<rparr>"
  have "tracked t0 (\<lambda>_. None)"
    by (rule tracked.started [of small_limits])
      (simp add: tracker_new_def limits_valid_def small_limits_def HARD_MAX_FRAME_BYTES_def HARD_MAX_IN_FLIGHT_def t0_def)
  moreover have r: "tracker_apply (Register 9) t0 = (Inr (), t1)"
    by (simp add: t1_def t0_def register_def bt_contains_def small_limits_def bt_len_def)
  ultimately have 1: "tracked t1 (ledger_step (Register 9) (\<lambda>_. None))"
    by (rule tracked.accepted)
  have "tracker_apply (Chunk c) t1 = (Inr (), small_tracker)"
    by (simp add: t1_def t0_def c_def register_def accept_chunk_def bt_contains_def small_limits_def bt_len_def
        small_tracker_def sat_inc_def bt.put_put)
  from tracked.accepted [OF 1 this] show ?thesis
    by (simp add: ledger_open_def c_def numeral_3_eq_3)
qed

theorem streams_stay_within_credit_witness:
  "bt_len (ot_operations small_tracker) \<le> 2 \<and>
   fst (accept_chunk \<lparr>sc_request_id = 9, sc_sequence = 1, sc_bytes = [1, 2, 3, 4]\<rparr> small_tracker) =
     Inl CreditExceeded"
proof -
  have "fst (accept_chunk \<lparr>sc_request_id = 9, sc_sequence = 1, sc_bytes = [1, 2, 3, 4]\<rparr> small_tracker) =
     Inl CreditExceeded"
    by (simp add: accept_chunk_def small_tracker_def small_limits_def)
  then show ?thesis
    using streams_stay_within_credit [OF small_tracker_tracked]
    by (simp add: small_tracker_def small_limits_def)
qed

text \<open>
  Cancelling a request leaves a tombstone: until the request is completed, whatever happens to
  it or to others, its state stays as it was, its identifier cannot be taken by a new request, and
  neither data nor credit is admitted for it.
\<close>

fun tracker_run :: "tracker_event list \<Rightarrow> operation_tracker \<Rightarrow> operation_tracker" where
  "tracker_run [] t = t"
| "tracker_run (e # es) t = tracker_run es (snd (tracker_apply e t))"

lemma cancelled_step:
  assumes "bt_get (ot_operations t) r = Some st" "os_cancelled st" "e \<noteq> Complete r"
  shows "bt_get (ot_operations (snd (tracker_apply e t))) r = Some st"
  using assms
  by (cases e)
    (auto simp: tracker_defs bt_contains_def attempt_def ok_or_def split: option.splits sum.splits if_splits)

lemma cancelled_run:
  assumes "bt_get (ot_operations t) r = Some st" "os_cancelled st" "Complete r \<notin> set es"
  shows "bt_get (ot_operations (tracker_run es t)) r = Some st"
  using assms
proof (induction es arbitrary: t)
  case Nil
  then show ?case by simp
next
  case (Cons e es)
  then show ?case using cancelled_step [of t r st e] by auto
qed

theorem cancelled_requests_stay_silent:
  assumes "cancel r t = (Inr (), t')" "Complete r \<notin> set es"
  defines "u \<equiv> tracker_run es t'"
  shows "bt_get (ot_operations u) r = bt_get (ot_operations t') r \<and>
    register r u = (Inl DuplicateRequest, u) \<and>
    (\<forall>c. sc_request_id c = r \<longrightarrow> accept_chunk c u = (Inl RequestCancelled, u)) \<and>
    (\<forall>n. grant_credit r n u = (Inl RequestCancelled, u)) \<and>
    fst (complete r u) = Inr ()"
proof -
  from assms(1) obtain st where st: "bt_get (ot_operations t') r = Some st" "os_cancelled st"
    by (auto simp: cancel_def outcome)
  from cancelled_run [OF this assms(2)] have "bt_get (ot_operations u) r = Some st" by (simp add: u_def)
  with st show ?thesis
    by (simp add: register_def accept_chunk_def grant_credit_def complete_def bt_contains_def)
qed

theorem cancelled_requests_stay_silent_witness:
  "fst (register 9 (tracker_run [Register 4, Grant 9 8, CancelRequest 9] (snd (cancel 9 small_tracker)))) =
     Inl DuplicateRequest"
proof -
  have "cancel 9 small_tracker = (Inr (), snd (cancel 9 small_tracker))"
    by (simp add: cancel_def small_tracker_def)
  from cancelled_requests_stay_silent [OF this, of "[Register 4, Grant 9 8, CancelRequest 9]"]
  show ?thesis by simp
qed

end
