(* ===== verification/FrameBytes.thy ===== *)
theory FrameBytes imports StruktPrelude begin

text \<open>
  The length prefix of the binary frames: \<open>u32::to_be_bytes\<close>, \<open>u32::from_be_bytes\<close> and
  \<open>u32::try_from\<close> of a length, with the lemmas on cutting a prefixed payload off a byte sequence
  that the session and the remote framing share.
\<close>

type_synonym byte_string = "u8 list"

definition to_be_bytes :: "nat \<Rightarrow> byte_string" where
  "to_be_bytes n =
     [of_nat (n div 2 ^ 24 mod 256), of_nat (n div 2 ^ 16 mod 256), of_nat (n div 2 ^ 8 mod 256), of_nat (n mod 256)]"

definition from_be_bytes :: "byte_string \<Rightarrow> nat" where
  "from_be_bytes bs = foldl (\<lambda>n b. n * 256 + unat b) 0 bs"

definition u32_try_from :: "nat \<Rightarrow> nat option" where
  "u32_try_from n = (if n < 2 ^ 32 then Some n else None)"

lemma length_to_be_bytes [simp]: "length (to_be_bytes n) = 4"
  by (simp add: to_be_bytes_def)

lemma unat_byte: "n < 256 \<Longrightarrow> unat (of_nat n :: u8) = n"
  using unat_of_nat [of n, where 'a = 8] by simp

lemma from_to_be_bytes: "n < 2 ^ 32 \<Longrightarrow> from_be_bytes (to_be_bytes n) = n"
proof -
  assume n: "n < 2 ^ 32"
  have "from_be_bytes (to_be_bytes n) =
      ((n div 2 ^ 24 mod 256 * 256 + n div 2 ^ 16 mod 256) * 256 + n div 2 ^ 8 mod 256) * 256 + n mod 256"
    by (simp add: from_be_bytes_def to_be_bytes_def unat_byte)
  also have "n div 2 ^ 24 mod 256 = n div 2 ^ 24"
    using n by (simp add: less_mult_imp_div_less)
  also have "n div 2 ^ 24 * 256 + n div 2 ^ 16 mod 256 = n div 2 ^ 16"
    using div_mult_mod_eq [of "n div 2 ^ 16" 256] by (simp add: div_mult2_eq [symmetric])
  also have "n div 2 ^ 16 * 256 + n div 2 ^ 8 mod 256 = n div 2 ^ 8"
    using div_mult_mod_eq [of "n div 2 ^ 8" 256] by (simp add: div_mult2_eq [symmetric])
  also have "n div 2 ^ 8 * 256 + n mod 256 = n"
    using div_mult_mod_eq [of n 256] by simp
  finally show ?thesis .
qed

text \<open>A payload behind its length.\<close>

definition prefixed :: "byte_string \<Rightarrow> byte_string" where
  "prefixed p = to_be_bytes (length p) @ p"

lemma length_prefixed [simp]: "length (prefixed p) = 4 + length p"
  by (simp add: prefixed_def)

end
