(* ===== verification/SessionFraming.thy ===== *)
theory SessionFraming imports FrameBytes begin

text \<open>
  The frame decoder and the frame codec of strukt-session (\<open>framing.rs\<close>). The CBOR library
  (\<open>ciborium\<close>) is a parameter: \<open>into_writer\<close> gives the bytes of a value or fails,
  \<open>from_reader_with_recursion_limit\<close> takes the limit and gives the value at the start of a byte
  sequence and the position behind it, or fails.
\<close>

section \<open>The decoder\<close>

definition HEADER_BYTES :: nat where "HEADER_BYTES = 4"

datatype frame_error = FrameTooLarge | MalformedPayload

record frame_decoder =
  fd_retained :: byte_string
  fd_max_payload_bytes :: nat

definition decoder_new :: "nat \<Rightarrow> frame_decoder" where
  "decoder_new max_payload_bytes = \<lparr>fd_retained = [], fd_max_payload_bytes = max_payload_bytes\<rparr>"

text \<open>
  The loop of \<open>push\<close>: the frames cut off so far and the retained bytes. The header slice has four
  bytes, so its conversion to an array cannot fail.
\<close>

function decode_loop ::
  "nat \<Rightarrow> byte_string list \<Rightarrow> byte_string \<Rightarrow> (frame_error + byte_string list) \<times> byte_string" where
  "decode_loop max_payload frames retained =
     (if length retained < HEADER_BYTES then (Inr frames, retained)
      else let length_field = from_be_bytes (take HEADER_BYTES retained) in
        if length_field > max_payload then (Inl FrameTooLarge, [])
        else case checked_add_usize HEADER_BYTES length_field of
          None \<Rightarrow> (Inl FrameTooLarge, retained)
        | Some complete_length \<Rightarrow>
            if length retained < complete_length then (Inr frames, retained)
            else decode_loop max_payload (frames @ [drop HEADER_BYTES (take complete_length retained)])
              (drop complete_length retained))"
  by pat_completeness auto

termination
  by (relation "measure (\<lambda>(_, _, retained). length retained)")
    (auto simp: HEADER_BYTES_def checked_add_usize_def split: if_splits)

declare decode_loop.simps [simp del]

definition push :: "byte_string \<Rightarrow> frame_decoder \<Rightarrow> (frame_error + byte_string list) \<times> frame_decoder" where
  "push bytes d =
     attempt (ok_or (checked_add_usize (fd_max_payload_bytes d) HEADER_BYTES) FrameTooLarge) d
       (\<lambda>maximum_retained.
         if length bytes > maximum_retained \<or>
            sat_add_usize (length (fd_retained d)) (length bytes) > maximum_retained \<and>
            length (fd_retained d) < HEADER_BYTES
         then (Inl FrameTooLarge, d\<lparr>fd_retained := []\<rparr>)
         else
           let (r, retained) = decode_loop (fd_max_payload_bytes d) [] (fd_retained d @ bytes)
           in (r, d\<lparr>fd_retained := retained\<rparr>))"

definition retained_bytes :: "frame_decoder \<Rightarrow> nat" where
  "retained_bytes d = length (fd_retained d)"

section \<open>The codec\<close>

definition encode_cbor :: "('a \<Rightarrow> byte_string option) \<Rightarrow> 'a \<Rightarrow> nat \<Rightarrow> frame_error + byte_string" where
  "encode_cbor into_writer v max_payload_bytes =
     and_then (ok_or (into_writer v) MalformedPayload) (\<lambda>payload.
       if length payload > max_payload_bytes \<or> length payload > 2 ^ 32 - 1 then Inl FrameTooLarge
       else and_then (ok_or (u32_try_from (length payload)) FrameTooLarge) (\<lambda>payload_length.
         Inr (to_be_bytes payload_length @ payload)))"

definition DECODE_RECURSION_LIMIT :: nat where "DECODE_RECURSION_LIMIT = 32"

definition decode_cbor :: "(nat \<Rightarrow> byte_string \<Rightarrow> ('a \<times> nat) option) \<Rightarrow> byte_string \<Rightarrow> frame_error + 'a" where
  "decode_cbor from_reader_with_recursion_limit payload =
     and_then (ok_or (from_reader_with_recursion_limit DECODE_RECURSION_LIMIT payload) MalformedPayload) (\<lambda>(v, position).
       if position \<noteq> length payload then Inl MalformedPayload else Inr v)"

text \<open>
  What \<open>ciborium\<close> documents: a value that was written is read back, unless its items are nested more
  deeply than the limit of the reader, which is an error. The nesting of a value is a parameter too.
\<close>

definition cbor_laws ::
  "('a \<Rightarrow> byte_string option) \<Rightarrow> (nat \<Rightarrow> byte_string \<Rightarrow> ('a \<times> nat) option) \<Rightarrow> ('a \<Rightarrow> nat) \<Rightarrow> bool" where
  "cbor_laws into_writer from_reader nesting \<longleftrightarrow>
     (\<forall>v p limit. into_writer v = Some p \<longrightarrow>
        from_reader limit p = (if nesting v \<le> limit then Some (v, length p) else None))"

section \<open>Decoding in pieces\<close>

lemma decode_short: "length xs < 4 \<Longrightarrow> decode_loop m fs xs = (Inr fs, xs)"
  by (simp add: decode_loop.simps [of m fs xs] HEADER_BYTES_def)

lemma decode_step:
  assumes "4 \<le> length xs" "m + 4 < 2 ^ 64"
  shows "decode_loop m fs xs =
     (let n = from_be_bytes (take 4 xs) in
      if n > m then (Inl FrameTooLarge, [])
      else if length xs < 4 + n then (Inr fs, xs)
      else decode_loop m (fs @ [take n (drop 4 xs)]) (drop (4 + n) xs))"
  using assms
  by (subst decode_loop.simps) (simp add: HEADER_BYTES_def checked_add_usize_def Let_def drop_take)

lemma decode_prefixed:
  assumes "length p \<le> m" "length p < 2 ^ 32" "m + 4 < 2 ^ 64"
  shows "decode_loop m fs (prefixed p @ xs) = decode_loop m (fs @ [p]) xs"
  using assms by (simp add: decode_step from_to_be_bytes Let_def prefixed_def)

text \<open>Bytes that arrive later are decoded as if they had been there at once.\<close>

lemma decode_long:
  assumes "4 \<le> length xs" "m + 4 < 2 ^ 64"
  defines "n \<equiv> from_be_bytes (take 4 xs)"
  shows "decode_loop m fs (xs @ ys) =
     (if n > m then (Inl FrameTooLarge, [])
      else if length (xs @ ys) < 4 + n then (Inr fs, xs @ ys)
      else decode_loop m (fs @ [take n (drop 4 (xs @ ys))]) (drop (4 + n) (xs @ ys)))"
  using assms by (subst decode_step) (simp_all add: Let_def)

lemma decode_append:
  assumes "m + 4 < 2 ^ 64"
  shows "decode_loop m fs (xs @ ys) =
    (case decode_loop m fs xs of (Inl e, r) \<Rightarrow> (Inl e, r) | (Inr gs, rest) \<Rightarrow> decode_loop m gs (rest @ ys))"
proof (induction xs arbitrary: fs rule: length_induct)
  case (1 xs)
  show ?case
  proof (cases "length xs < 4")
    case True
    then show ?thesis by (simp add: decode_short)
  next
    case long: False
    define n where "n = from_be_bytes (take 4 xs)"
    note step = decode_long [OF _ assms, of xs fs, folded n_def]
    show ?thesis
    proof (cases "n > m \<or> length xs < 4 + n")
      case True
      with long step [of "[]"] step [of ys] show ?thesis by (auto split: if_splits)
    next
      case False
      have "length (drop (4 + n) xs) < length xs" using long by simp
      note ih = "1.IH" [rule_format, OF this, of "fs @ [take n (drop 4 xs)]"]
      with long step [of "[]"] step [of ys] False show ?thesis by simp
    qed
  qed
qed

lemma decode_prefix:
  assumes "m + 4 < 2 ^ 64"
  shows "decode_loop m (es @ fs) xs =
    (case decode_loop m fs xs of (Inl e, r) \<Rightarrow> (Inl e, r) | (Inr gs, r) \<Rightarrow> (Inr (es @ gs), r))"
proof (induction xs arbitrary: fs rule: length_induct)
  case (1 xs)
  show ?case
  proof (cases "length xs < 4")
    case True
    then show ?thesis by (simp add: decode_short)
  next
    case long: False
    define n where "n = from_be_bytes (take 4 xs)"
    have step: "decode_loop m gs xs =
        (if n > m then (Inl FrameTooLarge, []) else if length xs < 4 + n then (Inr gs, xs)
         else decode_loop m (gs @ [take n (drop 4 xs)]) (drop (4 + n) xs))" for gs
      using decode_long [OF _ assms, of xs gs "[]"] long by (simp add: n_def)
    have "length (drop (4 + n) xs) < length xs" using long by simp
    note ih = "1.IH" [rule_format, OF this, of "fs @ [take n (drop 4 xs)]"]
    with step [of fs] step [of "es @ fs"] show ?thesis by simp
  qed
qed

lemma decode_rest:
  assumes "decode_loop m fs xs = (Inr gs, rest)" "m + 4 < 2 ^ 64"
  shows "decode_loop m [] rest = (Inr [], rest)"
proof -
  have "decode_loop m (gs @ []) rest = (Inr gs, rest)"
    using decode_append [OF assms(2), of fs xs "[]"] assms(1) by simp
  then show ?thesis
    by (subst (asm) decode_prefix [OF assms(2)]) (auto split: prod.splits sum.splits)
qed

lemma decode_error: "decode_loop m fs xs \<noteq> (Inl MalformedPayload, r)"
  by (induction m fs xs rule: decode_loop.induct)
    (subst decode_loop.simps, auto simp: Let_def split: option.splits)

text \<open>What a push leaves behind.\<close>

lemma decode_leaves:
  assumes "m + 4 < 2 ^ 64"
  shows "case decode_loop m fs xs of (Inl _, r) \<Rightarrow> r = [] | (Inr gs, r) \<Rightarrow> length r < m + 4 \<and>
    (\<exists>hs. gs = fs @ hs \<and> (\<forall>p \<in> set hs. length p \<le> m) \<and> length r + sum_list (map length hs) + 4 * length hs = length xs)"
proof (induction xs arbitrary: fs rule: length_induct)
  case (1 xs)
  show ?case
  proof (cases "length xs < 4")
    case True
    then show ?thesis by (simp add: decode_short)
  next
    case long: False
    define n where "n = from_be_bytes (take 4 xs)"
    have step: "decode_loop m fs xs =
        (if n > m then (Inl FrameTooLarge, []) else if length xs < 4 + n then (Inr fs, xs)
         else decode_loop m (fs @ [take n (drop 4 xs)]) (drop (4 + n) xs))"
      using long assms by (subst decode_step) (simp_all add: n_def Let_def)
    show ?thesis
    proof (cases "n > m \<or> length xs < 4 + n")
      case True
      with step show ?thesis by (auto simp: not_less)
    next
      case False
      have "length (drop (4 + n) xs) < length xs" using long by simp
      note ih = "1.IH" [rule_format, OF this, of "fs @ [take n (drop 4 xs)]"]
      have d: "decode_loop m fs xs = decode_loop m (fs @ [take n (drop 4 xs)]) (drop (4 + n) xs)"
        using step False by simp
      obtain res r where res: "decode_loop m (fs @ [take n (drop 4 xs)]) (drop (4 + n) xs) = (res, r)" by fastforce
      show ?thesis
      proof (cases res)
        case (Inl e)
        with ih res d show ?thesis by simp
      next
        case (Inr gs)
        with ih res obtain hs where hs: "length r < m + 4" "gs = fs @ take n (drop 4 xs) # hs"
          "\<forall>p \<in> set hs. length p \<le> m" "length r + sum_list (map length hs) + 4 * length hs = length (drop (4 + n) xs)"
          by auto
        have "n \<le> length xs - 4" using False by linarith
        then have len: "length (take n (drop 4 xs)) = n" by (simp add: min_absorb2)
        have "\<exists>hs. gs = fs @ hs \<and> (\<forall>p \<in> set hs. length p \<le> m) \<and>
            length r + sum_list (map length hs) + 4 * length hs = length xs"
        proof (intro exI conjI)
          show "gs = fs @ (take n (drop 4 xs) # hs)" by (rule hs(2))
          show "\<forall>p \<in> set (take n (drop 4 xs) # hs). length p \<le> m" using hs(3) len False by simp
          show "length r + sum_list (map length (take n (drop 4 xs) # hs)) +
              4 * length (take n (drop 4 xs) # hs) = length xs"
            using hs(4) len False by (simp del: length_take, linarith)
        qed
        with hs(1) Inr res d show ?thesis by simp
      qed
    qed
  qed
qed

section \<open>Properties\<close>

lemma push_cases:
  assumes "fd_max_payload_bytes d + 5 < 2 ^ 64"
  obtains
    (refused) "push bytes d = (Inl FrameTooLarge, d\<lparr>fd_retained := []\<rparr>)"
      "length bytes > fd_max_payload_bytes d + 4 \<or>
       length (fd_retained d) + length bytes > fd_max_payload_bytes d + 4 \<and> length (fd_retained d) < 4"
  | (decoded) r rest where
      "decode_loop (fd_max_payload_bytes d) [] (fd_retained d @ bytes) = (r, rest)"
      "push bytes d = (r, d\<lparr>fd_retained := rest\<rparr>)"
      "\<not> (length bytes > fd_max_payload_bytes d + 4 \<or>
       length (fd_retained d) + length bytes > fd_max_payload_bytes d + 4 \<and> length (fd_retained d) < 4)"
proof -
  have "sat_add_usize (length (fd_retained d)) (length bytes) > fd_max_payload_bytes d + 4 \<longleftrightarrow>
      length (fd_retained d) + length bytes > fd_max_payload_bytes d + 4"
    using assms by (auto simp: sat_add_usize_def)
  then have p: "push bytes d =
     (if length bytes > fd_max_payload_bytes d + 4 \<or>
       length (fd_retained d) + length bytes > fd_max_payload_bytes d + 4 \<and> length (fd_retained d) < 4
      then (Inl FrameTooLarge, d\<lparr>fd_retained := []\<rparr>)
      else let (r, rest) = decode_loop (fd_max_payload_bytes d) [] (fd_retained d @ bytes)
           in (r, d\<lparr>fd_retained := rest\<rparr>))"
    using assms by (simp add: push_def checked_add_usize_def HEADER_BYTES_def)
  obtain r rest where "decode_loop (fd_max_payload_bytes d) [] (fd_retained d @ bytes) = (r, rest)" by fastforce
  with p that show thesis by (metis (no_types, lifting) case_prod_conv)
qed

text \<open>
  Whatever a peer sends, a push returns; the decoder then holds fewer bytes than one largest
  frame with its header, no payload exceeds the bound, every byte is in a payload, a header or held
  back, and after a refusal nothing is held.
\<close>

theorem push_stays_bounded:
  assumes "fd_max_payload_bytes d + 5 < 2 ^ 64" "push bytes d = (r, d')"
  shows "fd_max_payload_bytes d' = fd_max_payload_bytes d \<and>
    (case r of
       Inl e \<Rightarrow> e = FrameTooLarge \<and> retained_bytes d' = 0
     | Inr frames \<Rightarrow> retained_bytes d' < fd_max_payload_bytes d + 4 \<and>
         (\<forall>p \<in> set frames. length p \<le> fd_max_payload_bytes d) \<and>
         retained_bytes d' + sum_list (map (\<lambda>p. 4 + length p) frames) = retained_bytes d + length bytes)"
  using assms(1)
proof (cases rule: push_cases [where bytes = bytes])
  case refused
  with assms(2) show ?thesis by (auto simp: retained_bytes_def)
next
  case (decoded res rest)
  have m: "fd_max_payload_bytes d + 4 < 2 ^ 64" using assms(1) by simp
  note l = decode_leaves [OF m, of "[]" "fd_retained d @ bytes", unfolded decoded(1)]
  have e: "r = res" "d' = d\<lparr>fd_retained := rest\<rparr>" using decoded(2) assms(2) by auto
  show ?thesis
  proof (cases res)
    case (Inl err)
    with decoded(1) have "err = FrameTooLarge" by (cases err) (use decode_error in blast)+
    with l e Inl show ?thesis by (simp add: retained_bytes_def)
  next
    case (Inr frames)
    with l have "length rest < fd_max_payload_bytes d + 4" "\<forall>p \<in> set frames. length p \<le> fd_max_payload_bytes d"
      "length rest + sum_list (map length frames) + 4 * length frames = length (fd_retained d) + length bytes"
      by auto
    moreover have "sum_list (map (\<lambda>p. 4 + length p) frames) = sum_list (map length frames) + 4 * length frames"
      by (induction frames) auto
    ultimately show ?thesis using e Inr by (simp add: retained_bytes_def)
  qed
qed

theorem push_stays_bounded_witness:
  "push [0, 0, 0, 2, 7, 8, 0, 0] (decoder_new 4) = (Inr [[7, 8]], (decoder_new 4)\<lparr>fd_retained := [0, 0]\<rparr>) \<and>
   retained_bytes ((decoder_new 4)\<lparr>fd_retained := [0, 0]\<rparr>) < 8"
proof -
  have p: "push [0, 0, 0, 2, 7, 8, 0, 0] (decoder_new 4) =
      (Inr [[7, 8]], (decoder_new 4)\<lparr>fd_retained := [0, 0]\<rparr>)"
    by (simp add: push_def decoder_new_def checked_add_usize_def HEADER_BYTES_def sat_add_usize_def
        decode_step decode_short from_be_bytes_def Let_def numeral_3_eq_3)
  moreover have "retained_bytes ((decoder_new 4)\<lparr>fd_retained := [0, 0]\<rparr>) < 8"
    using push_stays_bounded [OF _ p] by (simp add: decoder_new_def)
  ultimately show ?thesis by blast
qed

text \<open>A stream of pieces, up to the first that is refused.\<close>

fun push_all :: "byte_string list \<Rightarrow> frame_decoder \<Rightarrow> (frame_error + byte_string list) \<times> frame_decoder" where
  "push_all [] d = (Inr [], d)"
| "push_all (c # cs) d =
     (case push c d of
        (Inl e, d) \<Rightarrow> (Inl e, d)
      | (Inr frames, d) \<Rightarrow>
          (case push_all cs d of
             (Inl e, d) \<Rightarrow> (Inl e, d)
           | (Inr rest, d) \<Rightarrow> (Inr (frames @ rest), d)))"

lemma decode_frames:
  assumes "\<forall>p \<in> set ps. length p \<le> m \<and> length p < 2 ^ 32" "m + 4 < 2 ^ 64"
  shows "decode_loop m fs (concat (map prefixed ps)) = (Inr (fs @ ps), [])"
  using assms(1)
proof (induction ps arbitrary: fs)
  case Nil
  then show ?case by (simp add: decode_short)
next
  case (Cons p ps)
  then show ?case using assms(2) by (simp add: decode_prefixed)
qed

lemma push_all_decodes:
  assumes "decode_loop m [] (fd_retained d @ concat cs) = (Inr gs, rest)"
    "\<forall>c \<in> set cs. length c \<le> m + 1" "m = fd_max_payload_bytes d" "m + 5 < 2 ^ 64"
    "decode_loop m [] (fd_retained d) = (Inr [], fd_retained d)" "length (fd_retained d) < m + 4"
  shows "push_all cs d = (Inr gs, d\<lparr>fd_retained := rest\<rparr>)"
  using assms
proof (induction cs arbitrary: d gs)
  case Nil
  then show ?case by simp
next
  case (Cons c cs)
  have m: "m + 4 < 2 ^ 64" "fd_max_payload_bytes d + 5 < 2 ^ 64" using Cons.prems(3,4) by simp_all
  let ?held = "fd_retained d"
  have all: "decode_loop m [] ((?held @ c) @ concat cs) = (Inr gs, rest)" using Cons.prems(1) by simp
  obtain fs held' where here: "decode_loop m [] (?held @ c) = (Inr fs, held')"
    using all unfolding decode_append [OF m(1), of "[]" "?held @ c"] by (auto split: prod.splits sum.splits)
  have "decode_loop m ([] @ fs) (held' @ concat cs) = (Inr gs, rest)"
    using all decode_append [OF m(1), of "[]" "?held @ c" "concat cs"] here by simp
  with decode_prefix [OF m(1), of fs "[]" "held' @ concat cs"]
  obtain hs where later: "decode_loop m [] (held' @ concat cs) = (Inr hs, rest)" "gs = fs @ hs"
    by (auto split: prod.splits sum.splits)
  have p: "push c d = (Inr fs, d\<lparr>fd_retained := held'\<rparr>)"
    using m(2)
  proof (cases rule: push_cases [where bytes = c])
    case refused
    with Cons.prems(2,3) show ?thesis by auto
  next
    case (decoded r rest)
    with here Cons.prems(3) show ?thesis by simp
  qed
  have "length held' < m + 4" using decode_leaves [OF m(1), of "[]" "?held @ c"] here by simp
  with later Cons.prems(2,3) decode_rest [OF here m(1)] Cons.prems(4)
  have "push_all cs (d\<lparr>fd_retained := held'\<rparr>) = (Inr hs, d\<lparr>fd_retained := held'\<rparr>\<lparr>fd_retained := rest\<rparr>)"
    by (intro Cons.IH) simp_all
  with p later show ?case by simp
qed

text \<open>
  C27. Whatever values are encoded, their frames can be sent one behind the other and cut anywhere
  into pieces of at most one byte more than a payload: every piece is accepted, the payloads written
  come out once each and in order, and nothing is left over. A payload decodes to the value sent
  exactly when the value is nested at most 32 levels deep, the limit the decoder passes to \<open>ciborium\<close>;
  a deeper one, which the encoder accepts, is refused as malformed.
\<close>

theorem session_frames_survive_chunking:
  assumes "list_all2 (\<lambda>v f. encode_cbor into_writer v m = Inr f) vs fs"
    "concat cs = concat fs" "\<forall>c \<in> set cs. length c \<le> m + 1" "m + 5 < 2 ^ 64"
    "cbor_laws into_writer from_reader nesting"
  shows "\<exists>ps. push_all cs (decoder_new m) = (Inr ps, decoder_new m) \<and> map into_writer vs = map Some ps \<and>
    map (decode_cbor from_reader) ps = map (\<lambda>v. if nesting v \<le> 32 then Inr v else Inl MalformedPayload) vs"
proof -
  have enc: "\<exists>p. into_writer v = Some p \<and> length p \<le> m \<and> length p < 2 ^ 32 \<and> f = prefixed p"
    if "encode_cbor into_writer v m = Inr f" for v f
    using that by (auto simp: encode_cbor_def and_then_def ok_or_def u32_try_from_def prefixed_def
        split: option.splits if_splits)
  have "\<exists>ps. fs = map prefixed ps \<and> map into_writer vs = map Some ps \<and> (\<forall>p \<in> set ps. length p \<le> m \<and> length p < 2 ^ 32)"
    using assms(1)
  proof (induction rule: list_all2_induct)
    case Nil
    then show ?case by simp
  next
    case (Cons v vs f fs)
    then obtain ps where "fs = map prefixed ps" "map into_writer vs = map Some ps"
      "\<forall>p \<in> set ps. length p \<le> m \<and> length p < 2 ^ 32" by blast
    moreover obtain p where "into_writer v = Some p" "length p \<le> m" "length p < 2 ^ 32" "f = prefixed p"
      using enc Cons by blast
    ultimately show ?case by (intro exI [of _ "p # ps"]) simp
  qed
  then obtain ps where ps: "fs = map prefixed ps" "map into_writer vs = map Some ps"
    "\<forall>p \<in> set ps. length p \<le> m \<and> length p < 2 ^ 32" by blast
  have "m + 4 < 2 ^ 64" using assms(4) by simp
  then have "decode_loop m [] (fd_retained (decoder_new m) @ concat cs) = (Inr ps, [])"
    using decode_frames [OF ps(3), of "[]"] assms(2) ps(1) by (simp add: decoder_new_def)
  from push_all_decodes [OF this assms(3) _ assms(4)]
  have "push_all cs (decoder_new m) = (Inr ps, decoder_new m)"
    by (simp add: decoder_new_def decode_short)
  moreover have "map (decode_cbor from_reader) ps = map (\<lambda>v. if nesting v \<le> 32 then Inr v else Inl MalformedPayload) vs"
    using ps(2) assms(5)
    by (induction ps arbitrary: vs) (auto simp: decode_cbor_def cbor_laws_def DECODE_RECURSION_LIMIT_def Cons_eq_map_conv)
  ultimately show ?thesis using ps(2) by blast
qed

text \<open>A writer of nested arrays of one element, and its reader: a value is the number of arrays.\<close>

definition nest_writer :: "nat \<Rightarrow> byte_string option" where
  "nest_writer n = Some (replicate n 129 @ [0])"

definition nest_reader :: "nat \<Rightarrow> byte_string \<Rightarrow> (nat \<times> nat) option" where
  "nest_reader limit p =
     (let n = length (takeWhile (\<lambda>b. b = 129) p) in if n \<le> limit then Some (n, n + 1) else None)"

lemma nest_laws: "cbor_laws nest_writer nest_reader id"
  by (auto simp: cbor_laws_def nest_writer_def nest_reader_def Let_def takeWhile_append)

definition nested_frames :: "byte_string list" where
  "nested_frames = [prefixed (replicate 1 129 @ [0]), prefixed (replicate 33 129 @ [0])]"

theorem session_frames_survive_chunking_witness:
  "\<exists>ps. push_all [take 5 (concat nested_frames), drop 5 (concat nested_frames)] (decoder_new 40) = (Inr ps, decoder_new 40) \<and>
     map nest_writer [1, 33] = map Some ps \<and> map (decode_cbor nest_reader) ps = [Inr 1, Inl MalformedPayload]"
proof -
  have enc: "list_all2 (\<lambda>v f. encode_cbor nest_writer v 40 = Inr f) [1, 33] nested_frames"
    by (simp add: encode_cbor_def nest_writer_def nested_frames_def u32_try_from_def prefixed_def)
  have cut: "concat [take 5 (concat nested_frames), drop 5 (concat nested_frames)] = concat nested_frames" by simp
  have small: "\<forall>c \<in> set [take 5 (concat nested_frames), drop 5 (concat nested_frames)]. length c \<le> 40 + 1"
    by (simp add: nested_frames_def prefixed_def to_be_bytes_def)
  have m: "(40 :: nat) + 5 < 2 ^ 64" by simp
  from session_frames_survive_chunking [OF enc cut small m nest_laws] show ?thesis by simp
qed

text \<open>
  The bound on pieces is needed: two frames that are each within bounds are refused when they arrive
  in one piece that is longer than the largest frame.
\<close>

lemma frames_in_one_piece_are_refused:
  "push [0, 0, 0, 2, 5, 6, 0, 0, 0, 2, 7, 8] (decoder_new 4) = (Inl FrameTooLarge, decoder_new 4) \<and>
   fst (push_all [[0, 0, 0, 2, 5, 6], [0, 0, 0, 2, 7, 8]] (decoder_new 4)) = Inr [[5, 6], [7, 8]]"
  by (simp add: push_def decoder_new_def checked_add_usize_def HEADER_BYTES_def sat_add_usize_def
      decode_step decode_short from_be_bytes_def Let_def numeral_3_eq_3)

end
