(* ===== verification/LanguageFraming.thy ===== *)
theory LanguageFraming imports RustText FrameBytes begin

text \<open>
  The Language Server Protocol framing of strukt-language (\<open>framing.rs\<close>): the \<open>Content-Length\<close>
  header, the incremental decoder and the encoder. The loop of the decoder is a partial function
  whose value is \<open>None\<close> while it runs, so that it ends is a theorem, not an assumption.
\<close>

section \<open>Splitting and decimal numbers\<close>

text \<open>\<open>str::split("\r\n")\<close> and \<open>str::split_once\<close> at a character.\<close>

fun split_crlf :: "rust_string \<Rightarrow> rust_string list" where
  "split_crlf [] = [[]]"
| "split_crlf (c # s) =
     (if c = 13 \<and> (case s of d # _ \<Rightarrow> d = 10 | [] \<Rightarrow> False) then [] # split_crlf (tl s)
      else (case split_crlf s of l # ls \<Rightarrow> (c # l) # ls | [] \<Rightarrow> [[c]]))"

definition split_once :: "scalar \<Rightarrow> rust_string \<Rightarrow> (rust_string \<times> rust_string) option" where
  "split_once c s =
     (if c \<in> set s then Some (takeWhile (\<lambda>d. d \<noteq> c) s, tl (dropWhile (\<lambda>d. d \<noteq> c) s)) else None)"

definition to_ascii_lowercase :: "scalar \<Rightarrow> scalar" where
  "to_ascii_lowercase c = (if 65 \<le> c \<and> c \<le> 90 then c + 32 else c)"

definition eq_ignore_ascii_case :: "rust_string \<Rightarrow> rust_string \<Rightarrow> bool" where
  "eq_ignore_ascii_case s t \<longleftrightarrow> map to_ascii_lowercase s = map to_ascii_lowercase t"

text \<open>\<open>str::parse::<usize>\<close> on a 64-bit target: an optional plus sign and decimal digits, or an error.\<close>

definition is_ascii_digit :: "scalar \<Rightarrow> bool" where
  "is_ascii_digit c \<longleftrightarrow> 48 \<le> c \<and> c \<le> 57"

definition digits_value :: "rust_string \<Rightarrow> nat" where
  "digits_value ds = foldl (\<lambda>n c. n * 10 + (c - 48)) 0 ds"

definition parse_usize :: "rust_string \<Rightarrow> nat option" where
  "parse_usize s =
     (let ds = (case s of c # t \<Rightarrow> if c = 43 then t else s | [] \<Rightarrow> []) in
      if ds = [] \<or> \<not> list_all is_ascii_digit ds then None
      else if digits_value ds < 2 ^ 64 then Some (digits_value ds) else None)"

section \<open>Frames\<close>

datatype frame_error =
    InvalidLimits
  | HeaderTooLarge
  | BodyTooLarge nat
  | MalformedHeader
  | MissingContentLength

record frame_limits =
  fl_max_header_bytes :: nat
  fl_max_body_bytes :: nat

definition HEADER_SEPARATOR :: byte_string where
  "HEADER_SEPARATOR = [13, 10, 13, 10]"

definition frame_limits_new :: "nat \<Rightarrow> nat \<Rightarrow> frame_error + frame_limits" where
  "frame_limits_new max_header max_body =
     (if max_header = 0 \<or> max_body = 0 then Inl InvalidLimits
      else Inr \<lparr>fl_max_header_bytes = max_header, fl_max_body_bytes = max_body\<rparr>)"

definition frame_limits_default :: frame_limits where
  "frame_limits_default = \<lparr>fl_max_header_bytes = 16 * 1024, fl_max_body_bytes = 16 * 1024 * 1024\<rparr>"

text \<open>\<open>haystack.windows(n).position(..)\<close>.\<close>

definition windows :: "nat \<Rightarrow> 'a list \<Rightarrow> 'a list list" where
  "windows n xs = map (\<lambda>i. take n (drop i xs)) [0..<Suc (length xs) - n]"

definition find_subslice :: "byte_string \<Rightarrow> byte_string \<Rightarrow> nat option" where
  "find_subslice haystack needle = position (\<lambda>w. w = needle) (windows (length needle) haystack)"

fun content_length_lines :: "nat option \<Rightarrow> rust_string list \<Rightarrow> frame_error + nat option" where
  "content_length_lines content_length [] = Inr content_length"
| "content_length_lines content_length (line # ls) =
     (case split_once 58 line of
        None \<Rightarrow> Inl MalformedHeader
      | Some (name, v) \<Rightarrow>
          if eq_ignore_ascii_case (trim name) (lit ''content-length'') then
            if content_length \<noteq> None then Inl MalformedHeader
            else (case parse_usize (trim v) of
                    None \<Rightarrow> Inl MalformedHeader
                  | Some n \<Rightarrow> content_length_lines (Some n) ls)
          else content_length_lines content_length ls)"

definition parse_content_length :: "byte_string \<Rightarrow> frame_error + nat" where
  "parse_content_length headers =
     (case from_utf8 headers of
        None \<Rightarrow> Inl MalformedHeader
      | Some t \<Rightarrow> and_then (content_length_lines None (split_crlf t)) (\<lambda>content_length.
          ok_or content_length MissingContentLength))"

text \<open>
  The loop of \<open>decode_available\<close>: the frames cut off so far and the buffer. The error is returned
  with the buffer as it stands; \<open>push\<close> clears it.
\<close>

partial_function (option) decode_available ::
  "frame_limits \<Rightarrow> byte_string list \<Rightarrow> byte_string \<Rightarrow> ((frame_error + byte_string list) \<times> byte_string) option" where
  "decode_available limits frames buffer =
     (case find_subslice buffer HEADER_SEPARATOR of
        None \<Rightarrow>
          if length buffer > fl_max_header_bytes limits then Some (Inl HeaderTooLarge, buffer)
          else Some (Inr frames, buffer)
      | Some header_end \<Rightarrow>
          if header_end > fl_max_header_bytes limits then Some (Inl HeaderTooLarge, buffer)
          else (case parse_content_length (take header_end buffer) of
              Inl e \<Rightarrow> Some (Inl e, buffer)
            | Inr body_length \<Rightarrow>
                if body_length > fl_max_body_bytes limits then Some (Inl (BodyTooLarge body_length), buffer)
                else (case checked_add_usize (header_end + length HEADER_SEPARATOR) body_length of
                    None \<Rightarrow> Some (Inl (BodyTooLarge body_length), buffer)
                  | Some frame_end \<Rightarrow>
                      if length buffer < frame_end then Some (Inr frames, buffer)
                      else decode_available limits
                        (frames @ [drop (header_end + length HEADER_SEPARATOR) (take frame_end buffer)])
                        (drop frame_end buffer))))"

record language_decoder =
  ld_limits :: frame_limits
  ld_buffer :: byte_string

definition language_decoder_new :: "frame_limits \<Rightarrow> language_decoder" where
  "language_decoder_new limits = \<lparr>ld_limits = limits, ld_buffer = []\<rparr>"

definition buffered_bytes :: "language_decoder \<Rightarrow> nat" where
  "buffered_bytes d = length (ld_buffer d)"

definition language_push ::
  "byte_string \<Rightarrow> language_decoder \<Rightarrow> ((frame_error + byte_string list) \<times> language_decoder) option" where
  "language_push bytes d =
     (case decode_available (ld_limits d) [] (ld_buffer d @ bytes) of
        None \<Rightarrow> None
      | Some (Inr frames, buffer) \<Rightarrow> Some (Inr frames, d\<lparr>ld_buffer := buffer\<rparr>)
      | Some (Inl e, buffer) \<Rightarrow> Some (Inl e, d\<lparr>ld_buffer := []\<rparr>))"

definition content_length_header :: "nat \<Rightarrow> rust_string" where
  "content_length_header n = lit ''Content-Length: '' @ decimal n @ [13, 10, 13, 10]"

definition encode_frame :: "byte_string \<Rightarrow> frame_limits \<Rightarrow> frame_error + byte_string" where
  "encode_frame body limits =
     (if length body > fl_max_body_bytes limits then Inl (BodyTooLarge (length body))
      else let header = content_length_header (length body) in
        if str_len header - length HEADER_SEPARATOR > fl_max_header_bytes limits then Inl HeaderTooLarge
        else Inr (as_bytes header @ body))"

section \<open>Finding the separator\<close>

lemma position_map_upt:
  "position p (map f [a..<b]) = Some i \<longleftrightarrow> a + i < b \<and> p (f (a + i)) \<and> (\<forall>j < i. \<not> p (f (a + j)))"
proof (induction "b - a" arbitrary: a i)
  case 0
  then show ?case by simp
next
  case (Suc n)
  then have "[a..<b] = a # [Suc a..<b]" by (simp add: upt_conv_Cons)
  moreover have "position p (map f [Suc a..<b]) = Some k \<longleftrightarrow>
      Suc a + k < b \<and> p (f (Suc a + k)) \<and> (\<forall>j < k. \<not> p (f (Suc a + j)))" for k
    using Suc by simp
  ultimately show ?case using Suc(2) by (cases i) (auto simp: less_Suc_eq_0_disj)
qed

lemma length_sep [simp]: "length HEADER_SEPARATOR = 4"
  by (simp add: HEADER_SEPARATOR_def)

definition sep_at :: "nat \<Rightarrow> byte_string \<Rightarrow> bool" where
  "sep_at i xs \<longleftrightarrow> take 4 (drop i xs) = HEADER_SEPARATOR"

lemma sep_atD: "sep_at i xs \<Longrightarrow> i + 4 \<le> length xs \<and> xs ! i = 13"
proof -
  assume t: "sep_at i xs"
  then have "length (take 4 (drop i xs)) = 4" by (simp add: sep_at_def)
  then have l: "i + 4 \<le> length xs" by simp
  moreover have "take 4 (drop i xs) ! 0 = 13" using t by (simp add: sep_at_def HEADER_SEPARATOR_def)
  ultimately show ?thesis by simp
qed

lemma sep_at_append: "i + 4 \<le> length xs \<Longrightarrow> sep_at i (xs @ ys) = sep_at i xs"
  by (simp add: sep_at_def)

lemma find_subslice_Some:
  "find_subslice xs HEADER_SEPARATOR = Some i \<longleftrightarrow> sep_at i xs \<and> (\<forall>j < i. \<not> sep_at j xs)"
  unfolding find_subslice_def windows_def position_map_upt sep_at_def [symmetric] length_sep
  by (auto dest: sep_atD)

lemma find_subslice_None: "find_subslice xs HEADER_SEPARATOR = None \<longleftrightarrow> (\<forall>j. \<not> sep_at j xs)"
proof -
  have "find_subslice xs HEADER_SEPARATOR = None \<longleftrightarrow> (\<forall>j < Suc (length xs) - 4. \<not> sep_at j xs)"
    by (auto simp: find_subslice_def windows_def position_None sep_at_def)
  then show ?thesis using sep_atD by fastforce
qed

lemma find_subslice_bound: "find_subslice xs HEADER_SEPARATOR = Some i \<Longrightarrow> i + 4 \<le> length xs"
  by (auto simp: find_subslice_Some dest: sep_atD)

lemma find_subslice_append:
  assumes "find_subslice xs HEADER_SEPARATOR = Some i"
  shows "find_subslice (xs @ ys) HEADER_SEPARATOR = Some i"
  using assms find_subslice_bound [OF assms] by (simp add: find_subslice_Some sep_at_append)

lemma find_subslice_here:
  assumes "13 \<notin> set h"
  shows "find_subslice (h @ HEADER_SEPARATOR @ xs) HEADER_SEPARATOR = Some (length h)"
proof -
  have "\<not> sep_at j (h @ HEADER_SEPARATOR @ xs)" if "j < length h" for j
    using that assms sep_atD [of j "h @ HEADER_SEPARATOR @ xs"] by (metis nth_append nth_mem)
  moreover have "sep_at (length h) (h @ HEADER_SEPARATOR @ xs)"
    by (simp add: sep_at_def)
  ultimately show ?thesis by (simp add: find_subslice_Some)
qed

lemma find_subslice_part:
  assumes "13 \<notin> set h" "h @ HEADER_SEPARATOR = xs @ y # ys"
  shows "find_subslice xs HEADER_SEPARATOR = None"
  unfolding find_subslice_None
proof (intro allI notI)
  fix j
  assume "sep_at j xs"
  then have j: "j + 4 \<le> length xs" "xs ! j = 13" using sep_atD by blast+
  have "length xs + 1 + length ys = length h + 4"
    using arg_cong [OF assms(2), of length] by simp
  with j have "j < length h" by simp
  moreover have "(h @ HEADER_SEPARATOR) ! j = xs ! j" using assms(2) j by (simp add: nth_append)
  ultimately have "13 \<in> set h" using j by (metis nth_append nth_mem)
  with assms(1) show False by simp
qed

section \<open>Every push returns\<close>

text \<open>What one frame at the start of the buffer is: its payload and the bytes behind it.\<close>

lemma decode_available_step:
  "decode_available limits fs xs =
     (case find_subslice xs HEADER_SEPARATOR of
        None \<Rightarrow> Some (if length xs > fl_max_header_bytes limits then Inl HeaderTooLarge else Inr fs, xs)
      | Some i \<Rightarrow>
          if i > fl_max_header_bytes limits then Some (Inl HeaderTooLarge, xs)
          else (case parse_content_length (take i xs) of
              Inl e \<Rightarrow> Some (Inl e, xs)
            | Inr n \<Rightarrow>
                if n > fl_max_body_bytes limits \<or> i + 4 + n \<ge> 2 ^ 64 then Some (Inl (BodyTooLarge n), xs)
                else if length xs < i + 4 + n then Some (Inr fs, xs)
                else decode_available limits (fs @ [take n (drop (i + 4) xs)]) (drop (i + 4 + n) xs)))"
  by (subst decode_available.simps)
    (auto simp: checked_add_usize_def drop_take not_le split: option.splits sum.splits)

lemma decode_available_returns:
  "\<exists>r rest. decode_available limits fs xs = Some (r, rest) \<and>
     (\<forall>gs. r = Inr gs \<longrightarrow> (\<exists>hs. gs = fs @ hs \<and> length rest + sum_list (map (\<lambda>b. 4 + length b) hs) \<le> length xs \<and>
        (\<forall>b \<in> set hs. length b \<le> fl_max_body_bytes limits)))"
proof (induction xs arbitrary: fs rule: length_induct)
  case (1 xs)
  show ?case
  proof (cases "\<exists>i n. find_subslice xs HEADER_SEPARATOR = Some i \<and> i \<le> fl_max_header_bytes limits \<and>
      parse_content_length (take i xs) = Inr n \<and> n \<le> fl_max_body_bytes limits \<and> i + 4 + n < 2 ^ 64 \<and>
      i + 4 + n \<le> length xs")
    case False
    then have "decode_available limits fs xs = Some (Inr fs, xs) \<or> (\<exists>e. decode_available limits fs xs = Some (Inl e, xs))"
    proof (cases "find_subslice xs HEADER_SEPARATOR")
      case None
      then show ?thesis by (subst (1 2) decode_available_step) simp
    next
      case (Some i)
      show ?thesis
      proof (cases "parse_content_length (take i xs)")
        case (Inl e)
        with Some show ?thesis by (subst (1 2) decode_available_step) simp
      next
        case (Inr n)
        have "\<not> (i \<le> fl_max_header_bytes limits \<and> n \<le> fl_max_body_bytes limits \<and> i + 4 + n < 2 ^ 64 \<and>
            i + 4 + n \<le> length xs)"
          using False Some Inr by blast
        with Some Inr show ?thesis by (subst (1 2) decode_available_step) auto
      qed
    qed
    then show ?thesis by auto
  next
    case True
    then obtain i n where n: "find_subslice xs HEADER_SEPARATOR = Some i" "i \<le> fl_max_header_bytes limits"
      "parse_content_length (take i xs) = Inr n" "n \<le> fl_max_body_bytes limits" "i + 4 + n < 2 ^ 64"
      "i + 4 + n \<le> length xs" by blast
    let ?b = "take n (drop (i + 4) xs)" and ?xs = "drop (i + 4 + n) xs"
    have d: "decode_available limits fs xs = decode_available limits (fs @ [?b]) ?xs"
      using n by (subst decode_available_step) simp
    have "length ?xs < length xs" using n(6) by simp
    from "1.IH" [rule_format, OF this, of "fs @ [?b]"] obtain r rest where r:
      "decode_available limits (fs @ [?b]) ?xs = Some (r, rest)"
      "\<And>gs. r = Inr gs \<Longrightarrow> \<exists>hs. gs = (fs @ [?b]) @ hs \<and>
        length rest + sum_list (map (\<lambda>b. 4 + length b) hs) \<le> length ?xs \<and>
        (\<forall>b \<in> set hs. length b \<le> fl_max_body_bytes limits)" by blast
    have b: "length ?b = n" using n(6) by simp
    have "\<exists>hs. gs = fs @ hs \<and> length rest + sum_list (map (\<lambda>b. 4 + length b) hs) \<le> length xs \<and>
        (\<forall>b \<in> set hs. length b \<le> fl_max_body_bytes limits)" if g: "r = Inr gs" for gs
    proof -
      obtain hs where hs: "gs = fs @ ?b # hs" "length rest + sum_list (map (\<lambda>b. 4 + length b) hs) \<le> length ?xs"
        "\<forall>b \<in> set hs. length b \<le> fl_max_body_bytes limits"
        using r(2) [OF g] by auto
      have "length rest + sum_list (map (\<lambda>b. 4 + length b) (?b # hs)) \<le> length xs"
        using hs(2) n(6) b by simp
      then show ?thesis using hs b n(4) by (intro exI [of _ "?b # hs"]) simp
    qed
    then show ?thesis unfolding d using r(1) by blast
  qed
qed

section \<open>The header that is written\<close>

lemma decimal_ne: "decimal n \<noteq> []"
  by (subst decimal.simps) simp

lemma decimal_digits: "list_all is_ascii_digit (decimal n)"
proof (induction n rule: decimal.induct)
  case (1 n)
  have "is_ascii_digit (48 + n mod 10)" "n < 10 \<Longrightarrow> is_ascii_digit (48 + n)"
    unfolding is_ascii_digit_def by linarith+
  with 1 show ?case by (subst decimal.simps) simp
qed

lemma decimal_value: "digits_value (decimal n) = n"
proof (induction n rule: decimal.induct)
  case (1 n)
  then show ?case by (subst decimal.simps) (simp add: digits_value_def)
qed

lemma decimal_length: "n < 10 ^ Suc k \<Longrightarrow> length (decimal n) \<le> Suc k"
proof (induction k arbitrary: n)
  case 0
  then show ?case by (subst decimal.simps) simp
next
  case (Suc k)
  then have "length (decimal (n div 10)) \<le> Suc k" by (simp add: less_mult_imp_div_less)
  then show ?case by (subst decimal.simps) simp
qed

lemma decimal_mem: "c \<in> set (decimal n) \<Longrightarrow> 48 \<le> c \<and> c \<le> 57"
  using decimal_digits [of n] by (simp add: list_all_iff is_ascii_digit_def)

lemma parse_decimal: "n < 2 ^ 64 \<Longrightarrow> parse_usize (decimal n) = Some n"
proof -
  assume n: "n < 2 ^ 64"
  obtain c t where "decimal n = c # t" using decimal_ne by (cases "decimal n") auto
  moreover from this have "c \<noteq> 43" using decimal_mem [of c n] by auto
  ultimately show ?thesis
    using n decimal_digits [of n] decimal_value [of n] by (simp add: parse_usize_def Let_def)
qed

lemma digit_not_whitespace: "c \<in> set (decimal n) \<Longrightarrow> \<not> is_whitespace c"
  using decimal_mem [of c n] by (auto simp: is_whitespace_def)

lemma trim_decimal: "trim (32 # decimal n) = decimal n"
proof -
  obtain c t where c: "decimal n = c # t" using decimal_ne by (cases "decimal n") auto
  have "trim (32 # decimal n) = trim (decimal n)"
    by (simp add: trim_def is_whitespace_def)
  also have "\<dots> = decimal n"
    using digit_not_whitespace [of _ n] decimal_ne [of n] by (intro trim_fixed) simp
  finally show ?thesis .
qed

definition header_text :: "nat \<Rightarrow> rust_string" where
  "header_text n = lit ''Content-Length: '' @ decimal n"

lemma header_name: "lit ''Content-Length: '' = [67,111,110,116,101,110,116,45,76,101,110,103,116,104,58,32]"
  by (simp add: lit_def)

lemma header_ascii: "c \<in> set (header_text n) \<Longrightarrow> c < 128 \<and> c \<noteq> 13"
  using decimal_mem [of c n] by (auto simp: header_text_def header_name)

lemma as_bytes_ascii: "\<forall>c \<in> set s. c < 128 \<Longrightarrow> as_bytes s = map of_nat s"
  by (induction s) (simp_all add: as_bytes_def utf8_scalar_def)

lemma from_utf8_ascii: "\<forall>c \<in> set s. c < 128 \<Longrightarrow> from_utf8 (map of_nat s) = Some s"
proof (induction s)
  case Nil
  then show ?case by simp
next
  case (Cons c s)
  then have "c < 256" by simp
  then have u: "unat (of_nat c :: u8) = c" by (rule unat_byte)
  then have "(of_nat c :: u8) < 128" using Cons.prems by (simp add: word_less_nat_alt)
  with Cons u show ?case by simp
qed

lemma split_crlf_line: "13 \<notin> set s \<Longrightarrow> split_crlf s = [s]"
  by (induction s) auto

lemma parse_header:
  assumes "n < 2 ^ 64"
  shows "parse_content_length (as_bytes (header_text n)) = Inr n"
proof -
  have u: "from_utf8 (as_bytes (header_text n)) = Some (header_text n)"
    using header_ascii by (subst as_bytes_ascii) (auto intro: from_utf8_ascii)
  have l: "split_crlf (header_text n) = [header_text n]"
    using header_ascii by (intro split_crlf_line) blast
  have o: "split_once 58 (header_text n) = Some (lit ''Content-Length'', 32 # decimal n)"
    by (simp add: split_once_def header_text_def header_name lit_def)
  have t: "trim (lit ''Content-Length'') = lit ''Content-Length''"
    by (rule trim_fixed) (simp add: lit_def is_whitespace_def)
  have e: "eq_ignore_ascii_case (lit ''Content-Length'') (lit ''content-length'')"
    by (simp add: eq_ignore_ascii_case_def lit_def to_ascii_lowercase_def)
  show ?thesis
    by (simp add: parse_content_length_def u l o t e trim_decimal parse_decimal [OF assms])
qed

definition frame_bytes :: "byte_string \<Rightarrow> byte_string" where
  "frame_bytes b = as_bytes (header_text (length b)) @ HEADER_SEPARATOR @ b"

lemma header_len: "str_len (header_text n) = length (as_bytes (header_text n))"
  by simp

lemma encode_frame_bytes:
  "encode_frame b l = Inr f \<Longrightarrow> f = frame_bytes b \<and> length b \<le> fl_max_body_bytes l \<and>
     length (as_bytes (header_text (length b))) \<le> fl_max_header_bytes l"
proof -
  have "as_bytes [13, 10, 13, 10] = HEADER_SEPARATOR"
    by (simp add: as_bytes_def utf8_scalar_def HEADER_SEPARATOR_def)
  moreover have "str_len [13, 10, 13, 10] = 4" by (simp add: len_utf8_def)
  moreover have "content_length_header n = header_text n @ [13, 10, 13, 10]" for n
    by (simp add: content_length_header_def header_text_def)
  ultimately show "encode_frame b l = Inr f \<Longrightarrow> ?thesis"
    by (auto simp: encode_frame_def frame_bytes_def Let_def split: if_splits)
qed

lemma header_no_cr: "13 \<notin> set (as_bytes (header_text n))"
proof
  assume "13 \<in> set (as_bytes (header_text n))"
  then obtain c where c: "c \<in> set (header_text n)" "13 = (of_nat c :: u8)"
    using header_ascii by (subst (asm) as_bytes_ascii) auto
  then have "c = 13" using header_ascii [OF c(1)] unat_byte [of c] by auto
  with header_ascii [OF c(1)] show False by simp
qed

lemma header_short: "n < 2 ^ 64 \<Longrightarrow> length (as_bytes (header_text n)) \<le> 36"
proof -
  assume n: "n < 2 ^ 64"
  have "as_bytes (header_text n) = map of_nat (header_text n)"
    by (rule as_bytes_ascii) (use header_ascii in blast)
  then have "length (as_bytes (header_text n)) = 16 + length (decimal n)"
    by (simp only: length_map) (simp add: header_text_def header_name)
  moreover have "length (decimal n) \<le> Suc 19" by (rule decimal_length) (use n in simp)
  ultimately show ?thesis by simp
qed

section \<open>Decoding a stream of frames\<close>

definition fits :: "frame_limits \<Rightarrow> byte_string \<Rightarrow> bool" where
  "fits l b \<longleftrightarrow> length b \<le> fl_max_body_bytes l \<and>
     length (as_bytes (header_text (length b))) + 3 \<le> fl_max_header_bytes l \<and> length (frame_bytes b) < 2 ^ 64"

lemma fits_length:
  "fits l b \<Longrightarrow> length b < 2 ^ 64 \<and> length (as_bytes (header_text (length b))) + 4 + length b < 2 ^ 64"
  by (simp add: fits_def frame_bytes_def)

lemma decode_frame:
  assumes "fits l b"
  shows "decode_available l fs (frame_bytes b @ xs) = decode_available l (fs @ [b]) xs"
proof -
  let ?h = "as_bytes (header_text (length b))"
  have "find_subslice (frame_bytes b @ xs) HEADER_SEPARATOR = Some (length ?h)"
    using find_subslice_here [OF header_no_cr, of "length b" "b @ xs"] by (simp add: frame_bytes_def)
  moreover have "take (length ?h) (frame_bytes b @ xs) = ?h"
    by (simp add: frame_bytes_def)
  moreover have "take (length b) (drop (length ?h + 4) (frame_bytes b @ xs)) = b"
    "drop (length ?h + 4 + length b) (frame_bytes b @ xs) = xs" "length (frame_bytes b) = length ?h + 4 + length b"
    by (simp_all add: frame_bytes_def)
  ultimately show ?thesis
    using assms fits_length [OF assms] parse_header [of "length b"]
    by (subst decode_available_step) (simp del: length_as_bytes add: fits_def)
qed

lemma decode_part:
  assumes "fits l b" "frame_bytes b = part @ y # ys"
  shows "decode_available l fs part = Some (Inr fs, part)"
proof -
  let ?h = "as_bytes (header_text (length b))"
  have len: "length part < length ?h + 4 + length b"
    using arg_cong [OF assms(2), of length] by (simp add: frame_bytes_def)
  show ?thesis
  proof (cases "length part < length ?h + 4")
    case True
    have "take (length ?h + 4) (frame_bytes b) = ?h @ HEADER_SEPARATOR"
      by (simp add: frame_bytes_def)
    moreover have "take (length ?h + 4) (frame_bytes b) = part @ take (length ?h + 4 - length part) (y # ys)"
      using True by (simp add: assms(2))
    moreover obtain k where "length ?h + 4 - length part = Suc k"
      using True by (metis Suc_diff_Suc)
    ultimately have "?h @ HEADER_SEPARATOR = part @ y # take k ys" by simp
    from find_subslice_part [OF header_no_cr this]
    have "find_subslice part HEADER_SEPARATOR = None" .
    moreover have "length part \<le> fl_max_header_bytes l" using True assms(1) by (simp add: fits_def)
    ultimately show ?thesis by (subst decode_available_step) simp
  next
    case False
    have "part = take (length part) (frame_bytes b)" by (simp add: assms(2))
    with False obtain zs where part: "part = ?h @ HEADER_SEPARATOR @ zs"
      by (auto simp: frame_bytes_def)
    then have "find_subslice part HEADER_SEPARATOR = Some (length ?h)"
      using find_subslice_here [OF header_no_cr, of "length b" zs] by simp
    moreover have "take (length ?h) part = ?h" by (simp add: part)
    ultimately show ?thesis
      using assms(1) fits_length [OF assms(1)] parse_header [of "length b"] len
      by (subst decode_available_step) (simp del: length_as_bytes add: fits_def)
  qed
qed

text \<open>A prefix of a stream of frames holds some of them and a part of the next.\<close>

lemma decode_stream:
  assumes "\<forall>b \<in> set bs. fits l b" "concat (map frame_bytes bs) = xs @ ys"
  shows "\<exists>done todo part. bs = done @ todo \<and> xs = concat (map frame_bytes done) @ part \<and>
    part @ ys = concat (map frame_bytes todo) \<and> (todo = [] \<longrightarrow> part = []) \<and>
    (\<forall>fs. decode_available l fs xs = Some (Inr (fs @ done), part)) \<and>
    (\<forall>fs. decode_available l fs part = Some (Inr fs, part))"
  using assms
proof (induction bs arbitrary: xs)
  case Nil
  have "decode_available l fs [] = Some (Inr fs, [])" for fs
    by (subst decode_available_step) (simp add: find_subslice_def windows_def)
  with Nil show ?case by simp
next
  case (Cons b bs)
  have b: "fits l b" using Cons.prems(1) by simp
  show ?case
  proof (cases "length xs < length (frame_bytes b)")
    case True
    have e: "frame_bytes b @ concat (map frame_bytes bs) = xs @ ys" using Cons.prems(2) by simp
    obtain zs where zs: "frame_bytes b = xs @ zs" "zs \<noteq> []"
      using e True by (auto simp: append_eq_append_conv2)
    then obtain y ws where "zs = y # ws" by (cases zs) auto
    with zs have "decode_available l fs xs = Some (Inr fs, xs)" for fs
      by (intro decode_part [OF b]) simp
    with Cons.prems(2) show ?thesis by (intro exI [of _ "[]"] exI [of _ "b # bs"] exI [of _ xs]) simp
  next
    case False
    have e: "frame_bytes b @ concat (map frame_bytes bs) = xs @ ys" using Cons.prems(2) by simp
    obtain xs' where xs: "xs = frame_bytes b @ xs'" and "concat (map frame_bytes bs) = xs' @ ys"
      using e False by (auto simp: append_eq_append_conv2)
    with Cons.IH [of xs'] Cons.prems(1) obtain dn todo part where d: "bs = dn @ todo"
      "xs' = concat (map frame_bytes dn) @ part" "part @ ys = concat (map frame_bytes todo)"
      "todo = [] \<longrightarrow> part = []" "\<forall>fs. decode_available l fs xs' = Some (Inr (fs @ dn), part)"
      "\<forall>fs. decode_available l fs part = Some (Inr fs, part)" by auto
    then show ?thesis
      by (intro exI [of _ "b # dn"] exI [of _ todo] exI [of _ part]) (simp add: xs decode_frame [OF b])
  qed
qed

section \<open>Properties\<close>

text \<open>
  C28. The decoder's loop ends on every input: a push returns, and then no body it returns exceeds
  the limit, every frame has consumed bytes, and an error leaves the buffer empty.
\<close>

theorem every_push_returns:
  "\<exists>r d'. language_push bytes d = Some (r, d') \<and> ld_limits d' = ld_limits d \<and>
    (case r of
       Inl e \<Rightarrow> buffered_bytes d' = 0
     | Inr frames \<Rightarrow> (\<forall>b \<in> set frames. length b \<le> fl_max_body_bytes (ld_limits d)) \<and>
         buffered_bytes d' + sum_list (map (\<lambda>b. 4 + length b) frames) \<le> buffered_bytes d + length bytes)"
proof -
  obtain r rest where r: "decode_available (ld_limits d) [] (ld_buffer d @ bytes) = Some (r, rest)"
    "\<forall>gs. r = Inr gs \<longrightarrow> (\<exists>hs. gs = [] @ hs \<and>
       length rest + sum_list (map (\<lambda>b. 4 + length b) hs) \<le> length (ld_buffer d @ bytes) \<and>
       (\<forall>b \<in> set hs. length b \<le> fl_max_body_bytes (ld_limits d)))"
    using decode_available_returns [of "ld_limits d" "[]" "ld_buffer d @ bytes"] by blast
  then show ?thesis
    by (cases r) (auto simp: language_push_def buffered_bytes_def)
qed

text \<open>Consecutive pushes, up to the first error.\<close>

fun language_push_all ::
  "byte_string list \<Rightarrow> language_decoder \<Rightarrow> ((frame_error + byte_string list) \<times> language_decoder) option" where
  "language_push_all [] d = Some (Inr [], d)"
| "language_push_all (c # cs) d =
     (case language_push c d of
        Some (Inr frames, d) \<Rightarrow>
          (case language_push_all cs d of
             Some (Inr rest, d) \<Rightarrow> Some (Inr (frames @ rest), d)
           | other \<Rightarrow> other)
      | other \<Rightarrow> other)"

lemma push_all_stream:
  assumes "\<forall>b \<in> set bs. fits l b" "concat (map frame_bytes bs) = part @ concat cs"
    "bs = [] \<longrightarrow> part = []" "\<forall>fs. decode_available l fs part = Some (Inr fs, part)"
  shows "language_push_all cs \<lparr>ld_limits = l, ld_buffer = part\<rparr> = Some (Inr bs, language_decoder_new l)"
  using assms
proof (induction cs arbitrary: part bs)
  case Nil
  have "bs = []"
  proof (rule ccontr)
    assume "bs \<noteq> []"
    then obtain b bs' where bs: "bs = b # bs'" by (cases bs) auto
    have "part = frame_bytes b @ concat (map frame_bytes bs')" using Nil.prems(2) bs by simp
    then have "decode_available l [] part = decode_available l [b] (concat (map frame_bytes bs'))"
      using decode_frame [of l b "[]" "concat (map frame_bytes bs')"] Nil.prems(1) bs by simp
    moreover obtain dn todo q where "decode_available l [b] (concat (map frame_bytes bs')) = Some (Inr ([b] @ dn), q)"
      using decode_stream [of bs' l "concat (map frame_bytes bs')" "[]"] Nil.prems(1) bs by auto
    ultimately show False using Nil.prems(4) by simp
  qed
  with Nil show ?case by (simp add: language_decoder_new_def)
next
  case (Cons c cs)
  have "concat (map frame_bytes bs) = (part @ c) @ concat cs" using Cons.prems(2) by simp
  from decode_stream [OF Cons.prems(1) this] obtain dn todo q where d: "bs = dn @ todo"
    "q @ concat cs = concat (map frame_bytes todo)" "todo = [] \<longrightarrow> q = []"
    "\<forall>fs. decode_available l fs (part @ c) = Some (Inr (fs @ dn), q)"
    "\<forall>fs. decode_available l fs q = Some (Inr fs, q)" by blast
  have "language_push_all cs \<lparr>ld_limits = l, ld_buffer = q\<rparr> = Some (Inr todo, language_decoder_new l)"
    using Cons.prems(1) d by (intro Cons.IH) auto
  with d show ?case by (simp add: language_push_def)
qed

text \<open>
  C29. Whatever bodies the encoder accepts, their frames can be cut into pieces anywhere, inside a
  header or between the bytes of a separator too: the pieces are all accepted and give back the
  bodies in order, with nothing left over, provided the header limit leaves room for the longest
  header and an incomplete separator.
\<close>

theorem language_frames_survive_chunking:
  assumes "list_all2 (\<lambda>b f. encode_frame b l = Inr f) bodies frames" "concat pieces = concat frames"
    "39 \<le> fl_max_header_bytes l" "\<forall>f \<in> set frames. length f < 2 ^ 64"
  shows "language_push_all pieces (language_decoder_new l) = Some (Inr bodies, language_decoder_new l)"
proof -
  have "frames = map frame_bytes bodies \<and> (\<forall>b \<in> set bodies. fits l b)"
    using assms(1,4)
  proof (induction rule: list_all2_induct)
    case Nil
    then show ?case by simp
  next
    case (Cons b bs f fs)
    note e = encode_frame_bytes [OF Cons(1)]
    with Cons.prems have "length b < 2 ^ 64" by (simp add: frame_bytes_def)
    from header_short [OF this] e assms(3) Cons.prems have "fits l b" by (simp add: fits_def)
    with e Cons show ?case by simp
  qed
  then have f: "concat (map frame_bytes bodies) = [] @ concat pieces" "\<forall>b \<in> set bodies. fits l b"
    using assms(2) by simp_all
  have "decode_available l fs [] = Some (Inr fs, [])" for fs
    by (subst decode_available_step) (simp add: find_subslice_def windows_def)
  with push_all_stream [OF f(2,1)] show ?thesis by (simp add: language_decoder_new_def)
qed

definition short_frame :: byte_string where
  "short_frame = as_bytes (lit ''Content-Length: 2'') @ [13, 10, 13, 10, 123, 125]"

lemma short_frame_encoded: "17 \<le> fl_max_header_bytes l \<Longrightarrow> 2 \<le> fl_max_body_bytes l \<Longrightarrow> encode_frame [123, 125] l = Inr short_frame"
  by (simp add: encode_frame_def short_frame_def content_length_header_def decimal.simps lit_def as_bytes_def
      utf8_scalar_def len_utf8_def)

theorem language_frames_survive_chunking_witness:
  "language_push_all [take 18 short_frame, drop 18 short_frame @ take 3 short_frame, drop 3 short_frame]
     (language_decoder_new frame_limits_default) =
   Some (Inr [[123, 125], [123, 125]], language_decoder_new frame_limits_default)"
proof (rule language_frames_survive_chunking)
  show "list_all2 (\<lambda>b f. encode_frame b frame_limits_default = Inr f) [[123, 125], [123, 125]] [short_frame, short_frame]"
    by (simp add: short_frame_encoded frame_limits_default_def)
  show "\<forall>f \<in> set [short_frame, short_frame]. length f < 2 ^ 64"
    by (simp add: short_frame_def lit_def len_utf8_def)
qed (simp_all add: frame_limits_default_def)

theorem every_push_returns_witness:
  "\<exists>r d'. language_push short_frame (language_decoder_new frame_limits_default) = Some (r, d') \<and>
     ld_limits d' = frame_limits_default"
  using every_push_returns [of short_frame "language_decoder_new frame_limits_default"]
  by (auto simp: language_decoder_new_def)

text \<open>
  Without that room the decoder depends on how the bytes arrive: with a limit that the header just
  meets, the frame is accepted in one piece, but refused when a piece ends inside the separator.
\<close>

definition tight_limits :: frame_limits where
  "tight_limits = \<lparr>fl_max_header_bytes = 17, fl_max_body_bytes = 2\<rparr>"

lemma split_separator_is_refused:
  "encode_frame [123, 125] tight_limits = Inr short_frame \<and>
   language_push short_frame (language_decoder_new tight_limits) = Some (Inr [[123, 125]], language_decoder_new tight_limits) \<and>
   (\<exists>d. language_push (take 19 short_frame) (language_decoder_new tight_limits) = Some (Inl HeaderTooLarge, d))"
proof (intro conjI)
  show e: "encode_frame [123, 125] tight_limits = Inr short_frame"
    by (simp add: short_frame_encoded tight_limits_def)
  have h: "13 \<notin> set (as_bytes (header_text 2))" by (rule header_no_cr)
  have l: "length (as_bytes (header_text 2)) = 17"
    by (simp add: header_text_def header_name decimal.simps len_utf8_def)
  have f: "short_frame = as_bytes (header_text 2) @ HEADER_SEPARATOR @ [123, 125]"
    using e by (auto simp: numeral_2_eq_2 frame_bytes_def dest: encode_frame_bytes)
  have parts: "take 17 short_frame = as_bytes (header_text 2)" "length short_frame = 23"
    "take 2 (drop 21 short_frame) = [123, 125]" "drop 23 short_frame = []"
    "take 19 short_frame = as_bytes (header_text 2) @ [13, 10]"
    using l by (simp_all del: length_as_bytes add: f HEADER_SEPARATOR_def)
  have nil: "decode_available tight_limits fs [] = Some (Inr fs, [])" for fs
    by (subst decode_available_step) (simp add: find_subslice_def windows_def)
  have "find_subslice short_frame HEADER_SEPARATOR = Some 17"
    using find_subslice_here [OF h, of "[123, 125]"] l by (simp del: length_as_bytes add: f)
  then have "decode_available tight_limits [] short_frame = Some (Inr [[123, 125]], [])"
    using parse_header [of 2] nil parts by (subst decode_available_step) (simp add: tight_limits_def)
  then show "language_push short_frame (language_decoder_new tight_limits) =
      Some (Inr [[123, 125]], language_decoder_new tight_limits)"
    by (simp add: language_push_def language_decoder_new_def)
  have "as_bytes (header_text 2) @ HEADER_SEPARATOR = take 19 short_frame @ 13 # [10]"
    unfolding parts by (simp add: HEADER_SEPARATOR_def)
  from find_subslice_part [OF h this]
  have "find_subslice (take 19 short_frame) HEADER_SEPARATOR = None" .
  moreover have "length (take 19 short_frame) = 19"
    using l by (simp del: length_as_bytes add: parts)
  ultimately show "\<exists>d. language_push (take 19 short_frame) (language_decoder_new tight_limits) =
      Some (Inl HeaderTooLarge, d)"
    by (simp add: language_push_def language_decoder_new_def tight_limits_def decode_available_step [of _ "[]" "take 19 short_frame"])
qed

end
