(* ===== verification/LanguageDescriptor.thy ===== *)
theory LanguageDescriptor imports RustPath BTreeMap FrameBytes begin

text \<open>
  Which program serves a language (\<open>strukt-language/src/descriptor.rs\<close>, \<open>discovery.rs\<close>): descriptors with
  their validation, registries, the exact command that is approved and its fingerprint, and the
  discovery, which runs nothing. The file system and the hash BLAKE3 are parameters.
\<close>

section \<open>Descriptors\<close>

datatype descriptor_source = BuiltIn | User | Workspace

datatype executable_candidate = PathName path | AbsolutePath path

datatype descriptor_error =
    InvalidDescriptor
  | InvalidExecutable
  | DuplicateDescriptor
  | InvalidConfiguration rust_string

definition has_nul :: "path \<Rightarrow> bool" where
  "has_nul p \<longleftrightarrow> 0 \<in> set p"

definition normal_component :: "path \<Rightarrow> bool" where
  "normal_component p \<longleftrightarrow> p \<noteq> lit ''.'' \<and> p \<noteq> lit ''..''"

definition candidate_path_name :: "path \<Rightarrow> descriptor_error + executable_candidate" where
  "candidate_path_name name =
     (let one = (case path_components name of (False, [c]) \<Rightarrow> normal_component c | _ \<Rightarrow> False) in
      if \<not> one \<or> has_nul name then Inl InvalidExecutable else Inr (PathName name))"

definition candidate_absolute :: "path \<Rightarrow> descriptor_error + executable_candidate" where
  "candidate_absolute p = (if \<not> is_absolute p \<or> has_nul p then Inl InvalidExecutable else Inr (AbsolutePath p))"

record language_server_descriptor =
  de_id :: rust_string
  de_display_name :: rust_string
  de_language_ids :: "rust_string list"
  de_candidates :: "executable_candidate list"
  de_arguments :: "rust_string list"
  de_source :: descriptor_source
  de_enabled :: bool
  de_installation_guidance :: "rust_string option"
  de_workspace_markers :: "path list"

text \<open>An identifier: at most 128 bytes, each an ASCII letter or digit, a hyphen, an underscore or a dot.\<close>

definition identifier_byte :: "scalar \<Rightarrow> bool" where
  "identifier_byte c \<longleftrightarrow>
     48 \<le> c \<and> c \<le> 57 \<or> 65 \<le> c \<and> c \<le> 90 \<or> 97 \<le> c \<and> c \<le> 122 \<or> c = 45 \<or> c = 95 \<or> c = 46"

definition valid_identifier :: "rust_string \<Rightarrow> bool" where
  "valid_identifier s \<longleftrightarrow> s \<noteq> [] \<and> str_len s \<le> 128 \<and> list_all identifier_byte s"

definition descriptor_new ::
  "rust_string \<Rightarrow> rust_string \<Rightarrow> rust_string list \<Rightarrow> executable_candidate list \<Rightarrow> rust_string list \<Rightarrow> descriptor_source \<Rightarrow>
     descriptor_error + language_server_descriptor" where
  "descriptor_new ident display languages candidates arguments source =
     (if \<not> valid_identifier ident \<or> trim display = [] \<or> languages = [] \<or>
         list_ex (\<lambda>language. \<not> valid_identifier language) languages \<or> candidates = [] \<or> list_ex has_nul arguments
      then Inl InvalidDescriptor
      else if \<not> distinct languages then Inl InvalidDescriptor
      else Inr \<lparr>de_id = ident, de_display_name = display, de_language_ids = languages, de_candidates = candidates,
        de_arguments = arguments, de_source = source, de_enabled = True, de_installation_guidance = None,
        de_workspace_markers = []\<rparr>)"

definition with_installation_guidance ::
  "rust_string option \<Rightarrow> language_server_descriptor \<Rightarrow> descriptor_error + language_server_descriptor" where
  "with_installation_guidance guidance d =
     (if (case guidance of Some s \<Rightarrow> trim s = [] \<or> str_len s > 4 * 1024 | None \<Rightarrow> False) then Inl InvalidDescriptor
      else Inr (d\<lparr>de_installation_guidance := guidance\<rparr>))"

definition valid_marker :: "path \<Rightarrow> bool" where
  "valid_marker p \<longleftrightarrow>
     p \<noteq> [] \<and> str_len p \<le> 512 \<and> \<not> is_absolute p \<and> lit ''..'' \<notin> set (snd (path_components p))"

definition with_workspace_markers ::
  "path list \<Rightarrow> language_server_descriptor \<Rightarrow> descriptor_error + language_server_descriptor" where
  "with_workspace_markers markers d =
     (if length markers > 64 \<or> \<not> distinct (map path_components markers) \<or> list_ex (\<lambda>m. \<not> valid_marker m) markers
      then Inl InvalidDescriptor
      else Inr (d\<lparr>de_workspace_markers := markers\<rparr>))"

section \<open>Registries\<close>

type_synonym descriptor_registry = "language_server_descriptor list"

definition registry_new :: "language_server_descriptor list \<Rightarrow> descriptor_error + descriptor_registry" where
  "registry_new descriptors =
     (if \<not> distinct (map de_id descriptors) then Inl DuplicateDescriptor else Inr descriptors)"

definition for_language :: "descriptor_registry \<Rightarrow> rust_string \<Rightarrow> language_server_descriptor option" where
  "for_language registry language = find (\<lambda>d. language \<in> set (de_language_ids d)) registry"

definition MAX_CONFIGURATION_BYTES :: nat where "MAX_CONFIGURATION_BYTES = 256 * 1024"

record descriptor_configuration =
  dc_id :: rust_string
  dc_display_name :: rust_string
  dc_language_ids :: "rust_string list"
  dc_executable :: rust_string
  dc_arguments :: "rust_string list"
  dc_enabled :: bool
  dc_installation_guidance :: "rust_string option"
  dc_workspace_markers :: "path list"

definition descriptor_from_configuration ::
  "descriptor_configuration \<Rightarrow> descriptor_source \<Rightarrow> descriptor_error + language_server_descriptor" where
  "descriptor_from_configuration raw source =
     and_then (if is_absolute (dc_executable raw) then candidate_absolute (dc_executable raw)
               else candidate_path_name (dc_executable raw)) (\<lambda>executable.
     and_then (descriptor_new (dc_id raw) (dc_display_name raw) (dc_language_ids raw) [executable] (dc_arguments raw) source) (\<lambda>d.
     and_then (with_installation_guidance (dc_installation_guidance raw) (d\<lparr>de_enabled := dc_enabled raw\<rparr>)) (\<lambda>d.
     with_workspace_markers (dc_workspace_markers raw) d)))"

fun collect_results :: "('a \<Rightarrow> 'e + 'b) \<Rightarrow> 'a list \<Rightarrow> 'e + 'b list" where
  "collect_results f [] = Inr []"
| "collect_results f (x # xs) = and_then (f x) (\<lambda>y. and_then (collect_results f xs) (\<lambda>ys. Inr (y # ys)))"

text \<open>The parser of serde gives the schema version and the raw descriptors, or the text of its error.\<close>

definition registry_from_json ::
  "(byte_string \<Rightarrow> rust_string + nat \<times> descriptor_configuration list) \<Rightarrow> byte_string \<Rightarrow> descriptor_source \<Rightarrow>
     descriptor_error + descriptor_registry" where
  "registry_from_json from_slice bytes source =
     (if length bytes > MAX_CONFIGURATION_BYTES then Inl (InvalidConfiguration (lit ''configuration exceeds 256 KiB''))
      else and_then (map_err InvalidConfiguration (from_slice bytes)) (\<lambda>(version, raw).
        if version \<noteq> 1 then Inl (InvalidConfiguration (lit ''unsupported schema version''))
        else and_then (collect_results (\<lambda>r. descriptor_from_configuration r source) raw) registry_new))"

definition built_in ::
  "string \<Rightarrow> string \<Rightarrow> string list \<Rightarrow> string \<Rightarrow> string list \<Rightarrow> descriptor_error + language_server_descriptor" where
  "built_in ident display languages executable arguments =
     and_then (candidate_path_name (lit executable)) (\<lambda>candidate.
     descriptor_new (lit ident) (lit display) (map lit languages) [candidate] (map lit arguments) BuiltIn)"

definition built_in_descriptors :: "descriptor_error + descriptor_registry" where
  "built_in_descriptors =
     and_then (collect_results (\<lambda>(ident, display, languages, executable, arguments).
         built_in ident display languages executable arguments)
       [(''rust-analyzer'', ''Rust Analyzer'', [''rust''], ''rust-analyzer'', []),
        (''typescript-language-server'', ''TypeScript Language Server'', [''javascript'', ''typescript''],
         ''typescript-language-server'', [''--stdio'']),
        (''pyright'', ''Pyright'', [''python''], ''pyright-langserver'', [''--stdio'']),
        (''vscode-json'', ''JSON Language Server'', [''json''], ''vscode-json-language-server'', [''--stdio'']),
        (''taplo'', ''Taplo'', [''toml''], ''taplo'', [''lsp'', ''stdio'']),
        (''marksman'', ''Marksman'', [''markdown''], ''marksman'', [''server'']),
        (''bash-language-server'', ''Bash Language Server'', [''shell''], ''bash-language-server'', [''start'']),
        (''yaml-language-server'', ''YAML Language Server'', [''yaml''], ''yaml-language-server'', [''--stdio'']),
        (''vscode-html'', ''HTML Language Server'', [''html''], ''vscode-html-language-server'', [''--stdio'']),
        (''vscode-css'', ''CSS Language Server'', [''css''], ''vscode-css-language-server'', [''--stdio''])]) registry_new"

section \<open>Commands\<close>

record resolved_command =
  rc_executable :: path
  rc_arguments :: "rust_string list"

definition resolved_command_new :: "path \<Rightarrow> rust_string list \<Rightarrow> descriptor_error + resolved_command" where
  "resolved_command_new executable arguments =
     (if \<not> is_absolute executable \<or> has_nul executable \<or> list_ex has_nul arguments then Inl InvalidExecutable
      else Inr \<lparr>rc_executable = executable, rc_arguments = arguments\<rparr>)"

text \<open>\<open>usize::to_le_bytes\<close> on a 64-bit target, and what the hasher is fed with.\<close>

definition to_le_bytes :: "nat \<Rightarrow> byte_string" where
  "to_le_bytes n = map (\<lambda>i. of_nat (n div 256 ^ i mod 256)) [0..<8]"

definition os_str_bytes :: "rust_string \<Rightarrow> byte_string" where
  "os_str_bytes s = to_le_bytes (length (as_bytes s)) @ as_bytes s"

definition fingerprint_input :: "resolved_command \<Rightarrow> byte_string" where
  "fingerprint_input c = os_str_bytes (rc_executable c) @ concat (map os_str_bytes (rc_arguments c))"

definition fingerprint :: "(byte_string \<Rightarrow> byte_string) \<Rightarrow> resolved_command \<Rightarrow> byte_string" where
  "fingerprint blake3 c = blake3 (fingerprint_input c)"

record command_approval =
  ca_workspace :: rust_string
  ca_command_fingerprint :: byte_string

definition approval_grant :: "(byte_string \<Rightarrow> byte_string) \<Rightarrow> rust_string \<Rightarrow> resolved_command \<Rightarrow> command_approval" where
  "approval_grant blake3 workspace c = \<lparr>ca_workspace = workspace, ca_command_fingerprint = fingerprint blake3 c\<rparr>"

definition authorizes :: "(byte_string \<Rightarrow> byte_string) \<Rightarrow> command_approval \<Rightarrow> rust_string \<Rightarrow> resolved_command \<Rightarrow> bool" where
  "authorizes blake3 approval workspace c \<longleftrightarrow>
     ca_workspace approval = workspace \<and> ca_command_fingerprint approval = fingerprint blake3 c"

section \<open>Discovery\<close>

datatype approval_status = Unreviewed | Approved command_approval | Denied

record discovered_server =
  dv_descriptor_id :: rust_string
  dv_source :: descriptor_source
  dv_command :: resolved_command

datatype discovery_outcome =
    Available discovered_server
  | ApprovalRequired discovered_server
  | Unavailable "rust_string option"
  | Disabled

datatype discovery_error =
    WorkspaceChanged
  | SymlinkConfiguration
  | NonRegularConfiguration
  | ConfigurationTooLarge
  | DiscoveryDescriptor descriptor_error
  | DiscoveryIo rust_string

text \<open>
  \<open>canonical_executable\<close> is what the file system answers for a path: the canonical path of a regular file
  that may be executed, nothing, or an error. \<open>PATH\<close> is split at colons.
\<close>

type_synonym executables = "path \<Rightarrow> rust_string + path option"

fun first_executable :: "executables \<Rightarrow> path list \<Rightarrow> discovery_error + path option" where
  "first_executable canonical_executable [] = Inr None"
| "first_executable canonical_executable (p # ps) =
     and_then (map_err DiscoveryIo (canonical_executable p)) (\<lambda>found.
       case found of Some q \<Rightarrow> Inr (Some q) | None \<Rightarrow> first_executable canonical_executable ps)"

fun candidate_paths :: "rust_string option \<Rightarrow> executable_candidate \<Rightarrow> path list" where
  "candidate_paths path_env (AbsolutePath p) = [p]"
| "candidate_paths None (PathName name) = []"
| "candidate_paths (Some path_env) (PathName name) = map (\<lambda>directory. path_join directory name) (split_on 58 path_env)"

definition resolve_executable ::
  "executables \<Rightarrow> executable_candidate list \<Rightarrow> rust_string option \<Rightarrow> discovery_error + path option" where
  "resolve_executable canonical_executable candidates path_env =
     first_executable canonical_executable (concat (map (candidate_paths path_env) candidates))"

definition discover ::
  "(byte_string \<Rightarrow> byte_string) \<Rightarrow> executables \<Rightarrow> language_server_descriptor \<Rightarrow> rust_string option \<Rightarrow> rust_string \<Rightarrow>
     approval_status \<Rightarrow> discovery_error + discovery_outcome" where
  "discover blake3 canonical_executable descriptor path_env workspace approval =
     (if \<not> de_enabled descriptor \<or> approval = Denied then Inr Disabled
      else and_then (resolve_executable canonical_executable (de_candidates descriptor) path_env) (\<lambda>found.
        case found of
          None \<Rightarrow> Inr (Unavailable (de_installation_guidance descriptor))
        | Some executable \<Rightarrow>
            and_then (map_err DiscoveryDescriptor (resolved_command_new executable (de_arguments descriptor))) (\<lambda>command.
            let server = \<lparr>dv_descriptor_id = de_id descriptor, dv_source = de_source descriptor, dv_command = command\<rparr> in
            if de_source descriptor \<noteq> Workspace then Inr (Available server)
            else case approval of
                Approved record \<Rightarrow> if authorizes blake3 record workspace command then Inr (Available server)
                  else Inr (ApprovalRequired server)
              | Unreviewed \<Rightarrow> Inr (ApprovalRequired server)
              | Denied \<Rightarrow> Inr Disabled)))"

text \<open>
  The configuration file of a workspace as \<open>load_workspace_registry\<close> finds it: whether the workspace is
  still where it was, the metadata (absent, an error, or symbolic link, regular file and length), and
  the bytes read.
\<close>

record workspace_configuration =
  wc_valid_location :: bool
  wc_metadata :: "rust_string + (bool \<times> bool \<times> nat) option"
  wc_bytes :: "rust_string + byte_string"

definition load_workspace_registry ::
  "(byte_string \<Rightarrow> rust_string + nat \<times> descriptor_configuration list) \<Rightarrow> workspace_configuration \<Rightarrow>
     discovery_error + descriptor_registry option" where
  "load_workspace_registry from_slice wc =
     (if \<not> wc_valid_location wc then Inl WorkspaceChanged
      else case wc_metadata wc of
        Inl e \<Rightarrow> Inl (DiscoveryIo e)
      | Inr None \<Rightarrow> Inr None
      | Inr (Some (symlink, regular, len)) \<Rightarrow>
          if symlink then Inl SymlinkConfiguration
          else if \<not> regular then Inl NonRegularConfiguration
          else if len > MAX_CONFIGURATION_BYTES then Inl ConfigurationTooLarge
          else and_then (map_err DiscoveryIo (wc_bytes wc)) (\<lambda>file.
            let bytes = take (MAX_CONFIGURATION_BYTES + 1) file in
            if length bytes > MAX_CONFIGURATION_BYTES then Inl ConfigurationTooLarge
            else and_then (map_err DiscoveryDescriptor (registry_from_json from_slice bytes Workspace)) (\<lambda>registry.
              Inr (Some registry))))"

text \<open>\<open>select_descriptor\<close>: an explicit identifier, or the enabled descriptor with the most markers, the first among equals.\<close>

fun marker_score :: "(path \<Rightarrow> rust_string + bool) \<Rightarrow> path list \<Rightarrow> nat \<Rightarrow> discovery_error + nat" where
  "marker_score exists [] score = Inr score"
| "marker_score exists (marker # markers) score =
     and_then (map_err DiscoveryIo (exists marker)) (\<lambda>present.
       marker_score exists markers (if present then score + 1 else score))"

fun select_loop ::
  "(path \<Rightarrow> rust_string + bool) \<Rightarrow> language_server_descriptor list \<Rightarrow> language_server_descriptor option \<Rightarrow> nat \<Rightarrow>
     discovery_error + language_server_descriptor option" where
  "select_loop exists [] selected selected_score = Inr selected"
| "select_loop exists (d # ds) selected selected_score =
     and_then (marker_score exists (de_workspace_markers d) 0) (\<lambda>score.
       if selected = None \<or> score > selected_score then select_loop exists ds (Some d) score
       else select_loop exists ds selected selected_score)"

definition select_descriptor ::
  "bool \<Rightarrow> (path \<Rightarrow> rust_string + bool) \<Rightarrow> descriptor_registry \<Rightarrow> rust_string \<Rightarrow> rust_string option \<Rightarrow>
     discovery_error + language_server_descriptor option" where
  "select_descriptor valid_location exists registry language explicit_id =
     (let matching = filter (\<lambda>d. language \<in> set (de_language_ids d)) registry in
      case explicit_id of
        Some ident \<Rightarrow> Inr (find (\<lambda>d. de_id d = ident) matching)
      | None \<Rightarrow>
          if \<not> valid_location then Inl WorkspaceChanged
          else select_loop exists (filter de_enabled matching) None 0)"

section \<open>Lemmas\<close>

lemma length_to_le_bytes [simp]: "length (to_le_bytes n) = 8"
  by (simp add: to_le_bytes_def)

lemma to_le_bytes_inject:
  assumes "to_le_bytes m = to_le_bytes n" "m < 2 ^ 64" "n < 2 ^ 64"
  shows "m = n"
proof -
  have digit: "m div 256 ^ i mod 256 = n div 256 ^ i mod 256" if "i < 8" for i
  proof -
    have "to_le_bytes m ! i = to_le_bytes n ! i" using assms(1) by simp
    then have "(of_nat (m div 256 ^ i mod 256) :: u8) = of_nat (n div 256 ^ i mod 256)"
      using that by (simp add: to_le_bytes_def)
    from arg_cong [OF this, of unat] show ?thesis by (simp add: unat_byte)
  qed
  have "m mod 256 ^ k = n mod 256 ^ k" if "k \<le> 8" for k
    using that
  proof (induction k)
    case 0
    then show ?case by simp
  next
    case (Suc k)
    have "x mod 256 ^ Suc k = 256 ^ k * (x div 256 ^ k mod 256) + x mod 256 ^ k" for x :: nat
      by (simp add: mod_mult2_eq [symmetric] mult.commute)
    with Suc digit [of k] show ?case by simp
  qed
  from this [of 8] assms(2,3) show ?thesis by simp
qed

lemma os_str_bytes_split:
  assumes "os_str_bytes s @ xs = os_str_bytes t @ ys" "str_len s < 2 ^ 64" "str_len t < 2 ^ 64"
  shows "as_bytes s = as_bytes t \<and> xs = ys"
proof -
  have eq: "to_le_bytes (str_len s) @ as_bytes s @ xs = to_le_bytes (str_len t) @ as_bytes t @ ys"
    using assms(1) by (simp add: os_str_bytes_def)
  then have "to_le_bytes (str_len s) = to_le_bytes (str_len t)" and rest: "as_bytes s @ xs = as_bytes t @ ys"
    by (simp_all add: append_eq_append_conv)
  from to_le_bytes_inject [OF this(1) assms(2,3)] have "length (as_bytes s) = length (as_bytes t)" by simp
  with rest show ?thesis by (simp add: append_eq_append_conv)
qed

lemma os_str_bytes_nonempty [simp]: "os_str_bytes s \<noteq> []"
  using length_to_le_bytes [of "length (as_bytes s)"] by (auto simp: os_str_bytes_def simp del: length_to_le_bytes)

lemma os_str_bytes_list:
  assumes "concat (map os_str_bytes ss) = concat (map os_str_bytes ts)"
    "\<And>s. s \<in> set ss \<union> set ts \<Longrightarrow> str_len s < 2 ^ 64"
  shows "map as_bytes ss = map as_bytes ts"
  using assms
proof (induction ss arbitrary: ts)
  case Nil
  then show ?case by (cases ts) auto
next
  case (Cons s ss)
  then obtain t ts' where ts: "ts = t # ts'" by (cases ts) auto
  with Cons.prems os_str_bytes_split [of s "concat (map os_str_bytes ss)" t "concat (map os_str_bytes ts')"]
  have "as_bytes s = as_bytes t" "concat (map os_str_bytes ss) = concat (map os_str_bytes ts')" by simp_all
  with Cons.IH [of ts'] Cons.prems(2) ts show ?case by simp
qed

text \<open>The strings of a command, the executable first.\<close>

definition command_strings :: "resolved_command \<Rightarrow> rust_string list" where
  "command_strings c = rc_executable c # rc_arguments c"

lemma fingerprint_input_strings: "fingerprint_input c = concat (map os_str_bytes (command_strings c))"
  by (simp add: fingerprint_input_def command_strings_def)

lemma fingerprint_exact:
  assumes "fingerprint blake3 c = fingerprint blake3 d"
    "blake3 (fingerprint_input c) = blake3 (fingerprint_input d) \<Longrightarrow> fingerprint_input c = fingerprint_input d"
    "\<And>s. s \<in> set (command_strings c) \<union> set (command_strings d) \<Longrightarrow> str_len s < 2 ^ 64"
  shows "map as_bytes (command_strings c) = map as_bytes (command_strings d)"
  by (rule os_str_bytes_list) (use assms in \<open>auto simp: fingerprint_def fingerprint_input_strings\<close>)

lemma first_executable_found:
  "first_executable canonical ps = Inr (Some q) \<Longrightarrow> \<exists>p \<in> set ps. canonical p = Inr (Some q)"
  by (induction ps) (auto simp: outcome split: option.splits)

lemma discover_unreviewed:
  assumes "discover blake3 canonical d path_env workspace Unreviewed = Inr outcome"
  obtains (off) "outcome = Disabled"
  | (missing) "outcome = Unavailable (de_installation_guidance d)"
  | (found) p server where "de_enabled d" "canonical p = Inr (Some (rc_executable (dv_command server)))"
      "is_absolute (rc_executable (dv_command server))" "rc_arguments (dv_command server) = de_arguments d"
      "dv_source server = de_source d" "dv_descriptor_id server = de_id d"
      "outcome = (if de_source d = Workspace then ApprovalRequired server else Available server)"
proof (cases "de_enabled d")
  case False
  with assms off show ?thesis by (simp add: discover_def)
next
  case True
  with assms obtain r where r: "resolve_executable canonical (de_candidates d) path_env = Inr r"
    by (auto simp: discover_def outcome)
  show ?thesis
  proof (cases r)
    case None
    with assms True r missing show ?thesis by (simp add: discover_def)
  next
    case (Some q)
    from r Some first_executable_found obtain p where p: "canonical p = Inr (Some q)"
      unfolding resolve_executable_def by blast
    let ?command = "\<lparr>rc_executable = q, rc_arguments = de_arguments d\<rparr>"
    let ?server = "\<lparr>dv_descriptor_id = de_id d, dv_source = de_source d, dv_command = ?command\<rparr>"
    have "is_absolute q" "outcome = (if de_source d = Workspace then ApprovalRequired ?server else Available ?server)"
      using assms True r Some
      by (auto simp: discover_def outcome Let_def resolved_command_new_def split: if_splits)
    with True p show ?thesis by (intro found [of p ?server]) simp_all
  qed
qed

end
