(* ===== verification/LanguageProtocol.thy ===== *)
theory LanguageProtocol imports LanguageFraming Ids begin

text \<open>
  The JSON-RPC messages of strukt-language (\<open>protocol.rs\<close>): request identifiers, the router of
  responses, and the classification of an incoming message. The values of \<open>serde_json\<close> are a
  datatype with the accessors the sources call; the parser of their text is a parameter.
\<close>

section \<open>JSON values\<close>

text \<open>
  The numbers are those of \<open>serde_json\<close>: an unsigned, a negative, or a floating-point number, the
  last by its bits. The members of an object are looked up by name.
\<close>

datatype json_number = PosInt u64 | NegInt "64 word" | Float "64 word"

datatype json =
    JNull
  | JBool bool
  | JNumber json_number
  | JString rust_string
  | JArray "json list"
  | JObject "(rust_string \<times> json) list"

fun json_as_u64 :: "json \<Rightarrow> u64 option" where
  "json_as_u64 (JNumber (PosInt n)) = Some n"
| "json_as_u64 _ = None"

fun json_as_str :: "json \<Rightarrow> rust_string option" where
  "json_as_str (JString s) = Some s"
| "json_as_str _ = None"

fun json_as_bool :: "json \<Rightarrow> bool option" where
  "json_as_bool (JBool b) = Some b"
| "json_as_bool _ = None"

fun json_as_array :: "json \<Rightarrow> json list option" where
  "json_as_array (JArray vs) = Some vs"
| "json_as_array _ = None"

fun json_as_object :: "json \<Rightarrow> (rust_string \<times> json) list option" where
  "json_as_object (JObject ms) = Some ms"
| "json_as_object _ = None"

text \<open>\<open>Value::get\<close> with a name, and indexing, which gives null for a missing member.\<close>

definition json_get :: "json \<Rightarrow> string \<Rightarrow> json option" where
  "json_get v name = Option.bind (json_as_object v) (\<lambda>ms. map_of ms (lit name))"

definition json_index :: "json \<Rightarrow> string \<Rightarrow> json" where
  "json_index v name = (case json_get v name of Some w \<Rightarrow> w | None \<Rightarrow> JNull)"

text \<open>The \<open>json!\<close> literals.\<close>

definition jobject :: "(string \<times> json) list \<Rightarrow> json" where
  "jobject ms = JObject (map (\<lambda>(name, v). (lit name, v)) ms)"

definition jstr :: "string \<Rightarrow> json" where
  "jstr s = JString (lit s)"

definition jnum :: "u64 \<Rightarrow> json" where
  "jnum n = JNumber (PosInt n)"

lemma lit_inject [simp]: "lit s = lit t \<longleftrightarrow> s = t"
proof
  assume "lit s = lit t"
  then have "map (\<lambda>c. of_char c :: nat) s = map of_char t" by (simp add: lit_def)
  then show "s = t" by (simp add: inj_map_eq_map [OF inj_of_char])
qed simp

lemma json_get_jobject [simp]: "json_get (jobject ms) name = map_of ms name"
  by (induction ms) (auto simp: json_get_def jobject_def)

lemma json_access [simp]:
  "json_as_u64 (jnum n) = Some n" "json_as_str (jstr s) = Some (lit s)" "json_as_str (jnum n) = None"
  "json_as_object (jobject ms) = Some (map (\<lambda>(name, v). (lit name, v)) ms)"
  by (simp_all add: jnum_def jstr_def jobject_def)

section \<open>Identifiers and the router\<close>

definition OUTSTANDING_REQUEST_LIMIT :: nat where "OUTSTANDING_REQUEST_LIMIT = 256"
definition ERROR_TEXT_LIMIT :: nat where "ERROR_TEXT_LIMIT = 4 * 1024"

datatype protocol_error =
    InvalidJson
  | InvalidMessage
  | RequestIdExhausted
  | DuplicateRequest u64
  | UnexpectedResponse u64
  | TooManyOutstandingRequests

record request_id_allocator =
  ra_next :: u64

definition next_id :: "request_id_allocator \<Rightarrow> (protocol_error + u64) \<times> request_id_allocator" where
  "next_id a =
     (if ra_next a = - 1 then (Inl RequestIdExhausted, a)
      else (Inr (ra_next a + 1), a\<lparr>ra_next := ra_next a + 1\<rparr>))"

record response_message =
  rm_id :: u64
  rm_result :: "json option"
  rm_error :: "json option"

record response_router =
  rr_outstanding :: "(u64, unit) btree"

definition router_register :: "u64 \<Rightarrow> response_router \<Rightarrow> (protocol_error + unit) \<times> response_router" where
  "router_register request r =
     (if bt_contains (rr_outstanding r) request then (Inl (DuplicateRequest request), r)
      else if bt_len (rr_outstanding r) \<ge> OUTSTANDING_REQUEST_LIMIT then (Inl TooManyOutstandingRequests, r)
      else (Inr (), r\<lparr>rr_outstanding := bt_insert request () (rr_outstanding r)\<rparr>))"

definition router_accept :: "response_message \<Rightarrow> response_router \<Rightarrow> (protocol_error + unit) \<times> response_router" where
  "router_accept response r =
     (if bt_contains (rr_outstanding r) (rm_id response)
      then (Inr (), r\<lparr>rr_outstanding := bt_remove (rm_id response) (rr_outstanding r)\<rparr>)
      else (Inl (UnexpectedResponse (rm_id response)), r))"

text \<open>A text cut at a character boundary, with an ellipsis when it was longer.\<close>

definition bounded_error_text :: "rust_string \<Rightarrow> rust_string" where
  "bounded_error_text text =
     (if str_len text \<le> ERROR_TEXT_LIMIT then text
      else slice_to text (floor_boundary text (ERROR_TEXT_LIMIT - len_utf8 8230)) @ [8230])"

section \<open>Incoming messages\<close>

record notification_message =
  nm_method :: rust_string
  nm_params :: "json option"

record request_message =
  qm_id :: u64
  qm_method :: rust_string
  qm_params :: "json option"

datatype incoming_message =
    Response response_message
  | Notification notification_message
  | IncomingRequest request_message

definition parse_request_id :: "json \<Rightarrow> protocol_error + u64" where
  "parse_request_id v = ok_or (json_as_u64 v) InvalidMessage"

definition parse_message :: "(byte_string \<Rightarrow> json option) \<Rightarrow> byte_string \<Rightarrow> protocol_error + incoming_message" where
  "parse_message from_slice body =
     and_then (ok_or (from_slice body) InvalidJson) (\<lambda>v.
     and_then (ok_or (json_as_object v) InvalidMessage) (\<lambda>object.
     let get = (\<lambda>name. map_of object (lit name)) in
     if Option.bind (get ''jsonrpc'') json_as_str \<noteq> Some (lit ''2.0'') then Inl InvalidMessage
     else and_then (case get ''id'' of None \<Rightarrow> Inr None | Some i \<Rightarrow> and_then (parse_request_id i) (\<lambda>i. Inr (Some i))) (\<lambda>request.
     let method = Option.bind (get ''method'') json_as_str in
     case (request, method, get ''result'' \<noteq> None, get ''error'' \<noteq> None) of
       (Some n, None, True, False) \<Rightarrow> Inr (Response \<lparr>rm_id = n, rm_result = get ''result'', rm_error = None\<rparr>)
     | (Some n, None, False, True) \<Rightarrow> Inr (Response \<lparr>rm_id = n, rm_result = None, rm_error = get ''error''\<rparr>)
     | (Some n, Some name, False, False) \<Rightarrow>
         Inr (IncomingRequest \<lparr>qm_id = n, qm_method = name, qm_params = get ''params''\<rparr>)
     | (None, Some name, False, False) \<Rightarrow> Inr (Notification \<lparr>nm_method = name, nm_params = get ''params''\<rparr>)
     | _ \<Rightarrow> Inl InvalidMessage)))"

section \<open>Lemmas\<close>

lemma less_next_u64: "n \<noteq> - 1 \<Longrightarrow> n < n + (1 :: u64)"
  using sat_inc_mono [of n] sat_inc_neq [of n] by (simp add: sat_inc_def order.strict_iff_order)

lemma next_id_fresh:
  "next_id a = (r, a') \<Longrightarrow> r = Inl RequestIdExhausted \<and> a' = a \<or> r = Inr (ra_next a') \<and> ra_next a < ra_next a'"
  by (auto simp: next_id_def less_next_u64 split: if_splits)

lemma bounded_error_text_len: "str_len (bounded_error_text s) \<le> ERROR_TEXT_LIMIT"
  using slice_to_len [of s "floor_boundary s (ERROR_TEXT_LIMIT - len_utf8 8230)"]
    floor_boundary_le [of s "ERROR_TEXT_LIMIT - len_utf8 8230"]
  by (auto simp: bounded_error_text_def ERROR_TEXT_LIMIT_def len_utf8_def)

text \<open>The router takes each response once, and holds at most the limit of requests.\<close>

definition router_ok :: "response_router \<Rightarrow> bool" where
  "router_ok r \<longleftrightarrow> bt_len (rr_outstanding r) \<le> OUTSTANDING_REQUEST_LIMIT"

lemma router_register_ok: "router_ok r \<Longrightarrow> router_register request r = (q, r') \<Longrightarrow> router_ok r'"
  by (auto simp: router_register_def router_ok_def bt_len_insert split: if_splits)

lemma router_accepts_once:
  "router_accept response r = (Inr (), r') \<Longrightarrow>
    fst (router_accept response r') = Inl (UnexpectedResponse (rm_id response))"
  by (auto simp: router_accept_def bt_contains_def split: if_splits)

lemma router_accept_ok: "router_ok r \<Longrightarrow> router_accept response r = (q, r') \<Longrightarrow> router_ok r'"
  using bt_len_remove [of "rr_outstanding r" "rm_id response"]
  by (auto simp: router_accept_def router_ok_def bt_contains_def split: if_splits)

end
