(* ===== verification/LanguageStore.thy ===== *)
theory LanguageStore imports LanguageDescriptor LanguageProtocol begin

text \<open>
  What is kept of the language settings of a workspace (\<open>strukt-persistence/src/language_store.rs\<close>):
  which descriptor serves a language and whether it may, which commands have been approved, and
  whether the problems are shown. Nothing of a running server is kept.
\<close>

section \<open>Snapshots\<close>

definition LANGUAGE_SCHEMA_VERSION :: u32 where "LANGUAGE_SCHEMA_VERSION = 1"
definition ENTRY_LIMIT :: nat where "ENTRY_LIMIT = 128"

datatype language_store_error =
    UnsupportedSchema u32
  | TooManyEntries
  | InvalidSelection
  | InvalidApproval
  | DuplicateLanguage
  | SettingsSerialization rust_string
  | MalformedContribution rust_string

type_synonym extensions = "(rust_string, json) btree"

record language_selection =
  ls_language_id :: rust_string
  ls_descriptor_id :: rust_string
  ls_enabled :: bool
  ls_extensions :: extensions

definition selection_new :: "rust_string \<Rightarrow> rust_string \<Rightarrow> bool \<Rightarrow> language_store_error + language_selection" where
  "selection_new language descriptor enabled =
     (if \<not> valid_identifier language \<or> \<not> valid_identifier descriptor then Inl InvalidSelection
      else Inr \<lparr>ls_language_id = language, ls_descriptor_id = descriptor, ls_enabled = enabled, ls_extensions = bt_empty\<rparr>)"

record approval_snapshot =
  ap_language_id :: rust_string
  ap_fingerprint :: byte_string
  ap_extensions :: extensions

definition approval_new :: "rust_string \<Rightarrow> byte_string \<Rightarrow> language_store_error + approval_snapshot" where
  "approval_new language hash =
     (if \<not> valid_identifier language then Inl InvalidApproval
      else Inr \<lparr>ap_language_id = language, ap_fingerprint = hash, ap_extensions = bt_empty\<rparr>)"

definition approval_matches :: "(byte_string \<Rightarrow> byte_string) \<Rightarrow> approval_snapshot \<Rightarrow> resolved_command \<Rightarrow> bool" where
  "approval_matches blake3 approval command \<longleftrightarrow> ap_fingerprint approval = fingerprint blake3 command"

record language_session_snapshot =
  ss_schema_version :: u32
  ss_selections :: "language_selection list"
  ss_approvals :: "approval_snapshot list"
  ss_problems_visible :: bool
  ss_extensions :: extensions

definition validate_settings :: "language_session_snapshot \<Rightarrow> language_store_error + unit" where
  "validate_settings s =
     (if ss_schema_version s \<noteq> LANGUAGE_SCHEMA_VERSION then Inl (UnsupportedSchema (ss_schema_version s))
      else if length (ss_selections s) > ENTRY_LIMIT \<or> length (ss_approvals s) > ENTRY_LIMIT then Inl TooManyEntries
      else if list_ex (\<lambda>e. \<not> valid_identifier (ls_language_id e) \<or> \<not> valid_identifier (ls_descriptor_id e)) (ss_selections s)
      then Inl InvalidSelection
      else if list_ex (\<lambda>e. \<not> valid_identifier (ap_language_id e)) (ss_approvals s) then Inl InvalidApproval
      else if \<not> distinct (map ls_language_id (ss_selections s)) \<or> \<not> distinct (map ap_language_id (ss_approvals s))
      then Inl DuplicateLanguage
      else Inr ())"

definition settings_new ::
  "language_selection list \<Rightarrow> approval_snapshot list \<Rightarrow> bool \<Rightarrow> language_store_error + language_session_snapshot" where
  "settings_new selections approvals visible =
     (let s = \<lparr>ss_schema_version = LANGUAGE_SCHEMA_VERSION, ss_selections = selections, ss_approvals = approvals,
              ss_problems_visible = visible, ss_extensions = bt_empty\<rparr> in
      and_then (validate_settings s) (\<lambda>_. Inr s))"

record restored_language_session =
  rs_selections :: "language_selection list"
  rs_approvals :: "approval_snapshot list"
  rs_problems_visible :: bool

definition restore_settings :: "language_session_snapshot \<Rightarrow> language_store_error + restored_language_session" where
  "restore_settings s =
     and_then (validate_settings s) (\<lambda>_.
       Inr \<lparr>rs_selections = ss_selections s, rs_approvals = ss_approvals s, rs_problems_visible = ss_problems_visible s\<rparr>)"

section \<open>Lemmas\<close>

lemma settings_new_restores:
  "settings_new selections approvals visible = Inr s \<Longrightarrow>
   restore_settings s = Inr \<lparr>rs_selections = selections, rs_approvals = approvals, rs_problems_visible = visible\<rparr>"
  by (auto simp: settings_new_def restore_settings_def Let_def outcome)

lemma settings_new_ok:
  assumes "length selections \<le> ENTRY_LIMIT" "length approvals \<le> ENTRY_LIMIT"
    "\<And>e. e \<in> set selections \<Longrightarrow> valid_identifier (ls_language_id e) \<and> valid_identifier (ls_descriptor_id e)"
    "\<And>e. e \<in> set approvals \<Longrightarrow> valid_identifier (ap_language_id e)"
    "distinct (map ls_language_id selections)" "distinct (map ap_language_id approvals)"
  shows "\<exists>s. settings_new selections approvals visible = Inr s"
  using assms by (auto simp: settings_new_def validate_settings_def list_ex_iff)

end
