(* ===== verification/LanguagePosition.thy ===== *)
theory LanguagePosition imports RustPath begin

text \<open>
  Positions in a document as strukt-language converts them (\<open>position.rs\<close>): a column counted in
  Unicode scalars, as the editor counts, and in the UTF-8 bytes or UTF-16 units of the negotiated
  encoding, as a language server counts.
\<close>

section \<open>Conversions\<close>

datatype position_encoding = Utf8 | Utf16

record scalar_position =
  sp_line :: u32
  sp_character :: u32

record lsp_position =
  lp_line :: u32
  lp_character :: u32

datatype position_error = InvalidLine | InvalidCharacter

text \<open>\<open>str::strip_suffix('\r')\<close>, or the line as it is.\<close>

definition without_return :: "rust_string \<Rightarrow> rust_string" where
  "without_return line = (if line \<noteq> [] \<and> last line = 13 then butlast line else line)"

definition line_at :: "rust_string \<Rightarrow> u32 \<Rightarrow> position_error + rust_string" where
  "line_at s target = and_then (ok_or (nth_opt (split_on 10 s) (unat target)) InvalidLine) (\<lambda>line. Inr (without_return line))"

definition scalar_to_byte :: "rust_string \<Rightarrow> nat \<Rightarrow> position_error + nat" where
  "scalar_to_byte line scalar_column =
     (if scalar_column = length line then Inr (str_len line)
      else ok_or (if scalar_column < length line then Some (str_len (take scalar_column line)) else None) InvalidCharacter)"

text \<open>The loop of \<open>utf16_to_byte\<close>: the units and the bytes before the characters that are left.\<close>

fun utf16_loop :: "nat \<Rightarrow> nat \<Rightarrow> nat \<Rightarrow> rust_string \<Rightarrow> position_error + nat" where
  "utf16_loop target units byte_index [] = (if target = units then Inr byte_index else Inl InvalidCharacter)"
| "utf16_loop target units byte_index (c # cs) =
     (if target = units then Inr byte_index
      else if target < units + len_utf16 c then Inl InvalidCharacter
      else utf16_loop target (units + len_utf16 c) (byte_index + len_utf8 c) cs)"

definition utf16_to_byte :: "rust_string \<Rightarrow> nat \<Rightarrow> position_error + nat" where
  "utf16_to_byte line target = (if target = 0 then Inr 0 else utf16_loop target 0 0 line)"

text \<open>\<open>encode_utf16().count()\<close>.\<close>

definition utf16_len :: "rust_string \<Rightarrow> nat" where
  "utf16_len s = sum_list (map len_utf16 s)"

definition u32_from :: "nat \<Rightarrow> position_error + u32" where
  "u32_from n = (if n < 2 ^ 32 then Inr (of_nat n) else Inl InvalidCharacter)"

definition to_lsp_position ::
  "rust_string \<Rightarrow> scalar_position \<Rightarrow> position_encoding \<Rightarrow> position_error + lsp_position" where
  "to_lsp_position s pos encoding =
     and_then (line_at s (sp_line pos)) (\<lambda>line.
     and_then (scalar_to_byte line (unat (sp_character pos))) (\<lambda>byte_column.
     let character = (case encoding of Utf8 \<Rightarrow> byte_column | Utf16 \<Rightarrow> utf16_len (slice_to line byte_column)) in
     and_then (u32_from character) (\<lambda>character.
     Inr \<lparr>lp_line = sp_line pos, lp_character = character\<rparr>)))"

definition from_lsp_position ::
  "rust_string \<Rightarrow> lsp_position \<Rightarrow> position_encoding \<Rightarrow> position_error + scalar_position" where
  "from_lsp_position s pos encoding =
     and_then (line_at s (lp_line pos)) (\<lambda>line.
     let target = unat (lp_character pos) in
     and_then
       (case encoding of
          Utf8 \<Rightarrow> if target > str_len line \<or> \<not> is_char_boundary line target then Inl InvalidCharacter else Inr target
        | Utf16 \<Rightarrow> utf16_to_byte line target) (\<lambda>byte_column.
     and_then (u32_from (length (slice_to line byte_column))) (\<lambda>character.
     Inr \<lparr>sp_line = lp_line pos, sp_character = character\<rparr>)))"

section \<open>Columns as widths of a prefix\<close>

fun column_width :: "position_encoding \<Rightarrow> rust_string \<Rightarrow> nat" where
  "column_width Utf8 s = str_len s"
| "column_width Utf16 s = utf16_len s"

lemma utf16_len_simps [simp]: "utf16_len [] = 0" "utf16_len (c # s) = len_utf16 c + utf16_len s"
  by (simp_all add: utf16_len_def)

lemma len_utf16_nonzero [simp]: "len_utf16 c \<noteq> 0"
  by (simp add: len_utf16_def)

lemma utf16_len_0 [simp]: "utf16_len s = 0 \<longleftrightarrow> s = []"
  by (cases s) simp_all

lemma slice_to_take [simp]: "slice_to s (str_len (take n s)) = take n s"
proof (induction s arbitrary: n)
  case (Cons c s)
  then show ?case by (cases n) auto
qed simp

lemma scalar_to_byte_ok: "scalar_to_byte line n = Inr b \<longleftrightarrow> n \<le> length line \<and> b = str_len (take n line)"
  by (auto simp: scalar_to_byte_def outcome)

lemma char_boundary_take: "is_char_boundary s n \<longleftrightarrow> (\<exists>k \<le> length s. n = str_len (take k s))"
proof (induction s n rule: is_char_boundary.induct)
  case (1 s)
  then show ?case by (auto intro: exI [of _ 0])
next
  case (2 n)
  then show ?case by simp
next
  case (3 c s n)
  show ?case
  proof
    assume "is_char_boundary (c # s) (Suc n)"
    then have le: "len_utf8 c \<le> Suc n" and "is_char_boundary s (Suc n - len_utf8 c)" by simp_all
    with "3.IH" obtain k where "k \<le> length s" "Suc n - len_utf8 c = str_len (take k s)" by auto
    with le show "\<exists>k \<le> length (c # s). Suc n = str_len (take k (c # s))" by (intro exI [of _ "Suc k"]) simp
  next
    assume "\<exists>k \<le> length (c # s). Suc n = str_len (take k (c # s))"
    then obtain k where k: "k \<le> length (c # s)" "Suc n = str_len (take k (c # s))" by blast
    then obtain j where "k = Suc j" by (cases k) simp_all
    with k have "len_utf8 c \<le> Suc n" "\<exists>i \<le> length s. Suc n - len_utf8 c = str_len (take i s)" by auto
    with "3.IH" show "is_char_boundary (c # s) (Suc n)" by (simp only: is_char_boundary.simps)
  qed
qed

lemma utf16_loop_ok:
  "utf16_loop target units b line = Inr r \<longleftrightarrow>
    (\<exists>k \<le> length line. target = units + utf16_len (take k line) \<and> r = b + str_len (take k line))"
proof (induction target units b line rule: utf16_loop.induct)
  case (1 target units b)
  then show ?case by auto
next
  case (2 target units b c cs)
  have first: "(\<exists>k \<le> length (c # cs). P (take k (c # cs))) \<longleftrightarrow> P [] \<or> (\<exists>k \<le> length cs. P (c # take k cs))" for P
  proof
    assume "\<exists>k \<le> length (c # cs). P (take k (c # cs))"
    then obtain k where "k \<le> length (c # cs)" "P (take k (c # cs))" by blast
    then show "P [] \<or> (\<exists>k \<le> length cs. P (c # take k cs))" by (cases k) auto
  next
    assume "P [] \<or> (\<exists>k \<le> length cs. P (c # take k cs))"
    then show "\<exists>k \<le> length (c # cs). P (take k (c # cs))"
    proof
      assume "P []"
      then show ?thesis by (intro exI [of _ 0]) simp
    next
      assume "\<exists>k \<le> length cs. P (c # take k cs)"
      then obtain k where "k \<le> length cs" "P (c # take k cs)" by blast
      then show ?thesis by (intro exI [of _ "Suc k"]) simp
    qed
  qed
  show ?case
    unfolding first [of "\<lambda>p. target = units + utf16_len p \<and> r = b + str_len p"]
  proof (cases "target = units")
    case True
    then show "utf16_loop target units b (c # cs) = Inr r \<longleftrightarrow> (target = units + utf16_len [] \<and> r = b + str_len []) \<or>
        (\<exists>k \<le> length cs. target = units + utf16_len (c # take k cs) \<and> r = b + str_len (c # take k cs))"
      by auto
  next
    case False
    show "utf16_loop target units b (c # cs) = Inr r \<longleftrightarrow> (target = units + utf16_len [] \<and> r = b + str_len []) \<or>
        (\<exists>k \<le> length cs. target = units + utf16_len (c # take k cs) \<and> r = b + str_len (c # take k cs))"
    proof (cases "target < units + len_utf16 c")
      case True
      with False show ?thesis by auto
    next
      case later: False
      with False "2.IH" show ?thesis by (auto simp: ac_simps)
    qed
  qed
qed

lemma utf16_to_byte_ok:
  "utf16_to_byte line target = Inr r \<longleftrightarrow> (\<exists>k \<le> length line. target = utf16_len (take k line) \<and> r = str_len (take k line))"
proof (cases "target = 0")
  case True
  have "(\<exists>k \<le> length line. 0 = utf16_len (take k line) \<and> r = str_len (take k line)) \<longleftrightarrow> r = 0"
  proof
    assume "r = 0"
    then show "\<exists>k \<le> length line. 0 = utf16_len (take k line) \<and> r = str_len (take k line)" by (intro exI [of _ 0]) simp
  next
    assume "\<exists>k \<le> length line. 0 = utf16_len (take k line) \<and> r = str_len (take k line)"
    then obtain k where "utf16_len (take k line) = 0" "r = str_len (take k line)" by auto
    then show "r = 0" by (simp only: utf16_len_0 str_len_simps)
  qed
  with True show ?thesis by (simp add: utf16_to_byte_def)
next
  case False
  then show ?thesis by (simp add: utf16_to_byte_def utf16_loop_ok)
qed

lemma u32_from_ok: "u32_from n = Inr w \<longleftrightarrow> n = unat w"
  using unsigned_less [of w, where ?'a = nat] by (auto simp: u32_from_def unsigned_of_nat take_bit_nat_eq_self)

text \<open>Both directions relate the same pairs of columns: the widths of a prefix of the line.\<close>

definition same_column :: "rust_string \<Rightarrow> position_encoding \<Rightarrow> scalar_position \<Rightarrow> lsp_position \<Rightarrow> bool" where
  "same_column s encoding p q \<longleftrightarrow>
     lp_line q = sp_line p \<and>
     (case line_at s (sp_line p) of
        Inl _ \<Rightarrow> False
      | Inr line \<Rightarrow> unat (sp_character p) \<le> length line \<and>
          unat (lp_character q) = column_width encoding (take (unat (sp_character p)) line))"

lemma to_lsp_position_iff: "to_lsp_position s p e = Inr q \<longleftrightarrow> same_column s e p q"
  by (cases e; cases q)
    (auto simp: to_lsp_position_def same_column_def outcome scalar_to_byte_ok u32_from_ok Let_def split: sum.split)

lemma target_column_ok:
  "(case e of
      Utf8 \<Rightarrow> if target > str_len line \<or> \<not> is_char_boundary line target then Inl InvalidCharacter else Inr target
    | Utf16 \<Rightarrow> utf16_to_byte line target) = Inr b \<longleftrightarrow>
    (\<exists>k \<le> length line. target = column_width e (take k line) \<and> b = str_len (take k line))"
proof -
  have le: "str_len (take k line) \<le> str_len line" for k
    by (metis append_take_drop_id le_add1 str_len_simps(3))
  show ?thesis using le by (cases e) (auto simp: utf16_to_byte_ok char_boundary_take not_less [symmetric])
qed

lemma from_lsp_position_iff: "from_lsp_position s q e = Inr p \<longleftrightarrow> same_column s e p q"
proof (cases "line_at s (lp_line q)")
  case (Inl x)
  then show ?thesis by (auto simp: from_lsp_position_def same_column_def)
next
  case (Inr line)
  have "from_lsp_position s q e = Inr p \<longleftrightarrow>
      (\<exists>k \<le> length line. unat (lp_character q) = column_width e (take k line) \<and> k = unat (sp_character p)) \<and> sp_line p = lp_line q"
    using Inr by (cases p) (auto simp: from_lsp_position_def outcome target_column_ok u32_from_ok Let_def)
  then show ?thesis using Inr by (auto simp: same_column_def)
qed

section \<open>Properties\<close>

text \<open>
  C34. Converting a position to the encoding of the server and back gives the same position, in both
  encodings and both directions: a position is converted to another exactly when the other is
  converted back to it.
\<close>

theorem lsp_positions_round_trip:
  "to_lsp_position s p encoding = Inr q \<longleftrightarrow> from_lsp_position s q encoding = Inr p"
  by (simp add: to_lsp_position_iff from_lsp_position_iff)

end
