(* ===== verification/LanguageClient.thy ===== *)
theory LanguageClient imports LanguageProtocol LanguagePosition begin

text \<open>
  The client of a language server (\<open>strukt-language/src/client.rs\<close>): its life from the initialize
  request to shutdown, the documents it synchronizes with coalesced changes, the feature requests
  that are outstanding, deadlines, and restarts after a crash. A duration is a number of nanoseconds.
  The maps are hash maps; where the code walks one and the order shows, the order is an argument.
\<close>

section \<open>Constants\<close>

type_synonym duration = nat

definition from_millis :: "nat \<Rightarrow> duration" where "from_millis n = n * 1000000"

definition OUTBOUND_LIMIT :: nat where "OUTBOUND_LIMIT = 256"
definition REQUEST_LIMIT :: nat where "REQUEST_LIMIT = 256"
definition CHANGE_DELAY :: duration where "CHANGE_DELAY = from_millis 250"
definition INITIALIZE_TIMEOUT :: duration where "INITIALIZE_TIMEOUT = from_millis 10000"
definition REQUEST_TIMEOUT :: duration where "REQUEST_TIMEOUT = from_millis 5000"
definition SHUTDOWN_TIMEOUT :: duration where "SHUTDOWN_TIMEOUT = from_millis 2000"
definition IDLE_SHUTDOWN_DELAY :: duration where "IDLE_SHUTDOWN_DELAY = from_millis 30000"
definition RESTART_WINDOW :: duration where "RESTART_WINDOW = from_millis 600000"
definition RESTART_DELAYS :: "duration list" where
  "RESTART_DELAYS = [from_millis 250, from_millis 1000, from_millis 4000]"

section \<open>Data\<close>

datatype language_server_state =
    Discovering | Starting | Ready | Degraded | Restarting | Failed | Stopping | Stopped

datatype feature_request_kind = Completion | Hover | Definition

fun feature_method :: "feature_request_kind \<Rightarrow> string" where
  "feature_method Completion = ''textDocument/completion''"
| "feature_method Hover = ''textDocument/hover''"
| "feature_method Definition = ''textDocument/definition''"

fun feature_flag :: "feature_request_kind \<Rightarrow> u8" where
  "feature_flag Completion = 1"
| "feature_flag Hover = push_bit 1 1"
| "feature_flag Definition = push_bit 2 1"

datatype synchronization_kind = NoSynchronization | FullSynchronization

record server_capabilities =
  cap_synchronization :: synchronization_kind
  cap_save_notifications :: bool
  cap_features :: u8
  cap_position_encoding :: position_encoding

definition server_capabilities_new ::
  "synchronization_kind \<Rightarrow> feature_request_kind list \<Rightarrow> position_encoding \<Rightarrow> server_capabilities" where
  "server_capabilities_new synchronization features encoding =
     \<lparr>cap_synchronization = synchronization, cap_save_notifications = False,
      cap_features = foldl (\<lambda>flags feature. or flags (feature_flag feature)) 0 features,
      cap_position_encoding = encoding\<rparr>"

definition supports :: "server_capabilities \<Rightarrow> feature_request_kind \<Rightarrow> bool" where
  "supports c kind \<longleftrightarrow> and (cap_features c) (feature_flag kind) \<noteq> 0"

record outbound_message =
  om_id :: "u64 option"
  om_method :: string
  om_params :: json

definition json_rpc :: "outbound_message \<Rightarrow> json" where
  "json_rpc m =
     jobject ([(''jsonrpc'', jstr ''2.0''), (''method'', jstr (om_method m)), (''params'', om_params m)] @
       (case om_id m of None \<Rightarrow> [] | Some n \<Rightarrow> [(''id'', jnum n)]))"

record feature_request =
  fr_id :: u64
  fr_kind :: feature_request_kind
  fr_document :: rust_string
  fr_revision :: u64
  fr_position :: lsp_position
  fr_generation :: u64
  fr_deadline :: duration

datatype response_disposition = Applied | Stale

datatype client_timeout = InitializeTimeout | RequestTimeout u64 | ShutdownTimeout | IdleShutdown

datatype server_request_disposition = Configuration "json list" | MethodNotFound

record document_state =
  ds_revision :: u64

record pending_change =
  ch_revision :: u64
  ch_text :: rust_string
  ch_due :: duration

record language_client =
  lc_workspace_id :: rust_string
  lc_descriptor_id :: rust_string
  lc_state :: language_server_state
  lc_generation :: u64
  lc_ids :: request_id_allocator
  lc_capabilities :: "server_capabilities option"
  lc_initialize_id :: "u64 option"
  lc_initialize_deadline :: "duration option"
  lc_shutdown_id :: "u64 option"
  lc_shutdown_deadline :: "duration option"
  lc_idle_deadline :: "duration option"
  lc_outbound :: "outbound_message list"
  lc_documents :: "(rust_string, document_state) btree"
  lc_pending_changes :: "(rust_string, pending_change) btree"
  lc_requests :: "(u64, feature_request) btree"
  lc_crash_times :: "duration list"

datatype client_error =
    NotReady | InvalidState | StaleResponse | UnknownDocument | InvalidRevision | UnsupportedFeature
  | OutboundQueueFull | TooManyRequests | Protocol protocol_error

definition language_client_new :: "rust_string \<Rightarrow> rust_string \<Rightarrow> language_client" where
  "language_client_new workspace_id descriptor_id =
     \<lparr>lc_workspace_id = workspace_id, lc_descriptor_id = descriptor_id, lc_state = Stopped, lc_generation = 0,
      lc_ids = \<lparr>ra_next = 0\<rparr>, lc_capabilities = None, lc_initialize_id = None, lc_initialize_deadline = None,
      lc_shutdown_id = None, lc_shutdown_deadline = None, lc_idle_deadline = None, lc_outbound = [],
      lc_documents = bt_empty, lc_pending_changes = bt_empty, lc_requests = bt_empty, lc_crash_times = []\<rparr>"

section \<open>The queue of messages\<close>

definition ensure_ready :: "language_client \<Rightarrow> client_error + unit" where
  "ensure_ready c = ensure (lc_state c = Ready) NotReady"

definition push_outbound :: "outbound_message \<Rightarrow> language_client \<Rightarrow> (client_error + unit) \<times> language_client" where
  "push_outbound m c =
     (if length (lc_outbound c) \<ge> OUTBOUND_LIMIT then (Inl OutboundQueueFull, c)
      else (Inr (), c\<lparr>lc_outbound := lc_outbound c @ [m]\<rparr>))"

definition push_notification :: "string \<Rightarrow> json \<Rightarrow> language_client \<Rightarrow> (client_error + unit) \<times> language_client" where
  "push_notification method params = push_outbound \<lparr>om_id = None, om_method = method, om_params = params\<rparr>"

definition push_cancel :: "u64 \<Rightarrow> language_client \<Rightarrow> (client_error + unit) \<times> language_client" where
  "push_cancel request = push_notification ''$/cancelRequest'' (jobject [(''id'', jnum request)])"

definition take_outbound :: "language_client \<Rightarrow> outbound_message option \<times> language_client" where
  "take_outbound c =
     (case lc_outbound c of [] \<Rightarrow> (None, c) | m # ms \<Rightarrow> (Some m, c\<lparr>lc_outbound := ms\<rparr>))"

definition client_next_id :: "language_client \<Rightarrow> (client_error + u64) \<times> language_client" where
  "client_next_id c =
     (case next_id (lc_ids c) of (r, ids) \<Rightarrow> (map_err Protocol r, c\<lparr>lc_ids := ids\<rparr>))"

text \<open>The loop of \<open>invalidate_document_requests\<close> over the requests it has collected.\<close>

fun cancel_all :: "u64 list \<Rightarrow> language_client \<Rightarrow> (client_error + unit) \<times> language_client" where
  "cancel_all [] c = (Inr (), c)"
| "cancel_all (request # requests) c =
     (case push_cancel request (c\<lparr>lc_requests := bt_remove request (lc_requests c)\<rparr>) of
        (Inl e, c) \<Rightarrow> (Inl e, c)
      | (Inr _, c) \<Rightarrow> cancel_all requests c)"

type_synonym hash_order = "u64 list \<Rightarrow> u64 list"

definition walked :: "hash_order \<Rightarrow> (u64, feature_request) btree \<Rightarrow> (feature_request \<Rightarrow> bool) \<Rightarrow> u64 list" where
  "walked order requests p =
     filter (\<lambda>n. case bt_get requests n of Some request \<Rightarrow> p request | None \<Rightarrow> False) (order (bt_keys requests))"

definition invalidate_document_requests ::
  "hash_order \<Rightarrow> rust_string \<Rightarrow> language_client \<Rightarrow> (client_error + unit) \<times> language_client" where
  "invalidate_document_requests order document c =
     cancel_all (walked order (lc_requests c) (\<lambda>request. fr_document request = document)) c"

definition invalidate_feature_request ::
  "hash_order \<Rightarrow> feature_request_kind \<Rightarrow> rust_string \<Rightarrow> language_client \<Rightarrow> (client_error + unit) \<times> language_client" where
  "invalidate_feature_request order kind document c =
     cancel_all (take 1 (walked order (lc_requests c) (\<lambda>request. fr_kind request = kind \<and> fr_document request = document))) c"

section \<open>The life of a server\<close>

text \<open>What a restart and a failure have in common.\<close>

definition clear_generation :: "language_server_state \<Rightarrow> language_client \<Rightarrow> language_client" where
  "clear_generation state c =
     c\<lparr>lc_generation := sat_inc (lc_generation c), lc_state := state, lc_capabilities := None,
       lc_initialize_id := None, lc_initialize_deadline := None, lc_shutdown_id := None,
       lc_shutdown_deadline := None, lc_idle_deadline := None, lc_outbound := [],
       lc_pending_changes := bt_empty, lc_requests := bt_empty\<rparr>"

definition fail_active_generation :: "language_client \<Rightarrow> language_client" where
  "fail_active_generation = clear_generation Failed"

definition restart_generation :: "language_client \<Rightarrow> language_client" where
  "restart_generation = clear_generation Restarting"

definition initialize_params :: "rust_string \<Rightarrow> json" where
  "initialize_params workspace =
     jobject
       [(''processId'', JNull),
        (''clientInfo'', jobject [(''name'', jstr ''strukt'')]),
        (''workspaceFolders'', JArray [jobject [(''uri'', JString workspace), (''name'', JString workspace)]]),
        (''capabilities'', jobject
          [(''general'', jobject [(''positionEncodings'', JArray [jstr ''utf-8'', jstr ''utf-16''])]),
           (''textDocument'', jobject
             [(''synchronization'', jobject []), (''completion'', jobject []), (''hover'', jobject []),
              (''definition'', jobject [])])])]"

definition start :: "duration \<Rightarrow> language_client \<Rightarrow> (client_error + outbound_message) \<times> language_client" where
  "start now c =
     (if lc_state c \<noteq> Stopped \<and> lc_state c \<noteq> Restarting then (Inl InvalidState, c)
      else let c = c\<lparr>lc_generation := sat_inc (lc_generation c), lc_state := Starting, lc_capabilities := None\<rparr> in
        case client_next_id c of
          (Inl e, c) \<Rightarrow> (Inl e, c)
        | (Inr request, c) \<Rightarrow>
            (Inr \<lparr>om_id = Some request, om_method = ''initialize'', om_params = initialize_params (lc_workspace_id c)\<rparr>,
             c\<lparr>lc_initialize_id := Some request, lc_initialize_deadline := Some (now + INITIALIZE_TIMEOUT)\<rparr>))"

definition accept_initialize ::
  "u64 \<Rightarrow> server_capabilities \<Rightarrow> language_client \<Rightarrow> (client_error + unit) \<times> language_client" where
  "accept_initialize request capabilities c =
     (if lc_state c \<noteq> Starting \<or> lc_initialize_id c \<noteq> Some request then (Inl StaleResponse, c)
      else push_notification ''initialized'' (jobject [])
        (c\<lparr>lc_initialize_id := None, lc_initialize_deadline := None, lc_capabilities := Some capabilities,
           lc_state := Ready\<rparr>))"

definition reject_initialize :: "u64 \<Rightarrow> language_client \<Rightarrow> (client_error + unit) \<times> language_client" where
  "reject_initialize request c =
     (if lc_state c \<noteq> Starting \<or> lc_initialize_id c \<noteq> Some request then (Inl StaleResponse, c)
      else (Inr (), fail_active_generation c))"

definition handle_server_request :: "rust_string \<Rightarrow> server_request_disposition" where
  "handle_server_request method =
     (if method = lit ''workspace/configuration'' then Configuration [] else MethodNotFound)"

definition fail_protocol :: "language_client \<Rightarrow> language_client" where
  "fail_protocol = fail_active_generation"

text \<open>The loop that drops old crashes from the front, and what is left of the delays.\<close>

definition process_exited :: "duration \<Rightarrow> language_client \<Rightarrow> duration option \<times> language_client" where
  "process_exited now c =
     (let c = restart_generation c;
          c = c\<lparr>lc_crash_times := dropWhile (\<lambda>time. now - time > RESTART_WINDOW) (lc_crash_times c) @ [now]\<rparr>;
          delay = nth_opt RESTART_DELAYS (length (lc_crash_times c) - 1)
      in (delay, (if delay = None then c\<lparr>lc_state := Failed\<rparr> else c)))"

definition begin_shutdown :: "duration \<Rightarrow> language_client \<Rightarrow> (client_error + outbound_message) \<times> language_client" where
  "begin_shutdown now c =
     (if lc_state c \<noteq> Ready \<and> lc_state c \<noteq> Degraded then (Inl InvalidState, c)
      else
        case client_next_id (c\<lparr>lc_state := Stopping, lc_pending_changes := bt_empty, lc_requests := bt_empty\<rparr>) of
          (Inl e, c) \<Rightarrow> (Inl e, c)
        | (Inr request, c) \<Rightarrow>
            (Inr \<lparr>om_id = Some request, om_method = ''shutdown'', om_params = JNull\<rparr>,
             c\<lparr>lc_shutdown_id := Some request, lc_shutdown_deadline := Some (now + SHUTDOWN_TIMEOUT)\<rparr>))"

definition accept_shutdown :: "u64 \<Rightarrow> language_client \<Rightarrow> (client_error + unit) \<times> language_client" where
  "accept_shutdown request c =
     (if lc_state c \<noteq> Stopping \<or> lc_shutdown_id c \<noteq> Some request then (Inl StaleResponse, c)
      else push_notification ''exit'' JNull (c\<lparr>lc_shutdown_id := None, lc_shutdown_deadline := None\<rparr>))"

definition finish_shutdown :: "language_client \<Rightarrow> language_client" where
  "finish_shutdown c =
     c\<lparr>lc_state := Stopped, lc_capabilities := None, lc_outbound := [], lc_pending_changes := bt_empty,
       lc_requests := bt_empty, lc_initialize_deadline := None, lc_shutdown_deadline := None,
       lc_idle_deadline := None\<rparr>"

section \<open>Documents\<close>

definition text_document :: "rust_string \<Rightarrow> json" where
  "text_document document = jobject [(''textDocument'', jobject [(''uri'', JString document)])]"

definition did_open_params :: "rust_string \<Rightarrow> rust_string \<Rightarrow> u64 \<Rightarrow> rust_string \<Rightarrow> json" where
  "did_open_params document language revision contents =
     jobject [(''textDocument'', jobject
       [(''uri'', JString document), (''languageId'', JString language), (''version'', jnum revision),
        (''text'', JString contents)])]"

definition did_change_params :: "rust_string \<Rightarrow> u64 \<Rightarrow> rust_string \<Rightarrow> json" where
  "did_change_params document revision contents =
     jobject
       [(''textDocument'', jobject [(''uri'', JString document), (''version'', jnum revision)]),
        (''contentChanges'', JArray [jobject [(''text'', JString contents)]])]"

definition did_open :: "rust_string \<Rightarrow> u64 \<Rightarrow> rust_string \<Rightarrow> language_client \<Rightarrow> (client_error + unit) \<times> language_client" where
  "did_open document revision contents c =
     attempt (ensure_ready c) c (\<lambda>_.
       push_notification ''textDocument/didOpen'' (did_open_params document (lc_descriptor_id c) revision contents)
         (c\<lparr>lc_documents := bt_insert document \<lparr>ds_revision = revision\<rparr> (lc_documents c), lc_idle_deadline := None\<rparr>))"

definition did_save :: "rust_string \<Rightarrow> language_client \<Rightarrow> (client_error + unit) \<times> language_client" where
  "did_save document c =
     attempt (ensure_ready c) c (\<lambda>_.
     if \<not> bt_contains (lc_documents c) document then (Inl UnknownDocument, c)
     else if \<not> (case lc_capabilities c of Some capabilities \<Rightarrow> cap_save_notifications capabilities | None \<Rightarrow> False)
     then (Inr (), c)
     else push_notification ''textDocument/didSave'' (text_document document) c)"

definition did_close ::
  "hash_order \<Rightarrow> rust_string \<Rightarrow> duration \<Rightarrow> language_client \<Rightarrow> (client_error + unit) \<times> language_client" where
  "did_close order document now c =
     attempt (ensure_ready c) c (\<lambda>_.
     if \<not> bt_contains (lc_documents c) document then (Inl UnknownDocument, c)
     else
       case invalidate_document_requests order document
              (c\<lparr>lc_documents := bt_remove document (lc_documents c),
                 lc_pending_changes := bt_remove document (lc_pending_changes c)\<rparr>) of
         (Inl e, c) \<Rightarrow> (Inl e, c)
       | (Inr _, c) \<Rightarrow>
           (case push_notification ''textDocument/didClose'' (text_document document) c of
              (Inl e, c) \<Rightarrow> (Inl e, c)
            | (Inr _, c) \<Rightarrow>
                (Inr (), if bt_is_empty (lc_documents c)
                         then c\<lparr>lc_idle_deadline := Some (now + IDLE_SHUTDOWN_DELAY)\<rparr> else c)))"

definition did_change ::
  "hash_order \<Rightarrow> rust_string \<Rightarrow> u64 \<Rightarrow> rust_string \<Rightarrow> duration \<Rightarrow> language_client \<Rightarrow>
     (client_error + unit) \<times> language_client" where
  "did_change order document revision contents now c =
     attempt (ensure_ready c) c (\<lambda>_.
     case bt_get (lc_documents c) document of
       None \<Rightarrow> (Inl UnknownDocument, c)
     | Some state \<Rightarrow>
         if revision \<le> ds_revision state then (Inl InvalidRevision, c)
         else invalidate_document_requests order document
           (c\<lparr>lc_documents := bt_insert document (state\<lparr>ds_revision := revision\<rparr>) (lc_documents c),
              lc_pending_changes := bt_insert document
                \<lparr>ch_revision = revision, ch_text = contents, ch_due = now + CHANGE_DELAY\<rparr> (lc_pending_changes c)\<rparr>))"

text \<open>The loop of \<open>flush_changes\<close> over the documents that are due: a change the queue has no room for is dropped.\<close>

fun flush_loop :: "rust_string list \<Rightarrow> nat \<Rightarrow> language_client \<Rightarrow> nat \<times> language_client" where
  "flush_loop [] queued c = (queued, c)"
| "flush_loop (document # documents) queued c =
     (case bt_get (lc_pending_changes c) document of
        None \<Rightarrow> flush_loop documents queued c
      | Some change \<Rightarrow>
          (case push_notification ''textDocument/didChange''
                  (did_change_params document (ch_revision change) (ch_text change))
                  (c\<lparr>lc_pending_changes := bt_remove document (lc_pending_changes c)\<rparr>) of
             (Inr _, c) \<Rightarrow> flush_loop documents (queued + 1) c
           | (Inl _, c) \<Rightarrow> flush_loop documents queued c))"

definition due_changes :: "duration \<Rightarrow> language_client \<Rightarrow> rust_string list" where
  "due_changes now c = map fst (filter (\<lambda>(_, change). ch_due change \<le> now) (bt_entries (lc_pending_changes c)))"

definition flush_changes :: "duration \<Rightarrow> language_client \<Rightarrow> nat \<times> language_client" where
  "flush_changes now c = flush_loop (due_changes now c) 0 c"

section \<open>Feature requests\<close>

definition position_params :: "rust_string \<Rightarrow> lsp_position \<Rightarrow> json" where
  "position_params document pos =
     jobject
       [(''textDocument'', jobject [(''uri'', JString document)]),
        (''position'', jobject [(''line'', jnum (ucast (lp_line pos))), (''character'', jnum (ucast (lp_character pos)))])]"

definition request_feature ::
  "hash_order \<Rightarrow> feature_request_kind \<Rightarrow> rust_string \<Rightarrow> u64 \<Rightarrow> lsp_position \<Rightarrow> duration \<Rightarrow> language_client \<Rightarrow>
     (client_error + feature_request) \<times> language_client" where
  "request_feature order kind document revision pos now c =
     attempt (ensure_ready c) c (\<lambda>_.
     if \<not> (case lc_capabilities c of Some capabilities \<Rightarrow> supports capabilities kind | None \<Rightarrow> False)
     then (Inl UnsupportedFeature, c)
     else if map_option ds_revision (bt_get (lc_documents c) document) \<noteq> Some revision then (Inl InvalidRevision, c)
     else if bt_len (lc_requests c) \<ge> REQUEST_LIMIT then (Inl TooManyRequests, c)
     else
       case invalidate_feature_request order kind document c of
         (Inl e, c) \<Rightarrow> (Inl e, c)
       | (Inr _, c) \<Rightarrow>
           (case client_next_id c of
              (Inl e, c) \<Rightarrow> (Inl e, c)
            | (Inr number, c) \<Rightarrow>
                let request = \<lparr>fr_id = number, fr_kind = kind, fr_document = document, fr_revision = revision,
                      fr_position = pos, fr_generation = lc_generation c, fr_deadline = now + REQUEST_TIMEOUT\<rparr>
                in (case push_outbound \<lparr>om_id = Some number, om_method = feature_method kind,
                           om_params = position_params document pos\<rparr> c of
                      (Inl e, c) \<Rightarrow> (Inl e, c)
                    | (Inr _, c) \<Rightarrow> (Inr request, c\<lparr>lc_requests := bt_insert number request (lc_requests c)\<rparr>))))"

definition accept_feature_response :: "feature_request \<Rightarrow> language_client \<Rightarrow> response_disposition \<times> language_client" where
  "accept_feature_response request c =
     (let current = bt_get (lc_requests c) (fr_id request);
          is_current = (current = Some request \<and> fr_generation request = lc_generation c \<and>
            (case bt_get (lc_documents c) (fr_document request) of
               Some state \<Rightarrow> ds_revision state = fr_revision request | None \<Rightarrow> False) \<and>
            lc_state c = Ready)
      in (if is_current then Applied else Stale, c\<lparr>lc_requests := bt_remove (fr_id request) (lc_requests c)\<rparr>))"

section \<open>Deadlines\<close>

definition reached :: "duration option \<Rightarrow> duration \<Rightarrow> bool" where
  "reached deadline now \<longleftrightarrow> (case deadline of Some time \<Rightarrow> time \<le> now | None \<Rightarrow> False)"

text \<open>The loop over the expired requests.\<close>

fun expire_loop :: "u64 list \<Rightarrow> language_client \<Rightarrow> language_client" where
  "expire_loop [] c = c"
| "expire_loop (request # requests) c =
     (case push_cancel request (c\<lparr>lc_requests := bt_remove request (lc_requests c)\<rparr>) of
        (r, c) \<Rightarrow> expire_loop requests (if isl r \<and> lc_state c = Ready then c\<lparr>lc_state := Degraded\<rparr> else c))"

definition expired_requests :: "duration \<Rightarrow> language_client \<Rightarrow> u64 list" where
  "expired_requests now c = map fst (filter (\<lambda>(_, request). fr_deadline request \<le> now) (bt_entries (lc_requests c)))"

definition expire_initialize :: "duration \<Rightarrow> language_client \<Rightarrow> client_timeout list \<times> language_client" where
  "expire_initialize now c =
     (if reached (lc_initialize_deadline c) now
      then ([InitializeTimeout], c\<lparr>lc_initialize_deadline := None, lc_initialize_id := None, lc_state := Failed\<rparr>)
      else ([], c))"

definition expire_shutdown :: "duration \<Rightarrow> language_client \<Rightarrow> client_timeout list \<times> language_client" where
  "expire_shutdown now c =
     (if reached (lc_shutdown_deadline c) now
      then ([ShutdownTimeout], c\<lparr>lc_shutdown_deadline := None, lc_shutdown_id := None, lc_state := Stopped\<rparr>)
      else ([], c))"

definition expire_idle :: "duration \<Rightarrow> language_client \<Rightarrow> client_timeout list \<times> language_client" where
  "expire_idle now c =
     (if lc_state c = Ready \<and> reached (lc_idle_deadline c) now then
        (case begin_shutdown now (c\<lparr>lc_idle_deadline := None\<rparr>) of
           (Inl _, c) \<Rightarrow> ([], c\<lparr>lc_state := Failed\<rparr>)
         | (Inr m, c) \<Rightarrow>
             (case push_outbound m c of
                (Inr _, c) \<Rightarrow> ([IdleShutdown], c)
              | (Inl _, c) \<Rightarrow> ([], c\<lparr>lc_state := Failed\<rparr>)))
      else ([], c))"

text \<open>\<open>poll_timeouts\<close>, its four parts in order.\<close>

definition poll_timeouts :: "duration \<Rightarrow> language_client \<Rightarrow> client_timeout list \<times> language_client" where
  "poll_timeouts now c =
     (case expire_initialize now c of (initialize, c) \<Rightarrow>
      let expired = expired_requests now c in
      case expire_shutdown now (expire_loop expired c) of (shutdown, c) \<Rightarrow>
      case expire_idle now c of (idle, c) \<Rightarrow>
        (initialize @ map RequestTimeout expired @ shutdown @ idle, c))"

end
