(* ===== verification/LanguageFeatures.thy ===== *)
theory LanguageFeatures imports LanguageClient begin

text \<open>
  What the application makes of the results of a language server: hover texts are stripped of markup
  (\<open>strukt-language/src/feature.rs\<close>), and completions, definitions and diagnostics are read off the JSON
  values with bounds on everything (\<open>strukt-app/src/language.rs\<close>). The conversion of a file URL to
  a path (the crate \<open>url\<close>) is a parameter.
\<close>

section \<open>Hover texts\<close>

definition HOVER_CONTENT_LIMIT :: nat where "HOVER_CONTENT_LIMIT = 256 * 1024"

text \<open>\<open>strip_angle_blocks\<close>, with the flag of the loop.\<close>

fun strip_angle :: "bool \<Rightarrow> rust_string \<Rightarrow> rust_string" where
  "strip_angle inside [] = []"
| "strip_angle inside (c # cs) =
     (if c = 60 then strip_angle True cs
      else if c = 62 \<and> inside then strip_angle False cs
      else if \<not> inside then c # strip_angle inside cs
      else strip_angle inside cs)"

definition strip_angle_blocks :: "rust_string \<Rightarrow> rust_string" where
  "strip_angle_blocks = strip_angle False"

text \<open>
  \<open>find_markdown_destination\<close> on what follows the bracket: the label up to the next closing bracket
  that a parenthesis follows, and what is behind the parenthesis that closes the destination.
\<close>

fun split_at_pair :: "scalar \<Rightarrow> scalar \<Rightarrow> rust_string \<Rightarrow> (rust_string \<times> rust_string) option" where
  "split_at_pair a b [] = None"
| "split_at_pair a b [c] = None"
| "split_at_pair a b (c # d # cs) =
     (if c = a \<and> d = b then Some ([], cs)
      else map_option (\<lambda>(label, rest). (c # label, rest)) (split_at_pair a b (d # cs)))"

definition find_markdown_destination :: "rust_string \<Rightarrow> (rust_string \<times> rust_string) option" where
  "find_markdown_destination remainder =
     Option.bind (split_at_pair 93 40 remainder) (\<lambda>(label, destination).
       if 41 \<in> set destination then Some (label, tl (dropWhile (\<lambda>c. c \<noteq> 41) destination)) else None)"

lemma split_at_pair_length: "split_at_pair a b s = Some (label, rest) \<Longrightarrow> length rest < length s"
  by (induction a b s arbitrary: label rule: split_at_pair.induct) (auto split: if_splits)

lemma find_markdown_destination_length:
  "find_markdown_destination s = Some (label, rest) \<Longrightarrow> length rest < length s"
proof -
  assume "find_markdown_destination s = Some (label, rest)"
  then obtain d where d: "split_at_pair 93 40 s = Some (label, d)" "rest = tl (dropWhile (\<lambda>c. c \<noteq> 41) d)"
    by (auto simp: find_markdown_destination_def bind_eq_Some_conv split: if_splits)
  have "length rest \<le> length d" using length_dropWhile_le [of "\<lambda>c. c \<noteq> 41" d] d(2) by simp
  with split_at_pair_length [OF d(1)] show "length rest < length s" by simp
qed

function strip_markdown_destinations :: "rust_string \<Rightarrow> rust_string" where
  "strip_markdown_destinations [] = []"
| "strip_markdown_destinations (c # cs) =
     (let image = (if c = 33 \<and> take 1 cs = [91] then find_markdown_destination (tl cs) else None);
          link = (if c = 91 then find_markdown_destination cs else None)
      in case image of
           Some (_, rest) \<Rightarrow> strip_markdown_destinations rest
         | None \<Rightarrow>
             (case link of
                Some (label, rest) \<Rightarrow> label @ strip_markdown_destinations rest
              | None \<Rightarrow> c # strip_markdown_destinations cs))"
  by pat_completeness auto
termination
  by (relation "measure length")
    (auto split: if_splits dest!: find_markdown_destination_length [OF sym] find_markdown_destination_length intro: less_SucI less_trans)

definition sanitize_hover_markdown :: "rust_string \<Rightarrow> rust_string" where
  "sanitize_hover_markdown markdown =
     bounded_text (strip_markdown_destinations (strip_angle_blocks markdown)) HOVER_CONTENT_LIMIT"

definition parse_hover :: "json \<Rightarrow> rust_string option" where
  "parse_hover result =
     (let contents = (case json_get result ''contents'' of Some v \<Rightarrow> v | None \<Rightarrow> result) in
      Option.bind
        (case json_as_str contents of Some v \<Rightarrow> Some v | None \<Rightarrow> Option.bind (json_get contents ''value'') json_as_str) (\<lambda>v.
      let sanitized = sanitize_hover_markdown v in
      if trim sanitized = [] then None else Some sanitized))"

section \<open>Completions\<close>

text \<open>\<open>flatten_snippet\<close>: placeholders become their default texts, tab stops disappear.\<close>

function flatten_snippet :: "rust_string \<Rightarrow> rust_string" where
  "flatten_snippet [] = []"
| "flatten_snippet (c # cs) =
     (if c \<noteq> 36 then c # flatten_snippet cs
      else case cs of
        [] \<Rightarrow> []
      | d # inner \<Rightarrow>
          if d = 123 then
            (case position (\<lambda>x. x = 125) inner of
               None \<Rightarrow> flatten_snippet cs
             | Some end_index \<Rightarrow>
                 (case position (\<lambda>x. x = 58) (take end_index inner) of
                    Some colon \<Rightarrow> drop (colon + 1) (take end_index inner)
                  | None \<Rightarrow> []) @ flatten_snippet (drop (end_index + 1) inner))
          else flatten_snippet (dropWhile is_ascii_digit cs))"
  by pat_completeness auto
termination
  by (relation "measure length") (auto simp: less_Suc_eq_le le_diff_conv intro: order_trans [OF length_dropWhile_le])

record language_range =
  lr_start :: lsp_position
  lr_end :: lsp_position

text \<open>The derived deserializers: a record is read from an object by names, or from an array in order.\<close>

definition json_u32 :: "json \<Rightarrow> u32 option" where
  "json_u32 v = Option.bind (json_as_u64 v) (\<lambda>n. if unat n < 2 ^ 32 then Some (ucast n) else None)"

definition json_pair :: "string \<Rightarrow> string \<Rightarrow> json \<Rightarrow> (json \<times> json) option" where
  "json_pair a b v =
     (case v of
        JArray [x, y] \<Rightarrow> Some (x, y)
      | _ \<Rightarrow> (case (json_get v a, json_get v b) of (Some x, Some y) \<Rightarrow> Some (x, y) | _ \<Rightarrow> None))"

definition json_position :: "json \<Rightarrow> lsp_position option" where
  "json_position v =
     Option.bind (json_pair ''line'' ''character'' v) (\<lambda>(l, c).
     Option.bind (json_u32 l) (\<lambda>l. Option.bind (json_u32 c) (\<lambda>c. Some \<lparr>lp_line = l, lp_character = c\<rparr>)))"

definition json_range :: "json \<Rightarrow> language_range option" where
  "json_range v =
     Option.bind (json_pair ''start'' ''end'' v) (\<lambda>(s, e).
     Option.bind (json_position s) (\<lambda>s. Option.bind (json_position e) (\<lambda>e. Some \<lparr>lr_start = s, lr_end = e\<rparr>)))"

record completion_candidate =
  cc_label :: rust_string
  cc_insertion :: rust_string
  cc_range :: "language_range option"

definition or_else :: "'a option \<Rightarrow> 'a option \<Rightarrow> 'a option" where
  "or_else a b = (case a of Some x \<Rightarrow> Some x | None \<Rightarrow> b)"

definition parse_completion_item :: "json \<Rightarrow> completion_candidate option" where
  "parse_completion_item item =
     Option.bind (Option.bind (json_get item ''label'') json_as_str) (\<lambda>label.
     let label = trim label; edit = json_get item ''textEdit'' in
     if label = [] then None
     else
       let raw = (case Option.bind (or_else (Option.bind edit (\<lambda>e. json_get e ''newText'')) (json_get item ''insertText'')) json_as_str of
             Some r \<Rightarrow> r | None \<Rightarrow> label);
           insertion = (if Option.bind (json_get item ''insertTextFormat'') json_as_u64 = Some 2 then flatten_snippet raw else raw)
       in Some \<lparr>cc_label = take 512 label, cc_insertion = take (64 * 1024) insertion,
            cc_range = Option.bind (Option.bind edit (\<lambda>e. json_get e ''range'')) json_range\<rparr>)"

definition parse_completion_items :: "json \<Rightarrow> completion_candidate list" where
  "parse_completion_items result =
     List.map_filter parse_completion_item
       (take 200 (case or_else (json_as_array result) (Option.bind (json_get result ''items'') json_as_array) of
          Some items \<Rightarrow> items | None \<Rightarrow> []))"

section \<open>Definitions\<close>

record definition_location =
  dl_path :: "path option"
  dl_line :: u32
  dl_character :: u32
  dl_external :: bool
  dl_uri :: rust_string

definition json_start :: "json \<Rightarrow> (u32 \<times> u32) option" where
  "json_start st =
     Option.bind (Option.bind (json_get st ''line'') json_u32) (\<lambda>line.
     Option.bind (Option.bind (json_get st ''character'') json_u32) (\<lambda>character. Some (line, character)))"

definition parse_definition :: "(rust_string \<Rightarrow> path option) \<Rightarrow> path \<Rightarrow> json \<Rightarrow> definition_location option" where
  "parse_definition to_file_path workspace_root location =
     Option.bind (Option.bind (or_else (json_get location ''uri'') (json_get location ''targetUri'')) json_as_str) (\<lambda>uri.
     Option.bind (or_else (json_get location ''range'') (json_get location ''targetSelectionRange'')) (\<lambda>range.
     Option.bind (json_get range ''start'') (\<lambda>st.
     Option.bind (json_start st) (\<lambda>(line, character).
     let absolute = to_file_path uri;
         path = Option.bind absolute (\<lambda>p. strip_prefix p workspace_root)
     in Some \<lparr>dl_path = path, dl_line = line, dl_character = character,
          dl_external = (absolute \<noteq> None \<and> path = None), dl_uri = take 2048 uri\<rparr>))))"

definition parse_definitions :: "(rust_string \<Rightarrow> path option) \<Rightarrow> path \<Rightarrow> json \<Rightarrow> definition_location list" where
  "parse_definitions to_file_path workspace_root result =
     List.map_filter (parse_definition to_file_path workspace_root)
       (take 100 (case json_as_array result of Some locations \<Rightarrow> locations | None \<Rightarrow> [result]))"

section \<open>Diagnostics\<close>

datatype diagnostic_severity = SeverityError | SeverityWarning | SeverityInformation | SeverityHint

record published_diagnostic =
  pd_line :: u32
  pd_character :: u32
  pd_severity :: diagnostic_severity
  pd_message :: rust_string
  pd_source :: "rust_string option"

definition severity_from :: "u64 option \<Rightarrow> diagnostic_severity" where
  "severity_from n =
     (if n = Some 1 then SeverityError else if n = Some 2 then SeverityWarning
      else if n = Some 4 then SeverityHint else SeverityInformation)"

definition parse_diagnostic :: "json \<Rightarrow> published_diagnostic option" where
  "parse_diagnostic diagnostic =
     Option.bind (Option.bind (json_get diagnostic ''range'') (\<lambda>r. json_get r ''start'')) (\<lambda>st.
     Option.bind (json_start st) (\<lambda>(line, character).
     Option.bind (Option.bind (json_get diagnostic ''message'') json_as_str) (\<lambda>message.
     Some \<lparr>pd_line = line, pd_character = character,
       pd_severity = severity_from (Option.bind (json_get diagnostic ''severity'') json_as_u64),
       pd_message = message, pd_source = Option.bind (json_get diagnostic ''source'') json_as_str\<rparr>)))"

text \<open>A path that leaves the workspace is refused even when it lies below its root as a text.\<close>

definition parse_publish_diagnostics ::
  "(rust_string \<Rightarrow> path option) \<Rightarrow> json option \<Rightarrow> path \<Rightarrow> (path \<times> u64 option \<times> published_diagnostic list) option" where
  "parse_publish_diagnostics to_file_path params workspace_root =
     Option.bind params (\<lambda>params.
     Option.bind (Option.bind (json_get params ''uri'') json_as_str) (\<lambda>uri.
     Option.bind (to_file_path uri) (\<lambda>absolute.
     Option.bind (strip_prefix absolute workspace_root) (\<lambda>relative.
     if is_absolute relative \<or> lit ''..'' \<in> set (snd (path_components relative)) then None
     else
       Option.bind (Option.bind (json_get params ''diagnostics'') json_as_array) (\<lambda>diagnostics.
       Some (relative, Option.bind (json_get params ''version'') json_as_u64,
         List.map_filter parse_diagnostic (take 2000 diagnostics)))))))"

section \<open>Lemmas\<close>

lemma strip_angle_no_less: "60 \<notin> set (strip_angle inside s)"
  by (induction inside s rule: strip_angle.induct) auto

lemma strip_angle_subset: "set (strip_angle inside s) \<subseteq> set s"
  by (induction inside s rule: strip_angle.induct) auto

lemma split_at_pair_parts: "split_at_pair a b s = Some (label, rest) \<Longrightarrow> s = label @ a # b # rest"
  by (induction a b s arbitrary: label rule: split_at_pair.induct) (auto split: if_splits)

lemma find_markdown_destination_parts:
  assumes "find_markdown_destination s = Some (label, rest)"
  shows "set label \<subseteq> set s" "set rest \<subseteq> set s"
proof -
  obtain destination where d: "split_at_pair 93 40 s = Some (label, destination)" "41 \<in> set destination"
    "rest = tl (dropWhile (\<lambda>c. c \<noteq> 41) destination)"
    using assms by (auto simp: find_markdown_destination_def bind_eq_Some_conv split: if_splits)
  have "set rest \<subseteq> set destination"
    unfolding d(3) by (metis list.set_sel(2) list.sel(2) set_dropWhileD subsetI)
  with split_at_pair_parts [OF d(1)] show "set label \<subseteq> set s" "set rest \<subseteq> set s" by auto
qed

lemma strip_markdown_subset: "set (strip_markdown_destinations s) \<subseteq> set s"
proof (induction s rule: strip_markdown_destinations.induct)
  case 1
  then show ?case by simp
next
  case (2 c cs)
  define image where "image = (if c = 33 \<and> take 1 cs = [91] then find_markdown_destination (tl cs) else None)"
  define link where "link = (if c = 91 then find_markdown_destination cs else None)"
  have step: "strip_markdown_destinations (c # cs) =
      (case image of
         Some (_, rest) \<Rightarrow> strip_markdown_destinations rest
       | None \<Rightarrow>
           (case link of
              Some (label, rest) \<Rightarrow> label @ strip_markdown_destinations rest
            | None \<Rightarrow> c # strip_markdown_destinations cs))"
    unfolding image_def link_def strip_markdown_destinations.simps(2) Let_def by (rule refl)
  show ?case
  proof (cases image)
    case (Some p)
    then obtain label rest where p: "p = (label, rest)" by (cases p) auto
    then have "find_markdown_destination (tl cs) = Some (label, rest)" using Some by (simp add: image_def split: if_splits)
    moreover have "set (tl cs) \<subseteq> set cs" by (cases cs) auto
    ultimately have "set rest \<subseteq> set cs" using find_markdown_destination_parts(2) by blast
    with 2(3) [OF image_def link_def Some p [symmetric]] show ?thesis unfolding step Some p by auto
  next
    case none: None
    show ?thesis
    proof (cases link)
      case (Some p)
      then obtain label rest where p: "p = (label, rest)" by (cases p) auto
      then have "find_markdown_destination cs = Some (label, rest)" using Some by (simp add: link_def split: if_splits)
      with 2(2) [OF image_def link_def none Some p [symmetric]] find_markdown_destination_parts [of cs label rest]
      show ?thesis unfolding step none Some p by auto
    next
      case None
      with 2(1) [OF image_def link_def none None] show ?thesis unfolding step none None by auto
    qed
  qed
qed

lemma length_map_filter: "length (List.map_filter f (take n xs)) \<le> n"
proof -
  have "length (List.map_filter f ys) \<le> length ys" for ys
    by (induction ys) (auto simp: List.map_filter_simps split: option.split)
  from this [of "take n xs"] show ?thesis by simp
qed

section \<open>Properties\<close>

text \<open>
  A sanitized hover text holds no opening angle bracket, no character the server did not send, and
  at most 256 KiB; but it can still hold a link with its destination, of the server's choice: a link
  inside the label of a link is taken for the end of the outer one.
\<close>

theorem sanitized_hover_texts:
  "60 \<notin> set (sanitize_hover_markdown s) \<and> set (sanitize_hover_markdown s) \<subseteq> set s \<and>
   str_len (sanitize_hover_markdown s) \<le> HOVER_CONTENT_LIMIT \<and>
   sanitize_hover_markdown (lit ''[[here](x)](http://example.org)'') = lit ''[here](http://example.org)''"
proof -
  let ?t = "strip_markdown_destinations (strip_angle_blocks s)"
  have "set (sanitize_hover_markdown s) \<subseteq> set ?t" by (simp add: sanitize_hover_markdown_def set_bounded_text)
  moreover have "set ?t \<subseteq> set (strip_angle_blocks s)" by (rule strip_markdown_subset)
  moreover have "sanitize_hover_markdown (lit ''[[here](x)](http://example.org)'') = lit ''[here](http://example.org)''"
    by (simp add: sanitize_hover_markdown_def lit_def strip_angle_blocks_def find_markdown_destination_def bounded_text_def
        HOVER_CONTENT_LIMIT_def str_len_def len_utf8_def)
  ultimately show ?thesis
    using strip_angle_no_less strip_angle_subset [of False s]
    by (auto simp: strip_angle_blocks_def sanitize_hover_markdown_def bounded_text_len)
qed

text \<open>
  Whatever a server answers, the application keeps at most 200 completions with a label, at most
  100 definitions and at most 2000 diagnostics with bounded texts, and a diagnostic is filed only
  under a path that stays below the workspace root.
\<close>

theorem server_results_are_bounded:
  "length (parse_completion_items result) \<le> 200 \<and>
   list_all (\<lambda>c. cc_label c \<noteq> [] \<and> length (cc_label c) \<le> 512 \<and> length (cc_insertion c) \<le> 64 * 1024) (parse_completion_items result) \<and>
   length (parse_definitions to_file_path root result) \<le> 100 \<and>
   (case parse_publish_diagnostics to_file_path params root of
      None \<Rightarrow> True
    | Some (p, version, diagnostics) \<Rightarrow>
        length diagnostics \<le> 2000 \<and> \<not> is_absolute p \<and> lit ''..'' \<notin> set (snd (path_components p)))"
proof -
  have items: "list_all (\<lambda>c. cc_label c \<noteq> [] \<and> length (cc_label c) \<le> 512 \<and> length (cc_insertion c) \<le> 64 * 1024)
      (List.map_filter parse_completion_item xs)" for xs
    by (induction xs)
      (auto simp: List.map_filter_simps parse_completion_item_def Let_def bind_eq_Some_conv split: option.split if_splits)
  have diagnostics: "case parse_publish_diagnostics to_file_path params root of
      None \<Rightarrow> True
    | Some (p, version, diagnostics) \<Rightarrow>
        length diagnostics \<le> 2000 \<and> \<not> is_absolute p \<and> lit ''..'' \<notin> set (snd (path_components p))"
    by (auto simp: parse_publish_diagnostics_def bind_eq_Some_conv length_map_filter split: option.split if_splits)
  show ?thesis
    using items diagnostics by (simp add: parse_completion_items_def parse_definitions_def length_map_filter)
qed

end
