(* ===== verification/LanguageRuntime.thy ===== *)
theory LanguageRuntime imports LanguageClient begin

text \<open>
  The language servers that run for a workspace (\<open>LanguageRuntime\<close> of \<open>strukt-app/src/language.rs\<close>):
  one process with its client and frame decoder for a language, the effects applied to it, and the
  poll that drives deadlines, pending changes, frames and exits. Processes, the JSON text and file URLs
  are outside: functions of a world that they take and return.
\<close>

section \<open>Texts of errors\<close>

fun language_protocol_error_text :: "protocol_error \<Rightarrow> rust_string" where
  "language_protocol_error_text InvalidJson = lit ''message body is not valid JSON''"
| "language_protocol_error_text InvalidMessage = lit ''message is not an unambiguous JSON-RPC 2.0 message''"
| "language_protocol_error_text RequestIdExhausted = lit ''numeric request identifiers are exhausted''"
| "language_protocol_error_text (DuplicateRequest n) = lit ''request identifier '' @ decimal (unat n) @ lit '' was already registered''"
| "language_protocol_error_text (UnexpectedResponse n) = lit ''response identifier '' @ decimal (unat n) @ lit '' is duplicate or unknown''"
| "language_protocol_error_text TooManyOutstandingRequests = lit ''outstanding request limit reached''"

fun language_client_error_text :: "client_error \<Rightarrow> rust_string" where
  "language_client_error_text NotReady = lit ''language client is not ready''"
| "language_client_error_text InvalidState = lit ''language client state does not allow this operation''"
| "language_client_error_text StaleResponse = lit ''response belongs to stale state''"
| "language_client_error_text UnknownDocument = lit ''document is not synchronized''"
| "language_client_error_text InvalidRevision = lit ''document revision is stale or invalid''"
| "language_client_error_text UnsupportedFeature = lit ''language feature is not supported by the server''"
| "language_client_error_text OutboundQueueFull = lit ''outbound message queue is full''"
| "language_client_error_text TooManyRequests = lit ''outstanding request limit reached''"
| "language_client_error_text (Protocol e) = language_protocol_error_text e"

fun language_frame_error_text :: "frame_error \<Rightarrow> rust_string" where
  "language_frame_error_text InvalidLimits = lit ''frame limits must be non-zero''"
| "language_frame_error_text HeaderTooLarge = lit ''frame header exceeds its byte limit''"
| "language_frame_error_text (BodyTooLarge n) = lit ''frame body exceeds its byte limit: '' @ decimal n @ lit '' bytes declared''"
| "language_frame_error_text MalformedHeader = lit ''frame header is malformed''"
| "language_frame_error_text MissingContentLength = lit ''frame has no Content-Length header''"

section \<open>Processes and state\<close>

text \<open>
  \<open>LanguageProcess\<close>, with errors by their texts, an exit by its code; \<open>serde_json\<close>; and
  \<open>Url::from_file_path\<close>.
\<close>

record ('p, 'w) language_outside =
  lo_write :: "'p \<Rightarrow> byte_string \<Rightarrow> 'w \<Rightarrow> (rust_string + unit) \<times> 'w"
  lo_try_read :: "'p \<Rightarrow> 'w \<Rightarrow> (rust_string + byte_string option) \<times> 'w"
  lo_try_wait :: "'p \<Rightarrow> 'w \<Rightarrow> (rust_string + int option option) \<times> 'w"
  lo_terminate :: "'p \<Rightarrow> duration \<Rightarrow> 'w \<Rightarrow> 'w"
  lo_to_vec :: "json \<Rightarrow> rust_string + byte_string"
  lo_from_slice :: "byte_string \<Rightarrow> json option"
  lo_from_file_path :: "path \<Rightarrow> rust_string option"

datatype language_effect =
    EffectDiscover rust_string rust_string "rust_string option" u64
  | EffectOpen rust_string u64 u64 path u64 rust_string
  | EffectChange rust_string u64 u64 path u64 rust_string
  | EffectSave rust_string u64 u64 path
  | EffectClose rust_string u64 u64 path

datatype language_runtime_event =
    EventReady rust_string u64 position_encoding
  | EventFailed rust_string u64 rust_string
  | EventNotification rust_string u64 rust_string "json option"
  | EventFeatureResponse rust_string u64 feature_request feature_request_kind json
  | EventRequestTimedOut feature_request
  | EventStopped rust_string u64

record 'p running_language =
  rl_generation :: u64
  rl_root :: path
  rl_process :: 'p
  rl_decoder :: language_decoder
  rl_client :: language_client
  rl_initialize_id :: u64
  rl_feature_requests :: "(u64, feature_request) btree"
  rl_shutdown_id :: "u64 option"

type_synonym 'p language_runtime = "(rust_string, 'p running_language) btree"

section \<open>Writing\<close>

definition write_json_value :: "('p, 'w) language_outside \<Rightarrow> 'p \<Rightarrow> json \<Rightarrow> 'w \<Rightarrow> (rust_string + unit) \<times> 'w" where
  "write_json_value lo process message w =
     (case and_then (lo_to_vec lo message) (\<lambda>body. map_err language_frame_error_text (encode_frame body frame_limits_default)) of
        Inl e \<Rightarrow> (Inl e, w)
      | Inr frame \<Rightarrow> lo_write lo process frame w)"

definition write_outbound :: "('p, 'w) language_outside \<Rightarrow> 'p \<Rightarrow> outbound_message \<Rightarrow> 'w \<Rightarrow> (rust_string + unit) \<times> 'w" where
  "write_outbound lo process message w = write_json_value lo process (json_rpc message) w"

text \<open>\<open>flush_client\<close>: the loop takes a message off the queue and writes it, until none is left or a write fails.\<close>

fun flush_messages ::
  "('p, 'w) language_outside \<Rightarrow> outbound_message list \<Rightarrow> 'p running_language \<Rightarrow> 'w \<Rightarrow>
     (rust_string + unit) \<times> 'p running_language \<times> 'w" where
  "flush_messages lo [] running w = (Inr (), running, w)"
| "flush_messages lo (message # messages) running w =
     (let running = running\<lparr>rl_client := (rl_client running)\<lparr>lc_outbound := messages\<rparr>\<rparr> in
      case write_outbound lo (rl_process running) message w of
        (Inl e, w) \<Rightarrow> (Inl e, running, w)
      | (Inr _, w) \<Rightarrow> flush_messages lo messages running w)"

definition flush_client ::
  "('p, 'w) language_outside \<Rightarrow> 'p running_language \<Rightarrow> 'w \<Rightarrow> (rust_string + unit) \<times> 'p running_language \<times> 'w" where
  "flush_client lo running w = flush_messages lo (lc_outbound (rl_client running)) running w"

definition file_uri :: "('p, 'w) language_outside \<Rightarrow> path \<Rightarrow> path \<Rightarrow> rust_string + rust_string" where
  "file_uri lo root relative =
     ok_or (lo_from_file_path lo (path_join root relative)) (lit ''document path could not be represented as a file URI'')"

section \<open>Starting and the effects\<close>

definition finish_start ::
  "('p, 'w) language_outside \<Rightarrow> duration \<Rightarrow> rust_string \<Rightarrow> rust_string \<Rightarrow> u64 \<Rightarrow> path \<Rightarrow> (rust_string + 'p) option \<Rightarrow>
     'p language_runtime \<Rightarrow> 'w \<Rightarrow> (rust_string + unit) \<times> 'p language_runtime \<times> 'w" where
  "finish_start lo now workspace_id language_id generation root completion rt w =
     (case completion of
        None \<Rightarrow> (Inr (), rt, w)
      | Some (Inl e) \<Rightarrow> (Inl e, rt, w)
      | Some (Inr process) \<Rightarrow>
          (case start now (language_client_new workspace_id language_id) of
             (Inl e, _) \<Rightarrow> (Inl (language_client_error_text e), rt, w)
           | (Inr initialize, client) \<Rightarrow>
               (case om_id initialize of
                  None \<Rightarrow> (Inl (lit ''initialize request had no ID''), rt, w)
                | Some initialize_id \<Rightarrow>
                    (case write_outbound lo process initialize w of
                       (Inl e, w) \<Rightarrow> (Inl e, rt, w)
                     | (Inr _, w) \<Rightarrow>
                         (Inr (), bt_insert language_id
                            \<lparr>rl_generation = generation, rl_root = root, rl_process = process,
                             rl_decoder = language_decoder_new frame_limits_default, rl_client = client,
                             rl_initialize_id = initialize_id, rl_feature_requests = bt_empty, rl_shutdown_id = None\<rparr> rt, w)))))"

fun effect_target :: "language_effect \<Rightarrow> (rust_string \<times> u64) option" where
  "effect_target (EffectDiscover _ _ _ _) = None"
| "effect_target (EffectOpen language generation _ _ _ _) = Some (language, generation)"
| "effect_target (EffectChange language generation _ _ _ _) = Some (language, generation)"
| "effect_target (EffectSave language generation _ _) = Some (language, generation)"
| "effect_target (EffectClose language generation _ _) = Some (language, generation)"

text \<open>The client operation an effect stands for, by the URI of its document.\<close>

fun effect_operation ::
  "('p, 'w) language_outside \<Rightarrow> hash_order \<Rightarrow> duration \<Rightarrow> path \<Rightarrow> language_effect \<Rightarrow> language_client \<Rightarrow>
     (rust_string + unit) \<times> language_client" where
  "effect_operation lo order now root (EffectOpen _ _ _ p revision contents) c =
     (case file_uri lo root p of
        Inl e \<Rightarrow> (Inl e, c)
      | Inr uri \<Rightarrow> (case did_open uri revision contents c of (r, c) \<Rightarrow> (map_err language_client_error_text r, c)))"
| "effect_operation lo order now root (EffectChange _ _ _ p revision contents) c =
     (case file_uri lo root p of
        Inl e \<Rightarrow> (Inl e, c)
      | Inr uri \<Rightarrow> (case did_change order uri revision contents now c of (r, c) \<Rightarrow> (map_err language_client_error_text r, c)))"
| "effect_operation lo order now root (EffectSave _ _ _ p) c =
     (case file_uri lo root p of
        Inl e \<Rightarrow> (Inl e, c)
      | Inr uri \<Rightarrow> (case did_save uri c of (r, c) \<Rightarrow> (map_err language_client_error_text r, c)))"
| "effect_operation lo order now root (EffectClose _ _ _ p) c =
     (case file_uri lo root p of
        Inl e \<Rightarrow> (Inl e, c)
      | Inr uri \<Rightarrow> (case did_close order uri now c of (r, c) \<Rightarrow> (map_err language_client_error_text r, c)))"
| "effect_operation lo order now root (EffectDiscover _ _ _ _) c = (Inr (), c)"

fun apply_effects ::
  "('p, 'w) language_outside \<Rightarrow> hash_order \<Rightarrow> duration \<Rightarrow> language_effect list \<Rightarrow> 'p language_runtime \<Rightarrow> 'w \<Rightarrow>
     (rust_string + unit) \<times> 'p language_runtime \<times> 'w" where
  "apply_effects lo order now [] rt w = (Inr (), rt, w)"
| "apply_effects lo order now (effect # effects) rt w =
     (case effect_target effect of
        None \<Rightarrow> apply_effects lo order now effects rt w
      | Some (language, generation) \<Rightarrow>
          (case bt_get rt language of
             None \<Rightarrow> apply_effects lo order now effects rt w
           | Some running \<Rightarrow>
               if rl_generation running \<noteq> generation then apply_effects lo order now effects rt w
               else
                 (case effect_operation lo order now (rl_root running) effect (rl_client running) of
                    (Inl e, c) \<Rightarrow> (Inl e, bt_insert language (running\<lparr>rl_client := c\<rparr>) rt, w)
                  | (Inr _, c) \<Rightarrow>
                      (case flush_client lo (running\<lparr>rl_client := c\<rparr>) w of
                         (Inl e, running, w) \<Rightarrow> (Inl e, bt_insert language running rt, w)
                       | (Inr _, running, w) \<Rightarrow> apply_effects lo order now effects (bt_insert language running rt) w))))"

definition runtime_request_feature ::
  "('p, 'w) language_outside \<Rightarrow> hash_order \<Rightarrow> duration \<Rightarrow> rust_string \<Rightarrow> u64 \<Rightarrow> path \<Rightarrow> u64 \<Rightarrow> feature_request_kind \<Rightarrow>
     lsp_position \<Rightarrow> 'p language_runtime \<Rightarrow> 'w \<Rightarrow> (rust_string + feature_request) \<times> 'p language_runtime \<times> 'w" where
  "runtime_request_feature lo order now language generation p revision kind pos rt w =
     (case bt_get rt language of
        None \<Rightarrow> (Inl (lit ''language server is not running''), rt, w)
      | Some running \<Rightarrow>
          if rl_generation running \<noteq> generation then (Inl (lit ''language server generation is stale''), rt, w)
          else
            (case file_uri lo (rl_root running) p of
               Inl e \<Rightarrow> (Inl e, rt, w)
             | Inr uri \<Rightarrow>
                 (case request_feature order kind uri revision pos now (rl_client running) of
                    (Inl e, c) \<Rightarrow> (Inl (language_client_error_text e), bt_insert language (running\<lparr>rl_client := c\<rparr>) rt, w)
                  | (Inr request, c) \<Rightarrow>
                      (case flush_client lo
                              (running\<lparr>rl_client := c,
                                 rl_feature_requests := bt_insert (fr_id request) request (rl_feature_requests running)\<rparr>) w of
                         (Inl e, running, w) \<Rightarrow> (Inl e, bt_insert language running rt, w)
                       | (Inr _, running, w) \<Rightarrow> (Inr request, bt_insert language running rt, w)))))"

definition runtime_begin_shutdown ::
  "('p, 'w) language_outside \<Rightarrow> duration \<Rightarrow> rust_string \<Rightarrow> u64 \<Rightarrow> 'p language_runtime \<Rightarrow> 'w \<Rightarrow>
     (rust_string + unit) \<times> 'p language_runtime \<times> 'w" where
  "runtime_begin_shutdown lo now language generation rt w =
     (case bt_get rt language of
        None \<Rightarrow> (Inl (lit ''language server is not running''), rt, w)
      | Some running \<Rightarrow>
          if rl_generation running \<noteq> generation then (Inl (lit ''language server generation is stale''), rt, w)
          else
            (case begin_shutdown now (rl_client running) of
               (Inl e, c) \<Rightarrow> (Inl (language_client_error_text e), bt_insert language (running\<lparr>rl_client := c\<rparr>) rt, w)
             | (Inr shutdown, c) \<Rightarrow>
                 (case write_outbound lo (rl_process running) shutdown w of
                    (r, w) \<Rightarrow> (r, bt_insert language (running\<lparr>rl_client := c, rl_shutdown_id := om_id shutdown\<rparr>) rt, w))))"

section \<open>Frames\<close>

definition capabilities_from_initialize :: "json \<Rightarrow> server_capabilities" where
  "capabilities_from_initialize result =
     (let capabilities = json_index result ''capabilities'';
          encoding = (if json_as_str (json_index capabilities ''positionEncoding'') = Some (lit ''utf-8'') then Utf8 else Utf16);
          truth = (\<lambda>name. json_as_bool (json_index capabilities name) = Some True);
          features =
            (if json_index capabilities ''completionProvider'' \<noteq> JNull then [Completion] else []) @
            (if truth ''hoverProvider'' then [Hover] else []) @ (if truth ''definitionProvider'' then [Definition] else []);
          sync = json_index capabilities ''textDocumentSync'';
          save = (case json_get sync ''save'' of
              None \<Rightarrow> False
            | Some v \<Rightarrow> (case json_as_bool v of Some b \<Rightarrow> b | None \<Rightarrow> json_as_object v \<noteq> None))
      in (server_capabilities_new (if sync = JNull then NoSynchronization else FullSynchronization) features encoding)
           \<lparr>cap_save_notifications := save\<rparr>)"

definition handle_frame ::
  "('p, 'w) language_outside \<Rightarrow> rust_string \<Rightarrow> byte_string \<Rightarrow> 'p running_language \<Rightarrow> 'w \<Rightarrow>
     (rust_string + language_runtime_event option) \<times> 'p running_language \<times> 'w" where
  "handle_frame lo language body running w =
     (case parse_message (lo_from_slice lo) body of
        Inl e \<Rightarrow> (Inl (language_protocol_error_text e), running, w)
      | Inr (Response response) \<Rightarrow>
          if rm_id response = rl_initialize_id running then
            (case rm_result response of
               None \<Rightarrow> (Inl (lit ''initialize response contained an error''), running, w)
             | Some result \<Rightarrow>
                 let capabilities = capabilities_from_initialize result in
                 (case accept_initialize (rm_id response) capabilities (rl_client running) of
                    (Inl e, c) \<Rightarrow> (Inl (language_client_error_text e), running\<lparr>rl_client := c\<rparr>, w)
                  | (Inr _, c) \<Rightarrow>
                      (case flush_client lo (running\<lparr>rl_client := c\<rparr>) w of
                         (Inl e, running, w) \<Rightarrow> (Inl e, running, w)
                       | (Inr _, running, w) \<Rightarrow>
                           (Inr (Some (EventReady language (rl_generation running) (cap_position_encoding capabilities))), running, w))))
          else if rl_shutdown_id running = Some (rm_id response) then
            (case accept_shutdown (rm_id response) (rl_client running) of
               (Inl e, c) \<Rightarrow> (Inl (language_client_error_text e), running\<lparr>rl_client := c\<rparr>, w)
             | (Inr _, c) \<Rightarrow>
                 (case flush_client lo (running\<lparr>rl_client := c, rl_shutdown_id := None\<rparr>) w of
                    (Inl e, running, w) \<Rightarrow> (Inl e, running, w)
                  | (Inr _, running, w) \<Rightarrow> (Inr None, running, w)))
          else
            (case bt_get (rl_feature_requests running) (rm_id response) of
               None \<Rightarrow> (Inr None, running, w)
             | Some request \<Rightarrow>
                 let running = running\<lparr>rl_feature_requests := bt_remove (rm_id response) (rl_feature_requests running)\<rparr> in
                 (case accept_feature_response request (rl_client running) of
                    (Stale, c) \<Rightarrow> (Inr None, running\<lparr>rl_client := c\<rparr>, w)
                  | (Applied, c) \<Rightarrow>
                      (Inr (Some (EventFeatureResponse language (rl_generation running) request (fr_kind request)
                         (case rm_result response of Some v \<Rightarrow> v | None \<Rightarrow> JNull))), running\<lparr>rl_client := c\<rparr>, w)))
      | Inr (Notification notification) \<Rightarrow>
          (Inr (Some (EventNotification language (rl_generation running) (nm_method notification) (nm_params notification))), running, w)
      | Inr (IncomingRequest request) \<Rightarrow>
          let response =
            (case handle_server_request (qm_method request) of
               Configuration values \<Rightarrow>
                 jobject [(''jsonrpc'', jstr ''2.0''), (''id'', jnum (qm_id request)), (''result'', JArray values)]
             | MethodNotFound \<Rightarrow>
                 jobject [(''jsonrpc'', jstr ''2.0''), (''id'', jnum (qm_id request)),
                   (''error'', jobject [(''code'', JNumber (NegInt (- 32601))), (''message'', jstr ''Method not found'')])])
          in (case write_json_value lo (rl_process running) response w of
                (Inl e, w) \<Rightarrow> (Inl e, running, w)
              | (Inr _, w) \<Rightarrow> (Inr None, running, w)))"

text \<open>The events and failures a poll collects; the loop over the frames of one read ends at the first that fails.\<close>

type_synonym poll_log = "language_runtime_event list \<times> (rust_string \<times> u64 \<times> rust_string) list"

fun handle_frames ::
  "('p, 'w) language_outside \<Rightarrow> rust_string \<Rightarrow> byte_string list \<Rightarrow> poll_log \<Rightarrow> 'p running_language \<Rightarrow> 'w \<Rightarrow>
     poll_log \<times> 'p running_language \<times> 'w" where
  "handle_frames lo language [] log running w = (log, running, w)"
| "handle_frames lo language (body # bodies) (events, failed) running w =
     (case handle_frame lo language body running w of
        (Inr (Some event), running, w) \<Rightarrow> handle_frames lo language bodies (events @ [event], failed) running w
      | (Inr None, running, w) \<Rightarrow> handle_frames lo language bodies (events, failed) running w
      | (Inl e, running, w) \<Rightarrow> ((events, failed @ [(language, rl_generation running, e)]), running, w))"

text \<open>The 64 reads of a poll; a failing frame does not end them. \<open>None\<close> when the decoder does not return.\<close>

fun read_frames ::
  "('p, 'w) language_outside \<Rightarrow> rust_string \<Rightarrow> nat \<Rightarrow> poll_log \<Rightarrow> 'p running_language \<Rightarrow> 'w \<Rightarrow>
     (poll_log \<times> 'p running_language \<times> 'w) option" where
  "read_frames lo language 0 log running w = Some (log, running, w)"
| "read_frames lo language (Suc reads) (events, failed) running w =
     (case lo_try_read lo (rl_process running) w of
        (Inl e, w) \<Rightarrow> Some ((events, failed @ [(language, rl_generation running, e)]), running, w)
      | (Inr None, w) \<Rightarrow> Some ((events, failed), running, w)
      | (Inr (Some bytes), w) \<Rightarrow>
          (case language_push bytes (rl_decoder running) of
             None \<Rightarrow> None
           | Some (Inl e, decoder) \<Rightarrow>
               Some ((events, failed @ [(language, rl_generation running, language_frame_error_text e)]),
                 running\<lparr>rl_decoder := decoder\<rparr>, w)
           | Some (Inr frames, decoder) \<Rightarrow>
               (case handle_frames lo language frames (events, failed) (running\<lparr>rl_decoder := decoder\<rparr>) w of
                  (log, running, w) \<Rightarrow> read_frames lo language reads log running w)))"

section \<open>Polling\<close>

text \<open>What the timeouts of a client mean to its process: events, and the text of a terminal one.\<close>

fun take_timeouts ::
  "client_timeout list \<Rightarrow> language_runtime_event list \<Rightarrow> rust_string option \<Rightarrow> 'p running_language \<Rightarrow>
     language_runtime_event list \<times> rust_string option \<times> 'p running_language" where
  "take_timeouts [] events terminal running = (events, terminal, running)"
| "take_timeouts (InitializeTimeout # timeouts) events terminal running =
     take_timeouts timeouts events (Some (lit ''language server initialization timed out'')) running"
| "take_timeouts (RequestTimeout n # timeouts) events terminal running =
     (case bt_get (rl_feature_requests running) n of
        None \<Rightarrow> take_timeouts timeouts events terminal running
      | Some request \<Rightarrow>
          take_timeouts timeouts (events @ [EventRequestTimedOut request]) terminal
            (running\<lparr>rl_feature_requests := bt_remove n (rl_feature_requests running)\<rparr>))"
| "take_timeouts (ShutdownTimeout # timeouts) events terminal running = take_timeouts timeouts events (Some []) running"
| "take_timeouts (IdleShutdown # timeouts) events terminal running =
     take_timeouts timeouts events terminal (running\<lparr>rl_shutdown_id := lc_shutdown_id (rl_client running)\<rparr>)"

text \<open>\<open>{:?}\<close> of an exit code.\<close>

definition exit_code_text :: "int option \<Rightarrow> rust_string" where
  "exit_code_text code =
     (case code of
        None \<Rightarrow> lit ''None''
      | Some n \<Rightarrow> lit ''Some('' @ (if n < 0 then lit ''-'' else []) @ decimal (nat (abs n)) @ lit '')'')"

text \<open>One language: its deadlines, its pending changes, its frames, its exit.\<close>

definition poll_language ::
  "('p, 'w) language_outside \<Rightarrow> duration \<Rightarrow> rust_string \<Rightarrow> 'p running_language \<Rightarrow> 'w \<Rightarrow>
     (poll_log \<times> (rust_string \<times> u64) list \<times> 'p running_language \<times> 'w) option" where
  "poll_language lo now language running w =
     (case poll_timeouts now (rl_client running) of (timeouts, c) \<Rightarrow>
      case take_timeouts timeouts [] None (running\<lparr>rl_client := c\<rparr>) of (events, terminal, running) \<Rightarrow>
      case terminal of
        Some message \<Rightarrow>
          let w = lo_terminate lo (rl_process running) 0 w in
          Some (if message = [] then ((events, []), [(language, rl_generation running)], running, w)
                else ((events, [(language, rl_generation running, message)]), [], running, w))
      | None \<Rightarrow>
          (case flush_client lo (running\<lparr>rl_client := snd (flush_changes now (rl_client running))\<rparr>) w of
             (Inl e, running, w) \<Rightarrow> Some ((events, [(language, rl_generation running, e)]), [], running, w)
           | (Inr _, running, w) \<Rightarrow>
               (case read_frames lo language 64 (events, []) running w of
                  None \<Rightarrow> None
                | Some ((events, failed), running, w) \<Rightarrow>
                    (case lo_try_wait lo (rl_process running) w of
                       (Inr (Some code), w) \<Rightarrow>
                         if rl_shutdown_id running = None \<and> lc_state (rl_client running) = Stopping
                         then Some ((events, failed), [(language, rl_generation running)],
                                running\<lparr>rl_client := finish_shutdown (rl_client running)\<rparr>, w)
                         else Some ((events, failed @ [(language, rl_generation running,
                                lit ''language server exited with '' @ exit_code_text code)]), [], running, w)
                     | (_, w) \<Rightarrow> Some ((events, failed), [], running, w)))))"

fun poll_languages ::
  "('p, 'w) language_outside \<Rightarrow> duration \<Rightarrow> rust_string list \<Rightarrow> poll_log \<times> (rust_string \<times> u64) list \<Rightarrow>
     'p language_runtime \<Rightarrow> 'w \<Rightarrow> (poll_log \<times> (rust_string \<times> u64) list \<times> 'p language_runtime \<times> 'w) option" where
  "poll_languages lo now [] (log, stopped) rt w = Some (log, stopped, rt, w)"
| "poll_languages lo now (language # languages) ((events, failed), stopped) rt w =
     (case bt_get rt language of
        None \<Rightarrow> poll_languages lo now languages ((events, failed), stopped) rt w
      | Some running \<Rightarrow>
          (case poll_language lo now language running w of
             None \<Rightarrow> None
           | Some ((events', failed'), stopped', running, w) \<Rightarrow>
               poll_languages lo now languages ((events @ events', failed @ failed'), stopped @ stopped')
                 (bt_insert language running rt) w))"

text \<open>\<open>poll_at\<close>; \<open>order\<close> is the order in which the hash map of processes gives its keys.\<close>

definition poll_at ::
  "('p, 'w) language_outside \<Rightarrow> (rust_string list \<Rightarrow> rust_string list) \<Rightarrow> duration \<Rightarrow> 'p language_runtime \<Rightarrow> 'w \<Rightarrow>
     (language_runtime_event list \<times> 'p language_runtime \<times> 'w) option" where
  "poll_at lo order now rt w =
     map_option (\<lambda>((events, failed), stopped, rt, w).
         (events @ map (\<lambda>(language, generation). EventStopped language generation) stopped @
            map (\<lambda>(language, generation, message). EventFailed language generation message) failed,
          fold bt_remove (map fst failed) (fold bt_remove (map fst stopped) rt), w))
       (poll_languages lo now (order (bt_keys rt)) (([], []), []) rt w)"

end
