(* ===== verification/LanguageCoordinator.thy ===== *)
theory LanguageCoordinator imports LanguageStore LanguageFeatures LanguageRuntime "HOL-Library.Product_Lexorder" begin

text \<open>
  What the application knows of documents and language servers (\<open>LanguageCoordinator\<close> of
  \<open>strukt-app/src/language.rs\<close>), with the detection of a document's language
  (\<open>strukt-editor/src/grammar.rs\<close>). Hash maps are finite maps; where the code goes through one, the
  order it meets is an argument.
\<close>

section \<open>Grammars\<close>

record grammar_descriptor =
  gd_id :: rust_string
  gd_display_name :: rust_string
  gd_extensions :: "rust_string list"
  gd_exact_file_names :: "rust_string list"
  gd_iced_token :: rust_string

definition grammar :: "string \<Rightarrow> string \<Rightarrow> string list \<Rightarrow> string list \<Rightarrow> string \<Rightarrow> grammar_descriptor" where
  "grammar ident display extensions names token =
     \<lparr>gd_id = lit ident, gd_display_name = lit display, gd_extensions = map lit extensions,
      gd_exact_file_names = map lit names, gd_iced_token = lit token\<rparr>"

definition PLAIN_TEXT_GRAMMAR :: grammar_descriptor where
  "PLAIN_TEXT_GRAMMAR = grammar ''plain-text'' ''Plain Text'' [''txt''] [] ''Plain Text''"

definition GRAMMARS :: "grammar_descriptor list" where
  "GRAMMARS =
    [grammar ''rust'' ''Rust'' [''rs''] [] ''Rust'',
     grammar ''javascript'' ''JavaScript'' [''js'', ''jsx'', ''mjs'', ''cjs''] [] ''JavaScript'',
     grammar ''typescript'' ''TypeScript'' [''ts'', ''tsx'', ''mts'', ''cts''] [] ''TypeScript'',
     grammar ''python'' ''Python'' [''py'', ''pyi''] [] ''Python'',
     grammar ''json'' ''JSON'' [''json'', ''jsonc''] [''package-lock.json'', ''tsconfig.json''] ''JSON'',
     grammar ''toml'' ''TOML'' [''toml''] [''Cargo.lock''] ''TOML'',
     grammar ''markdown'' ''Markdown'' [''md'', ''markdown'', ''mdx'']
       [''README'', ''CHANGELOG'', ''CONTRIBUTING'', ''LICENSE''] ''Markdown'',
     grammar ''shell'' ''Shell'' [''sh'', ''bash'', ''zsh'', ''fish'']
       [''.bashrc'', ''.bash_profile'', ''.zshrc'', ''.profile''] ''Bourne Again Shell (bash)'',
     grammar ''yaml'' ''YAML'' [''yaml'', ''yml''] [''docker-compose.yml'', ''docker-compose.yaml''] ''YAML'',
     grammar ''html'' ''HTML'' [''html'', ''htm''] [] ''HTML'',
     grammar ''css'' ''CSS'' [''css'', ''scss'', ''sass'', ''less''] [] ''CSS'',
     PLAIN_TEXT_GRAMMAR]"

definition by_id :: "rust_string \<Rightarrow> grammar_descriptor option" where
  "by_id ident = find (\<lambda>g. gd_id g = ident) GRAMMARS"

text \<open>\<open>Path::file_name\<close> and \<open>Path::extension\<close>: what follows the last dot of a name that does not begin with it.\<close>

definition file_name :: "path \<Rightarrow> rust_string option" where
  "file_name p =
     (case last_opt (snd (path_components p)) of
        Some name \<Rightarrow> if name = lit ''.'' \<or> name = lit ''..'' then None else Some name
      | None \<Rightarrow> None)"

definition extension :: "path \<Rightarrow> rust_string option" where
  "extension p =
     Option.bind (file_name p) (\<lambda>name.
       case split_on 46 name of
         [_] \<Rightarrow> None
       | parts \<Rightarrow> if butlast parts = [[]] then None else Some (last parts))"

definition detect_grammar :: "path \<Rightarrow> rust_string option \<Rightarrow> grammar_descriptor" where
  "detect_grammar p override =
     (case override of
        Some ident \<Rightarrow> (case by_id ident of Some g \<Rightarrow> g | None \<Rightarrow> PLAIN_TEXT_GRAMMAR)
      | None \<Rightarrow>
          (case Option.bind (file_name p) (\<lambda>name. find (\<lambda>g. name \<in> set (gd_exact_file_names g)) GRAMMARS) of
             Some g \<Rightarrow> g
           | None \<Rightarrow>
               (case extension p of
                  Some e \<Rightarrow>
                    (case find (\<lambda>g. list_ex (\<lambda>candidate. eq_ignore_ascii_case candidate e) (gd_extensions g)) GRAMMARS of
                       Some g \<Rightarrow> g | None \<Rightarrow> PLAIN_TEXT_GRAMMAR)
                | None \<Rightarrow> PLAIN_TEXT_GRAMMAR)))"

definition detect_language :: "path \<Rightarrow> rust_string option \<Rightarrow> rust_string" where
  "detect_language p override = (case override of Some l \<Rightarrow> l | None \<Rightarrow> gd_id (detect_grammar p None))"

section \<open>Discovery for a workspace\<close>

datatype discovery_completion =
    CompletionAvailable discovered_server
  | CompletionApprovalRequired discovered_server
  | CompletionUnavailable
  | CompletionDisabled

text \<open>The workspace's registry and the outcome of \<open>discover\<close> for the chosen descriptor, with the texts of their errors.\<close>

definition discover_workspace_language ::
  "(byte_string \<Rightarrow> byte_string) \<Rightarrow> executables \<Rightarrow> (discovery_error \<Rightarrow> rust_string) \<Rightarrow> rust_string option \<Rightarrow>
     rust_string \<Rightarrow> discovery_error + descriptor_registry option \<Rightarrow> rust_string \<Rightarrow> rust_string option \<Rightarrow>
     approval_snapshot list \<Rightarrow> rust_string + discovery_completion" where
  "discover_workspace_language blake3 canonical_executable error_text path_env workspace loaded language descriptor_id approvals =
     and_then (map_err (\<lambda>e. error_text (DiscoveryDescriptor e)) built_in_descriptors) (\<lambda>builtins.
     and_then (map_err error_text loaded) (\<lambda>workspace_registry.
     case or_else
        (Option.bind descriptor_id (\<lambda>ident.
           or_else (Option.bind workspace_registry (find (\<lambda>d. de_id d = ident))) (find (\<lambda>d. de_id d = ident) builtins)))
        (for_language builtins language) of
       None \<Rightarrow> Inr CompletionUnavailable
     | Some descriptor \<Rightarrow>
         and_then (map_err error_text (discover blake3 canonical_executable descriptor path_env workspace Unreviewed)) (\<lambda>outcome.
         Inr (case outcome of
             Available server \<Rightarrow> CompletionAvailable server
           | ApprovalRequired server \<Rightarrow>
               if list_ex (\<lambda>approval. ap_language_id approval = language \<and> approval_matches blake3 approval (dv_command server)) approvals
               then CompletionAvailable server else CompletionApprovalRequired server
           | Unavailable _ \<Rightarrow> CompletionUnavailable
           | Disabled \<Rightarrow> CompletionDisabled))))"

section \<open>State\<close>

datatype language_state =
    ServerStopped | ServerDiscovering | ServerUnavailable | ServerApprovalRequired
  | ServerDisabled | ServerStarting | ServerReady | ServerFailed

record document_binding =
  db_path :: path
  db_language_override :: "rust_string option"
  db_language_id :: rust_string
  db_revision :: u64
  db_text :: rust_string
  db_eligible :: bool

record server_binding =
  sb_state :: language_state
  sb_generation :: u64
  sb_position_encoding :: position_encoding
  sb_pending_approval :: "discovered_server option"
  sb_last_error :: "rust_string option"
  sb_shutdown_pending :: bool

definition server_default :: server_binding where
  "server_default = \<lparr>sb_state = ServerStopped, sb_generation = 0, sb_position_encoding = Utf16,
     sb_pending_approval = None, sb_last_error = None, sb_shutdown_pending = False\<rparr>"

record problem =
  pb_document_id :: u64
  pb_path :: path
  pb_line :: u32
  pb_character :: u32
  pb_severity :: diagnostic_severity
  pb_message :: rust_string
  pb_source :: "rust_string option"

record problem_counts =
  pc_errors :: nat
  pc_warnings :: nat
  pc_information :: nat
  pc_hints :: nat

record feature_guard =
  fg_document_id :: u64
  fg_revision :: u64
  fg_generation :: u64
  fg_kind :: feature_request_kind
  fg_position :: lsp_position

record request_context =
  rq_language_id :: rust_string
  rq_generation :: u64
  rq_path :: path
  rq_revision :: u64

datatype problem_filter = AllProblems | OnlyErrors | OnlyWarnings

record diagnostic_set =
  ds_language_id :: rust_string
  ds_generation :: u64
  ds_problems :: "problem list"

record coordinator =
  lg_workspace_id :: rust_string
  lg_selections :: "(rust_string, language_selection) btree"
  lg_approvals :: "approval_snapshot list"
  lg_problems_visible :: bool
  lg_documents :: "(u64, document_binding) btree"
  lg_servers :: "(rust_string, server_binding) btree"
  lg_diagnostics :: "(u64, diagnostic_set) btree"
  lg_problem_filter :: problem_filter
  lg_feature_guards :: "(u64, feature_guard) btree"
  lg_completion_document :: "(u64 \<times> u64) option"
  lg_completion_items :: "completion_candidate list"
  lg_hover_text :: "rust_string option"
  lg_definition_document :: "u64 option"
  lg_definition_locations :: "definition_location list"
  lg_persistence_dirty :: bool

definition coordinator_new :: "rust_string \<Rightarrow> coordinator" where
  "coordinator_new workspace =
     \<lparr>lg_workspace_id = workspace, lg_selections = bt_empty, lg_approvals = [], lg_problems_visible = False,
      lg_documents = bt_empty, lg_servers = bt_empty, lg_diagnostics = bt_empty, lg_problem_filter = AllProblems,
      lg_feature_guards = bt_empty, lg_completion_document = None, lg_completion_items = [], lg_hover_text = None,
      lg_definition_document = None, lg_definition_locations = [], lg_persistence_dirty = False\<rparr>"

definition coordinator_restore :: "rust_string \<Rightarrow> restored_language_session \<Rightarrow> coordinator" where
  "coordinator_restore workspace restored =
     (coordinator_new workspace)
       \<lparr>lg_selections := fold (\<lambda>s. bt_insert (ls_language_id s) s) (rs_selections restored) bt_empty,
        lg_approvals := rs_approvals restored, lg_problems_visible := rs_problems_visible restored\<rparr>"

section \<open>Features that are shown\<close>

text \<open>\<open>HashMap::retain\<close>.\<close>

definition bt_retain :: "('k::linorder \<Rightarrow> 'v \<Rightarrow> bool) \<Rightarrow> ('k, 'v) btree \<Rightarrow> ('k, 'v) btree" where
  "bt_retain keep m = fold bt_remove (map fst (filter (\<lambda>(k, v). \<not> keep k v) (bt_entries m))) m"

definition clear_features_for_document :: "u64 \<Rightarrow> coordinator \<Rightarrow> coordinator" where
  "clear_features_for_document d g =
     (let g = g\<lparr>lg_feature_guards := bt_retain (\<lambda>_ guard. fg_document_id guard \<noteq> d) (lg_feature_guards g)\<rparr>;
          g = (if map_option fst (lg_completion_document g) = Some d
               then g\<lparr>lg_completion_document := None, lg_completion_items := []\<rparr> else g);
          g = (if lg_definition_document g = Some d
               then g\<lparr>lg_definition_document := None, lg_definition_locations := []\<rparr> else g)
      in g\<lparr>lg_hover_text := None\<rparr>)"

definition clear_transient_features :: "coordinator \<Rightarrow> coordinator" where
  "clear_transient_features g =
     g\<lparr>lg_feature_guards := bt_empty, lg_completion_document := None, lg_completion_items := [], lg_hover_text := None,
       lg_definition_document := None, lg_definition_locations := []\<rparr>"

definition has_transient_features :: "coordinator \<Rightarrow> bool" where
  "has_transient_features g \<longleftrightarrow>
     lg_completion_document g \<noteq> None \<or> lg_hover_text g \<noteq> None \<or> lg_definition_locations g \<noteq> []"

section \<open>Selections\<close>

definition selection_enabled :: "rust_string \<Rightarrow> coordinator \<Rightarrow> bool" where
  "selection_enabled language g = (case bt_get (lg_selections g) language of None \<Rightarrow> True | Some s \<Rightarrow> ls_enabled s)"

definition selected_descriptor :: "rust_string \<Rightarrow> coordinator \<Rightarrow> rust_string option" where
  "selected_descriptor language g = map_option ls_descriptor_id (bt_get (lg_selections g) language)"

definition descriptor_id_for_language :: "rust_string \<Rightarrow> coordinator \<Rightarrow> rust_string option" where
  "descriptor_id_for_language language g =
     or_else (selected_descriptor language g)
       (case built_in_descriptors of
          Inl _ \<Rightarrow> None
        | Inr registry \<Rightarrow> map_option de_id (for_language registry language))"

text \<open>\<open>HashMap::entry(\<dots>).or_default()\<close>, and a server put back.\<close>

definition server_entry :: "rust_string \<Rightarrow> coordinator \<Rightarrow> server_binding" where
  "server_entry language g = (case bt_get (lg_servers g) language of Some s \<Rightarrow> s | None \<Rightarrow> server_default)"

definition put_server :: "rust_string \<Rightarrow> server_binding \<Rightarrow> coordinator \<Rightarrow> coordinator" where
  "put_server language s g = g\<lparr>lg_servers := bt_insert language s (lg_servers g)\<rparr>"

definition ensure_language_started :: "rust_string \<Rightarrow> coordinator \<Rightarrow> language_effect list \<times> coordinator" where
  "ensure_language_started language g =
     (let s = server_entry language g in
      if sb_state s \<notin> {ServerStopped, ServerUnavailable, ServerFailed} then ([], put_server language s g)
      else
        let s = s\<lparr>sb_generation := sb_generation s + 1, sb_state := ServerDiscovering\<rparr> in
        ([EffectDiscover (lg_workspace_id g) language (selected_descriptor language g) (sb_generation s)],
         put_server language s g))"

section \<open>Documents\<close>

definition open_document ::
  "u64 \<Rightarrow> path \<Rightarrow> rust_string option \<Rightarrow> u64 \<Rightarrow> rust_string option \<Rightarrow> coordinator \<Rightarrow> language_effect list \<times> coordinator" where
  "open_document d p override revision contents g =
     (let language = detect_language p override;
          eligible = (contents \<noteq> None \<and> language \<noteq> lit ''plain-text'');
          body = (case contents of Some s \<Rightarrow> s | None \<Rightarrow> []);
          g = g\<lparr>lg_documents := bt_insert d \<lparr>db_path = p, db_language_override = override, db_language_id = language,
                 db_revision = revision, db_text = body, db_eligible = eligible\<rparr> (lg_documents g)\<rparr>
      in if \<not> eligible \<or> \<not> selection_enabled language g then ([], g)
      else case bt_get (lg_servers g) language of
        Some s \<Rightarrow>
          if sb_state s = ServerReady then ([EffectOpen language (sb_generation s) d p revision body], g)
          else ensure_language_started language g
      | None \<Rightarrow> ensure_language_started language g)"

definition edit_document :: "u64 \<Rightarrow> u64 \<Rightarrow> rust_string \<Rightarrow> coordinator \<Rightarrow> language_effect list \<times> coordinator" where
  "edit_document d revision contents g =
     (let g = clear_features_for_document d g in
      case bt_get (lg_documents g) d of
        None \<Rightarrow> ([], g)
      | Some binding \<Rightarrow>
          let g = g\<lparr>lg_documents := bt_insert d (binding\<lparr>db_revision := revision, db_text := contents\<rparr>) (lg_documents g)\<rparr> in
          case bt_get (lg_servers g) (db_language_id binding) of
            None \<Rightarrow> ([], g)
          | Some s \<Rightarrow>
              (if db_eligible binding \<and> sb_state s = ServerReady
               then [EffectChange (db_language_id binding) (sb_generation s) d (db_path binding) revision contents] else [], g))"

definition save_document :: "u64 \<Rightarrow> coordinator \<Rightarrow> language_effect list" where
  "save_document d g =
     (case bt_get (lg_documents g) d of
        None \<Rightarrow> []
      | Some binding \<Rightarrow>
          (case bt_get (lg_servers g) (db_language_id binding) of
             None \<Rightarrow> []
           | Some s \<Rightarrow>
               if db_eligible binding \<and> sb_state s = ServerReady
               then [EffectSave (db_language_id binding) (sb_generation s) d (db_path binding)] else []))"

definition close_document :: "u64 \<Rightarrow> coordinator \<Rightarrow> language_effect list \<times> coordinator" where
  "close_document d g =
     (let g = clear_features_for_document d (g\<lparr>lg_diagnostics := bt_remove d (lg_diagnostics g)\<rparr>) in
      case bt_get (lg_documents g) d of
        None \<Rightarrow> ([], g)
      | Some binding \<Rightarrow>
          let g = g\<lparr>lg_documents := bt_remove d (lg_documents g)\<rparr> in
          case bt_get (lg_servers g) (db_language_id binding) of
            None \<Rightarrow> ([], g)
          | Some s \<Rightarrow>
              (if db_eligible binding \<and> sb_state s \<in> {ServerDiscovering, ServerStarting, ServerReady}
               then [EffectClose (db_language_id binding) (sb_generation s) d (db_path binding)] else [], g))"

definition set_override :: "u64 \<Rightarrow> rust_string option \<Rightarrow> coordinator \<Rightarrow> language_effect list \<times> coordinator" where
  "set_override d override g =
     (case bt_get (lg_documents g) d of
        None \<Rightarrow> ([], g)
      | Some previous \<Rightarrow>
          (case close_document d g of (closing, g) \<Rightarrow>
           case open_document d (db_path previous) override (db_revision previous)
               (if db_eligible previous then Some (db_text previous) else None) g of (opening, g) \<Rightarrow>
           (closing @ opening,
            (case bt_get (lg_documents g) d of
               None \<Rightarrow> g
             | Some binding \<Rightarrow>
                 g\<lparr>lg_documents := bt_insert d (binding\<lparr>db_language_override := override\<rparr>) (lg_documents g)\<rparr>))))"

section \<open>Starting a server\<close>

text \<open>What the three answers to a discovery have in common: the workspace, the generation and the state it is for.\<close>

definition discovering :: "rust_string \<Rightarrow> rust_string \<Rightarrow> u64 \<Rightarrow> coordinator \<Rightarrow> server_binding option" where
  "discovering workspace language generation g =
     (case bt_get (lg_servers g) language of
        None \<Rightarrow> None
      | Some s \<Rightarrow>
          if lg_workspace_id g \<noteq> workspace \<or> sb_generation s \<noteq> generation \<or> sb_state s \<noteq> ServerDiscovering then None else Some s)"

definition discovery_available :: "rust_string \<Rightarrow> rust_string \<Rightarrow> u64 \<Rightarrow> coordinator \<Rightarrow> bool \<times> coordinator" where
  "discovery_available workspace language generation g =
     (case discovering workspace language generation g of
        None \<Rightarrow> (False, g)
      | Some s \<Rightarrow> (True, put_server language (s\<lparr>sb_state := ServerStarting\<rparr>) g))"

definition discovery_finished ::
  "rust_string \<Rightarrow> rust_string \<Rightarrow> u64 \<Rightarrow> language_state \<Rightarrow> coordinator \<Rightarrow> bool \<times> coordinator" where
  "discovery_finished workspace language generation state g =
     (case discovering workspace language generation g of
        None \<Rightarrow> (False, g)
      | Some s \<Rightarrow> (True, put_server language (s\<lparr>sb_state := state, sb_pending_approval := None\<rparr>) g))"

definition discovery_requires_approval ::
  "rust_string \<Rightarrow> rust_string \<Rightarrow> u64 \<Rightarrow> discovered_server \<Rightarrow> coordinator \<Rightarrow> bool \<times> coordinator" where
  "discovery_requires_approval workspace language generation discovered g =
     (case discovering workspace language generation g of
        None \<Rightarrow> (False, g)
      | Some s \<Rightarrow>
          (True, put_server language (s\<lparr>sb_state := ServerApprovalRequired, sb_pending_approval := Some discovered\<rparr>) g))"

definition forget_approval :: "rust_string \<Rightarrow> approval_snapshot list \<Rightarrow> approval_snapshot list" where
  "forget_approval language approvals = filter (\<lambda>a. ap_language_id a \<noteq> language) approvals"

text \<open>
  \<open>approve\<close> takes the pending server before it makes the approval, so one with an invalid language
  loses it.
\<close>

definition approve ::
  "(byte_string \<Rightarrow> byte_string) \<Rightarrow> rust_string \<Rightarrow> coordinator \<Rightarrow> (u64 \<times> discovered_server) option \<times> coordinator" where
  "approve blake3 language g =
     (case bt_get (lg_servers g) language of
        None \<Rightarrow> (None, g)
      | Some s \<Rightarrow>
          if sb_state s \<noteq> ServerApprovalRequired then (None, g)
          else
            (case sb_pending_approval s of
               None \<Rightarrow> (None, g)
             | Some discovered \<Rightarrow>
                 let s = s\<lparr>sb_pending_approval := None\<rparr> in
                 (case approval_new language (fingerprint blake3 (dv_command discovered)) of
                    Inl _ \<Rightarrow> (None, put_server language s g)
                  | Inr approval \<Rightarrow>
                      (Some (sb_generation s, discovered),
                       put_server language (s\<lparr>sb_state := ServerStarting\<rparr>)
                         (g\<lparr>lg_approvals := forget_approval language (lg_approvals g) @ [approval], lg_persistence_dirty := True\<rparr>)))))"

definition deny :: "rust_string \<Rightarrow> coordinator \<Rightarrow> bool \<times> coordinator" where
  "deny language g =
     (case bt_get (lg_servers g) language of
        None \<Rightarrow> (False, g)
      | Some s \<Rightarrow>
          if sb_state s \<noteq> ServerApprovalRequired then (False, g)
          else
            (True, put_server language (s\<lparr>sb_pending_approval := None, sb_state := ServerDisabled\<rparr>)
               (g\<lparr>lg_approvals := forget_approval language (lg_approvals g), lg_persistence_dirty := True\<rparr>)))"

definition retry :: "rust_string \<Rightarrow> coordinator \<Rightarrow> language_effect list \<times> coordinator" where
  "retry language g =
     (case bt_get (lg_servers g) language of
        None \<Rightarrow> ([], g)
      | Some s \<Rightarrow>
          if sb_state s \<notin> {ServerUnavailable, ServerDisabled, ServerFailed} then ([], g)
          else
            let s = s\<lparr>sb_generation := sb_generation s + 1, sb_state := ServerDiscovering, sb_pending_approval := None\<rparr> in
            ([EffectDiscover (lg_workspace_id g) language (selected_descriptor language g) (sb_generation s)],
             put_server language s g))"

text \<open>The command as it is shown: at most 512 characters of it.\<close>

definition approval_command :: "rust_string \<Rightarrow> coordinator \<Rightarrow> rust_string option" where
  "approval_command language g =
     Option.bind (bt_get (lg_servers g) language) (\<lambda>s.
     Option.bind (sb_pending_approval s) (\<lambda>discovered.
     Some (take 512 (rc_executable (dv_command discovered) @
       concat (map (\<lambda>argument. 32 # argument) (rc_arguments (dv_command discovered)))))))"

section \<open>A running server\<close>

definition eligible_for :: "rust_string \<Rightarrow> document_binding \<Rightarrow> bool" where
  "eligible_for language binding \<longleftrightarrow> db_eligible binding \<and> db_language_id binding = language"

text \<open>The documents of a language that a server gets to see, in the order of the hash map.\<close>

definition eligible_documents :: "hash_order \<Rightarrow> rust_string \<Rightarrow> coordinator \<Rightarrow> (u64 \<times> document_binding) list" where
  "eligible_documents order language g =
     List.map_filter (\<lambda>d. case bt_get (lg_documents g) d of
         Some binding \<Rightarrow> if eligible_for language binding then Some (d, binding) else None
       | None \<Rightarrow> None) (order (bt_keys (lg_documents g)))"

definition mark_ready ::
  "hash_order \<Rightarrow> rust_string \<Rightarrow> u64 \<Rightarrow> position_encoding \<Rightarrow> coordinator \<Rightarrow> language_effect list \<times> coordinator" where
  "mark_ready order language generation encoding g =
     (case bt_get (lg_servers g) language of
        None \<Rightarrow> ([], g)
      | Some s \<Rightarrow>
          if sb_generation s \<noteq> generation \<or> sb_state s \<noteq> ServerStarting then ([], g)
          else
            (map (\<lambda>(d, binding). EffectOpen language generation d (db_path binding) (db_revision binding) (db_text binding))
               (eligible_documents order language g),
             put_server language (s\<lparr>sb_state := ServerReady, sb_position_encoding := encoding\<rparr>) g))"

text \<open>The diagnostics of one generation of a server go with it.\<close>

definition drop_diagnostics :: "rust_string \<Rightarrow> u64 \<Rightarrow> coordinator \<Rightarrow> coordinator" where
  "drop_diagnostics language generation g =
     g\<lparr>lg_diagnostics := bt_retain (\<lambda>_ published. ds_language_id published \<noteq> language \<or> ds_generation published \<noteq> generation) (lg_diagnostics g)\<rparr>"

definition fail_with_message :: "rust_string \<Rightarrow> u64 \<Rightarrow> rust_string \<Rightarrow> coordinator \<Rightarrow> bool \<times> coordinator" where
  "fail_with_message language generation message g =
     (case bt_get (lg_servers g) language of
        None \<Rightarrow> (False, g)
      | Some s \<Rightarrow>
          if sb_generation s \<noteq> generation then (False, g)
          else
            (True, clear_transient_features (drop_diagnostics language generation
               (put_server language (s\<lparr>sb_state := ServerFailed, sb_last_error := Some (take 2048 message)\<rparr>) g))))"

definition fail :: "rust_string \<Rightarrow> u64 \<Rightarrow> coordinator \<Rightarrow> bool \<times> coordinator" where
  "fail language generation g = fail_with_message language generation (lit ''language server failed'') g"

definition failure_details :: "rust_string \<Rightarrow> coordinator \<Rightarrow> rust_string option" where
  "failure_details language g = Option.bind (bt_get (lg_servers g) language) sb_last_error"

definition any_eligible :: "rust_string \<Rightarrow> coordinator \<Rightarrow> bool" where
  "any_eligible language g \<longleftrightarrow> list_ex (eligible_for language) (bt_values (lg_documents g))"

definition mark_stopped :: "rust_string \<Rightarrow> u64 \<Rightarrow> coordinator \<Rightarrow> language_effect list \<times> coordinator" where
  "mark_stopped language generation g =
     (let enabled = selection_enabled language g in
      case bt_get (lg_servers g) language of
        None \<Rightarrow> ([], g)
      | Some s \<Rightarrow>
          if sb_generation s \<noteq> generation then ([], g)
          else
            let s = s\<lparr>sb_shutdown_pending := False, sb_state := (if enabled then ServerStopped else ServerDisabled),
                      sb_last_error := None\<rparr>;
                g = clear_transient_features (drop_diagnostics language generation (put_server language s g))
            in if enabled \<and> any_eligible language g then ensure_language_started language g else ([], g))"

definition select_language :: "rust_string \<Rightarrow> bool \<Rightarrow> coordinator \<Rightarrow> coordinator option" where
  "select_language language enabled g =
     Option.bind (descriptor_id_for_language language g) (\<lambda>descriptor.
     case selection_new language descriptor enabled of
       Inl _ \<Rightarrow> None
     | Inr selection \<Rightarrow>
         Some (g\<lparr>lg_selections := bt_insert language selection (lg_selections g), lg_persistence_dirty := True\<rparr>))"

definition disable_language :: "rust_string \<Rightarrow> coordinator \<Rightarrow> u64 option \<times> coordinator" where
  "disable_language language g =
     (case select_language language False g of
        None \<Rightarrow> (None, g)
      | Some g \<Rightarrow>
          let s = server_entry language g;
              generation = (if sb_state s = ServerReady then Some (sb_generation s) else None);
              g = put_server language (s\<lparr>sb_shutdown_pending := generation \<noteq> None, sb_state := ServerDisabled\<rparr>) g;
              g = g\<lparr>lg_diagnostics := bt_retain (\<lambda>_ published. ds_language_id published \<noteq> language) (lg_diagnostics g)\<rparr>
          in (generation, clear_transient_features g))"

definition enable_language :: "rust_string \<Rightarrow> coordinator \<Rightarrow> language_effect list \<times> coordinator" where
  "enable_language language g =
     (case select_language language True g of
        None \<Rightarrow> ([], g)
      | Some g \<Rightarrow>
          let s = server_entry language g in
          if sb_shutdown_pending s then ([], put_server language s g)
          else
            let g = put_server language (s\<lparr>sb_state := ServerStopped\<rparr>) g in
            if any_eligible language g then ensure_language_started language g else ([], g))"

definition restart_language :: "rust_string \<Rightarrow> coordinator \<Rightarrow> u64 option \<times> coordinator" where
  "restart_language language g =
     (case bt_get (lg_servers g) language of
        None \<Rightarrow> (None, g)
      | Some s \<Rightarrow>
          if sb_state s \<noteq> ServerReady \<or> sb_shutdown_pending s then (None, g)
          else (Some (sb_generation s), put_server language (s\<lparr>sb_shutdown_pending := True\<rparr>) g))"

section \<open>Features\<close>

definition request_context :: "u64 \<Rightarrow> coordinator \<Rightarrow> request_context option" where
  "request_context d g =
     Option.bind (bt_get (lg_documents g) d) (\<lambda>binding.
     Option.bind (bt_get (lg_servers g) (db_language_id binding)) (\<lambda>s.
     if db_eligible binding \<and> sb_state s = ServerReady
     then Some \<lparr>rq_language_id = db_language_id binding, rq_generation = sb_generation s, rq_path = db_path binding,
            rq_revision = db_revision binding\<rparr>
     else None))"

definition begin_feature :: "u64 \<Rightarrow> u64 \<Rightarrow> feature_request \<Rightarrow> coordinator \<Rightarrow> coordinator" where
  "begin_feature d generation request g =
     g\<lparr>lg_feature_guards :=
         bt_insert (fr_id request)
           \<lparr>fg_document_id = d, fg_revision = fr_revision request, fg_generation = generation, fg_kind = fr_kind request,
            fg_position = fr_position request\<rparr>
           (bt_retain (\<lambda>_ guard. fg_document_id guard \<noteq> d \<or> fg_kind guard \<noteq> fr_kind request) (lg_feature_guards g))\<rparr>"

definition accept_feature ::
  "(rust_string \<Rightarrow> path option) \<Rightarrow> u64 \<Rightarrow> feature_request \<Rightarrow> json \<Rightarrow> path \<Rightarrow> coordinator \<Rightarrow> bool \<times> coordinator" where
  "accept_feature to_file_path generation request result workspace_root g =
     (case bt_get (lg_feature_guards g) (fr_id request) of
        None \<Rightarrow> (False, g)
      | Some guard \<Rightarrow>
          let g = g\<lparr>lg_feature_guards := bt_remove (fr_id request) (lg_feature_guards g)\<rparr> in
          case bt_get (lg_documents g) (fg_document_id guard) of
            None \<Rightarrow> (False, g)
          | Some binding \<Rightarrow>
              if fg_generation guard \<noteq> generation \<or> fg_revision guard \<noteq> db_revision binding \<or>
                 fg_kind guard \<noteq> fr_kind request \<or> fg_position guard \<noteq> fr_position request then (False, g)
              else
                (True,
                 (case fg_kind guard of
                    Completion \<Rightarrow>
                      g\<lparr>lg_completion_document := Some (fg_document_id guard, fg_revision guard),
                        lg_completion_items := parse_completion_items result\<rparr>
                  | Hover \<Rightarrow> g\<lparr>lg_hover_text := parse_hover result\<rparr>
                  | Definition \<Rightarrow>
                      g\<lparr>lg_definition_document := Some (fg_document_id guard),
                        lg_definition_locations := parse_definitions to_file_path workspace_root result\<rparr>)))"

definition expire_feature :: "feature_request \<Rightarrow> coordinator \<Rightarrow> coordinator" where
  "expire_feature request g = g\<lparr>lg_feature_guards := bt_remove (fr_id request) (lg_feature_guards g)\<rparr>"

section \<open>Problems\<close>

text \<open>Equality of paths is that of their components.\<close>

definition publish_diagnostics ::
  "hash_order \<Rightarrow> rust_string \<Rightarrow> u64 \<Rightarrow> path \<Rightarrow> u64 option \<Rightarrow> published_diagnostic list \<Rightarrow> coordinator \<Rightarrow> bool \<times> coordinator" where
  "publish_diagnostics order language generation p version diagnostics g =
     (case bt_get (lg_servers g) language of
        None \<Rightarrow> (False, g)
      | Some s \<Rightarrow>
          if sb_generation s \<noteq> generation \<or> sb_state s \<noteq> ServerReady then (False, g)
          else
            (case find (\<lambda>(d, binding). path_components (db_path binding) = path_components p) (eligible_documents order language g) of
               None \<Rightarrow> (False, g)
             | Some (d, binding) \<Rightarrow>
                 if (case version of Some v \<Rightarrow> v \<noteq> db_revision binding | None \<Rightarrow> False) then (False, g)
                 else
                   let problems = map (\<lambda>diagnostic. \<lparr>pb_document_id = d, pb_path = p, pb_line = pd_line diagnostic,
                         pb_character = pd_character diagnostic, pb_severity = pd_severity diagnostic,
                         pb_message = take 4096 (pd_message diagnostic),
                         pb_source = map_option (take 128) (pd_source diagnostic)\<rparr>) (take 2000 diagnostics)
                   in (True,
                       if problems = [] then g\<lparr>lg_diagnostics := bt_remove d (lg_diagnostics g)\<rparr>
                       else g\<lparr>lg_diagnostics := bt_insert d
                              \<lparr>ds_language_id = language, ds_generation = generation, ds_problems = problems\<rparr> (lg_diagnostics g)\<rparr>)))"

text \<open>
  The order of the list: by path, line and character, stable. Paths compare by components: the root,
  then a leading dot, then two dots, then names by their bytes.
\<close>

definition component_key :: "path \<Rightarrow> nat \<times> rust_string" where
  "component_key c = (if c = lit ''.'' then (1, []) else if c = lit ''..'' then (2, []) else (3, c))"

definition path_key :: "path \<Rightarrow> (nat \<times> rust_string) list" where
  "path_key p = (case path_components p of (absolute, cs) \<Rightarrow> (if absolute then [(0, [])] else []) @ map component_key cs)"

definition problem_key :: "problem \<Rightarrow> (nat \<times> rust_string) list \<times> u32 \<times> u32" where
  "problem_key b = (path_key (pb_path b), pb_line b, pb_character b)"

definition problems :: "hash_order \<Rightarrow> coordinator \<Rightarrow> problem list" where
  "problems order g =
     sort_key problem_key (concat (map (\<lambda>d. case bt_get (lg_diagnostics g) d of Some published \<Rightarrow> ds_problems published | None \<Rightarrow> [])
       (order (bt_keys (lg_diagnostics g)))))"

definition visible_problems :: "hash_order \<Rightarrow> coordinator \<Rightarrow> problem list" where
  "visible_problems order g =
     filter (\<lambda>b. case lg_problem_filter g of
         AllProblems \<Rightarrow> True
       | OnlyErrors \<Rightarrow> pb_severity b = SeverityError
       | OnlyWarnings \<Rightarrow> pb_severity b = SeverityWarning) (problems order g)"

definition count_problem :: "problem \<Rightarrow> problem_counts \<Rightarrow> problem_counts" where
  "count_problem b counts =
     (case pb_severity b of
        SeverityError \<Rightarrow> counts\<lparr>pc_errors := pc_errors counts + 1\<rparr>
      | SeverityWarning \<Rightarrow> counts\<lparr>pc_warnings := pc_warnings counts + 1\<rparr>
      | SeverityInformation \<Rightarrow> counts\<lparr>pc_information := pc_information counts + 1\<rparr>
      | SeverityHint \<Rightarrow> counts\<lparr>pc_hints := pc_hints counts + 1\<rparr>)"

definition problem_counts :: "hash_order \<Rightarrow> coordinator \<Rightarrow> problem_counts" where
  "problem_counts order g =
     fold count_problem (problems order g) \<lparr>pc_errors = 0, pc_warnings = 0, pc_information = 0, pc_hints = 0\<rparr>"

definition server_position_encoding :: "rust_string \<Rightarrow> coordinator \<Rightarrow> position_encoding" where
  "server_position_encoding language g =
     (case bt_get (lg_servers g) language of Some s \<Rightarrow> sb_position_encoding s | None \<Rightarrow> Utf16)"

definition document_position_encoding :: "u64 \<Rightarrow> coordinator \<Rightarrow> position_encoding" where
  "document_position_encoding d g =
     (case bt_get (lg_documents g) d of
        Some binding \<Rightarrow> server_position_encoding (db_language_id binding) g | None \<Rightarrow> Utf16)"

definition toggle_problems :: "coordinator \<Rightarrow> coordinator" where
  "toggle_problems g = g\<lparr>lg_problems_visible := \<not> lg_problems_visible g, lg_persistence_dirty := True\<rparr>"

section \<open>Counting servers, and what is kept\<close>

definition running_servers :: "coordinator \<Rightarrow> nat" where
  "running_servers g = length (filter (\<lambda>s. sb_state s \<in> {ServerStarting, ServerReady}) (bt_values (lg_servers g)))"

definition server_states :: "coordinator \<Rightarrow> (rust_string \<times> language_state) list" where
  "server_states g = map (\<lambda>(language, s). (language, sb_state s)) (bt_entries (lg_servers g))"

definition coordinator_snapshot ::
  "(rust_string list \<Rightarrow> rust_string list) \<Rightarrow> coordinator \<Rightarrow> language_session_snapshot option \<times> coordinator" where
  "coordinator_snapshot order g =
     ((case settings_new (List.map_filter (bt_get (lg_selections g)) (order (bt_keys (lg_selections g))))
            (lg_approvals g) (lg_problems_visible g) of
         Inl _ \<Rightarrow> None | Inr snapshot \<Rightarrow> Some snapshot),
      g\<lparr>lg_persistence_dirty := False\<rparr>)"

end
