(* ===== verification/LanguageClientLaws.thy ===== *)
theory LanguageClientLaws imports LanguageClient "HOL-Library.Multiset" begin

text \<open>
  What the client of a language server keeps over all sequences of its operations: bounded queues,
  requests that are answered once and only for the text they were made for, restarts that are
  rationed, and documents the server sees as the client was told - as long as the queue has room.
\<close>

section \<open>Sequences of operations\<close>

datatype client_command =
    CStart duration
  | CAcceptInitialize u64 server_capabilities
  | CRejectInitialize u64
  | CFailProtocol
  | COpen rust_string u64 rust_string
  | CSave rust_string
  | CClose rust_string duration
  | CChange rust_string u64 rust_string duration
  | CFlush duration
  | CRequest feature_request_kind rust_string u64 lsp_position duration
  | CAcceptResponse feature_request
  | CRestart
  | CExited duration
  | CBeginShutdown duration
  | CAcceptShutdown u64
  | CFinishShutdown
  | CPoll duration
  | CTake

fun client_step :: "hash_order \<Rightarrow> client_command \<Rightarrow> language_client \<Rightarrow> language_client" where
  "client_step order (CStart now) c = snd (start now c)"
| "client_step order (CAcceptInitialize request capabilities) c = snd (accept_initialize request capabilities c)"
| "client_step order (CRejectInitialize request) c = snd (reject_initialize request c)"
| "client_step order CFailProtocol c = fail_protocol c"
| "client_step order (COpen document revision contents) c = snd (did_open document revision contents c)"
| "client_step order (CSave document) c = snd (did_save document c)"
| "client_step order (CClose document now) c = snd (did_close order document now c)"
| "client_step order (CChange document revision contents now) c = snd (did_change order document revision contents now c)"
| "client_step order (CFlush now) c = snd (flush_changes now c)"
| "client_step order (CRequest kind document revision pos now) c = snd (request_feature order kind document revision pos now c)"
| "client_step order (CAcceptResponse request) c = snd (accept_feature_response request c)"
| "client_step order CRestart c = restart_generation c"
| "client_step order (CExited now) c = snd (process_exited now c)"
| "client_step order (CBeginShutdown now) c = snd (begin_shutdown now c)"
| "client_step order (CAcceptShutdown request) c = snd (accept_shutdown request c)"
| "client_step order CFinishShutdown c = finish_shutdown c"
| "client_step order (CPoll now) c = snd (poll_timeouts now c)"
| "client_step order CTake c = snd (take_outbound c)"

definition client_run :: "hash_order \<Rightarrow> client_command list \<Rightarrow> language_client \<Rightarrow> language_client" where
  "client_run order = fold (client_step order)"

lemma client_run_simps [simp]:
  "client_run order [] c = c" "client_run order (x # xs) c = client_run order xs (client_step order x c)"
  "client_run order (xs @ ys) c = client_run order ys (client_run order xs c)"
  by (simp_all add: client_run_def)

definition permutes_keys :: "hash_order \<Rightarrow> bool" where
  "permutes_keys order \<longleftrightarrow> (\<forall>xs. mset (order xs) = mset xs)"

lemma permutes_set: "permutes_keys order \<Longrightarrow> set (order xs) = set xs"
  unfolding permutes_keys_def by (metis set_mset_mset)

lemma set_walked: "permutes_keys order \<Longrightarrow> set (walked order m p) = {n. \<exists>r. bt_get m n = Some r \<and> p r}"
  by (auto simp: walked_def permutes_set set_bt_keys split: option.splits)

section \<open>What an operation touches\<close>

text \<open>
  The part of the state each lemma below looks at: queue, requests, documents and pending changes,
  identifiers, generation and life. A push changes the queue alone.
\<close>

lemma push_outbound_cases:
  assumes "push_outbound m c = (r, c')"
  obtains (full) "r = Inl OutboundQueueFull" "c' = c" "OUTBOUND_LIMIT \<le> length (lc_outbound c)"
  | (queued) "r = Inr ()" "c' = c\<lparr>lc_outbound := lc_outbound c @ [m]\<rparr>" "length (lc_outbound c) < OUTBOUND_LIMIT"
  using assms by (auto simp: push_outbound_def split: if_splits)

lemma push_other:
  assumes "push_outbound m c = (r, c')"
  shows "lc_requests c' = lc_requests c" "lc_documents c' = lc_documents c" "lc_pending_changes c' = lc_pending_changes c"
    "lc_ids c' = lc_ids c" "lc_generation c' = lc_generation c" "lc_state c' = lc_state c"
    "lc_crash_times c' = lc_crash_times c" "lc_capabilities c' = lc_capabilities c"
    "length (lc_outbound c) \<le> OUTBOUND_LIMIT \<Longrightarrow> length (lc_outbound c') \<le> OUTBOUND_LIMIT"
  using assms by (cases rule: push_outbound_cases; simp)+

section \<open>The invariant\<close>

definition requests_ok :: "language_client \<Rightarrow> bool" where
  "requests_ok c \<longleftrightarrow>
     (\<forall>n r. bt_get (lc_requests c) n = Some r \<longrightarrow>
        fr_id r = n \<and> n \<le> ra_next (lc_ids c) \<and> fr_generation r = lc_generation c \<and> lc_state c \<in> {Ready, Degraded}) \<and>
     (\<forall>n m r q. bt_get (lc_requests c) n = Some r \<longrightarrow> bt_get (lc_requests c) m = Some q \<longrightarrow>
        fr_kind r = fr_kind q \<longrightarrow> fr_document r = fr_document q \<longrightarrow> n = m)"

definition deadlines_ok :: "language_client \<Rightarrow> bool" where
  "deadlines_ok c \<longleftrightarrow>
     (lc_initialize_deadline c \<noteq> None \<longrightarrow> lc_state c = Starting) \<and>
     (lc_shutdown_deadline c \<noteq> None \<longrightarrow> lc_state c \<in> {Stopping, Failed})"

definition client_ok :: "language_client \<Rightarrow> bool" where
  "client_ok c \<longleftrightarrow>
     deadlines_ok c \<and>
     length (lc_outbound c) \<le> OUTBOUND_LIMIT \<and> bt_len (lc_requests c) \<le> REQUEST_LIMIT \<and> requests_ok c \<and>
     (\<forall>document. bt_contains (lc_pending_changes c) document \<longrightarrow> bt_contains (lc_documents c) document)"

text \<open>A step that only drops requests and pending changes, or touches neither, keeps the invariant.\<close>

lemma bt_len_le:
  assumes "\<And>k. bt_get m k = None \<or> bt_get m k = bt_get n k"
  shows "bt_len m \<le> bt_len n"
proof -
  have "set (bt_keys m) \<subseteq> set (bt_keys n)"
    using assms by (auto simp: set_bt_keys) (metis option.distinct(1))
  then show ?thesis by (simp add: bt_len_card card_mono)
qed

lemma client_ok_fewer:
  assumes "client_ok c" "length (lc_outbound c') \<le> OUTBOUND_LIMIT"
    "\<And>n. bt_get (lc_requests c') n = None \<or> bt_get (lc_requests c') n = bt_get (lc_requests c) n"
    "\<And>n r. bt_get (lc_requests c') n = Some r \<Longrightarrow>
       lc_state c' \<in> {Ready, Degraded} \<and> lc_generation c' = lc_generation c \<and> ra_next (lc_ids c) \<le> ra_next (lc_ids c')"
    "\<And>d. bt_contains (lc_pending_changes c') d \<Longrightarrow> bt_contains (lc_pending_changes c) d \<or> bt_contains (lc_documents c') d"
    "\<And>d. bt_contains (lc_pending_changes c') d \<Longrightarrow> bt_contains (lc_documents c) d \<Longrightarrow> bt_contains (lc_documents c') d"
    "deadlines_ok c'"
  shows "client_ok c'"
proof -
  have same: "bt_get (lc_requests c) n = Some r" if "bt_get (lc_requests c') n = Some r" for n r
    using assms(3) [of n] that by auto
  have "bt_len (lc_requests c') \<le> REQUEST_LIMIT"
    using bt_len_le [OF assms(3)] assms(1) by (simp add: client_ok_def)
  moreover have "requests_ok c'"
    using assms(1) same assms(4) unfolding requests_ok_def client_ok_def
    by (smt (verit) order_trans)
  ultimately show ?thesis using assms(1,2,5,6,7) unfolding client_ok_def by blast
qed

lemma client_ok_new: "client_ok (language_client_new w d)"
  by (simp add: client_ok_def requests_ok_def deadlines_ok_def language_client_new_def bt_contains_def bt_len_keys)

text \<open>
  \<open>fewer c c'\<close>: what stays of the state when an operation sends messages and drops requests or
  pending changes.
\<close>

definition fewer :: "language_client \<Rightarrow> language_client \<Rightarrow> bool" where
  "fewer c c' \<longleftrightarrow>
     (length (lc_outbound c) \<le> OUTBOUND_LIMIT \<longrightarrow> length (lc_outbound c') \<le> OUTBOUND_LIMIT) \<and>
     (\<forall>n. bt_get (lc_requests c') n = None \<or> bt_get (lc_requests c') n = bt_get (lc_requests c) n) \<and>
     (\<forall>d. bt_get (lc_pending_changes c') d = None \<or> bt_get (lc_pending_changes c') d = bt_get (lc_pending_changes c) d) \<and>
     lc_documents c' = lc_documents c \<and> lc_ids c' = lc_ids c \<and> lc_generation c' = lc_generation c \<and>
     lc_crash_times c' = lc_crash_times c \<and> lc_initialize_deadline c' = lc_initialize_deadline c \<and>
     lc_shutdown_deadline c' = lc_shutdown_deadline c \<and>
     (lc_state c' = lc_state c \<or> lc_state c = Ready \<and> lc_state c' = Degraded)"

lemma fewer_refl [simp]: "fewer c c"
  by (simp add: fewer_def)

lemma fewer_trans:
  assumes "fewer a b" "fewer b c"
  shows "fewer a c"
proof -
  have "bt_get (lc_requests c) n = None \<or> bt_get (lc_requests c) n = bt_get (lc_requests a) n" for n
    using assms unfolding fewer_def by metis
  moreover have "bt_get (lc_pending_changes c) d = None \<or> bt_get (lc_pending_changes c) d = bt_get (lc_pending_changes a) d" for d
    using assms unfolding fewer_def by metis
  ultimately show ?thesis using assms by (simp add: fewer_def) (metis language_server_state.distinct)
qed

lemma fewerD:
  assumes "fewer c c'"
  shows "lc_documents c' = lc_documents c" "lc_ids c' = lc_ids c" "lc_generation c' = lc_generation c"
    "lc_crash_times c' = lc_crash_times c"
    "bt_get (lc_requests c') n = Some q \<Longrightarrow> bt_get (lc_requests c) n = Some q"
    "bt_get (lc_pending_changes c') d = Some p \<Longrightarrow> bt_get (lc_pending_changes c) d = Some p"
    "bt_len (lc_requests c') \<le> bt_len (lc_requests c)"
    "lc_state c' = lc_state c \<or> lc_state c = Ready \<and> lc_state c' = Degraded"
    "lc_initialize_deadline c' = lc_initialize_deadline c" "lc_shutdown_deadline c' = lc_shutdown_deadline c"
    "length (lc_outbound c) \<le> OUTBOUND_LIMIT \<Longrightarrow> length (lc_outbound c') \<le> OUTBOUND_LIMIT"
proof -
  have "bt_get (lc_requests c') n = None \<or> bt_get (lc_requests c') n = bt_get (lc_requests c) n" for n
    using assms unfolding fewer_def by blast
  then show "bt_len (lc_requests c') \<le> bt_len (lc_requests c)" by (rule bt_len_le)
  show "bt_get (lc_requests c') n = Some q \<Longrightarrow> bt_get (lc_requests c) n = Some q"
    "bt_get (lc_pending_changes c') d = Some p \<Longrightarrow> bt_get (lc_pending_changes c) d = Some p"
    using assms unfolding fewer_def by (metis option.distinct(1))+
qed (use assms in \<open>simp_all add: fewer_def\<close>)

lemma fewer_ok:
  assumes "fewer c c'" "client_ok c"
  shows "client_ok c'"
proof -
  note d = fewerD [OF assms(1)]
  have r: "requests_ok c" "deadlines_ok c" using assms(2) by (simp_all add: client_ok_def)
  have "requests_ok c'"
    unfolding requests_ok_def
  proof (intro conjI allI impI)
    fix n q assume "bt_get (lc_requests c') n = Some q"
    then have "bt_get (lc_requests c) n = Some q" by (rule d(5))
    then have "fr_id q = n \<and> n \<le> ra_next (lc_ids c) \<and> fr_generation q = lc_generation c \<and> lc_state c \<in> {Ready, Degraded}"
      using r(1) unfolding requests_ok_def by blast
    with d(8) show "fr_id q = n" "n \<le> ra_next (lc_ids c')" "fr_generation q = lc_generation c'" "lc_state c' \<in> {Ready, Degraded}"
      by (auto simp: d(2,3))
  next
    fix n m q p
    assume "bt_get (lc_requests c') n = Some q" "bt_get (lc_requests c') m = Some p" "fr_kind q = fr_kind p" "fr_document q = fr_document p"
    then show "n = m" using d(5) r(1) unfolding requests_ok_def by meson
  qed
  moreover have "deadlines_ok c'" using r(2) d(8) by (auto simp: deadlines_ok_def d(9,10))
  moreover have "bt_contains (lc_pending_changes c') x \<Longrightarrow> bt_contains (lc_documents c') x" for x
    using assms(2) d(6) by (auto simp: client_ok_def bt_contains_def d(1))
  ultimately show ?thesis using assms(2) d(7,11) by (simp add: client_ok_def)
qed

lemma push_fewer: "push_outbound m c = (r, c') \<Longrightarrow> fewer c c'"
  by (erule push_outbound_cases) (simp_all add: fewer_def)

lemma push_notification_fewer: "push_notification a v c = (r, c') \<Longrightarrow> fewer c c'"
  by (simp add: push_notification_def push_fewer)

lemma push_cancel_fewer:
  "push_cancel n (c\<lparr>lc_requests := bt_remove n (lc_requests c)\<rparr>) = (r, c') \<Longrightarrow>
    fewer c c' \<and> lc_requests c' = bt_remove n (lc_requests c) \<and> lc_state c' = lc_state c \<and>
    lc_pending_changes c' = lc_pending_changes c"
  by (auto simp: push_cancel_def push_notification_def fewer_def elim!: push_outbound_cases)

lemma cancel_all_fewer:
  "cancel_all ns c = (r, c') \<Longrightarrow>
    fewer c c' \<and> lc_state c' = lc_state c \<and> lc_pending_changes c' = lc_pending_changes c \<and>
    (r = Inr () \<longrightarrow> lc_requests c' = fold bt_remove ns (lc_requests c))"
proof (induction ns arbitrary: c)
  case Nil
  then show ?case by simp
next
  case (Cons n ns)
  obtain q c1 where p: "push_cancel n (c\<lparr>lc_requests := bt_remove n (lc_requests c)\<rparr>) = (q, c1)" by force
  show ?case
  proof (cases q)
    case (Inl e)
    with p Cons.prems push_cancel_fewer [OF p] show ?thesis by auto
  next
    case (Inr u)
    with p Cons.prems have "cancel_all ns c1 = (r, c')" by simp
    from Cons.IH [OF this] push_cancel_fewer [OF p] show ?thesis by (auto intro: fewer_trans)
  qed
qed

lemma invalidate_feature_fewer:
  "invalidate_feature_request order kind document c = (r, c') \<Longrightarrow>
    fewer c c' \<and> lc_state c' = lc_state c \<and> lc_pending_changes c' = lc_pending_changes c \<and>
    (r = Inr () \<longrightarrow> lc_requests c' =
       fold bt_remove (take 1 (walked order (lc_requests c) (\<lambda>request. fr_kind request = kind \<and> fr_document request = document)))
         (lc_requests c))"
  unfolding invalidate_feature_request_def by (rule cancel_all_fewer)

lemma invalidate_document_fewer:
  "invalidate_document_requests order document c = (r, c') \<Longrightarrow>
    fewer c c' \<and> lc_state c' = lc_state c \<and> lc_pending_changes c' = lc_pending_changes c \<and>
    (r = Inr () \<longrightarrow> lc_requests c' =
       fold bt_remove (walked order (lc_requests c) (\<lambda>request. fr_document request = document)) (lc_requests c))"
  unfolding invalidate_document_requests_def by (rule cancel_all_fewer)

lemma flush_loop_fewer:
  "flush_loop ds n c = (m, c') \<Longrightarrow> fewer c c' \<and> lc_requests c' = lc_requests c \<and> lc_state c' = lc_state c"
proof (induction ds arbitrary: n c)
  case Nil
  then show ?case by simp
next
  case (Cons d ds)
  show ?case
  proof (cases "bt_get (lc_pending_changes c) d")
    case None
    with Cons show ?thesis by simp
  next
    case (Some change)
    let ?c = "c\<lparr>lc_pending_changes := bt_remove d (lc_pending_changes c)\<rparr>"
    obtain q c1 where p: "push_notification ''textDocument/didChange''
        (did_change_params d (ch_revision change) (ch_text change)) ?c = (q, c1)" by force
    have "fewer c ?c" by (simp add: fewer_def)
    then have c1: "fewer c c1" "lc_requests c1 = lc_requests c" "lc_state c1 = lc_state c"
      using p push_notification_fewer [OF p] by (auto simp: push_notification_def dest: push_other intro: fewer_trans)
    obtain k where "flush_loop ds k c1 = (m, c')" using Cons.prems Some p by (auto split: sum.splits)
    from Cons.IH [OF this] c1 show ?thesis by (auto intro: fewer_trans)
  qed
qed

lemma expire_loop_fewer: "fewer c (expire_loop ns c)"
proof (induction ns arbitrary: c)
  case Nil
  then show ?case by simp
next
  case (Cons n ns)
  obtain q c1 where p: "push_cancel n (c\<lparr>lc_requests := bt_remove n (lc_requests c)\<rparr>) = (q, c1)" by force
  let ?c = "if isl q \<and> lc_state c1 = Ready then c1\<lparr>lc_state := Degraded\<rparr> else c1"
  have "fewer c1 ?c" by (simp add: fewer_def)
  with push_cancel_fewer [OF p] Cons.IH [of ?c] have "fewer c (expire_loop ns ?c)" by (blast intro: fewer_trans)
  with p show ?case by simp
qed

text \<open>Operations that leave no request and no pending change keep the invariant.\<close>

lemma client_ok_cleared:
  "length (lc_outbound c) \<le> OUTBOUND_LIMIT \<Longrightarrow> deadlines_ok c \<Longrightarrow> lc_requests c = bt_empty \<Longrightarrow>
    lc_pending_changes c = bt_empty \<Longrightarrow> client_ok c"
  by (simp add: client_ok_def requests_ok_def bt_contains_def bt_len_keys)

lemma client_ok_idle:
  assumes "client_ok c" "lc_state c \<notin> {Ready, Degraded}"
  shows "lc_requests c = bt_empty"
  by (rule bt_eqI) (use assms in \<open>auto simp: client_ok_def requests_ok_def not_None_eq [symmetric] simp del: not_None_eq\<close>)

section \<open>Every operation keeps the invariant\<close>

lemma next_id_same:
  "client_next_id c = (r, c') \<Longrightarrow> \<exists>ids. c' = c\<lparr>lc_ids := ids\<rparr> \<and>
     (ids = lc_ids c \<and> isl r \<or> r = Inr (ra_next ids) \<and> ra_next (lc_ids c) < ra_next ids)"
  using next_id_fresh [of "lc_ids c"]
  by (auto simp: client_next_id_def map_err_def split: prod.splits sum.splits)

lemma request_feature_cases:
  assumes "request_feature order kind document revision pos now c = (r, c')"
  obtains (refused) e c1 where "r = Inl e" "fewer c (c'\<lparr>lc_ids := lc_ids c\<rparr>)" "ra_next (lc_ids c) \<le> ra_next (lc_ids c')"
      "c1 = c \<or> (\<exists>q. invalidate_feature_request order kind document c = (q, c1))" "c' = c1\<lparr>lc_ids := lc_ids c'\<rparr>"
  | (sent) c1 ids request where "r = Inr request" "lc_state c = Ready" "bt_len (lc_requests c) < REQUEST_LIMIT"
      "map_option ds_revision (bt_get (lc_documents c) document) = Some revision"
      "invalidate_feature_request order kind document c = (Inr (), c1)"
      "ra_next (lc_ids c) < ra_next ids"
      "request = \<lparr>fr_id = ra_next ids, fr_kind = kind, fr_document = document, fr_revision = revision,
         fr_position = pos, fr_generation = lc_generation c, fr_deadline = now + REQUEST_TIMEOUT\<rparr>"
      "length (lc_outbound c1) < OUTBOUND_LIMIT"
      "c' = c1\<lparr>lc_ids := ids,
         lc_outbound := lc_outbound c1 @ [\<lparr>om_id = Some (ra_next ids), om_method = feature_method kind, om_params = position_params document pos\<rparr>],
         lc_requests := bt_insert (ra_next ids) request (lc_requests c1)\<rparr>"
proof (cases "lc_state c = Ready \<and> (case lc_capabilities c of Some cap \<Rightarrow> supports cap kind | None \<Rightarrow> False) \<and>
    map_option ds_revision (bt_get (lc_documents c) document) = Some revision \<and> bt_len (lc_requests c) < REQUEST_LIMIT")
  case False
  then have "isl r \<and> c' = c"
    using assms by (auto simp: request_feature_def ensure_ready_def ensure_def attempt_def not_less split: if_splits option.splits)
  then show ?thesis by (intro refused [of "projl r" c]) auto
next
  case True
  obtain q c1 where inv: "invalidate_feature_request order kind document c = (q, c1)" by force
  have f: "fewer c c1" using invalidate_feature_fewer [OF inv] by blast
  have same: "lc_ids c1 = lc_ids c" "lc_generation c1 = lc_generation c" using f by (simp_all add: fewer_def)
  show ?thesis
  proof (cases q)
    case (Inl e)
    with True inv assms have "r = Inl e \<and> c' = c1"
      by (auto simp: request_feature_def ensure_ready_def split: if_splits option.splits)
    with f same inv show ?thesis by (intro refused [of e c1]) (simp_all add: fewer_def)
  next
    case (Inr u)
    obtain n c2 where id: "client_next_id c1 = (n, c2)" by force
    obtain ids where ids: "c2 = c1\<lparr>lc_ids := ids\<rparr>"
      "ids = lc_ids c1 \<and> isl n \<or> n = Inr (ra_next ids) \<and> ra_next (lc_ids c1) < ra_next ids"
      using next_id_same [OF id] by blast
    show ?thesis
    proof (cases n)
      case (Inl e)
      with True inv Inr id assms have "r = Inl e \<and> c' = c2"
        by (auto simp: request_feature_def ensure_ready_def split: if_splits option.splits)
      with f same ids Inl inv show ?thesis by (intro refused [of e c1]) (auto simp: fewer_def)
    next
      case number: (Inr number)
      let ?request = "\<lparr>fr_id = number, fr_kind = kind, fr_document = document, fr_revision = revision,
        fr_position = pos, fr_generation = lc_generation c2, fr_deadline = now + REQUEST_TIMEOUT\<rparr>"
      let ?m = "\<lparr>om_id = Some number, om_method = feature_method kind, om_params = position_params document pos\<rparr>"
      have run: "(case push_outbound ?m c2 of
            (Inl e, c) \<Rightarrow> (Inl e, c)
          | (Inr _, c) \<Rightarrow> (Inr ?request, c\<lparr>lc_requests := bt_insert number ?request (lc_requests c)\<rparr>)) = (r, c')"
        using True inv Inr id number assms
        by (auto simp: request_feature_def ensure_ready_def Let_def split: if_splits option.splits)
      have n: "number = ra_next ids" "ra_next (lc_ids c) < ra_next ids" using ids(2) number same by auto
      obtain s c3 where push: "push_outbound ?m c2 = (s, c3)" by force
      from push show ?thesis
      proof (cases rule: push_outbound_cases)
        case full
        with run push have "r = Inl OutboundQueueFull" "c' = c2" by simp_all
        with f same ids n inv show ?thesis by (intro refused [of OutboundQueueFull c1]) (auto simp: fewer_def)
      next
        case queued
        with run push have "r = Inr ?request" "c' = c3\<lparr>lc_requests := bt_insert number ?request (lc_requests c3)\<rparr>" by simp_all
        with True inv Inr n ids same queued show ?thesis by (intro sent [of ?request c1 ids]) simp_all
      qed
    qed
  qed
qed

lemma unique_request:
  assumes "client_ok c" "bt_get (lc_requests c) n = Some r" "bt_get (lc_requests c) m = Some q"
    "fr_kind r = fr_kind q" "fr_document r = fr_document q"
  shows "n = m"
proof -
  have "requests_ok c" using assms(1) by (simp add: client_ok_def)
  then show ?thesis using assms(2-5) unfolding requests_ok_def by simp
qed

lemma invalidated_none:
  assumes "permutes_keys order" "client_ok c" "invalidate_feature_request order kind document c = (Inr (), c1)"
  shows "bt_get (lc_requests c1) n = Some q \<Longrightarrow> \<not> (fr_kind q = kind \<and> fr_document q = document)"
proof
  let ?p = "\<lambda>request. fr_kind request = kind \<and> fr_document request = document"
  let ?ns = "walked order (lc_requests c) ?p"
  assume q: "bt_get (lc_requests c1) n = Some q" "?p q"
  have c1: "fewer c c1" "lc_requests c1 = fold bt_remove (take 1 ?ns) (lc_requests c)"
    using invalidate_feature_fewer [OF assms(3)] by simp_all
  have n: "bt_get (lc_requests c) n = Some q" by (rule fewerD(5) [OF c1(1) q(1)])
  then have "n \<in> set ?ns" using q(2) by (auto simp: set_walked [OF assms(1)])
  then obtain m ms where ms: "?ns = m # ms" by (cases ?ns) auto
  then have "m \<in> set ?ns" by simp
  then obtain r where "bt_get (lc_requests c) m = Some r" "?p r" by (auto simp: set_walked [OF assms(1)])
  then have "m = n" using unique_request [OF assms(2)] n q(2) by simp
  with c1(2) ms q(1) show False by simp
qed

lemma request_feature_ok:
  assumes "permutes_keys order" "client_ok c" "request_feature order kind document revision pos now c = (r, c')"
  shows "client_ok c'"
  using assms(3)
proof (cases rule: request_feature_cases)
  case (refused e c1)
  have ok: "client_ok (c'\<lparr>lc_ids := lc_ids c\<rparr>)" using fewer_ok refused(2) assms(2) by blast
  show ?thesis
    by (rule client_ok_fewer [OF ok])
      (use ok refused(3) in \<open>auto simp: client_ok_def requests_ok_def deadlines_ok_def\<close>)
next
  case (sent c1 ids request)
  have f: "fewer c c1" "lc_state c1 = lc_state c" using invalidate_feature_fewer [OF sent(5)] by simp_all
  note ok = fewer_ok [OF f(1) assms(2)] and none = invalidated_none [OF assms(1,2) sent(5)]
  have old: "fr_id q = n \<and> n < ra_next ids \<and> fr_generation q = lc_generation c \<and> lc_state c1 \<in> {Ready, Degraded}"
    if "bt_get (lc_requests c1) n = Some q" for n q
  proof -
    have "requests_ok c1" using ok by (simp add: client_ok_def)
    then have "fr_id q = n \<and> n \<le> ra_next (lc_ids c1) \<and> fr_generation q = lc_generation c1 \<and> lc_state c1 \<in> {Ready, Degraded}"
      using that unfolding requests_ok_def by blast
    then show ?thesis using sent(6) fewerD(2,3) [OF f(1)] by (auto intro: order_le_less_trans)
  qed
  have unique: "n = m" if "bt_get (lc_requests c1) n = Some q" "bt_get (lc_requests c1) m = Some r"
    "fr_kind q = fr_kind r" "fr_document q = fr_document r" for n m q r
    using unique_request [OF ok that] .
  have new: "fr_id request = ra_next ids" "fr_kind request = kind" "fr_document request = document"
    "fr_generation request = lc_generation c" by (simp_all add: sent(7))
  have c': "lc_requests c' = bt_insert (ra_next ids) request (lc_requests c1)" "lc_ids c' = ids" "lc_state c' = lc_state c1"
    "lc_generation c' = lc_generation c" "length (lc_outbound c') \<le> OUTBOUND_LIMIT" "deadlines_ok c' = deadlines_ok c1"
    "lc_pending_changes c' = lc_pending_changes c1" "lc_documents c' = lc_documents c1"
    using sent(8) fewerD(3) [OF f(1)] by (simp_all add: sent(9) deadlines_ok_def)
  have "bt_len (lc_requests c') \<le> REQUEST_LIMIT"
    using sent(3) fewerD(7) [OF f(1)] by (simp add: c' bt_len_insert)
  moreover have "requests_ok c'"
    unfolding requests_ok_def c'
  proof (intro conjI allI impI)
    fix n q assume q: "bt_get (bt_insert (ra_next ids) request (lc_requests c1)) n = Some q"
    show "fr_id q = n" "n \<le> ra_next ids" "fr_generation q = lc_generation c" "lc_state c1 \<in> {Ready, Degraded}"
      using q old [of n q] new sent(2) f(2) by (auto split: if_splits)
  next
    fix n m q r
    assume "bt_get (bt_insert (ra_next ids) request (lc_requests c1)) n = Some q"
      "bt_get (bt_insert (ra_next ids) request (lc_requests c1)) m = Some r"
      "fr_kind q = fr_kind r" "fr_document q = fr_document r"
    then show "n = m" using unique [of n q m r] none [of n q] none [of m r] new by (auto split: if_splits)
  qed
  ultimately show ?thesis using ok by (simp add: client_ok_def c')
qed

lemma begin_shutdown_cases:
  assumes "begin_shutdown now c = (r, c')"
  obtains (refused) "r = Inl InvalidState" "c' = c" "lc_state c \<notin> {Ready, Degraded}"
  | (begun) "lc_state c \<in> {Ready, Degraded}" "lc_state c' = Stopping" "lc_requests c' = bt_empty" "lc_pending_changes c' = bt_empty"
      "lc_outbound c' = lc_outbound c" "lc_initialize_deadline c' = lc_initialize_deadline c"
proof (cases "lc_state c \<in> {Ready, Degraded}")
  case False
  with assms show ?thesis by (intro refused) (auto simp: begin_shutdown_def)
next
  case True
  let ?c = "c\<lparr>lc_state := Stopping, lc_pending_changes := bt_empty, lc_requests := bt_empty\<rparr>"
  obtain n c2 where n: "client_next_id ?c = (n, c2)" by force
  obtain ids where "c2 = ?c\<lparr>lc_ids := ids\<rparr>" using next_id_same [OF n] by blast
  with True n assms show ?thesis by (intro begun) (auto simp: begin_shutdown_def split: sum.splits)
qed

lemma begin_shutdown_ok:
  assumes "client_ok c" "begin_shutdown now c = (r, c')"
  shows "client_ok c'"
  using assms(2)
proof (cases rule: begin_shutdown_cases)
  case begun
  then show ?thesis using assms(1) by (intro client_ok_cleared) (auto simp: client_ok_def deadlines_ok_def)
qed (use assms(1) in simp)

lemma expire_initialize_ok:
  assumes "client_ok c"
  shows "client_ok (snd (expire_initialize now c))"
proof (cases "reached (lc_initialize_deadline c) now")
  case True
  then have "lc_state c = Starting" using assms by (auto simp: client_ok_def deadlines_ok_def reached_def split: option.splits)
  with client_ok_idle [OF assms] assms True show ?thesis
    by (auto simp: expire_initialize_def client_ok_def requests_ok_def deadlines_ok_def)
next
  case False
  with assms show ?thesis by (simp add: expire_initialize_def)
qed

lemma expire_shutdown_ok:
  assumes "client_ok c"
  shows "client_ok (snd (expire_shutdown now c))"
proof (cases "reached (lc_shutdown_deadline c) now")
  case True
  then have "lc_state c \<in> {Stopping, Failed}" using assms by (auto simp: client_ok_def deadlines_ok_def reached_def split: option.splits)
  with client_ok_idle [OF assms] assms True show ?thesis
    by (auto simp: expire_shutdown_def client_ok_def requests_ok_def deadlines_ok_def)
next
  case False
  with assms show ?thesis by (simp add: expire_shutdown_def)
qed

lemma expire_idle_ok:
  assumes "client_ok c"
  shows "client_ok (snd (expire_idle now c))"
proof (cases "lc_state c = Ready \<and> reached (lc_idle_deadline c) now")
  case False
  with assms show ?thesis by (auto simp: expire_idle_def)
next
  case True
  let ?c = "c\<lparr>lc_idle_deadline := None\<rparr>"
  obtain r c1 where b: "begin_shutdown now ?c = (r, c1)" by force
  have "client_ok ?c" using assms by (simp add: client_ok_def requests_ok_def deadlines_ok_def)
  note ok = begin_shutdown_ok [OF this b]
  from b have c1: "lc_state c1 = Stopping" "lc_requests c1 = bt_empty" "lc_pending_changes c1 = bt_empty"
    by (cases rule: begin_shutdown_cases; use True in simp)+
  have failed: "client_ok (c2\<lparr>lc_state := Failed\<rparr>)" if "fewer c1 c2" for c2
  proof -
    have "lc_initialize_deadline c1 = None" using ok c1(1) by (auto simp: client_ok_def deadlines_ok_def)
    with that have "lc_initialize_deadline c2 = None" by (simp add: fewer_def)
    moreover have "lc_requests c2 = bt_empty" by (rule bt_eqI) (use that c1(2) in \<open>simp add: fewer_def\<close>)
    ultimately show ?thesis using fewer_ok [OF that ok] by (simp add: client_ok_def requests_ok_def deadlines_ok_def)
  qed
  show ?thesis
  proof (cases r)
    case (Inl e)
    with True b failed [OF fewer_refl] show ?thesis by (simp add: expire_idle_def)
  next
    case (Inr m)
    obtain q c2 where p: "push_outbound m c1 = (q, c2)" by force
    note f = push_fewer [OF p]
    show ?thesis using True b Inr p failed [OF f] fewer_ok [OF f ok] by (cases q) (simp_all add: expire_idle_def)
  qed
qed

lemma poll_timeouts_ok:
  assumes "client_ok c"
  shows "client_ok (snd (poll_timeouts now c))"
proof -
  obtain t1 c1 where 1: "expire_initialize now c = (t1, c1)" by force
  let ?c2 = "expire_loop (expired_requests now c1) c1"
  obtain t3 c3 where 3: "expire_shutdown now ?c2 = (t3, c3)" by force
  obtain t4 c4 where 4: "expire_idle now c3 = (t4, c4)" by force
  have "client_ok c1" using expire_initialize_ok [OF assms, of now] 1 by simp
  then have "client_ok ?c2" by (rule fewer_ok [OF expire_loop_fewer])
  then have "client_ok c3" using expire_shutdown_ok [of ?c2 now] 3 by simp
  then have "client_ok c4" using expire_idle_ok [of c3 now] 4 by simp
  with 1 3 4 show ?thesis by (simp add: poll_timeouts_def Let_def)
qed

lemma did_close_ok:
  assumes "client_ok c" "did_close order document now c = (r, c')"
  shows "client_ok c'"
proof (cases "lc_state c = Ready \<and> bt_contains (lc_documents c) document")
  case False
  with assms show ?thesis by (auto simp: did_close_def ensure_ready_def ensure_def attempt_def split: if_splits)
next
  case True
  let ?c = "c\<lparr>lc_documents := bt_remove document (lc_documents c), lc_pending_changes := bt_remove document (lc_pending_changes c)\<rparr>"
  have ok: "client_ok ?c" using assms(1) by (auto simp: client_ok_def requests_ok_def deadlines_ok_def bt_contains_def)
  obtain q c1 where inv: "invalidate_document_requests order document ?c = (q, c1)" by force
  have c1: "client_ok c1" using fewer_ok [OF _ ok] invalidate_document_fewer [OF inv] by blast
  obtain p c2 where push: "push_notification ''textDocument/didClose'' (text_document document) c1 = (p, c2)" by force
  have c2: "client_ok c2" using fewer_ok [OF push_notification_fewer [OF push] c1] .
  then have "client_ok (c2\<lparr>lc_idle_deadline := x\<rparr>)" for x by (simp add: client_ok_def requests_ok_def deadlines_ok_def)
  with True inv push assms(2) c1 c2 show ?thesis
    by (auto simp: did_close_def ensure_ready_def split: sum.splits if_splits)
qed

lemma did_change_ok:
  assumes "client_ok c" "did_change order document revision contents now c = (r, c')"
  shows "client_ok c'"
proof (cases "lc_state c = Ready \<and> (\<exists>state. bt_get (lc_documents c) document = Some state \<and> \<not> revision \<le> ds_revision state)")
  case False
  with assms show ?thesis by (auto simp: did_change_def ensure_ready_def ensure_def attempt_def split: if_splits option.splits)
next
  case True
  then obtain state where state: "bt_get (lc_documents c) document = Some state" "\<not> revision \<le> ds_revision state" by blast
  let ?c = "c\<lparr>lc_documents := bt_insert document (state\<lparr>ds_revision := revision\<rparr>) (lc_documents c),
    lc_pending_changes := bt_insert document \<lparr>ch_revision = revision, ch_text = contents, ch_due = now + CHANGE_DELAY\<rparr> (lc_pending_changes c)\<rparr>"
  have ok: "client_ok ?c" using assms(1) by (auto simp: client_ok_def requests_ok_def deadlines_ok_def bt_contains_def)
  have "invalidate_document_requests order document ?c = (r, c')"
    using assms(2) True state by (simp add: did_change_def ensure_ready_def)
  with fewer_ok [OF _ ok] invalidate_document_fewer show ?thesis by blast
qed

lemma client_step_ok:
  assumes "permutes_keys order" "client_ok c"
  shows "client_ok (client_step order cmd c)"
proof (cases cmd)
  case (CStart now)
  let ?c = "c\<lparr>lc_generation := sat_inc (lc_generation c), lc_state := Starting, lc_capabilities := None\<rparr>"
  obtain r c1 where n: "client_next_id ?c = (r, c1)" by force
  obtain ids where ids: "c1 = ?c\<lparr>lc_ids := ids\<rparr>" using next_id_same [OF n] by blast
  show ?thesis
  proof (cases "lc_state c = Stopped \<or> lc_state c = Restarting")
    case True
    with assms(2) have "lc_requests c = bt_empty" "lc_shutdown_deadline c = None"
      using client_ok_idle [of c] by (auto simp: client_ok_def deadlines_ok_def)
    with True assms(2) n ids CStart show ?thesis
      by (auto simp: start_def client_ok_def requests_ok_def deadlines_ok_def Let_def split: sum.splits)
  next
    case False
    with assms(2) CStart show ?thesis by (simp add: start_def)
  qed
next
  case (CAcceptInitialize request capabilities)
  let ?c = "c\<lparr>lc_initialize_id := None, lc_initialize_deadline := None, lc_capabilities := Some capabilities, lc_state := Ready\<rparr>"
  obtain r c1 where p: "push_notification ''initialized'' (jobject []) ?c = (r, c1)" by force
  have "client_ok ?c" if "lc_state c = Starting"
    using assms(2) client_ok_idle [OF assms(2)] that by (auto simp: client_ok_def requests_ok_def deadlines_ok_def)
  with fewer_ok [OF push_notification_fewer [OF p]] assms(2) CAcceptInitialize p show ?thesis
    by (auto simp: accept_initialize_def)
next
  case (COpen document revision contents)
  let ?c = "c\<lparr>lc_documents := bt_insert document \<lparr>ds_revision = revision\<rparr> (lc_documents c), lc_idle_deadline := None\<rparr>"
  obtain r c1 where p: "push_notification ''textDocument/didOpen'' (did_open_params document (lc_descriptor_id c) revision contents) ?c = (r, c1)" by force
  have "client_ok ?c" using assms(2) by (auto simp: client_ok_def requests_ok_def deadlines_ok_def bt_contains_def)
  from fewer_ok [OF push_notification_fewer [OF p] this] assms(2) COpen p show ?thesis
    by (auto simp: did_open_def ensure_ready_def ensure_def attempt_def)
next
  case (CSave document)
  obtain r c1 where p: "push_notification ''textDocument/didSave'' (text_document document) c = (r, c1)" by force
  from fewer_ok [OF push_notification_fewer [OF p] assms(2)] assms(2) CSave p show ?thesis
    by (auto simp: did_save_def ensure_ready_def ensure_def attempt_def split: option.splits)
next
  case (CClose document now)
  with did_close_ok [OF assms(2), of order document now] show ?thesis
    by (cases "did_close order document now c") simp
next
  case (CChange document revision contents now)
  with did_change_ok [OF assms(2), of order document revision contents now] show ?thesis
    by (cases "did_change order document revision contents now c") simp
next
  case (CFlush now)
  obtain n c1 where f: "flush_loop (due_changes now c) 0 c = (n, c1)" by force
  from flush_loop_fewer [OF f] fewer_ok [OF _ assms(2)] f CFlush show ?thesis by (simp add: flush_changes_def)
next
  case (CRequest kind document revision pos now)
  with request_feature_ok [OF assms, of kind document revision pos now] show ?thesis
    by (cases "request_feature order kind document revision pos now c") simp
next
  case (CAcceptResponse request)
  have "fewer c (c\<lparr>lc_requests := bt_remove (fr_id request) (lc_requests c)\<rparr>)" by (simp add: fewer_def)
  from fewer_ok [OF this assms(2)] CAcceptResponse show ?thesis by (simp add: accept_feature_response_def Let_def)
next
  case (CBeginShutdown now)
  with begin_shutdown_ok [OF assms(2), of now] show ?thesis by (cases "begin_shutdown now c") simp
next
  case (CAcceptShutdown request)
  let ?c = "c\<lparr>lc_shutdown_id := None, lc_shutdown_deadline := None\<rparr>"
  obtain r c1 where p: "push_notification ''exit'' JNull ?c = (r, c1)" by force
  have "client_ok ?c" using assms(2) by (auto simp: client_ok_def requests_ok_def deadlines_ok_def)
  from fewer_ok [OF push_notification_fewer [OF p] this] assms(2) CAcceptShutdown p show ?thesis
    by (auto simp: accept_shutdown_def)
next
  case (CPoll now)
  with poll_timeouts_ok [OF assms(2)] show ?thesis by simp
next
  case CTake
  have "fewer c (c\<lparr>lc_outbound := tl (lc_outbound c)\<rparr>)" by (auto simp: fewer_def)
  from fewer_ok [OF this assms(2)] assms(2) CTake show ?thesis by (auto simp: take_outbound_def split: list.split)
qed (use assms(2) in \<open>auto simp: reject_initialize_def fail_protocol_def fail_active_generation_def restart_generation_def
    clear_generation_def process_exited_def finish_shutdown_def Let_def deadlines_ok_def intro!: client_ok_cleared\<close>)

lemma client_run_ok: "permutes_keys order \<Longrightarrow> client_ok c \<Longrightarrow> client_ok (client_run order cmds c)"
  by (induction cmds arbitrary: c) (simp_all add: client_step_ok)

section \<open>Requests that are gone stay gone\<close>

text \<open>What a step does to the requests, the identifiers and the crashes.\<close>

definition step_frame :: "language_client \<Rightarrow> language_client \<Rightarrow> bool" where
  "step_frame c c' \<longleftrightarrow>
     (\<forall>n. n \<le> ra_next (lc_ids c) \<longrightarrow>
        bt_get (lc_requests c') n = None \<or> bt_get (lc_requests c') n = bt_get (lc_requests c) n) \<and>
     ra_next (lc_ids c) \<le> ra_next (lc_ids c') \<and> lc_crash_times c' = lc_crash_times c"

lemma fewer_frame: "fewer c c' \<Longrightarrow> step_frame c c'"
  unfolding fewer_def step_frame_def by (metis order_refl)

lemma frame_refl [simp]: "step_frame c c"
  by (simp add: step_frame_def)

lemma frame_trans:
  assumes "step_frame a b" "step_frame b c"
  shows "step_frame a c"
  unfolding step_frame_def
proof (intro conjI allI impI)
  fix n assume n: "n \<le> ra_next (lc_ids a)"
  have le: "ra_next (lc_ids a) \<le> ra_next (lc_ids b)" using assms(1) by (simp add: step_frame_def)
  with n have "n \<le> ra_next (lc_ids b)" by (rule order_trans)
  with assms n show "bt_get (lc_requests c) n = None \<or> bt_get (lc_requests c) n = bt_get (lc_requests a) n"
    unfolding step_frame_def by metis
next
  show "ra_next (lc_ids a) \<le> ra_next (lc_ids c)" using assms by (auto simp: step_frame_def)
qed (use assms in \<open>simp add: step_frame_def\<close>)

lemma frame_cong:
  "lc_requests c1 = lc_requests c \<Longrightarrow> lc_ids c1 = lc_ids c \<Longrightarrow> lc_crash_times c1 = lc_crash_times c \<Longrightarrow> step_frame c c1"
  by (simp add: step_frame_def)

lemma frame_cleared:
  "lc_requests c1 = bt_empty \<Longrightarrow> ra_next (lc_ids c) \<le> ra_next (lc_ids c1) \<Longrightarrow> lc_crash_times c1 = lc_crash_times c \<Longrightarrow> step_frame c c1"
  by (simp add: step_frame_def)

lemma next_id_frame: "client_next_id c = (r, c') \<Longrightarrow> step_frame c c'"
  by (drule next_id_same) (auto simp: step_frame_def)

lemma push_frame: "push_notification a v c = (r, c') \<Longrightarrow> step_frame c c'"
  by (rule fewer_frame) (rule push_notification_fewer)

lemma push_after:
  "push_notification a v c1 = (r, c') \<Longrightarrow> step_frame c c1 \<Longrightarrow> step_frame c c'"
  by (rule frame_trans [OF _ push_frame])

lemma begin_shutdown_frame: "begin_shutdown now c = (r, c') \<Longrightarrow> step_frame c c'"
proof -
  assume run: "begin_shutdown now c = (r, c')"
  let ?c = "c\<lparr>lc_state := Stopping, lc_pending_changes := bt_empty, lc_requests := bt_empty\<rparr>"
  obtain n c1 where n: "client_next_id ?c = (n, c1)" by force
  have "step_frame c ?c" by (simp add: step_frame_def)
  then have f: "step_frame c c1" by (rule frame_trans [OF _ next_id_frame [OF n]])
  moreover have "step_frame c1 (c1\<lparr>lc_shutdown_id := x, lc_shutdown_deadline := y\<rparr>)" for x y by (simp add: frame_cong)
  ultimately show "step_frame c c'" using run n by (auto simp: begin_shutdown_def intro: frame_trans split: sum.splits if_splits)
qed

lemma poll_timeouts_frame: "step_frame c (snd (poll_timeouts now c))"
proof -
  obtain t1 c1 where 1: "expire_initialize now c = (t1, c1)" by force
  let ?c2 = "expire_loop (expired_requests now c1) c1"
  obtain t3 c3 where 3: "expire_shutdown now ?c2 = (t3, c3)" by force
  obtain t4 c4 where 4: "expire_idle now c3 = (t4, c4)" by force
  have f1: "step_frame c c1" using 1 by (auto simp: expire_initialize_def step_frame_def split: if_splits)
  have f2: "step_frame c1 ?c2" by (rule fewer_frame [OF expire_loop_fewer])
  have f3: "step_frame ?c2 c3" using 3 by (auto simp: expire_shutdown_def step_frame_def split: if_splits)
  have f4: "step_frame c3 c4"
  proof (cases "lc_state c3 = Ready \<and> reached (lc_idle_deadline c3) now")
    case True
    obtain r c5 where b: "begin_shutdown now (c3\<lparr>lc_idle_deadline := None\<rparr>) = (r, c5)" by force
    have "step_frame c3 (c3\<lparr>lc_idle_deadline := None\<rparr>)" by (simp add: frame_cong)
    then have f5: "step_frame c3 c5" by (rule frame_trans [OF _ begin_shutdown_frame [OF b]])
    have failed: "step_frame c6 (c6\<lparr>lc_state := Failed\<rparr>)" for c6 by (simp add: frame_cong)
    show ?thesis
    proof (cases r)
      case (Inl e)
      with 4 True b f5 failed [of c5] show ?thesis by (auto simp: expire_idle_def intro: frame_trans)
    next
      case (Inr m)
      obtain q c6 where p: "push_outbound m c5 = (q, c6)" by force
      have "step_frame c3 c6" by (rule frame_trans [OF f5 fewer_frame [OF push_fewer [OF p]]])
      with 4 True b Inr p failed [of c6] show ?thesis by (cases q) (auto simp: expire_idle_def intro: frame_trans)
    qed
  next
    case False
    with 4 show ?thesis by (auto simp: expire_idle_def split: if_splits)
  qed
  have "step_frame c c4" using f1 f2 f3 f4 by (blast intro: frame_trans)
  with 1 3 4 show ?thesis by (simp add: poll_timeouts_def Let_def)
qed

lemma did_close_frame: "did_close order document now c = (r, c') \<Longrightarrow> step_frame c c'"
proof -
  assume run: "did_close order document now c = (r, c')"
  show "step_frame c c'"
  proof (cases "lc_state c = Ready \<and> bt_contains (lc_documents c) document")
    case False
    with run show ?thesis by (auto simp: did_close_def ensure_ready_def ensure_def attempt_def split: if_splits)
  next
    case True
    let ?c = "c\<lparr>lc_documents := bt_remove document (lc_documents c), lc_pending_changes := bt_remove document (lc_pending_changes c)\<rparr>"
    obtain q c1 where inv: "invalidate_document_requests order document ?c = (q, c1)" by force
    obtain p c2 where push: "push_notification ''textDocument/didClose'' (text_document document) c1 = (p, c2)" by force
    have "step_frame c ?c" by (simp add: frame_cong)
    moreover have "step_frame ?c c1" using fewer_frame invalidate_document_fewer [OF inv] by blast
    ultimately have f1: "step_frame c c1" by (rule frame_trans)
    have f2: "step_frame c c2" by (rule push_after [OF push f1])
    moreover have "step_frame c2 (c2\<lparr>lc_idle_deadline := x\<rparr>)" for x by (simp add: frame_cong)
    ultimately show ?thesis using True inv push run f1
      by (auto simp: did_close_def ensure_ready_def intro: frame_trans split: sum.splits if_splits)
  qed
qed

lemma did_change_frame: "did_change order document revision contents now c = (r, c') \<Longrightarrow> step_frame c c'"
proof -
  assume run: "did_change order document revision contents now c = (r, c')"
  show "step_frame c c'"
  proof (cases "c' = c")
    case False
    then obtain state where "invalidate_document_requests order document
        (c\<lparr>lc_documents := bt_insert document (state\<lparr>ds_revision := revision\<rparr>) (lc_documents c),
           lc_pending_changes := bt_insert document \<lparr>ch_revision = revision, ch_text = contents, ch_due = now + CHANGE_DELAY\<rparr> (lc_pending_changes c)\<rparr>) = (r, c')"
      using run by (auto simp: did_change_def ensure_ready_def ensure_def attempt_def split: if_splits option.splits)
    from invalidate_document_fewer [OF this] have "step_frame (c\<lparr>lc_documents := bt_insert document (state\<lparr>ds_revision := revision\<rparr>) (lc_documents c),
           lc_pending_changes := bt_insert document \<lparr>ch_revision = revision, ch_text = contents, ch_due = now + CHANGE_DELAY\<rparr> (lc_pending_changes c)\<rparr>) c'"
      by (blast intro: fewer_frame)
    then show ?thesis by (rule frame_trans [rotated]) (simp add: frame_cong)
  qed simp
qed

lemma request_feature_frame: "request_feature order kind document revision pos now c = (r, c') \<Longrightarrow> step_frame c c'"
proof (erule request_feature_cases)
  fix e c1
  assume "fewer c (c'\<lparr>lc_ids := lc_ids c\<rparr>)" "ra_next (lc_ids c) \<le> ra_next (lc_ids c')"
  then show "step_frame c c'" using fewer_frame [of c "c'\<lparr>lc_ids := lc_ids c\<rparr>"] by (simp add: step_frame_def)
next
  fix c1 ids request
  assume inv: "invalidate_feature_request order kind document c = (Inr (), c1)" and n: "ra_next (lc_ids c) < ra_next ids"
    and c': "c' = c1\<lparr>lc_ids := ids,
         lc_outbound := lc_outbound c1 @ [\<lparr>om_id = Some (ra_next ids), om_method = feature_method kind, om_params = position_params document pos\<rparr>],
         lc_requests := bt_insert (ra_next ids) request (lc_requests c1)\<rparr>"
  have f: "step_frame c c1" using fewer_frame invalidate_feature_fewer [OF inv] by blast
  show "step_frame c c'"
    unfolding step_frame_def c'
  proof (intro conjI allI impI)
    fix k
    assume k: "k \<le> ra_next (lc_ids c)"
    then have "k \<noteq> ra_next ids" using n by auto
    with f k show "bt_get (lc_requests (c1\<lparr>lc_ids := ids,
         lc_outbound := lc_outbound c1 @ [\<lparr>om_id = Some (ra_next ids), om_method = feature_method kind, om_params = position_params document pos\<rparr>],
         lc_requests := bt_insert (ra_next ids) request (lc_requests c1)\<rparr>)) k = None \<or>
      bt_get (lc_requests (c1\<lparr>lc_ids := ids,
         lc_outbound := lc_outbound c1 @ [\<lparr>om_id = Some (ra_next ids), om_method = feature_method kind, om_params = position_params document pos\<rparr>],
         lc_requests := bt_insert (ra_next ids) request (lc_requests c1)\<rparr>)) k = bt_get (lc_requests c) k"
      by (simp add: step_frame_def)
  qed (use f n in \<open>simp_all add: step_frame_def\<close>)
qed

lemma client_step_frame:
  assumes "\<And>now. cmd \<noteq> CExited now"
  shows "step_frame c (client_step order cmd c)"
proof (cases cmd)
  case (CStart now)
  let ?c = "c\<lparr>lc_generation := sat_inc (lc_generation c), lc_state := Starting, lc_capabilities := None\<rparr>"
  obtain r c1 where n: "client_next_id ?c = (r, c1)" by force
  have "step_frame c ?c" by (simp add: frame_cong)
  then have f: "step_frame c c1" by (rule frame_trans [OF _ next_id_frame [OF n]])
  moreover have "step_frame c1 (c1\<lparr>lc_initialize_id := x, lc_initialize_deadline := y\<rparr>)" for x y by (simp add: frame_cong)
  ultimately show ?thesis using n CStart by (auto simp: start_def Let_def intro: frame_trans split: sum.splits)
next
  case (CAcceptInitialize request capabilities)
  let ?c = "c\<lparr>lc_initialize_id := None, lc_initialize_deadline := None, lc_capabilities := Some capabilities, lc_state := Ready\<rparr>"
  obtain r c1 where p: "push_notification ''initialized'' (jobject []) ?c = (r, c1)" by force
  have "step_frame c ?c" by (simp add: frame_cong)
  from push_after [OF p this] CAcceptInitialize p show ?thesis by (auto simp: accept_initialize_def)
next
  case (COpen document revision contents)
  let ?c = "c\<lparr>lc_documents := bt_insert document \<lparr>ds_revision = revision\<rparr> (lc_documents c), lc_idle_deadline := None\<rparr>"
  obtain r c1 where p: "push_notification ''textDocument/didOpen'' (did_open_params document (lc_descriptor_id c) revision contents) ?c = (r, c1)" by force
  have "step_frame c ?c" by (simp add: frame_cong)
  from push_after [OF p this] COpen p show ?thesis by (auto simp: did_open_def ensure_ready_def ensure_def attempt_def)
next
  case (CSave document)
  obtain r c1 where p: "push_notification ''textDocument/didSave'' (text_document document) c = (r, c1)" by force
  from push_frame [OF p] CSave p show ?thesis
    by (auto simp: did_save_def ensure_ready_def ensure_def attempt_def split: option.splits)
next
  case (CClose document now)
  with did_close_frame [of order document now c] show ?thesis by (cases "did_close order document now c") simp
next
  case (CChange document revision contents now)
  with did_change_frame [of order document revision contents now c] show ?thesis
    by (cases "did_change order document revision contents now c") simp
next
  case (CFlush now)
  obtain n c1 where f: "flush_loop (due_changes now c) 0 c = (n, c1)" by force
  from flush_loop_fewer [OF f] fewer_frame f CFlush show ?thesis by (simp add: flush_changes_def)
next
  case (CRequest kind document revision pos now)
  with request_feature_frame [of order kind document revision pos now c] show ?thesis
    by (cases "request_feature order kind document revision pos now c") simp
next
  case (CAcceptResponse request)
  have "fewer c (c\<lparr>lc_requests := bt_remove (fr_id request) (lc_requests c)\<rparr>)" by (simp add: fewer_def)
  from fewer_frame [OF this] CAcceptResponse show ?thesis by (simp add: accept_feature_response_def Let_def)
next
  case (CExited now)
  with assms show ?thesis by blast
next
  case (CBeginShutdown now)
  with begin_shutdown_frame [of now c] show ?thesis by (cases "begin_shutdown now c") simp
next
  case (CAcceptShutdown request)
  let ?c = "c\<lparr>lc_shutdown_id := None, lc_shutdown_deadline := None\<rparr>"
  obtain r c1 where p: "push_notification ''exit'' JNull ?c = (r, c1)" by force
  have "step_frame c ?c" by (simp add: frame_cong)
  from push_after [OF p this] CAcceptShutdown p show ?thesis by (auto simp: accept_shutdown_def)
next
  case (CPoll now)
  with poll_timeouts_frame show ?thesis by simp
next
  case CTake
  then show ?thesis by (auto simp: take_outbound_def frame_cong split: list.split)
qed (auto simp: reject_initialize_def fail_protocol_def fail_active_generation_def restart_generation_def
    clear_generation_def finish_shutdown_def intro!: frame_cleared)

end
