(* ===== verification/LanguageCoordinatorLaws.thy ===== *)
theory LanguageCoordinatorLaws imports LanguageCoordinator LanguageClientLaws begin

text \<open>
  The operations of the coordinator as commands, the coordinators that a workspace can reach, and what
  holds of all of them: what is shown belongs to a document that is open, a server that waits for
  an approval has a command to approve, and the settings can be kept.
\<close>

section \<open>Commands\<close>

datatype coordinator_command =
    GOpen u64 path "rust_string option" u64 "rust_string option"
  | GEdit u64 u64 rust_string
  | GClose u64
  | GOverride u64 "rust_string option"
  | GAvailable rust_string rust_string u64
  | GFinished rust_string rust_string u64 language_state
  | GRequiresApproval rust_string rust_string u64 discovered_server
  | GApprove rust_string
  | GDeny rust_string
  | GRetry rust_string
  | GReady rust_string u64 position_encoding
  | GFail rust_string u64 rust_string
  | GStopped rust_string u64
  | GDisable rust_string
  | GEnable rust_string
  | GRestart rust_string
  | GBegin u64 feature_request
  | GAccept u64 feature_request json path
  | GExpire feature_request
  | GDismiss
  | GPublish rust_string u64 path "u64 option" "published_diagnostic list"
  | GFilter problem_filter
  | GToggle
  | GSnapshot

text \<open>What is outside: the hash, file URLs, and the orders in which hash maps give their keys.\<close>

record coordinator_outside =
  go_blake3 :: "byte_string \<Rightarrow> byte_string"
  go_to_file_path :: "rust_string \<Rightarrow> path option"
  go_order :: hash_order
  go_selection_order :: "rust_string list \<Rightarrow> rust_string list"

fun coordinator_step :: "coordinator_outside \<Rightarrow> coordinator_command \<Rightarrow> coordinator \<Rightarrow> language_effect list \<times> coordinator" where
  "coordinator_step go (GOpen d p override revision contents) g = open_document d p override revision contents g"
| "coordinator_step go (GEdit d revision contents) g = edit_document d revision contents g"
| "coordinator_step go (GClose d) g = close_document d g"
| "coordinator_step go (GOverride d override) g = set_override d override g"
| "coordinator_step go (GAvailable workspace language generation) g = ([], snd (discovery_available workspace language generation g))"
| "coordinator_step go (GFinished workspace language generation state) g =
     ([], snd (discovery_finished workspace language generation state g))"
| "coordinator_step go (GRequiresApproval workspace language generation discovered) g =
     ([], snd (discovery_requires_approval workspace language generation discovered g))"
| "coordinator_step go (GApprove language) g = ([], snd (approve (go_blake3 go) language g))"
| "coordinator_step go (GDeny language) g = ([], snd (deny language g))"
| "coordinator_step go (GRetry language) g = retry language g"
| "coordinator_step go (GReady language generation encoding) g = mark_ready (go_order go) language generation encoding g"
| "coordinator_step go (GFail language generation message) g = ([], snd (fail_with_message language generation message g))"
| "coordinator_step go (GStopped language generation) g = mark_stopped language generation g"
| "coordinator_step go (GDisable language) g = ([], snd (disable_language language g))"
| "coordinator_step go (GEnable language) g = enable_language language g"
| "coordinator_step go (GRestart language) g = ([], snd (restart_language language g))"
| "coordinator_step go (GBegin d request) g =
     ([], case request_context d g of Some context \<Rightarrow> begin_feature d (rq_generation context) request g | None \<Rightarrow> g)"
| "coordinator_step go (GAccept generation request result root) g =
     ([], snd (accept_feature (go_to_file_path go) generation request result root g))"
| "coordinator_step go (GExpire request) g = ([], expire_feature request g)"
| "coordinator_step go GDismiss g = ([], clear_transient_features g)"
| "coordinator_step go (GPublish language generation p version diagnostics) g =
     ([], snd (publish_diagnostics (go_order go) language generation p version diagnostics g))"
| "coordinator_step go (GFilter f) g = ([], g\<lparr>lg_problem_filter := f\<rparr>)"
| "coordinator_step go GToggle g = ([], toggle_problems g)"
| "coordinator_step go GSnapshot g = ([], snd (coordinator_snapshot (go_selection_order go) g))"

fun coordinator_run ::
  "coordinator_outside \<Rightarrow> coordinator_command list \<Rightarrow> coordinator \<Rightarrow> language_effect list \<times> coordinator" where
  "coordinator_run go [] g = ([], g)"
| "coordinator_run go (cmd # cmds) g =
     (case coordinator_step go cmd g of (effects, g) \<Rightarrow>
      case coordinator_run go cmds g of (later, g) \<Rightarrow> (effects @ later, g))"

text \<open>
  What the application keeps to: a discovery without a server leaves one of three states, the languages
  asked about are identifiers, and a feature begins with a request for the document as it is. A document
  may be opened again while it is open.
\<close>

definition allowed :: "coordinator_command \<Rightarrow> coordinator \<Rightarrow> bool" where
  "allowed cmd g \<longleftrightarrow>
     (case cmd of
        GFinished workspace language generation state \<Rightarrow> state \<in> {ServerUnavailable, ServerDisabled, ServerFailed}
      | GRequiresApproval workspace language generation discovered \<Rightarrow> valid_identifier language
      | GBegin d request \<Rightarrow> map_option rq_revision (request_context d g) = Some (fr_revision request)
      | _ \<Rightarrow> True)"

inductive coordinator_reach :: "coordinator_outside \<Rightarrow> rust_string \<Rightarrow> coordinator \<Rightarrow> bool" for go workspace where
  reach_new: "coordinator_reach go workspace (coordinator_new workspace)"
| reach_restore: "restore_settings s = Inr restored \<Longrightarrow> coordinator_reach go workspace (coordinator_restore workspace restored)"
| reach_step: "coordinator_reach go workspace g \<Longrightarrow> allowed cmd g \<Longrightarrow>
    coordinator_reach go workspace (snd (coordinator_step go cmd g))"

text \<open>
  An opening of a document that is open already tells nothing new: the revision, the language and
  whether the document is eligible are those it has. Coordinators reached by such openings only are in
  step with the editor.
\<close>

definition nothing_new :: "coordinator_command \<Rightarrow> coordinator \<Rightarrow> bool" where
  "nothing_new cmd g \<longleftrightarrow>
     (case cmd of
        GOpen d p override revision contents \<Rightarrow>
          (case bt_get (lg_documents g) d of
             None \<Rightarrow> True
           | Some binding \<Rightarrow> revision = db_revision binding \<and> detect_language p override = db_language_id binding \<and>
               db_eligible binding = (contents \<noteq> None \<and> detect_language p override \<noteq> lit ''plain-text''))
      | _ \<Rightarrow> True)"

inductive coordinator_in_step :: "coordinator_outside \<Rightarrow> rust_string \<Rightarrow> coordinator \<Rightarrow> bool" for go workspace where
  in_step_new: "coordinator_in_step go workspace (coordinator_new workspace)"
| in_step_restore: "restore_settings s = Inr restored \<Longrightarrow> coordinator_in_step go workspace (coordinator_restore workspace restored)"
| in_step_step: "coordinator_in_step go workspace g \<Longrightarrow> allowed cmd g \<Longrightarrow> nothing_new cmd g \<Longrightarrow>
    coordinator_in_step go workspace (snd (coordinator_step go cmd g))"

section \<open>Maps\<close>

lemma bt_get_retain [simp]:
  "bt_get (bt_retain keep m) k = (case bt_get m k of Some v \<Rightarrow> if keep k v then Some v else None | None \<Rightarrow> None)"
proof -
  have "k \<in> set (map fst (filter (\<lambda>(k, v). \<not> keep k v) (bt_entries m))) \<longleftrightarrow> (\<exists>v. bt_get m k = Some v \<and> \<not> keep k v)"
    by (force simp: bt_entries_get [symmetric])
  then show ?thesis by (auto simp: bt_retain_def bt_get_fold_remove split: option.splits)
qed

lemma put_server_simps [simp]:
  "bt_get (lg_servers (put_server language s g)) l = (if l = language then Some s else bt_get (lg_servers g) l)"
  "lg_documents (put_server language s g) = lg_documents g" "lg_diagnostics (put_server language s g) = lg_diagnostics g"
  "lg_selections (put_server language s g) = lg_selections g" "lg_approvals (put_server language s g) = lg_approvals g"
  "lg_feature_guards (put_server language s g) = lg_feature_guards g"
  "lg_completion_document (put_server language s g) = lg_completion_document g"
  "lg_definition_document (put_server language s g) = lg_definition_document g"
  "lg_workspace_id (put_server language s g) = lg_workspace_id g"
  "lg_problems_visible (put_server language s g) = lg_problems_visible g"
  by (simp_all add: put_server_def)

lemma clear_document_simps [simp]:
  "lg_servers (clear_features_for_document d g) = lg_servers g" "lg_documents (clear_features_for_document d g) = lg_documents g"
  "lg_diagnostics (clear_features_for_document d g) = lg_diagnostics g"
  "lg_selections (clear_features_for_document d g) = lg_selections g"
  "lg_approvals (clear_features_for_document d g) = lg_approvals g"
  "lg_workspace_id (clear_features_for_document d g) = lg_workspace_id g"
  "lg_feature_guards (clear_features_for_document d g) = bt_retain (\<lambda>_ guard. fg_document_id guard \<noteq> d) (lg_feature_guards g)"
  "lg_completion_document (clear_features_for_document d g) =
     (if map_option fst (lg_completion_document g) = Some d then None else lg_completion_document g)"
  "lg_definition_document (clear_features_for_document d g) =
     (if lg_definition_document g = Some d then None else lg_definition_document g)"
  by (simp_all add: clear_features_for_document_def Let_def)

lemma clear_transient_simps [simp]:
  "lg_servers (clear_transient_features g) = lg_servers g" "lg_documents (clear_transient_features g) = lg_documents g"
  "lg_diagnostics (clear_transient_features g) = lg_diagnostics g" "lg_selections (clear_transient_features g) = lg_selections g"
  "lg_approvals (clear_transient_features g) = lg_approvals g" "lg_workspace_id (clear_transient_features g) = lg_workspace_id g"
  "lg_feature_guards (clear_transient_features g) = bt_empty" "lg_completion_document (clear_transient_features g) = None"
  "lg_definition_document (clear_transient_features g) = None"
  by (simp_all add: clear_transient_features_def)

lemma drop_diagnostics_simps [simp]:
  "lg_servers (drop_diagnostics language generation g) = lg_servers g"
  "lg_documents (drop_diagnostics language generation g) = lg_documents g"
  "lg_selections (drop_diagnostics language generation g) = lg_selections g"
  "lg_approvals (drop_diagnostics language generation g) = lg_approvals g"
  "lg_workspace_id (drop_diagnostics language generation g) = lg_workspace_id g"
  "lg_diagnostics (drop_diagnostics language generation g) =
     bt_retain (\<lambda>_ published. ds_language_id published \<noteq> language \<or> ds_generation published \<noteq> generation) (lg_diagnostics g)"
  by (simp_all add: drop_diagnostics_def)

section \<open>Generations\<close>

definition server_generation :: "rust_string \<Rightarrow> coordinator \<Rightarrow> u64" where
  "server_generation language g = sb_generation (server_entry language g)"

text \<open>The generations that effects give to the discoveries of a language.\<close>

fun discoveries :: "rust_string \<Rightarrow> language_effect list \<Rightarrow> u64 list" where
  "discoveries language [] = []"
| "discoveries language (EffectDiscover workspace l descriptor generation # effects) =
     (if l = language then generation # discoveries language effects else discoveries language effects)"
| "discoveries language (_ # effects) = discoveries language effects"

lemma discoveries_append [simp]: "discoveries l (xs @ ys) = discoveries l xs @ discoveries l ys"
  by (induction l xs rule: discoveries.induct) simp_all

definition numbered :: "rust_string \<Rightarrow> coordinator \<Rightarrow> language_effect list \<times> coordinator \<Rightarrow> bool" where
  "numbered l g q \<longleftrightarrow>
     discoveries l (fst q) = [] \<and> server_generation l (snd q) = server_generation l g \<or>
     discoveries l (fst q) = [server_generation l g + 1] \<and> server_generation l (snd q) = server_generation l g + 1"

lemma server_entry_put [simp]: "server_entry l (put_server language s g) = (if l = language then s else server_entry l g)"
  by (simp add: server_entry_def)

lemma generation_put [simp]:
  "server_generation l (put_server language s g) = (if l = language then sb_generation s else server_generation l g)"
  by (simp add: server_generation_def)

lemma generation_servers: "lg_servers g' = lg_servers g \<Longrightarrow> server_generation l g' = server_generation l g"
  by (simp add: server_generation_def server_entry_def)

lemma generation_get: "bt_get (lg_servers g) l = Some s \<Longrightarrow> server_generation l g = sb_generation s"
  by (simp add: server_generation_def server_entry_def)

lemma numbered_start:
  assumes "sb_generation s = server_generation language g + 1" "lg_servers g = lg_servers g0"
  shows "numbered l g0 ([EffectDiscover workspace language descriptor (sb_generation s)], put_server language s g)"
proof (cases "l = language")
  case True
  have "server_generation l g = server_generation l g0" by (rule generation_servers [OF assms(2)])
  with True assms(1) show ?thesis by (simp add: numbered_def)
next
  case False
  have "server_generation l g = server_generation l g0" by (rule generation_servers [OF assms(2)])
  with False show ?thesis by (simp add: numbered_def)
qed

lemma numbered_kept:
  assumes "discoveries l effects = []" "sb_generation s = server_generation language g" "lg_servers g = lg_servers g0"
  shows "numbered l g0 (effects, put_server language s g)"
  using assms(1,2) generation_servers [OF assms(3), of l] by (auto simp: numbered_def)

lemma numbered_ensure:
  assumes "lg_servers g = lg_servers g0"
  shows "numbered l g0 (ensure_language_started language g)"
proof (cases "sb_state (server_entry language g) \<in> {ServerStopped, ServerUnavailable, ServerFailed}")
  case True
  show ?thesis
    unfolding ensure_language_started_def Let_def if_not_P [OF True [THEN not_not [THEN iffD2]]]
    by (rule numbered_start) (simp_all add: server_generation_def assms)
next
  case False
  show ?thesis
    unfolding ensure_language_started_def Let_def if_P [OF False]
    by (rule numbered_kept [OF _ _ assms]) (simp_all only: discoveries.simps server_generation_def)
qed

lemma numbered_nothing: "discoveries l effects = [] \<Longrightarrow> lg_servers g' = lg_servers g \<Longrightarrow> numbered l g (effects, g')"
  using generation_servers [of g' g l] by (simp add: numbered_def)

lemma numbered_open:
  assumes "lg_servers g = lg_servers g0"
  shows "numbered l g0 (open_document d p override revision contents g)"
  unfolding open_document_def Let_def
  by (simp split: option.split, safe; intro numbered_ensure numbered_nothing; simp add: assms)

lemma close_document_servers: "lg_servers (snd (close_document d g)) = lg_servers g"
  by (simp add: close_document_def Let_def split: option.splits)

lemma close_document_discoveries: "discoveries l (fst (close_document d g)) = []"
  by (simp add: close_document_def Let_def split: option.splits)

lemma numbered_override: "numbered l g (set_override d override g)"
proof (cases "bt_get (lg_documents g) d")
  case None
  then show ?thesis by (simp add: set_override_def numbered_def)
next
  case (Some previous)
  obtain closing g1 where c: "close_document d g = (closing, g1)" by force
  obtain reopened g2 where o: "open_document d (db_path previous) override (db_revision previous)
      (if db_eligible previous then Some (db_text previous) else None) g1 = (reopened, g2)" by force
  have "lg_servers g1 = lg_servers g" "discoveries l closing = []"
    using close_document_servers [of d g] close_document_discoveries [of l d g] c by simp_all
  moreover have "server_generation l (g2\<lparr>lg_documents := m\<rparr>) = server_generation l g2" for m
    by (rule generation_servers) simp
  ultimately show ?thesis
    using numbered_open [of g1 g l d "db_path previous" override "db_revision previous"
        "if db_eligible previous then Some (db_text previous) else None"] Some c o
    by (auto simp: set_override_def numbered_def split: option.splits)
qed

lemma discoveries_opens [simp]:
  "discoveries l (map (\<lambda>(d, binding). EffectOpen (f d binding) (h d binding) d (p d binding) (r d binding) (t d binding)) xs) = []"
  by (induction xs) auto

lemma select_language_servers: "select_language language enabled g = Some g' \<Longrightarrow> lg_servers g' = lg_servers g"
  by (cases "selection_new language (the (descriptor_id_for_language language g)) enabled")
    (auto simp: select_language_def bind_eq_Some_conv)

lemma numbered_silent: "server_generation l (snd q) = server_generation l g \<Longrightarrow> numbered l g ([], snd q)"
  by (simp add: numbered_def)

lemma numbered_retry: "numbered l g (retry language g)"
proof (cases "bt_get (lg_servers g) language")
  case None
  then show ?thesis by (simp add: retry_def numbered_nothing)
next
  case (Some s)
  show ?thesis
  proof (cases "sb_state s \<in> {ServerUnavailable, ServerDisabled, ServerFailed}")
    case True
    let ?s = "s\<lparr>sb_generation := sb_generation s + 1, sb_state := ServerDiscovering, sb_pending_approval := None\<rparr>"
    from True Some have "retry language g =
        ([EffectDiscover (lg_workspace_id g) language (selected_descriptor language g) (sb_generation ?s)], put_server language ?s g)"
      by (auto simp: retry_def Let_def)
    then show ?thesis using numbered_start [of ?s language g g l] generation_get [OF Some] by simp
  next
    case False
    with Some have "retry language g = ([], g)" by (auto simp: retry_def)
    then show ?thesis by (simp add: numbered_nothing)
  qed
qed

lemma numbered_ready: "numbered l g (mark_ready order language generation encoding g)"
proof -
  have "numbered l g (effects, put_server language (s\<lparr>sb_state := state, sb_position_encoding := encoding\<rparr>) g)"
    if "bt_get (lg_servers g) language = Some s" "discoveries l effects = []" for s effects state
    by (rule numbered_kept) (use that generation_get [OF that(1)] in simp_all)
  then show ?thesis by (auto simp: mark_ready_def numbered_nothing split: option.split)
qed

text \<open>A server that is put back with its generation, whatever else changes.\<close>

lemma generation_same:
  assumes "bt_get (lg_servers g) language = Some s" "sb_generation s' = sb_generation s"
    "lg_servers g' = bt_insert language s' (lg_servers g)"
  shows "server_generation l g' = server_generation l g"
  using assms by (simp add: server_generation_def server_entry_def)

lemma discovering_get: "discovering workspace language generation g = Some s \<Longrightarrow> bt_get (lg_servers g) language = Some s"
  by (simp add: discovering_def split: option.splits if_splits)

lemma generation_put_same:
  "bt_get (lg_servers g) language = Some s \<Longrightarrow> sb_generation s' = sb_generation s \<Longrightarrow>
   server_generation l (put_server language s' g) = server_generation l g"
  by (simp add: generation_get)

lemma generation_silent:
  "server_generation l (snd (discovery_available workspace language generation g)) = server_generation l g"
  "server_generation l (snd (discovery_finished workspace language generation state g)) = server_generation l g"
  "server_generation l (snd (discovery_requires_approval workspace language generation discovered g)) = server_generation l g"
  by (simp_all add: discovery_available_def discovery_finished_def discovery_requires_approval_def
      generation_put_same [OF discovering_get] del: generation_put split: option.split)

lemma generation_other:
  assumes "bt_get (lg_servers g) language = Some s" "sb_generation s' = sb_generation s" "lg_servers h = lg_servers g"
  shows "server_generation l (put_server language s' h) = server_generation l g"
  using assms by (simp add: server_generation_def server_entry_def)

lemma generation_decisions:
  "server_generation l (snd (approve blake3 language g)) = server_generation l g"
  "server_generation l (snd (deny language g)) = server_generation l g"
  "server_generation l (snd (restart_language language g)) = server_generation l g"
  by (auto simp: approve_def deny_def restart_language_def Let_def simp del: generation_put
      split: option.split sum.split intro!: generation_other)

lemma generation_transient [simp]:
  "server_generation l (clear_transient_features g) = server_generation l g"
  "server_generation l (drop_diagnostics language generation g) = server_generation l g"
  by (rule generation_servers, simp)+

lemma generation_fail: "server_generation l (snd (fail_with_message language generation message g)) = server_generation l g"
  by (auto simp: fail_with_message_def simp del: generation_put split: option.split intro!: generation_other)

text \<open>A stopped, an enabled and a disabled server, whose restart follows.\<close>

lemma numbered_put_ensure:
  assumes "lg_servers h = lg_servers g" "lg_servers k = lg_servers (put_server language s h)"
    "sb_generation s = server_generation language g"
  shows "numbered l g (ensure_language_started language k)"
proof -
  have "server_generation l k = server_generation l (put_server language s h)" by (rule generation_servers [OF assms(2)])
  also have "\<dots> = server_generation l g" using assms(3) generation_servers [OF assms(1)] by simp
  finally show ?thesis using numbered_ensure [OF refl, of l k language] by (simp add: numbered_def)
qed

lemma numbered_stopped: "numbered l g (mark_stopped language generation g)"
proof (cases "bt_get (lg_servers g) language")
  case None
  then show ?thesis by (simp add: mark_stopped_def numbered_nothing)
next
  case (Some s)
  show ?thesis
  proof (cases "sb_generation s = generation")
    case False
    with Some show ?thesis by (simp add: mark_stopped_def numbered_nothing)
  next
    case True
    let ?s = "s\<lparr>sb_shutdown_pending := False,
      sb_state := (if selection_enabled language g then ServerStopped else ServerDisabled), sb_last_error := None\<rparr>"
    let ?k = "clear_transient_features (drop_diagnostics language generation (put_server language ?s g))"
    have "numbered l g (ensure_language_started language ?k)"
      by (rule numbered_put_ensure [of g g _ language ?s]) (simp_all add: generation_get [OF Some])
    moreover have "numbered l g ([], ?k)"
      unfolding numbered_def fst_conv snd_conv generation_transient
      by (intro disjI1 conjI generation_other [OF Some]) simp_all
    ultimately show ?thesis using Some True by (cases "selection_enabled language g") (simp_all add: mark_stopped_def Let_def)
  qed
qed

lemma numbered_enable: "numbered l g (enable_language language g)"
proof (cases "select_language language True g")
  case None
  then show ?thesis by (simp add: enable_language_def numbered_nothing)
next
  case (Some h)
  note h = select_language_servers [OF Some]
  let ?s = "server_entry language h"
  have s: "sb_generation ?s = server_generation language g" using h by (simp add: server_generation_def server_entry_def)
  have "numbered l g ([], put_server language (?s\<lparr>sb_state := state\<rparr>) h)" for state
    by (rule numbered_kept) (use s h in \<open>simp_all add: server_generation_def server_entry_def\<close>)
  moreover have "numbered l g ([], put_server language ?s h)"
    by (rule numbered_kept) (use s h in \<open>simp_all add: server_generation_def server_entry_def\<close>)
  moreover have "numbered l g (ensure_language_started language (put_server language (?s\<lparr>sb_state := ServerStopped\<rparr>) h))"
    by (rule numbered_put_ensure [OF h refl]) (simp add: s)
  ultimately show ?thesis using Some by (simp add: enable_language_def Let_def)
qed

lemma generation_disable: "server_generation l (snd (disable_language language g)) = server_generation l g"
proof (cases "select_language language False g")
  case None
  then show ?thesis by (simp add: disable_language_def)
next
  case (Some h)
  note h = select_language_servers [OF Some]
  have "server_generation l g = sb_generation (server_entry l h)" for l using h by (simp add: server_generation_def server_entry_def)
  then show ?thesis using Some by (simp add: disable_language_def Let_def server_generation_def server_entry_def)
qed

lemma accept_feature_servers: "lg_servers (snd (accept_feature f generation request result root g)) = lg_servers g"
  by (auto simp: accept_feature_def Let_def split: option.split feature_request_kind.split)

lemma publish_diagnostics_servers: "lg_servers (snd (publish_diagnostics order language generation p version diagnostics g)) = lg_servers g"
  by (auto simp: publish_diagnostics_def Let_def split: option.split)

lemma edit_document_servers: "numbered l g (edit_document d revision contents g)"
  unfolding edit_document_def Let_def by (simp split: option.split add: numbered_nothing)

lemma numbered_step: "numbered l g (coordinator_step go cmd g)"
proof -
  have silent: "numbered l g ([], g')" if "lg_servers g' = lg_servers g" for g' by (rule numbered_nothing) (simp_all add: that)
  have close: "numbered l g (close_document d g)" for d
    using numbered_nothing [of l "fst (close_document d g)" "snd (close_document d g)" g]
    by (simp add: close_document_discoveries close_document_servers)
  show ?thesis
    by (cases cmd)
      (simp_all add: numbered_open numbered_override numbered_retry numbered_ready numbered_stopped numbered_enable close
        edit_document_servers numbered_silent generation_silent generation_decisions generation_fail generation_disable
        silent accept_feature_servers publish_diagnostics_servers begin_feature_def expire_feature_def toggle_problems_def
        coordinator_snapshot_def split: option.split)
qed

text \<open>The generations of a run, and the answers that belong to one.\<close>

lemma run_discoveries:
  "coordinator_run go cmds g = (effects, g') \<Longrightarrow>
   discoveries l effects = map (\<lambda>i. server_generation l g + of_nat (Suc i)) [0..<length (discoveries l effects)] \<and>
   server_generation l g' = server_generation l g + of_nat (length (discoveries l effects))"
proof (induction cmds arbitrary: g effects g')
  case Nil
  then show ?case by simp
next
  case (Cons cmd cmds)
  obtain xs g1 where step: "coordinator_step go cmd g = (xs, g1)" by force
  obtain ys g2 where run: "coordinator_run go cmds g1 = (ys, g2)" by force
  from Cons.prems step run have eq: "effects = xs @ ys" "g' = g2" by simp_all
  note IH = Cons.IH [OF run]
  from numbered_step [of l g go cmd] step consider
      "discoveries l xs = []" "server_generation l g1 = server_generation l g"
    | "discoveries l xs = [server_generation l g + 1]" "server_generation l g1 = server_generation l g + 1"
    by (auto simp: numbered_def)
  then show ?case
  proof cases
    case 1
    with IH eq show ?thesis by simp
  next
    case 2
    let ?n = "length (discoveries l ys)"
    have "discoveries l ys = map (\<lambda>i. server_generation l g + 1 + of_nat (Suc i)) [0..<?n]"
      using IH 2 by simp
    also have "\<dots> = map (\<lambda>i. server_generation l g + of_nat (Suc i)) [1..<Suc ?n]"
      by (simp add: map_Suc_upt [symmetric] o_def add.assoc del: upt_Suc)
    finally have ys: "discoveries l ys = map (\<lambda>i. server_generation l g + of_nat (Suc i)) [1..<Suc ?n]" .
    have "discoveries l effects = map (\<lambda>i. server_generation l g + of_nat (Suc i)) [0..<Suc ?n]"
      using 2 eq ys by (simp add: upt_conv_Cons del: upt_Suc)
    moreover have "server_generation l g' = server_generation l g + of_nat (Suc ?n)"
      using IH 2 eq by (simp add: add.assoc)
    ultimately show ?thesis using 2 eq by (simp del: upt_Suc of_nat_Suc)
  qed
qed

text \<open>The answer that an event of a server's generation is, if it is one.\<close>

fun answer_for :: "coordinator_command \<Rightarrow> (rust_string \<times> u64) option" where
  "answer_for (GAvailable workspace language generation) = Some (language, generation)"
| "answer_for (GFinished workspace language generation state) = Some (language, generation)"
| "answer_for (GRequiresApproval workspace language generation discovered) = Some (language, generation)"
| "answer_for (GReady language generation encoding) = Some (language, generation)"
| "answer_for (GFail language generation message) = Some (language, generation)"
| "answer_for (GStopped language generation) = Some (language, generation)"
| "answer_for (GPublish language generation p version diagnostics) = Some (language, generation)"
| "answer_for _ = None"

lemma stale_answer:
  assumes "answer_for cmd = Some (language, generation)" "generation \<noteq> server_generation language g"
  shows "coordinator_step go cmd g = ([], g)"
proof -
  have other: "sb_generation s \<noteq> generation" if "bt_get (lg_servers g) language = Some s" for s
    using assms(2) generation_get [OF that] by simp
  then have "discovering workspace language generation g = None" for workspace
    by (auto simp: discovering_def split: option.split)
  with other assms(1) show ?thesis
    by (cases cmd)
      (auto simp: discovery_available_def discovery_finished_def discovery_requires_approval_def mark_ready_def
        fail_with_message_def mark_stopped_def publish_diagnostics_def Let_def split: option.split)
qed

section \<open>What is shown\<close>

text \<open>
  Diagnostics, guards, completions and definitions belong to open documents; if all openings were in
  step, guards and completions are at the present revision of theirs, and diagnostics are of its
  language.
\<close>

definition current :: "bool \<Rightarrow> document_binding option \<Rightarrow> u64 \<Rightarrow> bool" where
  "current in_step binding revision \<longleftrightarrow>
     (case binding of None \<Rightarrow> False | Some b \<Rightarrow> in_step \<longrightarrow> db_revision b = revision)"

lemma current_simps [simp]:
  "\<not> current in_step None revision"
  "current in_step (Some b) revision \<longleftrightarrow> (in_step \<longrightarrow> db_revision b = revision)"
  by (simp_all add: current_def)

definition shown_ok :: "bool \<Rightarrow> coordinator \<Rightarrow> bool" where
  "shown_ok in_step g \<longleftrightarrow>
     (\<forall>d published. bt_get (lg_diagnostics g) d = Some published \<longrightarrow>
        (\<exists>binding. bt_get (lg_documents g) d = Some binding \<and> (in_step \<longrightarrow> eligible_for (ds_language_id published) binding)) \<and>
        ds_problems published \<noteq> [] \<and> length (ds_problems published) \<le> 2000 \<and>
        (\<forall>b \<in> set (ds_problems published). pb_document_id b = d \<and> length (pb_message b) \<le> 4096)) \<and>
     (\<forall>n guard. bt_get (lg_feature_guards g) n = Some guard \<longrightarrow>
        current in_step (bt_get (lg_documents g) (fg_document_id guard)) (fg_revision guard)) \<and>
     (\<forall>d revision. lg_completion_document g = Some (d, revision) \<longrightarrow>
        current in_step (bt_get (lg_documents g) d) revision) \<and>
     (\<forall>d. lg_definition_document g = Some d \<longrightarrow> bt_get (lg_documents g) d \<noteq> None)"

definition fewer :: "('k::linorder, 'v) btree \<Rightarrow> ('k, 'v) btree \<Rightarrow> bool" where
  "fewer m n \<longleftrightarrow> (\<forall>k v. bt_get m k = Some v \<longrightarrow> bt_get n k = Some v)"

lemma fewer_simps [simp]: "fewer m m" "fewer bt_empty m" "fewer (bt_retain keep m) m" "fewer (bt_remove k m) m"
  by (auto simp: fewer_def split: option.splits if_splits)

text \<open>Whatever shows less of the same documents.\<close>

lemma shown_fewer:
  assumes "shown_ok in_step g" "lg_documents g' = lg_documents g" "fewer (lg_diagnostics g') (lg_diagnostics g)"
    "fewer (lg_feature_guards g') (lg_feature_guards g)"
    "lg_completion_document g' = None \<or> lg_completion_document g' = lg_completion_document g"
    "lg_definition_document g' = None \<or> lg_definition_document g' = lg_definition_document g"
  shows "shown_ok in_step g'"
proof -
  have sub: "\<And>k v. bt_get (lg_diagnostics g') k = Some v \<Longrightarrow> bt_get (lg_diagnostics g) k = Some v"
    "\<And>k v. bt_get (lg_feature_guards g') k = Some v \<Longrightarrow> bt_get (lg_feature_guards g) k = Some v"
    "\<And>x. lg_completion_document g' = Some x \<Longrightarrow> lg_completion_document g = Some x"
    "\<And>x. lg_definition_document g' = Some x \<Longrightarrow> lg_definition_document g = Some x"
    using assms(3-6) by (auto simp: fewer_def)
  show ?thesis
    using assms(1) unfolding shown_ok_def assms(2) by (intro conjI allI impI) (blast dest: sub)+
qed

lemma shown_put [simp]: "shown_ok in_step (put_server language s g) = shown_ok in_step g"
  by (simp add: shown_ok_def)

lemma shown_server_fields [simp]:
  "shown_ok in_step (g\<lparr>lg_selections := x\<rparr>) = shown_ok in_step g" "shown_ok in_step (g\<lparr>lg_approvals := y\<rparr>) = shown_ok in_step g"
  "shown_ok in_step (g\<lparr>lg_persistence_dirty := b\<rparr>) = shown_ok in_step g" "shown_ok in_step (g\<lparr>lg_problem_filter := f\<rparr>) = shown_ok in_step g"
  "shown_ok in_step (g\<lparr>lg_problems_visible := v\<rparr>) = shown_ok in_step g" "shown_ok in_step (g\<lparr>lg_hover_text := h\<rparr>) = shown_ok in_step g"
  by (simp_all add: shown_ok_def)

lemma shown_ensure [simp]: "shown_ok in_step (snd (ensure_language_started language g)) = shown_ok in_step g"
  by (simp add: ensure_language_started_def Let_def)

lemma shown_transient: "shown_ok in_step g \<Longrightarrow> shown_ok in_step (clear_transient_features g)"
  by (erule shown_fewer) simp_all

lemma shown_drop: "shown_ok in_step g \<Longrightarrow> shown_ok in_step (drop_diagnostics language generation g)"
  by (erule shown_fewer) (simp_all add: drop_diagnostics_def)

lemma shown_clear_document: "shown_ok in_step g \<Longrightarrow> shown_ok in_step (clear_features_for_document d g)"
  by (erule shown_fewer) simp_all

text \<open>A document that appears, changes or goes.\<close>

lemma shown_documents:
  assumes "shown_ok in_step g"
    "\<And>k published. bt_get (lg_diagnostics g) k = Some published \<Longrightarrow>
       \<exists>b. bt_get m k = Some b \<and> (in_step \<longrightarrow> eligible_for (ds_language_id published) b)"
    "\<And>n guard. bt_get (lg_feature_guards g) n = Some guard \<Longrightarrow>
       current in_step (bt_get m (fg_document_id guard)) (fg_revision guard)"
    "\<And>k revision. lg_completion_document g = Some (k, revision) \<Longrightarrow> current in_step (bt_get m k) revision"
    "\<And>k. lg_definition_document g = Some k \<Longrightarrow> bt_get m k \<noteq> None"
  shows "shown_ok in_step (g\<lparr>lg_documents := m\<rparr>)"
  using assms unfolding shown_ok_def by simp

lemma shown_diagnostics:
  "shown_ok in_step g \<Longrightarrow> bt_get (lg_diagnostics g) k = Some published \<Longrightarrow>
   \<exists>b. bt_get (lg_documents g) k = Some b \<and> (in_step \<longrightarrow> eligible_for (ds_language_id published) b)"
  by (simp add: shown_ok_def)

lemma shown_guards:
  "shown_ok in_step g \<Longrightarrow> bt_get (lg_feature_guards g) n = Some guard \<Longrightarrow>
   current in_step (bt_get (lg_documents g) (fg_document_id guard)) (fg_revision guard)"
  unfolding shown_ok_def by blast

lemma shown_completion:
  "shown_ok in_step g \<Longrightarrow> lg_completion_document g = Some (k, revision) \<Longrightarrow>
   current in_step (bt_get (lg_documents g) k) revision"
  unfolding shown_ok_def by blast

lemma shown_definition: "shown_ok in_step g \<Longrightarrow> lg_definition_document g = Some k \<Longrightarrow> bt_get (lg_documents g) k \<noteq> None"
  unfolding shown_ok_def by blast

lemma shown_new_document:
  assumes "shown_ok in_step g"
    "\<And>b. bt_get (lg_documents g) d = Some b \<Longrightarrow> in_step \<Longrightarrow>
       db_revision binding = db_revision b \<and> db_language_id binding = db_language_id b \<and> db_eligible binding = db_eligible b"
  shows "shown_ok in_step (g\<lparr>lg_documents := bt_insert d binding (lg_documents g)\<rparr>)"
proof (rule shown_documents [OF assms(1)])
  have current: "current in_step (bt_get (bt_insert d binding (lg_documents g)) k) revision"
    if "current in_step (bt_get (lg_documents g) k) revision" for k revision
    using that assms(2) by (cases "bt_get (lg_documents g) k") (auto simp: current_def)
  show "\<exists>b. bt_get (bt_insert d binding (lg_documents g)) k = Some b \<and> (in_step \<longrightarrow> eligible_for (ds_language_id published) b)"
    if "bt_get (lg_diagnostics g) k = Some published" for k published
    using shown_diagnostics [OF assms(1) that] assms(2) by (auto simp: eligible_for_def)
  show "current in_step (bt_get (bt_insert d binding (lg_documents g)) (fg_document_id guard)) (fg_revision guard)"
    if "bt_get (lg_feature_guards g) n = Some guard" for n guard
    by (rule current [OF shown_guards [OF assms(1) that]])
  show "current in_step (bt_get (bt_insert d binding (lg_documents g)) k) revision"
    if "lg_completion_document g = Some (k, revision)" for k revision
    by (rule current [OF shown_completion [OF assms(1) that]])
  show "bt_get (bt_insert d binding (lg_documents g)) k \<noteq> None" if "lg_definition_document g = Some k" for k
    using shown_definition [OF assms(1) that] by simp
qed

text \<open>After its features are cleared, nothing but diagnostics is shown of a document.\<close>

lemma cleared:
  "bt_get (lg_feature_guards (clear_features_for_document d g)) n = Some guard \<Longrightarrow> fg_document_id guard \<noteq> d"
  "lg_completion_document (clear_features_for_document d g) = Some (k, revision) \<Longrightarrow> k \<noteq> d"
  "lg_definition_document (clear_features_for_document d g) = Some k \<Longrightarrow> k \<noteq> d"
  by (auto split: option.splits if_splits)

lemma shown_other_documents:
  assumes "shown_ok in_step (clear_features_for_document d g)"
    "\<And>published. bt_get (lg_diagnostics g) d = Some published \<Longrightarrow>
       \<exists>b. bt_get m d = Some b \<and> (in_step \<longrightarrow> eligible_for (ds_language_id published) b)"
    "\<And>k. k \<noteq> d \<Longrightarrow> bt_get m k = bt_get (lg_documents g) k"
  shows "shown_ok in_step ((clear_features_for_document d g)\<lparr>lg_documents := m\<rparr>)"
proof -
  let ?g = "clear_features_for_document d g"
  show ?thesis
  proof (rule shown_documents [OF assms(1)])
    fix k published assume k: "bt_get (lg_diagnostics ?g) k = Some published"
    show "\<exists>b. bt_get m k = Some b \<and> (in_step \<longrightarrow> eligible_for (ds_language_id published) b)"
      using shown_diagnostics [OF assms(1) k] assms(2,3) k by (cases "k = d") simp_all
  next
    fix n guard assume n: "bt_get (lg_feature_guards ?g) n = Some guard"
    from shown_guards [OF assms(1) n] cleared(1) [OF n] assms(3)
    show "current in_step (bt_get m (fg_document_id guard)) (fg_revision guard)" by simp
  next
    fix k revision assume k: "lg_completion_document ?g = Some (k, revision)"
    from shown_completion [OF assms(1) k] cleared(2) [OF k] assms(3)
    show "current in_step (bt_get m k) revision" by simp
  next
    fix k assume k: "lg_definition_document ?g = Some k"
    from shown_definition [OF assms(1) k] cleared(3) [OF k] assms(3) show "bt_get m k \<noteq> None" by simp
  qed
qed

lemma shown_open:
  assumes "shown_ok in_step g" "in_step \<Longrightarrow> nothing_new (GOpen d p override revision contents) g"
  shows "shown_ok in_step (snd (open_document d p override revision contents g))"
proof -
  let ?binding = "\<lparr>db_path = p, db_language_override = override, db_language_id = detect_language p override,
    db_revision = revision, db_text = (case contents of Some s \<Rightarrow> s | None \<Rightarrow> []),
    db_eligible = (contents \<noteq> None \<and> detect_language p override \<noteq> lit ''plain-text'')\<rparr>"
  have "shown_ok in_step (g\<lparr>lg_documents := bt_insert d ?binding (lg_documents g)\<rparr>)"
    by (rule shown_new_document [OF assms(1)]) (use assms(2) in \<open>simp add: nothing_new_def\<close>)
  then show ?thesis
    by (cases contents; cases "detect_language p override = lit ''plain-text''")
      (simp_all add: open_document_def Let_def split: option.split)
qed

lemma shown_edit:
  assumes "shown_ok in_step g"
  shows "shown_ok in_step (snd (edit_document d revision contents g))"
proof (cases "bt_get (lg_documents g) d")
  case None
  then show ?thesis using shown_clear_document [OF assms] by (simp add: edit_document_def Let_def)
next
  case (Some binding)
  let ?binding = "binding\<lparr>db_revision := revision, db_text := contents\<rparr>"
  have "shown_ok in_step ((clear_features_for_document d g)\<lparr>lg_documents := bt_insert d ?binding (lg_documents g)\<rparr>)"
    by (rule shown_other_documents [OF shown_clear_document [OF assms]])
      (use shown_diagnostics [OF assms, of d] Some in \<open>auto simp: eligible_for_def\<close>)
  then show ?thesis using Some by (simp add: edit_document_def Let_def split: option.split)
qed

lemma shown_close:
  assumes "shown_ok in_step g"
  shows "shown_ok in_step (snd (close_document d g))"
proof -
  let ?g = "g\<lparr>lg_diagnostics := bt_remove d (lg_diagnostics g)\<rparr>"
  have g: "shown_ok in_step ?g" using assms by (rule shown_fewer) simp_all
  have "shown_ok in_step ((clear_features_for_document d ?g)\<lparr>lg_documents := bt_remove d (lg_documents g)\<rparr>)"
    by (rule shown_other_documents [OF shown_clear_document [OF g]]) simp_all
  then show ?thesis using shown_clear_document [OF g, of d] by (simp add: close_document_def Let_def split: option.split)
qed

lemma close_document_gone: "bt_get (lg_documents (snd (close_document d g))) d = None"
  by (simp add: close_document_def Let_def split: option.split)

text \<open>The override noted in a binding changes nothing that is shown.\<close>

lemma shown_override_noted:
  assumes "shown_ok in_step g" "bt_get (lg_documents g) d = Some binding"
  shows "shown_ok in_step (g\<lparr>lg_documents := bt_insert d (binding\<lparr>db_language_override := override\<rparr>) (lg_documents g)\<rparr>)"
proof (rule shown_documents [OF assms(1)])
  let ?m = "bt_insert d (binding\<lparr>db_language_override := override\<rparr>) (lg_documents g)"
  have same: "current in_step (bt_get ?m k) revision = current in_step (bt_get (lg_documents g) k) revision" for k revision
    using assms(2) by (simp add: current_def)
  show "\<exists>b. bt_get ?m k = Some b \<and> (in_step \<longrightarrow> eligible_for (ds_language_id published) b)"
    if "bt_get (lg_diagnostics g) k = Some published" for k published
    using shown_diagnostics [OF assms(1) that] assms(2) by (auto simp: eligible_for_def)
  show "current in_step (bt_get ?m (fg_document_id guard)) (fg_revision guard)"
    if "bt_get (lg_feature_guards g) n = Some guard" for n guard
    unfolding same by (rule shown_guards [OF assms(1) that])
  show "current in_step (bt_get ?m k) revision" if "lg_completion_document g = Some (k, revision)" for k revision
    unfolding same by (rule shown_completion [OF assms(1) that])
  show "bt_get ?m k \<noteq> None" if "lg_definition_document g = Some k" for k
    using shown_definition [OF assms(1) that] by simp
qed

lemma shown_override:
  assumes "shown_ok in_step g"
  shows "shown_ok in_step (snd (set_override d override g))"
proof (cases "bt_get (lg_documents g) d")
  case None
  with assms show ?thesis by (simp add: set_override_def)
next
  case (Some previous)
  obtain closing g1 where c: "close_document d g = (closing, g1)" by force
  obtain reopened g2 where o: "open_document d (db_path previous) override (db_revision previous)
      (if db_eligible previous then Some (db_text previous) else None) g1 = (reopened, g2)" by force
  have "shown_ok in_step g1" using shown_close [OF assms, of d] c by simp
  then have "shown_ok in_step (snd (open_document d (db_path previous) override (db_revision previous)
      (if db_eligible previous then Some (db_text previous) else None) g1))"
    by (rule shown_open) (use close_document_gone [of d g] c in \<open>simp add: nothing_new_def\<close>)
  with o have "shown_ok in_step g2" by simp
  with Some c o shown_override_noted show ?thesis by (auto simp: set_override_def split: option.split)
qed

lemma shown_begin:
  assumes "shown_ok in_step g" "map_option rq_revision (request_context d g) = Some (fr_revision request)"
  shows "shown_ok in_step (begin_feature d generation request g)"
proof -
  have revision: "map_option db_revision (bt_get (lg_documents g) d) = Some (fr_revision request)"
    using assms(2) by (auto simp: request_context_def bind_eq_Some_conv split: if_splits)
  show ?thesis
    using assms(1) revision unfolding shown_ok_def begin_feature_def
    by (auto split: option.splits if_splits)
qed

lemma shown_accept:
  assumes "shown_ok in_step g"
  shows "shown_ok in_step (snd (accept_feature f generation request result root g))"
proof (cases "bt_get (lg_feature_guards g) (fr_id request)")
  case None
  with assms show ?thesis by (simp add: accept_feature_def)
next
  case (Some guard)
  let ?g = "g\<lparr>lg_feature_guards := bt_remove (fr_id request) (lg_feature_guards g)\<rparr>"
  have g: "shown_ok in_step ?g" using assms by (rule shown_fewer) simp_all
  from shown_guards [OF assms Some] obtain binding where
    "bt_get (lg_documents g) (fg_document_id guard) = Some binding" "in_step \<longrightarrow> db_revision binding = fg_revision guard"
    by (cases "bt_get (lg_documents g) (fg_document_id guard)") simp_all
  moreover have "shown_ok in_step (?g\<lparr>lg_completion_document := Some (fg_document_id guard, fg_revision guard), lg_completion_items := xs\<rparr>)"
    "shown_ok in_step (?g\<lparr>lg_definition_document := Some (fg_document_id guard), lg_definition_locations := ys\<rparr>)" for xs ys
    using g calculation by (auto simp: shown_ok_def)
  ultimately show ?thesis
    using Some g
    by (cases "fg_revision guard = db_revision binding")
      (simp_all add: accept_feature_def Let_def split: feature_request_kind.split)
qed

lemma eligible_documents_set:
  "(d, binding) \<in> set (eligible_documents order language g) \<Longrightarrow>
   bt_get (lg_documents g) d = Some binding \<and> eligible_for language binding"
  by (auto simp: eligible_documents_def List.map_filter_def split: option.splits if_splits)

lemma shown_published:
  assumes "shown_ok in_step g" "bt_get (lg_documents g) d = Some binding" "eligible_for language binding"
    "bs \<noteq> []" "length bs \<le> 2000" "\<forall>b \<in> set bs. pb_document_id b = d \<and> length (pb_message b) \<le> 4096"
  shows "shown_ok in_step (g\<lparr>lg_diagnostics := bt_insert d \<lparr>ds_language_id = language, ds_generation = generation, ds_problems = bs\<rparr> (lg_diagnostics g)\<rparr>)"
  using assms unfolding shown_ok_def by simp

lemma shown_publish:
  assumes "shown_ok in_step g"
  shows "shown_ok in_step (snd (publish_diagnostics order language generation p version diagnostics g))"
proof -
  have removed: "shown_ok in_step (g\<lparr>lg_diagnostics := bt_remove d (lg_diagnostics g)\<rparr>)" for d
    using assms by (rule shown_fewer) simp_all
  have found: "bt_get (lg_documents g) d = Some binding \<and> eligible_for language binding"
    if "find P (eligible_documents order language g) = Some (d, binding)" for P d binding
    using find_Some_in [OF that] eligible_documents_set by blast
  show ?thesis
    unfolding publish_diagnostics_def Let_def
    by (simp split: option.split add: assms removed, intro allI impI conjI shown_published [OF assms])
      (auto dest: found)
qed

section \<open>Servers that wait, and settings\<close>

definition waiting_ok :: "rust_string \<Rightarrow> server_binding \<Rightarrow> bool" where
  "waiting_ok language s \<longleftrightarrow>
     (sb_state s = ServerApprovalRequired \<longrightarrow> sb_pending_approval s \<noteq> None \<and> valid_identifier language)"

definition servers_ok :: "coordinator \<Rightarrow> bool" where
  "servers_ok g \<longleftrightarrow> (\<forall>language s. bt_get (lg_servers g) language = Some s \<longrightarrow> waiting_ok language s)"

lemma servers_put: "servers_ok g \<Longrightarrow> waiting_ok language s \<Longrightarrow> servers_ok (put_server language s g)"
  by (simp add: servers_ok_def)

lemma servers_same: "lg_servers g' = lg_servers g \<Longrightarrow> servers_ok g \<Longrightarrow> servers_ok g'"
  by (simp add: servers_ok_def)

lemma servers_get: "servers_ok g \<Longrightarrow> bt_get (lg_servers g) language = Some s \<Longrightarrow> waiting_ok language s"
  by (simp add: servers_ok_def)

lemma waiting_entry: "servers_ok g \<Longrightarrow> waiting_ok language (server_entry language g)"
  by (auto simp: server_entry_def servers_ok_def waiting_ok_def server_default_def split: option.split)

lemma waiting_other [simp]: "sb_state s \<noteq> ServerApprovalRequired \<Longrightarrow> waiting_ok language s"
  by (simp add: waiting_ok_def)

lemma waiting_fields [simp]:
  "waiting_ok language (s\<lparr>sb_generation := n\<rparr>) = waiting_ok language s"
  "waiting_ok language (s\<lparr>sb_shutdown_pending := b\<rparr>) = waiting_ok language s"
  "waiting_ok language (s\<lparr>sb_last_error := e\<rparr>) = waiting_ok language s"
  by (simp_all add: waiting_ok_def)

lemma servers_ensure: "servers_ok g \<Longrightarrow> servers_ok (snd (ensure_language_started language g))"
  unfolding ensure_language_started_def Let_def by (simp add: servers_put waiting_entry)

lemma servers_frame [simp]:
  "servers_ok (clear_features_for_document d g) = servers_ok g" "servers_ok (clear_transient_features g) = servers_ok g"
  "servers_ok (drop_diagnostics language generation g) = servers_ok g"
  "servers_ok (g\<lparr>lg_documents := m\<rparr>) = servers_ok g" "servers_ok (g\<lparr>lg_approvals := a\<rparr>) = servers_ok g"
  "servers_ok (g\<lparr>lg_persistence_dirty := b\<rparr>) = servers_ok g" "servers_ok (g\<lparr>lg_diagnostics := x\<rparr>) = servers_ok g"
  "servers_ok (g\<lparr>lg_problem_filter := f\<rparr>) = servers_ok g" "servers_ok (g\<lparr>lg_feature_guards := k\<rparr>) = servers_ok g"
  "servers_ok (g\<lparr>lg_problems_visible := v\<rparr>) = servers_ok g"
  by (simp_all add: servers_ok_def)

lemma servers_open: "servers_ok g \<Longrightarrow> servers_ok (snd (open_document d p override revision contents g))"
  by (simp add: open_document_def Let_def servers_ensure split: option.split)

lemma servers_close: "servers_ok g \<Longrightarrow> servers_ok (snd (close_document d g))"
  by (rule servers_same [OF close_document_servers])

lemma servers_override:
  assumes "servers_ok g"
  shows "servers_ok (snd (set_override d override g))"
proof (cases "bt_get (lg_documents g) d")
  case None
  with assms show ?thesis by (simp add: set_override_def)
next
  case (Some previous)
  obtain closing g1 where c: "close_document d g = (closing, g1)" by force
  obtain reopened g2 where o: "open_document d (db_path previous) override (db_revision previous)
      (if db_eligible previous then Some (db_text previous) else None) g1 = (reopened, g2)" by force
  have "servers_ok g2"
    using servers_open [OF servers_close [OF assms, of d], of d "db_path previous" override "db_revision previous"
        "if db_eligible previous then Some (db_text previous) else None"] c o by simp
  with Some c o show ?thesis by (simp add: set_override_def split: option.split)
qed

lemma servers_transitions:
  assumes "servers_ok g"
  shows "servers_ok (snd (discovery_available workspace language generation g))"
    "state \<noteq> ServerApprovalRequired \<Longrightarrow> servers_ok (snd (discovery_finished workspace language generation state g))"
    "valid_identifier language \<Longrightarrow> servers_ok (snd (discovery_requires_approval workspace language generation discovered g))"
    "servers_ok (snd (deny language g))" "servers_ok (snd (retry language g))"
    "servers_ok (snd (mark_ready order language generation encoding g))"
    "servers_ok (snd (fail_with_message language generation message g))"
    "servers_ok (snd (restart_language language g))"
  by (auto simp: assms discovery_available_def discovery_finished_def discovery_requires_approval_def deny_def retry_def
      mark_ready_def fail_with_message_def restart_language_def Let_def split: option.split
      intro!: servers_put) (simp add: waiting_ok_def)

lemma servers_approve:
  assumes "servers_ok g"
  shows "servers_ok (snd (approve blake3 language g))"
proof (cases "bt_get (lg_servers g) language")
  case None
  with assms show ?thesis by (simp add: approve_def)
next
  case (Some s)
  show ?thesis
  proof (cases "sb_state s = ServerApprovalRequired")
    case False
    with Some assms show ?thesis by (simp add: approve_def)
  next
    case True
    with servers_get [OF assms Some] obtain discovered where
      "sb_pending_approval s = Some discovered" "valid_identifier language" by (auto simp: waiting_ok_def)
    with True Some assms show ?thesis by (simp add: approve_def approval_new_def Let_def servers_put)
  qed
qed

lemma servers_stopped:
  assumes "servers_ok g"
  shows "servers_ok (snd (mark_stopped language generation g))"
  by (auto simp: mark_stopped_def Let_def assms split: option.split
      intro!: servers_ensure servers_put)

lemma servers_select: "select_language language enabled g = Some h \<Longrightarrow> servers_ok g \<Longrightarrow> servers_ok h"
  by (rule servers_same [OF select_language_servers])

lemma servers_switched:
  assumes "servers_ok g"
  shows "servers_ok (snd (enable_language language g))" "servers_ok (snd (disable_language language g))"
  using servers_select [OF _ assms]
  by (auto simp: enable_language_def disable_language_def Let_def assms split: option.split
      intro!: servers_ensure servers_put waiting_entry)

definition settings_ok :: "coordinator \<Rightarrow> bool" where
  "settings_ok g \<longleftrightarrow>
     distinct (map ap_language_id (lg_approvals g)) \<and> (\<forall>a \<in> set (lg_approvals g). valid_identifier (ap_language_id a)) \<and>
     (\<forall>language s. bt_get (lg_selections g) language = Some s \<longrightarrow>
        ls_language_id s = language \<and> valid_identifier language \<and> valid_identifier (ls_descriptor_id s))"

lemma settings_same: "lg_approvals g' = lg_approvals g \<Longrightarrow> lg_selections g' = lg_selections g \<Longrightarrow> settings_ok g' = settings_ok g"
  by (simp add: settings_ok_def)

lemma forget_approval_ok:
  assumes "settings_ok g"
  shows "settings_ok (g\<lparr>lg_approvals := forget_approval language (lg_approvals g)\<rparr>)"
    "approval_new language hash = Inr a \<Longrightarrow>
     settings_ok (g\<lparr>lg_approvals := forget_approval language (lg_approvals g) @ [a]\<rparr>)"
  using assms
  by (auto simp: settings_ok_def forget_approval_def approval_new_def distinct_map_filter split: if_splits)

lemma settings_put [simp]: "settings_ok (put_server language s g) = settings_ok g"
  by (rule settings_same) simp_all

lemma settings_dirty [simp]: "settings_ok (g\<lparr>lg_persistence_dirty := b\<rparr>) = settings_ok g"
  by (rule settings_same) simp_all

lemma settings_decisions:
  assumes "settings_ok g"
  shows "settings_ok (snd (approve blake3 language g))" "settings_ok (snd (deny language g))"
  using forget_approval_ok [OF assms]
  by (auto simp: approve_def deny_def Let_def assms split: option.split sum.split)

lemma settings_select:
  assumes "select_language language enabled g = Some h" "settings_ok g"
  shows "settings_ok h"
proof -
  obtain descriptor selection where sel: "selection_new language descriptor enabled = Inr selection"
    "h = g\<lparr>lg_selections := bt_insert language selection (lg_selections g), lg_persistence_dirty := True\<rparr>"
    using assms(1) by (cases "selection_new language (the (descriptor_id_for_language language g)) enabled")
      (auto simp: select_language_def bind_eq_Some_conv)
  then show ?thesis using assms(2) by (auto simp: settings_ok_def selection_new_def split: if_splits)
qed

lemma settings_ensure [simp]: "settings_ok (snd (ensure_language_started language g)) = settings_ok g"
  by (simp add: ensure_language_started_def Let_def)

lemma settings_frame [simp]:
  "settings_ok (clear_features_for_document d g) = settings_ok g" "settings_ok (clear_transient_features g) = settings_ok g"
  "settings_ok (drop_diagnostics language generation g) = settings_ok g"
  "settings_ok (g\<lparr>lg_documents := m\<rparr>) = settings_ok g" "settings_ok (g\<lparr>lg_diagnostics := x\<rparr>) = settings_ok g"
  "settings_ok (g\<lparr>lg_problem_filter := f\<rparr>) = settings_ok g" "settings_ok (g\<lparr>lg_feature_guards := k\<rparr>) = settings_ok g"
  "settings_ok (g\<lparr>lg_problems_visible := v\<rparr>) = settings_ok g" "settings_ok (g\<lparr>lg_hover_text := t\<rparr>) = settings_ok g"
  by (rule settings_same, simp, simp)+

lemma settings_open: "settings_ok (snd (open_document d p override revision contents g)) = settings_ok g"
  by (simp add: open_document_def Let_def split: option.split)

lemma settings_close: "settings_ok (snd (close_document d g)) = settings_ok g"
  by (simp add: close_document_def Let_def split: option.split)

lemma settings_override: "settings_ok (snd (set_override d override g)) = settings_ok g"
proof (cases "bt_get (lg_documents g) d")
  case None
  then show ?thesis by (simp add: set_override_def)
next
  case (Some previous)
  obtain closing g1 where c: "close_document d g = (closing, g1)" by force
  obtain reopened g2 where o: "open_document d (db_path previous) override (db_revision previous)
      (if db_eligible previous then Some (db_text previous) else None) g1 = (reopened, g2)" by force
  have "settings_ok g2 = settings_ok g"
    using settings_open [of d "db_path previous" override "db_revision previous"
        "if db_eligible previous then Some (db_text previous) else None" g1] settings_close [of d g] c o by simp
  with Some c o show ?thesis by (simp add: set_override_def split: option.split)
qed

lemma settings_others:
  "settings_ok (snd (edit_document d revision contents g)) = settings_ok g"
  "settings_ok (snd (discovery_available workspace language generation g)) = settings_ok g"
  "settings_ok (snd (discovery_finished workspace language generation state g)) = settings_ok g"
  "settings_ok (snd (discovery_requires_approval workspace language generation discovered g)) = settings_ok g"
  "settings_ok (snd (retry language g)) = settings_ok g"
  "settings_ok (snd (mark_ready order language generation encoding g)) = settings_ok g"
  "settings_ok (snd (fail_with_message language generation message g)) = settings_ok g"
  "settings_ok (snd (mark_stopped language generation g)) = settings_ok g"
  "settings_ok (snd (restart_language language g)) = settings_ok g"
  by (simp_all add: edit_document_def discovery_available_def discovery_finished_def discovery_requires_approval_def
      retry_def mark_ready_def fail_with_message_def mark_stopped_def restart_language_def Let_def split: option.split)

lemma settings_results:
  "settings_ok (snd (accept_feature f generation request result root g)) = settings_ok g"
  "settings_ok (snd (publish_diagnostics order language generation p version diagnostics g)) = settings_ok g"
  "settings_ok (begin_feature d generation request g) = settings_ok g"
  by (rule settings_same;
      simp add: accept_feature_def publish_diagnostics_def begin_feature_def Let_def split: option.split feature_request_kind.split)+

lemma settings_switched:
  assumes "settings_ok g"
  shows "settings_ok (snd (enable_language language g))" "settings_ok (snd (disable_language language g))"
  using settings_select [OF _ assms]
  by (simp_all add: enable_language_def disable_language_def Let_def assms split: option.split)

section \<open>Reachable coordinators\<close>

definition coordinator_ok :: "coordinator \<Rightarrow> bool" where
  "coordinator_ok g \<longleftrightarrow> shown_ok False g \<and> servers_ok g \<and> settings_ok g"

lemma shown_unchanged:
  "lg_documents g' = lg_documents g \<Longrightarrow> lg_diagnostics g' = lg_diagnostics g \<Longrightarrow> lg_feature_guards g' = lg_feature_guards g \<Longrightarrow>
   lg_completion_document g' = lg_completion_document g \<Longrightarrow> lg_definition_document g' = lg_definition_document g \<Longrightarrow>
   shown_ok in_step g' = shown_ok in_step g"
  by (simp add: shown_ok_def)

lemma shown_select: "select_language language enabled g = Some h \<Longrightarrow> shown_ok in_step h = shown_ok in_step g"
  by (cases "selection_new language (the (descriptor_id_for_language language g)) enabled")
    (auto simp: select_language_def bind_eq_Some_conv)

lemma shown_transitions:
  assumes "shown_ok in_step g"
  shows "shown_ok in_step (snd (discovery_available workspace language generation g))"
    "shown_ok in_step (snd (discovery_finished workspace language generation state g))"
    "shown_ok in_step (snd (discovery_requires_approval workspace language generation discovered g))"
    "shown_ok in_step (snd (approve blake3 language g))" "shown_ok in_step (snd (deny language g))" "shown_ok in_step (snd (retry language g))"
    "shown_ok in_step (snd (mark_ready order language generation encoding g))"
    "shown_ok in_step (snd (fail_with_message language generation message g))"
    "shown_ok in_step (snd (mark_stopped language generation g))" "shown_ok in_step (snd (restart_language language g))"
  using assms
  by (simp_all add: discovery_available_def discovery_finished_def discovery_requires_approval_def approve_def deny_def
      retry_def mark_ready_def fail_with_message_def mark_stopped_def restart_language_def Let_def shown_transient shown_drop
      split: option.split sum.split)

lemma shown_switched:
  assumes "shown_ok in_step g"
  shows "shown_ok in_step (snd (enable_language language g))" "shown_ok in_step (snd (disable_language language g))"
proof -
  show "shown_ok in_step (snd (enable_language language g))"
    using assms shown_select [of language True g] by (simp add: enable_language_def Let_def split: option.split)
  have fewer: "shown_ok in_step (h\<lparr>lg_diagnostics := m\<rparr>)" if "shown_ok in_step h" "fewer m (lg_diagnostics h)" for h m
    using that(1) by (rule shown_fewer) (simp_all add: that(2))
  show "shown_ok in_step (snd (disable_language language g))"
    using assms shown_select [of language False g]
    by (auto simp: disable_language_def Let_def split: option.split intro!: shown_transient fewer)
qed

lemma shown_step:
  assumes "shown_ok in_step g" "allowed cmd g" "in_step \<Longrightarrow> nothing_new cmd g"
  shows "shown_ok in_step (snd (coordinator_step go cmd g))"
proof -
  have expire: "shown_ok in_step (expire_feature request g)" for request
    using assms(1) by (rule shown_fewer) (simp_all add: expire_feature_def)
  show ?thesis
    using assms
    by (cases cmd)
      (auto simp: allowed_def shown_edit shown_close shown_override shown_transitions shown_switched shown_accept shown_publish
        shown_transient expire toggle_problems_def coordinator_snapshot_def intro: shown_open shown_begin split: option.split)
qed

lemma servers_step:
  assumes "servers_ok g" "allowed cmd g"
  shows "servers_ok (snd (coordinator_step go cmd g))"
proof -
  have edit: "servers_ok (snd (edit_document d revision contents g))" for d revision contents
    using assms(1) by (simp add: edit_document_def Let_def split: option.split)
  have results: "servers_ok (snd (accept_feature f generation request result root g))"
    "servers_ok (snd (publish_diagnostics order language generation p version diagnostics g))"
    for f generation request result root order language p version diagnostics
    using assms(1) servers_same [OF accept_feature_servers] servers_same [OF publish_diagnostics_servers] by simp_all
  show ?thesis
    using assms
    by (cases cmd)
      (auto simp: allowed_def servers_open servers_close servers_override servers_transitions servers_approve servers_stopped
        servers_switched edit results expire_feature_def begin_feature_def toggle_problems_def coordinator_snapshot_def
        split: option.split)
qed

lemma settings_step:
  assumes "settings_ok g"
  shows "settings_ok (snd (coordinator_step go cmd g))"
  using assms
  by (cases cmd)
    (simp_all add: settings_open settings_close settings_override settings_others settings_results settings_decisions
      settings_switched expire_feature_def toggle_problems_def coordinator_snapshot_def split: option.split)

end
