(* ===== verification/LanguageServers.thy ===== *)
theory LanguageServers imports LanguageCoordinatorLaws begin

text \<open>
  The properties of the coordinator: reachable coordinators are consistent, at the present revision of
  their documents unless one is opened again with another, the settings of a workspace survive, late answers of an earlier generation change nothing, and a server that a
  workspace configures itself runs only as the command that was approved.
\<close>

section \<open>Restoring\<close>

lemma settings_valid:
  assumes "validate_settings s = Inr u"
  shows "distinct (map ls_language_id (ss_selections s))" "distinct (map ap_language_id (ss_approvals s))"
    "\<And>e. e \<in> set (ss_selections s) \<Longrightarrow> valid_identifier (ls_language_id e) \<and> valid_identifier (ls_descriptor_id e)"
    "\<And>e. e \<in> set (ss_approvals s) \<Longrightarrow> valid_identifier (ap_language_id e)"
  using assms by (auto simp: validate_settings_def list_ex_iff split: if_splits)

lemma restored_find:
  fixes xs :: "language_selection list"
  assumes "distinct (map ls_language_id xs)"
  shows "bt_get (fold (\<lambda>s. bt_insert (ls_language_id s) s) xs bt_empty) language = find (\<lambda>s. ls_language_id s = language) xs"
proof -
  have "(case x of Some s \<Rightarrow> Some s | None \<Rightarrow> None) = x" for x :: "language_selection option" by (cases x) simp_all
  then show ?thesis unfolding bt_get_fold_insert [OF assms] bt_get_empty .
qed

lemma restored_settings_ok:
  assumes "restore_settings s = Inr restored"
  shows "settings_ok (coordinator_restore workspace restored)"
proof -
  have v: "validate_settings s = Inr ()"
    and r: "rs_selections restored = ss_selections s" "rs_approvals restored = ss_approvals s"
    using assms by (auto simp: restore_settings_def outcome)
  note ok = settings_valid [OF v]
  show ?thesis
    unfolding settings_ok_def
  proof (intro conjI)
    show "distinct (map ap_language_id (lg_approvals (coordinator_restore workspace restored)))"
      "\<forall>a \<in> set (lg_approvals (coordinator_restore workspace restored)). valid_identifier (ap_language_id a)"
      using ok r by (simp_all add: coordinator_restore_def)
    have get: "bt_get (lg_selections (coordinator_restore workspace restored)) language =
        find (\<lambda>e. ls_language_id e = language) (ss_selections s)" for language
    proof -
      have "lg_selections (coordinator_restore workspace restored) =
          fold (\<lambda>s. bt_insert (ls_language_id s) s) (ss_selections s) bt_empty"
        by (simp add: coordinator_restore_def r)
      then show ?thesis
        by (simp only: restored_find [OF ok(1)])
    qed
    show "\<forall>language e. bt_get (lg_selections (coordinator_restore workspace restored)) language = Some e \<longrightarrow>
        ls_language_id e = language \<and> valid_identifier language \<and> valid_identifier (ls_descriptor_id e)"
    proof (intro allI impI)
      fix language e
      assume "bt_get (lg_selections (coordinator_restore workspace restored)) language = Some e"
      then have "find (\<lambda>e. ls_language_id e = language) (ss_selections s) = Some e" by (simp only: get)
      then have "e \<in> set (ss_selections s)" "ls_language_id e = language" using find_Some_in by fast+
      with ok(3) [of e] show "ls_language_id e = language \<and> valid_identifier language \<and> valid_identifier (ls_descriptor_id e)"
        by simp
    qed
  qed
qed

lemma fresh_ok:
  "shown_ok in_step (coordinator_new workspace)" "servers_ok (coordinator_new workspace)" "settings_ok (coordinator_new workspace)"
  "shown_ok in_step (coordinator_restore workspace restored)" "servers_ok (coordinator_restore workspace restored)"
  by (simp_all add: shown_ok_def servers_ok_def settings_ok_def coordinator_restore_def coordinator_new_def)

lemma reachable_ok: "coordinator_reach go workspace g \<Longrightarrow> coordinator_ok g"
proof (induction rule: coordinator_reach.induct)
  case reach_new
  show ?case by (simp add: coordinator_ok_def fresh_ok)
next
  case (reach_restore s restored)
  then show ?case by (simp add: coordinator_ok_def fresh_ok restored_settings_ok)
next
  case (reach_step g cmd)
  then show ?case by (simp add: coordinator_ok_def shown_step servers_step settings_step)
qed

lemma in_step_shown: "coordinator_in_step go workspace g \<Longrightarrow> shown_ok True g"
  by (induction rule: coordinator_in_step.induct) (simp_all add: fresh_ok shown_step)

text \<open>
  Opening a document again clears nothing: completions of an open document stay when it is opened at
  another revision, as the application does after the text was loaded from disk again.
\<close>

lemma reopening_keeps_old_completions:
  assumes "lg_completion_document g = Some (d, old)" "revision \<noteq> old"
    and g': "g' = snd (coordinator_step go (GOpen d p override revision contents) g)"
  shows "lg_completion_document g' = Some (d, old) \<and> lg_completion_items g' = lg_completion_items g \<and>
    map_option db_revision (bt_get (lg_documents g') d) = Some revision \<and> \<not> shown_ok True g'"
proof -
  have kept: "lg_completion_document (snd (ensure_language_started language h)) = lg_completion_document h"
    "lg_completion_items (snd (ensure_language_started language h)) = lg_completion_items h"
    "lg_documents (snd (ensure_language_started language h)) = lg_documents h" for language h
    by (simp_all add: ensure_language_started_def put_server_def Let_def)
  have r: "lg_completion_document g' = Some (d, old)" "lg_completion_items g' = lg_completion_items g"
    "map_option db_revision (bt_get (lg_documents g') d) = Some revision"
    using assms(1) by (auto simp: g' open_document_def Let_def kept split: option.split)
  moreover have "\<not> shown_ok True g'"
    using r assms(2) by (auto simp: shown_ok_def)
  ultimately show ?thesis by blast
qed

text \<open>What \<open>collect\<close> makes of a map that is gone through in any order.\<close>

lemma map_filter_total: "(\<And>x. x \<in> set xs \<Longrightarrow> \<exists>y. f x = Some y) \<Longrightarrow> List.map_filter f xs = map (\<lambda>x. the (f x)) xs"
  by (induction xs) (force simp: List.map_filter_simps split: option.split)+

lemma kept_selections:
  assumes "settings_ok g" "mset ks = mset (bt_keys (lg_selections g))"
  shows "map ls_language_id (List.map_filter (bt_get (lg_selections g)) ks) = ks"
    "length (List.map_filter (bt_get (lg_selections g)) ks) = bt_len (lg_selections g)"
    "fold (\<lambda>s. bt_insert (ls_language_id s) s) (List.map_filter (bt_get (lg_selections g)) ks) bt_empty = lg_selections g"
    "e \<in> set (List.map_filter (bt_get (lg_selections g)) ks) \<Longrightarrow>
       valid_identifier (ls_language_id e) \<and> valid_identifier (ls_descriptor_id e)"
proof -
  let ?m = "lg_selections g"
  have ks: "set ks = set (bt_keys ?m)" "distinct ks"
    using assms(2) bt_keys_distinct [of ?m] by (metis set_mset_mset, metis mset_eq_imp_distinct_iff)
  have total: "\<exists>e. bt_get ?m k = Some e" if "k \<in> set ks" for k using that ks(1) by (auto simp: set_bt_keys)
  let ?xs = "map (\<lambda>k. the (bt_get ?m k)) ks"
  have mf: "List.map_filter (bt_get ?m) ks = ?xs" by (rule map_filter_total [OF total])
  have named: "ls_language_id (the (bt_get ?m k)) = k \<and> valid_identifier k \<and> valid_identifier (ls_descriptor_id (the (bt_get ?m k)))"
    if k: "k \<in> set ks" for k
  proof -
    from total [OF k] obtain e where "bt_get ?m k = Some e" by blast
    with assms(1) show ?thesis by (simp add: settings_ok_def)
  qed
  have names: "map ls_language_id ?xs = ks" using named by (simp add: o_def map_idI)
  show "map ls_language_id (List.map_filter (bt_get ?m) ks) = ks" unfolding mf by (rule names)
  show "length (List.map_filter (bt_get ?m) ks) = bt_len ?m"
    unfolding mf using arg_cong [OF assms(2), of size] by (simp add: bt_len_keys)
  show "valid_identifier (ls_language_id e) \<and> valid_identifier (ls_descriptor_id e)"
    if "e \<in> set (List.map_filter (bt_get ?m) ks)"
    using that named unfolding mf by force
  have distinct: "distinct (map ls_language_id ?xs)" using names ks(2) by simp
  show "fold (\<lambda>s. bt_insert (ls_language_id s) s) (List.map_filter (bt_get ?m) ks) bt_empty = ?m"
    unfolding mf
  proof (rule bt_eqI)
    fix k
    have "find (\<lambda>s. ls_language_id s = k) ?xs = bt_get ?m k"
    proof (cases "bt_get ?m k")
      case None
      then have "k \<notin> set ks" using total by force
      then have "k \<notin> set (map ls_language_id ?xs)" unfolding names .
      then show ?thesis unfolding None find_None_all by auto
    next
      case (Some e)
      then have "k \<in> set ks" using ks(1) by (simp add: set_bt_keys)
      with Some named [of k] have "e \<in> set ?xs" "ls_language_id e = k" by force+
      then show ?thesis using Some find_distinct_key [OF distinct, of e] by simp
    qed
    then show "bt_get (fold (\<lambda>s. bt_insert (ls_language_id s) s) ?xs bt_empty) k = bt_get ?m k"
      by (simp only: restored_find [OF distinct])
  qed
qed

lemma snapshot_kept:
  assumes "settings_ok g" "mset ks = mset (bt_keys (lg_selections g))"
    "bt_len (lg_selections g) \<le> ENTRY_LIMIT" "length (lg_approvals g) \<le> ENTRY_LIMIT"
  obtains s where
    "settings_new (List.map_filter (bt_get (lg_selections g)) ks) (lg_approvals g) (lg_problems_visible g) = Inr s"
    "restore_settings s = Inr \<lparr>rs_selections = List.map_filter (bt_get (lg_selections g)) ks,
       rs_approvals = lg_approvals g, rs_problems_visible = lg_problems_visible g\<rparr>"
proof -
  note k = kept_selections [OF assms(1,2)]
  have distinct: "distinct ks" using assms(2) bt_keys_distinct by (metis mset_eq_imp_distinct_iff)
  have "\<exists>s. settings_new (List.map_filter (bt_get (lg_selections g)) ks) (lg_approvals g) (lg_problems_visible g) = Inr s"
    by (rule settings_new_ok) (use assms k distinct in \<open>auto simp: settings_ok_def\<close>)
  with settings_new_restores that show ?thesis by blast
qed

section \<open>Commands and approvals\<close>

text \<open>Two commands with different fingerprint inputs and the same digest.\<close>

definition collide :: "(byte_string \<Rightarrow> byte_string) \<Rightarrow> resolved_command \<Rightarrow> resolved_command \<Rightarrow> bool" where
  "collide blake3 c d \<longleftrightarrow> fingerprint_input c \<noteq> fingerprint_input d \<and> blake3 (fingerprint_input c) = blake3 (fingerprint_input d)"

definition addressable :: "resolved_command \<Rightarrow> bool" where
  "addressable c \<longleftrightarrow> (\<forall>s \<in> set (command_strings c). str_len s < 2 ^ 64)"

lemma approved_exactly:
  assumes "fingerprint blake3 c = fingerprint blake3 d" "\<not> collide blake3 c d" "addressable c" "addressable d"
  shows "map as_bytes (command_strings c) = map as_bytes (command_strings d)"
  by (rule fingerprint_exact [OF assms(1)]) (use assms in \<open>auto simp: collide_def fingerprint_def addressable_def\<close>)

lemma workspace_discovery:
  assumes "discover_workspace_language blake3 canonical error_text path_env workspace loaded language descriptor approvals =
      Inr (CompletionAvailable server)" "dv_source server = Workspace"
  shows "\<exists>a \<in> set approvals. ap_language_id a = language \<and> approval_matches blake3 a (dv_command server)"
proof -
  obtain d outcome where d: "discover blake3 canonical d path_env workspace Unreviewed = Inr outcome"
    "(case outcome of
        Available server \<Rightarrow> CompletionAvailable server
      | ApprovalRequired server \<Rightarrow>
          if list_ex (\<lambda>approval. ap_language_id approval = language \<and> approval_matches blake3 approval (dv_command server)) approvals
          then CompletionAvailable server else CompletionApprovalRequired server
      | Unavailable _ \<Rightarrow> CompletionUnavailable
      | Disabled \<Rightarrow> CompletionDisabled) = CompletionAvailable server"
    using assms(1) by (auto simp: discover_workspace_language_def outcome split: option.splits)
  from d(1) show ?thesis
  proof (cases rule: discover_unreviewed)
    case (found p server')
    with d(2) assms(2) show ?thesis
      by (cases "de_source d = Workspace") (auto simp: list_ex_iff split: if_splits)
  qed (use d(2) in simp_all)
qed

section \<open>Properties\<close>

text \<open>
  C35. In every reachable coordinator, documents opened again while open included, what is shown belongs
  to open documents: diagnostics, bounded and filed under their document, guards, completions and
  definitions. A server that waits for an approval has a command to approve, and approvals and selections
  are valid, one for a language. If every opening of an open document told nothing new, guards and
  completions are moreover at the present revision of their document, and diagnostics of its language
  (\<open>shown_ok True\<close>); an opening at another revision breaks that
  (\<open>reopening_keeps_old_completions\<close>).
\<close>

theorem coordinators_stay_consistent:
  assumes "coordinator_reach go workspace g"
  shows "coordinator_ok g \<and> (coordinator_in_step go workspace g \<longrightarrow> shown_ok True g)"
  using reachable_ok [OF assms] in_step_shown by blast

text \<open>
  C38. The settings of a reachable coordinator survive a restart: while there are at most 128 of each,
  the snapshot is made whatever the order of the map, it is accepted when it is restored, and the new
  coordinator has the same selections, approvals and visibility, and neither servers nor documents.
\<close>

theorem language_settings_survive:
  assumes "coordinator_reach go workspace g" "mset (order (bt_keys (lg_selections g))) = mset (bt_keys (lg_selections g))"
    "bt_len (lg_selections g) \<le> ENTRY_LIMIT" "length (lg_approvals g) \<le> ENTRY_LIMIT"
  shows "\<exists>s restored. fst (coordinator_snapshot order g) = Some s \<and> restore_settings s = Inr restored \<and>
    (let h = coordinator_restore workspace restored in
       lg_selections h = lg_selections g \<and> lg_approvals h = lg_approvals g \<and>
       lg_problems_visible h = lg_problems_visible g \<and> lg_servers h = bt_empty \<and> lg_documents h = bt_empty)"
proof -
  have ok: "settings_ok g" using reachable_ok [OF assms(1)] by (simp add: coordinator_ok_def)
  obtain s where s: "settings_new (List.map_filter (bt_get (lg_selections g)) (order (bt_keys (lg_selections g))))
      (lg_approvals g) (lg_problems_visible g) = Inr s"
    "restore_settings s = Inr \<lparr>rs_selections = List.map_filter (bt_get (lg_selections g)) (order (bt_keys (lg_selections g))),
       rs_approvals = lg_approvals g, rs_problems_visible = lg_problems_visible g\<rparr>"
    by (rule snapshot_kept [OF ok assms(2-4)])
  have "fst (coordinator_snapshot order g) = Some s" using s(1) by (simp add: coordinator_snapshot_def)
  with s(2) kept_selections(3) [OF ok assms(2)] show ?thesis
    by (simp add: Let_def coordinator_restore_def coordinator_new_def)
qed

text \<open>
  C37. Answers come too late once a language is discovered again: in a run that begins fewer than
  \<open>2 ^ 64\<close> discoveries of a language, each has a number of its own, and the discovery result, readiness,
  failure, stop or diagnostics of any but the last changes nothing.
\<close>

theorem late_answers_change_nothing:
  assumes "coordinator_run go cmds g = (effects, g')" "length (discoveries language effects) < 2 ^ 64"
    "generation \<in> set (butlast (discoveries language effects))" "answer_for cmd = Some (language, generation)"
  shows "distinct (discoveries language effects) \<and> coordinator_step go cmd g' = ([], g')"
proof -
  let ?n = "length (discoveries language effects)"
  let ?number = "\<lambda>i. server_generation language g + of_nat (Suc i)"
  have run: "discoveries language effects = map ?number [0..<?n]" "server_generation language g' = server_generation language g + of_nat ?n"
    using run_discoveries [OF assms(1), of language] by blast+
  have apart: "?number i \<noteq> server_generation language g + of_nat k" if "Suc i < k" "k \<le> ?n" for i k
  proof
    assume "?number i = server_generation language g + of_nat k"
    then have "(of_nat (Suc i) :: u64) = of_nat k" by (simp only: add_left_cancel)
    from arg_cong [OF this, of unat] that assms(2) show False by (simp add: unat_of_nat take_bit_eq_mod del: of_nat_Suc)
  qed
  have "inj_on ?number (set [0..<?n])"
  proof (rule linorder_inj_onI')
    fix i j assume "i \<in> set [0..<?n]" "j \<in> set [0..<?n]" "i < j"
    with apart [of i "Suc j"] show "?number i \<noteq> ?number j" by simp
  qed
  then have "distinct (discoveries language effects)" by (subst run(1)) (simp add: distinct_map)
  moreover have "generation \<noteq> server_generation language g'"
  proof -
    from assms(3) obtain i where i: "i < ?n - 1" "generation = discoveries language effects ! i"
      by (auto simp: in_set_conv_nth nth_butlast)
    have "discoveries language effects ! i = ?number i" using i(1) by (subst run(1), subst nth_map_upt) simp_all
    with i apart [of i ?n] run(2) show ?thesis by simp
  qed
  ultimately show ?thesis using stale_answer [OF assms(4)] by blast
qed

text \<open>
  C36. A server that the configuration of a workspace names runs without a question only if an approval
  for its language matches the command that runs, and the approval holds for that command alone: any
  other command it matches has the same executable and the same arguments, in the same order and cut at
  the same places, or is a collision of BLAKE3.
\<close>

theorem workspace_servers_are_approved:
  assumes "discover_workspace_language blake3 canonical error_text path_env workspace loaded language descriptor approvals =
      Inr (CompletionAvailable server)" "dv_source server = Workspace" "addressable (dv_command server)"
  shows "\<exists>a \<in> set approvals. ap_language_id a = language \<and> approval_matches blake3 a (dv_command server) \<and>
    (\<forall>c. addressable c \<longrightarrow> approval_matches blake3 a c \<longrightarrow>
       map as_bytes (command_strings c) = map as_bytes (command_strings (dv_command server)) \<or> collide blake3 c (dv_command server))"
proof -
  from workspace_discovery [OF assms(1,2)] obtain a where
    "a \<in> set approvals" "ap_language_id a = language" "approval_matches blake3 a (dv_command server)" by blast
  with approved_exactly [OF _ _ _ assms(3)] show ?thesis unfolding approval_matches_def by metis
qed


section \<open>Witnesses\<close>

definition example_coordinator_outside :: coordinator_outside where
  "example_coordinator_outside =
     \<lparr>go_blake3 = (\<lambda>bs. bs), go_to_file_path = (\<lambda>_. None), go_order = (\<lambda>xs. xs), go_selection_order = rev\<rparr>"

text \<open>A document opened twice, the second time with nothing new.\<close>

definition example_opened :: coordinator where
  "example_opened = snd (coordinator_step example_coordinator_outside (GOpen 1 (lit ''a.rs'') None 1 (Some (lit ''x''))) (coordinator_new (lit ''w'')))"

definition example_reopened :: coordinator where
  "example_reopened = snd (coordinator_step example_coordinator_outside (GOpen 1 (lit ''a.rs'') None 1 (Some (lit ''x''))) example_opened)"

lemma example_nothing_new:
  "nothing_new (GOpen 1 (lit ''a.rs'') None 1 (Some (lit ''x''))) (coordinator_new (lit ''w''))"
  "nothing_new (GOpen 1 (lit ''a.rs'') None 1 (Some (lit ''x''))) example_opened"
  by (simp_all add: nothing_new_def example_opened_def coordinator_new_def open_document_def ensure_language_started_def
      put_server_def Let_def split: option.split)

theorem coordinators_stay_consistent_witness:
  "coordinator_ok example_reopened \<and> shown_ok True example_reopened"
proof -
  have "coordinator_reach example_coordinator_outside (lit ''w'') example_reopened"
    unfolding example_reopened_def example_opened_def
    by (intro reach_step reach_new) (simp_all add: allowed_def)
  moreover have "coordinator_in_step example_coordinator_outside (lit ''w'') example_opened"
    unfolding example_opened_def
    by (rule in_step_step [OF in_step_new]) (simp_all add: allowed_def example_nothing_new)
  then have "coordinator_in_step example_coordinator_outside (lit ''w'') example_reopened"
    unfolding example_reopened_def
    by (rule in_step_step) (simp_all add: allowed_def example_nothing_new)
  ultimately show ?thesis using coordinators_stay_consistent by blast
qed

definition example_language_settings :: language_session_snapshot where
  "example_language_settings =
     \<lparr>ss_schema_version = 1,
      ss_selections = [\<lparr>ls_language_id = lit ''rust'', ls_descriptor_id = lit ''ra'', ls_enabled = False, ls_extensions = bt_empty\<rparr>],
      ss_approvals = [\<lparr>ap_language_id = lit ''toml'', ap_fingerprint = [7], ap_extensions = bt_empty\<rparr>],
      ss_problems_visible = True, ss_extensions = bt_empty\<rparr>"

theorem language_settings_survive_witness:
  "\<exists>restored s. restore_settings example_language_settings = Inr restored \<and>
     fst (coordinator_snapshot rev (coordinator_restore (lit ''w'') restored)) = Some s"
proof -
  have "validate_settings example_language_settings = Inr ()"
    by (simp add: validate_settings_def example_language_settings_def LANGUAGE_SCHEMA_VERSION_def ENTRY_LIMIT_def
        valid_identifier_def identifier_byte_def lit_def str_len_def len_utf8_def)
  then obtain restored where r: "restore_settings example_language_settings = Inr restored"
    "rs_selections restored = ss_selections example_language_settings" "length (rs_approvals restored) = 1"
    by (simp add: restore_settings_def example_language_settings_def)
  let ?g = "coordinator_restore (lit ''w'') restored"
  have "bt_len (lg_selections ?g) \<le> ENTRY_LIMIT" "length (lg_approvals ?g) \<le> ENTRY_LIMIT"
    using r(2,3) by (simp_all add: coordinator_restore_def example_language_settings_def ENTRY_LIMIT_def bt_len_insert)
      (simp add: bt_len_def)
  from language_settings_survive [OF reach_restore [OF r(1), of example_coordinator_outside "lit ''w''"] _ this, of rev]
  show ?thesis using r(1) by auto
qed

definition example_language_run :: "coordinator_command list" where
  "example_language_run =
     [GOpen 1 (lit ''a'') (Some (lit ''rust'')) 1 (Some (lit ''x'')), GFinished (lit ''w'') (lit ''rust'') 1 ServerFailed,
      GRetry (lit ''rust'')]"

theorem late_answers_change_nothing_witness:
  "\<exists>effects g. coordinator_run example_coordinator_outside example_language_run (coordinator_new (lit ''w'')) = (effects, g) \<and>
     discoveries (lit ''rust'') effects = [1, 2] \<and>
     coordinator_step example_coordinator_outside (GReady (lit ''rust'') 1 Utf8) g = ([], g)"
proof -
  let ?r = "coordinator_run example_coordinator_outside example_language_run (coordinator_new (lit ''w''))"
  have d: "discoveries (lit ''rust'') (fst ?r) = [1, 2]"
    by (simp add: example_language_run_def coordinator_new_def open_document_def detect_language_def selection_enabled_def
        ensure_language_started_def server_entry_def server_default_def put_server_def discovery_finished_def discovering_def
        retry_def lit_def Let_def)
  from late_answers_change_nothing [of example_coordinator_outside example_language_run "coordinator_new (lit ''w'')"
      "fst ?r" "snd ?r" "lit ''rust''" 1 "GReady (lit ''rust'') 1 Utf8"] d
  have "coordinator_step example_coordinator_outside (GReady (lit ''rust'') 1 Utf8) (snd ?r) = ([], snd ?r)" by simp
  with d show ?thesis by (metis prod.collapse)
qed

lemmas built_in_eval = built_in_def candidate_path_name_def path_components_def lit_def SLASH_def normal_component_def
  has_nul_def descriptor_new_def valid_identifier_def identifier_byte_def trim_def is_whitespace_def str_len_def len_utf8_def

lemma built_in_descriptors_valid: "\<not> isl built_in_descriptors"
  by (simp add: built_in_descriptors_def registry_new_def built_in_eval)

definition example_command :: resolved_command where
  "example_command = \<lparr>rc_executable = lit ''/s'', rc_arguments = [lit ''-x'']\<rparr>"

definition example_descriptor :: language_server_descriptor where
  "example_descriptor =
     \<lparr>de_id = lit ''own'', de_display_name = lit ''Own'', de_language_ids = [lit ''rust''], de_candidates = [AbsolutePath (lit ''/s'')],
      de_arguments = [lit ''-x''], de_source = Workspace, de_enabled = True, de_installation_guidance = None,
      de_workspace_markers = []\<rparr>"

definition example_approval :: approval_snapshot where
  "example_approval =
     \<lparr>ap_language_id = lit ''rust'', ap_fingerprint = fingerprint_input example_command, ap_extensions = bt_empty\<rparr>"

lemma example_discovery:
  "discover_workspace_language (\<lambda>bs. bs) (\<lambda>p. Inr (Some p)) (\<lambda>_. []) None (lit ''w'') (Inr (Some [example_descriptor]))
     (lit ''rust'') (Some (lit ''own'')) [example_approval] =
   Inr (CompletionAvailable \<lparr>dv_descriptor_id = lit ''own'', dv_source = Workspace, dv_command = example_command\<rparr>)"
proof -
  obtain r where r: "built_in_descriptors = Inr r" using built_in_descriptors_valid by (metis sum.collapse(2))
  show ?thesis
    unfolding discover_workspace_language_def r
    by (simp add: or_else_def discover_def resolve_executable_def resolved_command_new_def
      approval_matches_def fingerprint_def is_absolute_def path_components_def SLASH_def has_nul_def lit_def
      example_descriptor_def example_approval_def example_command_def)
qed

theorem workspace_servers_are_approved_witness:
  "\<exists>a \<in> set [example_approval]. approval_matches (\<lambda>bs. bs) a example_command \<and>
     (\<forall>c. addressable c \<longrightarrow> approval_matches (\<lambda>bs. bs) a c \<longrightarrow>
       map as_bytes (command_strings c) = map as_bytes (command_strings example_command) \<or> collide (\<lambda>bs. bs) c example_command)"
proof -
  have "addressable example_command"
    by (simp add: addressable_def command_strings_def example_command_def lit_def str_len_def len_utf8_def)
  then show ?thesis using workspace_servers_are_approved [OF example_discovery] by simp
qed

end
