(* ===== verification/LanguageSync.thy ===== *)
theory LanguageSync imports LanguageClientLaws begin

text \<open>
  The properties of the client of a language server: answers, restarts, and the documents the server
  sees while the queue has room and no document is opened again with a change pending. The server's view
  is read off the messages it is sent.
\<close>

section \<open>Answers\<close>

definition invalidates :: "hash_order \<Rightarrow> rust_string \<Rightarrow> client_command \<Rightarrow> language_client \<Rightarrow> bool" where
  "invalidates order document cmd c =
     (case cmd of
        CChange d revision contents now \<Rightarrow> d = document \<and> fst (did_change order d revision contents now c) = Inr ()
      | CClose d now \<Rightarrow> d = document \<and> fst (did_close order d now c) = Inr ()
      | _ \<Rightarrow> False)"

definition gone :: "u64 \<Rightarrow> language_client \<Rightarrow> bool" where
  "gone n c \<longleftrightarrow> bt_get (lc_requests c) n = None \<and> n \<le> ra_next (lc_ids c)"

lemma exited_requests: "lc_requests (snd (process_exited now c)) = bt_empty" "lc_ids (snd (process_exited now c)) = lc_ids c"
  by (simp_all add: process_exited_def restart_generation_def clear_generation_def Let_def)

lemma step_requests:
  assumes "n \<le> ra_next (lc_ids c)"
  shows "n \<le> ra_next (lc_ids (client_step order cmd c))"
    "bt_get (lc_requests (client_step order cmd c)) n = None \<or>
     bt_get (lc_requests (client_step order cmd c)) n = bt_get (lc_requests c) n"
  using assms client_step_frame [of cmd c order] exited_requests
  by (cases cmd; auto simp: step_frame_def intro: order_trans)+

lemma run_requests:
  "n \<le> ra_next (lc_ids c) \<Longrightarrow> n \<le> ra_next (lc_ids (client_run order cmds c)) \<and>
    (bt_get (lc_requests (client_run order cmds c)) n = None \<or>
     bt_get (lc_requests (client_run order cmds c)) n = bt_get (lc_requests c) n)"
proof (induction cmds arbitrary: c)
  case Nil
  then show ?case by simp
next
  case (Cons cmd cmds)
  from Cons.IH [OF step_requests(1) [OF Cons.prems, of order cmd]] step_requests(2) [OF Cons.prems, of order cmd]
  show ?case by auto
qed

lemma gone_run: "gone n c \<Longrightarrow> gone n (client_run order cmds c)"
  using run_requests [of n c order cmds] by (auto simp: gone_def)

lemma did_change_cases:
  assumes "did_change order d revision contents now c = (r, c')"
  obtains (refused) e where "r = Inl e" "c' = c" "e \<noteq> OutboundQueueFull"
  | (recorded) state where "lc_state c = Ready" "bt_get (lc_documents c) d = Some state" "ds_revision state < revision"
      "invalidate_document_requests order d
         (c\<lparr>lc_documents := bt_insert d (state\<lparr>ds_revision := revision\<rparr>) (lc_documents c),
            lc_pending_changes := bt_insert d \<lparr>ch_revision = revision, ch_text = contents, ch_due = now + CHANGE_DELAY\<rparr>
              (lc_pending_changes c)\<rparr>) = (r, c')"
proof (cases "lc_state c = Ready")
  case False
  with assms have "r = Inl NotReady \<and> c' = c" by (simp add: did_change_def ensure_ready_def)
  then show ?thesis by (intro refused [of NotReady]) simp_all
next
  case True
  show ?thesis
  proof (cases "bt_get (lc_documents c) d")
    case None
    with True assms have "r = Inl UnknownDocument \<and> c' = c" by (simp add: did_change_def ensure_ready_def)
    then show ?thesis by (intro refused [of UnknownDocument]) simp_all
  next
    case (Some state)
    show ?thesis
    proof (cases "revision \<le> ds_revision state")
      case le: True
      with True Some assms have "r = Inl InvalidRevision \<and> c' = c" by (simp add: did_change_def ensure_ready_def)
      then show ?thesis by (intro refused [of InvalidRevision]) simp_all
    next
      case False
      with True Some assms show ?thesis by (intro recorded [of state]) (simp_all add: did_change_def ensure_ready_def)
    qed
  qed
qed

lemma invalidates_gone:
  assumes "permutes_keys order" "invalidates order document cmd c"
    "\<And>q. bt_get (lc_requests c) n = Some q \<Longrightarrow> fr_document q = document" "n \<le> ra_next (lc_ids c)"
  shows "gone n (client_step order cmd c)"
proof -
  have walk: "bt_get (fold bt_remove (walked order m (\<lambda>request. fr_document request = document)) m) n = None"
    if "m = lc_requests c" for m
    using assms(3) that by (cases "bt_get m n") (auto simp: bt_get_fold_remove set_walked [OF assms(1)])
  have ids: "n \<le> ra_next (lc_ids (client_step order cmd c))" by (rule step_requests(1) [OF assms(4)])
  consider (change) revision contents now where "cmd = CChange document revision contents now"
      "fst (did_change order document revision contents now c) = Inr ()"
    | (closing) now where "cmd = CClose document now" "fst (did_close order document now c) = Inr ()"
    using assms(2) by (auto simp: invalidates_def split: client_command.splits)
  then have "bt_get (lc_requests (client_step order cmd c)) n = None"
  proof cases
    case change
    obtain c' where run: "did_change order document revision contents now c = (Inr (), c')"
      using change(2) by (cases "did_change order document revision contents now c") simp
    then obtain c0 where "lc_requests c0 = lc_requests c" "invalidate_document_requests order document c0 = (Inr (), c')"
    proof (cases rule: did_change_cases)
      case (recorded state)
      then show ?thesis by (intro that) simp_all
    qed simp
    with invalidate_document_fewer [of order document c0 "Inr ()" c'] walk have "bt_get (lc_requests c') n = None" by simp
    with change(1) run show ?thesis by simp
  next
    case closing
    obtain c' where run: "did_close order document now c = (Inr (), c')"
      using closing(2) by (cases "did_close order document now c") simp
    let ?c = "c\<lparr>lc_documents := bt_remove document (lc_documents c), lc_pending_changes := bt_remove document (lc_pending_changes c)\<rparr>"
    obtain q c1 where inv: "invalidate_document_requests order document ?c = (q, c1)" by force
    obtain p c2 where push: "push_notification ''textDocument/didClose'' (text_document document) c1 = (p, c2)" by force
    have ok: "q = Inr ()" "p = Inr ()" "lc_requests c' = lc_requests c2"
      using run inv push by (auto simp: did_close_def ensure_ready_def outcome split: if_splits sum.splits)
    have "lc_requests c2 = lc_requests c1" using push by (simp add: push_notification_def push_other)
    with ok inv invalidate_document_fewer [OF inv] walk have "bt_get (lc_requests c') n = None" by simp
    with closing(1) run show ?thesis by simp
  qed
  with ids show ?thesis by (simp add: gone_def)
qed

lemma request_made:
  assumes "request_feature order kind document revision pos now c = (Inr request, c1)"
  shows "fr_document request = document" "fr_revision request = revision" "fr_generation request = lc_generation c"
    "bt_get (lc_requests c1) (fr_id request) = Some request" "fr_id request \<le> ra_next (lc_ids c1)"
  using assms by (cases rule: request_feature_cases; simp)+

section \<open>Restarts\<close>

fun exit_times :: "client_command list \<Rightarrow> duration list" where
  "exit_times [] = []"
| "exit_times (CExited now # cmds) = now # exit_times cmds"
| "exit_times (_ # cmds) = exit_times cmds"

lemma exit_times_append [simp]: "exit_times (xs @ ys) = exit_times xs @ exit_times ys"
  by (induction xs rule: exit_times.induct) simp_all

lemma exit_times_other: "(\<And>now. cmd \<noteq> CExited now) \<Longrightarrow> exit_times [cmd] = []"
  by (cases cmd) auto

lemma dropWhile_recent:
  "sorted (ts @ [now]) \<Longrightarrow> dropWhile (\<lambda>t. now - t > w) ts = filter (\<lambda>t. now - t \<le> (w :: nat)) ts"
proof (induction ts)
  case Nil
  then show ?case by simp
next
  case (Cons t ts)
  show ?case
  proof (cases "now - t > w")
    case True
    with Cons show ?thesis by simp
  next
    case False
    then have "\<forall>s \<in> set ts. now - s \<le> w" using Cons.prems by auto
    with False show ?thesis by (simp add: filter_id_conv)
  qed
qed

text \<open>The crashes that are kept are the last ones; those dropped were out of the window then, and are now.\<close>

lemma crash_times_kept:
  "sorted (exit_times cmds) \<Longrightarrow> lc_crash_times c = [] \<Longrightarrow>
    \<exists>old. exit_times cmds = old @ lc_crash_times (client_run order cmds c) \<and>
      (\<forall>t \<in> set old. last (exit_times cmds) - t > RESTART_WINDOW)"
proof (induction cmds rule: rev_induct)
  case Nil
  then show ?case by simp
next
  case (snoc cmd cmds)
  have "sorted (exit_times cmds)" using snoc.prems(1) by (simp add: sorted_append)
  then obtain old where old: "exit_times cmds = old @ lc_crash_times (client_run order cmds c)"
    "\<forall>t \<in> set old. last (exit_times cmds) - t > RESTART_WINDOW"
    using snoc.IH snoc.prems(2) by blast
  show ?case
  proof (cases "\<exists>now. cmd = CExited now")
    case False
    then have "exit_times [cmd] = []" "step_frame (client_run order cmds c) (client_step order cmd (client_run order cmds c))"
      using exit_times_other client_step_frame by blast+
    with old show ?thesis by (intro exI [of _ old]) (simp add: step_frame_def)
  next
    case True
    then obtain now where now: "cmd = CExited now" by blast
    let ?ts = "lc_crash_times (client_run order cmds c)"
    have later: "\<forall>t \<in> set (exit_times cmds). t \<le> now" "sorted (?ts @ [now])"
      using snoc.prems(1) old(1) now by (auto simp: sorted_append)
    have kept: "lc_crash_times (client_run order (cmds @ [cmd]) c) = dropWhile (\<lambda>t. now - t > RESTART_WINDOW) ?ts @ [now]"
      by (simp add: now process_exited_def restart_generation_def clear_generation_def Let_def)
    have split: "?ts = takeWhile (\<lambda>t. now - t > RESTART_WINDOW) ?ts @ dropWhile (\<lambda>t. now - t > RESTART_WINDOW) ?ts" by simp
    have "now - t > RESTART_WINDOW" if "t \<in> set old" for t
    proof -
      have "last (exit_times cmds) \<in> set (exit_times cmds)" using that old(1) by (intro last_in_set) auto
      with later(1) old(2) that show ?thesis by fastforce
    qed
    moreover have "\<forall>t \<in> set (takeWhile (\<lambda>t. now - t > RESTART_WINDOW) ?ts). now - t > RESTART_WINDOW" by (blast dest: set_takeWhileD)
    ultimately show ?thesis
      using old(1) split kept now
      by (intro exI [of _ "old @ takeWhile (\<lambda>t. now - t > RESTART_WINDOW) ?ts"]) auto
  qed
qed

section \<open>The server's view\<close>

type_synonym document_view = "rust_string \<Rightarrow> (u64 \<times> rust_string) option"

text \<open>What a server makes of the notifications about documents.\<close>

definition server_apply :: "outbound_message \<Rightarrow> document_view \<Rightarrow> document_view" where
  "server_apply m view =
     (let document = json_index (om_params m) ''textDocument'' in
      case (json_as_str (json_index document ''uri''), json_as_u64 (json_index document ''version'')) of
        (Some uri, Some version) \<Rightarrow>
          if om_method m = ''textDocument/didOpen'' then
            (case json_as_str (json_index document ''text'') of Some contents \<Rightarrow> view(uri \<mapsto> (version, contents)) | None \<Rightarrow> view)
          else if om_method m = ''textDocument/didChange'' \<and> view uri \<noteq> None then
            (case json_as_array (json_index (om_params m) ''contentChanges'') of
               Some [change] \<Rightarrow>
                 (case json_as_str (json_index change ''text'') of Some contents \<Rightarrow> view(uri \<mapsto> (version, contents)) | None \<Rightarrow> view)
             | _ \<Rightarrow> view)
          else view
      | (Some uri, None) \<Rightarrow> if om_method m = ''textDocument/didClose'' then view(uri := None) else view
      | _ \<Rightarrow> view)"

definition server_view :: "outbound_message list \<Rightarrow> document_view \<Rightarrow> document_view" where
  "server_view = fold server_apply"

lemma server_view_simps [simp]:
  "server_view [] v = v" "server_view (m # ms) v = server_view ms (server_apply m v)"
  "server_view (ms @ ns) v = server_view ns (server_view ms v)"
  by (simp_all add: server_view_def)

lemma json_index_jobject [simp]: "json_index (jobject ms) name = (case map_of ms name of Some v \<Rightarrow> v | None \<Rightarrow> JNull)"
  by (simp add: json_index_def)

lemma json_index_null [simp]: "json_index JNull name = JNull"
  by (simp add: json_index_def json_get_def)

lemma apply_open [simp]:
  "server_apply \<lparr>om_id = i, om_method = ''textDocument/didOpen'', om_params = did_open_params d l r t\<rparr> v = v(d \<mapsto> (r, t))"
  by (simp add: server_apply_def did_open_params_def)

lemma apply_change [simp]:
  "server_apply \<lparr>om_id = i, om_method = ''textDocument/didChange'', om_params = did_change_params d r t\<rparr> v =
    (if v d = None then v else v(d \<mapsto> (r, t)))"
  by (simp add: server_apply_def did_change_params_def)

lemma apply_text_document:
  "server_apply \<lparr>om_id = i, om_method = a, om_params = text_document d\<rparr> v =
    (if a = ''textDocument/didClose'' then v(d := None) else v)"
  by (simp add: server_apply_def text_document_def)

lemma apply_position [simp]:
  "server_apply \<lparr>om_id = i, om_method = feature_method kind, om_params = position_params d pos\<rparr> v = v"
  by (cases kind) (simp_all add: server_apply_def position_params_def)

lemma apply_cancel [simp]:
  "server_apply \<lparr>om_id = i, om_method = ''$/cancelRequest'', om_params = jobject [(''id'', n)]\<rparr> v = v"
  by (simp add: server_apply_def)

text \<open>
  The client and the text its caller has told it: a document without a pending change is what the
  server will see once the queue is sent, and a pending change is the text told.
\<close>

definition mirrors :: "language_client \<Rightarrow> document_view \<Rightarrow> document_view \<Rightarrow> bool" where
  "mirrors c sent told \<longleftrightarrow>
     (\<forall>d. bt_get (lc_pending_changes c) d = None \<longrightarrow> server_view (lc_outbound c) sent d = told d) \<and>
     (\<forall>d change. bt_get (lc_pending_changes c) d = Some change \<longrightarrow>
        told d = Some (ch_revision change, ch_text change) \<and> server_view (lc_outbound c) sent d \<noteq> None) \<and>
     (\<forall>d. bt_contains (lc_documents c) d \<longleftrightarrow> told d \<noteq> None)"

text \<open>
  One operation on the client, with the view of what was sent and the text its caller has told it: an
  opening, change or closing the client accepts is told, and a message taken from the queue is sent.
\<close>

fun told_by :: "hash_order \<Rightarrow> client_command \<Rightarrow> language_client \<Rightarrow> document_view \<Rightarrow> document_view" where
  "told_by order (COpen d revision contents) c told =
     (if fst (did_open d revision contents c) = Inr () then told(d \<mapsto> (revision, contents)) else told)"
| "told_by order (CChange d revision contents now) c told =
     (if fst (did_change order d revision contents now c) = Inr () then told(d \<mapsto> (revision, contents)) else told)"
| "told_by order (CClose d now) c told = (if fst (did_close order d now c) = Inr () then told(d := None) else told)"
| "told_by order _ c told = told"

fun sent_by :: "client_command \<Rightarrow> language_client \<Rightarrow> document_view \<Rightarrow> document_view" where
  "sent_by CTake c sent = (case fst (take_outbound c) of Some m \<Rightarrow> server_apply m sent | None \<Rightarrow> sent)"
| "sent_by _ c sent = sent"

fun sync_step ::
  "hash_order \<Rightarrow> client_command \<Rightarrow> language_client \<times> document_view \<times> document_view \<Rightarrow>
     language_client \<times> document_view \<times> document_view" where
  "sync_step order cmd (c, sent, told) = (client_step order cmd c, sent_by cmd c sent, told_by order cmd c told)"

fun sync_run ::
  "hash_order \<Rightarrow> client_command list \<Rightarrow> language_client \<times> document_view \<times> document_view \<Rightarrow>
     language_client \<times> document_view \<times> document_view" where
  "sync_run order [] s = s"
| "sync_run order (cmd # cmds) s = sync_run order cmds (sync_step order cmd s)"

text \<open>
  What the server's view needs of an operation: the queue has room for what an opening, a change or a
  closing sends and for every change that is due, and a document is not opened again while a change of
  it is pending. The operations that begin or end the life of a server are left out.
\<close>

fun keeps_up :: "hash_order \<Rightarrow> client_command \<Rightarrow> language_client \<Rightarrow> bool" where
  "keeps_up order (COpen d revision contents) c \<longleftrightarrow>
     \<not> bt_contains (lc_pending_changes c) d \<and> fst (did_open d revision contents c) \<noteq> Inl OutboundQueueFull"
| "keeps_up order (CChange d revision contents now) c \<longleftrightarrow>
     fst (did_change order d revision contents now c) \<noteq> Inl OutboundQueueFull"
| "keeps_up order (CClose d now) c \<longleftrightarrow> fst (did_close order d now c) \<noteq> Inl OutboundQueueFull"
| "keeps_up order (CFlush now) c \<longleftrightarrow> fst (flush_changes now c) = length (due_changes now c)"
| "keeps_up order (CSave d) c \<longleftrightarrow> True"
| "keeps_up order (CRequest kind d revision pos now) c \<longleftrightarrow> True"
| "keeps_up order (CAcceptResponse request) c \<longleftrightarrow> True"
| "keeps_up order CTake c \<longleftrightarrow> True"
| "keeps_up order _ c \<longleftrightarrow> False"

fun all_keep_up :: "hash_order \<Rightarrow> client_command list \<Rightarrow> language_client \<Rightarrow> bool" where
  "all_keep_up order [] c \<longleftrightarrow> True"
| "all_keep_up order (cmd # cmds) c \<longleftrightarrow> keeps_up order cmd c \<and> all_keep_up order cmds (client_step order cmd c)"

lemma view_cancel_all:
  "cancel_all ns c = (r, c') \<Longrightarrow> server_view (lc_outbound c') v = server_view (lc_outbound c) v"
proof (induction ns arbitrary: c)
  case Nil
  then show ?case by simp
next
  case (Cons n ns)
  obtain q c1 where p: "push_cancel n (c\<lparr>lc_requests := bt_remove n (lc_requests c)\<rparr>) = (q, c1)" by force
  then have c1: "server_view (lc_outbound c1) v = server_view (lc_outbound c) v"
    by (auto simp: push_cancel_def push_notification_def elim!: push_outbound_cases)
  show ?case
  proof (cases q)
    case (Inl e)
    with p Cons.prems c1 show ?thesis by simp
  next
    case (Inr u)
    with p Cons.prems have "cancel_all ns c1 = (r, c')" by simp
    with Cons.IH c1 show ?thesis by simp
  qed
qed

lemma cancel_all_error: "cancel_all ns c = (r, c') \<Longrightarrow> r = Inl OutboundQueueFull \<or> r = Inr ()"
proof (induction ns arbitrary: c)
  case Nil
  then show ?case by simp
next
  case (Cons n ns)
  obtain q c1 where p: "push_cancel n (c\<lparr>lc_requests := bt_remove n (lc_requests c)\<rparr>) = (q, c1)" by force
  then have "q = Inl OutboundQueueFull \<or> q = Inr ()"
    by (auto simp: push_cancel_def push_notification_def elim!: push_outbound_cases)
  with Cons p show ?case by auto
qed

lemma mirrors_same:
  "mirrors c sent told \<Longrightarrow> lc_pending_changes c' = lc_pending_changes c \<Longrightarrow> lc_documents c' = lc_documents c \<Longrightarrow>
    server_view (lc_outbound c') sent = server_view (lc_outbound c) sent \<Longrightarrow> mirrors c' sent told"
  by (simp add: mirrors_def)

lemma mirrors_flush_loop:
  "flush_loop ds n c = (m, c') \<Longrightarrow> distinct ds \<Longrightarrow> \<forall>d \<in> set ds. bt_get (lc_pending_changes c) d \<noteq> None \<Longrightarrow>
    m \<le> n + length ds \<and> (m = n + length ds \<longrightarrow> mirrors c sent told \<longrightarrow> mirrors c' sent told)"
proof (induction ds arbitrary: n c)
  case Nil
  then show ?case by simp
next
  case (Cons d ds)
  obtain change where ch: "bt_get (lc_pending_changes c) d = Some change" using Cons.prems(3) by auto
  let ?c = "c\<lparr>lc_pending_changes := bt_remove d (lc_pending_changes c)\<rparr>"
  let ?m = "\<lparr>om_id = None, om_method = ''textDocument/didChange'', om_params = did_change_params d (ch_revision change) (ch_text change)\<rparr>"
  obtain q c1 where p: "push_outbound ?m ?c = (q, c1)" by force
  have pend: "lc_pending_changes c1 = bt_remove d (lc_pending_changes c)" "lc_documents c1 = lc_documents c"
    using push_other [OF p] by simp_all
  have rest: "distinct ds" "\<forall>x \<in> set ds. bt_get (lc_pending_changes c1) x \<noteq> None" using Cons.prems(2,3) by (auto simp: pend)
  show ?case
  proof (cases q)
    case (Inl e)
    with Cons.prems(1) ch p have "flush_loop ds n c1 = (m, c')" by (simp add: push_notification_def)
    from Cons.IH [OF this rest] show ?thesis by simp
  next
    case (Inr u)
    with Cons.prems(1) ch p have run: "flush_loop ds (n + 1) c1 = (m, c')" by (simp add: push_notification_def)
    have out: "lc_outbound c1 = lc_outbound c @ [?m]" using p Inr by (cases rule: push_outbound_cases) simp_all
    have "mirrors c1 sent told" if "mirrors c sent told"
    proof -
      have told: "told d = Some (ch_revision change, ch_text change)" "server_view (lc_outbound c) sent d \<noteq> None"
        using that ch unfolding mirrors_def by simp_all
      with that show ?thesis by (simp add: mirrors_def pend out)
    qed
    with Cons.IH [OF run rest] show ?thesis by simp
  qed
qed

lemma due_changes_pending:
  "distinct (due_changes now c)" "\<forall>d \<in> set (due_changes now c). bt_get (lc_pending_changes c) d \<noteq> None"
proof -
  have "distinct (map fst (bt_entries (lc_pending_changes c)))" using bt_keys_distinct by (simp add: bt_keys_def)
  then show "distinct (due_changes now c)" by (simp add: due_changes_def distinct_map_filter)
  show "\<forall>d \<in> set (due_changes now c). bt_get (lc_pending_changes c) d \<noteq> None"
    by (auto simp: due_changes_def bt_entries_get)
qed

lemma mirrors_change:
  assumes "mirrors c sent told" "did_change order d revision contents now c = (r, c')"
  shows "case r of Inr _ \<Rightarrow> mirrors c' sent (told(d \<mapsto> (revision, contents))) | Inl e \<Rightarrow> e = OutboundQueueFull \<or> mirrors c' sent told"
  using assms(2)
proof (cases rule: did_change_cases)
  case (refused e)
  with assms(1) show ?thesis by simp
next
  case (recorded state)
  let ?c = "c\<lparr>lc_documents := bt_insert d (state\<lparr>ds_revision := revision\<rparr>) (lc_documents c),
    lc_pending_changes := bt_insert d \<lparr>ch_revision = revision, ch_text = contents, ch_due = now + CHANGE_DELAY\<rparr> (lc_pending_changes c)\<rparr>"
  note f = invalidate_document_fewer [OF recorded(4)]
  have view: "server_view (lc_outbound c') sent = server_view (lc_outbound c) sent"
    using view_cancel_all [OF recorded(4) [unfolded invalidate_document_requests_def]] by simp
  have "bt_contains (lc_documents c) d" using recorded(2) by (simp add: bt_contains_def)
  then have "told d \<noteq> None" using assms(1) unfolding mirrors_def by blast
  then have "server_view (lc_outbound c) sent d \<noteq> None"
    using assms(1) by (cases "bt_get (lc_pending_changes c) d") (simp_all add: mirrors_def)
  then have m: "mirrors ?c sent (told(d \<mapsto> (revision, contents)))"
    using assms(1) by (simp add: mirrors_def bt_contains_def)
  have "mirrors c' sent (told(d \<mapsto> (revision, contents)))"
    by (rule mirrors_same [OF m]) (use f view fewerD(1) [of ?c c'] in simp_all)
  moreover have "r = Inl e \<Longrightarrow> e = OutboundQueueFull" for e
    using cancel_all_error [OF recorded(4) [unfolded invalidate_document_requests_def]] by simp
  ultimately show ?thesis by (cases r) simp_all
qed

lemma mirrors_close:
  assumes "mirrors c sent told" "did_close order d now c = (r, c')"
  shows "case r of Inr _ \<Rightarrow> mirrors c' sent (told(d := None)) | Inl e \<Rightarrow> e = OutboundQueueFull \<or> mirrors c' sent told"
proof (cases "lc_state c = Ready \<and> bt_contains (lc_documents c) d")
  case False
  then have "isl r \<and> c' = c"
    using assms(2) by (auto simp: did_close_def ensure_ready_def ensure_def attempt_def split: if_splits)
  with assms(1) show ?thesis by (cases r) simp_all
next
  case True
  let ?c = "c\<lparr>lc_documents := bt_remove d (lc_documents c), lc_pending_changes := bt_remove d (lc_pending_changes c)\<rparr>"
  obtain q c1 where inv: "invalidate_document_requests order d ?c = (q, c1)" by force
  note f = invalidate_document_fewer [OF inv]
  obtain p c2 where push: "push_outbound \<lparr>om_id = None, om_method = ''textDocument/didClose'', om_params = text_document d\<rparr> c1 = (p, c2)" by force
  have view: "server_view (lc_outbound c1) sent = server_view (lc_outbound c) sent"
    using view_cancel_all [OF inv [unfolded invalidate_document_requests_def]] by simp
  have q: "q = Inl OutboundQueueFull \<or> q = Inr ()" using cancel_all_error [OF inv [unfolded invalidate_document_requests_def]] .
  have run: "q = Inl e \<Longrightarrow> r = Inl e" "q = Inr () \<Longrightarrow> p = Inl e \<Longrightarrow> r = Inl e"
    "q = Inr () \<Longrightarrow> p = Inr () \<Longrightarrow> r = Inr () \<and> (c' = c2 \<or> (\<exists>x. c' = c2\<lparr>lc_idle_deadline := x\<rparr>))" for e
    using True inv push assms(2) by (auto simp: did_close_def push_notification_def ensure_ready_def split: if_splits)
  from push show ?thesis
  proof (cases rule: push_outbound_cases)
    case full
    with q run show ?thesis by auto
  next
    case queued
    show ?thesis
    proof (cases "q = Inr ()")
      case False
      with q run show ?thesis by auto
    next
      case True
      then have c': "lc_pending_changes c' = bt_remove d (lc_pending_changes c)" "lc_documents c' = bt_remove d (lc_documents c)"
        "server_view (lc_outbound c') sent = (server_view (lc_outbound c) sent)(d := None)" "r = Inr ()"
        using run(3) queued f view fewerD(1) [of ?c c1] by (auto simp: apply_text_document)
      have "mirrors c' sent (told(d := None))"
        using assms(1) unfolding mirrors_def c' by (simp add: bt_contains_def)
      with c'(4) show ?thesis by simp
    qed
  qed
qed

lemma mirrors_open:
  assumes "mirrors c sent told" "did_open d revision contents c = (r, c')" "\<not> bt_contains (lc_pending_changes c) d"
  shows "case r of Inr _ \<Rightarrow> mirrors c' sent (told(d \<mapsto> (revision, contents))) | Inl e \<Rightarrow> e = OutboundQueueFull \<or> mirrors c' sent told"
proof (cases "lc_state c = Ready")
  case False
  with assms(1,2) show ?thesis by (auto simp: did_open_def ensure_ready_def)
next
  case True
  let ?c = "c\<lparr>lc_documents := bt_insert d \<lparr>ds_revision = revision\<rparr> (lc_documents c), lc_idle_deadline := None\<rparr>"
  have push: "push_outbound \<lparr>om_id = None, om_method = ''textDocument/didOpen'',
      om_params = did_open_params d (lc_descriptor_id c) revision contents\<rparr> ?c = (r, c')"
    using True assms(2) by (simp add: did_open_def push_notification_def ensure_ready_def)
  from push show ?thesis
  proof (cases rule: push_outbound_cases)
    case queued
    have "bt_get (lc_pending_changes c) d = None" using assms(3) by (auto simp: bt_contains_def)
    with assms(1) have "mirrors c' sent (told(d \<mapsto> (revision, contents)))"
      by (simp add: mirrors_def bt_contains_def queued(2))
    with queued(1) show ?thesis by simp
  qed simp
qed

lemma mirrors_request:
  assumes "mirrors c sent told" "request_feature order kind d revision pos now c = (r, c')"
  shows "mirrors c' sent told"
  using assms(2)
proof (cases rule: request_feature_cases)
  case (refused e c1)
  have "lc_pending_changes c1 = lc_pending_changes c \<and> lc_documents c1 = lc_documents c \<and>
      server_view (lc_outbound c1) sent = server_view (lc_outbound c) sent"
    using refused(4)
  proof
    assume "\<exists>q. invalidate_feature_request order kind d c = (q, c1)"
    then obtain q where inv: "invalidate_feature_request order kind d c = (q, c1)" by blast
    from invalidate_feature_fewer [OF inv] fewerD(1) [of c c1] view_cancel_all [OF inv [unfolded invalidate_feature_request_def]]
    show ?thesis by simp
  qed simp
  then have "mirrors c1 sent told" using assms(1) by (auto intro: mirrors_same)
  then have "mirrors (c1\<lparr>lc_ids := x\<rparr>) sent told" for x by (auto intro: mirrors_same)
  with refused(5) show ?thesis by metis
next
  case (sent c1 ids request)
  from invalidate_feature_fewer [OF sent(5)] fewerD(1) [of c c1] view_cancel_all [OF sent(5) [unfolded invalidate_feature_request_def]]
  show ?thesis by (intro mirrors_same [OF assms(1)]) (simp_all add: sent(9))
qed

section \<open>Along a run\<close>

lemma mirrors_save:
  assumes "mirrors c sent told" "did_save d c = (r, c')"
  shows "mirrors c' sent told"
  using assms(2)
  by (intro mirrors_same [OF assms(1)])
    (auto simp: did_save_def push_notification_def ensure_ready_def ensure_def attempt_def apply_text_document
      elim!: push_outbound_cases split: if_splits)

lemma sync_step_mirrors:
  assumes "mirrors c sent told" "keeps_up order cmd c"
  shows "mirrors (client_step order cmd c) (sent_by cmd c sent) (told_by order cmd c told)"
proof (cases cmd)
  case (COpen d revision contents)
  obtain r c1 where run: "did_open d revision contents c = (r, c1)" by force
  with COpen assms(2) mirrors_open [OF assms(1) run] show ?thesis by (auto split: sum.splits)
next
  case (CChange d revision contents now)
  obtain r c1 where run: "did_change order d revision contents now c = (r, c1)" by force
  with CChange assms(2) mirrors_change [OF assms(1) run] show ?thesis by (auto split: sum.splits)
next
  case (CClose d now)
  obtain r c1 where run: "did_close order d now c = (r, c1)" by force
  with CClose assms(2) mirrors_close [OF assms(1) run] show ?thesis by (auto split: sum.splits)
next
  case (CSave d)
  with mirrors_save [OF assms(1), of d] show ?thesis by (cases "did_save d c") simp
next
  case (CRequest kind d revision pos now)
  with mirrors_request [OF assms(1), of order kind d revision pos now] show ?thesis
    by (cases "request_feature order kind d revision pos now c") simp
next
  case (CAcceptResponse request)
  have "mirrors (c\<lparr>lc_requests := bt_remove (fr_id request) (lc_requests c)\<rparr>) sent told"
    by (rule mirrors_same [OF assms(1)]) simp_all
  with CAcceptResponse show ?thesis by (simp add: accept_feature_response_def Let_def)
next
  case (CFlush now)
  obtain m c1 where run: "flush_loop (due_changes now c) 0 c = (m, c1)" by force
  from mirrors_flush_loop [OF run due_changes_pending, of sent told] assms CFlush run show ?thesis
    by (simp add: flush_changes_def)
next
  case CTake
  with assms(1) show ?thesis by (cases "lc_outbound c") (auto simp: take_outbound_def mirrors_def)
qed (use assms(2) in simp_all)

lemma sync_run_mirrors:
  "mirrors c sent told \<Longrightarrow> all_keep_up order cmds c \<Longrightarrow> sync_run order cmds (c, sent, told) = (c', sent', told') \<Longrightarrow>
    c' = client_run order cmds c \<and> mirrors c' sent' told'"
proof (induction cmds arbitrary: c sent told)
  case (Cons cmd cmds)
  with sync_step_mirrors [of c sent told order cmd] show ?case by simp
qed simp

section \<open>Opened again with a change pending\<close>

text \<open>A flush with room for all sends every pending change that is due, whatever the server had.\<close>

lemma flush_loop_sends:
  "flush_loop ds n c = (n + length ds, c') \<Longrightarrow> distinct ds \<Longrightarrow> \<forall>x \<in> set ds. bt_get (lc_pending_changes c) x \<noteq> None \<Longrightarrow>
    server_view (lc_outbound c) sent d \<noteq> None \<Longrightarrow>
    server_view (lc_outbound c') sent d =
      (if d \<in> set ds then map_option (\<lambda>change. (ch_revision change, ch_text change)) (bt_get (lc_pending_changes c) d)
       else server_view (lc_outbound c) sent d)"
proof (induction ds arbitrary: n c)
  case Nil
  then show ?case by simp
next
  case (Cons x ds)
  obtain change where ch: "bt_get (lc_pending_changes c) x = Some change" using Cons.prems(3) by auto
  let ?c = "c\<lparr>lc_pending_changes := bt_remove x (lc_pending_changes c)\<rparr>"
  let ?m = "\<lparr>om_id = None, om_method = ''textDocument/didChange'', om_params = did_change_params x (ch_revision change) (ch_text change)\<rparr>"
  obtain q c1 where p: "push_outbound ?m ?c = (q, c1)" by force
  have pend: "lc_pending_changes c1 = bt_remove x (lc_pending_changes c)" using push_other [OF p] by simp
  have rest: "distinct ds" "\<forall>y \<in> set ds. bt_get (lc_pending_changes c1) y \<noteq> None" using Cons.prems(2,3) by (auto simp: pend)
  show ?case
  proof (cases q)
    case (Inl e)
    with Cons.prems(1) ch p have "flush_loop ds n c1 = (n + length (x # ds), c')" by (simp add: push_notification_def)
    with mirrors_flush_loop [OF _ rest, of n _ c'] show ?thesis by fastforce
  next
    case (Inr u)
    with Cons.prems(1) ch p have run: "flush_loop ds (n + 1) c1 = ((n + 1) + length ds, c')" by (simp add: push_notification_def)
    have out: "lc_outbound c1 = lc_outbound c @ [?m]" using p Inr by (cases rule: push_outbound_cases) simp_all
    have known: "server_view (lc_outbound c1) sent d \<noteq> None" using Cons.prems(4) by (simp add: out)
    from Cons.IH [OF run rest known] Cons.prems(2,4) ch show ?thesis by (auto simp: out pend)
  qed
qed

text \<open>
  A change that waits for its delay outlives the opening of its document: after a change and an
  opening with a newer text, the flush sends the older text, and the server stays with it.
\<close>

lemma reopening_sends_the_older_text:
  assumes "did_change order d older x now c = (Inr (), c1)" "did_open d newer y c1 = (Inr (), c2)"
    "flush_changes later c2 = (length (due_changes later c2), c3)" "now + CHANGE_DELAY \<le> later"
  shows "server_view (lc_outbound c2) sent d = Some (newer, y)" "server_view (lc_outbound c3) sent d = Some (older, x)"
proof -
  let ?change = "\<lparr>ch_revision = older, ch_text = x, ch_due = now + CHANGE_DELAY\<rparr>"
  from assms(1) have "bt_get (lc_pending_changes c1) d = Some ?change"
  proof (cases rule: did_change_cases)
    case (recorded state)
    show ?thesis
      using invalidate_document_fewer [OF recorded(4)]
        fewerD(1) [of "c\<lparr>lc_documents := bt_insert d (state\<lparr>ds_revision := older\<rparr>) (lc_documents c),
          lc_pending_changes := bt_insert d ?change (lc_pending_changes c)\<rparr>" c1] by simp
  qed simp
  moreover have push: "push_outbound \<lparr>om_id = None, om_method = ''textDocument/didOpen'',
       om_params = did_open_params d (lc_descriptor_id c1) newer y\<rparr>
      (c1\<lparr>lc_documents := bt_insert d \<lparr>ds_revision = newer\<rparr> (lc_documents c1), lc_idle_deadline := None\<rparr>) = (Inr (), c2)"
    using assms(2) by (cases "lc_state c1 = Ready") (auto simp: did_open_def push_notification_def ensure_ready_def)
  then have "lc_pending_changes c2 = lc_pending_changes c1" by (rule push_outbound_cases) simp_all
  moreover from push have view: "server_view (lc_outbound c2) sent d = Some (newer, y)" by (rule push_outbound_cases) simp_all
  ultimately have pending: "bt_get (lc_pending_changes c2) d = Some ?change" by simp
  then have "(d, ?change) \<in> set (bt_entries (lc_pending_changes c2))" by (simp add: bt_entries_get)
  then have due: "d \<in> set (due_changes later c2)" using assms(4) by (force simp: due_changes_def)
  show "server_view (lc_outbound c2) sent d = Some (newer, y)" by (rule view)
  show "server_view (lc_outbound c3) sent d = Some (older, x)"
    using flush_loop_sends [OF _ due_changes_pending, where n = 0 and c' = c3 and sent = sent and d = d] assms(3) due view pending
    by (simp add: flush_changes_def)
qed

section \<open>Properties\<close>

text \<open>
  C32. Over every sequence of operations the client of a language server keeps its queue and its
  outstanding requests within their limits, holds at most one request of each kind for a document,
  each made in the current generation and only while the server is ready or degraded, and no pending
  change of a document that is not open. (The times of crashes are pruned but not bounded in number,
  and a request may outlive the revision it was made for; its answer is then stale.)
\<close>

theorem language_clients_stay_bounded:
  assumes "permutes_keys order"
  shows "client_ok (client_run order cmds (language_client_new workspace descriptor))"
  by (rule client_run_ok [OF assms client_ok_new])

text \<open>
  C31. An answer is applied only once, and only if since the request neither a change nor a closing of
  its document has succeeded: the document still has the revision the request was made for, and the
  server is the one it was made to.
\<close>

theorem answers_apply_once_to_their_text:
  assumes "permutes_keys order" "request_feature order kind document revision pos now c = (Inr request, c1)"
    "fst (accept_feature_response request (client_run order cmds c1)) = Applied"
  shows "CAcceptResponse request \<notin> set cmds \<and>
    (\<forall>xs cmd ys. cmds = xs @ cmd # ys \<longrightarrow> \<not> invalidates order document cmd (client_run order xs c1)) \<and>
    map_option ds_revision (bt_get (lc_documents (client_run order cmds c1)) document) = Some revision \<and>
    lc_generation (client_run order cmds c1) = lc_generation c"
proof -
  note made = request_made [OF assms(2)]
  let ?n = "fr_id request"
  have applied: "bt_get (lc_requests (client_run order cmds c1)) ?n = Some request"
    "map_option ds_revision (bt_get (lc_documents (client_run order cmds c1)) document) = Some revision"
    "lc_generation (client_run order cmds c1) = lc_generation c"
    using assms(3) made(1-3) by (auto simp: accept_feature_response_def Let_def split: if_splits option.splits)
  have kept: "\<not> gone ?n (client_step order cmd (client_run order xs c1))" if "cmds = xs @ cmd # ys" for xs cmd ys
    using gone_run [of ?n "client_step order cmd (client_run order xs c1)" order ys] applied(1) that by (auto simp: gone_def)
  note at = run_requests [OF made(5), where order = order]
  have "CAcceptResponse request \<notin> set cmds"
  proof
    assume "CAcceptResponse request \<in> set cmds"
    then obtain xs ys where split: "cmds = xs @ CAcceptResponse request # ys" by (auto simp: in_set_conv_decomp)
    have "gone ?n (client_step order (CAcceptResponse request) (client_run order xs c1))"
      using at [of xs] by (simp add: gone_def accept_feature_response_def Let_def)
    with kept [OF split] show False by simp
  qed
  moreover have "\<not> invalidates order document cmd (client_run order xs c1)" if "cmds = xs @ cmd # ys" for xs cmd ys
  proof
    assume "invalidates order document cmd (client_run order xs c1)"
    then have "gone ?n (client_step order cmd (client_run order xs c1))"
      by (rule invalidates_gone [OF assms(1)]) (use at [of xs] made in auto)
    with kept [OF that] show False by simp
  qed
  ultimately show ?thesis using applied(2,3) by blast
qed

text \<open>
  Restarts are rationed, whatever else happens in between: a server whose process exits is started
  again after a quarter of a second, one second and four seconds for the first three exits within ten
  minutes, and the next exit within ten minutes of these is the end.
\<close>

theorem restarts_are_rationed:
  assumes "sorted (exit_times cmds @ [now])"
  shows "process_exited now (client_run order cmds (language_client_new workspace descriptor)) =
    (let recent = filter (\<lambda>t. now - t \<le> RESTART_WINDOW) (exit_times cmds);
         c = client_run order cmds (language_client_new workspace descriptor)
     in (nth_opt RESTART_DELAYS (length recent),
         clear_generation (if length recent < 3 then Restarting else Failed) c\<lparr>lc_crash_times := recent @ [now]\<rparr>))"
proof -
  let ?c = "client_run order cmds (language_client_new workspace descriptor)"
  have new: "lc_crash_times (language_client_new workspace descriptor) = []" by (simp add: language_client_new_def)
  have sorted: "sorted (exit_times cmds)" using assms by (simp add: sorted_append)
  obtain old where old: "exit_times cmds = old @ lc_crash_times ?c"
    "\<forall>t \<in> set old. last (exit_times cmds) - t > RESTART_WINDOW"
    using crash_times_kept [OF sorted new, of order] by blast
  have "now - t > RESTART_WINDOW" if "t \<in> set old" for t
  proof -
    have "last (exit_times cmds) \<in> set (exit_times cmds)" using that old(1) by (intro last_in_set) auto
    then have "last (exit_times cmds) \<le> now" using assms by (simp add: sorted_append)
    with old(2) that show ?thesis by fastforce
  qed
  then have "filter (\<lambda>t. now - t \<le> RESTART_WINDOW) old = []" by (auto simp: filter_empty_conv not_le)
  moreover have "sorted (lc_crash_times ?c @ [now])" using assms old(1) by (auto simp: sorted_append)
  ultimately have "dropWhile (\<lambda>t. now - t > RESTART_WINDOW) (lc_crash_times ?c) =
      filter (\<lambda>t. now - t \<le> RESTART_WINDOW) (exit_times cmds)"
    using dropWhile_recent old(1) by simp
  then show ?thesis
    by (auto simp: process_exited_def restart_generation_def clear_generation_def Let_def RESTART_DELAYS_def)
qed

text \<open>
  C30. The server sees what the client was told, under two conditions (\<open>keeps_up\<close>): the queue has room
  for what is sent, and no document is opened again while a change of it is pending. After any sequence
  of openings, changes, closings, saves, requests, answers, flushes and sendings that keeps to them, in
  the life of one server, a document without a pending change is, for a server that has read the queue,
  at the revision and with the text the client accepted last, and the pending change of another is just
  that revision and text. Both conditions are needed: a flush without room drops the change, and after
  an opening with a change pending the flush sends the older text
  (\<open>reopening_sends_the_older_text\<close>).
\<close>

theorem server_sees_what_the_client_is_told:
  assumes "lc_documents c = bt_empty" "lc_pending_changes c = bt_empty" "lc_outbound c = []"
    "all_keep_up order cmds c" "sync_run order cmds (c, Map.empty, Map.empty) = (c', sent, told)"
  shows "c' = client_run order cmds c \<and>
    (case bt_get (lc_pending_changes c') document of
      None \<Rightarrow> server_view (lc_outbound c') sent document = told document
    | Some change \<Rightarrow> told document = Some (ch_revision change, ch_text change))"
proof -
  have "mirrors c Map.empty Map.empty" using assms(1-3) by (simp add: mirrors_def bt_contains_def)
  from sync_run_mirrors [OF this assms(4,5)] show ?thesis by (auto simp: mirrors_def split: option.split)
qed

text \<open>
  C33. A request overtakes the change it depends on: a feature request made while the change of its
  document waits for the coalescing delay is sent first, so the server answers it for the text before
  the change although it carries a position of the text after it; and that answer counts as current
  and is applied.
\<close>

theorem requests_overtake_changes:
  assumes "did_change order document revision contents now c = (Inr (), c1)"
    "request_feature order kind document revision pos now' c1 = (Inr request, c2)"
  shows "server_view (lc_outbound c2) sent = server_view (lc_outbound c) sent \<and>
    om_id (last (lc_outbound c2)) = Some (fr_id request) \<and> fr_revision request = revision \<and>
    map_option ch_revision (bt_get (lc_pending_changes c2) document) = Some revision \<and>
    fst (accept_feature_response request c2) = Applied"
  using assms(1)
proof (cases rule: did_change_cases)
  case (recorded state)
  note f = invalidate_document_fewer [OF recorded(4)]
    and v = view_cancel_all [OF recorded(4) [unfolded invalidate_document_requests_def], of sent]
  from assms(2) show ?thesis
  proof (cases rule: request_feature_cases)
    case (sent c3 ids request')
    note g = invalidate_feature_fewer [OF sent(5)]
      and w = view_cancel_all [OF sent(5) [unfolded invalidate_feature_request_def]]
    have same: "lc_documents c3 = lc_documents c1" "lc_generation c3 = lc_generation c1"
      using g fewerD(1,3) [of c1 c3] by simp_all
    from sent(4) obtain state where "bt_get (lc_documents c1) document = Some state" "ds_revision state = revision" by auto
    with sent f g v w same show ?thesis by (simp add: accept_feature_response_def Let_def)
  qed simp
qed simp

section \<open>Witnesses\<close>

text \<open>A server that is ready, with one document open and nothing left to send.\<close>

definition example_language_client :: language_client where
  "example_language_client =
     (language_client_new (lit ''w'') (lit ''rust''))
       \<lparr>lc_state := Ready, lc_generation := 1, lc_ids := \<lparr>ra_next = 1\<rparr>,
        lc_capabilities := Some (server_capabilities_new FullSynchronization [Hover] Utf16),
        lc_documents := bt_insert (lit ''a'') \<lparr>ds_revision = 1\<rparr> bt_empty\<rparr>"

definition example_language_request :: feature_request where
  "example_language_request =
     \<lparr>fr_id = 2, fr_kind = Hover, fr_document = lit ''a'', fr_revision = 1,
      fr_position = \<lparr>lp_line = 0, lp_character = 0\<rparr>, fr_generation = 1, fr_deadline = REQUEST_TIMEOUT\<rparr>"

lemma supports_hover [simp]: "supports (server_capabilities_new k [Hover] e) Hover"
  by (simp add: supports_def server_capabilities_new_def)

lemma walked_empty [simp]: "walked (\<lambda>xs. xs) bt_empty p = []"
  by (simp add: walked_def)

lemma permutes_id: "permutes_keys (\<lambda>xs. xs)"
  by (simp add: permutes_keys_def)

lemma example_language_sent:
  "request_feature (\<lambda>xs. xs) Hover (lit ''a'') 1 \<lparr>lp_line = 0, lp_character = 0\<rparr> 0 example_language_client =
    (Inr example_language_request, example_language_client
       \<lparr>lc_ids := \<lparr>ra_next = 2\<rparr>,
        lc_outbound := [\<lparr>om_id = Some 2, om_method = ''textDocument/hover'',
          om_params = position_params (lit ''a'') \<lparr>lp_line = 0, lp_character = 0\<rparr>\<rparr>],
        lc_requests := bt_insert 2 example_language_request bt_empty\<rparr>)"
  by (simp add: request_feature_def example_language_client_def language_client_new_def ensure_ready_def
      invalidate_feature_request_def REQUEST_LIMIT_def OUTBOUND_LIMIT_def push_outbound_def client_next_id_def next_id_def
      example_language_request_def bt_len_keys Let_def)

theorem language_clients_stay_bounded_witness:
  "client_ok (client_run (\<lambda>xs. xs) [CStart 0, CExited 5, CStart 6] (language_client_new (lit ''w'') (lit ''rust'')))"
  by (rule language_clients_stay_bounded [OF permutes_id])

theorem answers_apply_once_to_their_text_witness:
  "fst (accept_feature_response example_language_request (client_run (\<lambda>xs. xs) [CTake]
      (snd (request_feature (\<lambda>xs. xs) Hover (lit ''a'') 1 \<lparr>lp_line = 0, lp_character = 0\<rparr> 0 example_language_client)))) = Applied \<and>
   CAcceptResponse example_language_request \<notin> set [CTake]"
proof -
  let ?c1 = "snd (request_feature (\<lambda>xs. xs) Hover (lit ''a'') 1 \<lparr>lp_line = 0, lp_character = 0\<rparr> 0 example_language_client)"
  have "fst (accept_feature_response example_language_request (client_run (\<lambda>xs. xs) [CTake] ?c1)) = Applied"
    unfolding example_language_sent
    by (simp add: accept_feature_response_def take_outbound_def example_language_client_def example_language_request_def Let_def)
  moreover note answers_apply_once_to_their_text [OF permutes_id, of Hover "lit ''a''" 1 "\<lparr>lp_line = 0, lp_character = 0\<rparr>" 0
      example_language_client example_language_request ?c1 "[CTake]"]
  ultimately show ?thesis by (simp add: example_language_sent)
qed

theorem restarts_are_rationed_witness:
  "fst (process_exited 4 (client_run (\<lambda>xs. xs) [CExited 1, CExited 2, CExited 3] (language_client_new (lit ''w'') (lit ''rust'')))) = None \<and>
   fst (process_exited 4 (client_run (\<lambda>xs. xs) [CExited 2, CExited 3] (language_client_new (lit ''w'') (lit ''rust'')))) =
     Some (from_millis 4000)"
  using restarts_are_rationed [of "[CExited 1, CExited 2, CExited 3]" 4 "\<lambda>xs. xs" "lit ''w''" "lit ''rust''"]
    restarts_are_rationed [of "[CExited 2, CExited 3]" 4 "\<lambda>xs. xs" "lit ''w''" "lit ''rust''"]
  by (simp add: Let_def RESTART_WINDOW_def RESTART_DELAYS_def from_millis_def nth_opt_def del: client_run_simps)

theorem server_sees_what_the_client_is_told_witness:
  "\<exists>c sent told.
     sync_run (\<lambda>xs. xs) [COpen (lit ''b'') 1 (lit ''x''), CTake, CChange (lit ''b'') 2 (lit ''y'') 0, CFlush CHANGE_DELAY,
         COpen (lit ''b'') 3 (lit ''z''), CTake]
       (example_language_client\<lparr>lc_documents := bt_empty\<rparr>, Map.empty, Map.empty) = (c, sent, told) \<and>
     server_view (lc_outbound c) sent (lit ''b'') = Some (3, lit ''z'') \<and> told (lit ''b'') = Some (3, lit ''z'')"
proof -
  let ?c = "example_language_client\<lparr>lc_documents := bt_empty\<rparr>"
  let ?cmds = "[COpen (lit ''b'') 1 (lit ''x''), CTake, CChange (lit ''b'') 2 (lit ''y'') 0, CFlush CHANGE_DELAY,
    COpen (lit ''b'') 3 (lit ''z''), CTake]"
  have c: "lc_documents ?c = bt_empty" "lc_pending_changes ?c = bt_empty" "lc_outbound ?c = []"
    by (simp_all add: example_language_client_def language_client_new_def)
  note eval = example_language_client_def language_client_new_def did_open_def did_change_def ensure_ready_def
    push_notification_def push_outbound_def OUTBOUND_LIMIT_def invalidate_document_requests_def take_outbound_def
    flush_changes_def due_changes_def bt_entries_insert put_key_def bt_contains_def word_le_nat_alt
  have ok: "all_keep_up (\<lambda>xs. xs) ?cmds ?c" by (simp add: eval)
  obtain c sent told where r: "sync_run (\<lambda>xs. xs) ?cmds (?c, Map.empty, Map.empty) = (c, sent, told)" by (metis prod_cases3)
  then have told: "bt_get (lc_pending_changes c) (lit ''b'') = None \<and> told (lit ''b'') = Some (3, lit ''z'')" by (auto simp: eval)
  then have "server_view (lc_outbound c) sent (lit ''b'') = Some (3, lit ''z'')"
    using server_sees_what_the_client_is_told [OF c ok r, THEN conjunct2, of "lit ''b''"] by simp
  with r told show ?thesis by blast
qed

theorem requests_overtake_changes_witness:
  "\<exists>c1 c2 request.
     did_change (\<lambda>xs. xs) (lit ''a'') 2 (lit ''y'') 0 example_language_client = (Inr (), c1) \<and>
     request_feature (\<lambda>xs. xs) Hover (lit ''a'') 2 \<lparr>lp_line = 0, lp_character = 1\<rparr> 1 c1 = (Inr request, c2) \<and>
     server_view (lc_outbound c2) [lit ''a'' \<mapsto> (1, lit ''x'')] (lit ''a'') = Some (1, lit ''x'') \<and>
     fst (accept_feature_response request c2) = Applied"
proof -
  let ?c1 = "snd (did_change (\<lambda>xs. xs) (lit ''a'') 2 (lit ''y'') 0 example_language_client)"
  let ?r = "request_feature (\<lambda>xs. xs) Hover (lit ''a'') 2 \<lparr>lp_line = 0, lp_character = 1\<rparr> 1 ?c1"
  have 1: "did_change (\<lambda>xs. xs) (lit ''a'') 2 (lit ''y'') 0 example_language_client = (Inr (), ?c1)"
    by (simp add: did_change_def example_language_client_def language_client_new_def ensure_ready_def
        invalidate_document_requests_def word_le_nat_alt)
  have "\<exists>request. fst ?r = Inr request"
    by (simp add: did_change_def request_feature_def example_language_client_def language_client_new_def ensure_ready_def
      invalidate_document_requests_def invalidate_feature_request_def REQUEST_LIMIT_def OUTBOUND_LIMIT_def push_outbound_def
      client_next_id_def next_id_def bt_len_keys Let_def word_le_nat_alt)
  then obtain request c2 where 2: "?r = (Inr request, c2)" by (metis prod.collapse)
  from requests_overtake_changes [OF 1 2, of "[lit ''a'' \<mapsto> (1, lit ''x'')]"] 1 2 show ?thesis
    by (intro exI) (auto simp: example_language_client_def language_client_new_def)
qed

end
