(* ===== verification/LanguageApp.thy ===== *)
theory LanguageApp imports LanguageServers LanguageSync begin

text \<open>
  How the application drives documents and language servers: the handlers of \<open>strukt-app/src/app.rs\<close>
  that call the coordinator and the runtime, with the tasks they return. A handler that the code
  repeats at the end of several messages (a document changed, was saved or was closed) is one
  definition.
\<close>

section \<open>State and tasks\<close>

record 'p language_app =
  la_workspace :: "(rust_string \<times> path) option"
  la_language :: coordinator
  la_runtime :: "'p language_runtime"

datatype language_task =
    TaskDiscover rust_string rust_string "rust_string option" u64 "approval_snapshot list"
  | TaskSpawn rust_string path rust_string u64 discovered_server
  | TaskPersist "language_session_snapshot option"

text \<open>What the handlers are given: the processes, file URLs, the hash, and the orders of the hash maps.\<close>

record ('p, 'w) app_outside =
  ao_language :: "('p, 'w) language_outside"
  ao_blake3 :: "byte_string \<Rightarrow> byte_string"
  ao_to_file_path :: "rust_string \<Rightarrow> path option"
  ao_order :: hash_order
  ao_name_order :: "rust_string list \<Rightarrow> rust_string list"

type_synonym ('p, 'w) handled = "language_task list \<times> 'p language_app \<times> 'w"

definition request_persistence :: "('p, 'w) app_outside \<Rightarrow> 'p language_app \<Rightarrow> language_task list \<times> 'p language_app" where
  "request_persistence ao app =
     (case la_workspace app of
        None \<Rightarrow> ([], app)
      | Some _ \<Rightarrow>
          (case coordinator_snapshot (ao_name_order ao) (la_language app) of
             (snapshot, g) \<Rightarrow> ([TaskPersist snapshot], app\<lparr>la_language := g\<rparr>)))"

fun discover_task :: "approval_snapshot list \<Rightarrow> language_effect \<Rightarrow> language_task option" where
  "discover_task approvals (EffectDiscover workspace language descriptor generation) =
     Some (TaskDiscover workspace language descriptor generation approvals)"
| "discover_task approvals _ = None"

definition fail_targets :: "(rust_string \<times> u64) list \<Rightarrow> coordinator \<Rightarrow> coordinator" where
  "fail_targets targets g = fold (\<lambda>(language, generation) g. snd (fail language generation g)) targets g"

definition language_effects_task ::
  "('p, 'w) app_outside \<Rightarrow> duration \<Rightarrow> language_effect list \<Rightarrow> 'p language_app \<Rightarrow> 'w \<Rightarrow> ('p, 'w) handled" where
  "language_effects_task ao now effects app w =
     (let runtime_effects = filter (\<lambda>e. effect_target e \<noteq> None) effects in
      case apply_effects (ao_language ao) (ao_order ao) now runtime_effects (la_runtime app) w of (r, rt, w) \<Rightarrow>
      let app = app\<lparr>la_runtime := rt\<rparr>;
          app = (if isl r
                 then app\<lparr>la_language := fail_targets (List.map_filter effect_target runtime_effects) (la_language app)\<rparr>
                 else app)
      in (if la_workspace app = None then []
          else List.map_filter (discover_task (lg_approvals (la_language app))) effects, app, w))"

section \<open>Documents\<close>

definition on_document_opened ::
  "('p, 'w) app_outside \<Rightarrow> duration \<Rightarrow> u64 \<Rightarrow> path \<Rightarrow> rust_string option \<Rightarrow> u64 \<Rightarrow> rust_string option \<Rightarrow>
     'p language_app \<Rightarrow> 'w \<Rightarrow> ('p, 'w) handled" where
  "on_document_opened ao now d p override revision contents app w =
     (case request_persistence ao app of (persistence, app) \<Rightarrow>
      case open_document d p override revision contents (la_language app) of (effects, g) \<Rightarrow>
      case language_effects_task ao now effects (app\<lparr>la_language := g\<rparr>) w of (tasks, app, w) \<Rightarrow>
        (persistence @ tasks, app, w))"

definition on_document_changed ::
  "('p, 'w) app_outside \<Rightarrow> duration \<Rightarrow> u64 \<Rightarrow> u64 \<Rightarrow> rust_string \<Rightarrow> 'p language_app \<Rightarrow> 'w \<Rightarrow> ('p, 'w) handled" where
  "on_document_changed ao now d revision contents app w =
     (case edit_document d revision contents (la_language app) of (effects, g) \<Rightarrow>
      case request_persistence ao (app\<lparr>la_language := g\<rparr>) of (persistence, app) \<Rightarrow>
      case language_effects_task ao now effects app w of (tasks, app, w) \<Rightarrow> (persistence @ tasks, app, w))"

definition on_document_saved ::
  "('p, 'w) app_outside \<Rightarrow> duration \<Rightarrow> u64 \<Rightarrow> 'p language_app \<Rightarrow> 'w \<Rightarrow> ('p, 'w) handled" where
  "on_document_saved ao now d app w =
     (let effects = save_document d (la_language app) in
      case request_persistence ao app of (persistence, app) \<Rightarrow>
      case language_effects_task ao now effects app w of (tasks, app, w) \<Rightarrow> (persistence @ tasks, app, w))"

definition on_document_closed ::
  "('p, 'w) app_outside \<Rightarrow> duration \<Rightarrow> u64 \<Rightarrow> 'p language_app \<Rightarrow> 'w \<Rightarrow> ('p, 'w) handled" where
  "on_document_closed ao now d app w =
     (case close_document d (la_language app) of (effects, g) \<Rightarrow>
      case request_persistence ao (app\<lparr>la_language := g\<rparr>) of (persistence, app) \<Rightarrow>
      case language_effects_task ao now effects app w of (tasks, app, w) \<Rightarrow> (persistence @ tasks, app, w))"

definition on_set_override ::
  "('p, 'w) app_outside \<Rightarrow> duration \<Rightarrow> u64 \<Rightarrow> rust_string option \<Rightarrow> 'p language_app \<Rightarrow> 'w \<Rightarrow> ('p, 'w) handled" where
  "on_set_override ao now d override app w =
     (case set_override d override (la_language app) of (effects, g) \<Rightarrow>
      case request_persistence ao (app\<lparr>la_language := g\<rparr>) of (persistence, app) \<Rightarrow>
      case language_effects_task ao now effects app w of (tasks, app, w) \<Rightarrow> (persistence @ tasks, app, w))"

section \<open>The life of a server\<close>

definition on_language_discovered ::
  "rust_string \<Rightarrow> rust_string \<Rightarrow> u64 \<Rightarrow> rust_string + discovery_completion \<Rightarrow> 'p language_app \<Rightarrow>
     language_task list \<times> 'p language_app" where
  "on_language_discovered workspace language generation result app =
     (let g = la_language app in
      case result of
        Inr (CompletionAvailable server) \<Rightarrow>
          (case discovery_available workspace language generation g of (accepted, g) \<Rightarrow>
            (case la_workspace app of
               Some (_, root) \<Rightarrow> if accepted then [TaskSpawn workspace root language generation server] else []
             | None \<Rightarrow> [],
             app\<lparr>la_language := g\<rparr>))
      | Inr (CompletionApprovalRequired server) \<Rightarrow>
          ([], app\<lparr>la_language := snd (discovery_requires_approval workspace language generation server g)\<rparr>)
      | Inr CompletionUnavailable \<Rightarrow>
          ([], app\<lparr>la_language := snd (discovery_finished workspace language generation ServerUnavailable g)\<rparr>)
      | Inr CompletionDisabled \<Rightarrow>
          ([], app\<lparr>la_language := snd (discovery_finished workspace language generation ServerDisabled g)\<rparr>)
      | Inl _ \<Rightarrow> ([], app\<lparr>la_language := snd (discovery_finished workspace language generation ServerFailed g)\<rparr>))"

definition on_language_started ::
  "('p, 'w) app_outside \<Rightarrow> duration \<Rightarrow> rust_string \<Rightarrow> path \<Rightarrow> rust_string \<Rightarrow> u64 \<Rightarrow> (rust_string + 'p) option \<Rightarrow>
     'p language_app \<Rightarrow> 'w \<Rightarrow> 'p language_app \<times> 'w" where
  "on_language_started ao now workspace root language generation completion app w =
     (if map_option fst (la_workspace app) \<noteq> Some workspace then (app, w)
      else
        (case finish_start (ao_language ao) now workspace language generation root completion (la_runtime app) w of
           (r, rt, w) \<Rightarrow>
             (app\<lparr>la_runtime := rt,
                la_language := (case r of
                    Inl e \<Rightarrow> snd (fail_with_message language generation e (la_language app))
                  | Inr _ \<Rightarrow> la_language app)\<rparr>, w)))"

definition on_approve ::
  "('p, 'w) app_outside \<Rightarrow> rust_string \<Rightarrow> 'p language_app \<Rightarrow> language_task list \<times> 'p language_app" where
  "on_approve ao language app =
     (case approve (ao_blake3 ao) language (la_language app) of
        (None, g) \<Rightarrow> ([], app\<lparr>la_language := g\<rparr>)
      | (Some (generation, server), g) \<Rightarrow>
          (case la_workspace app of
             None \<Rightarrow> ([], app\<lparr>la_language := g\<rparr>)
           | Some (workspace, root) \<Rightarrow>
               (case request_persistence ao (app\<lparr>la_language := g\<rparr>) of (persistence, app) \<Rightarrow>
                 (persistence @ [TaskSpawn workspace root language generation server], app))))"

definition on_deny ::
  "('p, 'w) app_outside \<Rightarrow> rust_string \<Rightarrow> 'p language_app \<Rightarrow> language_task list \<times> 'p language_app" where
  "on_deny ao language app =
     (case deny language (la_language app) of (denied, g) \<Rightarrow>
      if denied then request_persistence ao (app\<lparr>la_language := g\<rparr>) else ([], app\<lparr>la_language := g\<rparr>))"

definition on_retry ::
  "('p, 'w) app_outside \<Rightarrow> duration \<Rightarrow> rust_string \<Rightarrow> 'p language_app \<Rightarrow> 'w \<Rightarrow> ('p, 'w) handled" where
  "on_retry ao now language app w =
     (case retry language (la_language app) of (effects, g) \<Rightarrow>
      language_effects_task ao now effects (app\<lparr>la_language := g\<rparr>) w)"

text \<open>Disabling ignores a shutdown that cannot be begun; restarting marks the server as failed.\<close>

definition on_set_enabled ::
  "('p, 'w) app_outside \<Rightarrow> duration \<Rightarrow> rust_string \<Rightarrow> bool \<Rightarrow> 'p language_app \<Rightarrow> 'w \<Rightarrow> ('p, 'w) handled" where
  "on_set_enabled ao now language enabled app w =
     (case
        (if enabled then
           (case enable_language language (la_language app) of (effects, g) \<Rightarrow>
            language_effects_task ao now effects (app\<lparr>la_language := g\<rparr>) w)
         else
           (case disable_language language (la_language app) of
              (None, g) \<Rightarrow> ([], app\<lparr>la_language := g\<rparr>, w)
            | (Some generation, g) \<Rightarrow>
                (case runtime_begin_shutdown (ao_language ao) now language generation (la_runtime app) w of
                   (_, rt, w) \<Rightarrow> ([], app\<lparr>la_language := g, la_runtime := rt\<rparr>, w))))
      of (tasks, app, w) \<Rightarrow>
      case request_persistence ao app of (persistence, app) \<Rightarrow> (tasks @ persistence, app, w))"

definition on_restart ::
  "('p, 'w) app_outside \<Rightarrow> duration \<Rightarrow> rust_string \<Rightarrow> 'p language_app \<Rightarrow> 'w \<Rightarrow> 'p language_app \<times> 'w" where
  "on_restart ao now language app w =
     (case restart_language language (la_language app) of
        (None, g) \<Rightarrow> (app\<lparr>la_language := g\<rparr>, w)
      | (Some generation, g) \<Rightarrow>
          (case runtime_begin_shutdown (ao_language ao) now language generation (la_runtime app) w of
             (r, rt, w) \<Rightarrow>
               (app\<lparr>la_runtime := rt,
                  la_language := (case r of Inl e \<Rightarrow> snd (fail_with_message language generation e g) | Inr _ \<Rightarrow> g)\<rparr>, w)))"

section \<open>Polling and features\<close>

definition on_runtime_event ::
  "('p, 'w) app_outside \<Rightarrow> duration \<Rightarrow> language_runtime_event \<Rightarrow> 'p language_app \<Rightarrow> 'w \<Rightarrow> ('p, 'w) handled" where
  "on_runtime_event ao now event app w =
     (let g = la_language app; root = map_option snd (la_workspace app) in
      case event of
        EventReady language generation encoding \<Rightarrow>
          (case mark_ready (ao_order ao) language generation encoding g of (effects, g) \<Rightarrow>
           case apply_effects (ao_language ao) (ao_order ao) now effects (la_runtime app) w of (r, rt, w) \<Rightarrow>
             ([], app\<lparr>la_runtime := rt, la_language := (if isl r then snd (fail language generation g) else g)\<rparr>, w))
      | EventFailed language generation message \<Rightarrow>
          ([], app\<lparr>la_language := snd (fail_with_message language generation message g)\<rparr>, w)
      | EventNotification language generation method params \<Rightarrow>
          (case (if method = lit ''textDocument/publishDiagnostics''
                 then Option.bind root (parse_publish_diagnostics (ao_to_file_path ao) params) else None) of
             None \<Rightarrow> ([], app, w)
           | Some (p, version, diagnostics) \<Rightarrow>
               ([], app\<lparr>la_language := snd (publish_diagnostics (ao_order ao) language generation p version diagnostics g)\<rparr>, w))
      | EventFeatureResponse language generation request kind result \<Rightarrow>
          (case root of
             None \<Rightarrow> ([], app, w)
           | Some root \<Rightarrow>
               ([], app\<lparr>la_language := snd (accept_feature (ao_to_file_path ao) generation request result root g)\<rparr>, w))
      | EventRequestTimedOut request \<Rightarrow> ([], app\<lparr>la_language := expire_feature request g\<rparr>, w)
      | EventStopped language generation \<Rightarrow>
          (case mark_stopped language generation g of (effects, g) \<Rightarrow>
           language_effects_task ao now effects (app\<lparr>la_language := g\<rparr>) w))"

fun on_runtime_events ::
  "('p, 'w) app_outside \<Rightarrow> duration \<Rightarrow> language_runtime_event list \<Rightarrow> 'p language_app \<Rightarrow> 'w \<Rightarrow> ('p, 'w) handled" where
  "on_runtime_events ao now [] app w = ([], app, w)"
| "on_runtime_events ao now (event # events) app w =
     (case on_runtime_event ao now event app w of (tasks, app, w) \<Rightarrow>
      case on_runtime_events ao now events app w of (later, app, w) \<Rightarrow> (tasks @ later, app, w))"

text \<open>\<open>None\<close> when a frame decoder does not return, which \<open>every_push_returns\<close> excludes.\<close>

definition on_poll_language ::
  "('p, 'w) app_outside \<Rightarrow> duration \<Rightarrow> 'p language_app \<Rightarrow> 'w \<Rightarrow> ('p, 'w) handled option" where
  "on_poll_language ao now app w =
     map_option (\<lambda>(events, rt, w). on_runtime_events ao now events (app\<lparr>la_runtime := rt\<rparr>) w)
       (poll_at (ao_language ao) (ao_name_order ao) now (la_runtime app) w)"

text \<open>
  The request for the active document; its position, or the text of an error, comes from the editor's
  surface. The first result is the editor's error, if the handler sets it.
\<close>

definition on_request_feature ::
  "('p, 'w) app_outside \<Rightarrow> duration \<Rightarrow> u64 option \<Rightarrow> (position_encoding \<Rightarrow> rust_string + lsp_position) \<Rightarrow>
     feature_request_kind \<Rightarrow> 'p language_app \<Rightarrow> 'w \<Rightarrow> rust_string option option \<times> 'p language_app \<times> 'w" where
  "on_request_feature ao now active current_position kind app w =
     (case active of
        None \<Rightarrow> (None, app, w)
      | Some d \<Rightarrow>
          (case request_context d (la_language app) of
             None \<Rightarrow> (Some (Some (lit ''language server is not ready'')), app, w)
           | Some context \<Rightarrow>
               (case current_position (document_position_encoding d (la_language app)) of
                  Inl e \<Rightarrow> (Some (Some e), app, w)
                | Inr pos \<Rightarrow>
                    (case runtime_request_feature (ao_language ao) (ao_order ao) now (rq_language_id context) (rq_generation context)
                            (rq_path context) (rq_revision context) kind pos (la_runtime app) w of
                       (Inl e, rt, w) \<Rightarrow> (Some (Some e), app\<lparr>la_runtime := rt\<rparr>, w)
                     | (Inr request, rt, w) \<Rightarrow>
                         (Some None, app\<lparr>la_runtime := rt,
                            la_language := begin_feature d (rq_generation context) request (la_language app)\<rparr>, w)))))"

section \<open>Lemmas\<close>

lemma persistence_keeps:
  assumes "request_persistence ao app = (tasks, app')"
  shows "lg_servers (la_language app') = lg_servers (la_language app)" "la_runtime app' = la_runtime app"
  using assms by (auto simp: request_persistence_def coordinator_snapshot_def split: option.splits)

text \<open>Every operation on a document needs a client that is ready.\<close>

lemma effect_needs_ready:
  assumes "lc_state c \<noteq> Ready" "effect_target effect = Some target"
  shows "isl (fst (effect_operation lo order now root effect c))"
proof -
  have "ensure_ready c = Inl NotReady" using assms(1) by (simp add: ensure_ready_def)
  then show ?thesis
    using assms(2)
    by (cases effect)
      (simp_all add: did_open_def did_change_def did_save_def did_close_def split: sum.split)
qed

lemma apply_effect_refused:
  assumes "bt_get rt language = Some running" "rl_generation running = generation" "lc_state (rl_client running) \<noteq> Ready"
    "effect_target effect = Some (language, generation)"
  shows "isl (fst (apply_effects lo order now [effect] rt w))"
proof -
  obtain r c where op: "effect_operation lo order now (rl_root running) effect (rl_client running) = (r, c)" by force
  with effect_needs_ready [OF assms(3,4), of lo order now "rl_root running"] obtain e where "r = Inl e" by (cases r) auto
  with op assms show ?thesis by simp
qed

lemma fail_marks:
  "bt_get (lg_servers g) language = Some s \<Longrightarrow> sb_generation s = generation \<Longrightarrow>
   map_option sb_state (bt_get (lg_servers (snd (fail language generation g))) language) = Some ServerFailed"
  by (simp add: fail_def fail_with_message_def)

lemma refused_effect_fails_server:
  assumes "bt_get (lg_servers (la_language app)) language = Some s" "sb_generation s = generation"
    "bt_get (la_runtime app) language = Some running" "rl_generation running = generation" "lc_state (rl_client running) \<noteq> Ready"
    "effect_target effect = Some (language, generation)"
  shows "map_option sb_state (bt_get (lg_servers (la_language (fst (snd (language_effects_task ao now [effect] app w))))) language) =
    Some ServerFailed"
proof -
  obtain r rt w' where run: "apply_effects (ao_language ao) (ao_order ao) now [effect] (la_runtime app) w = (r, rt, w')"
    by (metis prod_cases3)
  have "isl r" using apply_effect_refused [OF assms(3-6), of "ao_language ao" "ao_order ao" now w] run by simp
  with run assms(6) fail_marks [OF assms(1,2)] show ?thesis
    by (simp add: language_effects_task_def Let_def fail_targets_def List.map_filter_simps)
qed

section \<open>Properties\<close>

text \<open>
  C39. Closing a document can fail its server for every other document: while the server is still
  being initialized, or is shutting down behind the coordinator's back (a restart that is pending, an
  idle shutdown), the closing is handed to a client that refuses it, and the application marks the
  server as failed. A change does the same to a server that is shutting down.
\<close>

theorem documents_fail_servers:
  assumes "bt_get (lg_documents (la_language app)) d = Some binding" "db_eligible binding"
    "bt_get (lg_servers (la_language app)) (db_language_id binding) = Some s" "sb_state s \<in> {ServerStarting, ServerReady}"
    "bt_get (la_runtime app) (db_language_id binding) = Some running" "rl_generation running = sb_generation s"
    "lc_state (rl_client running) \<noteq> Ready"
  shows "let failed = (\<lambda>app'. map_option sb_state (bt_get (lg_servers (la_language app')) (db_language_id binding)) = Some ServerFailed) in
    failed (fst (snd (on_document_closed ao now d app w))) \<and>
    (sb_state s = ServerReady \<longrightarrow> failed (fst (snd (on_document_changed ao now d revision contents app w))))"
proof -
  have handled: "map_option sb_state (bt_get (lg_servers (la_language app'')) (db_language_id binding)) = Some ServerFailed"
    if "request_persistence ao (app\<lparr>la_language := g\<rparr>) = (persistence, app')" "lg_servers g = lg_servers (la_language app)"
      "language_effects_task ao now [effect] app' w = (tasks, app'', w')"
      "effect_target effect = Some (db_language_id binding, sb_generation s)" for g persistence app' app'' effect tasks w'
    using refused_effect_fails_server [of app' "db_language_id binding" s "sb_generation s" running effect ao now w]
      persistence_keeps [OF that(1)] that assms(3,5-7) by simp
  let ?close = "EffectClose (db_language_id binding) (sb_generation s) d (db_path binding)"
  let ?change = "EffectChange (db_language_id binding) (sb_generation s) d (db_path binding) revision contents"
  have "fst (close_document d (la_language app)) = [?close]"
    using assms(1-4) by (auto simp: close_document_def Let_def)
  then obtain g where close: "close_document d (la_language app) = ([?close], g)" by (metis prod.collapse)
  have gs: "lg_servers g = lg_servers (la_language app)" using close_document_servers [of d "la_language app"] close by simp
  have "map_option sb_state (bt_get (lg_servers (la_language (fst (snd (on_document_closed ao now d app w))))) (db_language_id binding)) = Some ServerFailed"
    using handled [OF _ gs, where effect = ?close] close
    by (auto simp: on_document_closed_def split: prod.split)
  moreover have "map_option sb_state (bt_get (lg_servers (la_language (fst (snd (on_document_changed ao now d revision contents app w))))) (db_language_id binding)) = Some ServerFailed"
    if "sb_state s = ServerReady"
  proof -
    let ?e = "edit_document d revision contents (la_language app)"
    have "fst ?e = [?change]" "lg_servers (snd ?e) = lg_servers (la_language app)"
      using assms(1-3) that by (simp_all add: edit_document_def Let_def)
    with handled [of "snd ?e", where effect = ?change] show ?thesis
      by (auto simp: on_document_changed_def split: prod.split)
  qed
  ultimately show ?thesis by (simp add: Let_def)
qed

text \<open>
  C40. A server that answers the shutdown but does not exit is never stopped: the answer takes the only
  deadline away, and from then on every poll, however late, that finds nothing to read and no exit
  leaves everything as it is, with no event and without terminating the process.
\<close>

theorem servers_that_stay_are_never_stopped:
  assumes "begin_shutdown now (rl_client running) = (Inr m, c1)" "accept_shutdown n c1 = (Inr (), c2)"
    "lc_initialize_deadline (rl_client running) = None"
    "lo_try_read lo (rl_process running) w = (Inr None, w)" "lo_try_wait lo (rl_process running) w = (Inr None, w)"
    "stay = running\<lparr>rl_client := c2\<lparr>lc_outbound := []\<rparr>, rl_shutdown_id := None\<rparr>"
  shows "poll_language lo later language stay w = Some (([], []), [], stay, w)"
proof -
  let ?c = "c2\<lparr>lc_outbound := []\<rparr>"
  have c: "lc_state c2 = Stopping" "lc_shutdown_deadline c2 = None" "lc_initialize_deadline c2 = None"
    "lc_requests c2 = bt_empty" "lc_pending_changes c2 = bt_empty"
    using assms(1-3)
    by (auto simp: begin_shutdown_def accept_shutdown_def push_notification_def push_outbound_def client_next_id_def Let_def
        split: if_splits sum.splits prod.splits)
  have stay: "rl_client stay = ?c" "rl_process stay = rl_process running" using assms(6) by simp_all
  have same: "stay\<lparr>rl_client := ?c\<rparr> = stay" using assms(6) by simp
  have "poll_timeouts later ?c = ([], ?c)"
    using c by (simp add: poll_timeouts_def expire_initialize_def expire_shutdown_def expire_idle_def expired_requests_def
        reached_def Let_def)
  moreover have "flush_changes later ?c = (0, ?c)"
    using c by (simp add: flush_changes_def due_changes_def)
  moreover have "read_frames lo language 64 log stay w = Some (log, stay, w)" for log
    using assms(4) stay(2) by (cases log) (simp add: eval_nat_numeral)
  ultimately show ?thesis
    using assms(4,5) stay by (simp add: poll_language_def flush_client_def same)
qed

section \<open>Witnesses\<close>

definition example_language_outside :: "(unit, unit) language_outside" where
  "example_language_outside =
     \<lparr>lo_write = (\<lambda>_ _ w. (Inr (), w)), lo_try_read = (\<lambda>_ w. (Inr None, w)), lo_try_wait = (\<lambda>_ w. (Inr None, w)),
      lo_terminate = (\<lambda>_ _ w. w), lo_to_vec = (\<lambda>_. Inr []), lo_from_slice = (\<lambda>_. None), lo_from_file_path = Some\<rparr>"

definition example_running :: "unit running_language" where
  "example_running =
     \<lparr>rl_generation = 1, rl_root = lit ''/'', rl_process = (), rl_decoder = language_decoder_new frame_limits_default,
      rl_client = example_language_client, rl_initialize_id = 1, rl_feature_requests = bt_empty, rl_shutdown_id = None\<rparr>"

definition example_starting_app :: "unit language_app" where
  "example_starting_app =
     \<lparr>la_workspace = None,
      la_language = (coordinator_new (lit ''w''))
        \<lparr>lg_documents := bt_insert 1 \<lparr>db_path = lit ''a'', db_language_override = None, db_language_id = lit ''rust'',
            db_revision = 1, db_text = [], db_eligible = True\<rparr> bt_empty,
         lg_servers := bt_insert (lit ''rust'') (server_default\<lparr>sb_state := ServerStarting, sb_generation := 1\<rparr>) bt_empty\<rparr>,
      la_runtime = bt_insert (lit ''rust'') (example_running\<lparr>rl_client := example_language_client\<lparr>lc_state := Starting\<rparr>\<rparr>) bt_empty\<rparr>"

definition example_app_outside :: "(unit, unit) app_outside" where
  "example_app_outside =
     \<lparr>ao_language = example_language_outside, ao_blake3 = (\<lambda>bs. bs), ao_to_file_path = (\<lambda>_. None),
      ao_order = (\<lambda>xs. xs), ao_name_order = (\<lambda>xs. xs)\<rparr>"

theorem documents_fail_servers_witness:
  "map_option sb_state (bt_get (lg_servers (la_language
     (fst (snd (on_document_closed example_app_outside 0 1 example_starting_app ()))))) (lit ''rust'')) = Some ServerFailed"
  using documents_fail_servers [of example_starting_app 1 "\<lparr>db_path = lit ''a'', db_language_override = None,
      db_language_id = lit ''rust'', db_revision = 1, db_text = [], db_eligible = True\<rparr>"
      "server_default\<lparr>sb_state := ServerStarting, sb_generation := 1\<rparr>"
      "example_running\<lparr>rl_client := example_language_client\<lparr>lc_state := Starting\<rparr>\<rparr>" example_app_outside 0 "()"]
  by (simp add: example_starting_app_def example_running_def coordinator_new_def Let_def)

theorem servers_that_stay_are_never_stopped_witness:
  "\<exists>stay. lc_state (rl_client stay) = Stopping \<and>
     (\<forall>later. poll_language example_language_outside later (lit ''rust'') stay () = Some (([], []), [], stay, ()))"
proof -
  let ?c1 = "snd (begin_shutdown 0 example_language_client)"
  let ?c2 = "snd (accept_shutdown 2 ?c1)"
  let ?stay = "example_running\<lparr>rl_client := ?c2\<lparr>lc_outbound := []\<rparr>, rl_shutdown_id := None\<rparr>"
  have 1: "begin_shutdown 0 (rl_client example_running) = (Inr (\<lparr>om_id = Some 2, om_method = ''shutdown'', om_params = JNull\<rparr>), ?c1)"
    by (simp add: begin_shutdown_def example_running_def example_language_client_def language_client_new_def client_next_id_def
        next_id_def Let_def)
  have 2: "accept_shutdown 2 ?c1 = (Inr (), ?c2)"
    by (simp add: begin_shutdown_def accept_shutdown_def example_language_client_def language_client_new_def client_next_id_def
        next_id_def push_notification_def push_outbound_def OUTBOUND_LIMIT_def Let_def)
  have "lc_state ?c2 = Stopping"
    by (simp add: begin_shutdown_def accept_shutdown_def example_language_client_def language_client_new_def client_next_id_def
        next_id_def push_notification_def push_outbound_def OUTBOUND_LIMIT_def Let_def)
  moreover have "poll_language example_language_outside later (lit ''rust'') ?stay () = Some (([], []), [], ?stay, ())" for later
    by (rule servers_that_stay_are_never_stopped [OF 1 2 _ _ _ refl])
      (simp_all add: example_running_def example_language_client_def language_client_new_def example_language_outside_def)
  ultimately show ?thesis by (intro exI [of _ ?stay]) simp
qed

end
