(* ===== verification/Spec2Isabelle.thy ===== *)
theory Spec2Isabelle imports
  CatalogProperties EditTabs EditFind TerminalSnapshot
  SessionClientLaws RemoteConnection RemoteProtocol SessionFraming LanguageFraming
  LanguageApp
begin

text \<open>
  A verification library for strukt, a terminal-centred development workspace written in Rust as
  a set of crates under \<open>src/crates\<close>. The application (\<open>strukt-app\<close>) shows editors and terminals. It
  keeps open documents in \<open>strukt-editor\<close>, local terminals in \<open>strukt-terminal\<close>, and talks over framed
  byte streams to three kinds of process: the session daemon of \<open>strukt-session\<close>, which owns shells
  that outlive the window; the remote helper of \<open>strukt-remote\<close>, reached through SSH; and language
  servers, through \<open>strukt-language\<close>. The crates keep their decisions in plain state types that the
  I/O around them drives; these types are what is modelled.

  \<^bold>\<open>Conventions\<close> (\<open>StruktPrelude\<close>, \<open>RustText\<close>, \<open>BTreeMap\<close>, \<open>FrameBytes\<close>).
  A struct is a record and an enum a datatype, with the constructors of the source. A machine
  integer is a word where it is counted up or wraps (revisions, generations, identifiers), with
  saturating and checked arithmetic written out; a \<open>usize\<close> that only measures something in memory is
  a natural number, and the theorems that need it carry the bound (texts below \<open>2 ^ 60\<close> characters,
  payload limits below \<open>2 ^ 64 - 5\<close>). A string is its list of Unicode scalar values, measured in
  UTF-8 bytes where the code measures bytes. A \<open>BTreeMap\<close>, and a \<open>HashMap\<close> whose order is never
  observed, is the type of key-sorted association lists. A method with a mutable receiver and a
  \<open>Result\<close> gives the result, \<open>Inl\<close> of the error or \<open>Inr\<close> of the value, and the state it leaves on
  every branch. A step that can panic is an option, \<open>None\<close> being the panic, so that not panicking
  is something the theorems state.

  Code outside the repository is a parameter of the definitions that call it: the rope
  (\<open>rope_laws\<close>), the regular expressions (\<open>regex_laws\<close>), the Unicode tables of alphanumeric characters and of
  display widths, the CBOR library, the random source (a list of draws, each 16 bytes or a
  failure), the escape sequence parser vte, processes and the clock (the record \<open>outside\<close>: functions
  of a world that they take and return; the law \<open>reads_something\<close> says that a read returns no empty
  chunk), serde (the record \<open>serde\<close>; the law \<open>reads_back\<close> says that a printed record is read back)
  and what the daemon gets from its environment (\<open>daemon_outside\<close>). What the code relies on is a named
  predicate, and a witness instantiates it.

  \<^bold>\<open>Session catalog\<close> (\<open>strukt-session/src/id.rs\<close>, \<open>catalog.rs\<close>).
  \<open>Ids\<close> has the opaque identifiers and their text form (\<open>id_text_roundtrip\<close>). \<open>PaneTree\<close> states the
  contract of a binary tree of panes as a locale; \<open>SessionLayout\<close> interprets it on the tree of a
  session window. \<open>SessionCatalog\<close> has sessions, windows and panes with every mutation, guards in code
  order. \<open>CatalogInvariant\<close> reads \<open>catalog_ok\<close> off the validation and \<open>CatalogOperations\<close>,
  \<open>CatalogCopies\<close> and \<open>CatalogContract\<close> show each mutation to be an instance of the locale
  \<open>catalog_operation\<close>: stale revisions are refused, refusals change nothing, accepted commands advance
  the revision and keep the catalog valid. \<open>CatalogProperties\<close> concludes: reachable catalogs validate
  (C1), commands are atomic, with the one import that is accepted and breaks the catalog (C2), concurrent writers lose no update (\<open>no_lost_update\<close>), what splitting,
  closing and duplicating do (\<open>split_then_close\<close>, \<open>duplicate_session_copies\<close>), completions of an older generation are ignored (C11), and what a
  restart keeps (\<open>stopped_clone_restarts\<close>). \<open>CatalogGenerations\<close> shows what
  each mutation does to the generations of the panes, for the service on top.

  \<^bold>\<open>Session service\<close> (\<open>strukt-session/src/provider.rs\<close>, \<open>snapshot.rs\<close>, \<open>protocol.rs\<close>, \<open>store.rs\<close>,
  \<open>service.rs\<close>, \<open>bin/strukt-sessiond.rs\<close>, \<open>client.rs\<close>).
  \<open>SessionWire\<close> has the requests with their validation, responses, events and bounded snapshots,
  \<open>SessionStore\<close> the persisted record and the store of two files, \<open>SessionService\<close> the service: the
  catalog and the terminal runtime side by side, tied together by pane generations. \<open>SessionDaemon\<close>
  reduces every request to operations of the service and has the service loop, turn by turn.
  \<open>SessionInvariant\<close> states the invariant of the service (the links between panes and terminals, and
  equal generations on both sides) and, in the locale \<open>catalog_mutation\<close>, interpreted on every
  mutation of the catalog, that mutations keep it; \<open>SessionRuns\<close> shows it for the other operations and
  \<open>SessionServing\<close> for every request and every turn: the generations never diverge (C3) and one client
  controls the daemon (C4). \<open>SessionPersistence\<close> shows that sessions survive the daemon (C5), that
  failed saves and damaged files lose nothing (\<open>failed_saves_lose_nothing\<close>, \<open>damaged_files_fall_back\<close>), and the two states that cannot be persisted
  and end the loop (C9, C10). \<open>SessionClient\<close> is the other end: one request in flight over one
  connection. \<open>SessionClientLaws\<close> shows that connecting keeps to a bounded schedule (\<open>connecting_follows_the_schedule\<close>), that
  only the answer waited for is taken (C12), and, with the service, that a client takes
  the first screen of a restarted pane and no other until its process has printed more than the one before
  (the stretches \<open>quiet\<close>; C13).

  \<^bold>\<open>Editor\<close> (\<open>strukt-editor/src/position.rs\<close>, \<open>transaction.rs\<close>, \<open>buffer.rs\<close>, \<open>history.rs\<close>,
  \<open>document.rs\<close>, \<open>tabs.rs\<close>, \<open>find.rs\<close>).
  \<open>EditBuffer\<close>: transactions of ordered replacements, applied atomically, with the inverse ({apply_is_atomic,
  inverse_undoes}). \<open>EditHistory\<close>: coalescing, undo, redo and the budget on entries and bytes (\<open>history_keeps_its_budget\<close>).
  \<open>EditDocument\<close> and \<open>EditDocumentLife\<close>: the status machine of a document between buffer, saved text
  and disk, over all sequences of commands (C16, C17, C18, \<open>redo_takes_back_undo\<close>;
  \<open>upgrade_forgets_saves\<close> is the save that an upgrade from read-only lets through). \<open>EditWorkspace\<close> and \<open>EditTabs\<close>:
  tabs, preview and pinned, closing and its decisions (C19, C20, C21). \<open>EditFind\<close>: search and
  replacement, whose transaction the buffer accepts (C22). Each layer calls the one before as the
  code does.

  \<^bold>\<open>Terminal\<close> (\<open>strukt-terminal/src/id.rs\<close>, \<open>layout.rs\<close>, \<open>cell.rs\<close>, \<open>grid.rs\<close>, \<open>parser.rs\<close>, \<open>transport.rs\<close>,
  \<open>runtime.rs\<close>, the requests of \<open>portable.rs\<close>).
  \<open>TerminalLayout\<close> interprets \<open>PaneTree\<close> on the tree of a terminal tab and has the workspace of tabs;
  \<open>TerminalWorkspace\<close> has its invariant and the abstract workspace (tabs with their panes in order,
  the focus, the active tab) its commands refine (C23); \<open>TerminalSnapshot\<close> has snapshots, their
  validation and restoring (C24). The identifier counters of the process (\<open>TerminalIds\<close>) are
  threaded through; theorems about fresh identifiers assume the counters are not exhausted.
  \<open>TerminalCell\<close> and \<open>TerminalGrid\<close> have the character grid with every operation, \<open>TerminalScreen\<close> its
  invariant, and that a saved cursor outside a smaller grid panics (\<open>restored_cursor_panics\<close>). \<open>TerminalParser\<close> has the
  reaction to escape sequences: no input makes a model panic that is not made smaller (C6).
  \<open>TerminalTransport\<close> and \<open>TerminalRuntime\<close> have panes with their processes and the draining of their
  output, a loop without a bound of its own in the source (\<open>drain_loop\<close>, a \<open>partial_function\<close>, where
  \<open>None\<close> is also not returning); \<open>TerminalDraining\<close> has the runtimes the operations lead
  to when no pane is made smaller (\<open>runtime_reached\<close>) and shows that draining them returns within the budget
  (C7), that no pane starves (C8), and the panes that run again after their exit (\<open>exited_panes_run_again\<close>).

  \<^bold>\<open>Remote\<close> (\<open>strukt-remote/src/state.rs\<close>, \<open>protocol.rs\<close>).
  \<open>RemoteConnection\<close>: the connection phases as a step relation with their invariant (\<open>connections_stay_bounded\<close>), and that
  reconnecting, with its doubled and capped delays, ends (C25). \<open>RemoteProtocol\<close>: negotiation of
  limits and capabilities (\<open>negotiation_narrows\<close>) and the operation tracker, whose runs admit only
  contiguous chunks paid for by credit (C26) and nothing after a cancellation.

  \<^bold>\<open>Framing\<close> (\<open>strukt-session/src/framing.rs\<close>, \<open>strukt-language/src/framing.rs\<close>).
  \<open>SessionFraming\<close> and \<open>LanguageFraming\<close>: the incremental decoders return on every input with
  bounded buffers (\<open>push_stays_bounded\<close>, C28; the loop of the second is a recursive function whose
  measure is the length of its buffer), and frames cut into pieces decode to the values sent (C27,
  C29). The CBOR library is a writer and a reader that gets the limit of 32 levels
  the decoder passes to it: \<open>cbor_laws\<close> says that it reads back what was written when it is nested no deeper, and
  refuses it otherwise.

  \<^bold>\<open>Languages\<close> (\<open>strukt-language/src\<close>, \<open>strukt-app/src/language.rs\<close>, \<open>strukt-persistence/src/language_store.rs\<close>,
  \<open>strukt-editor/src/grammar.rs\<close>). \<open>LanguagePosition\<close>: columns in scalars, bytes and UTF-16 units, converted
  without loss (C34). \<open>LanguageProtocol\<close>: JSON values and the messages of JSON-RPC. \<open>LanguageClient\<close> is the
  client of a server with its queue, documents, pending changes, requests and deadlines;
  \<open>LanguageClientLaws\<close> has its operations as commands and the invariant (C32), \<open>LanguageSync\<close> the
  documents a server reconstructs from its messages (C30, while commands keep to
  \<open>keeps_up\<close>; \<open>reopening_sends_the_older_text\<close> is what happens otherwise), the answers that are applied
  (C31), the ration of restarts (\<open>restarts_are_rationed\<close>), and the requests that overtake changes (C33).
  \<open>LanguageFeatures\<close> bounds what is made of results (\<open>server_results_are_bounded\<close>). \<open>LanguageRuntime\<close> is the
  application's side of the processes: effects, frames, polling. \<open>LanguageDescriptor\<close> is the choice of a program, its
  exact command and its approval, \<open>LanguageStore\<close> the settings that are kept, and
  \<open>LanguageCoordinator\<close> what the application knows of documents and servers. \<open>LanguageCoordinatorLaws\<close> has its operations
  as commands and the reachable coordinators; \<open>LanguageServers\<close> shows that they stay consistent (C35: at the present revision in the
  runs of \<open>coordinator_in_step\<close>, which \<open>reopening_keeps_old_completions\<close> shows to matter), that
  settings survive (C38), late answers change nothing (C37), and servers of a workspace run only as
  approved (C36; \<open>collide\<close> is two commands of one digest, of whose absence nothing is assumed).
  \<open>LanguageApp\<close> are the handlers of the application that drive all this, with two ways in which they go
  wrong (C39, C40). A time is its number of
  nanoseconds since the clock began.

  \<^bold>\<open>Not modelled\<close>. Terminal selections and the encoding of keys and of the mouse (\<open>selection.rs\<close>), the
  shell model, workspace identities and the capability registry would be next. Left out: sockets,
  authentication by an HMAC library, SSH and child processes, pseudo terminals, threads and
  channels, SQLite and encrypted files, directory walking and watching, themes in floating point,
  and the rest of the application's messages with its \<open>iced\<close> interface; they are calls into the operating system and into
  libraries with little logic of their own. Serialization derives are left out throughout.
\<close>

end
